(* ===== verification/Prelude.thy ===== *)
theory Prelude
  imports Main "HOL-Library.Word" "HOL-Library.List_Lexorder"
begin

text \<open>
  Shared vocabulary of the development: byte strings and the big-endian codecs of
  \<^verbatim>\<open>encoding/binary\<close> and \<^verbatim>\<open>math/big\<close>, the error values of the keeper, the error monad of
  read-only code and the state-and-error monad of code that writes.

  A Go \<^verbatim>\<open>error\<close> is a value of type \<open>error\<close>: one constructor for each sentinel that the code
  compares with \<^verbatim>\<open>errors.Is\<close>, \<open>SdkErr\<close> for an error registered by the SDK and \<open>Errorf\<close> for
  any other \<^verbatim>\<open>fmt.Errorf\<close>. A wrap with \<^verbatim>\<open>%w\<close> keeps the wrapped error (its identity under
  \<^verbatim>\<open>errors.Is\<close>), and formatted arguments are left out of the text.

  Code that only reads is a function into \<open>error + 'a\<close>. Code that writes is a function
  \<open>'s \<Rightarrow> (error + 'a) \<times> 's\<close>: the state after an error is part of the result, since a Go
  function that fails half way leaves its earlier writes behind.
\<close>

unbundle bit_operations_syntax

section \<open>Machine integers and bytes\<close>

type_synonym byte = "8 word"
type_synonym bytes = "byte list"
type_synonym u8 = "8 word"
type_synonym u16 = "16 word"
type_synonym u32 = "32 word"
type_synonym u64 = "64 word"

named_theorems codec_simps \<open>round trips and lengths of the byte codecs\<close>
named_theorems key_simps \<open>shapes of the store keys\<close>
named_theorems store_simps \<open>lookups in an updated store\<close>

section \<open>Big-endian numbers\<close>

text \<open>\<open>be_of_nat n v\<close> is \<open>v\<close> as exactly \<open>n\<close> big-endian bytes (the low \<open>8 n\<close> bits).\<close>

fun be_of_nat :: "nat \<Rightarrow> nat \<Rightarrow> bytes" where
  "be_of_nat 0 v = []"
| "be_of_nat (Suc n) v = be_of_nat n (v div 256) @ [word_of_nat v]"

text \<open>\<^verbatim>\<open>new(big.Int).SetBytes\<close>: the unsigned big-endian value of a byte string.\<close>

definition be_to_nat :: "bytes \<Rightarrow> nat" where
  "be_to_nat bs = foldl (\<lambda>acc b. acc * 256 + unat b) 0 bs"

text \<open>\<^verbatim>\<open>(*big.Int).Bytes\<close>: the shortest big-endian encoding, empty for zero.\<close>

fun big_bytes :: "nat \<Rightarrow> bytes" where
  "big_bytes v = (if v = 0 then [] else big_bytes (v div 256) @ [word_of_nat v])"

declare big_bytes.simps [simp del]

definition be16 :: "u16 \<Rightarrow> bytes" where "be16 w = be_of_nat 2 (unat w)"
definition be32 :: "u32 \<Rightarrow> bytes" where "be32 w = be_of_nat 4 (unat w)"
definition be64 :: "u64 \<Rightarrow> bytes" where "be64 w = be_of_nat 8 (unat w)"

text \<open>\<^verbatim>\<open>binary.BigEndian.Uint64\<close> and \<^verbatim>\<open>Uint16\<close> read the first 8 and 2 bytes; on a shorter slice
  they panic, so their callers are modelled with the length known.\<close>

definition un_be64 :: "bytes \<Rightarrow> u64" where "un_be64 bs = word_of_nat (be_to_nat (take 8 bs))"
definition un_be16 :: "bytes \<Rightarrow> u16" where "un_be16 bs = word_of_nat (be_to_nat (take 2 bs))"
definition un_be32 :: "bytes \<Rightarrow> u32" where "un_be32 bs = word_of_nat (be_to_nat (take 4 bs))"

definition MaxInt64 :: u64 where "MaxInt64 = 9223372036854775807"
definition MaxUint64 :: u64 where "MaxUint64 = 18446744073709551615"

text \<open>\<^verbatim>\<open>copy(a[:], b)\<close> into a zero array of 32 bytes.\<close>

definition copy32 :: "bytes \<Rightarrow> bytes" where
  "copy32 b = take 32 (b @ replicate 32 0)"

definition string_bytes :: "string \<Rightarrow> bytes" where
  "string_bytes s = map of_char s"

lemma be_to_nat_Nil [simp]: "be_to_nat [] = 0"
  by (simp add: be_to_nat_def)

lemma be_to_nat_snoc [simp]: "be_to_nat (bs @ [b]) = be_to_nat bs * 256 + unat b"
  by (simp add: be_to_nat_def)

lemma be_of_nat_length [simp, codec_simps]: "length (be_of_nat n v) = n"
  by (induction n arbitrary: v) auto

lemma unat_byte_of_nat [simp]: "unat (word_of_nat v :: 8 word) = v mod 256"
  by (simp add: unat_of_nat)

lemma unat_u8_less: "unat (w :: 8 word) < 256"
  using unsigned_less [where 'a = nat and w = w] by simp

lemma unat_u16_less: "unat (w :: 16 word) < 65536"
  using unsigned_less [where 'a = nat and w = w] by simp

lemma unat_u64_less: "unat (w :: 64 word) < 18446744073709551616"
  using unsigned_less [where 'a = nat and w = w] by simp

lemma be_to_nat_be_of_nat [codec_simps]: "be_to_nat (be_of_nat n v) = v mod 256 ^ n"
proof (induction n arbitrary: v)
  case (Suc n)
  have "v mod (256 * 256 ^ n) = 256 * (v div 256 mod 256 ^ n) + v mod 256"
    by (rule mod_mult2_eq)
  then show ?case using Suc by (simp add: mult.commute)
qed simp

lemma be_to_nat_less: "be_to_nat bs < 256 ^ length bs"
proof (induction bs rule: rev_induct)
  case (snoc b bs)
  have "unat b < 256" by (rule unat_u8_less)
  then have "be_to_nat bs * 256 + unat b < (be_to_nat bs + 1) * 256" by simp
  also have "\<dots> \<le> 256 ^ length bs * 256"
    using snoc by (intro mult_le_mono) auto
  finally show ?case by simp
qed simp

lemma be_of_nat_be_to_nat [codec_simps]: "length bs = n \<Longrightarrow> be_of_nat n (be_to_nat bs) = bs"
proof (induction bs arbitrary: n rule: rev_induct)
  case (snoc b bs)
  then obtain m where n: "n = Suc m" "length bs = m" by (cases n) auto
  have b: "unat b < 256" by (rule unat_u8_less)
  have "(word_of_nat (be_to_nat bs * 256 + unat b) :: 8 word) = b"
    by (rule word_unat_eq_iff [THEN iffD2], simp only: unat_byte_of_nat) (use b in simp)
  with b n snoc.IH show ?case by simp
qed simp

lemma be_to_nat_inj: "length xs = length ys \<Longrightarrow> be_to_nat xs = be_to_nat ys \<longleftrightarrow> xs = ys"
  by (metis be_of_nat_be_to_nat)

lemma be_of_nat_inj:
  "v < 256 ^ n \<Longrightarrow> w < 256 ^ n \<Longrightarrow> be_of_nat n v = be_of_nat n w \<longleftrightarrow> v = w"
  by (metis be_to_nat_be_of_nat mod_less)

lemma be_to_nat_replicate0: "be_to_nat (replicate n 0) = 0"
  by (induction n) (simp_all add: replicate_append_same [symmetric] del: replicate.simps(2) add: replicate_Suc)

lemma be_to_nat_append: "be_to_nat (xs @ ys) = be_to_nat xs * 256 ^ length ys + be_to_nat ys"
  by (induction ys rule: rev_induct)
    (simp_all add: append_assoc [symmetric] algebra_simps del: append_assoc)

lemma be_to_nat_big_bytes [simp, codec_simps]: "be_to_nat (big_bytes v) = v"
proof (induction v rule: big_bytes.induct)
  case (1 v)
  show ?case
  proof (cases "v = 0")
    case False
    with 1 show ?thesis by (simp add: big_bytes.simps [of v])
  qed (simp add: big_bytes.simps [of 0])
qed

lemma big_bytes_length: "v < 256 ^ n \<Longrightarrow> length (big_bytes v) \<le> n"
proof (induction n arbitrary: v)
  case 0
  then show ?case by (simp add: big_bytes.simps)
next
  case (Suc n)
  show ?case
  proof (cases "v = 0")
    case False
    from Suc.prems have "v div 256 < 256 ^ n"
      by (simp add: less_mult_imp_div_less mult.commute)
    from Suc.IH [OF this] False show ?thesis by (simp add: big_bytes.simps [of v])
  qed (simp add: big_bytes.simps)
qed

text \<open>Left-padding the shortest encoding with zeros is the fixed-width encoding.\<close>

lemma pad_big_bytes:
  assumes "v < 256 ^ n"
  shows "replicate (n - length (big_bytes v)) 0 @ big_bytes v = be_of_nat n v"
proof -
  let ?p = "replicate (n - length (big_bytes v)) 0 @ big_bytes v"
  have len: "length ?p = n" using big_bytes_length [OF assms] by simp
  have "be_to_nat ?p = v" by (simp add: be_to_nat_append be_to_nat_replicate0)
  with be_of_nat_be_to_nat [OF len] show ?thesis by simp
qed

lemma copy32_length [simp]: "length (copy32 b) = 32"
  by (simp add: copy32_def)

lemma be64_length [simp, codec_simps]: "length (be64 w) = 8"
  by (simp add: be64_def)

lemma be16_length [simp, codec_simps]: "length (be16 w) = 2"
  by (simp add: be16_def)

lemma be32_length [simp, codec_simps]: "length (be32 w) = 4"
  by (simp add: be32_def)

lemma un_be64_be64 [simp, codec_simps]: "un_be64 (be64 w) = w"
  using unat_u64_less [of w] by (simp add: un_be64_def be64_def be_to_nat_be_of_nat)

lemma un_be64_be64_append [simp, codec_simps]: "un_be64 (be64 w @ bs) = w"
  using unat_u64_less [of w] by (simp add: un_be64_def be64_def be_to_nat_be_of_nat)

lemma un_be16_be16_append [simp, codec_simps]: "un_be16 (be16 w @ bs) = w"
  using unat_u16_less [of w] by (simp add: un_be16_def be16_def be_to_nat_be_of_nat)

lemma be64_inj [simp, codec_simps]: "be64 v = be64 w \<longleftrightarrow> v = w"
  by (metis un_be64_be64)

lemma be64_un_be64 [codec_simps]:
  assumes "length bs = 8"
  shows "be64 (un_be64 bs) = bs"
proof -
  have "be_to_nat bs < 2 ^ 64" using be_to_nat_less [of bs] assms by simp
  then have "unat (word_of_nat (be_to_nat bs) :: u64) = be_to_nat bs"
    by (simp add: unat_of_nat)
  with assms show ?thesis by (simp add: be64_def un_be64_def be_of_nat_be_to_nat)
qed

lemma be16_un_be16 [codec_simps]:
  assumes "length bs = 2"
  shows "be16 (un_be16 bs) = bs"
proof -
  have "be_to_nat bs < 2 ^ 16" using be_to_nat_less [of bs] assms by simp
  then have "unat (word_of_nat (be_to_nat bs) :: u16) = be_to_nat bs"
    by (simp add: unat_of_nat)
  with assms show ?thesis by (simp add: be16_def un_be16_def be_of_nat_be_to_nat)
qed

lemma be32_un_be32 [codec_simps]:
  assumes "length bs = 4"
  shows "be32 (un_be32 bs) = bs"
proof -
  have "be_to_nat bs < 2 ^ 32" using be_to_nat_less [of bs] assms by simp
  then have "unat (word_of_nat (be_to_nat bs) :: u32) = be_to_nat bs"
    by (simp add: unat_of_nat)
  with assms show ?thesis by (simp add: be32_def un_be32_def be_of_nat_be_to_nat)
qed

lemma un_be32_be32 [simp, codec_simps]: "un_be32 (be32 w) = w"
proof -
  have "unat w < 256 ^ 4" using unsigned_less [of w, where 'a = nat] by simp
  then show ?thesis by (simp add: un_be32_def be32_def be_to_nat_be_of_nat)
qed

lemma un_be16_iff: "length bs = 2 \<Longrightarrow> un_be16 bs = w \<longleftrightarrow> bs = be16 w"
  using un_be16_be16_append [of w "[]"] be16_un_be16 by auto

lemma un_be32_iff: "length bs = 4 \<Longrightarrow> un_be32 bs = w \<longleftrightarrow> bs = be32 w"
  using be32_un_be32 by auto

text \<open>The slices of a fixed layout: \<open>fields_at ns bs\<close> cuts \<open>bs\<close> into consecutive slices of the lengths \<open>ns\<close>.\<close>

fun fields_at :: "nat list \<Rightarrow> bytes \<Rightarrow> bytes list" where
  "fields_at [] bs = []"
| "fields_at (n # ns) bs = take n bs # fields_at ns (drop n bs)"

lemma fields_at_concat: "map length xs = ns \<Longrightarrow> fields_at ns (concat xs) = xs"
  by (induction xs arbitrary: ns) auto

lemma concat_fields_at: "length bs = sum_list ns \<Longrightarrow> concat (fields_at ns bs) = bs"
  by (induction ns bs rule: fields_at.induct) auto

lemma fields_at_lengths: "length bs = sum_list ns \<Longrightarrow> map length (fields_at ns bs) = ns"
  by (induction ns bs rule: fields_at.induct) auto

lemma concat_layout_iff:
  "map length xs = ns \<Longrightarrow> bs = concat xs \<longleftrightarrow> length bs = sum_list ns \<and> fields_at ns bs = xs"
  using concat_fields_at [of bs ns] fields_at_concat [of xs ns] by (auto simp: length_concat)


section \<open>Words as numbers\<close>

text \<open>Loop indices of the program are \<^verbatim>\<open>uint64\<close>; below \<open>2 ^ 64\<close> their arithmetic is that of
  \<open>nat\<close>.\<close>

lemma u64_of_nat_unat [simp]: "x < 2 ^ 64 \<Longrightarrow> unat (word_of_nat x :: u64) = x"
  by (simp add: unat_of_nat)

lemma u64_of_nat_inj: "x < 2 ^ 64 \<Longrightarrow> y < 2 ^ 64 \<Longrightarrow> (word_of_nat x :: u64) = word_of_nat y \<longleftrightarrow> x = y"
  by (metis u64_of_nat_unat)

lemma u64_div2: "x < 2 ^ 64 \<Longrightarrow> (word_of_nat x :: u64) div 2 = word_of_nat (x div 2)"
  by (rule word_unat_eq_iff [THEN iffD2]) (simp add: unat_div)

lemma u64_mod2: "x < 2 ^ 64 \<Longrightarrow> (word_of_nat x :: u64) mod 2 = (if even x then 0 else 1)"
  by (rule word_unat_eq_iff [THEN iffD2]) (simp add: unat_mod mod_2_eq_odd)

lemma u64_minus1: "0 < x \<Longrightarrow> (word_of_nat x :: u64) - 1 = word_of_nat (x - 1)"
  by (simp add: of_nat_diff)

lemma u64_less: "x < 2 ^ 64 \<Longrightarrow> y < 2 ^ 64 \<Longrightarrow> (word_of_nat x :: u64) < word_of_nat y \<longleftrightarrow> x < y"
  by (simp add: word_less_nat_alt)

lemma u64_le: "x < 2 ^ 64 \<Longrightarrow> y < 2 ^ 64 \<Longrightarrow> (word_of_nat x :: u64) \<le> word_of_nat y \<longleftrightarrow> x \<le> y"
  by (simp add: word_le_nat_alt)

lemma u64_xor1:
  assumes "x + 1 < 2 ^ 64"
  shows "(word_of_nat x :: u64) XOR 1 = word_of_nat (if even x then x + 1 else x - 1)"
proof -
  have "even (word_of_nat x :: u64) \<longleftrightarrow> even x"
    using assms u64_mod2 [of x] by (simp add: even_iff_mod_2_eq_zero)
  moreover have "odd x \<Longrightarrow> 0 < x" by (rule odd_pos)
  ultimately show ?thesis by (auto simp: xor_one_eq u64_minus1)
qed

section \<open>Hexadecimal text\<close>

text \<open>\<^verbatim>\<open>fmt.Sprintf("%x", b)\<close> and \<^verbatim>\<open>hex.EncodeToString\<close>: two lower-case digits per byte.\<close>

definition hex_digit :: "nat \<Rightarrow> char" where
  "hex_digit d = ''0123456789abcdef'' ! d"

definition hex_of_bytes :: "bytes \<Rightarrow> string" where
  "hex_of_bytes bs = concat (map (\<lambda>b. [hex_digit (unat b div 16), hex_digit (unat b mod 16)]) bs)"

lemma hex_digit_inj:
  assumes "i < 16" "j < 16"
  shows "hex_digit i = hex_digit j \<longleftrightarrow> i = j"
proof -
  have "distinct ''0123456789abcdef''" by simp
  with assms show ?thesis unfolding hex_digit_def by (subst nth_eq_iff_index_eq) simp_all
qed

lemma hex_of_bytes_Nil [simp]: "hex_of_bytes [] = []"
  by (simp add: hex_of_bytes_def)

lemma hex_of_bytes_Cons [simp]:
  "hex_of_bytes (b # bs) = hex_digit (unat b div 16) # hex_digit (unat b mod 16) # hex_of_bytes bs"
  by (simp add: hex_of_bytes_def)

lemma hex_of_bytes_inj: "hex_of_bytes xs = hex_of_bytes ys \<longleftrightarrow> xs = ys"
proof (induction xs arbitrary: ys)
  case Nil
  then show ?case by (cases ys) auto
next
  case (Cons x xs)
  show ?case
  proof (cases ys)
    case Nil then show ?thesis by simp
  next
    case (Cons y ys')
    have d: "unat x div 16 < 16" "unat y div 16 < 16"
      using unat_u8_less [of x] unat_u8_less [of y] by auto
    have "x = y \<longleftrightarrow> unat x div 16 = unat y div 16 \<and> unat x mod 16 = unat y mod 16"
      by (metis div_mult_mod_eq word_unat_eq_iff)
    then show ?thesis using Cons.IH d by (auto simp: Cons hex_digit_inj)
  qed
qed

section \<open>Errors\<close>

datatype sdk_code = ErrLogic | ErrInvalidRequest | ErrInvalidAddress | ErrInsufficientFunds

datatype reservation_code =
    ErrInvalidReservation | ErrReservationNotFound | ErrOperationNotFound | ErrActiveReservationExists | ErrInvalidTransition | ErrCompareAndSetFailed
  | ErrLeaseUnavailable | ErrLeaseMismatch | ErrManualReviewRequired

datatype error =
    ErrMerkleCommitmentNotFound
  | ErrMerkleTreeOverflow
  | ErrMerkleTreeCapacity
  | ErrMerkleTreeRebuildTooLarge
  | ErrMerkleTreeNodeMissing
  | ErrMerkleTreeLeafMissing
  | ErrMerkleTreeLeafMismatch
  | ErrMerkleDuplicateCommitment
  | ErrMerkleZeroCommitment
  | ErrHistoricalPathQueryTooLarge
  | ErrHistoricalPathQueryBusy
  | ErrMerkleQueryCachedRootMissing
  | ErrInvalidField
  | ErrInvalidKind
  | ErrInvalidEnvelope
  | ErrInvalidPoint
  | ErrInvalidAuditKey
  | ErrAuditDecrypt
  | ErrReserveStateInvalid
  | ErrReserveUnderCollateralized
  | SdkErr sdk_code string
  | ReservationErr reservation_code string
  | OutOfGas string
  | Errorf string

type_synonym 'a res = "error + 'a"

subsection \<open>Read-only code\<close>

definition bindE :: "'e + 'a \<Rightarrow> ('a \<Rightarrow> 'e + 'b) \<Rightarrow> 'e + 'b" where
  "bindE m f = (case m of Inl e \<Rightarrow> Inl e | Inr x \<Rightarrow> f x)"

definition guardE :: "bool \<Rightarrow> 'e \<Rightarrow> 'e + unit" where
  "guardE b e = (if b then Inr () else Inl e)"

text \<open>\<^verbatim>\<open>if err != nil { return wrap(err) }\<close>.\<close>

definition mapErr :: "('e \<Rightarrow> 'f) \<Rightarrow> 'e + 'a \<Rightarrow> 'f + 'a" where
  "mapErr g m = (case m of Inl e \<Rightarrow> Inl (g e) | Inr x \<Rightarrow> Inr x)"

lemma bindE_Inl [simp]: "bindE (Inl e) f = Inl e" by (simp add: bindE_def)
lemma bindE_Inr [simp]: "bindE (Inr x) f = f x" by (simp add: bindE_def)

lemma bindE_eq_Inr [simp]: "bindE m f = Inr y \<longleftrightarrow> (\<exists>x. m = Inr x \<and> f x = Inr y)"
  by (cases m) auto

lemma bindE_eq_Inl: "bindE m f = Inl e \<longleftrightarrow> m = Inl e \<or> (\<exists>x. m = Inr x \<and> f x = Inl e)"
  by (cases m) auto

lemma bindE_cong [fundef_cong]:
  "m = m' \<Longrightarrow> (\<And>x. m' = Inr x \<Longrightarrow> f x = f' x) \<Longrightarrow> bindE m f = bindE m' f'"
  by (cases m') auto

lemma guardE_eq_Inr [simp]: "guardE b e = Inr u \<longleftrightarrow> b" by (simp add: guardE_def)
lemma guardE_eq_Inl [simp]: "guardE b e = Inl e' \<longleftrightarrow> \<not> b \<and> e' = e" by (auto simp: guardE_def)
lemma guardE_True [simp]: "guardE True e = Inr ()" by (simp add: guardE_def)
lemma guardE_False [simp]: "guardE False e = Inl e" by (simp add: guardE_def)

lemma mapErr_eq_Inr [simp]: "mapErr g m = Inr y \<longleftrightarrow> m = Inr y"
  by (simp add: mapErr_def split: sum.splits)
lemma mapErr_Inl [simp]: "mapErr g (Inl e) = Inl (g e)" by (simp add: mapErr_def)
lemma mapErr_Inr [simp]: "mapErr g (Inr x) = Inr x" by (simp add: mapErr_def)

lemma case_option_Inr: "(case x of None \<Rightarrow> Inl e | Some a \<Rightarrow> f a) = Inr y \<longleftrightarrow> (\<exists>a. x = Some a \<and> f a = Inr y)"
  by (cases x) auto

lemma case_sum_ok: "(case x of Inl _ \<Rightarrow> False | Inr a \<Rightarrow> P a) \<longleftrightarrow> (\<exists>a. x = Inr a \<and> P a)"
  by (cases x) auto

text \<open>Code with a single error value.\<close>

definition fails_only :: "'e \<Rightarrow> 'e + 'a \<Rightarrow> bool" where
  "fails_only e m = (\<forall>e'. m = Inl e' \<longrightarrow> e' = e)"

lemma fails_only_bind: "fails_only e m \<Longrightarrow> (\<And>x. fails_only e (f x)) \<Longrightarrow> fails_only e (bindE m f)"
  by (auto simp: fails_only_def bindE_eq_Inl)

lemma fails_only_simps [simp]:
  "fails_only e (guardE b e)" "fails_only e (mapErr (\<lambda>_. e) m)" "fails_only e (Inl e)" "fails_only e (Inr x)"
  by (auto simp: fails_only_def mapErr_def split: sum.splits)

text \<open>A loop that stops at the first error, collecting its results in order.\<close>

fun traverseE :: "('a \<Rightarrow> 'e + 'b) \<Rightarrow> 'a list \<Rightarrow> 'e + 'b list" where
  "traverseE f [] = Inr []"
| "traverseE f (x # xs) = bindE (f x) (\<lambda>y. bindE (traverseE f xs) (\<lambda>ys. Inr (y # ys)))"

lemma traverseE_Inr_iff:
  "traverseE f xs = Inr ys \<longleftrightarrow> list_all2 (\<lambda>x y. f x = Inr y) xs ys"
  by (induction xs arbitrary: ys) (auto simp: list_all2_Cons1)

lemma traverseE_map: "(\<And>x. x \<in> set xs \<Longrightarrow> f x = Inr (g x)) \<Longrightarrow> traverseE f xs = Inr (map g xs)"
  by (induction xs) auto

lemma traverseE_cong [fundef_cong]:
  "xs = ys \<Longrightarrow> (\<And>x. x \<in> set ys \<Longrightarrow> f x = g x) \<Longrightarrow> traverseE f xs = traverseE g ys"
  by (induction xs arbitrary: ys) auto

subsection \<open>Code that writes\<close>

type_synonym ('s, 'a) action = "'s \<Rightarrow> (error + 'a) \<times> 's"

definition retM :: "'a \<Rightarrow> ('s, 'a) action" where
  "retM x = (\<lambda>s. (Inr x, s))"

definition failM :: "error \<Rightarrow> ('s, 'a) action" where
  "failM e = (\<lambda>s. (Inl e, s))"

definition bindM :: "('s, 'a) action \<Rightarrow> ('a \<Rightarrow> ('s, 'b) action) \<Rightarrow> ('s, 'b) action" where
  "bindM m f = (\<lambda>s. case m s of (Inl e, s') \<Rightarrow> (Inl e, s') | (Inr x, s') \<Rightarrow> f x s')"

definition readM :: "('s \<Rightarrow> error + 'a) \<Rightarrow> ('s, 'a) action" where
  "readM r = (\<lambda>s. (r s, s))"

definition writeM :: "('s \<Rightarrow> 's) \<Rightarrow> ('s, unit) action" where
  "writeM f = (\<lambda>s. (Inr (), f s))"

definition guardM :: "bool \<Rightarrow> error \<Rightarrow> ('s, unit) action" where
  "guardM b e = (\<lambda>s. (guardE b e, s))"

text \<open>\<^verbatim>\<open>cacheCtx, writeCache := ctx.CacheContext()\<close>: the writes of a failed action are dropped.\<close>

definition cachedM :: "('s, 'a) action \<Rightarrow> ('s, 'a) action" where
  "cachedM m = (\<lambda>s. case m s of (Inl e, s') \<Rightarrow> (Inl e, s) | (Inr x, s') \<Rightarrow> (Inr x, s'))"

text \<open>A loop over a list that stops at the first error.\<close>

fun forM :: "'x list \<Rightarrow> ('x \<Rightarrow> ('s, unit) action) \<Rightarrow> ('s, unit) action" where
  "forM [] f = retM ()"
| "forM (x # xs) f = bindM (f x) (\<lambda>_. forM xs f)"

named_theorems act_simps \<open>running actions\<close>

lemma retM_run [simp, act_simps]: "retM x s = (Inr x, s)" by (simp add: retM_def)
lemma failM_run [simp, act_simps]: "failM e s = (Inl e, s)" by (simp add: failM_def)
lemma readM_run [simp, act_simps]: "readM r s = (r s, s)" by (simp add: readM_def)
lemma writeM_run [simp, act_simps]: "writeM f s = (Inr (), f s)" by (simp add: writeM_def)
lemma guardM_run [simp, act_simps]: "guardM b e s = (guardE b e, s)" by (simp add: guardM_def)

lemma bindM_run [act_simps]:
  "bindM m f s = (case m s of (Inl e, s') \<Rightarrow> (Inl e, s') | (Inr x, s') \<Rightarrow> f x s')"
  by (simp add: bindM_def)

lemma bindM_ok [simp]:
  "bindM m f s = (Inr y, t) \<longleftrightarrow> (\<exists>x u. m s = (Inr x, u) \<and> f x u = (Inr y, t))"
  by (auto simp: bindM_def split: prod.splits sum.splits)

lemma bindM_fail:
  "bindM m f s = (Inl e, t) \<longleftrightarrow> m s = (Inl e, t) \<or> (\<exists>x u. m s = (Inr x, u) \<and> f x u = (Inl e, t))"
  by (auto simp: bindM_def split: prod.splits sum.splits)

lemma bindM_step: "m s = (Inr x, u) \<Longrightarrow> bindM m f s = f x u"
  by (simp add: bindM_def)

lemma bindM_ret [simp]: "bindM (retM x) f = f x"
  by (rule ext) (simp add: bindM_def)

lemma bindM_assoc: "bindM (bindM m f) g = bindM m (\<lambda>x. bindM (f x) g)"
  by (rule ext) (auto simp: bindM_def split: prod.splits sum.splits)

lemma bindM_write [simp]: "bindM (writeM w) f s = f () (w s)"
  by (simp add: bindM_def)

lemma cachedM_ok [simp]: "cachedM m s = (Inr x, t) \<longleftrightarrow> m s = (Inr x, t)"
  by (auto simp: cachedM_def split: prod.splits sum.splits)

lemma cachedM_fail: "cachedM m s = (Inl e, t) \<Longrightarrow> t = s"
  by (auto simp: cachedM_def split: prod.splits sum.splits)

end
