(* ===== verification/KV_Store.thy ===== *)
theory KV_Store
  imports Prelude
begin

text \<open>
  The key-value store of the module and its keys (\<^verbatim>\<open>x/privacy/types/keys.go\<close>, and the two text
  keys of \<^verbatim>\<open>x/privacy/keeper/tree.go\<close>).

  The contents of the store are a list of key/value pairs in ascending byte order of the keys,
  which is what \<^verbatim>\<open>Get\<close>, \<^verbatim>\<open>Has\<close>, \<^verbatim>\<open>Set\<close>, \<^verbatim>\<open>Delete\<close> and an ascending \<^verbatim>\<open>Iterator\<close> observe. The store
  interface can also report an I/O error; the model has no such error. The locale
  \<open>kv_interface\<close> states the laws that the components rely on, and the list implements them.
\<close>

section \<open>Contents of a store\<close>

type_synonym store = "(bytes \<times> bytes) list"

definition kv_get :: "store \<Rightarrow> bytes \<Rightarrow> bytes option" where
  "kv_get s k = map_of s k"

definition kv_has :: "store \<Rightarrow> bytes \<Rightarrow> bool" where
  "kv_has s k = (kv_get s k \<noteq> None)"

fun kv_set :: "bytes \<Rightarrow> bytes \<Rightarrow> store \<Rightarrow> store" where
  "kv_set k v [] = [(k, v)]"
| "kv_set k v ((k', v') # s) =
     (if k = k' then (k, v) # s else if k < k' then (k, v) # (k', v') # s
      else (k', v') # kv_set k v s)"

definition kv_delete :: "bytes \<Rightarrow> store \<Rightarrow> store" where
  "kv_delete k s = filter (\<lambda>(k', _). k' \<noteq> k) s"

text \<open>\<^verbatim>\<open>Iterator(start, end)\<close>: the pairs with \<open>start \<le> key < end\<close>, ascending.\<close>

definition kv_range :: "bytes \<Rightarrow> bytes \<Rightarrow> store \<Rightarrow> store" where
  "kv_range lo hi s = filter (\<lambda>(k, _). lo \<le> k \<and> k < hi) s"

definition kv_wf :: "store \<Rightarrow> bool" where
  "kv_wf s = sorted_wrt (<) (map fst s)"

lemma kv_get_set [simp, store_simps]: "kv_get (kv_set k v s) k' = (if k' = k then Some v else kv_get s k')"
  unfolding kv_get_def by (induction s rule: kv_set.induct [of _ k v]) auto

lemma kv_get_delete [simp, store_simps]: "kv_get (kv_delete k s) k' = (if k' = k then None else kv_get s k')"
  unfolding kv_get_def kv_delete_def by (induction s) auto

lemma kv_get_Nil [simp, store_simps]: "kv_get [] k = None"
  by (simp add: kv_get_def)

lemma kv_has_set [simp, store_simps]: "kv_has (kv_set k v s) k' = (k' = k \<or> kv_has s k')"
  by (simp add: kv_has_def)

lemma kv_has_delete [simp, store_simps]: "kv_has (kv_delete k s) k' = (k' \<noteq> k \<and> kv_has s k')"
  by (simp add: kv_has_def)

lemma keys_kv_set: "set (map fst (kv_set k v s)) = insert k (set (map fst s))"
  by (induction k v s rule: kv_set.induct) auto

lemma kv_wf_Nil [simp]: "kv_wf []"
  by (simp add: kv_wf_def)

lemma kv_wf_set [simp, intro]: "kv_wf s \<Longrightarrow> kv_wf (kv_set k v s)"
proof (induction k v s rule: kv_set.induct)
  case (2 k v k' v' s)
  show ?case
  proof (cases "k = k' \<or> k < k'")
    case True
    with "2.prems" show ?thesis by (auto simp: kv_wf_def)
  next
    case False
    then have less: "k' < k" by auto
    from 2 False have "sorted_wrt (<) (map fst (kv_set k v s))" by (simp add: kv_wf_def)
    moreover have "\<forall>x \<in> set (map fst (kv_set k v s)). k' < x"
      using "2.prems" less unfolding keys_kv_set by (simp add: kv_wf_def)
    ultimately show ?thesis using False by (simp add: kv_wf_def)
  qed
qed (simp add: kv_wf_def)

lemma kv_wf_filter: "kv_wf s \<Longrightarrow> kv_wf (filter P s)"
  by (induction s) (auto simp: kv_wf_def)

lemma kv_wf_delete [simp, intro]: "kv_wf s \<Longrightarrow> kv_wf (kv_delete k s)"
  unfolding kv_delete_def by (rule kv_wf_filter)

lemma kv_wf_range: "kv_wf s \<Longrightarrow> kv_wf (kv_range lo hi s)"
  unfolding kv_range_def by (rule kv_wf_filter)

lemma kv_wf_distinct: "kv_wf s \<Longrightarrow> distinct (map fst s)"
  by (auto simp: kv_wf_def strict_sorted_iff)

lemma kv_mem_iff: "kv_wf s \<Longrightarrow> (k, v) \<in> set s \<longleftrightarrow> kv_get s k = Some v"
  by (simp add: kv_get_def kv_wf_distinct map_of_eq_Some_iff)

lemma kv_range_mem:
  "kv_wf s \<Longrightarrow> (k, v) \<in> set (kv_range lo hi s) \<longleftrightarrow> lo \<le> k \<and> k < hi \<and> kv_get s k = Some v"
  by (auto simp: kv_range_def kv_mem_iff)

section \<open>The interface\<close>

text \<open>What the keeper relies on: a read sees the last write, an iteration yields exactly the
  stored pairs of its range in strictly ascending key order.\<close>

locale kv_interface =
  fixes get :: "'s \<Rightarrow> bytes \<Rightarrow> bytes option"
    and put :: "bytes \<Rightarrow> bytes \<Rightarrow> 's \<Rightarrow> 's"
    and del :: "bytes \<Rightarrow> 's \<Rightarrow> 's"
    and iter :: "bytes \<Rightarrow> bytes \<Rightarrow> 's \<Rightarrow> (bytes \<times> bytes) list"
    and empty :: "'s"
    and wf :: "'s \<Rightarrow> bool"
  assumes get_put: "get (put k v s) k' = (if k' = k then Some v else get s k')"
    and get_del: "get (del k s) k' = (if k' = k then None else get s k')"
    and get_empty: "get empty k = None"
    and wf_empty: "wf empty"
    and wf_put: "wf s \<Longrightarrow> wf (put k v s)"
    and wf_del: "wf s \<Longrightarrow> wf (del k s)"
    and iter_mem: "wf s \<Longrightarrow> (k, v) \<in> set (iter lo hi s) \<longleftrightarrow> lo \<le> k \<and> k < hi \<and> get s k = Some v"
    and iter_sorted: "wf s \<Longrightarrow> sorted_wrt (<) (map fst (iter lo hi s))"
begin

text \<open>An iteration is determined by the lookups in its range: writes outside it do not show.\<close>

lemma iter_cong:
  assumes "wf s" "wf t" and same: "\<And>k. lo \<le> k \<Longrightarrow> k < hi \<Longrightarrow> get s k = get t k"
  shows "iter lo hi s = iter lo hi t"
proof -
  have sub: "wf x \<Longrightarrow> wf y \<Longrightarrow> (\<And>k. lo \<le> k \<Longrightarrow> k < hi \<Longrightarrow> get x k = get y k)
      \<Longrightarrow> set (iter lo hi x) \<subseteq> set (iter lo hi y)" for x y
    by (auto simp: iter_mem)
  have set_eq: "set (iter lo hi s) = set (iter lo hi t)"
    using sub [OF assms(1,2) same] sub [OF assms(2,1) same [symmetric]] by auto
  have keys: "map fst (iter lo hi s) = map fst (iter lo hi t)"
  proof (rule sorted_distinct_set_unique)
    show "sorted (map fst (iter lo hi s))" "distinct (map fst (iter lo hi s))"
      using iter_sorted [OF assms(1), of lo hi] by (auto simp: strict_sorted_iff)
    show "sorted (map fst (iter lo hi t))" "distinct (map fst (iter lo hi t))"
      using iter_sorted [OF assms(2), of lo hi] by (auto simp: strict_sorted_iff)
    show "set (map fst (iter lo hi s)) = set (map fst (iter lo hi t))"
      using set_eq by auto
  qed
  have val: "\<forall>p \<in> set (iter lo hi x). snd p = the (get x (fst p))" if "wf x" for x
    using that by (auto simp: iter_mem)
  have rebuild: "iter lo hi x = map (\<lambda>k. (k, the (get x k))) (map fst (iter lo hi x))" if "wf x" for x
    using val [OF that] by (auto intro!: map_idI [symmetric] simp: prod_eq_iff)
  have in_range: "lo \<le> k \<and> k < hi" if "k \<in> set (map fst (iter lo hi s))" for k
    using that assms(1) by (auto simp: iter_mem)
  have "iter lo hi s = map (\<lambda>k. (k, the (get s k))) (map fst (iter lo hi s))"
    by (rule rebuild [OF assms(1)])
  also have "\<dots> = map (\<lambda>k. (k, the (get t k))) (map fst (iter lo hi s))"
    by (rule map_cong [OF refl]) (use same in_range in auto)
  also have "\<dots> = iter lo hi t"
    unfolding keys using rebuild [OF assms(2)] by simp
  finally show ?thesis .
qed

lemma iter_put_outside: "wf s \<Longrightarrow> \<not> (lo \<le> k \<and> k < hi) \<Longrightarrow> iter lo hi (put k v s) = iter lo hi s"
  by (rule iter_cong) (auto simp: wf_put get_put)

lemma iter_del_outside: "wf s \<Longrightarrow> \<not> (lo \<le> k \<and> k < hi) \<Longrightarrow> iter lo hi (del k s) = iter lo hi s"
  by (rule iter_cong) (auto simp: wf_del get_del)

lemma iter_empty_iff: "wf s \<Longrightarrow> iter lo hi s = [] \<longleftrightarrow> (\<forall>k. lo \<le> k \<longrightarrow> k < hi \<longrightarrow> get s k = None)"
  using iter_mem [of s _ _ lo hi] by (cases "iter lo hi s") (auto, fastforce)

lemma iter_single:
  assumes "wf s" "lo \<le> k" "k < hi"
    and "\<And>k'. lo \<le> k' \<Longrightarrow> k' < hi \<Longrightarrow> k' \<noteq> k \<Longrightarrow> get s k' = None" and "get s k = Some v"
  shows "iter lo hi s = [(k, v)]"
proof -
  have "iter lo hi s = iter lo hi (put k v empty)"
    by (rule iter_cong) (use assms in \<open>auto simp: wf_put wf_empty get_put get_empty\<close>)
  moreover have "set (iter lo hi (put k v empty)) = {(k, v)}"
    using assms(2,3) by (auto simp: iter_mem wf_put wf_empty get_put get_empty split: if_splits)
  moreover have "distinct (map fst (iter lo hi (put k v empty)))"
    using iter_sorted [OF wf_put [OF wf_empty], of lo hi k v] by (simp add: strict_sorted_iff)
  ultimately show ?thesis
    by (cases "iter lo hi (put k v empty)") (auto simp: subset_singleton_iff)
qed

end

interpretation kv: kv_interface kv_get kv_set kv_delete kv_range "[]" kv_wf
proof
  show "kv_wf s \<Longrightarrow> sorted_wrt (<) (map fst (kv_range lo hi s))" for s lo hi
    using kv_wf_range [of s lo hi] by (simp add: kv_wf_def)
qed (auto simp: kv_range_mem)


section \<open>Keys\<close>

definition KeyPrefixNullifier :: byte where "KeyPrefixNullifier = 0x01"
definition KeyPrefixMerkleNode :: byte where "KeyPrefixMerkleNode = 0x02"
definition KeyPrefixHistoricalRoot :: byte where "KeyPrefixHistoricalRoot = 0x03"
definition KeyPrefixCommitmentIdx :: byte where "KeyPrefixCommitmentIdx = 0x04"
definition KeyPrefixAuditConfig :: byte where "KeyPrefixAuditConfig = 0x05"
definition KeyPrefixPrivacyEvent :: byte where "KeyPrefixPrivacyEvent = 0x06"
definition KeyPrefixPrivacyEventSeq :: byte where "KeyPrefixPrivacyEventSeq = 0x07"
definition KeyPrefixReserveDeposit :: byte where "KeyPrefixReserveDeposit = 0x08"
definition KeyPrefixReserveWithdraw :: byte where "KeyPrefixReserveWithdraw = 0x09"
definition KeyPrefixCircuitIdentity :: byte where "KeyPrefixCircuitIdentity = 0x0a"
definition KeyPrefixAssetByDenom :: byte where "KeyPrefixAssetByDenom = 0x0b"
definition KeyPrefixAssetByID :: byte where "KeyPrefixAssetByID = 0x0c"
definition KeyPrefixScanSummary :: byte where "KeyPrefixScanSummary = 0x0d"
definition KeyPrefixScanOutput :: byte where "KeyPrefixScanOutput = 0x0e"
definition KeyPrefixRootSnapshot :: byte where "KeyPrefixRootSnapshot = 0x0f"
definition KeyPrefixScanSequence :: byte where "KeyPrefixScanSequence = 0x10"
definition KeyPrefixAuditKeyID :: byte where "KeyPrefixAuditKeyID = 0x11"
definition KeyPrefixAuditKeyEpoch :: byte where "KeyPrefixAuditKeyEpoch = 0x12"

lemmas key_prefix_defs =
  KeyPrefixNullifier_def KeyPrefixMerkleNode_def KeyPrefixHistoricalRoot_def
  KeyPrefixCommitmentIdx_def KeyPrefixAuditConfig_def KeyPrefixPrivacyEvent_def
  KeyPrefixPrivacyEventSeq_def KeyPrefixReserveDeposit_def KeyPrefixReserveWithdraw_def
  KeyPrefixCircuitIdentity_def KeyPrefixAssetByDenom_def KeyPrefixAssetByID_def
  KeyPrefixScanSummary_def KeyPrefixScanOutput_def KeyPrefixRootSnapshot_def
  KeyPrefixScanSequence_def KeyPrefixAuditKeyID_def KeyPrefixAuditKeyEpoch_def

definition GetMerkleNodeKey :: "u8 \<Rightarrow> u64 \<Rightarrow> bytes" where
  "GetMerkleNodeKey level index = KeyPrefixMerkleNode # level # be64 index"

definition GetHistoricalRootKey :: "bytes \<Rightarrow> bytes" where
  "GetHistoricalRootKey root = KeyPrefixHistoricalRoot # root"

definition GetNullifierKey :: "bytes \<Rightarrow> bytes" where
  "GetNullifierKey nullifier = KeyPrefixNullifier # nullifier"

definition GetCommitmentIndexKey :: "bytes \<Rightarrow> bytes" where
  "GetCommitmentIndexKey commitment = KeyPrefixCommitmentIdx # commitment"

definition GetAuditConfigKey :: bytes where "GetAuditConfigKey = [KeyPrefixAuditConfig]"
definition GetAuditKeyIDKey :: bytes where "GetAuditKeyIDKey = [KeyPrefixAuditKeyID]"
definition GetAuditKeyEpochKey :: bytes where "GetAuditKeyEpochKey = [KeyPrefixAuditKeyEpoch]"
definition GetCircuitIdentityKey :: bytes where "GetCircuitIdentityKey = [KeyPrefixCircuitIdentity]"
definition GetPrivacyGlobalSequenceKey :: bytes where
  "GetPrivacyGlobalSequenceKey = [KeyPrefixPrivacyEventSeq]"

definition GetPrivacyEventKey :: "int \<Rightarrow> u64 \<Rightarrow> bytes" where
  "GetPrivacyEventKey height sequence =
     KeyPrefixPrivacyEvent # be64 (word_of_int height) @ be64 sequence"

definition GetPrivacyScanSummaryKey :: "int \<Rightarrow> u64 \<Rightarrow> bytes" where
  "GetPrivacyScanSummaryKey height sequence =
     KeyPrefixScanSummary # be64 (word_of_int height) @ be64 sequence"

definition GetPrivacyScanOutputKey :: "int \<Rightarrow> u64 \<Rightarrow> u32 \<Rightarrow> bytes" where
  "GetPrivacyScanOutputKey height sequence output =
     KeyPrefixScanOutput # be64 (word_of_int height) @ be64 sequence @ be32 output"

definition GetPrivacyScanSequenceKey :: "u64 \<Rightarrow> bytes" where
  "GetPrivacyScanSequenceKey sequence = KeyPrefixScanSequence # be64 sequence"

definition GetAssetByDenomKey :: "string \<Rightarrow> bytes" where
  "GetAssetByDenomKey denom = KeyPrefixAssetByDenom # string_bytes denom"

definition GetAssetByIDKey :: "bytes \<Rightarrow> bytes" where
  "GetAssetByIDKey assetID = KeyPrefixAssetByID # assetID"

definition GetMerkleRootSnapshotKey :: "bytes \<Rightarrow> bytes" where
  "GetMerkleRootSnapshotKey root = KeyPrefixRootSnapshot # root"

definition GetReserveDepositKey :: "string \<Rightarrow> bytes" where
  "GetReserveDepositKey denom = KeyPrefixReserveDeposit # string_bytes denom"

definition GetReserveWithdrawKey :: "string \<Rightarrow> bytes" where
  "GetReserveWithdrawKey denom = KeyPrefixReserveWithdraw # string_bytes denom"

text \<open>The text keys of \<^verbatim>\<open>tree.go\<close>: \<^verbatim>\<open>"LeafCount"\<close> and \<^verbatim>\<open>"Leaf/"\<close> followed by the index.\<close>

definition LeafCountKey :: bytes where
  "LeafCountKey = string_bytes ''LeafCount''"

definition LeafKey :: "u64 \<Rightarrow> bytes" where
  "LeafKey index = string_bytes ''Leaf/'' @ be64 index"

lemma string_bytes_Nil [simp]: "string_bytes [] = []"
  by (simp add: string_bytes_def)

lemma string_bytes_Cons [simp]: "string_bytes (c # s) = of_char c # string_bytes s"
  by (simp add: string_bytes_def)

lemma of_char_byte_inj: "(of_char c :: byte) = of_char d \<longleftrightarrow> c = d"
proof -
  have "unat (of_char c :: byte) = of_char c" for c
    by (metis of_char_mod_256 of_nat_of_char unat_byte_of_nat)
  then show ?thesis by (metis of_char_eq_iff)
qed

lemma string_bytes_inj [simp]: "string_bytes s = string_bytes t \<longleftrightarrow> s = t"
  unfolding string_bytes_def by (rule inj_map_eq_map) (simp add: inj_def of_char_byte_inj)

lemma LeafCountKey_shape [key_simps]: "LeafCountKey = 76 # 101 # 97 # 102 # [67, 111, 117, 110, 116]"
  by (simp add: LeafCountKey_def)

lemma LeafKey_shape [key_simps]: "LeafKey i = 76 # 101 # 97 # 102 # 47 # be64 i"
  by (simp add: LeafKey_def)

lemmas key_shapes [key_simps] =
  GetMerkleNodeKey_def GetHistoricalRootKey_def GetNullifierKey_def GetCommitmentIndexKey_def
  GetAuditConfigKey_def GetAuditKeyIDKey_def GetAuditKeyEpochKey_def GetCircuitIdentityKey_def
  GetPrivacyGlobalSequenceKey_def GetPrivacyEventKey_def GetPrivacyScanSummaryKey_def
  GetPrivacyScanOutputKey_def GetPrivacyScanSequenceKey_def GetAssetByDenomKey_def
  GetAssetByIDKey_def GetMerkleRootSnapshotKey_def GetReserveDepositKey_def GetReserveWithdrawKey_def
  key_prefix_defs

text \<open>The keys of one byte prefix are exactly the range that an iterator over it visits
  (\<^verbatim>\<open>PrefixEndBytes\<close> of a single byte below 255 is its successor).\<close>

lemma prefix_range_iff:
  assumes "p < (255 :: byte)"
  shows "[p] \<le> k \<and> k < [p + 1] \<longleftrightarrow> (\<exists>r. k = p # r)"
proof (cases k)
  case Nil
  then show ?thesis by simp
next
  case (Cons b r)
  have pp: "p < p + 1" using assms by (simp add: word_less_nat_alt unat_word_ariths)
  have "b < p + 1 \<longleftrightarrow> b \<le> p" using assms by (simp add: word_less_nat_alt word_le_nat_alt unat_word_ariths less_Suc_eq_le)
  moreover have "\<not> r < []" by simp
  ultimately show ?thesis using Cons pp by auto
qed

section \<open>Numbered keys\<close>

lemma be_to_nat_Cons: "be_to_nat (b # bs) = unat b * 256 ^ length bs + be_to_nat bs"
  using be_to_nat_append [of "[b]" bs] be_to_nat_snoc [of "[]" b] by simp

text \<open>On byte strings of one length, the byte order is the order of the numbers they encode.\<close>

lemma be_order: "length xs = length ys \<Longrightarrow> (xs :: bytes) < ys \<longleftrightarrow> be_to_nat xs < be_to_nat ys"
proof (induction xs ys rule: list_induct2)
  case (Cons x xs y ys)
  let ?m = "256 ^ length ys :: nat"
  have lx: "be_to_nat xs < ?m" and ly: "be_to_nat ys < ?m"
    using be_to_nat_less [of xs] be_to_nat_less [of ys] Cons.hyps by simp_all
  have far: "a * ?m + be_to_nat u < b * ?m + be_to_nat v" if "a < b" "be_to_nat u < ?m" for a b u v
  proof -
    have "(a + 1) * ?m \<le> b * ?m" using that(1) by (intro mult_le_mono1) simp
    with that(2) show ?thesis by simp
  qed
  consider "x < y" | "x = y" | "y < x" by fastforce
  then show ?case
  proof cases
    case 1
    then have "unat x < unat y" by (simp add: word_less_nat_alt)
    with far [of "unat x" "unat y" xs ys] lx 1 show ?thesis by (simp add: be_to_nat_Cons Cons.hyps)
  next
    case 2
    with Cons show ?thesis by (simp add: be_to_nat_Cons)
  next
    case 3
    then have "unat y < unat x" by (simp add: word_less_nat_alt)
    with far [of "unat y" "unat x" ys xs] ly 3 show ?thesis by (auto simp: be_to_nat_Cons Cons.hyps)
  qed
qed simp

lemma be64_order [simp]: "be64 a < be64 b \<longleftrightarrow> a < b"
proof -
  have "unat w mod 18446744073709551616 = unat w" for w :: u64 using unat_u64_less [of w] by simp
  then show ?thesis using be_order [of "be64 a" "be64 b"]
    by (simp add: be64_def be_to_nat_be_of_nat word_less_nat_alt)
qed

text \<open>Two ascending lists of pairs with the same members are equal.\<close>

lemma sorted_pairs_eq:
  assumes "sorted_wrt (<) (map fst xs)" "sorted_wrt (<) (map fst ys)" "set xs = set ys"
  shows "xs = (ys :: (bytes \<times> bytes) list)"
proof -
  have keys: "map fst xs = map fst ys"
    by (rule sorted_distinct_set_unique) (use assms in \<open>auto simp: strict_sorted_iff\<close>)
  have "inj_on fst (set xs \<union> set ys)"
    using assms by (auto simp: strict_sorted_iff distinct_map)
  then show ?thesis using keys by (metis map_inj_on)
qed

lemma kv_range_set:
  assumes "kv_wf s" "lo \<le> k" "k < hi" "\<And>k' v'. (k', v') \<in> set (kv_range lo hi s) \<Longrightarrow> k' < k"
  shows "kv_range lo hi (kv_set k v s) = kv_range lo hi s @ [(k, v)]"
proof (rule sorted_pairs_eq)
  show "sorted_wrt (<) (map fst (kv_range lo hi (kv_set k v s)))"
    using kv.iter_sorted [OF kv_wf_set [OF assms(1)]] .
  show "sorted_wrt (<) (map fst (kv_range lo hi s @ [(k, v)]))"
    using kv.iter_sorted [OF assms(1)] assms(4) by (auto simp: sorted_wrt_append)
  show "set (kv_range lo hi (kv_set k v s)) = set (kv_range lo hi s @ [(k, v)])"
    using assms(2,3,4) kv_range_mem [OF kv_wf_set [OF assms(1)], of _ _ lo hi k v] kv_range_mem [OF assms(1), of _ _ lo hi]
    by (auto split: if_splits) (use less_irrefl in blast)+
qed

lemma kv_range_delete: "kv_range lo hi (kv_delete k s) = filter (\<lambda>(k', _). k' \<noteq> k) (kv_range lo hi s)"
  unfolding kv_range_def kv_delete_def by (induction s) auto

end
