(* ===== verification/Sha256.thy ===== *)
theory Sha256
  imports Prelude
begin

text \<open>
  \<^verbatim>\<open>crypto/sha256\<close>, the standard-library digest that the program uses to derive field domains,
  asset identifiers, execution identifiers and the genesis anchor: the function of FIPS 180-4
  on byte strings, executable. The proofs of the development use only that a digest has 32 bytes.
\<close>

definition sha256_k :: "u32 list" where
  "sha256_k =
   [0x428a2f98, 0x71374491, 0xb5c0fbcf, 0xe9b5dba5, 0x3956c25b, 0x59f111f1, 0x923f82a4, 0xab1c5ed5,
    0xd807aa98, 0x12835b01, 0x243185be, 0x550c7dc3, 0x72be5d74, 0x80deb1fe, 0x9bdc06a7, 0xc19bf174,
    0xe49b69c1, 0xefbe4786, 0x0fc19dc6, 0x240ca1cc, 0x2de92c6f, 0x4a7484aa, 0x5cb0a9dc, 0x76f988da,
    0x983e5152, 0xa831c66d, 0xb00327c8, 0xbf597fc7, 0xc6e00bf3, 0xd5a79147, 0x06ca6351, 0x14292967,
    0x27b70a85, 0x2e1b2138, 0x4d2c6dfc, 0x53380d13, 0x650a7354, 0x766a0abb, 0x81c2c92e, 0x92722c85,
    0xa2bfe8a1, 0xa81a664b, 0xc24b8b70, 0xc76c51a3, 0xd192e819, 0xd6990624, 0xf40e3585, 0x106aa070,
    0x19a4c116, 0x1e376c08, 0x2748774c, 0x34b0bcb5, 0x391c0cb3, 0x4ed8aa4a, 0x5b9cca4f, 0x682e6ff3,
    0x748f82ee, 0x78a5636f, 0x84c87814, 0x8cc70208, 0x90befffa, 0xa4506ceb, 0xbef9a3f7, 0xc67178f2]"

definition sha256_h0 :: "u32 list" where
  "sha256_h0 =
   [0x6a09e667, 0xbb67ae85, 0x3c6ef372, 0xa54ff53a, 0x510e527f, 0x9b05688c, 0x1f83d9ab, 0x5be0cd19]"

definition rotr32 :: "nat \<Rightarrow> u32 \<Rightarrow> u32" where
  "rotr32 n w = drop_bit n w OR push_bit (32 - n) w"

definition sha256_pad :: "bytes \<Rightarrow> bytes" where
  "sha256_pad m =
     m @ [0x80] @ replicate ((119 - length m mod 64) mod 64) 0 @ be64 (word_of_nat (8 * length m))"

fun chunks :: "nat \<Rightarrow> nat \<Rightarrow> 'a list \<Rightarrow> 'a list list" where
  "chunks w 0 xs = []"
| "chunks w (Suc n) xs = take w xs # chunks w n (drop w xs)"

definition word_of_be :: "bytes \<Rightarrow> u32" where
  "word_of_be bs = word_of_nat (be_to_nat bs)"

text \<open>The message schedule, newest word first.\<close>

fun sha256_schedule :: "nat \<Rightarrow> u32 list \<Rightarrow> u32 list" where
  "sha256_schedule 0 ws = ws"
| "sha256_schedule (Suc n) ws =
     (let a = ws ! 1; b = ws ! 14;
          s1 = rotr32 17 a XOR rotr32 19 a XOR drop_bit 10 a;
          s0 = rotr32 7 b XOR rotr32 18 b XOR drop_bit 3 b
      in sha256_schedule n ((s1 + ws ! 6 + s0 + ws ! 15) # ws))"

fun sha256_round :: "u32 \<times> u32 \<Rightarrow> u32 list \<Rightarrow> u32 list" where
  "sha256_round (k, w) [a, b, c, d, e, f, g, h] =
     (let t1 = h + (rotr32 6 e XOR rotr32 11 e XOR rotr32 25 e) + ((e AND f) XOR (NOT e AND g)) + k + w;
          t2 = (rotr32 2 a XOR rotr32 13 a XOR rotr32 22 a) + ((a AND b) XOR (a AND c) XOR (b AND c))
      in [t1 + t2, a, b, c, d + t1, e, f, g])"
| "sha256_round kw hs = hs"

definition sha256_block :: "bytes \<Rightarrow> u32 list \<Rightarrow> u32 list" where
  "sha256_block blk hs =
     (let ws = rev (sha256_schedule 48 (rev (map word_of_be (chunks 4 16 blk))))
      in map2 (+) hs (fold sha256_round (zip sha256_k ws) hs))"

definition sha256 :: "bytes \<Rightarrow> bytes" where
  "sha256 m =
     (let p = sha256_pad m
      in concat (map be32 (fold sha256_block (chunks 64 (length p div 64) p) sha256_h0)))"

lemma sha256_round_length: "length hs = 8 \<Longrightarrow> length (sha256_round kw hs) = 8"
proof -
  assume "length hs = 8"
  then obtain a b c d e f g h where "hs = [a, b, c, d, e, f, g, h]"
    by (auto simp: length_Suc_conv numeral_eq_Suc)
  then show ?thesis by (cases kw) (simp add: Let_def)
qed

lemma sha256_rounds_length: "length hs = 8 \<Longrightarrow> length (fold sha256_round kws hs) = 8"
  by (induction kws arbitrary: hs) (auto simp: sha256_round_length)

lemma sha256_block_length: "length hs = 8 \<Longrightarrow> length (sha256_block blk hs) = 8"
  by (simp add: sha256_block_def Let_def sha256_rounds_length)

lemma sha256_blocks_length: "length hs = 8 \<Longrightarrow> length (fold sha256_block blks hs) = 8"
  by (induction blks arbitrary: hs) (auto simp: sha256_block_length)

lemma length_concat_be32: "length (concat (map be32 ws)) = 4 * length ws"
  by (induction ws) simp_all

lemma sha256_length [simp]: "length (sha256 m) = 32"
proof -
  have "length sha256_h0 = 8" by (simp add: sha256_h0_def)
  from sha256_blocks_length [OF this] show ?thesis
    by (simp add: sha256_def Let_def length_concat_be32)
qed

end
