(* ===== verification/Field_Bytes.thy ===== *)
theory Field_Bytes
  imports Sha256
begin

text \<open>
  BN254 scalar-field elements and their byte encodings
  (\<^verbatim>\<open>x/privacy/keeper/field_bytes.go\<close>, \<^verbatim>\<open>x/privacy/types/field_set.go\<close>, the field checks of
  \<^verbatim>\<open>x/privacy/types/msg.go\<close>) and the NoteV1 hashes (\<^verbatim>\<open>x/privacy/types/note_v1.go\<close>).

  A field element is its canonical representative, a \<open>nat\<close> below \<open>fr_modulus\<close>. The MiMC
  sponge lives in a third-party package: its digest of the bytes written to it is the field
  \<open>mimc_sum\<close> of the environment record \<open>crypto_env\<close>, and \<open>crypto_ok\<close> is what the code relies on
  (the digest is the canonical encoding of a field element).
\<close>

definition fr_modulus :: nat where
  "fr_modulus = 21888242871839275222246405745257275088548364400416034343698204186575808495617"

definition fieldElementByteSize :: nat where
  "fieldElementByteSize = 32"

lemma fr_modulus_bound: "fr_modulus < 256 ^ 32"
  by (simp add: fr_modulus_def)

lemma fr_modulus_pos [simp]: "0 < fr_modulus"
  by (simp add: fr_modulus_def)

section \<open>Byte encodings\<close>

definition canonicalizeFieldBytes :: "bytes \<Rightarrow> bytes res" where
  "canonicalizeFieldBytes bz =
     (let bi = be_to_nat bz
      in if bi \<ge> 2 ^ (fieldElementByteSize * 8) then Inl (Errorf ''field element exceeds the 32-byte width'')
         else let raw = big_bytes bi
              in Inr (replicate (fieldElementByteSize - length raw) 0 @ raw))"

definition canonicalizeFieldBytesOrOriginal :: "bytes \<Rightarrow> bytes" where
  "canonicalizeFieldBytesOrOriginal bz =
     (case canonicalizeFieldBytes bz of Inl _ \<Rightarrow> bz | Inr canonical \<Rightarrow> canonical)"

text \<open>\<^verbatim>\<open>fr.Element.SetBytesCanonical\<close> accepts 32 big-endian bytes below the modulus, and
  \<^verbatim>\<open>fr.Element.Bytes\<close> writes the 32 bytes of the canonical representative.\<close>

definition validateFieldElementBytesStrict :: "bytes \<Rightarrow> bytes res" where
  "validateFieldElementBytesStrict bz =
     (if length bz \<noteq> fieldElementByteSize then Inl (Errorf ''field element must be exactly 32 bytes'')
      else if be_to_nat bz \<ge> fr_modulus then Inl (Errorf ''field element must be canonical'')
      else Inr (be_of_nat fieldElementByteSize (be_to_nat bz)))"

text \<open>A canonical encoding: 32 bytes, value below the modulus.\<close>

definition canonical_field :: "bytes \<Rightarrow> bool" where
  "canonical_field bz = (length bz = 32 \<and> be_to_nat bz < fr_modulus)"

text \<open>The encoding of a field element.\<close>

definition fe_bytes :: "nat \<Rightarrow> bytes" where
  "fe_bytes v = be_of_nat 32 v"

lemma strict_Inr_iff [simp]: "validateFieldElementBytesStrict bz = Inr c \<longleftrightarrow> canonical_field bz \<and> c = bz"
  by (auto simp: validateFieldElementBytesStrict_def canonical_field_def fieldElementByteSize_def
      be_of_nat_be_to_nat)

lemma strict_canonical: "canonical_field bz \<Longrightarrow> validateFieldElementBytesStrict bz = Inr bz"
  by simp

lemma strict_noncanonical: "\<not> canonical_field bz \<Longrightarrow> \<exists>e. validateFieldElementBytesStrict bz = Inl e"
  by (auto simp: validateFieldElementBytesStrict_def canonical_field_def fieldElementByteSize_def)

lemma canonicalize_value:
  assumes "be_to_nat bz < 256 ^ 32"
  shows "canonicalizeFieldBytes bz = Inr (be_of_nat 32 (be_to_nat bz))"
  using assms pad_big_bytes [OF assms]
  by (simp add: canonicalizeFieldBytes_def fieldElementByteSize_def Let_def)

lemma canonicalize_32 [simp]: "length bz = 32 \<Longrightarrow> canonicalizeFieldBytes bz = Inr bz"
  using be_to_nat_less [of bz] by (simp add: canonicalize_value be_of_nat_be_to_nat)

lemma canonicalizeOr_32 [simp]: "length bz = 32 \<Longrightarrow> canonicalizeFieldBytesOrOriginal bz = bz"
  by (simp add: canonicalizeFieldBytesOrOriginal_def)

lemma canonicalizeOr_big_bytes: "v < fr_modulus \<Longrightarrow> canonicalizeFieldBytesOrOriginal (big_bytes v) = fe_bytes v"
  using fr_modulus_bound
  by (simp add: canonicalizeFieldBytesOrOriginal_def canonicalize_value fe_bytes_def)

lemma canonical_length [simp]: "canonical_field bz \<Longrightarrow> length bz = 32"
  by (simp add: canonical_field_def)

lemma fe_bytes_length [simp]: "length (fe_bytes v) = 32"
  by (simp add: fe_bytes_def)

lemma be_to_nat_fe_bytes [simp]: "v < fr_modulus \<Longrightarrow> be_to_nat (fe_bytes v) = v"
  using fr_modulus_bound by (simp add: fe_bytes_def be_to_nat_be_of_nat)

lemma canonical_fe_bytes [simp]: "v < fr_modulus \<Longrightarrow> canonical_field (fe_bytes v)"
  by (simp add: canonical_field_def)

lemma fe_bytes_be_to_nat [simp]: "canonical_field bz \<Longrightarrow> fe_bytes (be_to_nat bz) = bz"
  by (simp add: fe_bytes_def canonical_field_def be_of_nat_be_to_nat)

lemma fe_bytes_inj: "v < fr_modulus \<Longrightarrow> w < fr_modulus \<Longrightarrow> fe_bytes v = fe_bytes w \<longleftrightarrow> v = w"
  by (metis be_to_nat_fe_bytes)

lemma canonical_value_less: "canonical_field bz \<Longrightarrow> be_to_nat bz < fr_modulus"
  by (simp add: canonical_field_def)

section \<open>Sets of distinct field elements\<close>

definition types_validateFieldElementBytesStrict :: "string \<Rightarrow> bytes \<Rightarrow> unit res" where
  "types_validateFieldElementBytesStrict name bz =
     (if length bz \<noteq> 32 then Inl (SdkErr ErrInvalidRequest (name @ '' must be exactly 32 bytes''))
      else if be_to_nat bz \<ge> fr_modulus
           then Inl (SdkErr ErrInvalidRequest (name @ '' must be canonical 32-byte field bytes''))
      else Inr ())"

definition validateActiveFieldElementBytesStrict :: "string \<Rightarrow> bytes \<Rightarrow> unit res" where
  "validateActiveFieldElementBytesStrict name bz =
     bindE (types_validateFieldElementBytesStrict name bz) (\<lambda>_.
     guardE (bz \<noteq> replicate 32 0) (SdkErr ErrInvalidRequest (name @ '' must be non-zero'')))"

text \<open>The loop of \<^verbatim>\<open>ValidateDistinctCanonicalFieldElements\<close>; \<open>seen\<close> holds the vals already met.\<close>

fun validateDistinctLoop :: "string \<Rightarrow> bytes list \<Rightarrow> bytes list \<Rightarrow> unit res" where
  "validateDistinctLoop name seen [] = Inr ()"
| "validateDistinctLoop name seen (v # vals) =
     bindE (types_validateFieldElementBytesStrict name v) (\<lambda>_.
     bindE (guardE (v \<noteq> replicate 32 0) (Errorf (name @ '' must be non-zero''))) (\<lambda>_.
     bindE (guardE (v \<notin> set seen) (Errorf (name @ '' duplicates an earlier index''))) (\<lambda>_.
     validateDistinctLoop name (v # seen) vals)))"

definition ValidateDistinctCanonicalFieldElements :: "string \<Rightarrow> bytes list \<Rightarrow> unit res" where
  "ValidateDistinctCanonicalFieldElements name vals = validateDistinctLoop name [] vals"

text \<open>A non-zero canonical field element.\<close>

definition active_field :: "bytes \<Rightarrow> bool" where
  "active_field bz = (canonical_field bz \<and> bz \<noteq> replicate 32 0)"

lemma types_strict_ok [simp]:
  "types_validateFieldElementBytesStrict name bz = Inr u \<longleftrightarrow> canonical_field bz"
  by (simp add: types_validateFieldElementBytesStrict_def canonical_field_def)

lemma validateActive_ok [simp]:
  "validateActiveFieldElementBytesStrict name bz = Inr u \<longleftrightarrow> active_field bz"
  by (simp add: validateActiveFieldElementBytesStrict_def active_field_def)

lemma validateDistinctLoop_ok:
  "validateDistinctLoop name seen vals = Inr u \<longleftrightarrow>
     (\<forall>v \<in> set vals. active_field v) \<and> distinct vals \<and> set vals \<inter> set seen = {}"
  by (induction vals arbitrary: seen) (auto simp: active_field_def)

lemma ValidateDistinct_ok [simp]:
  "ValidateDistinctCanonicalFieldElements name vals = Inr u \<longleftrightarrow>
     (\<forall>v \<in> set vals. active_field v) \<and> distinct vals"
  by (simp add: ValidateDistinctCanonicalFieldElements_def validateDistinctLoop_ok)

lemma active_canonical [simp, dest]: "active_field bz \<Longrightarrow> canonical_field bz"
  by (simp add: active_field_def)

section \<open>NoteV1 hashes\<close>

text \<open>The library code below the module: the MiMC digest and the affine points of \<^verbatim>\<open>gnark-crypto\<close> (curve test, identity test,
  scalar multiplication, group order, compressed encoding) and the bech32 codec of the SDK.\<close>

record crypto_env =
  mimc_sum :: "bytes \<Rightarrow> bytes"
  te_on_curve :: "nat \<times> nat \<Rightarrow> bool"
  te_is_zero :: "nat \<times> nat \<Rightarrow> bool"
  te_scalar_mul :: "nat \<times> nat \<Rightarrow> nat \<Rightarrow> nat \<times> nat"
  te_order :: nat
  te_set_bytes :: "bytes \<Rightarrow> (nat \<times> nat) option"
  te_bytes :: "nat \<times> nat \<Rightarrow> bytes"
  bech32_encode :: "string \<Rightarrow> bytes \<Rightarrow> string option"
  bech32_decode :: "string \<Rightarrow> (string \<times> bytes) option"

definition crypto_ok :: "'a crypto_env_scheme \<Rightarrow> bool" where
  "crypto_ok env = (\<forall>bs. canonical_field (mimc_sum env bs))"

text \<open>\<^verbatim>\<open>MimcHash\<close> of \<^verbatim>\<open>x/privacy/crypto/crypto.go\<close>: every input is reduced into the field and written
  as 32 bytes, and the digest is read back as a number.\<close>

definition MimcHash :: "'a crypto_env_scheme \<Rightarrow> nat list \<Rightarrow> nat" where
  "MimcHash env data =
     be_to_nat (mimc_sum env (concat (map (\<lambda>d. be_of_nat 32 (d mod fr_modulus)) data)))"

lemma MimcHash_less [simp]: "crypto_ok env \<Longrightarrow> MimcHash env data < fr_modulus"
  by (simp add: crypto_ok_def MimcHash_def canonical_value_less)

definition DomainFieldV1 :: "string \<Rightarrow> nat" where
  "DomainFieldV1 label =
     be_to_nat (sha256 (string_bytes ''clairveil.field-domain.v1'' @ be32 (word_of_nat (length label)) @
       string_bytes label)) mod fr_modulus"

definition ComputeAssetIDV1 :: "string \<Rightarrow> nat" where
  "ComputeAssetIDV1 canonicalDenom =
     be_to_nat (sha256 (string_bytes ''clairveil.asset-id.v1'' @ be32 (word_of_nat (length canonicalDenom)) @
       string_bytes canonicalDenom)) mod fr_modulus"

definition ComputeNoteCommitmentV1 ::
  "'a crypto_env_scheme \<Rightarrow> nat \<Rightarrow> nat \<Rightarrow> nat \<Rightarrow> nat \<Rightarrow> nat \<Rightarrow> nat \<Rightarrow> nat \<Rightarrow> nat" where
  "ComputeNoteCommitmentV1 env spendX spendY viewX viewY amount assetID randomness =
     MimcHash env [DomainFieldV1 ''clairveil.note-commitment.v1'', spendX, spendY, viewX, viewY,
       amount, assetID, randomness]"

definition ComputeNoteNullifierV1 ::
  "'a crypto_env_scheme \<Rightarrow> nat \<Rightarrow> nat \<Rightarrow> nat \<Rightarrow> nat \<Rightarrow> nat" where
  "ComputeNoteNullifierV1 env commitment randomness spendX spendY =
     MimcHash env [DomainFieldV1 ''clairveil.note-nullifier.v1'', commitment, randomness, spendX, spendY]"

definition ComputeNoteTreeNodeV1 :: "'a crypto_env_scheme \<Rightarrow> nat \<Rightarrow> nat \<Rightarrow> nat \<Rightarrow> nat" where
  "ComputeNoteTreeNodeV1 env level left right =
     MimcHash env [DomainFieldV1 ''clairveil.note-tree-node.v1'', level, left, right]"

text \<open>\<^verbatim>\<open>EmptyNoteTreeRootsV1\<close> fills a table from level 0 upwards.\<close>

fun emptyRootsLoop :: "'a crypto_env_scheme \<Rightarrow> nat \<Rightarrow> nat \<Rightarrow> nat list \<Rightarrow> nat list" where
  "emptyRootsLoop env 0 level roots = roots"
| "emptyRootsLoop env (Suc todo) level roots =
     emptyRootsLoop env todo (level + 1)
       (roots @ [ComputeNoteTreeNodeV1 env level (roots ! level) (roots ! level)])"

definition EmptyNoteTreeRootsV1 :: "'a crypto_env_scheme \<Rightarrow> nat \<Rightarrow> nat list" where
  "EmptyNoteTreeRootsV1 env depth = emptyRootsLoop env depth 0 [0]"

definition EmptyNoteTreeRootV1 :: "'a crypto_env_scheme \<Rightarrow> nat \<Rightarrow> nat" where
  "EmptyNoteTreeRootV1 env depth = EmptyNoteTreeRootsV1 env depth ! depth"

text \<open>The recursive reading of the table.\<close>

fun empty_root :: "'a crypto_env_scheme \<Rightarrow> nat \<Rightarrow> nat" where
  "empty_root env 0 = 0"
| "empty_root env (Suc l) = ComputeNoteTreeNodeV1 env l (empty_root env l) (empty_root env l)"

lemma emptyRootsLoop_table:
  "emptyRootsLoop env todo level (map (empty_root env) [0..<level + 1]) =
     map (empty_root env) [0..<level + todo + 1]"
proof (induction todo arbitrary: level)
  case (Suc todo)
  have nth: "map (empty_root env) [0..<level + 1] ! level = empty_root env level"
    by (subst nth_map) (simp_all del: upt_Suc)
  have "map (empty_root env) [0..<level + 1] @ [empty_root env (Suc level)] =
      map (empty_root env) [0..<(level + 1) + 1]"
    by simp
  with Suc [of "level + 1"] nth show ?case by simp
qed simp

lemma EmptyNoteTreeRootsV1_table:
  "EmptyNoteTreeRootsV1 env depth = map (empty_root env) [0..<depth + 1]"
  using emptyRootsLoop_table [of env depth 0] by (simp add: EmptyNoteTreeRootsV1_def)

lemma EmptyNoteTreeRootV1_eq [simp]: "EmptyNoteTreeRootV1 env depth = empty_root env depth"
  by (simp add: EmptyNoteTreeRootV1_def EmptyNoteTreeRootsV1_table nth_append del: upt_Suc)

lemma node_less [simp]: "crypto_ok env \<Longrightarrow> ComputeNoteTreeNodeV1 env l a b < fr_modulus"
  by (simp add: ComputeNoteTreeNodeV1_def)

lemma empty_root_less [simp]: "crypto_ok env \<Longrightarrow> empty_root env l < fr_modulus"
  by (cases l) auto

end
