(* ===== verification/Proto_Size.thy ===== *)
theory Proto_Size
  imports Prelude
begin

text \<open>
  The messages of \<^verbatim>\<open>x/privacy/types/v2/tx.pb.go\<close> and the sizes of their protobuf encodings. A field that points to a message is an
  option; an unset enumeration or number is zero and takes no bytes.
\<close>

unbundle bit_operations_syntax

fun bit_len :: "nat \<Rightarrow> nat" where
  "bit_len n = (if n = 0 then 0 else Suc (bit_len (n div 2)))"

declare bit_len.simps [simp del]

text \<open>\<^verbatim>\<open>bits.Len64\<close> and the length of a varint.\<close>

definition sov :: "u64 \<Rightarrow> nat" where
  "sov x = (bit_len (unat (x OR 1)) + 6) div 7"

definition szMsg :: "nat \<Rightarrow> nat" where
  "szMsg l = 1 + l + sov (word_of_nat l)"

definition szBytes :: "nat \<Rightarrow> nat" where
  "szBytes l = (if l > 0 then szMsg l else 0)"

definition szNum :: "u64 \<Rightarrow> nat" where
  "szNum x = (if x \<noteq> 0 then 1 + sov x else 0)"

section \<open>Messages\<close>

record output_effect =
  oe_commitment :: bytes
  oe_ciphertext :: bytes
  oe_view_tag :: bytes
  oe_policy :: u32
  oe_mode :: u32
  oe_user_digest :: bytes
  oe_user_target :: bytes
  oe_user_payload :: bytes
  oe_full_digest :: bytes
  oe_self_view :: bytes

record audit_auth =
  au_key_id :: bytes
  au_epoch :: u64
  au_envelope :: bytes

record msg_deposit =
  md_creator :: string
  md_amount :: string
  md_output :: "output_effect option"
  md_proof :: bytes
  md_expires :: int
  md_audit :: "audit_auth option"

record msg_withdraw =
  mw_creator :: string
  mw_amount :: string
  mw_recipient :: string
  mw_root :: bytes
  mw_nullifier :: bytes
  mw_proof :: bytes
  mw_expires :: int
  mw_audit :: "audit_auth option"

text \<open>\<^verbatim>\<open>MsgTransfer\<close> and \<^verbatim>\<open>MsgBatchTransfer\<close> have the same fields.\<close>

record msg_transfer =
  mt_creator :: string
  mt_root :: bytes
  mt_nullifiers :: "bytes list"
  mt_outputs :: "output_effect option list"
  mt_proof :: bytes
  mt_expires :: int
  mt_audit :: "audit_auth option"

text \<open>An \<^verbatim>\<open>sdk.Msg\<close>: a pointer to one of the four messages, or to another type.\<close>

datatype audit_msg =
    MsgDeposit "msg_deposit option"
  | MsgWithdraw "msg_withdraw option"
  | MsgTransfer "msg_transfer option"
  | MsgBatchTransfer "msg_transfer option"
  | OtherMsg

section \<open>Sizes\<close>

definition OutputEffect_Size :: "output_effect \<Rightarrow> nat" where
  "OutputEffect_Size m =
     szBytes (length (oe_commitment m)) + szBytes (length (oe_ciphertext m)) + szBytes (length (oe_view_tag m)) +
     szNum (ucast (oe_policy m)) + szNum (ucast (oe_mode m)) + szBytes (length (oe_user_digest m)) +
     szBytes (length (oe_user_target m)) + szBytes (length (oe_user_payload m)) + szBytes (length (oe_full_digest m)) +
     szBytes (length (oe_self_view m))"

definition AuditAuthorization_Size :: "audit_auth \<Rightarrow> nat" where
  "AuditAuthorization_Size m = szBytes (length (au_key_id m)) + szNum (au_epoch m) + szBytes (length (au_envelope m))"

definition szOpt :: "('m \<Rightarrow> nat) \<Rightarrow> 'm option \<Rightarrow> nat" where
  "szOpt f m = (case m of None \<Rightarrow> 0 | Some v \<Rightarrow> szMsg (f v))"

definition MsgDeposit_Size :: "msg_deposit \<Rightarrow> nat" where
  "MsgDeposit_Size m =
     szBytes (length (md_creator m)) + szBytes (length (md_amount m)) + szOpt OutputEffect_Size (md_output m) +
     szBytes (length (md_proof m)) + szNum (word_of_int (md_expires m)) + szOpt AuditAuthorization_Size (md_audit m)"

definition MsgWithdraw_Size :: "msg_withdraw \<Rightarrow> nat" where
  "MsgWithdraw_Size m =
     szBytes (length (mw_creator m)) + szBytes (length (mw_amount m)) + szBytes (length (mw_recipient m)) +
     szBytes (length (mw_root m)) + szBytes (length (mw_nullifier m)) + szBytes (length (mw_proof m)) +
     szNum (word_of_int (mw_expires m)) + szOpt AuditAuthorization_Size (mw_audit m)"

text \<open>A nil element of a repeated field has size zero but keeps its key and length.\<close>

definition MsgTransfer_Size :: "msg_transfer \<Rightarrow> nat" where
  "MsgTransfer_Size m =
     szBytes (length (mt_creator m)) + szBytes (length (mt_root m)) + sum_list (map (\<lambda>b. szMsg (length b)) (mt_nullifiers m)) +
     sum_list (map (\<lambda>e. szMsg (case e of None \<Rightarrow> 0 | Some v \<Rightarrow> OutputEffect_Size v)) (mt_outputs m)) +
     szBytes (length (mt_proof m)) + szNum (word_of_int (mt_expires m)) + szOpt AuditAuthorization_Size (mt_audit m)"

definition msg_Size :: "audit_msg \<Rightarrow> nat" where
  "msg_Size raw =
     (case raw of
        MsgDeposit m \<Rightarrow> (case m of None \<Rightarrow> 0 | Some v \<Rightarrow> MsgDeposit_Size v)
      | MsgWithdraw m \<Rightarrow> (case m of None \<Rightarrow> 0 | Some v \<Rightarrow> MsgWithdraw_Size v)
      | MsgTransfer m \<Rightarrow> (case m of None \<Rightarrow> 0 | Some v \<Rightarrow> MsgTransfer_Size v)
      | MsgBatchTransfer m \<Rightarrow> (case m of None \<Rightarrow> 0 | Some v \<Rightarrow> MsgTransfer_Size v)
      | OtherMsg \<Rightarrow> 0)"

section \<open>Monotonicity\<close>

lemma bit_len_0 [simp]: "bit_len 0 = 0"
  by (simp add: bit_len.simps)

lemma bit_len_mono: "m \<le> n \<Longrightarrow> bit_len m \<le> bit_len n"
proof (induction n arbitrary: m rule: bit_len.induct)
  case (1 n)
  then show ?case by (cases "m = 0") (simp_all add: bit_len.simps [of m] bit_len.simps [of n] div_le_mono)
qed

lemma unat_or_1: "unat ((x :: u64) OR 1) = unat x + (if even (unat x) then 1 else 0)"
  unfolding unsigned_or_eq by (simp add: or_Suc_0_eq)

lemma sov_mono: "unat x \<le> unat y \<Longrightarrow> sov x \<le> sov y"
  unfolding sov_def by (intro div_le_mono add_right_mono bit_len_mono) (auto simp: unat_or_1 le_less)

lemma szNum_mono: "unat x \<le> unat y \<Longrightarrow> szNum x \<le> szNum y"
  using sov_mono [of x y] by (auto simp: szNum_def word_unat_eq_iff)

lemma bit_len_le: "n < 2 ^ k \<Longrightarrow> bit_len n \<le> k"
proof (induction k arbitrary: n)
  case (Suc k)
  then have "bit_len (n div 2) \<le> k" by (simp add: div_less_iff_less_mult mult.commute)
  then show ?case by (simp add: bit_len.simps [of n])
qed simp

lemma sov_le: "unat x < 2 ^ k \<Longrightarrow> 0 < k \<Longrightarrow> sov x \<le> (k + 6) div 7"
proof -
  assume k: "unat x < 2 ^ k" "0 < k"
  have "unat x + 1 < 2 ^ k" if "even (unat x)"
  proof (rule ccontr)
    assume "\<not> unat x + 1 < 2 ^ k"
    then have "unat x + 1 = 2 ^ k" using k(1) by simp
    then show False using that k(2) by (metis even_plus_one_iff even_power even_numeral)
  qed
  then have "unat (x OR 1) < 2 ^ k" using k(1) by (simp add: unat_or_1)
  then show ?thesis unfolding sov_def by (intro div_le_mono add_right_mono bit_len_le)
qed

lemma szBytes_0 [simp]: "szBytes 0 = 0"
  by (simp add: szBytes_def)

end
