(* ===== verification/Proto_Wire.thy ===== *)
theory Proto_Wire
  imports Proto_Size
begin

text \<open>
  The protobuf wire format as the generated code of \<^verbatim>\<open>x/privacy/types/*.pb.go\<close> writes and reads it: varints, the fields of a message
  in ascending order, the loop of \<^verbatim>\<open>Unmarshal\<close> with its checks of tags, wire types and lengths, and the skipping of unknown fields. The
  code is the same for every message but for the table of its fields, which is the argument of the definitions here. The lemmas show
  that the writer produces the number of bytes that \<^verbatim>\<open>Size\<close> announces and that the reader accepts what the writer produces.
\<close>

definition ErrInvalidLength :: error where "ErrInvalidLength = Errorf ''proto: negative length found during unmarshaling''"
definition ErrIntOverflow :: error where "ErrIntOverflow = Errorf ''proto: integer overflow''"
definition ErrUnexpectedEndOfGroup :: error where "ErrUnexpectedEndOfGroup = Errorf ''proto: unexpected end of group''"
definition ErrUnexpectedEOF :: error where "ErrUnexpectedEOF = Errorf ''unexpected EOF''"

section \<open>Varints\<close>

function encodeVarint :: "u64 \<Rightarrow> bytes" where
  "encodeVarint v = (if v \<ge> 128 then ucast (v AND 0x7f OR 0x80) # encodeVarint (drop_bit 7 v) else [ucast v])"
  by pat_completeness auto
termination
proof (relation "measure unat")
  fix v :: u64 assume "128 \<le> v"
  then have "128 \<le> unat v" by (simp add: word_le_nat_alt)
  then show "(drop_bit 7 v, v) \<in> measure unat" by (simp add: drop_bit_eq_div unat_div)
qed simp

declare encodeVarint.simps [simp del]

fun readVarint :: "nat \<Rightarrow> u64 \<Rightarrow> bytes \<Rightarrow> (u64 \<times> bytes) res" where
  "readVarint shift acc bs =
     (if shift \<ge> 64 then Inl ErrIntOverflow
      else case bs of
        [] \<Rightarrow> Inl ErrUnexpectedEOF
      | b # r \<Rightarrow>
          let acc' = acc OR push_bit shift (ucast (b AND 0x7f))
          in if b < 0x80 then Inr (acc', r) else readVarint (shift + 7) acc' r)"

declare readVarint.simps [simp del]

lemma readVarint_shorter: "readVarint shift acc bs = Inr (w, r) \<Longrightarrow> length r < length bs"
proof (induction bs arbitrary: shift acc)
  case Nil then show ?case by (subst (asm) readVarint.simps) (simp split: if_splits)
next
  case (Cons b bs)
  show ?case
  proof (cases "b < 0x80")
    case True then show ?thesis using Cons.prems by (subst (asm) readVarint.simps) (auto split: if_splits)
  next
    case False
    then have "readVarint (shift + 7) (acc OR push_bit shift (ucast (b AND 0x7f))) bs = Inr (w, r)"
      using Cons.prems by (subst (asm) readVarint.simps) (auto simp: Let_def split: if_splits)
    then show ?thesis using Cons.IH by fastforce
  qed
qed

section \<open>Skipping unknown fields\<close>

text \<open>An index past the last \<^verbatim>\<open>int\<close> wraps to a negative number.\<close>

definition index_overflows :: "nat \<Rightarrow> bool" where
  "index_overflows i = (i \<ge> 2 ^ 63)"

function skipLoop :: "bytes \<Rightarrow> nat \<Rightarrow> nat \<Rightarrow> nat res" where
  "skipLoop bs depth i =
     (if i < length bs then
        case readVarint 0 0 (drop i bs) of
          Inl e \<Rightarrow> Inl e
        | Inr (wire, r) \<Rightarrow>
            let j = length bs - length r; wireType = unat (wire AND 7);
                moved = (if wireType = 0 then bindE (readVarint 0 0 r) (\<lambda>(_, r'). Inr (depth, length bs - length r'))
                  else if wireType = 1 then Inr (depth, j + 8)
                  else if wireType = 2 then
                    bindE (readVarint 0 0 r) (\<lambda>(len, r').
                    bindE (guardE (\<not> sint len < 0) ErrInvalidLength) (\<lambda>_. Inr (depth, length bs - length r' + unat len)))
                  else if wireType = 3 then Inr (depth + 1, j)
                  else if wireType = 4 then bindE (guardE (depth \<noteq> 0) ErrUnexpectedEndOfGroup) (\<lambda>_. Inr (depth - 1, j))
                  else if wireType = 5 then Inr (depth, j + 4)
                  else Inl (Errorf ''proto: illegal wireType''))
            in case moved of
                 Inl e \<Rightarrow> Inl e
               | Inr (depth', k) \<Rightarrow>
                   if index_overflows k then Inl ErrInvalidLength
                   else if depth' = 0 then Inr k
                   else if i < k then skipLoop bs depth' k else Inl ErrUnexpectedEOF
      else Inl ErrUnexpectedEOF)"
  by pat_completeness auto
termination by (relation "measure (\<lambda>(bs, depth, i). length bs - i)") auto

declare skipLoop.simps [simp del]

definition skipField :: "bytes \<Rightarrow> nat res" where
  "skipField bs = skipLoop bs 0 0"

section \<open>Messages\<close>

text \<open>How a field of a message is written and what reading it does to the message.\<close>

datatype wire_value = WVarint u64 | WBytes bytes

datatype 'r handler = HVarint "u64 \<Rightarrow> 'r \<Rightarrow> 'r" | HBytes "bytes \<Rightarrow> 'r \<Rightarrow> 'r res"

fun encodeField :: "nat \<times> wire_value \<Rightarrow> bytes" where
  "encodeField (n, WVarint v) = encodeVarint (word_of_nat (8 * n)) @ encodeVarint v"
| "encodeField (n, WBytes b) = encodeVarint (word_of_nat (8 * n + 2)) @ encodeVarint (word_of_nat (length b)) @ b"

definition marshalFields :: "(nat \<times> wire_value) list \<Rightarrow> bytes" where
  "marshalFields fs = concat (map encodeField fs)"

definition numField :: "nat \<Rightarrow> u64 \<Rightarrow> (nat \<times> wire_value) list" where
  "numField n v = (if v \<noteq> 0 then [(n, WVarint v)] else [])"

definition bytesField :: "nat \<Rightarrow> bytes \<Rightarrow> (nat \<times> wire_value) list" where
  "bytesField n b = (if length b > 0 then [(n, WBytes b)] else [])"

definition repeatedField :: "nat \<Rightarrow> bytes list \<Rightarrow> (nat \<times> wire_value) list" where
  "repeatedField n bs = map (\<lambda>b. (n, WBytes b)) bs"

text \<open>One round of the loop of \<^verbatim>\<open>Unmarshal\<close>; \<open>n\<close> is the length of the whole input.\<close>

definition readField :: "nat \<Rightarrow> (nat \<Rightarrow> 'r handler option) \<Rightarrow> 'r \<Rightarrow> bytes \<Rightarrow> ('r \<times> bytes) res" where
  "readField n table m bs =
     bindE (readVarint 0 0 bs) (\<lambda>(wire, r).
     let fieldNum = sint (ucast (drop_bit 3 wire) :: u32); wireType = unat (wire AND 7) in
     bindE (guardE (wireType \<noteq> 4) (Errorf ''proto: wiretype end group for non-group'')) (\<lambda>_.
     bindE (guardE (\<not> fieldNum \<le> 0) (Errorf ''proto: illegal tag'')) (\<lambda>_.
     case table (nat fieldNum) of
       Some (HVarint f) \<Rightarrow>
         bindE (guardE (wireType = 0) (Errorf ''proto: wrong wireType'')) (\<lambda>_.
         bindE (readVarint 0 0 r) (\<lambda>(v, r'). Inr (f v m, r')))
     | Some (HBytes f) \<Rightarrow>
         bindE (guardE (wireType = 2) (Errorf ''proto: wrong wireType'')) (\<lambda>_.
         bindE (readVarint 0 0 r) (\<lambda>(len, r').
         bindE (guardE (\<not> sint len < 0) ErrInvalidLength) (\<lambda>_.
         bindE (guardE (\<not> index_overflows (n - length r' + unat len)) ErrInvalidLength) (\<lambda>_.
         bindE (guardE (\<not> unat len > length r') ErrUnexpectedEOF) (\<lambda>_.
         bindE (f (take (unat len) r') m) (\<lambda>m'. Inr (m', drop (unat len) r')))))))
     | None \<Rightarrow>
         bindE (skipField bs) (\<lambda>skippy.
         bindE (guardE (\<not> index_overflows (n - length bs + skippy)) ErrInvalidLength) (\<lambda>_.
         bindE (guardE (\<not> skippy > length bs) ErrUnexpectedEOF) (\<lambda>_. Inr (m, drop skippy bs)))))))"

function unmarshalLoop :: "nat \<Rightarrow> (nat \<Rightarrow> 'r handler option) \<Rightarrow> 'r \<Rightarrow> bytes \<Rightarrow> 'r res" where
  "unmarshalLoop n table m bs =
     (if bs = [] then Inr m
      else bindE (readField n table m bs) (\<lambda>(m', r). if length r < length bs then unmarshalLoop n table m' r else Inr m'))"
  by pat_completeness auto
termination by (relation "measure (\<lambda>(n, table, m, bs). length bs)") auto

declare unmarshalLoop.simps [simp del]

definition unmarshalFields :: "(nat \<Rightarrow> 'r handler option) \<Rightarrow> 'r \<Rightarrow> bytes \<Rightarrow> 'r res" where
  "unmarshalFields table m bs = unmarshalLoop (length bs) table m bs"

section \<open>Reading what was written\<close>

lemma low_bits: "(v :: u64) AND 0x7f = take_bit 7 v" "(b :: byte) AND 0x7f = take_bit 7 b"
  by (simp_all add: take_bit_eq_mask mask_eq_exp_minus_1)

lemma varint_byte: "ucast ((ucast ((v :: u64) AND 0x7f OR 0x80) :: byte) AND 0x7f) = take_bit 7 v"
proof (rule bit_word_eqI)
  fix n assume "n < LENGTH(64)"
  have "bit (0x80 :: u64) n \<longleftrightarrow> n = 7" using bit_exp_iff [of 7 n, where 'a = u64] \<open>n < _\<close> by simp
  then show "bit (ucast ((ucast (v AND 0x7f OR 0x80) :: byte) AND 0x7f) :: u64) n \<longleftrightarrow> bit (take_bit 7 v) n"
    unfolding low_bits by (auto simp: bit_simps)
qed

lemma split_bits: "take_bit 7 (v :: u64) OR push_bit 7 (drop_bit 7 v) = v"
  by (rule bit_word_eqI) (auto simp: bit_simps not_less, metis le_add_diff_inverse linorder_not_less)

lemma big_byte: "\<not> (ucast ((v :: u64) AND 0x7f OR 0x80) :: byte) < 0x80"
proof
  assume a: "(ucast (v AND 0x7f OR 0x80) :: byte) < 0x80"
  have "bit (ucast (v AND 0x7f OR 0x80) :: byte) 7" by (simp add: bit_simps low_bits)
  moreover have "\<not> bit w 7" if "w < 0x80" for w :: byte
  proof -
    have "unat w < 2 ^ 7" using that by (simp add: word_less_nat_alt)
    then have "drop_bit 7 w = 0" by (simp add: drop_bit_eq_div word_unat_eq_iff unat_div)
    then show ?thesis by (metis bit_iff_odd_drop_bit dvd_0_right)
  qed
  ultimately show False using a by blast
qed

lemma readVarint_encode:
  assumes "s + 7 * k = 70" "s < 64" "drop_bit (64 - s) v = 0"
  shows "readVarint s acc (encodeVarint v @ r) = Inr (acc OR push_bit s v, r)"
  using assms
proof (induction k arbitrary: s acc v)
  case (Suc k)
  show ?case
  proof (cases "v \<ge> 128")
    case True
    have s': "s + 7 < 64"
    proof (rule ccontr)
      assume "\<not> s + 7 < 64"
      then have "64 - s \<le> 7" by simp
      have "drop_bit 7 v = drop_bit (7 - (64 - s)) (drop_bit (64 - s) v)" using \<open>64 - s \<le> 7\<close> by simp
      then have "drop_bit 7 v = 0" using Suc.prems(3) by simp
      then show False using True by (simp add: drop_bit_eq_div word_unat_eq_iff unat_div word_le_nat_alt)
    qed
    have high: "drop_bit (64 - (s + 7)) (drop_bit 7 v) = 0" using Suc.prems(3) s' by simp
    have "readVarint s acc (encodeVarint v @ r) =
        readVarint (s + 7) (acc OR push_bit s (take_bit 7 v)) (encodeVarint (drop_bit 7 v) @ r)"
      using True Suc.prems(2) big_byte [of v] varint_byte [of v]
      by (subst encodeVarint.simps, subst readVarint.simps) (simp add: Let_def)
    also have "\<dots> = Inr ((acc OR push_bit s (take_bit 7 v)) OR push_bit (s + 7) (drop_bit 7 v), r)"
      by (rule Suc.IH [OF _ s' high]) (use Suc.prems(1) in simp)
    also have "(acc OR push_bit s (take_bit 7 v)) OR push_bit (s + 7) (drop_bit 7 v) = acc OR push_bit s (take_bit 7 v OR push_bit 7 (drop_bit 7 v))"
      by (simp add: push_bit_or push_bit_push_bit or.assoc add.commute)
    finally show ?thesis by (simp add: split_bits)
  next
    case False
    then have small: "unat v < 128" by (simp add: word_le_nat_alt not_le)
    then have "(ucast v :: byte) < 0x80" by (simp add: word_less_nat_alt unsigned_ucast_eq take_bit_eq_mod)
    moreover have "ucast ((ucast v :: byte) AND 0x7f) = v"
    proof -
      have "take_bit 7 v = v" using small by (simp add: word_unat_eq_iff take_bit_eq_mod unat_mod)
      moreover have "ucast (take_bit 7 (ucast v :: byte)) = take_bit 7 v" by (rule bit_word_eqI) (auto simp: bit_simps)
      ultimately show ?thesis by (simp add: low_bits)
    qed
    ultimately show ?thesis using False Suc.prems(2)
      by (subst encodeVarint.simps, subst readVarint.simps) (simp add: Let_def)
  qed
qed simp

lemma readVarint_encoded [simp]: "readVarint 0 0 (encodeVarint v @ r) = Inr (v, r)"
  using readVarint_encode [of 0 10 v 0 r] by (simp add: drop_bit_word_beyond)

section \<open>Sizes\<close>

lemma bit_len_div: "n \<ge> 128 \<Longrightarrow> bit_len n = bit_len (n div 128) + 7"
proof -
  have step: "bit_len m = Suc (bit_len (m div 2))" if "0 < m" for m using that by (subst bit_len.simps) simp
  assume "n \<ge> 128"
  then have "0 < n div 2 ^ i" if "i \<le> 7" for i
  proof -
    have "(2 :: nat) ^ i \<le> 2 ^ 7" using that by (intro power_increasing) auto
    then have "2 ^ i \<le> n" using \<open>n \<ge> 128\<close> by simp
    then show ?thesis by (simp add: div_greater_zero_iff)
  qed
  from this [of 0] this [of 1] this [of 2] this [of 3] this [of 4] this [of 5] this [of 6]
  show ?thesis by (simp add: step [of n] step [of "n div 2"] step [of "n div 4"] step [of "n div 8"] step [of "n div 16"] step [of "n div 32"]
      step [of "n div 64"] div_mult2_eq [symmetric] del: div_greater_zero_iff)
qed

lemma encodeVarint_length [simp]: "length (encodeVarint v) = sov v"
proof (induction v rule: encodeVarint.induct)
  case (1 v)
  show ?case
  proof (cases "v \<ge> 128")
    case True
    have big: "unat v \<ge> 128" using True by (simp add: word_le_nat_alt)
    have dv: "unat (drop_bit 7 v) = unat v div 128" by (simp add: drop_bit_eq_div unat_div)
    have "Suc n div 2 = n div 2" if "even n" for n :: nat using that by simp
    then have "Suc n div (2 * 64) = n div (2 * 64)" if "even n" for n :: nat using that unfolding div_mult2_eq by simp
    then have "(unat v + (if even (unat v) then 1 else 0)) div 128 = unat v div 128" by simp
    then have l: "bit_len (unat (v OR 1)) = bit_len (unat v div 128) + 7"
      using big bit_len_div [of "unat (v OR 1)"] by (simp add: unat_or_1)
    have "bit_len (unat v div 128 + 1) = bit_len (unat v div 128)" if "even (unat v div 128)"
    proof -
      have "0 < unat v div 128" using big by (simp add: div_greater_zero_iff)
      then show ?thesis using that by (simp add: bit_len.simps [of "unat v div 128"] bit_len.simps [of "Suc (unat v div 128)"])
    qed
    then have "bit_len (unat (drop_bit 7 v OR 1)) = bit_len (unat v div 128)" by (simp add: unat_or_1 dv)
    then show ?thesis using 1 [OF True] True l by (subst encodeVarint.simps) (simp add: sov_def)
  next
    case False
    then have small: "unat v < 2 ^ 7" by (simp add: word_le_nat_alt not_le)
    have "0 < bit_len (unat (v OR 1))" by (subst bit_len.simps) (auto simp: unat_or_1 intro: odd_pos)
    then have "0 < sov v" by (simp add: sov_def div_greater_zero_iff)
    moreover have "sov v \<le> 1" using sov_le [OF small] by simp
    ultimately show ?thesis using False by (subst encodeVarint.simps) simp
  qed
qed

section \<open>Fields\<close>

text \<open>What a table does with a written field, and with a list of them.\<close>

fun applyField :: "(nat \<Rightarrow> 'r handler option) \<Rightarrow> nat \<times> wire_value \<Rightarrow> 'r \<Rightarrow> 'r res" where
  "applyField table (n, v) m =
     (case (table n, v) of
        (Some (HVarint f), WVarint w) \<Rightarrow> Inr (f w m)
      | (Some (HBytes f), WBytes b) \<Rightarrow> f b m
      | _ \<Rightarrow> Inl (Errorf ''proto: wrong wireType''))"

fun applyFields :: "(nat \<Rightarrow> 'r handler option) \<Rightarrow> (nat \<times> wire_value) list \<Rightarrow> 'r \<Rightarrow> 'r res" where
  "applyFields table [] m = Inr m"
| "applyFields table (f # fs) m = bindE (applyField table f m) (applyFields table fs)"

lemma tag_fields:
  assumes "0 < n" "n < 2 ^ 28" "t < 8"
  shows "sint (ucast (drop_bit 3 (word_of_nat (8 * n + t) :: u64)) :: u32) = int n" "unat ((word_of_nat (8 * n + t) :: u64) AND 7) = t"
proof -
  define W where "W = (word_of_nat (8 * n + t) :: u64)"
  have un: "unat (word_of_nat m :: u64) = m" if "m < 2 ^ 64" for m using that by (simp add: unat_of_nat)
  have w: "unat W = 8 * n + t" unfolding W_def by (rule un) (use assms in simp)
  have "unat (drop_bit 3 W) = n" using assms(3) by (simp add: drop_bit_eq_div unat_div w)
  then have u: "unat (ucast (drop_bit 3 W) :: u32) = n" using assms(2) by (simp add: unsigned_ucast_eq take_bit_eq_mod)
  then have "(ucast (drop_bit 3 W) :: u32) = word_of_int (int n)" using assms(2) by (simp add: word_unat_eq_iff unat_of_nat)
  then show "sint (ucast (drop_bit 3 (word_of_nat (8 * n + t) :: u64)) :: u32) = int n"
    unfolding W_def [symmetric] using assms(2) by (simp add: signed_of_nat signed_take_bit_int_eq_self)
  have "W AND 7 = take_bit 3 W" by (simp add: take_bit_eq_mask mask_eq_exp_minus_1)
  then show "unat ((word_of_nat (8 * n + t) :: u64) AND 7) = t"
    unfolding W_def [symmetric] using assms(3) by (simp add: take_bit_eq_mod unat_mod w)
qed

lemma readField_encode:
  assumes "applyField table (n, v) m = Inr m'" "0 < n" "n < 2 ^ 28" "length (encodeField (n, v) @ r) \<le> k" "k < 2 ^ 63"
  shows "readField k table m (encodeField (n, v) @ r) = Inr (m', r)"
proof (cases v)
  case (WVarint w)
  then obtain f where "table n = Some (HVarint f)" "m' = f w m" using assms(1) by (auto split: option.splits handler.splits)
  then show ?thesis using tag_fields [OF assms(2,3), of 0] assms(2) WVarint by (simp add: readField_def Let_def)
next
  case (WBytes b)
  then obtain f where f: "table n = Some (HBytes f)" "f b m = Inr m'" using assms(1) by (auto split: option.splits handler.splits)
  have len: "length b < 2 ^ 63" using assms(4,5) WBytes by simp
  then have w: "unat (word_of_nat (length b) :: u64) = length b" by (simp add: unat_of_nat)
  have "sint (word_of_nat (length b) :: u64) = int (length b)"
    using len by (simp add: signed_of_nat signed_take_bit_int_eq_self)
  moreover have "\<not> index_overflows (k - (length b + length r) + length b)"
    using assms(4,5) WBytes by (simp add: index_overflows_def)
  ultimately show ?thesis using tag_fields [OF assms(2,3), of 2] assms(2) WBytes f w by (simp add: readField_def Let_def)
qed

lemma encodeVarint_nonempty [simp]: "encodeVarint v \<noteq> []"
  by (subst encodeVarint.simps) simp

lemma encodeField_nonempty [simp]: "encodeField f \<noteq> []"
  by (cases f; cases "snd f") auto

definition tag_ok :: "nat \<times> wire_value \<Rightarrow> bool" where
  "tag_ok f = (0 < fst f \<and> fst f < 2 ^ 28)"

lemma unmarshalLoop_fields:
  assumes "applyFields table fs m = Inr m'" "list_all tag_ok fs" "length (marshalFields fs) \<le> k" "k < 2 ^ 63"
  shows "unmarshalLoop k table m (marshalFields fs) = Inr m'"
  using assms(1,2,3)
proof (induction fs arbitrary: m)
  case Nil then show ?case by (subst unmarshalLoop.simps) (simp add: marshalFields_def)
next
  case (Cons f fs)
  obtain n v where f: "f = (n, v)" by (cases f)
  obtain m1 where m1: "applyField table (n, v) m = Inr m1" "applyFields table fs m1 = Inr m'" using Cons.prems(1) f by auto
  have fields: "marshalFields (f # fs) = encodeField (n, v) @ marshalFields fs" by (simp add: marshalFields_def f)
  have "readField k table m (marshalFields (f # fs)) = Inr (m1, marshalFields fs)"
    unfolding fields using readField_encode [OF m1(1)] Cons.prems(2,3) assms(4) f fields by (simp add: tag_ok_def)
  moreover have "length (marshalFields fs) < length (marshalFields (f # fs))" by (simp add: fields)
  moreover have "unmarshalLoop k table m1 (marshalFields fs) = Inr m'" using Cons.IH [OF m1(2)] Cons.prems(2,3) f fields by simp
  moreover have "marshalFields (f # fs) \<noteq> []" by (simp add: fields)
  ultimately show ?case by (subst unmarshalLoop.simps) simp
qed

lemma unmarshal_marshal:
  assumes "applyFields table fs m = Inr m'" "list_all tag_ok fs" "length (marshalFields fs) < 2 ^ 63"
  shows "unmarshalFields table m (marshalFields fs) = Inr m'"
  unfolding unmarshalFields_def using unmarshalLoop_fields [OF assms(1,2) order.refl assms(3)] .

text \<open>How the fields of a message apply to a message whose field still has its default.\<close>

lemma apply_numField:
  "table n = Some (HVarint f) \<Longrightarrow> f 0 m = m \<Longrightarrow> applyFields table (numField n v @ fs) m = applyFields table fs (f v m)"
  by (auto simp: numField_def)

lemma apply_bytesField:
  "table n = Some (HBytes f) \<Longrightarrow> f b m = Inr (g b) \<Longrightarrow> g [] = m \<Longrightarrow> applyFields table (bytesField n b @ fs) m = applyFields table fs (g b)"
  by (auto simp: bytesField_def)

lemma apply_repeatedField:
  assumes "table n = Some (HBytes f)" "\<And>bs b. f b (g bs) = Inr (g (bs @ [b]))" "g [] = m"
  shows "applyFields table (repeatedField n bs @ fs) m = applyFields table fs (g bs)"
proof -
  have "applyFields table (repeatedField n bs @ fs) (g as) = applyFields table fs (g (as @ bs))" for as
    using assms(1,2) by (induction bs arbitrary: as) (auto simp: repeatedField_def)
  from this [of "[]"] show ?thesis using assms(3) by simp
qed

section \<open>Handlers of fields\<close>

definition setBytes :: "((bytes \<Rightarrow> bytes) \<Rightarrow> 'r \<Rightarrow> 'r) \<Rightarrow> 'r handler" where
  "setBytes upd = HBytes (\<lambda>b m. Inr (upd (\<lambda>_. b) m))"

definition addBytes :: "((bytes list \<Rightarrow> bytes list) \<Rightarrow> 'r \<Rightarrow> 'r) \<Rightarrow> 'r handler" where
  "addBytes upd = HBytes (\<lambda>b m. Inr (upd (\<lambda>bs. bs @ [b]) m))"

definition setNum :: "(u64 \<Rightarrow> 'v) \<Rightarrow> (('v \<Rightarrow> 'v) \<Rightarrow> 'r \<Rightarrow> 'r) \<Rightarrow> 'r handler" where
  "setNum conv upd = HVarint (\<lambda>v. upd (\<lambda>_. conv v))"

lemma apply_setNum:
  "table n = Some (setNum conv upd) \<Longrightarrow> upd (\<lambda>_. conv 0) m = m \<Longrightarrow>
     applyFields table (numField n v @ fs) m = applyFields table fs (upd (\<lambda>_. conv v) m)"
  by (rule apply_numField) (simp_all add: setNum_def)

lemma apply_setBytes:
  "table n = Some (setBytes upd) \<Longrightarrow> upd (\<lambda>_. []) m = m \<Longrightarrow>
     applyFields table (bytesField n b @ fs) m = applyFields table fs (upd (\<lambda>_. b) m)"
  by (rule apply_bytesField) (simp_all add: setBytes_def)

text \<open>The key of a field above 15 takes two bytes.\<close>

definition szBytes2 :: "nat \<Rightarrow> nat" where
  "szBytes2 l = (if l > 0 then 2 + l + sov (word_of_nat l) else 0)"

lemma apply_addBytes:
  assumes "table n = Some (addBytes upd)" "\<And>as bs. upd (\<lambda>xs. xs @ [bs]) (upd (\<lambda>_. as) m) = upd (\<lambda>_. as @ [bs]) m" "upd (\<lambda>_. []) m = m"
  shows "applyFields table (repeatedField n bs @ fs) m = applyFields table fs (upd (\<lambda>_. bs) m)"
proof -
  have "applyFields table (repeatedField n bs @ fs) m = applyFields table fs ((\<lambda>as. upd (\<lambda>_. as) m) bs)"
    by (rule apply_repeatedField [where f = "\<lambda>b m. Inr (upd (\<lambda>bs. bs @ [b]) m)"]) (use assms in \<open>simp_all add: addBytes_def\<close>)
  then show ?thesis .
qed

lemma tags_ok [codec_simps]:
  assumes "0 < n" "n < 2 ^ 28"
  shows "list_all tag_ok (numField n v)" "list_all tag_ok (bytesField n b)" "list_all tag_ok (repeatedField n bs)"
  using assms by (auto simp: numField_def bytesField_def repeatedField_def list_all_iff tag_ok_def)

lemma sov_one: "unat w < 128 \<Longrightarrow> sov w = 1"
  using encodeVarint_length [of w] by (subst (asm) encodeVarint.simps) (simp add: word_le_nat_alt del: encodeVarint_length)

lemma sov_two: "128 \<le> unat w \<Longrightarrow> unat w < 2 ^ 14 \<Longrightarrow> sov w = 2"
proof -
  assume w: "128 \<le> unat w" "unat w < 2 ^ 14"
  have "unat (drop_bit 7 w) < 128" using w(2) by (simp add: drop_bit_eq_div unat_div div_less_iff_less_mult)
  then have "length (encodeVarint w) = 2"
    using w(1) by (subst encodeVarint.simps) (simp add: word_le_nat_alt sov_one)
  then show ?thesis by simp
qed

lemma tag_sov:
  assumes "t < 8" shows "n < 16 \<Longrightarrow> sov (word_of_nat (8 * n + t)) = 1" "16 \<le> n \<Longrightarrow> n < 2048 \<Longrightarrow> sov (word_of_nat (8 * n + t)) = 2"
proof -
  have un: "unat (word_of_nat m :: u64) = m" if "m < 2 ^ 64" for m using that by (simp add: unat_of_nat)
  have n: "unat (word_of_nat (8 * n + t) :: u64) = 8 * n + t" if "n < 2048" by (rule un) (use assms that in simp)
  show "n < 16 \<Longrightarrow> sov (word_of_nat (8 * n + t)) = 1" by (rule sov_one, subst n) (use assms in simp_all)
  show "16 \<le> n \<Longrightarrow> n < 2048 \<Longrightarrow> sov (word_of_nat (8 * n + t)) = 2" by (rule sov_two; subst n) (use assms in simp_all)
qed

lemma marshal_append [codec_simps]: "length (marshalFields (fs @ gs)) = length (marshalFields fs) + length (marshalFields gs)"
  by (simp add: marshalFields_def)

lemma marshal_lengths [codec_simps]:
  "n < 16 \<Longrightarrow> length (marshalFields (numField n v)) = szNum v"
  "16 \<le> n \<Longrightarrow> n < 2048 \<Longrightarrow> length (marshalFields (numField n v)) = (if v \<noteq> 0 then 2 + sov v else 0)"
  "n < 16 \<Longrightarrow> length (marshalFields (bytesField n b)) = szBytes (length b)"
  "16 \<le> n \<Longrightarrow> n < 2048 \<Longrightarrow> length (marshalFields (bytesField n b)) = szBytes2 (length b)"
  using tag_sov [of 0 n] tag_sov [of 2 n]
  by (simp_all add: marshalFields_def numField_def bytesField_def szNum_def szBytes_def szBytes2_def szMsg_def)

lemma marshal_repeated [codec_simps]:
  assumes "n < 16" shows "length (marshalFields (repeatedField n bs)) = sum_list (map (\<lambda>b. szMsg (length b)) bs)"
  using tag_sov(1) [of 2 n] assms by (induction bs) (simp_all add: marshalFields_def repeatedField_def szMsg_def)

lemma height_back: "- (2 ^ 63) \<le> h \<Longrightarrow> h < 2 ^ 63 \<Longrightarrow> sint (word_of_int h :: u64) = h"
  by (simp add: signed_of_int signed_take_bit_int_eq_self)

lemma u32_back: "ucast (ucast (w :: u32) :: u64) = w"
  by (rule bit_word_eqI) (auto simp: bit_simps)

end
