(* ===== verification/Merkle_Tree.thy ===== *)
theory Merkle_Tree
  imports KV_Store Field_Bytes Proto_Wire
begin

text \<open>
  The incremental commitment tree (\<^verbatim>\<open>x/privacy/keeper/tree.go\<close>) and the root snapshots that every
  append writes (\<^verbatim>\<open>setMerkleRootSnapshot\<close> of \<^verbatim>\<open>x/privacy/keeper/path_snapshot.go\<close>): the operations
  on the store, in the order of the source. What they compute is the subject of
  \<^verbatim>\<open>Merkle_Spec\<close>.

  The record \<open>keeper_env\<close> adds to the hash environment the one bit of keeper configuration that
  these operations read (\<^verbatim>\<open>k.audit != nil\<close>). The codec of a snapshot is that of \<^verbatim>\<open>genesis.pb.go\<close>.
  Block heights are \<open>int\<close> (they are \<^verbatim>\<open>int64\<close>), leaf indices and counts are \<^typ>\<open>u64\<close>.
\<close>

section \<open>Configuration\<close>

record snapshot =
  snap_root :: bytes
  snap_leaf_count :: u64
  snap_height :: int

record keeper_env = crypto_env +
  audit_on :: bool

definition int64 :: "int \<Rightarrow> bool" where
  "int64 h = (- (2 ^ 63) \<le> h \<and> h < 2 ^ 63)"

section \<open>The codec of snapshots\<close>

definition snapshot_fields :: "snapshot \<Rightarrow> (nat \<times> wire_value) list" where
  "snapshot_fields sn = bytesField 1 (snap_root sn) @ numField 2 (snap_leaf_count sn) @ numField 3 (word_of_int (snap_height sn))"

definition MerkleRootSnapshotV1_Marshal :: "snapshot \<Rightarrow> bytes" where
  "MerkleRootSnapshotV1_Marshal sn = marshalFields (snapshot_fields sn)"

definition snapshot_table :: "nat \<Rightarrow> snapshot handler option" where
  "snapshot_table = map_of [(1, setBytes snap_root_update), (2, setNum id snap_leaf_count_update), (3, setNum sint snap_height_update)]"

definition MerkleRootSnapshotV1_Unmarshal :: "bytes \<Rightarrow> snapshot res" where
  "MerkleRootSnapshotV1_Unmarshal bs = unmarshalFields snapshot_table \<lparr>snap_root = [], snap_leaf_count = 0, snap_height = 0\<rparr> bs"

lemma snapshot_lookup:
  "snapshot_table 1 = Some (setBytes snap_root_update)" "snapshot_table 2 = Some (setNum id snap_leaf_count_update)"
  "snapshot_table 3 = Some (setNum sint snap_height_update)"
  by (simp_all add: snapshot_table_def)

lemma snapshot_applied:
  "int64 (snap_height sn) \<Longrightarrow>
     applyFields snapshot_table (snapshot_fields sn @ []) \<lparr>snap_root = [], snap_leaf_count = 0, snap_height = 0\<rparr> = Inr sn"
  unfolding snapshot_fields_def append_assoc
  by (simp add: apply_setBytes [of snapshot_table 1 snap_root_update] apply_setNum [of snapshot_table 2 "id" snap_leaf_count_update]
      apply_setNum [of snapshot_table 3 "sint" snap_height_update] snapshot_lookup int64_def height_back del: append_Nil2 One_nat_def)

lemma snapshot_size:
  "length (MerkleRootSnapshotV1_Marshal sn) =
     szBytes (length (snap_root sn)) + szNum (snap_leaf_count sn) + szNum (word_of_int (snap_height sn))"
  by (simp add: MerkleRootSnapshotV1_Marshal_def snapshot_fields_def codec_simps)

lemma snapshot_roundtrip [simp]:
  assumes "int64 (snap_height sn)" "length (snap_root sn) \<le> 32"
  shows "MerkleRootSnapshotV1_Unmarshal (MerkleRootSnapshotV1_Marshal sn) = Inr sn"
proof -
  have s: "sov x \<le> 10" for x using sov_le [of x 64] unsigned_less [of x, where 'a = nat] by simp
  have "szNum x \<le> 11" for x using s [of x] by (simp add: szNum_def)
  moreover have "szBytes (length (snap_root sn)) \<le> 43"
    using s [of "word_of_nat (length (snap_root sn))"] assms(2) by (simp add: szBytes_def szMsg_def)
  ultimately have "length (MerkleRootSnapshotV1_Marshal sn) \<le> 43 + 11 + 11"
    unfolding snapshot_size by (intro add_mono)
  then show ?thesis
    unfolding MerkleRootSnapshotV1_Unmarshal_def MerkleRootSnapshotV1_Marshal_def
    using snapshot_applied [OF assms(1)]
    by (intro unmarshal_marshal) (simp_all add: snapshot_fields_def codec_simps)
qed

lemma snapshot_nonempty [simp]: "snap_root sn \<noteq> [] \<Longrightarrow> MerkleRootSnapshotV1_Marshal sn \<noteq> []"
  by (simp add: MerkleRootSnapshotV1_Marshal_def snapshot_fields_def bytesField_def marshalFields_def)

section \<open>Parameters of the tree\<close>

definition MerkleDepth :: nat where "MerkleDepth = 32"
definition MaxMerkleLeaves :: u64 where "MaxMerkleLeaves = 4294967296"
definition MaxMerkleRebuildLeaves :: u64 where "MaxMerkleRebuildLeaves = 1048576"

section \<open>Counting leaves\<close>

definition validateMerkleLeafCount :: "u64 \<Rightarrow> unit res" where
  "validateMerkleLeafCount count = guardE (\<not> count > MaxMerkleLeaves) ErrMerkleTreeOverflow"

definition validateMerkleRebuildCount :: "u64 \<Rightarrow> unit res" where
  "validateMerkleRebuildCount count =
     bindE (validateMerkleLeafCount count) (\<lambda>_.
     guardE (\<not> count > MaxMerkleRebuildLeaves) ErrMerkleTreeRebuildTooLarge)"

definition remainingMerkleLeaves :: "u64 \<Rightarrow> u64 res" where
  "remainingMerkleLeaves count =
     bindE (validateMerkleLeafCount count) (\<lambda>_. Inr (MaxMerkleLeaves - count))"

definition getLeafCountStrict :: "store \<Rightarrow> u64 res" where
  "getLeafCountStrict s =
     (case kv_get s LeafCountKey of
        None \<Rightarrow> Inr 0
      | Some raw \<Rightarrow>
          bindE (guardE (length raw = 8) (Errorf ''invalid merkle leaf count encoding'')) (\<lambda>_.
          bindE (validateMerkleLeafCount (un_be64 raw)) (\<lambda>_.
          Inr (un_be64 raw))))"

text \<open>\<^verbatim>\<open>GetLeafCount\<close> reads the counter without the checks; \<^verbatim>\<open>binary.BigEndian.Uint64\<close> panics on
  fewer than eight bytes.\<close>

definition GetLeafCount :: "store \<Rightarrow> u64 res" where
  "GetLeafCount s =
     (case kv_get s LeafCountKey of
        None \<Rightarrow> Inr 0
      | Some raw \<Rightarrow>
          bindE (guardE (length raw \<ge> 8) (Errorf ''panic: index out of range'')) (\<lambda>_. Inr (un_be64 raw)))"

definition rootKey :: bytes where
  "rootKey = GetMerkleNodeKey (word_of_nat MerkleDepth) 0"

definition validateMerkleCachedRootOrSmallRebuild :: "'a keeper_env_scheme \<Rightarrow> u64 \<Rightarrow> store \<Rightarrow> unit res" where
  "validateMerkleCachedRootOrSmallRebuild env count s =
     bindE (validateMerkleLeafCount count) (\<lambda>_.
     if count = 0 then Inr ()
     else if kv_has s rootKey then Inr ()
     else if audit_on env then Inl ErrMerkleQueryCachedRootMissing
     else validateMerkleRebuildCount count)"

definition EnsureCanAppendCommitments :: "'a keeper_env_scheme \<Rightarrow> u64 \<Rightarrow> store \<Rightarrow> unit res" where
  "EnsureCanAppendCommitments env appendCount s =
     bindE (getLeafCountStrict s) (\<lambda>count.
     bindE (remainingMerkleLeaves count) (\<lambda>remaining.
     bindE (guardE (\<not> appendCount > remaining) ErrMerkleTreeCapacity) (\<lambda>_.
     validateMerkleCachedRootOrSmallRebuild env count s)))"

text \<open>The loop of \<^verbatim>\<open>populatedNodeCountAtLevel\<close>: it halves the count \<open>level\<close> times, rounding up.\<close>

fun populatedNodeCountAtLevel :: "u64 \<Rightarrow> nat \<Rightarrow> u64" where
  "populatedNodeCountAtLevel count 0 = count"
| "populatedNodeCountAtLevel count (Suc level) =
     (if count > 0 then populatedNodeCountAtLevel ((count + 1) div 2) level else count)"

section \<open>Reading the tree\<close>

definition hashNodes :: "'a keeper_env_scheme \<Rightarrow> nat \<Rightarrow> bytes \<Rightarrow> bytes \<Rightarrow> bytes" where
  "hashNodes env level left right =
     canonicalizeFieldBytesOrOriginal
       (big_bytes (ComputeNoteTreeNodeV1 env level (be_to_nat left) (be_to_nat right)))"

definition zeroNodeBytes :: bytes where
  "zeroNodeBytes = replicate fieldElementByteSize 0"

definition emptyNodeBytes :: "'a keeper_env_scheme \<Rightarrow> nat \<Rightarrow> bytes" where
  "emptyNodeBytes env level = canonicalizeFieldBytesOrOriginal (big_bytes (EmptyNoteTreeRootV1 env level))"

definition GetLeaf :: "u64 \<Rightarrow> store \<Rightarrow> bytes option" where
  "GetLeaf index s = kv_get s (LeafKey index)"

definition getLeafRequired :: "u64 \<Rightarrow> u64 \<Rightarrow> store \<Rightarrow> bytes res" where
  "getLeafRequired index leafCount s =
     bindE (guardE (\<not> index \<ge> leafCount) ErrMerkleTreeLeafMissing) (\<lambda>_.
     case kv_get s (LeafKey index) of
       None \<Rightarrow> Inl ErrMerkleTreeLeafMissing
     | Some leaf \<Rightarrow>
         bindE (guardE (length leaf \<noteq> 0) ErrMerkleTreeLeafMissing) (\<lambda>_.
         validateFieldElementBytesStrict leaf))"

definition getMerkleNodeOrEmpty :: "'a keeper_env_scheme \<Rightarrow> nat \<Rightarrow> u64 \<Rightarrow> u64 \<Rightarrow> store \<Rightarrow> bytes res" where
  "getMerkleNodeOrEmpty env level index leafCount s =
     (if index \<ge> populatedNodeCountAtLevel leafCount level then Inr (emptyNodeBytes env level)
      else case kv_get s (GetMerkleNodeKey (word_of_nat level) index) of
             None \<Rightarrow> Inl ErrMerkleTreeNodeMissing
           | Some raw \<Rightarrow> validateFieldElementBytesStrict raw)"

fun validateAppendPathLoop :: "'a keeper_env_scheme \<Rightarrow> u64 \<Rightarrow> nat list \<Rightarrow> u64 \<Rightarrow> store \<Rightarrow> unit res" where
  "validateAppendPathLoop env index [] currentIndex s = Inr ()"
| "validateAppendPathLoop env index (level # levels) currentIndex s =
     bindE (if currentIndex mod 2 = 1
            then bindE (getMerkleNodeOrEmpty env level (currentIndex - 1) index s) (\<lambda>_. Inr ())
            else Inr ()) (\<lambda>_.
     validateAppendPathLoop env index levels (currentIndex div 2) s)"

definition validateAppendPath :: "'a keeper_env_scheme \<Rightarrow> u64 \<Rightarrow> store \<Rightarrow> unit res" where
  "validateAppendPath env index s = validateAppendPathLoop env index [0..<MerkleDepth] index s"

text \<open>The result of \<^verbatim>\<open>GetCommitmentIndex\<close> is an option for the pair \<^verbatim>\<open>(index, found)\<close>.\<close>

definition GetCommitmentIndex :: "bytes \<Rightarrow> store \<Rightarrow> u64 option res" where
  "GetCommitmentIndex commitment s =
     bindE (canonicalizeFieldBytes commitment) (\<lambda>canonicalCommitment.
     case kv_get s (GetCommitmentIndexKey canonicalCommitment) of
       None \<Rightarrow> Inr None
     | Some bz \<Rightarrow>
         bindE (guardE (length bz = 8) (Errorf ''commitment index is corrupt'')) (\<lambda>_.
         Inr (Some (un_be64 bz))))"

definition HasCommitment :: "bytes \<Rightarrow> store \<Rightarrow> bool res" where
  "HasCommitment commitment s =
     bindE (GetCommitmentIndex commitment s) (\<lambda>found. Inr (found \<noteq> None))"

definition CheckHistoricalRoot :: "bytes \<Rightarrow> store \<Rightarrow> bool" where
  "CheckHistoricalRoot root s =
     (case canonicalizeFieldBytes root of
        Inl _ \<Rightarrow> False
      | Inr canonicalRoot \<Rightarrow> kv_has s (GetHistoricalRootKey canonicalRoot))"

definition HasNullifier :: "bytes \<Rightarrow> store \<Rightarrow> bool" where
  "HasNullifier nullifier s =
     (case canonicalizeFieldBytes nullifier of
        Inl _ \<Rightarrow> False
      | Inr canonicalNullifier \<Rightarrow> kv_has s (GetNullifierKey canonicalNullifier))"

definition GetMerkleNode :: "nat \<Rightarrow> u64 \<Rightarrow> store \<Rightarrow> bytes option" where
  "GetMerkleNode level index s = kv_get s (GetMerkleNodeKey (word_of_nat level) index)"

section \<open>Writing the tree\<close>

definition setLeafCount :: "u64 \<Rightarrow> (store, unit) action" where
  "setLeafCount count = writeM (kv_set LeafCountKey (be64 count))"

definition setLeaf :: "u64 \<Rightarrow> bytes \<Rightarrow> (store, unit) action" where
  "setLeaf index leaf = writeM (kv_set (LeafKey index) leaf)"

definition setHistoricalRoot :: "int \<Rightarrow> bytes \<Rightarrow> (store, unit) action" where
  "setHistoricalRoot height root =
     writeM (kv_set (GetHistoricalRootKey (canonicalizeFieldBytesOrOriginal root)) (be64 (word_of_int height)))"

definition setNullifier :: "bytes \<Rightarrow> (store, unit) action" where
  "setNullifier nullifier =
     writeM (kv_set (GetNullifierKey (canonicalizeFieldBytesOrOriginal nullifier)) [0x01])"

definition setMerkleNode :: "nat \<Rightarrow> u64 \<Rightarrow> bytes \<Rightarrow> (store, unit) action" where
  "setMerkleNode level index node = writeM (kv_set (GetMerkleNodeKey (word_of_nat level) index) node)"

definition setCommitmentIndex :: "bytes \<Rightarrow> u64 \<Rightarrow> (store, unit) action" where
  "setCommitmentIndex commitment index =
     writeM (kv_set (GetCommitmentIndexKey (canonicalizeFieldBytesOrOriginal commitment)) (be64 index))"

definition setHistoricalRootHeightMetadata :: "bytes \<Rightarrow> int \<Rightarrow> (store, unit) action" where
  "setHistoricalRootHeightMetadata root height =
     writeM (kv_set (GetHistoricalRootKey root) (be64 (word_of_int height)))"

definition setMerkleRootSnapshot :: "'a keeper_env_scheme \<Rightarrow> snapshot \<Rightarrow> (store, unit) action" where
  "setMerkleRootSnapshot env sn =
     bindM (readM (\<lambda>_. validateFieldElementBytesStrict (snap_root sn))) (\<lambda>canonicalRoot.
     bindM (readM getLeafCountStrict) (\<lambda>count.
     bindM (guardM (\<not> (snap_leaf_count sn = 0 \<or> snap_leaf_count sn > count))
              (Errorf ''merkle root snapshot leaf_count is out of range'')) (\<lambda>_.
     bindM (guardM (\<not> snap_height sn < 0)
              (Errorf ''merkle root snapshot height must not be negative'')) (\<lambda>_.
     bindM (readM (\<lambda>s. guardE (kv_has s (GetHistoricalRootKey canonicalRoot))
              (Errorf ''merkle root snapshot root is not historical''))) (\<lambda>_.
     bindM (readM (\<lambda>s. Inr (kv_get s (GetMerkleRootSnapshotKey canonicalRoot)))) (\<lambda>existing.
     if existing \<noteq> None \<and> the existing \<noteq> [] then
       (case MerkleRootSnapshotV1_Unmarshal (the existing) of
          Inl _ \<Rightarrow> failM (Errorf ''stored merkle root snapshot is corrupt'')
        | Inr current \<Rightarrow>
            bindM (guardM (\<not> (snap_leaf_count current \<noteq> snap_leaf_count sn \<or>
                              snap_height current \<noteq> snap_height sn \<or> snap_root current \<noteq> canonicalRoot))
                     (Errorf ''merkle root snapshot re-registration is inconsistent'')) (\<lambda>_.
            setHistoricalRootHeightMetadata canonicalRoot (snap_height sn)))
     else
       bindM (writeM (kv_set (GetMerkleRootSnapshotKey canonicalRoot)
                (MerkleRootSnapshotV1_Marshal (sn\<lparr>snap_root := canonicalRoot\<rparr>)))) (\<lambda>_.
       setHistoricalRootHeightMetadata canonicalRoot (snap_height sn))))))))"

text \<open>The loop that carries a new node from a leaf to the root: at an odd index the left sibling
  is read, at an even index the right sibling is the empty subtree.\<close>

fun climb :: "'a keeper_env_scheme \<Rightarrow> u64 \<Rightarrow> nat list \<Rightarrow> u64 \<Rightarrow> bytes \<Rightarrow> (store, bytes) action" where
  "climb env leafCount [] currentIndex current = retM current"
| "climb env leafCount (level # levels) currentIndex current =
     bindM (if currentIndex mod 2 = 0 then retM (current, emptyNodeBytes env level)
            else bindM (readM (getMerkleNodeOrEmpty env level (currentIndex - 1) leafCount)) (\<lambda>left.
                 retM (left, current))) (\<lambda>(left, right).
     let parent = hashNodes env level left right; parentIndex = currentIndex div 2
     in bindM (setMerkleNode (level + 1) parentIndex parent) (\<lambda>_.
        climb env leafCount levels parentIndex parent))"

text \<open>The body of the repair loop of \<^verbatim>\<open>ensureIncrementalTreeState\<close>.\<close>

fun rebuildLeaves :: "'a keeper_env_scheme \<Rightarrow> u64 \<Rightarrow> nat list \<Rightarrow> (store, unit) action" where
  "rebuildLeaves env count [] = retM ()"
| "rebuildLeaves env count (i # is) =
     bindM (readM (getLeafRequired (word_of_nat i) count)) (\<lambda>leaf.
     bindM (setCommitmentIndex leaf (word_of_nat i)) (\<lambda>_.
     bindM (setMerkleNode 0 (word_of_nat i) leaf) (\<lambda>_.
     bindM (climb env count [0..<MerkleDepth] (word_of_nat i) leaf) (\<lambda>_.
     rebuildLeaves env count is))))"

definition ensureIncrementalTreeState :: "'a keeper_env_scheme \<Rightarrow> (store, unit) action" where
  "ensureIncrementalTreeState env =
     bindM (readM getLeafCountStrict) (\<lambda>count.
     bindM (readM (validateMerkleCachedRootOrSmallRebuild env count)) (\<lambda>_.
     if count = 0 then retM ()
     else bindM (readM (\<lambda>s. Inr (kv_has s rootKey))) (\<lambda>present.
          if present then retM ()
          else rebuildLeaves env count [0..<unat count])))"

definition appendCommitment :: "'a keeper_env_scheme \<Rightarrow> int \<Rightarrow> bytes \<Rightarrow> (store, unit) action" where
  "appendCommitment env height commitment =
     bindM (readM (\<lambda>_. validateFieldElementBytesStrict commitment)) (\<lambda>canonicalCommitment.
     bindM (guardM (canonicalCommitment \<noteq> zeroNodeBytes) ErrMerkleZeroCommitment) (\<lambda>_.
     bindM (readM (HasCommitment canonicalCommitment)) (\<lambda>commitmentExists.
     bindM (guardM (\<not> commitmentExists) ErrMerkleDuplicateCommitment) (\<lambda>_.
     bindM (readM (EnsureCanAppendCommitments env 1)) (\<lambda>_.
     bindM (ensureIncrementalTreeState env) (\<lambda>_.
     bindM (readM getLeafCountStrict) (\<lambda>index.
     bindM (readM (validateAppendPath env index)) (\<lambda>_.
     bindM (setLeaf index canonicalCommitment) (\<lambda>_.
     bindM (setCommitmentIndex canonicalCommitment index) (\<lambda>_.
     bindM (setMerkleNode 0 index canonicalCommitment) (\<lambda>_.
     bindM (climb env index [0..<MerkleDepth] index canonicalCommitment) (\<lambda>current.
     bindM (setHistoricalRoot height current) (\<lambda>_.
     bindM (setLeafCount (index + 1)) (\<lambda>_.
     setMerkleRootSnapshot env
       \<lparr>snap_root = current, snap_leaf_count = index + 1, snap_height = height\<rparr>))))))))))))))"

section \<open>The exported writers\<close>

text \<open>Each exported writer refuses to run once the audit runtime is configured.\<close>

definition rawMutation :: "'a keeper_env_scheme \<Rightarrow> string \<Rightarrow> (store, 'r) action \<Rightarrow> (store, 'r) action" where
  "rawMutation env what m = bindM (guardM (\<not> audit_on env) (Errorf what)) (\<lambda>_. m)"

definition AppendCommitment :: "'a keeper_env_scheme \<Rightarrow> int \<Rightarrow> bytes \<Rightarrow> (store, unit) action" where
  "AppendCommitment env height commitment =
     rawMutation env ''raw commitment mutation is disabled for audit-field'' (appendCommitment env height commitment)"

definition SetLeafCount :: "'a keeper_env_scheme \<Rightarrow> u64 \<Rightarrow> (store, unit) action" where
  "SetLeafCount env count = rawMutation env ''raw tree mutation is disabled for audit-field'' (setLeafCount count)"

definition SetLeaf :: "'a keeper_env_scheme \<Rightarrow> u64 \<Rightarrow> bytes \<Rightarrow> (store, unit) action" where
  "SetLeaf env index leaf = rawMutation env ''raw tree mutation is disabled for audit-field'' (setLeaf index leaf)"

definition SetHistoricalRoot :: "'a keeper_env_scheme \<Rightarrow> int \<Rightarrow> bytes \<Rightarrow> (store, unit) action" where
  "SetHistoricalRoot env height root =
     rawMutation env ''raw tree mutation is disabled for audit-field'' (setHistoricalRoot height root)"

definition SetNullifier :: "'a keeper_env_scheme \<Rightarrow> bytes \<Rightarrow> (store, unit) action" where
  "SetNullifier env nullifier =
     rawMutation env ''raw tree mutation is disabled for audit-field'' (setNullifier nullifier)"

definition SetMerkleNode :: "'a keeper_env_scheme \<Rightarrow> nat \<Rightarrow> u64 \<Rightarrow> bytes \<Rightarrow> (store, unit) action" where
  "SetMerkleNode env level index node =
     rawMutation env ''raw tree mutation is disabled for audit-field'' (setMerkleNode level index node)"

definition SetCommitmentIndex :: "'a keeper_env_scheme \<Rightarrow> bytes \<Rightarrow> u64 \<Rightarrow> (store, unit) action" where
  "SetCommitmentIndex env commitment index =
     rawMutation env ''raw tree mutation is disabled for audit-field'' (setCommitmentIndex commitment index)"

definition SetMerkleRootSnapshotV1 :: "'a keeper_env_scheme \<Rightarrow> snapshot \<Rightarrow> (store, unit) action" where
  "SetMerkleRootSnapshotV1 env sn =
     rawMutation env ''raw snapshot mutation is disabled'' (setMerkleRootSnapshot env sn)"

section \<open>Recomputation and authentication paths\<close>

fun nextLayer :: "'a keeper_env_scheme \<Rightarrow> nat \<Rightarrow> bytes list \<Rightarrow> bytes list" where
  "nextLayer env level [] = []"
| "nextLayer env level [left] = [hashNodes env level left (emptyNodeBytes env level)]"
| "nextLayer env level (left # right # layer) = hashNodes env level left right # nextLayer env level layer"

definition RecalculateRoot :: "'a keeper_env_scheme \<Rightarrow> u64 \<Rightarrow> store \<Rightarrow> bytes res" where
  "RecalculateRoot env count s =
     (if count = 0 then Inr (emptyNodeBytes env MerkleDepth)
      else bindE (validateMerkleRebuildCount count) (\<lambda>_.
           bindE (traverseE (\<lambda>i. getLeafRequired (word_of_nat i) count s) [0..<unat count]) (\<lambda>layer.
           Inr (fold (nextLayer env) [0..<MerkleDepth] layer ! 0))))"

text \<open>The sibling loop of \<^verbatim>\<open>GetPath\<close>: the hexadecimal siblings and the position bits.\<close>

fun pathLoop :: "'a keeper_env_scheme \<Rightarrow> u64 \<Rightarrow> nat list \<Rightarrow> u64 \<Rightarrow> store \<Rightarrow> (string \<times> u32) list res" where
  "pathLoop env count [] currentIndex s = Inr []"
| "pathLoop env count (i # is) currentIndex s =
     bindE (getMerkleNodeOrEmpty env i (currentIndex XOR 1) count s) (\<lambda>sibling.
     bindE (pathLoop env count is (currentIndex div 2) s) (\<lambda>rest.
     Inr ((if length sibling = 0 then ''00'' else hex_of_bytes sibling,
           if currentIndex mod 2 = 1 then 1 else 0) # rest)))"

definition GetPath :: "'a keeper_env_scheme \<Rightarrow> bytes \<Rightarrow> (store, string list \<times> u32 list \<times> bytes) action" where
  "GetPath env commitment =
     bindM (ensureIncrementalTreeState env) (\<lambda>_.
     bindM (readM GetLeafCount) (\<lambda>count.
     bindM (guardM (count \<noteq> 0) ErrMerkleCommitmentNotFound) (\<lambda>_.
     let canonicalCommitment = canonicalizeFieldBytesOrOriginal commitment
     in bindM (readM (GetCommitmentIndex canonicalCommitment)) (\<lambda>found.
        bindM (guardM (\<not> (found = None \<or> the found \<ge> count)) ErrMerkleCommitmentNotFound) (\<lambda>_.
        bindM (readM (getLeafRequired (the found) count)) (\<lambda>targetLeaf.
        bindM (guardM (targetLeaf = canonicalCommitment) ErrMerkleTreeLeafMismatch) (\<lambda>_.
        bindM (readM (pathLoop env count [0..<MerkleDepth] (the found))) (\<lambda>path.
        bindM (readM (\<lambda>s. case GetMerkleNode MerkleDepth 0 s of
                            Some root \<Rightarrow> if root = [] then RecalculateRoot env count s else Inr root
                          | None \<Rightarrow> RecalculateRoot env count s)) (\<lambda>root.
        retM (map fst path, map snd path, root))))))))))"

end
