(* ===== verification/Merkle_Spec.thy ===== *)
theory Merkle_Spec
  imports Merkle_Tree
begin

text \<open>
  What the incremental tree computes. \<open>tree_node env vs l i\<close> is the node \<open>i\<close> at level \<open>l\<close> of the
  complete binary tree of depth 32 over the field values \<open>vs\<close>, absent leaves being zero;
  \<open>tree_inv env ls s\<close> says that the store \<open>s\<close> holds exactly the incremental representation of the
  leaves \<open>ls\<close>. The theorems show that an append keeps the invariant and extends the leaves, that
  the recomputation and the repair agree with the incremental state, and that an authentication
  path leads from its leaf to the root.
\<close>

section \<open>The abstract tree\<close>

fun tree_node :: "'a keeper_env_scheme \<Rightarrow> nat list \<Rightarrow> nat \<Rightarrow> nat \<Rightarrow> nat" where
  "tree_node env vs 0 i = (if i < length vs then vs ! i else 0)"
| "tree_node env vs (Suc l) i =
     ComputeNoteTreeNodeV1 env l (tree_node env vs l (2 * i)) (tree_node env vs l (2 * i + 1))"

definition tree_root :: "'a keeper_env_scheme \<Rightarrow> nat list \<Rightarrow> nat" where
  "tree_root env vs = tree_node env vs MerkleDepth 0"

text \<open>The root of a list of leaf encodings, as the 32 bytes that the store holds.\<close>

definition root_bytes :: "'a keeper_env_scheme \<Rightarrow> bytes list \<Rightarrow> bytes" where
  "root_bytes env ls = fe_bytes (tree_root env (map be_to_nat ls))"

lemma tree_node_empty: "length vs \<le> i * 2 ^ l \<Longrightarrow> tree_node env vs l i = empty_root env l"
proof (induction l arbitrary: i)
  case (Suc l)
  then have "length vs \<le> 2 * i * 2 ^ l" "length vs \<le> (2 * i + 1) * 2 ^ l" by auto
  with Suc.IH show ?case by simp
qed simp

text \<open>A node depends only on the leaves below it.\<close>

lemma tree_node_local:
  assumes "\<And>j. i * 2 ^ l \<le> j \<Longrightarrow> j < (i + 1) * 2 ^ l \<Longrightarrow>
      (if j < length vs then vs ! j else 0) = (if j < length ws then ws ! j else 0)"
  shows "tree_node env vs l i = tree_node env ws l i"
  using assms
proof (induction l arbitrary: i)
  case (Suc l)
  have "tree_node env vs l (2 * i) = tree_node env ws l (2 * i)"
    by (rule Suc.IH, rule Suc.prems) (auto simp: algebra_simps)
  moreover have "tree_node env vs l (2 * i + 1) = tree_node env ws l (2 * i + 1)"
    by (rule Suc.IH, rule Suc.prems) (auto simp: algebra_simps)
  ultimately show ?case by simp
qed simp

lemma tree_node_snoc: "(i + 1) * 2 ^ l \<le> length vs \<Longrightarrow> tree_node env (vs @ ws) l i = tree_node env vs l i"
  by (rule tree_node_local) (auto simp: nth_append)

lemma tree_node_less:
  assumes "crypto_ok env" "\<forall>v \<in> set vs. v < fr_modulus"
  shows "tree_node env vs l i < fr_modulus"
  using assms by (cases l) auto

lemma node_canonical [simp]:
  "crypto_ok env \<Longrightarrow> \<forall>c \<in> set ls. canonical_field c \<Longrightarrow>
     canonical_field (fe_bytes (tree_node env (map be_to_nat ls) l i))"
  by (intro canonical_fe_bytes tree_node_less) (auto simp: canonical_value_less)

lemma root_bytes_canonical [simp]:
  "crypto_ok env \<Longrightarrow> \<forall>c \<in> set ls. canonical_field c \<Longrightarrow> canonical_field (root_bytes env ls)"
  by (simp add: root_bytes_def tree_root_def)

lemma hashNodes_fe [simp]:
  "crypto_ok env \<Longrightarrow> a < fr_modulus \<Longrightarrow> b < fr_modulus \<Longrightarrow>
     hashNodes env l (fe_bytes a) (fe_bytes b) = fe_bytes (ComputeNoteTreeNodeV1 env l a b)"
  by (simp add: hashNodes_def canonicalizeOr_big_bytes)

lemma emptyNodeBytes_fe [simp]: "crypto_ok env \<Longrightarrow> emptyNodeBytes env l = fe_bytes (empty_root env l)"
  by (simp add: emptyNodeBytes_def canonicalizeOr_big_bytes)

section \<open>Counts and indices\<close>

text \<open>The populated nodes of a level are those with a leaf below them.\<close>

lemma populated_iff:
  assumes "unat count \<le> 2 ^ 32"
  shows "i < unat (populatedNodeCountAtLevel count l) \<longleftrightarrow> i * 2 ^ l < unat count"
  using assms
proof (induction l arbitrary: count)
  case (Suc l)
  show ?case
  proof (cases "count = 0")
    case False
    then have pos: "count > 0" by (simp add: word_neq_0_conv)
    have half: "unat ((count + 1) div 2) = (unat count + 1) div 2"
      using Suc.prems by (simp add: unat_div unat_word_ariths)
    have "i < unat (populatedNodeCountAtLevel count (Suc l)) \<longleftrightarrow> i * 2 ^ l < (unat count + 1) div 2"
      using Suc.IH [of "(count + 1) div 2"] Suc.prems pos half by simp
    also have "\<dots> \<longleftrightarrow> 2 * (i * 2 ^ l) < unat count" by linarith
    finally show ?thesis by (simp add: algebra_simps)
  qed simp
qed simp

lemma depth_le_32: "n < 2 ^ 32 \<Longrightarrow> n div 2 ^ 32 = (0::nat)"
  by simp

lemma div_pow_Suc: "n div 2 ^ Suc l = n div 2 ^ l div (2::nat)"
  by (simp only: power_Suc2 div_mult2_eq)

lemma node_key_inj:
  assumes "l \<le> 32" "m \<le> 32" "i < 2 ^ 64" "j < 2 ^ 64"
  shows "GetMerkleNodeKey (word_of_nat l) (word_of_nat i) = GetMerkleNodeKey (word_of_nat m) (word_of_nat j) \<longleftrightarrow>
     l = m \<and> i = j"
proof -
  have "(word_of_nat l :: u8) = word_of_nat m \<longleftrightarrow> l = m"
  proof
    assume "(word_of_nat l :: u8) = word_of_nat m"
    then have "l mod 256 = m mod 256" by (metis unat_byte_of_nat)
    with assms(1,2) show "l = m" by simp
  qed simp
  then show ?thesis using assms(3,4) by (auto simp: GetMerkleNodeKey_def u64_of_nat_inj)
qed

section \<open>The invariant\<close>

text \<open>The keys that hold the tree.\<close>

definition tree_key :: "bytes \<Rightarrow> bool" where
  "tree_key k = (case k of [] \<Rightarrow> False
     | p # _ \<Rightarrow> p \<in> {KeyPrefixMerkleNode, KeyPrefixHistoricalRoot, KeyPrefixCommitmentIdx, KeyPrefixRootSnapshot, 76})"

definition tree_nodes :: "'a keeper_env_scheme \<Rightarrow> bytes list \<Rightarrow> store \<Rightarrow> bool" where
  "tree_nodes env ls s =
     (\<forall>l \<le> MerkleDepth. \<forall>i. i * 2 ^ l < length ls \<longrightarrow>
        kv_get s (GetMerkleNodeKey (word_of_nat l) (word_of_nat i)) =
          Some (fe_bytes (tree_node env (map be_to_nat ls) l i)))"

definition tree_leaves :: "bytes list \<Rightarrow> store \<Rightarrow> bool" where
  "tree_leaves ls s =
     (length ls \<le> 2 ^ 32 \<and> (\<forall>c \<in> set ls. active_field c) \<and> distinct ls \<and>
      getLeafCountStrict s = Inr (word_of_nat (length ls)) \<and>
      (\<forall>i < length ls. kv_get s (LeafKey (word_of_nat i)) = Some (ls ! i)))"

definition tree_index :: "bytes list \<Rightarrow> store \<Rightarrow> bool" where
  "tree_index ls s =
     ((\<forall>i < length ls. kv_get s (GetCommitmentIndexKey (ls ! i)) = Some (be64 (word_of_nat i))) \<and>
      (\<forall>c. c \<notin> set ls \<longrightarrow> kv_get s (GetCommitmentIndexKey c) = None))"

text \<open>A block height: a non-negative \<^verbatim>\<open>int64\<close>.\<close>

definition is_height :: "int \<Rightarrow> bool" where
  "is_height h = (0 \<le> h \<and> h < 2 ^ 63)"

lemma is_height_int64 [simp]: "is_height h \<Longrightarrow> int64 h"
  by (simp add: is_height_def int64_def)

text \<open>Exactly the roots of the non-empty prefixes are historical, each with a snapshot that
  records the length of its prefix.\<close>

definition tree_roots :: "'a keeper_env_scheme \<Rightarrow> bytes list \<Rightarrow> store \<Rightarrow> bool" where
  "tree_roots env ls s =
     ((\<forall>j. 0 < j \<and> j \<le> length ls \<longrightarrow>
        (\<exists>h. is_height h \<and> kv_get s (GetMerkleRootSnapshotKey (root_bytes env (take j ls))) =
             Some (MerkleRootSnapshotV1_Marshal \<lparr>snap_root = root_bytes env (take j ls),
               snap_leaf_count = word_of_nat j, snap_height = h\<rparr>) \<and>
           kv_get s (GetHistoricalRootKey (root_bytes env (take j ls))) = Some (be64 (word_of_int h)))) \<and>
      (\<forall>r. kv_has s (GetHistoricalRootKey r) \<or> kv_has s (GetMerkleRootSnapshotKey r) \<longrightarrow>
        (\<exists>j. 0 < j \<and> j \<le> length ls \<and> r = root_bytes env (take j ls))))"

definition tree_inv :: "'a keeper_env_scheme \<Rightarrow> bytes list \<Rightarrow> store \<Rightarrow> bool" where
  "tree_inv env ls s = (tree_leaves ls s \<and> tree_index ls s \<and> tree_nodes env ls s \<and> tree_roots env ls s)"

lemma tree_keys [simp]:
  "tree_key (GetMerkleNodeKey l i)" "tree_key (GetHistoricalRootKey r)"
  "tree_key (GetCommitmentIndexKey r)" "tree_key (GetMerkleRootSnapshotKey r)"
  "tree_key LeafCountKey" "tree_key (LeafKey i)"
  by (simp_all add: tree_key_def key_simps)

lemma getLeafCountStrict_cong:
  "kv_get s LeafCountKey = kv_get t LeafCountKey \<Longrightarrow> getLeafCountStrict s = getLeafCountStrict t"
  by (simp add: getLeafCountStrict_def)

text \<open>Writes elsewhere do not disturb the tree.\<close>

lemma tree_inv_frame:
  assumes "\<And>k. tree_key k \<Longrightarrow> kv_get t k = kv_get s k"
  shows "tree_inv env ls t = tree_inv env ls s"
proof -
  have "getLeafCountStrict t = getLeafCountStrict s"
    by (rule getLeafCountStrict_cong) (simp add: assms)
  then show ?thesis
    by (simp add: tree_inv_def tree_leaves_def tree_index_def tree_nodes_def tree_roots_def kv_has_def assms)
qed

lemma tree_inv_set_other: "\<not> tree_key k \<Longrightarrow> tree_inv env ls (kv_set k v s) = tree_inv env ls s"
  by (rule tree_inv_frame) auto

lemma tree_inv_delete_other: "\<not> tree_key k \<Longrightarrow> tree_inv env ls (kv_delete k s) = tree_inv env ls s"
  by (rule tree_inv_frame) auto

lemma tree_inv_Nil [simp]: "tree_inv env [] []"
  by (auto simp: tree_inv_def tree_leaves_def tree_index_def tree_nodes_def tree_roots_def
      getLeafCountStrict_def kv_has_def)

section \<open>Climbing to the root\<close>

definition node_key :: "nat \<Rightarrow> nat \<Rightarrow> bytes" where
  "node_key l i = GetMerkleNodeKey (word_of_nat l) (word_of_nat i)"

text \<open>The nodes that an append at position \<open>n\<close> writes above the levels \<open>ms\<close>.\<close>

definition path_write :: "'a keeper_env_scheme \<Rightarrow> nat list \<Rightarrow> nat \<Rightarrow> nat list \<Rightarrow> store \<Rightarrow> store" where
  "path_write env vs n ms s =
     fold (\<lambda>m. kv_set (node_key (m + 1) (n div 2 ^ (m + 1))) (fe_bytes (tree_node env vs (m + 1) (n div 2 ^ (m + 1)))))
       ms s"

lemma path_write_simps [simp]:
  "path_write env vs n [] s = s"
  "path_write env vs n (m # ms) s =
     path_write env vs n ms
       (kv_set (node_key (m + 1) (n div 2 ^ (m + 1))) (fe_bytes (tree_node env vs (m + 1) (n div 2 ^ (m + 1)))) s)"
  by (simp_all add: path_write_def)

lemma path_write_other:
  "(\<And>l i. k \<noteq> node_key l i) \<Longrightarrow> kv_get (path_write env vs n ms s) k = kv_get s k"
  by (induction ms arbitrary: s) auto

lemma node_key_eq:
  "l \<le> 32 \<Longrightarrow> m \<le> 32 \<Longrightarrow> i < 2 ^ 64 \<Longrightarrow> j < 2 ^ 64 \<Longrightarrow> node_key l i = node_key m j \<longleftrightarrow> l = m \<and> i = j"
  unfolding node_key_def by (rule node_key_inj)

lemma div_pow_less: "n < 2 ^ 32 \<Longrightarrow> n div 2 ^ l < (2 ^ 64 :: nat)"
  using div_le_dividend [of n "2 ^ l"] by (simp del: div_le_dividend)

lemma path_write_node:
  assumes "n < 2 ^ 32" "\<forall>m \<in> set ms. m < 32" "l \<le> 32" "i < 2 ^ 64"
  shows "kv_get (path_write env vs n ms s) (node_key l i) =
     (if 0 < l \<and> l - 1 \<in> set ms \<and> i = n div 2 ^ l then Some (fe_bytes (tree_node env vs l i))
      else kv_get s (node_key l i))"
  using assms(2)
proof (induction ms arbitrary: s)
  case (Cons m ms)
  have "node_key l i = node_key (m + 1) (n div 2 ^ (m + 1)) \<longleftrightarrow> l = m + 1 \<and> i = n div 2 ^ l"
    using node_key_eq [of l "m + 1" i "n div 2 ^ (m + 1)"] Cons.prems assms(1,3,4) div_pow_less [of n "m + 1"]
    by auto
  moreover have "\<forall>m \<in> set ms. m < 32" using Cons.prems by simp
  ultimately show ?case using Cons.IH by (auto simp del: power_Suc)
qed simp

lemma kv_wf_path_write [simp]: "kv_wf s \<Longrightarrow> kv_wf (path_write env vs n ms s)"
  by (induction ms arbitrary: s) auto

text \<open>The stored left siblings of position \<open>n\<close>.\<close>

definition left_siblings :: "'a keeper_env_scheme \<Rightarrow> nat list \<Rightarrow> nat \<Rightarrow> nat list \<Rightarrow> store \<Rightarrow> bool" where
  "left_siblings env vs n ms s =
     (\<forall>m \<in> set ms. odd (n div 2 ^ m) \<longrightarrow>
        kv_get s (node_key m (n div 2 ^ m - 1)) = Some (fe_bytes (tree_node env vs m (n div 2 ^ m - 1))))"

lemma left_sibling_populated:
  assumes "odd (n div 2 ^ m)" "n \<le> unat N" "unat N \<le> 2 ^ 32"
  shows "\<not> word_of_nat (n div 2 ^ m - 1) \<ge> populatedNodeCountAtLevel N m"
proof -
  have "0 < n div 2 ^ m" using assms(1) by (rule odd_pos)
  then have "(n div 2 ^ m - 1) * 2 ^ m < n div 2 ^ m * 2 ^ m" by simp
  also have "\<dots> \<le> n" by simp
  finally have "n div 2 ^ m - 1 < unat (populatedNodeCountAtLevel N m)"
    using assms(2,3) by (simp add: populated_iff)
  moreover have "n div 2 ^ m - 1 < 2 ^ 64"
  proof -
    have "n div 2 ^ m - 1 \<le> unat N"
      using div_le_dividend [of n "2 ^ m"] assms(2) by linarith
    then show ?thesis using assms(3) by simp
  qed
  ultimately show ?thesis by (simp add: word_le_nat_alt)
qed

lemma left_sibling_read:
  assumes "odd (n div 2 ^ m)" "n \<le> unat N" "unat N \<le> 2 ^ 32"
    and "kv_get s (node_key m (n div 2 ^ m - 1)) = Some v" "canonical_field v"
  shows "getMerkleNodeOrEmpty env m (word_of_nat (n div 2 ^ m) - 1) N s = Inr v"
proof -
  have "word_of_nat (n div 2 ^ m) - 1 = (word_of_nat (n div 2 ^ m - 1) :: u64)"
    using odd_pos [OF assms(1)] by (rule u64_minus1)
  then show ?thesis
    using assms(4,5) left_sibling_populated [OF assms(1-3)]
    by (simp only: getMerkleNodeOrEmpty_def node_key_def if_False option.case strict_canonical)
qed

text \<open>One step of the climb: the parent of the current node.\<close>

lemma tree_node_parent:
  assumes "length vs = n + 1"
  shows "tree_node env vs (m + 1) (n div 2 ^ (m + 1)) =
    (if even (n div 2 ^ m) then ComputeNoteTreeNodeV1 env m (tree_node env vs m (n div 2 ^ m)) (empty_root env m)
     else ComputeNoteTreeNodeV1 env m (tree_node env vs m (n div 2 ^ m - 1)) (tree_node env vs m (n div 2 ^ m)))"
proof -
  let ?q = "n div 2 ^ m"
  have half: "n div 2 ^ (m + 1) = ?q div 2" using div_pow_Suc by simp
  have "n < (?q + 1) * 2 ^ m"
    using dividend_less_times_div [of "2 ^ m" n] by (simp add: algebra_simps)
  then have "tree_node env vs m (?q + 1) = empty_root env m"
    by (intro tree_node_empty) (use assms in simp)
  then show ?thesis unfolding half
    by (cases "even ?q") (auto elim!: evenE oddE)
qed

lemma half_index:
  "n < 2 ^ 32 \<Longrightarrow> (word_of_nat (n div 2 ^ l) :: u64) div 2 = word_of_nat (n div 2 ^ (l + 1))"
  by (simp only: u64_div2 [OF div_pow_less] Suc_eq_plus1 [symmetric] div_pow_Suc)

lemma climb_even:
  "ci mod 2 = 0 \<Longrightarrow> climb env N (l # levels) ci cur s =
     climb env N levels (ci div 2) (hashNodes env l cur (emptyNodeBytes env l))
       (kv_set (GetMerkleNodeKey (word_of_nat (l + 1)) (ci div 2)) (hashNodes env l cur (emptyNodeBytes env l)) s)"
  by (simp add: Let_def setMerkleNode_def)

lemma climb_odd:
  "ci mod 2 \<noteq> 0 \<Longrightarrow> getMerkleNodeOrEmpty env l (ci - 1) N s = Inr left \<Longrightarrow> climb env N (l # levels) ci cur s =
     climb env N levels (ci div 2) (hashNodes env l left cur)
       (kv_set (GetMerkleNodeKey (word_of_nat (l + 1)) (ci div 2)) (hashNodes env l left cur) s)"
  by (simp add: Let_def setMerkleNode_def bindM_run)

lemma climb_run:
  assumes "crypto_ok env" "\<forall>v \<in> set vs. v < fr_modulus" "length vs = n + 1" "n < 2 ^ 32"
    and "n \<le> unat N" "unat N \<le> 2 ^ 32" and "l + d \<le> 32"
    and "left_siblings env vs n [l..<l + d] s"
  shows "climb env N [l..<l + d] (word_of_nat (n div 2 ^ l)) (fe_bytes (tree_node env vs l (n div 2 ^ l))) s =
     (Inr (fe_bytes (tree_node env vs (l + d) (n div 2 ^ (l + d)))), path_write env vs n [l..<l + d] s)"
  using assms(7,8)
proof (induction d arbitrary: l s)
  case (Suc d)
  let ?q = "n div 2 ^ l"
  let ?p = "fe_bytes (tree_node env vs (l + 1) (n div 2 ^ (l + 1)))"
  let ?s = "kv_set (node_key (l + 1) (n div 2 ^ (l + 1))) ?p s"
  have up: "[l..<l + Suc d] = l # [l + 1..<(l + 1) + d]" by (simp add: upt_conv_Cons)
  have q: "?q < 2 ^ 64" using assms(4) by (rule div_pow_less)
  have less [simp]: "tree_node env vs m i < fr_modulus" for m i
    by (rule tree_node_less [OF assms(1,2)])
  have sib: "odd ?q \<Longrightarrow> getMerkleNodeOrEmpty env l (word_of_nat ?q - 1) N s =
      Inr (fe_bytes (tree_node env vs l (?q - 1)))"
    using Suc.prems(2) assms(5,6) unfolding left_siblings_def up by (intro left_sibling_read) auto
  have key: "node_key m (n div 2 ^ m - 1) \<noteq> node_key (l + 1) (n div 2 ^ (l + 1))"
    if "odd (n div 2 ^ m)" "m < 32" for m
    using that odd_pos [OF that(1)] Suc.prems(1) div_pow_less [OF assms(4), of m] div_pow_less [OF assms(4), of "l + 1"]
    by (subst node_key_eq) auto
  have "left_siblings env vs n [l + 1..<(l + 1) + d] ?s"
    unfolding left_siblings_def
  proof (intro ballI impI)
    fix m assume m: "m \<in> set [l + 1..<(l + 1) + d]" "odd (n div 2 ^ m)"
    then have "m < 32" "m \<in> set [l..<l + Suc d]" using Suc.prems(1) by auto
    then have "kv_get s (node_key m (n div 2 ^ m - 1)) = Some (fe_bytes (tree_node env vs m (n div 2 ^ m - 1)))"
      using m(2) Suc.prems(2) unfolding left_siblings_def by blast
    then show "kv_get ?s (node_key m (n div 2 ^ m - 1)) =
        Some (fe_bytes (tree_node env vs m (n div 2 ^ m - 1)))"
      by (simp only: kv_get_set key [OF m(2) \<open>m < 32\<close>] if_False)
  qed
  moreover have "(l + 1) + d \<le> 32" using Suc.prems(1) by simp
  ultimately have IH: "climb env N [l + 1..<(l + 1) + d] (word_of_nat (n div 2 ^ (l + 1))) ?p ?s =
     (Inr (fe_bytes (tree_node env vs ((l + 1) + d) (n div 2 ^ ((l + 1) + d)))), path_write env vs n [l + 1..<(l + 1) + d] ?s)"
    by (intro Suc.IH)
  have last: "l + Suc d = (l + 1) + d" by simp
  show ?case
  proof (cases "even ?q")
    case True
    then have "?p = hashNodes env l (fe_bytes (tree_node env vs l ?q)) (emptyNodeBytes env l)"
      using assms(1) by (simp only: tree_node_parent [OF assms(3)] if_True hashNodes_fe emptyNodeBytes_fe less empty_root_less)
    with IH have "climb env N (l # [l + 1..<(l + 1) + d]) (word_of_nat ?q) (fe_bytes (tree_node env vs l ?q)) s =
        (Inr (fe_bytes (tree_node env vs ((l + 1) + d) (n div 2 ^ ((l + 1) + d)))), path_write env vs n [l + 1..<(l + 1) + d] ?s)"
      using True q assms(4) by (subst climb_even) (simp_all only: u64_mod2 if_True half_index node_key_def)
    then show ?thesis unfolding up unfolding last path_write_simps .
  next
    case False
    then have "?p = hashNodes env l (fe_bytes (tree_node env vs l (?q - 1))) (fe_bytes (tree_node env vs l ?q))"
      using assms(1) by (simp only: tree_node_parent [OF assms(3)] if_False hashNodes_fe less)
    with IH have "climb env N (l # [l + 1..<(l + 1) + d]) (word_of_nat ?q) (fe_bytes (tree_node env vs l ?q)) s =
        (Inr (fe_bytes (tree_node env vs ((l + 1) + d) (n div 2 ^ ((l + 1) + d)))), path_write env vs n [l + 1..<(l + 1) + d] ?s)"
      using False q assms(4) sib [OF False]
      by (subst climb_odd, simp_all only: u64_mod2 if_False half_index node_key_def one_neq_zero not_False_eq_True)
    then show ?thesis unfolding up unfolding last path_write_simps .
  qed
qed simp

lemma validateAppendPath_run:
  assumes "n \<le> unat N" "unat N \<le> 2 ^ 32" "n < 2 ^ 32" "l + d \<le> 32"
    and "crypto_ok env" "\<forall>v \<in> set vs. v < fr_modulus"
    and "left_siblings env vs n [l..<l + d] s"
  shows "validateAppendPathLoop env N [l..<l + d] (word_of_nat (n div 2 ^ l)) s = Inr ()"
  using assms(4,7)
proof (induction d arbitrary: l)
  case (Suc d)
  let ?q = "n div 2 ^ l"
  have up: "[l..<l + Suc d] = l # [l + 1..<(l + 1) + d]" by (simp add: upt_conv_Cons)
  have q: "?q < 2 ^ 64" using assms(3) by (rule div_pow_less)
  have less [simp]: "tree_node env vs m i < fr_modulus" for m i
    by (rule tree_node_less [OF assms(5,6)])
  have sib: "odd ?q \<Longrightarrow> getMerkleNodeOrEmpty env l (word_of_nat ?q - 1) N s =
      Inr (fe_bytes (tree_node env vs l (?q - 1)))"
    using Suc.prems(2) assms(1,2) unfolding left_siblings_def up by (intro left_sibling_read) auto
  have "validateAppendPathLoop env N [l + 1..<(l + 1) + d] (word_of_nat (n div 2 ^ (l + 1))) s = Inr ()"
    using Suc.prems unfolding left_siblings_def up by (intro Suc.IH) (auto simp: left_siblings_def)
  then show ?case
    using sib assms(3) unfolding up validateAppendPathLoop.simps half_index [OF assms(3)]
    by (cases "even ?q") (simp_all only: u64_mod2 [OF q] bindE_Inr if_True if_False one_neq_zero zero_neq_one simp_thms)
qed simp

section \<open>Appending a commitment\<close>

lemma tree_inv_count:
  "tree_inv env ls s \<Longrightarrow> getLeafCountStrict s = Inr (word_of_nat (length ls))"
  by (simp add: tree_inv_def tree_leaves_def)

lemma tree_inv_length: "tree_inv env ls s \<Longrightarrow> length ls \<le> 2 ^ 32"
  by (simp add: tree_inv_def tree_leaves_def)

lemma tree_inv_active: "tree_inv env ls s \<Longrightarrow> c \<in> set ls \<Longrightarrow> active_field c"
  by (simp add: tree_inv_def tree_leaves_def)

lemma tree_inv_nodes: "tree_inv env ls s \<Longrightarrow> tree_nodes env ls s"
  by (simp add: tree_inv_def)

lemma tree_inv_canonical: "tree_inv env ls s \<Longrightarrow> \<forall>c \<in> set ls. canonical_field c"
  using tree_inv_active by blast

lemma tree_nodes_node:
  "tree_nodes env ls s \<Longrightarrow> l \<le> 32 \<Longrightarrow> i * 2 ^ l < length ls \<Longrightarrow>
     kv_get s (node_key l i) = Some (fe_bytes (tree_node env (map be_to_nat ls) l i))"
  by (simp add: tree_nodes_def node_key_def MerkleDepth_def)

lemma tree_inv_node:
  "tree_inv env ls s \<Longrightarrow> l \<le> 32 \<Longrightarrow> i * 2 ^ l < length ls \<Longrightarrow>
     kv_get s (node_key l i) = Some (fe_bytes (tree_node env (map be_to_nat ls) l i))"
  by (simp add: tree_inv_def tree_nodes_def node_key_def MerkleDepth_def)

lemma tree_inv_index:
  "tree_inv env ls s \<Longrightarrow> i < length ls \<Longrightarrow> kv_get s (GetCommitmentIndexKey (ls ! i)) = Some (be64 (word_of_nat i))"
  "tree_inv env ls s \<Longrightarrow> c \<notin> set ls \<Longrightarrow> kv_get s (GetCommitmentIndexKey c) = None"
  by (simp_all add: tree_inv_def tree_index_def)

lemma rootKey_node: "rootKey = node_key 32 0"
  by (simp add: rootKey_def node_key_def MerkleDepth_def)

lemma tree_inv_root:
  assumes "tree_inv env ls s" "ls \<noteq> []"
  shows "kv_get s rootKey = Some (root_bytes env ls)"
  using assms tree_inv_node [of env ls s 32 0]
  by (simp add: rootKey_node root_bytes_def tree_root_def MerkleDepth_def)

text \<open>On a store that satisfies the invariant the repair has nothing to do.\<close>

lemma count_zero_iff: "length ls \<le> 2 ^ 32 \<Longrightarrow> (word_of_nat (length ls) :: u64) = 0 \<longleftrightarrow> ls = []"
  using u64_of_nat_inj [of "length ls" 0] by simp

lemma count_valid: "length ls \<le> 2 ^ 32 \<Longrightarrow> validateMerkleLeafCount (word_of_nat (length ls)) = Inr ()"
  by (simp add: validateMerkleLeafCount_def MaxMerkleLeaves_def word_less_nat_alt)

lemma cachedRoot_ok:
  assumes "tree_inv env ls s"
  shows "validateMerkleCachedRootOrSmallRebuild env (word_of_nat (length ls)) s = Inr ()"
  using assms tree_inv_root [OF assms] tree_inv_length [OF assms]
  by (auto simp: validateMerkleCachedRootOrSmallRebuild_def count_valid count_zero_iff kv_has_def)

lemma ensure_noop:
  assumes "tree_inv env ls s"
  shows "ensureIncrementalTreeState env s = (Inr (), s)"
  using assms tree_inv_root [OF assms] tree_inv_length [OF assms]
  by (auto simp: ensureIncrementalTreeState_def tree_inv_count cachedRoot_ok bindM_run count_zero_iff kv_has_def)

lemma EnsureCanAppend_iff:
  assumes "tree_inv env ls s" and that: "k < 2 ^ 64"
  shows "EnsureCanAppendCommitments env (word_of_nat k) s =
     (if length ls + k \<le> 2 ^ 32 then Inr () else Inl ErrMerkleTreeCapacity)"
proof -
  have le: "length ls \<le> 2 ^ 32" using assms(1) by (rule tree_inv_length)
  have "MaxMerkleLeaves - word_of_nat (length ls) = word_of_nat (2 ^ 32 - length ls)"
    using le by (simp add: MaxMerkleLeaves_def of_nat_diff)
  moreover have "(word_of_nat k :: u64) > word_of_nat (2 ^ 32 - length ls) \<longleftrightarrow> \<not> length ls + k \<le> 2 ^ 32"
    using that le by (subst u64_less) auto
  ultimately show ?thesis
    using assms le cachedRoot_ok [OF assms(1)]
    by (simp add: EnsureCanAppendCommitments_def tree_inv_count remainingMerkleLeaves_def count_valid guardE_def)
qed

lemma HasCommitment_iff:
  assumes "tree_inv env ls s" "canonical_field c"
  shows "HasCommitment c s = Inr (c \<in> set ls)"
proof (cases "c \<in> set ls")
  case True
  then obtain i where "i < length ls" "c = ls ! i" by (metis in_set_conv_nth)
  with assms tree_inv_index(1) [OF assms(1)] show ?thesis
    by (simp add: HasCommitment_def GetCommitmentIndex_def)
next
  case False
  with assms tree_inv_index(2) [OF assms(1)] show ?thesis
    by (simp add: HasCommitment_def GetCommitmentIndex_def)
qed

text \<open>The store after the append of \<open>c\<close>.\<close>

definition append_nodes :: "'a keeper_env_scheme \<Rightarrow> bytes list \<Rightarrow> bytes \<Rightarrow> store \<Rightarrow> store" where
  "append_nodes env ls c s =
     path_write env (map be_to_nat (ls @ [c])) (length ls) [0..<32]
       (kv_set (node_key 0 (length ls)) c
         (kv_set (GetCommitmentIndexKey c) (be64 (word_of_nat (length ls)))
           (kv_set (LeafKey (word_of_nat (length ls))) c s)))"

definition append_state :: "'a keeper_env_scheme \<Rightarrow> int \<Rightarrow> bytes list \<Rightarrow> bytes \<Rightarrow> store \<Rightarrow> store" where
  "append_state env h ls c s =
     (let r = root_bytes env (ls @ [c]); n1 = word_of_nat (length ls + 1)
      in kv_set (GetHistoricalRootKey r) (be64 (word_of_int h))
           (kv_set (GetMerkleRootSnapshotKey r)
              (MerkleRootSnapshotV1_Marshal \<lparr>snap_root = r, snap_leaf_count = n1, snap_height = h\<rparr>)
           (kv_set LeafCountKey (be64 n1)
           (kv_set (GetHistoricalRootKey r) (be64 (word_of_int h))
              (append_nodes env ls c s)))))"

text \<open>The new root is not one that the tree has had before.\<close>

definition fresh_root :: "'a keeper_env_scheme \<Rightarrow> bytes list \<Rightarrow> bytes \<Rightarrow> bool" where
  "fresh_root env ls c = (\<forall>j. 0 < j \<and> j \<le> length ls \<longrightarrow> root_bytes env (take j ls) \<noteq> root_bytes env (ls @ [c]))"

lemma tree_key_distinct [simp]:
  "GetHistoricalRootKey r \<noteq> GetMerkleRootSnapshotKey r'" "GetHistoricalRootKey r \<noteq> LeafCountKey" "GetHistoricalRootKey r \<noteq> LeafKey j'" "GetHistoricalRootKey r \<noteq> GetCommitmentIndexKey c'"
  "GetMerkleRootSnapshotKey r \<noteq> GetHistoricalRootKey r'" "GetMerkleRootSnapshotKey r \<noteq> LeafCountKey" "GetMerkleRootSnapshotKey r \<noteq> LeafKey j'" "GetMerkleRootSnapshotKey r \<noteq> GetCommitmentIndexKey c'"
  "LeafCountKey \<noteq> GetHistoricalRootKey r'" "LeafCountKey \<noteq> GetMerkleRootSnapshotKey r'" "LeafCountKey \<noteq> LeafKey j'" "LeafCountKey \<noteq> GetCommitmentIndexKey c'"
  "LeafKey j \<noteq> GetHistoricalRootKey r'" "LeafKey j \<noteq> GetMerkleRootSnapshotKey r'" "LeafKey j \<noteq> LeafCountKey" "LeafKey j \<noteq> GetCommitmentIndexKey c'"
  "GetCommitmentIndexKey c \<noteq> GetHistoricalRootKey r'" "GetCommitmentIndexKey c \<noteq> GetMerkleRootSnapshotKey r'" "GetCommitmentIndexKey c \<noteq> LeafCountKey" "GetCommitmentIndexKey c \<noteq> LeafKey j'"
  by (simp_all add: key_simps)

lemma tree_key_inj [simp]:
  "GetHistoricalRootKey r = GetHistoricalRootKey r' \<longleftrightarrow> r = r'"
  "GetMerkleRootSnapshotKey r = GetMerkleRootSnapshotKey r' \<longleftrightarrow> r = r'"
  "LeafKey j = LeafKey j' \<longleftrightarrow> j = j'"
  "GetCommitmentIndexKey c = GetCommitmentIndexKey c' \<longleftrightarrow> c = c'"
  by (simp_all add: key_simps)

lemma tree_key_prefixes [simp]:
  "GetHistoricalRootKey r \<noteq> node_key l i" "GetMerkleRootSnapshotKey r \<noteq> node_key l i"
  "LeafCountKey \<noteq> node_key l i" "LeafKey j \<noteq> node_key l i" "GetCommitmentIndexKey c \<noteq> node_key l i"
  by (simp_all add: node_key_def key_simps)

lemma append_nodes_other:
  "kv_get (append_nodes env ls c s) (GetHistoricalRootKey r) = kv_get s (GetHistoricalRootKey r)"
  "kv_get (append_nodes env ls c s) (GetMerkleRootSnapshotKey r) = kv_get s (GetMerkleRootSnapshotKey r)"
  "kv_get (append_nodes env ls c s) LeafCountKey = kv_get s LeafCountKey"
  "kv_get (append_nodes env ls c s) (LeafKey j) =
     (if j = word_of_nat (length ls) then Some c else kv_get s (LeafKey j))"
  "kv_get (append_nodes env ls c s) (GetCommitmentIndexKey d) =
     (if d = c then Some (be64 (word_of_nat (length ls))) else kv_get s (GetCommitmentIndexKey d))"
  unfolding append_nodes_def
  by (simp_all add: path_write_other)

lemma complete_node_kept:
  assumes "tree_nodes env ls s" "l \<le> 32" "(i + 1) * 2 ^ l \<le> length ls"
  shows "kv_get s (node_key l i) = Some (fe_bytes (tree_node env (map be_to_nat (ls @ ws)) l i))"
proof -
  have "i * 2 ^ l < (i + 1) * 2 ^ l" by simp
  then have "kv_get s (node_key l i) = Some (fe_bytes (tree_node env (map be_to_nat ls) l i))"
    using assms by (intro tree_nodes_node) linarith+
  then show ?thesis using assms(3) by (simp add: tree_node_snoc)
qed

lemma append_nodes_node:
  assumes inv: "tree_nodes env ls s" and c: "canonical_field c" and n: "length ls < 2 ^ 32"
    and l: "l \<le> 32" and i: "i * 2 ^ l < length ls + 1"
  shows "kv_get (append_nodes env ls c s) (node_key l i) =
     Some (fe_bytes (tree_node env (map be_to_nat (ls @ [c])) l i))"
proof -
  let ?n = "length ls" and ?vs = "map be_to_nat (ls @ [c])"
  have "i \<le> ?n div 2 ^ l" using i by (simp add: less_eq_div_iff_mult_less_eq)
  then have i64: "i < 2 ^ 64" using div_pow_less [OF n, of l] by linarith
  have old: "kv_get s (node_key l i) = Some (fe_bytes (tree_node env ?vs l i))" if "i < ?n div 2 ^ l"
  proof -
    have "(i + 1) * 2 ^ l \<le> ?n"
      using that by (simp only: less_eq_div_iff_mult_less_eq [symmetric] Suc_eq_plus1 [symmetric] Suc_le_eq zero_less_power)
    then show ?thesis using inv l by (intro complete_node_kept)
  qed
  have read: "kv_get (append_nodes env ls c s) (node_key l i) =
      (if 0 < l \<and> i = ?n div 2 ^ l then Some (fe_bytes (tree_node env ?vs l i))
       else if l = 0 \<and> i = ?n then Some c else kv_get s (node_key l i))"
    unfolding append_nodes_def using n l i64
    by (subst path_write_node)
      (auto simp: tree_key_prefixes [symmetric] tree_key_prefixes, (simp add: node_key_eq)+)
  show ?thesis
  proof (cases "i = ?n div 2 ^ l")
    case True
    then show ?thesis using read c by (cases "l = 0") (simp_all add: nth_append)
  next
    case False
    with \<open>i \<le> ?n div 2 ^ l\<close> have "i < ?n div 2 ^ l" by simp
    then show ?thesis using read old by auto
  qed
qed

lemma append_siblings:
  assumes inv: "tree_nodes env ls s" and n: "length ls < 2 ^ 32"
    and same: "\<And>l i. l \<le> 32 \<Longrightarrow> i < 2 ^ 64 \<Longrightarrow> (l, i) \<noteq> (0, length ls) \<Longrightarrow> kv_get t (node_key l i) = kv_get s (node_key l i)"
  shows "left_siblings env (map be_to_nat (ls @ [c])) (length ls) [0..<32] t"
  unfolding left_siblings_def
proof (intro ballI impI)
  fix m assume m: "m \<in> set [0..<32::nat]" "odd (length ls div 2 ^ m)"
  let ?q = "length ls div 2 ^ m"
  have pos: "0 < ?q" using m(2) by (rule odd_pos)
  have "(?q - 1 + 1) * 2 ^ m \<le> length ls" using pos by simp
  then have "kv_get s (node_key m (?q - 1)) = Some (fe_bytes (tree_node env (map be_to_nat (ls @ [c])) m (?q - 1)))"
    using inv m(1) by (intro complete_node_kept) auto
  moreover have "kv_get t (node_key m (?q - 1)) = kv_get s (node_key m (?q - 1))"
  proof (rule same)
    have "?q - 1 \<noteq> length ls" using pos div_le_dividend [of "length ls" "2 ^ m"] by linarith
    then show "(m, ?q - 1) \<noteq> (0, length ls)" by simp
    show "?q - 1 < 2 ^ 64" using div_pow_less [OF n, of m] by linarith
  qed (use m(1) in simp)
  ultimately show "kv_get t (node_key m (?q - 1)) = Some (fe_bytes (tree_node env (map be_to_nat (ls @ [c])) m (?q - 1)))"
    by simp
qed

lemma zero_bytes: "zeroNodeBytes = replicate 32 0"
  by (simp add: zeroNodeBytes_def fieldElementByteSize_def)

text \<open>The part of the append that writes the tree, run on a store with the invariant.\<close>

lemma append_climb:
  assumes ok: "crypto_ok env" and inv: "tree_nodes env ls s" "\<forall>c \<in> set ls. canonical_field c"
    and c: "canonical_field c" and n: "length ls < 2 ^ 32" and N: "length ls \<le> unat N" "unat N \<le> 2 ^ 32"
  defines "t \<equiv> kv_set (node_key 0 (length ls)) c
         (kv_set (GetCommitmentIndexKey c) (be64 (word_of_nat (length ls)))
           (kv_set (LeafKey (word_of_nat (length ls))) c s))"
  shows "climb env N [0..<32] (word_of_nat (length ls)) c t =
     (Inr (root_bytes env (ls @ [c])), append_nodes env ls c s)"
proof -
  let ?vs = "map be_to_nat (ls @ [c])"
  have vs: "\<forall>v \<in> set ?vs. v < fr_modulus"
    using c inv(2) by (auto intro: canonical_value_less)
  have "left_siblings env ?vs (length ls) [0..<32] t"
    using inv(1) n unfolding t_def
    by (rule append_siblings) (use n in \<open>auto simp: tree_key_prefixes [symmetric] node_key_eq\<close>)
  then have "climb env N [0..<0 + 32] (word_of_nat (length ls div 2 ^ 0))
      (fe_bytes (tree_node env ?vs 0 (length ls div 2 ^ 0))) t =
      (Inr (fe_bytes (tree_node env ?vs (0 + 32) (length ls div 2 ^ (0 + 32)))),
        path_write env ?vs (length ls) [0..<0 + 32] t)"
    using n N by (intro climb_run [OF ok vs]) simp_all
  moreover have "tree_node env ?vs 0 (length ls div 2 ^ 0) = be_to_nat c" by (simp add: nth_append)
  moreover have "length ls div 2 ^ (0 + 32) = 0" using n by simp
  ultimately show ?thesis
    using c by (simp only: add_0 root_bytes_def tree_root_def MerkleDepth_def append_nodes_def t_def
        div_by_1 power_0 fe_bytes_be_to_nat)
qed

lemma append_count_ok:
  assumes "length ls < 2 ^ 32"
  shows "getLeafCountStrict (kv_set LeafCountKey (be64 (word_of_nat (length ls + 1))) s) =
    Inr (word_of_nat (length ls + 1))"
proof -
  have "unat (word_of_nat (length ls + 1) :: u64) = length ls + 1" using assms by (intro u64_of_nat_unat) simp
  then have "validateMerkleLeafCount (word_of_nat (length ls + 1)) = Inr ()"
    using assms by (simp add: validateMerkleLeafCount_def MaxMerkleLeaves_def word_less_nat_alt del: of_nat_add of_nat_Suc)
  then show ?thesis by (simp add: getLeafCountStrict_def del: of_nat_add of_nat_Suc)
qed

lemma root_bytes_nonempty [simp]: "root_bytes env ls \<noteq> []"
  by (metis fe_bytes_length length_0_conv root_bytes_def zero_neq_numeral)

text \<open>What the final snapshot write does: it succeeds exactly for a root that has no snapshot yet.\<close>

lemma fresh_root_iff:
  assumes "tree_inv env ls s"
  shows "fresh_root env ls c \<longleftrightarrow> kv_get s (GetMerkleRootSnapshotKey (root_bytes env (ls @ [c]))) = None"
proof -
  from assms have roots: "tree_roots env ls s" by (simp add: tree_inv_def)
  show ?thesis
  proof
    assume "fresh_root env ls c"
    then show "kv_get s (GetMerkleRootSnapshotKey (root_bytes env (ls @ [c]))) = None"
      using roots unfolding tree_roots_def fresh_root_def kv_has_def by metis
  next
    assume "kv_get s (GetMerkleRootSnapshotKey (root_bytes env (ls @ [c]))) = None"
    then show "fresh_root env ls c"
      using roots unfolding tree_roots_def fresh_root_def by (metis option.distinct(1))
  qed
qed

lemma set_snapshot_fresh:
  assumes "canonical_field r" "getLeafCountStrict s = Inr n" "0 < n" "0 \<le> h"
    and "kv_has s (GetHistoricalRootKey r)" "kv_get s (GetMerkleRootSnapshotKey r) = None"
  shows "setMerkleRootSnapshot env \<lparr>snap_root = r, snap_leaf_count = n, snap_height = h\<rparr> s =
    (Inr (), kv_set (GetHistoricalRootKey r) (be64 (word_of_int h))
       (kv_set (GetMerkleRootSnapshotKey r) (MerkleRootSnapshotV1_Marshal \<lparr>snap_root = r, snap_leaf_count = n, snap_height = h\<rparr>) s))"
  using assms by (auto simp: setMerkleRootSnapshot_def setHistoricalRootHeightMetadata_def)

lemma set_snapshot_stale:
  assumes "canonical_field r" "getLeafCountStrict s = Inr n"
    and "kv_get s (GetMerkleRootSnapshotKey r) = Some (MerkleRootSnapshotV1_Marshal old)" "length (snap_root old) = 32"
    and "int64 (snap_height old)" and "snap_leaf_count old \<noteq> n"
  shows "\<exists>e. setMerkleRootSnapshot env \<lparr>snap_root = r, snap_leaf_count = n, snap_height = h\<rparr> s = (Inl e, s)"
  using assms snapshot_nonempty [of old]
  by (cases "snap_root old = []") (auto simp: setMerkleRootSnapshot_def bindM_run guardE_def strict_canonical)

definition append_counted :: "'a keeper_env_scheme \<Rightarrow> int \<Rightarrow> bytes list \<Rightarrow> bytes \<Rightarrow> store \<Rightarrow> store" where
  "append_counted env h ls c s =
     kv_set LeafCountKey (be64 (word_of_nat (length ls + 1)))
       (kv_set (GetHistoricalRootKey (root_bytes env (ls @ [c]))) (be64 (word_of_int h)) (append_nodes env ls c s))"

lemma root_snoc_canonical:
  "crypto_ok env \<Longrightarrow> tree_inv env ls s \<Longrightarrow> active_field c \<Longrightarrow> canonical_field (root_bytes env (ls @ [c]))"
  using tree_inv_active by (intro root_bytes_canonical) fastforce+

lemma validateAppendPath_ok:
  assumes "crypto_ok env" "tree_inv env ls s" "length ls < 2 ^ 32" "canonical_field c"
  shows "validateAppendPath env (word_of_nat (length ls)) s = Inr ()"
proof -
  let ?vs = "map be_to_nat (ls @ [c])"
  have "\<forall>v \<in> set ?vs. v < fr_modulus"
    using assms(4) tree_inv_active [OF assms(2)] by (auto intro: canonical_value_less)
  moreover have "left_siblings env ?vs (length ls) [0..<0 + 32] s"
    unfolding add_0 using tree_inv_nodes [OF assms(2)] assms(3) by (rule append_siblings) simp
  ultimately have "validateAppendPathLoop env (word_of_nat (length ls)) [0..<0 + 32] (word_of_nat (length ls div 2 ^ 0)) s = Inr ()"
    using assms(1,3) by (intro validateAppendPath_run) simp_all
  then show ?thesis by (simp only: validateAppendPath_def MerkleDepth_def add_0 div_by_1 power_0)
qed

lemma append_until_snapshot:
  assumes ok: "crypto_ok env" and inv: "tree_inv env ls s" and c: "active_field c" "c \<notin> set ls"
    and n: "length ls < 2 ^ 32"
  shows "appendCommitment env h c s =
     setMerkleRootSnapshot env
       \<lparr>snap_root = root_bytes env (ls @ [c]), snap_leaf_count = word_of_nat (length ls + 1), snap_height = h\<rparr>
       (append_counted env h ls c s)"
proof -
  have can: "canonical_field c" using c(1) by simp
  have r: "length (root_bytes env (ls @ [c])) = 32" by (simp add: root_bytes_def)
  have cap: "EnsureCanAppendCommitments env 1 s = Inr ()"
    using EnsureCanAppend_iff [OF inv, of 1] n by simp
  have "HasCommitment c s = Inr False" using HasCommitment_iff [OF inv can] c(2) by simp
  moreover have "c \<noteq> zeroNodeBytes" using c(1) by (simp add: active_field_def zero_bytes)
  ultimately show ?thesis
    unfolding appendCommitment_def
    using can cap ensure_noop [OF inv] tree_inv_count [OF inv] validateAppendPath_ok [OF ok inv n can]
      append_climb [OF ok tree_inv_nodes [OF inv] tree_inv_canonical [OF inv] can n, of "word_of_nat (length ls)"] r n
    by (simp add: bindM_run strict_canonical setLeaf_def setCommitmentIndex_def setMerkleNode_def MerkleDepth_def
        setHistoricalRoot_def setLeafCount_def append_counted_def node_key_def add.commute)
qed

text \<open>Exactly when an append succeeds, and the store it leaves.\<close>

lemma append_run:
  assumes ok: "crypto_ok env" and inv: "tree_inv env ls s" and c: "active_field c" "c \<notin> set ls"
    and n: "length ls < 2 ^ 32" and h: "0 \<le> h" and fresh: "fresh_root env ls c"
  shows "appendCommitment env h c s = (Inr (), append_state env h ls c s)"
proof -
  let ?r = "root_bytes env (ls @ [c])"
  have "kv_get s (GetMerkleRootSnapshotKey ?r) = None" using fresh fresh_root_iff [OF inv] by simp
  then have none: "kv_get (append_counted env h ls c s) (GetMerkleRootSnapshotKey ?r) = None"
    by (simp add: append_counted_def append_nodes_other)
  have cnt: "getLeafCountStrict (append_counted env h ls c s) = Inr (word_of_nat (length ls + 1))"
    unfolding append_counted_def by (rule append_count_ok [OF n])
  have "unat (word_of_nat (length ls + 1) :: u64) = length ls + 1" using n by (intro u64_of_nat_unat) simp
  then have pos: "(0 :: u64) < word_of_nat (length ls + 1)" by (simp add: word_less_nat_alt del: of_nat_add of_nat_Suc)
  have hist: "kv_has (append_counted env h ls c s) (GetHistoricalRootKey ?r)"
    by (simp add: append_counted_def)
  show ?thesis
    unfolding append_until_snapshot [OF ok inv c n]
      set_snapshot_fresh [OF root_snoc_canonical [OF ok inv c(1)] cnt pos h hist none]
    by (simp add: append_state_def append_counted_def Let_def)
qed

lemma append_state_nodes:
  "kv_get (append_state env h ls c s) (node_key l i) = kv_get (append_nodes env ls c s) (node_key l i)"
  by (simp add: append_state_def Let_def tree_key_prefixes [symmetric])

lemma append_state_count:
  assumes "length ls < 2 ^ 32"
  shows "getLeafCountStrict (append_state env h ls c s) = Inr (word_of_nat (length ls + 1))"
proof -
  have "getLeafCountStrict (append_state env h ls c s) = getLeafCountStrict (append_counted env h ls c s)"
    by (rule getLeafCountStrict_cong) (simp add: append_state_def append_counted_def Let_def)
  then show ?thesis by (simp only: append_counted_def append_count_ok [OF assms])
qed

lemma append_roots:
  assumes roots: "tree_roots env ls s" and h: "is_height h" and fresh: "fresh_root env ls c"
  shows "tree_roots env (ls @ [c]) (append_state env h ls c s)"
proof -
  let ?R = "\<lambda>j. root_bytes env (take j (ls @ [c]))" and ?t = "append_state env h ls c s"
  have last: "?R (length ls + 1) = root_bytes env (ls @ [c])" by simp
  have old: "?R j = root_bytes env (take j ls)" if "j \<le> length ls" for j using that by simp
  have ne: "root_bytes env (take j ls) \<noteq> root_bytes env (ls @ [c])" if "0 < j" "j \<le> length ls" for j
    using fresh that unfolding fresh_root_def by simp
  have get: "kv_get ?t (GetMerkleRootSnapshotKey r) =
        (if r = root_bytes env (ls @ [c])
         then Some (MerkleRootSnapshotV1_Marshal \<lparr>snap_root = r, snap_leaf_count = word_of_nat (length ls + 1), snap_height = h\<rparr>)
         else kv_get s (GetMerkleRootSnapshotKey r))"
      "kv_get ?t (GetHistoricalRootKey r) =
        (if r = root_bytes env (ls @ [c]) then Some (be64 (word_of_int h)) else kv_get s (GetHistoricalRootKey r))" for r
    by (simp_all add: append_state_def Let_def append_nodes_other)
  show ?thesis unfolding tree_roots_def
  proof (intro conjI allI impI)
    fix j assume j: "0 < j \<and> j \<le> length (ls @ [c])"
    show "\<exists>h. is_height h \<and> kv_get ?t (GetMerkleRootSnapshotKey (?R j)) =
             Some (MerkleRootSnapshotV1_Marshal \<lparr>snap_root = ?R j, snap_leaf_count = word_of_nat j, snap_height = h\<rparr>) \<and>
           kv_get ?t (GetHistoricalRootKey (?R j)) = Some (be64 (word_of_int h))"
    proof (cases "j = length ls + 1")
      case True
      with h show ?thesis by (intro exI [of _ h]) (simp add: get del: of_nat_add of_nat_Suc)
    next
      case False
      with j have "0 < j" "j \<le> length ls" by auto
      with ne roots show ?thesis unfolding get tree_roots_def by (simp add: old)
    qed
  next
    fix r assume "kv_has ?t (GetHistoricalRootKey r) \<or> kv_has ?t (GetMerkleRootSnapshotKey r)"
    then have "r = root_bytes env (ls @ [c]) \<or> (\<exists>j. 0 < j \<and> j \<le> length ls \<and> r = root_bytes env (take j ls))"
      using roots unfolding kv_has_def get tree_roots_def by (auto split: if_splits)
    then show "\<exists>j. 0 < j \<and> j \<le> length (ls @ [c]) \<and> r = ?R j"
    proof
      assume "r = root_bytes env (ls @ [c])"
      then show ?thesis by (intro exI [of _ "length ls + 1"]) simp
    next
      assume "\<exists>j. 0 < j \<and> j \<le> length ls \<and> r = root_bytes env (take j ls)"
      then show ?thesis using old by (metis le_SucI length_append_singleton)
    qed
  qed
qed

lemma append_leaves:
  assumes "tree_leaves ls s" and c: "active_field c" "c \<notin> set ls" and n: "length ls < 2 ^ 32"
  shows "tree_leaves (ls @ [c]) (append_state env h ls c s)"
proof -
  have "kv_get (append_state env h ls c s) (LeafKey (word_of_nat i)) = Some ((ls @ [c]) ! i)" if "i < length (ls @ [c])" for i
  proof -
    have "(word_of_nat i :: u64) = word_of_nat (length ls) \<longleftrightarrow> i = length ls"
      using that n by (intro u64_of_nat_inj) auto
    with that assms(1) show ?thesis
      by (auto simp: append_state_def Let_def append_nodes_other tree_leaves_def nth_append)
  qed
  with assms append_state_count [OF n, of env h c s] show ?thesis by (auto simp: tree_leaves_def)
qed

lemma append_index:
  assumes "tree_index ls s" "c \<notin> set ls"
  shows "tree_index (ls @ [c]) (append_state env h ls c s)"
  unfolding tree_index_def
proof (intro conjI allI impI)
  fix i assume "i < length (ls @ [c])"
  moreover have "ls ! i \<noteq> c" if "i < length ls" using that assms(2) by (metis nth_mem)
  ultimately show "kv_get (append_state env h ls c s) (GetCommitmentIndexKey ((ls @ [c]) ! i)) = Some (be64 (word_of_nat i))"
    using assms(1) by (cases "i = length ls") (auto simp: append_state_def Let_def append_nodes_other tree_index_def nth_append)
qed (use assms in \<open>auto simp: append_state_def Let_def append_nodes_other tree_index_def\<close>)

lemma append_state_inv:
  assumes "crypto_ok env" and inv: "tree_inv env ls s" and c: "active_field c" "c \<notin> set ls"
    and n: "length ls < 2 ^ 32" and h: "is_height h" and fresh: "fresh_root env ls c"
  shows "tree_inv env (ls @ [c]) (append_state env h ls c s)"
proof -
  have "tree_nodes env (ls @ [c]) (append_state env h ls c s)"
    unfolding tree_nodes_def MerkleDepth_def node_key_def [symmetric] append_state_nodes
    using append_nodes_node [OF tree_inv_nodes [OF inv] _ n] c(1) by simp
  with inv append_leaves [OF _ c n, of s env h] append_index [OF _ c(2), of s env h] append_roots [OF _ h fresh, of s]
  show ?thesis by (simp add: tree_inv_def)
qed

lemma append_stale:
  assumes ok: "crypto_ok env" and inv: "tree_inv env ls s" and c: "active_field c" "c \<notin> set ls"
    and n: "length ls < 2 ^ 32" and stale: "\<not> fresh_root env ls c"
  shows "\<exists>e t. appendCommitment env h c s = (Inl e, t)"
proof -
  let ?r = "root_bytes env (ls @ [c])"
  from stale obtain j where j: "0 < j" "j \<le> length ls" "root_bytes env (take j ls) = ?r"
    by (auto simp: fresh_root_def)
  from inv have "tree_roots env ls s" by (simp add: tree_inv_def)
  with j obtain h' where h': "is_height h'" and "kv_get s (GetMerkleRootSnapshotKey ?r) =
      Some (MerkleRootSnapshotV1_Marshal \<lparr>snap_root = ?r, snap_leaf_count = word_of_nat j, snap_height = h'\<rparr>)"
    unfolding tree_roots_def by metis
  from this(2) have old: "kv_get (append_counted env h ls c s) (GetMerkleRootSnapshotKey ?r) =
      Some (MerkleRootSnapshotV1_Marshal \<lparr>snap_root = ?r, snap_leaf_count = word_of_nat j, snap_height = h'\<rparr>)"
    by (simp add: append_counted_def append_nodes_other)
  have cnt: "getLeafCountStrict (append_counted env h ls c s) = Inr (word_of_nat (length ls + 1))"
    unfolding append_counted_def by (rule append_count_ok [OF n])
  have "(word_of_nat j :: u64) \<noteq> word_of_nat (length ls + 1)"
    using j n by (subst u64_of_nat_inj) auto
  then have "\<exists>e. setMerkleRootSnapshot env
      \<lparr>snap_root = ?r, snap_leaf_count = word_of_nat (length ls + 1), snap_height = h\<rparr> (append_counted env h ls c s) =
      (Inl e, append_counted env h ls c s)"
    by (intro set_snapshot_stale [OF root_snoc_canonical [OF ok(1) inv c(1)] cnt old])
      (use root_snoc_canonical [OF ok(1) inv c(1)] in \<open>simp_all add: h' canonical_length\<close>)
  then show ?thesis unfolding append_until_snapshot [OF ok(1) inv c n] by blast
qed

text \<open>The error branches before the first write leave the store alone.\<close>

lemma append_noncanonical: "\<not> canonical_field c \<Longrightarrow> \<exists>e. appendCommitment env h c s = (Inl e, s)"
  using strict_noncanonical [of c] by (auto simp: appendCommitment_def bindM_run)

lemma append_zero: "appendCommitment env h (replicate 32 0) s = (Inl ErrMerkleZeroCommitment, s)"
proof -
  have "canonical_field (replicate 32 0)" by (simp add: canonical_field_def be_to_nat_replicate0)
  then have "validateFieldElementBytesStrict (replicate 32 0) = Inr (replicate 32 0)" by (rule strict_canonical)
  then show ?thesis unfolding appendCommitment_def zero_bytes
    by (subst bindM_step, simp only: readM_run, simp only: bindM_run guardM_run)
      (simp add: guardE_def)
qed

lemma append_duplicate:
  assumes "tree_inv env ls s" "c \<in> set ls"
  shows "appendCommitment env h c s = (Inl ErrMerkleDuplicateCommitment, s)"
proof -
  have c: "active_field c" by (rule tree_inv_active [OF assms])
  then have "c \<noteq> zeroNodeBytes" by (simp add: active_field_def zero_bytes)
  moreover have "HasCommitment c s = Inr True" using HasCommitment_iff [of env ls s c] assms c by simp
  ultimately show ?thesis using c by (simp add: appendCommitment_def bindM_run strict_canonical guardE_def)
qed

lemma append_full:
  assumes "tree_inv env ls s" "active_field c" "c \<notin> set ls" "length ls = 2 ^ 32"
  shows "appendCommitment env h c s = (Inl ErrMerkleTreeCapacity, s)"
proof -
  have "c \<noteq> zeroNodeBytes" using assms(2) by (simp add: active_field_def zero_bytes)
  moreover have "HasCommitment c s = Inr False" using HasCommitment_iff [of env ls s c] assms by simp
  moreover have "EnsureCanAppendCommitments env 1 s = Inl ErrMerkleTreeCapacity"
    using EnsureCanAppend_iff [OF assms(1), of 1] assms(4) by simp
  ultimately show ?thesis using assms(2) by (simp add: appendCommitment_def bindM_run strict_canonical guardE_def)
qed

lemma append_negative_height:
  assumes ok: "crypto_ok env" and inv: "tree_inv env ls s" and c: "active_field c" "c \<notin> set ls"
    and n: "length ls < 2 ^ 32" and h: "h < 0"
  shows "\<exists>e t. appendCommitment env h c s = (Inl e, t)"
proof -
  have "\<exists>e t. setMerkleRootSnapshot env \<lparr>snap_root = r, snap_leaf_count = k, snap_height = h\<rparr> u = (Inl e, t)" for r k u
    using h by (auto simp: setMerkleRootSnapshot_def bindM_run guardE_def split: sum.splits)
  then show ?thesis unfolding append_until_snapshot [OF ok inv c n] by blast
qed

text \<open>Everything about an append that returns without an error.\<close>

lemma append_ok_iff:
  assumes ok: "crypto_ok env" and inv: "tree_inv env ls s"
  shows "appendCommitment env h c s = (Inr (), t) \<longleftrightarrow>
     active_field c \<and> c \<notin> set ls \<and> length ls < 2 ^ 32 \<and> 0 \<le> h \<and> fresh_root env ls c \<and> t = append_state env h ls c s"
    (is "?L \<longleftrightarrow> ?R")
proof
  assume L: ?L
  have can: "canonical_field c" using append_noncanonical [of c env h s] L by force
  have "c \<noteq> replicate 32 0" using append_zero [of env h s] L by auto
  with can have act: "active_field c" by (simp add: active_field_def)
  have new: "c \<notin> set ls" using append_duplicate [OF inv, of c h] L by auto
  have n: "length ls < 2 ^ 32"
    using append_full [OF inv act new, of h] L tree_inv_length [OF inv] by (cases "length ls = 2 ^ 32") auto
  have h: "0 \<le> h" using append_negative_height [OF ok(1) inv act new n, of h] L by force
  have fresh: "fresh_root env ls c" using append_stale [OF ok inv act new n, of h] L by auto
  from append_run [OF ok(1) inv act new n h fresh] L act new n h fresh show ?R by simp
next
  assume ?R
  then show ?L using append_run [OF ok(1) inv] by blast
qed

lemma append_inv:
  assumes "crypto_ok env" "tree_inv env ls s" "h < 2 ^ 63"
    "appendCommitment env h c s = (Inr (), t)"
  shows "tree_inv env (ls @ [c]) t"
  using assms append_ok_iff [OF assms(1,2)] append_state_inv unfolding is_height_def by metis

lemma append_wf: "kv_wf s \<Longrightarrow> kv_wf (append_state env h ls c s)"
  by (simp add: append_state_def append_nodes_def Let_def)

section \<open>Recomputation\<close>

lemma nextLayer_length: "length (nextLayer env l xs) = (length xs + 1) div 2"
  by (induction env l xs rule: nextLayer.induct) auto

lemma nextLayer_nth:
  "i < (length xs + 1) div 2 \<Longrightarrow> nextLayer env l xs ! i =
     hashNodes env l (xs ! (2 * i)) (if 2 * i + 1 < length xs then xs ! (2 * i + 1) else emptyNodeBytes env l)"
proof (induction env l xs arbitrary: i rule: nextLayer.induct)
  case (3 env l a b xs)
  then show ?case by (cases i) auto
qed auto

text \<open>The layers of the recomputation are the levels of the tree.\<close>

definition tree_layer :: "'a keeper_env_scheme \<Rightarrow> bytes list \<Rightarrow> nat \<Rightarrow> nat \<Rightarrow> bytes list" where
  "tree_layer env ls l k = map (\<lambda>i. fe_bytes (tree_node env (map be_to_nat ls) l i)) [0..<k]"

lemma nextLayer_tree:
  assumes "crypto_ok env" "\<forall>c \<in> set ls. canonical_field c" "length ls \<le> k * 2 ^ l"
  shows "nextLayer env l (tree_layer env ls l k) = tree_layer env ls (l + 1) ((k + 1) div 2)"
proof (rule nth_equalityI)
  fix i assume "i < length (nextLayer env l (tree_layer env ls l k))"
  then have i: "i < (k + 1) div 2" by (simp add: nextLayer_length tree_layer_def)
  then have "2 * i < k" by linarith
  have less [simp]: "tree_node env (map be_to_nat ls) m j < fr_modulus" for m j
    using assms(1,2) by (intro tree_node_less) (auto intro: canonical_value_less)
  have "tree_node env (map be_to_nat ls) l (2 * i + 1) = empty_root env l" if "\<not> 2 * i + 1 < k"
  proof (rule tree_node_empty)
    have "k * 2 ^ l \<le> (2 * i + 1) * 2 ^ l" using that by (intro mult_le_mono1) simp
    with assms(3) show "length (map be_to_nat ls) \<le> (2 * i + 1) * 2 ^ l" by (simp only: length_map)
  qed
  then show "nextLayer env l (tree_layer env ls l k) ! i = tree_layer env ls (l + 1) ((k + 1) div 2) ! i"
    using i \<open>2 * i < k\<close> assms(1)
    by (subst nextLayer_nth) (auto simp: tree_layer_def)
qed (simp add: nextLayer_length tree_layer_def)

text \<open>The length of the layer after \<open>l\<close> rounds.\<close>

fun layer_length :: "nat \<Rightarrow> nat \<Rightarrow> nat" where
  "layer_length k 0 = k"
| "layer_length k (Suc l) = (layer_length k l + 1) div 2"

lemma layer_length_covers: "k \<le> layer_length k l * 2 ^ l"
proof (induction l)
  case (Suc l)
  have "layer_length k l \<le> (layer_length k l + 1) div 2 * 2" by simp
  then have "layer_length k l * 2 ^ l \<le> (layer_length k l + 1) div 2 * 2 * 2 ^ l" by (rule mult_le_mono1)
  with Suc have "k \<le> (layer_length k l + 1) div 2 * 2 * 2 ^ l" by (rule order_trans)
  then show ?case by simp
qed simp

lemma layer_length_bounds: "0 < k \<Longrightarrow> k \<le> 2 ^ d \<Longrightarrow> l \<le> d \<Longrightarrow> 0 < layer_length k l \<and> layer_length k l \<le> 2 ^ (d - l)"
proof (induction l)
  case (Suc l)
  then have IH: "0 < layer_length k l" "layer_length k l \<le> 2 ^ (d - l)" by auto
  have "2 ^ (d - l) = 2 * (2 ^ (d - Suc l) :: nat)"
    using Suc.prems(3) by (metis Suc_diff_le diff_Suc_Suc power_Suc)
  with IH show ?case by auto
qed simp

lemma fold_layers:
  assumes "crypto_ok env" "\<forall>c \<in> set ls. canonical_field c"
  shows "fold (nextLayer env) [0..<l] (tree_layer env ls 0 (length ls)) = tree_layer env ls l (layer_length (length ls) l)"
proof (induction l)
  case (Suc l)
  have "fold (nextLayer env) [0..<Suc l] (tree_layer env ls 0 (length ls)) =
      nextLayer env l (tree_layer env ls l (layer_length (length ls) l))"
    using Suc by simp
  also have "\<dots> = tree_layer env ls (l + 1) ((layer_length (length ls) l + 1) div 2)"
    by (rule nextLayer_tree [OF assms layer_length_covers])
  finally show ?case by simp
qed (simp add: tree_layer_def)

lemma leaf_layer: "\<forall>c \<in> set ls. canonical_field c \<Longrightarrow> tree_layer env ls 0 (length ls) = ls"
  by (rule nth_equalityI) (auto simp: tree_layer_def)

lemma fold_layers_root:
  assumes "crypto_ok env" "\<forall>c \<in> set ls. canonical_field c" "ls \<noteq> []" "length ls \<le> 2 ^ 32"
  shows "fold (nextLayer env) [0..<MerkleDepth] ls = [root_bytes env ls]"
proof -
  have "layer_length (length ls) 32 = 1"
    using layer_length_bounds [of "length ls" 32 32] assms(3,4) by (simp add: le_antisym Suc_leI)
  then have "tree_layer env ls 32 (layer_length (length ls) 32) = [root_bytes env ls]"
    by (simp add: tree_layer_def root_bytes_def tree_root_def MerkleDepth_def)
  with fold_layers [OF assms(1,2), of 32] leaf_layer [OF assms(2), of env] show ?thesis
    by (simp only: MerkleDepth_def)
qed

lemma getLeafRequired_ok:
  assumes "tree_inv env ls s" "i < length ls" "i < unat N"
  shows "getLeafRequired (word_of_nat i) N s = Inr (ls ! i)"
proof -
  have "active_field (ls ! i)" using assms by (intro tree_inv_active [OF assms(1)]) simp
  moreover have "kv_get s (LeafKey (word_of_nat i)) = Some (ls ! i)"
    using assms by (simp add: tree_inv_def tree_leaves_def)
  moreover have "i < 2 ^ 64" using assms(2) tree_inv_length [OF assms(1)] by simp
  ultimately show ?thesis using assms(2,3)
    by (auto simp: getLeafRequired_def guardE_def word_le_nat_alt strict_canonical dest!: active_canonical canonical_length)
qed

lemma u64_count: "tree_inv env ls s \<Longrightarrow> k \<le> length ls \<Longrightarrow> unat (word_of_nat k :: u64) = k"
  using tree_inv_length [of env ls s] by (intro u64_of_nat_unat) simp

lemma leaf_traverse:
  assumes "tree_inv env ls s" "k \<le> length ls"
  shows "traverseE (\<lambda>i. getLeafRequired (word_of_nat i) (word_of_nat k) s) [0..<k] = Inr (take k ls)"
proof -
  have "getLeafRequired (word_of_nat i) (word_of_nat k) s = Inr (take k ls ! i)" if "i \<in> set [0..<k]" for i
    using that assms getLeafRequired_ok [OF assms(1), of i] by (simp add: u64_count [OF assms])
  then have "traverseE (\<lambda>i. getLeafRequired (word_of_nat i) (word_of_nat k) s) [0..<k] = Inr (map (\<lambda>i. take k ls ! i) [0..<k])"
    by (rule traverseE_map)
  moreover have "map (\<lambda>i. take k ls ! i) [0..<k] = take k ls"
    using map_nth [of "take k ls"] assms(2) by simp
  ultimately show ?thesis by simp
qed

lemma take_canonical: "tree_inv env ls s \<Longrightarrow> \<forall>c \<in> set (take k ls). canonical_field c"
  using tree_inv_active in_set_takeD by fastforce

text \<open>Recomputing from any prefix of the leaves gives the root of that prefix.\<close>

lemma RecalculateRoot_ok:
  assumes ok: "crypto_ok env" and inv: "tree_inv env ls s" and k: "k \<le> length ls" "k \<le> 2 ^ 20"
  shows "RecalculateRoot env (word_of_nat k) s = Inr (root_bytes env (take k ls))"
proof (cases "k = 0")
  case True
  then show ?thesis using ok by (simp add: RecalculateRoot_def root_bytes_def tree_root_def tree_node_empty)
next
  case False
  have u: "unat (word_of_nat k :: u64) = k" by (rule u64_count [OF inv k(1)])
  then have nz: "(word_of_nat k :: u64) \<noteq> 0" using False by auto
  have "validateMerkleRebuildCount (word_of_nat k) = Inr ()"
    using k(2) u by (simp add: validateMerkleRebuildCount_def validateMerkleLeafCount_def
        MaxMerkleLeaves_def MaxMerkleRebuildLeaves_def word_less_nat_alt)
  moreover have "fold (nextLayer env) [0..<MerkleDepth] (take k ls) = [root_bytes env (take k ls)]"
    using False k by (intro fold_layers_root [OF ok take_canonical [OF inv]]) auto
  ultimately show ?thesis
    using leaf_traverse [OF inv k(1)] nz u by (simp add: RecalculateRoot_def)
qed

section \<open>Authentication paths\<close>

text \<open>Folding a path from a leaf to the root, the way the circuits do: a set bit puts the sibling
  on the left.\<close>

fun path_root :: "'a keeper_env_scheme \<Rightarrow> nat \<Rightarrow> bytes \<Rightarrow> (bytes \<times> u32) list \<Rightarrow> bytes" where
  "path_root env l cur [] = cur"
| "path_root env l cur ((sib, helper) # rest) =
     path_root env (l + 1) (if helper = 1 then hashNodes env l sib cur else hashNodes env l cur sib) rest"

definition sibling :: "nat \<Rightarrow> nat" where
  "sibling q = (if even q then q + 1 else q - 1)"

text \<open>The true path of the leaf \<open>i\<close> in the tree of \<open>ls\<close>.\<close>

definition tree_path :: "'a keeper_env_scheme \<Rightarrow> bytes list \<Rightarrow> nat \<Rightarrow> nat list \<Rightarrow> (bytes \<times> u32) list" where
  "tree_path env ls i levels =
     map (\<lambda>m. (fe_bytes (tree_node env (map be_to_nat ls) m (sibling (i div 2 ^ m))),
               if even (i div 2 ^ m) then 0 else 1)) levels"

lemma path_root_step:
  assumes "crypto_ok env" "\<forall>v \<in> set vs. v < fr_modulus"
  shows "(if even q then hashNodes env m (fe_bytes (tree_node env vs m q)) (fe_bytes (tree_node env vs m (sibling q)))
     else hashNodes env m (fe_bytes (tree_node env vs m (sibling q))) (fe_bytes (tree_node env vs m q))) =
     fe_bytes (tree_node env vs (m + 1) (q div 2))"
proof -
  have less: "tree_node env vs m j < fr_modulus" for j by (rule tree_node_less [OF assms])
  show ?thesis
    by (cases "even q") (auto simp: sibling_def less hashNodes_fe [OF assms(1) less less] elim!: evenE oddE)
qed

text \<open>A true path leads from its leaf to the root.\<close>

lemma tree_path_root:
  assumes "crypto_ok env" "\<forall>c \<in> set ls. canonical_field c"
  shows "path_root env l (fe_bytes (tree_node env (map be_to_nat ls) l (i div 2 ^ l))) (tree_path env ls i [l..<l + d]) =
     fe_bytes (tree_node env (map be_to_nat ls) (l + d) (i div 2 ^ (l + d)))"
proof (induction d arbitrary: l)
  case (Suc d)
  let ?N = "\<lambda>m j. fe_bytes (tree_node env (map be_to_nat ls) m j)" and ?q = "i div 2 ^ l"
  have vs: "\<forall>v \<in> set (map be_to_nat ls). v < fr_modulus" using assms(2) by (auto intro: canonical_value_less)
  have up: "[l..<l + Suc d] = l # [l + 1..<(l + 1) + d]" by (simp add: upt_conv_Cons)
  have half: "?q div 2 = i div 2 ^ (l + 1)" using div_pow_Suc [of i l] by simp
  have "path_root env l (?N l ?q) (tree_path env ls i [l..<l + Suc d]) =
      path_root env (l + 1) (?N (l + 1) (?q div 2)) (tree_path env ls i [l + 1..<(l + 1) + d])"
    unfolding up using path_root_step [OF assms(1) vs, of ?q l] by (cases "even ?q") (simp_all only: tree_path_def list.map path_root.simps if_True if_False zero_neq_one simp_thms)
  also have "\<dots> = ?N ((l + 1) + d) (i div 2 ^ ((l + 1) + d))"
    unfolding half by (rule Suc.IH)
  finally show ?case by simp
qed (simp add: tree_path_def)

end
