(* ===== verification/Path_Snapshot.thy ===== *)
theory Path_Snapshot
  imports Merkle_Spec
begin

text \<open>
  Root snapshots and authentication paths (\<^verbatim>\<open>x/privacy/keeper/path_snapshot.go\<close>): the prefix
  roots computed with a frontier, the snapshot index with its recovery and genesis code, and the
  path queries at the current and at a historical root.

  A query reads its cancellation state every 256 units of work and takes one of two rebuild slots.
  Both belong to the query's \<^verbatim>\<open>context.Context\<close> and to a channel of the keeper; the record
  \<open>query_ctx\<close> holds what they answer.
\<close>

section \<open>Queries\<close>

text \<open>\<open>ctx_err site work\<close> is what \<^verbatim>\<open>ctx.Err()\<close> answers at a call site, a number of the query's loop,
  for the given unit of work; \<open>slot_answer\<close> is the outcome of the \<^verbatim>\<open>select\<close> on the rebuild slots.\<close>

record query_ctx =
  ctx_err :: "nat \<Rightarrow> nat \<Rightarrow> error option"
  slots_configured :: bool
  slot_answer :: "unit res"

record path_at_root =
  CommitmentHex :: string
  LeafIndex :: u64
  Path :: "string list"
  PathHelper :: "u32 list"

definition MaxCommitmentPathSnapshotQuery :: nat where "MaxCommitmentPathSnapshotQuery = 16"
definition MaxHistoricalPathQueryRebuildLeaves :: u64 where "MaxHistoricalPathQueryRebuildLeaves = 1024"
definition historicalPathCancellationCheckInterval :: nat where "historicalPathCancellationCheckInterval = 256"

definition validateHistoricalPathQueryRebuildCount :: "u64 \<Rightarrow> unit res" where
  "validateHistoricalPathQueryRebuildCount count =
     bindE (validateMerkleLeafCount count) (\<lambda>_.
     guardE (\<not> count > MaxHistoricalPathQueryRebuildLeaves) ErrHistoricalPathQueryTooLarge)"

definition checkHistoricalPathQueryContext :: "query_ctx \<Rightarrow> nat \<Rightarrow> nat \<Rightarrow> unit res" where
  "checkHistoricalPathQueryContext q site work =
     (if work mod historicalPathCancellationCheckInterval \<noteq> 0 then Inr ()
      else case ctx_err q site work of None \<Rightarrow> Inr () | Some e \<Rightarrow> Inl e)"

definition acquireHistoricalPathQueryRebuild :: "query_ctx \<Rightarrow> unit res" where
  "acquireHistoricalPathQueryRebuild q =
     (if \<not> slots_configured q then Inl ErrHistoricalPathQueryBusy else slot_answer q)"

fun storedPathLoop :: "'a keeper_env_scheme \<Rightarrow> query_ctx \<Rightarrow> u64 \<Rightarrow> nat list \<Rightarrow> u64 \<Rightarrow> store \<Rightarrow> (string \<times> u32) list res" where
  "storedPathLoop env q count [] currentIndex s = Inr []"
| "storedPathLoop env q count (level # levels) currentIndex s =
     bindE (checkHistoricalPathQueryContext q 1 level) (\<lambda>_.
     bindE (getMerkleNodeOrEmpty env level (currentIndex XOR 1) count s) (\<lambda>sibling.
     bindE (storedPathLoop env q count levels (currentIndex div 2) s) (\<lambda>rest.
     Inr ((hex_of_bytes sibling, ucast (currentIndex mod 2)) # rest))))"

definition getStoredIncrementalPathV1 ::
  "'a keeper_env_scheme \<Rightarrow> query_ctx \<Rightarrow> bytes \<Rightarrow> u64 \<Rightarrow> store \<Rightarrow> (string list \<times> u32 list \<times> u64) res" where
  "getStoredIncrementalPathV1 env q commitment count s =
     bindE (validateFieldElementBytesStrict commitment) (\<lambda>canonicalCommitment.
     bindE (GetCommitmentIndex canonicalCommitment s) (\<lambda>found.
     bindE (guardE (\<not> (found = None \<or> the found \<ge> count)) ErrMerkleCommitmentNotFound) (\<lambda>_.
     bindE (getLeafRequired (the found) count s) (\<lambda>leaf.
     bindE (guardE (leaf = canonicalCommitment) ErrMerkleTreeLeafMismatch) (\<lambda>_.
     bindE (storedPathLoop env q count [0..<MerkleDepth] (the found) s) (\<lambda>path.
     Inr (map fst path, map snd path, the found)))))))"

section \<open>Prefix roots\<close>

text \<open>The frontier keeps at each level the last node with an even index, \<open>None\<close> before the first.\<close>

fun frontierLoop :: "'a keeper_env_scheme \<Rightarrow> nat list \<Rightarrow> nat list \<Rightarrow> u64 \<Rightarrow> nat \<Rightarrow> nat option list \<Rightarrow> (nat \<times> nat option list) res" where
  "frontierLoop env emptyRoots [] currentIndex current frontier = Inr (current, frontier)"
| "frontierLoop env emptyRoots (level # levels) currentIndex current frontier =
     (if currentIndex mod 2 = 0 then
        frontierLoop env emptyRoots levels (currentIndex div 2)
          (ComputeNoteTreeNodeV1 env level current (emptyRoots ! level)) (frontier[level := Some current])
      else case frontier ! level of
             None \<Rightarrow> Inl (Errorf ''merkle prefix frontier is missing'')
           | Some left \<Rightarrow>
               frontierLoop env emptyRoots levels (currentIndex div 2)
                 (ComputeNoteTreeNodeV1 env level left current) frontier)"

fun prefixRootsLoop :: "'a keeper_env_scheme \<Rightarrow> nat list \<Rightarrow> u64 \<Rightarrow> nat list \<Rightarrow> nat option list \<Rightarrow> store \<Rightarrow> bytes list res" where
  "prefixRootsLoop env emptyRoots count [] frontier s = Inr []"
| "prefixRootsLoop env emptyRoots count (i # is) frontier s =
     bindE (getLeafRequired (word_of_nat i) count s) (\<lambda>leaf.
     bindE (frontierLoop env emptyRoots [0..<MerkleDepth] (word_of_nat i) (be_to_nat leaf) frontier) (\<lambda>(current, frontier').
     bindE (prefixRootsLoop env emptyRoots count is frontier' s) (\<lambda>roots.
     Inr (fe_bytes current # roots))))"

definition computeCommitmentPrefixRootsV1 :: "'a keeper_env_scheme \<Rightarrow> u64 \<Rightarrow> store \<Rightarrow> bytes list res" where
  "computeCommitmentPrefixRootsV1 env count s =
     bindE (validateMerkleRebuildCount count) (\<lambda>_.
     if count = 0 then Inr []
     else prefixRootsLoop env (EmptyNoteTreeRootsV1 env MerkleDepth) count [0..<unat count]
            (replicate MerkleDepth None) s)"

section \<open>The snapshot index\<close>

definition GetMerkleRootSnapshotV1 :: "'a keeper_env_scheme \<Rightarrow> bytes \<Rightarrow> store \<Rightarrow> snapshot option res" where
  "GetMerkleRootSnapshotV1 env root s =
     bindE (validateFieldElementBytesStrict root) (\<lambda>canonicalRoot.
     case kv_get s (GetMerkleRootSnapshotKey canonicalRoot) of
       None \<Rightarrow> Inr None
     | Some bz \<Rightarrow>
         if bz = [] then Inr None
         else case MerkleRootSnapshotV1_Unmarshal bz of
           Inl _ \<Rightarrow> Inl (Errorf ''stored merkle root snapshot is corrupt'')
         | Inr sn \<Rightarrow>
             bindE (GetLeafCount s) (\<lambda>count.
             bindE (guardE (\<not> (snap_root sn \<noteq> canonicalRoot \<or> snap_leaf_count sn = 0 \<or>
                     snap_leaf_count sn > count \<or> snap_height sn < 0))
                     (Errorf ''stored merkle root snapshot is inconsistent'')) (\<lambda>_.
             case kv_get s (GetHistoricalRootKey canonicalRoot) of
               None \<Rightarrow> Inl (Errorf ''stored merkle root snapshot historical height is missing or corrupt'')
             | Some heightBytes \<Rightarrow>
                 bindE (guardE (length heightBytes = 8)
                   (Errorf ''stored merkle root snapshot historical height is missing or corrupt'')) (\<lambda>_.
                 bindE (guardE (\<not> (un_be64 heightBytes > MaxInt64 \<or> int (unat (un_be64 heightBytes)) \<noteq> snap_height sn))
                   (Errorf ''stored merkle root snapshot historical height is inconsistent'')) (\<lambda>_.
                 Inr (Some sn))))))"

definition RecordCurrentMerkleRootSnapshotV1 :: "'a keeper_env_scheme \<Rightarrow> int \<Rightarrow> (store, unit) action" where
  "RecordCurrentMerkleRootSnapshotV1 env height =
     bindM (readM GetLeafCount) (\<lambda>count.
     if count = 0 then retM ()
     else bindM (readM (\<lambda>s. case GetMerkleNode MerkleDepth 0 s of
                          Some root \<Rightarrow> if root = [] then RecalculateRoot env count s else Inr root
                        | None \<Rightarrow> RecalculateRoot env count s)) (\<lambda>root.
          SetMerkleRootSnapshotV1 env \<lparr>snap_root = root, snap_leaf_count = count, snap_height = height\<rparr>))"

text \<open>The stored height of a historical root, as the two rebuild loops read it.\<close>

definition historicalHeight :: "bytes \<Rightarrow> store \<Rightarrow> int res" where
  "historicalHeight root s =
     (case kv_get s (GetHistoricalRootKey root) of
        None \<Rightarrow> Inl (Errorf ''historical root has invalid height metadata'')
      | Some heightBytes \<Rightarrow>
          bindE (guardE (length heightBytes = 8) (Errorf ''historical root has invalid height metadata'')) (\<lambda>_.
          bindE (guardE (\<not> un_be64 heightBytes > MaxInt64) (Errorf ''historical root height overflows int64'')) (\<lambda>_.
          Inr (int (unat (un_be64 heightBytes))))))"

definition RebuildMerkleRootSnapshotIndexV1 :: "'a keeper_env_scheme \<Rightarrow> (store, unit) action" where
  "RebuildMerkleRootSnapshotIndexV1 env =
     bindM (readM GetLeafCount) (\<lambda>count.
     bindM (readM (computeCommitmentPrefixRootsV1 env count)) (\<lambda>roots.
     forM (zip [0..<length roots] roots) (\<lambda>(i, root).
       bindM (readM (historicalHeight root)) (\<lambda>heightValue.
       SetMerkleRootSnapshotV1 env
         \<lparr>snap_root = root, snap_leaf_count = word_of_nat (i + 1), snap_height = heightValue\<rparr>))))"

text \<open>The iteration over the stored index. The map \<^verbatim>\<open>byRoot\<close> and the set \<^verbatim>\<open>seenCounts\<close> are read off the
  snapshots collected so far.\<close>

fun loadSnapshotsLoop :: "'a keeper_env_scheme \<Rightarrow> u64 \<Rightarrow> store \<Rightarrow> (bytes \<times> bytes) list \<Rightarrow> snapshot list \<Rightarrow> snapshot list res" where
  "loadSnapshotsLoop env count s [] snapshots = Inr snapshots"
| "loadSnapshotsLoop env count s ((key, bz) # pairs) snapshots =
     bindE (guardE (length key = 1 + fieldElementByteSize) (Errorf ''merkle root snapshot key has invalid length'')) (\<lambda>_.
     case MerkleRootSnapshotV1_Unmarshal bz of
       Inl _ \<Rightarrow> Inl (Errorf ''merkle root snapshot is corrupt'')
     | Inr sn \<Rightarrow>
         bindE (guardE (\<not> (tl key \<noteq> snap_root sn \<or> snap_leaf_count sn = 0 \<or> snap_leaf_count sn > count \<or> snap_height sn < 0))
                 (Errorf ''merkle root snapshot key/body metadata is inconsistent'')) (\<lambda>_.
         bindE (guardE (snap_root sn \<notin> set (map snap_root snapshots))
                 (Errorf ''merkle root snapshot duplicates a root'')) (\<lambda>_.
         bindE (guardE (snap_leaf_count sn \<notin> set (map snap_leaf_count snapshots))
                 (Errorf ''merkle root snapshot duplicates leaf_count'')) (\<lambda>_.
         bindE (mapErr (\<lambda>_. Errorf ''merkle root snapshot historical height is inconsistent'')
                 (historicalHeight (snap_root sn) s)) (\<lambda>height.
         bindE (guardE (height = snap_height sn)
                 (Errorf ''merkle root snapshot historical height is inconsistent'')) (\<lambda>_.
         loadSnapshotsLoop env count s pairs (snapshots @ [sn])))))))"

definition loadStoredMerkleRootSnapshotsV1 ::
  "'a keeper_env_scheme \<Rightarrow> u64 \<Rightarrow> store \<Rightarrow> (snapshot list \<times> (bytes \<rightharpoonup> snapshot)) res" where
  "loadStoredMerkleRootSnapshotsV1 env count s =
     bindE (loadSnapshotsLoop env count s
              (kv_range [KeyPrefixRootSnapshot] [KeyPrefixRootSnapshot + 1] s) []) (\<lambda>snapshots.
     Inr (sort_key snap_root snapshots, map_of (map (\<lambda>sn. (snap_root sn, sn)) snapshots)))"

text \<open>The import loop: \<open>snapshots\<close> are the imported ones, none of them nil, with their positions
  dropped from the error texts.\<close>

fun initSnapshotsLoop :: "'a keeper_env_scheme \<Rightarrow> (bytes \<rightharpoonup> snapshot) \<Rightarrow> bytes list \<Rightarrow> snapshot option list \<Rightarrow> (store, unit) action" where
  "initSnapshotsLoop env expected seen [] = retM ()"
| "initSnapshotsLoop env expected seen (None # rest) = failM (Errorf ''genesis merkle root snapshot is nil'')"
| "initSnapshotsLoop env expected seen (Some sn # rest) =
     bindM (readM (\<lambda>_. validateFieldElementBytesStrict (snap_root sn))) (\<lambda>canonicalRoot.
     bindM (guardM (case expected canonicalRoot of None \<Rightarrow> False | Some e \<Rightarrow> snap_leaf_count sn = snap_leaf_count e)
              (Errorf ''genesis merkle root snapshot does not match commitment prefix'')) (\<lambda>_.
     bindM (guardM (canonicalRoot \<notin> set seen) (Errorf ''genesis merkle root snapshot duplicates a root'')) (\<lambda>_.
     bindM (writeM (kv_set (GetMerkleRootSnapshotKey canonicalRoot) (MerkleRootSnapshotV1_Marshal (sn\<lparr>snap_root := canonicalRoot\<rparr>)))) (\<lambda>_.
     bindM (setHistoricalRootHeightMetadata canonicalRoot (snap_height sn)) (\<lambda>_.
     initSnapshotsLoop env expected (canonicalRoot # seen) rest)))))"

definition InitGenesisMerkleRootSnapshotsV1 :: "'a keeper_env_scheme \<Rightarrow> snapshot option list \<Rightarrow> (store, unit) action" where
  "InitGenesisMerkleRootSnapshotsV1 env snapshots =
     bindM (guardM (\<not> audit_on env) (Errorf ''legacy state mutation is disabled'')) (\<lambda>_.
     bindM (readM GetLeafCount) (\<lambda>count.
     bindM (guardM (word_of_nat (length snapshots) = count)
              (Errorf ''genesis merkle root snapshots must contain every commitment prefix'')) (\<lambda>_.
     bindM (readM (loadStoredMerkleRootSnapshotsV1 env count)) (\<lambda>(stored, expected).
     bindM (guardM (word_of_nat (length stored) = count)
              (Errorf ''append-built merkle root snapshot index is incomplete'')) (\<lambda>_.
     initSnapshotsLoop env expected [] snapshots)))))"

definition exportRebuilt :: "(bytes \<rightharpoonup> snapshot) \<Rightarrow> store \<Rightarrow> nat \<times> bytes \<Rightarrow> snapshot res" where
  "exportRebuilt stored s = (\<lambda>(i, root).
     bindE (mapErr (\<lambda>_. Errorf ''historical root has invalid height metadata'') (historicalHeight root s)) (\<lambda>height.
     let want = \<lparr>snap_root = root, snap_leaf_count = word_of_nat (i + 1), snap_height = height\<rparr>
     in bindE (guardE (case stored root of None \<Rightarrow> True
                | Some cached \<Rightarrow> snap_leaf_count cached = snap_leaf_count want \<and> snap_height cached = snap_height want)
                (Errorf ''merkle root snapshot index does not match commitment prefixes'')) (\<lambda>_.
        Inr want)))"

definition ExportGenesisMerkleRootSnapshotsV1 :: "'a keeper_env_scheme \<Rightarrow> store \<Rightarrow> snapshot list res" where
  "ExportGenesisMerkleRootSnapshotsV1 env s =
     bindE (GetLeafCount s) (\<lambda>count.
     bindE (loadStoredMerkleRootSnapshotsV1 env count s) (\<lambda>(snapshots, stored).
     if count \<le> MaxMerkleRebuildLeaves then
       bindE (computeCommitmentPrefixRootsV1 env count s) (\<lambda>roots.
       bindE (traverseE (exportRebuilt stored s) (zip [0..<length roots] roots)) (\<lambda>rebuilt.
       bindE (guardE (\<not> length snapshots > length rebuilt)
                (Errorf ''merkle root snapshot index contains a non-prefix root'')) (\<lambda>_.
       Inr (sort_key snap_root rebuilt))))
     else
       bindE (guardE (word_of_nat (length snapshots) = count)
                (Errorf ''large merkle tree requires persisted snapshot for every commitment prefix'')) (\<lambda>_.
       Inr snapshots)))"

section \<open>Paths at a root\<close>

text \<open>Siblings are appended to every path, then the layer is hashed pairwise; the context is
  consulted for every pair.\<close>

fun historicalLevels ::
  "'a keeper_env_scheme \<Rightarrow> query_ctx \<Rightarrow> nat list \<Rightarrow> bytes list \<Rightarrow> u64 list \<Rightarrow> path_at_root list \<Rightarrow> (bytes list \<times> path_at_root list) res" where
  "historicalLevels env q [] layer indices paths = Inr (layer, paths)"
| "historicalLevels env q (level # levels) layer indices paths =
     (let paths' = map2 (\<lambda>index p.
            let siblingIndex = index XOR 1;
                sibling = if siblingIndex < word_of_nat (length layer) then layer ! unat siblingIndex
                          else emptyNodeBytes env level
            in p\<lparr>Path := Path p @ [hex_of_bytes sibling], PathHelper := PathHelper p @ [ucast (index mod 2)]\<rparr>)
          indices paths
      in bindE (traverseE (checkHistoricalPathQueryContext q (level + 3)) (filter even [0..<length layer])) (\<lambda>_.
         historicalLevels env q levels (nextLayer env level layer) (map (\<lambda>index. index div 2) indices) paths'))"

definition historicalLookup :: "u64 \<Rightarrow> bytes list \<Rightarrow> store \<Rightarrow> bytes \<Rightarrow> u64 res" where
  "historicalLookup leafCount layer s commitment =
     bindE (validateFieldElementBytesStrict commitment) (\<lambda>canonicalCommitment.
     bindE (GetCommitmentIndex canonicalCommitment s) (\<lambda>found.
     bindE (guardE (\<not> (found = None \<or> the found \<ge> leafCount \<or> layer ! unat (the found) \<noteq> canonicalCommitment))
              ErrMerkleCommitmentNotFound) (\<lambda>_.
     Inr (the found))))"

definition GetCommitmentPathsAtRootV1 ::
  "'a keeper_env_scheme \<Rightarrow> query_ctx \<Rightarrow> bytes list \<Rightarrow> bytes \<Rightarrow> int \<Rightarrow> store \<Rightarrow> (path_at_root list \<times> snapshot) res" where
  "GetCommitmentPathsAtRootV1 env q commitments root snapshotHeight s =
     bindE (guardE (\<not> (length commitments = 0 \<or> length commitments > MaxCommitmentPathSnapshotQuery))
              (Errorf ''commitment path snapshot requires 1..16 commitments'')) (\<lambda>_.
     bindE (ValidateDistinctCanonicalFieldElements ''path commitment'' commitments) (\<lambda>_.
     bindE (validateFieldElementBytesStrict root) (\<lambda>canonicalRoot.
     bindE (checkHistoricalPathQueryContext q 0 0) (\<lambda>_.
     bindE (GetMerkleRootSnapshotV1 env canonicalRoot s) (\<lambda>found.
     case found of
       None \<Rightarrow> Inl ErrMerkleCommitmentNotFound
     | Some sn \<Rightarrow>
         bindE (guardE (\<not> (snapshotHeight > 0 \<and> snap_height sn \<noteq> snapshotHeight))
                  (Errorf ''snapshot height does not match root metadata'')) (\<lambda>_.
         bindE (GetLeafCount s) (\<lambda>currentCount.
         let currentRoot = (case GetMerkleNode MerkleDepth 0 s of None \<Rightarrow> [] | Some r \<Rightarrow> r)
         in bindE (guardE (\<not> (length currentRoot = 0 \<and> currentCount > 0)) ErrMerkleQueryCachedRootMissing) (\<lambda>_.
            if snap_leaf_count sn = currentCount \<and> currentRoot = canonicalRoot then
              bindE (traverseE (\<lambda>commitment.
                 bindE (getStoredIncrementalPathV1 env q commitment currentCount s) (\<lambda>(path, helper, leafIndex).
                 Inr \<lparr>CommitmentHex = hex_of_bytes commitment, LeafIndex = leafIndex, Path = path, PathHelper = helper\<rparr>))
                 commitments) (\<lambda>paths.
              Inr (paths, sn))
            else
              bindE (validateHistoricalPathQueryRebuildCount (snap_leaf_count sn)) (\<lambda>_.
              bindE (acquireHistoricalPathQueryRebuild q) (\<lambda>_.
              bindE (traverseE (\<lambda>i. bindE (checkHistoricalPathQueryContext q 2 i) (\<lambda>_.
                        getLeafRequired (word_of_nat i) (snap_leaf_count sn) s)) [0..<unat (snap_leaf_count sn)]) (\<lambda>layer.
              bindE (traverseE (historicalLookup (snap_leaf_count sn) layer s) commitments) (\<lambda>indices.
              bindE (historicalLevels env q [0..<MerkleDepth] layer indices
                       (map2 (\<lambda>commitment leafIndex.
                          \<lparr>CommitmentHex = hex_of_bytes commitment, LeafIndex = leafIndex, Path = [], PathHelper = []\<rparr>)
                        commitments indices)) (\<lambda>(top, paths).
              bindE (guardE (\<not> (length top \<noteq> 1 \<or> top ! 0 \<noteq> canonicalRoot))
                       (Errorf ''historical path snapshot rebuild produced a different root'')) (\<lambda>_.
              Inr (paths, sn)))))))))))))))"

section \<open>The current path\<close>

lemma node_read:
  assumes "crypto_ok env" "tree_inv env ls s" "m \<le> 32" "q < 2 ^ 64"
  shows "getMerkleNodeOrEmpty env m (word_of_nat q) (word_of_nat (length ls)) s =
     Inr (fe_bytes (tree_node env (map be_to_nat ls) m q))"
proof -
  have N: "unat (word_of_nat (length ls) :: u64) = length ls" by (rule u64_count [OF assms(2)]) simp
  have pop: "word_of_nat q \<ge> populatedNodeCountAtLevel (word_of_nat (length ls)) m \<longleftrightarrow> \<not> q * 2 ^ m < length ls"
    using populated_iff [of "word_of_nat (length ls)" q m] N tree_inv_length [OF assms(2)] assms(4)
    by (simp add: word_le_nat_alt) linarith
  have can: "canonical_field (fe_bytes (tree_node env (map be_to_nat ls) m q))"
    using assms(1) tree_inv_active [OF assms(2)] by (intro node_canonical) auto
  show ?thesis
  proof (cases "q * 2 ^ m < length ls")
    case True
    with pop can tree_inv_node [OF assms(2,3) True] show ?thesis
      by (simp add: getMerkleNodeOrEmpty_def node_key_def strict_canonical)
  next
    case False
    with pop assms(1) show ?thesis by (simp add: getMerkleNodeOrEmpty_def tree_node_empty)
  qed
qed

definition hex_path :: "(bytes \<times> u32) list \<Rightarrow> (string \<times> u32) list" where
  "hex_path p = map (\<lambda>(sib, helper). (hex_of_bytes sib, helper)) p"

lemma sibling_word:
  assumes "i < 2 ^ 32"
  shows "(word_of_nat (i div 2 ^ l) :: u64) XOR 1 = word_of_nat (sibling (i div 2 ^ l))"
proof -
  have "i div 2 ^ l \<le> i" by simp
  then have "i div 2 ^ l + 1 < 2 ^ 64" using assms by (simp del: div_le_dividend)
  then show ?thesis by (simp only: u64_xor1 sibling_def)
qed

lemma sibling_less: "i < 2 ^ 32 \<Longrightarrow> sibling (i div 2 ^ l) < 2 ^ 64"
  using div_le_dividend [of i "2 ^ l"] by (auto simp: sibling_def simp del: div_le_dividend)

lemma pathLoop_run:
  assumes "crypto_ok env" "tree_inv env ls s" "i < 2 ^ 32" "l + d \<le> 32"
  shows "pathLoop env (word_of_nat (length ls)) [l..<l + d] (word_of_nat (i div 2 ^ l)) s =
     Inr (hex_path (tree_path env ls i [l..<l + d]))"
  using assms(4)
proof (induction d arbitrary: l)
  case (Suc d)
  let ?q = "i div 2 ^ l"
  have up: "[l..<l + Suc d] = l # [l + 1..<(l + 1) + d]" by (simp add: upt_conv_Cons)
  have sib: "getMerkleNodeOrEmpty env l (word_of_nat ?q XOR 1) (word_of_nat (length ls)) s =
      Inr (fe_bytes (tree_node env (map be_to_nat ls) l (sibling ?q)))"
    unfolding sibling_word [OF assms(3)]
    by (rule node_read [OF assms(1,2) _ sibling_less [OF assms(3)]]) (use Suc.prems in simp)
  have "(l + 1) + d \<le> 32" using Suc.prems by simp
  then have "pathLoop env (word_of_nat (length ls)) [l + 1..<(l + 1) + d] (word_of_nat (i div 2 ^ (l + 1))) s =
      Inr (hex_path (tree_path env ls i [l + 1..<(l + 1) + d]))" by (rule Suc.IH)
  moreover have "fe_bytes v \<noteq> []" for v by (metis fe_bytes_length length_0_conv zero_neq_numeral)
  ultimately show ?case
    unfolding up pathLoop.simps half_index [OF assms(3)] sib
    by (simp add: hex_path_def tree_path_def u64_mod2 [OF div_pow_less [OF assms(3)]] del: power_Suc upt_Suc)
qed (simp add: hex_path_def tree_path_def)

lemma GetLeafCount_ok: "tree_inv env ls s \<Longrightarrow> GetLeafCount s = Inr (word_of_nat (length ls))"
  using tree_inv_count [of env ls s]
  by (auto simp: GetLeafCount_def getLeafCountStrict_def split: option.splits)

lemma index_found:
  assumes "tree_inv env ls s" "i < length ls"
  shows "GetCommitmentIndex (ls ! i) s = Inr (Some (word_of_nat i))"
  using tree_inv_index(1) [OF assms] tree_inv_active [OF assms(1), of "ls ! i"] assms(2)
  by (simp add: GetCommitmentIndex_def)

text \<open>\<^verbatim>\<open>GetPath\<close> returns the true path of the commitment and the current root, and writes nothing.\<close>

lemma GetPath_run:
  assumes ok: "crypto_ok env" and inv: "tree_inv env ls s" and i: "i < length ls"
  shows "GetPath env (ls ! i) s =
    (let p = tree_path env ls i [0..<MerkleDepth]
     in (Inr (map (hex_of_bytes \<circ> fst) p, map snd p, root_bytes env ls), s))"
proof -
  let ?N = "word_of_nat (length ls) :: u64" and ?I = "word_of_nat i :: u64"
  have len: "length ls \<le> 2 ^ 32" by (rule tree_inv_length [OF inv])
  have N: "unat ?N = length ls" "unat ?I = i" using i len by simp_all
  have nz: "?N \<noteq> 0" using i len by (auto simp: count_zero_iff)
  have lt: "\<not> ?N \<le> ?I" using N i by (simp add: word_le_nat_alt)
  have can: "canonical_field (ls ! i)" using tree_inv_active [OF inv, of "ls ! i"] i by simp
  have path: "pathLoop env ?N [0..<MerkleDepth] ?I s = Inr (hex_path (tree_path env ls i [0..<MerkleDepth]))"
    using pathLoop_run [OF ok inv, of i 0 32] i len by (simp add: MerkleDepth_def)
  have root: "GetMerkleNode MerkleDepth 0 s = Some (root_bytes env ls)"
    using tree_inv_root [OF inv] i by (cases ls) (simp_all add: GetMerkleNode_def rootKey_def)
  have leaf: "getLeafRequired ?I ?N s = Inr (ls ! i)" using getLeafRequired_ok [OF inv i] N i by simp
  show ?thesis
    unfolding GetPath_def Let_def
    using ensure_noop [OF inv] GetLeafCount_ok [OF inv] nz lt can index_found [OF inv i] leaf path root
    by (simp add: bindM_run hex_path_def o_def case_prod_beta)
qed

lemma GetPath_absent:
  assumes "tree_inv env ls s" "canonical_field c" "c \<notin> set ls"
  shows "GetPath env c s = (Inl ErrMerkleCommitmentNotFound, s)"
  using ensure_noop [OF assms(1)] GetLeafCount_ok [OF assms(1)] assms tree_inv_index(2) [OF assms(1,3)]
  by (simp add: GetPath_def bindM_run GetCommitmentIndex_def guardE_def)

section \<open>The prefix roots\<close>

text \<open>The frontier before leaf \<open>n\<close> is read: where the next index is odd, its left sibling.\<close>

definition frontier_ok :: "'a keeper_env_scheme \<Rightarrow> nat list \<Rightarrow> nat \<Rightarrow> nat option list \<Rightarrow> bool" where
  "frontier_ok env vs n fr =
     (length fr = 32 \<and> (\<forall>l < 32. odd (n div 2 ^ l) \<longrightarrow> fr ! l = Some (tree_node env vs l (n div 2 ^ l - 1))))"

lemma complete_node_prefix:
  assumes "(i + 1) * 2 ^ l \<le> n" "n \<le> length vs"
  shows "tree_node env vs l i = tree_node env (take n vs) l i"
  using tree_node_snoc [of i l "take n vs" env "drop n vs"] assms by (simp add: min_absorb2)

lemma left_node_prefix:
  assumes "odd (n div 2 ^ l)" "n \<le> k" "k \<le> length vs"
  shows "tree_node env vs l (n div 2 ^ l - 1) = tree_node env (take k vs) l (n div 2 ^ l - 1)"
proof (rule complete_node_prefix [OF _ assms(3)])
  have "(n div 2 ^ l - 1 + 1) * 2 ^ l \<le> n" using odd_pos [OF assms(1)] by simp
  then show "(n div 2 ^ l - 1 + 1) * 2 ^ l \<le> k" using assms(2) by (rule order_trans)
qed

lemma frontierLoop_run:
  assumes n: "n < length vs" "length vs \<le> 2 ^ 32" and ld: "l + d \<le> 32"
    and fr: "length fr = 32" "\<forall>m. l \<le> m \<and> m < 32 \<and> odd (n div 2 ^ m) \<longrightarrow> fr ! m = Some (tree_node env vs m (n div 2 ^ m - 1))"
  shows "\<exists>fr'. frontierLoop env (EmptyNoteTreeRootsV1 env 32) [l..<l + d] (word_of_nat (n div 2 ^ l))
        (tree_node env (take (n + 1) vs) l (n div 2 ^ l)) fr =
      Inr (tree_node env (take (n + 1) vs) (l + d) (n div 2 ^ (l + d)), fr') \<and> length fr' = 32 \<and>
      (\<forall>m < 32. fr' ! m = (if l \<le> m \<and> m < l + d \<and> even (n div 2 ^ m)
          then Some (tree_node env (take (n + 1) vs) m (n div 2 ^ m)) else fr ! m))"
  using ld fr
proof (induction d arbitrary: l fr)
  case (Suc d)
  let ?q = "n div 2 ^ l" and ?V = "take (n + 1) vs" and ?E = "EmptyNoteTreeRootsV1 env 32"
  let ?L = "[l + 1..<(l + 1) + d]"
  have up: "[l..<l + Suc d] = l # ?L" by (simp add: upt_conv_Cons)
  have n32: "n < 2 ^ 32" using n by linarith
  have len: "length ?V = n + 1" using n by simp
  have l32: "l < 32" using Suc.prems(1) by simp
  have E: "?E ! l = empty_root env l"
    using l32 by (simp add: EmptyNoteTreeRootsV1_table del: upt_Suc)
  let ?fr = "if even ?q then fr[l := Some (tree_node env ?V l ?q)] else fr"
  have step: "frontierLoop env ?E (l # ?L) (word_of_nat ?q) (tree_node env ?V l ?q) fr =
      frontierLoop env ?E ?L (word_of_nat (n div 2 ^ (l + 1))) (tree_node env ?V (l + 1) (n div 2 ^ (l + 1))) ?fr"
  proof (cases "even ?q")
    case True
    with E show ?thesis
      by (simp only: frontierLoop.simps u64_mod2 [OF div_pow_less [OF n32]] half_index [OF n32]
          tree_node_parent [OF len] if_True simp_thms)
  next
    case False
    then have "fr ! l = Some (tree_node env ?V l (?q - 1))"
      using Suc.prems(3) l32 left_node_prefix [of n l "n + 1" vs env] n by simp
    with False show ?thesis
      by (simp only: frontierLoop.simps u64_mod2 [OF div_pow_less [OF n32]] half_index [OF n32]
          tree_node_parent [OF len] if_False one_neq_zero option.case)
  qed
  have "\<forall>m. l + 1 \<le> m \<and> m < 32 \<and> odd (n div 2 ^ m) \<longrightarrow> ?fr ! m = Some (tree_node env vs m (n div 2 ^ m - 1))"
    using Suc.prems(3) by auto
  moreover have "(l + 1) + d \<le> 32" "length ?fr = 32" using Suc.prems(1,2) by auto
  ultimately obtain fr' where fr': "frontierLoop env ?E ?L (word_of_nat (n div 2 ^ (l + 1)))
        (tree_node env ?V (l + 1) (n div 2 ^ (l + 1))) ?fr =
      Inr (tree_node env ?V ((l + 1) + d) (n div 2 ^ ((l + 1) + d)), fr')" "length fr' = 32"
      "\<forall>m < 32. fr' ! m = (if l + 1 \<le> m \<and> m < (l + 1) + d \<and> even (n div 2 ^ m)
          then Some (tree_node env ?V m (n div 2 ^ m)) else ?fr ! m)"
    using Suc.IH [of "l + 1" ?fr] by blast
  have "\<forall>m < 32. fr' ! m = (if l \<le> m \<and> m < l + Suc d \<and> even (n div 2 ^ m)
          then Some (tree_node env ?V m (n div 2 ^ m)) else fr ! m)"
  proof (intro allI impI)
    fix m assume "m < (32::nat)"
    with fr'(3) Suc.prems(2) l32
    show "fr' ! m = (if l \<le> m \<and> m < l + Suc d \<and> even (n div 2 ^ m) then Some (tree_node env ?V m (n div 2 ^ m)) else fr ! m)"
      by (cases "m = l") auto
  qed
  moreover have "l + Suc d = (l + 1) + d" by simp
  ultimately show ?case unfolding up step using fr'(1,2) by metis
qed (auto simp: upt_conv_Nil)

lemma frontier_next:
  assumes "frontier_ok env vs n fr" "n < length vs" "length fr' = 32"
    and "\<forall>m < 32. fr' ! m = (if even (n div 2 ^ m) then Some (tree_node env (take (n + 1) vs) m (n div 2 ^ m)) else fr ! m)"
  shows "frontier_ok env vs (n + 1) fr'"
  unfolding frontier_ok_def
proof (intro conjI allI impI)
  fix l assume l: "l < (32::nat)" "odd ((n + 1) div 2 ^ l)"
  let ?Q = "(n + 1) div 2 ^ l" and ?q = "n div 2 ^ l"
  have Q: "?Q = (if (n + 1) mod 2 ^ l = 0 then ?q + 1 else ?q)"
    using div_Suc [of n "2 ^ l"] by simp
  show "fr' ! l = Some (tree_node env vs l (?Q - 1))"
  proof (cases "(n + 1) mod 2 ^ l = 0")
    case True
    with Q l(2) have "even ?q" "?Q - 1 = ?q" by auto
    moreover have "tree_node env vs l (?Q - 1) = tree_node env (take (n + 1) vs) l (?Q - 1)"
      using l(2) assms(2) by (intro left_node_prefix) auto
    ultimately show ?thesis using assms(4) l(1) by simp
  next
    case False
    with Q have "?Q = ?q" by simp
    then show ?thesis using assms(1,4) l by (simp add: frontier_ok_def)
  qed
qed (use assms in simp)

lemma frontierLoop_leaf:
  assumes fr: "frontier_ok env vs n fr" and n: "n < length vs" and len: "length vs \<le> 2 ^ 32"
  shows "\<exists>fr'. frontierLoop env (EmptyNoteTreeRootsV1 env 32) [0..<32] (word_of_nat n) (vs ! n) fr =
      Inr (tree_node env (take (n + 1) vs) 32 0, fr') \<and> frontier_ok env vs (n + 1) fr'"
proof -
  have div: "n div 2 ^ 32 = 0" using n len by simp
  have leaf: "tree_node env (take (n + 1) vs) 0 n = vs ! n" using n by simp
  have "length fr = 32" "\<forall>m. 0 \<le> m \<and> m < 32 \<and> odd (n div 2 ^ m) \<longrightarrow> fr ! m = Some (tree_node env vs m (n div 2 ^ m - 1))"
    using fr by (auto simp: frontier_ok_def)
  note run = frontierLoop_run [OF n len _ this, where d = 32, unfolded add_0 div power_0 div_by_1 leaf]
  obtain fr' where fr': "frontierLoop env (EmptyNoteTreeRootsV1 env 32) [0..<32] (word_of_nat n) (vs ! n) fr =
      Inr (tree_node env (take (n + 1) vs) 32 0, fr')" "length fr' = 32"
      "\<forall>m < 32. fr' ! m = (if 0 \<le> m \<and> m < 32 \<and> even (n div 2 ^ m)
          then Some (tree_node env (take (n + 1) vs) m (n div 2 ^ m)) else fr ! m)"
    using run by blast
  have "frontier_ok env vs (n + 1) fr'"
    by (rule frontier_next [OF fr n fr'(2)]) (use fr'(3) in simp)
  with fr'(1) show ?thesis by blast
qed

lemma prefixRootsLoop_run:
  assumes inv: "tree_inv env ls s" and k: "k \<le> length ls" and "n + d = k"
    and "frontier_ok env (map be_to_nat ls) n fr"
  shows "prefixRootsLoop env (EmptyNoteTreeRootsV1 env 32) (word_of_nat k) [n..<n + d] fr s =
     Inr (map (\<lambda>j. root_bytes env (take (j + 1) ls)) [n..<n + d])"
  using assms(3,4)
proof (induction d arbitrary: n fr)
  case (Suc d)
  let ?vs = "map be_to_nat ls" and ?E = "EmptyNoteTreeRootsV1 env 32"
  have up: "[n..<n + Suc d] = n # [n + 1..<(n + 1) + d]" by (simp add: upt_conv_Cons)
  have n: "n < k" "n < length ls" using Suc.prems(1) k by auto
  have len: "length ls \<le> 2 ^ 32" by (rule tree_inv_length [OF inv])
  have leaf: "getLeafRequired (word_of_nat n) (word_of_nat k) s = Inr (ls ! n)"
    using n by (intro getLeafRequired_ok [OF inv]) (simp_all add: u64_count [OF inv k])
  obtain fr' where fr': "frontierLoop env ?E [0..<32] (word_of_nat n) (be_to_nat (ls ! n)) fr =
      Inr (tree_node env (take (n + 1) ?vs) 32 0, fr')" "frontier_ok env ?vs (n + 1) fr'"
    using frontierLoop_leaf [of env ?vs n fr] Suc.prems(2) n len by auto
  from fr'(2) have "prefixRootsLoop env ?E (word_of_nat k) [n + 1..<(n + 1) + d] fr' s =
      Inr (map (\<lambda>j. root_bytes env (take (j + 1) ls)) [n + 1..<(n + 1) + d])"
    using Suc.prems(1) by (intro Suc.IH) auto
  moreover have "root_bytes env (take (n + 1) ls) = fe_bytes (tree_node env (take (n + 1) ?vs) 32 0)"
    by (simp add: root_bytes_def tree_root_def MerkleDepth_def take_map)
  ultimately show ?case
    unfolding up prefixRootsLoop.simps leaf MerkleDepth_def
    using fr'(1) by (simp only: bindE_Inr case_prod_conv list.map)
qed simp

text \<open>The frontier computation agrees with the abstract tree on every prefix.\<close>

lemma prefix_roots_run:
  assumes inv: "tree_inv env ls s" and k: "k \<le> length ls" "k \<le> 2 ^ 20"
  shows "computeCommitmentPrefixRootsV1 env (word_of_nat k) s =
     Inr (map (\<lambda>j. root_bytes env (take (j + 1) ls)) [0..<k])"
proof -
  have u: "unat (word_of_nat k :: u64) = k" by (rule u64_count [OF inv k(1)])
  have val: "validateMerkleRebuildCount (word_of_nat k) = Inr ()"
    using k(2) u by (simp add: validateMerkleRebuildCount_def validateMerkleLeafCount_def
        MaxMerkleLeaves_def MaxMerkleRebuildLeaves_def word_less_nat_alt)
  have "frontier_ok env (map be_to_nat ls) 0 (replicate 32 None)" by (simp add: frontier_ok_def)
  then have "prefixRootsLoop env (EmptyNoteTreeRootsV1 env 32) (word_of_nat k) [0..<0 + k] (replicate 32 None) s =
      Inr (map (\<lambda>j. root_bytes env (take (j + 1) ls)) [0..<0 + k])"
    by (intro prefixRootsLoop_run [OF inv k(1)]) simp_all
  moreover have "(word_of_nat k :: u64) = 0 \<longleftrightarrow> k = 0" using u unat_eq_zero [of "word_of_nat k :: u64"] by simp
  ultimately show ?thesis
    using val u by (simp add: computeCommitmentPrefixRootsV1_def MerkleDepth_def)
qed

section \<open>Snapshots\<close>

lemma height_read: "is_height h \<Longrightarrow> int (unat (word_of_int h :: u64)) = h \<and> \<not> (word_of_int h :: u64) > MaxInt64"
proof -
  assume h: "is_height h"
  then have "uint (word_of_int h :: u64) = h"
    by (simp add: is_height_def uint_word_of_int)
  with h show ?thesis by (simp add: MaxInt64_def word_less_alt is_height_def)
qed

lemma snapshot_stored:
  assumes "tree_inv env ls s" "0 < j" "j \<le> length ls"
  obtains h where "is_height h"
    "kv_get s (GetMerkleRootSnapshotKey (root_bytes env (take j ls))) =
       Some (MerkleRootSnapshotV1_Marshal \<lparr>snap_root = root_bytes env (take j ls), snap_leaf_count = word_of_nat j, snap_height = h\<rparr>)"
    "kv_get s (GetHistoricalRootKey (root_bytes env (take j ls))) = Some (be64 (word_of_int h))"
  using assms unfolding tree_inv_def tree_roots_def by metis

text \<open>Every prefix root has its snapshot, and only they have one.\<close>

lemma GetMerkleRootSnapshot_run:
  assumes ok: "crypto_ok env" and inv: "tree_inv env ls s" and j: "0 < j" "j \<le> length ls"
  shows "\<exists>h. is_height h \<and> kv_get s (GetHistoricalRootKey (root_bytes env (take j ls))) = Some (be64 (word_of_int h)) \<and>
     GetMerkleRootSnapshotV1 env (root_bytes env (take j ls)) s =
       Inr (Some \<lparr>snap_root = root_bytes env (take j ls), snap_leaf_count = word_of_nat j, snap_height = h\<rparr>)"
proof -
  let ?r = "root_bytes env (take j ls)"
  let ?sn = "\<lambda>h. \<lparr>snap_root = ?r, snap_leaf_count = word_of_nat j, snap_height = h\<rparr>"
  obtain h where h: "is_height h" "kv_get s (GetMerkleRootSnapshotKey ?r) = Some (MerkleRootSnapshotV1_Marshal (?sn h))"
    "kv_get s (GetHistoricalRootKey ?r) = Some (be64 (word_of_int h))"
    by (rule snapshot_stored [OF inv j])
  have r: "canonical_field ?r" using ok(1) take_canonical [OF inv] by (intro root_bytes_canonical)
  have ne: "MerkleRootSnapshotV1_Marshal (?sn h) \<noteq> []" using r by (intro snapshot_nonempty) (auto simp: canonical_field_def)
  have dec: "MerkleRootSnapshotV1_Unmarshal (MerkleRootSnapshotV1_Marshal (?sn h)) = Inr (?sn h)"
    using h(1) r by simp
  have u: "unat (word_of_nat j :: u64) = j" by (rule u64_count [OF inv j(2)])
  have nz: "(word_of_nat j :: u64) \<noteq> 0" using j(1) u by auto
  have le: "\<not> (word_of_nat j :: u64) > word_of_nat (length ls)"
    using j(2) u u64_count [OF inv order_refl] by (simp add: word_less_nat_alt)
  have "GetMerkleRootSnapshotV1 env ?r s = Inr (Some (?sn h))"
    using r h ne dec nz le GetLeafCount_ok [OF inv] height_read [OF h(1)] h(1) [unfolded is_height_def]
    by (simp add: GetMerkleRootSnapshotV1_def strict_canonical)
  with h show ?thesis by blast
qed

lemma GetMerkleRootSnapshot_absent:
  assumes "tree_inv env ls s" "canonical_field r" "\<forall>j. 0 < j \<and> j \<le> length ls \<longrightarrow> r \<noteq> root_bytes env (take j ls)"
  shows "GetMerkleRootSnapshotV1 env r s = Inr None"
proof -
  have "kv_get s (GetMerkleRootSnapshotKey r) = None"
    using assms unfolding tree_inv_def tree_roots_def kv_has_def by metis
  then show ?thesis using assms(2) by (simp add: GetMerkleRootSnapshotV1_def strict_canonical)
qed

section \<open>Paths at a root\<close>

definition ctx_live :: "query_ctx \<Rightarrow> bool" where
  "ctx_live q = (\<forall>site work. ctx_err q site work = None)"

lemma check_live [simp]: "ctx_live q \<Longrightarrow> checkHistoricalPathQueryContext q site work = Inr ()"
  by (simp add: checkHistoricalPathQueryContext_def ctx_live_def)

lemma helper_bit: "i < 2 ^ 32 \<Longrightarrow> (ucast ((word_of_nat (i div 2 ^ l) :: u64) mod 2) :: u32) = (if even (i div 2 ^ l) then 0 else 1)"
  by (simp add: u64_mod2 [OF div_pow_less])

text \<open>The answer for one commitment: its position and its true path in the prefix \<open>ls\<close>.\<close>

definition true_path :: "'a keeper_env_scheme \<Rightarrow> bytes list \<Rightarrow> nat \<Rightarrow> path_at_root" where
  "true_path env ls i =
     \<lparr>CommitmentHex = hex_of_bytes (ls ! i), LeafIndex = word_of_nat i,
      Path = map (hex_of_bytes \<circ> fst) (tree_path env ls i [0..<MerkleDepth]),
      PathHelper = map snd (tree_path env ls i [0..<MerkleDepth])\<rparr>"

lemma storedPathLoop_run:
  assumes "ctx_live q" "crypto_ok env" "tree_inv env ls s" "i < 2 ^ 32" "l + d \<le> 32"
  shows "storedPathLoop env q (word_of_nat (length ls)) [l..<l + d] (word_of_nat (i div 2 ^ l)) s =
     Inr (hex_path (tree_path env ls i [l..<l + d]))"
  using assms(5)
proof (induction d arbitrary: l)
  case (Suc d)
  let ?q = "i div 2 ^ l"
  have up: "[l..<l + Suc d] = l # [l + 1..<(l + 1) + d]" by (simp add: upt_conv_Cons)
  have sib: "getMerkleNodeOrEmpty env l (word_of_nat ?q XOR 1) (word_of_nat (length ls)) s =
      Inr (fe_bytes (tree_node env (map be_to_nat ls) l (sibling ?q)))"
    unfolding sibling_word [OF assms(4)]
    by (rule node_read [OF assms(2,3) _ sibling_less [OF assms(4)]]) (use Suc.prems in simp)
  have "(l + 1) + d \<le> 32" using Suc.prems by simp
  then have "storedPathLoop env q (word_of_nat (length ls)) [l + 1..<(l + 1) + d] (word_of_nat (i div 2 ^ (l + 1))) s =
      Inr (hex_path (tree_path env ls i [l + 1..<(l + 1) + d]))" by (rule Suc.IH)
  then show ?case
    unfolding up storedPathLoop.simps half_index [OF assms(4)] sib helper_bit [OF assms(4)]
    using assms(1) by (simp add: hex_path_def tree_path_def del: power_Suc upt_Suc)
qed (simp add: hex_path_def tree_path_def)

lemma getStoredIncrementalPath_run:
  assumes q: "ctx_live q" and ok: "crypto_ok env" and inv: "tree_inv env ls s" and i: "i < length ls"
  shows "getStoredIncrementalPathV1 env q (ls ! i) (word_of_nat (length ls)) s =
    Inr (Path (true_path env ls i), PathHelper (true_path env ls i), word_of_nat i)"
proof -
  let ?N = "word_of_nat (length ls) :: u64" and ?I = "word_of_nat i :: u64"
  have len: "length ls \<le> 2 ^ 32" by (rule tree_inv_length [OF inv])
  have N: "unat ?N = length ls" "unat ?I = i" using i len by simp_all
  have lt: "\<not> ?N \<le> ?I" using N i by (simp add: word_le_nat_alt)
  have can: "canonical_field (ls ! i)" using tree_inv_active [OF inv, of "ls ! i"] i by simp
  have path: "storedPathLoop env q ?N [0..<MerkleDepth] ?I s = Inr (hex_path (tree_path env ls i [0..<MerkleDepth]))"
    using storedPathLoop_run [OF q ok inv, of i 0 32] i len by (simp add: MerkleDepth_def)
  have leaf: "getLeafRequired ?I ?N s = Inr (ls ! i)" using getLeafRequired_ok [OF inv i] N i by simp
  show ?thesis
    using lt can index_found [OF inv i] leaf path
    by (simp add: getStoredIncrementalPathV1_def strict_canonical hex_path_def o_def case_prod_beta true_path_def)
qed

text \<open>The historical rebuild: at each level the layer is the level of the abstract tree.\<close>

definition path_prefix :: "'a keeper_env_scheme \<Rightarrow> bytes list \<Rightarrow> nat \<Rightarrow> nat \<Rightarrow> path_at_root" where
  "path_prefix env ls l i =
     \<lparr>CommitmentHex = hex_of_bytes (ls ! i), LeafIndex = word_of_nat i,
      Path = map (hex_of_bytes \<circ> fst) (tree_path env ls i [0..<l]),
      PathHelper = map snd (tree_path env ls i [0..<l])\<rparr>"

lemma path_prefix_step:
  assumes ok: "crypto_ok env" and i: "i < length ls" and len: "length ls \<le> 2 ^ 32" and l: "l < 32"
  defines "layer \<equiv> tree_layer env ls l (layer_length (length ls) l)" and "index \<equiv> (word_of_nat (i div 2 ^ l) :: u64)"
  shows "(let siblingIndex = index XOR 1;
              sibling = if siblingIndex < word_of_nat (length layer) then layer ! unat siblingIndex
                        else emptyNodeBytes env l
          in (path_prefix env ls l i)\<lparr>Path := Path (path_prefix env ls l i) @ [hex_of_bytes sibling],
               PathHelper := PathHelper (path_prefix env ls l i) @ [ucast (index mod 2)]\<rparr>) =
    path_prefix env ls (l + 1) i"
proof -
  let ?b = "sibling (i div 2 ^ l)" and ?k = "layer_length (length ls) l"
  have i32: "i < 2 ^ 32" using i len by simp
  have b: "index XOR 1 = word_of_nat ?b" unfolding index_def by (rule sibling_word [OF i32])
  have ub: "unat (word_of_nat ?b :: u64) = ?b" using sibling_less [OF i32] by (rule u64_of_nat_unat)
  have "0 < length ls" using i by linarith
  then have "?k \<le> 2 ^ (32 - l)" using layer_length_bounds [of "length ls" 32 l] len l by simp
  also have "\<dots> \<le> 2 ^ 32" by (rule power_increasing) simp_all
  finally have k: "?k \<le> 2 ^ 32" .
  have lt: "(word_of_nat ?b :: u64) < word_of_nat (length layer) \<longleftrightarrow> ?b < ?k"
    using sibling_less [OF i32] k by (simp add: layer_def tree_layer_def u64_less)
  have "(if index XOR 1 < word_of_nat (length layer) then layer ! unat (index XOR 1) else emptyNodeBytes env l) =
      fe_bytes (tree_node env (map be_to_nat ls) l ?b)"
  proof (cases "?b < ?k")
    case True
    then show ?thesis unfolding b lt ub by (simp add: layer_def tree_layer_def)
  next
    case False
    then have "?k * 2 ^ l \<le> ?b * 2 ^ l" by (intro mult_le_mono1) simp
    then have "length (map be_to_nat ls) \<le> ?b * 2 ^ l"
      using layer_length_covers [of "length ls" l] unfolding length_map by (rule order_trans [rotated])
    then show ?thesis unfolding b lt using False ok by (simp add: tree_node_empty)
  qed
  moreover have "ucast (index mod 2) = (if even (i div 2 ^ l) then 0 else 1 :: u32)"
    unfolding index_def by (rule helper_bit [OF i32])
  ultimately show ?thesis
    by (simp add: path_prefix_def tree_path_def Let_def)
qed

lemma historicalLevels_run:
  assumes q: "ctx_live q" and ok: "crypto_ok env" and can: "\<forall>c \<in> set ls. canonical_field c"
    and len: "length ls \<le> 2 ^ 32" and pos: "\<forall>i \<in> set ps. i < length ls" and "l + d \<le> 32"
  shows "historicalLevels env q [l..<l + d] (tree_layer env ls l (layer_length (length ls) l))
      (map (\<lambda>i. word_of_nat (i div 2 ^ l)) ps) (map (path_prefix env ls l) ps) =
    Inr (tree_layer env ls (l + d) (layer_length (length ls) (l + d)), map (path_prefix env ls (l + d)) ps)"
  using assms(6)
proof (induction d arbitrary: l)
  case (Suc d)
  let ?layer = "tree_layer env ls l (layer_length (length ls) l)"
  let ?f = "\<lambda>(index :: u64) p. let siblingIndex = index XOR 1;
              sibling = if siblingIndex < word_of_nat (length ?layer) then ?layer ! unat siblingIndex
                        else emptyNodeBytes env l
          in p\<lparr>Path := Path p @ [hex_of_bytes sibling], PathHelper := PathHelper p @ [ucast (index mod 2)]\<rparr>"
  have up: "[l..<l + Suc d] = l # [l + 1..<(l + 1) + d]" by (simp add: upt_conv_Cons)
  have step: "?f (word_of_nat (i div 2 ^ l)) (path_prefix env ls l i) = path_prefix env ls (l + 1) i" if "i \<in> set ps" for i
    using that pos Suc.prems by (intro path_prefix_step [OF ok _ len]) auto
  have paths: "map2 ?f (map (\<lambda>i. word_of_nat (i div 2 ^ l)) ps) (map (path_prefix env ls l) ps) =
      map (path_prefix env ls (l + 1)) ps"
    using step by (induction ps) (simp_all only: list.map zip_Cons_Cons zip.simps case_prod_conv list.set_intros, simp)
  have up_layer: "nextLayer env l ?layer = tree_layer env ls (l + 1) (layer_length (length ls) (l + 1))"
    using nextLayer_tree [OF ok can layer_length_covers] by simp
  have idx: "map (\<lambda>index. index div 2) (map (\<lambda>i. word_of_nat (i div 2 ^ l) :: u64) ps) =
      map (\<lambda>i. word_of_nat (i div 2 ^ (l + 1))) ps"
    unfolding map_map o_def by (rule map_cong [OF refl], rule half_index) (use pos len in fastforce)
  have checks: "traverseE (checkHistoricalPathQueryContext q (l + 3)) (filter even [0..<length ?layer]) =
      Inr (map (\<lambda>_. ()) (filter even [0..<length ?layer]))"
    using q by (intro traverseE_map) simp
  have "(l + 1) + d \<le> 32" using Suc.prems by simp
  note IH = Suc.IH [OF this]
  have "l + Suc d = (l + 1) + d" by simp
  then show ?case
    unfolding up historicalLevels.simps paths checks Let_def [where s = "map2 ?f _ _"] bindE_Inr up_layer idx
    using IH by (simp only: Let_def)
qed simp

lemma historicalLookup_run:
  assumes inv: "tree_inv env ls s" and i: "i < j" "j \<le> length ls"
  shows "historicalLookup (word_of_nat j) (take j ls) s (ls ! i) = Inr (word_of_nat i)"
proof -
  have "unat (word_of_nat j :: u64) = j" "unat (word_of_nat i :: u64) = i"
    using u64_count [OF inv] i by simp_all
  moreover have "canonical_field (ls ! i)" using tree_inv_active [OF inv, of "ls ! i"] i by simp
  ultimately show ?thesis
    using index_found [OF inv, of i] i by (simp add: historicalLookup_def strict_canonical word_le_nat_alt)
qed

lemma stored_paths_run:
  assumes "ctx_live q" "crypto_ok env" "tree_inv env ls s" "\<forall>i \<in> set ps. i < length ls"
  shows "traverseE (\<lambda>commitment.
         bindE (getStoredIncrementalPathV1 env q commitment (word_of_nat (length ls)) s) (\<lambda>(path, helper, leafIndex).
         Inr \<lparr>CommitmentHex = hex_of_bytes commitment, LeafIndex = leafIndex, Path = path, PathHelper = helper\<rparr>))
       (map (\<lambda>i. ls ! i) ps) = Inr (map (true_path env ls) ps)"
  using assms(4) getStoredIncrementalPath_run [OF assms(1-3)]
  by (induction ps) (simp_all add: true_path_def)

lemma historical_lookups_run:
  assumes "tree_inv env ls s" "j \<le> length ls" "\<forall>i \<in> set ps. i < j"
  shows "traverseE (historicalLookup (word_of_nat j) (take j ls) s) (map (\<lambda>i. ls ! i) ps) = Inr (map word_of_nat ps)"
    and "map2 (\<lambda>commitment leafIndex. \<lparr>CommitmentHex = hex_of_bytes commitment, LeafIndex = leafIndex, Path = [], PathHelper = []\<rparr>)
        (map (\<lambda>i. ls ! i) ps) (map word_of_nat ps) = map (path_prefix env (take j ls) 0) ps"
  using assms(3) historicalLookup_run [OF assms(1) _ assms(2)]
  by (induction ps) (simp_all add: path_prefix_def tree_path_def)

lemma historical_levels_root:
  assumes q: "ctx_live q" and ok: "crypto_ok env" and can: "\<forall>c \<in> set ls. canonical_field c"
    and len: "ls \<noteq> []" "length ls \<le> 2 ^ 32" and ps: "\<forall>i \<in> set ps. i < length ls"
  shows "historicalLevels env q [0..<MerkleDepth] ls (map word_of_nat ps) (map (path_prefix env ls 0) ps) =
      Inr ([root_bytes env ls], map (true_path env ls) ps)"
proof -
  have "historicalLevels env q [0..<0 + 32] (tree_layer env ls 0 (layer_length (length ls) 0))
        (map (\<lambda>i. word_of_nat (i div 2 ^ 0)) ps) (map (path_prefix env ls 0) ps) =
      Inr (tree_layer env ls (0 + 32) (layer_length (length ls) (0 + 32)), map (path_prefix env ls (0 + 32)) ps)"
    by (rule historicalLevels_run [OF q ok can len(2) ps]) simp
  then show ?thesis
    using fold_layers_root [OF ok can len] fold_layers [OF ok can, of 32] leaf_layer [OF can, of env]
    by (simp add: MerkleDepth_def true_path_def [abs_def] path_prefix_def [abs_def])
qed

text \<open>The query returns the true paths of all its commitments in the requested prefix. \<open>ps\<close> are
  the positions of the commitments; the prefix is the current tree or is short enough to rebuild.\<close>

lemma paths_at_root_run:
  assumes q: "ctx_live q" "slots_configured q" "slot_answer q = Inr ()"
    and ok: "crypto_ok env" and inv: "tree_inv env ls s"
    and j: "0 < j" "j \<le> length ls" "j = length ls \<or> j \<le> 1024"
    and ps: "ps \<noteq> []" "length ps \<le> 16" "distinct ps" "\<forall>i \<in> set ps. i < j"
  shows "\<exists>h. is_height h \<and>
     GetCommitmentPathsAtRootV1 env q (map (\<lambda>i. ls ! i) ps) (root_bytes env (take j ls)) 0 s =
       Inr (map (true_path env (take j ls)) ps,
            \<lparr>snap_root = root_bytes env (take j ls), snap_leaf_count = word_of_nat j, snap_height = h\<rparr>)"
proof -
  let ?r = "root_bytes env (take j ls)" and ?cs = "map (\<lambda>i. ls ! i) ps" and ?J = "word_of_nat j :: u64"
  have len: "length ls \<le> 2 ^ 32" by (rule tree_inv_length [OF inv])
  have can: "\<forall>c \<in> set (take j ls). canonical_field c" by (rule take_canonical [OF inv])
  have r: "canonical_field ?r" using ok(1) can by (intro root_bytes_canonical)
  obtain h where h: "is_height h"
    "GetMerkleRootSnapshotV1 env ?r s = Inr (Some \<lparr>snap_root = ?r, snap_leaf_count = ?J, snap_height = h\<rparr>)"
    using GetMerkleRootSnapshot_run [OF ok inv j(1,2)] by blast
  have "distinct ls" using inv by (simp add: tree_inv_def tree_leaves_def)
  then have "inj_on (\<lambda>i. ls ! i) (set ps)"
    using ps(4) j(2) by (intro inj_onI) (metis less_le_trans nth_eq_iff_index_eq)
  then have cs: "ValidateDistinctCanonicalFieldElements ''path commitment'' ?cs = Inr ()"
    using ps j(2) tree_inv_active [OF inv] by (auto simp: distinct_map)
  have root: "GetMerkleNode MerkleDepth 0 s = Some (root_bytes env ls)"
    using tree_inv_root [OF inv] j by (cases ls) (simp_all add: GetMerkleNode_def rootKey_def)
  have J: "unat ?J = j" by (rule u64_count [OF inv j(2)])
  note common = h r cs root GetLeafCount_ok [OF inv] ps(1,2) q(1) J
  show ?thesis
  proof (cases "j = length ls")
    case True
    with common stored_paths_run [OF q(1) ok(1) inv, of ps] ps(4) show ?thesis
      by (intro exI [of _ h]) (simp add: GetCommitmentPathsAtRootV1_def MaxCommitmentPathSnapshotQuery_def strict_canonical)
  next
    case False
    with j(3) have small: "j \<le> 1024" by simp
    have ne: "?J \<noteq> word_of_nat (length ls)" using False j len by (subst u64_of_nat_inj) auto
    have cnt: "validateHistoricalPathQueryRebuildCount ?J = Inr ()"
      using small J by (simp add: validateHistoricalPathQueryRebuildCount_def validateMerkleLeafCount_def
          MaxMerkleLeaves_def MaxHistoricalPathQueryRebuildLeaves_def word_less_nat_alt)
    have slot: "acquireHistoricalPathQueryRebuild q = Inr ()" using q by (simp add: acquireHistoricalPathQueryRebuild_def)
    have lev: "historicalLevels env q [0..<MerkleDepth] (take j ls) (map word_of_nat ps) (map (path_prefix env (take j ls) 0) ps) =
        Inr ([?r], map (true_path env (take j ls)) ps)"
      using j len ps(4) by (intro historical_levels_root [OF q(1) ok(1) can]) auto
    show ?thesis
      using common ne cnt slot leaf_traverse [OF inv j(2)] historical_lookups_run [OF inv j(2) ps(4)] lev
      by (intro exI [of _ h]) (simp add: GetCommitmentPathsAtRootV1_def MaxCommitmentPathSnapshotQuery_def strict_canonical)
  qed
qed

text \<open>Audit mode: the genesis import of snapshots is refused before it looks at anything.\<close>

lemma init_snapshots_audit:
  "audit_on env \<Longrightarrow> InitGenesisMerkleRootSnapshotsV1 env snapshots s =
     (Inl (Errorf ''legacy state mutation is disabled''), s)"
  by (simp add: InitGenesisMerkleRootSnapshotsV1_def bindM_run guardE_def)

end
