(* ===== verification/Sample_Config.thy ===== *)
theory Sample_Config
  imports Merkle_Tree
begin

text \<open>
  A concrete configuration on which the properties with hypotheses are applied: a digest that is
  always the field element 7, with the proof that it meets \<open>crypto_ok\<close>; two commitments.
\<close>

definition sample_digest :: "bytes \<Rightarrow> bytes" where
  "sample_digest bs = be_of_nat 32 7"

text \<open>A curve of the points \<open>(0, y)\<close> with \<open>y > 0\<close>, where \<open>(0, 1)\<close> is the identity and every point has order one or two, written as the bytes of \<open>y\<close>.\<close>

definition sample_env :: "bool \<Rightarrow> keeper_env" where
  "sample_env audit = \<lparr>mimc_sum = sample_digest,
     te_on_curve = (\<lambda>(x, y). x = 0 \<and> 0 < y), te_is_zero = (\<lambda>p. p = (0, 1)), te_scalar_mul = (\<lambda>p n. if even n then (0, 1) else p), te_order = 2,
     te_set_bytes = (\<lambda>bs. Some (0, be_to_nat bs)), te_bytes = (\<lambda>(x, y). be_of_nat 32 y),
     bech32_encode = (\<lambda>h bs. Some (h @ map (\<lambda>b. char_of (unat b)) bs)), bech32_decode = (\<lambda>s. Some (take 6 s, map of_char (drop 6 s))),
     audit_on = audit\<rparr>"

definition sample_c1 :: bytes where "sample_c1 = replicate 31 0 @ [1]"
definition sample_c2 :: bytes where "sample_c2 = replicate 31 0 @ [2]"

lemma sample_audit [simp]: "audit_on (sample_env a) = a"
  by (simp add: sample_env_def)

lemma sample_crypto [simp]: "crypto_ok (sample_env a)"
proof -
  have "be_to_nat (be_of_nat 32 7) = 7" by (subst be_to_nat_be_of_nat) simp
  then show ?thesis by (simp add: crypto_ok_def sample_env_def sample_digest_def canonical_field_def fr_modulus_def)
qed

lemma sample_active [simp]: "active_field sample_c1" "active_field sample_c2"
proof -
  have "replicate 32 (0 :: byte) = replicate 31 0 @ [0]" using replicate_add [of 31 1 "0 :: byte"] by simp
  then show "active_field sample_c1" "active_field sample_c2"
    by (simp_all add: active_field_def canonical_field_def sample_c1_def sample_c2_def fr_modulus_def be_to_nat_replicate0
        del: replicate_Suc)
qed

lemma sample_distinct [simp]: "sample_c1 \<noteq> sample_c2" "sample_c2 \<noteq> sample_c1"
  by (simp_all add: sample_c1_def sample_c2_def)

end
