(* ===== verification/Merkle_Theorems.thy ===== *)
theory Merkle_Theorems
  imports Path_Snapshot Sample_Config
begin

text \<open>
  The results about the commitment tree: the contract of an accumulator and the tree as an instance
  of it, the repair of a lost node cache, the binding of a root to its leaves, and the properties of
  \<^verbatim>\<open>tree.go\<close> and \<^verbatim>\<open>path_snapshot.go\<close> with their instances on a concrete configuration.
\<close>

section \<open>Accumulators\<close>

text \<open>Operations that extend a sequence one element at a time. A client may assume that a
  successful step appends its element to the abstract sequence.\<close>

locale accumulator =
  fixes step :: "'x \<Rightarrow> ('s, unit) action"
    and inv :: "'x list \<Rightarrow> 's \<Rightarrow> bool"
    and may :: "'x list \<Rightarrow> 'x \<Rightarrow> bool"
  assumes step_ok: "inv xs s \<Longrightarrow> step x s = (Inr (), t) \<Longrightarrow> inv (xs @ [x]) t \<and> may xs x"
    and step_may: "inv xs s \<Longrightarrow> may xs x \<Longrightarrow> \<exists>t. step x s = (Inr (), t)"
begin

lemma steps_ok: "inv xs s \<Longrightarrow> forM ys step s = (Inr (), t) \<Longrightarrow> inv (xs @ ys) t"
proof (induction ys arbitrary: xs s)
  case (Cons y ys)
  then obtain u where "step y s = (Inr (), u)" "forM ys step u = (Inr (), t)" by auto
  moreover from this have "inv (xs @ [y]) u" using step_ok Cons.prems(1) by blast
  ultimately show ?case using Cons.IH [of "xs @ [y]" u] by simp
qed simp

lemma steps_may:
  "inv xs s \<Longrightarrow> \<forall>i < length ys. may (xs @ take i ys) (ys ! i) \<Longrightarrow> \<exists>t. forM ys step s = (Inr (), t)"
proof (induction ys arbitrary: xs s)
  case (Cons y ys)
  from Cons.prems(2) have "may xs y" by (auto dest: spec [of _ 0])
  then obtain u where u: "step y s = (Inr (), u)" using step_may Cons.prems(1) by blast
  then have "inv (xs @ [y]) u" using step_ok Cons.prems(1) by blast
  moreover have "\<forall>i < length ys. may ((xs @ [y]) @ take i ys) (ys ! i)"
    using Cons.prems(2) by (auto dest: spec [of _ "Suc i" for i])
  ultimately show ?case using Cons.IH u by fastforce
qed simp

end

definition tree_state :: "'a keeper_env_scheme \<Rightarrow> int \<Rightarrow> bytes list \<Rightarrow> store \<Rightarrow> bool" where
  "tree_state env h ls s = (crypto_ok env \<and> is_height h \<and> tree_inv env ls s)"

definition can_append :: "'a keeper_env_scheme \<Rightarrow> bytes list \<Rightarrow> bytes \<Rightarrow> bool" where
  "can_append env ls c = (active_field c \<and> c \<notin> set ls \<and> length ls < 2 ^ 32 \<and> fresh_root env ls c)"

text \<open>At every block height the commitment tree is an accumulator.\<close>

interpretation block_tree: accumulator "appendCommitment env h" "tree_state env h" "can_append env" for env h
proof
  fix xs x s t
  assume inv: "tree_state env h xs s"
  then have ok: "crypto_ok env" "tree_inv env xs s" by (auto simp: tree_state_def)
  note iff = append_ok_iff [OF ok, of h x]
  { assume "appendCommitment env h x s = (Inr (), t)"
    with iff inv append_inv [OF ok] show "tree_state env h (xs @ [x]) t \<and> can_append env xs x"
      by (auto simp: tree_state_def can_append_def is_height_def) }
  { assume "can_append env xs x"
    with iff inv show "\<exists>t. appendCommitment env h x s = (Inr (), t)"
      by (auto simp: can_append_def tree_state_def is_height_def) }
qed

section \<open>Repair\<close>

text \<open>The part of the invariant that the repair loop relies on and the part that it rebuilds.\<close>

definition leaves_inv :: "'a keeper_env_scheme \<Rightarrow> bytes list \<Rightarrow> store \<Rightarrow> bool" where
  "leaves_inv env ls s = (tree_leaves ls s \<and> tree_roots env ls s \<and>
     (\<forall>c. c \<notin> set ls \<longrightarrow> kv_get s (GetCommitmentIndexKey c) = None))"

definition repaired :: "'a keeper_env_scheme \<Rightarrow> bytes list \<Rightarrow> nat \<Rightarrow> store \<Rightarrow> bool" where
  "repaired env ls n s =
     (tree_nodes env (take n ls) s \<and>
      (\<forall>i < n. kv_get s (GetCommitmentIndexKey (ls ! i)) = Some (be64 (word_of_nat i))))"

lemma repaired_done: "leaves_inv env ls s \<Longrightarrow> repaired env ls (length ls) s \<Longrightarrow> tree_inv env ls s"
  by (simp add: leaves_inv_def repaired_def tree_inv_def tree_index_def)

text \<open>The writes of one round of the repair: those of an append, without the leaf.\<close>

definition repair_nodes :: "'a keeper_env_scheme \<Rightarrow> bytes list \<Rightarrow> nat \<Rightarrow> store \<Rightarrow> store" where
  "repair_nodes env ls n s =
     append_nodes env (take n ls) (ls ! n) s"

lemma kv_set_same: "kv_wf s \<Longrightarrow> kv_get s k = Some v \<Longrightarrow> kv_set k v s = s"
proof (induction k v s rule: kv_set.induct)
  case (2 k v k' v' s)
  show ?case
  proof (cases "k = k'")
    case False
    with 2(3) have get: "kv_get s k = Some v" by (simp add: kv_get_def)
    from 2(2) have "kv_wf s" "\<forall>x \<in> set s. k' < fst x" by (auto simp: kv_wf_def)
    moreover have "k \<in> fst ` set s" using get by (metis kv_get_def domI dom_map_of_conv_image_fst)
    ultimately have "\<not> k < k'" by fastforce
    with False 2(1) get \<open>kv_wf s\<close> show ?thesis by simp
  qed (use 2 in \<open>simp add: kv_get_def\<close>)
qed (simp add: kv_get_def)

lemma repair_step:
  assumes ok: "crypto_ok env" and wf: "kv_wf s" and inv: "leaves_inv env ls s" "repaired env ls n s" and n: "n < length ls"
  defines "t \<equiv> repair_nodes env ls n s"
  shows "bindM (readM (getLeafRequired (word_of_nat n) (word_of_nat (length ls)))) (\<lambda>leaf.
     bindM (setCommitmentIndex leaf (word_of_nat n)) (\<lambda>_.
     bindM (setMerkleNode 0 (word_of_nat n) leaf) (\<lambda>_.
     climb env (word_of_nat (length ls)) [0..<MerkleDepth] (word_of_nat n) leaf))) s =
     (Inr (root_bytes env (take (n + 1) ls)), t)"
proof -
  have lv: "tree_leaves ls s" using inv(1) by (simp add: leaves_inv_def)
  then have len: "length ls \<le> 2 ^ 32" and act: "active_field (ls ! n)"
      and leaf: "kv_get s (LeafKey (word_of_nat n)) = Some (ls ! n)"
      and can: "\<forall>c \<in> set (take n ls). canonical_field c"
    using n by (auto simp: tree_leaves_def dest: in_set_takeD)
  have N: "unat (word_of_nat (length ls) :: u64) = length ls" "unat (word_of_nat n :: u64) = n" using len n by simp_all
  have get: "getLeafRequired (word_of_nat n) (word_of_nat (length ls)) s = Inr (ls ! n)"
    using leaf act N n by (auto simp: getLeafRequired_def guardE_def word_le_nat_alt strict_canonical dest!: active_canonical canonical_length)
  have "length (take n ls) = n" using n by simp
  moreover have "kv_set (LeafKey (word_of_nat n)) (ls ! n) s = s" using wf leaf by (rule kv_set_same)
  moreover have "tree_nodes env (take n ls) s" using inv(2) by (simp add: repaired_def)
  ultimately have "climb env (word_of_nat (length ls)) [0..<32] (word_of_nat n) (ls ! n)
      (kv_set (node_key 0 n) (ls ! n) (kv_set (GetCommitmentIndexKey (ls ! n)) (be64 (word_of_nat n)) s)) =
      (Inr (root_bytes env (take n ls @ [ls ! n])), t)"
    using append_climb [OF ok _ can, of s "ls ! n" "word_of_nat (length ls)"] act n len N
    by (simp add: t_def repair_nodes_def)
  then show ?thesis
    using get act n by (simp add: bindM_run setCommitmentIndex_def setMerkleNode_def MerkleDepth_def node_key_def
      take_Suc_conv_app_nth)
qed

lemma repair_keeps:
  assumes inv: "leaves_inv env ls s" "repaired env ls n s" and wf: "kv_wf s" and n: "n < length ls"
  shows "leaves_inv env ls (repair_nodes env ls n s)" "repaired env ls (n + 1) (repair_nodes env ls n s)"
    "kv_wf (repair_nodes env ls n s)"
proof -
  let ?t = "repair_nodes env ls n s"
  have tk: "length (take n ls) = n" "take (n + 1) ls = take n ls @ [ls ! n]"
    using n by (simp_all add: take_Suc_conv_app_nth)
  have lv: "tree_leaves ls s" using inv(1) by (simp add: leaves_inv_def)
  then have len: "length ls \<le> 2 ^ 32" and can: "canonical_field (ls ! n)" and ds: "distinct ls"
      and leaf: "kv_get s (LeafKey (word_of_nat n)) = Some (ls ! n)"
    using n by (auto simp: tree_leaves_def)
  have same: "kv_get ?t (GetHistoricalRootKey r) = kv_get s (GetHistoricalRootKey r)"
      "kv_get ?t (GetMerkleRootSnapshotKey r) = kv_get s (GetMerkleRootSnapshotKey r)"
      "kv_get ?t LeafCountKey = kv_get s LeafCountKey" "kv_get ?t (LeafKey j) = kv_get s (LeafKey j)"
      "kv_get ?t (GetCommitmentIndexKey c) = (if c = ls ! n then Some (be64 (word_of_nat n)) else kv_get s (GetCommitmentIndexKey c))" for r j c
    using leaf tk(1) by (auto simp add: repair_nodes_def append_nodes_other simp del: length_take)
  have "tree_leaves ls ?t" using lv getLeafCountStrict_cong [OF same(3)] by (simp add: tree_leaves_def same)
  moreover have "tree_roots env ls ?t" using inv(1) by (simp add: leaves_inv_def tree_roots_def kv_has_def same)
  ultimately show "leaves_inv env ls ?t" using inv(1) n by (auto simp: leaves_inv_def same)
  have "tree_nodes env (take n ls) s" using inv(2) by (simp add: repaired_def)
  then have "tree_nodes env (take (n + 1) ls) ?t"
    using append_nodes_node [OF _ can, of env "take n ls" s] n len
    unfolding tk(2) by (simp add: tree_nodes_def repair_nodes_def node_key_def MerkleDepth_def)
  moreover have "kv_get ?t (GetCommitmentIndexKey (ls ! i)) = Some (be64 (word_of_nat i))" if "i < n + 1" for i
    using that inv(2) ds n by (cases "i = n") (auto simp: same repaired_def nth_eq_iff_index_eq)
  ultimately show "repaired env ls (n + 1) ?t" by (simp add: repaired_def)
  show "kv_wf ?t" using wf by (simp add: repair_nodes_def append_nodes_def)
qed

lemma rebuild_run:
  assumes ok: "crypto_ok env" and "n + d = length ls" "leaves_inv env ls s" "repaired env ls n s" "kv_wf s"
  shows "\<exists>t. rebuildLeaves env (word_of_nat (length ls)) [n..<n + d] s = (Inr (), t) \<and> tree_inv env ls t \<and> kv_wf t"
  using assms(2-)
proof (induction d arbitrary: n s)
  case 0
  then show ?case using repaired_done by auto
next
  case (Suc d)
  have n: "n < length ls" using Suc.prems(1) by simp
  let ?t = "repair_nodes env ls n s"
  have up: "[n..<n + Suc d] = n # [n + 1..<(n + 1) + d]" by (simp add: upt_conv_Cons)
  have "\<exists>t. rebuildLeaves env (word_of_nat (length ls)) [n + 1..<(n + 1) + d] ?t = (Inr (), t) \<and> tree_inv env ls t \<and> kv_wf t"
    using Suc.prems n by (intro Suc.IH repair_keeps) simp_all
  with repair_step [OF ok Suc.prems(4,2,3) n] show ?case
    unfolding up rebuildLeaves.simps by (auto simp del: upt_Suc)
qed

text \<open>A tree whose cached root is gone is rebuilt from its leaves.\<close>

lemma repair_run:
  assumes ok: "crypto_ok env" "\<not> audit_on env" and inv: "leaves_inv env ls s" "kv_wf s"
    and len: "length ls \<le> 2 ^ 20" and lost: "kv_get s rootKey = None"
  shows "\<exists>t. ensureIncrementalTreeState env s = (Inr (), t) \<and> tree_inv env ls t \<and> kv_wf t"
proof (cases "ls = []")
  case True
  then have "getLeafCountStrict s = Inr 0" using inv(1) by (simp add: leaves_inv_def tree_leaves_def)
  then have "ensureIncrementalTreeState env s = (Inr (), s)"
    by (simp add: ensureIncrementalTreeState_def validateMerkleCachedRootOrSmallRebuild_def validateMerkleLeafCount_def bindM_run)
  moreover have "tree_inv env ls s" using True inv(1) by (intro repaired_done) (simp_all add: repaired_def tree_nodes_def)
  ultimately show ?thesis using inv(2) by simp
next
  case False
  have cnt: "getLeafCountStrict s = Inr (word_of_nat (length ls))"
    using inv(1) by (simp add: leaves_inv_def tree_leaves_def)
  have l32: "length ls \<le> 2 ^ 32" using len by simp
  then have N: "unat (word_of_nat (length ls) :: u64) = length ls" by simp
  have "validateMerkleCachedRootOrSmallRebuild env (word_of_nat (length ls)) s = Inr ()"
    using ok(2) lost len N l32 by (auto simp: validateMerkleCachedRootOrSmallRebuild_def kv_has_def validateMerkleRebuildCount_def
        count_valid MaxMerkleRebuildLeaves_def word_less_nat_alt)
  moreover have "(word_of_nat (length ls) :: u64) \<noteq> 0" using False l32 by (simp add: count_zero_iff)
  moreover have "\<exists>t. rebuildLeaves env (word_of_nat (length ls)) [0..<0 + length ls] s = (Inr (), t) \<and> tree_inv env ls t \<and> kv_wf t"
    using inv by (intro rebuild_run [OF ok(1)]) (simp_all add: repaired_def tree_nodes_def)
  ultimately show ?thesis
    using cnt lost N by (auto simp: ensureIncrementalTreeState_def kv_has_def bindM_run)
qed

section \<open>Binding\<close>

text \<open>A place where two trees have the same MiMC digest of different inputs. The inputs are written out: the domain tag, the level and the two children.\<close>

definition node_input :: "'a keeper_env_scheme \<Rightarrow> nat list \<Rightarrow> nat \<Rightarrow> nat \<Rightarrow> nat list" where
  "node_input env vs l i = [DomainFieldV1 ''clairveil.note-tree-node.v1'', l, tree_node env vs l (2 * i), tree_node env vs l (2 * i + 1)]"

definition tree_collision :: "'a keeper_env_scheme \<Rightarrow> nat list \<Rightarrow> nat list \<Rightarrow> bool" where
  "tree_collision env vs ws =
     (\<exists>l < MerkleDepth. \<exists>i. node_input env vs l i \<noteq> node_input env ws l i \<and> MimcHash env (node_input env vs l i) = MimcHash env (node_input env ws l i))"

lemma children_equal:
  assumes "\<not> tree_collision env vs ws" "tree_node env vs (Suc l) i = tree_node env ws (Suc l) i" "l < MerkleDepth"
  shows "tree_node env vs l (2 * i) = tree_node env ws l (2 * i)" "tree_node env vs l (2 * i + 1) = tree_node env ws l (2 * i + 1)"
proof -
  have "MimcHash env (node_input env vs l i) = MimcHash env (node_input env ws l i)" using assms(2) by (simp add: node_input_def ComputeNoteTreeNodeV1_def)
  then have "node_input env vs l i = node_input env ws l i" using assms(1,3) by (auto simp: tree_collision_def)
  then show "tree_node env vs l (2 * i) = tree_node env ws l (2 * i)" "tree_node env vs l (2 * i + 1) = tree_node env ws l (2 * i + 1)"
    by (simp_all add: node_input_def)
qed

definition leaf_at :: "nat list \<Rightarrow> nat \<Rightarrow> nat" where
  "leaf_at vs i = (if i < length vs then vs ! i else 0)"

lemma node_binding:
  assumes "\<not> tree_collision env vs ws" "tree_node env vs l i = tree_node env ws l i"
    "i * 2 ^ l \<le> j" "j < (i + 1) * 2 ^ l" "l \<le> MerkleDepth"
  shows "leaf_at vs j = leaf_at ws j"
  using assms(2-)
proof (induction l arbitrary: i)
  case 0
  then have "j = i" by simp
  with 0 show ?case by (simp add: leaf_at_def)
next
  case (Suc l)
  have "l < MerkleDepth" using Suc.prems(4) by simp
  note eq = children_equal [OF assms(1) Suc.prems(1) this]
  show ?case
  proof (cases "j < (2 * i + 1) * 2 ^ l")
    case True
    then show ?thesis using Suc.IH [OF eq(1)] Suc.prems(2,4) by (simp add: algebra_simps)
  next
    case False
    then show ?thesis using Suc.IH [OF eq(2)] Suc.prems(3,4) by (simp add: algebra_simps)
  qed
qed

lemma active_nonzero: "active_field c \<Longrightarrow> be_to_nat c \<noteq> 0"
  using be_to_nat_inj [of c "replicate 32 0"] by (auto simp: active_field_def be_to_nat_replicate0)

text \<open>Lists of non-zero values are determined by their zero-padded leaves.\<close>

lemma leaves_determine:
  assumes "0 \<notin> set vs" "0 \<notin> set ws" "length vs \<le> n" "length ws \<le> n" "\<And>j. j < n \<Longrightarrow> leaf_at vs j = leaf_at ws j"
  shows "vs = ws"
proof -
  have le: "length xs \<le> length ys"
    if "0 \<notin> set xs" "length xs \<le> n" "\<And>j. j < n \<Longrightarrow> leaf_at xs j = leaf_at ys j" for xs ys
  proof (rule ccontr)
    assume "\<not> length xs \<le> length ys"
    then have "length ys < length xs" by simp
    with that(2) have "leaf_at xs (length ys) = leaf_at ys (length ys)" by (intro that(3)) simp
    with \<open>length ys < length xs\<close> have "xs ! length ys = 0" by (simp add: leaf_at_def)
    with \<open>length ys < length xs\<close> that(1) show False by (metis nth_mem)
  qed
  have "length vs = length ws" using le [OF assms(1,3,5)] le [OF assms(2,4) assms(5) [symmetric]] by simp
  then show ?thesis
  proof (rule nth_equalityI)
    fix i assume "i < length vs"
    then show "vs ! i = ws ! i" using assms(3) assms(5) [of i] \<open>length vs = length ws\<close> by (simp add: leaf_at_def)
  qed
qed

lemma root_binding:
  assumes ok: "crypto_ok env" and act: "\<forall>c \<in> set ls. active_field c" "\<forall>c \<in> set ms. active_field c"
    and len: "length ls \<le> 2 ^ 32" "length ms \<le> 2 ^ 32" and eq: "root_bytes env ls = root_bytes env ms"
  shows "ls = ms \<or> tree_collision env (map be_to_nat ls) (map be_to_nat ms)"
proof (rule disjCI)
  let ?v = "map be_to_nat ls" and ?w = "map be_to_nat ms"
  assume free: "\<not> tree_collision env ?v ?w"
  have less: "\<forall>v \<in> set ?v. v < fr_modulus" "\<forall>v \<in> set ?w. v < fr_modulus"
    using act by (auto intro: canonical_value_less)
  then have "tree_node env ?v 32 0 = tree_node env ?w 32 0"
    using eq fe_bytes_inj [OF tree_node_less [OF ok less(1)] tree_node_less [OF ok less(2)]]
    by (simp add: root_bytes_def tree_root_def MerkleDepth_def)
  then have "leaf_at ?v j = leaf_at ?w j" if "j < 2 ^ 32" for j
    using that by (intro node_binding [OF free]) (auto simp: MerkleDepth_def)
  moreover have "0 \<notin> set ?v" "0 \<notin> set ?w" using act active_nonzero by force+
  ultimately have "?v = ?w" using len by (intro leaves_determine [where n = "2 ^ 32"]) auto
  moreover have "inj_on be_to_nat (set ls \<union> set ms)"
    using act by (intro inj_onI) (metis UnE active_canonical fe_bytes_be_to_nat)
  ultimately show "ls = ms" by (simp add: inj_on_map_eq_map)
qed

lemma stored_root: "tree_inv env ls s \<Longrightarrow> ls \<noteq> [] \<Longrightarrow> GetMerkleNode MerkleDepth 0 s = Some (root_bytes env ls)"
  unfolding tree_inv_def tree_nodes_def root_bytes_def tree_root_def GetMerkleNode_def by (metis length_greater_0_conv mult_0 of_nat_0 order_refl)

section \<open>Properties of the commitment tree\<close>

text \<open>C18. An append of a commitment to a store that represents the leaves \<open>ls\<close> succeeds exactly for a
  non-zero canonical field element that is not yet a leaf, in a tree that is not full, at a non-negative
  height and with a root that the tree has not had before; the store it then leaves represents the
  leaves extended by the commitment.\<close>

theorem append_correct:
  assumes "crypto_ok env" "tree_inv env ls s" "h < 2 ^ 63"
  shows "case appendCommitment env h c s of
      (Inr _, t) \<Rightarrow> active_field c \<and> c \<notin> set ls \<and> length ls < 2 ^ 32 \<and> 0 \<le> h \<and> fresh_root env ls c \<and>
        tree_inv env (ls @ [c]) t
    | (Inl _, _) \<Rightarrow> \<not> (active_field c \<and> c \<notin> set ls \<and> length ls < 2 ^ 32 \<and> 0 \<le> h \<and> fresh_root env ls c)"
proof (cases "\<exists>t. appendCommitment env h c s = (Inr (), t)")
  case True
  then obtain t where "appendCommitment env h c s = (Inr (), t)" ..
  then show ?thesis using append_ok_iff [OF assms(1,2), of h c t] append_inv [OF assms, of c t] by simp
next
  case False
  then obtain e t where "appendCommitment env h c s = (Inl e, t)"
    by (cases "appendCommitment env h c s", cases "fst (appendCommitment env h c s)") auto
  with False show ?thesis using append_ok_iff [OF assms(1,2), of h c "append_state env h ls c s"] by simp
qed

lemma sample_fresh: "fresh_root env [] c"
  by (simp add: fresh_root_def)

theorem append_correct_witness:
  "\<exists>t. appendCommitment (sample_env False) 5 sample_c1 [] = (Inr (), t) \<and> tree_inv (sample_env False) [sample_c1] t"
  using append_correct [of "sample_env False" "[]" "[]" 5 sample_c1] sample_fresh [of "sample_env False" sample_c1]
  by (cases "appendCommitment (sample_env False) 5 sample_c1 []") (auto split: sum.splits)

text \<open>A store with one leaf, for the instances below.\<close>

definition sample_store :: store where
  "sample_store = append_state (sample_env False) 5 [] sample_c1 []"

lemma sample_store_inv: "tree_inv (sample_env False) [sample_c1] sample_store"
proof -
  have "tree_inv (sample_env False) ([] @ [sample_c1]) sample_store"
    unfolding sample_store_def by (rule append_state_inv) (simp_all add: sample_fresh is_height_def)
  then show ?thesis by simp
qed

text \<open>Appending a sequence of commitments keeps the representation: if the loop over \<open>cs\<close> returns
  without an error, the store represents the old leaves followed by \<open>cs\<close>, and it does return so
  whenever each of them may be appended in turn.\<close>

lemma append_many:
  assumes "tree_state env h ls s"
  shows "case forM cs (appendCommitment env h) s of
      (Inr _, t) \<Rightarrow> tree_state env h (ls @ cs) t
    | (Inl _, _) \<Rightarrow> \<exists>i < length cs. \<not> can_append env (ls @ take i cs) (cs ! i)"
proof (cases "\<exists>t. forM cs (appendCommitment env h) s = (Inr (), t)")
  case True
  then obtain t where "forM cs (appendCommitment env h) s = (Inr (), t)" ..
  with block_tree.steps_ok [OF assms this] show ?thesis by simp
next
  case False
  then obtain e t where "forM cs (appendCommitment env h) s = (Inl e, t)"
    by (cases "forM cs (appendCommitment env h) s", cases "fst (forM cs (appendCommitment env h) s)") auto
  with False block_tree.steps_may [OF assms, of cs] show ?thesis by auto
qed

text \<open>The refusals of an append name their cause and leave the store as it was: a duplicate, the
  zero commitment, a full tree, a byte string that is not a canonical field element.\<close>

lemma append_refusals:
  assumes "tree_inv env ls s"
  shows "(c \<in> set ls \<longrightarrow> appendCommitment env h c s = (Inl ErrMerkleDuplicateCommitment, s)) \<and>
      appendCommitment env h (replicate 32 0) s = (Inl ErrMerkleZeroCommitment, s) \<and>
      (active_field c \<and> c \<notin> set ls \<and> length ls = 2 ^ 32 \<longrightarrow>
        appendCommitment env h c s = (Inl ErrMerkleTreeCapacity, s)) \<and>
      (\<not> canonical_field c \<longrightarrow> (\<exists>e. appendCommitment env h c s = (Inl e, s)))"
  using append_duplicate [OF assms, of c h] append_zero [of env h s] append_full [OF assms, of c h]
    append_noncanonical [of c env h s] by blast


text \<open>C19. \<^verbatim>\<open>GetPath\<close> of a leaf writes nothing and returns 32 siblings with their position bits that, folded
  the way the circuits fold them, lead from the commitment to the root it returns, which is the root
  of the tree over all the leaves; for any other field element it reports that there is none.\<close>

theorem GetPath_verifies:
  assumes "crypto_ok env" "tree_inv env ls s" "canonical_field c"
  shows "if c \<in> set ls then
      \<exists>path. GetPath env c s = (Inr (map (hex_of_bytes \<circ> fst) path, map snd path, root_bytes env ls), s) \<and>
        length path = MerkleDepth \<and> path_root env 0 c path = root_bytes env ls
    else GetPath env c s = (Inl ErrMerkleCommitmentNotFound, s)"
proof (cases "c \<in> set ls")
  case True
  then obtain i where i: "i < length ls" "c = ls ! i" by (metis in_set_conv_nth)
  let ?p = "tree_path env ls i [0..<MerkleDepth]"
  have can: "\<forall>c \<in> set ls. canonical_field c" by (rule tree_inv_canonical [OF assms(2)])
  have "i div 2 ^ 32 = 0" using i tree_inv_length [OF assms(2)] by simp
  then have "path_root env 0 c ?p = root_bytes env ls"
    using tree_path_root [OF assms(1) can, of 0 i 32] i can
    by (simp add: MerkleDepth_def root_bytes_def tree_root_def)
  moreover have "length ?p = MerkleDepth" by (simp add: tree_path_def)
  ultimately show ?thesis using True GetPath_run [OF assms(1,2) i(1)] i(2) by (auto simp: Let_def)
qed (use GetPath_absent [OF assms(2,3)] in simp)

theorem GetPath_verifies_witness:
  "\<exists>path. GetPath (sample_env False) sample_c1 sample_store =
      (Inr (map (hex_of_bytes \<circ> fst) path, map snd path, root_bytes (sample_env False) [sample_c1]), sample_store) \<and>
    path_root (sample_env False) 0 sample_c1 path = root_bytes (sample_env False) [sample_c1]"
  using GetPath_verifies [OF sample_crypto sample_store_inv, of sample_c1] sample_active by auto

text \<open>C20. A path query at the root of any prefix of at most 1024 leaves, or at the current root, returns
  for each of its commitments the path in that prefix, and folding it gives the requested root.\<close>

theorem paths_at_root_verify:
  assumes "ctx_live q" "slots_configured q" "slot_answer q = Inr ()"
    and "crypto_ok env" "tree_inv env ls s"
    and "0 < j" "j \<le> length ls" "j = length ls \<or> j \<le> 1024"
    and "ps \<noteq> []" "length ps \<le> 16" "distinct ps" "\<forall>i \<in> set ps. i < j"
  shows "\<exists>sn. GetCommitmentPathsAtRootV1 env q (map (\<lambda>i. ls ! i) ps) (root_bytes env (take j ls)) 0 s =
       Inr (map (true_path env (take j ls)) ps, sn) \<and> snap_leaf_count sn = word_of_nat j \<and>
     (\<forall>i \<in> set ps. Path (true_path env (take j ls) i) = map (hex_of_bytes \<circ> fst) (tree_path env (take j ls) i [0..<MerkleDepth]) \<and>
        path_root env 0 (ls ! i) (tree_path env (take j ls) i [0..<MerkleDepth]) = root_bytes env (take j ls))"
proof -
  have can: "\<forall>c \<in> set (take j ls). canonical_field c" by (rule take_canonical [OF assms(5)])
  have "path_root env 0 (ls ! i) (tree_path env (take j ls) i [0..<MerkleDepth]) = root_bytes env (take j ls)" if "i < j" for i
  proof -
    have "i div 2 ^ 32 = 0" using that assms(7) tree_inv_length [OF assms(5)] by simp
    moreover have "canonical_field (ls ! i)" using that assms(7) tree_inv_canonical [OF assms(5)] by simp
    ultimately show ?thesis
      using tree_path_root [OF assms(4) can, of 0 i 32] that assms(7)
      by (simp add: MerkleDepth_def root_bytes_def tree_root_def)
  qed
  with paths_at_root_run [OF assms] assms(12) show ?thesis by (fastforce simp: true_path_def)
qed

definition sample_query :: query_ctx where
  "sample_query = \<lparr>ctx_err = (\<lambda>_ _. None), slots_configured = True, slot_answer = Inr ()\<rparr>"

theorem paths_at_root_verify_witness:
  "\<exists>sn. GetCommitmentPathsAtRootV1 (sample_env False) sample_query [sample_c1] (root_bytes (sample_env False) [sample_c1]) 0 sample_store =
     Inr ([true_path (sample_env False) [sample_c1] 0], sn) \<and> snap_leaf_count sn = 1"
  using paths_at_root_verify [of sample_query, OF _ _ _ sample_crypto sample_store_inv, of 1 "[0]"]
  by (auto simp: sample_query_def ctx_live_def)

text \<open>C21. The three ways to compute a root agree: recomputing the root from the leaves, the root that
  the appends left in the cache, and the last of the prefix roots computed with a frontier.\<close>

theorem root_computations_agree:
  assumes "crypto_ok env" "tree_inv env ls s" "0 < length ls" "length ls \<le> 2 ^ 20"
  shows "\<exists>root roots. RecalculateRoot env (word_of_nat (length ls)) s = Inr root \<and>
     GetMerkleNode MerkleDepth 0 s = Some root \<and>
     computeCommitmentPrefixRootsV1 env (word_of_nat (length ls)) s = Inr roots \<and>
     length roots = length ls \<and> last roots = root \<and>
     (\<forall>j < length ls. RecalculateRoot env (word_of_nat (j + 1)) s = Inr (roots ! j))"
proof -
  let ?roots = "map (\<lambda>j. root_bytes env (take (j + 1) ls)) [0..<length ls]"
  have "RecalculateRoot env (word_of_nat (j + 1)) s = Inr (?roots ! j)" if "j < length ls" for j
    using RecalculateRoot_ok [OF assms(1,2), of "j + 1"] that assms(4) by simp
  moreover have "last ?roots = root_bytes env ls" using assms(3) by (simp add: last_map)
  moreover have "GetMerkleNode MerkleDepth 0 s = Some (root_bytes env ls)"
    using tree_inv_root [OF assms(2)] assms(3) by (simp add: GetMerkleNode_def rootKey_def)
  ultimately show ?thesis
    using RecalculateRoot_ok [OF assms(1,2), of "length ls"] prefix_roots_run [OF assms(2), of "length ls"] assms(4)
    by (intro exI [of _ "root_bytes env ls"] exI [of _ ?roots]) simp
qed

theorem root_computations_agree_witness:
  "\<exists>root. RecalculateRoot (sample_env False) 1 sample_store = Inr root \<and>
     GetMerkleNode MerkleDepth 0 sample_store = Some root"
  using root_computations_agree [OF sample_crypto sample_store_inv] by auto

text \<open>A store that has lost its cached root, and any part of its node cache and commitment index, is
  repaired from its leaves by \<^verbatim>\<open>ensureIncrementalTreeState\<close> when the tree is small enough; with the audit
  runtime configured the loss is reported instead and nothing is written.\<close>

lemma lost_cache_repaired:
  assumes "crypto_ok env" "kv_wf s" "leaves_inv env ls s" "ls \<noteq> []" "length ls \<le> 2 ^ 20" "kv_get s rootKey = None"
  shows "if audit_on env then ensureIncrementalTreeState env s = (Inl ErrMerkleQueryCachedRootMissing, s)
    else \<exists>t. ensureIncrementalTreeState env s = (Inr (), t) \<and> tree_inv env ls t"
proof (cases "audit_on env")
  case True
  have len: "length ls \<le> 2 ^ 32" using assms(5) by simp
  have "getLeafCountStrict s = Inr (word_of_nat (length ls))"
    using assms(3) by (simp add: leaves_inv_def tree_leaves_def)
  moreover have "validateMerkleCachedRootOrSmallRebuild env (word_of_nat (length ls)) s = Inl ErrMerkleQueryCachedRootMissing"
    using True assms(4,6) len count_valid [OF len]
    by (simp add: validateMerkleCachedRootOrSmallRebuild_def kv_has_def count_zero_iff)
  ultimately show ?thesis using True by (simp add: ensureIncrementalTreeState_def bindM_run)
qed (use repair_run [OF assms(1) _ assms(3,2,5,6)] in auto)

lemma leaves_inv_delete_node: "leaves_inv env ls s \<Longrightarrow> leaves_inv env ls (kv_delete (node_key l i) s)"
proof -
  assume "leaves_inv env ls s"
  moreover have "getLeafCountStrict (kv_delete (node_key l i) s) = getLeafCountStrict s"
    by (rule getLeafCountStrict_cong) simp
  ultimately show ?thesis
    by (auto simp: leaves_inv_def tree_leaves_def tree_roots_def)
qed


text \<open>C22. The root in the store binds the leaves: two stores that hold commitment trees and read the same root node hold the same commitments in the same order, or the
  two trees contain, at the same place, two different inputs of a node hash (domain tag, level, left and right child) with the same MiMC digest.\<close>

theorem root_binds_leaves:
  assumes "crypto_ok env" "tree_inv env ls s" "tree_inv env ms t" "ls \<noteq> []" "ms \<noteq> []" "GetMerkleNode MerkleDepth 0 s = GetMerkleNode MerkleDepth 0 t"
  shows "ls = ms \<or>
    (\<exists>l < MerkleDepth. \<exists>i a b c d. a = tree_node env (map be_to_nat ls) l (2 * i) \<and> b = tree_node env (map be_to_nat ls) l (2 * i + 1) \<and>
       c = tree_node env (map be_to_nat ms) l (2 * i) \<and> d = tree_node env (map be_to_nat ms) l (2 * i + 1) \<and> (a, b) \<noteq> (c, d) \<and>
       MimcHash env [DomainFieldV1 ''clairveil.note-tree-node.v1'', l, a, b] = MimcHash env [DomainFieldV1 ''clairveil.note-tree-node.v1'', l, c, d])"
proof -
  have "root_bytes env ls = root_bytes env ms" using assms(6) stored_root [OF assms(2,4)] stored_root [OF assms(3,5)] by simp
  then have "ls = ms \<or> tree_collision env (map be_to_nat ls) (map be_to_nat ms)"
    using assms(1-3) by (intro root_binding) (auto simp: tree_inv_def tree_leaves_def)
  then show ?thesis unfolding tree_collision_def node_input_def by blast
qed

theorem root_binds_leaves_witness:
  "\<exists>t. tree_inv (sample_env False) [sample_c2] t \<and> (\<exists>l a b c d. (a, b) \<noteq> (c, d) \<and>
     MimcHash (sample_env False) [DomainFieldV1 ''clairveil.note-tree-node.v1'', l, a, b] = MimcHash (sample_env False) [DomainFieldV1 ''clairveil.note-tree-node.v1'', l, c, d])"
proof -
  let ?t = "append_state (sample_env False) 5 [] sample_c2 []"
  have "tree_inv (sample_env False) ([] @ [sample_c2]) ?t" by (rule append_state_inv) (simp_all add: sample_fresh is_height_def)
  then have inv: "tree_inv (sample_env False) [sample_c2] ?t" by simp
  have "tree_node (sample_env False) vs (Suc l) i = 7" for vs l i
  proof -
    have "be_to_nat (be_of_nat 32 7) = 7" by (subst be_to_nat_be_of_nat) simp
    then show ?thesis by (simp add: ComputeNoteTreeNodeV1_def MimcHash_def sample_env_def sample_digest_def)
  qed
  then have "tree_node (sample_env False) vs MerkleDepth i = 7" for vs i
    by (simp only: MerkleDepth_def numeral_eq_Suc)
  then have same: "root_bytes (sample_env False) [sample_c1] = root_bytes (sample_env False) [sample_c2]"
    by (simp only: root_bytes_def tree_root_def)
  have "GetMerkleNode MerkleDepth 0 sample_store = GetMerkleNode MerkleDepth 0 ?t"
    using same stored_root [OF sample_store_inv] stored_root [OF inv] by simp
  from root_binds_leaves [OF _ sample_store_inv inv _ _ this] show ?thesis using inv by fastforce
qed

text \<open>Once the audit runtime is configured every exported writer of the tree refuses and leaves the
  store untouched, whatever its arguments.\<close>

lemma raw_mutation_refused:
  assumes "audit_on env"
  shows "\<forall>m \<in> {AppendCommitment env h c, SetLeafCount env n, SetLeaf env i c, SetHistoricalRoot env h c,
      SetNullifier env c, SetMerkleNode env l i c, SetCommitmentIndex env c i, SetMerkleRootSnapshotV1 env sn}.
    \<exists>e. m s = (Inl e, s)"
  using assms
  by (simp add: AppendCommitment_def SetLeafCount_def SetLeaf_def SetHistoricalRoot_def SetNullifier_def
      SetMerkleNode_def SetCommitmentIndex_def SetMerkleRootSnapshotV1_def rawMutation_def bindM_run)

text \<open>With the audit runtime configured the import of exported root snapshots is refused for every
  genesis, the one exported by the same chain included: a genesis with audit state cannot be imported
  through the ordinary importer.\<close>

lemma snapshot_import_refused:
  assumes "audit_on env"
  shows "InitGenesisMerkleRootSnapshotsV1 env snapshots s = (Inl (Errorf ''legacy state mutation is disabled''), s) \<and>
    (ExportGenesisMerkleRootSnapshotsV1 env s = Inr exported \<longrightarrow>
      InitGenesisMerkleRootSnapshotsV1 env (map Some exported) s = (Inl (Errorf ''legacy state mutation is disabled''), s))"
  using init_snapshots_audit [OF assms] by simp


end
