(* ===== verification/Amount128.thy ===== *)
theory Amount128
  imports Prelude
begin

text \<open>
  The unsigned 128-bit operation amount (\<^verbatim>\<open>x/privacy/amount/amount.go\<close>) as two 64-bit limbs, with the
  limb arithmetic of \<^verbatim>\<open>math/bits\<close>, and the \<^verbatim>\<open>big.Int\<close> boundary of \<^verbatim>\<open>x/privacy/types/amount.go\<close>. The lemmas
  read every operation as arithmetic on \<open>amount_val\<close>.
\<close>

section \<open>Limb arithmetic\<close>

text \<open>\<^verbatim>\<open>bits.Add64\<close>, \<^verbatim>\<open>Sub64\<close>, \<^verbatim>\<open>Mul64\<close> and \<^verbatim>\<open>Div64\<close>, by their documented meaning.\<close>

definition bits_Add64 :: "u64 \<Rightarrow> u64 \<Rightarrow> u64 \<Rightarrow> u64 \<times> u64" where
  "bits_Add64 x y carry =
     (let t = unat x + unat y + unat carry in (word_of_nat t, word_of_nat (t div 2 ^ 64)))"

definition bits_Sub64 :: "u64 \<Rightarrow> u64 \<Rightarrow> u64 \<Rightarrow> u64 \<times> u64" where
  "bits_Sub64 x y borrow = (x - y - borrow, if unat x < unat y + unat borrow then 1 else 0)"

definition bits_Mul64 :: "u64 \<Rightarrow> u64 \<Rightarrow> u64 \<times> u64" where
  "bits_Mul64 x y = (let t = unat x * unat y in (word_of_nat (t div 2 ^ 64), word_of_nat t))"

definition bits_Div64 :: "u64 \<Rightarrow> u64 \<Rightarrow> u64 \<Rightarrow> u64 \<times> u64" where
  "bits_Div64 hi lo y =
     (let t = unat hi * 2 ^ 64 + unat lo in (word_of_nat (t div unat y), word_of_nat (t mod unat y)))"

lemma word_split: "unat (word_of_nat t :: u64) = t mod 2 ^ 64"
  by (simp add: unat_of_nat)

lemma Add64_val:
  assumes "bits_Add64 x y c = (s, co)"
  shows "unat x + unat y + unat c = unat co * 2 ^ 64 + unat s"
proof -
  let ?t = "unat x + unat y + unat c"
  have s: "unat s = ?t mod 2 ^ 64" "unat co = (?t div 2 ^ 64) mod 2 ^ 64"
    using assms by (simp_all only: bits_Add64_def Let_def prod.inject word_split [symmetric])
  have "?t < 3 * 2 ^ 64" using unat_u64_less [of x] unat_u64_less [of y] unat_u64_less [of c] by simp
  then have "?t div 2 ^ 64 < 3" by simp
  then have "unat co = ?t div 2 ^ 64" using s(2) by simp
  then show ?thesis using s(1) div_mult_mod_eq [of ?t "2 ^ 64"] by simp
qed

lemma Mul64_val:
  assumes "bits_Mul64 x y = (h, l)"
  shows "unat x * unat y = unat h * 2 ^ 64 + unat l"
proof -
  let ?t = "unat x * unat y"
  have s: "unat l = ?t mod 2 ^ 64" "unat h = (?t div 2 ^ 64) mod 2 ^ 64"
    using assms by (simp_all only: bits_Mul64_def Let_def prod.inject word_split [symmetric])
  have "?t < 2 ^ 64 * 2 ^ 64" using unat_u64_less [of x] unat_u64_less [of y] by (intro mult_strict_mono) simp_all
  then have "?t div 2 ^ 64 < 2 ^ 64" by (rule less_mult_imp_div_less)
  then show ?thesis using s div_mult_mod_eq [of ?t "2 ^ 64"] by simp
qed

lemma Div64_val:
  assumes "bits_Div64 hi lo y = (q, r)" "unat hi < unat y"
  shows "unat q = (unat hi * 2 ^ 64 + unat lo) div unat y" "unat r = (unat hi * 2 ^ 64 + unat lo) mod unat y"
proof -
  let ?t = "unat hi * 2 ^ 64 + unat lo"
  have "?t < unat y * 2 ^ 64" using assms(2) unat_u64_less [of lo] by simp
  then have "?t div unat y < 2 ^ 64" by (simp add: less_mult_imp_div_less mult.commute)
  moreover have "?t mod unat y < 2 ^ 64"
    using assms(2) unat_u64_less [of y] by (intro less_trans [OF mod_less_divisor]) simp_all
  ultimately show "unat q = ?t div unat y" "unat r = ?t mod unat y"
    using assms(1) by (auto simp: bits_Div64_def Let_def word_split)
qed

section \<open>The type\<close>

record amount128 =
  hi :: u64
  lo :: u64

definition amount_val :: "amount128 \<Rightarrow> nat" where
  "amount_val a = unat (hi a) * 2 ^ 64 + unat (lo a)"

definition FromUint64 :: "u64 \<Rightarrow> amount128" where
  "FromUint64 v = \<lparr>hi = 0, lo = v\<rparr>"

text \<open>The fixed-size arrays are byte lists of length 16 and 32.\<close>

definition FromBytes16 :: "bytes \<Rightarrow> amount128" where
  "FromBytes16 v = \<lparr>hi = un_be64 (take 8 v), lo = un_be64 (drop 8 v)\<rparr>"

definition Bytes16 :: "amount128 \<Rightarrow> bytes" where
  "Bytes16 a = be64 (hi a) @ be64 (lo a)"

definition Bytes32 :: "amount128 \<Rightarrow> bytes" where
  "Bytes32 a = replicate 16 0 @ Bytes16 a"

definition FromBytes32 :: "bytes \<Rightarrow> amount128 res" where
  "FromBytes32 v =
     (if \<exists>b \<in> set (take 16 v). b \<noteq> 0 then Inl (Errorf ''amount exceeds 128 bits'')
      else Inr (FromBytes16 (drop 16 v)))"

definition IsZero :: "amount128 \<Rightarrow> bool" where
  "IsZero a = (hi a = 0 \<and> lo a = 0)"

definition Cmp :: "amount128 \<Rightarrow> amount128 \<Rightarrow> int" where
  "Cmp a b = (if hi a < hi b \<or> hi a = hi b \<and> lo a < lo b then - 1 else if a = b then 0 else 1)"

definition Add :: "amount128 \<Rightarrow> amount128 \<Rightarrow> amount128 res" where
  "Add a b =
     (let (l, c) = bits_Add64 (lo a) (lo b) 0; (h, c) = bits_Add64 (hi a) (hi b) c
      in if c \<noteq> 0 then Inl (Errorf ''amount exceeds 128 bits'') else Inr \<lparr>hi = h, lo = l\<rparr>)"

definition Sub :: "amount128 \<Rightarrow> amount128 \<Rightarrow> amount128 res" where
  "Sub a b =
     (let (l, c) = bits_Sub64 (lo a) (lo b) 0; (h, c) = bits_Sub64 (hi a) (hi b) c
      in if c \<noteq> 0 then Inl (Errorf ''amount underflow'') else Inr \<lparr>hi = h, lo = l\<rparr>)"

fun parseLoop :: "amount128 \<Rightarrow> string \<Rightarrow> amount128 res" where
  "parseLoop a [] = Inr a"
| "parseLoop a (c # s) =
     (if (of_char c :: nat) < 48 \<or> (of_char c :: nat) > 57
      then Inl (Errorf ''amount must be a canonical non-negative decimal string'')
      else let (carry, l) = bits_Mul64 (lo a) 10;
               (overflow, h) = bits_Mul64 (hi a) 10;
               (h, c1) = bits_Add64 h carry 0;
               (l, c2) = bits_Add64 l (word_of_nat (of_char c - 48)) 0;
               (h, c3) = bits_Add64 h 0 c2
           in if overflow OR c1 OR c3 \<noteq> 0 then Inl (Errorf ''amount exceeds 128 bits'')
              else parseLoop \<lparr>hi = h, lo = l\<rparr> s)"

definition Parse :: "string \<Rightarrow> amount128 res" where
  "Parse s =
     (if s = [] \<or> length s > 1 \<and> hd s = CHR ''0''
      then Inl (Errorf ''amount must be a canonical non-negative decimal string'')
      else parseLoop \<lparr>hi = 0, lo = 0\<rparr> s)"

lemma amount_val_less: "amount_val a < 2 ^ 128"
  using unat_u64_less [of "hi a"] unat_u64_less [of "lo a"] by (simp add: amount_val_def)

lemma amount_val_inj: "amount_val a = amount_val b \<longleftrightarrow> a = b"
proof
  assume eq: "amount_val a = amount_val b"
  have "unat (lo a) = amount_val a mod 2 ^ 64" "unat (hi a) = amount_val a div 2 ^ 64" for a
    using unat_u64_less [of "lo a"] by (simp_all add: amount_val_def)
  with eq have "hi a = hi b" "lo a = lo b" by (metis word_unat_eq_iff)+
  then show "a = b" by simp
qed simp

text \<open>The quotient limbs of a division by ten.\<close>

definition div10 :: "amount128 \<Rightarrow> amount128 \<times> u64" where
  "div10 a =
     (let (qhi, r) = bits_Div64 0 (hi a) 10; (qlo, r) = bits_Div64 r (lo a) 10
      in (\<lparr>hi = qhi, lo = qlo\<rparr>, r))"

lemma div10_val:
  assumes "div10 a = (q, r)"
  shows "amount_val q = amount_val a div 10" "unat r = amount_val a mod 10"
proof -
  obtain r1 where d: "bits_Div64 0 (hi a) 10 = (hi q, r1)" "bits_Div64 r1 (lo a) 10 = (lo q, r)"
    using assms by (auto simp: div10_def Let_def split: prod.splits)
  have q1: "unat (hi q) = unat (hi a) div 10" "unat r1 = unat (hi a) mod 10"
    using Div64_val [OF d(1)] by simp_all
  then have "unat r1 < unat (10 :: u64)" by simp
  then have q2: "unat (lo q) = (unat r1 * 2 ^ 64 + unat (lo a)) div 10" "unat r = (unat r1 * 2 ^ 64 + unat (lo a)) mod 10"
    using Div64_val [OF d(2)] by simp_all
  have a: "amount_val a = 10 * (unat (hi q) * 2 ^ 64) + (unat r1 * 2 ^ 64 + unat (lo a))"
  proof -
    have "unat (hi a) = 10 * unat (hi q) + unat r1" unfolding q1 by simp
    then show ?thesis by (simp add: amount_val_def algebra_simps)
  qed
  show "amount_val q = amount_val a div 10" unfolding a unfolding q2 amount_val_def by simp
  show "unat r = amount_val a mod 10" unfolding a unfolding q2 by (rule mod_mult_self4 [symmetric])
qed

function stringLoop :: "amount128 \<Rightarrow> string \<Rightarrow> string" where
  "stringLoop a digits =
     (if IsZero a then digits
      else stringLoop (fst (div10 a)) (char_of (unat (snd (div10 a)) + 48) # digits))"
  by auto
termination
proof (relation "measure (amount_val \<circ> fst)")
  fix a digits
  assume "\<not> IsZero a"
  then have "0 < amount_val a" by (auto simp: IsZero_def amount_val_def word_neq_0_conv [symmetric] unat_gt_0)
  then have "amount_val (fst (div10 a)) < amount_val a"
    using div10_val(1) [of a "fst (div10 a)" "snd (div10 a)"] by simp
  then show "((fst (div10 a), char_of (unat (snd (div10 a)) + 48) # digits), (a, digits)) \<in> measure (amount_val \<circ> fst)"
    by simp
qed simp

declare stringLoop.simps [simp del]

definition String :: "amount128 \<Rightarrow> string" where
  "String a = (if IsZero a then ''0'' else stringLoop a [])"

section \<open>Decimal text\<close>

text \<open>The decimal digits of a number (\<^verbatim>\<open>(*big.Int).String\<close> of a non-negative number) and the value of
  a digit string.\<close>

definition digit_char :: "nat \<Rightarrow> char" where
  "digit_char d = char_of (d + 48)"

definition is_digit :: "char \<Rightarrow> bool" where
  "is_digit c = (48 \<le> (of_char c :: nat) \<and> (of_char c :: nat) \<le> 57)"

definition digit_val :: "char \<Rightarrow> nat" where
  "digit_val c = of_char c - 48"

fun dec_string :: "nat \<Rightarrow> string" where
  "dec_string n = (if n < 10 then [digit_char n] else dec_string (n div 10) @ [digit_char (n mod 10)])"

declare dec_string.simps [simp del]

definition dec_val :: "string \<Rightarrow> nat" where
  "dec_val s = foldl (\<lambda>acc c. 10 * acc + digit_val c) 0 s"

lemma digit_val_char [simp]: "d < 10 \<Longrightarrow> digit_val (digit_char d) = d"
  by (simp add: digit_val_def digit_char_def of_char_of)

lemma is_digit_char [simp]: "d < 10 \<Longrightarrow> is_digit (digit_char d)"
  by (simp add: is_digit_def digit_char_def of_char_of)

lemma digit_char_val: "is_digit c \<Longrightarrow> digit_char (digit_val c) = c"
  by (simp add: is_digit_def digit_char_def digit_val_def)

lemma digit_val_less: "is_digit c \<Longrightarrow> digit_val c < 10"
  by (auto simp: is_digit_def digit_val_def)

lemma dec_val_snoc [simp]: "dec_val (s @ [c]) = 10 * dec_val s + digit_val c"
  by (simp add: dec_val_def)

lemma dec_val_Nil [simp]: "dec_val [] = 0"
  by (simp add: dec_val_def)

lemma dec_val_string [simp]: "dec_val (dec_string n) = n"
proof (induction n rule: dec_string.induct)
  case (1 n)
  show ?case
  proof (cases "n < 10")
    case True
    then show ?thesis using dec_val_snoc [of "[]"] by (simp add: dec_string.simps [of n])
  next
    case False
    with 1 show ?thesis by (simp add: dec_string.simps [of n])
  qed
qed

lemma dec_string_inj: "dec_string m = dec_string n \<longleftrightarrow> m = n"
  by (metis dec_val_string)

lemma dec_string_digits: "c \<in> set (dec_string n) \<Longrightarrow> is_digit c"
proof (induction n rule: dec_string.induct)
  case (1 n)
  then show ?case by (cases "n < 10") (auto simp: dec_string.simps [of n])
qed

lemma dec_string_ne [simp]: "dec_string n \<noteq> []"
  by (simp add: dec_string.simps)

text \<open>The canonical decimal strings: digits only, no leading zero unless the string is \<^verbatim>\<open>"0"\<close>.\<close>

definition canonical_dec :: "string \<Rightarrow> bool" where
  "canonical_dec s = (s \<noteq> [] \<and> (\<forall>c \<in> set s. is_digit c) \<and> \<not> (length s > 1 \<and> hd s = CHR ''0''))"

lemma digit_char_0: "digit_char 0 = CHR ''0''"
  using digit_char_val [of "CHR ''0''"] by (simp add: is_digit_def digit_val_def)

lemma hd_dec_string: "0 < n \<Longrightarrow> hd (dec_string n) \<noteq> CHR ''0''"
proof (induction n rule: dec_string.induct)
  case (1 n)
  show ?case
  proof (cases "n < 10")
    case True
    then have "digit_char n \<noteq> digit_char 0" using 1(2) by (metis digit_val_char neq0_conv zero_less_numeral)
    with True show ?thesis by (simp add: dec_string.simps [of n] digit_char_0)
  next
    case False
    with 1 show ?thesis by (simp add: dec_string.simps [of n])
  qed
qed

lemma canonical_dec_string: "canonical_dec (dec_string n)"
proof -
  have "\<not> (length (dec_string n) > 1 \<and> hd (dec_string n) = CHR ''0'')"
    using hd_dec_string [of n] by (cases "n = 0") (auto simp: dec_string.simps [of 0])
  then show ?thesis using dec_string_digits by (simp add: canonical_dec_def)
qed

lemma dec_string_val: "canonical_dec s \<Longrightarrow> dec_string (dec_val s) = s"
proof (induction s rule: rev_induct)
  case (snoc c s)
  then have c: "is_digit c" by (simp add: canonical_dec_def)
  show ?case
  proof (cases "s = []")
    case True
    with c show ?thesis
      using digit_val_less [OF c] dec_val_snoc [of "[]" c] by (simp add: dec_string.simps digit_char_val)
  next
    case False
    have "canonical_dec s" using snoc.prems False by (auto simp: canonical_dec_def)
    then have IH: "dec_string (dec_val s) = s" by (rule snoc.IH)
    have "0 < dec_val s"
    proof (rule ccontr)
      assume "\<not> 0 < dec_val s"
      then have "s = ''0''" using IH by (simp add: dec_string.simps digit_char_0)
      with snoc.prems show False by (simp add: canonical_dec_def)
    qed
    then show ?thesis using IH c digit_val_less [OF c]
      by (simp add: dec_string.simps [of "10 * dec_val s + digit_val c"] digit_char_val)
  qed
qed (simp add: canonical_dec_def)

section \<open>Arithmetic\<close>

lemma word_or_zero: "a OR b = 0 \<longleftrightarrow> a = 0 \<and> b = (0 :: u64)"
  by (metis or.left_neutral or_eq_0_iff)

lemma carry_iff: "amount_val r + unat c * 2 ^ 128 < 2 ^ 128 \<longleftrightarrow> c = (0 :: u64)"
proof (cases "c = 0")
  case False
  then have "0 < unat c" by (simp add: unat_gt_0)
  then show ?thesis using False by (simp add: not_less)
qed (use amount_val_less [of r] in simp)

lemma Add_val: "amount_val a + amount_val b < 2 ^ 128 \<Longrightarrow> \<exists>c. Add a b = Inr c \<and> amount_val c = amount_val a + amount_val b"
  "\<not> amount_val a + amount_val b < 2 ^ 128 \<Longrightarrow> Add a b = Inl (Errorf ''amount exceeds 128 bits'')"
proof -
  obtain l c1 h c2 where d: "bits_Add64 (lo a) (lo b) 0 = (l, c1)" "bits_Add64 (hi a) (hi b) c1 = (h, c2)"
    by (metis surj_pair)
  let ?r = "\<lparr>hi = h, lo = l\<rparr>"
  have sum: "amount_val a + amount_val b = amount_val ?r + unat c2 * 2 ^ 128"
    using Add64_val [OF d(1)] Add64_val [OF d(2)] by (simp add: amount_val_def algebra_simps)
  have run: "Add a b = (if c2 \<noteq> 0 then Inl (Errorf ''amount exceeds 128 bits'') else Inr ?r)"
    using d by (simp add: Add_def)
  { assume "amount_val a + amount_val b < 2 ^ 128"
    then have "c2 = 0" unfolding sum carry_iff .
    with sum run show "\<exists>c. Add a b = Inr c \<and> amount_val c = amount_val a + amount_val b" by simp }
  { assume "\<not> amount_val a + amount_val b < 2 ^ 128"
    then have "c2 \<noteq> 0" unfolding sum carry_iff .
    with run show "Add a b = Inl (Errorf ''amount exceeds 128 bits'')" by simp }
qed

lemma Sub_val: "amount_val b \<le> amount_val a \<Longrightarrow> \<exists>c. Sub a b = Inr c \<and> amount_val c = amount_val a - amount_val b"
  "amount_val a < amount_val b \<Longrightarrow> Sub a b = Inl (Errorf ''amount underflow'')"
proof -
  let ?c1 = "if unat (lo a) < unat (lo b) then 1 else 0 :: u64"
  let ?l = "lo a - lo b" and ?h = "hi a - hi b - ?c1"
  have run: "Sub a b = (if unat (hi a) < unat (hi b) + unat ?c1 then Inl (Errorf ''amount underflow'') else Inr \<lparr>hi = ?h, lo = ?l\<rparr>)"
    by (simp add: Sub_def bits_Sub64_def)
  have cond: "unat (hi a) < unat (hi b) + unat ?c1 \<longleftrightarrow> amount_val a < amount_val b"
    using unat_u64_less [of "lo a"] unat_u64_less [of "lo b"] by (auto simp: amount_val_def)
  { assume "amount_val a < amount_val b"
    with run cond show "Sub a b = Inl (Errorf ''amount underflow'')" by simp }
  { assume le: "amount_val b \<le> amount_val a"
    with cond have ge: "unat (hi b) + unat ?c1 \<le> unat (hi a)" by simp
    have l: "unat ?l + unat (lo b) = unat (lo a) + unat ?c1 * 2 ^ 64"
      using unat_u64_less [of "lo a"] unat_u64_less [of "lo b"] by (auto simp: unat_sub_if_size word_size)
    have h: "unat ?h + unat (hi b) + unat ?c1 = unat (hi a)"
      using ge by (auto simp: unat_sub_if_size word_size split: if_splits)
    have "amount_val \<lparr>hi = ?h, lo = ?l\<rparr> + amount_val b = amount_val a"
      using l h by (simp add: amount_val_def algebra_simps)
    with run cond le show "\<exists>c. Sub a b = Inr c \<and> amount_val c = amount_val a - amount_val b" by auto }
qed

lemma Cmp_val: "Cmp a b = (if amount_val a < amount_val b then - 1 else if amount_val a = amount_val b then 0 else 1)"
proof -
  have "hi a < hi b \<or> hi a = hi b \<and> lo a < lo b \<longleftrightarrow> amount_val a < amount_val b"
    using unat_u64_less [of "lo a"] unat_u64_less [of "lo b"]
    by (auto simp: amount_val_def word_less_nat_alt word_unat_eq_iff)
  then show ?thesis by (simp add: Cmp_def amount_val_inj)
qed

section \<open>Parsing and printing\<close>

text \<open>One step of the parser multiplies by ten and adds the digit, or reports an overflow.\<close>

lemma parse_step:
  assumes "is_digit c"
  shows "10 * amount_val a + digit_val c < 2 ^ 128 \<Longrightarrow>
      \<exists>b. amount_val b = 10 * amount_val a + digit_val c \<and> parseLoop a (c # s) = parseLoop b s"
    and "\<not> 10 * amount_val a + digit_val c < 2 ^ 128 \<Longrightarrow> parseLoop a (c # s) = Inl (Errorf ''amount exceeds 128 bits'')"
proof -
  let ?d = "word_of_nat (of_char c - 48) :: u64"
  obtain carry l1 ov h1 h2 c1 l2 c2 h3 c3 where d: "bits_Mul64 (lo a) 10 = (carry, l1)" "bits_Mul64 (hi a) 10 = (ov, h1)"
      "bits_Add64 h1 carry 0 = (h2, c1)" "bits_Add64 l1 ?d 0 = (l2, c2)" "bits_Add64 h2 0 c2 = (h3, c3)"
    by (metis surj_pair)
  let ?b = "\<lparr>hi = h3, lo = l2\<rparr>"
  have dv: "unat ?d = digit_val c" using digit_val_less [OF assms] by (simp add: digit_val_def)
  have "10 * amount_val a + digit_val c = (unat (hi a) * 10) * 2 ^ 64 + unat (lo a) * 10 + unat ?d"
    unfolding dv amount_val_def by simp
  also have "\<dots> = amount_val ?b + (unat ov + unat c1 + unat c3) * 2 ^ 128"
  proof -
    have "unat (lo a) * 10 = unat carry * 2 ^ 64 + unat l1" "unat (hi a) * 10 = unat ov * 2 ^ 64 + unat h1"
      using Mul64_val [OF d(1)] Mul64_val [OF d(2)] by simp_all
    moreover have "unat h1 + unat carry = unat c1 * 2 ^ 64 + unat h2" "unat l1 + unat ?d = unat c2 * 2 ^ 64 + unat l2"
      "unat h2 + unat c2 = unat c3 * 2 ^ 64 + unat h3"
      using Add64_val [OF d(3)] Add64_val [OF d(4)] Add64_val [OF d(5)] by simp_all
    ultimately show ?thesis by (simp add: amount_val_def)
  qed
  finally have sum: "10 * amount_val a + digit_val c = amount_val ?b + (unat ov + unat c1 + unat c3) * 2 ^ 128" .
  have ov: "10 * amount_val a + digit_val c < 2 ^ 128 \<longleftrightarrow> ov = 0 \<and> c1 = 0 \<and> c3 = 0"
  proof (cases "ov = 0 \<and> c1 = 0 \<and> c3 = 0")
    case True
    then show ?thesis using sum amount_val_less [of ?b] by simp
  next
    case False
    then have "1 \<le> unat ov + unat c1 + unat c3" by (auto simp: Suc_le_eq unat_gt_0)
    then have "2 ^ 128 \<le> (unat ov + unat c1 + unat c3) * 2 ^ 128" by simp
    then show ?thesis using False sum by linarith
  qed
  have run: "parseLoop a (c # s) = (if ov OR c1 OR c3 \<noteq> 0 then Inl (Errorf ''amount exceeds 128 bits'') else parseLoop ?b s)"
    using assms d by (simp add: is_digit_def del: of_nat_diff)
  { assume "10 * amount_val a + digit_val c < 2 ^ 128"
    with ov sum run show "\<exists>b. amount_val b = 10 * amount_val a + digit_val c \<and> parseLoop a (c # s) = parseLoop b s"
      by (intro exI [of _ ?b]) simp }
  { assume "\<not> 10 * amount_val a + digit_val c < 2 ^ 128"
    with ov run show "parseLoop a (c # s) = Inl (Errorf ''amount exceeds 128 bits'')" by (simp add: word_or_zero) }
qed

lemma foldl_ge: "acc \<le> foldl (\<lambda>acc c. 10 * acc + digit_val c) acc s"
proof (induction s arbitrary: acc)
  case (Cons c s)
  have "acc \<le> 10 * acc + digit_val c" by simp
  also have "\<dots> \<le> foldl (\<lambda>acc c. 10 * acc + digit_val c) (10 * acc + digit_val c) s" by (rule Cons)
  finally show ?case by simp
qed simp

lemma parseLoop_ok:
  "(\<exists>b. parseLoop a s = Inr b \<and> amount_val b = n) \<longleftrightarrow>
     (\<forall>c \<in> set s. is_digit c) \<and> n = foldl (\<lambda>acc c. 10 * acc + digit_val c) (amount_val a) s \<and> n < 2 ^ 128"
proof (induction s arbitrary: a)
  case Nil
  then show ?case using amount_val_less [of a] by auto
next
  case (Cons c s)
  let ?v = "10 * amount_val a + digit_val c"
  show ?case
  proof (cases "is_digit c")
    case False
    then show ?thesis by (auto simp: is_digit_def)
  next
    case digit: True
    show ?thesis
    proof (cases "?v < 2 ^ 128")
      case True
      then obtain b where b: "amount_val b = ?v" "parseLoop a (c # s) = parseLoop b s"
        using parse_step(1) [OF digit] by blast
      show ?thesis unfolding b(2) Cons.IH b(1) using digit by simp
    next
      case False
      moreover have "?v \<le> foldl (\<lambda>acc c. 10 * acc + digit_val c) ?v s" by (rule foldl_ge)
      ultimately show ?thesis using parse_step(2) [OF digit False, of s] by auto
    qed
  qed
qed

lemma Parse_ok: "Parse s = Inr a \<longleftrightarrow> canonical_dec s \<and> dec_val s < 2 ^ 128 \<and> amount_val a = dec_val s"
proof -
  have zero: "amount_val \<lparr>hi = 0, lo = 0\<rparr> = 0" by (simp add: amount_val_def)
  have "parseLoop \<lparr>hi = 0, lo = 0\<rparr> s = Inr a \<longleftrightarrow> (\<forall>c \<in> set s. is_digit c) \<and> amount_val a = dec_val s \<and> dec_val s < 2 ^ 128"
    using parseLoop_ok [of "\<lparr>hi = 0, lo = 0\<rparr>" s "amount_val a"] unfolding zero dec_val_def [symmetric]
    by (auto simp: amount_val_inj)
  then show ?thesis by (auto simp: Parse_def canonical_dec_def)
qed

lemma stringLoop_val: "stringLoop a digits = (if IsZero a then digits else dec_string (amount_val a) @ digits)"
proof (induction a digits rule: stringLoop.induct)
  case (1 a digits)
  show ?case
  proof (cases "IsZero a")
    case True
    then show ?thesis by (simp add: stringLoop.simps)
  next
    case False
    let ?q = "fst (div10 a)" and ?r = "snd (div10 a)"
    have v: "amount_val ?q = amount_val a div 10" "unat ?r = amount_val a mod 10"
      using div10_val [of a ?q ?r] by simp_all
    have z: "IsZero b \<longleftrightarrow> amount_val b = 0" for b by (simp add: IsZero_def amount_val_def unat_eq_zero)
    show ?thesis
      using 1 False unfolding stringLoop.simps [of a digits] digit_char_def [symmetric] v z
      by (auto simp: dec_string.simps [of "amount_val a"] v)
  qed
qed

lemma String_val: "String a = dec_string (amount_val a)"
proof (cases "IsZero a")
  case True
  then have "amount_val a = 0" by (simp add: IsZero_def amount_val_def)
  with True show ?thesis by (simp add: String_def dec_string.simps digit_char_0)
qed (simp add: String_def stringLoop_val)

lemma dec_string_length: "n < 10 ^ k \<Longrightarrow> 0 < k \<Longrightarrow> length (dec_string n) \<le> k"
proof (induction n arbitrary: k rule: dec_string.induct)
  case (1 n)
  show ?case
  proof (cases "n < 10")
    case False
    with 1(2,3) obtain j where k: "k = Suc j" "0 < j" by (cases k; cases "k - 1") auto
    with 1(2) have "n div 10 < 10 ^ j" by auto
    with 1(1) [OF False] False k show ?thesis by (simp add: dec_string.simps [of n])
  qed (use 1(3) in \<open>simp add: dec_string.simps [of n]\<close>)
qed

section \<open>The big-integer boundary\<close>

text \<open>A \<^verbatim>\<open>*big.Int\<close> that may be nil is an \<open>int option\<close>.\<close>

definition ShieldedAmountBitLength :: nat where "ShieldedAmountBitLength = 128"

definition MaxShieldedAmount :: int where "MaxShieldedAmount = 2 ^ ShieldedAmountBitLength - 1"

definition ValidateShieldedAmount :: "string \<Rightarrow> int option \<Rightarrow> unit res" where
  "ValidateShieldedAmount name amount =
     (case amount of
        None \<Rightarrow> Inl (Errorf (name @ '' is required''))
      | Some v \<Rightarrow>
          if v < 0 then Inl (Errorf (name @ '' must be non-negative''))
          else if v > MaxShieldedAmount then Inl (Errorf (name @ '' exceeds 128-bit shielded amount limit''))
          else Inr ())"

definition isCanonicalNonNegativeDecimal :: "string \<Rightarrow> bool" where
  "isCanonicalNonNegativeDecimal s =
     (if s = [] then False
      else if s = ''0'' then True
      else if (of_char (hd s) :: nat) < 49 \<or> (of_char (hd s) :: nat) > 57 then False
      else \<forall>c \<in> set (tl s). \<not> ((of_char c :: nat) < 48 \<or> (of_char c :: nat) > 57))"

text \<open>\<^verbatim>\<open>new(big.Int).SetString(s, 10)\<close>: an optional sign and at least one digit.\<close>

definition SetString10 :: "string \<Rightarrow> int option" where
  "SetString10 s =
     (let (neg, digits) = (case s of
            c # t \<Rightarrow> if c = CHR ''-'' then (True, t) else if c = CHR ''+'' then (False, t) else (False, s)
          | [] \<Rightarrow> (False, []))
      in if digits = [] \<or> (\<exists>c \<in> set digits. \<not> is_digit c) then None
         else Some (if neg then - int (dec_val digits) else int (dec_val digits)))"

definition ParseCanonicalShieldedAmount :: "string \<Rightarrow> string \<Rightarrow> int res" where
  "ParseCanonicalShieldedAmount name s =
     bindE (guardE (isCanonicalNonNegativeDecimal s) (Errorf (name @ '' must be a canonical non-negative decimal string''))) (\<lambda>_.
     case SetString10 s of
       None \<Rightarrow> Inl (Errorf (name @ '' must be a canonical non-negative decimal string''))
     | Some parsed \<Rightarrow> bindE (ValidateShieldedAmount name (Some parsed)) (\<lambda>_. Inr parsed))"

definition Amount128FromBigInt :: "int option \<Rightarrow> amount128 res" where
  "Amount128FromBigInt v =
     bindE (ValidateShieldedAmount ''amount'' v) (\<lambda>_. Inr (FromBytes16 (be_of_nat 16 (nat (the v)))))"

definition Amount128BigInt :: "amount128 \<Rightarrow> int" where
  "Amount128BigInt a = int (be_to_nat (Bytes16 a))"

lemma un_be64_prefix: "un_be64 (take 8 bs) = un_be64 bs"
  by (simp add: un_be64_def)

lemma FromBytes16_Bytes16 [simp]: "FromBytes16 (Bytes16 a) = a"
  by (simp add: FromBytes16_def Bytes16_def)

lemma Bytes16_FromBytes16: "length v = 16 \<Longrightarrow> Bytes16 (FromBytes16 v) = v"
  by (simp add: FromBytes16_def Bytes16_def be64_un_be64)

lemma Bytes16_length [simp]: "length (Bytes16 a) = 16"
  by (simp add: Bytes16_def)

lemma be_to_nat_Bytes16: "be_to_nat (Bytes16 a) = amount_val a"
  using unat_u64_less [of "hi a"] unat_u64_less [of "lo a"]
  by (simp add: Bytes16_def be_to_nat_append be64_def be_to_nat_be_of_nat amount_val_def)

lemma FromBytes16_val:
  assumes "n < 2 ^ 128"
  shows "amount_val (FromBytes16 (be_of_nat 16 n)) = n"
proof -
  have "amount_val (FromBytes16 (be_of_nat 16 n)) = be_to_nat (be_of_nat 16 n)"
    using be_to_nat_Bytes16 [of "FromBytes16 (be_of_nat 16 n)"] Bytes16_FromBytes16 [of "be_of_nat 16 n"] by simp
  with assms show ?thesis by (simp add: be_to_nat_be_of_nat)
qed

lemma canonical_decimal_iff: "isCanonicalNonNegativeDecimal s \<longleftrightarrow> canonical_dec s"
proof (cases s)
  case (Cons c t)
  have nz: "is_digit c \<and> c \<noteq> CHR ''0'' \<longleftrightarrow> \<not> ((of_char c :: nat) < 49 \<or> (of_char c :: nat) > 57)"
  proof -
    have "(of_char (CHR ''0'') :: nat) = 48" by simp
    then have "c = CHR ''0'' \<longleftrightarrow> (of_char c :: nat) = 48" using of_char_eq_iff [of c "CHR ''0''"] by auto
    then show ?thesis by (auto simp: is_digit_def)
  qed
  have z: "is_digit (CHR ''0'')" by (simp add: is_digit_def)
  show ?thesis
  proof (cases "c = CHR ''0''")
    case True
    then show ?thesis using z by (auto simp: Cons isCanonicalNonNegativeDecimal_def canonical_dec_def)
  next
    case False
    with nz show ?thesis
      by (auto simp: Cons isCanonicalNonNegativeDecimal_def canonical_dec_def is_digit_def)
  qed
qed (simp add: isCanonicalNonNegativeDecimal_def canonical_dec_def)

lemma SetString10_canonical: "canonical_dec s \<Longrightarrow> SetString10 s = Some (int (dec_val s))"
proof -
  assume c: "canonical_dec s"
  then obtain x t where s: "s = x # t" "is_digit x" by (cases s) (auto simp: canonical_dec_def)
  have "x \<noteq> CHR ''-''" "x \<noteq> CHR ''+''" using s(2) by (auto simp: is_digit_def)
  with s c show ?thesis by (auto simp: SetString10_def canonical_dec_def)
qed

section \<open>Properties of amounts\<close>

text \<open>C26. Amounts add, subtract and compare as numbers below \<open>2 ^ 128\<close>: an addition that would reach the
  bound and a subtraction that would go below zero are errors, and everything else is exact.\<close>

theorem amount_arithmetic:
  "(case Add a b of Inr c \<Rightarrow> amount_val c = amount_val a + amount_val b | Inl _ \<Rightarrow> amount_val a + amount_val b \<ge> 2 ^ 128) \<and>
   (case Sub a b of Inr c \<Rightarrow> amount_val c + amount_val b = amount_val a | Inl _ \<Rightarrow> amount_val a < amount_val b) \<and>
   Cmp a b = (if amount_val a < amount_val b then - 1 else if amount_val a = amount_val b then 0 else 1)"
proof (intro conjI)
  show "case Add a b of Inr c \<Rightarrow> amount_val c = amount_val a + amount_val b | Inl _ \<Rightarrow> amount_val a + amount_val b \<ge> 2 ^ 128"
    using Add_val [of a b] by (cases "amount_val a + amount_val b < 2 ^ 128") auto
  show "case Sub a b of Inr c \<Rightarrow> amount_val c + amount_val b = amount_val a | Inl _ \<Rightarrow> amount_val a < amount_val b"
    using Sub_val [of b a] Sub_val [of a b] by (cases "amount_val a < amount_val b") auto
qed (rule Cmp_val)

text \<open>Text and byte forms of an amount are faithful: printing then parsing gives the amount back,
  every string that parses is the printed form of its amount, so the parser accepts exactly one string
  per amount; the printed form fits the 39 digits reserved for it; and the byte forms decode to what was
  encoded.\<close>

lemma amount_roundtrips:
  "Parse (String a) = Inr a \<and> (Parse s = Inr b \<longleftrightarrow> s = String b) \<and> length (String a) \<le> 39 \<and>
   FromBytes16 (Bytes16 a) = a \<and> FromBytes32 (Bytes32 a) = Inr a \<and> length (Bytes32 a) = 32"
proof (intro conjI)
  show one: "Parse (String a) = Inr a" for a
    using canonical_dec_string amount_val_less [of a] by (simp add: Parse_ok String_val)
  show "Parse s = Inr b \<longleftrightarrow> s = String b"
    using one [of b] dec_string_val [of s] by (auto simp: Parse_ok String_val)
  show "length (String a) \<le> 39"
    unfolding String_val using amount_val_less [of a] by (intro dec_string_length) simp_all
  show "FromBytes32 (Bytes32 a) = Inr a" by (simp add: FromBytes32_def Bytes32_def)
qed (simp_all add: Bytes32_def)

text \<open>The limb parser of \<^verbatim>\<open>amount.Parse\<close> and the big-integer parser of
  \<^verbatim>\<open>ParseCanonicalShieldedAmount\<close> accept the same strings with the same values, and converting a
  parsed big integer to limbs gives the limb parser's result.\<close>

lemma amount_parsers_agree:
  "(case Parse s of
      Inr a \<Rightarrow> ParseCanonicalShieldedAmount name s = Inr (Amount128BigInt a) \<and> Amount128FromBigInt (Some (Amount128BigInt a)) = Inr a
    | Inl _ \<Rightarrow> \<exists>e. ParseCanonicalShieldedAmount name s = Inl e)"
proof (cases "canonical_dec s \<and> dec_val s < 2 ^ 128")
  case True
  then obtain a where a: "Parse s = Inr a" "amount_val a = dec_val s"
    using FromBytes16_val [of "dec_val s"] Parse_ok by blast
  have big: "Amount128BigInt a = int (dec_val s)" by (simp add: Amount128BigInt_def be_to_nat_Bytes16 a(2))
  have max: "\<not> int (dec_val s) > MaxShieldedAmount"
    using True by (simp add: MaxShieldedAmount_def ShieldedAmountBitLength_def)
  have "ParseCanonicalShieldedAmount name s = Inr (int (dec_val s))"
    using True max by (simp add: ParseCanonicalShieldedAmount_def canonical_decimal_iff SetString10_canonical ValidateShieldedAmount_def)
  moreover have "Amount128FromBigInt (Some (int (dec_val s))) = Inr a"
    using max True a FromBytes16_val [of "dec_val s"] amount_val_inj
    by (simp add: Amount128FromBigInt_def ValidateShieldedAmount_def) metis
  ultimately show ?thesis using a big by simp
next
  case False
  then obtain e where "Parse s = Inl e" using Parse_ok [of s] by (cases "Parse s") auto
  moreover have "\<exists>e. ParseCanonicalShieldedAmount name s = Inl e"
  proof (cases "canonical_dec s")
    case True
    with False have "int (dec_val s) > MaxShieldedAmount" by (simp add: MaxShieldedAmount_def ShieldedAmountBitLength_def)
    with True show ?thesis
      by (simp add: ParseCanonicalShieldedAmount_def canonical_decimal_iff SetString10_canonical ValidateShieldedAmount_def)
  qed (simp add: ParseCanonicalShieldedAmount_def canonical_decimal_iff)
  ultimately show ?thesis by simp
qed

end
