(* ===== verification/Ed_Curve.thy ===== *)
theory Ed_Curve
  imports Field_Bytes
begin

text \<open>
  The BN254 scalar field, its twisted Edwards curve and the scalars of the prime subgroup
  (\<^verbatim>\<open>x/privacy/crypto/internal/ctbn254\<close>: \<^verbatim>\<open>frct\<close>, \<^verbatim>\<open>scalarct\<close>, \<^verbatim>\<open>edwardsct\<close>). An element of \<^verbatim>\<open>frct.Element\<close> is
  the residue it represents, a \<open>nat\<close> below \<open>fr_modulus\<close>: the Montgomery limbs and their generated
  arithmetic are below the level of the model. The fixed schedules of the source (256 rounds of
  double, add and select) are kept as loops over the bits of a 32-byte string.
\<close>

section \<open>Field operations\<close>

definition fr_add :: "nat \<Rightarrow> nat \<Rightarrow> nat" where "fr_add x y = (x + y) mod fr_modulus"
definition fr_mul :: "nat \<Rightarrow> nat \<Rightarrow> nat" where "fr_mul x y = (x * y) mod fr_modulus"
definition fr_neg :: "nat \<Rightarrow> nat" where "fr_neg x = (fr_modulus - x) mod fr_modulus"
definition fr_sub :: "nat \<Rightarrow> nat \<Rightarrow> nat" where "fr_sub x y = (x + (fr_modulus - y)) mod fr_modulus"
definition fr_square :: "nat \<Rightarrow> nat" where "fr_square x = fr_mul x x"

definition fr_select :: "bool \<Rightarrow> 'a \<Rightarrow> 'a \<Rightarrow> 'a" where
  "fr_select b x y = (if b then y else x)"

text \<open>The bits of a byte string from the most significant one, as the loops read them:
  \<^verbatim>\<open>(in[i/8] >> (7 - i%8)) & 1\<close>.\<close>

definition byte_bits :: "byte \<Rightarrow> bool list" where
  "byte_bits b = map (\<lambda>i. bit b (7 - i)) [0..<8]"

definition bits_of :: "bytes \<Rightarrow> bool list" where
  "bits_of bs = concat (map byte_bits bs)"

definition fr_FromCanonicalBE :: "bytes \<Rightarrow> nat option" where
  "fr_FromCanonicalBE bs = (if be_to_nat bs < fr_modulus then Some (be_to_nat bs) else None)"

definition fr_Bytes :: "nat \<Rightarrow> bytes" where
  "fr_Bytes x = be_of_nat 32 x"

text \<open>\<^verbatim>\<open>Inv0\<close>: the power \<open>p - 2\<close> by square and multiply; \<^verbatim>\<open>pow256\<close> has the same loop.\<close>

definition fr_pow :: "nat \<Rightarrow> bytes \<Rightarrow> nat" where
  "fr_pow x e =
     fold (\<lambda>b r. let square = fr_square r; product = fr_mul square x in fr_select b square product) (bits_of e) 1"

definition fr_Inv0 :: "nat \<Rightarrow> nat" where
  "fr_Inv0 x = fr_pow x (be_of_nat 32 (fr_modulus - 2))"

definition fr_Inverse :: "nat \<Rightarrow> nat option" where
  "fr_Inverse x = (if x = 0 then None else Some (fr_Inv0 x))"

definition fr_Reduce256 :: "bytes \<Rightarrow> nat" where
  "fr_Reduce256 bs =
     fold (\<lambda>b z. let doubled = fr_add z z; incremented = fr_add doubled 1 in fr_select b doubled incremented) (bits_of bs) 0"

section \<open>Scalars\<close>

definition scalar_modulus :: nat where
  "scalar_modulus = 0x060c89ce5c263405370a08b6d0302b0bab3eedb83920ee0a677297dc392126f1"

definition scalar_add :: "nat \<Rightarrow> nat \<Rightarrow> nat" where "scalar_add x y = (x + y) mod scalar_modulus"
definition scalar_mul :: "nat \<Rightarrow> nat \<Rightarrow> nat" where "scalar_mul x y = (x * y) mod scalar_modulus"

definition scalar_FromCanonicalBE :: "bytes \<Rightarrow> nat option" where
  "scalar_FromCanonicalBE bs = (if be_to_nat bs < scalar_modulus then Some (be_to_nat bs) else None)"

definition scalar_SetBytes :: "bytes \<Rightarrow> nat res" where
  "scalar_SetBytes bs =
     (if length bs \<noteq> 32 then Inl (Errorf ''scalarct: invalid canonical BE32 encoding'')
      else case scalar_FromCanonicalBE bs of
             None \<Rightarrow> Inl (Errorf ''scalarct: invalid canonical BE32 encoding'')
           | Some z \<Rightarrow> Inr z)"

definition scalar_Bytes :: "nat \<Rightarrow> bytes" where
  "scalar_Bytes z = be_of_nat 32 z"

definition NewNonzeroScalar :: "nat \<Rightarrow> nat res" where
  "NewNonzeroScalar z = (if z = 0 then Inl (Errorf ''scalarct: zero scalar is not permitted'') else Inr z)"

definition ParseNonzeroScalarBE32 :: "bytes \<Rightarrow> nat res" where
  "ParseNonzeroScalarBE32 bs = bindE (scalar_SetBytes bs) NewNonzeroScalar"

definition scalar_Reduce256 :: "bytes \<Rightarrow> nat" where
  "scalar_Reduce256 bs =
     fold (\<lambda>b z. let doubled = scalar_add z z; incremented = scalar_add doubled 1 in fr_select b doubled incremented)
       (bits_of bs) 0"

definition DeriveIdentityScalarSeed32 :: "bytes \<Rightarrow> nat" where
  "DeriveIdentityScalarSeed32 seed = (let z = scalar_Reduce256 seed in fr_select (z = 0) z 1)"

definition PoPResponse :: "nat \<Rightarrow> nat \<Rightarrow> bytes \<Rightarrow> nat" where
  "PoPResponse k a h = (let c = scalar_Reduce256 h in scalar_add (scalar_mul c a) k)"

text \<open>\<^verbatim>\<open>SampleScalar\<close> over a reader that yields 32-byte draws: a rejected draw is replaced by the next one,
  and the reader's failure (here, its end) is returned.\<close>

fun SampleScalar :: "bytes list \<Rightarrow> bool \<Rightarrow> nat res" where
  "SampleScalar [] nonzero = Inl (Errorf ''EOF'')"
| "SampleScalar (draw # reader) nonzero =
     (case scalar_FromCanonicalBE ((draw ! 0 AND 7) # tl draw) of
        None \<Rightarrow> SampleScalar reader nonzero
      | Some z \<Rightarrow> if nonzero \<and> z = 0 then SampleScalar reader nonzero else Inr z)"

definition SampleNonzeroScalar :: "bytes list \<Rightarrow> nat res" where
  "SampleNonzeroScalar reader = bindE (SampleScalar reader True) NewNonzeroScalar"

section \<open>The curve\<close>

record ed_point =
  px :: nat
  py :: nat
  pz :: nat
  pt :: nat

definition curveD :: nat where
  "curveD = 0x1aee90f15f2189693df072d799fd11fc039b2959ebb7c867d075ca8cf4d7eb8e"

definition IsOnCurve :: "nat \<Rightarrow> nat \<Rightarrow> bool" where
  "IsOnCurve x y =
     (let x2 = fr_square x; y2 = fr_square y; lhs = fr_sub y2 x2;
          tmp = fr_mul (fr_mul x2 y2) curveD; rhs = fr_add 1 tmp
      in lhs = rhs)"

definition FromAffine :: "nat \<Rightarrow> nat \<Rightarrow> ed_point res" where
  "FromAffine x y =
     (if \<not> IsOnCurve x y then Inl (Errorf ''edwardsct: invalid prime-subgroup point'')
      else Inr \<lparr>px = x, py = y, pz = 1, pt = fr_mul x y\<rparr>)"

definition Identity :: ed_point where
  "Identity = \<lparr>px = 0, py = 1, pz = 1, pt = 0\<rparr>"

definition Base :: ed_point where
  "Base = (let x = 0x1561ff836ce19d358a4eb7a4c199e94c377c749ae6f2a277f1f9195afe553f9f;
               y = 0x25797203f7a0b24925572e1cd16bf9edfce0051fb9e133774b3c257a872d7d8b
           in \<lparr>px = x, py = y, pz = 1, pt = fr_mul x y\<rparr>)"

definition IsIdentity :: "ed_point \<Rightarrow> bool" where
  "IsIdentity p = (px p = 0 \<and> py p = pz p \<and> pt p = 0)"

definition EdEqual :: "ed_point \<Rightarrow> ed_point \<Rightarrow> bool" where
  "EdEqual p q = (fr_mul (px p) (pz q) = fr_mul (px q) (pz p) \<and> fr_mul (py p) (pz q) = fr_mul (py q) (pz p))"

definition EdAdd :: "ed_point \<Rightarrow> ed_point \<Rightarrow> ed_point" where
  "EdAdd a b =
     (let A = fr_mul (fr_sub (py a) (px a)) (fr_sub (py b) (px b));
          B = fr_mul (fr_add (py a) (px a)) (fr_add (py b) (px b));
          C = fr_mul (fr_mul (pt a) (pt b)) curveD;
          C = fr_add C C;
          D = fr_mul (pz a) (pz b);
          D = fr_add D D;
          E = fr_sub B A; F = fr_sub D C; G = fr_add D C; H = fr_add B A
      in \<lparr>px = fr_mul E F, py = fr_mul G H, pz = fr_mul F G, pt = fr_mul E H\<rparr>)"

definition EdDouble :: "ed_point \<Rightarrow> ed_point" where
  "EdDouble a =
     (let A = fr_square (px a); B = fr_square (py a); C = fr_square (pz a); C = fr_add C C;
          D = fr_neg A; E = fr_square (fr_add (px a) (py a)); E = fr_sub E A; E = fr_sub E B;
          G = fr_add D B; F = fr_sub G C; H = fr_sub D B
      in \<lparr>px = fr_mul E F, py = fr_mul G H, pz = fr_mul F G, pt = fr_mul E H\<rparr>)"

definition EdAffine :: "ed_point \<Rightarrow> (nat \<times> nat) option" where
  "EdAffine p =
     (case fr_Inverse (pz p) of None \<Rightarrow> None
      | Some zinv \<Rightarrow> Some (fr_mul (px p) zinv, fr_mul (py p) zinv))"

definition scalarMultBE :: "ed_point \<Rightarrow> bytes \<Rightarrow> ed_point" where
  "scalarMultBE a bs =
     fold (\<lambda>b result. let doubled = EdDouble result; added = EdAdd doubled a in fr_select b doubled added)
       (bits_of bs) Identity"

definition ScalarMult :: "ed_point \<Rightarrow> nat \<Rightarrow> ed_point" where
  "ScalarMult a s = scalarMultBE a (scalar_Bytes s)"

definition inPrimeSubgroup :: "ed_point \<Rightarrow> bool" where
  "inPrimeSubgroup p = IsIdentity (scalarMultBE p (be_of_nat 32 scalar_modulus))"

section \<open>Point encodings\<close>

definition DecodePoint64 :: "bytes \<Rightarrow> ed_point res" where
  "DecodePoint64 raw =
     (if length raw \<noteq> 64 then Inl (Errorf ''Point64 must be 64 bytes'')
      else case fr_FromCanonicalBE (take 32 raw) of
        None \<Rightarrow> Inl (Errorf ''noncanonical x'')
      | Some x \<Rightarrow> (case fr_FromCanonicalBE (drop 32 raw) of
          None \<Rightarrow> Inl (Errorf ''noncanonical y'')
        | Some y \<Rightarrow>
            bindE (FromAffine x y) (\<lambda>p.
            bindE (guardE (\<not> IsIdentity p) (Errorf ''identity'')) (\<lambda>_.
            bindE (guardE (inPrimeSubgroup p) (Errorf ''not in subgroup'')) (\<lambda>_.
            Inr p)))))"

definition EncodePoint64 :: "ed_point \<Rightarrow> bytes res" where
  "EncodePoint64 p =
     (case EdAffine p of None \<Rightarrow> Inl (Errorf ''zero Z'') | Some (x, y) \<Rightarrow> Inr (fr_Bytes x @ fr_Bytes y))"

section \<open>Bit ladders\<close>

text \<open>A loop over the bits of a byte string that doubles and conditionally adds computes at the
  number that the bytes encode, whatever is doubled and added.\<close>

definition horner :: "bool list \<Rightarrow> nat \<Rightarrow> nat" where
  "horner bs n = fold (\<lambda>b acc. 2 * acc + of_bool b) bs n"

lemma horner_msb:
  "horner (map (\<lambda>i. bit w (n - 1 - i)) [0..<n]) acc = acc * 2 ^ n + take_bit n (w :: nat)"
proof (induction n arbitrary: acc)
  case (Suc n)
  have "map (\<lambda>i. bit w (Suc n - 1 - i)) [0..<Suc n] = bit w n # map (\<lambda>i. bit w (n - 1 - i)) [0..<n]"
    by (simp add: upt_conv_Cons map_Suc_upt [symmetric] o_def del: upt_Suc)
  then show ?case using Suc [of "2 * acc + of_bool (bit w n)"]
    by (simp add: horner_def take_bit_Suc_from_most algebra_simps)
qed (simp add: horner_def)

lemma horner_byte: "horner (byte_bits b) acc = acc * 256 + unat b"
proof -
  have "byte_bits b = map (\<lambda>i. bit (unat b) (8 - 1 - i)) [0..<8]"
    by (simp add: byte_bits_def bit_unsigned_iff)
  moreover have "take_bit 8 (unat b) = unat b" using unat_u8_less [of b] by (simp add: take_bit_nat_eq_self_iff)
  ultimately show ?thesis using horner_msb [of "unat b" 8 acc] by simp
qed

lemma horner_append: "horner (xs @ ys) n = horner ys (horner xs n)"
  by (simp add: horner_def)

lemma horner_bits_of: "horner (bits_of bs) acc = acc * 256 ^ length bs + be_to_nat bs"
proof (induction bs arbitrary: acc)
  case (Cons b bs)
  have "be_to_nat (b # bs) = unat b * 256 ^ length bs + be_to_nat bs"
    using be_to_nat_append [of "[b]" bs] be_to_nat_snoc [of "[]" b] by simp
  then show ?case using Cons [of "acc * 256 + unat b"]
    by (simp add: bits_of_def horner_append horner_byte algebra_simps)
qed (simp add: bits_of_def horner_def)

locale bit_ladder =
  fixes step :: "bool \<Rightarrow> 'a \<Rightarrow> 'a" and rep :: "nat \<Rightarrow> 'a"
  assumes step_rep: "step b (rep n) = rep (2 * n + of_bool b)"
begin

lemma ladder: "fold step bs (rep n) = rep (horner bs n)"
  by (induction bs arbitrary: n) (simp_all add: horner_def step_rep)

lemma ladder_bytes: "fold step (bits_of bs) (rep 0) = rep (be_to_nat bs)"
  by (simp add: ladder horner_bits_of)

end

interpretation fr_reduce: bit_ladder
  "\<lambda>b z. let doubled = fr_add z z; incremented = fr_add doubled 1 in fr_select b doubled incremented"
  "\<lambda>n. n mod fr_modulus"
  by unfold_locales (simp add: fr_add_def fr_select_def Let_def mod_simps mult_2)

interpretation scalar_reduce: bit_ladder
  "\<lambda>b z. let doubled = scalar_add z z; incremented = scalar_add doubled 1 in fr_select b doubled incremented"
  "\<lambda>n. n mod scalar_modulus"
  by unfold_locales (simp add: scalar_add_def fr_select_def Let_def mod_simps mult_2)

interpretation fr_power: bit_ladder
  "\<lambda>b r. let square = fr_square r; product = fr_mul square x in fr_select b square product"
  "\<lambda>n. x ^ n mod fr_modulus" for x
  by unfold_locales (simp add: fr_square_def fr_mul_def fr_select_def Let_def mod_simps power_add mult_2 mult.commute [of x])

lemma one_mod [simp]: "Suc 0 mod fr_modulus = Suc 0" "fr_modulus \<noteq> Suc 0"
  by (simp_all add: fr_modulus_def)

lemma fr_Reduce256_val: "fr_Reduce256 bs = be_to_nat bs mod fr_modulus"
  using fr_reduce.ladder_bytes [of bs] by (simp add: fr_Reduce256_def)

lemma scalar_Reduce256_val: "scalar_Reduce256 bs = be_to_nat bs mod scalar_modulus"
  using scalar_reduce.ladder_bytes [of bs] by (simp add: scalar_Reduce256_def)

lemma fr_pow_val: "fr_pow x e = x ^ be_to_nat e mod fr_modulus"
  using fr_power.ladder_bytes [of x e] by (simp add: fr_pow_def)

lemma fr_Inv0_val: "fr_Inv0 x = x ^ (fr_modulus - 2) mod fr_modulus"
proof -
  have "be_to_nat (be_of_nat 32 (fr_modulus - 2)) = fr_modulus - 2"
    using fr_modulus_bound by (simp add: be_to_nat_be_of_nat)
  then show ?thesis by (simp add: fr_Inv0_def fr_pow_val)
qed

section \<open>Encodings\<close>

lemma EdAffine_unit: "x < fr_modulus \<Longrightarrow> y < fr_modulus \<Longrightarrow> EdAffine \<lparr>px = x, py = y, pz = 1, pt = t\<rparr> = Some (x, y)"
  by (simp add: EdAffine_def fr_Inverse_def fr_Inv0_val fr_mul_def)

lemma fr_FromCanonicalBE_Some [simp]:
  "fr_FromCanonicalBE bs = Some x \<longleftrightarrow> be_to_nat bs < fr_modulus \<and> x = be_to_nat bs"
  by (auto simp: fr_FromCanonicalBE_def)

lemma DecodePoint64_ok:
  assumes "DecodePoint64 raw = Inr p"
  shows "length raw = 64 \<and> be_to_nat (take 32 raw) < fr_modulus \<and> be_to_nat (drop 32 raw) < fr_modulus \<and>
     p = \<lparr>px = be_to_nat (take 32 raw), py = be_to_nat (drop 32 raw), pz = 1,
          pt = fr_mul (be_to_nat (take 32 raw)) (be_to_nat (drop 32 raw))\<rparr> \<and>
     IsOnCurve (px p) (py p) \<and> \<not> IsIdentity p \<and> inPrimeSubgroup p"
  using assms by (auto simp: DecodePoint64_def FromAffine_def split: if_splits option.splits)

lemma EncodePoint64_Decode:
  assumes "DecodePoint64 raw = Inr p"
  shows "EncodePoint64 p = Inr raw"
proof -
  note d = DecodePoint64_ok [OF assms]
  then have "EdAffine p = Some (be_to_nat (take 32 raw), be_to_nat (drop 32 raw))"
    using EdAffine_unit by metis
  moreover have "be_of_nat 32 (be_to_nat (take 32 raw)) = take 32 raw" "be_of_nat 32 (be_to_nat (drop 32 raw)) = drop 32 raw"
    using d by (auto intro!: be_of_nat_be_to_nat)
  ultimately show ?thesis by (simp add: EncodePoint64_def fr_Bytes_def)
qed

lemma DecodePoint64_iff:
  "DecodePoint64 raw = Inr p \<longleftrightarrow>
     EncodePoint64 p = Inr raw \<and> (\<exists>x y. x < fr_modulus \<and> y < fr_modulus \<and> p = \<lparr>px = x, py = y, pz = 1, pt = fr_mul x y\<rparr> \<and>
       IsOnCurve x y \<and> \<not> IsIdentity p \<and> inPrimeSubgroup p)" (is "_ \<longleftrightarrow> ?enc \<and> ?pt")
proof
  assume d: "DecodePoint64 raw = Inr p"
  note ok = DecodePoint64_ok [OF d]
  then have ?pt by (intro exI [of _ "px p"] exI [of _ "py p"]) auto
  with EncodePoint64_Decode [OF d] show "?enc \<and> ?pt" by blast
next
  assume r: "?enc \<and> ?pt"
  then obtain x y where xy: "x < fr_modulus" "y < fr_modulus" "p = \<lparr>px = x, py = y, pz = 1, pt = fr_mul x y\<rparr>"
    and c: "IsOnCurve x y" "\<not> IsIdentity p" "inPrimeSubgroup p" by blast
  have "EdAffine p = Some (x, y)" using EdAffine_unit xy by simp
  then have raw: "raw = be_of_nat 32 x @ be_of_nat 32 y" using r by (simp add: EncodePoint64_def fr_Bytes_def)
  have "be_to_nat (be_of_nat 32 x) = x" "be_to_nat (be_of_nat 32 y) = y"
    using xy fr_modulus_bound by (simp_all add: be_to_nat_be_of_nat)
  then show "DecodePoint64 raw = Inr p" using xy c unfolding raw
    by (simp add: DecodePoint64_def FromAffine_def fr_FromCanonicalBE_def)
qed

lemma pop_response_val: "PoPResponse k a h = (be_to_nat h * a + k) mod scalar_modulus"
proof -
  have "(be_to_nat h mod scalar_modulus * a mod scalar_modulus + k) mod scalar_modulus
      = (be_to_nat h * a mod scalar_modulus + k) mod scalar_modulus"
    by (simp only: mod_mult_left_eq)
  then show ?thesis by (simp only: PoPResponse_def scalar_Reduce256_val scalar_add_def scalar_mul_def Let_def mod_add_left_eq)
qed

section \<open>Properties\<close>

text \<open>The bit ladders of the field and of the scalar package compute the residues they stand for, for every
  byte string: the two wide reductions are reduction modulo the field and the subgroup order, the
  response of a proof of possession is \<open>c a + k\<close> in the scalar field for the reduced challenge \<open>c\<close>, and the inversion
  ladder is the Fermat power.\<close>

lemma ladders_exact:
  "fr_Reduce256 bs = be_to_nat bs mod fr_modulus \<and>
   scalar_Reduce256 bs = be_to_nat bs mod scalar_modulus \<and>
   PoPResponse k a h = (be_to_nat h * a + k) mod scalar_modulus \<and>
   fr_Inv0 x = x ^ (fr_modulus - 2) mod fr_modulus"
  by (simp add: fr_Reduce256_val scalar_Reduce256_val fr_Inv0_val pop_response_val)

text \<open>C25. A 64-byte string decodes to a point exactly when it is the encoding of that point, the point is in affine
  form with canonical coordinates, satisfies the curve equation, is not the identity and is annihilated by the
  subgroup order: a point has one encoding, and no other string is accepted.\<close>

theorem point_codec:
  "DecodePoint64 raw = Inr p \<longleftrightarrow>
     EncodePoint64 p = Inr raw \<and> (\<exists>x y. x < fr_modulus \<and> y < fr_modulus \<and> p = \<lparr>px = x, py = y, pz = 1, pt = fr_mul x y\<rparr> \<and>
       IsOnCurve x y \<and> \<not> IsIdentity p \<and> inPrimeSubgroup p)"
  by (rule DecodePoint64_iff)

end
