(* ===== verification/Audit_Schema.thy ===== *)
theory Audit_Schema
  imports Ed_Curve
begin

text \<open>
  The audit wire format (\<^verbatim>\<open>x/privacy/crypto/auditfield\<close>: \<^verbatim>\<open>schema.go\<close>, \<^verbatim>\<open>domains.go\<close>, \<^verbatim>\<open>wire.go\<close>,
  \<^verbatim>\<open>context.go\<close>, \<^verbatim>\<open>pop.go\<close>): field and point frames, audit keys and their identifiers, the transition
  kinds and their shapes, the envelope codec, the public context of a transition and the proof of
  possession of an audit key. The lemmas show that the codecs are inverse to each other and that a
  value accepted at a boundary has the shape the boundary promises.
\<close>

section \<open>Constants\<close>

definition FieldSize :: nat where "FieldSize = 32"
definition PointSize :: nat where "PointSize = 64"
definition NonceSize :: nat where "NonceSize = 16"
definition EnvelopeHeaderSize :: nat where "EnvelopeHeaderSize = 32"
definition AuditVersion :: u16 where "AuditVersion = 2"
definition AuditSuite :: u16 where "AuditSuite = 2"

definition CircuitSetID :: string where "CircuitSetID = ''privacy-note-v1-u128-audit-field-v1''"
definition AuditEnvelopeDomain :: string where "AuditEnvelopeDomain = ''clairveil.audit.envelope.v1''"
definition AuditContextDomain :: string where "AuditContextDomain = ''clairveil.audit.context.v2''"
definition AuditAuxDomain :: string where "AuditAuxDomain = ''clairveil.audit.aux.v1''"
definition AuditKeyDomain :: string where "AuditKeyDomain = ''clairveil.audit.key.v1''"
definition AuditNetworkDomain :: string where "AuditNetworkDomain = ''clairveil.audit.network.v1''"
definition AuditPublicTargetDomain :: string where
  "AuditPublicTargetDomain = ''clairveil.audit.public-target.v1''"

lemmas size_defs = FieldSize_def PointSize_def NonceSize_def EnvelopeHeaderSize_def

section \<open>Fields\<close>

text \<open>\<^verbatim>\<open>Field32\<close> is an array of 32 bytes: a byte list of that length.\<close>

definition validateField32 :: "bytes \<Rightarrow> unit res" where
  "validateField32 v = (case fr_FromCanonicalBE v of None \<Rightarrow> Inl ErrInvalidField | Some _ \<Rightarrow> Inr ())"

definition ParseField32 :: "bytes \<Rightarrow> bytes res" where
  "ParseField32 raw =
     (if length raw \<noteq> FieldSize then Inl ErrInvalidField
      else bindE (validateField32 raw) (\<lambda>_. Inr raw))"

definition Field32FromUint64 :: "u64 \<Rightarrow> bytes" where
  "Field32FromUint64 v = replicate 24 0 @ be64 v"

definition ZeroField32 :: bytes where
  "ZeroField32 = replicate 32 0"

lemma validateField32_ok [simp]: "validateField32 v = Inr u \<longleftrightarrow> be_to_nat v < fr_modulus"
  by (simp add: validateField32_def fr_FromCanonicalBE_def)

lemma ParseField32_ok [simp]: "ParseField32 raw = Inr v \<longleftrightarrow> canonical_field raw \<and> v = raw"
  by (auto simp: ParseField32_def canonical_field_def FieldSize_def)

section \<open>Points and keys\<close>

record point64 =
  p64_encoded :: bytes
  p64_point :: ed_point
  p64_valid :: bool

definition ParsePoint64Frame :: "bytes \<Rightarrow> point64 res" where
  "ParsePoint64Frame raw =
     bindE (guardE (length raw = PointSize) ErrInvalidPoint) (\<lambda>_.
     bindE (mapErr (\<lambda>_. ErrInvalidPoint) (DecodePoint64 raw)) (\<lambda>point.
     bindE (mapErr (\<lambda>_. ErrInvalidPoint) (EncodePoint64 point)) (\<lambda>encoded.
     bindE (guardE (encoded = raw) ErrInvalidPoint) (\<lambda>_.
     Inr \<lparr>p64_encoded = encoded, p64_point = point, p64_valid = True\<rparr>))))"

definition ParsePoint64 :: "bytes \<Rightarrow> point64 res" where
  "ParsePoint64 raw = ParsePoint64Frame raw"

definition NewPoint64Frame :: "bytes \<Rightarrow> bytes \<Rightarrow> point64 res" where
  "NewPoint64Frame x y =
     bindE (validateField32 x) (\<lambda>_. bindE (validateField32 y) (\<lambda>_. ParsePoint64 (x @ y)))"

definition validPoint :: "point64 \<Rightarrow> ed_point res" where
  "validPoint p =
     bindE (guardE (p64_valid p) ErrInvalidPoint) (\<lambda>_.
     mapErr (\<lambda>_. ErrInvalidPoint) (DecodePoint64 (p64_encoded p)))"

definition validatePoint64Frame :: "point64 \<Rightarrow> unit res" where
  "validatePoint64Frame p = bindE (validPoint p) (\<lambda>_. Inr ())"

definition Coordinates :: "point64 \<Rightarrow> (bytes \<times> bytes) res" where
  "Coordinates p =
     bindE (validatePoint64Frame p) (\<lambda>_. Inr (take FieldSize (p64_encoded p), drop FieldSize (p64_encoded p)))"

record audit_key =
  ak_point :: point64
  ak_id :: bytes

definition NewAuditKey :: "point64 \<Rightarrow> audit_key res" where
  "NewAuditKey point =
     bindE (validatePoint64Frame point) (\<lambda>_.
     Inr \<lparr>ak_point = point,
          ak_id = sha256 (string_bytes AuditKeyDomain @ [0, ucast AuditSuite] @ p64_encoded point)\<rparr>)"

definition NewAuditKeyFromPoint64 :: "bytes \<Rightarrow> audit_key res" where
  "NewAuditKeyFromPoint64 raw = bindE (ParsePoint64 raw) NewAuditKey"

definition ParseAuditKey :: "bytes \<Rightarrow> bytes \<Rightarrow> audit_key res" where
  "ParseAuditKey pointRaw keyID =
     bindE (ParsePoint64 pointRaw) (\<lambda>point.
     bindE (NewAuditKey point) (\<lambda>key.
     bindE (guardE (\<not> (length keyID \<noteq> length (ak_id key) \<or> keyID \<noteq> ak_id key)) ErrInvalidAuditKey) (\<lambda>_.
     Inr key)))"

definition AuditKey_validate :: "audit_key \<Rightarrow> unit res" where
  "AuditKey_validate k =
     bindE (validatePoint64Frame (ak_point k)) (\<lambda>_.
     case NewAuditKey (ak_point k) of
       Inl _ \<Rightarrow> Inl ErrInvalidAuditKey
     | Inr expected \<Rightarrow> guardE (ak_id k = ak_id expected) ErrInvalidAuditKey)"

section \<open>Kinds\<close>

type_synonym kind = u8

definition KindDeposit :: kind where "KindDeposit = 1"
definition KindWithdraw :: kind where "KindWithdraw = 2"
definition KindTransfer2x2 :: kind where "KindTransfer2x2 = 3"
definition KindBatch16x32 :: kind where "KindBatch16x32 = 4"

lemmas kind_defs = KindDeposit_def KindWithdraw_def KindTransfer2x2_def KindBatch16x32_def

record kind_shape =
  inputCap :: nat
  outputCap :: nat
  plainFields :: nat
  envelopeBytes :: nat

definition shape :: "kind \<Rightarrow> kind_shape res" where
  "shape k =
     (if k = KindDeposit then Inr \<lparr>inputCap = 0, outputCap = 1, plainFields = 6, envelopeBytes = 336\<rparr>
      else if k = KindWithdraw then Inr \<lparr>inputCap = 1, outputCap = 0, plainFields = 2, envelopeBytes = 208\<rparr>
      else if k = KindTransfer2x2 then Inr \<lparr>inputCap = 2, outputCap = 2, plainFields = 13, envelopeBytes = 560\<rparr>
      else if k = KindBatch16x32 then Inr \<lparr>inputCap = 16, outputCap = 32, plainFields = 177, envelopeBytes = 5808\<rparr>
      else Inl ErrInvalidKind)"

definition PlaintextFieldCount :: "kind \<Rightarrow> nat res" where
  "PlaintextFieldCount k = bindE (shape k) (\<lambda>s. Inr (plainFields s))"

definition EnvelopeSize :: "kind \<Rightarrow> nat res" where
  "EnvelopeSize k = bindE (shape k) (\<lambda>s. Inr (envelopeBytes s))"

definition ValidateActiveCounts :: "kind \<Rightarrow> u8 \<Rightarrow> u8 \<Rightarrow> unit res" where
  "ValidateActiveCounts k inputs outputs =
     bindE (shape k) (\<lambda>s.
     if k = KindDeposit then guardE (\<not> (inputs \<noteq> 0 \<or> outputs \<noteq> 1)) ErrInvalidEnvelope
     else if k = KindWithdraw then guardE (\<not> (inputs \<noteq> 1 \<or> outputs \<noteq> 0)) ErrInvalidEnvelope
     else if k = KindTransfer2x2 then guardE (\<not> (inputs \<noteq> 2 \<or> outputs \<noteq> 2)) ErrInvalidEnvelope
     else if k = KindBatch16x32 then
       guardE (\<not> (inputs = 0 \<or> unat inputs > inputCap s \<or> outputs = 0 \<or> unat outputs > outputCap s)) ErrInvalidEnvelope
     else Inr ())"

definition envelopeHeader :: "kind \<Rightarrow> u8 \<Rightarrow> u8 \<Rightarrow> bytes res" where
  "envelopeHeader k inputs outputs =
     bindE (ValidateActiveCounts k inputs outputs) (\<lambda>_.
     Inr (take 16 (sha256 (string_bytes AuditEnvelopeDomain)) @ be16 AuditVersion @ be16 AuditSuite @
          [k, inputs, outputs] @ replicate 9 0))"

section \<open>Domain-separated digests\<close>

definition writeDomainLP :: "bytes \<Rightarrow> bytes" where
  "writeDomainLP v = be32 (word_of_nat (length v)) @ v"

definition NetworkDigest :: "string \<Rightarrow> bytes \<Rightarrow> bytes res" where
  "NetworkDigest chainID genesisNonce =
     bindE (guardE (\<not> (length chainID = 0 \<or> length chainID > 2 ^ 32 - 1)) (Errorf ''invalid network chain ID length'')) (\<lambda>_.
     bindE (guardE (\<forall>c \<in> set chainID. \<not> ((of_char c :: nat) < 0x20 \<or> (of_char c :: nat) > 0x7e))
              (Errorf ''network chain ID must be printable ASCII'')) (\<lambda>_.
     Inr (sha256 (string_bytes AuditNetworkDomain @ writeDomainLP (string_bytes chainID) @ genesisNonce @
            writeDomainLP (string_bytes CircuitSetID)))))"

definition PublicTargetDigest :: "kind \<Rightarrow> bytes \<Rightarrow> bytes res" where
  "PublicTargetDigest k addressBytes =
     bindE (guardE (\<not> (k \<noteq> KindDeposit \<and> k \<noteq> KindWithdraw)) ErrInvalidKind) (\<lambda>_.
     bindE (guardE (\<not> (length addressBytes = 0 \<or> length addressBytes > 2 ^ 32 - 1))
              (Errorf ''invalid public target address length'')) (\<lambda>_.
     Inr (sha256 (string_bytes AuditPublicTargetDomain @ [k] @ writeDomainLP addressBytes))))"

definition DigestFields :: "bytes \<Rightarrow> bytes \<times> bytes" where
  "DigestFields digest = (replicate 16 0 @ take 16 digest, replicate 16 0 @ drop 16 digest)"

section \<open>Envelopes\<close>

record envelope_frame =
  env_kind :: kind
  env_inputs :: u8
  env_outputs :: u8
  env_nonce :: bytes
  env_ephemeral :: point64
  env_ciphertext :: "bytes list"
  env_tag :: bytes

definition ParseNonce128 :: "bytes \<Rightarrow> bytes res" where
  "ParseNonce128 raw = (if length raw \<noteq> NonceSize then Inl ErrInvalidEnvelope else Inr raw)"

text \<open>The loop that reads the ciphertext fields from the front of the remaining bytes.\<close>

fun parseFields :: "nat \<Rightarrow> bytes \<Rightarrow> (bytes list \<times> bytes) res" where
  "parseFields 0 raw = Inr ([], raw)"
| "parseFields (Suc n) raw =
     bindE (mapErr (\<lambda>_. ErrInvalidEnvelope) (ParseField32 (take FieldSize raw))) (\<lambda>field.
     bindE (parseFields n (drop FieldSize raw)) (\<lambda>(fields, rest).
     Inr (field # fields, rest)))"

definition ParseEnvelopeFrame :: "kind \<Rightarrow> u8 \<Rightarrow> u8 \<Rightarrow> bytes \<Rightarrow> envelope_frame res" where
  "ParseEnvelopeFrame k inputs outputs raw =
     bindE (ValidateActiveCounts k inputs outputs) (\<lambda>_.
     bindE (EnvelopeSize k) (\<lambda>want.
     bindE (guardE (length raw = want) ErrInvalidEnvelope) (\<lambda>_.
     bindE (envelopeHeader k inputs outputs) (\<lambda>header.
     bindE (guardE (take EnvelopeHeaderSize raw = header) ErrInvalidEnvelope) (\<lambda>_.
     bindE (ParseNonce128 (take NonceSize (drop EnvelopeHeaderSize raw))) (\<lambda>nonce.
     bindE (mapErr (\<lambda>_. ErrInvalidEnvelope)
              (ParsePoint64Frame (take PointSize (drop (EnvelopeHeaderSize + NonceSize) raw)))) (\<lambda>ephemeral.
     bindE (PlaintextFieldCount k) (\<lambda>fieldCount.
     bindE (parseFields fieldCount (drop (EnvelopeHeaderSize + NonceSize + PointSize) raw)) (\<lambda>(ciphertext, rest).
     bindE (mapErr (\<lambda>_. ErrInvalidEnvelope) (ParseField32 (take FieldSize rest))) (\<lambda>tag.
     bindE (guardE (drop FieldSize rest = []) ErrInvalidEnvelope) (\<lambda>_.
     Inr \<lparr>env_kind = k, env_inputs = inputs, env_outputs = outputs, env_nonce = nonce,
          env_ephemeral = ephemeral, env_ciphertext = ciphertext, env_tag = tag\<rparr>)))))))))))"

definition NewEnvelopeFrame ::
  "kind \<Rightarrow> u8 \<Rightarrow> u8 \<Rightarrow> bytes \<Rightarrow> point64 \<Rightarrow> bytes list \<Rightarrow> bytes \<Rightarrow> envelope_frame res" where
  "NewEnvelopeFrame k inputs outputs nonce ephemeral ciphertext tag =
     bindE (ValidateActiveCounts k inputs outputs) (\<lambda>_.
     bindE (PlaintextFieldCount k) (\<lambda>want.
     bindE (guardE (length ciphertext = want) ErrInvalidEnvelope) (\<lambda>_.
     bindE (validatePoint64Frame ephemeral) (\<lambda>_.
     bindE (traverseE validateField32 ciphertext) (\<lambda>_.
     bindE (validateField32 tag) (\<lambda>_.
     Inr \<lparr>env_kind = k, env_inputs = inputs, env_outputs = outputs, env_nonce = nonce,
          env_ephemeral = ephemeral, env_ciphertext = ciphertext, env_tag = tag\<rparr>))))))"

definition EnvelopeBytes :: "envelope_frame \<Rightarrow> bytes res" where
  "EnvelopeBytes e =
     bindE (ValidateActiveCounts (env_kind e) (env_inputs e) (env_outputs e)) (\<lambda>_.
     bindE (PlaintextFieldCount (env_kind e)) (\<lambda>want.
     bindE (guardE (length (env_ciphertext e) = want) ErrInvalidEnvelope) (\<lambda>_.
     bindE (validatePoint64Frame (env_ephemeral e)) (\<lambda>_.
     bindE (traverseE validateField32 (env_ciphertext e)) (\<lambda>_.
     bindE (validateField32 (env_tag e)) (\<lambda>_.
     bindE (envelopeHeader (env_kind e) (env_inputs e) (env_outputs e)) (\<lambda>header.
     Inr (header @ env_nonce e @ p64_encoded (env_ephemeral e) @ concat (env_ciphertext e) @ env_tag e))))))))"

section \<open>Contexts\<close>

definition AuditContextPublicFieldCount :: nat where "AuditContextPublicFieldCount = 21"

definition validateUnsignedField :: "bytes \<Rightarrow> nat \<Rightarrow> unit res" where
  "validateUnsignedField v width =
     bindE (guardE (\<not> width > 256) (Errorf ''unsupported unsigned width'')) (\<lambda>_.
     let wholeBytes = FieldSize - (width + 7) div 8
     in bindE (guardE (\<forall>b \<in> set (take wholeBytes v). b = 0) (Errorf ''non-zero high byte'')) (\<lambda>_.
        let remainder = width mod 8
        in guardE (\<not> (remainder \<noteq> 0 \<and> v ! wholeBytes AND NOT (word_of_nat (2 ^ remainder - 1)) \<noteq> 0))
             (Errorf ''value exceeds the unsigned range'')))"

definition fieldUint8 :: "bytes \<Rightarrow> nat \<Rightarrow> u8 res" where
  "fieldUint8 v width = bindE (validateUnsignedField v width) (\<lambda>_. Inr (v ! (FieldSize - 1)))"

record audit_context =
  ctx_kind :: kind
  ctx_pi :: "bytes list"
  ctx_key :: audit_key

definition auditKeyFromPublicInputs :: "bytes list \<Rightarrow> audit_key res" where
  "auditKeyFromPublicInputs pi =
     bindE (NewPoint64Frame (pi ! 5) (pi ! 6)) (\<lambda>point.
     bindE (NewAuditKey point) (\<lambda>key.
     let (wantHi, wantLo) = DigestFields (ak_id key)
     in bindE (guardE (\<not> (pi ! 2 \<noteq> wantHi \<or> pi ! 3 \<noteq> wantLo)) ErrInvalidAuditKey) (\<lambda>_.
        Inr key)))"

definition AuditContext_validate :: "kind \<Rightarrow> bytes list \<Rightarrow> unit res" where
  "AuditContext_validate k pi =
     bindE (shape k) (\<lambda>_.
     bindE (traverseE validateField32 pi) (\<lambda>_.
     bindE (traverseE (\<lambda>i. validateUnsignedField (pi ! i) 128) [0, 1, 2, 3, 15, 17, 18, 19, 20]) (\<lambda>_.
     bindE (traverseE (\<lambda>i. validateUnsignedField (pi ! i) 64) [4, 7]) (\<lambda>_.
     bindE (guardE (pi ! 4 \<noteq> ZeroField32) (Errorf ''audit context KeyEpoch must be positive'')) (\<lambda>_.
     bindE (guardE (pi ! 7 \<noteq> ZeroField32) (Errorf ''audit context ExpiresAtUnix must be positive'')) (\<lambda>_.
     bindE (fieldUint8 (pi ! 9) 5) (\<lambda>inputCount.
     bindE (fieldUint8 (pi ! 10) 6) (\<lambda>outputCount.
     bindE (ValidateActiveCounts k inputCount outputCount) (\<lambda>_.
     bindE (auditKeyFromPublicInputs pi) (\<lambda>_.
     Inr ()))))))))))"

definition NewAuditContext :: "kind \<Rightarrow> bytes list \<Rightarrow> audit_context res" where
  "NewAuditContext k publicInputs =
     bindE (shape k) (\<lambda>_.
     bindE (guardE (length publicInputs = AuditContextPublicFieldCount)
              (Errorf ''audit context requires exactly 21 public inputs'')) (\<lambda>_.
     bindE (AuditContext_validate k publicInputs) (\<lambda>_.
     bindE (auditKeyFromPublicInputs publicInputs) (\<lambda>key.
     Inr \<lparr>ctx_kind = k, ctx_pi = publicInputs, ctx_key = key\<rparr>))))"

definition context_T :: "audit_context \<Rightarrow> bytes \<Rightarrow> bytes list res" where
  "context_T c nonce =
     bindE (AuditContext_validate (ctx_kind c) (ctx_pi c)) (\<lambda>_.
     Inr ([Field32FromUint64 2, Field32FromUint64 2, Field32FromUint64 (ucast (ctx_kind c))] @ ctx_pi c @
          [replicate (FieldSize - NonceSize) 0 @ nonce]))"

definition ContextHash :: "audit_context \<Rightarrow> bytes \<Rightarrow> bytes res" where
  "ContextHash c nonce =
     bindE (context_T c nonce) (\<lambda>vals.
     Inr (sha256 (string_bytes AuditContextDomain @ concat vals)))"

record audit_plain =
  plain_kind :: kind
  plain_fields :: "bytes list"

definition AuditPlain_validate :: "audit_plain \<Rightarrow> unit res" where
  "AuditPlain_validate p =
     bindE (PlaintextFieldCount (plain_kind p)) (\<lambda>want.
     bindE (guardE (length (plain_fields p) = want) (Errorf ''plaintext field count'')) (\<lambda>_.
     bindE (traverseE validateField32 (plain_fields p)) (\<lambda>_. Inr ())))"

definition newAuditPlain :: "kind \<Rightarrow> bytes list \<Rightarrow> audit_plain res" where
  "newAuditPlain k fs =
     bindE (PlaintextFieldCount k) (\<lambda>want.
     bindE (guardE (length fs = want) (Errorf ''plaintext field count'')) (\<lambda>_.
     let plain = \<lparr>plain_kind = k, plain_fields = fs\<rparr>
     in bindE (AuditPlain_validate plain) (\<lambda>_. Inr plain)))"

record cipher_root =
  root_left :: bytes
  root_right :: bytes

definition CipherRoot_Validate :: "cipher_root \<Rightarrow> unit res" where
  "CipherRoot_Validate r =
     bindE (validateField32 (root_left r)) (\<lambda>_. validateField32 (root_right r))"

definition ParseCipherRoot :: "bytes \<Rightarrow> cipher_root res" where
  "ParseCipherRoot raw =
     bindE (guardE (length raw = 2 * FieldSize) (Errorf ''cipher root requires exactly 64 bytes'')) (\<lambda>_.
     bindE (ParseField32 (take FieldSize raw)) (\<lambda>left.
     bindE (ParseField32 (drop FieldSize raw)) (\<lambda>right.
     Inr \<lparr>root_left = left, root_right = right\<rparr>)))"

definition CipherRoot_Bytes :: "cipher_root \<Rightarrow> bytes res" where
  "CipherRoot_Bytes r = bindE (CipherRoot_Validate r) (\<lambda>_. Inr (root_left r @ root_right r))"

section \<open>Proof of possession\<close>

record pop96 =
  pop_r :: point64
  pop_s :: nat

definition proofOfPossessionSize :: nat where "proofOfPossessionSize = PointSize + FieldSize"
definition popDomain :: string where "popDomain = ''clairveil.audit.key-pop.v1''"

definition ParsePoP96 :: "bytes \<Rightarrow> pop96 res" where
  "ParsePoP96 raw =
     bindE (guardE (length raw = proofOfPossessionSize) (Errorf ''PoP must be exactly 96 bytes'')) (\<lambda>_.
     bindE (ParsePoint64 (take PointSize raw)) (\<lambda>r.
     bindE (mapErr (\<lambda>_. Errorf ''invalid PoP response'') (scalar_SetBytes (drop PointSize raw))) (\<lambda>s.
     Inr \<lparr>pop_r = r, pop_s = s\<rparr>)))"

definition PoP96_Bytes :: "pop96 \<Rightarrow> bytes res" where
  "PoP96_Bytes p =
     bindE (validPoint (pop_r p)) (\<lambda>_. Inr (p64_encoded (pop_r p) @ scalar_Bytes (pop_s p)))"

definition popChallenge :: "bytes \<Rightarrow> u64 \<Rightarrow> u64 \<Rightarrow> point64 \<Rightarrow> point64 \<Rightarrow> bytes" where
  "popChallenge network epoch activationHeight pk r =
     sha256 (string_bytes popDomain @ network @ be64 epoch @ be64 activationHeight @ be16 AuditSuite @
       p64_encoded pk @ p64_encoded r)"

definition CreatePoP96 :: "audit_key \<Rightarrow> nat \<Rightarrow> nat \<Rightarrow> bytes \<Rightarrow> u64 \<Rightarrow> u64 \<Rightarrow> pop96 res" where
  "CreatePoP96 key sk nonce network epoch activationHeight =
     bindE (mapErr (\<lambda>_. Errorf ''invalid PoP input'') (AuditKey_validate key)) (\<lambda>_.
     bindE (guardE (sk \<noteq> 0 \<and> nonce \<noteq> 0) (Errorf ''invalid PoP input'')) (\<lambda>_.
     bindE (mapErr (\<lambda>_. Errorf ''PoP secret does not own audit key'') (validPoint (ak_point key))) (\<lambda>registered.
     bindE (guardE (EdEqual (ScalarMult Base sk) registered) (Errorf ''PoP secret does not own audit key'')) (\<lambda>_.
     bindE (EncodePoint64 (ScalarMult Base nonce)) (\<lambda>encodedR.
     bindE (ParsePoint64 encodedR) (\<lambda>r64.
     let challenge = popChallenge network epoch activationHeight (ak_point key) r64
     in Inr \<lparr>pop_r = r64, pop_s = PoPResponse nonce sk challenge\<rparr>))))))"

definition VerifyPoP96 :: "audit_key \<Rightarrow> bytes \<Rightarrow> u64 \<Rightarrow> u64 \<Rightarrow> pop96 \<Rightarrow> unit res" where
  "VerifyPoP96 key network epoch activationHeight proof' =
     bindE (AuditKey_validate key) (\<lambda>_.
     bindE (validPoint (pop_r proof')) (\<lambda>r.
     bindE (validPoint (ak_point key)) (\<lambda>pk.
     let challenge = scalar_Reduce256 (popChallenge network epoch activationHeight (ak_point key) (pop_r proof'));
         left = ScalarMult Base (pop_s proof');
         challengePK = ScalarMult pk challenge;
         right = EdAdd r challengePK
     in guardE (EdEqual left right) (Errorf ''invalid audit key PoP''))))"

section \<open>Points and keys are canonical\<close>

lemma mapErr_DecodePoint64 [simp]: "mapErr g (DecodePoint64 raw) = Inr p \<longleftrightarrow> DecodePoint64 raw = Inr p"
  by simp

lemma ParsePoint64_iff:
  "ParsePoint64 raw = Inr p \<longleftrightarrow>
     (\<exists>q. DecodePoint64 raw = Inr q \<and> p = \<lparr>p64_encoded = raw, p64_point = q, p64_valid = True\<rparr>)"
  using EncodePoint64_Decode DecodePoint64_ok
  by (fastforce simp: ParsePoint64_def ParsePoint64Frame_def PointSize_def)

lemma validPoint_parsed: "ParsePoint64 raw = Inr p \<Longrightarrow> validPoint p = Inr (p64_point p)"
  by (auto simp: ParsePoint64_iff validPoint_def)

text \<open>Every way to obtain an audit key gives the one key of its point.\<close>

lemma ParseAuditKey_iff: "ParseAuditKey raw keyID = Inr k \<longleftrightarrow> NewAuditKeyFromPoint64 raw = Inr k \<and> keyID = ak_id k"
  by (auto simp: ParseAuditKey_def NewAuditKeyFromPoint64_def)

lemma NewAuditKey_valid: "NewAuditKeyFromPoint64 raw = Inr k \<Longrightarrow> AuditKey_validate k = Inr ()"
  by (auto simp: NewAuditKeyFromPoint64_def NewAuditKey_def AuditKey_validate_def)

lemma NewAuditKey_encoded: "NewAuditKeyFromPoint64 raw = Inr k \<Longrightarrow> p64_encoded (ak_point k) = raw \<and> length raw = 64"
  using DecodePoint64_ok by (auto simp: NewAuditKeyFromPoint64_def NewAuditKey_def ParsePoint64_iff)

section \<open>Unsigned ranges\<close>

lemma be_to_nat_zero_iff: "be_to_nat bs = 0 \<longleftrightarrow> (\<forall>b \<in> set bs. b = 0)"
  by (induction bs rule: rev_induct) (auto simp: unat_eq_zero)

lemma be_to_nat_split: "be_to_nat bs = be_to_nat (take n bs) * 256 ^ (length bs - n) + be_to_nat (drop n bs)"
  using be_to_nat_append [of "take n bs" "drop n bs"] by simp

lemma high_zero_iff:
  assumes "k \<le> length bs"
  shows "(\<forall>b \<in> set (take (length bs - k) bs). b = 0) \<longleftrightarrow> be_to_nat bs < 256 ^ k"
proof -
  let ?hi = "be_to_nat (take (length bs - k) bs)" and ?lo = "be_to_nat (drop (length bs - k) bs)"
  have split: "be_to_nat bs = ?hi * 256 ^ k + ?lo" using be_to_nat_split [of bs "length bs - k"] assms by simp
  have lo: "?lo < 256 ^ k" using be_to_nat_less [of "drop (length bs - k) bs"] assms by simp
  have "be_to_nat bs < 256 ^ k \<longleftrightarrow> ?hi = 0"
  proof (cases "?hi = 0")
    case False
    then have "256 ^ k \<le> ?hi * 256 ^ k" by simp
    then show ?thesis using False split by linarith
  qed (use split lo in simp)
  then show ?thesis by (simp add: be_to_nat_zero_iff)
qed

lemma and_not_mask_iff:
  assumes "r < 8"
  shows "b AND NOT (word_of_nat (2 ^ r - 1)) = 0 \<longleftrightarrow> unat (b :: u8) < 2 ^ r"
proof -
  have m: "(word_of_nat (2 ^ r - 1) :: u8) = mask r" by (simp add: mask_eq_exp_minus_1 of_nat_diff)
  have "b AND NOT (mask r) = 0 \<longleftrightarrow> take_bit r b = b"
    by (auto simp: bit_eq_iff bit_simps)
  also have "\<dots> \<longleftrightarrow> unat b < 2 ^ r"
    by (metis take_bit_nat_eq_self_iff unsigned_take_bit_eq word_unat_eq_iff)
  finally show ?thesis unfolding m .
qed

lemma and_not_mask_iff':
  "r < 8 \<Longrightarrow> b AND NOT (2 ^ r - 1) = 0 \<longleftrightarrow> unat (b :: u8) < 2 ^ r"
  using and_not_mask_iff [of r b] by (simp add: of_nat_diff)

lemma unsigned_field_iff:
  assumes len: "length v = 32" and w: "0 < width" "width \<le> 256"
  shows "validateUnsignedField v width = Inr () \<longleftrightarrow> be_to_nat v < 2 ^ width"
proof -
  let ?k = "(width + 7) div 8" and ?r = "width mod 8"
  have k: "0 < ?k" "?k \<le> 32" using w by auto
  have hz: "(\<forall>b \<in> set (take (32 - ?k) v). b = 0) \<longleftrightarrow> be_to_nat v < 256 ^ ?k"
    using high_zero_iff [of ?k v] len k by simp
  have pow: "(256 :: nat) ^ n = 2 ^ (8 * n)" for n by (simp add: power_mult)
  show ?thesis
  proof (cases "?r = 0")
    case True
    then have "8 * ?k = width" using div_mult_mod_eq [of width 8] by (simp add: div_add1_eq)
    with True hz w show ?thesis by (simp add: validateUnsignedField_def FieldSize_def Let_def pow)
  next
    case False
    have "?k = width div 8 + 1"
      using False div_mult_mod_eq [of width 8] mod_less_divisor [of 8 width] by linarith
    then have wk: "width = ?r + 8 * (?k - 1)" "?r < 8" using div_mult_mod_eq [of width 8] by simp_all
    let ?b = "v ! (32 - ?k)" and ?lo = "be_to_nat (drop (32 - ?k + 1) v)"
    have lo: "?lo < 256 ^ (?k - 1)" using be_to_nat_less [of "drop (32 - ?k + 1) v"] len k by (simp add: Suc_diff_le)
    have val: "be_to_nat v = unat ?b * 256 ^ (?k - 1) + ?lo" if "be_to_nat v < 256 ^ ?k"
    proof -
      have "drop (32 - ?k) v = ?b # drop (32 - ?k + 1) v" using len k by (simp add: Cons_nth_drop_Suc)
      then have "be_to_nat (drop (32 - ?k) v) = unat ?b * 256 ^ (?k - 1) + ?lo"
        using be_to_nat_append [of "[?b]" "drop (32 - ?k + 1) v"] be_to_nat_snoc [of "[]" ?b] len k
        by (simp add: Suc_diff_le)
      moreover have "be_to_nat (take (32 - ?k) v) = 0" using that hz by (simp add: be_to_nat_zero_iff)
      ultimately show ?thesis using be_to_nat_split [of v "32 - ?k"] by simp
    qed
    have lt: "be_to_nat v < 2 ^ width \<longleftrightarrow> unat ?b < 2 ^ ?r" if small: "be_to_nat v < 256 ^ ?k"
    proof -
      have "(2 :: nat) ^ width = 2 ^ ?r * 256 ^ (?k - 1)" by (subst wk(1)) (simp only: power_add pow)
      moreover have "unat ?b * 256 ^ (?k - 1) + ?lo < 2 ^ ?r * 256 ^ (?k - 1) \<longleftrightarrow> unat ?b < 2 ^ ?r"
      proof
        assume "unat ?b < 2 ^ ?r"
        then have "(unat ?b + 1) * 256 ^ (?k - 1) \<le> 2 ^ ?r * 256 ^ (?k - 1)" by (intro mult_le_mono1) simp
        with lo show "unat ?b * 256 ^ (?k - 1) + ?lo < 2 ^ ?r * 256 ^ (?k - 1)" by simp
      next
        assume "unat ?b * 256 ^ (?k - 1) + ?lo < 2 ^ ?r * 256 ^ (?k - 1)"
        then have "unat ?b * 256 ^ (?k - 1) < 2 ^ ?r * 256 ^ (?k - 1)" by linarith
        then show "unat ?b < 2 ^ ?r" by simp
      qed
      ultimately show ?thesis using val [OF small] by simp
    qed
    have "be_to_nat v < 2 ^ width \<Longrightarrow> be_to_nat v < 256 ^ ?k"
    proof -
      assume "be_to_nat v < 2 ^ width"
      also have "(2 :: nat) ^ width \<le> 2 ^ (8 * ?k)" by (rule power_increasing) (use wk in simp_all)
      finally show ?thesis by (simp only: pow)
    qed
    then show ?thesis using hz lt w False wk(2)
      by (auto simp: validateUnsignedField_def FieldSize_def Let_def and_not_mask_iff')
  qed
qed

section \<open>The codecs\<close>

lemma parseFields_iff:
  "parseFields n raw = Inr (fs, rest) \<longleftrightarrow>
     length fs = n \<and> (\<forall>f \<in> set fs. canonical_field f) \<and> raw = concat fs @ rest"
proof (induction n arbitrary: raw fs)
  case (Suc n)
  show ?case
  proof (cases fs)
    case (Cons f gs)
    have "take 32 raw = f \<and> drop 32 raw = ys \<longleftrightarrow> raw = f @ ys" if "length f = 32" for ys
      using that by (metis append_eq_conv_conj append_take_drop_id)
    then show ?thesis using Suc [of "drop 32 raw" gs] unfolding Cons
      by (auto simp: FieldSize_def dest: canonical_length)
  qed auto
qed auto

lemma shape_cases:
  "(case shape k of
      Inl e \<Rightarrow> e = ErrInvalidKind \<and> k \<notin> {1, 2, 3, 4}
    | Inr s \<Rightarrow> k \<in> {1, 2, 3, 4} \<and> envelopeBytes s = 32 + 16 + 64 + 32 * plainFields s + 32)"
  by (simp add: shape_def kind_defs)

lemma EnvelopeSize_fields: "EnvelopeSize k = Inr w \<Longrightarrow> PlaintextFieldCount k = Inr n \<Longrightarrow> w = 144 + 32 * n"
  using shape_cases [of k] by (auto simp: EnvelopeSize_def PlaintextFieldCount_def)

lemma envelopeHeader_length: "envelopeHeader k i out = Inr h \<Longrightarrow> length h = 32"
  by (auto simp: envelopeHeader_def)

lemma concat_fields_length: "(\<forall>f \<in> set fs. canonical_field f) \<Longrightarrow> length (concat fs) = 32 * length fs"
  by (induction fs) (auto simp: canonical_field_def)

lemma validate_fields_iff: "(\<exists>u. traverseE validateField32 fs = Inr u) \<longleftrightarrow> (\<forall>f \<in> set fs. be_to_nat f < fr_modulus)"
  by (induction fs) auto

text \<open>The shape of the Go arrays in a frame, and a point that was parsed.\<close>

definition parsed_point :: "point64 \<Rightarrow> bool" where
  "parsed_point p = (ParsePoint64 (p64_encoded p) = Inr p)"

definition frame_arrays :: "envelope_frame \<Rightarrow> bool" where
  "frame_arrays e = (length (env_nonce e) = 16 \<and> parsed_point (env_ephemeral e) \<and> length (env_tag e) = 32 \<and>
     (\<forall>f \<in> set (env_ciphertext e). length f = 32))"

lemma parsed_point_iff: "ParsePoint64 raw = Inr p \<longleftrightarrow> parsed_point p \<and> p64_encoded p = raw"
  by (auto simp: parsed_point_def ParsePoint64_iff)

lemma parsed_point_valid: "parsed_point p \<Longrightarrow> validatePoint64Frame p = Inr () \<and> length (p64_encoded p) = 64"
  unfolding parsed_point_def
  using DecodePoint64_ok by (auto simp: validatePoint64Frame_def validPoint_parsed ParsePoint64_iff)

lemma EnvelopeBytes_ok:
  assumes "frame_arrays e"
  shows "EnvelopeBytes e = Inr raw \<longleftrightarrow>
     (\<exists>h. envelopeHeader (env_kind e) (env_inputs e) (env_outputs e) = Inr h \<and>
        PlaintextFieldCount (env_kind e) = Inr (length (env_ciphertext e)) \<and>
        (\<forall>f \<in> set (env_ciphertext e). canonical_field f) \<and> canonical_field (env_tag e) \<and>
        raw = h @ env_nonce e @ p64_encoded (env_ephemeral e) @ concat (env_ciphertext e) @ env_tag e)"
  using assms validate_fields_iff [of "env_ciphertext e"] parsed_point_valid [of "env_ephemeral e"]
  by (auto simp: EnvelopeBytes_def frame_arrays_def canonical_field_def envelopeHeader_def)

lemma take_drop_split: "length raw = n \<Longrightarrow> a \<le> n \<Longrightarrow>
   take a raw = xs \<and> drop a raw = ys \<longleftrightarrow> raw = xs @ ys \<and> length xs = a"
  by (metis append_eq_conv_conj append_take_drop_id length_take min.absorb2)

lemma ParseEnvelopeFrame_ok:
  "ParseEnvelopeFrame k i out raw = Inr e \<longleftrightarrow>
     env_kind e = k \<and> env_inputs e = i \<and> env_outputs e = out \<and> frame_arrays e \<and> EnvelopeBytes e = Inr raw"
    (is "?parse \<longleftrightarrow> ?frame")
proof
  assume ?parse
  then obtain h n cs rest ep where
    h: "envelopeHeader k i out = Inr h" and n: "PlaintextFieldCount k = Inr n" "length raw = 144 + 32 * n"
    and head: "take 32 raw = h" and nonce: "length (take 16 (drop 32 raw)) = 16"
    and eph: "ParsePoint64 (take 64 (drop 48 raw)) = Inr (ep)"
    and cs: "parseFields n (drop 112 raw) = Inr (cs, rest)" and tag: "canonical_field (take 32 rest)" "drop 32 rest = []"
    and e: "e = \<lparr>env_kind = k, env_inputs = i, env_outputs = out, env_nonce = take 16 (drop 32 raw),
       env_ephemeral = ep, env_ciphertext = cs, env_tag = take 32 rest\<rparr>"
    by (auto simp: ParseEnvelopeFrame_def ParseNonce128_def size_defs ParsePoint64_def dest: EnvelopeSize_fields
        split: if_splits)
  have body: "length cs = n" "\<forall>f \<in> set cs. canonical_field f" "drop 112 raw = concat cs @ rest"
    using cs unfolding parseFields_iff by auto
  have rest: "take 32 rest = rest" using tag(2) by simp
  have "raw = take 32 raw @ take 16 (drop 32 raw) @ take 64 (drop 48 raw) @ drop 112 raw"
    using append_take_drop_id [of 32 raw] append_take_drop_id [of 16 "drop 32 raw"] append_take_drop_id [of 64 "drop 48 raw"]
    by simp
  then have raw: "raw = h @ take 16 (drop 32 raw) @ p64_encoded (ep) @ concat cs @ rest"
    using head body(3) eph by (simp add: parsed_point_iff)
  have arrays: "frame_arrays e" unfolding e using nonce eph body tag by (auto simp: frame_arrays_def parsed_point_iff)
  then show ?frame using EnvelopeBytes_ok [OF arrays, of raw] h n body tag raw rest by (simp add: e)
next
  assume frame: ?frame
  then obtain h where h: "envelopeHeader k i out = Inr h" "length h = 32"
    and n: "PlaintextFieldCount k = Inr (length (env_ciphertext e))"
    and fs: "\<forall>f \<in> set (env_ciphertext e). canonical_field f" and tag: "canonical_field (env_tag e)"
    and raw: "raw = h @ env_nonce e @ p64_encoded (env_ephemeral e) @ concat (env_ciphertext e) @ env_tag e"
    using EnvelopeBytes_ok [of e raw] by (auto dest: envelopeHeader_length)
  have lens: "length (env_nonce e) = 16" "length (p64_encoded (env_ephemeral e)) = 64"
    "ParsePoint64 (p64_encoded (env_ephemeral e)) = Inr (env_ephemeral e)"
    using frame parsed_point_valid by (auto simp: frame_arrays_def parsed_point_def)
  obtain w where w: "EnvelopeSize k = Inr w" using n by (auto simp: EnvelopeSize_def PlaintextFieldCount_def)
  have cs: "parseFields (length (env_ciphertext e)) (concat (env_ciphertext e) @ env_tag e)
     = Inr (env_ciphertext e, env_tag e)" using fs by (simp add: parseFields_iff)
  have v: "ValidateActiveCounts k i out = Inr ()" using h(1) by (auto simp: envelopeHeader_def)
  have sz: "length raw = w" using raw h(2) lens(1,2) tag concat_fields_length [OF fs] EnvelopeSize_fields [OF w n]
    by simp
  have parts: "take 32 raw = h" "take 16 (drop 32 raw) = env_nonce e"
    "take 64 (drop 48 raw) = p64_encoded (env_ephemeral e)" "drop 112 raw = concat (env_ciphertext e) @ env_tag e"
    using raw h(2) lens(1,2) by simp_all
  show ?parse
    using h(1) n w v sz parts lens cs tag frame
    by (simp add: ParseEnvelopeFrame_def ParseNonce128_def size_defs ParsePoint64_def [symmetric])
qed

lemma concat32_inj:
  "concat xs = concat ys \<Longrightarrow> length xs = length ys \<Longrightarrow> (\<forall>f \<in> set xs \<union> set ys. length f = 32) \<Longrightarrow> xs = ys"
proof (induction xs arbitrary: ys)
  case (Cons x xs)
  then obtain y zs where "ys = y # zs" by (cases ys) auto
  with Cons show ?case by auto
qed simp

lemma Field32FromUint64_inj: "Field32FromUint64 a = Field32FromUint64 b \<longleftrightarrow> a = b"
  by (simp add: Field32FromUint64_def)

definition context_arrays :: "audit_context \<Rightarrow> bool" where
  "context_arrays c = (length (ctx_pi c) = 21 \<and> (\<forall>f \<in> set (ctx_pi c). length f = 32))"

definition context_preimage :: "audit_context \<Rightarrow> bytes \<Rightarrow> bytes" where
  "context_preimage c nonce = string_bytes AuditContextDomain @ concat
     ([Field32FromUint64 2, Field32FromUint64 2, Field32FromUint64 (ucast (ctx_kind c))] @ ctx_pi c @
      [replicate 16 0 @ nonce])"

lemma context_preimage_inj:
  assumes "context_arrays c" "context_arrays d" "length m = 16" "length n = 16"
    and "context_preimage c m = context_preimage d n"
  shows "ctx_kind c = ctx_kind d \<and> ctx_pi c = ctx_pi d \<and> m = n"
proof -
  let ?l = "\<lambda>c m. [Field32FromUint64 2, Field32FromUint64 2, Field32FromUint64 (ucast (ctx_kind c))] @ ctx_pi c @
      [replicate 16 0 @ m]"
  have "?l c m = ?l d n"
    by (rule concat32_inj) (use assms in \<open>auto simp: context_preimage_def context_arrays_def Field32FromUint64_def\<close>)
  then have k: "ucast (ctx_kind c) = (ucast (ctx_kind d) :: u64)" and t: "ctx_pi c @ [replicate 16 0 @ m] = ctx_pi d @ [replicate 16 0 @ n]"
    by (simp_all add: Field32FromUint64_inj)
  have "ctx_kind c = ctx_kind d" 
    using arg_cong [OF k, of unat] unat_u8_less [of "ctx_kind c"] unat_u8_less [of "ctx_kind d"]
    by (simp add: unsigned_ucast_eq take_bit_eq_mod word_unat_eq_iff)
  with t show ?thesis by simp
qed

lemma ContextHash_ok:
  "ContextHash c nonce = Inr h \<longleftrightarrow> AuditContext_validate (ctx_kind c) (ctx_pi c) = Inr () \<and> h = sha256 (context_preimage c nonce)"
  by (auto simp: ContextHash_def context_T_def context_preimage_def size_defs)

lemma NewAuditKey_validate: "NewAuditKey p = Inr k \<Longrightarrow> AuditKey_validate k = Inr ()"
  by (auto simp: NewAuditKey_def AuditKey_validate_def)

lemma context_key_valid: "auditKeyFromPublicInputs pi = Inr key \<Longrightarrow> AuditKey_validate key = Inr ()"
  by (cases "DigestFields (ak_id key)")
    (auto simp: auditKeyFromPublicInputs_def Let_def case_prod_beta NewAuditKey_validate)

lemma digest_fields_inj:
  "length d = 32 \<Longrightarrow> length e = 32 \<Longrightarrow> DigestFields d = DigestFields e \<longleftrightarrow> d = e"
  by (auto simp: DigestFields_def) (metis append_take_drop_id)

lemma traverse_unsigned:
  "(\<exists>u. traverseE (\<lambda>i. validateUnsignedField (pi ! i) w) is' = Inr u) \<longleftrightarrow>
     (\<forall>i \<in> set is'. validateUnsignedField (pi ! i) w = Inr ())"
  by (induction is') auto

lemma zero_field_iff: "length v = 32 \<Longrightarrow> v = ZeroField32 \<longleftrightarrow> be_to_nat v = 0"
  using be_to_nat_inj [of v ZeroField32] by (simp add: ZeroField32_def be_to_nat_replicate0)

section \<open>Properties\<close>

text \<open>The envelope codec is a bijection between frames and accepted byte strings: a byte string parses, for a
  kind and active counts, to a frame exactly when that frame has this kind and these counts, arrays of the right size and
  a valid ephemeral point, and its encoding is the byte string. So an encoded frame parses back to itself, an accepted
  string is the encoding of what was parsed, and trailing or missing bytes are refused.\<close>

lemma envelope_codec:
  "ParseEnvelopeFrame k i out raw = Inr e \<longleftrightarrow>
     env_kind e = k \<and> env_inputs e = i \<and> env_outputs e = out \<and> frame_arrays e \<and> EnvelopeBytes e = Inr raw"
  by (rule ParseEnvelopeFrame_ok)

text \<open>The public context of a transition is accepted exactly when it has 21 canonical field elements, the
  digest halves and the amount are below \<open>2^128\<close>, the key epoch and the expiry are positive and below \<open>2^64\<close>, the active
  counts are admissible for the kind and the audit key named by its digest is the key of the point in the context.\<close>

lemma audit_context_accepted:
  assumes "\<forall>f \<in> set pi. length f = 32"
  shows "(\<exists>c. NewAuditContext k pi = Inr c) \<longleftrightarrow>
     length pi = 21 \<and> (\<forall>f \<in> set pi. be_to_nat f < fr_modulus) \<and>
     (\<forall>i \<in> {0, 1, 2, 3, 15, 17, 18, 19, 20}. be_to_nat (pi ! i) < 2 ^ 128) \<and>
     (\<forall>i \<in> {4, 7}. 0 < be_to_nat (pi ! i) \<and> be_to_nat (pi ! i) < 2 ^ 64) \<and>
     be_to_nat (pi ! 9) < 2 ^ 5 \<and> be_to_nat (pi ! 10) < 2 ^ 6 \<and>
     ValidateActiveCounts k (pi ! 9 ! 31) (pi ! 10 ! 31) = Inr () \<and>
     (\<exists>key. auditKeyFromPublicInputs pi = Inr key \<and> AuditKey_validate key = Inr ())"
proof (cases "length pi = 21")
  case True
  then have len: "length (pi ! i) = 32" if "i < 21" for i using assms that by simp
  have shape: "\<exists>s. shape k = Inr s" if "ValidateActiveCounts k i j = Inr ()" for i j
    using that by (auto simp: ValidateActiveCounts_def)
  show ?thesis
    using True validate_fields_iff [of pi] traverse_unsigned [of pi 128 "[0, 1, 2, 3, 15, 17, 18, 19, 20]"]
      traverse_unsigned [of pi 64 "[4, 7]"] context_key_valid [of pi] shape [of "pi ! 9 ! 31" "pi ! 10 ! 31"]
    by (simp add: NewAuditContext_def AuditContext_validate_def AuditContextPublicFieldCount_def fieldUint8_def len
        unsigned_field_iff zero_field_iff FieldSize_def del: traverseE.simps) blast
qed (auto simp: NewAuditContext_def AuditContextPublicFieldCount_def)


text \<open>The hash of a context is SHA-256 of a preimage that determines the context: two contexts with their nonces
  have the same preimage exactly when they have the same kind, the same 21 public inputs and the same nonce.\<close>

lemma context_hash_binding:
  assumes "context_arrays c" "context_arrays d" "length m = 16" "length n = 16"
  shows "(context_preimage c m = context_preimage d n \<longleftrightarrow> (ctx_kind c, ctx_pi c, m) = (ctx_kind d, ctx_pi d, n)) \<and>
     ContextHash c m = bindE (AuditContext_validate (ctx_kind c) (ctx_pi c)) (\<lambda>_. Inr (sha256 (context_preimage c m)))"
  using assms context_preimage_inj [of c d m n]
  by (auto simp: ContextHash_def context_T_def context_preimage_def size_defs bindE_def split: sum.splits)

definition blank_context :: "kind \<Rightarrow> audit_context" where
  "blank_context k = \<lparr>ctx_kind = k, ctx_pi = replicate 21 ZeroField32,
     ctx_key = \<lparr>ak_point = \<lparr>p64_encoded = [], p64_point = Identity, p64_valid = False\<rparr>, ak_id = []\<rparr>\<rparr>"


end
