(* ===== verification/Audit_Params.thy ===== *)
theory Audit_Params
  imports Audit_Schema
begin

text \<open>
  The pinned public constants of audit suite 2 (\<^verbatim>\<open>x/privacy/crypto/auditfield/params_literals.go\<close>): the 80 round
  constants of the Poseidon2 permutation and the nine pairs of SAFE initialization tags, as the 32-byte
  big-endian strings of the source.
\<close>

definition Poseidon2Width :: nat where "Poseidon2Width = 3"
definition Poseidon2Rate :: nat where "Poseidon2Rate = 1"
definition Poseidon2FullRounds :: nat where "Poseidon2FullRounds = 8"
definition Poseidon2PartialRounds :: nat where "Poseidon2PartialRounds = 56"

lemmas poseidon_defs = Poseidon2Width_def Poseidon2Rate_def Poseidon2FullRounds_def Poseidon2PartialRounds_def

definition poseidon2RoundConstants :: "bytes list" where
  "poseidon2RoundConstants = map (be_of_nat 32) [
     0x2ba117aea05b03e08d3e8cdc3441e489710b7eae2127240261f1161a4c375ec3,
     0x13d62b66e9d5236b1c4349076bc462097eca577bcd980e3e5262986898001a95,
     0x2ceb56ddb7d8c8886771c2f12a458edd58886a852e29ea9a157cb6c3ba8201a2,
     0x0ba9383b6a5ba188031f7377b152f8df895115269e8437f9eccdc767ecaf458f,
     0x188b8a2dd4baa4aeda8cf74c2cb3f5dfa482de9987f03fdeafd832f6c3be19c6,
     0x2672744cbbe045c930be1dcaae5b38cf4f0b9673514cbe5129908164ef7d7b58,
     0x1e0365a9b92d37b502579f6a3c3236df558f8417be56e58908897fa5cfbf15bb,
     0x2060426d53c6386a3f2f4e29d886bfc8e1be0ddafbdb50a9fd0be33143d1004a,
     0x1b917ac39485d49545e20d21e06735af839b1360e077daa4dfc2938ff91ce4d0,
     0x2065aa0d75c8773cd397593ca429c21ad2d10c066a09dea04378fed619021786,
     0x04767c771c63b9efcaee16d3463c0457ba7f029dd533e5c7f4b3ccef3677db6b,
     0x2b632ce28c5d4908c11b68f4ed9e3da0dd104c018d2376eaa0abd28f9cf8bd76,
     0x122bd8150e3bf5129ed1f41b201d3881fe41c68ed194ffe6b414de857f03765d,
     0x23d4440906f4412f8994c3fa4cc08e849c0fbd10dc12518a07c0e8d77562c13f,
     0x2c5e99b87c743de13935855afed6cf836d6dd62ce31dfdca21efcfe197c9e321,
     0x06fba87a3924cbbb4117b782aa697bbc23900de6bf31a28ecc2f6a9225aebfe4,
     0x0c954d8f108f43ece97439775cfa22e1343a6cacae91604c76601eb6c7e90e1b,
     0x20980b82aa1ac356a0a48bc8101468c74f1efd47cd29ea01a852d6af93836a44,
     0x07e9df3ac21d190f9281b2ac56bf9dcce410bf95bd7fc196f4cfbb86acb60ec6,
     0x01e7459f591496f37d759e6eb427fa073eb923d9a67b066271dabe8e793ad796,
     0x0c1b5194e4c1af42dc01dadde54c73624ce1b8a0302d25ad499b2036f768e6e8,
     0x0cfd0f94030d285ffb85c8aa9f0675ac7077133b5a329c78b74656932fac8a27,
     0x0212ea73cc21625d7f1e361ad3df28c9f9cfd57fec66fb1bf69f1ab7cd11c55c,
     0x25fbc0b1fa13ea08b022f853e9b07a5c0fe9d5fb23c26eec54599100e60d57f6,
     0x074521adcc4a9387f4d6feeac681b1115b92f5e98e35d6d591d79b75d61d204c,
     0x267f9f5e6eea2a9d8816d7b683ab95d8121adeeaae66990bd24be95b6f0a0cd9,
     0x2fdf445c73cde6a7f4f23bef9bf520ceb72f08dabd391b118a253630f2878ade,
     0x02645e68b2890d258fa7eaffbc587c5ca8f7099cc4ddf923e23672c6153a8ae7,
     0x0c9e3d4841852fcf02818cdd86c3d86dcae4c1f7c140c3b17edc1f17b2652079,
     0x0a42e90f71ff44221ec000e0ff81b6f229292b0cb4470ff7c66c1fe06d9e69aa,
     0x1fb9a7d91fcf3173a1d80d3749192ed7d8a5b50cfd631571dc15154d0e71d7a2,
     0x10bff373cf04aca27c90792eaa545000503d6f118f4d9c5a906203aefe316d42,
     0x00956799581ce2c42ed5b55a130fb853683014e7cb9c3f32b9dfa4cf5c53127a,
     0x2b0bd2da61cae5f4f442b449cb1e9cc6af7a6d126b02ffd65aa887278741ab07,
     0x01c76af7e47ec30b4139081219fd7d173d498ba2e2ca928fb2b26019b16e5c64,
     0x2d9e586bd3c8cde82932cd1397db8564cbdebfc4f5c970e28a2d9f559db9d696,
     0x2c4b2a625ac29f468cc94f6a3ebdb7bb962f245568676073b829b95ace6d1ccc,
     0x027299c22883e4d52b8251a0724083c063e7be0a7f0070fba1c8d4d206841e6a,
     0x2af17121feea81979d98fa13cfdb5cf7f1f1717168ee7bf2da3709e589c381e7,
     0x09ad5501e4c9db7fee67f2fda8ce71162e6b2e0fc252f03c3d40470168ed4ea7,
     0x276bf230a40c51dac71697a84d603ac0423e3d8f23cc9330a23306976f7f902d,
     0x0b40af0d626b972c04b83a3897031c9bd0b4acc3b138fc505e15fdb6b60ba5f8,
     0x15c6033f97a1337ce18e37d0d22cf07f6c80f96af620c4d67c351e7210d688cf,
     0x27a5134eeea854449d10ae3dd3e17cbfc0f24c21a4265bb1e99982af48eb3966,
     0x0a3f27bafac251bbc63797868e84434a412400913e2e11616cb18f3bd01eb0d7,
     0x09409ff82de14430d5f1f16dd157c8175372a4f922b3563550230390c4476c59,
     0x1b6b39381a0b663344ee9a8cff259b84c593b709cf543014996ec33c7a00008b,
     0x16ac5b58d45468a298e60cbb92055daa665f29dd7194c77cac679c35f6f64552,
     0x121fb0f41bab603e46a4f4cb110d0a56bceff1f3af5577e7715e3777a5cfe7d8,
     0x056f262099a9d3e1d0060799732486358ad8b7bd2f515dd8767c2d19917d282d,
     0x0626740e4ff0fe7b8df127d56310c0c1fc47a07f630983bd55800ee8e24911d8,
     0x0b2b0b1213bed0c4b40fe2c938d076c65f22fe21eef4767b507561a63eea2874,
     0x1674784dcc6d6b3ef6467ee673c85311d1375aa39122ecf4b942caba565a6982,
     0x0690678b4bc42090fdbed7a334b323db5441a24c92b5b234f54ec16cff367db3,
     0x186719b1d7d0fb0087396c72ba57f53a5b67dc1077b82caadc62d5cdf7cd8db4,
     0x0178ed1e5ce3430020a30f0684fb01c60136e731a9a8c6afcbad139af2e8fcf7,
     0x1f31dc123a2384c71b57678dcf5a2fa6294f88a21a333cbec5facbc69424306c,
     0x017d928d2e3dbbe3a273f0bec79f881f8b75f4d333002b528fb1ae737cbf13eb,
     0x2f4fb0605668c045469510611c0137828be267709c0fa9392c28c2d95f9504bb,
     0x2ee2627a181d62b24501da3efccba9b4a9b61e6d9a7cdaa152c39347bdebe481,
     0x254cd2d79997885ca82e0ec5998aab8de0b09a02d04f54dcbd1a6f8776fd537b,
     0x2aa675a61643b83ad60d88b16c574a4695fc1b463dd44f8bbd674d1a1294dbfe,
     0x2dbc70b7e86794439ebd7d10cee37147e51769ed7a441187f6e22e644a003a51,
     0x19fc425ab24feca173ddab7070ebb4a2eeb9b82bee3a399ebedef2affe3ecd96,
     0x1b7a37f7ef7ce586df66295e955aba1b9b15052673534d4c13e02c19f02959e2,
     0x0772f989bc7bc4361340c9887a0225b92a192c14a85dc3ade21f6135b9239341,
     0x13f24e0e97fad4c45866626b9a1b9f3cc46f4ab2a018f0bda5bdade2087a07cf,
     0x1976c62d2c2c4ba095ff81bef054fe0757d7301950ede83426a34dd6cc12a4a5,
     0x1ea7aeca90530805e5fa1b676a6f12ace24c1c0f5b6cd68bf01558be11bb864a,
     0x070249ba94928b35fe02f56b12590e86f21a8a19e949ec10b62a5fcefea5c2b3,
     0x02cd4b5f5d87caaac64f78c44a62c408211c2e1d70a69549f9f1d36bd8a46073,
     0x07f4c9774540f9f81fa29a73910899ad91d950e8f83a4f52d37ccc35a982f152,
     0x02d8b931d897f634fd9cdae140a7b3f4d4bab1814e009fe84e754c4a23ae23cc,
     0x2b9e86726e0cfec43981d9898da6ddb631ae469a473aa73e570274ecd2376899,
     0x0c96c00773943b1de5a3dfb5959f30975f85adc57cc641bc2cea037837447191,
     0x258a43226d21462808593a8701f2dce2aaa28668f8fe35647a706fa4a81d5d47,
     0x26688ac841f42286102d1494db773e91760d8cad9cfb1a654284ed630a9bee42,
     0x0b39f30858ad21e1805c8ced014837777cfdd776fc2d4c07a97b2351f21764b1,
     0x0b114bc66867e038d6648a6ab3556243a5f78ea3db7aa997ba13961735792377,
     0x0c08b1719426f8ff2dee487f9f41ac785ffdb8a7be5fc869754689cb02999e51]"

definition staticTags :: "(bytes \<times> bytes) list" where
  "staticTags = map (\<lambda>(x, y). (be_of_nat 32 x, be_of_nat 32 y)) [
     (0x1b4a909a22276ef55af912379325698177d9d1899da5344e7d64a53c21fe9d3e,
      0x1e0675dc5eb4757e7d10021ed670fac5a45dffd2400ccaa7032723a2859cdbd8),
     (0x15e055bc7746f98215aec2cf37d78de20fb068ad2b6e4e7f058813c39fb905b0,
      0x076c209c6cac2252bc16cf8ba8764dd507372eae6a342f4795325baa5bdce294),
     (0x2b48d6e74835ccdb23f6c88427bafb4d721bdf038cd208de1dbbd4db81106908,
      0x252beebdf6ba5571c8e469924f32e6203cac60bd2ce13ea19797f2b68795b112),
     (0x28f0200bb705b0d0b91398fe8454f3c1c05d9dce342554902144d1cceab676cb,
      0x162cffed9ffb848da374aa5d8f73dd1440418e540a8f9e6fc08d81920bb5435f),
     (0x2a659549a8f0972ee4799a1c12e4cf132ab93073d5509b783e6a83cd9d126051,
      0x1d4b90be3f4d7b04e7e4b67eeb848e609de98e45c824c2c1c124bf8f78a89efc),
     (0x266e441df56ddcdc3886f4f99dbd62fbd99474d3133c26d79edfe1016d250712,
      0x1aa9cb970d98c5a2727df92dc256ca77da09359947b46531bc7bc1f71288dcbd),
     (0x1b7670488e4e2957b93ab26ed2baedab49daf9d3fa29a3439c9f6ce90609bc76,
      0x1233f90df3c1662f8570dd2994ba2660ec33d002a72e88bbe9aecc9b11bd21f8),
     (0x0bcf6b3784316d1da8bc201a44319d826217fe4f8e92ed45ce1e47383952cd08,
      0x29f5744af578313a16723466b2e6d48512d07af8b4c89c071bb22e4ddeccc0b4),
     (0x0967fb31ceb2e6002f2582cecc8989f5b77b8b4f2a8e6e98d1aadbfaf422f459,
      0x18feb884a4202cf1f03ebcdbf2e0e4ce3a1f4ba8cec0f4d370f50ddeaa93b217)]"

text \<open>Every pinned literal is a canonical field element, so the panic of the permutation and the error of
  \<^verbatim>\<open>fixedTag\<close> on a malformed literal are never taken.\<close>

lemma be32_val: "x < fr_modulus \<Longrightarrow> fr_FromCanonicalBE (be_of_nat 32 x) = Some x"
  using fr_modulus_bound by (simp add: fr_FromCanonicalBE_def be_to_nat_be_of_nat)

lemma round_constants_count: "length poseidon2RoundConstants = 80"
  by (simp add: poseidon2RoundConstants_def)

lemma round_constants_canonical: "\<forall>c \<in> set poseidon2RoundConstants. fr_FromCanonicalBE c \<noteq> None"
  unfolding poseidon2RoundConstants_def by (simp add: be32_val [unfolded fr_modulus_def] del: not_None_eq fr_FromCanonicalBE_Some)

lemma static_tags_count: "length staticTags = 9"
  by (simp add: staticTags_def)

lemma static_tags_canonical:
  "\<forall>(x, y) \<in> set staticTags. fr_FromCanonicalBE x \<noteq> None \<and> fr_FromCanonicalBE y \<noteq> None"
  unfolding staticTags_def by (simp add: be32_val [unfolded fr_modulus_def] del: not_None_eq fr_FromCanonicalBE_Some)

end
