(* ===== verification/Secret_Profile.thy ===== *)
theory Secret_Profile
  imports Ed_Curve
begin

text \<open>
  The gate before secrets are handled (\<^verbatim>\<open>internal/ctbn254/secretprofile\<close>): the profile of the machine and of the build, and the settings of the runtime that
  switch off the instructions the secret arithmetic needs. What the code reads from the Go runtime, the processor and the environment is one argument.
\<close>

record host =
  host_os :: string
  host_arch :: string
  host_go_version :: string
  host_purego :: bool
  host_arm64_aes :: bool
  host_arm64_pmull :: bool
  host_arm64_dit :: bool
  host_x86_aes :: bool
  host_x86_pclmulqdq :: bool
  host_godebug :: string

record secret_profile =
  pr_os :: string
  pr_arch :: string
  pr_go_version :: string
  pr_aes :: bool
  pr_multiply :: bool
  pr_dit :: bool
  pr_purego :: bool

definition ErrUnsupported :: error where "ErrUnsupported = Errorf ''unsupported native secret execution profile''"

definition CurrentProfile :: "host \<Rightarrow> secret_profile" where
  "CurrentProfile h =
     (let p = \<lparr>pr_os = host_os h, pr_arch = host_arch h, pr_go_version = host_go_version h, pr_aes = False, pr_multiply = False, pr_dit = False, pr_purego = host_purego h\<rparr>
      in if host_arch h = ''arm64'' then p\<lparr>pr_aes := host_arm64_aes h, pr_multiply := host_arm64_pmull h, pr_dit := host_arm64_dit h\<rparr>
         else if host_arch h = ''amd64'' then p\<lparr>pr_aes := host_x86_aes h, pr_multiply := host_x86_pclmulqdq h\<rparr>
         else p)"

text \<open>\<^verbatim>\<open>strings.Split\<close> with a separator of one character.\<close>

fun splitOn :: "char \<Rightarrow> string \<Rightarrow> string list" where
  "splitOn c [] = [[]]"
| "splitOn c (x # xs) = (if x = c then [] # splitOn c xs else (case splitOn c xs of [] \<Rightarrow> [[x]] | y # ys \<Rightarrow> (x # y) # ys))"

definition disabling :: "string list" where
  "disabling = [''cpu.all=off'', ''cpu.aes=off'', ''cpu.pmull=off'', ''cpu.pclmulqdq=off'', ''cpu.dit=off'']"

definition validateProfile :: "secret_profile \<Rightarrow> string \<Rightarrow> unit res" where
  "validateProfile p godebug =
     (if pr_purego p \<or> (pr_os p \<noteq> ''darwin'' \<and> pr_os p \<noteq> ''linux'') \<or> (pr_arch p \<noteq> ''arm64'' \<and> pr_arch p \<noteq> ''amd64'') \<or> \<not> pr_aes p \<or> \<not> pr_multiply p
      then Inl ErrUnsupported
      else if pr_arch p = ''arm64'' \<and> \<not> pr_dit p then Inl ErrUnsupported
      else if list_ex (\<lambda>setting. setting \<in> set disabling) (splitOn (CHR '','') godebug) then Inl ErrUnsupported
      else Inr ())"

definition Check :: "host \<Rightarrow> unit res" where
  "Check h = validateProfile (CurrentProfile h) (host_godebug h)"

text \<open>The pieces hold no separator and joined by it give the string back.\<close>

fun joinWith :: "char \<Rightarrow> string list \<Rightarrow> string" where
  "joinWith c [] = []"
| "joinWith c [x] = x"
| "joinWith c (x # y # ys) = x @ c # joinWith c (y # ys)"

lemma splitOn_nonempty: "splitOn c xs \<noteq> []"
  by (induction xs) (auto split: list.splits)

lemma splitOn_join: "joinWith c (splitOn c xs) = xs \<and> (\<forall>x \<in> set (splitOn c xs). c \<notin> set x)"
proof (induction xs)
  case (Cons x xs)
  obtain y ys where "splitOn c xs = y # ys" using splitOn_nonempty by (meson list.exhaust)
  then show ?case using Cons by (cases ys) auto
qed simp

text \<open>Without the native instructions, in a build without assembly or with one of the settings, nothing secret is handled.\<close>

lemma check_closed:
  "Check h = Inr () \<Longrightarrow> \<not> host_purego h \<and> host_os h \<in> {''darwin'', ''linux''} \<and> host_arch h \<in> {''arm64'', ''amd64''} \<and>
     set (splitOn (CHR '','') (host_godebug h)) \<inter> set disabling = {}"
  by (auto simp: Check_def validateProfile_def CurrentProfile_def Let_def list_ex_iff split: if_splits)

end
