(* ===== verification/Audit_Cipher.thy ===== *)
theory Audit_Cipher
  imports Audit_Params Secret_Profile
begin

text \<open>
  Encryption to the auditor (\<^verbatim>\<open>x/privacy/crypto/auditfield\<close>: \<^verbatim>\<open>sponge.go\<close>, \<^verbatim>\<open>audit.go\<close>, \<^verbatim>\<open>root.go\<close>): the Poseidon2
  permutation and the SAFE sponge with its call schedule, the key derivation, the authenticated
  encryption and its inverse, the cipher root, and the two entry points that encrypt a plaintext for a context and
  decrypt an envelope. The clearing of secrets has no counterpart, since a value of the model is not
  stored. The lemmas show that opening accepts exactly what sealing produced, that the sponge never
  leaves its schedule, and what decryption checks.
\<close>

section \<open>The permutation\<close>

definition pinned :: "bytes \<Rightarrow> nat" where
  "pinned c = (case fr_FromCanonicalBE c of Some v \<Rightarrow> v | None \<Rightarrow> 0)"

definition poseidonSBox :: "nat \<Rightarrow> nat" where
  "poseidonSBox v = (let square = fr_square v; fourth = fr_square square in fr_mul fourth v)"

definition poseidonExternal :: "nat list \<Rightarrow> nat list" where
  "poseidonExternal st =
     (let sum = fr_add (fr_add (st ! 0) (st ! 1)) (st ! 2) in map (\<lambda>x. fr_add x sum) st)"

definition poseidonInternal :: "nat list \<Rightarrow> nat list" where
  "poseidonInternal st =
     (let sum = fr_add (fr_add (st ! 0) (st ! 1)) (st ! 2); twice = fr_add (st ! 2) (st ! 2)
      in [fr_add (st ! 0) sum, fr_add (st ! 1) sum, fr_add twice sum])"

definition poseidonRound :: "nat \<Rightarrow> nat \<times> nat list \<Rightarrow> nat \<times> nat list" where
  "poseidonRound round = (\<lambda>(constantIndex, st).
     let full = (round < Poseidon2FullRounds div 2 \<or> round \<ge> Poseidon2FullRounds div 2 + Poseidon2PartialRounds);
         width = (if full then Poseidon2Width else 1);
         st = fold (\<lambda>i st. st[i := fr_add (st ! i) (pinned (poseidon2RoundConstants ! (constantIndex + i)))]) [0..<width] st
     in (constantIndex + width,
         if full then poseidonExternal (map poseidonSBox st)
         else poseidonInternal (st[0 := poseidonSBox (st ! 0)])))"

definition permute_state :: "nat list \<Rightarrow> nat list" where
  "permute_state st =
     snd (fold poseidonRound [0..<Poseidon2FullRounds + Poseidon2PartialRounds] (0, poseidonExternal st))"

section \<open>The sponge\<close>

record sponge =
  sp_state :: "nat list"
  sp_absorbed :: nat
  sp_squeezed :: nat
  sp_expected :: "u32 list"
  sp_calls :: "u32 list"

definition ioAbsorbWord :: "nat \<Rightarrow> u32" where
  "ioAbsorbWord n = 0x80000000 OR word_of_nat n"

definition newFixedSponge :: "nat \<times> nat \<Rightarrow> u32 list \<Rightarrow> sponge" where
  "newFixedSponge tag expected =
     \<lparr>sp_state = [0, fst tag, snd tag], sp_absorbed = 0, sp_squeezed = 0, sp_expected = expected, sp_calls = []\<rparr>"

definition absorb_one :: "nat \<Rightarrow> sponge \<Rightarrow> sponge" where
  "absorb_one v s =
     (let s = (if sp_absorbed s = Poseidon2Rate
               then s\<lparr>sp_state := permute_state (sp_state s), sp_absorbed := 0\<rparr> else s)
      in s\<lparr>sp_state := (sp_state s)[sp_absorbed s := fr_add (sp_state s ! sp_absorbed s) v],
           sp_absorbed := sp_absorbed s + 1\<rparr>)"

definition absorb :: "nat list \<Rightarrow> sponge \<Rightarrow> sponge" where
  "absorb vs s =
     (let s = fold absorb_one vs s
      in s\<lparr>sp_calls := sp_calls s @ [ioAbsorbWord (length vs)], sp_squeezed := Poseidon2Rate\<rparr>)"

definition squeeze :: "sponge \<Rightarrow> nat \<times> sponge" where
  "squeeze s =
     (let s = (if sp_squeezed s = Poseidon2Rate
               then s\<lparr>sp_state := permute_state (sp_state s), sp_squeezed := 0, sp_absorbed := 0\<rparr> else s);
          v = sp_state s ! sp_squeezed s
      in (v, s\<lparr>sp_squeezed := sp_squeezed s + 1, sp_calls := sp_calls s @ [1]\<rparr>))"

definition sponge_finish :: "sponge \<Rightarrow> unit res" where
  "sponge_finish s = guardE (sp_calls s = sp_expected s) (Errorf ''SAFE IO schedule mismatch'')"

definition fixedTag :: "nat \<Rightarrow> (nat \<times> nat) res" where
  "fixedTag index =
     (if index \<ge> length staticTags then Inl (Errorf ''invalid fixed SAFE tag'')
      else case (fr_FromCanonicalBE (fst (staticTags ! index)), fr_FromCanonicalBE (snd (staticTags ! index))) of
             (Some a, Some b) \<Rightarrow> Inr (a, b)
           | _ \<Rightarrow> Inl (Errorf ''invalid pinned SAFE tag''))"

definition hash2 :: "nat \<Rightarrow> nat list \<Rightarrow> (nat \<times> nat) res" where
  "hash2 tagIndex vals =
     bindE (fixedTag tagIndex) (\<lambda>tag.
     let s = newFixedSponge tag [ioAbsorbWord (length vals), 1, 1];
         s = absorb vals s;
         (a, s) = squeeze s;
         (b, s) = squeeze s
     in bindE (sponge_finish s) (\<lambda>_. Inr (a, b)))"

section \<open>Sealing and opening\<close>

definition pointCoordinates :: "ed_point \<Rightarrow> (nat \<times> nat) option" where
  "pointCoordinates p = EdAffine p"

definition auditKDF :: "ed_point \<Rightarrow> ed_point \<Rightarrow> nat list \<Rightarrow> (nat \<times> nat) res" where
  "auditKDF shared ephemeral transcript =
     (case pointCoordinates shared of None \<Rightarrow> Inl (Errorf ''invalid shared point'')
      | Some (sx, sy) \<Rightarrow>
     (case pointCoordinates ephemeral of None \<Rightarrow> Inl (Errorf ''invalid ephemeral point'')
      | Some (ex, ey) \<Rightarrow> hash2 0 ([sx, sy, ex, ey] @ transcript)))"

definition aeSchedule :: "nat \<Rightarrow> nat \<Rightarrow> u32 list" where
  "aeSchedule n aad =
     [ioAbsorbWord 2, ioAbsorbWord aad] @ concat (replicate n [1, ioAbsorbWord 1]) @ [1]"

fun sealLoop :: "nat list \<Rightarrow> sponge \<Rightarrow> nat list \<times> sponge" where
  "sealLoop [] s = ([], s)"
| "sealLoop (m # ms) s =
     (let (mask, s) = squeeze s;
          c = fr_add m mask;
          s = absorb [m] s;
          (cs, s) = sealLoop ms s
      in (c # cs, s))"

fun openLoop :: "nat list \<Rightarrow> sponge \<Rightarrow> nat list \<times> sponge" where
  "openLoop [] s = ([], s)"
| "openLoop (c # cs) s =
     (let (mask, s) = squeeze s;
          m = fr_sub c mask;
          s = absorb [m] s;
          (ms, s) = openLoop cs s
      in (m # ms, s))"

definition sealAudit :: "ed_point \<Rightarrow> ed_point \<Rightarrow> nat list \<Rightarrow> nat list \<Rightarrow> kind \<Rightarrow> nat list res" where
  "sealAudit shared ephemeral transcript message k =
     bindE (auditKDF shared ephemeral transcript) (\<lambda>key.
     case pointCoordinates ephemeral of None \<Rightarrow> Inl (Errorf ''invalid ephemeral point'')
     | Some (ex, ey) \<Rightarrow>
     let aad = transcript @ [ex, ey, length message]
     in bindE (fixedTag (unat k)) (\<lambda>tag.
        let s = newFixedSponge tag (aeSchedule (length message) (length aad));
            s = absorb [fst key, snd key] s;
            s = absorb aad s;
            (ciphertext, s) = sealLoop message s;
            (authTag, s) = squeeze s
        in bindE (sponge_finish s) (\<lambda>_. Inr (ciphertext @ [authTag]))))"

definition openAudit :: "ed_point \<Rightarrow> ed_point \<Rightarrow> nat list \<Rightarrow> nat list \<Rightarrow> kind \<Rightarrow> nat list option" where
  "openAudit shared ephemeral transcript ciphertext k =
     (if length ciphertext < 1 then None
      else case auditKDF shared ephemeral transcript of Inl _ \<Rightarrow> None
      | Inr key \<Rightarrow>
      let n = length ciphertext - 1
      in case pointCoordinates ephemeral of None \<Rightarrow> None
      | Some (ex, ey) \<Rightarrow>
      let aad = transcript @ [ex, ey, n]
      in case fixedTag (unat k) of Inl _ \<Rightarrow> None
      | Inr tag \<Rightarrow>
      let s = newFixedSponge tag (aeSchedule n (length aad));
          s = absorb [fst key, snd key] s;
          s = absorb aad s;
          (plain, s) = openLoop (take n ciphertext) s;
          (computedTag, s) = squeeze s
      in if sponge_finish s = Inr () \<and> computedTag = ciphertext ! n then Some plain else None)"

definition cipherRoot :: "kind \<Rightarrow> nat list \<Rightarrow> ed_point \<Rightarrow> nat list \<Rightarrow> cipher_root res" where
  "cipherRoot k transcript ephemeral ciphertext =
     (case pointCoordinates ephemeral of None \<Rightarrow> Inl (Errorf ''invalid ephemeral point'')
      | Some (ex, ey) \<Rightarrow>
      bindE (hash2 (4 + unat k) (transcript @ [ex, ey] @ ciphertext)) (\<lambda>digest.
      Inr \<lparr>root_left = fr_Bytes (fst digest), root_right = fr_Bytes (snd digest)\<rparr>))"

definition fieldElements :: "bytes list \<Rightarrow> nat list res" where
  "fieldElements fs =
     traverseE (\<lambda>f. bindE (validateField32 f) (\<lambda>_.
       case fr_FromCanonicalBE f of None \<Rightarrow> Inl ErrInvalidField | Some v \<Rightarrow> Inr v)) fs"

section \<open>Encrypting and decrypting\<close>

definition encryptAuditWithNonce ::
  "audit_key \<Rightarrow> nat \<Rightarrow> audit_context \<Rightarrow> bytes \<Rightarrow> audit_plain \<Rightarrow> (envelope_frame \<times> cipher_root) res" where
  "encryptAuditWithNonce key r context nonce plain =
     bindE (AuditKey_validate key) (\<lambda>_.
     bindE (guardE (AuditContext_validate (ctx_kind context) (ctx_pi context) = Inr () \<and> ak_id (ctx_key context) = ak_id key)
              (Errorf ''invalid audit context or key binding'')) (\<lambda>_.
     bindE (guardE (plain_kind plain = ctx_kind context) (Errorf ''audit plaintext kind does not match context'')) (\<lambda>_.
     bindE (guardE (r \<noteq> 0) (Errorf ''invalid audit encryption scalar'')) (\<lambda>_.
     bindE (context_T context nonce) (\<lambda>t.
     bindE (fieldElements t) (\<lambda>transcript.
     bindE (fieldElements (plain_fields plain)) (\<lambda>message.
     bindE (validPoint (ak_point key)) (\<lambda>pk.
     let ephemeral = ScalarMult Base r; shared = ScalarMult pk r
     in bindE (sealAudit shared ephemeral transcript message (ctx_kind context)) (\<lambda>ciphertext.
        bindE (EncodePoint64 ephemeral) (\<lambda>encodedEphemeral.
        bindE (ParsePoint64 encodedEphemeral) (\<lambda>ephemeral64.
        bindE (cipherRoot (ctx_kind context) transcript ephemeral ciphertext) (\<lambda>root.
        bindE (NewEnvelopeFrame (ctx_kind context) (ctx_pi context ! 9 ! 31) (ctx_pi context ! 10 ! 31) nonce ephemeral64
                 (map fr_Bytes (butlast ciphertext)) (fr_Bytes (last ciphertext))) (\<lambda>frame.
        Inr (frame, root))))))))))))))"

text \<open>The public encryption: the gate, the scalar from 32-byte draws of the system reader and the nonce read after it (\<open>None\<close> when the reader fails). The witness is the scalar.\<close>

definition EncryptAuditForProver ::
  "host \<Rightarrow> bytes list \<Rightarrow> bytes option \<Rightarrow> audit_context \<Rightarrow> audit_plain \<Rightarrow> (envelope_frame \<times> cipher_root \<times> nat) res" where
  "EncryptAuditForProver host draws nonce context plain =
     bindE (Check host) (\<lambda>_.
     bindE (SampleNonzeroScalar draws) (\<lambda>r.
     case nonce of None \<Rightarrow> Inl (Errorf ''EOF'')
     | Some nonce \<Rightarrow>
     bindE (encryptAuditWithNonce (ctx_key context) r context nonce plain) (\<lambda>(envelope, root).
     Inr (envelope, root, r))))"

definition EncryptAudit :: "host \<Rightarrow> bytes list \<Rightarrow> bytes option \<Rightarrow> audit_context \<Rightarrow> audit_plain \<Rightarrow> (envelope_frame \<times> cipher_root) res" where
  "EncryptAudit host draws nonce context plain =
     bindE (EncryptAuditForProver host draws nonce context plain) (\<lambda>(envelope, root, _). Inr (envelope, root))"

definition NewAuditPlain :: "host \<Rightarrow> kind \<Rightarrow> bytes list \<Rightarrow> audit_plain res" where
  "NewAuditPlain host k fs = bindE (Check host) (\<lambda>_. newAuditPlain k fs)"

definition DecryptAudit :: "host \<Rightarrow> nat \<Rightarrow> audit_context \<Rightarrow> envelope_frame \<Rightarrow> cipher_root \<Rightarrow> audit_plain res" where
  "DecryptAudit host sk context envelope expectedRoot =
     bindE (guardE (\<not> (sk = 0 \<or> AuditContext_validate (ctx_kind context) (ctx_pi context) \<noteq> Inr () \<or>
              CipherRoot_Validate expectedRoot \<noteq> Inr ())) ErrAuditDecrypt) (\<lambda>_.
     bindE (guardE (\<not> (env_kind envelope \<noteq> ctx_kind context \<or>
              ValidateActiveCounts (ctx_kind context) (env_inputs envelope) (env_outputs envelope) \<noteq> Inr () \<or>
              env_inputs envelope \<noteq> ctx_pi context ! 9 ! 31 \<or> env_outputs envelope \<noteq> ctx_pi context ! 10 ! 31))
              ErrAuditDecrypt) (\<lambda>_.
     bindE (mapErr (\<lambda>_. ErrAuditDecrypt) (EnvelopeBytes envelope)) (\<lambda>_.
     bindE (mapErr (\<lambda>_. ErrAuditDecrypt) (context_T context (env_nonce envelope))) (\<lambda>t.
     bindE (mapErr (\<lambda>_. ErrAuditDecrypt) (fieldElements t)) (\<lambda>transcript.
     bindE (mapErr (\<lambda>_. ErrAuditDecrypt) (fieldElements (env_ciphertext envelope))) (\<lambda>ciphertext.
     case fr_FromCanonicalBE (env_tag envelope) of None \<Rightarrow> Inl ErrAuditDecrypt
     | Some tag \<Rightarrow>
     let ciphertext = ciphertext @ [tag]
     in bindE (mapErr (\<lambda>_. ErrAuditDecrypt) (validPoint (env_ephemeral envelope))) (\<lambda>ephemeral.
        bindE (mapErr (\<lambda>_. ErrAuditDecrypt) (cipherRoot (ctx_kind context) transcript ephemeral ciphertext)) (\<lambda>actualRoot.
        bindE (guardE (actualRoot = expectedRoot) ErrAuditDecrypt) (\<lambda>_.
        let own = ScalarMult Base sk
        in bindE (mapErr (\<lambda>_. ErrAuditDecrypt) (validPoint (ak_point (ctx_key context)))) (\<lambda>registered.
           bindE (guardE (EdEqual own registered) ErrAuditDecrypt) (\<lambda>_.
           let shared = ScalarMult ephemeral sk
           in case openAudit shared ephemeral transcript ciphertext (ctx_kind context) of
                None \<Rightarrow> Inl ErrAuditDecrypt
              | Some plainElements \<Rightarrow>
                  mapErr (\<lambda>_. ErrAuditDecrypt) (NewAuditPlain host (ctx_kind context) (map fr_Bytes plainElements)))))))))))))"

definition ComputeCipherRoot :: "audit_context \<Rightarrow> envelope_frame \<Rightarrow> cipher_root res" where
  "ComputeCipherRoot context envelope =
     bindE (EnvelopeBytes envelope) (\<lambda>_.
     bindE (guardE (\<not> (ctx_kind context \<noteq> env_kind envelope \<or> ctx_pi context ! 9 ! 31 \<noteq> env_inputs envelope \<or>
              ctx_pi context ! 10 ! 31 \<noteq> env_outputs envelope)) (Errorf ''audit context and envelope shape differ'')) (\<lambda>_.
     bindE (context_T context (env_nonce envelope)) (\<lambda>t.
     bindE (fieldElements t) (\<lambda>transcript.
     bindE (fieldElements (env_ciphertext envelope @ [env_tag envelope])) (\<lambda>ciphertext.
     bindE (validPoint (env_ephemeral envelope)) (\<lambda>point.
     cipherRoot (ctx_kind context) transcript point ciphertext))))))"

section \<open>The sponge stays in the field and on its schedule\<close>

lemma fr_ops_less [simp]: "fr_add x y < fr_modulus" "fr_sub x y < fr_modulus" "fr_mul x y < fr_modulus"
  using fr_modulus_pos by (simp_all add: fr_add_def fr_sub_def fr_mul_def)

lemma fr_sub_add: "m < fr_modulus \<Longrightarrow> k < fr_modulus \<Longrightarrow> fr_sub (fr_add m k) k = m"
  using mod_add_left_eq [of "m + k" fr_modulus "fr_modulus - k"] by (simp add: fr_add_def fr_sub_def)

lemma fr_add_sub: "c < fr_modulus \<Longrightarrow> k < fr_modulus \<Longrightarrow> fr_add (fr_sub c k) k = c"
  by (simp add: fr_add_def fr_sub_def mod_add_left_eq)

definition fr_triple :: "nat list \<Rightarrow> bool" where
  "fr_triple st = (length st = 3 \<and> (\<forall>x \<in> set st. x < fr_modulus))"

lemma fr_triple_nth: "fr_triple st \<Longrightarrow> i < 3 \<Longrightarrow> st ! i < fr_modulus"
  by (simp add: fr_triple_def)

lemma fr_triple_update: "fr_triple st \<Longrightarrow> x < fr_modulus \<Longrightarrow> fr_triple (st[i := x])"
  using set_update_subset_insert [of st i x] by (auto simp: fr_triple_def)

lemma poseidonExternal_triple: "length st = 3 \<Longrightarrow> fr_triple (poseidonExternal st)"
  by (auto simp: poseidonExternal_def fr_triple_def Let_def)

lemma poseidonInternal_triple: "fr_triple (poseidonInternal st)"
  by (auto simp: poseidonInternal_def fr_triple_def Let_def)

lemma poseidonRound_triple:
  assumes "fr_triple (snd x)"
  shows "fr_triple (snd (poseidonRound r x))"
proof -
  have "length (fold (\<lambda>i st. st[i := f i st]) ns st) = length st" for f :: "nat \<Rightarrow> nat list \<Rightarrow> nat" and ns st
    by (induction ns arbitrary: st) auto
  then show ?thesis using assms
    by (auto simp: poseidonRound_def Let_def split_beta poseidonInternal_triple fr_triple_def [of "snd x"]
        intro!: poseidonExternal_triple)
qed

lemma permute_triple: "length st = 3 \<Longrightarrow> fr_triple (permute_state st)"
proof -
  have "fr_triple (snd x) \<Longrightarrow> fr_triple (snd (fold poseidonRound rs x))" for rs x
    by (induction rs arbitrary: x) (auto simp: poseidonRound_triple)
  then show "length st = 3 \<Longrightarrow> ?thesis" by (simp add: permute_state_def poseidonExternal_triple)
qed

definition sponge_ok :: "sponge \<Rightarrow> bool" where
  "sponge_ok s = (fr_triple (sp_state s) \<and> sp_absorbed s \<le> 1 \<and> sp_squeezed s \<le> 1)"

lemma absorb_one_ok: "sponge_ok s \<Longrightarrow> sponge_ok (absorb_one v s)"
  using permute_triple by (auto simp: sponge_ok_def absorb_one_def Poseidon2Rate_def Let_def fr_triple_update fr_triple_def [of "sp_state s"])

lemma absorb_one_calls [simp]:
  "sp_calls (absorb_one v s) = sp_calls s" "sp_expected (absorb_one v s) = sp_expected s"
  by (simp_all add: absorb_one_def Let_def)

lemma absorb_ok: "sponge_ok s \<Longrightarrow> sponge_ok (absorb vs s)"
proof -
  have "sponge_ok s \<Longrightarrow> sponge_ok (fold absorb_one vs s)" for s
    by (induction vs arbitrary: s) (auto simp: absorb_one_ok)
  then show "sponge_ok s \<Longrightarrow> ?thesis" by (simp add: absorb_def Let_def) (simp add: sponge_ok_def Poseidon2Rate_def)
qed

lemma fold_absorb_calls [simp]:
  "sp_calls (fold absorb_one vs s) = sp_calls s" "sp_expected (fold absorb_one vs s) = sp_expected s"
  by (induction vs arbitrary: s) auto

lemma absorb_calls [simp]:
  "sp_calls (absorb vs s) = sp_calls s @ [ioAbsorbWord (length vs)]" "sp_expected (absorb vs s) = sp_expected s"
  by (simp_all add: absorb_def Let_def)

lemma squeeze_ok:
  assumes "sponge_ok s"
  shows "sponge_ok (snd (squeeze s)) \<and> fst (squeeze s) < fr_modulus"
proof (cases "sp_squeezed s = 1")
  case True
  then show ?thesis using assms permute_triple [of "sp_state s"] fr_triple_nth [of "permute_state (sp_state s)" 0]
    by (simp add: sponge_ok_def squeeze_def Poseidon2Rate_def Let_def fr_triple_def [of "sp_state s"])
next
  case False
  then have "sp_squeezed s = 0" using assms by (simp add: sponge_ok_def)
  then show ?thesis using assms fr_triple_nth [of "sp_state s" 0]
    by (simp add: sponge_ok_def squeeze_def Poseidon2Rate_def Let_def)
qed

lemma squeeze_calls [simp]:
  "sp_calls (snd (squeeze s)) = sp_calls s @ [1]" "sp_expected (snd (squeeze s)) = sp_expected s"
  by (simp_all add: squeeze_def Let_def)

lemma fixedTag_ok:
  "index < 9 \<Longrightarrow> \<exists>a b. fixedTag index = Inr (a, b) \<and> a < fr_modulus \<and> b < fr_modulus"
proof -
  assume "index < 9"
  then have i: "index < length staticTags" by (simp add: static_tags_count)
  obtain x y where xy: "staticTags ! index = (x, y)" by fastforce
  then have "fr_FromCanonicalBE x \<noteq> None" "fr_FromCanonicalBE y \<noteq> None"
    using static_tags_canonical nth_mem [OF i] by auto
  then show ?thesis using i xy by (auto simp: fixedTag_def fr_FromCanonicalBE_def split: if_splits)
qed

lemma fixedTag_range: "fixedTag index = Inr tag \<longleftrightarrow> index < 9 \<and> fixedTag index = Inr tag"
  by (auto simp: fixedTag_def static_tags_count split: if_splits)

lemma newFixedSponge_ok: "a < fr_modulus \<Longrightarrow> b < fr_modulus \<Longrightarrow> sponge_ok (newFixedSponge (a, b) ex)"
  using fr_modulus_pos by (simp add: sponge_ok_def newFixedSponge_def fr_triple_def)

lemma newFixedSponge_calls [simp]: "sp_calls (newFixedSponge tag ex) = []" "sp_expected (newFixedSponge tag ex) = ex"
  by (simp_all add: newFixedSponge_def)

lemma sealLoop_calls:
  "sp_calls (snd (sealLoop ms s)) = sp_calls s @ concat (replicate (length ms) [1, ioAbsorbWord 1]) \<and>
   sp_expected (snd (sealLoop ms s)) = sp_expected s \<and> length (fst (sealLoop ms s)) = length ms"
  by (induction ms arbitrary: s) (auto simp: Let_def split_beta)

lemma sealLoop_ok: "sponge_ok s \<Longrightarrow> sponge_ok (snd (sealLoop ms s)) \<and> (\<forall>c \<in> set (fst (sealLoop ms s)). c < fr_modulus)"
proof (induction ms arbitrary: s)
  case (Cons m ms)
  then show ?case using Cons.IH [of "absorb [m] (snd (squeeze s))"] squeeze_ok [of s]
    by (auto simp: Let_def split_beta absorb_ok)
qed simp

text \<open>Opening undoes sealing, field by field, with the sponge in step.\<close>

lemma openLoop_iff:
  assumes "sponge_ok s" "\<forall>c \<in> set cs. c < fr_modulus"
  shows "openLoop cs s = (ms, t) \<longleftrightarrow> (\<forall>m \<in> set ms. m < fr_modulus) \<and> sealLoop ms s = (cs, t)"
  using assms
proof (induction cs arbitrary: ms s)
  case Nil
  then show ?case by (cases ms) (auto simp: Let_def split_beta)
next
  case (Cons c cs)
  let ?k = "fst (squeeze s)" and ?s = "snd (squeeze s)"
  have k: "?k < fr_modulus" and ok: "sponge_ok (absorb [m] ?s)" for m
    using squeeze_ok [OF Cons.prems(1)] by (auto intro: absorb_ok)
  show ?case
  proof (cases ms)
    case (Cons m ns)
    have "fr_sub c ?k = m \<longleftrightarrow> m < fr_modulus \<and> fr_add m ?k = c"
      using fr_sub_add [OF _ k, of m] fr_add_sub [OF _ k, of c] Cons.prems(2) by auto
    then show ?thesis using Cons.IH [OF ok, of "fr_sub c ?k" ns] Cons.prems(2) Cons
      by (auto simp: Let_def split_beta prod_eq_iff)
  qed (simp add: Let_def split_beta)
qed

section \<open>Sealing never fails its schedule; opening accepts exactly what was sealed\<close>

text \<open>The sponge at the start of the message, which sealing and opening share.\<close>

definition ae_start :: "nat \<times> nat \<Rightarrow> nat \<times> nat \<Rightarrow> nat list \<Rightarrow> nat \<Rightarrow> sponge" where
  "ae_start tag key aad n = absorb aad (absorb [fst key, snd key] (newFixedSponge tag (aeSchedule n (length aad))))"

lemma ae_start_calls [simp]:
  "sp_calls (ae_start tag key aad n) = [ioAbsorbWord 2, ioAbsorbWord (length aad)]"
  "sp_expected (ae_start tag key aad n) = aeSchedule n (length aad)"
  by (simp_all add: ae_start_def numeral_2_eq_2)

lemma seal_schedule:
  "sponge_finish (snd (squeeze (snd (sealLoop ms (ae_start tag key aad (length ms)))))) = Inr ()"
  using sealLoop_calls [of ms "ae_start tag key aad (length ms)"] by (simp add: sponge_finish_def aeSchedule_def)

lemma hash2_ok: "(\<exists>d. hash2 i vals = Inr d) \<longleftrightarrow> i < 9"
  using fixedTag_ok [of i] fixedTag_range [of i]
  by (auto simp: hash2_def Let_def split_beta sponge_finish_def)

lemma auditKDF_ok: "(\<exists>key. auditKDF sh e tr = Inr key) \<longleftrightarrow> EdAffine sh \<noteq> None \<and> EdAffine e \<noteq> None"
  using hash2_ok [of 0] by (auto simp: auditKDF_def pointCoordinates_def split: option.splits)

lemma sealAudit_eq:
  "sealAudit sh e tr m k = Inr ct \<longleftrightarrow>
     (\<exists>key ex ey tag. auditKDF sh e tr = Inr key \<and> EdAffine e = Some (ex, ey) \<and> fixedTag (unat k) = Inr tag \<and>
        (let (cs, s) = sealLoop m (ae_start tag key (tr @ [ex, ey, length m]) (length m)) in ct = cs @ [fst (squeeze s)]))"
  unfolding sealAudit_def Let_def ae_start_def [symmetric] pointCoordinates_def
  using seal_schedule by (auto simp: split_beta split: option.splits)

lemma sealAudit_total:
  "(\<exists>ct. sealAudit sh e tr m k = Inr ct) \<longleftrightarrow> EdAffine sh \<noteq> None \<and> EdAffine e \<noteq> None \<and> unat k < 9"
  using auditKDF_ok [of sh e tr] fixedTag_ok [of "unat k"] fixedTag_range [of "unat k"]
  unfolding sealAudit_eq by (auto simp: Let_def split_beta)

lemma sealAudit_length: "sealAudit sh e tr m k = Inr ct \<Longrightarrow> length ct = length m + 1"
  using sealLoop_calls by (auto simp: sealAudit_eq Let_def split_beta)

lemma openAudit_eq:
  "openAudit sh e tr ct k = Some m \<longleftrightarrow>
     (\<exists>key ex ey tag. ct \<noteq> [] \<and> auditKDF sh e tr = Inr key \<and> EdAffine e = Some (ex, ey) \<and> fixedTag (unat k) = Inr tag \<and>
        (let (ms, s) = openLoop (butlast ct) (ae_start tag key (tr @ [ex, ey, length ct - 1]) (length ct - 1))
         in m = ms \<and> last ct = fst (squeeze s) \<and> sponge_finish (snd (squeeze s)) = Inr ()))"
  unfolding openAudit_def Let_def ae_start_def [symmetric] pointCoordinates_def
  by (cases "ct = []") (auto simp: split_beta butlast_conv_take last_conv_nth split: option.splits sum.splits)

lemma open_seal:
  assumes "\<forall>c \<in> set ct. c < fr_modulus"
  shows "openAudit sh e tr ct k = Some m \<longleftrightarrow> (\<forall>x \<in> set m. x < fr_modulus) \<and> sealAudit sh e tr m k = Inr ct"
proof -
  have step: "(let (ms, s) = openLoop (butlast ct) (ae_start tag key aad (length ct - 1))
         in m = ms \<and> last ct = fst (squeeze s) \<and> sponge_finish (snd (squeeze s)) = Inr ()) \<and> ct \<noteq> [] \<longleftrightarrow>
      (\<forall>x \<in> set m. x < fr_modulus) \<and> length ct = length m + 1 \<and>
      (let (cs, s) = sealLoop m (ae_start tag key aad (length m)) in ct = cs @ [fst (squeeze s)])"
    (is "?open \<longleftrightarrow> ?seal") if tg: "fixedTag (unat k) = Inr tag" for tag key aad
  proof -
    obtain a b where "tag = (a, b)" "a < fr_modulus" "b < fr_modulus"
      using fixedTag_ok [of "unat k"] fixedTag_range [of "unat k" tag] tg by auto
    then have ok: "sponge_ok (ae_start tag key aad n)" for n
      by (simp add: ae_start_def absorb_ok newFixedSponge_ok)
    have cs: "\<forall>c \<in> set (butlast ct). c < fr_modulus" using assms by (auto dest: in_set_butlastD)
    have "?open \<longleftrightarrow> ct \<noteq> [] \<and> (\<exists>s. openLoop (butlast ct) (ae_start tag key aad (length ct - 1)) = (m, s) \<and>
        last ct = fst (squeeze s) \<and> sponge_finish (snd (squeeze s)) = Inr ())"
      by (cases "openLoop (butlast ct) (ae_start tag key aad (length ct - 1))") auto
    also have "\<dots> \<longleftrightarrow> ct \<noteq> [] \<and> (\<exists>s. (\<forall>x \<in> set m. x < fr_modulus) \<and> sealLoop m (ae_start tag key aad (length ct - 1)) = (butlast ct, s) \<and>
        last ct = fst (squeeze s) \<and> sponge_finish (snd (squeeze s)) = Inr ())"
      unfolding openLoop_iff [OF ok cs] by blast
    also have "\<dots> \<longleftrightarrow> ?seal" (is "?l \<longleftrightarrow> _")
    proof
      assume ?l
      then obtain s where s: "sealLoop m (ae_start tag key aad (length ct - 1)) = (butlast ct, s)" "ct \<noteq> []"
        "\<forall>x \<in> set m. x < fr_modulus" "last ct = fst (squeeze s)" by blast
      then have "length ct = length m + 1"
        using sealLoop_calls [of m "ae_start tag key aad (length ct - 1)"] by (cases ct rule: rev_cases) auto
      with s show ?seal by (auto simp: Let_def) (metis append_butlast_last_id)
    next
      assume ?seal
      then show ?l using seal_schedule [of m tag key aad] by (auto simp: Let_def split_beta prod_eq_iff)
    qed
    finally show ?thesis .
  qed
  show ?thesis
  proof (cases "length ct = length m + 1")
    case True
    then have ne: "ct \<noteq> []" and n: "length ct - 1 = length m" by auto
    show ?thesis
    proof
      assume "openAudit sh e tr ct k = Some m"
      then obtain key ex ey tag where o: "auditKDF sh e tr = Inr key" "EdAffine e = Some (ex, ey)" "fixedTag (unat k) = Inr tag"
        and l: "let (ms, s) = openLoop (butlast ct) (ae_start tag key (tr @ [ex, ey, length m]) (length ct - 1))
           in m = ms \<and> last ct = fst (squeeze s) \<and> sponge_finish (snd (squeeze s)) = Inr ()"
        unfolding openAudit_eq n by blast
      with step [OF o(3), THEN iffD1, OF conjI, OF l ne] show "(\<forall>x \<in> set m. x < fr_modulus) \<and> sealAudit sh e tr m k = Inr ct"
        unfolding sealAudit_eq by blast
    next
      assume r: "(\<forall>x \<in> set m. x < fr_modulus) \<and> sealAudit sh e tr m k = Inr ct"
      then obtain key ex ey tag where o: "auditKDF sh e tr = Inr key" "EdAffine e = Some (ex, ey)" "fixedTag (unat k) = Inr tag"
        and l: "let (cs, s) = sealLoop m (ae_start tag key (tr @ [ex, ey, length m]) (length m)) in ct = cs @ [fst (squeeze s)]"
        unfolding sealAudit_eq by blast
      have "let (ms, s) = openLoop (butlast ct) (ae_start tag key (tr @ [ex, ey, length ct - 1]) (length ct - 1))
           in m = ms \<and> last ct = fst (squeeze s) \<and> sponge_finish (snd (squeeze s)) = Inr ()"
        using step [OF o(3), of key "tr @ [ex, ey, length m]"] r l True unfolding n by blast
      with o ne show "openAudit sh e tr ct k = Some m" unfolding openAudit_eq by blast
    qed
  next
    case False
    then have "sealAudit sh e tr m k \<noteq> Inr ct" using sealAudit_length by metis
    moreover have "openAudit sh e tr ct k \<noteq> Some m" unfolding openAudit_eq using step False by blast
    ultimately show ?thesis by simp
  qed
qed

section \<open>Decryption\<close>

definition fr_elems :: "nat list \<Rightarrow> bool" where
  "fr_elems ms = (\<forall>m \<in> set ms. m < fr_modulus)"

lemma fieldElements_iff:
  "fieldElements fs = Inr vs \<longleftrightarrow> (\<forall>f \<in> set fs. be_to_nat f < fr_modulus) \<and> vs = map be_to_nat fs"
  by (induction fs arbitrary: vs) (auto simp: fieldElements_def fr_FromCanonicalBE_def)

lemma hash2_less: "hash2 i vals = Inr (a, b) \<Longrightarrow> a < fr_modulus \<and> b < fr_modulus"
proof -
  assume h: "hash2 i vals = Inr (a, b)"
  then obtain tag where tag: "fixedTag i = Inr tag" by (auto simp: hash2_def)
  then obtain x y where xy: "tag = (x, y)" "x < fr_modulus" "y < fr_modulus"
    using fixedTag_ok [of i] fixedTag_range [of i tag] by auto
  let ?s = "absorb vals (newFixedSponge tag [ioAbsorbWord (length vals), 1, 1])"
  have ok: "sponge_ok ?s" using xy by (simp add: absorb_ok newFixedSponge_ok)
  have "a = fst (squeeze ?s)" "b = fst (squeeze (snd (squeeze ?s)))"
    using h tag by (auto simp: hash2_def Let_def split_beta)
  then show ?thesis using squeeze_ok [OF ok] squeeze_ok [of "snd (squeeze ?s)"] by simp
qed

lemma be_to_nat_fr_Bytes: "v < fr_modulus \<Longrightarrow> be_to_nat (fr_Bytes v) = v"
  using fr_modulus_bound by (simp add: fr_Bytes_def be_to_nat_be_of_nat)

lemma cipherRoot_valid: "cipherRoot k tr e ct = Inr root \<Longrightarrow> CipherRoot_Validate root = Inr ()"
  using hash2_less by (fastforce simp: cipherRoot_def CipherRoot_Validate_def be_to_nat_fr_Bytes split: option.splits)

lemma plain_of_elements:
  "fr_elems m \<Longrightarrow> newAuditPlain k (map fr_Bytes m) = Inr p \<longleftrightarrow>
     PlaintextFieldCount k = Inr (length m) \<and> p = \<lparr>plain_kind = k, plain_fields = map fr_Bytes m\<rparr>"
  using validate_fields_iff [of "map fr_Bytes m"]
  by (auto simp: newAuditPlain_def AuditPlain_validate_def Let_def fr_elems_def be_to_nat_fr_Bytes)

lemma EnvelopeBytes_counts:
  "EnvelopeBytes e = Inr raw \<Longrightarrow>
     ValidateActiveCounts (env_kind e) (env_inputs e) (env_outputs e) = Inr () \<and>
     PlaintextFieldCount (env_kind e) = Inr (length (env_ciphertext e)) \<and>
     (\<forall>f \<in> set (env_ciphertext e @ [env_tag e]). be_to_nat f < fr_modulus)"
  using validate_fields_iff [of "env_ciphertext e"] by (auto simp: EnvelopeBytes_def)

text \<open>What the auditor's secret opens: the envelope's ciphertext, read as field elements, is the sealing of the plaintext
  under the key derived from the shared point of the secret and the ephemeral point.\<close>

definition opens_to :: "nat \<Rightarrow> audit_context \<Rightarrow> envelope_frame \<Rightarrow> audit_plain \<Rightarrow> bool" where
  "opens_to sk c e p = (\<exists>ephemeral t m. validPoint (env_ephemeral e) = Inr ephemeral \<and> context_T c (env_nonce e) = Inr t \<and>
     fr_elems m \<and> p = \<lparr>plain_kind = ctx_kind c, plain_fields = map fr_Bytes m\<rparr> \<and>
     sealAudit (ScalarMult ephemeral sk) ephemeral (map be_to_nat t) m (ctx_kind c)
       = Inr (map be_to_nat (env_ciphertext e @ [env_tag e])))"

definition owns_key :: "nat \<Rightarrow> audit_context \<Rightarrow> bool" where
  "owns_key sk c = (sk \<noteq> 0 \<and> (case validPoint (ak_point (ctx_key c)) of
     Inl _ \<Rightarrow> False | Inr registered \<Rightarrow> EdEqual (ScalarMult Base sk) registered))"

lemma context_T_valid: "context_T c n = Inr t \<Longrightarrow> AuditContext_validate (ctx_kind c) (ctx_pi c) = Inr ()"
  by (auto simp: context_T_def)

lemma DecryptAudit_split:
  "DecryptAudit host sk c e root = Inr p \<longleftrightarrow>
     Check host = Inr () \<and> owns_key sk c \<and> CipherRoot_Validate root = Inr () \<and> ComputeCipherRoot c e = Inr root \<and>
     ValidateActiveCounts (ctx_kind c) (env_inputs e) (env_outputs e) = Inr () \<and>
     (\<exists>ephemeral t m. validPoint (env_ephemeral e) = Inr ephemeral \<and> context_T c (env_nonce e) = Inr t \<and>
        openAudit (ScalarMult ephemeral sk) ephemeral (map be_to_nat t) (map be_to_nat (env_ciphertext e @ [env_tag e])) (ctx_kind c)
          = Some m \<and> newAuditPlain (ctx_kind c) (map fr_Bytes m) = Inr p)"
  unfolding DecryptAudit_def NewAuditPlain_def ComputeCipherRoot_def owns_key_def Let_def
  using context_T_valid [of c "env_nonce e"] by (auto simp: fieldElements_iff case_option_Inr case_sum_ok)

lemma DecryptAudit_iff:
  "DecryptAudit host sk c e root = Inr p \<longleftrightarrow> Check host = Inr () \<and> owns_key sk c \<and> ComputeCipherRoot c e = Inr root \<and> opens_to sk c e p"
proof (cases "ComputeCipherRoot c e = Inr root")
  case True
  then obtain raw tr pt where b: "EnvelopeBytes e = Inr raw" and k: "env_kind e = ctx_kind c"
    and r: "cipherRoot (ctx_kind c) tr pt (map be_to_nat (env_ciphertext e @ [env_tag e])) = Inr root"
    by (auto simp: ComputeCipherRoot_def fieldElements_iff)
  note cnt = EnvelopeBytes_counts [OF b]
  have ct: "\<forall>x \<in> set (map be_to_nat (env_ciphertext e @ [env_tag e])). x < fr_modulus" using cnt by auto
  have plain: "fr_elems m \<and> sealAudit sh eph t m (ctx_kind c) = Inr (map be_to_nat (env_ciphertext e @ [env_tag e])) \<and>
      newAuditPlain (ctx_kind c) (map fr_Bytes m) = Inr p \<longleftrightarrow>
    fr_elems m \<and> sealAudit sh eph t m (ctx_kind c) = Inr (map be_to_nat (env_ciphertext e @ [env_tag e])) \<and>
      p = \<lparr>plain_kind = ctx_kind c, plain_fields = map fr_Bytes m\<rparr>" for sh eph t m
    using sealAudit_length [of sh eph t m "ctx_kind c"] cnt k plain_of_elements [of m "ctx_kind c" p] by auto
  show ?thesis
    unfolding DecryptAudit_split opens_to_def open_seal [OF ct] fr_elems_def [symmetric]
    using True cipherRoot_valid [OF r] cnt k plain by (simp add: conj_assoc) metis
qed (simp add: DecryptAudit_split)

lemma DecryptAudit_fails: "fails_only ErrAuditDecrypt (DecryptAudit host sk c e root)"
  unfolding DecryptAudit_def Let_def by (auto intro!: fails_only_bind split: option.split)

lemma DecryptAudit_error: "DecryptAudit host sk c e root = Inl err \<Longrightarrow> err = ErrAuditDecrypt"
  using DecryptAudit_fails [of host sk c e root] by (simp add: fails_only_def)

section \<open>Properties\<close>

text \<open>C24. The audit cipher is an authenticated bijection: for canonical ciphertext elements, opening returns a message
  exactly when sealing that message gives this ciphertext, tag included. Sealing itself succeeds
  whenever the two points have affine coordinates and the kind has a pinned tag: the sponge never leaves its
  SAFE call schedule.\<close>

theorem audit_seal_open:
  assumes "fr_elems ct"
  shows "(openAudit sh e tr ct k = Some m \<longleftrightarrow> fr_elems m \<and> sealAudit sh e tr m k = Inr ct) \<and>
     ((\<exists>ct. sealAudit sh e tr m k = Inr ct) \<longleftrightarrow> EdAffine sh \<noteq> None \<and> EdAffine e \<noteq> None \<and> unat k < 9)"
  using open_seal [of ct sh e tr k m] sealAudit_total assms by (simp add: fr_elems_def)

theorem audit_seal_open_witness:
  "fr_elems [5, 7] \<and> (openAudit Base Base [1] [5, 7] KindDeposit = Some [3] \<longleftrightarrow> fr_elems [3] \<and> sealAudit Base Base [1] [3] KindDeposit = Inr [5, 7])"
proof -
  have "fr_elems [5, 7]" by (simp add: fr_elems_def fr_modulus_def)
  with audit_seal_open [OF this, of Base Base "[1]" KindDeposit "[3]"] show ?thesis by blast
qed

text \<open>C23. Decryption returns a plaintext exactly when the machine passes the gate for secrets, the secret is non-zero and owns the key of the context, the expected
  root is the cipher root of the envelope under the context, and the ciphertext of the envelope is the sealing of that
  plaintext for the shared point; every other outcome is the one error \<open>ErrAuditDecrypt\<close>.\<close>

theorem decrypt_exactly_sealed:
  "(DecryptAudit host sk c e root = Inr p \<longleftrightarrow> Check host = Inr () \<and> owns_key sk c \<and> ComputeCipherRoot c e = Inr root \<and> opens_to sk c e p) \<and>
   (case DecryptAudit host sk c e root of Inl err \<Rightarrow> err = ErrAuditDecrypt | Inr _ \<Rightarrow> owns_key sk c)"
  using DecryptAudit_iff [of host sk c e root] DecryptAudit_error [of host sk c e root] by (auto split: sum.splits)

end
