(* ===== verification/Chain_State.thy ===== *)
theory Chain_State
  imports KV_Store
begin

text \<open>
  The execution environment of the keeper: the parts of \<^verbatim>\<open>sdk.Context\<close> that the module reads, the chain
  state that it changes (its store, the bank, the gas meter, the emitted events) and the nesting of
  \<^verbatim>\<open>CacheContext\<close>. The markers that the code stores as context values (\<^verbatim>\<open>internal/auditinit\<close>, the apply marker of
  \<^verbatim>\<open>x/privacy/keeper/audit_runtime.go\<close>) are fields of the context record.

  The field \<open>tx_hash\<close> is \<^verbatim>\<open>tmhash.Sum(ctx.TxBytes())\<close>, the transaction hash of CometBFT. The state of the bank is a type parameter \<open>'b\<close>: the bank keeper is code of the SDK. The storage gas that
  the SDK charges per store access is not modelled; the charges the module itself makes are.
\<close>

section \<open>Contexts\<close>

record exec_ctx =
  block_height :: int
  block_unix :: int
  chain_id :: string
  tx_bytes :: bytes
  tx_hash :: bytes
  header_hash :: bytes
  is_check_tx :: bool
  is_recheck_tx :: bool
  init_active :: bool
  apply_marker :: bool
  msg_index :: nat
  gas_limit :: nat

definition auditinit_Active :: "exec_ctx \<Rightarrow> bool" where
  "auditinit_Active ctx = init_active ctx"

text \<open>\<^verbatim>\<open>auditinit.Run\<close>: the marker is set inside the callback only.\<close>

definition auditinit_Run :: "exec_ctx \<Rightarrow> (exec_ctx \<Rightarrow> ('s, unit) action) \<Rightarrow> ('s, unit) action" where
  "auditinit_Run ctx initialize =
     (if auditinit_Active ctx then failM (Errorf ''nested audit initialization'')
      else initialize (ctx\<lparr>init_active := True\<rparr>))"

section \<open>Chain state\<close>

type_synonym event = "string \<times> (string \<times> string) list"

record 'b chain =
  ch_store :: store
  ch_bank :: 'b
  ch_gas :: nat
  ch_events :: "event list"

text \<open>Actions of the store run on the chain.\<close>

definition onStore :: "(store, 'a) action \<Rightarrow> ('b chain, 'a) action" where
  "onStore m = (\<lambda>s. case m (ch_store s) of (r, t) \<Rightarrow> (r, s\<lparr>ch_store := t\<rparr>))"

definition readStore :: "(store \<Rightarrow> 'a res) \<Rightarrow> ('b chain, 'a) action" where
  "readStore f = readM (\<lambda>s. f (ch_store s))"

definition setStore :: "bytes \<Rightarrow> bytes \<Rightarrow> ('b chain, unit) action" where
  "setStore k v = writeM (\<lambda>s. s\<lparr>ch_store := kv_set k v (ch_store s)\<rparr>)"

definition deleteStore :: "bytes \<Rightarrow> ('b chain, unit) action" where
  "deleteStore k = writeM (\<lambda>s. s\<lparr>ch_store := kv_delete k (ch_store s)\<rparr>)"

definition emitEvent :: "event \<Rightarrow> ('b chain, unit) action" where
  "emitEvent ev = writeM (\<lambda>s. s\<lparr>ch_events := ch_events s @ [ev]\<rparr>)"

text \<open>\<^verbatim>\<open>GasMeter().ConsumeGas\<close>: the meter is charged first, then an amount above the limit panics.\<close>

definition consumeGas :: "exec_ctx \<Rightarrow> nat \<Rightarrow> string \<Rightarrow> ('b chain, unit) action" where
  "consumeGas ctx amount descriptor =
     bindM (writeM (\<lambda>s. s\<lparr>ch_gas := ch_gas s + amount\<rparr>)) (\<lambda>_.
     readM (\<lambda>s. guardE (ch_gas s \<le> gas_limit ctx) (OutOfGas descriptor)))"

text \<open>\<^verbatim>\<open>cache, publish := ctx.CacheContext()\<close> with \<^verbatim>\<open>publish()\<close> before the successful return: a failure drops the writes and
  the events of the cache, but not the gas it consumed.\<close>

definition cacheCtx :: "('b chain, 'a) action \<Rightarrow> ('b chain, 'a) action" where
  "cacheCtx m = (\<lambda>s. case m s of
     (Inl e, t) \<Rightarrow> (Inl e, s\<lparr>ch_gas := ch_gas t\<rparr>)
   | (Inr x, t) \<Rightarrow> (Inr x, t))"

lemma onStore_run [act_simps]: "onStore m s = (fst (m (ch_store s)), s\<lparr>ch_store := snd (m (ch_store s))\<rparr>)"
  by (simp add: onStore_def split_beta)

lemma onStore_ok: "onStore m s = (Inr x, t) \<longleftrightarrow> (\<exists>u. m (ch_store s) = (Inr x, u) \<and> t = s\<lparr>ch_store := u\<rparr>)"
  by (auto simp: onStore_def split: prod.splits)

lemma readStore_run [simp, act_simps]: "readStore f s = (f (ch_store s), s)"
  by (simp add: readStore_def)

lemma setStore_run [simp, act_simps]: "setStore k v s = (Inr (), s\<lparr>ch_store := kv_set k v (ch_store s)\<rparr>)"
  by (simp add: setStore_def)

lemma deleteStore_run [simp, act_simps]: "deleteStore k s = (Inr (), s\<lparr>ch_store := kv_delete k (ch_store s)\<rparr>)"
  by (simp add: deleteStore_def)

lemma emitEvent_run [simp, act_simps]: "emitEvent ev s = (Inr (), s\<lparr>ch_events := ch_events s @ [ev]\<rparr>)"
  by (simp add: emitEvent_def)

lemma consumeGas_ok [simp]:
  "consumeGas ctx n d s = (Inr u, t) \<longleftrightarrow> ch_gas s + n \<le> gas_limit ctx \<and> t = s\<lparr>ch_gas := ch_gas s + n\<rparr>"
  by (auto simp: consumeGas_def)

lemma consumeGas_run [act_simps]:
  "consumeGas ctx n d s = (guardE (ch_gas s + n \<le> gas_limit ctx) (OutOfGas d), s\<lparr>ch_gas := ch_gas s + n\<rparr>)"
  by (simp add: consumeGas_def)

lemma cacheCtx_ok [simp]: "cacheCtx m s = (Inr x, t) \<longleftrightarrow> m s = (Inr x, t)"
  by (auto simp: cacheCtx_def split: prod.splits sum.splits)

lemma cacheCtx_fail: "cacheCtx m s = (Inl e, t) \<Longrightarrow> ch_store t = ch_store s \<and> ch_bank t = ch_bank s \<and> ch_events t = ch_events s"
  by (auto simp: cacheCtx_def split: prod.splits sum.splits)

section \<open>Atomic actions\<close>

text \<open>An action is atomic when a failure leaves everything but the gas meter as it was.\<close>

definition same_but_gas :: "'b chain \<Rightarrow> 'b chain \<Rightarrow> bool" where
  "same_but_gas s t = (ch_store t = ch_store s \<and> ch_bank t = ch_bank s \<and> ch_events t = ch_events s)"

definition atomic :: "('b chain, 'a) action \<Rightarrow> bool" where
  "atomic m = (\<forall>s e t. m s = (Inl e, t) \<longrightarrow> same_but_gas s t)"

text \<open>An action is quiet when it leaves everything but the gas meter as it was, whatever its outcome.\<close>

definition quiet :: "('b chain, 'a) action \<Rightarrow> bool" where
  "quiet m = (\<forall>s. same_but_gas s (snd (m s)))"

lemma same_but_gas_refl [simp, intro]: "same_but_gas s s"
  by (simp add: same_but_gas_def)

lemma same_but_gas_trans: "same_but_gas s t \<Longrightarrow> same_but_gas t u \<Longrightarrow> same_but_gas s u"
  by (simp add: same_but_gas_def)

named_theorems atomic_intros \<open>how actions compose to atomic ones\<close>

lemma quiet_atomic: "quiet m \<Longrightarrow> atomic m"
  by (auto simp: quiet_def atomic_def) (metis snd_conv)

lemma quiet_bases [atomic_intros]:
  "quiet (retM x)" "quiet (failM e)" "quiet (readM f)" "quiet (readStore g)" "quiet (guardM b e)" "quiet (consumeGas ctx n d)"
  by (simp_all add: quiet_def act_simps same_but_gas_def)

lemma quiet_bind [atomic_intros]: "quiet m \<Longrightarrow> (\<And>x. quiet (f x)) \<Longrightarrow> quiet (bindM m f)"
  unfolding quiet_def bindM_def by (auto split: prod.splits sum.splits) (metis same_but_gas_trans snd_conv)+

lemma atomic_bases [atomic_intros]: "atomic (writeM f)" "atomic (setStore k v)" "atomic (deleteStore k)" "atomic (emitEvent ev)" "atomic (cacheCtx m)"
  by (auto simp: atomic_def same_but_gas_def dest: cacheCtx_fail)

lemma atomic_bind [atomic_intros]: "quiet m \<Longrightarrow> (\<And>x. atomic (f x)) \<Longrightarrow> atomic (bindM m f)"
  unfolding quiet_def atomic_def bindM_fail
  by (metis same_but_gas_trans snd_conv)

lemma atomic_bind_ret [atomic_intros]: "atomic m \<Longrightarrow> atomic (bindM m (\<lambda>x. retM (f x)))"
  by (auto simp: atomic_def bindM_fail)

lemma quiet_if [atomic_intros]: "quiet m \<Longrightarrow> quiet n \<Longrightarrow> quiet (if b then m else n)" by simp
lemma atomic_if [atomic_intros]: "atomic m \<Longrightarrow> atomic n \<Longrightarrow> atomic (if b then m else n)" by simp

lemma atomicD: "atomic m \<Longrightarrow> m s = (Inl e, t) \<Longrightarrow> same_but_gas s t"
  by (simp add: atomic_def)

lemma quiet_ok: "quiet m \<Longrightarrow> m s = (r, t) \<Longrightarrow> same_but_gas s t"
  unfolding quiet_def by (metis snd_conv)

end
