(* ===== verification/Audit_Keys.thy ===== *)
theory Audit_Keys
  imports Chain_State Audit_Schema Amount128
begin

text \<open>
  The lifecycle of audit keys (\<^verbatim>\<open>x/privacy/keeper\<close>: \<^verbatim>\<open>audit_records.go\<close>, \<^verbatim>\<open>audit_keys.go\<close>, \<^verbatim>\<open>audit_runtime.go\<close>): the key records and
  their codec, the runtime configuration, the origin of an execution, and the operations that schedule a
  key, cancel a pending key, halt the module and activate the pending key at its height. The record
  codec is a sequence of fixed-width reads with a sticky error, as in the source.
\<close>

section \<open>Records\<close>

definition auditEpochPrefix :: byte where "auditEpochPrefix = 0x16"
definition auditActivationPrefix :: byte where "auditActivationPrefix = 0x17"
definition auditActivePrefix :: byte where "auditActivePrefix = 0x18"
definition auditCancellationPrefix :: byte where "auditCancellationPrefix = 0x1d"
definition auditHaltPrefix :: byte where "auditHaltPrefix = 0x1e"

lemmas audit_prefix_defs [key_simps] = auditEpochPrefix_def auditActivationPrefix_def auditActivePrefix_def
  auditCancellationPrefix_def auditHaltPrefix_def

record audit_origin =
  or_kind :: byte
  or_anchor :: bytes
  or_height :: u64

record audit_key_record =
  kr_epoch :: u64
  kr_key_id :: bytes
  kr_suite :: u16
  kr_pk :: bytes
  kr_activation :: u64
  kr_registered :: u64
  kr_origin :: audit_origin
  kr_pop :: bytes

definition origin_validate :: "audit_origin \<Rightarrow> bool \<Rightarrow> unit res" where
  "origin_validate ao genesis =
     guardE (\<not> (or_height ao > MaxInt64 \<or> or_kind ao < 1 \<or> or_kind ao > 3 \<or> (\<not> genesis \<and> or_kind ao = 3)))
       (Errorf ''invalid audit execution origin'')"

definition auditEpochKey :: "byte \<Rightarrow> u64 \<Rightarrow> bytes" where
  "auditEpochKey prefix epoch = prefix # be64 epoch"

definition keyrec_validate :: "audit_key_record \<Rightarrow> bytes \<Rightarrow> u64 \<Rightarrow> unit res" where
  "keyrec_validate v network initialHeight =
     bindE (guardE (\<not> (kr_epoch v = 0 \<or> kr_suite v \<noteq> 2 \<or> kr_activation v > MaxInt64 \<or> kr_registered v > MaxInt64 \<or>
              or_height (kr_origin v) \<noteq> kr_registered v)) (Errorf ''invalid audit key record'')) (\<lambda>_.
     bindE (origin_validate (kr_origin v) True) (\<lambda>_.
     bindE (if or_kind (kr_origin v) = 3
            then guardE (\<not> (initialHeight = 0 \<or> kr_activation v \<noteq> initialHeight - 1 \<or>
                   kr_registered v \<noteq> initialHeight - 1 \<or> kr_epoch v \<noteq> 1)) (Errorf ''invalid initial audit key'')
            else guardE (\<not> kr_activation v \<le> kr_registered v) (Errorf ''audit key activation must be future'')) (\<lambda>_.
     bindE (ParseAuditKey (kr_pk v) (kr_key_id v)) (\<lambda>key.
     bindE (ParsePoP96 (kr_pop v)) (\<lambda>pop.
     VerifyPoP96 key network (kr_epoch v) (kr_activation v) pop)))))"

definition enc_origin :: "audit_origin \<Rightarrow> bytes" where
  "enc_origin ao = [or_kind ao] @ or_anchor ao @ be64 (or_height ao)"

definition keyrec_bytes :: "audit_key_record \<Rightarrow> bytes" where
  "keyrec_bytes v = be16 1 @ be64 (kr_epoch v) @ kr_key_id v @ be16 (kr_suite v) @ kr_pk v @ be64 (kr_activation v) @
     be64 (kr_registered v) @ enc_origin (kr_origin v) @ kr_pop v"

definition encodeAuditKey :: "audit_key_record \<Rightarrow> bytes \<Rightarrow> u64 \<Rightarrow> bytes res" where
  "encodeAuditKey v network initialHeight =
     bindE (keyrec_validate v network initialHeight) (\<lambda>_. Inr (keyrec_bytes v))"

text \<open>The decoder keeps the unread bytes; a read past the end sets the error and yields zero bytes.\<close>

record audit_decoder =
  dec_rest :: bytes
  dec_err :: bool

definition dec_take :: "nat \<Rightarrow> audit_decoder \<Rightarrow> bytes \<times> audit_decoder" where
  "dec_take n r =
     (if dec_err r \<or> n > length (dec_rest r) then (replicate n 0, r\<lparr>dec_err := True\<rparr>)
      else (take n (dec_rest r), r\<lparr>dec_rest := drop n (dec_rest r)\<rparr>))"

definition dec_done :: "audit_decoder \<Rightarrow> unit res" where
  "dec_done r =
     bindE (guardE (\<not> dec_err r) (Errorf ''truncated audit key state'')) (\<lambda>_.
     guardE (dec_rest r = []) (Errorf ''trailing audit key state bytes''))"

definition decodeAuditKey :: "bytes \<Rightarrow> bytes \<Rightarrow> u64 \<Rightarrow> audit_key_record res" where
  "decodeAuditKey raw network initialHeight =
     (let (version, r) = dec_take 2 \<lparr>dec_rest = raw, dec_err = False\<rparr>
      in bindE (guardE (un_be16 version = 1) (Errorf ''unsupported audit key record version'')) (\<lambda>_.
         let (epoch, r) = dec_take 8 r;
             (keyID, r) = dec_take 32 r;
             (suite, r) = dec_take 2 r;
             (pk, r) = dec_take 64 r;
             (activation, r) = dec_take 8 r;
             (registered, r) = dec_take 8 r;
             (okind, r) = dec_take 1 r;
             (anchor, r) = dec_take 32 r;
             (oheight, r) = dec_take 8 r;
             (pop, r) = dec_take 96 r;
             v = \<lparr>kr_epoch = un_be64 epoch, kr_key_id = keyID, kr_suite = un_be16 suite, kr_pk = pk,
                  kr_activation = un_be64 activation, kr_registered = un_be64 registered,
                  kr_origin = \<lparr>or_kind = okind ! 0, or_anchor = anchor, or_height = un_be64 oheight\<rparr>, kr_pop = pop\<rparr>
         in bindE (dec_done r) (\<lambda>_.
            bindE (keyrec_validate v network initialHeight) (\<lambda>_.
            Inr v))))"

section \<open>The runtime\<close>

record audit_runtime =
  rt_nonce :: bytes
  rt_initial_height :: u64
  rt_authority :: string

definition AuditRuntimeEnabled :: "audit_runtime option \<Rightarrow> bool" where
  "AuditRuntimeEnabled rt = (rt \<noteq> None)"

definition allowsGenesisStateImport :: "audit_runtime option \<Rightarrow> exec_ctx \<Rightarrow> bool" where
  "allowsGenesisStateImport rt ctx = (rt = None \<or> auditinit_Active ctx)"

definition AuditInitialHeight :: "audit_runtime option \<Rightarrow> u64" where
  "AuditInitialHeight rt = (case rt of None \<Rightarrow> 0 | Some a \<Rightarrow> rt_initial_height a)"

definition auditNetwork :: "audit_runtime option \<Rightarrow> exec_ctx \<Rightarrow> bytes res" where
  "auditNetwork rt ctx =
     (case rt of None \<Rightarrow> Inl (Errorf ''audit-field runtime is not configured'')
      | Some a \<Rightarrow> NetworkDigest (chain_id ctx) (rt_nonce a))"

definition u64_height :: "exec_ctx \<Rightarrow> u64" where
  "u64_height ctx = word_of_int (block_height ctx)"

definition auditExecutionOrigin :: "audit_runtime option \<Rightarrow> exec_ctx \<Rightarrow> audit_origin res" where
  "auditExecutionOrigin rt ctx =
     (case rt of None \<Rightarrow> Inl (Errorf ''privacy transition is forbidden during initialization'')
      | Some a \<Rightarrow>
        bindE (guardE (\<not> (auditinit_Active ctx \<or> block_height ctx < sint (rt_initial_height a)))
                 (Errorf ''privacy transition is forbidden during initialization'')) (\<lambda>_.
        bindE (guardE (\<not> (is_check_tx ctx \<or> is_recheck_tx ctx)) (Errorf ''privacy apply requires delivery context'')) (\<lambda>_.
        if length (tx_bytes ctx) > 0
        then Inr \<lparr>or_kind = 1, or_anchor = copy32 (tx_hash ctx), or_height = u64_height ctx\<rparr>
        else bindE (guardE (length (header_hash ctx) = 32) (Errorf ''trusted block hash is required'')) (\<lambda>_.
             Inr \<lparr>or_kind = 2, or_anchor = copy32 (header_hash ctx), or_height = u64_height ctx\<rparr>))))"

section \<open>Reading the key state\<close>

definition getAuditKey :: "audit_runtime option \<Rightarrow> exec_ctx \<Rightarrow> u64 \<Rightarrow> store \<Rightarrow> (audit_key_record \<times> bytes) res" where
  "getAuditKey rt ctx epoch s =
     (case rt of None \<Rightarrow> Inl (Errorf ''audit runtime is not configured'')
      | Some a \<Rightarrow>
     (case kv_get s (auditEpochKey auditEpochPrefix epoch) of None \<Rightarrow> Inl (Errorf ''audit epoch not found'')
      | Some raw \<Rightarrow>
        bindE (auditNetwork rt ctx) (\<lambda>network.
        bindE (decodeAuditKey raw network (rt_initial_height a)) (\<lambda>v.
        bindE (guardE (kr_epoch v = epoch) (Errorf ''audit epoch key/value mismatch'')) (\<lambda>_.
        Inr (v, raw))))))"

definition activeAuditKey :: "audit_runtime option \<Rightarrow> exec_ctx \<Rightarrow> store \<Rightarrow> audit_key_record res" where
  "activeAuditKey rt ctx s =
     (case kv_get s [auditActivePrefix] of None \<Rightarrow> Inl (Errorf ''active audit key is not initialized'')
      | Some raw \<Rightarrow>
        bindE (guardE (\<not> (length raw \<noteq> 18 \<or> un_be16 raw \<noteq> 1)) (Errorf ''active audit key is not initialized'')) (\<lambda>_.
        bindE (getAuditKey rt ctx (un_be64 (drop 2 raw)) s) (\<lambda>(v, _).
        bindE (guardE (\<not> (kr_activation v \<noteq> un_be64 (drop 10 raw) \<or> kr_activation v > u64_height ctx))
                 (Errorf ''invalid active audit epoch'')) (\<lambda>_.
        Inr v))))"

definition auditHalted :: "store \<Rightarrow> bool res" where
  "auditHalted s =
     (case kv_get s [auditHaltPrefix] of None \<Rightarrow> Inr False
      | Some raw \<Rightarrow>
        bindE (guardE (\<not> (length raw \<noteq> 1 \<or> raw ! 0 > 1)) (Errorf ''invalid privacy halt state'')) (\<lambda>_.
        Inr (raw ! 0 = 1)))"

fun pendingLoop :: "(bytes \<times> bytes) list \<Rightarrow> u64 \<times> u64 \<Rightarrow> (u64 \<times> u64) res" where
  "pendingLoop [] acc = Inr acc"
| "pendingLoop ((key, val) # it) acc =
     bindE (guardE (\<not> (fst acc \<noteq> 0 \<or> length key \<noteq> 9 \<or> length val \<noteq> 8))
              (Errorf ''invalid or multiple audit activation pointers'')) (\<lambda>_.
     let height = un_be64 (tl key); epoch = un_be64 val
     in bindE (guardE (\<not> (epoch = 0 \<or> height > MaxInt64)) (Errorf ''invalid audit activation'')) (\<lambda>_.
        pendingLoop it (epoch, height)))"

definition pendingAuditEpoch :: "store \<Rightarrow> (u64 \<times> u64) res" where
  "pendingAuditEpoch s = pendingLoop (kv_range [auditActivationPrefix] [auditActivationPrefix + 1] s) (0, 0)"

fun maxEpochLoop :: "bytes \<Rightarrow> u64 \<Rightarrow> bytes \<Rightarrow> (bytes \<times> bytes) list \<Rightarrow> u64 \<Rightarrow> u64 res" where
  "maxEpochLoop network initialHeight newID [] mx = Inr mx"
| "maxEpochLoop network initialHeight newID ((key, val) # it) mx =
     bindE (guardE (length key = 9) (Errorf ''malformed audit epoch key'')) (\<lambda>_.
     bindE (decodeAuditKey val network initialHeight) (\<lambda>v.
     bindE (guardE (\<not> (kr_epoch v \<noteq> un_be64 (tl key) \<or> kr_epoch v \<noteq> mx + 1)) (Errorf ''noncontiguous audit epoch history'')) (\<lambda>_.
     bindE (guardE (kr_key_id v \<noteq> newID) (Errorf ''audit key ID cannot be reused'')) (\<lambda>_.
     maxEpochLoop network initialHeight newID it (kr_epoch v)))))"

definition maxAuditEpoch :: "audit_runtime option \<Rightarrow> exec_ctx \<Rightarrow> bytes \<Rightarrow> store \<Rightarrow> u64 res" where
  "maxAuditEpoch rt ctx newID s =
     bindE (auditNetwork rt ctx) (\<lambda>network.
     maxEpochLoop network (AuditInitialHeight rt) newID (kv_range [auditEpochPrefix] [auditEpochPrefix + 1] s) 0)"

definition checkAuditAuthority :: "audit_runtime option \<Rightarrow> exec_ctx \<Rightarrow> string \<Rightarrow> unit res" where
  "checkAuditAuthority rt ctx authority =
     (case rt of None \<Rightarrow> Inl (Errorf ''audit authority must equal gov module address'')
      | Some a \<Rightarrow>
        bindE (guardE (authority = rt_authority a) (Errorf ''audit authority must equal gov module address'')) (\<lambda>_.
        bindE (guardE (\<not> apply_marker ctx) (Errorf ''nested audit mutation is forbidden'')) (\<lambda>_.
        bindE (auditExecutionOrigin rt ctx) (\<lambda>_. Inr ()))))"

section \<open>The operations\<close>

record msg_schedule =
  sch_authority :: string
  sch_epoch :: u64
  sch_activation :: u64
  sch_public_key :: bytes
  sch_suite :: u32
  sch_pop :: bytes

definition u64_string :: "u64 \<Rightarrow> string" where
  "u64_string w = dec_string (unat w)"

definition ScheduleAuditKeyEpoch ::
  "audit_runtime option \<Rightarrow> exec_ctx \<Rightarrow> msg_schedule option \<Rightarrow> ('b chain, unit) action" where
  "ScheduleAuditKeyEpoch rt ctx msg =
     (case msg of None \<Rightarrow> failM (Errorf ''nil audit key schedule'')
      | Some m \<Rightarrow>
        bindM (readM (\<lambda>_. checkAuditAuthority rt ctx (sch_authority m))) (\<lambda>_.
        bindM (guardM (\<not> (sch_suite m \<noteq> 2 \<or> sch_epoch m = 0 \<or> sch_activation m > MaxInt64 \<or> sch_activation m \<le> u64_height ctx))
                 (Errorf ''audit epoch activation must be future with suite2'')) (\<lambda>_.
        bindM (consumeGas ctx (400000 + (length (sch_public_key m) + length (sch_pop m)) * 4) ''audit key validation'') (\<lambda>_.
        bindM (guardM (\<not> (length (sch_public_key m) \<noteq> 64 \<or> length (sch_pop m) \<noteq> 96))
                 (Errorf ''audit key requires Point64 and PoP96'')) (\<lambda>_.
        bindM (readM (\<lambda>_. NewAuditKeyFromPoint64 (sch_public_key m))) (\<lambda>key.
        bindM (readStore pendingAuditEpoch) (\<lambda>(pending, _).
        bindM (guardM (pending = 0) (Errorf ''an audit epoch is already pending'')) (\<lambda>_.
        bindM (readStore (maxAuditEpoch rt ctx (ak_id key))) (\<lambda>maxEpoch.
        bindM (guardM (\<not> (maxEpoch = MaxUint64 \<or> sch_epoch m \<noteq> maxEpoch + 1 \<or> maxEpoch = 0))
                 (Errorf ''audit epoch must be registered max+1 after initialization'')) (\<lambda>_.
        bindM (readM (\<lambda>_. auditExecutionOrigin rt ctx)) (\<lambda>origin.
        bindM (readM (\<lambda>_. auditNetwork rt ctx)) (\<lambda>network.
        let record = \<lparr>kr_epoch = sch_epoch m, kr_key_id = ak_id key, kr_suite = 2, kr_pk = sch_public_key m,
                      kr_activation = sch_activation m, kr_registered = u64_height ctx, kr_origin = origin, kr_pop = sch_pop m\<rparr>
        in bindM (readM (\<lambda>_. encodeAuditKey record network (AuditInitialHeight rt))) (\<lambda>encoded.
           cacheCtx (
             bindM (setStore (auditEpochKey auditEpochPrefix (sch_epoch m)) encoded) (\<lambda>_.
             bindM (setStore (auditEpochKey auditActivationPrefix (sch_activation m)) (be64 (sch_epoch m))) (\<lambda>_.
             emitEvent (''audit_key_scheduled'', [(''epoch'', u64_string (kr_epoch record)),
               (''key_id'', hex_of_bytes (kr_key_id record)), (''activation_height'', u64_string (kr_activation record))])))))))))))))))))"

record msg_cancel =
  can_authority :: string
  can_epoch :: u64

definition CancelPendingAuditEpoch ::
  "audit_runtime option \<Rightarrow> exec_ctx \<Rightarrow> msg_cancel option \<Rightarrow> ('b chain, unit) action" where
  "CancelPendingAuditEpoch rt ctx msg =
     (case msg of None \<Rightarrow> failM (Errorf ''nil audit cancel'')
      | Some m \<Rightarrow>
        bindM (readM (\<lambda>_. checkAuditAuthority rt ctx (can_authority m))) (\<lambda>_.
        bindM (readStore pendingAuditEpoch) (\<lambda>(epoch, height).
        bindM (guardM (\<not> (epoch = 0 \<or> epoch \<noteq> can_epoch m \<or> height \<le> u64_height ctx))
                 (Errorf ''epoch is not a future pending activation'')) (\<lambda>_.
        bindM (readM (\<lambda>_. auditExecutionOrigin rt ctx)) (\<lambda>origin.
        cacheCtx (
          bindM (readStore (\<lambda>s. guardE (\<not> kv_has s (auditEpochKey auditCancellationPrefix epoch))
                   (Errorf ''audit cancellation is immutable''))) (\<lambda>_.
          bindM (setStore (auditEpochKey auditCancellationPrefix epoch) (be16 1 @ enc_origin origin @ be64 (u64_height ctx))) (\<lambda>_.
          bindM (deleteStore (auditEpochKey auditActivationPrefix height)) (\<lambda>_.
          emitEvent (''audit_key_cancelled'', [(''epoch'', u64_string epoch), (''activation_height'', u64_string height)]))))))))))"

record msg_halt =
  halt_authority :: string
  halt_halted :: bool

definition SetPrivacyHalt ::
  "audit_runtime option \<Rightarrow> exec_ctx \<Rightarrow> msg_halt option \<Rightarrow> ('b chain, unit) action" where
  "SetPrivacyHalt rt ctx msg =
     (case msg of None \<Rightarrow> failM (Errorf ''nil privacy halt'')
      | Some m \<Rightarrow>
        bindM (readM (\<lambda>_. checkAuditAuthority rt ctx (halt_authority m))) (\<lambda>_.
        bindM (if \<not> halt_halted m
               then bindM (readStore (activeAuditKey rt ctx)) (\<lambda>_.
                    bindM (readStore (maxAuditEpoch rt ctx (replicate 32 0))) (\<lambda>_. retM ()))
               else retM ()) (\<lambda>_.
        cacheCtx (
          bindM (setStore [auditHaltPrefix] [if halt_halted m then 1 else 0]) (\<lambda>_.
          emitEvent (''privacy_halt_changed'', [(''halted'', if halt_halted m then ''true'' else ''false'')]))))))"

definition BeginAuditBlock :: "audit_runtime option \<Rightarrow> exec_ctx \<Rightarrow> ('b chain, unit) action" where
  "BeginAuditBlock rt ctx =
     (if rt = None then retM ()
      else
        bindM (readStore pendingAuditEpoch) (\<lambda>(epoch, height).
        if epoch = 0 \<or> height > u64_height ctx then retM ()
        else
          bindM (guardM (height = u64_height ctx) (Errorf ''missed audit key activation'')) (\<lambda>_.
          bindM (readStore (getAuditKey rt ctx epoch)) (\<lambda>(record, _).
          bindM (guardM (kr_activation record = height) (Errorf ''audit activation index mismatch'')) (\<lambda>_.
          bindM (readStore (\<lambda>s. guardE (\<not> kv_has s (auditEpochKey auditCancellationPrefix epoch))
                   (Errorf ''cancelled audit epoch cannot activate''))) (\<lambda>_.
          cacheCtx (
            bindM (setStore [auditActivePrefix] (be16 1 @ be64 epoch @ be64 height)) (\<lambda>_.
            bindM (deleteStore (auditEpochKey auditActivationPrefix height)) (\<lambda>_.
            emitEvent (''audit_key_activated'', [(''epoch'', u64_string (kr_epoch record)),
              (''key_id'', hex_of_bytes (kr_key_id record)), (''activation_height'', u64_string height)]))))))))))"

section \<open>The record codec\<close>

lemma keyrec_validate_lengths:
  assumes "keyrec_validate v network ih = Inr ()"
  shows "length (kr_key_id v) = 32 \<and> length (kr_pk v) = 64 \<and> length (kr_pop v) = 96 \<and> kr_epoch v \<noteq> 0 \<and>
     \<not> kr_activation v > MaxInt64"
proof -
  from assms obtain key pop where k: "ParseAuditKey (kr_pk v) (kr_key_id v) = Inr key" and p: "ParsePoP96 (kr_pop v) = Inr pop"
    by (auto simp: keyrec_validate_def)
  have "length (kr_pk v) = 64" "kr_key_id v = ak_id key"
    using k NewAuditKey_encoded [of "kr_pk v" key] by (auto simp: ParseAuditKey_iff)
  moreover have "length (ak_id key) = 32"
    using k by (auto simp: ParseAuditKey_iff NewAuditKeyFromPoint64_def NewAuditKey_def)
  moreover have "length (kr_pop v) = 96"
    using p by (auto simp: ParsePoP96_def proofOfPossessionSize_def size_defs)
  ultimately show ?thesis using assms by (auto simp: keyrec_validate_def)
qed

text \<open>How much of the input is left, or none after an error.\<close>

definition dec_left :: "audit_decoder \<Rightarrow> nat option" where
  "dec_left r = (if dec_err r then None else Some (length (dec_rest r)))"

lemma dec_left_take:
  "dec_left (snd (dec_take n r)) = Some m \<longleftrightarrow> dec_left r = Some (m + n)"
  by (auto simp: dec_left_def dec_take_def)

lemma dec_done_iff: "dec_done r = Inr u \<longleftrightarrow> dec_left r = Some 0"
  by (auto simp: dec_done_def dec_left_def)

lemma dec_take_ok:
  "n \<le> length bs \<Longrightarrow> dec_take n \<lparr>dec_rest = bs, dec_err = False\<rparr> = (take n bs, \<lparr>dec_rest = drop n bs, dec_err = False\<rparr>)"
  by (simp add: dec_take_def)

lemma decodeAuditKey_length:
  assumes "decodeAuditKey raw network ih = Inr v"
  shows "length raw = 261"
proof -
  let ?t = "\<lambda>n r. snd (dec_take n r)"
  let ?r = "?t 96 (?t 8 (?t 32 (?t 1 (?t 8 (?t 8 (?t 64 (?t 2 (?t 32 (?t 8 (?t 2 \<lparr>dec_rest = raw, dec_err = False\<rparr>))))))))))"
  have "dec_done ?r = Inr ()" using assms by (auto simp: decodeAuditKey_def Let_def split_beta)
  then have "dec_left ?r = Some 0" by (simp add: dec_done_iff)
  moreover have "dec_left \<lparr>dec_rest = raw, dec_err = False\<rparr> = Some (length raw)" by (simp add: dec_left_def)
  ultimately show ?thesis by (simp add: dec_left_take)
qed

lemma decodeAuditKey_261:
  assumes "length raw = 261"
  shows "decodeAuditKey raw network ih =
     bindE (guardE (un_be16 (take 2 raw) = 1) (Errorf ''unsupported audit key record version'')) (\<lambda>_.
     let v = \<lparr>kr_epoch = un_be64 (take 8 (drop 2 raw)), kr_key_id = take 32 (drop 10 raw), kr_suite = un_be16 (take 2 (drop 42 raw)),
        kr_pk = take 64 (drop 44 raw), kr_activation = un_be64 (take 8 (drop 108 raw)), kr_registered = un_be64 (take 8 (drop 116 raw)),
        kr_origin = \<lparr>or_kind = take 1 (drop 124 raw) ! 0, or_anchor = take 32 (drop 125 raw), or_height = un_be64 (take 8 (drop 157 raw))\<rparr>,
        kr_pop = take 96 (drop 165 raw)\<rparr>
     in bindE (keyrec_validate v network ih) (\<lambda>_. Inr v))"
  using assms by (simp add: decodeAuditKey_def dec_take_ok dec_done_def del: take_Suc_conv_app_nth)

lemma origin_eta [simp]: "\<lparr>or_kind = or_kind ao, or_anchor = or_anchor ao, or_height = or_height ao\<rparr> = ao"
  by (cases ao) simp

lemma keyrec_eta [simp]: "\<lparr>kr_epoch = kr_epoch v, kr_key_id = kr_key_id v, kr_suite = kr_suite v, kr_pk = kr_pk v,
    kr_activation = kr_activation v, kr_registered = kr_registered v, kr_origin = kr_origin v, kr_pop = kr_pop v\<rparr> = v"
  by (cases v) simp

lemma keyrec_bytes_split:
  assumes "length (kr_key_id v) = 32" "length (kr_pk v) = 64" "length (kr_pop v) = 96" "length (or_anchor (kr_origin v)) = 32"
  shows "length (keyrec_bytes v) = 261 \<and> decodeAuditKey (keyrec_bytes v) network ih = bindE (keyrec_validate v network ih) (\<lambda>_. Inr v)"
proof -
  have len: "length (keyrec_bytes v) = 261" using assms by (simp add: keyrec_bytes_def enc_origin_def)
  show ?thesis unfolding decodeAuditKey_261 [OF len]
    using assms len un_be16_be16_append [of 1 "[]"] un_be16_be16_append [of "kr_suite v" "[]"]
    by (simp add: keyrec_bytes_def enc_origin_def Let_def)
qed

lemma be64_of_take: "length bs = 8 \<Longrightarrow> be64 (un_be64 bs) = bs"
  using be64_un_be64 by blast

lemma take_split: "length raw = 261 \<Longrightarrow>
  raw = take 2 raw @ take 8 (drop 2 raw) @ take 32 (drop 10 raw) @ take 2 (drop 42 raw) @ take 64 (drop 44 raw) @
    take 8 (drop 108 raw) @ take 8 (drop 116 raw) @ take 1 (drop 124 raw) @ take 32 (drop 125 raw) @ take 8 (drop 157 raw) @
    take 96 (drop 165 raw)"
proof -
  assume "length raw = 261"
  have step: "drop i raw = take n (drop i raw) @ drop (i + n) raw" for i n
    by (metis append_take_drop_id drop_drop add.commute)
  have "drop 165 raw = take 96 (drop 165 raw)" using \<open>length raw = 261\<close> by simp
  then show ?thesis
    using step [of 0 2] step [of 2 8] step [of 10 32] step [of 42 2] step [of 44 64] step [of 108 8] step [of 116 8]
      step [of 124 1] step [of 125 32] step [of 157 8] by simp
qed

lemma decodeAuditKey_iff:
  "decodeAuditKey raw network ih = Inr v \<longleftrightarrow> encodeAuditKey v network ih = Inr raw \<and> length (or_anchor (kr_origin v)) = 32"
proof
  assume "encodeAuditKey v network ih = Inr raw \<and> length (or_anchor (kr_origin v)) = 32"
  then have val: "keyrec_validate v network ih = Inr ()" "raw = keyrec_bytes v" "length (or_anchor (kr_origin v)) = 32"
    by (auto simp: encodeAuditKey_def)
  then show "decodeAuditKey raw network ih = Inr v"
    using keyrec_validate_lengths [OF val(1)] keyrec_bytes_split [of v network ih] by simp
next
  assume d: "decodeAuditKey raw network ih = Inr v"
  note len = decodeAuditKey_length [OF d]
  from d [unfolded decodeAuditKey_261 [OF len]] have ver: "un_be16 (take 2 raw) = 1"
    and val: "keyrec_validate v network ih = Inr ()"
    and v: "v = \<lparr>kr_epoch = un_be64 (take 8 (drop 2 raw)), kr_key_id = take 32 (drop 10 raw), kr_suite = un_be16 (take 2 (drop 42 raw)),
        kr_pk = take 64 (drop 44 raw), kr_activation = un_be64 (take 8 (drop 108 raw)), kr_registered = un_be64 (take 8 (drop 116 raw)),
        kr_origin = \<lparr>or_kind = take 1 (drop 124 raw) ! 0, or_anchor = take 32 (drop 125 raw), or_height = un_be64 (take 8 (drop 157 raw))\<rparr>,
        kr_pop = take 96 (drop 165 raw)\<rparr>"
    by (auto simp: Let_def)
  have b1: "[take 1 (drop 124 raw) ! 0] = take 1 (drop 124 raw)" using len by (cases "drop 124 raw") auto
  have b2: "be16 (un_be16 (take 2 raw)) = take 2 raw" "be16 (un_be16 (take 2 (drop 42 raw))) = take 2 (drop 42 raw)"
    using len be16_un_be16 by auto
  have b8: "be64 (un_be64 (take 8 (drop i raw))) = take 8 (drop i raw)" if "i + 8 \<le> 261" for i
    using len that by (intro be64_of_take) simp
  have "keyrec_bytes v = raw"
    unfolding v keyrec_bytes_def enc_origin_def
    using take_split [OF len] b1 b2 ver b8 [of 2] b8 [of 108] b8 [of 116] b8 [of 157] by simp
  then show "encodeAuditKey v network ih = Inr raw \<and> length (or_anchor (kr_origin v)) = 32"
    using val len by (simp add: encodeAuditKey_def v)
qed

end
