(* ===== verification/Key_Lifecycle.thy ===== *)
theory Key_Lifecycle
  imports Audit_Keys
begin

text \<open>
  What the audit-key operations do, as an abstract machine: a history of key records, at most one pending
  key, at most one active key, the cancelled epochs and the halt flag. The relation \<open>key_rep\<close> says which
  abstract state a store represents; each operation of \<^verbatim>\<open>Audit_Keys\<close> either fails and changes nothing but the gas
  meter, or takes the step \<open>op_step\<close> that its message describes at the height of the block, which is a step of the machine. The invariant of the
  machine is proved by rule induction.
\<close>

section \<open>The abstract machine\<close>

record key_state =
  ks_keys :: "audit_key_record list"
  ks_pending :: "audit_key_record option"
  ks_active :: "audit_key_record option"
  ks_cancelled :: "u64 set"
  ks_halted :: bool

text \<open>\<open>valid k\<close> stands for the check of a key record against the network and the initial height.\<close>

inductive key_step :: "(audit_key_record \<Rightarrow> bool) \<Rightarrow> key_state \<Rightarrow> key_state \<Rightarrow> bool" for valid where
  Schedule: "ks_pending A = None \<Longrightarrow> ks_keys A \<noteq> [] \<Longrightarrow> Suc (length (ks_keys A)) < 2 ^ 64 \<Longrightarrow>
    kr_epoch k = word_of_nat (Suc (length (ks_keys A))) \<Longrightarrow> kr_key_id k \<notin> kr_key_id ` set (ks_keys A) \<Longrightarrow> valid k \<Longrightarrow>
    key_step valid A (A\<lparr>ks_keys := ks_keys A @ [k], ks_pending := Some k\<rparr>)"
| Cancel: "ks_pending A = Some k \<Longrightarrow>
    key_step valid A (A\<lparr>ks_pending := None, ks_cancelled := insert (kr_epoch k) (ks_cancelled A)\<rparr>)"
| Activate: "ks_pending A = Some k \<Longrightarrow> key_step valid A (A\<lparr>ks_pending := None, ks_active := Some k\<rparr>)"
| Halt: "key_step valid A (A\<lparr>ks_halted := b\<rparr>)"

inductive_cases key_stepE: "key_step valid A B"

definition key_inv :: "(audit_key_record \<Rightarrow> bool) \<Rightarrow> key_state \<Rightarrow> bool" where
  "key_inv valid A =
     (length (ks_keys A) < 2 ^ 64 \<and>
      map kr_epoch (ks_keys A) = map word_of_nat [1..<Suc (length (ks_keys A))] \<and>
      distinct (map kr_key_id (ks_keys A)) \<and>
      (\<forall>k \<in> set (ks_keys A). valid k) \<and>
      ks_cancelled A \<subseteq> kr_epoch ` set (ks_keys A) \<and>
      (\<forall>k. ks_pending A = Some k \<longrightarrow> ks_keys A \<noteq> [] \<and> k = last (ks_keys A) \<and> kr_epoch k \<notin> ks_cancelled A \<and>
         (\<forall>j. ks_active A = Some j \<longrightarrow> kr_epoch j \<noteq> kr_epoch k)) \<and>
      (\<forall>k. ks_active A = Some k \<longrightarrow> k \<in> set (ks_keys A) \<and> kr_epoch k \<notin> ks_cancelled A))"

lemma epoch_fresh:
  assumes "map kr_epoch ks = map word_of_nat [1..<Suc (length ks)]" "Suc (length ks) < 2 ^ 64"
  shows "word_of_nat (Suc (length ks)) \<notin> kr_epoch ` set ks"
proof
  assume "word_of_nat (Suc (length ks)) \<in> kr_epoch ` set ks"
  then have "(word_of_nat (Suc (length ks)) :: u64) \<in> set (map word_of_nat [1..<Suc (length ks)])"
    using assms(1) by (metis set_map)
  then obtain i where i: "i \<in> {1..<Suc (length ks)}" "(word_of_nat (Suc (length ks)) :: u64) = word_of_nat i"
    unfolding set_map set_upt by blast
  then have "i < 2 ^ 64" using assms(2) by simp
  from u64_of_nat_inj [OF assms(2) this] i show False by (simp del: of_nat_Suc)
qed

lemma key_inv_step:
  assumes "key_step valid A B" "key_inv valid A"
  shows "key_inv valid B"
  using assms
proof (cases rule: key_step.cases)
  case (Schedule k)
  then have fresh: "kr_epoch k \<notin> kr_epoch ` set (ks_keys A)"
    using epoch_fresh [of "ks_keys A"] assms(2) by (simp add: key_inv_def)
  then have fresh': "x \<in> set (ks_keys A) \<Longrightarrow> kr_epoch x \<noteq> kr_epoch k" for x by (metis imageI)
  have up: "map kr_epoch (ks_keys A @ [k]) = map word_of_nat [1..<Suc (length (ks_keys A @ [k]))]"
  proof -
    have up: "[1..<Suc (length (ks_keys A @ [k]))] = [1..<Suc (length (ks_keys A))] @ [Suc (length (ks_keys A))]" by simp
    show ?thesis unfolding up map_append
      using Schedule(5) assms(2) by (simp add: key_inv_def del: upt_Suc of_nat_Suc)
  qed
  have cancelled: "kr_epoch k \<notin> ks_cancelled A" using fresh assms(2) by (auto simp: key_inv_def)
  have pend: "ks_active A = Some j \<Longrightarrow> kr_epoch j \<noteq> kr_epoch k" for j using fresh' assms(2) by (simp add: key_inv_def)
  show ?thesis unfolding key_inv_def Schedule(1)
    using Schedule(4,6,7) assms(2) up cancelled pend by (auto simp: key_inv_def simp del: upt_Suc)
next
  case (Cancel k)
  then have "kr_epoch k \<in> kr_epoch ` set (ks_keys A)" using assms(2) by (auto simp: key_inv_def)
  with Cancel assms(2) show ?thesis by (auto simp: key_inv_def)
next
  case (Activate k)
  then have "k \<in> set (ks_keys A)" using assms(2) by (auto simp: key_inv_def)
  with Activate assms(2) show ?thesis by (auto simp: key_inv_def)
next
  case (Halt b)
  with assms(2) show ?thesis by (auto simp: key_inv_def)
qed

text \<open>The history only grows, a cancelled epoch stays cancelled.\<close>

lemma key_step_grows:
  "key_step valid A B \<Longrightarrow> (\<exists>ks. ks_keys B = ks_keys A @ ks) \<and> ks_cancelled A \<subseteq> ks_cancelled B"
  by (erule key_stepE) auto

section \<open>Representation\<close>

definition key_entry :: "audit_key_record \<Rightarrow> bytes \<times> bytes" where
  "key_entry k = (auditEpochKey auditEpochPrefix (kr_epoch k), keyrec_bytes k)"

definition key_rep :: "key_state \<Rightarrow> store \<Rightarrow> bool" where
  "key_rep A s =
     (kv_wf s \<and>
      kv_range [auditEpochPrefix] [auditEpochPrefix + 1] s = map key_entry (ks_keys A) \<and>
      kv_range [auditActivationPrefix] [auditActivationPrefix + 1] s =
        (case ks_pending A of None \<Rightarrow> [] | Some k \<Rightarrow> [(auditEpochKey auditActivationPrefix (kr_activation k), be64 (kr_epoch k))]) \<and>
      kv_get s [auditActivePrefix] =
        (case ks_active A of None \<Rightarrow> None | Some k \<Rightarrow> Some (be16 1 @ be64 (kr_epoch k) @ be64 (kr_activation k))) \<and>
      (\<forall>e. kv_has s (auditEpochKey auditCancellationPrefix e) \<longleftrightarrow> e \<in> ks_cancelled A) \<and>
      auditHalted s = Inr (ks_halted A))"

definition key_valid :: "bytes \<Rightarrow> u64 \<Rightarrow> audit_key_record \<Rightarrow> bool" where
  "key_valid network ih k = (decodeAuditKey (keyrec_bytes k) network ih = Inr k)"

lemma key_valid_facts:
  assumes "key_valid network ih k"
  shows "kr_epoch k \<noteq> 0 \<and> \<not> kr_activation k > MaxInt64"
  using assms keyrec_validate_lengths [of k network ih]
  by (auto simp: key_valid_def decodeAuditKey_iff encodeAuditKey_def)

lemma in_prefix_range:
  "p < (255 :: byte) \<Longrightarrow> [p] \<le> auditEpochKey q e \<and> auditEpochKey q e < [p + 1] \<longleftrightarrow> q = p"
  using prefix_range_iff [of p "auditEpochKey q e"] by (auto simp: auditEpochKey_def)

lemma not_in_prefix_range: "p < (255 :: byte) \<Longrightarrow> [p] \<le> k \<Longrightarrow> k < [p + 1] \<Longrightarrow> hd k = p"
  using prefix_range_iff [of p k] by auto

lemma auditEpochKey_simps [simp]:
  "auditEpochKey p e = auditEpochKey q f \<longleftrightarrow> p = q \<and> e = f" "length (auditEpochKey p e) = 9" "tl (auditEpochKey p e) = be64 e"
  "auditEpochKey p e \<noteq> [b]" "[b] \<noteq> auditEpochKey p e"
  using be64_length [of e] by (auto simp: auditEpochKey_def simp del: be64_length)

lemma epoch_prefix_small: "auditEpochPrefix < 255" "auditActivationPrefix < 255"
  by (simp_all add: audit_prefix_defs)

section \<open>The readers\<close>

lemma pending_run:
  assumes "key_rep A s" "key_inv (key_valid network ih) A"
  shows "pendingAuditEpoch s = Inr (case ks_pending A of None \<Rightarrow> (0, 0) | Some k \<Rightarrow> (kr_epoch k, kr_activation k))"
proof (cases "ks_pending A")
  case (Some k)
  then have "k \<in> set (ks_keys A)" using assms(2) by (auto simp: key_inv_def)
  then have "key_valid network ih k" using assms(2) by (simp add: key_inv_def)
  from key_valid_facts [OF this] show ?thesis
    using assms(1) Some by (simp add: pendingAuditEpoch_def key_rep_def)
qed (use assms(1) in \<open>simp add: pendingAuditEpoch_def key_rep_def\<close>)

lemma maxEpochLoop_run:
  assumes "\<forall>k \<in> set ks. key_valid network ih k" "map kr_epoch ks = map (\<lambda>i. word_of_nat (m + i)) [1..<Suc (length ks)]"
  shows "maxEpochLoop network ih newID (map key_entry ks) (word_of_nat m) =
     (if newID \<in> kr_key_id ` set ks then Inl (Errorf ''audit key ID cannot be reused'') else Inr (word_of_nat (m + length ks)))"
  using assms
proof (induction ks arbitrary: m)
  case (Cons k ks)
  have e: "kr_epoch k = word_of_nat (m + 1)" and
    tail: "map kr_epoch ks = map (\<lambda>i. word_of_nat (Suc m + i)) [1..<Suc (length ks)]"
  proof -
    have l: "[1..<Suc (length (k # ks))] = 1 # map Suc [1..<Suc (length ks)]"
      by (simp only: map_Suc_upt) (simp add: upt_conv_Cons del: upt_Suc)
    show "kr_epoch k = word_of_nat (m + 1)" "map kr_epoch ks = map (\<lambda>i. word_of_nat (Suc m + i)) [1..<Suc (length ks)]"
      using Cons.prems(2) unfolding l by (simp_all add: o_def del: upt_Suc)
  qed
  have step: "word_of_nat (m + 1) = (word_of_nat m :: u64) + 1" by simp
  have v: "decodeAuditKey (keyrec_bytes k) network ih = Inr k" using Cons.prems(1) by (simp add: key_valid_def)
  show ?case
  proof (cases "newID = kr_key_id k")
    case True
    then show ?thesis using v e step by (simp add: key_entry_def)
  next
    case False
    have "kr_epoch k = word_of_nat (Suc m)" using e by simp
    then show ?thesis using v e step False Cons.IH [of "Suc m"] Cons.prems(1) tail by (auto simp: key_entry_def)
  qed
qed simp

lemma maxAuditEpoch_run:
  assumes "key_rep A s" "key_inv (key_valid network ih) A" "auditNetwork rt ctx = Inr network" "AuditInitialHeight rt = ih"
  shows "maxAuditEpoch rt ctx newID s =
     (if newID \<in> kr_key_id ` set (ks_keys A) then Inl (Errorf ''audit key ID cannot be reused'')
      else Inr (word_of_nat (length (ks_keys A))))"
  using assms maxEpochLoop_run [of "ks_keys A" network ih 0 newID]
  by (simp add: maxAuditEpoch_def key_rep_def key_inv_def del: upt_Suc)

lemma key_lookup:
  assumes "key_rep A s" "key_inv valid A"
  shows "kv_get s (auditEpochKey auditEpochPrefix e) = Some raw \<longleftrightarrow> (\<exists>k \<in> set (ks_keys A). kr_epoch k = e \<and> raw = keyrec_bytes k)"
proof -
  have "kv_get s (auditEpochKey auditEpochPrefix e) = Some raw \<longleftrightarrow>
      (auditEpochKey auditEpochPrefix e, raw) \<in> set (kv_range [auditEpochPrefix] [auditEpochPrefix + 1] s)"
    using kv_range_mem [of s "auditEpochKey auditEpochPrefix e" raw "[auditEpochPrefix]" "[auditEpochPrefix + 1]"] assms(1)
      in_prefix_range [OF epoch_prefix_small(1), of auditEpochPrefix e] by (simp add: key_rep_def)
  then show ?thesis using assms(1) by (auto simp: key_rep_def key_entry_def)
qed

lemma getAuditKey_run:
  assumes "key_rep A s" "key_inv (key_valid network (rt_initial_height a)) A" "auditNetwork (Some a) ctx = Inr network"
    "k \<in> set (ks_keys A)"
  shows "getAuditKey (Some a) ctx (kr_epoch k) s = Inr (k, keyrec_bytes k)"
proof -
  have "kv_get s (auditEpochKey auditEpochPrefix (kr_epoch k)) = Some (keyrec_bytes k)"
    using key_lookup [OF assms(1,2)] assms(4) by blast
  moreover have "decodeAuditKey (keyrec_bytes k) network (rt_initial_height a) = Inr k"
    using assms(2,4) by (simp add: key_inv_def key_valid_def)
  ultimately show ?thesis using assms(3) by (simp add: getAuditKey_def)
qed

lemma activeAuditKey_run:
  assumes "key_rep A s" "key_inv (key_valid network (rt_initial_height a)) A" "auditNetwork (Some a) ctx = Inr network"
  shows "activeAuditKey (Some a) ctx s =
     (case ks_active A of None \<Rightarrow> Inl (Errorf ''active audit key is not initialized'')
      | Some k \<Rightarrow> if kr_activation k \<le> u64_height ctx then Inr k else Inl (Errorf ''invalid active audit epoch''))"
proof (cases "ks_active A")
  case (Some k)
  then have k: "k \<in> set (ks_keys A)" using assms(2) by (simp add: key_inv_def)
  show ?thesis using assms(1) Some getAuditKey_run [OF assms k]
    by (auto simp: activeAuditKey_def key_rep_def guardE_def)
qed (use assms(1) in \<open>simp add: activeAuditKey_def key_rep_def\<close>)

section \<open>The writes\<close>

lemma epoch_key_order: "auditEpochKey p a < auditEpochKey p b \<longleftrightarrow> a < b"
  by (simp add: auditEpochKey_def)

lemma outside:
  assumes "kv_wf s" "p < (255 :: byte)" "hd k \<noteq> p"
  shows "kv_range [p] [p + 1] (kv_set k v s) = kv_range [p] [p + 1] s" "kv_range [p] [p + 1] (kv_delete k s) = kv_range [p] [p + 1] s"
  using kv.iter_put_outside [OF assms(1), of "[p]" k "[p + 1]" v] kv.iter_del_outside [OF assms(1), of "[p]" k "[p + 1]"]
    not_in_prefix_range [OF assms(2), of k] assms(3) by blast+

lemma hd_auditEpochKey [simp]: "hd (auditEpochKey p e) = p"
  by (simp add: auditEpochKey_def)

lemma prefixes_distinct [simp]:
  "auditActivationPrefix \<noteq> auditEpochPrefix" "auditEpochPrefix \<noteq> auditActivationPrefix"
  "auditActivePrefix \<noteq> auditEpochPrefix" "auditActivePrefix \<noteq> auditActivationPrefix" "auditHaltPrefix \<noteq> auditEpochPrefix"
  "auditHaltPrefix \<noteq> auditActivationPrefix" "auditHaltPrefix \<noteq> auditActivePrefix" "auditActivePrefix \<noteq> auditHaltPrefix"
  "auditCancellationPrefix \<noteq> auditEpochPrefix" "auditCancellationPrefix \<noteq> auditActivationPrefix"
  "auditEpochPrefix \<noteq> auditCancellationPrefix" "auditActivationPrefix \<noteq> auditCancellationPrefix"
  by (simp_all add: audit_prefix_defs)

lemma auditHalted_get: "kv_get s [auditHaltPrefix] = kv_get t [auditHaltPrefix] \<Longrightarrow> auditHalted s = auditHalted t"
  by (simp add: auditHalted_def)

lemma epochs_below:
  assumes "key_inv valid A" "Suc (length (ks_keys A)) < 2 ^ 64" "k \<in> set (ks_keys A)"
  shows "kr_epoch k < word_of_nat (Suc (length (ks_keys A)))"
proof -
  have "map kr_epoch (ks_keys A) = map word_of_nat [1..<Suc (length (ks_keys A))]"
    using assms(1) by (simp add: key_inv_def del: upt_Suc)
  moreover have "kr_epoch k \<in> set (map kr_epoch (ks_keys A))" using assms(3) by simp
  ultimately have "kr_epoch k \<in> set (map word_of_nat [1..<Suc (length (ks_keys A))])" by (simp only:)
  then obtain i where i: "i \<in> {1..<Suc (length (ks_keys A))}" "kr_epoch k = word_of_nat i"
    unfolding set_map set_upt by blast
  then show ?thesis using assms(2) u64_less [of i "Suc (length (ks_keys A))"] by (simp del: of_nat_Suc)
qed

lemma rep_schedule:
  assumes rep: "key_rep A s" and inv: "key_inv valid A" and none: "ks_pending A = None"
    and len: "Suc (length (ks_keys A)) < 2 ^ 64" and e: "kr_epoch k = word_of_nat (Suc (length (ks_keys A)))"
  shows "key_rep (A\<lparr>ks_keys := ks_keys A @ [k], ks_pending := Some k\<rparr>)
     (kv_set (auditEpochKey auditActivationPrefix (kr_activation k)) (be64 (kr_epoch k))
       (kv_set (auditEpochKey auditEpochPrefix (kr_epoch k)) (keyrec_bytes k) s))"
proof -
  let ?k1 = "auditEpochKey auditEpochPrefix (kr_epoch k)" and ?k2 = "auditEpochKey auditActivationPrefix (kr_activation k)"
  let ?s1 = "kv_set ?k1 (keyrec_bytes k) s"
  have wf: "kv_wf s" "kv_wf ?s1" using rep by (simp_all add: key_rep_def)
  have r1: "kv_range [auditEpochPrefix] [auditEpochPrefix + 1] ?s1 = map key_entry (ks_keys A) @ [(?k1, keyrec_bytes k)]"
  proof -
    have "kv_range [auditEpochPrefix] [auditEpochPrefix + 1] s = map key_entry (ks_keys A)" using rep by (simp add: key_rep_def)
    moreover have "x < ?k1" if "(x, y) \<in> set (map key_entry (ks_keys A))" for x y
      using that epochs_below [OF inv len] e by (auto simp: key_entry_def epoch_key_order)
    ultimately show ?thesis
      using kv_range_set [OF wf(1), of "[auditEpochPrefix]" ?k1 "[auditEpochPrefix + 1]" "keyrec_bytes k"]
        in_prefix_range [OF epoch_prefix_small(1), of auditEpochPrefix "kr_epoch k"] by metis
  qed
  have empty: "kv_range [auditActivationPrefix] [auditActivationPrefix + 1] ?s1 = []"
    using outside(1) [OF wf(1) epoch_prefix_small(2), of ?k1] rep none by (simp add: key_rep_def)
  have r2: "kv_range [auditActivationPrefix] [auditActivationPrefix + 1] (kv_set ?k2 (be64 (kr_epoch k)) ?s1) = [(?k2, be64 (kr_epoch k))]"
    using kv_range_set [OF wf(2), of "[auditActivationPrefix]" ?k2 "[auditActivationPrefix + 1]" "be64 (kr_epoch k)"] empty
      in_prefix_range [OF epoch_prefix_small(2), of auditActivationPrefix "kr_activation k"] by simp
  have r1': "kv_range [auditEpochPrefix] [auditEpochPrefix + 1] (kv_set ?k2 (be64 (kr_epoch k)) ?s1) = map key_entry (ks_keys A) @ [key_entry k]"
    using outside(1) [OF wf(2) epoch_prefix_small(1), of ?k2] r1 by (simp add: key_entry_def)
  have halt: "auditHalted (kv_set ?k2 (be64 (kr_epoch k)) ?s1) = auditHalted s" by (rule auditHalted_get) simp
  show ?thesis using rep r1' r2 halt wf by (simp add: key_rep_def kv_has_def)
qed

lemma rep_unpend:
  assumes rep: "key_rep A s" and k: "ks_pending A = Some k"
  shows "kv_range [auditActivationPrefix] [auditActivationPrefix + 1]
     (kv_delete (auditEpochKey auditActivationPrefix (kr_activation k)) s) = []"
  using rep k by (simp add: kv_range_delete key_rep_def)

lemma rep_cancel:
  assumes rep: "key_rep A s" and k: "ks_pending A = Some k"
  shows "key_rep (A\<lparr>ks_pending := None, ks_cancelled := insert (kr_epoch k) (ks_cancelled A)\<rparr>)
     (kv_delete (auditEpochKey auditActivationPrefix (kr_activation k))
       (kv_set (auditEpochKey auditCancellationPrefix (kr_epoch k)) v s))" (is "key_rep _ (kv_delete ?d ?s)")
proof -
  have wf: "kv_wf s" "kv_wf ?s" using rep by (simp_all add: key_rep_def)
  have "kv_range [auditActivationPrefix] [auditActivationPrefix + 1] (kv_delete ?d ?s) = []"
    using outside(1) [OF wf(1) epoch_prefix_small(2), of "auditEpochKey auditCancellationPrefix (kr_epoch k)"] rep k
    by (simp add: kv_range_delete key_rep_def)
  moreover have "kv_range [auditEpochPrefix] [auditEpochPrefix + 1] (kv_delete ?d ?s) = map key_entry (ks_keys A)"
    using outside(2) [OF wf(2) epoch_prefix_small(1), of ?d] outside(1) [OF wf(1) epoch_prefix_small(1), of "auditEpochKey auditCancellationPrefix (kr_epoch k)"] rep
    by (simp add: key_rep_def)
  moreover have "auditHalted (kv_delete ?d ?s) = auditHalted s" by (rule auditHalted_get) simp
  ultimately show ?thesis using rep wf by (auto simp: key_rep_def kv_has_def)
qed

lemma rep_activate:
  assumes rep: "key_rep A s" and k: "ks_pending A = Some k"
  shows "key_rep (A\<lparr>ks_pending := None, ks_active := Some k\<rparr>)
     (kv_delete (auditEpochKey auditActivationPrefix (kr_activation k))
       (kv_set [auditActivePrefix] (be16 1 @ be64 (kr_epoch k) @ be64 (kr_activation k)) s))" (is "key_rep _ (kv_delete ?d ?s)")
proof -
  have wf: "kv_wf s" "kv_wf ?s" using rep by (simp_all add: key_rep_def)
  have "kv_range [auditActivationPrefix] [auditActivationPrefix + 1] (kv_delete ?d ?s) = []"
    using outside(1) [OF wf(1) epoch_prefix_small(2), of "[auditActivePrefix]"] rep k by (simp add: kv_range_delete key_rep_def)
  moreover have "kv_range [auditEpochPrefix] [auditEpochPrefix + 1] (kv_delete ?d ?s) = map key_entry (ks_keys A)"
    using outside(2) [OF wf(2) epoch_prefix_small(1), of ?d] outside(1) [OF wf(1) epoch_prefix_small(1), of "[auditActivePrefix]"] rep
    by (simp add: key_rep_def)
  moreover have "auditHalted (kv_delete ?d ?s) = auditHalted s" by (rule auditHalted_get) simp
  ultimately show ?thesis using rep wf by (simp add: key_rep_def kv_has_def)
qed

lemma rep_halt:
  assumes rep: "key_rep A s"
  shows "key_rep (A\<lparr>ks_halted := b\<rparr>) (kv_set [auditHaltPrefix] [if b then 1 else 0] s)"
proof -
  have wf: "kv_wf s" using rep by (simp add: key_rep_def)
  have "auditHalted (kv_set [auditHaltPrefix] [if b then 1 else 0] s) = Inr b" by (simp add: auditHalted_def)
  then show ?thesis using rep wf outside(1) [OF wf epoch_prefix_small(1), of "[auditHaltPrefix]"]
      outside(1) [OF wf epoch_prefix_small(2), of "[auditHaltPrefix]"]
    by (simp add: key_rep_def kv_has_def)
qed

section \<open>Every operation takes a step or fails\<close>

datatype key_op = OpSchedule "msg_schedule option" | OpCancel "msg_cancel option" | OpHalt "msg_halt option" | OpBegin

fun run_key_op :: "audit_runtime option \<Rightarrow> exec_ctx \<Rightarrow> key_op \<Rightarrow> ('b chain, unit) action" where
  "run_key_op rt ctx (OpSchedule m) = ScheduleAuditKeyEpoch rt ctx m"
| "run_key_op rt ctx (OpCancel m) = CancelPendingAuditEpoch rt ctx m"
| "run_key_op rt ctx (OpHalt m) = SetPrivacyHalt rt ctx m"
| "run_key_op rt ctx OpBegin = BeginAuditBlock rt ctx"

text \<open>The message came from the governance account; the block hook has no message.\<close>

fun op_authorized :: "audit_runtime \<Rightarrow> key_op \<Rightarrow> bool" where
  "op_authorized a (OpSchedule m) = (map_option sch_authority m = Some (rt_authority a))"
| "op_authorized a (OpCancel m) = (map_option can_authority m = Some (rt_authority a))"
| "op_authorized a (OpHalt m) = (map_option halt_authority m = Some (rt_authority a))"
| "op_authorized a OpBegin = True"

definition op_accepted :: "audit_runtime \<Rightarrow> exec_ctx \<Rightarrow> key_op \<Rightarrow> bool" where
  "op_accepted a ctx op = (op_authorized a op \<and> (op = OpBegin \<or> \<not> apply_marker ctx \<and> (\<exists>origin. auditExecutionOrigin (Some a) ctx = Inr origin)))"

text \<open>What each operation means: the step that its message asks for, at the height of the block. Scheduling appends the record that the message describes; cancelling names the
  pending epoch before its activation height; the halt flag becomes the one of the message, and is lifted only with an active key; the block hook waits
  or activates the pending key at its height.\<close>

inductive op_step :: "audit_runtime \<Rightarrow> bytes \<Rightarrow> exec_ctx \<Rightarrow> key_op \<Rightarrow> key_state \<Rightarrow> key_state \<Rightarrow> bool" for a network ctx where
  Scheduled: "ks_pending A = None \<Longrightarrow> ks_keys A \<noteq> [] \<Longrightarrow> Suc (length (ks_keys A)) < 2 ^ 64 \<Longrightarrow> sch_epoch m = word_of_nat (Suc (length (ks_keys A))) \<Longrightarrow>
    sch_suite m = 2 \<Longrightarrow> u64_height ctx < sch_activation m \<Longrightarrow> NewAuditKeyFromPoint64 (sch_public_key m) = Inr key \<Longrightarrow> ak_id key \<notin> kr_key_id ` set (ks_keys A) \<Longrightarrow>
    auditExecutionOrigin (Some a) ctx = Inr origin \<Longrightarrow>
    k = \<lparr>kr_epoch = sch_epoch m, kr_key_id = ak_id key, kr_suite = 2, kr_pk = sch_public_key m, kr_activation = sch_activation m, kr_registered = u64_height ctx,
         kr_origin = origin, kr_pop = sch_pop m\<rparr> \<Longrightarrow>
    key_valid network (rt_initial_height a) k \<Longrightarrow>
    op_step a network ctx (OpSchedule (Some m)) A (A\<lparr>ks_keys := ks_keys A @ [k], ks_pending := Some k\<rparr>)"
| Cancelled: "ks_pending A = Some k \<Longrightarrow> can_epoch m = kr_epoch k \<Longrightarrow> u64_height ctx < kr_activation k \<Longrightarrow>
    op_step a network ctx (OpCancel (Some m)) A (A\<lparr>ks_pending := None, ks_cancelled := insert (can_epoch m) (ks_cancelled A)\<rparr>)"
| Halted: "halt_halted m \<or> (\<exists>k. ks_active A = Some k \<and> kr_activation k \<le> u64_height ctx) \<and> replicate 32 0 \<notin> kr_key_id ` set (ks_keys A) \<Longrightarrow>
    op_step a network ctx (OpHalt (Some m)) A (A\<lparr>ks_halted := halt_halted m\<rparr>)"
| Waiting: "(\<forall>k. ks_pending A = Some k \<longrightarrow> u64_height ctx < kr_activation k) \<Longrightarrow> op_step a network ctx OpBegin A A"
| Activated: "ks_pending A = Some k \<Longrightarrow> kr_activation k = u64_height ctx \<Longrightarrow> op_step a network ctx OpBegin A (A\<lparr>ks_pending := None, ks_active := Some k\<rparr>)"

inductive_cases op_stepE: "op_step a network ctx op A B"

inductive_simps op_step_simps:
  "op_step a network ctx (OpCancel m) A B" "op_step a network ctx (OpHalt m) A B" "op_step a network ctx OpBegin A B"

text \<open>A step of an operation is a step of the machine; only the block hook may do nothing.\<close>

lemma op_step_key:
  assumes "op_step a network ctx op A B"
  shows "key_step (key_valid network (rt_initial_height a)) A B \<or> op = OpBegin \<and> B = A"
  using assms
proof cases
  case (Scheduled m key origin k)
  then have "kr_epoch k = word_of_nat (Suc (length (ks_keys A)))" "kr_key_id k \<notin> kr_key_id ` set (ks_keys A)" by simp_all
  then show ?thesis using key_step.Schedule [of A k "key_valid network (rt_initial_height a)"] Scheduled by simp
next
  case (Cancelled k m)
  then show ?thesis using key_step.Cancel [of A k] by simp
qed (auto intro: key_step.intros)

lemma atomic_prod [atomic_intros]: "(\<And>x y. atomic (f x y)) \<Longrightarrow> atomic (case p of (x, y) \<Rightarrow> f x y)" by (cases p) simp
lemma atomic_option [atomic_intros]: "atomic f \<Longrightarrow> (\<And>x. atomic (g x)) \<Longrightarrow> atomic (case p of None \<Rightarrow> f | Some x \<Rightarrow> g x)" by (cases p) simp_all
lemma atomic_quiet_if: "quiet (if b then m else n) \<Longrightarrow> (\<And>x. atomic (f x)) \<Longrightarrow> atomic (bindM (if b then m else n) f)"
  by (rule atomic_bind)

lemma key_op_atomic: "atomic (run_key_op rt ctx op)"
proof (cases op)
  case (OpSchedule m)
  show ?thesis unfolding OpSchedule run_key_op.simps ScheduleAuditKeyEpoch_def Let_def
    by (intro atomic_intros quiet_atomic [OF quiet_bases(2)])
next
  case (OpCancel m)
  show ?thesis unfolding OpCancel run_key_op.simps CancelPendingAuditEpoch_def
    by (intro atomic_intros quiet_atomic [OF quiet_bases(2)])
next
  case (OpHalt m)
  show ?thesis unfolding OpHalt run_key_op.simps SetPrivacyHalt_def
    by (intro atomic_intros quiet_atomic [OF quiet_bases(2)])
next
  case OpBegin
  show ?thesis unfolding OpBegin run_key_op.simps BeginAuditBlock_def
    by (intro atomic_intros quiet_atomic [OF quiet_bases(1)])
qed

lemma authority_iff:
  "checkAuditAuthority (Some a) ctx x = Inr () \<longleftrightarrow> x = rt_authority a \<and> \<not> apply_marker ctx \<and> (\<exists>origin. auditExecutionOrigin (Some a) ctx = Inr origin)"
  by (auto simp: checkAuditAuthority_def)

lemma origin_anchor: "auditExecutionOrigin rt ctx = Inr ao \<Longrightarrow> length (or_anchor ao) = 32"
  by (auto simp: auditExecutionOrigin_def split: option.splits if_splits)

lemma schedule_refines:
  assumes rep: "key_rep A (ch_store s)" and inv: "key_inv (key_valid network (rt_initial_height a)) A"
    and net: "auditNetwork (Some a) ctx = Inr network"
    and run: "ScheduleAuditKeyEpoch (Some a) ctx msg s = (Inr u, t)"
  shows "op_accepted a ctx (OpSchedule msg) \<and> (\<exists>B. op_step a network ctx (OpSchedule msg) A B \<and> key_rep B (ch_store t))"
proof -
  let ?ih = "rt_initial_height a" and ?n = "length (ks_keys A)"
  have ih: "AuditInitialHeight (Some a) = ?ih" by (simp add: AuditInitialHeight_def)
  obtain m where m: "msg = Some m" using run by (cases msg) (auto simp: ScheduleAuditKeyEpoch_def)
  let ?k = "\<lambda>(key :: audit_key) or'. \<lparr>kr_epoch = sch_epoch m, kr_key_id = ak_id key, kr_suite = 2, kr_pk = sch_public_key m,
              kr_activation = sch_activation m, kr_registered = u64_height ctx, kr_origin = or', kr_pop = sch_pop m\<rparr>"
  from run m net ih obtain key :: audit_key and mx or' h where auth: "checkAuditAuthority (Some a) ctx (sch_authority m) = Inr ()"
    and head: "sch_suite m = 2" "u64_height ctx < sch_activation m" "NewAuditKeyFromPoint64 (sch_public_key m) = Inr key"
    and pend: "pendingAuditEpoch (ch_store s) = Inr (0, h)"
    and mx: "maxAuditEpoch (Some a) ctx (ak_id key) (ch_store s) = Inr mx" "mx \<noteq> MaxUint64" "sch_epoch m = mx + 1" "mx \<noteq> 0"
    and or': "auditExecutionOrigin (Some a) ctx = Inr or'"
    and enc': "keyrec_validate (?k key or') network ?ih = Inr ()"
    and t': "ch_store t = kv_set (auditEpochKey auditActivationPrefix (sch_activation m)) (be64 (sch_epoch m))
       (kv_set (auditEpochKey auditEpochPrefix (sch_epoch m)) (keyrec_bytes (?k key or')) (ch_store s))"
    unfolding ScheduleAuditKeyEpoch_def Let_def encodeAuditKey_def
    by (auto simp: not_le)
  define k where k: "k = ?k key or'"
  have enc: "encodeAuditKey k network ?ih = Inr (keyrec_bytes k)" using enc' by (simp add: encodeAuditKey_def k)
  have t: "ch_store t = kv_set (auditEpochKey auditActivationPrefix (kr_activation k)) (be64 (kr_epoch k))
       (kv_set (auditEpochKey auditEpochPrefix (kr_epoch k)) (keyrec_bytes k) (ch_store s))"
    using t' by (simp add: k)
  have none: "ks_pending A = None"
  proof (rule ccontr)
    assume "ks_pending A \<noteq> None"
    then obtain j where j: "ks_pending A = Some j" by blast
    then have "j \<in> set (ks_keys A)" using inv by (auto simp: key_inv_def)
    then have "kr_epoch j \<noteq> 0" using inv key_valid_facts by (auto simp: key_inv_def)
    then show False using pend pending_run [OF rep inv] j by simp
  qed
  have max: "ak_id key \<notin> kr_key_id ` set (ks_keys A)" "mx = word_of_nat ?n"
    using mx(1) maxAuditEpoch_run [OF rep inv net ih, of "ak_id key"] by (auto split: if_splits)
  have lt: "?n < 2 ^ 64" using inv by (simp add: key_inv_def)
  have len: "Suc ?n < 2 ^ 64"
  proof (rule ccontr)
    assume "\<not> Suc ?n < 2 ^ 64"
    then have "?n = 18446744073709551615" using lt by simp
    then show False using mx(2) max(2) by (simp add: MaxUint64_def)
  qed
  have e: "kr_epoch k = word_of_nat (Suc ?n)" using mx(3) max(2) by (simp add: k)
  have valid: "key_valid network ?ih k"
    using enc origin_anchor [OF or'] by (simp add: key_valid_def decodeAuditKey_iff k)
  have epoch: "sch_epoch m = word_of_nat (Suc ?n)" using e by (simp add: k)
  have "ks_keys A \<noteq> []" using mx(4) max(2) by auto
  from op_step.Scheduled [of A m ctx key a or' k network, OF none this len epoch head max(1) or' k valid] rep_schedule [OF rep inv none len e]
  show ?thesis using auth m t unfolding authority_iff op_accepted_def by auto
qed

lemma cancel_refines:
  assumes rep: "key_rep A (ch_store s)" and inv: "key_inv (key_valid network (rt_initial_height a)) A"
    and run: "CancelPendingAuditEpoch (Some a) ctx msg s = (Inr u, t)"
  shows "op_accepted a ctx (OpCancel msg) \<and> (\<exists>B. op_step a network ctx (OpCancel msg) A B \<and> key_rep B (ch_store t))"
proof -
  obtain m where m: "msg = Some m" using run by (cases msg) (auto simp: CancelPendingAuditEpoch_def)
  from run m obtain e h v where auth: "checkAuditAuthority (Some a) ctx (can_authority m) = Inr ()"
    and pend: "pendingAuditEpoch (ch_store s) = Inr (e, h)" "e \<noteq> 0" "e = can_epoch m" "u64_height ctx < h"
    and t: "ch_store t = kv_delete (auditEpochKey auditActivationPrefix h) (kv_set (auditEpochKey auditCancellationPrefix e) v (ch_store s))"
    by (auto simp: CancelPendingAuditEpoch_def not_le)
  obtain k where k: "ks_pending A = Some k" "e = kr_epoch k" "h = kr_activation k"
    using pending_run [OF rep inv] pend by (cases "ks_pending A") auto
  then show ?thesis using rep_cancel [OF rep k(1), of v] auth m t pend(3,4) unfolding authority_iff op_accepted_def op_step_simps by auto
qed

lemma cancel_succeeds:
  assumes rep: "key_rep A (ch_store s)" and inv: "key_inv (key_valid network (rt_initial_height a)) A"
    and ok: "op_accepted a ctx (OpCancel msg)" and step: "op_step a network ctx (OpCancel msg) A B"
  shows "\<exists>t. CancelPendingAuditEpoch (Some a) ctx msg s = (Inr (), t)"
proof -
  obtain m k where m: "msg = Some m" "ks_pending A = Some k" "can_epoch m = kr_epoch k" "u64_height ctx < kr_activation k" using step unfolding op_step_simps by blast
  have k: "k \<in> set (ks_keys A)" "kr_epoch k \<notin> ks_cancelled A" using inv m(2) by (auto simp: key_inv_def)
  then have "kr_epoch k \<noteq> 0" using inv key_valid_facts by (auto simp: key_inv_def)
  moreover have "\<not> kv_has (ch_store s) (auditEpochKey auditCancellationPrefix (kr_epoch k))" using rep k(2) by (simp add: key_rep_def)
  moreover obtain origin where "checkAuditAuthority (Some a) ctx (can_authority m) = Inr ()" "auditExecutionOrigin (Some a) ctx = Inr origin"
    using ok m(1) by (auto simp: op_accepted_def authority_iff)
  ultimately show ?thesis using pending_run [OF rep inv] m by (simp add: CancelPendingAuditEpoch_def bindM_def cacheCtx_def guardE_def not_le)
qed

lemma halt_guard:
  assumes rep: "key_rep A (ch_store s)" and inv: "key_inv (key_valid network (rt_initial_height a)) A" and net: "auditNetwork (Some a) ctx = Inr network"
  shows "(\<exists>k mx. activeAuditKey (Some a) ctx (ch_store s) = Inr k \<and> maxAuditEpoch (Some a) ctx (replicate 32 0) (ch_store s) = Inr mx) \<longleftrightarrow>
    (\<exists>k. ks_active A = Some k \<and> kr_activation k \<le> u64_height ctx) \<and> replicate 32 0 \<notin> kr_key_id ` set (ks_keys A)"
proof -
  have "AuditInitialHeight (Some a) = rt_initial_height a" by (simp add: AuditInitialHeight_def)
  note readers = activeAuditKey_run [OF assms] maxAuditEpoch_run [OF rep inv net this, of "replicate 32 0"]
  show ?thesis unfolding readers by (auto split: option.splits if_splits)
qed

lemma halt_refines:
  assumes rep: "key_rep A (ch_store s)" and inv: "key_inv (key_valid network (rt_initial_height a)) A" and net: "auditNetwork (Some a) ctx = Inr network"
    and run: "SetPrivacyHalt (Some a) ctx msg s = (Inr u, t)"
  shows "op_accepted a ctx (OpHalt msg) \<and> (\<exists>B. op_step a network ctx (OpHalt msg) A B \<and> key_rep B (ch_store t))"
proof -
  obtain m where m: "msg = Some m" using run by (cases msg) (auto simp: SetPrivacyHalt_def)
  from run m have auth: "checkAuditAuthority (Some a) ctx (halt_authority m) = Inr ()"
    and t: "ch_store t = kv_set [auditHaltPrefix] [if halt_halted m then 1 else 0] (ch_store s)"
    by (auto simp: SetPrivacyHalt_def split: if_splits)
  have "halt_halted m \<or> (\<exists>k mx. activeAuditKey (Some a) ctx (ch_store s) = Inr k \<and> maxAuditEpoch (Some a) ctx (replicate 32 0) (ch_store s) = Inr mx)"
    using run m by (auto simp: SetPrivacyHalt_def split: if_splits)
  then have "op_step a network ctx (OpHalt (Some m)) A (A\<lparr>ks_halted := halt_halted m\<rparr>)" unfolding halt_guard [OF rep inv net] by (rule op_step.Halted)
  then show ?thesis using rep_halt [OF rep, of "halt_halted m"] auth m t unfolding authority_iff op_accepted_def by auto
qed

lemma halt_succeeds:
  assumes rep: "key_rep A (ch_store s)" and inv: "key_inv (key_valid network (rt_initial_height a)) A" and net: "auditNetwork (Some a) ctx = Inr network"
    and ok: "op_accepted a ctx (OpHalt msg)" and step: "op_step a network ctx (OpHalt msg) A B"
  shows "\<exists>t. SetPrivacyHalt (Some a) ctx msg s = (Inr (), t)"
proof -
  obtain m where m: "msg = Some m"
    and guard: "halt_halted m \<or> (\<exists>k mx. activeAuditKey (Some a) ctx (ch_store s) = Inr k \<and> maxAuditEpoch (Some a) ctx (replicate 32 0) (ch_store s) = Inr mx)"
    using step unfolding op_step_simps halt_guard [OF rep inv net] by blast
  have "checkAuditAuthority (Some a) ctx (halt_authority m) = Inr ()" using ok m by (auto simp: op_accepted_def authority_iff)
  then show ?thesis using guard m by (auto simp: SetPrivacyHalt_def bindM_def cacheCtx_def)
qed

text \<open>The block hook, completely: nothing before the activation height, the activation at it, an error past it.\<close>

lemma begin_run:
  assumes rep: "key_rep A (ch_store s)" and inv: "key_inv (key_valid network (rt_initial_height a)) A"
    and net: "auditNetwork (Some a) ctx = Inr network"
  shows "case ks_pending A of
      None \<Rightarrow> BeginAuditBlock (Some a) ctx s = (Inr (), s)
    | Some k \<Rightarrow>
        if kr_activation k > u64_height ctx then BeginAuditBlock (Some a) ctx s = (Inr (), s)
        else if kr_activation k = u64_height ctx
        then \<exists>t. BeginAuditBlock (Some a) ctx s = (Inr (), t) \<and> key_rep (A\<lparr>ks_pending := None, ks_active := Some k\<rparr>) (ch_store t)
        else BeginAuditBlock (Some a) ctx s = (Inl (Errorf ''missed audit key activation''), s)"
proof (cases "ks_pending A")
  case None
  then show ?thesis using pending_run [OF rep inv] by (simp add: BeginAuditBlock_def bindM_def)
next
  case (Some k)
  have k: "k \<in> set (ks_keys A)" "kr_epoch k \<notin> ks_cancelled A" using inv Some by (auto simp: key_inv_def)
  then have e: "kr_epoch k \<noteq> 0" using inv key_valid_facts by (auto simp: key_inv_def)
  have nc: "\<not> kv_has (ch_store s) (auditEpochKey auditCancellationPrefix (kr_epoch k))" using rep k(2) by (simp add: key_rep_def)
  note pend = pending_run [OF rep inv, unfolded Some option.case]
  show ?thesis
  proof (cases "kr_activation k = u64_height ctx")
    case True
    have "\<exists>t. BeginAuditBlock (Some a) ctx s = (Inr (), t) \<and> ch_store t =
        kv_delete (auditEpochKey auditActivationPrefix (kr_activation k))
          (kv_set [auditActivePrefix] (be16 1 @ be64 (kr_epoch k) @ be64 (kr_activation k)) (ch_store s))"
      using pend e nc True getAuditKey_run [OF rep inv net k(1)] by (simp add: BeginAuditBlock_def bindM_def cacheCtx_def)
    then show ?thesis using rep_activate [OF rep Some] True Some by auto
  next
    case False
    then show ?thesis using pend e Some by (auto simp: BeginAuditBlock_def bindM_def)
  qed
qed

lemma begin_refines:
  assumes "key_rep A (ch_store s)" "key_inv (key_valid network (rt_initial_height a)) A" "auditNetwork (Some a) ctx = Inr network"
  shows "case BeginAuditBlock (Some a) ctx s of
      (Inl e, t) \<Rightarrow> \<not> (\<exists>B. op_step a network ctx OpBegin A B)
    | (Inr u, t) \<Rightarrow> (\<exists>B. op_step a network ctx OpBegin A B \<and> key_rep B (ch_store t))"
proof (cases "ks_pending A")
  case None
  then show ?thesis using begin_run [OF assms] assms(1) by (auto simp: op_step_simps)
next
  case (Some k)
  consider "kr_activation k > u64_height ctx" | "kr_activation k = u64_height ctx" | "kr_activation k < u64_height ctx" using less_linear by blast
  then show ?thesis
  proof cases
    case 1
    then show ?thesis using begin_run [OF assms] Some assms(1) by (auto simp: op_step_simps)
  next
    case 2
    then obtain t where "BeginAuditBlock (Some a) ctx s = (Inr (), t)" "key_rep (A\<lparr>ks_pending := None, ks_active := Some k\<rparr>) (ch_store t)"
      using begin_run [OF assms] Some by auto
    then show ?thesis using op_step.Activated [OF Some 2, of a network] by auto
  next
    case 3
    then have "\<not> kr_activation k > u64_height ctx" "kr_activation k \<noteq> u64_height ctx" by auto
    then show ?thesis using begin_run [OF assms] Some by (simp add: op_step_simps)
  qed
qed

lemma key_op_refines:
  assumes rep: "key_rep A (ch_store s)" and inv: "key_inv (key_valid network (rt_initial_height a)) A"
    and net: "auditNetwork (Some a) ctx = Inr network" and run: "run_key_op (Some a) ctx op s = (Inr u, t)"
  shows "op_accepted a ctx op \<and> (\<exists>B. op_step a network ctx op A B \<and> key_inv (key_valid network (rt_initial_height a)) B \<and> key_rep B (ch_store t))"
proof -
  have "op_accepted a ctx op \<and> (\<exists>B. op_step a network ctx op A B \<and> key_rep B (ch_store t))"
  proof (cases op)
    case OpBegin
    then show ?thesis using begin_refines [OF rep inv net] run by (simp add: op_accepted_def)
  qed (use schedule_refines [OF rep inv net] cancel_refines [OF rep inv] halt_refines [OF rep inv net] run in fastforce)+
  moreover have "key_inv (key_valid network (rt_initial_height a)) B" if "op_step a network ctx op A B" for B
    using op_step_key [OF that] key_inv_step inv by blast
  ultimately show ?thesis by blast
qed

lemma key_op_complete:
  assumes rep: "key_rep A (ch_store s)" and inv: "key_inv (key_valid network (rt_initial_height a)) A"
    and net: "auditNetwork (Some a) ctx = Inr network" and run: "run_key_op (Some a) ctx op s = (Inl e, t)" and "op_accepted a ctx op" "\<forall>m. op \<noteq> OpSchedule m"
  shows "\<not> op_step a network ctx op A B"
proof (cases op)
  case OpBegin
  then show ?thesis using begin_refines [OF rep inv net] run by simp
qed (use cancel_succeeds [OF rep inv] halt_succeeds [OF rep inv net] assms(4-6) in fastforce)+

section \<open>Properties\<close>

text \<open>C27. On a store that represents a key state satisfying the invariant, an audit-key operation that succeeds was accepted from the governance authority and did what its message
  asks for at this height, and the new store represents the new state, which satisfies the invariant again: scheduling appended exactly the record of the message, with a future
  activation, the next epoch and an unused key; cancelling removed the pending key whose epoch the message names, before its activation height; the halt flag is that of the
  message; the block hook waited or activated the pending key exactly at its height. An operation that fails changes nothing but the gas
  meter, and an accepted cancellation, halt or block hook fails only when its step is not possible.\<close>

theorem key_ops_refine:
  assumes "key_rep A (ch_store s)" "key_inv (key_valid network (rt_initial_height a)) A" "auditNetwork (Some a) ctx = Inr network"
  shows "case run_key_op (Some a) ctx op s of
      (Inl e, t) \<Rightarrow> same_but_gas s t \<and> (op_accepted a ctx op \<and> (\<forall>m. op \<noteq> OpSchedule m) \<longrightarrow> \<not> (\<exists>B. op_step a network ctx op A B))
    | (Inr u, t) \<Rightarrow> op_accepted a ctx op \<and>
        (\<exists>B. op_step a network ctx op A B \<and> key_inv (key_valid network (rt_initial_height a)) B \<and> key_rep B (ch_store t))"
proof (cases "run_key_op (Some a) ctx op s")
  case (Pair r t)
  show ?thesis
  proof (cases r)
    case (Inl e)
    then show ?thesis using Pair atomicD [OF key_op_atomic] key_op_complete [OF assms] by auto
  next
    case (Inr u)
    then show ?thesis using Pair key_op_refines [OF assms, of op u t] by auto
  qed
qed

definition empty_keys :: key_state where
  "empty_keys = \<lparr>ks_keys = [], ks_pending = None, ks_active = None, ks_cancelled = {}, ks_halted = False\<rparr>"

definition sample_runtime :: audit_runtime where
  "sample_runtime = \<lparr>rt_nonce = replicate 32 1, rt_initial_height = 1, rt_authority = ''gov''\<rparr>"

definition sample_ctx :: "int \<Rightarrow> exec_ctx" where
  "sample_ctx h = \<lparr>block_height = h, block_unix = 100, chain_id = ''c'', tx_bytes = [1], tx_hash = replicate 32 9, header_hash = replicate 32 8,
     is_check_tx = False, is_recheck_tx = False, init_active = False, apply_marker = False, msg_index = 0, gas_limit = 10000000\<rparr>"

definition empty_chain :: "unit chain" where
  "empty_chain = \<lparr>ch_store = [], ch_bank = (), ch_gas = 0, ch_events = []\<rparr>"

lemma empty_keys_ok: "key_rep empty_keys []" "key_inv valid empty_keys"
  by (simp_all add: key_rep_def key_inv_def empty_keys_def kv_range_def kv_has_def auditHalted_def)

lemma sample_network: "\<exists>network. auditNetwork (Some sample_runtime) (sample_ctx h) = Inr network"
  by (simp add: auditNetwork_def NetworkDigest_def sample_ctx_def)

lemma sample_halt:
  "run_key_op (Some sample_runtime) (sample_ctx 5) (OpHalt (Some \<lparr>halt_authority = ''gov'', halt_halted = True\<rparr>)) empty_chain =
     (Inr (), empty_chain\<lparr>ch_store := [([0x1e], [1])], ch_events := [(''privacy_halt_changed'', [(''halted'', ''true'')])]\<rparr>)"
  by (simp add: SetPrivacyHalt_def checkAuditAuthority_def auditExecutionOrigin_def auditinit_Active_def sample_runtime_def
      sample_ctx_def empty_chain_def bindM_def cacheCtx_def auditHaltPrefix_def)

theorem key_ops_refine_witness:
  "key_rep empty_keys (ch_store empty_chain) \<and> (\<exists>network. auditNetwork (Some sample_runtime) (sample_ctx 5) = Inr network \<and>
     key_inv (key_valid network (rt_initial_height sample_runtime)) (empty_keys\<lparr>ks_halted := True\<rparr>) \<and> key_rep (empty_keys\<lparr>ks_halted := True\<rparr>) [([0x1e], [1])])"
proof -
  obtain network where net: "auditNetwork (Some sample_runtime) (sample_ctx 5) = Inr network" using sample_network by blast
  have rep: "key_rep empty_keys (ch_store empty_chain)" using empty_keys_ok by (simp add: empty_chain_def)
  show ?thesis
    using rep net key_ops_refine [OF rep empty_keys_ok(2) net, of "OpHalt (Some \<lparr>halt_authority = ''gov'', halt_halted = True\<rparr>)"]
    unfolding sample_halt by (auto simp: empty_chain_def op_step_simps)
qed

text \<open>C28. The block hook does nothing while no key is pending or the activation height is in the future; at the activation
  height it makes the pending key the active one, which transactions of that block then read; past
  that height it stops the chain with an error. A key is thus never activated late.\<close>

theorem activation_exact:
  assumes "key_rep A (ch_store s)" "key_inv (key_valid network (rt_initial_height a)) A" "auditNetwork (Some a) ctx = Inr network"
  shows "case ks_pending A of
      None \<Rightarrow> BeginAuditBlock (Some a) ctx s = (Inr (), s)
    | Some k \<Rightarrow>
        if kr_activation k > u64_height ctx then BeginAuditBlock (Some a) ctx s = (Inr (), s)
        else if kr_activation k = u64_height ctx
        then \<exists>t. BeginAuditBlock (Some a) ctx s = (Inr (), t) \<and> activeAuditKey (Some a) ctx (ch_store t) = Inr k \<and>
               pendingAuditEpoch (ch_store t) = Inr (0, 0)
        else BeginAuditBlock (Some a) ctx s = (Inl (Errorf ''missed audit key activation''), s)"
proof (cases "ks_pending A")
  case None
  then show ?thesis using begin_run [OF assms] by simp
next
  case (Some k)
  let ?B = "A\<lparr>ks_pending := None, ks_active := Some k\<rparr>"
  have inv: "key_inv (key_valid network (rt_initial_height a)) ?B"
    using key_inv_step [OF key_step.Activate [OF Some] assms(2)] .
  show ?thesis
    using begin_run [OF assms] Some activeAuditKey_run [OF _ inv assms(3)] pending_run [OF _ inv]
    by (auto split: if_splits)
qed

theorem activation_exact_witness:
  "key_rep empty_keys (ch_store empty_chain) \<and> BeginAuditBlock (Some sample_runtime) (sample_ctx 5) empty_chain = (Inr (), empty_chain)"
proof -
  obtain network where net: "auditNetwork (Some sample_runtime) (sample_ctx 5) = Inr network" using sample_network by blast
  have rep: "key_rep empty_keys (ch_store empty_chain)" using empty_keys_ok by (simp add: empty_chain_def)
  show ?thesis using rep activation_exact [OF rep empty_keys_ok(2) net] by (simp add: empty_keys_def)
qed

text \<open>A run of the operations on a chain, in the order of their execution; a failed operation leaves what it left.\<close>

fun run_key_ops :: "audit_runtime option \<Rightarrow> (exec_ctx \<times> key_op) list \<Rightarrow> 'b chain \<Rightarrow> 'b chain" where
  "run_key_ops rt [] s = s"
| "run_key_ops rt ((ctx, op) # ops) s = run_key_ops rt ops (snd (run_key_op rt ctx op s))"

lemma run_key_op_steps:
  assumes "key_rep A (ch_store s)" "key_inv (key_valid network (rt_initial_height a)) A" "auditNetwork (Some a) ctx = Inr network"
  shows "\<exists>B. (key_step (key_valid network (rt_initial_height a)))\<^sup>*\<^sup>* A B \<and> key_inv (key_valid network (rt_initial_height a)) B \<and>
     key_rep B (ch_store (snd (run_key_op (Some a) ctx op s)))"
proof (cases "run_key_op (Some a) ctx op s")
  case (Pair r t)
  show ?thesis
  proof (cases r)
    case (Inl e)
    then show ?thesis using Pair atomicD [OF key_op_atomic] assms(1,2) by (force simp: same_but_gas_def)
  next
    case (Inr u)
    then obtain B where B: "op_step a network ctx op A B" "key_inv (key_valid network (rt_initial_height a)) B" "key_rep B (ch_store t)"
      using Pair key_op_refines [OF assms, of op u t] by blast
    with Pair op_step_key [OF B(1)] show ?thesis by (auto intro!: exI [of _ B])
  qed
qed

lemma key_steps_grow:
  "(key_step valid)\<^sup>*\<^sup>* A B \<Longrightarrow> (\<exists>ks. ks_keys B = ks_keys A @ ks) \<and> ks_cancelled A \<subseteq> ks_cancelled B"
proof (induction rule: rtranclp_induct)
  case (step C D)
  then show ?case using key_step_grows [of valid C D] by fastforce
qed simp

lemma run_key_ops_steps:
  assumes "key_rep A (ch_store s)" "key_inv (key_valid network (rt_initial_height a)) A"
    "\<forall>(ctx, _) \<in> set ops. auditNetwork (Some a) ctx = Inr network"
  shows "\<exists>B. (key_step (key_valid network (rt_initial_height a)))\<^sup>*\<^sup>* A B \<and> key_inv (key_valid network (rt_initial_height a)) B \<and>
     key_rep B (ch_store (run_key_ops (Some a) ops s))"
  using assms
proof (induction "Some a" ops s arbitrary: A rule: run_key_ops.induct)
  case (2 ctx op ops s)
  obtain B where "(key_step (key_valid network (rt_initial_height a)))\<^sup>*\<^sup>* A B" "key_inv (key_valid network (rt_initial_height a)) B"
      "key_rep B (ch_store (snd (run_key_op (Some a) ctx op s)))"
    using run_key_op_steps [of A s network a ctx op] 2(2-4) by auto
  moreover from this obtain C where "(key_step (key_valid network (rt_initial_height a)))\<^sup>*\<^sup>* B C"
      "key_inv (key_valid network (rt_initial_height a)) C" "key_rep C (ch_store (run_key_ops (Some a) ((ctx, op) # ops) s))"
    using 2(1) [of B] 2(4) by auto
  ultimately show ?case by (blast intro: rtranclp_trans)
qed auto

text \<open>C29. Along every run of the audit-key operations of one network, whatever their messages, heights and outcomes, starting from a
  store that represents a state satisfying the invariant, the store represents a state in which the registered epochs are \<open>1, 2, ..., n\<close>
  without a gap, no key identifier is used twice, the history of keys only extends the one at the start, what was cancelled stays
  cancelled, and a cancelled epoch is neither pending nor active.\<close>

theorem key_history_safe:
  assumes "key_rep A (ch_store s)" "key_inv (key_valid network (rt_initial_height a)) A"
    "\<forall>(ctx, _) \<in> set ops. auditNetwork (Some a) ctx = Inr network"
  shows "\<exists>B. key_rep B (ch_store (run_key_ops (Some a) ops s)) \<and>
     map kr_epoch (ks_keys B) = map word_of_nat [1..<Suc (length (ks_keys B))] \<and> distinct (map kr_key_id (ks_keys B)) \<and>
     (\<exists>ks. ks_keys B = ks_keys A @ ks) \<and> ks_cancelled A \<subseteq> ks_cancelled B \<and>
     (case ks_active B of None \<Rightarrow> True | Some k \<Rightarrow> k \<in> set (ks_keys B) \<and> kr_epoch k \<notin> ks_cancelled B) \<and>
     (case ks_pending B of None \<Rightarrow> True | Some k \<Rightarrow> k = last (ks_keys B) \<and> kr_epoch k \<notin> ks_cancelled B)"
proof -
  obtain B where B: "(key_step (key_valid network (rt_initial_height a)))\<^sup>*\<^sup>* A B" "key_inv (key_valid network (rt_initial_height a)) B"
      "key_rep B (ch_store (run_key_ops (Some a) ops s))"
    using run_key_ops_steps [OF assms] by blast
  show ?thesis
    by (rule exI [of _ B]) (use B key_steps_grow [OF B(1)] in \<open>auto simp: key_inv_def split: option.splits simp del: upt_Suc\<close>)
qed

theorem key_history_safe_witness:
  "key_rep empty_keys (ch_store empty_chain) \<and>
   (\<exists>B. key_rep B (ch_store (run_key_ops (Some sample_runtime)
      [(sample_ctx 5, OpBegin), (sample_ctx 5, OpHalt (Some \<lparr>halt_authority = ''gov'', halt_halted = True\<rparr>))] empty_chain)) \<and>
      distinct (map kr_key_id (ks_keys B)))"
proof -
  obtain network where net: "auditNetwork (Some sample_runtime) (sample_ctx 5) = Inr network" using sample_network by blast
  have rep: "key_rep empty_keys (ch_store empty_chain)" using empty_keys_ok by (simp add: empty_chain_def)
  show ?thesis
    using rep net key_history_safe [OF rep empty_keys_ok(2), where ops = "[(sample_ctx 5, OpBegin),
        (sample_ctx 5, OpHalt (Some \<lparr>halt_authority = ''gov'', halt_halted = True\<rparr>))]" and network = network and a = sample_runtime]
    by (auto simp del: run_key_ops.simps)
qed

text \<open>The stored form of a key record is faithful: a byte string decodes to a record exactly when the record passes validation for
  the network and the initial height and the byte string is its encoding. Short, long and altered
  strings are refused.\<close>

lemma key_record_codec:
  "decodeAuditKey raw network ih = Inr v \<longleftrightarrow> encodeAuditKey v network ih = Inr raw \<and> length (or_anchor (kr_origin v)) = 32"
  by (rule decodeAuditKey_iff)

end
