(* ===== verification/Sdk_Env.thy ===== *)
theory Sdk_Env
  imports Chain_State Merkle_Tree Amount128
begin

text \<open>
  What the keeper uses of the Cosmos SDK, as fields of one environment record: denomination and coin
  validation, module addresses, the bech32 codec of addresses, the balances and the transfer of
  the bank. They are parameters of the model; what the code relies on of them is stated where it is used.

  The bank calls back into the module during a transfer: \<^verbatim>\<open>NewPrincipal\<close> of \<^verbatim>\<open>internal/auditbank/principal.go\<close> installs the
  send restriction \<^verbatim>\<open>restrict\<close>, whose state is the scope object of the transfer. So the transfer of the bank takes the
  restriction and the scope and returns the scope that the calls left.
\<close>

record coin =
  coin_denom :: string
  coin_amount :: int

record principal_scope =
  sc_from :: bytes
  sc_to :: bytes
  sc_coin :: coin
  sc_consumed :: bool
  sc_failed :: bool

type_synonym restriction = "principal_scope option \<Rightarrow> bytes \<Rightarrow> bytes \<Rightarrow> coin list \<Rightarrow> bytes res \<times> principal_scope option"

record 'b sdk_env = keeper_env +
  validate_denom :: "string \<Rightarrow> bool"
  coin_validate :: "coin \<Rightarrow> bool"
  module_address :: "string \<Rightarrow> bytes"
  acc_from_bech32 :: "string \<Rightarrow> bytes option"
  acc_to_bech32 :: "bytes \<Rightarrow> string"
  verify_address :: "bytes \<Rightarrow> bool"
  bank_balance :: "'b \<Rightarrow> bytes \<Rightarrow> string \<Rightarrow> int option"
  bank_send :: "restriction \<Rightarrow> principal_scope option \<Rightarrow> bytes \<Rightarrow> bytes \<Rightarrow> coin list \<Rightarrow> 'b \<Rightarrow> (unit res \<times> principal_scope option) \<times> 'b"

definition ModuleName :: string where "ModuleName = ''privacy''"

text \<open>A balance is an \<^verbatim>\<open>sdkmath.Int\<close>, which may be nil.\<close>

definition bitLen256 :: "int \<Rightarrow> bool" where
  "bitLen256 v = (\<bar>v\<bar> < 2 ^ 256)"

section \<open>The decimal text of a number in the store\<close>

definition bytes_string :: "bytes \<Rightarrow> string" where
  "bytes_string bs = map (\<lambda>b. char_of (unat b)) bs"

lemma bytes_string_of [simp]: "bytes_string (string_bytes s) = s"
proof -
  have "unat (of_char c :: byte) = of_char c" for c
    by (metis of_char_mod_256 of_nat_of_char unat_byte_of_nat)
  then show ?thesis by (induction s) (simp_all add: bytes_string_def)
qed

lemma string_bytes_of [simp]: "string_bytes (bytes_string bs) = bs"
proof (induction bs)
  case (Cons b bs)
  have "(of_char (char_of (unat b)) :: byte) = b"
  proof -
    have "(of_char (char_of (unat b)) :: byte) = word_of_nat (of_char (char_of (unat b)))" by (simp only: of_nat_of_char)
    also have "\<dots> = b" using unat_u8_less [of b] by (simp add: of_char_of)
    finally show ?thesis .
  qed
  with Cons show ?case by (simp add: bytes_string_def)
qed (simp add: bytes_string_def)

section \<open>Trimming\<close>

text \<open>\<^verbatim>\<open>strings.TrimSpace\<close> on the UTF-8 bytes of a string: it drops encodings of white-space code points from both ends.\<close>

definition space_runes :: "string list" where
  "space_runes = map (map char_of) ([[9], [10], [11], [12], [13], [32], [0xc2, 0x85], [0xc2, 0xa0], [0xe1, 0x9a, 0x80],
     [0xe2, 0x80, 0xa8], [0xe2, 0x80, 0xa9], [0xe2, 0x80, 0xaf], [0xe2, 0x81, 0x9f], [0xe3, 0x80, 0x80]] @
     map (\<lambda>b. [0xe2, 0x80, b]) [0x80 ..< 0x8b :: nat])"

function trimBy :: "string list \<Rightarrow> string \<Rightarrow> string" where
  "trimBy rs s =
     (case List.find (\<lambda>r. r \<noteq> [] \<and> take (length r) s = r) rs of None \<Rightarrow> s | Some r \<Rightarrow> trimBy rs (drop (length r) s))"
  by pat_completeness auto
termination
  by (relation "measure (\<lambda>(rs, s). length s)") (auto simp: find_Some_iff neq_Nil_conv intro!: diff_less dest: arg_cong [of _ _ length])

declare trimBy.simps [simp del]

definition TrimSpace :: "string \<Rightarrow> string" where
  "TrimSpace s = rev (trimBy (map rev space_runes) (rev (trimBy space_runes s)))"

text \<open>A text between two printable ASCII characters is left alone.\<close>

lemma trimBy_other: "\<forall>r \<in> set rs. r = [] \<or> hd r \<noteq> c \<Longrightarrow> trimBy rs (c # s) = c # s"
proof -
  assume other: "\<forall>r \<in> set rs. r = [] \<or> hd r \<noteq> c"
  have "List.find (\<lambda>r. r \<noteq> [] \<and> take (length r) (c # s) = r) rs = None"
    using other by (fastforce simp: find_None_iff neq_Nil_conv)
  then show ?thesis by (subst trimBy.simps) simp
qed

lemma space_heads:
  "r \<in> set space_runes \<or> r \<in> set (map rev space_runes) \<Longrightarrow> r \<noteq> [] \<and> (of_char (hd r) \<le> (32 :: nat) \<or> 128 \<le> (of_char (hd r) :: nat))"
  by (auto simp: space_runes_def upt_rec of_char_of)

lemma TrimSpace_plain:
  assumes "s \<noteq> []" "(32 :: nat) < of_char (hd s)" "of_char (hd s) < (128 :: nat)" "(32 :: nat) < of_char (last s)" "of_char (last s) < (128 :: nat)"
  shows "TrimSpace s = s"
proof -
  have other: "\<forall>r \<in> set rs. r = [] \<or> hd r \<noteq> c"
    if "(32 :: nat) < of_char c" "of_char c < (128 :: nat)" "rs = space_runes \<or> rs = map rev space_runes" for c rs
    using that space_heads by fastforce
  obtain c t where s: "s = c # t" using assms(1) by (cases s) auto
  obtain d u where r: "rev s = d # u" "d = last s" using assms(1) by (metis hd_rev list.collapse rev_is_Nil_conv)
  have "trimBy space_runes s = s" using trimBy_other [OF other, of c space_runes t] assms(2,3) by (simp add: s)
  moreover have "trimBy (map rev space_runes) (rev s) = rev s" using trimBy_other [OF other, of d "map rev space_runes" u] assms(4,5) by (simp add: r)
  ultimately show ?thesis by (simp add: TrimSpace_def)
qed

end
