(* ===== verification/Reserve.thy ===== *)
theory Reserve
  imports Sdk_Env
begin

text \<open>
  The reserve counters of a denomination and their comparison with the balance of the module account
  (\<^verbatim>\<open>x/privacy/keeper/reserve.go\<close>). A counter is stored as canonical decimal text.
\<close>

record reserve_snapshot =
  rs_denom :: string
  rs_module_balance :: int
  rs_deposited :: int
  rs_withdrawn :: int
  rs_expected :: int
  rs_invariant :: bool
  rs_liability :: int
  rs_collateralized :: bool
  rs_surplus :: int
  rs_shortfall :: int

definition parseReserveAmount :: "string \<Rightarrow> int res" where
  "parseReserveAmount raw =
     (case SetString10 raw of None \<Rightarrow> Inl ErrReserveStateInvalid
      | Some amount \<Rightarrow>
        bindE (guardE (\<not> (amount < 0 \<or> dec_string (nat amount) \<noteq> raw)) ErrReserveStateInvalid) (\<lambda>_. Inr amount))"

definition getReserveAmount :: "bytes \<Rightarrow> store \<Rightarrow> int res" where
  "getReserveAmount key s =
     (case kv_get s key of None \<Rightarrow> Inr 0 | Some bz \<Rightarrow> parseReserveAmount (bytes_string bz))"

definition setReserveAmount :: "bytes \<Rightarrow> int \<Rightarrow> (store, unit) action" where
  "setReserveAmount key amount =
     bindM (guardM (\<not> amount < 0) ErrReserveStateInvalid) (\<lambda>_.
     writeM (kv_set key (string_bytes (dec_string (nat amount)))))"

definition addReserveAmount :: "bytes \<Rightarrow> int \<Rightarrow> (store, unit) action" where
  "addReserveAmount key amount =
     bindM (readM (getReserveAmount key)) (\<lambda>current.
     bindM (guardM (\<not> amount < 0) ErrReserveStateInvalid) (\<lambda>_.
     setReserveAmount key (current + amount)))"

definition validateReserveCoin :: "('b, 'm) sdk_env_scheme \<Rightarrow> string \<Rightarrow> coin \<Rightarrow> unit res" where
  "validateReserveCoin env name c =
     bindE (guardE (coin_validate env c) (Errorf (name @ '' coin is invalid''))) (\<lambda>_.
     guardE (\<not> coin_amount c < 0) (Errorf (name @ '' amount must be non-negative'')))"

definition recordReserveDeposit :: "('b, 'm) sdk_env_scheme \<Rightarrow> coin \<Rightarrow> (store, unit) action" where
  "recordReserveDeposit env c =
     bindM (readM (\<lambda>_. validateReserveCoin env ''reserve deposit'' c)) (\<lambda>_.
     addReserveAmount (GetReserveDepositKey (coin_denom c)) (coin_amount c))"

definition RecordReserveDeposit :: "('b, 'm) sdk_env_scheme \<Rightarrow> coin \<Rightarrow> (store, unit) action" where
  "RecordReserveDeposit env c =
     bindM (guardM (\<not> audit_on env) (Errorf ''raw reserve mutation is disabled for audit-field'')) (\<lambda>_.
     recordReserveDeposit env c)"

definition recordReserveWithdraw :: "('b, 'm) sdk_env_scheme \<Rightarrow> coin \<Rightarrow> (store, unit) action" where
  "recordReserveWithdraw env c =
     bindM (readM (\<lambda>_. validateReserveCoin env ''reserve withdraw'' c)) (\<lambda>_.
     addReserveAmount (GetReserveWithdrawKey (coin_denom c)) (coin_amount c))"

definition RecordReserveWithdraw :: "('b, 'm) sdk_env_scheme \<Rightarrow> coin \<Rightarrow> (store, unit) action" where
  "RecordReserveWithdraw env c =
     bindM (guardM (\<not> audit_on env) (Errorf ''raw reserve mutation is disabled for audit-field'')) (\<lambda>_.
     recordReserveWithdraw env c)"

definition GetReserveSnapshot :: "('b, 'm) sdk_env_scheme \<Rightarrow> string \<Rightarrow> store \<Rightarrow> 'b \<Rightarrow> reserve_snapshot res" where
  "GetReserveSnapshot env denom s bank =
     bindE (guardE (validate_denom env denom) (Errorf ''reserve denom is invalid'')) (\<lambda>_.
     bindE (getReserveAmount (GetReserveDepositKey denom) s) (\<lambda>deposited.
     bindE (getReserveAmount (GetReserveWithdrawKey denom) s) (\<lambda>withdrawn.
     let liability = deposited - withdrawn
     in bindE (guardE (\<not> liability < 0) ErrReserveStateInvalid) (\<lambda>_.
        bindE (guardE (bitLen256 liability) ErrReserveStateInvalid) (\<lambda>_.
        case bank_balance env bank (module_address env ModuleName) denom of None \<Rightarrow> Inl ErrReserveStateInvalid
        | Some moduleBalance \<Rightarrow>
          bindE (guardE (\<not> (moduleBalance < 0 \<or> \<not> bitLen256 moduleBalance)) ErrReserveStateInvalid) (\<lambda>_.
          Inr \<lparr>rs_denom = denom, rs_module_balance = moduleBalance, rs_deposited = deposited, rs_withdrawn = withdrawn,
               rs_expected = liability, rs_invariant = (moduleBalance = liability), rs_liability = liability,
               rs_collateralized = (moduleBalance \<ge> liability),
               rs_surplus = (if moduleBalance \<ge> liability then moduleBalance - liability else 0),
               rs_shortfall = (if moduleBalance \<ge> liability then 0 else liability - moduleBalance)\<rparr>))))))"

section \<open>Counters\<close>

lemma parseReserveAmount_iff: "parseReserveAmount raw = Inr v \<longleftrightarrow> 0 \<le> v \<and> raw = dec_string (nat v)"
proof
  assume "0 \<le> v \<and> raw = dec_string (nat v)"
  then show "parseReserveAmount raw = Inr v"
    using SetString10_canonical [OF canonical_dec_string, of "nat v"] by (simp add: parseReserveAmount_def)
qed (auto simp: parseReserveAmount_def case_option_Inr)

lemma getReserveAmount_set [simp]:
  "getReserveAmount k (kv_set k' (string_bytes (dec_string (nat v))) s) =
     (if k = k' then Inr (int (nat v)) else getReserveAmount k s)"
  using parseReserveAmount_iff [of "dec_string (nat v)" "int (nat v)"] by (simp add: getReserveAmount_def)

lemma getReserveAmount_nonneg: "getReserveAmount k s = Inr v \<Longrightarrow> 0 \<le> v"
  by (auto simp: getReserveAmount_def parseReserveAmount_iff split: option.splits)

lemma addReserveAmount_run:
  "addReserveAmount k a s =
     (case getReserveAmount k s of Inl e \<Rightarrow> (Inl e, s)
      | Inr current \<Rightarrow> if a < 0 then (Inl ErrReserveStateInvalid, s)
                       else (Inr (), kv_set k (string_bytes (dec_string (nat (current + a)))) s))"
  using getReserveAmount_nonneg [of k s]
  by (auto simp: addReserveAmount_def setReserveAmount_def bindM_def guardE_def split: sum.splits)

lemma reserve_keys [simp]:
  "GetReserveDepositKey d \<noteq> GetReserveWithdrawKey d'" "GetReserveWithdrawKey d \<noteq> GetReserveDepositKey d'"
  "GetReserveDepositKey d = GetReserveDepositKey d' \<longleftrightarrow> d = d'" "GetReserveWithdrawKey d = GetReserveWithdrawKey d' \<longleftrightarrow> d = d'"
  by (auto simp: GetReserveDepositKey_def GetReserveWithdrawKey_def key_prefix_defs)

text \<open>The two counters of a denomination.\<close>

definition counters :: "store \<Rightarrow> string \<Rightarrow> (int \<times> int) res" where
  "counters s d = bindE (getReserveAmount (GetReserveDepositKey d) s) (\<lambda>dep.
     bindE (getReserveAmount (GetReserveWithdrawKey d) s) (\<lambda>wd. Inr (dep, wd)))"

lemma recordReserveDeposit_ok:
  "recordReserveDeposit env c s = (Inr u, t) \<longleftrightarrow>
     coin_validate env c \<and> 0 \<le> coin_amount c \<and> (\<exists>dep. getReserveAmount (GetReserveDepositKey (coin_denom c)) s = Inr dep \<and>
       t = kv_set (GetReserveDepositKey (coin_denom c)) (string_bytes (dec_string (nat (dep + coin_amount c)))) s)"
  by (auto simp: recordReserveDeposit_def validateReserveCoin_def addReserveAmount_run split: sum.splits if_splits)

lemma recordReserveWithdraw_ok:
  "recordReserveWithdraw env c s = (Inr u, t) \<longleftrightarrow>
     coin_validate env c \<and> 0 \<le> coin_amount c \<and> (\<exists>wd. getReserveAmount (GetReserveWithdrawKey (coin_denom c)) s = Inr wd \<and>
       t = kv_set (GetReserveWithdrawKey (coin_denom c)) (string_bytes (dec_string (nat (wd + coin_amount c)))) s)"
  by (auto simp: recordReserveWithdraw_def validateReserveCoin_def addReserveAmount_run split: sum.splits if_splits)

lemma deposit_counters:
  assumes "recordReserveDeposit env c s = (Inr u, t)" "counters s d = Inr (dep, wd)"
  shows "counters t d = Inr (if d = coin_denom c then dep + coin_amount c else dep, wd)"
  using assms getReserveAmount_nonneg [of "GetReserveDepositKey d" s]
  by (auto simp: recordReserveDeposit_ok counters_def)

lemma withdraw_counters:
  assumes "recordReserveWithdraw env c s = (Inr u, t)" "counters s d = Inr (dep, wd)"
  shows "counters t d = Inr (dep, if d = coin_denom c then wd + coin_amount c else wd)"
  using assms getReserveAmount_nonneg [of "GetReserveWithdrawKey d" s]
  by (auto simp: recordReserveWithdraw_ok counters_def)

lemma GetReserveSnapshot_ok:
  "GetReserveSnapshot env d s bank = Inr r \<longleftrightarrow>
     validate_denom env d \<and> counters s d = Inr (rs_deposited r, rs_withdrawn r) \<and>
     bank_balance env bank (module_address env ModuleName) d = Some (rs_module_balance r) \<and>
     0 \<le> rs_deposited r - rs_withdrawn r \<and> bitLen256 (rs_deposited r - rs_withdrawn r) \<and>
     0 \<le> rs_module_balance r \<and> bitLen256 (rs_module_balance r) \<and>
     r = (let b = rs_module_balance r; l = rs_deposited r - rs_withdrawn r in
       \<lparr>rs_denom = d, rs_module_balance = b, rs_deposited = rs_deposited r, rs_withdrawn = rs_withdrawn r,
        rs_expected = l, rs_invariant = (b = l), rs_liability = l, rs_collateralized = (l \<le> b),
        rs_surplus = max 0 (b - l), rs_shortfall = max 0 (l - b)\<rparr>)"
  by (cases r) (auto simp: GetReserveSnapshot_def counters_def Let_def case_option_Inr max_def)

section \<open>Properties\<close>

text \<open>The reserve accounts exactly: recording a deposit or a withdrawal, when it succeeds, adds the amount of the coin to
  the one counter of its denomination and changes no counter of any denomination otherwise; when it
  fails the store is unchanged. With the audit runtime on, the exported recorders always fail.\<close>

lemma reserve_accounting:
  "(case recordReserveDeposit env c s of
      (Inl _, t) \<Rightarrow> t = s
    | (Inr _, t) \<Rightarrow> counters t d = (case counters s d of Inl e \<Rightarrow> counters t d
         | Inr (dep, wd) \<Rightarrow> Inr (if d = coin_denom c then dep + coin_amount c else dep, wd))) \<and>
   (case recordReserveWithdraw env c s of
      (Inl _, t) \<Rightarrow> t = s
    | (Inr _, t) \<Rightarrow> counters t d = (case counters s d of Inl e \<Rightarrow> counters t d
         | Inr (dep, wd) \<Rightarrow> Inr (dep, if d = coin_denom c then wd + coin_amount c else wd))) \<and>
   (if audit_on env then fst (RecordReserveDeposit env c s) = Inl (Errorf ''raw reserve mutation is disabled for audit-field'') \<and>
        snd (RecordReserveDeposit env c s) = s \<and> snd (RecordReserveWithdraw env c s) = s
    else RecordReserveDeposit env c s = recordReserveDeposit env c s \<and> RecordReserveWithdraw env c s = recordReserveWithdraw env c s)"
  (is "?dep \<and> ?wd \<and> ?raw")
proof -
  have ?dep
  proof (cases "recordReserveDeposit env c s")
    case (Pair r t)
    then show ?thesis
    proof (cases r)
      case (Inl e)
      then show ?thesis using Pair
        by (auto simp: recordReserveDeposit_def bindM_fail addReserveAmount_run split: sum.splits if_splits)
    next
      case (Inr u)
      then show ?thesis using Pair deposit_counters [of env c s u t d] by (auto split: sum.splits)
    qed
  qed
  moreover have ?wd
  proof (cases "recordReserveWithdraw env c s")
    case (Pair r t)
    then show ?thesis
    proof (cases r)
      case (Inl e)
      then show ?thesis using Pair
        by (auto simp: recordReserveWithdraw_def bindM_fail addReserveAmount_run split: sum.splits if_splits)
    next
      case (Inr u)
      then show ?thesis using Pair withdraw_counters [of env c s u t d] by (auto split: sum.splits)
    qed
  qed
  moreover have ?raw by (simp add: RecordReserveDeposit_def RecordReserveWithdraw_def bindM_def)
  ultimately show ?thesis by blast
qed

text \<open>The snapshot of a reserve is exact: it is returned exactly when both counters are canonical, withdrawals do not exceed
  deposits and the balance of the module account is a number of at most 256 bits; its liability is the
  difference of the counters, it is collateralized when the balance covers the liability, and surplus and
  shortfall are the two one-sided differences.\<close>

lemma reserve_snapshot_exact:
  "GetReserveSnapshot env d s bank = Inr r \<longleftrightarrow>
     validate_denom env d \<and> counters s d = Inr (rs_deposited r, rs_withdrawn r) \<and>
     bank_balance env bank (module_address env ModuleName) d = Some (rs_module_balance r) \<and>
     0 \<le> rs_deposited r - rs_withdrawn r \<and> bitLen256 (rs_deposited r - rs_withdrawn r) \<and>
     0 \<le> rs_module_balance r \<and> bitLen256 (rs_module_balance r) \<and>
     r = (let b = rs_module_balance r; l = rs_deposited r - rs_withdrawn r in
       \<lparr>rs_denom = d, rs_module_balance = b, rs_deposited = rs_deposited r, rs_withdrawn = rs_withdrawn r,
        rs_expected = l, rs_invariant = (b = l), rs_liability = l, rs_collateralized = (l \<le> b),
        rs_surplus = max 0 (b - l), rs_shortfall = max 0 (l - b)\<rparr>)"
  by (rule GetReserveSnapshot_ok)

end
