(* ===== verification/Sample_Sdk.thy ===== *)
theory Sample_Sdk
  imports Sdk_Env Sample_Config
begin

text \<open>
  A concrete SDK environment for the witnesses: a bank whose state is the map of balances and whose transfer asks the
  restriction once and then moves the coins when the sender has them, addresses that are their own bech32 form, and
  denominations of at least three characters.
\<close>

type_synonym sample_bank = "bytes \<Rightarrow> string \<Rightarrow> int"

definition move_coin :: "bytes \<Rightarrow> bytes \<Rightarrow> coin \<Rightarrow> sample_bank \<Rightarrow> sample_bank" where
  "move_coin a b c m = (let n = m(a := (m a)(coin_denom c := m a (coin_denom c) - coin_amount c))
     in n(b := (n b)(coin_denom c := n b (coin_denom c) + coin_amount c)))"

definition sample_send ::
  "restriction \<Rightarrow> principal_scope option \<Rightarrow> bytes \<Rightarrow> bytes \<Rightarrow> coin list \<Rightarrow> sample_bank \<Rightarrow> (unit res \<times> principal_scope option) \<times> sample_bank" where
  "sample_send R sc a b coins m =
     (case R sc a b coins of
        (Inl e, sc') \<Rightarrow> ((Inl e, sc'), m)
      | (Inr to, sc') \<Rightarrow>
          if list_all (\<lambda>c. 0 < coin_amount c \<and> coin_amount c \<le> m a (coin_denom c)) coins
          then ((Inr (), sc'), fold (move_coin a to) coins m)
          else ((Inl (Errorf ''insufficient funds''), sc'), m))"

definition sample_sdk :: "sample_bank sdk_env" where
  "sample_sdk = keeper_env.extend (sample_env True) (sdk_env.fields
     (\<lambda>d. 3 \<le> length d) (\<lambda>c. 3 \<le> length (coin_denom c) \<and> 0 \<le> coin_amount c)
     string_bytes (\<lambda>s. Some (string_bytes s)) bytes_string (\<lambda>a. a \<noteq> []) (\<lambda>m a d. Some (m a d)) sample_send)"

lemma sample_sdk_fields [simp]:
  "validate_denom sample_sdk d = (3 \<le> length d)" "coin_validate sample_sdk c = (3 \<le> length (coin_denom c) \<and> 0 \<le> coin_amount c)"
  "module_address sample_sdk = string_bytes" "acc_from_bech32 sample_sdk a = Some (string_bytes a)" "acc_to_bech32 sample_sdk = bytes_string"
  "verify_address sample_sdk x = (x \<noteq> [])" "bank_balance sample_sdk m x d = Some (m x d)" "bank_send sample_sdk = sample_send"
  "audit_on sample_sdk" "mimc_sum sample_sdk = sample_digest"
  by (simp_all add: sample_sdk_def keeper_env.extend_def sdk_env.fields_def sample_env_def)

lemma sample_trim [simp]: "TrimSpace ''uclair'' = ''uclair''"
  by (rule TrimSpace_plain) simp_all

end
