(* ===== verification/Asset_Registry.thy ===== *)
theory Asset_Registry
  imports Sample_Sdk Audit_Keys
begin

text \<open>
  The registry of assets (\<^verbatim>\<open>x/privacy/keeper/asset_registry.go\<close>): the two directions of the map between canonical
  denominations and asset identifiers, which is hash-derived, and its genesis import and export. The lemmas show that
  the two directions stay inverse to each other and that an exported registry is imported back.
\<close>

record asset_entry =
  ae_denom :: string
  ae_id :: bytes

definition CanonicalAssetIDV1 :: "('b, 'm) sdk_env_scheme \<Rightarrow> string \<Rightarrow> bytes res" where
  "CanonicalAssetIDV1 env canonicalDenom =
     bindE (guardE (canonicalDenom = TrimSpace canonicalDenom) (Errorf ''asset denom must not contain surrounding whitespace'')) (\<lambda>_.
     bindE (guardE (validate_denom env canonicalDenom) (Errorf ''asset denom is invalid'')) (\<lambda>_.
     Inr (be_of_nat fieldElementByteSize (ComputeAssetIDV1 canonicalDenom))))"

definition RegisterAssetV1 :: "('b, 'm) sdk_env_scheme \<Rightarrow> string \<Rightarrow> bytes \<Rightarrow> (store, unit) action" where
  "RegisterAssetV1 env canonicalDenom assetID =
     bindM (readM (\<lambda>_. CanonicalAssetIDV1 env canonicalDenom)) (\<lambda>expected.
     bindM (readM (\<lambda>_. validateFieldElementBytesStrict assetID)) (\<lambda>canonicalAssetID.
     bindM (guardM (expected = canonicalAssetID) (Errorf ''asset ID does not match canonical denom'')) (\<lambda>_.
     bindM (readM (\<lambda>s. guardE (\<not> kv_has s (GetAssetByDenomKey canonicalDenom)) (Errorf ''asset denom is already registered''))) (\<lambda>_.
     bindM (readM (\<lambda>s. guardE (\<not> kv_has s (GetAssetByIDKey canonicalAssetID)) (Errorf ''asset ID is already registered''))) (\<lambda>_.
     bindM (writeM (kv_set (GetAssetByDenomKey canonicalDenom) canonicalAssetID)) (\<lambda>_.
     writeM (kv_set (GetAssetByIDKey canonicalAssetID) (string_bytes canonicalDenom))))))))"

definition RegisterCanonicalAssetV1 :: "('b, 'm) sdk_env_scheme \<Rightarrow> string \<Rightarrow> (store, asset_entry) action" where
  "RegisterCanonicalAssetV1 env canonicalDenom =
     bindM (readM (\<lambda>_. CanonicalAssetIDV1 env canonicalDenom)) (\<lambda>assetID.
     bindM (RegisterAssetV1 env canonicalDenom assetID) (\<lambda>_.
     retM \<lparr>ae_denom = canonicalDenom, ae_id = assetID\<rparr>))"

text \<open>A missing key and an empty value are the same to the readers, and a missing reverse entry reads as the empty string.\<close>

definition get_or_empty :: "store \<Rightarrow> bytes \<Rightarrow> bytes" where
  "get_or_empty s k = (case kv_get s k of None \<Rightarrow> [] | Some v \<Rightarrow> v)"

definition GetAssetByDenomV1 :: "('b, 'm) sdk_env_scheme \<Rightarrow> string \<Rightarrow> store \<Rightarrow> asset_entry option res" where
  "GetAssetByDenomV1 env canonicalDenom s =
     bindE (CanonicalAssetIDV1 env canonicalDenom) (\<lambda>expected.
     let assetID = get_or_empty s (GetAssetByDenomKey canonicalDenom)
     in if assetID = [] then Inr None
        else bindE (mapErr (\<lambda>_. Errorf ''asset registry denom mapping is corrupt'') (validateFieldElementBytesStrict assetID)) (\<lambda>canonicalAssetID.
             bindE (guardE (expected = canonicalAssetID) (Errorf ''asset registry denom mapping does not match NoteV1 asset ID'')) (\<lambda>_.
             bindE (guardE (bytes_string (get_or_empty s (GetAssetByIDKey canonicalAssetID)) = canonicalDenom)
                      (Errorf ''asset registry reverse mapping is missing or inconsistent'')) (\<lambda>_.
             Inr (Some \<lparr>ae_denom = canonicalDenom, ae_id = canonicalAssetID\<rparr>)))))"

definition GetAssetByIDV1 :: "('b, 'm) sdk_env_scheme \<Rightarrow> bytes \<Rightarrow> store \<Rightarrow> asset_entry option res" where
  "GetAssetByIDV1 env assetID s =
     bindE (validateFieldElementBytesStrict assetID) (\<lambda>canonicalAssetID.
     let denomBytes = get_or_empty s (GetAssetByIDKey canonicalAssetID)
     in if denomBytes = [] then Inr None
        else let canonicalDenom = bytes_string denomBytes
             in bindE (mapErr (\<lambda>_. Errorf ''asset registry ID mapping is corrupt'') (CanonicalAssetIDV1 env canonicalDenom)) (\<lambda>expected.
                bindE (guardE (expected = canonicalAssetID) (Errorf ''asset registry ID mapping does not match NoteV1 asset ID'')) (\<lambda>_.
                bindE (guardE (get_or_empty s (GetAssetByDenomKey canonicalDenom) = canonicalAssetID)
                         (Errorf ''asset registry forward mapping is missing or inconsistent'')) (\<lambda>_.
                Inr (Some \<lparr>ae_denom = canonicalDenom, ae_id = canonicalAssetID\<rparr>)))))"

definition RequireRegisteredAssetV1 :: "('b, 'm) sdk_env_scheme \<Rightarrow> string \<Rightarrow> store \<Rightarrow> bytes res" where
  "RequireRegisteredAssetV1 env canonicalDenom s =
     bindE (GetAssetByDenomV1 env canonicalDenom s) (\<lambda>found.
     case found of None \<Rightarrow> Inl (Errorf ''asset denom is not registered'') | Some entry \<Rightarrow> Inr (ae_id entry))"

definition InitGenesisAssetRegistryV1 ::
  "('b, 'm) sdk_env_scheme \<Rightarrow> audit_runtime option \<Rightarrow> exec_ctx \<Rightarrow> asset_entry option list \<Rightarrow> (store, unit) action" where
  "InitGenesisAssetRegistryV1 env rt ctx entries =
     bindM (guardM (allowsGenesisStateImport rt ctx) (Errorf ''legacy state mutation is disabled'')) (\<lambda>_.
     forM entries (\<lambda>entry. case entry of
        None \<Rightarrow> failM (Errorf ''genesis asset registry entry is nil'')
      | Some e \<Rightarrow> RegisterAssetV1 env (ae_denom e) (ae_id e)))"

definition exportEntry :: "('b, 'm) sdk_env_scheme \<Rightarrow> store \<Rightarrow> bytes \<times> bytes \<Rightarrow> asset_entry res" where
  "exportEntry env s = (\<lambda>(key, _).
     bindE (guardE (\<not> length key \<le> 1) (Errorf ''asset registry contains an empty denom key'')) (\<lambda>_.
     bindE (GetAssetByDenomV1 env (bytes_string (tl key)) s) (\<lambda>found.
     case found of None \<Rightarrow> Inl (Errorf ''asset registry entry disappeared during export'') | Some e \<Rightarrow> Inr e)))"

definition exportReverse :: "('b, 'm) sdk_env_scheme \<Rightarrow> store \<Rightarrow> bytes \<times> bytes \<Rightarrow> unit res" where
  "exportReverse env s = (\<lambda>(key, _).
     bindE (guardE (length key = 1 + fieldElementByteSize) (Errorf ''asset registry contains a malformed reverse ID key'')) (\<lambda>_.
     bindE (GetAssetByIDV1 env (tl key) s) (\<lambda>found.
     case found of None \<Rightarrow> Inl (Errorf ''asset registry reverse entry disappeared during export'') | Some e \<Rightarrow> Inr ())))"

definition ExportGenesisAssetRegistryV1 :: "('b, 'm) sdk_env_scheme \<Rightarrow> store \<Rightarrow> asset_entry list res" where
  "ExportGenesisAssetRegistryV1 env s =
     bindE (traverseE (exportEntry env s) (kv_range [KeyPrefixAssetByDenom] [KeyPrefixAssetByDenom + 1] s)) (\<lambda>entries.
     bindE (traverseE (exportReverse env s) (kv_range [KeyPrefixAssetByID] [KeyPrefixAssetByID + 1] s)) (\<lambda>rev_entries.
     bindE (guardE (length rev_entries = length entries) (Errorf ''asset registry forward/reverse entry count mismatch'')) (\<lambda>_.
     Inr entries)))"

section \<open>The registry as a map\<close>

text \<open>A denomination that may be registered and its identifier.\<close>

definition asset_of :: "('b, 'm) sdk_env_scheme \<Rightarrow> string \<Rightarrow> bytes \<Rightarrow> bool" where
  "asset_of env d i = (CanonicalAssetIDV1 env d = Inr i)"

lemma asset_id_canonical: "canonical_field (be_of_nat fieldElementByteSize (ComputeAssetIDV1 d))"
proof -
  have "ComputeAssetIDV1 d < fr_modulus" by (simp add: ComputeAssetIDV1_def fr_modulus_def)
  then show ?thesis using fr_modulus_bound
    by (simp add: canonical_field_def fieldElementByteSize_def be_to_nat_be_of_nat)
qed

lemma asset_of_canonical: "asset_of env d i \<Longrightarrow> canonical_field i \<and> i \<noteq> []"
  using asset_id_canonical [of d] by (auto simp: asset_of_def CanonicalAssetIDV1_def dest: canonical_length)

text \<open>The store holds exactly the registrations of \<open>R\<close>, each in both directions.\<close>

definition registry_rep :: "('b, 'm) sdk_env_scheme \<Rightarrow> (string \<rightharpoonup> bytes) \<Rightarrow> store \<Rightarrow> bool" where
  "registry_rep env R s =
     ((\<forall>d. kv_get s (GetAssetByDenomKey d) = R d) \<and>
      (\<forall>d i. R d = Some i \<longrightarrow> asset_of env d i \<and> d \<noteq> [] \<and> kv_get s (GetAssetByIDKey i) = Some (string_bytes d)) \<and>
      (\<forall>i v. kv_get s (GetAssetByIDKey i) = Some v \<longrightarrow> R (bytes_string v) = Some i))"

lemma registry_fwd: "registry_rep env R s \<Longrightarrow> R d = Some i \<Longrightarrow>
    asset_of env d i \<and> d \<noteq> [] \<and> kv_get s (GetAssetByIDKey i) = Some (string_bytes d)"
  by (simp add: registry_rep_def)

lemma registry_rev: "registry_rep env R s \<Longrightarrow> kv_get s (GetAssetByIDKey i) = Some v \<Longrightarrow> R (bytes_string v) = Some i"
  by (simp add: registry_rep_def)

lemma asset_keys [simp]:
  "GetAssetByDenomKey d = GetAssetByDenomKey d' \<longleftrightarrow> d = d'" "GetAssetByIDKey i = GetAssetByIDKey i' \<longleftrightarrow> i = i'"
  "GetAssetByDenomKey d \<noteq> GetAssetByIDKey i" "GetAssetByIDKey i \<noteq> GetAssetByDenomKey d"
  by (auto simp: GetAssetByDenomKey_def GetAssetByIDKey_def key_prefix_defs)

lemma RegisterAssetV1_ok:
  "RegisterAssetV1 env d i s = (Inr u, t) \<longleftrightarrow>
     asset_of env d i \<and> \<not> kv_has s (GetAssetByDenomKey d) \<and> \<not> kv_has s (GetAssetByIDKey i) \<and>
     t = kv_set (GetAssetByIDKey i) (string_bytes d) (kv_set (GetAssetByDenomKey d) i s)"
  using asset_of_canonical [of env d i] by (auto simp: RegisterAssetV1_def asset_of_def)

lemma register_fails: "RegisterAssetV1 env d i s = (Inl e, t) \<Longrightarrow> t = s"
  by (auto simp: RegisterAssetV1_def bindM_fail)

lemma register_rep:
  assumes "registry_rep env R s" "RegisterAssetV1 env d i s = (Inr u, t)" "d \<noteq> []"
  shows "R d = None \<and> i \<notin> ran R \<and> registry_rep env (R(d \<mapsto> i)) t"
proof -
  have ok: "asset_of env d i" "kv_get s (GetAssetByDenomKey d) = None" "kv_get s (GetAssetByIDKey i) = None"
    and t: "t = kv_set (GetAssetByIDKey i) (string_bytes d) (kv_set (GetAssetByDenomKey d) i s)"
    using assms(2) by (auto simp: RegisterAssetV1_ok kv_has_def)
  have none: "R d = None" "i \<notin> ran R" using ok assms(1) by (auto simp: registry_rep_def ran_def)
  then have "j \<noteq> i" if "R d' = Some j" for d' j using that by (auto simp: ran_def)
  then show ?thesis using none assms(1,3) ok(1) unfolding registry_rep_def t by (auto simp: ran_def)
qed

lemma GetAssetByDenom_rep:
  assumes "registry_rep env R s"
  shows "GetAssetByDenomV1 env d s =
     bindE (CanonicalAssetIDV1 env d) (\<lambda>_. Inr (map_option (\<lambda>i. \<lparr>ae_denom = d, ae_id = i\<rparr>) (R d)))"
proof (cases "R d")
  case None
  then show ?thesis using assms by (simp add: GetAssetByDenomV1_def get_or_empty_def registry_rep_def)
next
  case (Some i)
  then have i: "asset_of env d i" "kv_get s (GetAssetByIDKey i) = Some (string_bytes d)" "kv_get s (GetAssetByDenomKey d) = Some i"
    using assms by (auto simp: registry_rep_def)
  then show ?thesis using asset_of_canonical [OF i(1)] Some strict_canonical [of i]
    by (simp add: GetAssetByDenomV1_def get_or_empty_def asset_of_def)
qed

lemma GetAssetByID_rep:
  assumes "registry_rep env R s" "canonical_field i"
  shows "GetAssetByIDV1 env i s = Inr (map_option (\<lambda>v. \<lparr>ae_denom = bytes_string v, ae_id = i\<rparr>) (kv_get s (GetAssetByIDKey i)))"
proof (cases "kv_get s (GetAssetByIDKey i)")
  case None
  then show ?thesis using assms(2) strict_canonical [of i] by (simp add: GetAssetByIDV1_def get_or_empty_def)
next
  case (Some v)
  then have r: "R (bytes_string v) = Some i" using assms(1) by (simp add: registry_rep_def)
  then have i: "asset_of env (bytes_string v) i" "bytes_string v \<noteq> []" "kv_get s (GetAssetByDenomKey (bytes_string v)) = Some i"
    using assms(1) by (auto simp: registry_rep_def)
  then have "v \<noteq> []" by (auto simp: bytes_string_def)
  then show ?thesis using Some i assms(2) strict_canonical [of i]
    by (simp add: GetAssetByIDV1_def get_or_empty_def asset_of_def)
qed

section \<open>Export and import\<close>

lemma denom_range:
  assumes "registry_rep env R s" "kv_wf s"
  shows "(k, v) \<in> set (kv_range [KeyPrefixAssetByDenom] [KeyPrefixAssetByDenom + 1] s) \<longleftrightarrow>
     (\<exists>d. k = GetAssetByDenomKey d \<and> R d = Some v)"
proof -
  have p: "KeyPrefixAssetByDenom < 255" by (simp add: key_prefix_defs)
  have "(\<exists>r. k = KeyPrefixAssetByDenom # r) \<longleftrightarrow> (\<exists>d. k = GetAssetByDenomKey d)"
    unfolding GetAssetByDenomKey_def by (metis string_bytes_of)
  then show ?thesis using prefix_range_iff [OF p, of k] assms by (auto simp: kv_range_mem registry_rep_def)
qed

lemma id_range:
  assumes "registry_rep env R s" "kv_wf s"
  shows "(k, v) \<in> set (kv_range [KeyPrefixAssetByID] [KeyPrefixAssetByID + 1] s) \<longleftrightarrow>
     (\<exists>d i. k = GetAssetByIDKey i \<and> v = string_bytes d \<and> R d = Some i)"
proof -
  have p: "KeyPrefixAssetByID < 255" by (simp add: key_prefix_defs)
  have "(\<exists>r. k = KeyPrefixAssetByID # r) \<longleftrightarrow> (\<exists>i. k = GetAssetByIDKey i)"
    unfolding GetAssetByIDKey_def by auto
  moreover have "kv_get s (GetAssetByIDKey i) = Some v \<longleftrightarrow> (\<exists>d. v = string_bytes d \<and> R d = Some i)" for i
    using assms(1) by (auto simp: registry_rep_def) (metis string_bytes_of)
  ultimately show ?thesis using prefix_range_iff [OF p, of k] assms(2) by (auto simp: kv_range_mem)
qed

lemma registry_inj: "registry_rep env R s \<Longrightarrow> R d = Some i \<Longrightarrow> R d' = Some i \<Longrightarrow> d = d'"
  unfolding registry_rep_def by (metis bytes_string_of option.inject)

lemma range_distinct: "kv_wf s \<Longrightarrow> distinct (map fst (kv_range a b s))"
  using kv.iter_sorted [of s a b] by (simp add: strict_sorted_iff)

lemma range_counts:
  assumes "registry_rep env R s" "kv_wf s"
  shows "length (kv_range [KeyPrefixAssetByID] [KeyPrefixAssetByID + 1] s)
       = length (kv_range [KeyPrefixAssetByDenom] [KeyPrefixAssetByDenom + 1] s)" (is "length ?i = length ?d")
proof -
  let ?f = "\<lambda>(k :: bytes, v :: bytes). (GetAssetByIDKey v, tl k)"
  have "set ?i = ?f ` set ?d"
  proof (rule set_eqI)
    fix x :: "bytes \<times> bytes"
    obtain k v where x: "x = (k, v)" by fastforce
    have "x \<in> set ?i \<longleftrightarrow> (\<exists>d i. x = ?f (GetAssetByDenomKey d, i) \<and> R d = Some i)"
      unfolding x id_range [OF assms] by (auto simp: GetAssetByDenomKey_def)
    also have "\<dots> \<longleftrightarrow> x \<in> ?f ` set ?d" using denom_range [OF assms] by (fastforce simp: image_iff)
    finally show "x \<in> set ?i \<longleftrightarrow> x \<in> ?f ` set ?d" .
  qed
  moreover have "inj_on ?f (set ?d)"
  proof (rule inj_onI)
    fix x y assume xy: "x \<in> set ?d" "y \<in> set ?d" "?f x = ?f y"
    obtain k v k' v' where e: "x = (k, v)" "y = (k', v')" by fastforce
    then obtain d d' where "k = GetAssetByDenomKey d" "k' = GetAssetByDenomKey d'"
      using xy(1,2) unfolding e denom_range [OF assms] by auto
    with xy(3) e show "x = y" by (simp add: GetAssetByDenomKey_def)
  qed
  ultimately have "card (set ?i) = card (set ?d)" by (simp add: card_image)
  then show ?thesis using range_distinct [OF assms(2)] by (metis distinct_card distinct_map)
qed

lemma export_rep:
  assumes "registry_rep env R s" "kv_wf s"
  shows "ExportGenesisAssetRegistryV1 env s =
     Inr (map (\<lambda>(k, v). \<lparr>ae_denom = bytes_string (tl k), ae_id = v\<rparr>) (kv_range [KeyPrefixAssetByDenom] [KeyPrefixAssetByDenom + 1] s))"
proof -
  let ?fwd = "kv_range [KeyPrefixAssetByDenom] [KeyPrefixAssetByDenom + 1] s"
  let ?rev = "kv_range [KeyPrefixAssetByID] [KeyPrefixAssetByID + 1] s"
  have "traverseE (exportEntry env s) ?fwd = Inr (map (\<lambda>(k, v). \<lparr>ae_denom = bytes_string (tl k), ae_id = v\<rparr>) ?fwd)"
  proof (rule traverseE_map)
    fix x assume x: "x \<in> set ?fwd"
    obtain k v where e: "x = (k, v)" by fastforce
    then obtain d where d: "k = GetAssetByDenomKey d" "R d = Some v" using x denom_range [OF assms] by auto
    then have "asset_of env d v" "d \<noteq> []" using assms(1) by (auto simp: registry_rep_def)
    moreover have "tl k = string_bytes d" "length k = 1 + length d"
      using d by (simp_all add: GetAssetByDenomKey_def string_bytes_def)
    ultimately show "exportEntry env s x = Inr (case x of (k, v) \<Rightarrow> \<lparr>ae_denom = bytes_string (tl k), ae_id = v\<rparr>)"
      using GetAssetByDenom_rep [OF assms(1), of d] d by (simp add: e exportEntry_def asset_of_def)
  qed
  moreover have "traverseE (exportReverse env s) ?rev = Inr (map (\<lambda>_. ()) ?rev)"
  proof (rule traverseE_map)
    fix x assume x: "x \<in> set ?rev"
    obtain k v where e: "x = (k, v)" by fastforce
    then obtain d i where d: "k = GetAssetByIDKey i" "v = string_bytes d" "R d = Some i" using x id_range [OF assms] by auto
    then have c: "canonical_field i" "kv_get s (GetAssetByIDKey i) = Some (string_bytes d)"
      using registry_fwd [OF assms(1) d(3)] asset_of_canonical [of env d i] by auto
    then show "exportReverse env s x = Inr ()"
      using GetAssetByID_rep [OF assms(1) c(1)] d
      by (simp add: e exportReverse_def GetAssetByIDKey_def fieldElementByteSize_def canonical_length)
  qed
  ultimately show ?thesis using range_counts [OF assms] by (simp add: ExportGenesisAssetRegistryV1_def)
qed

text \<open>Importing entries one by one builds their map.\<close>

lemma import_loop:
  assumes "registry_rep env Q s" "distinct (map ae_denom es)" "distinct (map ae_id es)"
    "\<forall>e \<in> set es. asset_of env (ae_denom e) (ae_id e) \<and> ae_denom e \<noteq> [] \<and> Q (ae_denom e) = None \<and> ae_id e \<notin> ran Q"
  shows "\<exists>t. forM (map Some es) (\<lambda>entry. case entry of None \<Rightarrow> failM (Errorf ''genesis asset registry entry is nil'')
         | Some e \<Rightarrow> RegisterAssetV1 env (ae_denom e) (ae_id e)) s = (Inr (), t) \<and>
       registry_rep env (Q ++ map_of (map (\<lambda>e. (ae_denom e, ae_id e)) es)) t"
  using assms
proof (induction es arbitrary: Q s)
  case (Cons e es)
  let ?t = "kv_set (GetAssetByIDKey (ae_id e)) (string_bytes (ae_denom e)) (kv_set (GetAssetByDenomKey (ae_denom e)) (ae_id e) s)"
  have e: "asset_of env (ae_denom e) (ae_id e)" "ae_denom e \<noteq> []" "Q (ae_denom e) = None" "ae_id e \<notin> ran Q"
    using Cons.prems(4) by auto
  have "kv_get s (GetAssetByIDKey (ae_id e)) = None"
    using Cons.prems(1) e(4) by (cases "kv_get s (GetAssetByIDKey (ae_id e))") (auto dest: registry_rev intro: ranI)
  then have none: "\<not> kv_has s (GetAssetByDenomKey (ae_denom e))" "\<not> kv_has s (GetAssetByIDKey (ae_id e))"
    using Cons.prems(1) e(3) by (auto simp: registry_rep_def kv_has_def)
  have reg: "RegisterAssetV1 env (ae_denom e) (ae_id e) s = (Inr (), ?t)" using e none by (simp add: RegisterAssetV1_ok)
  have rep: "registry_rep env (Q(ae_denom e \<mapsto> ae_id e)) ?t" using register_rep [OF Cons.prems(1) reg e(2)] by blast
  have "\<forall>f \<in> set es. asset_of env (ae_denom f) (ae_id f) \<and> ae_denom f \<noteq> [] \<and> (Q(ae_denom e \<mapsto> ae_id e)) (ae_denom f) = None \<and>
      ae_id f \<notin> ran (Q(ae_denom e \<mapsto> ae_id e))"
    using Cons.prems(2,3,4) e(3) by (auto simp: image_iff)
  moreover have "distinct (map ae_denom es)" "distinct (map ae_id es)" using Cons.prems(2,3) by simp_all
  ultimately obtain t where
    t: "forM (map Some es) (\<lambda>entry. case entry of None \<Rightarrow> failM (Errorf ''genesis asset registry entry is nil'')
         | Some e \<Rightarrow> RegisterAssetV1 env (ae_denom e) (ae_id e)) ?t = (Inr (), t)"
      "registry_rep env (Q(ae_denom e \<mapsto> ae_id e) ++ map_of (map (\<lambda>e. (ae_denom e, ae_id e)) es)) t"
    using Cons.IH [OF rep] by blast
  have "Q(ae_denom e \<mapsto> ae_id e) ++ map_of (map (\<lambda>e. (ae_denom e, ae_id e)) es)
      = Q ++ map_of (map (\<lambda>e. (ae_denom e, ae_id e)) (e # es))"
  proof -
    have "map_of (map (\<lambda>e. (ae_denom e, ae_id e)) es) (ae_denom e) = None"
      using Cons.prems(2) by (force simp: map_of_eq_None_iff)
    then show ?thesis by (auto simp: map_add_def fun_eq_iff split: option.splits)
  qed
  from t(2) [unfolded this] have rep': "registry_rep env (Q ++ map_of (map (\<lambda>e. (ae_denom e, ae_id e)) (e # es))) t" .
  have "forM (map Some (e # es)) (\<lambda>entry. case entry of None \<Rightarrow> failM (Errorf ''genesis asset registry entry is nil'')
         | Some e \<Rightarrow> RegisterAssetV1 env (ae_denom e) (ae_id e)) s = (Inr (), t)"
    using t(1) reg by (simp add: bindM_step)
  with rep' show ?case by blast
qed auto

lemma export_members:
  assumes "registry_rep env R s" "kv_wf s"
  defines "es \<equiv> map (\<lambda>(k, v). \<lparr>ae_denom = bytes_string (tl k), ae_id = v\<rparr>) (kv_range [KeyPrefixAssetByDenom] [KeyPrefixAssetByDenom + 1] s)"
  shows "(e \<in> set es) = (R (ae_denom e) = Some (ae_id e))" "distinct (map ae_denom es)"
proof -
  let ?fwd = "kv_range [KeyPrefixAssetByDenom] [KeyPrefixAssetByDenom + 1] s"
  let ?es = "map (\<lambda>(k, v). \<lparr>ae_denom = bytes_string (tl k), ae_id = v\<rparr>) ?fwd"
  have mem: "e \<in> set ?es \<longleftrightarrow> R (ae_denom e) = Some (ae_id e)" for e
  proof
    assume "e \<in> set ?es"
    then obtain k v where kv: "(k, v) \<in> set ?fwd" "e = \<lparr>ae_denom = bytes_string (tl k), ae_id = v\<rparr>" by auto
    then obtain d where "k = GetAssetByDenomKey d" "R d = Some v" using denom_range [OF assms(1,2)] by blast
    with kv(2) show "R (ae_denom e) = Some (ae_id e)" by (simp add: GetAssetByDenomKey_def)
  next
    assume "R (ae_denom e) = Some (ae_id e)"
    then have "(GetAssetByDenomKey (ae_denom e), ae_id e) \<in> set ?fwd" using denom_range [OF assms(1,2)] by blast
    then have "(\<lambda>(k, v). \<lparr>ae_denom = bytes_string (tl k), ae_id = v\<rparr>) (GetAssetByDenomKey (ae_denom e), ae_id e) \<in> set ?es"
      unfolding set_map by (rule imageI)
    then show "e \<in> set ?es" by (cases e) (simp add: GetAssetByDenomKey_def)
  qed
  have inj: "inj_on (\<lambda>p. bytes_string (tl (fst p))) (set ?fwd)"
  proof (rule inj_onI)
    fix x y assume xy: "x \<in> set ?fwd" "y \<in> set ?fwd" "bytes_string (tl (fst x)) = bytes_string (tl (fst y))"
    obtain k v k' v' where e: "x = (k, v)" "y = (k', v')" by fastforce
    then obtain d d' where "k = GetAssetByDenomKey d" "R d = Some v" "k' = GetAssetByDenomKey d'" "R d' = Some v'"
      using xy(1,2) unfolding e denom_range [OF assms(1,2)] by auto
    with xy(3) e show "x = y" by (simp add: GetAssetByDenomKey_def)
  qed
  have dd: "distinct (map ae_denom ?es)"
    using inj range_distinct [OF assms(2)] by (simp add: comp_def split_beta distinct_map)
  show "(e \<in> set es) = (R (ae_denom e) = Some (ae_id e))" "distinct (map ae_denom es)"
    using mem dd unfolding es_def by blast+
qed

lemma export_entries:
  assumes "registry_rep env R s" "kv_wf s"
  defines "es \<equiv> map (\<lambda>(k, v). \<lparr>ae_denom = bytes_string (tl k), ae_id = v\<rparr>) (kv_range [KeyPrefixAssetByDenom] [KeyPrefixAssetByDenom + 1] s)"
  shows "distinct es \<and> set es = {\<lparr>ae_denom = d, ae_id = i\<rparr> |d i. R d = Some i}"
proof -
  have "e \<in> set es \<longleftrightarrow> e \<in> {\<lparr>ae_denom = d, ae_id = i\<rparr> |d i. R d = Some i}" for e
    unfolding es_def export_members(1) [OF assms(1,2)] by (cases e) auto
  moreover have "distinct es" using export_members(2) [OF assms(1,2)] unfolding es_def distinct_map by blast
  ultimately show ?thesis by blast
qed

lemma export_import:
  assumes "registry_rep env R s" "kv_wf s" "registry_rep env Map.empty s0" "allowsGenesisStateImport rt ctx"
  shows "\<exists>es t. ExportGenesisAssetRegistryV1 env s = Inr es \<and>
     InitGenesisAssetRegistryV1 env rt ctx (map Some es) s0 = (Inr (), t) \<and> registry_rep env R t"
proof -
  let ?fwd = "kv_range [KeyPrefixAssetByDenom] [KeyPrefixAssetByDenom + 1] s"
  let ?es = "map (\<lambda>(k, v). \<lparr>ae_denom = bytes_string (tl k), ae_id = v\<rparr>) ?fwd"
  note mem = export_members(1) [OF assms(1,2)] and dd = export_members(2) [OF assms(1,2)]
  have di: "distinct (map ae_id ?es)"
  proof (rule distinct_map [THEN iffD2], intro conjI inj_onI)
    show "distinct ?es" using dd unfolding distinct_map by blast
    fix e f assume ef: "e \<in> set ?es" "f \<in> set ?es" "ae_id e = ae_id f"
    have "R (ae_denom e) = Some (ae_id e)" "R (ae_denom f) = Some (ae_id e)" using ef mem by simp_all
    then show "e = f" using registry_inj [OF assms(1)] ef(3) by (cases e; cases f) simp
  qed
  define es where es: "es = ?es"
  note mem = mem [folded es] and dd = dd [folded es] and di = di [folded es]
  have ok: "\<forall>e \<in> set es. asset_of env (ae_denom e) (ae_id e) \<and> ae_denom e \<noteq> [] \<and> Map.empty (ae_denom e) = None \<and> ae_id e \<notin> ran Map.empty"
    using mem registry_fwd [OF assms(1)] by simp
  have "map_of (map (\<lambda>e. (ae_denom e, ae_id e)) es) = R"
  proof
    fix d
    have d': "distinct (map fst (map (\<lambda>e. (ae_denom e, ae_id e)) es))" using dd by (simp add: comp_def)
    show "map_of (map (\<lambda>e. (ae_denom e, ae_id e)) es) d = R d"
    proof (cases "R d")
      case None
      then have "d \<notin> ae_denom ` set es" using mem by auto
      then show ?thesis using None by (auto simp: map_of_eq_None_iff image_image)
    next
      case (Some i)
      then have "\<lparr>ae_denom = d, ae_id = i\<rparr> \<in> set es" using mem [of "\<lparr>ae_denom = d, ae_id = i\<rparr>"] by simp
      then have "(d, i) \<in> set (map (\<lambda>e. (ae_denom e, ae_id e)) es)" by force
      then show ?thesis using map_of_is_SomeI [OF d'] Some by simp
    qed
  qed
  with import_loop [OF assms(3) dd di ok] export_rep [OF assms(1,2), folded es] assms(4) show ?thesis
    by (auto simp: InitGenesisAssetRegistryV1_def)
qed

section \<open>Properties\<close>

lemma asset_nonempty: "asset_of env d i \<Longrightarrow> \<not> validate_denom env [] \<Longrightarrow> d \<noteq> []"
  by (auto simp: asset_of_def CanonicalAssetIDV1_def)

text \<open>The registry stays a one-to-one map. For a store that represents the map \<open>R\<close> of denominations to identifiers and a
  validation of denominations that refuses the empty one, registering \<open>d\<close> with \<open>i\<close> succeeds exactly when \<open>i\<close> is the
  canonical identifier of \<open>d\<close> and neither of them is registered yet; then the store represents \<open>R\<close> with the new pair, both
  lookups find it and \<open>RequireRegisteredAssetV1\<close> returns the identifier. A refused registration writes nothing.\<close>

lemma registry_bijection:
  assumes "registry_rep env R s" "\<not> validate_denom env []"
  shows "(case RegisterAssetV1 env d i s of
      (Inl e, t) \<Rightarrow> t = s \<and> (\<not> asset_of env d i \<or> R d \<noteq> None \<or> i \<in> ran R)
    | (Inr _, t) \<Rightarrow> asset_of env d i \<and> R d = None \<and> i \<notin> ran R \<and> registry_rep env (R(d \<mapsto> i)) t \<and>
        GetAssetByDenomV1 env d t = Inr (Some \<lparr>ae_denom = d, ae_id = i\<rparr>) \<and>
        GetAssetByIDV1 env i t = Inr (Some \<lparr>ae_denom = d, ae_id = i\<rparr>) \<and> RequireRegisteredAssetV1 env d t = Inr i)"
proof (cases "RegisterAssetV1 env d i s")
  case (Pair r t)
  show ?thesis
  proof (cases r)
    case (Inl e)
    then have run: "RegisterAssetV1 env d i s = (Inl e, t)" using Pair by simp
    have "\<exists>i'. R d' = Some i'" if "kv_has s (GetAssetByDenomKey d')" for d'
      using that assms(1) by (auto simp: registry_rep_def kv_has_def)
    moreover have "i' \<in> ran R" if "kv_has s (GetAssetByIDKey i')" for i'
      using that registry_rev [OF assms(1), of i'] by (auto simp: kv_has_def intro: ranI)
    ultimately have "\<not> asset_of env d i \<or> R d \<noteq> None \<or> i \<in> ran R"
      using run RegisterAssetV1_ok [of env d i s "()"] by fastforce
    then show ?thesis using register_fails [OF run] Inl Pair by auto
  next
    case (Inr u)
    then have run: "RegisterAssetV1 env d i s = (Inr u, t)" using Pair by simp
    then have a: "asset_of env d i" by (simp add: RegisterAssetV1_ok)
    note rep = register_rep [OF assms(1) run asset_nonempty [OF a assms(2)]]
    have "canonical_field i" "CanonicalAssetIDV1 env d = Inr i" using a asset_of_canonical [OF a] by (simp_all add: asset_of_def)
    moreover have "kv_get t (GetAssetByIDKey i) = Some (string_bytes d)"
      using rep registry_fwd [of env "R(d \<mapsto> i)" t d i] by simp
    ultimately show ?thesis using rep a Pair Inr GetAssetByDenom_rep [of env "R(d \<mapsto> i)" t d] GetAssetByID_rep [of env "R(d \<mapsto> i)" t i]
      by (simp add: RequireRegisteredAssetV1_def)
  qed
qed

lemma registry_empty: "registry_rep env Map.empty []"
  by (simp add: registry_rep_def)

definition sample_asset :: bytes where
  "sample_asset = be_of_nat fieldElementByteSize (ComputeAssetIDV1 ''uclair'')"

lemma sample_asset_of: "asset_of sample_sdk ''uclair'' sample_asset"
  by (simp add: asset_of_def CanonicalAssetIDV1_def sample_asset_def)


text \<open>C30. The genesis of the registry is complete: for a store that represents \<open>R\<close>, the export succeeds and lists exactly the
  pairs of \<open>R\<close>, each once, and importing the list into a store with no registrations
  succeeds and represents \<open>R\<close> again, provided the import is allowed.\<close>

theorem registry_genesis_roundtrip:
  assumes "registry_rep env R s" "kv_wf s" "registry_rep env Map.empty s0" "allowsGenesisStateImport rt ctx"
  shows "case ExportGenesisAssetRegistryV1 env s of Inl _ \<Rightarrow> False
    | Inr es \<Rightarrow> distinct es \<and> set es = {\<lparr>ae_denom = d, ae_id = i\<rparr> |d i. R d = Some i} \<and>
        (case InitGenesisAssetRegistryV1 env rt ctx (map Some es) s0 of (r, t) \<Rightarrow> r = Inr () \<and> registry_rep env R t)"
proof -
  obtain es t where es: "ExportGenesisAssetRegistryV1 env s = Inr es"
      "InitGenesisAssetRegistryV1 env rt ctx (map Some es) s0 = (Inr (), t)" "registry_rep env R t"
    using export_import [OF assms] by blast
  have "distinct es \<and> set es = {\<lparr>ae_denom = d, ae_id = i\<rparr> |d i. R d = Some i}"
    using es(1) export_entries [OF assms(1,2)] unfolding export_rep [OF assms(1,2)] by simp
  with es show ?thesis by simp
qed

theorem registry_genesis_roundtrip_witness:
  "registry_rep sample_sdk Map.empty [] \<and> allowsGenesisStateImport None \<lparr>block_height = 0, block_unix = 0, chain_id = [], tx_bytes = [],
     tx_hash = [], header_hash = [], is_check_tx = False, is_recheck_tx = False, init_active = False, apply_marker = False, msg_index = 0, gas_limit = 0\<rparr> \<and>
   ExportGenesisAssetRegistryV1 sample_sdk [] = Inr []"
proof -
  have a: "allowsGenesisStateImport None \<lparr>block_height = 0, block_unix = 0, chain_id = [], tx_bytes = [],
     tx_hash = [], header_hash = [], is_check_tx = False, is_recheck_tx = False, init_active = False, apply_marker = False, msg_index = 0, gas_limit = 0\<rparr>"
    by (simp add: allowsGenesisStateImport_def)
  from registry_genesis_roundtrip [OF registry_empty [of sample_sdk] kv_wf_Nil registry_empty a] show ?thesis
    using registry_empty [of sample_sdk] a by (auto split: sum.splits)
qed

end
