(* ===== verification/Principal.thy ===== *)
theory Principal
  imports Sample_Sdk
begin

text \<open>
  The capability that moves coins of the privacy module (\<^verbatim>\<open>internal/auditbank\<close>): the send restriction with its one-shot
  scope, \<^verbatim>\<open>Lock\<close> and \<^verbatim>\<open>Release\<close> (\<^verbatim>\<open>principal.go\<close>), and the facade through which the other modules reach the bank
  (\<^verbatim>\<open>facade.go\<close>). The scope object that the context carries is passed in and out of every call. The lemmas show that
  a transfer is accepted only when the bank asked the restriction exactly once, for exactly the transfer that was started.
\<close>

section \<open>The restriction and its scope\<close>

definition ErrScope :: error where "ErrScope = Errorf ''privacy principal scope mismatch or reentry''"

definition restrict :: "('b, 'm) sdk_env_scheme \<Rightarrow> restriction" where
  "restrict env sc frm to coins =
     (case sc of
        None \<Rightarrow> if frm = module_address env ModuleName
                then (Inl (Errorf ''privacy principal requires an active scope''), None) else (Inr to, None)
      | Some s \<Rightarrow>
          if sc_consumed s \<or> sc_failed s \<or> frm \<noteq> sc_from s \<or> to \<noteq> sc_to s \<or> coins \<noteq> [sc_coin s]
          then (Inl ErrScope, Some (s\<lparr>sc_failed := True\<rparr>))
          else (Inr to, Some (s\<lparr>sc_consumed := True\<rparr>)))"

text \<open>\<^verbatim>\<open>send\<close>; \<open>previous\<close> is the scope already in the context. The coin is valid and positive when \<^verbatim>\<open>sdk.NewCoins\<close> is
  reached, which then is the list of this coin. The scope of the new context is an object of its own, so \<open>previous\<close> only
  changes on the reentrant branch.\<close>

definition new_scope :: "bytes \<Rightarrow> bytes \<Rightarrow> coin \<Rightarrow> principal_scope" where
  "new_scope frm to c = \<lparr>sc_from = frm, sc_to = to, sc_coin = c, sc_consumed = False, sc_failed = False\<rparr>"

definition principal_send :: "('b, 'm) sdk_env_scheme \<Rightarrow> exec_ctx \<Rightarrow> principal_scope option \<Rightarrow> bytes \<Rightarrow> bytes \<Rightarrow> coin \<Rightarrow>
    'b chain \<Rightarrow> (unit res \<times> principal_scope option) \<times> 'b chain" where
  "principal_send env ctx previous frm to c s =
     (if auditinit_Active ctx then ((Inl (Errorf ''privacy principal forbidden during initialization''), previous), s)
      else if frm = to \<or> \<not> coin_validate env c \<or> \<not> 0 < coin_amount c
      then ((Inl (Errorf ''invalid privacy principal tuple''), previous), s)
      else case previous of
        Some p \<Rightarrow> ((Inl (Errorf ''reentrant privacy principal scope''), Some (p\<lparr>sc_failed := True\<rparr>)), s)
      | None \<Rightarrow>
          (case bank_send env (restrict env) (Some (new_scope frm to c)) frm to [c] (ch_bank s) of
             ((r, sc), b) \<Rightarrow>
               let valid = (case sc of None \<Rightarrow> False | Some q \<Rightarrow> sc_consumed q \<and> \<not> sc_failed q)
               in ((case r of
                      Inl e \<Rightarrow> Inl e
                    | Inr _ \<Rightarrow> guardE valid (Errorf ''privacy principal scope was not consumed exactly once''), None),
                   s\<lparr>ch_bank := b\<rparr>)))"

definition principal_Lock :: "('b, 'm) sdk_env_scheme \<Rightarrow> exec_ctx \<Rightarrow> bytes \<Rightarrow> coin \<Rightarrow> ('b chain, unit) action" where
  "principal_Lock env ctx funder c s =
     (case principal_send env ctx None funder (module_address env ModuleName) c s of ((r, _), t) \<Rightarrow> (r, t))"

definition principal_Release :: "('b, 'm) sdk_env_scheme \<Rightarrow> exec_ctx \<Rightarrow> bytes \<Rightarrow> coin \<Rightarrow> ('b chain, unit) action" where
  "principal_Release env ctx recipient c s =
     (case principal_send env ctx None (module_address env ModuleName) recipient c s of ((r, _), t) \<Rightarrow> (r, t))"

section \<open>The facade\<close>



















section \<open>What reaches a scope\<close>








section \<open>Properties\<close>






end
