(* ===== verification/Note_V1.thy ===== *)
theory Note_V1
  imports Sdk_Env
begin

text \<open>
  Notes (\<^verbatim>\<open>x/privacy/types/note.go\<close>), canonical points (\<^verbatim>\<open>x/privacy/crypto/decoder.go\<close>) and shielded addresses
  (\<^verbatim>\<open>x/privacy/types/address.go\<close>). A \<^verbatim>\<open>*big.Int\<close> is an \<open>int option\<close>, \<open>None\<close> for nil.
\<close>

type_synonym bigint = "int option"

text \<open>How \<^verbatim>\<open>MimcHash\<close> reads an argument: nil is zero, a number is reduced.\<close>

definition big_fr :: "bigint \<Rightarrow> nat" where
  "big_fr b = (case b of None \<Rightarrow> 0 | Some v \<Rightarrow> nat (v mod int fr_modulus))"

definition validateCanonicalNoteField :: "string \<Rightarrow> bigint \<Rightarrow> unit res" where
  "validateCanonicalNoteField name b =
     (case b of
        None \<Rightarrow> Inl (Errorf (name @ '' is required''))
      | Some v \<Rightarrow> guardE (\<not> (v < 0 \<or> int fr_modulus \<le> v)) (Errorf (name @ '' must be a canonical BN254 field element'')))"

definition field_big :: "bigint \<Rightarrow> bool" where
  "field_big b = (\<exists>n < fr_modulus. b = Some (int n))"

lemma validateCanonicalNoteField_ok [simp]: "validateCanonicalNoteField name b = Inr u \<longleftrightarrow> field_big b"
  by (cases b) (auto simp: validateCanonicalNoteField_def field_big_def intro!: exI [of _ "nat _"])

lemma big_fr_int [simp]: "n < fr_modulus \<Longrightarrow> big_fr (Some (int n)) = n"
  by (simp add: big_fr_def nat_mod_as_int)

section \<open>Points\<close>

definition CanonicalPointSize :: nat where "CanonicalPointSize = 32"

definition ErrInvalidPointEncoding :: error where
  "ErrInvalidPointEncoding = Errorf ''invalid canonical BN254 twisted Edwards point''"

definition ValidatePrimeSubgroupPoint :: "'a crypto_env_scheme \<Rightarrow> (nat \<times> nat) option \<Rightarrow> unit res" where
  "ValidatePrimeSubgroupPoint env point =
     (case point of
        None \<Rightarrow> Inl ErrInvalidPointEncoding
      | Some p \<Rightarrow>
          bindE (guardE (te_on_curve env p) ErrInvalidPointEncoding) (\<lambda>_.
          bindE (guardE (\<not> te_is_zero env p) ErrInvalidPointEncoding) (\<lambda>_.
          guardE (te_is_zero env (te_scalar_mul env p (te_order env))) ErrInvalidPointEncoding)))"

definition DecodeCanonicalPoint :: "'a crypto_env_scheme \<Rightarrow> bytes \<Rightarrow> (nat \<times> nat) res" where
  "DecodeCanonicalPoint env encoded =
     bindE (guardE (length encoded = CanonicalPointSize) ErrInvalidPointEncoding) (\<lambda>_.
     case te_set_bytes env encoded of
       None \<Rightarrow> Inl ErrInvalidPointEncoding
     | Some p \<Rightarrow>
         bindE (guardE (te_bytes env p = encoded) ErrInvalidPointEncoding) (\<lambda>_.
         bindE (ValidatePrimeSubgroupPoint env (Some p)) (\<lambda>_. Inr p)))"

definition pointFromBigInts :: "'a crypto_env_scheme \<Rightarrow> bigint \<Rightarrow> bigint \<Rightarrow> (nat \<times> nat) res" where
  "pointFromBigInts env x y =
     bindE (guardE (\<not> (x = None \<or> y = None)) (Errorf ''shielded address coordinates must not be nil'')) (\<lambda>_.
     bindE (validateCanonicalNoteField ''shielded address x coordinate'' x) (\<lambda>_.
     bindE (validateCanonicalNoteField ''shielded address y coordinate'' y) (\<lambda>_.
     let point = (big_fr x, big_fr y)
     in bindE (ValidatePrimeSubgroupPoint env (Some point)) (\<lambda>_. Inr point))))"

section \<open>Memo text\<close>

text \<open>\<^verbatim>\<open>utf8.Valid\<close>: the number of bytes of the first code point, \<open>None\<close> when they are not a valid encoding.\<close>

definition tail_in :: "byte \<Rightarrow> byte \<Rightarrow> nat \<Rightarrow> bytes \<Rightarrow> bool" where
  "tail_in a b n r = (n \<le> length r \<and> 0 < n \<and> a \<le> r ! 0 \<and> r ! 0 \<le> b \<and> list_all (\<lambda>c. 0x80 \<le> c \<and> c \<le> 0xbf) (take n r))"

definition rune_len :: "bytes \<Rightarrow> nat option" where
  "rune_len bs =
     (case bs of
        [] \<Rightarrow> None
      | c # r \<Rightarrow>
          if c < 0x80 then Some 1
          else if 0xc2 \<le> c \<and> c \<le> 0xdf \<and> tail_in 0x80 0xbf 1 r then Some 2
          else if c = 0xe0 \<and> tail_in 0xa0 0xbf 2 r then Some 3
          else if (0xe1 \<le> c \<and> c \<le> 0xec \<or> 0xee \<le> c \<and> c \<le> 0xef) \<and> tail_in 0x80 0xbf 2 r then Some 3
          else if c = 0xed \<and> tail_in 0x80 0x9f 2 r then Some 3
          else if c = 0xf0 \<and> tail_in 0x90 0xbf 3 r then Some 4
          else if 0xf1 \<le> c \<and> c \<le> 0xf3 \<and> tail_in 0x80 0xbf 3 r then Some 4
          else if c = 0xf4 \<and> tail_in 0x80 0x8f 3 r then Some 4
          else None)"

lemma rune_len_pos: "rune_len bs = Some n \<Longrightarrow> 0 < n \<and> bs \<noteq> []"
  by (auto simp: rune_len_def split: list.splits if_splits)

function utf8_valid :: "bytes \<Rightarrow> bool" where
  "utf8_valid bs = (bs = [] \<or> (case rune_len bs of None \<Rightarrow> False | Some n \<Rightarrow> utf8_valid (drop n bs)))"
  by pat_completeness auto
termination
  by (relation "measure length") (use rune_len_pos in \<open>auto intro!: diff_less\<close>)

declare utf8_valid.simps [simp del]

definition NoteMemoCapacityV1 :: nat where "NoteMemoCapacityV1 = 128"

definition validateNoteMemoV1 :: "string \<Rightarrow> unit res" where
  "validateNoteMemoV1 memo =
     bindE (guardE (utf8_valid (string_bytes memo)) (Errorf ''note memo must be valid UTF-8'')) (\<lambda>_.
     guardE (\<not> length (string_bytes memo) > NoteMemoCapacityV1) (Errorf ''note memo exceeds fixed capacity''))"

section \<open>Notes\<close>

record note_v1 =
  nt_spend_x :: bigint
  nt_spend_y :: bigint
  nt_view_x :: bigint
  nt_view_y :: bigint
  nt_amount :: bigint
  nt_asset :: bigint
  nt_randomness :: bigint
  nt_memo :: string

definition ComputeCommitment :: "'a crypto_env_scheme \<Rightarrow> note_v1 \<Rightarrow> nat" where
  "ComputeCommitment env n =
     ComputeNoteCommitmentV1 env (big_fr (nt_spend_x n)) (big_fr (nt_spend_y n)) (big_fr (nt_view_x n)) (big_fr (nt_view_y n))
       (big_fr (nt_amount n)) (big_fr (nt_asset n)) (big_fr (nt_randomness n))"

definition ComputeNullifier :: "'a crypto_env_scheme \<Rightarrow> note_v1 \<Rightarrow> nat" where
  "ComputeNullifier env n =
     ComputeNoteNullifierV1 env (ComputeCommitment env n) (big_fr (nt_randomness n)) (big_fr (nt_spend_x n)) (big_fr (nt_spend_y n))"

definition ValidateV1 :: "'a crypto_env_scheme \<Rightarrow> note_v1 option \<Rightarrow> unit res" where
  "ValidateV1 env no =
     (case no of
        None \<Rightarrow> Inl (Errorf ''note is required'')
      | Some n \<Rightarrow>
          bindE (ValidateShieldedAmount ''note amount'' (nt_amount n)) (\<lambda>_.
          bindE (traverseE (\<lambda>(name, v). validateCanonicalNoteField name v)
            [(''receiver spend public key x'', nt_spend_x n), (''receiver spend public key y'', nt_spend_y n),
             (''receiver view public key x'', nt_view_x n), (''receiver view public key y'', nt_view_y n),
             (''asset id'', nt_asset n), (''randomness'', nt_randomness n)]) (\<lambda>_.
          bindE (pointFromBigInts env (nt_spend_x n) (nt_spend_y n)) (\<lambda>_.
          bindE (pointFromBigInts env (nt_view_x n) (nt_view_y n)) (\<lambda>_.
          bindE (validateNoteMemoV1 (nt_memo n)) (\<lambda>_.
          bindE (guardE (ComputeCommitment env n \<noteq> 0) (Errorf ''active note commitment must be non-zero'')) (\<lambda>_.
          guardE (ComputeNullifier env n \<noteq> 0) (Errorf ''active note nullifier must be non-zero''))))))))"

text \<open>\<^verbatim>\<open>NewNote\<close> draws randomness below the modulus until commitment and nullifier are not zero; the draws are a list, and
  running out of them is the failure of the reader.\<close>

fun newNoteLoop :: "'a crypto_env_scheme \<Rightarrow> note_v1 \<Rightarrow> nat list \<Rightarrow> note_v1 res" where
  "newNoteLoop env n [] = Inl (Errorf ''randomness exhausted'')"
| "newNoteLoop env n (r # rs) =
     (let m = n\<lparr>nt_randomness := Some (int (r mod fr_modulus))\<rparr>
      in if ComputeCommitment env m \<noteq> 0 \<and> ComputeNullifier env m \<noteq> 0 then Inr m else newNoteLoop env n rs)"

definition NewNote :: "('b, 'm) sdk_env_scheme \<Rightarrow> bigint \<Rightarrow> bigint \<Rightarrow> bigint \<Rightarrow> bigint \<Rightarrow> bigint \<Rightarrow> string \<Rightarrow> string \<Rightarrow> nat list \<Rightarrow> note_v1 res" where
  "NewNote env spendX spendY viewX viewY amount assetDenom memo draws =
     bindE (ValidateShieldedAmount ''note amount'' amount) (\<lambda>_.
     bindE (pointFromBigInts env spendX spendY) (\<lambda>_.
     bindE (pointFromBigInts env viewX viewY) (\<lambda>_.
     bindE (guardE (validate_denom env assetDenom) (Errorf ''invalid canonical asset denom'')) (\<lambda>_.
     bindE (validateNoteMemoV1 memo) (\<lambda>_.
     newNoteLoop env \<lparr>nt_spend_x = spendX, nt_spend_y = spendY, nt_view_x = viewX, nt_view_y = viewY, nt_amount = amount,
       nt_asset = Some (int (ComputeAssetIDV1 assetDenom)), nt_randomness = None, nt_memo = memo\<rparr> draws)))))"

section \<open>Shielded addresses\<close>

definition ShieldedBech32Prefix :: string where "ShieldedBech32Prefix = ''clairs''"
definition shieldedPubKeyByteLength :: nat where "shieldedPubKeyByteLength = 32"

definition EncodeShieldedAddressWithView :: "'a crypto_env_scheme \<Rightarrow> (nat \<times> nat) option \<Rightarrow> (nat \<times> nat) option \<Rightarrow> string res" where
  "EncodeShieldedAddressWithView env spend view =
     bindE (ValidatePrimeSubgroupPoint env spend) (\<lambda>_.
     bindE (ValidatePrimeSubgroupPoint env view) (\<lambda>_.
     case bech32_encode env ShieldedBech32Prefix (te_bytes env (the spend) @ te_bytes env (the view)) of
       None \<Rightarrow> Inl (Errorf ''encoding bech32 failed'') | Some a \<Rightarrow> Inr a))"

definition DecodeShieldedAddressBundle :: "'a crypto_env_scheme \<Rightarrow> string \<Rightarrow> ((nat \<times> nat) \<times> (nat \<times> nat)) res" where
  "DecodeShieldedAddressBundle env address =
     (case bech32_decode env address of
        None \<Rightarrow> Inl (Errorf ''decoding bech32 failed'')
      | Some (hrp, decoded) \<Rightarrow>
          bindE (guardE (hrp = ShieldedBech32Prefix) (Errorf ''invalid prefix'')) (\<lambda>_.
          bindE (guardE (length decoded = shieldedPubKeyByteLength * 2) (Errorf ''invalid decoded length'')) (\<lambda>_.
          bindE (DecodeCanonicalPoint env (take shieldedPubKeyByteLength decoded)) (\<lambda>spend.
          bindE (DecodeCanonicalPoint env (drop shieldedPubKeyByteLength decoded)) (\<lambda>view.
          Inr (spend, view))))))"

definition ReceiverShieldedAddress :: "'a crypto_env_scheme \<Rightarrow> note_v1 \<Rightarrow> string res" where
  "ReceiverShieldedAddress env n =
     bindE (pointFromBigInts env (nt_spend_x n) (nt_spend_y n)) (\<lambda>spend.
     bindE (pointFromBigInts env (nt_view_x n) (nt_view_y n)) (\<lambda>view.
     EncodeShieldedAddressWithView env (Some spend) (Some view)))"

end
