(* ===== verification/Fixed_Payload.thy ===== *)
theory Fixed_Payload
  imports Note_V1
begin

text \<open>
  The fixed binary layouts of \<^verbatim>\<open>x/privacy/types/fixed_payload.go\<close>: note plaintexts, disclosure plaintexts and encrypted envelopes. The
  reader of each layout cuts the bytes at the offsets of the source (\<^const>\<open>fields_at\<close>); the lemmas show that reading and
  writing are inverse and that nothing else is accepted.
\<close>

unbundle bit_operations_syntax

definition fixedBinaryVersionV1 :: u16 where "fixedBinaryVersionV1 = 2"
definition NotePlaintextV1Size :: nat where "NotePlaintextV1Size = 358"
definition DisclosurePlaintextV1Size :: nat where "DisclosurePlaintextV1Size = 400"
definition EncryptedEnvelopeV1HeaderSize :: nat where "EncryptedEnvelopeV1HeaderSize = 20"
definition symmetricEnvelopeOverheadV1 :: nat where "symmetricEnvelopeOverheadV1 = 12 + 16"
definition eciesEnvelopeOverheadV1 :: nat where "eciesEnvelopeOverheadV1 = CanonicalPointSize + 12 + 16"

definition fixedDomainTagV1 :: "string \<Rightarrow> bytes" where
  "fixedDomainTagV1 label = take 16 (sha256 (string_bytes label))"

definition notePlaintextV1DomainTag :: bytes where
  "notePlaintextV1DomainTag = fixedDomainTagV1 ''clairveil.note-plaintext.v2''"
definition disclosurePlaintextV1DomainTag :: bytes where
  "disclosurePlaintextV1DomainTag = fixedDomainTagV1 ''clairveil.disclosure-plaintext.v2''"
definition encryptedEnvelopeV1DomainTag :: bytes where
  "encryptedEnvelopeV1DomainTag = fixedDomainTagV1 ''clairveil.encrypted-envelope.v2''"

definition TransferPrivacyPolicyAllPrivate :: u32 where "TransferPrivacyPolicyAllPrivate = 0"
definition TransferPrivacyPolicyDiscloseAmount :: u32 where "TransferPrivacyPolicyDiscloseAmount = 1"
definition TransferPrivacyPolicyDiscloseTo :: u32 where "TransferPrivacyPolicyDiscloseTo = 2"
definition TransferPrivacyPolicyDiscloseFrom :: u32 where "TransferPrivacyPolicyDiscloseFrom = 4"
definition TransferPrivacyPolicyDiscloseAmountToFrom :: u32 where "TransferPrivacyPolicyDiscloseAmountToFrom = 7"

section \<open>Fields of a layout\<close>

text \<open>\<^verbatim>\<open>FillBytes\<close> of a number that was validated before.\<close>

definition putFixedField :: "bigint \<Rightarrow> bytes" where
  "putFixedField b = be_of_nat 32 (nat (the b))"

definition putAmount :: "bigint \<Rightarrow> bytes" where
  "putAmount b = be_of_nat 16 (nat (the b))"

definition readFixedField :: "string \<Rightarrow> bytes \<Rightarrow> bigint res" where
  "readFixedField name bs =
     bindE (guardE (\<not> length bs < 32) (Errorf (name @ '' is truncated''))) (\<lambda>_.
     let v = Some (int (be_to_nat bs)) in bindE (validateCanonicalNoteField name v) (\<lambda>_. Inr v))"

definition readAmount :: "bytes \<Rightarrow> bigint" where
  "readAmount bs = Some (int (be_to_nat bs))"

definition allZeroBytes :: "bytes \<Rightarrow> bool" where
  "allZeroBytes bs = list_all (\<lambda>b. b = 0) bs"

definition allZeroBigInts :: "bigint list \<Rightarrow> bool" where
  "allZeroBigInts vs = list_all (\<lambda>b. b = Some 0) vs"

section \<open>Note plaintexts\<close>

definition note_layout :: "nat list" where
  "note_layout = [16, 2, 2, 32, 32, 32, 32, 16, 32, 32, 2, NoteMemoCapacityV1]"

definition note_slots :: "note_v1 \<Rightarrow> bytes list" where
  "note_slots n =
     (let memo = string_bytes (nt_memo n)
      in [notePlaintextV1DomainTag, be16 fixedBinaryVersionV1, [0, 0],
          putFixedField (nt_spend_x n), putFixedField (nt_spend_y n), putFixedField (nt_view_x n), putFixedField (nt_view_y n),
          putAmount (nt_amount n), putFixedField (nt_asset n), putFixedField (nt_randomness n),
          be16 (word_of_nat (length memo)), memo @ replicate (NoteMemoCapacityV1 - length memo) 0])"

definition MarshalNotePlaintextV1 :: "'a crypto_env_scheme \<Rightarrow> note_v1 option \<Rightarrow> bytes res" where
  "MarshalNotePlaintextV1 env no =
     (case no of
        None \<Rightarrow> Inl (Errorf ''note is required'')
      | Some n \<Rightarrow>
          bindE (ValidateV1 env (Some n)) (\<lambda>_.
          Inr (concat (note_slots n))))"

definition UnmarshalNotePlaintextV1 :: "'a crypto_env_scheme \<Rightarrow> bytes \<Rightarrow> note_v1 res" where
  "UnmarshalNotePlaintextV1 env encoded =
     bindE (guardE (length encoded = NotePlaintextV1Size) (Errorf ''NotePlaintextV1 has a fixed size'')) (\<lambda>_.
     let f = fields_at note_layout encoded in
     bindE (guardE (f ! 0 = notePlaintextV1DomainTag) (Errorf ''invalid NotePlaintextV1 domain tag'')) (\<lambda>_.
     bindE (guardE (un_be16 (f ! 1) = fixedBinaryVersionV1) (Errorf ''unsupported NotePlaintextV1 version'')) (\<lambda>_.
     bindE (guardE (f ! 2 = [0, 0]) (Errorf ''NotePlaintextV1 reserved flags must be zero'')) (\<lambda>_.
     bindE (readFixedField ''note key coordinate 0'' (f ! 3)) (\<lambda>sx.
     bindE (readFixedField ''note key coordinate 1'' (f ! 4)) (\<lambda>sy.
     bindE (readFixedField ''note key coordinate 2'' (f ! 5)) (\<lambda>vx.
     bindE (readFixedField ''note key coordinate 3'' (f ! 6)) (\<lambda>vy.
     bindE (readFixedField ''note asset id'' (f ! 8)) (\<lambda>asset.
     bindE (readFixedField ''note randomness'' (f ! 9)) (\<lambda>randomness.
     let memoLength = unat (un_be16 (f ! 10)); memoRegion = f ! 11 in
     bindE (guardE (\<not> memoLength > NoteMemoCapacityV1) (Errorf ''NotePlaintextV1 memo length exceeds capacity'')) (\<lambda>_.
     bindE (guardE (allZeroBytes (drop memoLength memoRegion)) (Errorf ''NotePlaintextV1 memo padding must be zero'')) (\<lambda>_.
     bindE (guardE (utf8_valid (take memoLength memoRegion)) (Errorf ''NotePlaintextV1 memo must be valid UTF-8'')) (\<lambda>_.
     let n = \<lparr>nt_spend_x = sx, nt_spend_y = sy, nt_view_x = vx, nt_view_y = vy, nt_amount = readAmount (f ! 7), nt_asset = asset,
              nt_randomness = randomness, nt_memo = bytes_string (take memoLength memoRegion)\<rparr>
     in bindE (mapErr (\<lambda>_. Errorf ''invalid NotePlaintextV1'') (ValidateV1 env (Some n))) (\<lambda>_. Inr n))))))))))))))"

section \<open>Disclosure plaintexts\<close>

record disclosure_plaintext =
  dp_plane :: u8
  dp_index :: u32
  dp_policy :: u32
  dp_bitmap :: u32
  dp_commitment :: bigint
  dp_amount :: bigint
  dp_asset :: bigint
  dp_sender_spend_x :: bigint
  dp_sender_spend_y :: bigint
  dp_sender_view_x :: bigint
  dp_sender_view_y :: bigint
  dp_recipient_spend_x :: bigint
  dp_recipient_spend_y :: bigint
  dp_recipient_view_x :: bigint
  dp_recipient_view_y :: bigint
  dp_blinding :: bigint

definition DisclosurePlaneUserV1 :: u8 where "DisclosurePlaneUserV1 = 1"
definition DisclosurePlaneFullV1 :: u8 where "DisclosurePlaneFullV1 = 2"
definition DisclosureFullMarkerV1 :: u32 where "DisclosureFullMarkerV1 = 0xffffffff"

definition validateDisclosureKeyBundleV1 :: "'a crypto_env_scheme \<Rightarrow> string \<Rightarrow> bigint \<Rightarrow> bigint \<Rightarrow> bigint \<Rightarrow> bigint \<Rightarrow> unit res" where
  "validateDisclosureKeyBundleV1 env name spendX spendY viewX viewY =
     bindE (mapErr (\<lambda>_. Errorf (''invalid '' @ name @ '' spend public key'')) (pointFromBigInts env spendX spendY)) (\<lambda>_.
     bindE (mapErr (\<lambda>_. Errorf (''invalid '' @ name @ '' view public key'')) (pointFromBigInts env viewX viewY)) (\<lambda>_. Inr ()))"

definition validateDisclosurePlaintextV1 :: "'a crypto_env_scheme \<Rightarrow> disclosure_plaintext option \<Rightarrow> unit res" where
  "validateDisclosurePlaintextV1 env payload =
     (case payload of
        None \<Rightarrow> Inl (Errorf ''disclosure plaintext is required'')
      | Some p \<Rightarrow>
          bindE (traverseE (\<lambda>(name, v). validateCanonicalNoteField name v)
            [(''commitment'', dp_commitment p), (''amount'', dp_amount p), (''asset id'', dp_asset p),
             (''sender spend key x'', dp_sender_spend_x p), (''sender spend key y'', dp_sender_spend_y p),
             (''sender view key x'', dp_sender_view_x p), (''sender view key y'', dp_sender_view_y p),
             (''recipient spend key x'', dp_recipient_spend_x p), (''recipient spend key y'', dp_recipient_spend_y p),
             (''recipient view key x'', dp_recipient_view_x p), (''recipient view key y'', dp_recipient_view_y p),
             (''disclosure blinding'', dp_blinding p)]) (\<lambda>_.
          bindE (guardE (dp_commitment p \<noteq> Some 0) (Errorf ''disclosure commitment must be non-zero'')) (\<lambda>_.
          bindE (ValidateShieldedAmount ''disclosure amount'' (dp_amount p)) (\<lambda>_.
          bindE (guardE (dp_blinding p \<noteq> Some 0) (Errorf ''disclosure blinding must be non-zero'')) (\<lambda>_.
          bindE (guardE (dp_asset p \<noteq> Some 0) (Errorf ''disclosure asset id must be non-zero'')) (\<lambda>_.
          let sender = [dp_sender_spend_x p, dp_sender_spend_y p, dp_sender_view_x p, dp_sender_view_y p];
              recipient = [dp_recipient_spend_x p, dp_recipient_spend_y p, dp_recipient_view_x p, dp_recipient_view_y p];
              senderKeys = validateDisclosureKeyBundleV1 env ''sender'' (dp_sender_spend_x p) (dp_sender_spend_y p) (dp_sender_view_x p) (dp_sender_view_y p);
              recipientKeys = validateDisclosureKeyBundleV1 env ''recipient'' (dp_recipient_spend_x p) (dp_recipient_spend_y p)
                (dp_recipient_view_x p) (dp_recipient_view_y p)
          in if dp_plane p = DisclosurePlaneUserV1 then
               bindE (guardE (\<not> (dp_policy p = TransferPrivacyPolicyAllPrivate \<or> dp_policy p > TransferPrivacyPolicyDiscloseAmountToFrom))
                 (Errorf ''user disclosure plaintext requires policy 1..7'')) (\<lambda>_.
               bindE (guardE (dp_bitmap p = dp_policy p) (Errorf ''user disclosure bitmap must equal policy in v1'')) (\<lambda>_.
               bindE (guardE (\<not> (dp_policy p AND TransferPrivacyPolicyDiscloseAmount = 0 \<and> dp_amount p \<noteq> Some 0))
                 (Errorf ''undisclosed amount must use zero sentinel'')) (\<lambda>_.
               bindE (guardE (\<not> (dp_policy p AND TransferPrivacyPolicyDiscloseFrom = 0 \<and> \<not> allZeroBigInts sender))
                 (Errorf ''undisclosed sender keys must use zero sentinel'')) (\<lambda>_.
               bindE (if dp_policy p AND TransferPrivacyPolicyDiscloseFrom \<noteq> 0 then senderKeys else Inr ()) (\<lambda>_.
               bindE (guardE (\<not> (dp_policy p AND TransferPrivacyPolicyDiscloseTo = 0 \<and> \<not> allZeroBigInts recipient))
                 (Errorf ''undisclosed recipient keys must use zero sentinel'')) (\<lambda>_.
               if dp_policy p AND TransferPrivacyPolicyDiscloseTo \<noteq> 0 then recipientKeys else Inr ()))))))
             else if dp_plane p = DisclosurePlaneFullV1 then
               bindE (guardE (\<not> (dp_policy p \<noteq> DisclosureFullMarkerV1 \<or> dp_bitmap p \<noteq> TransferPrivacyPolicyDiscloseAmountToFrom))
                 (Errorf ''full disclosure must use the full marker and bitmap'')) (\<lambda>_.
               bindE senderKeys (\<lambda>_. recipientKeys))
             else Inl (Errorf ''unsupported disclosure plane''))))))) "

definition disclosure_layout :: "nat list" where
  "disclosure_layout = [16, 2, 1, 1, 4, 4, 4, 32, 16, 32, 32, 32, 32, 32, 32, 32, 32, 32, 32]"

definition disclosure_slots :: "disclosure_plaintext \<Rightarrow> bytes list" where
  "disclosure_slots p =
     [disclosurePlaintextV1DomainTag, be16 fixedBinaryVersionV1, [dp_plane p], [0], be32 (dp_index p), be32 (dp_policy p),
      be32 (dp_bitmap p), putFixedField (dp_commitment p), putAmount (dp_amount p), putFixedField (dp_asset p),
      putFixedField (dp_sender_spend_x p), putFixedField (dp_sender_spend_y p), putFixedField (dp_sender_view_x p), putFixedField (dp_sender_view_y p),
      putFixedField (dp_recipient_spend_x p), putFixedField (dp_recipient_spend_y p), putFixedField (dp_recipient_view_x p),
      putFixedField (dp_recipient_view_y p), putFixedField (dp_blinding p)]"

definition MarshalDisclosurePlaintextV1 :: "'a crypto_env_scheme \<Rightarrow> disclosure_plaintext option \<Rightarrow> bytes res" where
  "MarshalDisclosurePlaintextV1 env payload =
     bindE (validateDisclosurePlaintextV1 env payload) (\<lambda>_.
     Inr (concat (disclosure_slots (the payload))))"

definition UnmarshalDisclosurePlaintextV1 :: "'a crypto_env_scheme \<Rightarrow> bytes \<Rightarrow> disclosure_plaintext res" where
  "UnmarshalDisclosurePlaintextV1 env encoded =
     bindE (guardE (length encoded = DisclosurePlaintextV1Size) (Errorf ''DisclosurePlaintextV1 has a fixed size'')) (\<lambda>_.
     let f = fields_at disclosure_layout encoded in
     bindE (guardE (f ! 0 = disclosurePlaintextV1DomainTag) (Errorf ''invalid DisclosurePlaintextV1 domain tag'')) (\<lambda>_.
     bindE (guardE (un_be16 (f ! 1) = fixedBinaryVersionV1) (Errorf ''unsupported DisclosurePlaintextV1 version'')) (\<lambda>_.
     bindE (guardE (hd (f ! 3) = 0) (Errorf ''DisclosurePlaintextV1 reserved byte must be zero'')) (\<lambda>_.
     bindE (readFixedField ''disclosure commitment'' (f ! 7)) (\<lambda>commitment.
     bindE (readFixedField ''disclosure field 0'' (f ! 9)) (\<lambda>asset.
     bindE (readFixedField ''disclosure field 1'' (f ! 10)) (\<lambda>sender_spend_x.
     bindE (readFixedField ''disclosure field 2'' (f ! 11)) (\<lambda>sender_spend_y.
     bindE (readFixedField ''disclosure field 3'' (f ! 12)) (\<lambda>sender_view_x.
     bindE (readFixedField ''disclosure field 4'' (f ! 13)) (\<lambda>sender_view_y.
     bindE (readFixedField ''disclosure field 5'' (f ! 14)) (\<lambda>recipient_spend_x.
     bindE (readFixedField ''disclosure field 6'' (f ! 15)) (\<lambda>recipient_spend_y.
     bindE (readFixedField ''disclosure field 7'' (f ! 16)) (\<lambda>recipient_view_x.
     bindE (readFixedField ''disclosure field 8'' (f ! 17)) (\<lambda>recipient_view_y.
     bindE (readFixedField ''disclosure field 9'' (f ! 18)) (\<lambda>blinding.
     let p = \<lparr>dp_plane = hd (f ! 2), dp_index = un_be32 (f ! 4), dp_policy = un_be32 (f ! 5), dp_bitmap = un_be32 (f ! 6),
              dp_commitment = commitment, dp_amount = readAmount (f ! 8), dp_asset = asset,
              dp_sender_spend_x = sender_spend_x, dp_sender_spend_y = sender_spend_y, dp_sender_view_x = sender_view_x, dp_sender_view_y = sender_view_y,
              dp_recipient_spend_x = recipient_spend_x, dp_recipient_spend_y = recipient_spend_y, dp_recipient_view_x = recipient_view_x,
              dp_recipient_view_y = recipient_view_y, dp_blinding = blinding\<rparr>
     in bindE (validateDisclosurePlaintextV1 env (Some p)) (\<lambda>_. Inr p))))))))))))))))"

section \<open>Encrypted envelopes\<close>

definition EnvelopeDepositNoteV1 :: u8 where "EnvelopeDepositNoteV1 = 1"
definition EnvelopeTransferNoteV1 :: u8 where "EnvelopeTransferNoteV1 = 2"
definition EnvelopeUserDisclosureV1 :: u8 where "EnvelopeUserDisclosureV1 = 3"
definition EnvelopeAuditDisclosureV1 :: u8 where "EnvelopeAuditDisclosureV1 = 4"
definition EnvelopeSelfViewDisclosureV1 :: u8 where "EnvelopeSelfViewDisclosureV1 = 5"

definition encryptedCiphertextSizeV1 :: "u8 \<Rightarrow> nat res" where
  "encryptedCiphertextSizeV1 kind =
     (if kind = EnvelopeDepositNoteV1 then Inr (NotePlaintextV1Size + symmetricEnvelopeOverheadV1)
      else if kind = EnvelopeTransferNoteV1 then Inr (NotePlaintextV1Size + eciesEnvelopeOverheadV1)
      else if kind = EnvelopeUserDisclosureV1 \<or> kind = EnvelopeAuditDisclosureV1 \<or> kind = EnvelopeSelfViewDisclosureV1
      then Inr (DisclosurePlaintextV1Size + eciesEnvelopeOverheadV1)
      else Inl (Errorf ''unsupported encrypted envelope kind''))"

definition EncryptedEnvelopeV1Size :: "u8 \<Rightarrow> nat res" where
  "EncryptedEnvelopeV1Size kind =
     bindE (encryptedCiphertextSizeV1 kind) (\<lambda>size. Inr (EncryptedEnvelopeV1HeaderSize + size))"

definition WrapEncryptedEnvelopeV1 :: "u8 \<Rightarrow> bytes \<Rightarrow> bytes res" where
  "WrapEncryptedEnvelopeV1 kind cipherText =
     bindE (encryptedCiphertextSizeV1 kind) (\<lambda>expected.
     bindE (guardE (length cipherText = expected) (Errorf ''encrypted envelope ciphertext has a fixed size'')) (\<lambda>_.
     Inr (encryptedEnvelopeV1DomainTag @ be16 fixedBinaryVersionV1 @ [kind, 0] @ cipherText)))"

definition DecodeEncryptedEnvelopeV1 :: "bytes \<Rightarrow> (u8 \<times> bytes) res" where
  "DecodeEncryptedEnvelopeV1 encoded =
     bindE (guardE (\<not> length encoded < EncryptedEnvelopeV1HeaderSize) (Errorf ''encrypted envelope is shorter than the header'')) (\<lambda>_.
     bindE (guardE (take 16 encoded = encryptedEnvelopeV1DomainTag) (Errorf ''invalid encrypted envelope domain tag'')) (\<lambda>_.
     bindE (guardE (un_be16 (take 2 (drop 16 encoded)) = fixedBinaryVersionV1) (Errorf ''unsupported encrypted envelope version'')) (\<lambda>_.
     let kind = encoded ! 18 in
     bindE (encryptedCiphertextSizeV1 kind) (\<lambda>expectedCiphertext.
     bindE (guardE (length encoded = EncryptedEnvelopeV1HeaderSize + expectedCiphertext) (Errorf ''encrypted envelope has a fixed size'')) (\<lambda>_.
     bindE (guardE (encoded ! 19 = 0) (Errorf ''encrypted envelope reserved byte must be zero'')) (\<lambda>_.
     Inr (kind, drop EncryptedEnvelopeV1HeaderSize encoded)))))))"

definition UnwrapEncryptedEnvelopeV1 :: "bytes \<Rightarrow> u8 \<Rightarrow> bytes res" where
  "UnwrapEncryptedEnvelopeV1 encoded expectedKind =
     bindE (DecodeEncryptedEnvelopeV1 encoded) (\<lambda>(kind, cipherText).
     bindE (guardE (kind = expectedKind) (Errorf ''encrypted envelope kind mismatch'')) (\<lambda>_. Inr cipherText))"

section \<open>Reading and writing are inverse\<close>

lemma domain_tag_length [simp]: "length (fixedDomainTagV1 label) = 16"
  by (simp add: fixedDomainTagV1_def)

lemma put_lengths [simp]: "length (putFixedField b) = 32" "length (putAmount b) = 16"
  by (simp_all add: putFixedField_def putAmount_def)

lemma readFixedField_iff: "length bs = 32 \<Longrightarrow> readFixedField name bs = Inr v \<longleftrightarrow> field_big v \<and> bs = putFixedField v"
  using fr_modulus_bound
  by (auto simp: readFixedField_def Let_def field_big_def putFixedField_def be_of_nat_be_to_nat be_to_nat_be_of_nat)

definition amount_big :: "bigint \<Rightarrow> bool" where
  "amount_big b = (\<exists>n < 2 ^ 128. b = Some (int n))"

lemma ValidateShieldedAmount_ok [simp]: "ValidateShieldedAmount name b = Inr u \<longleftrightarrow> amount_big b"
proof (cases b)
  case (Some v)
  have "(0 \<le> v \<and> v \<le> MaxShieldedAmount) \<longleftrightarrow> (\<exists>n < 2 ^ 128. v = int n)"
    unfolding MaxShieldedAmount_def ShieldedAmountBitLength_def by (auto intro!: exI [of _ "nat v"])
  then show ?thesis using Some by (auto simp: ValidateShieldedAmount_def amount_big_def)
qed (simp add: ValidateShieldedAmount_def amount_big_def)

lemma readAmount_iff: "length bs = 16 \<Longrightarrow> readAmount bs = v \<longleftrightarrow> amount_big v \<and> bs = putAmount v"
proof -
  assume bs: "length bs = 16"
  have "be_to_nat bs < 2 ^ 128" using be_to_nat_less [of bs] bs by simp
  then show ?thesis using bs
    by (auto simp: readAmount_def amount_big_def putAmount_def be_of_nat_be_to_nat be_to_nat_be_of_nat)
qed

text \<open>The memo region with its length prefix.\<close>

lemma zero_padded: "m \<le> length bs \<Longrightarrow> allZeroBytes (drop m bs) \<longleftrightarrow> bs = take m bs @ replicate (length bs - m) 0"
proof -
  assume m: "m \<le> length bs"
  have "allZeroBytes ys \<longleftrightarrow> ys = replicate (length ys) 0" for ys by (induction ys) (auto simp: allZeroBytes_def)
  from this [of "drop m bs"] show ?thesis using m by (metis append_eq_conv_conj append_take_drop_id length_drop)
qed

lemma memo_region_iff:
  assumes "length lenb = 2" "length region = NoteMemoCapacityV1"
  shows "unat (un_be16 lenb) \<le> NoteMemoCapacityV1 \<and> allZeroBytes (drop (unat (un_be16 lenb)) region) \<and>
      bytes_string (take (unat (un_be16 lenb)) region) = memo
    \<longleftrightarrow> length memo \<le> NoteMemoCapacityV1 \<and> lenb = be16 (word_of_nat (length memo)) \<and>
      region = string_bytes memo @ replicate (NoteMemoCapacityV1 - length memo) 0" (is "?L \<longleftrightarrow> ?R")
proof
  assume L: ?L
  let ?m = "unat (un_be16 lenb)"
  have sb: "string_bytes memo = take ?m region" using L by auto
  then have "length memo = ?m" using L assms(2) by (metis length_map length_take min.absorb2 string_bytes_def)
  moreover have "lenb = be16 (word_of_nat ?m)" using assms(1) by (simp add: be16_un_be16)
  ultimately show ?R using L sb zero_padded [of ?m region] assms(2) by simp
next
  assume R: ?R
  have "unat (word_of_nat (length memo) :: u16) = length memo" using R by (simp add: NoteMemoCapacityV1_def unat_of_nat)
  moreover have "length (string_bytes memo) = length memo" by (simp add: string_bytes_def)
  moreover have "un_be16 lenb = word_of_nat (length memo)" using R un_be16_be16_append [of "word_of_nat (length memo)" "[]"] by simp
  ultimately show ?L using R by (simp add: allZeroBytes_def list_all_iff)
qed

lemma note_valid_fields:
  "ValidateV1 env (Some n) = Inr u \<Longrightarrow> amount_big (nt_amount n) \<and> field_big (nt_spend_x n) \<and> field_big (nt_spend_y n) \<and>
     field_big (nt_view_x n) \<and> field_big (nt_view_y n) \<and> field_big (nt_asset n) \<and> field_big (nt_randomness n) \<and>
     length (nt_memo n) \<le> NoteMemoCapacityV1 \<and> utf8_valid (string_bytes (nt_memo n))"
  by (auto simp: ValidateV1_def validateNoteMemoV1_def string_bytes_def)

lemma note_unmarshal_iff:
  "UnmarshalNotePlaintextV1 env bs = Inr n \<longleftrightarrow>
     ValidateV1 env (Some n) = Inr () \<and> length bs = sum_list note_layout \<and> fields_at note_layout bs = note_slots n"
proof (cases "length bs = sum_list note_layout \<and> ValidateV1 env (Some n) = Inr ()")
  case True
  then have v: "ValidateV1 env (Some n) = Inr ()" and l: "length bs = sum_list note_layout" by auto
  have size: "length bs = NotePlaintextV1Size" using l by (simp add: note_layout_def NotePlaintextV1Size_def NoteMemoCapacityV1_def)
  note f = note_valid_fields [OF v]
  obtain a0 a1 a2 a3 a4 a5 a6 a7 a8 a9 a10 a11 where e: "fields_at note_layout bs = [a0, a1, a2, a3, a4, a5, a6, a7, a8, a9, a10, a11]"
    by (simp add: note_layout_def)
  have lens: "length a0 = 16" "length a1 = 2" "length a2 = 2" "length a3 = 32" "length a4 = 32" "length a5 = 32" "length a6 = 32"
    "length a7 = 16" "length a8 = 32" "length a9 = 32" "length a10 = 2" "length a11 = NoteMemoCapacityV1"
    using fields_at_lengths [OF l] unfolding e by (simp_all add: note_layout_def)
  let ?memo = "unat (un_be16 a10) \<le> NoteMemoCapacityV1 \<and> allZeroBytes (drop (unat (un_be16 a10)) a11) \<and>
        bytes_string (take (unat (un_be16 a10)) a11) = nt_memo n"
  have "utf8_valid (take (unat (un_be16 a10)) a11)" if ?memo using that f by (metis string_bytes_of)
  then have "UnmarshalNotePlaintextV1 env bs = Inr n \<longleftrightarrow>
      a0 = notePlaintextV1DomainTag \<and> a1 = be16 fixedBinaryVersionV1 \<and> a2 = [0, 0] \<and> a3 = putFixedField (nt_spend_x n) \<and>
      a4 = putFixedField (nt_spend_y n) \<and> a5 = putFixedField (nt_view_x n) \<and> a6 = putFixedField (nt_view_y n) \<and> readAmount a7 = nt_amount n \<and>
      a8 = putFixedField (nt_asset n) \<and> a9 = putFixedField (nt_randomness n) \<and> ?memo"
    using v size f lens by (cases n) (auto simp: UnmarshalNotePlaintextV1_def Let_def e readFixedField_iff un_be16_iff)
  then show ?thesis
    unfolding memo_region_iff [OF lens(11,12)] readAmount_iff [OF lens(8)] using f v l by (auto simp: e note_slots_def string_bytes_def)
next
  case False
  then show ?thesis by (auto simp: UnmarshalNotePlaintextV1_def Let_def note_layout_def NotePlaintextV1Size_def NoteMemoCapacityV1_def)
qed

lemma note_codec: "UnmarshalNotePlaintextV1 env bs = Inr n \<longleftrightarrow> MarshalNotePlaintextV1 env (Some n) = Inr bs"
proof -
  have "map length (note_slots n) = note_layout" if "ValidateV1 env (Some n) = Inr ()"
    using note_valid_fields [OF that]
    by (simp add: note_slots_def note_layout_def Let_def notePlaintextV1DomainTag_def string_bytes_def)
  then show ?thesis
    using concat_layout_iff [of "note_slots n" note_layout bs] unfolding note_unmarshal_iff by (auto simp: MarshalNotePlaintextV1_def)
qed

lemma disclosure_valid_fields:
  "validateDisclosurePlaintextV1 env (Some p) = Inr u \<Longrightarrow> amount_big (dp_amount p) \<and> field_big (dp_commitment p) \<and> field_big (dp_asset p) \<and>
     field_big (dp_sender_spend_x p) \<and> field_big (dp_sender_spend_y p) \<and> field_big (dp_sender_view_x p) \<and> field_big (dp_sender_view_y p) \<and>
     field_big (dp_recipient_spend_x p) \<and> field_big (dp_recipient_spend_y p) \<and> field_big (dp_recipient_view_x p) \<and>
     field_big (dp_recipient_view_y p) \<and> field_big (dp_blinding p)"
  unfolding validateDisclosurePlaintextV1_def by simp

lemma singleton_hd: "length ys = 1 \<Longrightarrow> [hd ys] = ys"
  by (cases ys) auto

lemma disclosure_unmarshal_iff:
  "UnmarshalDisclosurePlaintextV1 env bs = Inr p \<longleftrightarrow>
     validateDisclosurePlaintextV1 env (Some p) = Inr () \<and> length bs = sum_list disclosure_layout \<and> fields_at disclosure_layout bs = disclosure_slots p"
proof (cases "length bs = sum_list disclosure_layout \<and> validateDisclosurePlaintextV1 env (Some p) = Inr ()")
  case True
  then have v: "validateDisclosurePlaintextV1 env (Some p) = Inr ()" and l: "length bs = sum_list disclosure_layout" by auto
  have size: "length bs = DisclosurePlaintextV1Size" using l by (simp add: disclosure_layout_def DisclosurePlaintextV1Size_def)
  note f = disclosure_valid_fields [OF v]
  obtain a0 a1 c2 c3 a4 a5 a6 a7 a8 a9 b0 b1 b2 b3 b4 b5 b6 b7 b8 where
    e: "fields_at disclosure_layout bs = [a0, a1, c2, c3, a4, a5, a6, a7, a8, a9, b0, b1, b2, b3, b4, b5, b6, b7, b8]"
    by (simp add: disclosure_layout_def)
  have lens: "length a0 = 16" "length a1 = 2" "length a4 = 4" "length a5 = 4" "length a6 = 4" "length a7 = 32" "length a8 = 16" "length a9 = 32"
      "length b0 = 32" "length b1 = 32" "length b2 = 32" "length b3 = 32" "length b4 = 32" "length b5 = 32" "length b6 = 32" "length b7 = 32" "length b8 = 32"
    and ones: "length c2 = 1" "length c3 = 1"
    using fields_at_lengths [OF l] unfolding e by (simp_all add: disclosure_layout_def)
  have "UnmarshalDisclosurePlaintextV1 env bs = Inr p \<longleftrightarrow>
      a0 = disclosurePlaintextV1DomainTag \<and> a1 = be16 fixedBinaryVersionV1 \<and> hd c2 = dp_plane p \<and> hd c3 = 0 \<and> un_be32 a4 = dp_index p \<and>
      un_be32 a5 = dp_policy p \<and> un_be32 a6 = dp_bitmap p \<and> a7 = putFixedField (dp_commitment p) \<and> readAmount a8 = dp_amount p \<and>
      a9 = putFixedField (dp_asset p) \<and> b0 = putFixedField (dp_sender_spend_x p) \<and> b1 = putFixedField (dp_sender_spend_y p) \<and>
      b2 = putFixedField (dp_sender_view_x p) \<and> b3 = putFixedField (dp_sender_view_y p) \<and> b4 = putFixedField (dp_recipient_spend_x p) \<and>
      b5 = putFixedField (dp_recipient_spend_y p) \<and> b6 = putFixedField (dp_recipient_view_x p) \<and> b7 = putFixedField (dp_recipient_view_y p) \<and>
      b8 = putFixedField (dp_blinding p)"
    using v size f lens by (cases p) (auto simp: UnmarshalDisclosurePlaintextV1_def Let_def e readFixedField_iff un_be16_iff)
  then show ?thesis
    unfolding readAmount_iff [OF lens(7)] un_be32_iff [OF lens(3)] un_be32_iff [OF lens(4)] un_be32_iff [OF lens(5)]
    using f v l singleton_hd [OF ones(1)] singleton_hd [OF ones(2)] by (auto simp: e disclosure_slots_def)
next
  case False
  then show ?thesis by (auto simp: UnmarshalDisclosurePlaintextV1_def Let_def disclosure_layout_def DisclosurePlaintextV1Size_def)
qed

lemma disclosure_codec: "UnmarshalDisclosurePlaintextV1 env bs = Inr p \<longleftrightarrow> MarshalDisclosurePlaintextV1 env (Some p) = Inr bs"
proof -
  have "map length (disclosure_slots p) = disclosure_layout"
    by (simp add: disclosure_slots_def disclosure_layout_def disclosurePlaintextV1DomainTag_def)
  from concat_layout_iff [OF this, of bs] show ?thesis
    unfolding disclosure_unmarshal_iff by (auto simp: MarshalDisclosurePlaintextV1_def)
qed

lemma envelope_codec_v1: "DecodeEncryptedEnvelopeV1 bs = Inr (kind, c) \<longleftrightarrow> WrapEncryptedEnvelopeV1 kind c = Inr bs"
proof
  assume "WrapEncryptedEnvelopeV1 kind c = Inr bs"
  then show "DecodeEncryptedEnvelopeV1 bs = Inr (kind, c)"
    using un_be16_be16_append [of fixedBinaryVersionV1 "[]"]
    by (auto simp: WrapEncryptedEnvelopeV1_def DecodeEncryptedEnvelopeV1_def encryptedEnvelopeV1DomainTag_def EncryptedEnvelopeV1HeaderSize_def
        nth_append Let_def)
next
  assume d: "DecodeEncryptedEnvelopeV1 bs = Inr (kind, c)"
  have l: "length bs = sum_list [16, 2, 1, 1, length bs - 20]" using d by (auto simp: DecodeEncryptedEnvelopeV1_def EncryptedEnvelopeV1HeaderSize_def)
  have "bs = take 16 bs @ take 2 (drop 16 bs) @ take 1 (drop 18 bs) @ take 1 (drop 19 bs) @ drop 20 bs"
    using concat_fields_at [OF l] by (simp add: add.commute)
  moreover have "take 1 (drop 18 bs) = [bs ! 18]" "take 1 (drop 19 bs) = [bs ! 19]" using l by (simp_all add: take_Suc hd_drop_conv_nth)
  ultimately show "WrapEncryptedEnvelopeV1 kind c = Inr bs"
    using d by (auto simp: WrapEncryptedEnvelopeV1_def DecodeEncryptedEnvelopeV1_def Let_def EncryptedEnvelopeV1HeaderSize_def un_be16_iff)
qed

section \<open>Properties\<close>

text \<open>C32. The fixed layouts are canonical: for notes, disclosure plaintexts and encrypted envelopes the reader accepts exactly the
  byte strings that the writer produces, and returns what was written. So a value has one encoding, and a string with a wrong
  length, tag, version, reserved byte, field out of range or padding is refused. An envelope opens under one kind only.\<close>

theorem payload_codecs:
  "(UnmarshalNotePlaintextV1 env bs = Inr n \<longleftrightarrow> MarshalNotePlaintextV1 env (Some n) = Inr bs) \<and>
   (UnmarshalDisclosurePlaintextV1 env bs = Inr p \<longleftrightarrow> MarshalDisclosurePlaintextV1 env (Some p) = Inr bs) \<and>
   (DecodeEncryptedEnvelopeV1 bs = Inr (kind, c) \<longleftrightarrow> WrapEncryptedEnvelopeV1 kind c = Inr bs) \<and>
   (UnwrapEncryptedEnvelopeV1 bs kind = Inr c \<longleftrightarrow> WrapEncryptedEnvelopeV1 kind c = Inr bs)"
proof -
  have "UnwrapEncryptedEnvelopeV1 bs kind = Inr c \<longleftrightarrow> DecodeEncryptedEnvelopeV1 bs = Inr (kind, c)"
    by (auto simp: UnwrapEncryptedEnvelopeV1_def)
  then show ?thesis using note_codec disclosure_codec envelope_codec_v1 by blast
qed

end
