(* ===== verification/Disclosure.thy ===== *)
theory Disclosure
  imports Fixed_Payload
begin

text \<open>
  Disclosure digests: of 2x2 transfers (\<^verbatim>\<open>x/privacy/types/transfer_disclosure.go\<close>), of batch outputs (\<^verbatim>\<open>x/privacy/types/batch_contract.go\<close>), the
  policy check of \<^verbatim>\<open>x/privacy/types/msg.go\<close> and the separation of blindings (\<^verbatim>\<open>x/privacy/types/disclosure_blinding.go\<close>). The four
  coordinates of a shielded address are one tuple here.
\<close>

unbundle bit_operations_syntax

type_synonym key_bundle = "bigint \<times> bigint \<times> bigint \<times> bigint"

fun bundle_list :: "key_bundle \<Rightarrow> bigint list" where
  "bundle_list (a, b, c, d) = [a, b, c, d]"

definition zero_bundle :: key_bundle where "zero_bundle = (Some 0, Some 0, Some 0, Some 0)"

definition MimcBig :: "'a crypto_env_scheme \<Rightarrow> bigint list \<Rightarrow> nat" where
  "MimcBig env data = MimcHash env (map big_fr data)"

lemma MimcBig_less [simp]: "crypto_ok env \<Longrightarrow> MimcBig env data < fr_modulus"
  by (simp add: MimcBig_def)

definition HashString :: "string \<Rightarrow> nat" where
  "HashString s = be_to_nat (sha256 (string_bytes s)) mod fr_modulus"

definition num :: "nat \<Rightarrow> bigint" where "num n = Some (int n)"

definition canonicalDigestBytes :: "nat \<Rightarrow> bytes" where
  "canonicalDigestBytes v = be_of_nat 32 (v mod fr_modulus)"

definition validateTransferDisclosurePolicy :: "u32 \<Rightarrow> unit res" where
  "validateTransferDisclosurePolicy policy =
     guardE (policy \<in> {0, 1, 2, 3, 4, 5, 6, 7}) (SdkErr ErrInvalidRequest ''unsupported transfer privacy policy'')"

definition validateDisclosureBlinding :: "bigint \<Rightarrow> unit res" where
  "validateDisclosureBlinding b =
     (case b of
        None \<Rightarrow> Inl (Errorf ''is required'')
      | Some v \<Rightarrow> guardE (\<not> (v \<le> 0 \<or> int fr_modulus \<le> v)) (Errorf ''must be a non-zero canonical BN254 field element''))"

section \<open>Transfers with two outputs\<close>

definition TransferDisclosureRecipientOutputIndex :: u32 where "TransferDisclosureRecipientOutputIndex = 0"
definition TransferAuditDisclosureDomain :: u32 where "TransferAuditDisclosureDomain = 255"

definition ComputeTransferDisclosureDigestBytes ::
  "'a crypto_env_scheme \<Rightarrow> u32 \<Rightarrow> u32 \<Rightarrow> bytes \<Rightarrow> bigint \<Rightarrow> bigint \<Rightarrow> key_bundle \<Rightarrow> key_bundle \<Rightarrow> bigint \<Rightarrow> bytes res" where
  "ComputeTransferDisclosureDigestBytes env policy outputIndex commitment amount assetID frm to blinding =
     bindE (validateTransferDisclosurePolicy policy) (\<lambda>_.
     bindE (types_validateFieldElementBytesStrict ''disclosure commitment'' commitment) (\<lambda>_.
     if policy = TransferPrivacyPolicyAllPrivate then Inr (canonicalDigestBytes 0)
     else
       bindE (validateDisclosureBlinding blinding) (\<lambda>_.
       bindE (validateCanonicalNoteField ''user disclosure asset id'' assetID) (\<lambda>_.
       bindE (guardE (assetID \<noteq> Some 0) (Errorf ''user disclosure asset id must be non-zero'')) (\<lambda>_.
       bindE (if policy AND TransferPrivacyPolicyDiscloseAmount \<noteq> 0
              then bindE (guardE (amount \<noteq> None) (Errorf ''amount is required for amount disclosure'')) (\<lambda>_. Inr amount)
              else Inr (Some 0)) (\<lambda>selectedAmount.
       bindE (if policy AND TransferPrivacyPolicyDiscloseFrom \<noteq> 0
              then bindE (guardE (None \<notin> set (bundle_list frm)) (Errorf ''full sender shielded address is required for from disclosure'')) (\<lambda>_. Inr frm)
              else Inr zero_bundle) (\<lambda>selectedFrom.
       bindE (if policy AND TransferPrivacyPolicyDiscloseTo \<noteq> 0
              then bindE (guardE (None \<notin> set (bundle_list to)) (Errorf ''full recipient shielded address is required for to disclosure'')) (\<lambda>_. Inr to)
              else Inr zero_bundle) (\<lambda>selectedTo.
       Inr (canonicalDigestBytes (MimcBig env
         ([num (HashString ''CLAIRVEIL_USER_DISCLOSURE_V2''), num (unat policy), num (unat outputIndex), num (be_to_nat commitment),
           selectedAmount, assetID] @ bundle_list selectedFrom @ bundle_list selectedTo @ [blinding])))))))))))"

definition ComputeFullTransferDisclosureDigestBytes ::
  "'a crypto_env_scheme \<Rightarrow> u32 \<Rightarrow> bytes \<Rightarrow> bigint \<Rightarrow> bigint \<Rightarrow> key_bundle \<Rightarrow> key_bundle \<Rightarrow> bigint \<Rightarrow> bytes res" where
  "ComputeFullTransferDisclosureDigestBytes env outputIndex commitment amount assetID frm to blinding =
     bindE (types_validateFieldElementBytesStrict ''audit disclosure commitment'' commitment) (\<lambda>_.
     bindE (guardE (\<not> (amount = None \<or> assetID = None)) (Errorf ''audit disclosure requires amount and asset id'')) (\<lambda>_.
     bindE (guardE (None \<notin> set (bundle_list frm)) (Errorf ''audit disclosure requires the full sender shielded address'')) (\<lambda>_.
     bindE (guardE (None \<notin> set (bundle_list to)) (Errorf ''audit disclosure requires the full recipient shielded address'')) (\<lambda>_.
     bindE (validateDisclosureBlinding blinding) (\<lambda>_.
     Inr (canonicalDigestBytes (MimcBig env
       ([num (HashString ''CLAIRVEIL_FULL_DISCLOSURE_V2''), num (unat TransferAuditDisclosureDomain), num (unat outputIndex),
         num (be_to_nat commitment), amount, assetID] @ bundle_list frm @ bundle_list to @ [blinding]))))))))"

definition ComputeAuditTransferDisclosureDigestBytes ::
  "'a crypto_env_scheme \<Rightarrow> u32 \<Rightarrow> bytes \<Rightarrow> bigint \<Rightarrow> bigint \<Rightarrow> key_bundle \<Rightarrow> key_bundle \<Rightarrow> bigint \<Rightarrow> bytes res" where
  "ComputeAuditTransferDisclosureDigestBytes = ComputeFullTransferDisclosureDigestBytes"

definition ComputeSelfViewTransferDisclosureDigestBytes ::
  "'a crypto_env_scheme \<Rightarrow> u32 \<Rightarrow> bytes \<Rightarrow> bigint \<Rightarrow> bigint \<Rightarrow> key_bundle \<Rightarrow> key_bundle \<Rightarrow> bigint \<Rightarrow> bytes res" where
  "ComputeSelfViewTransferDisclosureDigestBytes = ComputeFullTransferDisclosureDigestBytes"

definition ComputeTransferDisclosureDigestHex ::
  "'a crypto_env_scheme \<Rightarrow> u32 \<Rightarrow> u32 \<Rightarrow> bytes \<Rightarrow> bigint \<Rightarrow> bigint \<Rightarrow> key_bundle \<Rightarrow> key_bundle \<Rightarrow> bigint \<Rightarrow> string res" where
  "ComputeTransferDisclosureDigestHex env policy outputIndex commitment amount assetID frm to blinding =
     bindE (ComputeTransferDisclosureDigestBytes env policy outputIndex commitment amount assetID frm to blinding) (\<lambda>bz. Inr (hex_of_bytes bz))"

definition ComputeAuditTransferDisclosureDigestHex ::
  "'a crypto_env_scheme \<Rightarrow> u32 \<Rightarrow> bytes \<Rightarrow> bigint \<Rightarrow> bigint \<Rightarrow> key_bundle \<Rightarrow> key_bundle \<Rightarrow> bigint \<Rightarrow> string res" where
  "ComputeAuditTransferDisclosureDigestHex env outputIndex commitment amount assetID frm to blinding =
     bindE (ComputeAuditTransferDisclosureDigestBytes env outputIndex commitment amount assetID frm to blinding) (\<lambda>bz. Inr (hex_of_bytes bz))"

definition ComputeSelfViewTransferDisclosureDigestHex ::
  "'a crypto_env_scheme \<Rightarrow> u32 \<Rightarrow> bytes \<Rightarrow> bigint \<Rightarrow> bigint \<Rightarrow> key_bundle \<Rightarrow> key_bundle \<Rightarrow> bigint \<Rightarrow> string res" where
  "ComputeSelfViewTransferDisclosureDigestHex env outputIndex commitment amount assetID frm to blinding =
     bindE (ComputeSelfViewTransferDisclosureDigestBytes env outputIndex commitment amount assetID frm to blinding) (\<lambda>bz. Inr (hex_of_bytes bz))"

section \<open>Batch outputs\<close>

definition validateIntentFieldElement :: "string \<Rightarrow> bigint \<Rightarrow> unit res" where
  "validateIntentFieldElement name b =
     (case b of
        None \<Rightarrow> Inl (Errorf (name @ '' is required''))
      | Some v \<Rightarrow> guardE (\<not> (v < 0 \<or> int fr_modulus \<le> v)) (Errorf (name @ '' must be a canonical BN254 field element'')))"

lemma validateIntentFieldElement_ok [simp]: "validateIntentFieldElement name b = Inr u \<longleftrightarrow> field_big b"
  using validateCanonicalNoteField_ok [of name b u] by (simp add: validateIntentFieldElement_def validateCanonicalNoteField_def)

definition validateNonZeroBatchBlinding :: "string \<Rightarrow> bigint \<Rightarrow> unit res" where
  "validateNonZeroBatchBlinding name b =
     bindE (validateIntentFieldElement name b) (\<lambda>_. guardE (b \<noteq> Some 0) (Errorf (name @ '' must be non-zero'')))"

record batch_user_input =
  bu_index :: u32
  bu_commitment :: bigint
  bu_policy :: u32
  bu_bitmap :: u32
  bu_amount :: bigint
  bu_from :: key_bundle
  bu_to :: key_bundle
  bu_asset :: bigint
  bu_blinding :: bigint

definition allZeroBatchUserSelectedFields :: "batch_user_input \<Rightarrow> bool" where
  "allZeroBatchUserSelectedFields i =
     allZeroBigInts ([bu_amount i] @ bundle_list (bu_from i) @ bundle_list (bu_to i) @ [bu_asset i])"

fun bundle_ok :: "'a crypto_env_scheme \<Rightarrow> string \<Rightarrow> key_bundle \<Rightarrow> unit res" where
  "bundle_ok env name (a, b, c, d) = validateDisclosureKeyBundleV1 env name a b c d"

definition ComputeBatchUserDisclosureDigestV1 :: "'a crypto_env_scheme \<Rightarrow> batch_user_input \<Rightarrow> nat res" where
  "ComputeBatchUserDisclosureDigestV1 env i =
     bindE (traverseE (validateIntentFieldElement ''batch user disclosure field'')
       ([bu_commitment i, bu_amount i] @ bundle_list (bu_from i) @ bundle_list (bu_to i) @ [bu_asset i])) (\<lambda>_.
     bindE (guardE (bu_commitment i \<noteq> Some 0) (Errorf ''commitment must be non-zero'')) (\<lambda>_.
     if bu_policy i = TransferPrivacyPolicyAllPrivate then
       bindE (guardE (\<not> (bu_bitmap i \<noteq> 0 \<or> \<not> allZeroBatchUserSelectedFields i))
         (Errorf ''all-private disclosure must use a zero bitmap and zero selected fields'')) (\<lambda>_.
       bindE (guardE (\<not> (bu_blinding i \<noteq> None \<and> bu_blinding i \<noteq> Some 0)) (Errorf ''all-private disclosure must use the zero blinding sentinel'')) (\<lambda>_.
       Inr 0))
     else
       bindE (guardE (\<not> bu_policy i > TransferPrivacyPolicyDiscloseAmountToFrom) (Errorf ''unsupported batch user disclosure policy'')) (\<lambda>_.
       bindE (guardE (bu_bitmap i = bu_policy i) (Errorf ''disclosed field bitmap must equal policy in v1'')) (\<lambda>_.
       bindE (guardE (bu_asset i \<noteq> Some 0) (Errorf ''user disclosure asset ID must be non-zero'')) (\<lambda>_.
       bindE (guardE (\<not> (bu_policy i AND TransferPrivacyPolicyDiscloseAmount = 0 \<and> bu_amount i \<noteq> Some 0))
         (Errorf ''undisclosed amount must use zero sentinel'')) (\<lambda>_.
       bindE (if bu_policy i AND TransferPrivacyPolicyDiscloseFrom = 0
              then guardE (allZeroBigInts (bundle_list (bu_from i))) (Errorf ''undisclosed sender keys must use zero sentinels'')
              else bundle_ok env ''selected sender'' (bu_from i)) (\<lambda>_.
       bindE (if bu_policy i AND TransferPrivacyPolicyDiscloseTo = 0
              then guardE (allZeroBigInts (bundle_list (bu_to i))) (Errorf ''undisclosed recipient keys must use zero sentinels'')
              else bundle_ok env ''selected recipient'' (bu_to i)) (\<lambda>_.
       bindE (validateNonZeroBatchBlinding ''user disclosure blinding'' (bu_blinding i)) (\<lambda>_.
       Inr (MimcBig env ([num (DomainFieldV1 ''clairveil.user-disclosure.v2''), num (unat (bu_index i)), bu_commitment i, num (unat (bu_policy i)),
         num (unat (bu_bitmap i)), bu_amount i] @ bundle_list (bu_from i) @ bundle_list (bu_to i) @ [bu_asset i, bu_blinding i]))))))))))) "

record batch_full_input =
  bf_index :: u32
  bf_commitment :: bigint
  bf_amount :: bigint
  bf_asset :: bigint
  bf_sender :: key_bundle
  bf_recipient :: key_bundle
  bf_blinding :: bigint

definition ComputeBatchFullDisclosureDigestV1 :: "'a crypto_env_scheme \<Rightarrow> batch_full_input \<Rightarrow> nat res" where
  "ComputeBatchFullDisclosureDigestV1 env i =
     bindE (traverseE (validateIntentFieldElement ''batch full disclosure field'')
       ([bf_commitment i, bf_amount i, bf_asset i] @ bundle_list (bf_sender i) @ bundle_list (bf_recipient i))) (\<lambda>_.
     bindE (guardE (bf_commitment i \<noteq> Some 0) (Errorf ''commitment must be non-zero'')) (\<lambda>_.
     bindE (guardE (bf_asset i \<noteq> Some 0) (Errorf ''full disclosure asset ID must be non-zero'')) (\<lambda>_.
     bindE (ValidateShieldedAmount ''full disclosure amount'' (bf_amount i)) (\<lambda>_.
     bindE (bundle_ok env ''full disclosure sender'' (bf_sender i)) (\<lambda>_.
     bindE (bundle_ok env ''full disclosure recipient'' (bf_recipient i)) (\<lambda>_.
     bindE (validateNonZeroBatchBlinding ''full disclosure blinding'' (bf_blinding i)) (\<lambda>_.
     Inr (MimcBig env ([num (DomainFieldV1 ''clairveil.full-disclosure.v2''), num (unat (bf_index i)), bf_commitment i, bf_amount i, bf_asset i] @
       bundle_list (bf_sender i) @ bundle_list (bf_recipient i) @ [bf_blinding i])))))))))"

section \<open>Separation of blindings\<close>

datatype blinding_code = DBS_INVALID_POLICY | DBS_NON_CANONICAL_FIELD | DBS_DISABLED_SENTINEL | DBS_ALL_PRIVATE_USER_SENTINEL
  | DBS_USER_BLINDING_REQUIRED | DBS_FULL_BLINDING_REQUIRED | DBS_USER_RANDOMNESS_REUSE | DBS_FULL_RANDOMNESS_REUSE | DBS_USER_FULL_BLINDING_REUSE

record blinding_error =
  be_code :: blinding_code
  be_output :: u32
  be_field :: string

record separation_input =
  si_index :: u32
  si_enabled :: bool
  si_policy :: u32
  si_randomness :: bigint
  si_user :: bigint
  si_full :: bigint

definition newDisclosureBlindingErrorV1 :: "blinding_code \<Rightarrow> u32 \<Rightarrow> string \<Rightarrow> blinding_error" where
  "newDisclosureBlindingErrorV1 code outputIndex field = \<lparr>be_code = code, be_output = outputIndex, be_field = field\<rparr>"

definition ValidateDisclosureBlindingSeparationV1 :: "separation_input \<Rightarrow> blinding_error + unit" where
  "ValidateDisclosureBlindingSeparationV1 i =
     (let fail = (\<lambda>code field. newDisclosureBlindingErrorV1 code (si_index i) field) in
      bindE (guardE (\<not> si_policy i > TransferPrivacyPolicyDiscloseAmountToFrom) (fail DBS_INVALID_POLICY ''privacy_policy'')) (\<lambda>_.
      bindE (traverseE (\<lambda>(name, v). mapErr (\<lambda>_. fail DBS_NON_CANONICAL_FIELD name) (validateCanonicalNoteField name v))
        [(''output_randomness'', si_randomness i), (''user_disclosure_blinding'', si_user i), (''full_disclosure_blinding'', si_full i)]) (\<lambda>_.
      if \<not> si_enabled i then
        bindE (traverseE (\<lambda>(name, nonZero). guardE (\<not> nonZero) (fail DBS_DISABLED_SENTINEL name))
          [(''privacy_policy'', si_policy i \<noteq> TransferPrivacyPolicyAllPrivate), (''output_randomness'', si_randomness i \<noteq> Some 0),
           (''user_disclosure_blinding'', si_user i \<noteq> Some 0), (''full_disclosure_blinding'', si_full i \<noteq> Some 0)]) (\<lambda>_. Inr ())
      else
        let userEnabled = (si_policy i \<noteq> TransferPrivacyPolicyAllPrivate) in
        bindE (guardE (\<not> (\<not> userEnabled \<and> si_user i \<noteq> Some 0)) (fail DBS_ALL_PRIVATE_USER_SENTINEL ''user_disclosure_blinding'')) (\<lambda>_.
        bindE (guardE (\<not> (userEnabled \<and> si_user i = Some 0)) (fail DBS_USER_BLINDING_REQUIRED ''user_disclosure_blinding'')) (\<lambda>_.
        bindE (guardE (si_full i \<noteq> Some 0) (fail DBS_FULL_BLINDING_REQUIRED ''full_disclosure_blinding'')) (\<lambda>_.
        bindE (guardE (\<not> (userEnabled \<and> si_user i = si_randomness i)) (fail DBS_USER_RANDOMNESS_REUSE ''user_disclosure_blinding'')) (\<lambda>_.
        bindE (guardE (si_full i \<noteq> si_randomness i) (fail DBS_FULL_RANDOMNESS_REUSE ''full_disclosure_blinding'')) (\<lambda>_.
        guardE (si_full i \<noteq> si_user i) (fail DBS_USER_FULL_BLINDING_REUSE ''full_disclosure_blinding'')))))))))"

end
