(* ===== verification/Batch_Contract.thy ===== *)
theory Batch_Contract
  imports Disclosure Sample_Config
begin

text \<open>
  The batch contract (\<^verbatim>\<open>x/privacy/types/batch_contract.go\<close>): vector commitments of exact capacity, user disclosure vectors, counts, intents and
  effect identifiers, with the digest helpers of \<^verbatim>\<open>x/privacy/types/intent.go\<close>. The lemmas show that a vector root binds the count and every value.
\<close>

definition BatchJoinSplitV1MaxInputs :: nat where "BatchJoinSplitV1MaxInputs = 16"
definition BatchJoinSplitV1MaxOutputs :: nat where "BatchJoinSplitV1MaxOutputs = 32"
definition AuditKeyIDV1MaxBytes :: nat where "AuditKeyIDV1MaxBytes = 64"

definition key_id_alnum :: "char \<Rightarrow> bool" where
  "key_id_alnum c = (of_char CHR ''a'' \<le> (of_char c :: nat) \<and> of_char c \<le> (of_char CHR ''z'' :: nat) \<or>
     of_char CHR ''0'' \<le> (of_char c :: nat) \<and> of_char c \<le> (of_char CHR ''9'' :: nat))"

definition ValidateAuditKeyIDV1 :: "string \<Rightarrow> unit res" where
  "ValidateAuditKeyIDV1 s =
     bindE (guardE (\<not> (length s = 0 \<or> length s > AuditKeyIDV1MaxBytes)) (Errorf ''audit key id must contain 1..64 bytes'')) (\<lambda>_.
     guardE (list_all (\<lambda>(i, ch). key_id_alnum ch \<or> i > 0 \<and> (ch = CHR ''.'' \<or> ch = CHR ''_'' \<or> ch = CHR ''-'')) (enumerate 0 s))
       (Errorf ''audit key id must use canonical lowercase ASCII''))"

section \<open>Vector commitments\<close>

definition BatchVectorNullifierV1 :: string where "BatchVectorNullifierV1 = ''nullifier''"
definition BatchVectorCommitmentV1 :: string where "BatchVectorCommitmentV1 = ''commitment''"
definition BatchVectorUserDisclosureV1 :: string where "BatchVectorUserDisclosureV1 = ''user_disclosure''"
definition BatchVectorFullDisclosureV1 :: string where "BatchVectorFullDisclosureV1 = ''full_disclosure''"

definition Capacity :: "string \<Rightarrow> nat res" where
  "Capacity k =
     (if k = BatchVectorNullifierV1 then Inr BatchJoinSplitV1MaxInputs
      else if k = BatchVectorCommitmentV1 \<or> k = BatchVectorUserDisclosureV1 \<or> k = BatchVectorFullDisclosureV1 then Inr BatchJoinSplitV1MaxOutputs
      else Inl (Errorf ''unsupported batch vector kind''))"

definition domainLabel :: "string \<Rightarrow> string \<Rightarrow> string" where
  "domainLabel k part = ''clairveil.batch-vector.'' @ k @ ''.'' @ part @ ''.v1''"

definition leafPreimage :: "string \<Rightarrow> nat \<Rightarrow> nat \<times> bigint \<Rightarrow> nat list" where
  "leafPreimage k count = (\<lambda>(i, v). [DomainFieldV1 (domainLabel k ''leaf''), i, if i < count then 1 else 0, big_fr v])"

definition vectorLeaf :: "'a crypto_env_scheme \<Rightarrow> string \<Rightarrow> nat \<Rightarrow> nat \<times> bigint \<Rightarrow> nat res" where
  "vectorLeaf env k count = (\<lambda>(i, v).
     bindE (validateIntentFieldElement ''vector value'' v) (\<lambda>_.
     bindE (guardE (\<not> (\<not> i < count \<and> v \<noteq> Some 0)) (Errorf ''vector disabled value must be zero'')) (\<lambda>_.
     bindE (guardE (\<not> (i < count \<and> v = Some 0)) (Errorf ''vector active value must be non-zero'')) (\<lambda>_.
     Inr (MimcHash env (leafPreimage k count (i, v)))))))"

definition nodePreimage :: "string \<Rightarrow> nat \<Rightarrow> nat \<Rightarrow> nat \<Rightarrow> nat list" where
  "nodePreimage k level a b = [DomainFieldV1 (domainLabel k ''node''), level, a, b]"

text \<open>One level of the tree; the capacities are powers of two, so a layer has no odd element.\<close>

fun pairUp :: "'a crypto_env_scheme \<Rightarrow> string \<Rightarrow> nat \<Rightarrow> nat list \<Rightarrow> nat list" where
  "pairUp env k level (a # b # rest) = MimcHash env (nodePreimage k level a b) # pairUp env k level rest"
| "pairUp env k level _ = []"

lemma pairUp_length [simp]: "length (pairUp env k level layer) = length layer div 2"
  by (induction env k level layer rule: pairUp.induct) auto

function vectorTop :: "'a crypto_env_scheme \<Rightarrow> string \<Rightarrow> nat \<Rightarrow> nat list \<Rightarrow> nat list" where
  "vectorTop env k level layer = (if length layer > 1 then vectorTop env k (level + 1) (pairUp env k level layer) else layer)"
  by pat_completeness auto
termination
  by (relation "measure (\<lambda>(env, k, level, layer). length layer)") auto

declare vectorTop.simps [simp del]

definition rootPreimage :: "string \<Rightarrow> nat \<Rightarrow> nat \<Rightarrow> nat \<Rightarrow> nat list" where
  "rootPreimage k capacity count node = [DomainFieldV1 (domainLabel k ''root''), capacity, count, node]"

definition ComputeBatchVectorRootV1 :: "'a crypto_env_scheme \<Rightarrow> string \<Rightarrow> nat \<Rightarrow> bigint list \<Rightarrow> nat res" where
  "ComputeBatchVectorRootV1 env k count vals =
     bindE (Capacity k) (\<lambda>cap.
     let capacity = (if length vals = 1 \<or> length vals = 2 then length vals else cap) in
     bindE (guardE (\<not> count > capacity) (Errorf ''vector count exceeds capacity'')) (\<lambda>_.
     bindE (guardE (count \<noteq> 0) (Errorf ''vector count must be positive'')) (\<lambda>_.
     bindE (guardE (length vals = capacity) (Errorf ''vector must have exactly its capacity'')) (\<lambda>_.
     bindE (traverseE (vectorLeaf env k count) (enumerate 0 vals)) (\<lambda>layer.
     Inr (MimcHash env (rootPreimage k capacity count (vectorTop env k 0 layer ! 0))))))))"

definition userLeaf :: "'a crypto_env_scheme \<Rightarrow> nat \<Rightarrow> nat \<times> u32 \<times> bigint \<Rightarrow> bigint res" where
  "userLeaf env count = (\<lambda>(i, policy, raw).
     bindE (validateIntentFieldElement ''user disclosure raw digest'' raw) (\<lambda>_.
     bindE (guardE (\<not> policy > TransferPrivacyPolicyDiscloseAmountToFrom) (Errorf ''user disclosure policy exceeds 3-bit policy'')) (\<lambda>_.
     if i \<ge> count then
       bindE (guardE (\<not> (policy \<noteq> TransferPrivacyPolicyAllPrivate \<or> raw \<noteq> Some 0))
         (Errorf ''disabled user disclosure output must use zero policy and raw digest'')) (\<lambda>_. Inr (Some 0))
     else
       bindE (guardE (\<not> (policy = TransferPrivacyPolicyAllPrivate \<and> raw \<noteq> Some 0)) (Errorf ''all-private output must use zero raw digest'')) (\<lambda>_.
       bindE (guardE (\<not> (policy \<noteq> TransferPrivacyPolicyAllPrivate \<and> raw = Some 0)) (Errorf ''disclosed output must use a non-zero raw digest'')) (\<lambda>_.
       let v = MimcHash env [DomainFieldV1 ''clairveil.user-disclosure-leaf.v1'', i, 1, unat policy, big_fr raw] in
       bindE (guardE (v \<noteq> 0) (Errorf ''active user disclosure value must be non-zero'')) (\<lambda>_. Inr (num v)))))))"

definition ComputeBatchUserDisclosureVectorRootV1 :: "'a crypto_env_scheme \<Rightarrow> nat \<Rightarrow> u32 list \<Rightarrow> bigint list \<Rightarrow> nat res" where
  "ComputeBatchUserDisclosureVectorRootV1 env count policies rawDigests =
     (let capacity = BatchJoinSplitV1MaxOutputs in
      bindE (guardE (\<not> (count = 0 \<or> count > capacity)) (Errorf ''user disclosure vector count'')) (\<lambda>_.
      bindE (guardE (\<not> (length policies \<noteq> capacity \<or> length rawDigests \<noteq> capacity)) (Errorf ''user disclosure vector size'')) (\<lambda>_.
      bindE (traverseE (userLeaf env count) (enumerate 0 (zip policies rawDigests))) (\<lambda>vals.
      ComputeBatchVectorRootV1 env BatchVectorUserDisclosureV1 count vals))))"

section \<open>Counts, intents and effects\<close>

definition ValidateBatchJoinSplitCountsV1 :: "nat \<Rightarrow> nat \<Rightarrow> unit res" where
  "ValidateBatchJoinSplitCountsV1 inputCount outputCount =
     bindE (guardE (\<not> (inputCount = 0 \<or> inputCount > BatchJoinSplitV1MaxInputs)) (Errorf ''input count must be in 1..16'')) (\<lambda>_.
     guardE (\<not> (outputCount = 0 \<or> outputCount > BatchJoinSplitV1MaxOutputs)) (Errorf ''output count must be in 1..32''))"

definition fitsUnsignedBits :: "bigint \<Rightarrow> nat \<Rightarrow> bool" where
  "fitsUnsignedBits b bits = (case b of None \<Rightarrow> False | Some v \<Rightarrow> 0 \<le> v \<and> v < 2 ^ bits)"

record batch_intent_input =
  bi_chain_hi :: bigint
  bi_chain_lo :: bigint
  bi_root :: bigint
  bi_inputs :: nat
  bi_outputs :: nat
  bi_asset :: bigint
  bi_nullifier_root :: bigint
  bi_commitment_root :: bigint
  bi_user_root :: bigint
  bi_full_root :: bigint
  bi_payload_hi :: bigint
  bi_payload_lo :: bigint
  bi_expires :: int

definition limbs_ok :: "bigint list \<Rightarrow> unit res" where
  "limbs_ok bs = guardE (list_all (\<lambda>b. fitsUnsignedBits b 128) bs) (Errorf ''digest limbs must be unsigned 128-bit integers'')"

definition ComputeBatchTransferIntentV1 :: "'a crypto_env_scheme \<Rightarrow> batch_intent_input \<Rightarrow> nat res" where
  "ComputeBatchTransferIntentV1 env i =
     bindE (ValidateBatchJoinSplitCountsV1 (bi_inputs i) (bi_outputs i)) (\<lambda>_.
     bindE (traverseE (validateIntentFieldElement ''batch intent field'') [bi_chain_hi i, bi_chain_lo i, bi_root i, bi_asset i, bi_nullifier_root i,
       bi_commitment_root i, bi_user_root i, bi_full_root i, bi_payload_hi i, bi_payload_lo i]) (\<lambda>_.
     bindE (limbs_ok [bi_chain_hi i, bi_chain_lo i, bi_payload_hi i, bi_payload_lo i]) (\<lambda>_.
     bindE (guardE (\<not> bi_expires i \<le> 0) (Errorf ''expires_at_unix must be positive'')) (\<lambda>_.
     Inr (MimcBig env [num (DomainFieldV1 ''clairveil.batch-transfer-intent.v1''), bi_chain_hi i, bi_chain_lo i,
       num (DomainFieldV1 ''clairveil.batch-joinsplit-16x32.v1''), bi_root i, num (bi_inputs i), num (bi_outputs i), bi_asset i,
       bi_nullifier_root i, bi_commitment_root i, bi_user_root i, bi_full_root i, bi_payload_hi i, bi_payload_lo i, Some (bi_expires i)])))))"

definition ComputeBatchEffectIDV1 :: "batch_intent_input \<Rightarrow> bytes res" where
  "ComputeBatchEffectIDV1 i =
     bindE (ValidateBatchJoinSplitCountsV1 (bi_inputs i) (bi_outputs i)) (\<lambda>_.
     bindE (traverseE (validateIntentFieldElement ''batch effect field'') [bi_chain_hi i, bi_chain_lo i, bi_root i, bi_nullifier_root i,
       bi_commitment_root i, bi_user_root i, bi_full_root i, bi_payload_hi i, bi_payload_lo i]) (\<lambda>_.
     bindE (limbs_ok [bi_chain_hi i, bi_chain_lo i, bi_payload_hi i, bi_payload_lo i]) (\<lambda>_.
     bindE (guardE (\<not> bi_expires i \<le> 0) (Errorf ''expires_at_unix must be positive'')) (\<lambda>_.
     Inr (sha256 (string_bytes ''clairveil.batch-effect.v1'' @ concat (map putFixedField [bi_chain_hi i, bi_chain_lo i, bi_root i]) @
       be32 (word_of_nat (bi_inputs i)) @ be32 (word_of_nat (bi_outputs i)) @
       concat (map putFixedField [bi_nullifier_root i, bi_commitment_root i, bi_user_root i, bi_full_root i, bi_payload_hi i, bi_payload_lo i]) @
       be64 (word_of_int (bi_expires i))))))))"

section \<open>A vector root binds its vector\<close>

text \<open>Two different inputs that are hashed in the two computations and have the same hash.\<close>

definition vector_layer :: "'a crypto_env_scheme \<Rightarrow> string \<Rightarrow> nat \<Rightarrow> bigint list \<Rightarrow> nat list" where
  "vector_layer env k count vals = map (\<lambda>p. MimcHash env (leafPreimage k count p)) (enumerate 0 vals)"

fun node_preimages :: "string \<Rightarrow> nat \<Rightarrow> nat list \<Rightarrow> nat list list" where
  "node_preimages k level (a # b # rest) = nodePreimage k level a b # node_preimages k level rest"
| "node_preimages k level _ = []"

function tree_preimages :: "'a crypto_env_scheme \<Rightarrow> string \<Rightarrow> nat \<Rightarrow> nat list \<Rightarrow> nat list list" where
  "tree_preimages env k level layer =
     (if length layer > 1 then node_preimages k level layer @ tree_preimages env k (level + 1) (pairUp env k level layer) else [])"
  by pat_completeness auto
termination
  by (relation "measure (\<lambda>(env, k, level, layer). length layer)") auto

declare tree_preimages.simps [simp del]

definition vector_preimages :: "'a crypto_env_scheme \<Rightarrow> string \<Rightarrow> nat \<Rightarrow> bigint list \<Rightarrow> nat list list" where
  "vector_preimages env k count vals =
     (let layer = vector_layer env k count vals in
      rootPreimage k (length vals) count (vectorTop env k 0 layer ! 0) # tree_preimages env k 0 layer @
      map (leafPreimage k count) (enumerate 0 vals))"

definition collide :: "'a crypto_env_scheme \<Rightarrow> nat list list \<Rightarrow> nat list list \<Rightarrow> bool" where
  "collide env ps qs = (\<exists>p \<in> set ps. \<exists>q \<in> set qs. p \<noteq> q \<and> MimcHash env p = MimcHash env q)"

lemma collide_mono: "set ps \<subseteq> set ps' \<Longrightarrow> set qs \<subseteq> set qs' \<Longrightarrow> collide env ps qs \<Longrightarrow> collide env ps' qs'"
  unfolding collide_def by blast

lemma hash_eqD: "MimcHash env p = MimcHash env q \<Longrightarrow> p \<in> set ps \<Longrightarrow> q \<in> set qs \<Longrightarrow> \<not> collide env ps qs \<Longrightarrow> p = q"
  unfolding collide_def by blast

lemma pairUp_bind:
  assumes "length as = length bs" "even (length as)" "pairUp env k l as = pairUp env k l bs"
    "\<not> collide env (node_preimages k l as) (node_preimages k l bs)"
  shows "as = bs"
  using assms
proof (induction env k l as arbitrary: bs rule: pairUp.induct)
  case (1 env k l a b rest)
  then obtain a' b' rest' where bs: "bs = a' # b' # rest'" by (cases bs; cases "tl bs") auto
  have "nodePreimage k l a b = nodePreimage k l a' b'" using 1(4,5) unfolding bs by (auto simp: collide_def)
  moreover have "rest = rest'"
    using 1(1) [of rest'] 1(2-5) collide_mono [of "node_preimages k l rest" "node_preimages k l (a # b # rest)" "node_preimages k l rest'" "node_preimages k l bs" env]
    unfolding bs by auto
  ultimately show ?case unfolding bs by (simp add: nodePreimage_def)
qed auto

lemma vectorTop_bind:
  assumes "length as = length bs" "length as = 2 ^ d" "vectorTop env k l as ! 0 = vectorTop env k l bs ! 0"
    "\<not> collide env (tree_preimages env k l as) (tree_preimages env k l bs)"
  shows "as = bs"
  using assms
proof (induction d arbitrary: l as bs)
  case 0
  then obtain a b where "as = [a]" "bs = [b]" by (cases as; cases bs) auto
  then show ?case using 0(3) by (simp add: vectorTop.simps)
next
  case (Suc d)
  have "1 < (2 :: nat) ^ Suc d" by (rule one_less_power) simp_all
  then have long: "length as > 1" "length bs > 1" using Suc.prems(1,2) by simp_all
  note unf = vectorTop.simps [of env k l as] vectorTop.simps [of env k l bs] tree_preimages.simps [of env k l as] tree_preimages.simps [of env k l bs]
  have "pairUp env k l as = pairUp env k l bs"
  proof (rule Suc.IH)
    show "\<not> collide env (tree_preimages env k (l + 1) (pairUp env k l as)) (tree_preimages env k (l + 1) (pairUp env k l bs))"
      using Suc.prems(4) long unf by (auto elim!: contrapos_nn intro: collide_mono [rotated 2])
  qed (use Suc.prems(1-3) long unf in simp_all)
  moreover have "\<not> collide env (node_preimages k l as) (node_preimages k l bs)"
    using Suc.prems(4) long unf by (auto elim!: contrapos_nn intro: collide_mono [rotated 2])
  ultimately show ?case using pairUp_bind Suc.prems(1,2) by (metis even_power even_numeral zero_less_Suc power_Suc even_mult_iff)
qed

lemma vectorLeaf_ok:
  "vectorLeaf env k count p = Inr h \<Longrightarrow> field_big (snd p) \<and> h = MimcHash env (leafPreimage k count p)"
  by (cases p) (auto simp: vectorLeaf_def)

lemma vector_root_ok:
  assumes "ComputeBatchVectorRootV1 env k count vals = Inr r"
  shows "r = MimcHash env (rootPreimage k (length vals) count (vectorTop env k 0 (vector_layer env k count vals) ! 0))"
    and "list_all field_big vals" and "length vals \<in> {1, 2, 16, 32}" and "count \<le> length vals"
proof -
  obtain layer where layer: "traverseE (vectorLeaf env k count) (enumerate 0 vals) = Inr layer"
    and r: "r = MimcHash env (rootPreimage k (length vals) count (vectorTop env k 0 layer ! 0))"
    and l: "length vals \<in> {1, 2, 16, 32}" "count \<le> length vals"
    using assms by (auto simp: ComputeBatchVectorRootV1_def Let_def Capacity_def BatchJoinSplitV1MaxInputs_def BatchJoinSplitV1MaxOutputs_def split: if_splits)
  have hs: "list_all2 (\<lambda>p h. vectorLeaf env k count p = Inr h) (enumerate 0 vals) layer" using layer by (simp add: traverseE_Inr_iff)
  have "layer = vector_layer env k count vals" unfolding vector_layer_def
    using hs by (intro nth_equalityI) (auto simp: list_all2_conv_all_nth dest!: vectorLeaf_ok spec)
  with r show "r = MimcHash env (rootPreimage k (length vals) count (vectorTop env k 0 (vector_layer env k count vals) ! 0))" by simp
  show "list_all field_big vals"
    using hs by (auto simp: list_all2_conv_all_nth list_all_length nth_enumerate_eq dest!: vectorLeaf_ok spec)
  show "length vals \<in> {1, 2, 16, 32}" "count \<le> length vals" using l by auto
qed

section \<open>Properties\<close>

text \<open>C33. A vector root binds the capacity, the count and every value in its position: two vectors of the same kind with the same root are
  equal, or the two computations hashed two different inputs to the same digest (the collision is exhibited among the inputs of
  the two trees).\<close>

theorem vector_root_binding:
  assumes "ComputeBatchVectorRootV1 env k count vals = Inr r" "ComputeBatchVectorRootV1 env k count' vals' = Inr r"
  shows "count = count' \<and> vals = vals' \<or> collide env (vector_preimages env k count vals) (vector_preimages env k count' vals')"
proof (rule disjCI)
  assume free: "\<not> collide env (vector_preimages env k count vals) (vector_preimages env k count' vals')"
  note ok = vector_root_ok [OF assms(1)] and ok' = vector_root_ok [OF assms(2)]
  let ?l = "vector_layer env k count vals" and ?l' = "vector_layer env k count' vals'"
  have "rootPreimage k (length vals) count (vectorTop env k 0 ?l ! 0) = rootPreimage k (length vals') count' (vectorTop env k 0 ?l' ! 0)"
    by (rule hash_eqD [OF _ _ _ free]) (use ok(1) ok'(1) in \<open>simp_all add: vector_preimages_def Let_def\<close>)
  then have eq: "length vals = length vals'" "count = count'" "vectorTop env k 0 ?l ! 0 = vectorTop env k 0 ?l' ! 0"
    unfolding rootPreimage_def list.inject by blast+
  have "\<not> collide env (tree_preimages env k 0 ?l) (tree_preimages env k 0 ?l')"
    using free by (auto simp: vector_preimages_def Let_def elim!: contrapos_nn intro: collide_mono [rotated 2])
  moreover obtain d where "length vals = 2 ^ d" using ok(3) by (auto intro: that [of 0] that [of 1] that [of 4] that [of 5])
  ultimately have layers: "?l = ?l'" using vectorTop_bind [of ?l ?l' d env k 0] eq by (simp add: vector_layer_def)
  have "vals ! i = vals' ! i" if i: "i < length vals" for i
  proof -
    have "MimcHash env (leafPreimage k count (i, vals ! i)) = MimcHash env (leafPreimage k count' (i, vals' ! i))"
      using arg_cong [OF layers, of "\<lambda>l. l ! i"] i eq(1) by (simp add: vector_layer_def nth_enumerate_eq)
    moreover have "leafPreimage k count (i, vals ! i) \<in> set (map (leafPreimage k count) (enumerate 0 vals))"
      "leafPreimage k count' (i, vals' ! i) \<in> set (map (leafPreimage k count') (enumerate 0 vals'))"
      using i eq(1) by (auto simp: in_set_enumerate_eq)
    ultimately have "leafPreimage k count (i, vals ! i) = leafPreimage k count' (i, vals' ! i)"
      using free by (auto intro!: hash_eqD simp: vector_preimages_def Let_def)
    then have "big_fr (vals ! i) = big_fr (vals' ! i)" by (simp add: leafPreimage_def)
    moreover have "field_big (vals ! i)" "field_big (vals' ! i)" using ok(2) ok'(2) i eq(1) by (simp_all add: list_all_length)
    ultimately show ?thesis by (auto simp: field_big_def)
  qed
  with eq show "count = count' \<and> vals = vals'" by (auto intro: nth_equalityI)
qed

lemma single_vector_root:
  "ComputeBatchVectorRootV1 (sample_env True) BatchVectorNullifierV1 1 [Some 5] = Inr 7"
  "ComputeBatchVectorRootV1 (sample_env True) BatchVectorNullifierV1 1 [Some 6] = Inr 7"
proof -
  have "field_big (Some 5)" "field_big (Some 6)" by (auto simp: field_big_def fr_modulus_def intro: exI [of _ 5] exI [of _ 6])
  moreover have "MimcHash (sample_env True) xs = 7" for xs
    by (simp add: MimcHash_def sample_env_def sample_digest_def be_to_nat_be_of_nat)
  ultimately show "ComputeBatchVectorRootV1 (sample_env True) BatchVectorNullifierV1 1 [Some 5] = Inr 7"
    "ComputeBatchVectorRootV1 (sample_env True) BatchVectorNullifierV1 1 [Some 6] = Inr 7"
    using validateIntentFieldElement_ok [of "''vector value''" "Some 5"] validateIntentFieldElement_ok [of "''vector value''" "Some 6"]
    by (simp_all add: ComputeBatchVectorRootV1_def Let_def Capacity_def BatchVectorNullifierV1_def vectorLeaf_def)
qed

theorem vector_root_binding_witness:
  "collide (sample_env True) (vector_preimages (sample_env True) BatchVectorNullifierV1 1 [Some 5])
     (vector_preimages (sample_env True) BatchVectorNullifierV1 1 [Some 6])"
  using vector_root_binding [OF single_vector_root] by simp

end
