(* ===== verification/Gas_Model.thy ===== *)
theory Gas_Model
  imports Amount128 Audit_Schema
begin

text \<open>
  The deterministic gas of privacy messages (\<^verbatim>\<open>x/privacy/zk/resource_model.go\<close>, \<^verbatim>\<open>x/privacy/zk/audit_resource_model.go\<close>): checked 64-bit products and
  sums over the resources a message uses. The lemmas show that the checked arithmetic is exact: a result is the true sum, and
  an error is reported exactly when a bound is exceeded or the true sum does not fit in 64 bits.
\<close>

definition MaxBatchTransferMessageBytesV1 :: nat where "MaxBatchTransferMessageBytesV1 = 131072"

record gas_model =
  gm_verify_base :: u64
  gm_per_input :: u64
  gm_per_output :: u64
  gm_per_payload_byte :: u64
  gm_per_state_byte :: u64
  gm_per_tree_write :: u64
  gm_per_lookup :: u64

record resource_bounds =
  rb_payload_bytes :: u64
  rb_state_bytes :: u64
  rb_tree_writes :: u64
  rb_lookups :: u64

record resource_usage =
  ru_inputs :: u64
  ru_outputs :: u64
  ru_payload_bytes :: u64
  ru_state_bytes :: u64
  ru_tree_writes :: u64
  ru_lookups :: u64

record gas_breakdown =
  gb_verification :: u64
  gb_inputs :: u64
  gb_outputs :: u64
  gb_payload :: u64
  gb_state :: u64
  gb_tree :: u64
  gb_lookups :: u64
  gb_total :: u64

definition checkedGasProduct :: "string \<Rightarrow> u64 \<Rightarrow> u64 \<Rightarrow> u64 res" where
  "checkedGasProduct name unit count =
     (case bits_Mul64 unit count of (high, low) \<Rightarrow>
        if high \<noteq> 0 then Inl (Errorf (''batch gas component '' @ name @ '' overflows uint64'')) else Inr low)"

fun gasTotalLoop :: "string \<Rightarrow> u64 list \<Rightarrow> u64 \<Rightarrow> u64 res" where
  "gasTotalLoop name [] acc = Inr acc"
| "gasTotalLoop name (c # cs) acc =
     (case bits_Add64 acc c 0 of (t, carry) \<Rightarrow> if carry \<noteq> 0 then Inl (Errorf name) else gasTotalLoop name cs t)"

definition validateBatchGasModelV1 :: "gas_model \<Rightarrow> unit res" where
  "validateBatchGasModelV1 m =
     bindE (traverseE (\<lambda>(name, v). guardE (v \<noteq> 0) (Errorf (''batch gas coefficient '' @ name @ '' must be positive'')))
       [(''verify base'', gm_verify_base m), (''per input'', gm_per_input m), (''per output'', gm_per_output m),
        (''per canonical payload byte'', gm_per_payload_byte m), (''per typed scan state byte'', gm_per_state_byte m),
        (''per tree write'', gm_per_tree_write m), (''per global lookup'', gm_per_lookup m)]) (\<lambda>_. Inr ())"

definition BatchResourceMaxInputsV1 :: u64 where "BatchResourceMaxInputsV1 = 16"
definition BatchResourceMaxOutputsV1 :: u64 where "BatchResourceMaxOutputsV1 = 32"

definition validateBatchResourceUsageV1 :: "resource_bounds \<Rightarrow> resource_usage \<Rightarrow> unit res" where
  "validateBatchResourceUsageV1 b u =
     bindE (guardE (\<not> (ru_inputs u = 0 \<or> ru_inputs u > BatchResourceMaxInputsV1)) (Errorf ''batch input count'')) (\<lambda>_.
     bindE (guardE (\<not> (ru_outputs u = 0 \<or> ru_outputs u > BatchResourceMaxOutputsV1)) (Errorf ''batch output count'')) (\<lambda>_.
     bindE (guardE (ru_payload_bytes u \<noteq> 0) (Errorf ''batch canonical payload bytes must be positive'')) (\<lambda>_.
     bindE (guardE (ru_state_bytes u \<noteq> 0) (Errorf ''batch typed scan state bytes must be positive'')) (\<lambda>_.
     bindE (guardE (\<not> ru_tree_writes u < ru_outputs u) (Errorf ''batch tree node writes cannot be smaller than output count'')) (\<lambda>_.
     bindE (case bits_Add64 (ru_inputs u) (ru_outputs u) 0 of (minimum, carry) \<Rightarrow>
       guardE (\<not> (carry \<noteq> 0 \<or> ru_lookups u < minimum)) (Errorf ''batch global lookups cannot be smaller than input plus output count'')) (\<lambda>_.
     bindE (traverseE (\<lambda>(name, v, mx).
         bindE (guardE (mx \<noteq> 0) (Errorf (''batch resource bound '' @ name @ '' must be positive''))) (\<lambda>_.
         guardE (\<not> v > mx) (Errorf (''batch '' @ name @ '' exceeds bound''))))
       [(''canonical payload bytes'', ru_payload_bytes u, rb_payload_bytes b), (''typed scan state bytes'', ru_state_bytes u, rb_state_bytes b),
        (''tree node writes'', ru_tree_writes u, rb_tree_writes b), (''global lookups'', ru_lookups u, rb_lookups b)]) (\<lambda>_. Inr ())))))))"

definition computeGasComponentsV1 :: "gas_model \<Rightarrow> resource_usage \<Rightarrow> gas_breakdown res" where
  "computeGasComponentsV1 m u =
     bindE (checkedGasProduct ''inputs'' (gm_per_input m) (ru_inputs u)) (\<lambda>inputs.
     bindE (checkedGasProduct ''outputs'' (gm_per_output m) (ru_outputs u)) (\<lambda>outputs.
     bindE (checkedGasProduct ''canonical payload bytes'' (gm_per_payload_byte m) (ru_payload_bytes u)) (\<lambda>payload.
     bindE (checkedGasProduct ''typed scan state bytes'' (gm_per_state_byte m) (ru_state_bytes u)) (\<lambda>state.
     bindE (checkedGasProduct ''tree writes'' (gm_per_tree_write m) (ru_tree_writes u)) (\<lambda>tree.
     bindE (checkedGasProduct ''global lookups'' (gm_per_lookup m) (ru_lookups u)) (\<lambda>lookups.
     bindE (gasTotalLoop ''batch gas total overflows uint64'' [gm_verify_base m, inputs, outputs, payload, state, tree, lookups] 0) (\<lambda>total.
     Inr \<lparr>gb_verification = gm_verify_base m, gb_inputs = inputs, gb_outputs = outputs, gb_payload = payload, gb_state = state,
          gb_tree = tree, gb_lookups = lookups, gb_total = total\<rparr>)))))))"

definition ComputeBatchGasV1 :: "gas_model \<Rightarrow> resource_bounds \<Rightarrow> resource_usage \<Rightarrow> gas_breakdown res" where
  "ComputeBatchGasV1 m b u =
     bindE (validateBatchGasModelV1 m) (\<lambda>_.
     bindE (validateBatchResourceUsageV1 b u) (\<lambda>_. computeGasComponentsV1 m u))"

section \<open>Audit messages\<close>

record audit_gas_model =
  ag_base :: gas_model
  ag_per_point :: u64
  ag_per_permutation :: u64

definition DefaultAuditGasModelV1 :: audit_gas_model where
  "DefaultAuditGasModelV1 =
     \<lparr>ag_base = \<lparr>gm_verify_base = 1000000, gm_per_input = 25000, gm_per_output = 50000, gm_per_payload_byte = 4, gm_per_state_byte = 8,
        gm_per_tree_write = 5000, gm_per_lookup = 10000\<rparr>,
      ag_per_point = 200000, ag_per_permutation = 25000\<rparr>"

record audit_usage =
  au_kind :: kind
  au_inputs :: u64
  au_outputs :: u64
  au_aux_bytes :: u64
  au_state_bytes :: u64

record audit_bounds =
  ab_canonical_bytes :: u64
  ab_state_bytes :: u64

record audit_gas_breakdown =
  agb_base :: gas_breakdown
  agb_points :: u64
  agb_roots :: u64

definition ComputeAuditGasV1 :: "audit_gas_model \<Rightarrow> audit_bounds \<Rightarrow> audit_usage \<Rightarrow> audit_gas_breakdown res" where
  "ComputeAuditGasV1 m b u =
     bindE (validateBatchGasModelV1 (ag_base m)) (\<lambda>_.
     bindE (guardE (\<not> (ag_per_point m = 0 \<or> ag_per_permutation m = 0)) (Errorf ''audit gas coefficients must be positive'')) (\<lambda>_.
     bindE (guardE (\<not> (au_inputs u > 16 \<or> au_outputs u > 32)) (Errorf ''audit capacity exceeded'')) (\<lambda>_.
     bindE (ValidateActiveCounts (au_kind u) (ucast (au_inputs u)) (ucast (au_outputs u))) (\<lambda>_.
     bindE (EnvelopeSize (au_kind u)) (\<lambda>envelopeSize.
     bindE (PlaintextFieldCount (au_kind u)) (\<lambda>n.
     case bits_Add64 (au_aux_bytes u) (word_of_nat envelopeSize) 0 of (canonical, carry) \<Rightarrow>
     bindE (guardE (carry = 0) (Errorf ''audit canonical bytes overflow'')) (\<lambda>_.
     bindE (guardE (\<not> au_aux_bytes u < 4) (Errorf ''audit Aux prefix is required'')) (\<lambda>_.
     bindE (guardE (\<not> (ab_canonical_bytes b = 0 \<or> ab_canonical_bytes b > word_of_nat MaxBatchTransferMessageBytesV1 \<or> canonical > ab_canonical_bytes b))
       (Errorf ''audit canonical bytes exceed bounded message capacity'')) (\<lambda>_.
     bindE (guardE (\<not> (ab_state_bytes b = 0 \<or> au_state_bytes u > ab_state_bytes b)) (Errorf ''audit projected scan state bytes exceed bounds'')) (\<lambda>_.
     bindE (computeGasComponentsV1 (ag_base m) \<lparr>ru_inputs = au_inputs u, ru_outputs = au_outputs u, ru_payload_bytes = canonical,
         ru_state_bytes = au_state_bytes u, ru_tree_writes = au_outputs u * 33, ru_lookups = au_inputs u + au_outputs u\<rparr>) (\<lambda>base.
     bindE (checkedGasProduct ''audit point validation'' (ag_per_point m) 2) (\<lambda>points.
     bindE (checkedGasProduct ''audit root permutations'' (ag_per_permutation m) (word_of_nat (25 + n + 4))) (\<lambda>root.
     bindE (gasTotalLoop ''audit gas total overflows uint64'' [points, root] (gb_total base)) (\<lambda>total.
     Inr \<lparr>agb_base = base\<lparr>gb_total := total\<rparr>, agb_points = points, agb_roots = root\<rparr>))))))))))))))"

section \<open>The checked arithmetic is exact\<close>

lemma u64_word_zero: "n < 2 ^ 64 \<Longrightarrow> (word_of_nat n :: u64) = 0 \<longleftrightarrow> n = 0"
  using u64_of_nat_inj [of n 0] by simp

lemma u64_unat_eq: "n < 2 ^ 64 \<Longrightarrow> (word_of_nat n :: u64) = r \<longleftrightarrow> unat r = n"
  using u64_of_nat_unat [of n] by (auto simp: word_unat_eq_iff)

lemma checkedGasProduct_iff:
  "checkedGasProduct name a b = Inr r \<longleftrightarrow> unat r = unat a * unat b"
proof -
  have "unat a * unat b < 2 ^ 64 * 2 ^ 64" by (intro mult_strict_mono) (use unat_u64_less in auto)
  then have d: "unat a * unat b div 2 ^ 64 < 2 ^ 64" by (simp add: less_mult_imp_div_less)
  have r: "unat r < 2 ^ 64" using unat_u64_less [of r] by simp
  show ?thesis
  proof (cases "unat a * unat b < 2 ^ 64")
    case True
    then show ?thesis unfolding checkedGasProduct_def bits_Mul64_def Let_def using u64_unat_eq [OF True, of r] by simp
  next
    case False
    then have "unat a * unat b div 2 ^ 64 \<noteq> 0" by (simp add: div_eq_0_iff)
    then show ?thesis unfolding checkedGasProduct_def bits_Mul64_def Let_def using u64_word_zero [OF d] r False by simp
  qed
qed

lemma checkedGasProduct_fails: "(\<exists>e. checkedGasProduct name a b = Inl e) \<longleftrightarrow> 2 ^ 64 \<le> unat a * unat b"
proof (cases "checkedGasProduct name a b")
  case (Inl e)
  then have none: "unat r \<noteq> unat a * unat b" for r :: u64 using checkedGasProduct_iff [of name a b r] by auto
  have "2 ^ 64 \<le> unat a * unat b"
  proof (rule ccontr)
    assume "\<not> 2 ^ 64 \<le> unat a * unat b"
    then have "unat (word_of_nat (unat a * unat b) :: u64) = unat a * unat b" by (intro u64_of_nat_unat) simp
    with none show False by blast
  qed
  then show ?thesis using Inl by simp
next
  case (Inr r)
  then show ?thesis using checkedGasProduct_iff [of name a b r] unat_u64_less [of r] by auto
qed

lemma gasTotalLoop_iff: "gasTotalLoop name cs t = Inr r \<longleftrightarrow> unat r = unat t + sum_list (map unat cs)"
proof (induction cs arbitrary: t)
  case Nil
  then show ?case by (auto simp: word_unat_eq_iff)
next
  case (Cons c cs)
  have r: "unat r < 2 ^ 64" using unat_u64_less [of r] by simp
  show ?case
  proof (cases "unat t + unat c < 2 ^ 64")
    case True
    then show ?thesis using Cons.IH [of "word_of_nat (unat t + unat c)"] u64_of_nat_unat [OF True]
      by (simp add: bits_Add64_def Let_def add.assoc del: of_nat_add of_nat_unat)
  next
    case False
    have "unat t + unat c < 2 ^ 64 * 2" using unat_u64_less [of t] unat_u64_less [of c] by simp
    then have "(word_of_nat ((unat t + unat c) div 2 ^ 64) :: u64) \<noteq> 0"
      using u64_word_zero [of "(unat t + unat c) div 2 ^ 64"] False by (simp add: div_eq_0_iff less_mult_imp_div_less)
    then show ?thesis using False r by (simp add: bits_Add64_def Let_def)
  qed
qed

lemma product_run: "unat a * unat b < 2 ^ 64 \<Longrightarrow> checkedGasProduct name a b = Inr (word_of_nat (unat a * unat b))"
  unfolding checkedGasProduct_iff by (rule u64_of_nat_unat)

lemma total_run: "unat t + sum_list (map unat cs) < 2 ^ 64 \<Longrightarrow> gasTotalLoop name cs t = Inr (word_of_nat (unat t + sum_list (map unat cs)))"
  unfolding gasTotalLoop_iff by (rule u64_of_nat_unat)

text \<open>The exact cost.\<close>

definition gas_cost :: "gas_model \<Rightarrow> resource_usage \<Rightarrow> nat" where
  "gas_cost m u = unat (gm_verify_base m) + unat (gm_per_input m) * unat (ru_inputs u) + unat (gm_per_output m) * unat (ru_outputs u) +
     unat (gm_per_payload_byte m) * unat (ru_payload_bytes u) + unat (gm_per_state_byte m) * unat (ru_state_bytes u) +
     unat (gm_per_tree_write m) * unat (ru_tree_writes u) + unat (gm_per_lookup m) * unat (ru_lookups u)"

lemma components_exact: "computeGasComponentsV1 m u = Inr b \<Longrightarrow> unat (gb_total b) = gas_cost m u"
  by (auto simp: computeGasComponentsV1_def checkedGasProduct_iff gasTotalLoop_iff gas_cost_def simp del: gasTotalLoop.simps)

lemma components_run: "gas_cost m u < 2 ^ 64 \<Longrightarrow> \<exists>b. computeGasComponentsV1 m u = Inr b"
proof -
  assume c: "gas_cost m u < 2 ^ 64"
  then have "unat (gm_per_input m) * unat (ru_inputs u) < 2 ^ 64" "unat (gm_per_output m) * unat (ru_outputs u) < 2 ^ 64"
    "unat (gm_per_payload_byte m) * unat (ru_payload_bytes u) < 2 ^ 64" "unat (gm_per_state_byte m) * unat (ru_state_bytes u) < 2 ^ 64"
    "unat (gm_per_tree_write m) * unat (ru_tree_writes u) < 2 ^ 64" "unat (gm_per_lookup m) * unat (ru_lookups u) < 2 ^ 64"
    unfolding gas_cost_def by linarith+
  note p = this
  have "\<exists>r. gasTotalLoop ''batch gas total overflows uint64'' [gm_verify_base m, word_of_nat (unat (gm_per_input m) * unat (ru_inputs u)),
      word_of_nat (unat (gm_per_output m) * unat (ru_outputs u)), word_of_nat (unat (gm_per_payload_byte m) * unat (ru_payload_bytes u)),
      word_of_nat (unat (gm_per_state_byte m) * unat (ru_state_bytes u)), word_of_nat (unat (gm_per_tree_write m) * unat (ru_tree_writes u)),
      word_of_nat (unat (gm_per_lookup m) * unat (ru_lookups u))] 0 = Inr r"
    using total_run [of 0 "[gm_verify_base m, word_of_nat (unat (gm_per_input m) * unat (ru_inputs u)),
      word_of_nat (unat (gm_per_output m) * unat (ru_outputs u)), word_of_nat (unat (gm_per_payload_byte m) * unat (ru_payload_bytes u)),
      word_of_nat (unat (gm_per_state_byte m) * unat (ru_state_bytes u)), word_of_nat (unat (gm_per_tree_write m) * unat (ru_tree_writes u)),
      word_of_nat (unat (gm_per_lookup m) * unat (ru_lookups u))]"] c p
    by (simp add: gas_cost_def u64_of_nat_unat add.assoc del: of_nat_mult of_nat_unat)
  then show ?thesis using p
    by (auto simp: computeGasComponentsV1_def product_run simp del: gasTotalLoop.simps of_nat_mult of_nat_unat)
qed

lemma components_iff: "(\<exists>b. computeGasComponentsV1 m u = Inr b) \<longleftrightarrow> gas_cost m u < 2 ^ 64"
proof
  assume "\<exists>b. computeGasComponentsV1 m u = Inr b"
  then obtain b where "computeGasComponentsV1 m u = Inr b" ..
  then show "gas_cost m u < 2 ^ 64" using components_exact [of m u b] unat_u64_less [of "gb_total b"] by simp
qed (rule components_run)

section \<open>Properties\<close>

text \<open>The bounds the keeper passes for an audit message, when a usage is admissible, and its exact cost.\<close>

definition keeper_bounds :: audit_bounds where
  "keeper_bounds = \<lparr>ab_canonical_bytes = 131072, ab_state_bytes = 1048576\<rparr>"

definition usage_ok :: "audit_usage \<Rightarrow> bool" where
  "usage_ok u = (au_inputs u \<le> 16 \<and> au_outputs u \<le> 32 \<and> 4 \<le> au_aux_bytes u \<and> unat (au_state_bytes u) \<le> 1048576 \<and>
     ValidateActiveCounts (au_kind u) (ucast (au_inputs u)) (ucast (au_outputs u)) = Inr () \<and>
     (\<exists>e. EnvelopeSize (au_kind u) = Inr e \<and> unat (au_aux_bytes u) + e \<le> 131072))"

definition audit_cost :: "audit_usage \<Rightarrow> nat \<Rightarrow> nat \<Rightarrow> nat" where
  "audit_cost u envelope nfields = 1000000 + 25000 * unat (au_inputs u) + 50000 * unat (au_outputs u) + 4 * (unat (au_aux_bytes u) + envelope) +
     8 * unat (au_state_bytes u) + 5000 * (33 * unat (au_outputs u)) + 10000 * (unat (au_inputs u) + unat (au_outputs u)) +
     2 * 200000 + 25000 * (29 + nfields)"

lemma shape_bounds: "shape k = Inr s \<Longrightarrow> envelopeBytes s \<le> 5808 \<and> plainFields s \<le> 177"
  by (auto simp: shape_def split: if_splits)

lemma usage_gas_cost:
  assumes "usage_ok u" "EnvelopeSize (au_kind u) = Inr e"
  shows "gas_cost (ag_base DefaultAuditGasModelV1) \<lparr>ru_inputs = au_inputs u, ru_outputs = au_outputs u,
      ru_payload_bytes = word_of_nat (unat (au_aux_bytes u) + e), ru_state_bytes = au_state_bytes u,
      ru_tree_writes = au_outputs u * 33, ru_lookups = au_inputs u + au_outputs u\<rparr> + 2 * 200000 + 25000 * (29 + n) = audit_cost u e n"
proof -
  have le: "unat (au_inputs u) \<le> 16" "unat (au_outputs u) \<le> 32" using assms(1) by (simp_all add: usage_ok_def word_le_nat_alt)
  have "unat (au_aux_bytes u) + e \<le> 131072" using assms by (auto simp: usage_ok_def)
  then have "unat (word_of_nat (unat (au_aux_bytes u) + e) :: u64) = unat (au_aux_bytes u) + e" by (intro u64_of_nat_unat) simp
  moreover have "unat (au_outputs u * 33) = 33 * unat (au_outputs u)"
    using le(2) by (subst unat_mult_lem [THEN iffD1]) simp_all
  moreover have "unat (au_inputs u + au_outputs u) = unat (au_inputs u) + unat (au_outputs u)"
    using le by (subst unat_add_lem [THEN iffD1]) simp_all
  ultimately show ?thesis by (simp add: gas_cost_def audit_cost_def DefaultAuditGasModelV1_def del: of_nat_add of_nat_unat)
qed

lemma canonical_sum:
  assumes "unat x + e < 2 ^ 64" "e < 2 ^ 64"
  shows "bits_Add64 x (word_of_nat e) 0 = (word_of_nat (unat x + e), 0)"
  using assms u64_of_nat_unat [OF assms(2)] by (simp add: bits_Add64_def Let_def)

lemma default_model [simp]:
  "validateBatchGasModelV1 (ag_base DefaultAuditGasModelV1) = Inr ()" "ag_per_point DefaultAuditGasModelV1 = 200000"
  "ag_per_permutation DefaultAuditGasModelV1 = 25000"
  by (simp_all add: DefaultAuditGasModelV1_def validateBatchGasModelV1_def)

text \<open>An admissible usage is charged its exact cost.\<close>

lemma audit_gas_run:
  assumes "usage_ok u" "shape (au_kind u) = Inr sh"
  shows "\<exists>g. ComputeAuditGasV1 DefaultAuditGasModelV1 keeper_bounds u = Inr g \<and>
     unat (gb_total (agb_base g)) = audit_cost u (envelopeBytes sh) (plainFields sh)"
proof -
  let ?e = "envelopeBytes sh" and ?n = "plainFields sh"
  have es: "EnvelopeSize (au_kind u) = Inr ?e" "PlaintextFieldCount (au_kind u) = Inr ?n"
    using assms(2) by (simp_all add: EnvelopeSize_def PlaintextFieldCount_def)
  have aux: "unat (au_aux_bytes u) + ?e \<le> 131072" and state: "unat (au_state_bytes u) \<le> 1048576"
    and counts: "unat (au_inputs u) \<le> 16" "unat (au_outputs u) \<le> 32" using assms(1) es by (auto simp: usage_ok_def word_le_nat_alt)
  have canon: "bits_Add64 (au_aux_bytes u) (word_of_nat ?e) 0 = (word_of_nat (unat (au_aux_bytes u) + ?e), 0)"
    using aux by (intro canonical_sum) simp_all
  have cle: "word_of_nat (unat (au_aux_bytes u) + ?e) \<le> (131072 :: u64)"
    using aux u64_of_nat_unat [of "unat (au_aux_bytes u) + ?e"] by (simp add: word_le_nat_alt del: of_nat_add of_nat_unat)
  define ru where "ru = \<lparr>ru_inputs = au_inputs u, ru_outputs = au_outputs u, ru_payload_bytes = word_of_nat (unat (au_aux_bytes u) + ?e),
    ru_state_bytes = au_state_bytes u, ru_tree_writes = au_outputs u * 33, ru_lookups = au_inputs u + au_outputs u\<rparr>"
  have cost: "gas_cost (ag_base DefaultAuditGasModelV1) ru + 2 * 200000 + 25000 * (29 + ?n) = audit_cost u ?e ?n"
    unfolding ru_def by (rule usage_gas_cost [OF assms(1) es(1)])
  have small: "audit_cost u ?e ?n < 2 ^ 64" using aux state counts shape_bounds [OF assms(2)] by (simp add: audit_cost_def)
  then obtain base where base: "computeGasComponentsV1 (ag_base DefaultAuditGasModelV1) ru = Inr base"
    using components_run [of "ag_base DefaultAuditGasModelV1" ru] cost by auto
  have points: "checkedGasProduct ''audit point validation'' 200000 2 = Inr 400000" by (simp add: checkedGasProduct_iff)
  have nle: "unat (word_of_nat (25 + ?n + 4) :: u64) = 29 + ?n" using shape_bounds [OF assms(2)] u64_of_nat_unat [of "25 + ?n + 4"] by simp
  have root: "checkedGasProduct ''audit root permutations'' 25000 (word_of_nat (25 + ?n + 4)) = Inr (word_of_nat (25000 * (29 + ?n)))"
    using product_run [of 25000 "word_of_nat (25 + ?n + 4)" "''audit root permutations''"] nle shape_bounds [OF assms(2)] by simp
  have rv: "unat (word_of_nat (25000 * (29 + ?n)) :: u64) = 25000 * (29 + ?n)"
    using shape_bounds [OF assms(2)] by (intro u64_of_nat_unat) simp
  have total: "unat (gb_total base) + sum_list (map unat [400000 :: u64, word_of_nat (25000 * (29 + ?n))]) = audit_cost u ?e ?n"
    using components_exact [OF base] cost rv by simp
  note sum = total_run [of "gb_total base" "[400000 :: u64, word_of_nat (25000 * (29 + ?n))]" "''audit gas total overflows uint64''"]
  have run: "gasTotalLoop ''audit gas total overflows uint64'' [400000, word_of_nat (25000 * (29 + ?n))] (gb_total base) = Inr (word_of_nat (audit_cost u ?e ?n))"
    using sum small unfolding total by simp
  have "ComputeAuditGasV1 DefaultAuditGasModelV1 keeper_bounds u
      = Inr \<lparr>agb_base = base\<lparr>gb_total := word_of_nat (audit_cost u ?e ?n)\<rparr>, agb_points = 400000, agb_roots = word_of_nat (25000 * (29 + ?n))\<rparr>"
    using assms(1) es canon cle base [unfolded ru_def] points root run state
    by (simp add: ComputeAuditGasV1_def usage_ok_def keeper_bounds_def MaxBatchTransferMessageBytesV1_def word_le_nat_alt not_less
        del: gasTotalLoop.simps of_nat_add of_nat_mult of_nat_unat)
  then show ?thesis using u64_of_nat_unat [OF small] by simp
qed

lemma audit_gas_usage:
  assumes "ComputeAuditGasV1 DefaultAuditGasModelV1 keeper_bounds u = Inr g"
  shows "usage_ok u \<and> (\<exists>sh. shape (au_kind u) = Inr sh)"
proof -
  obtain e where e: "EnvelopeSize (au_kind u) = Inr e" using assms by (auto simp: ComputeAuditGasV1_def)
  then obtain sh where sh: "shape (au_kind u) = Inr sh" "e = envelopeBytes sh" by (auto simp: EnvelopeSize_def)
  have e64: "e < 2 ^ 64" using shape_bounds [OF sh(1)] sh(2) by simp
  obtain c k where add: "bits_Add64 (au_aux_bytes u) (word_of_nat e) 0 = (c, k)" by fastforce
  have k: "k = 0" and c: "c \<le> 131072" using assms e add
    by (auto simp: ComputeAuditGasV1_def keeper_bounds_def not_less simp del: gasTotalLoop.simps)
  have ck: "c = word_of_nat (unat (au_aux_bytes u) + e)" "k = word_of_nat ((unat (au_aux_bytes u) + e) div 2 ^ 64)"
    using add u64_of_nat_unat [OF e64] by (simp_all add: bits_Add64_def Let_def)
  have "unat (au_aux_bytes u) + e < 2 ^ 64 * 2" using unat_u64_less [of "au_aux_bytes u"] e64 by simp
  then have "unat (au_aux_bytes u) + e < 2 ^ 64"
    using k ck(2) u64_word_zero [of "(unat (au_aux_bytes u) + e) div 2 ^ 64"] by (simp add: div_eq_0_iff less_mult_imp_div_less)
  then have "unat (au_aux_bytes u) + e \<le> 131072" using c ck(1) u64_of_nat_unat [of "unat (au_aux_bytes u) + e"]
    by (simp add: word_le_nat_alt del: of_nat_add of_nat_unat)
  then show ?thesis using assms e sh add
    by (auto simp: ComputeAuditGasV1_def usage_ok_def keeper_bounds_def word_le_nat_alt not_less simp del: gasTotalLoop.simps)
qed

text \<open>C34. Gas is exact. With the consensus coefficients and the bounds the keeper uses, an audit message is charged exactly when its usage
  is admissible (counts of its kind, at least the frame prefix, at most 128 KiB of canonical bytes and 1 MiB of projected state), and
  the charge is the true sum of the costs, with no wrap-around; the 64-bit checks never reject an admissible message. For any
  coefficients, batch gas fails exactly when the model or the usage is invalid or the true sum does not fit in 64 bits.\<close>

theorem gas_exact:
  "(case ComputeAuditGasV1 DefaultAuditGasModelV1 keeper_bounds u of
      Inl _ \<Rightarrow> \<not> usage_ok u
    | Inr g \<Rightarrow> usage_ok u \<and> (case shape (au_kind u) of Inl _ \<Rightarrow> False
        | Inr sh \<Rightarrow> unat (gb_total (agb_base g)) = audit_cost u (envelopeBytes sh) (plainFields sh))) \<and>
   (case ComputeBatchGasV1 m bd ru of
      Inl _ \<Rightarrow> \<not> (validateBatchGasModelV1 m = Inr () \<and> validateBatchResourceUsageV1 bd ru = Inr () \<and> gas_cost m ru < 2 ^ 64)
    | Inr b \<Rightarrow> validateBatchGasModelV1 m = Inr () \<and> validateBatchResourceUsageV1 bd ru = Inr () \<and> unat (gb_total b) = gas_cost m ru)"
proof (intro conjI)
  show "case ComputeBatchGasV1 m bd ru of
      Inl _ \<Rightarrow> \<not> (validateBatchGasModelV1 m = Inr () \<and> validateBatchResourceUsageV1 bd ru = Inr () \<and> gas_cost m ru < 2 ^ 64)
    | Inr b \<Rightarrow> validateBatchGasModelV1 m = Inr () \<and> validateBatchResourceUsageV1 bd ru = Inr () \<and> unat (gb_total b) = gas_cost m ru"
    using components_iff [of m ru] by (auto simp: ComputeBatchGasV1_def components_exact split: sum.splits)
  have "\<exists>sh. shape (au_kind u) = Inr sh" if "usage_ok u" using that by (auto simp: usage_ok_def EnvelopeSize_def)
  then show "case ComputeAuditGasV1 DefaultAuditGasModelV1 keeper_bounds u of
      Inl _ \<Rightarrow> \<not> usage_ok u
    | Inr g \<Rightarrow> usage_ok u \<and> (case shape (au_kind u) of Inl _ \<Rightarrow> False
        | Inr sh \<Rightarrow> unat (gb_total (agb_base g)) = audit_cost u (envelopeBytes sh) (plainFields sh))"
    using audit_gas_usage [of u] audit_gas_run [of u] by (auto split: sum.splits)
qed

end
