(* ===== verification/Ed_Compressed.thy ===== *)
theory Ed_Compressed
  imports Ed_Curve Amount128
begin

text \<open>
  The compressed encoding of points (\<^verbatim>\<open>CompressLegacy\<close> and \<^verbatim>\<open>DecodeLegacyCompressed\<close> of \<^verbatim>\<open>edwardsct/encoding.go\<close>) and the square root it needs
  (\<^verbatim>\<open>frct/sqrt_public.go\<close>). The loop of Tonelli and Shanks keeps a bound \<open>r\<close> that falls in every round, which is its termination proof.
\<close>

unbundle bit_operations_syntax

definition sqrtExponent :: bytes where
  "sqrtExponent = [0x00, 0x00, 0x00, 0x01, 0x83, 0x22, 0x73, 0x97, 0x09, 0x8d, 0x01, 0x4d, 0xc2, 0x82, 0x2d, 0xb4, 0x0c, 0x0a, 0xc2, 0xe9,
     0x41, 0x9f, 0x42, 0x43, 0xcd, 0xcb, 0x84, 0x8a, 0x1f, 0x0f, 0xac, 0x9f]"

definition tonelliG :: nat where
  "tonelliG = be_to_nat [0x18, 0x8c, 0x51, 0xb4, 0xc8, 0x95, 0x31, 0x78, 0xe1, 0xed, 0x0c, 0xc8, 0x72, 0x3d, 0x5c, 0x5f, 0x67, 0xcf, 0x5a,
     0xcd, 0x0e, 0x1a, 0x5d, 0x5d, 0xb8, 0xdd, 0xe8, 0x49, 0x88, 0x59, 0x08, 0x82]"

text \<open>The inner loop counts the squarings that lead from \<open>t\<close> to one, at most \<open>r\<close>.\<close>

function orderLoop :: "nat \<Rightarrow> nat \<Rightarrow> nat \<Rightarrow> nat" where
  "orderLoop t m r = (if t \<noteq> 1 \<and> m < r then orderLoop (fr_square t) (m + 1) r else m)"
  by pat_completeness auto
termination
  by (relation "measure (\<lambda>(t, m, r). r - m)") auto

declare orderLoop.simps [simp del]

lemma orderLoop_le: "m \<le> r \<Longrightarrow> orderLoop t m r \<le> r"
proof (induction t m r rule: orderLoop.induct)
  case (1 t m r)
  then show ?case by (subst orderLoop.simps) simp
qed

function tonelliLoop :: "nat \<Rightarrow> nat \<Rightarrow> nat \<Rightarrow> nat \<Rightarrow> nat option" where
  "tonelliLoop y b g r =
     (if b = 1 then Some y
      else let m = orderLoop b 0 r in
        if m = r then None
        else let t = (fr_square ^^ (r - m - 1)) g; g' = fr_square t
             in tonelliLoop (fr_mul y t) (fr_mul b g') g' m)"
  by pat_completeness auto
termination
  by (relation "measure (\<lambda>(y, b, g, r). r)") (auto simp: le_neq_implies_less orderLoop_le)

declare tonelliLoop.simps [simp del]

definition SqrtPublic :: "nat \<Rightarrow> nat option" where
  "SqrtPublic x =
     (if x = 0 then Some 0
      else let w = fr_pow x sqrtExponent; y = fr_mul x w; b = fr_mul w y
           in if (fr_square ^^ 27) b \<noteq> 1 then None else tonelliLoop y b tonelliG 28)"

definition signBorrow :: "bytes \<Rightarrow> bytes \<Rightarrow> nat \<Rightarrow> u64 \<Rightarrow> u64" where
  "signBorrow bn bx i borrow = snd (bits_Sub64 (un_be64 (drop (i * 8) bn)) (un_be64 (drop (i * 8) bx)) borrow)"

definition legacySignBit :: "nat \<Rightarrow> u64" where
  "legacySignBit x = fold (signBorrow (fr_Bytes (fr_neg x)) (fr_Bytes x)) [3, 2, 1, 0] 0"

definition CompressLegacy :: "ed_point \<Rightarrow> bytes res" where
  "CompressLegacy p =
     (case EdAffine p of
        None \<Rightarrow> Inl (Errorf ''zero Z'')
      | Some (x, y) \<Rightarrow>
          let le = rev (fr_Bytes y)
          in Inr (le[31 := (le ! 31) OR ucast (push_bit 7 (legacySignBit x))]))"

definition DecodeLegacyCompressed :: "bytes \<Rightarrow> ed_point res" where
  "DecodeLegacyCompressed raw =
     bindE (guardE (length raw = 32) (Errorf ''compressed point must be 32 bytes'')) (\<lambda>_.
     let sign = drop_bit 7 (raw ! 31); yb = rev (raw[31 := (raw ! 31) AND 0x7f]) in
     case fr_FromCanonicalBE yb of
       None \<Rightarrow> Inl (Errorf ''noncanonical y'')
     | Some y \<Rightarrow>
         let y2 = fr_square y; numerator = fr_sub 1 y2; denominator = fr_sub (fr_neg (fr_mul curveD y2)) 1 in
         (case fr_Inverse denominator of
            None \<Rightarrow> Inl (Errorf ''singular compressed point'')
          | Some invd \<Rightarrow>
              (case SqrtPublic (fr_mul numerator invd) of
                 None \<Rightarrow> Inl (Errorf ''x is not square'')
               | Some x0 \<Rightarrow>
                   let x = (if legacySignBit x0 \<noteq> ucast sign then fr_neg x0 else x0) in
                   bindE (FromAffine x y) (\<lambda>p.
                   bindE (guardE (\<not> (IsIdentity p \<or> \<not> inPrimeSubgroup p)) ErrInvalidPoint) (\<lambda>_.
                   bindE (mapErr (\<lambda>_. ErrInvalidPoint) (CompressLegacy p)) (\<lambda>encoded.
                   bindE (guardE (encoded = raw) ErrInvalidPoint) (\<lambda>_. Inr p)))))))"

section \<open>The square root\<close>

lemma fr_mul_mod: "fr_mul a b = a * b mod fr_modulus" by (simp add: fr_mul_def)

lemma fr_mul_square: "fr_mul y t * fr_mul y t mod fr_modulus = (y * y mod fr_modulus) * (t * t) mod fr_modulus"
proof -
  have "fr_mul y t * fr_mul y t mod fr_modulus = (y * t) * (y * t) mod fr_modulus" by (simp add: fr_mul_mod mod_simps)
  moreover have "(y * y mod fr_modulus) * (t * t) mod fr_modulus = (y * y) * (t * t) mod fr_modulus" by (simp add: mod_simps)
  ultimately show ?thesis by (simp add: ac_simps)
qed

lemma fr_mul_step: "(x * b mod fr_modulus) * (t * t) mod fr_modulus = x * fr_mul b (fr_square t) mod fr_modulus"
proof -
  have "(x * b mod fr_modulus) * (t * t) mod fr_modulus = (x * b) * (t * t) mod fr_modulus" by (simp add: mod_simps)
  moreover have "x * fr_mul b (fr_square t) mod fr_modulus = x * (b * (t * t)) mod fr_modulus" by (simp add: fr_mul_mod fr_square_def mod_simps)
  ultimately show ?thesis by (simp add: ac_simps)
qed

lemma tonelli_sound:
  assumes "y * y mod fr_modulus = x * b mod fr_modulus" "y < fr_modulus" "tonelliLoop y b g r = Some z"
  shows "z * z mod fr_modulus = x mod fr_modulus \<and> z < fr_modulus"
  using assms
proof (induction y b g r rule: tonelliLoop.induct)
  case (1 y b g r)
  show ?case
  proof (cases "b = 1")
    case True
    then have "z = y" using "1.prems"(3) by (subst (asm) tonelliLoop.simps) simp
    with True show ?thesis using "1.prems"(1,2) by simp
  next
    case False
    let ?m = "orderLoop b 0 r"
    let ?t = "(fr_square ^^ (r - ?m - 1)) g"
    have m: "?m \<noteq> r" and run: "tonelliLoop (fr_mul y ?t) (fr_mul b (fr_square ?t)) (fr_square ?t) ?m = Some z"
      using "1.prems"(3) False by (auto simp: tonelliLoop.simps [of y b g r] Let_def split: if_splits)
    have "fr_mul y ?t * fr_mul y ?t mod fr_modulus = x * fr_mul b (fr_square ?t) mod fr_modulus"
      unfolding fr_mul_square "1.prems"(1) by (rule fr_mul_step)
    then show ?thesis using "1.IH" [OF False refl m refl refl _ _ run] by (simp add: fr_mul_mod)
  qed
qed

lemma sqrt_sound: "SqrtPublic x = Some z \<Longrightarrow> z * z mod fr_modulus = x mod fr_modulus \<and> z < fr_modulus"
proof (cases "x = 0")
  case False
  assume s: "SqrtPublic x = Some z"
  let ?w = "fr_pow x sqrtExponent"
  have run: "tonelliLoop (fr_mul x ?w) (fr_mul ?w (fr_mul x ?w)) tonelliG 28 = Some z"
    using s False by (auto simp: SqrtPublic_def Let_def split: if_splits)
  have "fr_mul x ?w * fr_mul x ?w mod fr_modulus = x * fr_mul ?w (fr_mul x ?w) mod fr_modulus"
  proof -
    have "fr_mul x ?w * fr_mul x ?w mod fr_modulus = (x * ?w) * (x * ?w) mod fr_modulus" by (simp add: fr_mul_mod mod_simps)
    moreover have "x * fr_mul ?w (fr_mul x ?w) mod fr_modulus = x * (?w * (x * ?w)) mod fr_modulus" by (simp add: fr_mul_mod mod_simps)
    ultimately show ?thesis by (simp add: ac_simps)
  qed
  from tonelli_sound [OF this _ run] show ?thesis by (simp add: fr_mul_mod)
qed (simp add: SqrtPublic_def)

section \<open>Properties\<close>

text \<open>The square root always returns, and what it returns is a root: a number below the modulus whose square is the argument. A string that
  decodes as a compressed point is the compression of the point, so a point has one accepted encoding, and the point is on the
  curve, not the identity and in the prime subgroup.\<close>

lemma compressed_points:
  "(case SqrtPublic x of None \<Rightarrow> True | Some z \<Rightarrow> z < fr_modulus \<and> fr_square z = x mod fr_modulus) \<and>
   (case DecodeLegacyCompressed raw of
      Inl _ \<Rightarrow> True
    | Inr p \<Rightarrow> CompressLegacy p = Inr raw \<and> IsOnCurve (px p) (py p) \<and> \<not> IsIdentity p \<and> inPrimeSubgroup p)"
  using sqrt_sound [of x]
  by (auto simp: fr_square_def fr_mul_mod DecodeLegacyCompressed_def Let_def FromAffine_def split: option.splits sum.splits if_splits)

end
