(* ===== verification/Audit_Aux.thy ===== *)
theory Audit_Aux
  imports Audit_Schema Ed_Compressed
begin

text \<open>
  The auxiliary frame of an audit message (\<^verbatim>\<open>x/privacy/crypto/auditfield/audit_aux.go\<close>): the canonical encoding of what wallets read of the outputs, whose
  hash is a public input of the proof. The lemmas show that the encoding is injective, so the hash binds kind and outputs.
\<close>

definition AuditPlainSchema :: u16 where "AuditPlainSchema = 1"
definition depositRecoveryCiphertextSize :: nat where "depositRecoveryCiphertextSize = 406"
definition noteRecoveryCiphertextSize :: nat where "noteRecoveryCiphertextSize = 438"
definition publicDisclosurePayloadSize :: nat where "publicDisclosurePayloadSize = 400"
definition encryptedDisclosurePayloadSize :: nat where "encryptedDisclosurePayloadSize = 480"
definition viewTagSize :: nat where "viewTagSize = 2"

record aux_output =
  ax_recovery :: bytes
  ax_view_tag :: bytes
  ax_policy :: u32
  ax_mode :: u8
  ax_user_digest :: bytes
  ax_user_target :: bytes
  ax_user_payload :: bytes
  ax_full_digest :: bytes
  ax_self_view :: bytes

definition validateAuxOutputCount :: "kind \<Rightarrow> aux_output list \<Rightarrow> unit res" where
  "validateAuxOutputCount k outputs =
     (if k = KindDeposit then guardE (length outputs = 1) (Errorf ''deposit Aux requires exactly one output'')
      else if k = KindWithdraw then guardE (length outputs = 0) (Errorf ''withdraw Aux requires no outputs'')
      else if k = KindTransfer2x2 then guardE (length outputs = 2) (Errorf ''transfer Aux requires exactly two outputs'')
      else if k = KindBatch16x32 then guardE (\<not> (length outputs = 0 \<or> length outputs > 32)) (Errorf ''batch Aux requires 1..32 outputs'')
      else Inl ErrInvalidKind)"

definition validateAuxOutput :: "kind \<Rightarrow> nat \<Rightarrow> aux_output \<Rightarrow> unit res" where
  "validateAuxOutput k index out =
     bindE (validateField32 (ax_user_digest out)) (\<lambda>_.
     bindE (validateField32 (ax_full_digest out)) (\<lambda>_.
     bindE (guardE (length (ax_recovery out) = (if k = KindDeposit then depositRecoveryCiphertextSize else noteRecoveryCiphertextSize))
       (Errorf ''Aux output recovery ciphertext size'')) (\<lambda>_.
     bindE (if k = KindDeposit then guardE (length (ax_view_tag out) = 0) (Errorf ''deposit Aux output view tag must be empty'')
            else guardE (length (ax_view_tag out) = viewTagSize) (Errorf ''Aux output view tag size'')) (\<lambda>_.
     bindE (guardE (\<not> (length (ax_self_view out) \<noteq> 0 \<and> length (ax_self_view out) \<noteq> encryptedDisclosurePayloadSize))
       (Errorf ''Aux output self-view payload size'')) (\<lambda>_.
     if k = KindDeposit \<or> (k = KindTransfer2x2 \<and> index = 1) then
       guardE (\<not> (ax_policy out \<noteq> 0 \<or> ax_mode out \<noteq> 0 \<or> ax_user_digest out \<noteq> ZeroField32 \<or> length (ax_user_target out) \<noteq> 0 \<or>
           length (ax_user_payload out) \<noteq> 0 \<or> ax_full_digest out \<noteq> ZeroField32 \<or> length (ax_self_view out) \<noteq> 0))
         (Errorf ''Aux output does not permit user or self disclosure fields'')
     else
       bindE (guardE (\<not> ax_policy out > 7) (Errorf ''Aux output has unsupported user policy'')) (\<lambda>_.
       bindE (guardE (\<not> (k = KindBatch16x32 \<and> ax_full_digest out = ZeroField32)) (Errorf ''Aux batch output full disclosure digest must be non-zero'')) (\<lambda>_.
       if ax_mode out = 0 then
         guardE (\<not> (ax_policy out \<noteq> 0 \<or> ax_user_digest out \<noteq> ZeroField32 \<or> length (ax_user_target out) \<noteq> 0 \<or> length (ax_user_payload out) \<noteq> 0))
           (Errorf ''Aux output all-private user disclosure must be empty'')
       else if ax_mode out = 1 then
         bindE (guardE (\<not> (ax_policy out = 0 \<or> length (ax_user_target out) \<noteq> 0 \<or> length (ax_user_payload out) \<noteq> publicDisclosurePayloadSize))
           (Errorf ''Aux output public disclosure fields are inconsistent'')) (\<lambda>_.
         guardE (\<not> (k = KindBatch16x32 \<and> ax_user_digest out = ZeroField32)) (Errorf ''Aux batch output public disclosure digest must be non-zero''))
       else if ax_mode out = 2 then
         bindE (guardE (\<not> (ax_policy out = 0 \<or> length (ax_user_target out) \<noteq> FieldSize \<or> length (ax_user_payload out) \<noteq> encryptedDisclosurePayloadSize))
           (Errorf ''Aux output recipient-encrypted disclosure frame is invalid'')) (\<lambda>_.
         bindE (guardE (\<not> (k = KindBatch16x32 \<and> ax_user_digest out = ZeroField32)) (Errorf ''Aux batch output recipient disclosure digest must be non-zero'')) (\<lambda>_.
         bindE (mapErr (\<lambda>_. ErrInvalidPoint) (DecodeLegacyCompressed (ax_user_target out))) (\<lambda>_. Inr ())))
       else Inl (Errorf ''Aux output has unsupported user disclosure mode'')))))))) "

definition appendLP :: "bytes \<Rightarrow> bytes res" where
  "appendLP v =
     bindE (guardE (\<not> length v > 0xffffffff) (Errorf ''Aux length exceeds uint32'')) (\<lambda>_. Inr (be32 (word_of_nat (length v)) @ v))"

definition encodeAuxOutput :: "kind \<Rightarrow> nat \<times> aux_output \<Rightarrow> bytes res" where
  "encodeAuxOutput k = (\<lambda>(index, out).
     bindE (validateAuxOutput k index out) (\<lambda>_.
     bindE (appendLP (ax_recovery out)) (\<lambda>recovery.
     bindE (appendLP (ax_view_tag out)) (\<lambda>viewTag.
     bindE (appendLP (ax_user_target out)) (\<lambda>target.
     bindE (appendLP (ax_user_payload out)) (\<lambda>payload.
     bindE (appendLP (ax_self_view out)) (\<lambda>selfView.
     Inr (recovery @ viewTag @ be32 (ax_policy out) @ [ax_mode out] @ ax_user_digest out @ target @ payload @ ax_full_digest out @ selfView))))))))"

definition EncodeAuxFrame :: "kind \<Rightarrow> aux_output list \<Rightarrow> bytes res" where
  "EncodeAuxFrame k outputs =
     bindE (validateAuxOutputCount k outputs) (\<lambda>_.
     bindE (traverseE (encodeAuxOutput k) (enumerate 0 outputs)) (\<lambda>parts.
     Inr (be16 AuditPlainSchema @ [k, word_of_nat (length outputs)] @ concat parts)))"

section \<open>The frame binds its outputs\<close>

text \<open>The digests of an output are arrays of 32 bytes.\<close>

definition aux_arrays :: "aux_output \<Rightarrow> bool" where
  "aux_arrays out = (length (ax_user_digest out) = 32 \<and> length (ax_full_digest out) = 32)"

lemma be32_inj [simp]: "be32 v = be32 w \<longleftrightarrow> v = w"
  by (metis un_be32_be32)

lemma appendLP_split:
  assumes "appendLP v = Inr p" "appendLP w = Inr q" "p @ r = q @ s"
  shows "v = w \<and> r = s"
proof -
  have l: "length v \<le> 0xffffffff" "length w \<le> 0xffffffff" and pq: "p = be32 (word_of_nat (length v)) @ v" "q = be32 (word_of_nat (length w)) @ w"
    using assms(1,2) by (auto simp: appendLP_def)
  have "be32 (word_of_nat (length v)) @ (v @ r) = be32 (word_of_nat (length w)) @ (w @ s)" using assms(3) pq by simp
  then have eq: "(word_of_nat (length v) :: u32) = word_of_nat (length w)" "v @ r = w @ s" by (simp_all add: append_eq_append_conv)
  have "unat (word_of_nat n :: u32) = n" if "n \<le> 0xffffffff" for n using that by (simp add: unat_of_nat)
  then have "length v = length w" using eq(1) l by metis
  with eq(2) show ?thesis by (simp add: append_eq_append_conv)
qed

lemma fixed_split: "length a = length b \<Longrightarrow> a @ r = b @ s \<Longrightarrow> a = b \<and> r = s"
  by (simp add: append_eq_append_conv)

lemma encodeAuxOutput_split:
  assumes "encodeAuxOutput k (i, o1) = Inr p" "encodeAuxOutput k (i, o2) = Inr q" "p @ r = q @ s" "aux_arrays o1" "aux_arrays o2"
  shows "o1 = o2 \<and> r = s"
proof -
  obtain a1 b1 c1 d1 e1 where 1: "appendLP (ax_recovery o1) = Inr a1" "appendLP (ax_view_tag o1) = Inr b1" "appendLP (ax_user_target o1) = Inr c1"
      "appendLP (ax_user_payload o1) = Inr d1" "appendLP (ax_self_view o1) = Inr e1"
      "p = a1 @ b1 @ be32 (ax_policy o1) @ [ax_mode o1] @ ax_user_digest o1 @ c1 @ d1 @ ax_full_digest o1 @ e1"
    using assms(1) by (auto simp: encodeAuxOutput_def)
  obtain a2 b2 c2 d2 e2 where 2: "appendLP (ax_recovery o2) = Inr a2" "appendLP (ax_view_tag o2) = Inr b2" "appendLP (ax_user_target o2) = Inr c2"
      "appendLP (ax_user_payload o2) = Inr d2" "appendLP (ax_self_view o2) = Inr e2"
      "q = a2 @ b2 @ be32 (ax_policy o2) @ [ax_mode o2] @ ax_user_digest o2 @ c2 @ d2 @ ax_full_digest o2 @ e2"
    using assms(2) by (auto simp: encodeAuxOutput_def)
  note arr = assms(4,5) [unfolded aux_arrays_def]
  have "a1 @ (b1 @ be32 (ax_policy o1) @ [ax_mode o1] @ ax_user_digest o1 @ c1 @ d1 @ ax_full_digest o1 @ e1 @ r)
      = a2 @ (b2 @ be32 (ax_policy o2) @ [ax_mode o2] @ ax_user_digest o2 @ c2 @ d2 @ ax_full_digest o2 @ e2 @ s)"
    using assms(3) 1(6) 2(6) by simp
  note s1 = appendLP_split [OF 1(1) 2(1) this]
  note s2 = appendLP_split [OF 1(2) 2(2) conjunct2 [OF s1]]
  note s3 = fixed_split [OF _ conjunct2 [OF s2], simplified]
  then have s4: "ax_policy o1 = ax_policy o2 \<and> ax_mode o1 = ax_mode o2 \<and>
      ax_user_digest o1 @ c1 @ d1 @ ax_full_digest o1 @ e1 @ r = ax_user_digest o2 @ c2 @ d2 @ ax_full_digest o2 @ e2 @ s" by simp
  then have s5: "ax_user_digest o1 = ax_user_digest o2 \<and> c1 @ d1 @ ax_full_digest o1 @ e1 @ r = c2 @ d2 @ ax_full_digest o2 @ e2 @ s"
    using fixed_split arr by metis
  note s6 = appendLP_split [OF 1(3) 2(3) conjunct2 [OF s5]]
  note s7 = appendLP_split [OF 1(4) 2(4) conjunct2 [OF s6]]
  then have s8: "ax_full_digest o1 = ax_full_digest o2 \<and> e1 @ r = e2 @ s" using fixed_split arr by metis
  note s9 = appendLP_split [OF 1(5) 2(5) conjunct2 [OF s8]]
  show ?thesis using s1 s2 s4 s5 s6 s7 s8 s9 by (cases o1; cases o2) simp
qed

lemma aux_parts_bind:
  assumes "list_all2 (\<lambda>x y. encodeAuxOutput k x = Inr y) (enumerate n as) ps" "list_all2 (\<lambda>x y. encodeAuxOutput k x = Inr y) (enumerate n bs) qs"
    "concat ps = concat qs" "length as = length bs" "list_all aux_arrays as" "list_all aux_arrays bs"
  shows "as = bs"
  using assms
proof (induction as arbitrary: n bs ps qs)
  case (Cons a as)
  obtain b bs' where bs: "bs = b # bs'" using Cons.prems(4) by (cases bs) auto
  obtain p ps' q qs' where pq: "ps = p # ps'" "qs = q # qs'" "encodeAuxOutput k (n, a) = Inr p" "encodeAuxOutput k (n, b) = Inr q"
      "list_all2 (\<lambda>x y. encodeAuxOutput k x = Inr y) (enumerate (Suc n) as) ps'" "list_all2 (\<lambda>x y. encodeAuxOutput k x = Inr y) (enumerate (Suc n) bs') qs'"
    using Cons.prems(1,2) unfolding bs by (auto simp: list_all2_Cons1)
  have "a = b \<and> concat ps' = concat qs'"
    using encodeAuxOutput_split [OF pq(3,4), of "concat ps'" "concat qs'"] Cons.prems(3,5,6) pq(1,2) unfolding bs by simp
  then show ?case using Cons.IH [OF pq(5,6)] Cons.prems(4-6) unfolding bs by simp
qed auto

lemma EncodeAuxFrame_inj:
  assumes "EncodeAuxFrame k outs = Inr frame" "EncodeAuxFrame k' outs' = Inr frame" "list_all aux_arrays outs" "list_all aux_arrays outs'"
  shows "k = k' \<and> outs = outs'"
proof -
  obtain ps where ps: "list_all2 (\<lambda>x y. encodeAuxOutput k x = Inr y) (enumerate 0 outs) ps"
      "frame = be16 AuditPlainSchema @ [k, word_of_nat (length outs)] @ concat ps" "validateAuxOutputCount k outs = Inr ()"
    using assms(1) by (auto simp: EncodeAuxFrame_def traverseE_Inr_iff)
  obtain qs where qs: "list_all2 (\<lambda>x y. encodeAuxOutput k' x = Inr y) (enumerate 0 outs') qs"
      "frame = be16 AuditPlainSchema @ [k', word_of_nat (length outs')] @ concat qs" "validateAuxOutputCount k' outs' = Inr ()"
    using assms(2) by (auto simp: EncodeAuxFrame_def traverseE_Inr_iff)
  have eq: "k = k'" "(word_of_nat (length outs) :: u8) = word_of_nat (length outs')" "concat ps = concat qs" using ps(2) qs(2) by simp_all
  have "length outs \<le> 32" "length outs' \<le> 32"
    using ps(3) qs(3) by (auto simp: validateAuxOutputCount_def split: if_splits)
  then have "length outs = length outs'" using arg_cong [OF eq(2), of unat] by simp
  then have "outs = outs'"
    using aux_parts_bind [OF ps(1) _ eq(3) _ assms(3,4)] qs(1) unfolding eq(1) by blast
  then show ?thesis using eq(1) by blast
qed

end
