(* ===== verification/Audit_Message.thy ===== *)
theory Audit_Message
  imports Audit_Aux Proto_Size Batch_Contract Gas_Model Sample_Sdk
begin

text \<open>
  Validation of the four audit messages (\<^verbatim>\<open>x/privacy/types/audit_adapter.go\<close>) with the disclosure checks of
  \<^verbatim>\<open>x/privacy/types/msg.go\<close> and \<^verbatim>\<open>x/privacy/types/batch_payload.go\<close> that it calls. The parser and printer of coins are parameters. The mode of
  a user disclosure, an \<^verbatim>\<open>int32\<close> enumeration, is kept as its 32 bits.
\<close>

record 'b msg_env = "'b sdk_env" +
  parse_coin :: "string \<Rightarrow> coin option"
  coin_string :: "coin \<Rightarrow> string"

section \<open>User disclosure\<close>

definition USER_DISCLOSURE_MODE_NONE :: u32 where "USER_DISCLOSURE_MODE_NONE = 0"
definition USER_DISCLOSURE_MODE_PUBLIC :: u32 where "USER_DISCLOSURE_MODE_PUBLIC = 1"
definition USER_DISCLOSURE_MODE_RECIPIENT_ENCRYPTED :: u32 where "USER_DISCLOSURE_MODE_RECIPIENT_ENCRYPTED = 2"

definition decodePublicKey :: "'a crypto_env_scheme \<Rightarrow> bytes \<Rightarrow> (nat \<times> nat) res" where
  "decodePublicKey env bz = mapErr (\<lambda>_. Errorf ''invalid public key bytes'') (DecodeCanonicalPoint env bz)"

definition validateDisclosureTargetPubKey :: "'a crypto_env_scheme \<Rightarrow> string \<Rightarrow> bytes \<Rightarrow> unit res" where
  "validateDisclosureTargetPubKey env name bz =
     bindE (guardE (length bz \<noteq> 0) (SdkErr ErrInvalidRequest (name @ '' is required when disclosure is enabled''))) (\<lambda>_.
     bindE (mapErr (\<lambda>_. SdkErr ErrInvalidRequest (name @ '' is invalid'')) (decodePublicKey env bz)) (\<lambda>_. Inr ()))"

definition validateUserDisclosure :: "'a crypto_env_scheme \<Rightarrow> u32 \<Rightarrow> bytes \<Rightarrow> u32 \<Rightarrow> bytes \<Rightarrow> bytes \<Rightarrow> unit res" where
  "validateUserDisclosure env policy digest mode targetPubKey payload =
     bindE (validateTransferDisclosurePolicy policy) (\<lambda>_.
     if policy = TransferPrivacyPolicyAllPrivate then
       bindE (guardE (\<not> (length digest \<noteq> 0 \<or> length targetPubKey \<noteq> 0 \<or> length payload \<noteq> 0))
         (SdkErr ErrInvalidRequest ''all-private transfers must not include user disclosure digest, target pubkey, or payload'')) (\<lambda>_.
       guardE (mode = USER_DISCLOSURE_MODE_NONE) (SdkErr ErrInvalidRequest ''all-private transfers must use user disclosure mode none''))
     else
       bindE (types_validateFieldElementBytesStrict ''user disclosure digest'' digest) (\<lambda>_.
       bindE (guardE (length payload \<noteq> 0)
         (SdkErr ErrInvalidRequest ''user disclosure payload is required when the transfer is not all-private'')) (\<lambda>_.
       if mode = USER_DISCLOSURE_MODE_PUBLIC then
         bindE (guardE (length targetPubKey = 0) (SdkErr ErrInvalidRequest ''public user disclosure must not include a target pubkey'')) (\<lambda>_.
         bindE (mapErr (\<lambda>_. SdkErr ErrInvalidRequest ''public user disclosure payload is not canonical DisclosurePlaintextV1'')
           (UnmarshalDisclosurePlaintextV1 env payload)) (\<lambda>decoded.
         guardE (\<not> (dp_plane decoded \<noteq> DisclosurePlaneUserV1 \<or> dp_index decoded \<noteq> TransferDisclosureRecipientOutputIndex \<or>
             dp_policy decoded \<noteq> policy))
           (SdkErr ErrInvalidRequest ''public user disclosure plaintext metadata does not match the transfer'')))
       else if mode = USER_DISCLOSURE_MODE_RECIPIENT_ENCRYPTED then
         bindE (validateDisclosureTargetPubKey env ''user disclosure target pubkey'' targetPubKey) (\<lambda>_.
         bindE (mapErr (\<lambda>_. SdkErr ErrInvalidRequest ''user disclosure payload is not a canonical encrypted envelope'')
           (UnwrapEncryptedEnvelopeV1 payload EnvelopeUserDisclosureV1)) (\<lambda>_. Inr ()))
       else if mode = USER_DISCLOSURE_MODE_NONE then
         Inl (SdkErr ErrInvalidRequest ''user disclosure mode none is only valid for all-private transfers'')
       else Inl (SdkErr ErrInvalidRequest ''unsupported user disclosure mode''))))"

record batch_output_wire =
  bo_commitment :: bytes
  bo_ciphertext :: bytes
  bo_view_tag :: bytes
  bo_policy :: u32
  bo_mode :: u32
  bo_user_digest :: bytes
  bo_user_target :: bytes
  bo_user_payload :: bytes
  bo_full_digest :: bytes
  bo_audit_payload :: bytes
  bo_self_view :: bytes

definition dp_from :: "disclosure_plaintext \<Rightarrow> key_bundle" where
  "dp_from p = (dp_sender_spend_x p, dp_sender_spend_y p, dp_sender_view_x p, dp_sender_view_y p)"

definition dp_to :: "disclosure_plaintext \<Rightarrow> key_bundle" where
  "dp_to p = (dp_recipient_spend_x p, dp_recipient_spend_y p, dp_recipient_view_x p, dp_recipient_view_y p)"

text \<open>The input of the batch digest as the callers build it from a decoded plaintext.\<close>

definition batch_user_of :: "u32 \<Rightarrow> disclosure_plaintext \<Rightarrow> batch_user_input" where
  "batch_user_of index p =
     \<lparr>bu_index = index, bu_commitment = dp_commitment p, bu_policy = dp_policy p, bu_bitmap = dp_bitmap p, bu_amount = dp_amount p,
      bu_from = dp_from p, bu_to = dp_to p, bu_asset = dp_asset p, bu_blinding = dp_blinding p\<rparr>"

definition validateBatchUserDisclosureWirePrototypeV1 :: "'a crypto_env_scheme \<Rightarrow> u32 \<Rightarrow> batch_output_wire \<Rightarrow> unit res" where
  "validateBatchUserDisclosureWirePrototypeV1 env index out =
     (if bo_policy out = TransferPrivacyPolicyAllPrivate then
        guardE (\<not> (bo_mode out \<noteq> USER_DISCLOSURE_MODE_NONE \<or> length (bo_user_digest out) \<noteq> 0 \<or> length (bo_user_target out) \<noteq> 0 \<or>
            length (bo_user_payload out) \<noteq> 0))
          (Errorf ''all-private output must use NONE mode and empty user disclosure fields'')
      else
        bindE (validateActiveFieldElementBytesStrict ''user disclosure digest'' (bo_user_digest out)) (\<lambda>_.
        if bo_mode out = USER_DISCLOSURE_MODE_PUBLIC then
          bindE (guardE (length (bo_user_target out) = 0) (Errorf ''public user disclosure target must be empty'')) (\<lambda>_.
          bindE (mapErr (\<lambda>_. Errorf ''public user disclosure payload is invalid'') (UnmarshalDisclosurePlaintextV1 env (bo_user_payload out))) (\<lambda>p.
          bindE (guardE (\<not> (dp_plane p \<noteq> DisclosurePlaneUserV1 \<or> dp_index p \<noteq> index \<or> dp_policy p \<noteq> bo_policy out \<or>
              putFixedField (dp_commitment p) \<noteq> bo_commitment out))
            (Errorf ''public user disclosure metadata does not match output'')) (\<lambda>_.
          bindE (ComputeBatchUserDisclosureDigestV1 env (batch_user_of index p)) (\<lambda>digest.
          guardE (be_of_nat 32 digest = bo_user_digest out) (Errorf ''public user disclosure digest does not match plaintext'')))))
        else if bo_mode out = USER_DISCLOSURE_MODE_RECIPIENT_ENCRYPTED then
          bindE (mapErr (\<lambda>_. Errorf ''user disclosure target pubkey is invalid'') (DecodeCanonicalPoint env (bo_user_target out))) (\<lambda>_.
          bindE (mapErr (\<lambda>_. Errorf ''user disclosure payload is not a canonical envelope'')
            (UnwrapEncryptedEnvelopeV1 (bo_user_payload out) EnvelopeUserDisclosureV1)) (\<lambda>_. Inr ()))
        else if bo_mode out = USER_DISCLOSURE_MODE_NONE then
          Inl (Errorf ''NONE user disclosure mode is only valid for all-private output'')
        else Inl (Errorf ''unsupported user disclosure mode'')))"

section \<open>Outputs\<close>

definition batchWireOf :: "output_effect \<Rightarrow> batch_output_wire" where
  "batchWireOf x =
     \<lparr>bo_commitment = oe_commitment x, bo_ciphertext = [], bo_view_tag = [], bo_policy = oe_policy x, bo_mode = oe_mode x,
      bo_user_digest = oe_user_digest x, bo_user_target = oe_user_target x, bo_user_payload = oe_user_payload x,
      bo_full_digest = [], bo_audit_payload = [], bo_self_view = []\<rparr>"

definition optionalField32 :: "bytes \<Rightarrow> bytes res" where
  "optionalField32 raw = (if length raw > 0 then ParseField32 raw else Inr ZeroField32)"

definition checkDigestSlots :: "kind \<Rightarrow> nat \<Rightarrow> output_effect \<Rightarrow> bytes \<Rightarrow> unit res" where
  "checkDigestSlots k i x full =
     (if k = KindDeposit \<or> (k = KindTransfer2x2 \<and> i = 1)
      then guardE (\<not> (length (oe_user_digest x) \<noteq> 0 \<or> length (oe_full_digest x) \<noteq> 0)) (Errorf ''unused output digests must be omitted'')
      else guardE (full \<noteq> ZeroField32) (Errorf ''self full disclosure digest must be nonzero''))"

definition checkUserDisclosure :: "'a crypto_env_scheme \<Rightarrow> kind \<Rightarrow> nat \<Rightarrow> output_effect \<Rightarrow> unit res" where
  "checkUserDisclosure env k i x =
     bindE (if k = KindBatch16x32 then validateBatchUserDisclosureWirePrototypeV1 env (word_of_nat i) (batchWireOf x) else Inr ()) (\<lambda>_.
     if k = KindTransfer2x2 \<and> i = 0 then
       bindE (validateUserDisclosure env (oe_policy x) (oe_user_digest x) (oe_mode x) (oe_user_target x) (oe_user_payload x)) (\<lambda>_.
       if oe_mode x = 1 then
         bindE (UnmarshalDisclosurePlaintextV1 env (oe_user_payload x)) (\<lambda>p.
         bindE (guardE (dp_commitment p = Some (int (be_to_nat (oe_commitment x)))) (Errorf ''disclosure commitment mismatch'')) (\<lambda>_.
         bindE (mapErr (\<lambda>_. Errorf ''disclosure digest mismatch'')
           (ComputeTransferDisclosureDigestBytes env (dp_policy p) (dp_index p) (oe_commitment x) (dp_amount p) (dp_asset p)
             (dp_from p) (dp_to p) (dp_blinding p))) (\<lambda>digest.
         guardE (digest = oe_user_digest x) (Errorf ''disclosure digest mismatch''))))
       else Inr ())
     else Inr ())"

definition auditOutputToAux :: "'a crypto_env_scheme \<Rightarrow> kind \<Rightarrow> nat \<Rightarrow> bytes list \<Rightarrow> output_effect option \<Rightarrow> aux_output res" where
  "auditOutputToAux env k i seen out =
     (case out of
        None \<Rightarrow> Inl (Errorf ''nil output'')
      | Some x \<Rightarrow>
          bindE (ParseField32 (oe_commitment x)) (\<lambda>c.
          bindE (guardE (\<not> (c = ZeroField32 \<or> c \<in> set seen)) (Errorf ''zero or duplicate commitment'')) (\<lambda>_.
          bindE (guardE (\<not> oe_mode x > 2) (Errorf ''unsupported user disclosure mode'')) (\<lambda>_.
          bindE (UnwrapEncryptedEnvelopeV1 (oe_ciphertext x) (if k = KindDeposit then EnvelopeDepositNoteV1 else EnvelopeTransferNoteV1)) (\<lambda>_.
          bindE (optionalField32 (oe_user_digest x)) (\<lambda>user.
          bindE (optionalField32 (oe_full_digest x)) (\<lambda>full.
          bindE (checkDigestSlots k i x full) (\<lambda>_.
          bindE (checkUserDisclosure env k i x) (\<lambda>_.
          bindE (if length (oe_self_view x) > 0
                 then bindE (UnwrapEncryptedEnvelopeV1 (oe_self_view x) EnvelopeSelfViewDisclosureV1) (\<lambda>_. Inr ()) else Inr ()) (\<lambda>_.
          Inr \<lparr>ax_recovery = oe_ciphertext x, ax_view_tag = oe_view_tag x, ax_policy = oe_policy x, ax_mode = ucast (oe_mode x),
               ax_user_digest = user, ax_user_target = oe_user_target x, ax_user_payload = oe_user_payload x, ax_full_digest = full,
               ax_self_view = oe_self_view x\<rparr>))))))))))"

text \<open>The loop over the outputs; \<open>seen\<close> are the commitments already met.\<close>

fun auditOutputsLoop :: "'a crypto_env_scheme \<Rightarrow> kind \<Rightarrow> nat \<Rightarrow> bytes list \<Rightarrow> output_effect option list \<Rightarrow> aux_output list res" where
  "auditOutputsLoop env k i seen [] = Inr []"
| "auditOutputsLoop env k i seen (x # xs) =
     bindE (auditOutputToAux env k i seen x) (\<lambda>a.
     bindE (auditOutputsLoop env k (Suc i) ((case x of None \<Rightarrow> [] | Some y \<Rightarrow> oe_commitment y) # seen) xs) (\<lambda>as. Inr (a # as)))"

definition AuditOutputsToAux :: "'a crypto_env_scheme \<Rightarrow> kind \<Rightarrow> output_effect option list \<Rightarrow> (aux_output list \<times> bytes) res" where
  "AuditOutputsToAux env k outputs =
     bindE (auditOutputsLoop env k 0 [] outputs) (\<lambda>out.
     bindE (EncodeAuxFrame k out) (\<lambda>encoded. Inr (out, encoded)))"

section \<open>Messages\<close>

text \<open>What the type switch reads of a message; an unset field is empty.\<close>

record msg_parts =
  mp_kind :: kind
  mp_creator :: string
  mp_recipient :: string
  mp_amount :: string
  mp_root :: bytes
  mp_nullifiers :: "bytes list"
  mp_outputs :: "output_effect option list"
  mp_proof :: bytes
  mp_expires :: int
  mp_auth :: "audit_auth option"

definition transferParts :: "kind \<Rightarrow> msg_transfer \<Rightarrow> msg_parts" where
  "transferParts k v =
     \<lparr>mp_kind = k, mp_creator = mt_creator v, mp_recipient = [], mp_amount = [], mp_root = mt_root v, mp_nullifiers = mt_nullifiers v,
      mp_outputs = mt_outputs v, mp_proof = mt_proof v, mp_expires = mt_expires v, mp_auth = mt_audit v\<rparr>"

fun msgParts :: "audit_msg \<Rightarrow> msg_parts res" where
  "msgParts (MsgDeposit None) = Inl (Errorf ''nil deposit'')"
| "msgParts (MsgDeposit (Some v)) =
     Inr \<lparr>mp_kind = KindDeposit, mp_creator = md_creator v, mp_recipient = [], mp_amount = md_amount v, mp_root = [], mp_nullifiers = [],
       mp_outputs = [md_output v], mp_proof = md_proof v, mp_expires = md_expires v, mp_auth = md_audit v\<rparr>"
| "msgParts (MsgWithdraw None) = Inl (Errorf ''nil withdraw'')"
| "msgParts (MsgWithdraw (Some v)) =
     Inr \<lparr>mp_kind = KindWithdraw, mp_creator = mw_creator v, mp_recipient = mw_recipient v, mp_amount = mw_amount v, mp_root = mw_root v,
       mp_nullifiers = [mw_nullifier v], mp_outputs = [], mp_proof = mw_proof v, mp_expires = mw_expires v, mp_auth = mw_audit v\<rparr>"
| "msgParts (MsgTransfer None) = Inl (Errorf ''nil transfer'')"
| "msgParts (MsgTransfer (Some v)) = Inr (transferParts KindTransfer2x2 v)"
| "msgParts (MsgBatchTransfer None) = Inl (Errorf ''nil batch'')"
| "msgParts (MsgBatchTransfer (Some v)) = Inr (transferParts KindBatch16x32 v)"
| "msgParts OtherMsg = Inl (Errorf ''unsupported audit message'')"

text \<open>The coin of a message without principal is the zero coin, here \<open>None\<close>.\<close>

record validated_msg =
  vm_kind :: kind
  vm_creator :: string
  vm_recipient :: string
  vm_coin :: "coin option"
  vm_root :: bytes
  vm_nullifiers :: "bytes list"
  vm_outputs :: "output_effect list"
  vm_proof :: bytes
  vm_aux :: bytes
  vm_envelope :: bytes
  vm_key_id :: bytes
  vm_epoch :: u64
  vm_expiry :: int

definition canonicalAuditAddress :: "('b, 'm) sdk_env_scheme \<Rightarrow> string \<Rightarrow> bytes res" where
  "canonicalAuditAddress env s =
     (case acc_from_bech32 env s of
        None \<Rightarrow> Inl (Errorf ''decoding bech32 failed'')
      | Some a \<Rightarrow> bindE (guardE (\<not> (acc_to_bech32 env a \<noteq> s \<or> length a = 0 \<or> length a > 255)) (Errorf ''noncanonical audit address'')) (\<lambda>_. Inr a))"

definition auditCoin :: "('b, 'm) msg_env_scheme \<Rightarrow> string \<Rightarrow> coin res" where
  "auditCoin env amount =
     (case parse_coin env amount of
        None \<Rightarrow> Inl (Errorf ''invalid coin expression'')
      | Some c \<Rightarrow>
          bindE (guardE (\<not> (\<not> coin_amount c > 0 \<or> coin_string env c \<noteq> amount \<or> \<bar>coin_amount c\<bar> \<ge> 2 ^ ShieldedAmountBitLength))
            (Errorf ''audit amount must be canonical positive uint128 coin'')) (\<lambda>_. Inr c))"

fun auditNullifiers :: "bytes list \<Rightarrow> bytes list \<Rightarrow> bytes list res" where
  "auditNullifiers seen [] = Inr []"
| "auditNullifiers seen (n # ns) =
     bindE (ParseField32 n) (\<lambda>f.
     bindE (guardE (\<not> (f = ZeroField32 \<or> f \<in> set seen)) (Errorf ''zero or duplicate nullifier'')) (\<lambda>_.
     bindE (auditNullifiers (f # seen) ns) (\<lambda>fs. Inr (f # fs))))"

definition ValidateAuditMessage :: "('b, 'm) msg_env_scheme \<Rightarrow> audit_msg \<Rightarrow> validated_msg res" where
  "ValidateAuditMessage env raw =
     bindE (msgParts raw) (\<lambda>m.
     bindE (guardE (\<not> msg_Size raw > MaxBatchTransferMessageBytesV1) (Errorf ''audit message exceeds 128KiB'')) (\<lambda>_.
     bindE (guardE (\<not> (length (mp_nullifiers m) > 16 \<or> length (mp_outputs m) > 32)) (Errorf ''audit capacity exceeded'')) (\<lambda>_.
     bindE (ValidateActiveCounts (mp_kind m) (word_of_nat (length (mp_nullifiers m))) (word_of_nat (length (mp_outputs m)))) (\<lambda>_.
     case mp_auth m of
       None \<Rightarrow> Inl (Errorf ''audit authorization and positive expiry are required'')
     | Some auth \<Rightarrow>
         bindE (guardE (\<not> (length (au_key_id auth) \<noteq> 32 \<or> au_epoch auth = 0 \<or> mp_expires m \<le> 0))
           (Errorf ''audit authorization and positive expiry are required'')) (\<lambda>_.
         bindE (EnvelopeSize (mp_kind m)) (\<lambda>want.
         bindE (guardE (length (au_envelope auth) = want) (Errorf ''incorrect audit envelope size'')) (\<lambda>_.
         bindE (guardE (length (mp_proof m) = 164) (Errorf ''audit proof requires 164 bytes'')) (\<lambda>_.
         bindE (canonicalAuditAddress env (mp_creator m)) (\<lambda>_.
         bindE (if mp_kind m = KindWithdraw then bindE (canonicalAuditAddress env (mp_recipient m)) (\<lambda>_. Inr ()) else Inr ()) (\<lambda>_.
         bindE (if mp_kind m = KindDeposit \<or> mp_kind m = KindWithdraw
                then bindE (auditCoin env (mp_amount m)) (\<lambda>c. Inr (Some c)) else Inr None) (\<lambda>coin.
         bindE (if length (mp_nullifiers m) > 0 then ParseField32 (mp_root m) else Inr ZeroField32) (\<lambda>root.
         bindE (auditNullifiers [] (mp_nullifiers m)) (\<lambda>nullifiers.
         bindE (AuditOutputsToAux env (mp_kind m) (mp_outputs m)) (\<lambda>(out, aux).
         Inr \<lparr>vm_kind = mp_kind m, vm_creator = mp_creator m, vm_recipient = mp_recipient m, vm_coin = coin, vm_root = root,
              vm_nullifiers = nullifiers, vm_outputs = map the (mp_outputs m), vm_proof = mp_proof m, vm_aux = aux,
              vm_envelope = au_envelope auth, vm_key_id = au_key_id auth, vm_epoch = au_epoch auth, vm_expiry = mp_expires m\<rparr>))))))))))))))"

section \<open>What an accepted message is\<close>

definition output_slot :: "kind \<Rightarrow> nat \<Rightarrow> bool" where
  "output_slot k i = (k = KindDeposit \<or> (k = KindTransfer2x2 \<and> i < 2) \<or> k = KindBatch16x32)"

definition silent_slot :: "kind \<Rightarrow> nat \<Rightarrow> bool" where
  "silent_slot k i = (k = KindDeposit \<or> (k = KindTransfer2x2 \<and> i = 1))"

lemma ZeroField32_replicate: "ZeroField32 = replicate 32 0"
  by (simp add: ZeroField32_def)

lemma zero_canonical: "canonical_field ZeroField32"
  by (simp add: ZeroField32_def canonical_field_def be_to_nat_replicate0 fr_modulus_def)

lemma auditNullifiers_ok:
  "auditNullifiers seen ns = Inr fs \<Longrightarrow> fs = ns \<and> list_all active_field ns \<and> distinct ns \<and> set ns \<inter> set seen = {}"
proof (induction ns arbitrary: seen fs)
  case (Cons n ns)
  then obtain gs where "auditNullifiers (n # seen) ns = Inr gs" "fs = n # gs" "canonical_field n" "n \<noteq> ZeroField32" "n \<notin> set seen"
    by auto
  then show ?case using Cons.IH [of "n # seen" gs] by (auto simp: active_field_def ZeroField32_replicate)
qed simp

lemma optionalField32_ok:
  "optionalField32 raw = Inr f \<longleftrightarrow> (if raw = [] then f = ZeroField32 else canonical_field raw \<and> f = raw)"
  by (auto simp: optionalField32_def)

lemma user_disclosure_digest:
  assumes "validateUserDisclosure env policy digest mode target payload = Inr ()"
  shows "(policy = 0 \<and> digest = [] \<and> target = [] \<and> payload = []) \<or> (policy \<noteq> 0 \<and> canonical_field digest)"
  using assms by (auto simp: validateUserDisclosure_def TransferPrivacyPolicyAllPrivate_def split: if_splits)

lemma batch_disclosure_digest:
  assumes "validateBatchUserDisclosureWirePrototypeV1 env i w = Inr ()"
  shows "(bo_policy w = 0 \<and> bo_user_digest w = []) \<or> (bo_policy w \<noteq> 0 \<and> canonical_field (bo_user_digest w))"
  using assms by (auto simp: validateBatchUserDisclosureWirePrototypeV1_def TransferPrivacyPolicyAllPrivate_def active_field_def split: if_splits)

text \<open>An output the adapter accepts is recovered from its commitment and its part of the frame.\<close>

definition effect_of :: "kind \<Rightarrow> nat \<Rightarrow> bytes \<Rightarrow> aux_output \<Rightarrow> output_effect" where
  "effect_of k i c a =
     \<lparr>oe_commitment = c, oe_ciphertext = ax_recovery a, oe_view_tag = ax_view_tag a, oe_policy = ax_policy a, oe_mode = ucast (ax_mode a),
      oe_user_digest = (if silent_slot k i \<or> ax_policy a = 0 then [] else ax_user_digest a), oe_user_target = ax_user_target a,
      oe_user_payload = ax_user_payload a, oe_full_digest = (if silent_slot k i then [] else ax_full_digest a), oe_self_view = ax_self_view a\<rparr>"

lemma small_mode: "(w :: u32) \<le> 2 \<Longrightarrow> ucast (ucast w :: u8) = w"
proof -
  assume "w \<le> 2"
  then have "unat w \<le> 2" using word_le_nat_alt [of w 2] by simp
  then have "unat w = 0 \<or> unat w = 1 \<or> unat w = 2" by arith
  then have "w = 0 \<or> w = 1 \<or> w = 2" by (simp add: word_unat_eq_iff)
  then show ?thesis by auto
qed

lemma auditOutputToAux_ok:
  assumes "auditOutputToAux env k i seen out = Inr a" "output_slot k i"
  shows "\<exists>x. out = Some x \<and> active_field (oe_commitment x) \<and> oe_commitment x \<notin> set seen \<and> x = effect_of k i (oe_commitment x) a \<and> aux_arrays a"
proof -
  obtain x where x: "out = Some x" using assms(1) by (auto simp: auditOutputToAux_def split: option.splits)
  obtain user full where g: "canonical_field (oe_commitment x)" "oe_commitment x \<noteq> ZeroField32" "oe_commitment x \<notin> set seen" "\<not> oe_mode x > 2"
      "optionalField32 (oe_user_digest x) = Inr user" "optionalField32 (oe_full_digest x) = Inr full"
      "checkDigestSlots k i x full = Inr ()" "checkUserDisclosure env k i x = Inr ()"
      "a = \<lparr>ax_recovery = oe_ciphertext x, ax_view_tag = oe_view_tag x, ax_policy = oe_policy x, ax_mode = ucast (oe_mode x),
         ax_user_digest = user, ax_user_target = oe_user_target x, ax_user_payload = oe_user_payload x, ax_full_digest = full,
         ax_self_view = oe_self_view x\<rparr>"
    using assms(1) unfolding auditOutputToAux_def x by (auto split del: if_split)
  have f7: "if k = KindDeposit \<or> (k = KindTransfer2x2 \<and> i = 1) then oe_user_digest x = [] \<and> oe_full_digest x = [] else full \<noteq> ZeroField32"
    using g(7) by (auto simp: checkDigestSlots_def split: if_splits)
  have f8: "k = KindBatch16x32 \<Longrightarrow> validateBatchUserDisclosureWirePrototypeV1 env (word_of_nat i) (batchWireOf x) = Inr ()"
    using g(8) by (simp add: checkUserDisclosure_def KindBatch16x32_def KindTransfer2x2_def)
  have f9: "k = KindTransfer2x2 \<Longrightarrow> i = 0 \<Longrightarrow>
      validateUserDisclosure env (oe_policy x) (oe_user_digest x) (oe_mode x) (oe_user_target x) (oe_user_payload x) = Inr ()"
    using g(8) by (auto simp: checkUserDisclosure_def)
  have f4: "oe_mode x \<le> 2" using g(4) by simp
  note f = g(1,2,3) f4 g(5,6) f7 f8 f9 g(9)
  have len: "length user = 32" "length full = 32"
    using f(5,6) by (auto simp: optionalField32_ok ZeroField32_replicate canonical_length split: if_splits)
  have user: "oe_user_digest x = (if silent_slot k i \<or> oe_policy x = 0 then [] else user)"
  proof (cases "silent_slot k i")
    case False
    then have "k = KindBatch16x32 \<or> (k = KindTransfer2x2 \<and> i = 0)" using assms(2) by (auto simp: output_slot_def silent_slot_def less_2_cases_iff)
    then have "(oe_policy x = 0 \<and> oe_user_digest x = []) \<or> (oe_policy x \<noteq> 0 \<and> canonical_field (oe_user_digest x))"
      using f(8,9) batch_disclosure_digest [of env _ "batchWireOf x"] user_disclosure_digest by (fastforce simp: batchWireOf_def)
    then show ?thesis using False f(5) by (auto simp: optionalField32_ok canonical_field_def split: if_splits)
  qed (use f(7) in \<open>auto simp: silent_slot_def split: if_splits\<close>)
  have full: "oe_full_digest x = (if silent_slot k i then [] else full)"
    using f(6,7) by (auto simp: silent_slot_def optionalField32_ok split: if_splits)
  have "x = effect_of k i (oe_commitment x) a"
    unfolding effect_of_def f(10) using user full small_mode [OF f(4)] by (intro output_effect.equality) simp_all
  then show ?thesis using x f(1-3) len by (auto simp: active_field_def ZeroField32_replicate f(10) aux_arrays_def)
qed

lemma auditOutputsLoop_ok:
  assumes "auditOutputsLoop env k i seen outs = Inr as" "\<And>j. i \<le> j \<Longrightarrow> j < i + length outs \<Longrightarrow> output_slot k j"
  shows "\<exists>xs. outs = map Some xs \<and> length as = length xs \<and> list_all aux_arrays as \<and> list_all (\<lambda>x. active_field (oe_commitment x)) xs \<and>
     distinct (map oe_commitment xs) \<and> set (map oe_commitment xs) \<inter> set seen = {} \<and>
     xs = map (\<lambda>(j, c, a). effect_of k j c a) (enumerate i (zip (map oe_commitment xs) as))"
  using assms
proof (induction outs arbitrary: i seen as)
  case (Cons out outs)
  obtain a bs where a: "auditOutputToAux env k i seen out = Inr a" "as = a # bs"
      "auditOutputsLoop env k (Suc i) ((case out of None \<Rightarrow> [] | Some y \<Rightarrow> oe_commitment y) # seen) outs = Inr bs"
    using Cons.prems(1) by auto
  obtain x where x: "out = Some x" "active_field (oe_commitment x)" "oe_commitment x \<notin> set seen" "x = effect_of k i (oe_commitment x) a" "aux_arrays a"
    using auditOutputToAux_ok [OF a(1)] Cons.prems(2) [of i] by auto
  obtain ys where "outs = map Some ys" "length bs = length ys" "list_all aux_arrays bs" "list_all (\<lambda>x. active_field (oe_commitment x)) ys"
      "distinct (map oe_commitment ys)" "set (map oe_commitment ys) \<inter> set (oe_commitment x # seen) = {}"
      "ys = map (\<lambda>(j, c, a). effect_of k j c a) (enumerate (Suc i) (zip (map oe_commitment ys) bs))"
    using Cons.IH [of "Suc i" "oe_commitment x # seen" bs] a(3) Cons.prems(2) by (auto simp: x(1))
  then show ?case using x a(2) by (intro exI [of _ "x # ys"]) auto
qed auto

lemma accepted_counts:
  assumes "ValidateActiveCounts k (word_of_nat i) (word_of_nat n) = Inr ()" "i \<le> 16" "n \<le> 32"
  shows "(k = KindDeposit \<and> i = 0 \<and> n = 1) \<or> (k = KindWithdraw \<and> i = 1 \<and> n = 0) \<or> (k = KindTransfer2x2 \<and> i = 2 \<and> n = 2) \<or>
     (k = KindBatch16x32 \<and> 1 \<le> i \<and> 1 \<le> n)"
proof -
  have "unat (word_of_nat i :: u8) = i" "unat (word_of_nat n :: u8) = n" using assms(2,3) by simp_all
  then have w: "(word_of_nat i :: u8) = 0 \<longleftrightarrow> i = 0" "(word_of_nat i :: u8) = 1 \<longleftrightarrow> i = 1" "(word_of_nat i :: u8) = 2 \<longleftrightarrow> i = 2"
      "(word_of_nat n :: u8) = 0 \<longleftrightarrow> n = 0" "(word_of_nat n :: u8) = 1 \<longleftrightarrow> n = 1" "(word_of_nat n :: u8) = 2 \<longleftrightarrow> n = 2"
    by (simp_all add: word_unat_eq_iff)
  show ?thesis using assms(1) by (auto simp: ValidateActiveCounts_def shape_def w split: if_splits)
qed

text \<open>The stages of the validation, for a message read as \<open>m\<close>.\<close>

lemma ValidateAuditMessage_stages:
  assumes "ValidateAuditMessage env raw = Inr v"
  obtains m auth out where "msgParts raw = Inr m" "length (mp_nullifiers m) \<le> 16" "length (mp_outputs m) \<le> 32"
    "ValidateActiveCounts (mp_kind m) (word_of_nat (length (mp_nullifiers m))) (word_of_nat (length (mp_outputs m))) = Inr ()"
    "mp_auth m = Some auth" "length (au_key_id auth) = 32" "au_epoch auth \<noteq> 0" "mp_expires m > 0"
    "EnvelopeSize (mp_kind m) = Inr (length (au_envelope auth))" "length (mp_proof m) = 164"
    "(if mp_kind m = KindDeposit \<or> mp_kind m = KindWithdraw
      then bindE (auditCoin env (mp_amount m)) (\<lambda>c. Inr (Some c)) else Inr None) = Inr (vm_coin v)"
    "(if length (mp_nullifiers m) > 0 then ParseField32 (mp_root m) else Inr ZeroField32) = Inr (vm_root v)"
    "auditNullifiers [] (mp_nullifiers m) = Inr (vm_nullifiers v)" "auditOutputsLoop env (mp_kind m) 0 [] (mp_outputs m) = Inr out"
    "EncodeAuxFrame (mp_kind m) out = Inr (vm_aux v)" "vm_kind v = mp_kind m" "vm_outputs v = map the (mp_outputs m)" "vm_proof v = mp_proof m"
    "vm_envelope v = au_envelope auth" "vm_key_id v = au_key_id auth" "vm_epoch v = au_epoch auth" "vm_expiry v = mp_expires m"
    "vm_creator v = mp_creator m" "vm_recipient v = mp_recipient m" "msg_Size raw \<le> MaxBatchTransferMessageBytesV1"
proof -
  obtain m where m: "msgParts raw = Inr m" using assms by (auto simp: ValidateAuditMessage_def)
  obtain auth where auth: "mp_auth m = Some auth" using assms m by (auto simp: ValidateAuditMessage_def split: option.splits)
  show thesis
    using assms unfolding ValidateAuditMessage_def m bindE_Inr auth option.case AuditOutputsToAux_def
    by (auto simp: not_less split: prod.splits split del: if_split intro!: that [OF m _ _ _ auth])
qed

lemma accepted_slots:
  assumes "(k = KindDeposit \<and> i = 0 \<and> n = 1) \<or> (k = KindWithdraw \<and> i = 1 \<and> n = 0) \<or> (k = KindTransfer2x2 \<and> i = 2 \<and> n = 2) \<or>
     (k = KindBatch16x32 \<and> 1 \<le> i \<and> 1 \<le> n)" "j < n"
  shows "output_slot k j"
  using assms by (auto simp: output_slot_def)

lemma accepted_outputs:
  assumes "ValidateAuditMessage env raw = Inr v"
  shows "\<exists>as. EncodeAuxFrame (vm_kind v) as = Inr (vm_aux v) \<and> list_all aux_arrays as \<and> length as = length (vm_outputs v) \<and>
    list_all (\<lambda>x. active_field (oe_commitment x)) (vm_outputs v) \<and> distinct (map oe_commitment (vm_outputs v)) \<and>
    vm_outputs v = map (\<lambda>(j, c, a). effect_of (vm_kind v) j c a) (enumerate 0 (zip (map oe_commitment (vm_outputs v)) as))"
proof -
  obtain m auth out where st: "msgParts raw = Inr m" "length (mp_nullifiers m) \<le> 16" "length (mp_outputs m) \<le> 32"
      "ValidateActiveCounts (mp_kind m) (word_of_nat (length (mp_nullifiers m))) (word_of_nat (length (mp_outputs m))) = Inr ()"
      "auditOutputsLoop env (mp_kind m) 0 [] (mp_outputs m) = Inr out" "EncodeAuxFrame (mp_kind m) out = Inr (vm_aux v)"
      "vm_kind v = mp_kind m" "vm_outputs v = map the (mp_outputs m)"
    using assms by (rule ValidateAuditMessage_stages)
  have slots: "\<And>j. 0 \<le> j \<Longrightarrow> j < 0 + length (mp_outputs m) \<Longrightarrow> output_slot (mp_kind m) j"
    using accepted_slots [OF accepted_counts [OF st(4,2,3)]] by simp
  obtain xs where "mp_outputs m = map Some xs" "length out = length xs" "list_all aux_arrays out" "list_all (\<lambda>x. active_field (oe_commitment x)) xs"
      "distinct (map oe_commitment xs)" "xs = map (\<lambda>(j, c, a). effect_of (mp_kind m) j c a) (enumerate 0 (zip (map oe_commitment xs) out))"
    using auditOutputsLoop_ok [OF st(5) slots] by auto
  then show ?thesis using st(6-8) by (intro exI [of _ out]) (simp add: comp_def)
qed

lemma auditCoin_ok:
  "auditCoin env amount = Inr c \<longleftrightarrow> parse_coin env amount = Some c \<and> 0 < coin_amount c \<and> coin_amount c < 2 ^ 128 \<and> coin_string env c = amount"
  by (auto simp: auditCoin_def ShieldedAmountBitLength_def split: option.splits)

section \<open>A sample message\<close>

definition sample_msg_env :: "sample_bank msg_env" where
  "sample_msg_env = sdk_env.extend sample_sdk (msg_env.fields
     (\<lambda>s. if s = ''5uclair'' then Some \<lparr>coin_denom = ''uclair'', coin_amount = 5\<rparr> else None) (\<lambda>c. ''5uclair''))"

lemma sample_msg_env_fields [simp]:
  "parse_coin sample_msg_env s = (if s = ''5uclair'' then Some \<lparr>coin_denom = ''uclair'', coin_amount = 5\<rparr> else None)"
  "coin_string sample_msg_env c = ''5uclair''" "acc_from_bech32 sample_msg_env a = Some (string_bytes a)" "acc_to_bech32 sample_msg_env = bytes_string"
  by (simp_all add: sample_msg_env_def sdk_env.extend_def msg_env.fields_def sample_sdk_def keeper_env.extend_def sdk_env.fields_def)

definition sample_note_envelope :: bytes where
  "sample_note_envelope = encryptedEnvelopeV1DomainTag @ be16 fixedBinaryVersionV1 @ [1, 0] @ replicate 386 7"

definition sample_output :: output_effect where
  "sample_output = \<lparr>oe_commitment = sample_c1, oe_ciphertext = sample_note_envelope, oe_view_tag = [], oe_policy = 0, oe_mode = 0, oe_user_digest = [],
     oe_user_target = [], oe_user_payload = [], oe_full_digest = [], oe_self_view = []\<rparr>"

definition sample_deposit :: audit_msg where
  "sample_deposit = MsgDeposit (Some \<lparr>md_creator = ''alice'', md_amount = ''5uclair'', md_output = Some sample_output, md_proof = replicate 164 0,
     md_expires = 100, md_audit = Some \<lparr>au_key_id = replicate 32 1, au_epoch = 1, au_envelope = replicate 336 0\<rparr>\<rparr>)"

lemma sample_envelope_length [simp]: "length sample_note_envelope = 406"
  by (simp add: sample_note_envelope_def encryptedEnvelopeV1DomainTag_def)

lemma sample_unwrap: "UnwrapEncryptedEnvelopeV1 sample_note_envelope EnvelopeDepositNoteV1 = Inr (replicate 386 7)"
proof -
  have "WrapEncryptedEnvelopeV1 1 (replicate 386 7) = Inr sample_note_envelope"
    by (simp add: WrapEncryptedEnvelopeV1_def encryptedCiphertextSizeV1_def EnvelopeDepositNoteV1_def NotePlaintextV1Size_def
        symmetricEnvelopeOverheadV1_def sample_note_envelope_def)
  then show ?thesis by (simp add: UnwrapEncryptedEnvelopeV1_def EnvelopeDepositNoteV1_def flip: envelope_codec_v1)
qed

lemma kind_distinct [simp]:
  "KindDeposit \<noteq> KindWithdraw" "KindDeposit \<noteq> KindTransfer2x2" "KindDeposit \<noteq> KindBatch16x32" "KindWithdraw \<noteq> KindDeposit"
  "KindWithdraw \<noteq> KindTransfer2x2" "KindWithdraw \<noteq> KindBatch16x32" "KindTransfer2x2 \<noteq> KindDeposit" "KindTransfer2x2 \<noteq> KindWithdraw"
  "KindTransfer2x2 \<noteq> KindBatch16x32" "KindBatch16x32 \<noteq> KindDeposit" "KindBatch16x32 \<noteq> KindWithdraw" "KindBatch16x32 \<noteq> KindTransfer2x2"
  by (simp_all add: kind_defs)

lemma sample_commitment: "canonical_field sample_c1" "sample_c1 \<noteq> ZeroField32" "ParseField32 sample_c1 = Inr sample_c1"
  using sample_active(1) by (simp_all add: active_field_def ZeroField32_replicate)

lemma sample_size: "msg_Size sample_deposit \<le> MaxBatchTransferMessageBytesV1"
proof -
  have sov: "sov 5 = 1" "sov 7 = 1" "sov 32 = 1" "sov 406 = 2" "sov 443 = 2" "sov 164 = 2" "sov 100 = 1" "sov 1 = 1" "sov 336 = 2" "sov 375 = 2"
    by code_simp+
  have len: "length sample_c1 = 32" by (simp add: sample_c1_def)
  have "OutputEffect_Size sample_output = 443"
    by (simp add: OutputEffect_Size_def sample_output_def szBytes_def szMsg_def szNum_def len sov)
  then show ?thesis
    by (simp add: msg_Size_def sample_deposit_def MsgDeposit_Size_def AuditAuthorization_Size_def szBytes_def szMsg_def szNum_def szOpt_def sov
        MaxBatchTransferMessageBytesV1_def)
qed

lemma sample_aux: "\<exists>aux. AuditOutputsToAux sample_msg_env KindDeposit [Some sample_output] = Inr ([effect_aux], aux)"
  if "effect_aux = \<lparr>ax_recovery = sample_note_envelope, ax_view_tag = [], ax_policy = 0, ax_mode = 0, ax_user_digest = ZeroField32,
      ax_user_target = [], ax_user_payload = [], ax_full_digest = ZeroField32, ax_self_view = []\<rparr>"
proof -
  have loop: "auditOutputsLoop sample_msg_env KindDeposit 0 [] [Some sample_output] = Inr [effect_aux]"
    by (simp add: auditOutputToAux_def that sample_output_def sample_unwrap checkDigestSlots_def checkUserDisclosure_def optionalField32_def
        sample_commitment)
  have zero: "validateField32 ZeroField32 = Inr ()" by (simp add: ZeroField32_def be_to_nat_replicate0)
  have "validateAuxOutput KindDeposit 0 effect_aux = Inr ()"
    by (simp add: validateAuxOutput_def that zero depositRecoveryCiphertextSize_def)
  then have "\<exists>frame. EncodeAuxFrame KindDeposit [effect_aux] = Inr frame"
    by (simp add: EncodeAuxFrame_def validateAuxOutputCount_def encodeAuxOutput_def appendLP_def that)
  then show ?thesis unfolding AuditOutputsToAux_def loop by auto
qed

lemma sample_accepted:
  "\<exists>v. ValidateAuditMessage sample_msg_env sample_deposit = Inr v \<and> vm_kind v = KindDeposit \<and> vm_outputs v = [sample_output] \<and>
     vm_coin v = Some \<lparr>coin_denom = ''uclair'', coin_amount = 5\<rparr> \<and> vm_nullifiers v = []"
proof -
  obtain aux as where aux: "AuditOutputsToAux sample_msg_env KindDeposit [Some sample_output] = Inr (as, aux)" using sample_aux by blast
  have parts: "msgParts sample_deposit = Inr \<lparr>mp_kind = KindDeposit, mp_creator = ''alice'', mp_recipient = [], mp_amount = ''5uclair'', mp_root = [],
      mp_nullifiers = [], mp_outputs = [Some sample_output], mp_proof = replicate 164 0, mp_expires = 100,
      mp_auth = Some \<lparr>au_key_id = replicate 32 1, au_epoch = 1, au_envelope = replicate 336 0\<rparr>\<rparr>"
    by (simp add: sample_deposit_def)
  have counts: "ValidateActiveCounts KindDeposit 0 1 = Inr ()" "EnvelopeSize KindDeposit = Inr 336"
    by (simp_all add: ValidateActiveCounts_def EnvelopeSize_def shape_def)
  have address: "canonicalAuditAddress sample_msg_env ''alice'' = Inr (string_bytes ''alice'')"
    unfolding canonicalAuditAddress_def sample_msg_env_fields option.case bytes_string_of by (simp add: string_bytes_def)
  have coin: "auditCoin sample_msg_env ''5uclair'' = Inr \<lparr>coin_denom = ''uclair'', coin_amount = 5\<rparr>" by (simp add: auditCoin_ok)
  show ?thesis
    unfolding ValidateAuditMessage_def parts
    using sample_size by (simp add: counts coin aux address)
qed

section \<open>Properties\<close>

text \<open>C35. An accepted message is well formed: its counts fit its kind, its nullifiers and its commitments are distinct non-zero canonical
  field elements, it carries a positive amount below 2^128 that prints back to the text of the message exactly when it moves
  public coins, the root is canonical, and proof, envelope, key identifier, epoch and expiry have the sizes and ranges of
  the protocol.\<close>

theorem accepted_message:
  assumes "ValidateAuditMessage env raw = Inr v"
  shows "((vm_kind v = KindDeposit \<and> length (vm_nullifiers v) = 0 \<and> length (vm_outputs v) = 1) \<or>
      (vm_kind v = KindWithdraw \<and> length (vm_nullifiers v) = 1 \<and> length (vm_outputs v) = 0) \<or>
      (vm_kind v = KindTransfer2x2 \<and> length (vm_nullifiers v) = 2 \<and> length (vm_outputs v) = 2) \<or>
      (vm_kind v = KindBatch16x32 \<and> length (vm_nullifiers v) \<in> {1..16} \<and> length (vm_outputs v) \<in> {1..32})) \<and>
    list_all active_field (vm_nullifiers v) \<and> distinct (vm_nullifiers v) \<and>
    list_all active_field (map oe_commitment (vm_outputs v)) \<and> distinct (map oe_commitment (vm_outputs v)) \<and>
    (case vm_coin v of
       None \<Rightarrow> vm_kind v \<in> {KindTransfer2x2, KindBatch16x32}
     | Some c \<Rightarrow> vm_kind v \<in> {KindDeposit, KindWithdraw} \<and> 0 < coin_amount c \<and> coin_amount c < 2 ^ 128 \<and>
         parse_coin env (coin_string env c) = Some c) \<and>
    canonical_field (vm_root v) \<and> length (vm_proof v) = 164 \<and> EnvelopeSize (vm_kind v) = Inr (length (vm_envelope v)) \<and>
    length (vm_key_id v) = 32 \<and> vm_epoch v \<noteq> 0 \<and> 0 < vm_expiry v"
  using assms
proof (rule ValidateAuditMessage_stages, goal_cases)
  case st: (1 m auth out)
  have n: "vm_nullifiers v = mp_nullifiers m" "list_all active_field (vm_nullifiers v)" "distinct (vm_nullifiers v)"
    using auditNullifiers_ok [OF st(13)] by auto
  note kinds = accepted_counts [OF st(4,2,3)]
  have coin: "case vm_coin v of None \<Rightarrow> vm_kind v \<in> {KindTransfer2x2, KindBatch16x32}
      | Some c \<Rightarrow> vm_kind v \<in> {KindDeposit, KindWithdraw} \<and> 0 < coin_amount c \<and> coin_amount c < 2 ^ 128 \<and> parse_coin env (coin_string env c) = Some c"
    using st(11,16) kinds by (auto simp: auditCoin_ok split: if_splits option.split)
  have root: "canonical_field (vm_root v)"
    using st(12) zero_canonical by (auto split: if_splits)
  have out: "list_all active_field (map oe_commitment (vm_outputs v))" "distinct (map oe_commitment (vm_outputs v))"
    using accepted_outputs [OF assms] by (auto simp: list.pred_map comp_def)
  have rest: "length (vm_proof v) = 164" "EnvelopeSize (vm_kind v) = Inr (length (vm_envelope v))" "length (vm_key_id v) = 32" "vm_epoch v \<noteq> 0" "0 < vm_expiry v"
    using st(6-10,16,18-22) by simp_all
  have counts: "length (vm_outputs v) = length (mp_outputs m)" using st(17) by simp
  show ?case using kinds st(2,3) n coin root out rest unfolding counts st(16) by auto
qed

theorem accepted_message_witness:
  "\<exists>v. ValidateAuditMessage sample_msg_env sample_deposit = Inr v \<and> vm_kind v = KindDeposit \<and> distinct (map oe_commitment (vm_outputs v)) \<and>
     length (vm_proof v) = 164"
  using accepted_message [of sample_msg_env sample_deposit] sample_accepted by blast

text \<open>C36. The commitments and the auxiliary frame determine the outputs: two accepted messages with the same frame and the same
  commitments are of the same kind and have the same outputs, with every ciphertext, view tag, policy, mode, digest, target
  and payload equal. The proof binds the vector of commitments and the hash of the frame, so no relayer can change an
  output of a proven message without a hash collision.\<close>

theorem accepted_outputs_bound:
  assumes "ValidateAuditMessage env raw = Inr v" "ValidateAuditMessage env raw' = Inr w" "vm_aux v = vm_aux w"
    "map oe_commitment (vm_outputs v) = map oe_commitment (vm_outputs w)"
  shows "vm_kind v = vm_kind w \<and> vm_outputs v = vm_outputs w"
proof -
  obtain as where as: "EncodeAuxFrame (vm_kind v) as = Inr (vm_aux v)" "list_all aux_arrays as"
      "vm_outputs v = map (\<lambda>(j, c, a). effect_of (vm_kind v) j c a) (enumerate 0 (zip (map oe_commitment (vm_outputs v)) as))"
    using accepted_outputs [OF assms(1)] by blast
  obtain bs where bs: "EncodeAuxFrame (vm_kind w) bs = Inr (vm_aux w)" "list_all aux_arrays bs"
      "vm_outputs w = map (\<lambda>(j, c, a). effect_of (vm_kind w) j c a) (enumerate 0 (zip (map oe_commitment (vm_outputs w)) bs))"
    using accepted_outputs [OF assms(2)] by blast
  have "vm_kind v = vm_kind w \<and> as = bs"
    using EncodeAuxFrame_inj [OF as(1) _ as(2) bs(2)] bs(1) assms(3) by simp
  then show ?thesis using as(3) bs(3) assms(4) by metis
qed

theorem accepted_outputs_bound_witness:
  "\<exists>v. ValidateAuditMessage sample_msg_env sample_deposit = Inr v \<and> vm_outputs v = [sample_output] \<and> vm_kind v = vm_kind v \<and> vm_outputs v = vm_outputs v"
  using accepted_outputs_bound [of sample_msg_env sample_deposit _ sample_deposit] sample_accepted by blast

end
