(* ===== verification/Scan_Records.thy ===== *)
theory Scan_Records
  imports Proto_Wire Sdk_Env
begin

text \<open>
  The records of the wallet scan index and their codecs (\<^verbatim>\<open>PrivacyScanSummaryV2\<close> and \<^verbatim>\<open>PrivacyScanOutputV2\<close> of
  \<^verbatim>\<open>x/privacy/types/genesis.pb.go\<close>): the fields in the order they are written, the size, the writer and the reader.
\<close>

record scan_summary =
  ss_sequence :: u64
  ss_height :: int
  ss_tx_hash :: bytes
  ss_event :: string
  ss_nullifiers :: "bytes list"
  ss_output_count :: u32
  ss_circuit_set :: string
  ss_payload_version :: string
  ss_schema_version :: string
  ss_key_id :: string
  ss_key_epoch :: u64
  ss_target :: bytes
  ss_effect :: bytes

record scan_output =
  so_sequence :: u64
  so_height :: int
  so_index :: u32
  so_effect :: bytes
  so_commitment :: bytes
  so_ciphertext :: bytes
  so_encrypted_note :: bytes
  so_view_tag :: bytes
  so_leaf_index :: u64
  so_leaf_found :: bool
  so_policy :: u32
  so_mode :: string
  so_user_digest :: bytes
  so_user_target :: bytes
  so_user_payload :: bytes
  so_full_digest :: bytes
  so_audit_payload :: bytes
  so_self_view :: bytes
  so_circuit_set :: string
  so_payload_version :: string
  so_schema_version :: string
  so_key_id :: string
  so_key_epoch :: u64
  so_target :: bytes
  so_tx_hash :: bytes
  so_event :: string

text \<open>The zero values.\<close>

definition empty_summary :: scan_summary where
  "empty_summary = \<lparr>ss_sequence = 0, ss_height = 0, ss_tx_hash = [], ss_event = [], ss_nullifiers = [], ss_output_count = 0, ss_circuit_set = [],
     ss_payload_version = [], ss_schema_version = [], ss_key_id = [], ss_key_epoch = 0, ss_target = [], ss_effect = []\<rparr>"

definition empty_output :: scan_output where
  "empty_output = \<lparr>so_sequence = 0, so_height = 0, so_index = 0, so_effect = [], so_commitment = [], so_ciphertext = [], so_encrypted_note = [],
     so_view_tag = [], so_leaf_index = 0, so_leaf_found = False, so_policy = 0, so_mode = [], so_user_digest = [], so_user_target = [],
     so_user_payload = [], so_full_digest = [], so_audit_payload = [], so_self_view = [], so_circuit_set = [], so_payload_version = [],
     so_schema_version = [], so_key_id = [], so_key_epoch = 0, so_target = [], so_tx_hash = [], so_event = []\<rparr>"

section \<open>Sizes\<close>

definition PrivacyScanSummaryV2_Size :: "scan_summary \<Rightarrow> nat" where
  "PrivacyScanSummaryV2_Size m =
     szNum (ss_sequence m) + szNum (word_of_int (ss_height m)) + szBytes (length (ss_tx_hash m)) + szBytes (length (ss_event m)) +
     sum_list (map (\<lambda>b. szMsg (length b)) (ss_nullifiers m)) + szNum (ucast (ss_output_count m)) + szBytes (length (ss_circuit_set m)) +
     szBytes (length (ss_payload_version m)) + szBytes (length (ss_schema_version m)) + szBytes (length (ss_key_id m)) +
     szNum (ss_key_epoch m) + szBytes (length (ss_target m)) + szBytes (length (ss_effect m))"

definition PrivacyScanOutputV2_Size :: "scan_output \<Rightarrow> nat" where
  "PrivacyScanOutputV2_Size m =
     szNum (so_sequence m) + szNum (word_of_int (so_height m)) + szNum (ucast (so_index m)) + szBytes (length (so_effect m)) +
     szBytes (length (so_commitment m)) + szBytes (length (so_ciphertext m)) + szBytes (length (so_encrypted_note m)) +
     szBytes (length (so_view_tag m)) + szNum (so_leaf_index m) + (if so_leaf_found m then 2 else 0) + szNum (ucast (so_policy m)) +
     szBytes (length (so_mode m)) + szBytes (length (so_user_digest m)) + szBytes (length (so_user_target m)) +
     szBytes (length (so_user_payload m)) + szBytes2 (length (so_full_digest m)) + szBytes2 (length (so_audit_payload m)) +
     szBytes2 (length (so_self_view m)) + szBytes2 (length (so_circuit_set m)) + szBytes2 (length (so_payload_version m)) +
     szBytes2 (length (so_schema_version m)) + szBytes2 (length (so_key_id m)) +
     (if so_key_epoch m \<noteq> 0 then 2 + sov (so_key_epoch m) else 0) + szBytes2 (length (so_target m)) + szBytes2 (length (so_tx_hash m)) +
     szBytes2 (length (so_event m))"

section \<open>Writers\<close>

definition summary_fields :: "scan_summary \<Rightarrow> (nat \<times> wire_value) list" where
  "summary_fields m =
     numField 1 (ss_sequence m) @ numField 2 (word_of_int (ss_height m)) @ bytesField 3 (ss_tx_hash m) @ bytesField 4 (string_bytes (ss_event m)) @
     repeatedField 5 (ss_nullifiers m) @ numField 6 (ucast (ss_output_count m)) @ bytesField 7 (string_bytes (ss_circuit_set m)) @
     bytesField 8 (string_bytes (ss_payload_version m)) @ bytesField 9 (string_bytes (ss_schema_version m)) @
     bytesField 10 (string_bytes (ss_key_id m)) @ numField 11 (ss_key_epoch m) @ bytesField 12 (ss_target m) @ bytesField 13 (ss_effect m)"

definition PrivacyScanSummaryV2_Marshal :: "scan_summary \<Rightarrow> bytes" where
  "PrivacyScanSummaryV2_Marshal m = marshalFields (summary_fields m)"

definition output_fields :: "scan_output \<Rightarrow> (nat \<times> wire_value) list" where
  "output_fields m =
     numField 1 (so_sequence m) @ numField 2 (word_of_int (so_height m)) @ numField 3 (ucast (so_index m)) @ bytesField 4 (so_effect m) @
     bytesField 5 (so_commitment m) @ bytesField 6 (so_ciphertext m) @ bytesField 7 (so_encrypted_note m) @ bytesField 8 (so_view_tag m) @
     numField 9 (so_leaf_index m) @ numField 10 (of_bool (so_leaf_found m)) @ numField 11 (ucast (so_policy m)) @
     bytesField 12 (string_bytes (so_mode m)) @ bytesField 13 (so_user_digest m) @ bytesField 14 (so_user_target m) @
     bytesField 15 (so_user_payload m) @ bytesField 16 (so_full_digest m) @ bytesField 17 (so_audit_payload m) @ bytesField 18 (so_self_view m) @
     bytesField 19 (string_bytes (so_circuit_set m)) @ bytesField 20 (string_bytes (so_payload_version m)) @
     bytesField 21 (string_bytes (so_schema_version m)) @ bytesField 22 (string_bytes (so_key_id m)) @ numField 23 (so_key_epoch m) @
     bytesField 24 (so_target m) @ bytesField 25 (so_tx_hash m) @ bytesField 26 (string_bytes (so_event m))"

definition PrivacyScanOutputV2_Marshal :: "scan_output \<Rightarrow> bytes" where
  "PrivacyScanOutputV2_Marshal m = marshalFields (output_fields m)"

section \<open>Readers\<close>

definition setString :: "((string \<Rightarrow> string) \<Rightarrow> 'r \<Rightarrow> 'r) \<Rightarrow> 'r handler" where
  "setString upd = HBytes (\<lambda>b m. Inr (upd (\<lambda>_. bytes_string b) m))"

definition summary_table :: "nat \<Rightarrow> scan_summary handler option" where
  "summary_table = map_of
     [(1, setNum id ss_sequence_update), (2, setNum sint ss_height_update), (3, setBytes ss_tx_hash_update), (4, setString ss_event_update),
      (5, addBytes ss_nullifiers_update), (6, setNum ucast ss_output_count_update), (7, setString ss_circuit_set_update),
      (8, setString ss_payload_version_update), (9, setString ss_schema_version_update), (10, setString ss_key_id_update),
      (11, setNum id ss_key_epoch_update), (12, setBytes ss_target_update), (13, setBytes ss_effect_update)]"

definition PrivacyScanSummaryV2_Unmarshal :: "bytes \<Rightarrow> scan_summary res" where
  "PrivacyScanSummaryV2_Unmarshal bs = unmarshalFields summary_table empty_summary bs"

definition output_table :: "nat \<Rightarrow> scan_output handler option" where
  "output_table = map_of
     [(1, setNum id so_sequence_update), (2, setNum sint so_height_update), (3, setNum ucast so_index_update), (4, setBytes so_effect_update),
      (5, setBytes so_commitment_update), (6, setBytes so_ciphertext_update), (7, setBytes so_encrypted_note_update), (8, setBytes so_view_tag_update),
      (9, setNum id so_leaf_index_update), (10, setNum (\<lambda>v. v \<noteq> 0) so_leaf_found_update), (11, setNum ucast so_policy_update),
      (12, setString so_mode_update), (13, setBytes so_user_digest_update), (14, setBytes so_user_target_update), (15, setBytes so_user_payload_update),
      (16, setBytes so_full_digest_update), (17, setBytes so_audit_payload_update), (18, setBytes so_self_view_update),
      (19, setString so_circuit_set_update), (20, setString so_payload_version_update), (21, setString so_schema_version_update),
      (22, setString so_key_id_update), (23, setNum id so_key_epoch_update), (24, setBytes so_target_update), (25, setBytes so_tx_hash_update),
      (26, setString so_event_update)]"

definition PrivacyScanOutputV2_Unmarshal :: "bytes \<Rightarrow> scan_output res" where
  "PrivacyScanOutputV2_Unmarshal bs = unmarshalFields output_table empty_output bs"

section \<open>The codecs\<close>

lemma string_bytes_length [simp, codec_simps]: "length (string_bytes s) = length s"
  by (simp add: string_bytes_def)

lemma apply_setString:
  "table n = Some (setString upd) \<Longrightarrow> upd (\<lambda>_. []) m = m \<Longrightarrow>
     applyFields table (bytesField n (string_bytes s) @ fs) m = applyFields table fs (upd (\<lambda>_. s) m)"
  using apply_bytesField [of table n "\<lambda>b m. Inr (upd (\<lambda>_. bytes_string b) m)" "string_bytes s" m "\<lambda>b. upd (\<lambda>_. bytes_string b) m" fs]
  by (simp add: setString_def bytes_string_def [of "[]"])

lemma summary_size: "length (PrivacyScanSummaryV2_Marshal m) = PrivacyScanSummaryV2_Size m"
  by (simp add: PrivacyScanSummaryV2_Marshal_def PrivacyScanSummaryV2_Size_def summary_fields_def codec_simps)

lemma output_size: "length (PrivacyScanOutputV2_Marshal m) = PrivacyScanOutputV2_Size m"
proof -
  have "szNum (of_bool b) = (if b then 2 else 0)" for b using sov_one [of 1] by (simp add: szNum_def)
  then show ?thesis by (simp add: PrivacyScanOutputV2_Marshal_def PrivacyScanOutputV2_Size_def output_fields_def codec_simps)
qed

lemma summary_lookup:
  "summary_table 1 = Some (setNum id ss_sequence_update)" "summary_table 2 = Some (setNum sint ss_height_update)"
  "summary_table 3 = Some (setBytes ss_tx_hash_update)" "summary_table 4 = Some (setString ss_event_update)"
  "summary_table 5 = Some (addBytes ss_nullifiers_update)" "summary_table 6 = Some (setNum ucast ss_output_count_update)"
  "summary_table 7 = Some (setString ss_circuit_set_update)" "summary_table 8 = Some (setString ss_payload_version_update)"
  "summary_table 9 = Some (setString ss_schema_version_update)" "summary_table 10 = Some (setString ss_key_id_update)"
  "summary_table 11 = Some (setNum id ss_key_epoch_update)" "summary_table 12 = Some (setBytes ss_target_update)"
  "summary_table 13 = Some (setBytes ss_effect_update)"
  by (simp_all add: summary_table_def)

lemma output_lookup:
  "output_table 1 = Some (setNum id so_sequence_update)" "output_table 2 = Some (setNum sint so_height_update)"
  "output_table 3 = Some (setNum ucast so_index_update)" "output_table 4 = Some (setBytes so_effect_update)"
  "output_table 5 = Some (setBytes so_commitment_update)" "output_table 6 = Some (setBytes so_ciphertext_update)"
  "output_table 7 = Some (setBytes so_encrypted_note_update)" "output_table 8 = Some (setBytes so_view_tag_update)"
  "output_table 9 = Some (setNum id so_leaf_index_update)" "output_table 10 = Some (setNum (\<lambda>v. v \<noteq> 0) so_leaf_found_update)"
  "output_table 11 = Some (setNum ucast so_policy_update)" "output_table 12 = Some (setString so_mode_update)"
  "output_table 13 = Some (setBytes so_user_digest_update)" "output_table 14 = Some (setBytes so_user_target_update)"
  "output_table 15 = Some (setBytes so_user_payload_update)" "output_table 16 = Some (setBytes so_full_digest_update)"
  "output_table 17 = Some (setBytes so_audit_payload_update)" "output_table 18 = Some (setBytes so_self_view_update)"
  "output_table 19 = Some (setString so_circuit_set_update)" "output_table 20 = Some (setString so_payload_version_update)"
  "output_table 21 = Some (setString so_schema_version_update)" "output_table 22 = Some (setString so_key_id_update)"
  "output_table 23 = Some (setNum id so_key_epoch_update)" "output_table 24 = Some (setBytes so_target_update)"
  "output_table 25 = Some (setBytes so_tx_hash_update)" "output_table 26 = Some (setString so_event_update)"
  by (simp_all add: output_table_def)

lemmas summary_steps =
  apply_setNum [of summary_table 1 "id" ss_sequence_update] apply_setNum [of summary_table 2 "sint" ss_height_update]
  apply_setBytes [of summary_table 3 ss_tx_hash_update] apply_setString [of summary_table 4 ss_event_update]
  apply_addBytes [of summary_table 5 ss_nullifiers_update] apply_setNum [of summary_table 6 "ucast" ss_output_count_update]
  apply_setString [of summary_table 7 ss_circuit_set_update] apply_setString [of summary_table 8 ss_payload_version_update]
  apply_setString [of summary_table 9 ss_schema_version_update] apply_setString [of summary_table 10 ss_key_id_update]
  apply_setNum [of summary_table 11 "id" ss_key_epoch_update] apply_setBytes [of summary_table 12 ss_target_update]
  apply_setBytes [of summary_table 13 ss_effect_update]

lemmas output_steps =
  apply_setNum [of output_table 1 "id" so_sequence_update] apply_setNum [of output_table 2 "sint" so_height_update]
  apply_setNum [of output_table 3 "ucast" so_index_update] apply_setBytes [of output_table 4 so_effect_update]
  apply_setBytes [of output_table 5 so_commitment_update] apply_setBytes [of output_table 6 so_ciphertext_update]
  apply_setBytes [of output_table 7 so_encrypted_note_update] apply_setBytes [of output_table 8 so_view_tag_update]
  apply_setNum [of output_table 9 "id" so_leaf_index_update] apply_setNum [of output_table 10 "\<lambda>v. v \<noteq> 0" so_leaf_found_update]
  apply_setNum [of output_table 11 "ucast" so_policy_update] apply_setString [of output_table 12 so_mode_update]
  apply_setBytes [of output_table 13 so_user_digest_update] apply_setBytes [of output_table 14 so_user_target_update]
  apply_setBytes [of output_table 15 so_user_payload_update] apply_setBytes [of output_table 16 so_full_digest_update]
  apply_setBytes [of output_table 17 so_audit_payload_update] apply_setBytes [of output_table 18 so_self_view_update]
  apply_setString [of output_table 19 so_circuit_set_update] apply_setString [of output_table 20 so_payload_version_update]
  apply_setString [of output_table 21 so_schema_version_update] apply_setString [of output_table 22 so_key_id_update]
  apply_setNum [of output_table 23 "id" so_key_epoch_update] apply_setBytes [of output_table 24 so_target_update]
  apply_setBytes [of output_table 25 so_tx_hash_update] apply_setString [of output_table 26 so_event_update]

lemma summary_applied: "int64 (ss_height m) \<Longrightarrow> applyFields summary_table (summary_fields m @ []) empty_summary = Inr m"
  unfolding summary_fields_def append_assoc
  by (simp add: summary_steps summary_lookup empty_summary_def int64_def height_back u32_back del: append_Nil2 One_nat_def)

lemma output_applied: "int64 (so_height m) \<Longrightarrow> applyFields output_table (output_fields m @ []) empty_output = Inr m"
  unfolding output_fields_def append_assoc
  by (simp add: output_steps output_lookup empty_output_def int64_def height_back u32_back del: append_Nil2 One_nat_def)

lemma summary_roundtrip:
  assumes "int64 (ss_height m)" "PrivacyScanSummaryV2_Size m < 2 ^ 63"
  shows "PrivacyScanSummaryV2_Unmarshal (PrivacyScanSummaryV2_Marshal m) = Inr m"
  unfolding PrivacyScanSummaryV2_Unmarshal_def PrivacyScanSummaryV2_Marshal_def
  by (rule unmarshal_marshal)
    (use summary_applied [OF assms(1)] assms(2) summary_size [of m] in \<open>simp_all add: PrivacyScanSummaryV2_Marshal_def summary_fields_def codec_simps\<close>)

lemma output_roundtrip:
  assumes "int64 (so_height m)" "PrivacyScanOutputV2_Size m < 2 ^ 63"
  shows "PrivacyScanOutputV2_Unmarshal (PrivacyScanOutputV2_Marshal m) = Inr m"
  unfolding PrivacyScanOutputV2_Unmarshal_def PrivacyScanOutputV2_Marshal_def
  by (rule unmarshal_marshal)
    (use output_applied [OF assms(1)] assms(2) output_size [of m] in \<open>simp_all add: PrivacyScanOutputV2_Marshal_def output_fields_def codec_simps\<close>)

end
