(* ===== verification/Privacy_Scan.thy ===== *)
theory Privacy_Scan
  imports Audit_Message Scan_Records Audit_Keys
begin

text \<open>
  The wallet scan index (\<^verbatim>\<open>x/privacy/keeper/privacy_scan.go\<close>, with the audit projections of \<^verbatim>\<open>x/privacy/keeper/audit_apply.go\<close>): validation of summaries
  and outputs, the global sequence and the writer of the index. A pointer to a record is an option. The readers are in \<open>Scan_Query\<close>, what
  the index promises is the subject of \<open>Scan_Index\<close>, \<open>Scan_Store\<close> and \<open>Scan_Theorems\<close>.
\<close>

section \<open>Prefix iteration and hexadecimal text\<close>

text \<open>\<^verbatim>\<open>storetypes.PrefixEndBytes\<close> on a prefix that is not made of \<^verbatim>\<open>0xff\<close> only.\<close>

fun bump :: "bytes \<Rightarrow> bytes" where
  "bump [] = []"
| "bump (b # bs) = (if b \<noteq> 255 then (b + 1) # bs else bump bs)"

definition PrefixEndBytes :: "bytes \<Rightarrow> bytes" where
  "PrefixEndBytes p = rev (bump (rev p))"

text \<open>\<^verbatim>\<open>hex.DecodeString\<close>: both cases of the letters are digits.\<close>

definition hexDigit :: "char \<Rightarrow> nat option" where
  "hexDigit c =
     (let n = of_char c :: nat
      in if 48 \<le> n \<and> n \<le> 57 then Some (n - 48) else if 97 \<le> n \<and> n \<le> 102 then Some (n - 87)
         else if 65 \<le> n \<and> n \<le> 70 then Some (n - 55) else None)"

fun hexDecode :: "string \<Rightarrow> bytes option" where
  "hexDecode [] = Some []"
| "hexDecode [c] = None"
| "hexDecode (c # d # s) =
     (case (hexDigit c, hexDigit d, hexDecode s) of
        (Some a, Some b, Some bs) \<Rightarrow> Some (word_of_nat (16 * a + b) # bs)
      | _ \<Rightarrow> None)"

section \<open>Constants\<close>

definition MaxPrivacyScanStateRecordSize :: nat where "MaxPrivacyScanStateRecordSize = 1048576"
definition EventTypeDeposit :: string where "EventTypeDeposit = ''deposit''"
definition EventTypeWithdraw :: string where "EventTypeWithdraw = ''withdraw''"
definition EventTypeShieldedTransfer :: string where "EventTypeShieldedTransfer = ''shielded_transfer''"
definition EventTypeBatchTransferV1 :: string where "EventTypeBatchTransferV1 = ''batch_transfer''"
definition ActiveCircuitSetID :: string where "ActiveCircuitSetID = ''privacy-note-v1''"
definition AuditCircuitSetID :: string where "AuditCircuitSetID = ''privacy-note-v1-u128-audit-field-v1''"
definition FixedPayloadVersionV1 :: string where "FixedPayloadVersionV1 = ''privacy-fixed-v2''"
definition PrivacyScanSchemaVersionV2 :: string where "PrivacyScanSchemaVersionV2 = ''privacy-scan-v2''"
definition ViewTagLength :: nat where "ViewTagLength = 2"

text \<open>\<^verbatim>\<open>UserDisclosureMode.String\<close>; a value without a name prints as its decimal number.\<close>

definition mode_string :: "u32 \<Rightarrow> string" where
  "mode_string m =
     (if m = USER_DISCLOSURE_MODE_NONE then ''USER_DISCLOSURE_MODE_NONE''
      else if m = USER_DISCLOSURE_MODE_PUBLIC then ''USER_DISCLOSURE_MODE_PUBLIC''
      else if m = USER_DISCLOSURE_MODE_RECIPIENT_ENCRYPTED then ''USER_DISCLOSURE_MODE_RECIPIENT_ENCRYPTED''
      else (if sint m < 0 then ''-'' else []) @ dec_string (nat \<bar>sint m\<bar>))"

section \<open>The global sequence\<close>

definition GetPrivacyGlobalSequence :: "store \<Rightarrow> u64 res" where
  "GetPrivacyGlobalSequence s =
     (case kv_get s GetPrivacyGlobalSequenceKey of
        None \<Rightarrow> Inr 0
      | Some bz \<Rightarrow>
          if length bz = 0 then Inr 0
          else bindE (guardE (length bz = 8) (Errorf ''privacy global sequence state is corrupt'')) (\<lambda>_. Inr (un_be64 bz)))"

definition setPrivacyGlobalSequence :: "u64 \<Rightarrow> (store, unit) action" where
  "setPrivacyGlobalSequence sequence = writeM (kv_set GetPrivacyGlobalSequenceKey (be64 sequence))"

definition allocatePrivacyGlobalSequence :: "(store, u64) action" where
  "allocatePrivacyGlobalSequence =
     bindM (readM GetPrivacyGlobalSequence) (\<lambda>sequence.
     bindM (guardM (sequence \<noteq> MaxUint64) (Errorf ''privacy global sequence exhausted'')) (\<lambda>_.
     bindM (setPrivacyGlobalSequence (sequence + 1)) (\<lambda>_. retM (sequence + 1))))"

definition AllocatePrivacyGlobalSequence :: "audit_runtime option \<Rightarrow> exec_ctx \<Rightarrow> (store, u64) action" where
  "AllocatePrivacyGlobalSequence rt ctx =
     bindM (guardM (\<not> (rt \<noteq> None \<and> \<not> auditinit_Active ctx)) (Errorf ''raw sequence mutation is disabled for audit-field'')) (\<lambda>_.
     allocatePrivacyGlobalSequence)"

section \<open>Summaries\<close>

definition scanBytesAreZero :: "bytes \<Rightarrow> bool" where
  "scanBytesAreZero bs = list_all (\<lambda>b. b = 0) bs"

definition validatePrivacyScanPointV2 :: "'a crypto_env_scheme \<Rightarrow> string \<Rightarrow> bytes \<Rightarrow> unit res" where
  "validatePrivacyScanPointV2 env name encoded =
     bindE (mapErr (\<lambda>_. Errorf (name @ '' must be a canonical non-identity prime-subgroup point'')) (DecodeCanonicalPoint env encoded)) (\<lambda>_. Inr ())"

definition validatePrivacyScanActiveFieldV2 :: "string \<Rightarrow> bytes \<Rightarrow> unit res" where
  "validatePrivacyScanActiveFieldV2 name encoded =
     (case validateFieldElementBytesStrict encoded of
        Inl _ \<Rightarrow> Inl (Errorf (name @ '' must be an active canonical field element''))
      | Inr canonical \<Rightarrow> guardE (\<not> scanBytesAreZero canonical) (Errorf (name @ '' must be an active canonical field element'')))"

definition validatePrivacyScanSummaryNoAuditV2 :: "scan_summary \<Rightarrow> unit res" where
  "validatePrivacyScanSummaryNoAuditV2 summary =
     guardE (\<not> (ss_key_id summary \<noteq> [] \<or> ss_key_epoch summary \<noteq> 0 \<or> length (ss_target summary) \<noteq> 0))
       (Errorf ''privacy scan summary must use the zero audit sentinel'')"

definition validatePrivacyScanSummaryEventV2 :: "'a crypto_env_scheme \<Rightarrow> scan_summary \<Rightarrow> unit res" where
  "validatePrivacyScanSummaryEventV2 env summary =
     (if ss_event summary = EventTypeDeposit then
        bindE (guardE (\<not> (ss_output_count summary \<noteq> 1 \<or> length (ss_nullifiers summary) \<noteq> 0 \<or> length (ss_effect summary) \<noteq> 0))
          (Errorf ''privacy scan deposit summary requires one output and no nullifier/effect id'')) (\<lambda>_.
        validatePrivacyScanSummaryNoAuditV2 summary)
      else if ss_event summary = EventTypeWithdraw then
        bindE (guardE (\<not> (ss_output_count summary \<noteq> 0 \<or> length (ss_nullifiers summary) \<noteq> 1 \<or> length (ss_effect summary) \<noteq> 0))
          (Errorf ''privacy scan withdraw summary requires one nullifier, no outputs, and no effect id'')) (\<lambda>_.
        validatePrivacyScanSummaryNoAuditV2 summary)
      else if ss_event summary = EventTypeShieldedTransfer then
        bindE (guardE (\<not> (ss_output_count summary \<noteq> 2 \<or> length (ss_nullifiers summary) \<noteq> 2 \<or> length (ss_effect summary) \<noteq> 0))
          (Errorf ''privacy scan shielded transfer summary requires two nullifiers/outputs and no effect id'')) (\<lambda>_.
        bindE (guardE (\<not> (ss_key_id summary \<noteq> [] \<or> ss_key_epoch summary \<noteq> 0))
          (Errorf ''privacy scan shielded transfer summary must use the legacy zero audit id/epoch sentinel'')) (\<lambda>_.
        validatePrivacyScanPointV2 env ''privacy scan audit target'' (ss_target summary)))
      else if ss_event summary = EventTypeBatchTransferV1 then
        bindE (guardE (\<not> (length (ss_nullifiers summary) = 0 \<or> length (ss_nullifiers summary) > BatchJoinSplitV1MaxInputs \<or>
            ss_output_count summary = 0 \<or> unat (ss_output_count summary) > BatchJoinSplitV1MaxOutputs))
          (Errorf ''privacy scan batch summary count is outside the 1..16/1..32 contract'')) (\<lambda>_.
        bindE (guardE (\<not> (length (ss_effect summary) \<noteq> 32 \<or> scanBytesAreZero (ss_effect summary)))
          (Errorf ''privacy scan batch summary requires a non-zero 32-byte effect id'')) (\<lambda>_.
        bindE (ValidateAuditKeyIDV1 (ss_key_id summary)) (\<lambda>_.
        bindE (guardE (ss_key_epoch summary \<noteq> 0) (Errorf ''privacy scan batch summary audit key epoch must be positive'')) (\<lambda>_.
        validatePrivacyScanPointV2 env ''privacy scan audit target'' (ss_target summary)))))
      else Inl (Errorf ''unsupported privacy scan event type''))"

definition auditEventType :: "kind \<Rightarrow> string" where
  "auditEventType k =
     (if k = 1 then EventTypeDeposit else if k = 2 then EventTypeWithdraw else if k = 3 then EventTypeShieldedTransfer
      else if k = 4 then EventTypeBatchTransferV1 else [])"

text \<open>The last kind whose event type is the given one, zero when there is none.\<close>

definition auditEventKind :: "string \<Rightarrow> kind" where
  "auditEventKind ev = foldl (\<lambda>kind k. if auditEventType k = ev then k else kind) 0 [1, 2, 3, 4]"

definition validateAuditScanSummary :: "scan_summary \<Rightarrow> unit res" where
  "validateAuditScanSummary s =
     bindE (guardE (\<not> (ss_circuit_set s \<noteq> AuditCircuitSetID \<or> ss_key_epoch s = 0 \<or> length (ss_effect s) \<noteq> 32))
       (Errorf ''invalid audit scan identity'')) (\<lambda>_.
     case hexDecode (ss_key_id s) of
       None \<Rightarrow> Inl (Errorf ''invalid audit scan key ID'')
     | Some keyID \<Rightarrow>
         bindE (guardE (hex_of_bytes keyID = ss_key_id s) (Errorf ''invalid audit scan key ID'')) (\<lambda>_.
         bindE (ParseAuditKey (ss_target s) keyID) (\<lambda>_.
         ValidateActiveCounts (auditEventKind (ss_event s)) (word_of_nat (length (ss_nullifiers s))) (ucast (ss_output_count s)))))"

definition validatePrivacyScanSummaryV2 :: "'a crypto_env_scheme \<Rightarrow> scan_summary option \<Rightarrow> unit res" where
  "validatePrivacyScanSummaryV2 env so =
     (case so of
        None \<Rightarrow> Inl (Errorf ''privacy scan summary is required'')
      | Some summary \<Rightarrow>
          bindE (guardE (\<not> (ss_height summary < 0 \<or> ss_sequence summary = 0)) (Errorf ''privacy scan summary cursor is invalid'')) (\<lambda>_.
          bindE (guardE (\<not> (TrimSpace (ss_event summary) = [] \<or> ss_event summary \<noteq> TrimSpace (ss_event summary)))
            (Errorf ''privacy scan summary event_type is invalid'')) (\<lambda>_.
          bindE (guardE (\<not> (ss_circuit_set summary \<noteq> ActiveCircuitSetID \<and> ss_circuit_set summary \<noteq> AuditCircuitSetID))
            (Errorf ''privacy scan summary circuit_set_id'')) (\<lambda>_.
          bindE (guardE (ss_payload_version summary = FixedPayloadVersionV1) (Errorf ''privacy scan summary payload_version'')) (\<lambda>_.
          bindE (guardE (ss_schema_version summary = PrivacyScanSchemaVersionV2) (Errorf ''privacy scan summary scan_schema_version'')) (\<lambda>_.
          bindE (guardE (\<not> ss_output_count summary > 32) (Errorf ''privacy scan summary output_count exceeds 32'')) (\<lambda>_.
          bindE (guardE (\<not> length (ss_nullifiers summary) > 16) (Errorf ''privacy scan summary nullifier count exceeds 16'')) (\<lambda>_.
          bindE (ValidateDistinctCanonicalFieldElements ''privacy scan nullifier'' (ss_nullifiers summary)) (\<lambda>_.
          bindE (traverseE (\<lambda>n. guardE (n \<noteq> replicate fieldElementByteSize 0) (Errorf ''privacy scan nullifier must not be zero'')) (ss_nullifiers summary)) (\<lambda>_.
          bindE (guardE (\<not> (length (ss_tx_hash summary) \<noteq> 0 \<and> length (ss_tx_hash summary) \<noteq> 32))
            (Errorf ''privacy scan summary tx_hash must be empty or 32 bytes'')) (\<lambda>_.
          bindE (guardE (\<not> (length (ss_effect summary) \<noteq> 0 \<and> length (ss_effect summary) \<noteq> 32))
            (Errorf ''privacy scan summary effect_id must be empty or 32 bytes'')) (\<lambda>_.
          if ss_circuit_set summary = AuditCircuitSetID then validateAuditScanSummary summary
          else validatePrivacyScanSummaryEventV2 env summary))))))))))))"

section \<open>Outputs\<close>

definition validatePrivacyScanEmptyDisclosureV2 :: "scan_output \<Rightarrow> unit res" where
  "validatePrivacyScanEmptyDisclosureV2 out =
     guardE (\<not> (so_policy out \<noteq> 0 \<or> so_mode out \<noteq> [] \<or> length (so_user_digest out) \<noteq> 0 \<or> length (so_user_target out) \<noteq> 0 \<or>
         length (so_user_payload out) \<noteq> 0 \<or> length (so_full_digest out) \<noteq> 0 \<or> length (so_audit_payload out) \<noteq> 0 \<or> length (so_self_view out) \<noteq> 0))
       (Errorf ''privacy scan output must use exact zero disclosure sentinels'')"

definition scanUserDigest :: "'a crypto_env_scheme \<Rightarrow> scan_output \<Rightarrow> disclosure_plaintext \<Rightarrow> bytes res" where
  "scanUserDigest env out p =
     (if so_event out = EventTypeBatchTransferV1
      then bindE (ComputeBatchUserDisclosureDigestV1 env (batch_user_of (dp_index p) p)) (\<lambda>digest. Inr (be_of_nat 32 digest))
      else ComputeTransferDisclosureDigestBytes env (dp_policy p) (dp_index p) (so_commitment out) (dp_amount p) (dp_asset p)
             (dp_from p) (dp_to p) (dp_blinding p))"

definition validatePrivacyScanUserDisclosureV2 :: "'a crypto_env_scheme \<Rightarrow> scan_output \<Rightarrow> unit res" where
  "validatePrivacyScanUserDisclosureV2 env out =
     bindE (guardE (\<not> so_policy out > TransferPrivacyPolicyDiscloseAmountToFrom) (Errorf ''privacy scan user disclosure policy is invalid'')) (\<lambda>_.
     if so_policy out = TransferPrivacyPolicyAllPrivate then
       guardE (\<not> (so_mode out \<noteq> mode_string USER_DISCLOSURE_MODE_NONE \<or> length (so_user_digest out) \<noteq> 0 \<or> length (so_user_target out) \<noteq> 0 \<or>
           length (so_user_payload out) \<noteq> 0))
         (Errorf ''privacy scan all-private disclosure must use mode NONE and zero digest/target/payload'')
     else
       bindE (validatePrivacyScanActiveFieldV2 ''privacy scan user disclosure digest'' (so_user_digest out)) (\<lambda>_.
       if so_mode out = mode_string USER_DISCLOSURE_MODE_PUBLIC then
         bindE (guardE (length (so_user_target out) = 0) (Errorf ''privacy scan public user disclosure target must be empty'')) (\<lambda>_.
         bindE (mapErr (\<lambda>_. Errorf ''privacy scan public user disclosure is not canonical'') (UnmarshalDisclosurePlaintextV1 env (so_user_payload out))) (\<lambda>p.
         bindE (guardE (\<not> (dp_plane p \<noteq> DisclosurePlaneUserV1 \<or> dp_index p \<noteq> so_index out \<or> dp_policy p \<noteq> so_policy out \<or>
             putFixedField (dp_commitment p) \<noteq> so_commitment out))
           (Errorf ''privacy scan public user disclosure metadata does not match output'')) (\<lambda>_.
         bindE (mapErr (\<lambda>_. Errorf ''privacy scan public user disclosure digest does not match plaintext'') (scanUserDigest env out p)) (\<lambda>expected.
         guardE (expected = so_user_digest out) (Errorf ''privacy scan public user disclosure digest does not match plaintext'')))))
       else if so_mode out = mode_string USER_DISCLOSURE_MODE_RECIPIENT_ENCRYPTED then
         bindE (validatePrivacyScanPointV2 env ''privacy scan user disclosure target'' (so_user_target out)) (\<lambda>_.
         bindE (mapErr (\<lambda>_. Errorf ''privacy scan user disclosure envelope is invalid'')
           (UnwrapEncryptedEnvelopeV1 (so_user_payload out) EnvelopeUserDisclosureV1)) (\<lambda>_. Inr ()))
       else Inl (Errorf ''privacy scan user disclosure mode is invalid'')))"

definition validatePrivacyScanFullDisclosureV2 :: "scan_output \<Rightarrow> unit res" where
  "validatePrivacyScanFullDisclosureV2 out =
     bindE (validatePrivacyScanActiveFieldV2 ''privacy scan full disclosure digest'' (so_full_digest out)) (\<lambda>_.
     bindE (mapErr (\<lambda>_. Errorf ''privacy scan audit disclosure envelope is invalid'') (UnwrapEncryptedEnvelopeV1 (so_audit_payload out) EnvelopeAuditDisclosureV1)) (\<lambda>_.
     if length (so_self_view out) \<noteq> 0
     then bindE (mapErr (\<lambda>_. Errorf ''privacy scan self-view disclosure envelope is invalid'')
       (UnwrapEncryptedEnvelopeV1 (so_self_view out) EnvelopeSelfViewDisclosureV1)) (\<lambda>_. Inr ())
     else Inr ()))"

definition validatePrivacyScanOutputEventV2 :: "'a crypto_env_scheme \<Rightarrow> scan_output \<Rightarrow> unit res" where
  "validatePrivacyScanOutputEventV2 env out =
     (if so_event out = EventTypeDeposit then
        bindE (guardE (\<not> (length (so_ciphertext out) \<noteq> 0 \<or> length (so_view_tag out) \<noteq> 0))
          (Errorf ''privacy scan deposit output must use encrypted_note and an empty ciphertext/view tag'')) (\<lambda>_.
        bindE (mapErr (\<lambda>_. Errorf ''privacy scan deposit note envelope is invalid'') (UnwrapEncryptedEnvelopeV1 (so_encrypted_note out) EnvelopeDepositNoteV1)) (\<lambda>_.
        validatePrivacyScanEmptyDisclosureV2 out))
      else if so_event out = EventTypeShieldedTransfer \<or> so_event out = EventTypeBatchTransferV1 then
        bindE (guardE (\<not> (length (so_encrypted_note out) \<noteq> 0 \<or> length (so_view_tag out) \<noteq> ViewTagLength))
          (Errorf ''privacy scan transfer output must use ciphertext and an exact view tag'')) (\<lambda>_.
        bindE (mapErr (\<lambda>_. Errorf ''privacy scan transfer note envelope is invalid'') (UnwrapEncryptedEnvelopeV1 (so_ciphertext out) EnvelopeTransferNoteV1)) (\<lambda>_.
        if so_event out = EventTypeShieldedTransfer \<and> so_index out = 1 then validatePrivacyScanEmptyDisclosureV2 out
        else bindE (validatePrivacyScanUserDisclosureV2 env out) (\<lambda>_. validatePrivacyScanFullDisclosureV2 out)))
      else Inl (Errorf ''privacy scan event cannot contain an output''))"

definition validateAuditScanOutput :: "'a crypto_env_scheme \<Rightarrow> scan_output \<Rightarrow> unit res" where
  "validateAuditScanOutput env out =
     bindE (guardE (length (so_audit_payload out) = 0) (Errorf ''audit scan must not carry legacy audit ciphertext'')) (\<lambda>_.
     if so_event out = EventTypeDeposit \<or> (so_event out = EventTypeShieldedTransfer \<and> so_index out = 1) then validatePrivacyScanOutputEventV2 env out
     else
       bindE (guardE (\<not> (length (so_encrypted_note out) \<noteq> 0 \<or> length (so_view_tag out) \<noteq> ViewTagLength)) (Errorf ''invalid audit recovery output'')) (\<lambda>_.
       bindE (UnwrapEncryptedEnvelopeV1 (so_ciphertext out) EnvelopeTransferNoteV1) (\<lambda>_.
       bindE (validatePrivacyScanUserDisclosureV2 env out) (\<lambda>_.
       bindE (validatePrivacyScanActiveFieldV2 ''self full digest'' (so_full_digest out)) (\<lambda>_.
       if length (so_self_view out) > 0
       then bindE (UnwrapEncryptedEnvelopeV1 (so_self_view out) EnvelopeSelfViewDisclosureV1) (\<lambda>_. Inr ())
       else Inr ())))))"

definition validatePrivacyScanOutputV2 :: "'a crypto_env_scheme \<Rightarrow> scan_summary \<Rightarrow> scan_output option \<Rightarrow> u32 \<Rightarrow> unit res" where
  "validatePrivacyScanOutputV2 env summary oo expectedIndex =
     (case oo of
        None \<Rightarrow> Inl (Errorf ''privacy scan output is required'')
      | Some out \<Rightarrow>
          bindE (guardE (\<not> (so_height out \<noteq> ss_height summary \<or> so_sequence out \<noteq> ss_sequence summary \<or> so_index out \<noteq> expectedIndex))
            (Errorf ''privacy scan output cursor does not match summary/order'')) (\<lambda>_.
          bindE (guardE (\<not> (so_event out \<noteq> ss_event summary \<or> so_tx_hash out \<noteq> ss_tx_hash summary \<or> so_effect out \<noteq> ss_effect summary))
            (Errorf ''privacy scan output identity does not match summary'')) (\<lambda>_.
          bindE (guardE (\<not> (so_circuit_set out \<noteq> ss_circuit_set summary \<or> so_payload_version out \<noteq> ss_payload_version summary \<or>
              so_schema_version out \<noteq> ss_schema_version summary))
            (Errorf ''privacy scan output version does not match summary'')) (\<lambda>_.
          bindE (guardE (\<not> (so_key_id out \<noteq> ss_key_id summary \<or> so_key_epoch out \<noteq> ss_key_epoch summary \<or> so_target out \<noteq> ss_target summary))
            (Errorf ''privacy scan output audit identity does not match summary'')) (\<lambda>_.
          bindE (case validateFieldElementBytesStrict (so_commitment out) of
                   Inl _ \<Rightarrow> Inl (Errorf ''privacy scan output commitment must be an active canonical field element'')
                 | Inr c \<Rightarrow> guardE (c \<noteq> replicate fieldElementByteSize 0) (Errorf ''privacy scan output commitment must be an active canonical field element'')) (\<lambda>_.
          bindE (guardE (\<not> (length (so_view_tag out) \<noteq> 0 \<and> length (so_view_tag out) \<noteq> ViewTagLength))
            (Errorf ''privacy scan output view_tag must be empty or exact'')) (\<lambda>_.
          if ss_circuit_set summary = AuditCircuitSetID then validateAuditScanOutput env out
          else validatePrivacyScanOutputEventV2 env out)))))))"

definition validatePrivacyScanOutputStateV2 :: "'a crypto_env_scheme \<Rightarrow> scan_summary \<Rightarrow> scan_output option \<Rightarrow> u32 \<Rightarrow> store \<Rightarrow> unit res" where
  "validatePrivacyScanOutputStateV2 env summary oo expectedIndex s =
     bindE (validatePrivacyScanOutputV2 env summary oo expectedIndex) (\<lambda>_.
     bindE (guardE (so_leaf_found (the oo)) (Errorf ''privacy scan output leaf index must be present'')) (\<lambda>_.
     bindE (GetCommitmentIndex (so_commitment (the oo)) s) (\<lambda>leafIndex.
     guardE (leafIndex = Some (so_leaf_index (the oo))) (Errorf ''privacy scan output leaf index does not match commitment state''))))"

section \<open>Writing an event\<close>

definition GetPrivacyScanOutputEventPrefix :: "int \<Rightarrow> u64 \<Rightarrow> bytes" where
  "GetPrivacyScanOutputEventPrefix height sequence = KeyPrefixScanOutput # be64 (word_of_int height) @ be64 sequence"

definition storePrivacyScan :: "'a crypto_env_scheme \<Rightarrow> scan_summary option \<Rightarrow> scan_output option list \<Rightarrow> (store, unit) action" where
  "storePrivacyScan env so outs =
     bindM (readM (\<lambda>_. validatePrivacyScanSummaryV2 env so)) (\<lambda>_.
     let summary = the so; outputs = map the outs; prefix = GetPrivacyScanOutputEventPrefix (ss_height summary) (ss_sequence summary) in
     bindM (guardM ((word_of_nat (length outs) :: u32) = ss_output_count summary) (Errorf ''privacy scan output count does not match summary'')) (\<lambda>_.
     bindM (forM (enumerate 0 outs) (\<lambda>(i, oo).
       bindM (readM (validatePrivacyScanOutputStateV2 env summary oo (word_of_nat i))) (\<lambda>_.
       guardM (\<not> PrivacyScanOutputV2_Size (the oo) > MaxPrivacyScanStateRecordSize) (Errorf ''privacy scan output exceeds state record byte limit'')))) (\<lambda>_.
     bindM (guardM (\<not> PrivacyScanSummaryV2_Size summary > MaxPrivacyScanStateRecordSize) (Errorf ''privacy scan summary exceeds state record byte limit'')) (\<lambda>_.
     bindM (readM (\<lambda>s. guardE (\<not> kv_has s (GetPrivacyScanSequenceKey (ss_sequence summary)))
       (Errorf ''privacy scan global sequence is already indexed''))) (\<lambda>_.
     bindM (readM (\<lambda>s. guardE (\<not> kv_has s (GetPrivacyScanSummaryKey (ss_height summary) (ss_sequence summary)))
       (Errorf ''privacy scan summary cursor is already indexed''))) (\<lambda>_.
     bindM (readM (\<lambda>s. guardE (kv_range prefix (PrefixEndBytes prefix) s = []) (Errorf ''privacy scan event output prefix is already indexed''))) (\<lambda>_.
     bindM (forM outputs (\<lambda>out. readM (\<lambda>s. guardE (\<not> kv_has s (GetPrivacyScanOutputKey (so_height out) (so_sequence out) (so_index out)))
       (Errorf ''privacy scan output cursor is already indexed'')))) (\<lambda>_.
     bindM (writeM (kv_set (GetPrivacyScanSummaryKey (ss_height summary) (ss_sequence summary)) (PrivacyScanSummaryV2_Marshal summary))) (\<lambda>_.
     bindM (writeM (kv_set (GetPrivacyScanSequenceKey (ss_sequence summary)) (be64 (word_of_int (ss_height summary))))) (\<lambda>_.
     forM outputs (\<lambda>out. writeM (kv_set (GetPrivacyScanOutputKey (so_height out) (so_sequence out) (so_index out)) (PrivacyScanOutputV2_Marshal out)))))))))))))"

definition StorePrivacyScanV2 ::
  "'a crypto_env_scheme \<Rightarrow> audit_runtime option \<Rightarrow> exec_ctx \<Rightarrow> scan_summary option \<Rightarrow> scan_output option list \<Rightarrow> (store, unit) action" where
  "StorePrivacyScanV2 env rt ctx so outs =
     bindM (guardM (allowsGenesisStateImport rt ctx) (Errorf ''raw scan mutation is disabled for audit-field'')) (\<lambda>_. storePrivacyScan env so outs)"

end
