(* ===== verification/Tx_Wire.thy ===== *)
theory Tx_Wire
  imports Scan_Records
begin

text \<open>
  The codecs of the four audit messages and of the messages they contain (\<^verbatim>\<open>x/privacy/types/v2/tx.pb.go\<close>). A nested message is read into the
  message that the field already points to, so a repeated occurrence of the field merges, and the elements of a repeated field are
  fresh. Marshalling a transfer with a nil output dereferences it and panics, which is \<open>None\<close> here. The theorem of the theory is that the
  reader returns the message that the writer was given, in exactly as many bytes as \<^verbatim>\<open>Size\<close> announces.
\<close>

section \<open>Nested messages\<close>

definition optField :: "nat \<Rightarrow> ('v \<Rightarrow> bytes) \<Rightarrow> 'v option \<Rightarrow> (nat \<times> wire_value) list" where
  "optField n enc v = (case v of None \<Rightarrow> [] | Some x \<Rightarrow> [(n, WBytes (enc x))])"

definition setMsg ::
  "(nat \<Rightarrow> 'v handler option) \<Rightarrow> 'v \<Rightarrow> ('r \<Rightarrow> 'v option) \<Rightarrow> (('v option \<Rightarrow> 'v option) \<Rightarrow> 'r \<Rightarrow> 'r) \<Rightarrow> 'r handler" where
  "setMsg table blank get upd =
     HBytes (\<lambda>b m. bindE (unmarshalFields table (case get m of None \<Rightarrow> blank | Some v \<Rightarrow> v) b) (\<lambda>v. Inr (upd (\<lambda>_. Some v) m)))"

definition addMsg ::
  "(nat \<Rightarrow> 'v handler option) \<Rightarrow> 'v \<Rightarrow> (('v option list \<Rightarrow> 'v option list) \<Rightarrow> 'r \<Rightarrow> 'r) \<Rightarrow> 'r handler" where
  "addMsg table blank upd = HBytes (\<lambda>b m. bindE (unmarshalFields table blank b) (\<lambda>v. Inr (upd (\<lambda>vs. vs @ [Some v]) m)))"

section \<open>Outputs and authorisations\<close>

definition empty_effect :: output_effect where
  "empty_effect = \<lparr>oe_commitment = [], oe_ciphertext = [], oe_view_tag = [], oe_policy = 0, oe_mode = 0, oe_user_digest = [], oe_user_target = [],
     oe_user_payload = [], oe_full_digest = [], oe_self_view = []\<rparr>"

definition effect_fields :: "output_effect \<Rightarrow> (nat \<times> wire_value) list" where
  "effect_fields m =
     bytesField 1 (oe_commitment m) @ bytesField 2 (oe_ciphertext m) @ bytesField 3 (oe_view_tag m) @ numField 4 (ucast (oe_policy m)) @
     numField 5 (ucast (oe_mode m)) @ bytesField 6 (oe_user_digest m) @ bytesField 7 (oe_user_target m) @ bytesField 8 (oe_user_payload m) @
     bytesField 9 (oe_full_digest m) @ bytesField 10 (oe_self_view m)"

definition OutputEffect_Marshal :: "output_effect \<Rightarrow> bytes" where
  "OutputEffect_Marshal m = marshalFields (effect_fields m)"

definition effect_table :: "nat \<Rightarrow> output_effect handler option" where
  "effect_table = map_of
     [(1, setBytes oe_commitment_update), (2, setBytes oe_ciphertext_update), (3, setBytes oe_view_tag_update), (4, setNum ucast oe_policy_update),
      (5, setNum ucast oe_mode_update), (6, setBytes oe_user_digest_update), (7, setBytes oe_user_target_update), (8, setBytes oe_user_payload_update),
      (9, setBytes oe_full_digest_update), (10, setBytes oe_self_view_update)]"

definition OutputEffect_Unmarshal :: "bytes \<Rightarrow> output_effect res" where
  "OutputEffect_Unmarshal bs = unmarshalFields effect_table empty_effect bs"

definition empty_auth :: audit_auth where
  "empty_auth = \<lparr>au_key_id = [], au_epoch = 0, au_envelope = []\<rparr>"

definition auth_fields :: "audit_auth \<Rightarrow> (nat \<times> wire_value) list" where
  "auth_fields m = bytesField 1 (au_key_id m) @ numField 2 (au_epoch m) @ bytesField 3 (au_envelope m)"

definition AuditAuthorization_Marshal :: "audit_auth \<Rightarrow> bytes" where
  "AuditAuthorization_Marshal m = marshalFields (auth_fields m)"

definition auth_table :: "nat \<Rightarrow> audit_auth handler option" where
  "auth_table = map_of [(1, setBytes au_key_id_update), (2, setNum id au_epoch_update), (3, setBytes au_envelope_update)]"

definition AuditAuthorization_Unmarshal :: "bytes \<Rightarrow> audit_auth res" where
  "AuditAuthorization_Unmarshal bs = unmarshalFields auth_table empty_auth bs"

section \<open>Messages\<close>

definition empty_deposit :: msg_deposit where
  "empty_deposit = \<lparr>md_creator = [], md_amount = [], md_output = None, md_proof = [], md_expires = 0, md_audit = None\<rparr>"

definition deposit_fields :: "msg_deposit \<Rightarrow> (nat \<times> wire_value) list" where
  "deposit_fields m =
     bytesField 1 (string_bytes (md_creator m)) @ bytesField 2 (string_bytes (md_amount m)) @ optField 3 OutputEffect_Marshal (md_output m) @
     bytesField 4 (md_proof m) @ numField 5 (word_of_int (md_expires m)) @ optField 6 AuditAuthorization_Marshal (md_audit m)"

definition MsgDeposit_Marshal :: "msg_deposit \<Rightarrow> bytes" where
  "MsgDeposit_Marshal m = marshalFields (deposit_fields m)"

definition deposit_table :: "nat \<Rightarrow> msg_deposit handler option" where
  "deposit_table = map_of
     [(1, setString md_creator_update), (2, setString md_amount_update), (3, setMsg effect_table empty_effect md_output md_output_update),
      (4, setBytes md_proof_update), (5, setNum sint md_expires_update), (6, setMsg auth_table empty_auth md_audit md_audit_update)]"

definition MsgDeposit_Unmarshal :: "bytes \<Rightarrow> msg_deposit res" where
  "MsgDeposit_Unmarshal bs = unmarshalFields deposit_table empty_deposit bs"

definition empty_withdraw :: msg_withdraw where
  "empty_withdraw = \<lparr>mw_creator = [], mw_amount = [], mw_recipient = [], mw_root = [], mw_nullifier = [], mw_proof = [], mw_expires = 0, mw_audit = None\<rparr>"

definition withdraw_fields :: "msg_withdraw \<Rightarrow> (nat \<times> wire_value) list" where
  "withdraw_fields m =
     bytesField 1 (string_bytes (mw_creator m)) @ bytesField 2 (string_bytes (mw_amount m)) @ bytesField 3 (string_bytes (mw_recipient m)) @
     bytesField 4 (mw_root m) @ bytesField 5 (mw_nullifier m) @ bytesField 6 (mw_proof m) @ numField 7 (word_of_int (mw_expires m)) @
     optField 8 AuditAuthorization_Marshal (mw_audit m)"

definition MsgWithdraw_Marshal :: "msg_withdraw \<Rightarrow> bytes" where
  "MsgWithdraw_Marshal m = marshalFields (withdraw_fields m)"

definition withdraw_table :: "nat \<Rightarrow> msg_withdraw handler option" where
  "withdraw_table = map_of
     [(1, setString mw_creator_update), (2, setString mw_amount_update), (3, setString mw_recipient_update), (4, setBytes mw_root_update),
      (5, setBytes mw_nullifier_update), (6, setBytes mw_proof_update), (7, setNum sint mw_expires_update),
      (8, setMsg auth_table empty_auth mw_audit mw_audit_update)]"

definition MsgWithdraw_Unmarshal :: "bytes \<Rightarrow> msg_withdraw res" where
  "MsgWithdraw_Unmarshal bs = unmarshalFields withdraw_table empty_withdraw bs"

definition empty_transfer :: msg_transfer where
  "empty_transfer = \<lparr>mt_creator = [], mt_root = [], mt_nullifiers = [], mt_outputs = [], mt_proof = [], mt_expires = 0, mt_audit = None\<rparr>"

definition transfer_fields :: "msg_transfer \<Rightarrow> (nat \<times> wire_value) list" where
  "transfer_fields m =
     bytesField 1 (string_bytes (mt_creator m)) @ bytesField 2 (mt_root m) @ repeatedField 3 (mt_nullifiers m) @
     repeatedField 4 (map (OutputEffect_Marshal \<circ> the) (mt_outputs m)) @ bytesField 5 (mt_proof m) @ numField 6 (word_of_int (mt_expires m)) @
     optField 7 AuditAuthorization_Marshal (mt_audit m)"

definition MsgTransfer_Marshal :: "msg_transfer \<Rightarrow> bytes option" where
  "MsgTransfer_Marshal m = (if None \<in> set (mt_outputs m) then None else Some (marshalFields (transfer_fields m)))"

definition transfer_table :: "nat \<Rightarrow> msg_transfer handler option" where
  "transfer_table = map_of
     [(1, setString mt_creator_update), (2, setBytes mt_root_update), (3, addBytes mt_nullifiers_update),
      (4, addMsg effect_table empty_effect mt_outputs_update), (5, setBytes mt_proof_update), (6, setNum sint mt_expires_update),
      (7, setMsg auth_table empty_auth mt_audit mt_audit_update)]"

definition MsgTransfer_Unmarshal :: "bytes \<Rightarrow> msg_transfer res" where
  "MsgTransfer_Unmarshal bs = unmarshalFields transfer_table empty_transfer bs"

section \<open>Nested fields\<close>

lemma optField_tags [codec_simps]: "0 < n \<Longrightarrow> n < 2 ^ 28 \<Longrightarrow> list_all tag_ok (optField n enc v)"
  by (auto simp: optField_def tag_ok_def split: option.splits)

lemma optField_length [codec_simps]: "n < 16 \<Longrightarrow> length (marshalFields (optField n enc v)) = szOpt (\<lambda>x. length (enc x)) v"
  using tag_sov(1) [of 2 n] by (auto simp: optField_def marshalFields_def szOpt_def szMsg_def split: option.splits)

lemma apply_setMsg:
  assumes "table n = Some (setMsg inner blank get upd)" "\<And>x. v = Some x \<Longrightarrow> unmarshalFields inner blank (enc x) = Inr x"
    and "get m = None" "upd (\<lambda>_. None) m = m"
  shows "applyFields table (optField n enc v @ fs) m = applyFields table fs (upd (\<lambda>_. v) m)"
  using assms by (auto simp: optField_def setMsg_def split: option.splits)

lemma apply_addMsg:
  assumes "table n = Some (addMsg inner blank upd)" "\<And>x. x \<in> set xs \<Longrightarrow> unmarshalFields inner blank (enc x) = Inr x"
    and "\<And>as b. upd (\<lambda>vs. vs @ [b]) (upd (\<lambda>_. as) m) = upd (\<lambda>_. as @ [b]) m" "upd (\<lambda>_. []) m = m"
  shows "applyFields table (repeatedField n (map enc xs) @ fs) m = applyFields table fs (upd (\<lambda>_. map Some xs) m)"
proof -
  have "applyFields table (repeatedField n (map enc ys) @ fs) (upd (\<lambda>_. as) m) = applyFields table fs (upd (\<lambda>_. as @ map Some ys) m)"
    if "set ys \<subseteq> set xs" for as ys
    using that assms(1-3) by (induction ys arbitrary: as) (auto simp: repeatedField_def addMsg_def)
  from this [of xs "[]"] show ?thesis using assms(4) by simp
qed

lemma effect_lookup:
  "effect_table 1 = Some (setBytes oe_commitment_update)" "effect_table 2 = Some (setBytes oe_ciphertext_update)"
  "effect_table 3 = Some (setBytes oe_view_tag_update)" "effect_table 4 = Some (setNum ucast oe_policy_update)"
  "effect_table 5 = Some (setNum ucast oe_mode_update)" "effect_table 6 = Some (setBytes oe_user_digest_update)"
  "effect_table 7 = Some (setBytes oe_user_target_update)" "effect_table 8 = Some (setBytes oe_user_payload_update)"
  "effect_table 9 = Some (setBytes oe_full_digest_update)" "effect_table 10 = Some (setBytes oe_self_view_update)"
  by (simp_all add: effect_table_def)

lemmas effect_steps =
  apply_setBytes [of effect_table 1 oe_commitment_update] apply_setBytes [of effect_table 2 oe_ciphertext_update]
  apply_setBytes [of effect_table 3 oe_view_tag_update] apply_setNum [of effect_table 4 "ucast" oe_policy_update]
  apply_setNum [of effect_table 5 "ucast" oe_mode_update] apply_setBytes [of effect_table 6 oe_user_digest_update]
  apply_setBytes [of effect_table 7 oe_user_target_update] apply_setBytes [of effect_table 8 oe_user_payload_update]
  apply_setBytes [of effect_table 9 oe_full_digest_update] apply_setBytes [of effect_table 10 oe_self_view_update]

lemma effect_applied: "applyFields effect_table (effect_fields m @ []) empty_effect = Inr m"
  unfolding effect_fields_def append_assoc
  by (simp add: effect_steps effect_lookup empty_effect_def u32_back del: append_Nil2 One_nat_def)

lemma effect_size: "length (OutputEffect_Marshal m) = OutputEffect_Size m"
  by (simp add: OutputEffect_Marshal_def OutputEffect_Size_def effect_fields_def codec_simps)

lemma effect_back:
  assumes "OutputEffect_Size m < 2 ^ 63" shows "unmarshalFields effect_table empty_effect (OutputEffect_Marshal m) = Inr m"
  unfolding OutputEffect_Marshal_def
  by (rule unmarshal_marshal) (use effect_applied assms effect_size [of m] in \<open>simp_all add: OutputEffect_Marshal_def effect_fields_def codec_simps\<close>)

lemma auth_size: "length (AuditAuthorization_Marshal m) = AuditAuthorization_Size m"
  by (simp add: AuditAuthorization_Marshal_def AuditAuthorization_Size_def auth_fields_def codec_simps)

lemma auth_lookup:
  "auth_table 1 = Some (setBytes au_key_id_update)" "auth_table 2 = Some (setNum id au_epoch_update)" "auth_table 3 = Some (setBytes au_envelope_update)"
  by (simp_all add: auth_table_def)

lemmas auth_steps =
  apply_setBytes [of auth_table 1 au_key_id_update] apply_setNum [of auth_table 2 "id" au_epoch_update] apply_setBytes [of auth_table 3 au_envelope_update]

lemma auth_applied: "applyFields auth_table (auth_fields m @ []) empty_auth = Inr m"
  unfolding auth_fields_def append_assoc
  by (simp add: auth_steps auth_lookup empty_auth_def del: append_Nil2 One_nat_def)

lemma auth_back:
  assumes "AuditAuthorization_Size m < 2 ^ 63" shows "unmarshalFields auth_table empty_auth (AuditAuthorization_Marshal m) = Inr m"
  unfolding AuditAuthorization_Marshal_def
  by (rule unmarshal_marshal) (use auth_applied assms auth_size [of m] in \<open>simp_all add: AuditAuthorization_Marshal_def auth_fields_def codec_simps\<close>)

section \<open>The messages come back\<close>

lemma szOpt_part: "v = Some x \<Longrightarrow> f x < szOpt f v"
  by (simp add: szOpt_def szMsg_def)

lemma deposit_lookup:
  "deposit_table 1 = Some (setString md_creator_update)" "deposit_table 2 = Some (setString md_amount_update)"
  "deposit_table 3 = Some (setMsg effect_table empty_effect md_output md_output_update)" "deposit_table 4 = Some (setBytes md_proof_update)"
  "deposit_table 5 = Some (setNum sint md_expires_update)" "deposit_table 6 = Some (setMsg auth_table empty_auth md_audit md_audit_update)"
  by (simp_all add: deposit_table_def)

lemmas deposit_steps =
  apply_setString [of deposit_table 1 md_creator_update] apply_setString [of deposit_table 2 md_amount_update]
  apply_setMsg [of deposit_table 3 effect_table empty_effect md_output md_output_update] apply_setBytes [of deposit_table 4 md_proof_update]
  apply_setNum [of deposit_table 5 "sint" md_expires_update] apply_setMsg [of deposit_table 6 auth_table empty_auth md_audit md_audit_update]

lemma deposit_size: "length (MsgDeposit_Marshal m) = MsgDeposit_Size m"
  by (simp add: MsgDeposit_Marshal_def MsgDeposit_Size_def deposit_fields_def codec_simps effect_size auth_size)

lemma deposit_applied:
  assumes "int64 (md_expires m)" "MsgDeposit_Size m < 2 ^ 63"
  shows "applyFields deposit_table (deposit_fields m @ []) empty_deposit = Inr m"
proof -
  have "unmarshalFields effect_table empty_effect (OutputEffect_Marshal x) = Inr x" if "md_output m = Some x" for x
    using szOpt_part [OF that, of OutputEffect_Size] assms(2) by (intro effect_back) (simp add: MsgDeposit_Size_def)
  moreover have "unmarshalFields auth_table empty_auth (AuditAuthorization_Marshal x) = Inr x" if "md_audit m = Some x" for x
    using szOpt_part [OF that, of AuditAuthorization_Size] assms(2) by (intro auth_back) (simp add: MsgDeposit_Size_def)
  ultimately show ?thesis using assms(1) unfolding deposit_fields_def append_assoc
    by (simp add: deposit_steps deposit_lookup empty_deposit_def int64_def height_back del: append_Nil2 One_nat_def)
qed

lemma deposit_back:
  assumes "int64 (md_expires m)" "MsgDeposit_Size m < 2 ^ 63"
  shows "MsgDeposit_Unmarshal (MsgDeposit_Marshal m) = Inr m"
  unfolding MsgDeposit_Unmarshal_def MsgDeposit_Marshal_def
  by (rule unmarshal_marshal)
    (use deposit_applied [OF assms] assms(2) deposit_size [of m] in \<open>simp_all add: MsgDeposit_Marshal_def deposit_fields_def codec_simps\<close>)

lemma withdraw_lookup:
  "withdraw_table 1 = Some (setString mw_creator_update)" "withdraw_table 2 = Some (setString mw_amount_update)"
  "withdraw_table 3 = Some (setString mw_recipient_update)" "withdraw_table 4 = Some (setBytes mw_root_update)"
  "withdraw_table 5 = Some (setBytes mw_nullifier_update)" "withdraw_table 6 = Some (setBytes mw_proof_update)"
  "withdraw_table 7 = Some (setNum sint mw_expires_update)" "withdraw_table 8 = Some (setMsg auth_table empty_auth mw_audit mw_audit_update)"
  by (simp_all add: withdraw_table_def)

lemmas withdraw_steps =
  apply_setString [of withdraw_table 1 mw_creator_update] apply_setString [of withdraw_table 2 mw_amount_update]
  apply_setString [of withdraw_table 3 mw_recipient_update] apply_setBytes [of withdraw_table 4 mw_root_update]
  apply_setBytes [of withdraw_table 5 mw_nullifier_update] apply_setBytes [of withdraw_table 6 mw_proof_update]
  apply_setNum [of withdraw_table 7 "sint" mw_expires_update] apply_setMsg [of withdraw_table 8 auth_table empty_auth mw_audit mw_audit_update]

lemma withdraw_size: "length (MsgWithdraw_Marshal m) = MsgWithdraw_Size m"
  by (simp add: MsgWithdraw_Marshal_def MsgWithdraw_Size_def withdraw_fields_def codec_simps auth_size)

lemma withdraw_applied:
  assumes "int64 (mw_expires m)" "MsgWithdraw_Size m < 2 ^ 63"
  shows "applyFields withdraw_table (withdraw_fields m @ []) empty_withdraw = Inr m"
proof -
  have "unmarshalFields auth_table empty_auth (AuditAuthorization_Marshal x) = Inr x" if "mw_audit m = Some x" for x
    using szOpt_part [OF that, of AuditAuthorization_Size] assms(2) by (intro auth_back) (simp add: MsgWithdraw_Size_def)
  then show ?thesis using assms(1) unfolding withdraw_fields_def append_assoc
    by (simp add: withdraw_steps withdraw_lookup empty_withdraw_def int64_def height_back del: append_Nil2 One_nat_def)
qed

lemma withdraw_back:
  assumes "int64 (mw_expires m)" "MsgWithdraw_Size m < 2 ^ 63"
  shows "MsgWithdraw_Unmarshal (MsgWithdraw_Marshal m) = Inr m"
  unfolding MsgWithdraw_Unmarshal_def MsgWithdraw_Marshal_def
  by (rule unmarshal_marshal)
    (use withdraw_applied [OF assms] assms(2) withdraw_size [of m] in \<open>simp_all add: MsgWithdraw_Marshal_def withdraw_fields_def codec_simps\<close>)

lemma transfer_lookup:
  "transfer_table 1 = Some (setString mt_creator_update)" "transfer_table 2 = Some (setBytes mt_root_update)"
  "transfer_table 3 = Some (addBytes mt_nullifiers_update)" "transfer_table 4 = Some (addMsg effect_table empty_effect mt_outputs_update)"
  "transfer_table 5 = Some (setBytes mt_proof_update)" "transfer_table 6 = Some (setNum sint mt_expires_update)"
  "transfer_table 7 = Some (setMsg auth_table empty_auth mt_audit mt_audit_update)"
  by (simp_all add: transfer_table_def)

lemmas transfer_steps =
  apply_setString [of transfer_table 1 mt_creator_update] apply_setBytes [of transfer_table 2 mt_root_update]
  apply_addBytes [of transfer_table 3 mt_nullifiers_update] apply_addMsg [of transfer_table 4 effect_table empty_effect mt_outputs_update]
  apply_setBytes [of transfer_table 5 mt_proof_update] apply_setNum [of transfer_table 6 "sint" mt_expires_update]
  apply_setMsg [of transfer_table 7 auth_table empty_auth mt_audit mt_audit_update]

text \<open>The outputs of a transfer without nil ones.\<close>

lemma outputs_present:
  assumes "None \<notin> set outs" obtains xs where "outs = map Some xs"
proof
  show "outs = map Some (map the outs)" using assms by (induction outs) auto
qed

lemma transfer_size:
  assumes "None \<notin> set (mt_outputs m)"
  shows "length (marshalFields (transfer_fields m)) = MsgTransfer_Size m"
proof -
  obtain xs where "mt_outputs m = map Some xs" using outputs_present [OF assms] .
  then show ?thesis by (simp add: MsgTransfer_Size_def transfer_fields_def codec_simps auth_size effect_size o_def)
qed

lemma transfer_applied:
  assumes "int64 (mt_expires m)" "MsgTransfer_Size m < 2 ^ 63" "None \<notin> set (mt_outputs m)"
  shows "applyFields transfer_table (transfer_fields m @ []) empty_transfer = Inr m"
proof -
  obtain xs where xs: "mt_outputs m = map Some xs" using outputs_present [OF assms(3)] .
  have "unmarshalFields effect_table empty_effect (OutputEffect_Marshal x) = Inr x" if "x \<in> set xs" for x
  proof (rule effect_back)
    have "szMsg (OutputEffect_Size x) \<le> sum_list (map (\<lambda>x. szMsg (OutputEffect_Size x)) xs)" using that by (intro member_le_sum_list) auto
    then show "OutputEffect_Size x < 2 ^ 63" using assms(2) by (simp add: MsgTransfer_Size_def xs o_def szMsg_def)
  qed
  moreover have "unmarshalFields auth_table empty_auth (AuditAuthorization_Marshal x) = Inr x" if "mt_audit m = Some x" for x
    using szOpt_part [OF that, of AuditAuthorization_Size] assms(2) by (intro auth_back) (simp add: MsgTransfer_Size_def)
  moreover have "map (OutputEffect_Marshal \<circ> the) (map Some xs) = map OutputEffect_Marshal xs" by simp
  ultimately show ?thesis using assms(1) unfolding transfer_fields_def append_assoc xs
    by (simp add: transfer_steps transfer_lookup empty_transfer_def int64_def height_back xs [symmetric] del: append_Nil2 One_nat_def map_map)
qed

lemma transfer_back:
  assumes "int64 (mt_expires m)" "MsgTransfer_Size m < 2 ^ 63" "None \<notin> set (mt_outputs m)"
  shows "MsgTransfer_Unmarshal (marshalFields (transfer_fields m)) = Inr m"
  unfolding MsgTransfer_Unmarshal_def
  by (rule unmarshal_marshal) (use transfer_applied [OF assms] assms(2) transfer_size [OF assms(3)] in \<open>simp_all add: transfer_fields_def codec_simps\<close>)

section \<open>The codec of the messages\<close>

text \<open>C37. Reading what was marshalled returns the message, for the deposit, the withdrawal and the two transfers, nested outputs and
  authorisation included; and the encoding has exactly the length that \<^verbatim>\<open>Size\<close> announces, which is what the size guards of the handlers
  look at. Marshalling a transfer fails exactly on a nil output. The expiry is an \<^verbatim>\<open>int64\<close>, and a message is shorter than the largest \<^verbatim>\<open>int\<close>.
\<close>

theorem message_codec:
  assumes "int64 (md_expires d)" "MsgDeposit_Size d < 2 ^ 63" "int64 (mw_expires w)" "MsgWithdraw_Size w < 2 ^ 63"
    and "int64 (mt_expires t)" "MsgTransfer_Size t < 2 ^ 63" "None \<notin> set (mt_outputs t)"
  shows "(MsgDeposit_Unmarshal (MsgDeposit_Marshal d) = Inr d \<and> length (MsgDeposit_Marshal d) = MsgDeposit_Size d) \<and>
    (MsgWithdraw_Unmarshal (MsgWithdraw_Marshal w) = Inr w \<and> length (MsgWithdraw_Marshal w) = MsgWithdraw_Size w) \<and>
    (\<exists>bs. MsgTransfer_Marshal t = Some bs \<and> MsgTransfer_Unmarshal bs = Inr t \<and> length bs = MsgTransfer_Size t)"
  using deposit_back [OF assms(1,2)] deposit_size withdraw_back [OF assms(3,4)] withdraw_size transfer_back [OF assms(5-7)] transfer_size [OF assms(7)] assms(7)
  by (simp add: MsgTransfer_Marshal_def)

definition sample_effect :: output_effect where
  "sample_effect = empty_effect\<lparr>oe_commitment := [7], oe_policy := 300\<rparr>"

definition sample_deposit_msg :: msg_deposit where
  "sample_deposit_msg = empty_deposit\<lparr>md_output := Some sample_effect, md_expires := 5\<rparr>"

definition sample_withdraw_msg :: msg_withdraw where
  "sample_withdraw_msg = empty_withdraw\<lparr>mw_creator := ''c''\<rparr>"

definition sample_transfer_msg :: msg_transfer where
  "sample_transfer_msg = empty_transfer\<lparr>mt_nullifiers := [[1], [2]], mt_outputs := [Some sample_effect], mt_audit := Some empty_auth\<rparr>"

lemmas sample_msg_defs = sample_deposit_msg_def sample_withdraw_msg_def sample_transfer_msg_def sample_effect_def empty_deposit_def empty_withdraw_def
  empty_transfer_def empty_effect_def empty_auth_def

lemma sov_ten: "sov w \<le> 10"
  using sov_le [of w 64] unsigned_less [of w] by simp

lemma sample_sizes: "MsgDeposit_Size sample_deposit_msg < 2 ^ 63" "MsgWithdraw_Size sample_withdraw_msg < 2 ^ 63" "MsgTransfer_Size sample_transfer_msg < 2 ^ 63"
proof -
  have e: "OutputEffect_Size sample_effect \<le> 23"
    using sov_ten [of 300] sov_ten [of 1] by (simp add: OutputEffect_Size_def sample_msg_defs szNum_def szBytes_def szMsg_def)
  have "szMsg n \<le> n + 11" for n using sov_ten by (simp add: szMsg_def)
  note sz = this [of "OutputEffect_Size sample_effect"] this [of 1] this [of 0]
  show "MsgDeposit_Size sample_deposit_msg < 2 ^ 63"
    using e sz sov_ten [of 5] by (simp add: MsgDeposit_Size_def sample_deposit_msg_def empty_deposit_def szOpt_def szNum_def)
  show "MsgWithdraw_Size sample_withdraw_msg < 2 ^ 63"
    using sz by (simp add: MsgWithdraw_Size_def sample_withdraw_msg_def empty_withdraw_def szOpt_def szNum_def szBytes_def)
  show "MsgTransfer_Size sample_transfer_msg < 2 ^ 63"
    using e sz by (simp add: MsgTransfer_Size_def sample_transfer_msg_def empty_transfer_def empty_auth_def AuditAuthorization_Size_def szOpt_def szNum_def)
qed

theorem message_codec_witness:
  "MsgDeposit_Unmarshal (MsgDeposit_Marshal sample_deposit_msg) = Inr sample_deposit_msg \<and>
   MsgWithdraw_Unmarshal (MsgWithdraw_Marshal sample_withdraw_msg) = Inr sample_withdraw_msg \<and>
   (\<exists>bs. MsgTransfer_Marshal sample_transfer_msg = Some bs \<and> MsgTransfer_Unmarshal bs = Inr sample_transfer_msg)"
  using message_codec [OF _ sample_sizes(1) _ sample_sizes(2) _ sample_sizes(3)] by (auto simp: sample_msg_defs int64_def)

end
