(* ===== verification/Audit_Public.thy ===== *)
theory Audit_Public
  imports Privacy_Scan Reserve Principal Asset_Registry Audit_Cipher Tx_Wire
begin

text \<open>
  The public side of an audit transition (\<^verbatim>\<open>x/privacy/keeper\<close>: \<^verbatim>\<open>audit_public.go\<close>, \<^verbatim>\<open>audit_records.go\<close>, the projections of \<^verbatim>\<open>audit_apply.go\<close> and the
  charge of \<^verbatim>\<open>audit_msg_server.go\<close>): the record of a transition with its 23 public inputs, derived from the message and the state, the scan
  records that the transition will write, and the gas charged for them beforehand. The verification of a proof and the hook that tests
  install between stages are fields of the environment.
\<close>

record circuit_identity =
  ci_circuit :: string
  ci_vk_sha256 :: string
  ci_schema_sha256 :: string

text \<open>\<open>runtime\<close> is \<^verbatim>\<open>k.audit\<close>; \<open>audit_on\<close> of the keeper environment tells whether it is set. \<open>verify_proof\<close> is \<^verbatim>\<open>VerifyProof\<close> of the artifact
  registry with the identity of the runtime.\<close>

record 'b app_env = "'b msg_env" +
  runtime :: "audit_runtime option"
  identity_circuits :: "circuit_identity list"
  verify_proof :: "string \<Rightarrow> bytes \<Rightarrow> nat list \<Rightarrow> unit res"
  transition_hook :: "string \<Rightarrow> error option"

section \<open>Records\<close>

record output_ref =
  orf_commitment :: bytes
  orf_leaf :: u64

record transparent_effect =
  tf_kind :: kind
  tf_from :: bytes
  tf_to :: bytes
  tf_denom :: string
  tf_amount :: bytes

record transition_record =
  tr_height :: u64
  tr_origin :: audit_origin
  tr_kind :: kind
  tr_network :: bytes
  tr_set_id :: string
  tr_vk_hash :: bytes
  tr_schema_hash :: bytes
  tr_pi :: "bytes list"
  tr_proof :: bytes
  tr_key_id :: bytes
  tr_epoch :: u64
  tr_suite :: u16
  tr_pk :: bytes
  tr_envelope :: bytes
  tr_aux_hash :: bytes
  tr_context_hash :: bytes
  tr_cipher_root :: cipher_root
  tr_root :: bytes
  tr_inputs :: "bytes list"
  tr_outputs :: "output_ref list"
  tr_transparent :: "transparent_effect option"

definition CircuitDepositAuditField :: string where "CircuitDepositAuditField = ''deposit-audit-field-u128-v1''"
definition CircuitSpendAuditField :: string where "CircuitSpendAuditField = ''spend-audit-field-u128-v1''"
definition CircuitJoinSplitAuditField :: string where "CircuitJoinSplitAuditField = ''joinsplit-2x2-audit-field-u128-v1''"
definition CircuitBatchJoinSplitAuditField :: string where "CircuitBatchJoinSplitAuditField = ''batch-joinsplit-16x32-audit-field-u128-v1''"

definition AuditFieldCircuitIDs :: "string list" where
  "AuditFieldCircuitIDs = [CircuitDepositAuditField, CircuitSpendAuditField, CircuitJoinSplitAuditField, CircuitBatchJoinSplitAuditField]"

definition auditCircuitID :: "kind \<Rightarrow> string res" where
  "auditCircuitID k = bindE (guardE (\<not> (k < 1 \<or> k > 4)) (Errorf ''invalid audit kind'')) (\<lambda>_. Inr (AuditFieldCircuitIDs ! (unat k - 1)))"

definition auditVectorRoot :: "'a crypto_env_scheme \<Rightarrow> kind \<Rightarrow> string \<Rightarrow> bytes list \<Rightarrow> bytes res" where
  "auditVectorRoot env k label vals =
     (if length vals = 0 then Inr ZeroField32
      else let capacity = (if k = KindBatch16x32 then (if label = BatchVectorNullifierV1 then 16 else 32) else length vals);
               vector = map (\<lambda>i. Some (if i < length vals then int (be_to_nat (vals ! i)) else 0)) [0 ..< capacity]
           in bindE (ComputeBatchVectorRootV1 env label (length vals) vector) (\<lambda>v. ParseField32 (be_of_nat 32 v)))"

section \<open>Public inputs\<close>

text \<open>\<^verbatim>\<open>copy(dst[:], src)\<close>.\<close>

definition copyInto :: "bytes \<Rightarrow> bytes \<Rightarrow> bytes" where
  "copyInto dst src = take (length dst) src @ drop (length src) dst"

fun identityHashes :: "string \<Rightarrow> circuit_identity list \<Rightarrow> bytes \<times> bytes \<Rightarrow> (bytes \<times> bytes) res" where
  "identityHashes cid [] acc = Inr acc"
| "identityHashes cid (c # cs) acc =
     (if ci_circuit c = cid then
        case hexDecode (ci_vk_sha256 c) of
          None \<Rightarrow> Inl (Errorf ''encoding/hex: invalid'')
        | Some vk \<Rightarrow>
            (case hexDecode (ci_schema_sha256 c) of
               None \<Rightarrow> Inl (Errorf ''encoding/hex: invalid'')
             | Some schema \<Rightarrow> identityHashes cid cs (copyInto (fst acc) vk, copyInto (snd acc) schema))
      else identityHashes cid cs acc)"

definition publicOutput :: "store \<Rightarrow> output_effect \<Rightarrow> (bytes \<times> bytes \<times> bytes) res" where
  "publicOutput s x =
     bindE (ParseField32 (oe_commitment x)) (\<lambda>c.
     bindE (HasCommitment (oe_commitment x) s) (\<lambda>found.
     bindE (guardE (\<not> found) (Errorf ''audit commitment already exists'')) (\<lambda>_.
     bindE (optionalField32 (oe_user_digest x)) (\<lambda>user.
     bindE (optionalField32 (oe_full_digest x)) (\<lambda>full. Inr (c, user, full))))))"

definition zeroBatchFieldVector :: "nat \<Rightarrow> bigint list" where
  "zeroBatchFieldVector n = replicate n (Some 0)"

text \<open>The inputs 13 and 14.\<close>

definition publicDisclosures :: "'a crypto_env_scheme \<Rightarrow> kind \<Rightarrow> output_effect list \<Rightarrow> bytes list \<Rightarrow> bytes list \<Rightarrow> (bytes \<times> bytes) res" where
  "publicDisclosures env k outputs users fulls =
     (if k = KindTransfer2x2 then
        bindE (ParseField32 (be_of_nat 32 (MimcBig env [Some (int (DomainFieldV1 ''clairveil.audit.user-2x2.v1'')),
          Some (int (unat (oe_policy (outputs ! 0)))), Some (int (be_to_nat (users ! 0)))]))) (\<lambda>user. Inr (user, fulls ! 0))
      else if k = KindBatch16x32 then
        let policies = map (\<lambda>i. if i < length outputs then oe_policy (outputs ! i) else 0) [0 ..< 32];
            digests = map (\<lambda>i. if i < length outputs then Some (int (be_to_nat (users ! i))) else zeroBatchFieldVector 32 ! i) [0 ..< 32]
        in bindE (ComputeBatchUserDisclosureVectorRootV1 env (length outputs) policies digests) (\<lambda>userRoot.
           bindE (ParseField32 (be_of_nat 32 userRoot)) (\<lambda>user.
           bindE (auditVectorRoot env k BatchVectorFullDisclosureV1 fulls) (\<lambda>full. Inr (user, full))))
      else Inr (ZeroField32, ZeroField32))"

text \<open>The coin of a message; the zero coin when it carries none.\<close>

definition vm_Coin :: "validated_msg \<Rightarrow> coin" where
  "vm_Coin m = (case vm_coin m of None \<Rightarrow> \<lparr>coin_denom = [], coin_amount = 0\<rparr> | Some c \<Rightarrow> c)"

text \<open>The inputs 15 to 18 with the transparent effect.\<close>

definition publicPrincipal ::
  "('b, 'm) msg_env_scheme \<Rightarrow> validated_msg \<Rightarrow> store \<Rightarrow> ((bytes \<times> bytes \<times> bytes \<times> bytes) \<times> transparent_effect option) res" where
  "publicPrincipal env m s =
     (if vm_kind m = 1 \<or> vm_kind m = 2 then
        let c = vm_Coin m in
        bindE (RequireRegisteredAssetV1 env (coin_denom c) s) (\<lambda>asset.
        let amount = be_of_nat 32 (nat \<bar>coin_amount c\<bar>) in
        bindE (ParseField32 asset) (\<lambda>assetField.
        case acc_from_bech32 env (if vm_kind m = 2 then vm_recipient m else vm_creator m) of
          None \<Rightarrow> Inl (Errorf ''decoding bech32 failed'')
        | Some address \<Rightarrow>
            let module = module_address env ModuleName in
            bindE (guardE (address \<noteq> module) (Errorf ''privacy module cannot be the external principal endpoint'')) (\<lambda>_.
            bindE (PublicTargetDigest (vm_kind m) address) (\<lambda>digest.
            Inr ((amount, assetField, fst (DigestFields digest), snd (DigestFields digest)),
                 Some \<lparr>tf_kind = vm_kind m, tf_from = (if vm_kind m = 2 then module else address),
                       tf_to = (if vm_kind m = 2 then address else module), tf_denom = coin_denom c, tf_amount = amount\<rparr>)))))
      else Inr ((ZeroField32, ZeroField32, ZeroField32, ZeroField32), None))"

definition buildAuditPublic :: "('b, 'm) app_env_scheme \<Rightarrow> exec_ctx \<Rightarrow> validated_msg \<Rightarrow> store \<Rightarrow> transition_record res" where
  "buildAuditPublic env ctx m s =
     bindE (guardE (runtime env \<noteq> None) (Errorf ''audit runtime is not configured'')) (\<lambda>_.
     bindE (auditCircuitID (vm_kind m)) (\<lambda>_.
     bindE (auditHalted s) (\<lambda>halted.
     bindE (guardE (\<not> halted) (Errorf ''privacy is halted'')) (\<lambda>_.
     bindE (auditExecutionOrigin (runtime env) ctx) (\<lambda>origin.
     bindE (guardE (\<not> (block_unix ctx < 0 \<or> block_unix ctx \<ge> vm_expiry m)) (Errorf ''audit message is expired'')) (\<lambda>_.
     bindE (activeAuditKey (runtime env) ctx s) (\<lambda>key.
     bindE (guardE (\<not> (kr_epoch key \<noteq> vm_epoch m \<or> kr_key_id key \<noteq> vm_key_id m)) (Errorf ''audit authorization is not the active key'')) (\<lambda>_.
     bindE (auditNetwork (runtime env) ctx) (\<lambda>network.
     bindE (auditCircuitID (vm_kind m)) (\<lambda>cid.
     bindE (identityHashes cid (identity_circuits env) (replicate 32 0, replicate 32 0)) (\<lambda>(vkHash, schemaHash).
     bindE (ParseAuditKey (kr_pk key) (kr_key_id key)) (\<lambda>auditKey.
     bindE (Coordinates (ak_point auditKey)) (\<lambda>(keyX, keyY).
     let inputs = vm_nullifiers m; outputs = vm_outputs m in
     bindE (if length inputs > 0
            then guardE (kv_has s (GetHistoricalRootKey (vm_root m))) (Errorf ''audit historical root is not allowed'') else Inr ()) (\<lambda>_.
     bindE (traverseE (\<lambda>n. guardE (\<not> kv_has s (GetNullifierKey n)) (Errorf ''audit nullifier already spent'')) inputs) (\<lambda>_.
     bindE (EnsureCanAppendCommitments env (word_of_nat (length outputs)) s) (\<lambda>_.
     bindE (traverseE (publicOutput s) outputs) (\<lambda>parsed.
     let commitments = map fst parsed; users = map (fst \<circ> snd) parsed; fulls = map (snd \<circ> snd) parsed in
     bindE (auditVectorRoot env (vm_kind m) BatchVectorNullifierV1 inputs) (\<lambda>pi11.
     bindE (auditVectorRoot env (vm_kind m) BatchVectorCommitmentV1 commitments) (\<lambda>pi12.
     bindE (publicDisclosures env (vm_kind m) outputs users fulls) (\<lambda>(pi13, pi14).
     bindE (publicPrincipal env m s) (\<lambda>((pi15, pi16, pi17, pi18), transparent).
     let auxHash = sha256 (string_bytes AuditAuxDomain @ vm_aux m);
         pi21 = [fst (DigestFields network), snd (DigestFields network), fst (DigestFields (kr_key_id key)), snd (DigestFields (kr_key_id key)),
           Field32FromUint64 (kr_epoch key), keyX, keyY, Field32FromUint64 (word_of_int (vm_expiry m)), vm_root m,
           Field32FromUint64 (word_of_nat (length inputs)), Field32FromUint64 (word_of_nat (length outputs)), pi11, pi12, pi13, pi14,
           pi15, pi16, pi17, pi18, fst (DigestFields auxHash), snd (DigestFields auxHash)] in
     bindE (NewAuditContext (vm_kind m) pi21) (\<lambda>context.
     bindE (ParseEnvelopeFrame (vm_kind m) (word_of_nat (length inputs)) (word_of_nat (length outputs)) (vm_envelope m)) (\<lambda>envelope.
     bindE (ComputeCipherRoot context envelope) (\<lambda>root.
     bindE (ContextHash context (env_nonce envelope)) (\<lambda>contextHash.
     Inr \<lparr>tr_height = u64_height ctx, tr_origin = origin, tr_kind = vm_kind m, tr_network = network, tr_set_id = AuditCircuitSetID,
          tr_vk_hash = vkHash, tr_schema_hash = schemaHash, tr_pi = pi21 @ [root_left root, root_right root], tr_proof = vm_proof m,
          tr_key_id = kr_key_id key, tr_epoch = kr_epoch key, tr_suite = kr_suite key, tr_pk = kr_pk key, tr_envelope = vm_envelope m,
          tr_aux_hash = auxHash, tr_context_hash = contextHash, tr_cipher_root = root, tr_root = vm_root m, tr_inputs = inputs,
          tr_outputs = map (\<lambda>c. \<lparr>orf_commitment = c, orf_leaf = 0\<rparr>) commitments, tr_transparent = transparent\<rparr>)))))))))))))))))))))))))"

text \<open>The witness reduces each value, as filling a witness of gnark does.\<close>

definition auditPublicWitness :: "bytes list \<Rightarrow> nat list" where
  "auditPublicWitness pi = map (\<lambda>p. be_to_nat p mod fr_modulus) pi"

section \<open>The projection into the scan index\<close>

definition auditExecutionID :: "bytes \<Rightarrow> audit_origin \<Rightarrow> u64 \<Rightarrow> nat \<Rightarrow> bytes" where
  "auditExecutionID network origin global messageIndex =
     sha256 (string_bytes ''clairveil/privacy/execution-id/v1'' @ network @ or_anchor origin @ be64 global @ be64 (word_of_nat messageIndex) @ [or_kind origin])"

definition projectSummary :: "u64 \<Rightarrow> int \<Rightarrow> transition_record \<Rightarrow> bytes \<Rightarrow> scan_summary" where
  "projectSummary global height r effect =
     \<lparr>ss_sequence = global, ss_height = height, ss_tx_hash = (if or_kind (tr_origin r) = 1 then or_anchor (tr_origin r) else []),
      ss_event = auditEventType (tr_kind r), ss_nullifiers = tr_inputs r, ss_output_count = word_of_nat (length (tr_outputs r)),
      ss_circuit_set = tr_set_id r, ss_payload_version = FixedPayloadVersionV1, ss_schema_version = PrivacyScanSchemaVersionV2,
      ss_key_id = hex_of_bytes (tr_key_id r), ss_key_epoch = tr_epoch r, ss_target = tr_pk r, ss_effect = effect\<rparr>"

definition projectOutput :: "transition_record \<Rightarrow> scan_summary \<Rightarrow> nat \<Rightarrow> output_effect \<Rightarrow> output_ref \<Rightarrow> scan_output" where
  "projectOutput r summary i x ref =
     \<lparr>so_sequence = ss_sequence summary, so_height = ss_height summary, so_index = word_of_nat i, so_effect = ss_effect summary,
      so_commitment = oe_commitment x, so_ciphertext = (if tr_kind r = 1 then [] else oe_ciphertext x),
      so_encrypted_note = (if tr_kind r = 1 then oe_ciphertext x else []), so_view_tag = oe_view_tag x, so_leaf_index = orf_leaf ref,
      so_leaf_found = True, so_policy = oe_policy x,
      so_mode = (if tr_kind r = 1 \<or> (tr_kind r = 3 \<and> i = 1) then [] else mode_string (oe_mode x)),
      so_user_digest = oe_user_digest x, so_user_target = oe_user_target x, so_user_payload = oe_user_payload x,
      so_full_digest = oe_full_digest x, so_audit_payload = [], so_self_view = oe_self_view x, so_circuit_set = ss_circuit_set summary,
      so_payload_version = ss_payload_version summary, so_schema_version = ss_schema_version summary, so_key_id = ss_key_id summary,
      so_key_epoch = ss_key_epoch summary, so_target = tr_pk r, so_tx_hash = ss_tx_hash summary, so_event = ss_event summary\<rparr>"

text \<open>The source outputs and the references have the same length in both calls.\<close>

definition auditScanProjection ::
  "u64 \<Rightarrow> int \<Rightarrow> transition_record \<Rightarrow> output_effect list \<Rightarrow> bytes \<Rightarrow> scan_summary \<times> scan_output list" where
  "auditScanProjection global height r source effect =
     (let summary = projectSummary global height r effect
      in (summary, map (\<lambda>(i, x, ref). projectOutput r summary i x ref) (enumerate 0 (zip source (tr_outputs r)))))"

text \<open>The bytes counted for a summary and its outputs, keys included.\<close>

definition scanStateBytes :: "scan_summary \<times> scan_output list \<Rightarrow> u64" where
  "scanStateBytes p = foldl (\<lambda>n out. n + word_of_nat (PrivacyScanOutputV2_Size out + 21)) (word_of_nat (PrivacyScanSummaryV2_Size (fst p) + 17 + 9 + 8)) (snd p)"

section \<open>The charge before execution\<close>

record delegated_deposit =
  dd_funder :: bytes
  dd_payload :: bytes

definition AttributeKeyDelegatedDepositPayload :: string where "AttributeKeyDelegatedDepositPayload = ''delegated_deposit_payload''"
definition AttributeKeyDelegatedFunder :: string where "AttributeKeyDelegatedFunder = ''delegated_funder''"
definition MaxDelegatedDepositPayloadBytes :: nat where "MaxDelegatedDepositPayloadBytes = 65536"

text \<open>\<^verbatim>\<open>base64.StdEncoding\<close>.\<close>

definition base64_char :: "nat \<Rightarrow> char" where
  "base64_char n =
     char_of (if n < 26 then n + 65 else if n < 52 then n + 71 else if n < 62 then n - 4 else if n = 62 then 43 else 47 :: nat)"

fun base64_encode :: "bytes \<Rightarrow> string" where
  "base64_encode [] = []"
| "base64_encode [a] = map base64_char [unat a div 4, unat a mod 4 * 16] @ ''==''"
| "base64_encode [a, b] = map base64_char [unat a div 4, unat a mod 4 * 16 + unat b div 16, unat b mod 16 * 4] @ ''=''"
| "base64_encode (a # b # c # bs) =
     map base64_char [unat a div 4, unat a mod 4 * 16 + unat b div 16, unat b mod 16 * 4 + unat c div 64, unat c mod 64] @ base64_encode bs"

definition base64_EncodedLen :: "nat \<Rightarrow> nat" where
  "base64_EncodedLen n = (n + 2) div 3 * 4"

definition eventBytes :: "('b, 'm) sdk_env_scheme \<Rightarrow> delegated_deposit option \<Rightarrow> u64" where
  "eventBytes env d =
     (case d of
        None \<Rightarrow> 0
      | Some x \<Rightarrow> word_of_nat (base64_EncodedLen (length (dd_payload x)) + length (acc_to_bech32 env (dd_funder x)) +
          length AttributeKeyDelegatedDepositPayload + length AttributeKeyDelegatedFunder))"

text \<open>What the type switch reads.\<close>

fun chargeShape :: "audit_msg \<Rightarrow> (kind \<times> nat \<times> output_effect option list) res" where
  "chargeShape (MsgDeposit None) = Inl (Errorf ''nil deposit'')"
| "chargeShape (MsgDeposit (Some m)) = Inr (1, 0, [md_output m])"
| "chargeShape (MsgWithdraw None) = Inl (Errorf ''nil withdraw'')"
| "chargeShape (MsgWithdraw (Some m)) = Inr (2, 1, [])"
| "chargeShape (MsgTransfer None) = Inl (Errorf ''nil transfer'')"
| "chargeShape (MsgTransfer (Some m)) = Inr (3, length (mt_nullifiers m), mt_outputs m)"
| "chargeShape (MsgBatchTransfer None) = Inl (Errorf ''nil batch'')"
| "chargeShape (MsgBatchTransfer (Some m)) = Inr (4, length (mt_nullifiers m), mt_outputs m)"
| "chargeShape OtherMsg = Inl (Errorf ''unsupported audit message'')"

fun auxCharge :: "output_effect option list \<Rightarrow> u64 \<Rightarrow> u64 res" where
  "auxCharge [] aux = Inr aux"
| "auxCharge (x # xs) aux =
     (case x of
        None \<Rightarrow> Inl (Errorf ''nil output'')
      | Some e \<Rightarrow> auxCharge xs (aux + (89 + word_of_nat (length (oe_ciphertext e) + length (oe_view_tag e) + length (oe_user_target e) +
          length (oe_user_payload e) + length (oe_self_view e)))))"

text \<open>The record with maximal cursor and key metadata.\<close>

definition maximalRecord :: "kind \<Rightarrow> nat \<Rightarrow> nat \<Rightarrow> transition_record" where
  "maximalRecord k ni no =
     \<lparr>tr_height = 0, tr_origin = \<lparr>or_kind = 1, or_anchor = replicate 32 0, or_height = MaxInt64\<rparr>, tr_kind = k, tr_network = replicate 32 0,
      tr_set_id = AuditCircuitSetID, tr_vk_hash = replicate 32 0, tr_schema_hash = replicate 32 0, tr_pi = replicate 23 ZeroField32, tr_proof = [],
      tr_key_id = replicate 32 0, tr_epoch = MaxUint64, tr_suite = 0, tr_pk = replicate 64 0, tr_envelope = [], tr_aux_hash = replicate 32 0,
      tr_context_hash = replicate 32 0, tr_cipher_root = \<lparr>root_left = ZeroField32, root_right = ZeroField32\<rparr>, tr_root = ZeroField32,
      tr_inputs = replicate ni ZeroField32, tr_outputs = replicate no \<lparr>orf_commitment = ZeroField32, orf_leaf = 0xffffffff\<rparr>, tr_transparent = None\<rparr>"

definition prechargeAuditMessage :: "exec_ctx \<Rightarrow> audit_msg \<Rightarrow> u64 \<Rightarrow> ('b chain, u64) action" where
  "prechargeAuditMessage ctx raw delegatedEventBytes =
     bindM (readM (\<lambda>_. chargeShape raw)) (\<lambda>(k, ni, outputs).
     bindM (guardM (\<not> (ni > 16 \<or> length outputs > 32 \<or> msg_Size raw > MaxBatchTransferMessageBytesV1)) (Errorf ''audit message exceeds shape/byte cap'')) (\<lambda>_.
     bindM (guardM (\<not> (delegatedEventBytes > word_of_nat MaxBatchTransferMessageBytesV1 \<or> 4 > MaxUint64 - delegatedEventBytes))
       (Errorf ''delegated event exceeds gas bound'')) (\<lambda>_.
     bindM (readM (\<lambda>_. auxCharge outputs (4 + delegatedEventBytes))) (\<lambda>aux.
     let projection = scanStateBytes (auditScanProjection MaxUint64 (2 ^ 63 - 1) (maximalRecord k ni (length outputs)) (map the outputs) (replicate 32 0)) in
     bindM (guardM (\<not> projection > 0xffffffff) (Errorf ''audit projection overflow'')) (\<lambda>_.
     bindM (readM (\<lambda>_. ComputeAuditGasV1 DefaultAuditGasModelV1
         \<lparr>ab_canonical_bytes = word_of_nat MaxBatchTransferMessageBytesV1, ab_state_bytes = 1048576\<rparr>
         \<lparr>au_kind = k, au_inputs = word_of_nat ni, au_outputs = word_of_nat (length outputs), au_aux_bytes = aux, au_state_bytes = projection\<rparr>)) (\<lambda>gas.
     bindM (consumeGas ctx (unat (gb_total (agb_base gas))) ''audit transition precharge'') (\<lambda>_. retM projection)))))))"

end
