(* ===== verification/Audit_Apply.thy ===== *)
theory Audit_Apply
  imports Audit_Public
begin

text \<open>
  Applying a verified transition (\<^verbatim>\<open>x/privacy/keeper/audit_apply.go\<close>) and the message handlers that verify and apply one
  (\<^verbatim>\<open>x/privacy/keeper/audit_msg_server.go\<close>), with the strict nullifier accessors and the stage hook of \<^verbatim>\<open>msg_server_batch_transfer.go\<close>. The
  transition is a value local to the handler; its consumption mark is the second component of what applying returns. The leaf indices
  that the loop writes into the record are read by \<^verbatim>\<open>storeAuditScan\<close> only, so they are passed to it.
\<close>

section \<open>Nullifiers and stages\<close>

definition hasNullifierStrict :: "bytes \<Rightarrow> store \<Rightarrow> bool res" where
  "hasNullifierStrict nullifier s =
     bindE (validateFieldElementBytesStrict nullifier) (\<lambda>canonical. Inr (kv_has s (GetNullifierKey canonical)))"

definition setNullifierStrict :: "bytes \<Rightarrow> (store, unit) action" where
  "setNullifierStrict nullifier =
     bindM (readM (\<lambda>_. validateFieldElementBytesStrict nullifier)) (\<lambda>canonical. writeM (kv_set (GetNullifierKey canonical) [0x01]))"

definition hasHistoricalRootStrict :: "bytes \<Rightarrow> store \<Rightarrow> bool res" where
  "hasHistoricalRootStrict root s =
     bindE (validateFieldElementBytesStrict root) (\<lambda>canonical. Inr (kv_has s (GetHistoricalRootKey canonical)))"

definition runBatchTransitionHook :: "('b, 'm) app_env_scheme \<Rightarrow> string \<Rightarrow> ('s, unit) action" where
  "runBatchTransitionHook env stage =
     (case transition_hook env stage of None \<Rightarrow> retM () | Some e \<Rightarrow> failM (Errorf (''batch state transition failed at '' @ stage)))"

definition spendNullifier :: "bytes \<Rightarrow> (store, unit) action" where
  "spendNullifier n =
     bindM (readM (hasNullifierStrict n)) (\<lambda>used.
     bindM (guardM (\<not> used) (Errorf ''audit nullifier already used'')) (\<lambda>_.
     setNullifierStrict n))"

fun appendOutputs :: "('b, 'm) sdk_env_scheme \<Rightarrow> int \<Rightarrow> output_ref list \<Rightarrow> (store, output_ref list) action" where
  "appendOutputs env height [] = retM []"
| "appendOutputs env height (x # xs) =
     bindM (readM getLeafCountStrict) (\<lambda>index.
     bindM (appendCommitment env height (orf_commitment x)) (\<lambda>_.
     bindM (appendOutputs env height xs) (\<lambda>ys. retM (x\<lparr>orf_leaf := index\<rparr> # ys))))"

section \<open>The principal\<close>

definition balanceOf :: "('b, 'm) sdk_env_scheme \<Rightarrow> bytes \<Rightarrow> string \<Rightarrow> 'b chain \<Rightarrow> int option" where
  "balanceOf env address denom s = bank_balance env (ch_bank s) address denom"

definition principalEndpoint :: "('b, 'm) sdk_env_scheme \<Rightarrow> validated_msg \<Rightarrow> delegated_deposit option \<Rightarrow> bytes res" where
  "principalEndpoint env m delegated =
     bindE (guardE (\<not> (vm_kind m \<noteq> KindDeposit \<and> delegated \<noteq> None)) (Errorf ''delegated funding is deposit-only'')) (\<lambda>_.
     bindE (case delegated of
              Some d \<Rightarrow> Inr (dd_funder d)
            | None \<Rightarrow> (case acc_from_bech32 env (if vm_kind m = KindDeposit then vm_creator m else vm_recipient m) of
                         None \<Rightarrow> Inl (Errorf ''decoding bech32 failed'') | Some a \<Rightarrow> Inr a)) (\<lambda>address.
     bindE (guardE (\<not> (address = module_address env ModuleName \<or> (delegated \<noteq> None \<and> address = module_address env ''gov'')))
       (Errorf ''invalid principal endpoint'')) (\<lambda>_. Inr address)))"

definition applyAuditPrincipal :: "('b, 'm) sdk_env_scheme \<Rightarrow> exec_ctx \<Rightarrow> validated_msg \<Rightarrow> delegated_deposit option \<Rightarrow> ('b chain, unit) action" where
  "applyAuditPrincipal env ctx m delegated =
     (let c = vm_Coin m; deposit = (vm_kind m = KindDeposit); module = module_address env ModuleName in
      bindM (readM (\<lambda>s. GetReserveSnapshot env (coin_denom c) (ch_store s) (ch_bank s))) (\<lambda>before.
      bindM (guardM (rs_collateralized before) ErrReserveUnderCollateralized) (\<lambda>_.
      bindM (guardM (\<not> (\<not> deposit \<and> coin_amount c > rs_liability before)) (Errorf ''withdraw amount exceeds liability'')) (\<lambda>_.
      bindM (readM (\<lambda>_. principalEndpoint env m delegated)) (\<lambda>address.
      bindM (readM (\<lambda>s. case balanceOf env address (coin_denom c) s of
          None \<Rightarrow> Inl (Errorf ''invalid principal balance'')
        | Some b \<Rightarrow> bindE (guardE (\<not> b < 0) (Errorf ''invalid principal balance'')) (\<lambda>_. Inr b))) (\<lambda>externalBefore.
      let delta = (if deposit then coin_amount c else - coin_amount c);
          wantExternal = externalBefore - delta; wantModule = rs_module_balance before + delta in
      bindM (guardM (\<not> (wantExternal < 0 \<or> \<not> bitLen256 wantExternal \<or> wantModule < 0 \<or> \<not> bitLen256 wantModule))
        (Errorf ''principal balance overflow or insufficiency'')) (\<lambda>_.
      bindM (if deposit then principal_Lock env ctx address c else principal_Release env ctx address c) (\<lambda>_.
      bindM (readM (\<lambda>s. guardE (balanceOf env address (coin_denom c) s = Some wantExternal \<and> balanceOf env module (coin_denom c) s = Some wantModule)
        (Errorf ''principal transfer did not apply both exact balance deltas''))) (\<lambda>_.
      bindM (onStore (if deposit then recordReserveDeposit env c else recordReserveWithdraw env c)) (\<lambda>_.
      bindM (readM (\<lambda>s. GetReserveSnapshot env (coin_denom c) (ch_store s) (ch_bank s))) (\<lambda>after.
      guardM (rs_collateralized after) ErrReserveUnderCollateralized)))))))))))"

section \<open>The scan records\<close>

definition storeAuditScan ::
  "('b, 'm) sdk_env_scheme \<Rightarrow> exec_ctx \<Rightarrow> transition_record \<Rightarrow> validated_msg \<Rightarrow> delegated_deposit option \<Rightarrow> ('b chain, u64 \<times> u64) action" where
  "storeAuditScan env ctx r m delegated =
     bindM (onStore allocatePrivacyGlobalSequence) (\<lambda>global.
     let effect = auditExecutionID (tr_network r) (tr_origin r) global (msg_index ctx);
         (summary, outputs) = auditScanProjection global (block_height ctx) r (vm_outputs m) effect;
         attrs = [(''execution_id'', hex_of_bytes effect), (''global_sequence'', u64_string global), (''message_index'', dec_string (msg_index ctx))] @
           (if or_kind (tr_origin r) = 1 then [(''tx_hash'', hex_of_bytes (or_anchor (tr_origin r)))] else []) in
     bindM (onStore (storePrivacyScan env (Some summary) (map Some outputs))) (\<lambda>_.
     bindM (case delegated of
              None \<Rightarrow> retM attrs
            | Some d \<Rightarrow>
                bindM (guardM (\<not> (tr_kind r \<noteq> KindDeposit \<or> length (dd_payload d) = 0 \<or> length (dd_payload d) > MaxDelegatedDepositPayloadBytes))
                  (Errorf ''invalid delegated deposit event evidence'')) (\<lambda>_.
                retM (attrs @ [(AttributeKeyDelegatedDepositPayload, base64_encode (dd_payload d)),
                  (AttributeKeyDelegatedFunder, acc_to_bech32 env (dd_funder d))]))) (\<lambda>attributes.
     bindM (emitEvent (ss_event summary, attributes)) (\<lambda>_.
     retM (scanStateBytes (summary, outputs), global)))))"

section \<open>Applying\<close>

record verified_transition =
  vt_owner :: "audit_runtime option"
  vt_message :: validated_msg
  vt_record :: "transition_record option"
  vt_bound :: u64
  vt_delegated :: "delegated_deposit option"
  vt_consumed :: bool

text \<open>What is run on the cached context; \<open>ctx\<close> carries the apply marker.\<close>

definition applyStages :: "('b, 'm) app_env_scheme \<Rightarrow> exec_ctx \<Rightarrow> verified_transition \<Rightarrow> transition_record \<Rightarrow> ('b chain, u64) action" where
  "applyStages env ctx v r =
     bindM (if tr_transparent r \<noteq> None then applyAuditPrincipal env ctx (vt_message v) (vt_delegated v) else retM ()) (\<lambda>_.
     bindM (runBatchTransitionHook env ''audit_bank'') (\<lambda>_.
     bindM (onStore (forM (tr_inputs r) spendNullifier)) (\<lambda>_.
     bindM (onStore (appendOutputs env (block_height ctx) (tr_outputs r))) (\<lambda>outputs.
     bindM (runBatchTransitionHook env ''audit_tree'') (\<lambda>_.
     bindM (storeAuditScan env ctx (r\<lparr>tr_outputs := outputs\<rparr>) (vt_message v) (vt_delegated v)) (\<lambda>(written, global).
     bindM (guardM (\<not> written > vt_bound v) (Errorf ''audit projection exceeds precharged upper bound'')) (\<lambda>_.
     bindM (runBatchTransitionHook env ''audit_scan'') (\<lambda>_.
     retM global))))))))"

definition applyPrivacyTransition ::
  "('b, 'm) app_env_scheme \<Rightarrow> exec_ctx \<Rightarrow> verified_transition option \<Rightarrow> 'b chain \<Rightarrow> (u64 res \<times> verified_transition option) \<times> 'b chain" where
  "applyPrivacyTransition env ctx vo s =
     (case vo of
        None \<Rightarrow> ((Inl (Errorf ''invalid verified audit transition''), None), s)
      | Some v \<Rightarrow>
          if runtime env = None \<or> vt_owner v \<noteq> runtime env \<or> vt_record v = None \<or> vt_consumed v \<or> vm_kind (vt_message v) = 0
          then ((Inl (Errorf ''invalid verified audit transition''), Some v), s)
          else
            let r = the (vt_record v); inner = ctx\<lparr>apply_marker := True\<rparr>;
                (res, t) = bindM (guardM (\<not> apply_marker ctx) (Errorf ''reentrant privacy apply is forbidden'')) (\<lambda>_.
                  bindM (readM (\<lambda>_. auditExecutionOrigin (runtime env) inner)) (\<lambda>origin.
                  bindM (guardM (origin = tr_origin r) (Errorf ''verified execution context changed'')) (\<lambda>_.
                  cacheCtx (applyStages env inner v r)))) s
            in ((res, Some (v\<lparr>vt_consumed := True\<rparr>)), t))"

section \<open>The handlers\<close>

definition executeAuditWithDelegation ::
  "('b, 'm) app_env_scheme \<Rightarrow> exec_ctx \<Rightarrow> audit_msg \<Rightarrow> delegated_deposit option \<Rightarrow> ('b chain, u64) action" where
  "executeAuditWithDelegation env ctx raw delegated =
     bindM (guardM (runtime env \<noteq> None) (Errorf ''audit-field execution is not configured'')) (\<lambda>_.
     bindM (guardM (\<not> apply_marker ctx) (Errorf ''nested privacy transition is forbidden'')) (\<lambda>_.
     bindM (prechargeAuditMessage ctx raw (eventBytes env delegated)) (\<lambda>bound.
     bindM (readM (\<lambda>_. ValidateAuditMessage env raw)) (\<lambda>m.
     bindM (guardM (length (tx_bytes ctx) \<noteq> 0) (Errorf ''privacy transaction requires original tx execution context'')) (\<lambda>_.
     bindM (guardM (vm_creator m \<noteq> acc_to_bech32 env (module_address env ''gov'')) (Errorf ''governance cannot execute privacy transactions'')) (\<lambda>_.
     bindM (readStore (buildAuditPublic env ctx m)) (\<lambda>record.
     bindM (readM (\<lambda>_. auditCircuitID (vm_kind m))) (\<lambda>cid.
     bindM (readM (\<lambda>_. mapErr (\<lambda>_. Errorf ''audit proof verification failed'') (verify_proof env cid (vm_proof m) (auditPublicWitness (tr_pi record))))) (\<lambda>_.
     \<lambda>s. case applyPrivacyTransition env ctx (Some \<lparr>vt_owner = runtime env, vt_message = m, vt_record = Some record, vt_bound = bound,
           vt_delegated = delegated, vt_consumed = False\<rparr>) s of ((r, _), t) \<Rightarrow> (r, t))))))))))"

definition executeAudit :: "('b, 'm) app_env_scheme \<Rightarrow> exec_ctx \<Rightarrow> audit_msg \<Rightarrow> ('b chain, u64) action" where
  "executeAudit env ctx raw = executeAuditWithDelegation env ctx raw None"

definition DepositWithFunderV2 :: "('b, 'm) app_env_scheme \<Rightarrow> exec_ctx \<Rightarrow> msg_deposit option \<Rightarrow> bytes \<Rightarrow> ('b chain, unit) action" where
  "DepositWithFunderV2 env ctx msg funder =
     bindM (guardM (\<not> (\<not> verify_address env funder \<or> length funder = 0)) (Errorf ''invalid delegated deposit funder'')) (\<lambda>_.
     bindM (guardM (\<not> (funder = module_address env ModuleName \<or> funder = module_address env ''gov'')) (Errorf ''invalid delegated deposit funder'')) (\<lambda>_.
     case msg of
       None \<Rightarrow> failM (Errorf ''nil deposit'')
     | Some m \<Rightarrow>
         bindM (guardM (\<not> MsgDeposit_Size m > MaxDelegatedDepositPayloadBytes) (Errorf ''delegated deposit payload exceeds cap'')) (\<lambda>_.
         let payload = MsgDeposit_Marshal m in
         bindM (guardM (\<not> (length payload = 0 \<or> length payload > MaxDelegatedDepositPayloadBytes)) (Errorf ''delegated deposit payload exceeds cap'')) (\<lambda>_.
         bindM (executeAuditWithDelegation env ctx (MsgDeposit (Some m)) (Some \<lparr>dd_funder = funder, dd_payload = payload\<rparr>)) (\<lambda>_. retM ())))))"

definition handle_Deposit :: "('b, 'm) app_env_scheme \<Rightarrow> exec_ctx \<Rightarrow> msg_deposit option \<Rightarrow> ('b chain, unit) action" where
  "handle_Deposit env ctx m = bindM (executeAudit env ctx (MsgDeposit m)) (\<lambda>_. retM ())"

definition handle_Withdraw :: "('b, 'm) app_env_scheme \<Rightarrow> exec_ctx \<Rightarrow> msg_withdraw option \<Rightarrow> ('b chain, unit) action" where
  "handle_Withdraw env ctx m = bindM (executeAudit env ctx (MsgWithdraw m)) (\<lambda>_. retM ())"

definition handle_Transfer :: "('b, 'm) app_env_scheme \<Rightarrow> exec_ctx \<Rightarrow> msg_transfer option \<Rightarrow> ('b chain, unit) action" where
  "handle_Transfer env ctx m = bindM (executeAudit env ctx (MsgTransfer m)) (\<lambda>_. retM ())"

definition handle_BatchTransfer :: "('b, 'm) app_env_scheme \<Rightarrow> exec_ctx \<Rightarrow> msg_transfer option \<Rightarrow> ('b chain, unit) action" where
  "handle_BatchTransfer env ctx m = bindM (executeAudit env ctx (MsgBatchTransfer m)) (\<lambda>_. retM ())"

end
