(* ===== verification/Frames.thy ===== *)
theory Frames
  imports Merkle_Theorems Audit_Apply
begin

text \<open>
  Which keys of the store an operation may write. An action stays within a set of keys when every other key keeps its value, whatever
  the outcome; the rules compose along the structure of the actions, and the stages of a transition get their regions: the tree,
  the nullifiers, the reserve counters and the scan index. Regions are told apart by the first byte of a key.
\<close>

definition within :: "(bytes \<Rightarrow> bool) \<Rightarrow> (store, 'a) action \<Rightarrow> bool" where
  "within P m = (\<forall>s k. \<not> P k \<longrightarrow> kv_get (snd (m s)) k = kv_get s k)"

named_theorems within_intros \<open>how actions stay within a region\<close>

lemma withinD: "within P m \<Longrightarrow> m s = (r, t) \<Longrightarrow> \<not> P k \<Longrightarrow> kv_get t k = kv_get s k"
  unfolding within_def by (metis snd_conv)

lemma within_bases [within_intros]:
  "within P (retM x)" "within P (Pair r)" "within P (failM e)" "within P (readM f)" "within P (guardM b e)" "P k \<Longrightarrow> within P (writeM (kv_set k v))"
  by (auto simp: within_def)

lemma within_bind [within_intros]: "within P m \<Longrightarrow> (\<And>x. within P (f x)) \<Longrightarrow> within P (bindM m f)"
  unfolding within_def bindM_def by (simp split: prod.split sum.split) (metis snd_conv)

lemma within_if [within_intros]: "within P m \<Longrightarrow> within P n \<Longrightarrow> within P (if b then m else n)" by simp

lemma within_let [within_intros]: "within P (f x) \<Longrightarrow> within P (Let x f)" by simp

lemma within_prod [within_intros]: "(\<And>a b. within P (f a b)) \<Longrightarrow> within P (case p of (a, b) \<Rightarrow> f a b)" by (cases p) simp

lemma within_sum [within_intros]: "(\<And>e. within P (f e)) \<Longrightarrow> (\<And>x. within P (g x)) \<Longrightarrow> within P (case r of Inl e \<Rightarrow> f e | Inr x \<Rightarrow> g x)"
  by (cases r) simp_all

lemma within_option [within_intros]: "within P m \<Longrightarrow> (\<And>x. within P (g x)) \<Longrightarrow> within P (case r of None \<Rightarrow> m | Some x \<Rightarrow> g x)"
  by (cases r) simp_all

lemma within_forM [within_intros]: "(\<And>x. x \<in> set xs \<Longrightarrow> within P (f x)) \<Longrightarrow> within P (forM xs f)"
  by (induction xs) (auto intro!: within_intros)

lemma within_weaken: "within P m \<Longrightarrow> (\<And>k. P k \<Longrightarrow> Q k) \<Longrightarrow> within Q m"
  by (auto simp: within_def)

section \<open>The tree\<close>

lemmas tree_writer_defs = setLeafCount_def setLeaf_def setHistoricalRoot_def setMerkleNode_def setCommitmentIndex_def setHistoricalRootHeightMetadata_def

lemma climb_within [within_intros]: "within tree_key (climb env n levels i cur)"
  by (induction levels arbitrary: i cur) (auto intro!: within_intros simp: tree_writer_defs)

lemma rebuild_within [within_intros]: "within tree_key (rebuildLeaves env n xs)"
  by (induction xs) (auto intro!: within_intros simp: tree_writer_defs)

lemma ensure_within [within_intros]: "within tree_key (ensureIncrementalTreeState env)"
  unfolding ensureIncrementalTreeState_def by (intro within_intros)

lemma snapshot_within [within_intros]: "within tree_key (setMerkleRootSnapshot env sn)"
  unfolding setMerkleRootSnapshot_def tree_writer_defs by (intro within_intros) simp_all

lemma append_within [within_intros]: "within tree_key (appendCommitment env h c)"
  unfolding appendCommitment_def tree_writer_defs by (intro within_intros) simp_all

lemma appendOutputs_within [within_intros]: "within tree_key (appendOutputs env h xs)"
  by (induction xs) (auto intro!: within_intros)

section \<open>Nullifiers, reserve and scan index\<close>

definition nullifier_key :: "bytes \<Rightarrow> bool" where
  "nullifier_key k = (k \<noteq> [] \<and> hd k = KeyPrefixNullifier)"

definition reserve_key :: "bytes \<Rightarrow> bool" where
  "reserve_key k = (k \<noteq> [] \<and> hd k \<in> {KeyPrefixReserveDeposit, KeyPrefixReserveWithdraw})"

definition scan_key :: "bytes \<Rightarrow> bool" where
  "scan_key k = (k \<noteq> [] \<and> hd k \<in> {KeyPrefixScanSummary, KeyPrefixScanOutput, KeyPrefixScanSequence, KeyPrefixPrivacyEventSeq})"

lemmas region_defs = tree_key_def nullifier_key_def reserve_key_def scan_key_def

lemma regions_disjoint:
  "tree_key k \<Longrightarrow> \<not> nullifier_key k \<and> \<not> reserve_key k \<and> \<not> scan_key k"
  "nullifier_key k \<Longrightarrow> \<not> tree_key k \<and> \<not> reserve_key k \<and> \<not> scan_key k"
  "reserve_key k \<Longrightarrow> \<not> tree_key k \<and> \<not> nullifier_key k \<and> \<not> scan_key k"
  by (auto simp: region_defs key_prefix_defs split: list.splits)

lemma region_keys [simp]:
  "nullifier_key (GetNullifierKey n)" "reserve_key (GetReserveDepositKey d)" "reserve_key (GetReserveWithdrawKey d)"
  "scan_key (GetPrivacyScanSummaryKey h q)" "scan_key (GetPrivacyScanOutputKey h q i)" "scan_key (GetPrivacyScanSequenceKey q)"
  "scan_key GetPrivacyGlobalSequenceKey"
  by (simp_all add: region_defs key_simps GetReserveDepositKey_def GetReserveWithdrawKey_def GetNullifierKey_def GetPrivacyScanSummaryKey_def
      GetPrivacyScanOutputKey_def GetPrivacyScanSequenceKey_def GetPrivacyGlobalSequenceKey_def)

lemma spend_within [within_intros]: "within nullifier_key (spendNullifier n)"
  unfolding spendNullifier_def setNullifierStrict_def by (intro within_intros) simp

lemma reserve_within [within_intros]: "within reserve_key (recordReserveDeposit env c)" "within reserve_key (recordReserveWithdraw env c)"
  unfolding recordReserveDeposit_def recordReserveWithdraw_def addReserveAmount_def setReserveAmount_def by (intro within_intros; simp)+

lemma sequence_within [within_intros]: "within scan_key allocatePrivacyGlobalSequence"
  unfolding allocatePrivacyGlobalSequence_def setPrivacyGlobalSequence_def by (intro within_intros) simp

lemma scan_within [within_intros]: "within scan_key (storePrivacyScan env so outs)"
  unfolding storePrivacyScan_def Let_def by (intro within_intros) simp_all

text \<open>What an action of the chain leaves alone.\<close>

lemma onStore_within:
  assumes "within P m" "onStore m s = (r, t)"
  shows "(\<not> P k \<longrightarrow> kv_get (ch_store t) k = kv_get (ch_store s) k) \<and> ch_bank t = ch_bank s \<and> ch_events t = ch_events s \<and> ch_gas t = ch_gas s"
  using assms withinD [OF assms(1)] by (auto simp: onStore_def split: prod.splits)

end
