(* ===== verification/Audit_Execute.thy ===== *)
theory Audit_Execute
  imports Frames Key_Lifecycle
begin

text \<open>
  What executing an audit message does: the principal moves exactly the amount of the message and the reserve accounts for it, nullifiers
  are spent once, commitments are appended in order, the scan index gets one event, and a failure leaves nothing but consumed gas.
\<close>

section \<open>The principal\<close>

lemma principal_send_store: "principal_send env ctx p a b c s = ((r, q), t) \<Longrightarrow> ch_store t = ch_store s \<and> ch_events t = ch_events s \<and> ch_gas t = ch_gas s"
  by (auto simp: principal_send_def Let_def split: if_splits option.splits prod.splits)

lemma principal_move_store:
  "(if b then principal_Lock env ctx a c else principal_Release env ctx a c) s = (r, t) \<Longrightarrow>
     ch_store t = ch_store s \<and> ch_events t = ch_events s \<and> ch_gas t = ch_gas s"
  by (auto simp: principal_Lock_def principal_Release_def dest!: principal_send_store split: prod.splits if_splits)

lemma principalEndpoint_ok:
  "principalEndpoint env m delegated = Inr a \<Longrightarrow> a \<noteq> module_address env ModuleName \<and> (vm_kind m \<noteq> KindDeposit \<longrightarrow> delegated = None) \<and>
     (case delegated of
        Some d \<Rightarrow> a = dd_funder d \<and> a \<noteq> module_address env ''gov''
      | None \<Rightarrow> acc_from_bech32 env (if vm_kind m = KindDeposit then vm_creator m else vm_recipient m) = Some a)"
  by (auto simp: principalEndpoint_def case_option_Inr split: option.splits)

text \<open>The conditions and effects of a successful principal movement.\<close>

lemma principal_stages:
  assumes "applyAuditPrincipal env ctx m delegated s = (Inr u, t)"
  defines "c \<equiv> vm_Coin m" and "deposit \<equiv> vm_kind m = KindDeposit"
  obtains before after address ext mid
  where "GetReserveSnapshot env (coin_denom c) (ch_store s) (ch_bank s) = Inr before" "rs_collateralized before"
    "deposit \<or> coin_amount c \<le> rs_liability before" "principalEndpoint env m delegated = Inr address"
    "balanceOf env address (coin_denom c) s = Some ext" "0 \<le> ext"
    "(if deposit then principal_Lock env ctx address c else principal_Release env ctx address c) s = (Inr (), mid)"
    "balanceOf env address (coin_denom c) mid = Some (ext - (if deposit then coin_amount c else - coin_amount c))"
    "balanceOf env (module_address env ModuleName) (coin_denom c) mid = Some (rs_module_balance before + (if deposit then coin_amount c else - coin_amount c))"
    "0 \<le> ext - (if deposit then coin_amount c else - coin_amount c)"
    "onStore (if deposit then recordReserveDeposit env c else recordReserveWithdraw env c) mid = (Inr (), t)"
    "GetReserveSnapshot env (coin_denom c) (ch_store t) (ch_bank t) = Inr after" "rs_collateralized after"
proof -
  from assms(1) show ?thesis
    unfolding applyAuditPrincipal_def Let_def c_def [symmetric] deposit_def [symmetric]
    by (auto simp: case_option_Inr simp del: split_paired_Ex intro: that)
qed

text \<open>What a principal movement did, read off the two states: \<open>\<delta>\<close> is what the module account gained.\<close>

definition principal_moved ::
  "('b, 'm) sdk_env_scheme \<Rightarrow> validated_msg \<Rightarrow> delegated_deposit option \<Rightarrow> 'b chain \<Rightarrow> 'b chain \<Rightarrow> bytes \<Rightarrow> int \<Rightarrow> int \<Rightarrow> int \<Rightarrow> int \<Rightarrow> bool" where
  "principal_moved env m delegated s t address ext modu dep wd =
     (let c = vm_Coin m; d = coin_denom c; a = coin_amount c; deposit = (vm_kind m = KindDeposit); delta = (if deposit then a else - a);
          module = module_address env ModuleName in
      principalEndpoint env m delegated = Inr address \<and> address \<noteq> module \<and>
      balanceOf env address d s = Some ext \<and> balanceOf env address d t = Some (ext - delta) \<and> 0 \<le> ext - delta \<and>
      balanceOf env module d s = Some modu \<and> balanceOf env module d t = Some (modu + delta) \<and>
      counters (ch_store s) d = Inr (dep, wd) \<and> counters (ch_store t) d = Inr (if deposit then (dep + a, wd) else (dep, wd + a)) \<and>
      0 \<le> dep - wd \<and> dep - wd \<le> modu \<and> 0 \<le> dep - wd + delta \<and> dep - wd + delta \<le> modu + delta)"

lemma applyAuditPrincipal_moved:
  assumes "applyAuditPrincipal env ctx m delegated s = (Inr u, t)"
  shows "\<exists>address ext modu dep wd. principal_moved env m delegated s t address ext modu dep wd"
    and "\<not> reserve_key k \<Longrightarrow> kv_get (ch_store t) k = kv_get (ch_store s) k" "ch_events t = ch_events s"
proof -
  define c where "c = vm_Coin m"
  define deposit where "deposit = (vm_kind m = KindDeposit)"
  from assms obtain before after address ext mid
    where st: "GetReserveSnapshot env (coin_denom c) (ch_store s) (ch_bank s) = Inr before" "rs_collateralized before"
      "deposit \<or> coin_amount c \<le> rs_liability before" "principalEndpoint env m delegated = Inr address"
      "balanceOf env address (coin_denom c) s = Some ext"
      "(if deposit then principal_Lock env ctx address c else principal_Release env ctx address c) s = (Inr (), mid)"
      "balanceOf env address (coin_denom c) mid = Some (ext - (if deposit then coin_amount c else - coin_amount c))"
      "balanceOf env (module_address env ModuleName) (coin_denom c) mid = Some (rs_module_balance before + (if deposit then coin_amount c else - coin_amount c))"
      "0 \<le> ext - (if deposit then coin_amount c else - coin_amount c)"
      "onStore (if deposit then recordReserveDeposit env c else recordReserveWithdraw env c) mid = (Inr (), t)"
      "GetReserveSnapshot env (coin_denom c) (ch_store t) (ch_bank t) = Inr after" "rs_collateralized after"
    unfolding c_def deposit_def by (rule principal_stages)
  note kept = principal_move_store [OF st(6)]
  have rec: "(if deposit then recordReserveDeposit env c else recordReserveWithdraw env c) (ch_store s) = (Inr (), ch_store t)"
      "ch_bank t = ch_bank mid"
    using st(10) kept by (auto simp: onStore_ok)
  have balances: "balanceOf env a d t = balanceOf env a d mid" for a d by (simp add: balanceOf_def rec(2))
  have before: "counters (ch_store s) (coin_denom c) = Inr (rs_deposited before, rs_withdrawn before)"
      "balanceOf env (module_address env ModuleName) (coin_denom c) s = Some (rs_module_balance before)"
      "rs_liability before = rs_deposited before - rs_withdrawn before" "0 \<le> rs_liability before"
      "rs_collateralized before = (rs_liability before \<le> rs_module_balance before)"
    using st(1) unfolding GetReserveSnapshot_ok balanceOf_def by (auto simp: Let_def, (metis reserve_snapshot.select_convs)+)
  have after: "counters (ch_store t) (coin_denom c) = Inr (rs_deposited after, rs_withdrawn after)"
      "balanceOf env (module_address env ModuleName) (coin_denom c) t = Some (rs_module_balance after)"
      "rs_liability after = rs_deposited after - rs_withdrawn after" "0 \<le> rs_liability after"
      "rs_collateralized after = (rs_liability after \<le> rs_module_balance after)"
    using st(11) unfolding GetReserveSnapshot_ok balanceOf_def by (auto simp: Let_def, (metis reserve_snapshot.select_convs)+)
  have moved: "counters (ch_store t) (coin_denom c) =
      Inr (if deposit then (rs_deposited before + coin_amount c, rs_withdrawn before) else (rs_deposited before, rs_withdrawn before + coin_amount c))"
    using rec(1) deposit_counters [OF _ before(1), of env c "()" "ch_store t"] withdraw_counters [OF _ before(1), of env c "()" "ch_store t"]
    by (cases deposit) auto
  have "principal_moved env m delegated s t address ext (rs_module_balance before) (rs_deposited before) (rs_withdrawn before)"
    unfolding principal_moved_def Let_def c_def [symmetric] deposit_def [symmetric]
    using st(2,4,5,7,8,9,12) principalEndpoint_ok [OF st(4)] before after moved balances by (cases deposit) auto
  then show "\<exists>address ext modu dep wd. principal_moved env m delegated s t address ext modu dep wd" by blast
  show "kv_get (ch_store t) k = kv_get (ch_store s) k" if "\<not> reserve_key k"
  proof -
    have "within reserve_key (if deposit then recordReserveDeposit env c else recordReserveWithdraw env c)" by (intro within_intros)
    from withinD [OF this rec(1) that] show ?thesis .
  qed
  show "ch_events t = ch_events s" using st(10) kept by (auto simp: onStore_ok)
qed

section \<open>Nullifiers\<close>

text \<open>Spending is an accumulator over the nullifiers \<open>B\<close> that were spent before.\<close>

definition spent_state :: "bytes set \<Rightarrow> bytes list \<Rightarrow> store \<Rightarrow> bool" where
  "spent_state B xs s = ((\<forall>n. kv_has s (GetNullifierKey n) \<longleftrightarrow> n \<in> B \<or> n \<in> set xs) \<and> distinct xs \<and> set xs \<inter> B = {} \<and> list_all canonical_field xs)"

definition can_spend :: "bytes set \<Rightarrow> bytes list \<Rightarrow> bytes \<Rightarrow> bool" where
  "can_spend B xs n = (canonical_field n \<and> n \<notin> B \<and> n \<notin> set xs)"

lemma spendNullifier_ok:
  "spendNullifier n s = (Inr u, t) \<longleftrightarrow> canonical_field n \<and> \<not> kv_has s (GetNullifierKey n) \<and> t = kv_set (GetNullifierKey n) [1] s"
  by (auto simp: spendNullifier_def hasNullifierStrict_def setNullifierStrict_def)

interpretation spent: accumulator spendNullifier "spent_state B" "can_spend B" for B
proof
  fix xs n s t
  assume inv: "spent_state B xs s"
  have key: "GetNullifierKey a = GetNullifierKey b \<longleftrightarrow> a = b" for a b by (simp add: GetNullifierKey_def)
  show "spent_state B (xs @ [n]) t \<and> can_spend B xs n" if "spendNullifier n s = (Inr (), t)"
    using that inv unfolding spendNullifier_ok by (auto simp: spent_state_def can_spend_def key)
  show "\<exists>t. spendNullifier n s = (Inr (), t)" if "can_spend B xs n"
    using that inv by (simp add: spendNullifier_ok spent_state_def can_spend_def)
qed

lemma spent_now: "spent_state {n. kv_has s (GetNullifierKey n)} [] s"
  by (simp add: spent_state_def)

lemma spent_frame:
  assumes "\<And>k. nullifier_key k \<Longrightarrow> kv_get t k = kv_get s k" shows "spent_state B xs t = spent_state B xs s"
  using assms by (simp add: spent_state_def kv_has_def)

section \<open>Commitments\<close>

lemma appendOutputs_ok:
  assumes "tree_state env h ls s" "appendOutputs env h xs s = (Inr ys, t)"
  shows "tree_state env h (ls @ map orf_commitment xs) t \<and>
     ys = map (\<lambda>(i, x). x\<lparr>orf_leaf := word_of_nat i\<rparr>) (enumerate (length ls) xs)"
  using assms
proof (induction xs arbitrary: ls s ys)
  case (Cons x xs)
  obtain index u zs where st: "getLeafCountStrict s = Inr index" "appendCommitment env h (orf_commitment x) s = (Inr (), u)"
      "appendOutputs env h xs u = (Inr zs, t)" "ys = x\<lparr>orf_leaf := index\<rparr> # zs"
    using Cons.prems(2) by auto
  have "tree_state env h (ls @ [orf_commitment x]) u" using block_tree.step_ok [OF Cons.prems(1) st(2)] by simp
  moreover have "index = word_of_nat (length ls)" using st(1) Cons.prems(1) by (simp add: tree_state_def tree_inv_def tree_leaves_def)
  ultimately show ?case using Cons.IH [of "ls @ [orf_commitment x]" u zs] st(3,4) by simp
qed simp

lemma tree_frame:
  assumes "\<And>k. tree_key k \<Longrightarrow> kv_get t k = kv_get s k" shows "tree_state env h ls t = tree_state env h ls s"
  using tree_inv_frame [OF assms, of env ls] by (simp add: tree_state_def)

section \<open>The scan index\<close>

lemma u64_wraps: "(x :: u64) + 1 = 0 \<longleftrightarrow> x = MaxUint64"
proof -
  have "(MaxUint64 :: u64) = - 1" by (simp add: MaxUint64_def)
  then show ?thesis using eq_neg_iff_add_eq_0 [of x 1] by metis
qed

lemma projection_event: "ss_event (fst (auditScanProjection g h r src eff)) = auditEventType (tr_kind r)"
  by (simp add: auditScanProjection_def projectSummary_def Let_def)

lemma storeAuditScan_ok:
  assumes "storeAuditScan env ctx r m delegated s = (Inr (written, global), t)"
  defines "p \<equiv> auditScanProjection global (block_height ctx) r (vm_outputs m) (auditExecutionID (tr_network r) (tr_origin r) global (msg_index ctx))"
  shows "\<not> scan_key k \<Longrightarrow> kv_get (ch_store t) k = kv_get (ch_store s) k"
    and "ch_bank t = ch_bank s"
    and "GetPrivacyGlobalSequence (ch_store s) = Inr (global - 1)" "global \<noteq> 0"
    and "\<exists>attrs. ch_events t = ch_events s @ [(auditEventType (tr_kind r), attrs)]"
    and "written = scanStateBytes p"
proof -
  have "\<exists>u v attrs. onStore allocatePrivacyGlobalSequence s = (Inr global, u) \<and>
      onStore (storePrivacyScan env (Some (fst p)) (map Some (snd p))) u = (Inr (), v) \<and>
      t = v\<lparr>ch_events := ch_events v @ [(ss_event (fst p), attrs)]\<rparr> \<and> written = scanStateBytes p"
    using assms(1) unfolding storeAuditScan_def Let_def split_beta p_def
    by (cases delegated) (fastforce)+
  then obtain u v where st: "onStore allocatePrivacyGlobalSequence s = (Inr global, u)"
      "onStore (storePrivacyScan env (Some (fst p)) (map Some (snd p))) u = (Inr (), v)"
      "\<exists>attrs. t = v\<lparr>ch_events := ch_events v @ [(auditEventType (tr_kind r), attrs)]\<rparr>" and w: "written = scanStateBytes p"
    by (auto simp: p_def projection_event)
  show "kv_get (ch_store t) k = kv_get (ch_store s) k" if "\<not> scan_key k"
    using onStore_within [OF sequence_within st(1), of k] onStore_within [OF scan_within st(2), of k] st(3) that by auto
  show "ch_bank t = ch_bank s"
    using onStore_within [OF sequence_within st(1)] onStore_within [OF scan_within st(2)] st(3) by auto
  show "\<exists>attrs. ch_events t = ch_events s @ [(auditEventType (tr_kind r), attrs)]"
    using onStore_within [OF sequence_within st(1)] onStore_within [OF scan_within st(2)] st(3) by auto
  show "GetPrivacyGlobalSequence (ch_store s) = Inr (global - 1)" "global \<noteq> 0"
    using st(1) by (auto simp: onStore_ok allocatePrivacyGlobalSequence_def setPrivacyGlobalSequence_def u64_wraps)
  show "written = scanStateBytes p" by (fact w)
qed

section \<open>The stages\<close>

lemma hook_ok: "runBatchTransitionHook env stage s = (Inr u, t) \<longleftrightarrow> transition_hook env stage = None \<and> t = s"
  by (auto simp: runBatchTransitionHook_def split: option.splits)

text \<open>What a successful run of the stages did to the chain.\<close>

definition transition_done ::
  "('b, 'm) app_env_scheme \<Rightarrow> exec_ctx \<Rightarrow> validated_msg \<Rightarrow> delegated_deposit option \<Rightarrow> transition_record \<Rightarrow> u64 \<Rightarrow> bytes list \<Rightarrow> 'b chain \<Rightarrow> 'b chain \<Rightarrow> bool" where
  "transition_done env ctx m delegated r global ls s t =
     (spent_state {n. kv_has (ch_store s) (GetNullifierKey n)} (tr_inputs r) (ch_store t) \<and>
      tree_state env (block_height ctx) (ls @ map orf_commitment (tr_outputs r)) (ch_store t) \<and>
      (if tr_transparent r = None
       then ch_bank t = ch_bank s \<and> (\<forall>d. counters (ch_store t) d = counters (ch_store s) d)
       else \<exists>address ext modu dep wd. principal_moved env m delegated s t address ext modu dep wd) \<and>
      GetPrivacyGlobalSequence (ch_store s) = Inr (global - 1) \<and> global \<noteq> 0 \<and>
      (\<exists>attrs. ch_events t = ch_events s @ [(auditEventType (tr_kind r), attrs)]) \<and>
      (\<forall>k. \<not> tree_key k \<and> \<not> nullifier_key k \<and> \<not> reserve_key k \<and> \<not> scan_key k \<longrightarrow> kv_get (ch_store t) k = kv_get (ch_store s) k))"

lemma counters_frame:
  assumes "\<And>k. reserve_key k \<Longrightarrow> kv_get t k = kv_get s k" shows "counters t d = counters s d"
  using assms by (simp add: counters_def getReserveAmount_def)

lemma sequence_frame:
  assumes "\<And>k. scan_key k \<Longrightarrow> kv_get t k = kv_get s k" shows "GetPrivacyGlobalSequence t = GetPrivacyGlobalSequence s"
  using assms by (simp add: GetPrivacyGlobalSequence_def)

lemma moved_frame:
  assumes "principal_moved env m delegated s a address ext modu dep wd" "ch_bank t = ch_bank a" "\<And>d. counters (ch_store t) d = counters (ch_store a) d"
  shows "principal_moved env m delegated s t address ext modu dep wd"
  using assms by (simp add: principal_moved_def balanceOf_def Let_def)

lemma applyStages_done:
  assumes run: "applyStages env ctx v r s = (Inr global, t)" and tree: "tree_state env (block_height ctx) ls (ch_store s)"
  shows "transition_done env ctx (vt_message v) (vt_delegated v) r global ls s t"
proof -
  obtain a b c outs written where
      bank: "(if tr_transparent r \<noteq> None then applyAuditPrincipal env ctx (vt_message v) (vt_delegated v) else retM ()) s = (Inr (), a)"
    and nulls: "onStore (forM (tr_inputs r) spendNullifier) a = (Inr (), b)"
    and app: "onStore (appendOutputs env (block_height ctx) (tr_outputs r)) b = (Inr outs, c)"
    and scan: "storeAuditScan env ctx (r\<lparr>tr_outputs := outs\<rparr>) (vt_message v) (vt_delegated v) c = (Inr (written, global), t)"
    using run unfolding applyStages_def by (auto simp: hook_ok)
  have w: "within nullifier_key (forM (tr_inputs r) spendNullifier)" by (intro within_intros)
  have a: "\<not> reserve_key k \<Longrightarrow> kv_get (ch_store a) k = kv_get (ch_store s) k" "ch_events a = ch_events s" for k
    using bank applyAuditPrincipal_moved(2,3) by (auto split: if_splits)
  note b = onStore_within [OF w nulls] note c = onStore_within [OF appendOutputs_within app] note t = storeAuditScan_ok [OF scan]
  have same: "kv_get (ch_store t) k = kv_get (ch_store s) k" if "\<not> tree_key k" "\<not> nullifier_key k" "\<not> reserve_key k" "\<not> scan_key k" for k
    using that a(1) b c t(1) by metis
  have "spent_state {n. kv_has (ch_store s) (GetNullifierKey n)} [] (ch_store a)"
    using spent_frame [of "ch_store a" "ch_store s"] a(1) regions_disjoint(2) spent_now by metis
  then have "spent_state {n. kv_has (ch_store s) (GetNullifierKey n)} (tr_inputs r) (ch_store b)"
    using spent.steps_ok [of _ "[]" "ch_store a" "tr_inputs r" "ch_store b"] nulls by (auto simp: onStore_ok)
  then have spent: "spent_state {n. kv_has (ch_store s) (GetNullifierKey n)} (tr_inputs r) (ch_store t)"
    using spent_frame [of "ch_store t" "ch_store b"] c t(1) regions_disjoint(2) by metis
  have "tree_state env (block_height ctx) ls (ch_store b)"
    using tree_frame [of "ch_store b" "ch_store s" env "block_height ctx" ls] tree a(1) b regions_disjoint(1) by metis
  then have "tree_state env (block_height ctx) (ls @ map orf_commitment (tr_outputs r)) (ch_store c)"
    using appendOutputs_ok [of env "block_height ctx" ls "ch_store b"] app by (auto simp: onStore_ok)
  then have grown: "tree_state env (block_height ctx) (ls @ map orf_commitment (tr_outputs r)) (ch_store t)"
    using tree_frame [of "ch_store t" "ch_store c"] t(1) regions_disjoint(1) by metis
  have cnt: "counters (ch_store t) d = counters (ch_store a) d" for d
    using counters_frame [of "ch_store t" "ch_store a"] b c t(1) regions_disjoint(3) by metis
  have bk: "ch_bank t = ch_bank a" using b c t(2) by simp
  have principal: "if tr_transparent r = None then ch_bank t = ch_bank s \<and> (\<forall>d. counters (ch_store t) d = counters (ch_store s) d)
      else \<exists>address ext modu dep wd. principal_moved env (vt_message v) (vt_delegated v) s t address ext modu dep wd"
  proof (cases "tr_transparent r = None")
    case True
    then show ?thesis using bank cnt bk by simp
  next
    case False
    then have "applyAuditPrincipal env ctx (vt_message v) (vt_delegated v) s = (Inr (), a)" using bank by simp
    from applyAuditPrincipal_moved(1) [OF this] show ?thesis using False moved_frame [OF _ bk cnt] by fastforce
  qed
  have seq: "GetPrivacyGlobalSequence (ch_store s) = Inr (global - 1)"
    using t(3) sequence_frame [of "ch_store c" "ch_store s"] a(1) b c regions_disjoint by metis
  show ?thesis unfolding transition_done_def using spent grown principal seq t(4,5) a(2) b c same by auto
qed

section \<open>What the public record takes from the message\<close>

lemma publicPrincipal_transparent:
  "publicPrincipal env m s = Inr (vals, tf) \<Longrightarrow> (tf = None) = (vm_kind m \<noteq> 1 \<and> vm_kind m \<noteq> 2)"
  by (auto simp: publicPrincipal_def Let_def case_option_Inr split: if_splits)

lemma public_commitments: "traverseE (publicOutput s) xs = Inr ys \<Longrightarrow> map fst ys = map oe_commitment xs"
  by (induction xs arbitrary: ys) (auto simp: publicOutput_def)

lemma buildAuditPublic_parts:
  assumes "buildAuditPublic env ctx m s = Inr r"
  shows "tr_kind r = vm_kind m" "tr_inputs r = vm_nullifiers m" "map orf_commitment (tr_outputs r) = map oe_commitment (vm_outputs m)"
    "(tr_transparent r = None) = (vm_kind m \<noteq> 1 \<and> vm_kind m \<noteq> 2)" "vm_nullifiers m \<noteq> [] \<longrightarrow> kv_has s (GetHistoricalRootKey (vm_root m))"
    "auditHalted s = Inr False" "block_unix ctx < vm_expiry m" "auditExecutionOrigin (runtime env) ctx = Inr (tr_origin r)"
    "auditNetwork (runtime env) ctx = Inr (tr_network r)"
    "\<exists>key. activeAuditKey (runtime env) ctx s = Inr key \<and> kr_epoch key = vm_epoch m \<and> kr_key_id key = vm_key_id m \<and>
       tr_key_id r = kr_key_id key \<and> tr_epoch r = kr_epoch key \<and> tr_pk r = kr_pk key"
    "tr_set_id r = AuditCircuitSetID"
proof -
  have "\<exists>parsed vals key. traverseE (publicOutput s) (vm_outputs m) = Inr parsed \<and> publicPrincipal env m s = Inr (vals, tr_transparent r) \<and>
      tr_outputs r = map (\<lambda>c. \<lparr>orf_commitment = c, orf_leaf = 0\<rparr>) (map fst parsed) \<and> tr_kind r = vm_kind m \<and> tr_inputs r = vm_nullifiers m \<and>
      (vm_nullifiers m \<noteq> [] \<longrightarrow> kv_has s (GetHistoricalRootKey (vm_root m))) \<and> auditHalted s = Inr False \<and> block_unix ctx < vm_expiry m \<and>
      auditExecutionOrigin (runtime env) ctx = Inr (tr_origin r) \<and> auditNetwork (runtime env) ctx = Inr (tr_network r) \<and>
      activeAuditKey (runtime env) ctx s = Inr key \<and> kr_epoch key = vm_epoch m \<and> kr_key_id key = vm_key_id m \<and>
      tr_key_id r = kr_key_id key \<and> tr_epoch r = kr_epoch key \<and> tr_pk r = kr_pk key \<and> tr_set_id r = AuditCircuitSetID"
    using assms unfolding buildAuditPublic_def Let_def by (auto split: if_splits)
  then obtain parsed vals key where st: "traverseE (publicOutput s) (vm_outputs m) = Inr parsed" "publicPrincipal env m s = Inr (vals, tr_transparent r)"
      "tr_outputs r = map (\<lambda>c. \<lparr>orf_commitment = c, orf_leaf = 0\<rparr>) (map fst parsed)" "tr_kind r = vm_kind m" "tr_inputs r = vm_nullifiers m"
      "vm_nullifiers m \<noteq> [] \<longrightarrow> kv_has s (GetHistoricalRootKey (vm_root m))" "auditHalted s = Inr False" "block_unix ctx < vm_expiry m"
      "auditExecutionOrigin (runtime env) ctx = Inr (tr_origin r)" "auditNetwork (runtime env) ctx = Inr (tr_network r)"
      "activeAuditKey (runtime env) ctx s = Inr key" "kr_epoch key = vm_epoch m" "kr_key_id key = vm_key_id m"
      "tr_key_id r = kr_key_id key" "tr_epoch r = kr_epoch key" "tr_pk r = kr_pk key" "tr_set_id r = AuditCircuitSetID"
    by blast
  show "tr_kind r = vm_kind m" "tr_inputs r = vm_nullifiers m" "vm_nullifiers m \<noteq> [] \<longrightarrow> kv_has s (GetHistoricalRootKey (vm_root m))"
    "auditHalted s = Inr False" "block_unix ctx < vm_expiry m" "auditExecutionOrigin (runtime env) ctx = Inr (tr_origin r)"
    "auditNetwork (runtime env) ctx = Inr (tr_network r)" "tr_set_id r = AuditCircuitSetID"
    by (fact st)+
  show "map orf_commitment (tr_outputs r) = map oe_commitment (vm_outputs m)" using public_commitments [OF st(1)] st(3) by (simp add: comp_def)
  show "(tr_transparent r = None) = (vm_kind m \<noteq> 1 \<and> vm_kind m \<noteq> 2)" by (rule publicPrincipal_transparent [OF st(2)])
  show "\<exists>key. activeAuditKey (runtime env) ctx s = Inr key \<and> kr_epoch key = vm_epoch m \<and> kr_key_id key = vm_key_id m \<and>
       tr_key_id r = kr_key_id key \<and> tr_epoch r = kr_epoch key \<and> tr_pk r = kr_pk key"
    using st(11-16) by blast
qed

section \<open>The handler\<close>

lemma precharge_quiet: "quiet (prechargeAuditMessage ctx raw eb)"
  unfolding prechargeAuditMessage_def Let_def split_beta by (intro atomic_intros)

lemma apply_cases:
  assumes "applyPrivacyTransition env ctx vo s = ((res, w), t)"
  shows "case res of
      Inl _ \<Rightarrow> same_but_gas s t
    | Inr global \<Rightarrow> \<exists>v r. vo = Some v \<and> vt_record v = Some r \<and> \<not> apply_marker ctx \<and> applyStages env (ctx\<lparr>apply_marker := True\<rparr>) v r s = (Inr global, t)"
proof (cases vo)
  case None
  then show ?thesis using assms by (auto simp: applyPrivacyTransition_def)
next
  case (Some v)
  show ?thesis
  proof (cases "runtime env = None \<or> vt_owner v \<noteq> runtime env \<or> vt_record v = None \<or> vt_consumed v \<or> vm_kind (vt_message v) = 0")
    case True
    then show ?thesis using assms Some by (auto simp: applyPrivacyTransition_def)
  next
    case False
    then obtain r where r: "vt_record v = Some r" by auto
    let ?inner = "ctx\<lparr>apply_marker := True\<rparr>"
    let ?m = "bindM (guardM (\<not> apply_marker ctx) (Errorf ''reentrant privacy apply is forbidden'')) (\<lambda>_.
      bindM (readM (\<lambda>_. auditExecutionOrigin (runtime env) ?inner)) (\<lambda>origin.
      bindM (guardM (origin = tr_origin r) (Errorf ''verified execution context changed'')) (\<lambda>_. cacheCtx (applyStages env ?inner v r))))"
    have run: "?m s = (res, t)"
      using assms Some False r by (auto simp: applyPrivacyTransition_def Let_def split: prod.splits)
    have "atomic ?m" by (intro atomic_intros)
    then show ?thesis using run Some r by (cases res) (auto dest: atomicD)
  qed
qed

lemma moved_but_gas: "same_but_gas s u \<Longrightarrow> principal_moved env m delegated u t = principal_moved env m delegated s t"
  by (intro ext) (simp add: principal_moved_def same_but_gas_def balanceOf_def Let_def)

lemma same_but_gas_done:
  assumes "same_but_gas s u" "transition_done env ctx m delegated r global ls u t"
  shows "transition_done env ctx m delegated r global ls s t"
  using assms(2) moved_but_gas [OF assms(1), of env m delegated t] assms(1) by (auto simp: transition_done_def same_but_gas_def split: if_splits)

lemma marker_done: "transition_done env (ctx\<lparr>apply_marker := b\<rparr>) m delegated r global ls s t = transition_done env ctx m delegated r global ls s t"
  by (simp add: transition_done_def)

lemma drop_mark: "(case x of ((r, _), t) \<Rightarrow> (r, t)) = (q, t') \<longleftrightarrow> (\<exists>w. x = ((q, w), t'))"
  by (auto split: prod.splits)

lemma execute_stages:
  assumes "executeAuditWithDelegation env ctx raw delegated s = (Inr global, t)"
  obtains bound u m r cid where "prechargeAuditMessage ctx raw (eventBytes env delegated) s = (Inr bound, u)" "ValidateAuditMessage env raw = Inr m"
    "tx_bytes ctx \<noteq> []" "vm_creator m \<noteq> acc_to_bech32 env (module_address env ''gov'')" "buildAuditPublic env ctx m (ch_store u) = Inr r"
    "auditCircuitID (vm_kind m) = Inr cid" "verify_proof env cid (vm_proof m) (auditPublicWitness (tr_pi r)) = Inr ()"
    "applyStages env (ctx\<lparr>apply_marker := True\<rparr>) \<lparr>vt_owner = runtime env, vt_message = m, vt_record = Some r, vt_bound = bound,
       vt_delegated = delegated, vt_consumed = False\<rparr> r u = (Inr global, t)"
proof -
  obtain bound u m r cid w where st: "prechargeAuditMessage ctx raw (eventBytes env delegated) s = (Inr bound, u)" "ValidateAuditMessage env raw = Inr m"
      "tx_bytes ctx \<noteq> []" "vm_creator m \<noteq> acc_to_bech32 env (module_address env ''gov'')" "buildAuditPublic env ctx m (ch_store u) = Inr r"
      "auditCircuitID (vm_kind m) = Inr cid" "verify_proof env cid (vm_proof m) (auditPublicWitness (tr_pi r)) = Inr ()"
      "applyPrivacyTransition env ctx (Some \<lparr>vt_owner = runtime env, vt_message = m, vt_record = Some r, vt_bound = bound,
         vt_delegated = delegated, vt_consumed = False\<rparr>) u = ((Inr global, w), t)"
    using assms unfolding executeAuditWithDelegation_def by (auto simp: drop_mark)
  from that [OF st(1-7)] apply_cases [OF st(8)] show ?thesis by auto
qed

lemma execute_atomic: "atomic (executeAuditWithDelegation env ctx raw delegated)"
proof -
  have "atomic (\<lambda>s. case applyPrivacyTransition env ctx vo s of ((r, _), t) \<Rightarrow> (r, t))" for vo
    unfolding atomic_def using apply_cases [of env ctx vo] by (fastforce split: prod.splits)
  then show ?thesis unfolding executeAuditWithDelegation_def by (intro atomic_intros precharge_quiet)
qed

lemma historical_prefix:
  assumes "tree_state env h ls s" "kv_has s (GetHistoricalRootKey root)"
  shows "\<exists>j. 0 < j \<and> j \<le> length ls \<and> root = root_bytes env (take j ls)"
  using assms by (auto simp: tree_state_def tree_inv_def tree_roots_def)

section \<open>Properties\<close>

text \<open>C2. A principal movement is exact. When it succeeds, the external endpoint is the creator, the recipient or the authenticated funder and
  never the module account; its balance falls by the amount on a deposit and rises by it on a withdrawal, the balance of the module account
  moves by the opposite amount, and no balance goes below zero; the deposit or the withdrawal counter of the denomination, and no other, grows by
  the amount; before and after, the liability is non-negative and covered by the module account, so a withdrawal never exceeds the
  liability. Nothing is assumed of the bank: the code compares both balances afterwards.\<close>

theorem principal_exact:
  assumes "applyAuditPrincipal env ctx m delegated s = (Inr u, t)"
  shows "(\<exists>address ext modu dep wd. principal_moved env m delegated s t address ext modu dep wd) \<and>
    (\<forall>k. \<not> reserve_key k \<longrightarrow> kv_get (ch_store t) k = kv_get (ch_store s) k) \<and> ch_events t = ch_events s"
  using applyAuditPrincipal_moved [OF assms] by blast

definition sample_validated :: validated_msg where
  "sample_validated = \<lparr>vm_kind = KindDeposit, vm_creator = ''alice'', vm_recipient = [], vm_coin = Some \<lparr>coin_denom = ''uclair'', coin_amount = 5\<rparr>,
     vm_root = ZeroField32, vm_nullifiers = [], vm_outputs = [sample_output], vm_proof = replicate 164 0, vm_aux = [], vm_envelope = replicate 336 0,
     vm_key_id = replicate 32 1, vm_epoch = 1, vm_expiry = 100\<rparr>"

definition sample_funds :: "sample_bank chain" where
  "sample_funds = \<lparr>ch_store = [], ch_bank = (\<lambda>a d. if a = string_bytes ''alice'' then 10 else 0), ch_gas = 0, ch_events = []\<rparr>"

lemma sample_accounts: "string_bytes ''alice'' \<noteq> string_bytes ModuleName"
  by (simp add: string_bytes_def ModuleName_def)

definition sample_coin :: coin where
  "sample_coin = \<lparr>coin_denom = ''uclair'', coin_amount = 5\<rparr>"

definition sample_locked :: "sample_bank chain" where
  "sample_locked = sample_funds\<lparr>ch_bank := move_coin (string_bytes ''alice'') (string_bytes ModuleName) sample_coin (ch_bank sample_funds)\<rparr>"

lemma sample_lock: "principal_Lock sample_sdk (sample_ctx 5) (string_bytes ''alice'') sample_coin sample_funds = (Inr (), sample_locked)"
  using sample_accounts
  by (simp add: principal_Lock_def principal_send_def auditinit_Active_def sample_ctx_def sample_coin_def sample_send_def restrict_def new_scope_def
      sample_funds_def sample_locked_def)

lemma sample_record:
  "recordReserveDeposit sample_sdk sample_coin [] = (Inr (), kv_set (GetReserveDepositKey ''uclair'') (string_bytes (dec_string (nat 5))) [])"
  by (simp add: recordReserveDeposit_ok sample_coin_def getReserveAmount_def)

lemma sample_principal: "\<exists>t. applyAuditPrincipal sample_sdk (sample_ctx 5) sample_validated None sample_funds = (Inr (), t)"
proof -
  have coin: "vm_Coin sample_validated = sample_coin" by (simp add: vm_Coin_def sample_validated_def sample_coin_def)
  have dep: "vm_kind sample_validated = KindDeposit" by (simp add: sample_validated_def)
  have d: "coin_denom sample_coin = ''uclair''" "coin_amount sample_coin = 5" by (simp_all add: sample_coin_def)
  obtain r where snap: "GetReserveSnapshot sample_sdk ''uclair'' (ch_store sample_funds) (ch_bank sample_funds) = Inr r" "rs_collateralized r" "rs_module_balance r = 0"
    using sample_accounts by (simp add: GetReserveSnapshot_def sample_funds_def getReserveAmount_def bitLen256_def Let_def)
  have endpoint: "principalEndpoint sample_sdk sample_validated None = Inr (string_bytes ''alice'')"
    using sample_accounts by (simp add: principalEndpoint_def sample_validated_def)
  have bal: "balanceOf sample_sdk (string_bytes ''alice'') ''uclair'' sample_funds = Some 10"
      "balanceOf sample_sdk (string_bytes ''alice'') ''uclair'' sample_locked = Some 5"
      "balanceOf sample_sdk (string_bytes ModuleName) ''uclair'' sample_locked = Some 5"
    using sample_accounts by (simp_all add: balanceOf_def sample_funds_def sample_locked_def move_coin_def sample_coin_def Let_def)
  define t where "t = sample_locked\<lparr>ch_store := kv_set (GetReserveDepositKey ''uclair'') (string_bytes (dec_string (nat 5))) []\<rparr>"
  have rec: "onStore (recordReserveDeposit sample_sdk sample_coin) sample_locked = (Inr (), t)"
    using sample_record by (simp add: onStore_def sample_locked_def sample_funds_def t_def)
  obtain q where after: "GetReserveSnapshot sample_sdk ''uclair'' (ch_store t) (ch_bank t) = Inr q" "rs_collateralized q"
    using sample_accounts getReserveAmount_set [of "GetReserveDepositKey ''uclair''" "GetReserveDepositKey ''uclair''" 5 "[]"]
      getReserveAmount_set [of "GetReserveWithdrawKey ''uclair''" "GetReserveDepositKey ''uclair''" 5 "[]"]
    by (simp add: GetReserveSnapshot_def t_def getReserveAmount_def [of _ "[]"] bitLen256_def Let_def sample_locked_def sample_funds_def move_coin_def sample_coin_def)
  have "applyAuditPrincipal sample_sdk (sample_ctx 5) sample_validated None sample_funds = (Inr (), t)"
    unfolding applyAuditPrincipal_def coin d Let_def sample_sdk_fields
    using snap endpoint bal rec after sample_lock dep by (auto simp: bitLen256_def)
  then show ?thesis ..
qed

theorem principal_exact_witness:
  "\<exists>t. applyAuditPrincipal sample_sdk (sample_ctx 5) sample_validated None sample_funds = (Inr (), t) \<and>
     (\<exists>address ext modu dep wd. principal_moved sample_sdk sample_validated None sample_funds t address ext modu dep wd)"
  using sample_principal principal_exact [of sample_sdk "sample_ctx 5" sample_validated None sample_funds] by blast

text \<open>C3. A verified transition is applied at most once and atomically. Whatever applying it returns, applying the value it leaves again is refused with the
  chain unchanged, in every context and state; and a failure, at whichever stage, leaves store, bank and events as they were. A
  transition that is applied was not started from inside another one.\<close>

theorem transition_one_shot:
  "case applyPrivacyTransition env ctx vo s of ((res, w), t) \<Rightarrow>
     applyPrivacyTransition env ctx' w s' = ((Inl (Errorf ''invalid verified audit transition''), w), s') \<and>
     (case res of Inl _ \<Rightarrow> same_but_gas s t | Inr _ \<Rightarrow> \<not> apply_marker ctx \<and> vo \<noteq> None)"
proof -
  obtain res w t where run: "applyPrivacyTransition env ctx vo s = ((res, w), t)" by (metis surj_pair)
  have "case w of None \<Rightarrow> True | Some v \<Rightarrow> runtime env = None \<or> vt_owner v \<noteq> runtime env \<or> vt_record v = None \<or> vt_consumed v \<or> vm_kind (vt_message v) = 0"
    using run by (auto simp: applyPrivacyTransition_def Let_def split: option.splits if_splits prod.splits)
  then have "applyPrivacyTransition env ctx' w s' = ((Inl (Errorf ''invalid verified audit transition''), w), s')"
    by (auto simp: applyPrivacyTransition_def split: option.splits)
  then show ?thesis using run apply_cases [OF run] by (auto split: sum.splits)
qed

text \<open>C1. What executing an audit message does, deposits with a separate funder included. A failure changes nothing but the consumed gas. A success means:
  the message passed validation; the module was not halted and the key the message names is the active one; the proof was accepted for the
  public inputs that were derived from the message and the state; a message that spends refers to the root of a non-empty prefix of the
  commitments; its nullifiers are distinct, were not spent before and are exactly what is spent in addition afterwards; its commitments are
  appended to the tree in order; coins and reserve counters moved exactly as the message says, for a deposit or a withdrawal, and not at all for a
  transfer; the execution got the next global sequence number and one event; and no other part of the store was written.\<close>

theorem executed_message:
  assumes "tree_state env (block_height ctx) ls (ch_store s)"
  shows "case executeAuditWithDelegation env ctx raw delegated s of
      (Inl _, t) \<Rightarrow> same_but_gas s t
    | (Inr global, t) \<Rightarrow> \<exists>m r cid. ValidateAuditMessage env raw = Inr m \<and> buildAuditPublic env ctx m (ch_store s) = Inr r \<and>
        auditHalted (ch_store s) = Inr False \<and>
        (\<exists>key. activeAuditKey (runtime env) ctx (ch_store s) = Inr key \<and> kr_key_id key = vm_key_id m \<and> kr_epoch key = vm_epoch m) \<and>
        auditCircuitID (vm_kind m) = Inr cid \<and> verify_proof env cid (vm_proof m) (auditPublicWitness (tr_pi r)) = Inr () \<and>
        (vm_nullifiers m \<noteq> [] \<longrightarrow> (\<exists>j. 0 < j \<and> j \<le> length ls \<and> vm_root m = root_bytes env (take j ls))) \<and>
        tr_inputs r = vm_nullifiers m \<and> map orf_commitment (tr_outputs r) = map oe_commitment (vm_outputs m) \<and>
        (tr_transparent r = None) = (vm_kind m \<noteq> 1 \<and> vm_kind m \<noteq> 2) \<and>
        transition_done env ctx m delegated r global ls s t"
proof -
  obtain res t where run: "executeAuditWithDelegation env ctx raw delegated s = (res, t)" by (metis surj_pair)
  show ?thesis
  proof (cases res)
    case (Inl e)
    then show ?thesis using run atomicD [OF execute_atomic] by auto
  next
    case (Inr global)
    then have "executeAuditWithDelegation env ctx raw delegated s = (Inr global, t)" using run by simp
    then show ?thesis
    proof (rule execute_stages, goal_cases)
      case st: (1 bound u m r cid)
      have same: "same_but_gas s u" using quiet_ok [OF precharge_quiet st(1)] .
      then have store: "ch_store u = ch_store s" by (simp add: same_but_gas_def)
      note parts = buildAuditPublic_parts [OF st(5)]
      have "transition_done env ctx m delegated r global ls s t"
        using applyStages_done [OF st(8), of ls] assms store same_but_gas_done [OF same] by (simp add: marker_done)
      then show ?thesis
        using run Inr st(2,5,6,7) parts historical_prefix [OF assms, of "vm_root m"] unfolding store by auto
    qed
  qed
qed

definition sample_app :: "sample_bank app_env" where
  "sample_app = msg_env.extend sample_msg_env (app_env.fields (Some sample_runtime) [] (\<lambda>_ _ _. Inr ()) (\<lambda>_. None))"

lemma sample_app_crypto: "mimc_sum sample_app = sample_digest"
  by (simp add: sample_app_def msg_env.extend_def sample_msg_env_def sdk_env.extend_def sample_sdk_def keeper_env.extend_def sample_env_def)

lemma sample_app_tree: "tree_state sample_app 5 [] []"
  using sample_crypto [of True] by (simp add: tree_state_def is_height_def crypto_ok_def sample_app_crypto sample_env_def)

theorem executed_message_witness:
  "tree_state sample_app (block_height (sample_ctx 5)) [] (ch_store sample_funds) \<and>
   (\<exists>e t. executeAuditWithDelegation sample_app (sample_ctx 5) sample_deposit None sample_funds = (Inl e, t) \<and> same_but_gas sample_funds t)"
proof -
  have tree: "tree_state sample_app (block_height (sample_ctx 5)) [] (ch_store sample_funds)"
    using sample_app_tree by (simp add: sample_ctx_def sample_funds_def)
  have "activeAuditKey rt ctx (ch_store sample_funds) \<noteq> Inr key" for rt ctx key by (simp add: activeAuditKey_def sample_funds_def)
  then show ?thesis using tree executed_message [OF tree, of sample_deposit None] by (auto split: prod.splits sum.splits)
qed

end
