(* ===== verification/Audit_Charge.thy ===== *)
theory Audit_Charge
  imports Audit_Execute
begin

text \<open>
  The charge made before a message is decoded covers what applying it writes: the projection with maximal metadata is at least as large as
  the projection of every record that can be built from the message, so the check of the written bytes never refuses a verified transition.
\<close>

section \<open>Sizes as numbers\<close>

definition scan_bytes :: "scan_summary \<times> scan_output list \<Rightarrow> nat" where
  "scan_bytes p = PrivacyScanSummaryV2_Size (fst p) + 34 + sum_list (map (\<lambda>x. PrivacyScanOutputV2_Size x + 21) (snd p))"

lemma scanStateBytes_nat: "scanStateBytes p = word_of_nat (scan_bytes p)"
proof -
  have "foldl (\<lambda>n x. n + word_of_nat (f x)) (word_of_nat a) xs = (word_of_nat (a + sum_list (map f xs)) :: u64)" for f :: "scan_output \<Rightarrow> nat" and a xs
    by (induction xs arbitrary: a) (simp_all add: add.assoc flip: of_nat_add)
  from this [of "\<lambda>x. PrivacyScanOutputV2_Size x + 21" "PrivacyScanSummaryV2_Size (fst p) + 17 + 9 + 8" "snd p"]
  show ?thesis unfolding scanStateBytes_def scan_bytes_def by (simp add: algebra_simps del: of_nat_add)
qed

lemma small_sizes: "szNum w \<le> 11" "szBytes l \<le> l + 11" "szBytes2 l \<le> l + 12" "szMsg l \<le> l + 11"
  using sov_ten by (simp_all add: szNum_def szBytes_def szBytes2_def szMsg_def)

lemma szBytes2_0 [simp]: "szBytes2 0 = 0"
  by (simp add: szBytes2_def)

lemma szNum_max: "szNum w \<le> szNum MaxUint64"
  by (rule szNum_mono) (use unat_u64_less [of w] in \<open>simp add: MaxUint64_def\<close>)

lemma height_below: "is_height h \<Longrightarrow> szNum (word_of_int h) \<le> szNum (word_of_int (2 ^ 63 - 1))"
proof (rule szNum_mono)
  assume h: "is_height h"
  then have "unat (word_of_int h :: u64) = nat h" by (simp add: is_height_def unsigned_of_int take_bit_int_eq_self)
  then show "unat (word_of_int h :: u64) \<le> unat (word_of_int (2 ^ 63 - 1) :: u64)" using h by (simp add: is_height_def nat_le_iff)
qed

lemma leaf_below: "unat w < 2 ^ 32 \<Longrightarrow> szNum w \<le> szNum 0xffffffff"
  by (rule szNum_mono) simp

lemma hex_length [simp]: "length (hex_of_bytes bs) = 2 * length bs"
  by (induction bs) (simp_all add: hex_of_bytes_def)

section \<open>Records built from a message\<close>

definition record_shape :: "validated_msg \<Rightarrow> transition_record \<Rightarrow> bool" where
  "record_shape m r =
     (tr_kind r = vm_kind m \<and> tr_set_id r = AuditCircuitSetID \<and> length (tr_key_id r) = 32 \<and> length (tr_pk r) = 64 \<and>
      length (or_anchor (tr_origin r)) = 32 \<and> list_all (\<lambda>n. length n = 32) (tr_inputs r) \<and> length (tr_inputs r) = length (vm_nullifiers m) \<and>
      length (tr_outputs r) = length (vm_outputs m) \<and> list_all (\<lambda>x. unat (orf_leaf x) < 2 ^ 32) (tr_outputs r))"

lemma summary_covered:
  assumes "record_shape m r" "is_height h" "length eff = 32"
  shows "PrivacyScanSummaryV2_Size (projectSummary global h r eff) \<le>
    PrivacyScanSummaryV2_Size (projectSummary MaxUint64 (2 ^ 63 - 1) (maximalRecord (vm_kind m) (length (vm_nullifiers m)) (length (vm_outputs m))) (replicate 32 0))"
proof -
  have "map (\<lambda>b. szMsg (length b)) (tr_inputs r) = map (\<lambda>b. szMsg (length b)) (replicate (length (vm_nullifiers m)) ZeroField32)"
    using assms(1) by (intro nth_equalityI) (auto simp: record_shape_def list_all_length ZeroField32_def)
  then show ?thesis
    using assms(1,3) szNum_max [of global] szNum_max [of "tr_epoch r"] height_below [OF assms(2)]
    by (simp add: PrivacyScanSummaryV2_Size_def projectSummary_def maximalRecord_def record_shape_def)
qed

lemma output_covered:
  assumes "record_shape m r" "is_height h" "length eff = 32" "unat (orf_leaf ref) < 2 ^ 32"
  defines "big \<equiv> maximalRecord (vm_kind m) (length (vm_nullifiers m)) (length (vm_outputs m))"
  shows "PrivacyScanOutputV2_Size (projectOutput r (projectSummary global h r eff) i x ref) \<le>
    PrivacyScanOutputV2_Size (projectOutput big (projectSummary MaxUint64 (2 ^ 63 - 1) big (replicate 32 0)) i x \<lparr>orf_commitment = ZeroField32, orf_leaf = 0xffffffff\<rparr>)"
proof -
  have "sov (tr_epoch r) \<le> sov MaxUint64" by (rule sov_mono) (use unat_u64_less [of "tr_epoch r"] in \<open>simp add: MaxUint64_def\<close>)
  moreover have "(MaxUint64 :: u64) \<noteq> 0" by (simp add: MaxUint64_def)
  ultimately show ?thesis
    using assms(1,3) szNum_max [of global] leaf_below [OF assms(4)] height_below [OF assms(2)]
    by (simp add: PrivacyScanOutputV2_Size_def projectOutput_def projectSummary_def big_def maximalRecord_def record_shape_def)
qed

lemma projection_covered:
  assumes "record_shape m r" "is_height h" "length eff = 32"
  shows "scan_bytes (auditScanProjection global h r (vm_outputs m) eff) \<le>
    scan_bytes (auditScanProjection MaxUint64 (2 ^ 63 - 1) (maximalRecord (vm_kind m) (length (vm_nullifiers m)) (length (vm_outputs m))) (vm_outputs m) (replicate 32 0))"
proof -
  let ?big = "maximalRecord (vm_kind m) (length (vm_nullifiers m)) (length (vm_outputs m))"
  let ?sm = "projectSummary global h r eff" and ?sb = "projectSummary MaxUint64 (2 ^ 63 - 1) ?big (replicate 32 0)"
  let ?f = "\<lambda>i. PrivacyScanOutputV2_Size (projectOutput r ?sm i (vm_outputs m ! i) (tr_outputs r ! i)) + 21"
  let ?g = "\<lambda>i. PrivacyScanOutputV2_Size (projectOutput ?big ?sb i (vm_outputs m ! i) \<lparr>orf_commitment = ZeroField32, orf_leaf = 0xffffffff\<rparr>) + 21"
  have len: "length (tr_outputs r) = length (vm_outputs m)" and leaf: "\<And>i. i < length (vm_outputs m) \<Longrightarrow> unat (orf_leaf (tr_outputs r ! i)) < 2 ^ 32"
    using assms(1) by (auto simp: record_shape_def list_all_length)
  have "?f i \<le> ?g i" if "i < length (vm_outputs m)" for i using output_covered [OF assms leaf [OF that]] by simp
  then have le: "sum_list (map ?f [0 ..< length (vm_outputs m)]) \<le> sum_list (map ?g [0 ..< length (vm_outputs m)])" by (intro sum_list_mono) auto
  have "map (\<lambda>x. PrivacyScanOutputV2_Size x + 21) (snd (auditScanProjection global h r (vm_outputs m) eff)) = map ?f [0 ..< length (vm_outputs m)]"
    using len by (intro nth_equalityI) (auto simp: auditScanProjection_def Let_def nth_enumerate_eq)
  moreover have "map (\<lambda>x. PrivacyScanOutputV2_Size x + 21) (snd (auditScanProjection MaxUint64 (2 ^ 63 - 1) ?big (vm_outputs m) (replicate 32 0))) = map ?g [0 ..< length (vm_outputs m)]"
    by (intro nth_equalityI) (auto simp: auditScanProjection_def Let_def nth_enumerate_eq maximalRecord_def)
  ultimately show ?thesis using le summary_covered [OF assms, of global] by (simp add: scan_bytes_def auditScanProjection_def Let_def)
qed

section \<open>The charge does not wrap\<close>

lemma dec_string_short: "length (dec_string n) \<le> Suc n"
proof (induction n rule: dec_string.induct)
  case (1 n)
  show ?case
  proof (cases "n < 10")
    case False
    then have "n div 10 < n" by simp
    then show ?thesis using 1 False by (simp add: dec_string.simps [of n])
  qed (simp add: dec_string.simps [of n])
qed

lemma mode_string_length: "length (mode_string w) \<le> 2 ^ 32"
proof -
  have "\<bar>sint w\<bar> \<le> 2 ^ 31" using sint_ge [of w] sint_lt [of w] by simp
  then have "nat \<bar>sint w\<bar> \<le> 2 ^ 31" by (simp add: nat_le_iff)
  then have "length (dec_string (nat \<bar>sint w\<bar>)) \<le> 2 ^ 31 + 1" using dec_string_short [of "nat \<bar>sint w\<bar>"] by simp
  then show ?thesis by (auto simp: mode_string_def abs_if split: if_splits)
qed

lemma szBytes_ge: "l \<le> szBytes l"
  by (simp add: szBytes_def szMsg_def)

lemma event_length: "length (auditEventType k) \<le> 17"
  by (simp add: auditEventType_def EventTypeDeposit_def EventTypeWithdraw_def EventTypeShieldedTransfer_def EventTypeBatchTransferV1_def)

lemma name_lengths: "length AuditCircuitSetID \<le> 64" "length FixedPayloadVersionV1 \<le> 64" "length PrivacyScanSchemaVersionV2 \<le> 64"
  by (simp_all add: AuditCircuitSetID_def FixedPayloadVersionV1_def PrivacyScanSchemaVersionV2_def)

lemma output_size_le:
  "PrivacyScanOutputV2_Size m \<le> 400 + length (so_effect m) + length (so_commitment m) + length (so_ciphertext m) + length (so_encrypted_note m) +
     length (so_view_tag m) + length (so_mode m) + length (so_user_digest m) + length (so_user_target m) + length (so_user_payload m) +
     length (so_full_digest m) + length (so_audit_payload m) + length (so_self_view m) + length (so_circuit_set m) + length (so_payload_version m) +
     length (so_schema_version m) + length (so_key_id m) + length (so_target m) + length (so_tx_hash m) + length (so_event m)"
proof -
  note b = small_sizes(2) and b2 = small_sizes(3) and n = small_sizes(1)
  have ifs: "(if so_leaf_found m then 2 else 0) \<le> (2 :: nat)" "(if so_key_epoch m \<noteq> 0 then 2 + sov (so_key_epoch m) else 0) \<le> 12"
    using sov_ten [of "so_key_epoch m"] by auto
  show ?thesis unfolding PrivacyScanOutputV2_Size_def
    using n [of "so_sequence m"] n [of "word_of_int (so_height m)"] n [of "ucast (so_index m)"] b [of "length (so_effect m)"] b [of "length (so_commitment m)"]
      b [of "length (so_ciphertext m)"] b [of "length (so_encrypted_note m)"] b [of "length (so_view_tag m)"] n [of "so_leaf_index m"] n [of "ucast (so_policy m)"]
      b [of "length (so_mode m)"] b [of "length (so_user_digest m)"] b [of "length (so_user_target m)"] b [of "length (so_user_payload m)"]
      b2 [of "length (so_full_digest m)"] b2 [of "length (so_audit_payload m)"] b2 [of "length (so_self_view m)"] b2 [of "length (so_circuit_set m)"]
      b2 [of "length (so_payload_version m)"] b2 [of "length (so_schema_version m)"] b2 [of "length (so_key_id m)"] ifs
      b2 [of "length (so_target m)"] b2 [of "length (so_tx_hash m)"] b2 [of "length (so_event m)"]
    by linarith
qed

lemma summary_size_le:
  "PrivacyScanSummaryV2_Size m \<le> 200 + length (ss_tx_hash m) + length (ss_event m) + sum_list (map (\<lambda>b. szMsg (length b)) (ss_nullifiers m)) +
     length (ss_circuit_set m) + length (ss_payload_version m) + length (ss_schema_version m) + length (ss_key_id m) + length (ss_target m) + length (ss_effect m)"
proof -
  note b = small_sizes(2) and n = small_sizes(1)
  show ?thesis unfolding PrivacyScanSummaryV2_Size_def
    using n [of "ss_sequence m"] n [of "word_of_int (ss_height m)"] b [of "length (ss_tx_hash m)"] b [of "length (ss_event m)"] n [of "ucast (ss_output_count m)"]
      b [of "length (ss_circuit_set m)"] b [of "length (ss_payload_version m)"] b [of "length (ss_schema_version m)"] b [of "length (ss_key_id m)"]
      n [of "ss_key_epoch m"] b [of "length (ss_target m)"] b [of "length (ss_effect m)"] by simp
qed

lemma output_bound:
  "PrivacyScanOutputV2_Size (projectOutput (maximalRecord k ni no) (projectSummary q h (maximalRecord k ni no) (replicate 32 0)) i x ref) \<le> OutputEffect_Size x + 2 ^ 33"
proof -
  note ge = szBytes_ge [of "length (oe_commitment x)"] szBytes_ge [of "length (oe_ciphertext x)"] szBytes_ge [of "length (oe_view_tag x)"]
    szBytes_ge [of "length (oe_user_digest x)"] szBytes_ge [of "length (oe_user_target x)"] szBytes_ge [of "length (oe_user_payload x)"]
    szBytes_ge [of "length (oe_full_digest x)"] szBytes_ge [of "length (oe_self_view x)"]
  have mode: "length (if b then [] else mode_string (oe_mode x)) \<le> 2 ^ 32" for b using mode_string_length [of "oe_mode x"] by simp
  have cipher: "length (if b then [] else oe_ciphertext x) + length (if b then oe_ciphertext x else []) = length (oe_ciphertext x)" for b by simp
  show ?thesis
    using ge mode [of "k = 1 \<or> (k = 3 \<and> i = 1)"] cipher [of "k = 1"] event_length [of k] name_lengths
      output_size_le [of "projectOutput (maximalRecord k ni no) (projectSummary q h (maximalRecord k ni no) (replicate 32 0)) i x ref"]
    unfolding OutputEffect_Size_def
    by (simp add: projectOutput_def projectSummary_def maximalRecord_def del: One_nat_def split del: if_split)
qed

lemma enumerate_mem: "(i, y) \<in> set (enumerate n ys) \<Longrightarrow> y \<in> set ys"
  by (auto simp: in_set_enumerate_eq)

lemma maximal_small:
  assumes "ni \<le> 16" "length xs \<le> 32" "\<And>x. x \<in> set xs \<Longrightarrow> OutputEffect_Size x \<le> 2 ^ 20"
  shows "scan_bytes (auditScanProjection q h (maximalRecord k ni (length xs)) xs (replicate 32 0)) < 2 ^ 64"
proof -
  let ?r = "maximalRecord k ni (length xs)"
  let ?p = "auditScanProjection q h ?r xs (replicate 32 0)"
  have "PrivacyScanOutputV2_Size out + 21 \<le> 2 ^ 34" if "out \<in> set (snd ?p)" for out
  proof -
    from that obtain i x ref where "out = projectOutput ?r (projectSummary q h ?r (replicate 32 0)) i x ref" "x \<in> set xs"
      by (auto simp: auditScanProjection_def Let_def dest!: enumerate_mem set_zip_leftD)
    then show ?thesis using output_bound [of k ni "length xs" q h i x ref] assms(3) [of x] by simp
  qed
  then have "sum_list (map (\<lambda>x. PrivacyScanOutputV2_Size x + 21) (snd ?p)) \<le> sum_list (map (\<lambda>_. 2 ^ 34) (snd ?p))" by (intro sum_list_mono) auto
  also have "\<dots> = length (snd ?p) * 2 ^ 34" by (simp only: sum_list_triv of_nat_id)
  also have "\<dots> \<le> 32 * 2 ^ 34" using assms(2) by (simp add: auditScanProjection_def Let_def maximalRecord_def)
  finally have outs: "sum_list (map (\<lambda>x. PrivacyScanOutputV2_Size x + 21) (snd ?p)) \<le> 32 * 2 ^ 34" .
  have "sum_list (map (\<lambda>b. szMsg (length b)) (replicate ni ZeroField32)) \<le> 16 * 43"
    using assms(1) small_sizes(4) [of 32] mult_le_mono [of ni 16 "szMsg 32" 43] by (simp add: sum_list_replicate ZeroField32_def map_replicate_const)
  then have "PrivacyScanSummaryV2_Size (fst ?p) \<le> 2000"
    using summary_size_le [of "fst ?p"] name_lengths event_length [of k]
    by (simp add: auditScanProjection_def Let_def projectSummary_def maximalRecord_def)
  then show ?thesis using outs by (simp add: scan_bytes_def)
qed

section \<open>Records of verified messages\<close>

lemma auxCharge_present: "auxCharge outs aux = Inr a \<Longrightarrow> None \<notin> set outs"
  by (induction outs arbitrary: aux) (auto split: option.splits)

lemma charge_parts:
  assumes "chargeShape raw = Inr (k, ni, outs)" "msgParts raw = Inr p"
  shows "k = mp_kind p \<and> ni = length (mp_nullifiers p) \<and> outs = mp_outputs p"
  using assms by (cases raw rule: msgParts.cases) (auto simp: transferParts_def kind_defs)

lemma effect_in_message:
  assumes "chargeShape raw = Inr (k, ni, outs)" "Some x \<in> set outs"
  shows "OutputEffect_Size x \<le> msg_Size raw"
proof -
  have part: "szMsg (OutputEffect_Size x) \<le> sum_list (map (\<lambda>e. szMsg (case e of None \<Rightarrow> 0 | Some v \<Rightarrow> OutputEffect_Size v)) xs)" if "Some x \<in> set xs" for xs
    using that member_le_sum_list [of "szMsg (OutputEffect_Size x)" "map (\<lambda>e. szMsg (case e of None \<Rightarrow> 0 | Some v \<Rightarrow> OutputEffect_Size v)) xs"]
    by (force simp: image_iff)
  have le: "OutputEffect_Size x \<le> szMsg (OutputEffect_Size x)" by (simp add: szMsg_def)
  have "OutputEffect_Size x \<le> MsgTransfer_Size v" if "Some x \<in> set (mt_outputs v)" for v
    using part [OF that] le unfolding MsgTransfer_Size_def by linarith
  moreover have "OutputEffect_Size x \<le> MsgDeposit_Size v" if "md_output v = Some x" for v
    using that le by (simp add: MsgDeposit_Size_def szOpt_def)
  ultimately show ?thesis using assms by (cases raw rule: msgParts.cases) (auto simp: msg_Size_def)
qed

lemma charge_ok:
  assumes "prechargeAuditMessage ctx raw eb s = (Inr bound, t)"
  obtains k ni outs where "chargeShape raw = Inr (k, ni, outs)" "ni \<le> 16" "length outs \<le> 32" "msg_Size raw \<le> MaxBatchTransferMessageBytesV1" "None \<notin> set outs"
    "bound = scanStateBytes (auditScanProjection MaxUint64 (2 ^ 63 - 1) (maximalRecord k ni (length outs)) (map the outs) (replicate 32 0))"
proof -
  from assms show ?thesis unfolding prechargeAuditMessage_def Let_def
    by (auto simp: not_less dest: auxCharge_present intro: that)
qed

lemma charge_message:
  assumes "prechargeAuditMessage ctx raw eb s = (Inr bound, t)" "ValidateAuditMessage env raw = Inr m"
  defines "p \<equiv> auditScanProjection MaxUint64 (2 ^ 63 - 1) (maximalRecord (vm_kind m) (length (vm_nullifiers m)) (length (vm_outputs m))) (vm_outputs m) (replicate 32 0)"
  shows "bound = scanStateBytes p \<and> scan_bytes p < 2 ^ 64"
  using assms(1)
proof (rule charge_ok, goal_cases)
  case c: (1 k ni outs)
  obtain q where q: "msgParts raw = Inr q" "auditNullifiers [] (mp_nullifiers q) = Inr (vm_nullifiers m)" "vm_kind m = mp_kind q" "vm_outputs m = map the (mp_outputs q)"
    using assms(2) by (rule ValidateAuditMessage_stages)
  have eq: "k = vm_kind m" "ni = length (vm_nullifiers m)" "vm_outputs m = map the outs"
    using charge_parts [OF c(1) q(1)] q(3,4) auditNullifiers_ok [OF q(2)] by auto
  have "OutputEffect_Size x \<le> 2 ^ 20" if x: "x \<in> set (vm_outputs m)" for x
  proof -
    have "Some x \<in> set outs" using x c(5) unfolding eq(3) by (metis (no_types, lifting) imageE list.set_map option.exhaust_sel)
    from effect_in_message [OF c(1) this] show ?thesis using c(4) by (simp add: MaxBatchTransferMessageBytesV1_def)
  qed
  moreover have "length (vm_outputs m) \<le> 32" "length (vm_nullifiers m) \<le> 16" using c(2,3) eq by simp_all
  ultimately have "scan_bytes p < 2 ^ 64" unfolding p_def by (intro maximal_small)
  moreover have "bound = scanStateBytes p" using c(6) unfolding p_def eq(1,2) [symmetric] eq(3) by simp
  ultimately show ?thesis by simp
qed

lemma active_key_lengths:
  assumes "activeAuditKey rt ctx s = Inr key" shows "length (kr_pk key) = 64" "length (kr_key_id key) = 32"
proof -
  obtain raw network ih where d: "decodeAuditKey raw network ih = Inr key"
    using assms by (auto simp: activeAuditKey_def getAuditKey_def split: option.splits prod.splits)
  note len = decodeAuditKey_length [OF d]
  show "length (kr_pk key) = 64" "length (kr_key_id key) = 32"
    using d len unfolding decodeAuditKey_261 [OF len] by (auto simp: Let_def)
qed

lemma origin_anchor_32: "auditExecutionOrigin rt ctx = Inr ao \<Longrightarrow> length (or_anchor ao) = 32"
  by (auto simp: auditExecutionOrigin_def split: option.splits if_splits)

text \<open>What \<^verbatim>\<open>storeAuditScan\<close> is given after a verified message was built and its commitments were appended has the shape.\<close>

lemma built_shape:
  assumes "ValidateAuditMessage env raw = Inr m" "buildAuditPublic env ctx m s = Inr r" "tree_state env h ls s'" "appendOutputs env h (tr_outputs r) s' = (Inr outs, t)"
  shows "record_shape m (r\<lparr>tr_outputs := outs\<rparr>)"
proof -
  note parts = buildAuditPublic_parts [OF assms(2)]
  obtain key where key: "activeAuditKey (runtime env) ctx s = Inr key" "tr_key_id r = kr_key_id key" "tr_pk r = kr_pk key" using parts(10) by auto
  have grown: "tree_state env h (ls @ map orf_commitment (tr_outputs r)) t" "outs = map (\<lambda>(i, x). x\<lparr>orf_leaf := word_of_nat i\<rparr>) (enumerate (length ls) (tr_outputs r))"
    using appendOutputs_ok [OF assms(3,4)] by auto
  have "length ls + length (tr_outputs r) \<le> 2 ^ 32" using grown(1) by (simp add: tree_state_def tree_inv_def tree_leaves_def)
  then have "unat (word_of_nat i :: u64) < 2 ^ 32" if "i < length ls + length (tr_outputs r)" for i
    using that u64_of_nat_unat [of i] by simp
  then have leaves: "list_all (\<lambda>x. unat (orf_leaf x) < 2 ^ 32) outs" by (simp add: grown(2) list_all_length nth_enumerate_eq del: of_nat_add)
  have "length (tr_outputs r) = length (vm_outputs m)" using parts(3) by (metis length_map)
  moreover have "list_all (\<lambda>n. length n = 32) (vm_nullifiers m)"
  proof -
    obtain q :: msg_parts where q: "auditNullifiers [] (mp_nullifiers q) = Inr (vm_nullifiers m)" using assms(1) by (rule ValidateAuditMessage_stages) blast
    from auditNullifiers_ok [OF q] show ?thesis by (auto simp: list_all_iff active_field_def canonical_field_def)
  qed
  ultimately show ?thesis
    using parts(1,2,8,11) key active_key_lengths [OF key(1)] origin_anchor_32 [OF parts(8)] leaves grown(2) by (simp add: record_shape_def)
qed

section \<open>Properties\<close>

text \<open>C4. The charge covers the scan state: for a message that was charged and validated, the bytes that storing its scan records writes never exceed the
  bound that was charged, whatever the sequence number, the block height, the active key and the leaf positions are; and the 64-bit
  sums on both sides do not wrap.\<close>

theorem charge_covers_scan:
  assumes "prechargeAuditMessage ctx raw eb s = (Inr bound, t)" "ValidateAuditMessage env raw = Inr m" "record_shape m r" "is_height h" "length eff = 32"
  shows "unat (scanStateBytes (auditScanProjection global h r (vm_outputs m) eff)) = scan_bytes (auditScanProjection global h r (vm_outputs m) eff) \<and>
    scan_bytes (auditScanProjection global h r (vm_outputs m) eff) \<le> unat bound"
proof -
  let ?p = "auditScanProjection MaxUint64 (2 ^ 63 - 1) (maximalRecord (vm_kind m) (length (vm_nullifiers m)) (length (vm_outputs m))) (vm_outputs m) (replicate 32 0)"
  have b: "bound = scanStateBytes ?p" "scan_bytes ?p < 2 ^ 64" using charge_message [OF assms(1,2)] by simp_all
  have le: "scan_bytes (auditScanProjection global h r (vm_outputs m) eff) \<le> scan_bytes ?p" by (rule projection_covered [OF assms(3-5)])
  have "unat bound = scan_bytes ?p" unfolding b(1) scanStateBytes_nat using b(2) by (rule u64_of_nat_unat)
  moreover have "unat (scanStateBytes (auditScanProjection global h r (vm_outputs m) eff)) = scan_bytes (auditScanProjection global h r (vm_outputs m) eff)"
    unfolding scanStateBytes_nat using le b(2) by (intro u64_of_nat_unat) simp
  ultimately show ?thesis using le by simp
qed

definition sample_record :: transition_record where
  "sample_record = (maximalRecord KindDeposit 0 1)\<lparr>tr_epoch := 1, tr_outputs := [\<lparr>orf_commitment = sample_c1, orf_leaf = 3\<rparr>]\<rparr>"

lemma sample_effect_size: "OutputEffect_Size sample_output \<le> 600"
proof -
  have "length sample_c1 = 32" by (simp add: sample_c1_def)
  then show ?thesis using small_sizes(2) [of 32] small_sizes(2) [of 406] by (simp add: OutputEffect_Size_def sample_output_def szNum_def)
qed

lemma sample_projection:
  "scan_bytes (auditScanProjection MaxUint64 (2 ^ 63 - 1) (maximalRecord 1 0 1) [sample_output] (replicate 32 0)) \<le> 10000"
proof -
  let ?r = "maximalRecord 1 0 1"
  let ?sm = "projectSummary MaxUint64 (2 ^ 63 - 1) ?r (replicate 32 0)"
  have p: "auditScanProjection MaxUint64 (2 ^ 63 - 1) ?r [sample_output] (replicate 32 0) =
      (?sm, [projectOutput ?r ?sm 0 sample_output \<lparr>orf_commitment = ZeroField32, orf_leaf = 0xffffffff\<rparr>])"
    by (simp add: auditScanProjection_def Let_def maximalRecord_def)
  have len: "length sample_c1 = 32" by (simp add: sample_c1_def)
  have "PrivacyScanSummaryV2_Size ?sm \<le> 2000"
    using summary_size_le [of ?sm] name_lengths event_length [of 1] by (simp add: projectSummary_def maximalRecord_def)
  moreover have "PrivacyScanOutputV2_Size (projectOutput ?r ?sm 0 sample_output \<lparr>orf_commitment = ZeroField32, orf_leaf = 0xffffffff\<rparr>) \<le> 4000"
    using output_size_le [of "projectOutput ?r ?sm 0 sample_output \<lparr>orf_commitment = ZeroField32, orf_leaf = 0xffffffff\<rparr>"] name_lengths event_length [of 1] len
    by (simp add: projectOutput_def projectSummary_def maximalRecord_def sample_output_def)
  ultimately show ?thesis unfolding p by (simp add: scan_bytes_def)
qed

lemma sample_charged: "\<exists>bound t. prechargeAuditMessage (sample_ctx 5) sample_deposit 0 sample_funds = (Inr bound, t)"
proof -
  let ?p = "auditScanProjection MaxUint64 (2 ^ 63 - 1) (maximalRecord 1 0 1) [sample_output] (replicate 32 0)"
  have b: "unat (scanStateBytes ?p) \<le> 10000"
    unfolding scanStateBytes_nat using sample_projection u64_of_nat_unat [of "scan_bytes ?p"] by simp
  define u where "u = \<lparr>au_kind = 1, au_inputs = 0, au_outputs = 1, au_aux_bytes = 499, au_state_bytes = scanStateBytes ?p\<rparr>"
  obtain sh where sh: "shape 1 = Inr sh" by (auto simp: shape_def kind_defs)
  have ok: "usage_ok u" using b
    by (simp add: usage_ok_def u_def ValidateActiveCounts_def EnvelopeSize_def shape_def kind_defs word_le_nat_alt)
  obtain g where g: "ComputeAuditGasV1 DefaultAuditGasModelV1 keeper_bounds u = Inr g" "unat (gb_total (agb_base g)) = audit_cost u (envelopeBytes sh) (plainFields sh)"
    using audit_gas_run [OF ok, of sh] sh by (auto simp: u_def)
  have cost: "audit_cost u (envelopeBytes sh) (plainFields sh) \<le> 10000000"
    using b shape_bounds [OF sh] by (simp add: audit_cost_def u_def)
  have shape: "chargeShape sample_deposit = Inr (1, 0, [Some sample_output])" by (simp add: sample_deposit_def)
  have aux: "auxCharge [Some sample_output] 4 = Inr 499" by (simp add: sample_output_def)
  have small: "\<not> scanStateBytes ?p > 0xffffffff" using b by (simp add: word_less_nat_alt)
  have room: "\<not> (4 :: u64) > MaxUint64" by (simp add: MaxUint64_def)
  have gas: "ch_gas sample_funds + unat (gb_total (agb_base g)) \<le> gas_limit (sample_ctx 5)" using g(2) cost by (simp add: sample_funds_def sample_ctx_def)
  have "\<exists>t. prechargeAuditMessage (sample_ctx 5) sample_deposit 0 sample_funds = (Inr (scanStateBytes ?p), t)"
    using sample_size g(1) small aux room gas
    by (simp add: prechargeAuditMessage_def shape u_def keeper_bounds_def MaxBatchTransferMessageBytesV1_def Let_def del: auxCharge.simps)
  then show ?thesis by blast
qed

theorem charge_covers_scan_witness:
  "\<exists>bound t m. prechargeAuditMessage (sample_ctx 5) sample_deposit 0 sample_funds = (Inr bound, t) \<and> ValidateAuditMessage sample_msg_env sample_deposit = Inr m \<and>
     scan_bytes (auditScanProjection 8 5 sample_record (vm_outputs m) (replicate 32 9)) \<le> unat bound"
proof -
  obtain bound t where c: "prechargeAuditMessage (sample_ctx 5) sample_deposit 0 sample_funds = (Inr bound, t)" using sample_charged by blast
  obtain m where m: "ValidateAuditMessage sample_msg_env sample_deposit = Inr m" "vm_kind m = KindDeposit" "vm_outputs m = [sample_output]" "vm_nullifiers m = []"
    using sample_accepted by blast
  have "record_shape m sample_record" by (simp add: record_shape_def sample_record_def maximalRecord_def m)
  from charge_covers_scan [OF c m(1) this, of 5 "replicate 32 9" 8] c m(1) show ?thesis by (auto simp: is_height_def)
qed

end
