(* ===== verification/Scan_Query.thy ===== *)
theory Scan_Query
  imports Privacy_Scan
begin

text \<open>
  The readers of the wallet scan index (\<^verbatim>\<open>x/privacy/keeper/privacy_scan.go\<close>, with the event filter of \<^verbatim>\<open>event_index.go\<close> in the same directory):
  cursors and key decoding, the outputs of one event, the paged query and the genesis export and import of the index. An iterator is
  the list of the pairs it visits, so a loop over it is a recursion on that list that may stop early.
\<close>

section \<open>Limits and cursors\<close>

definition DefaultPrivacyScanOutputLimit :: u32 where "DefaultPrivacyScanOutputLimit = 128"
definition MaxPrivacyScanOutputLimit :: u32 where "MaxPrivacyScanOutputLimit = 512"
definition DefaultPrivacyScanEventLimit :: u32 where "DefaultPrivacyScanEventLimit = 64"
definition MaxPrivacyScanEventLimit :: u32 where "MaxPrivacyScanEventLimit = 256"
definition DefaultPrivacyScanByteLimit :: u64 where "DefaultPrivacyScanByteLimit = 1048576"
definition MaxPrivacyScanByteLimit :: u64 where "MaxPrivacyScanByteLimit = 4194304"

definition errPrivacyScanRecordExceedsBudget :: error where
  "errPrivacyScanRecordExceedsBudget = Errorf ''privacy scan record exceeds query byte budget''"

record scan_cursor =
  cu_height :: int
  cu_sequence :: u64
  cu_output :: u32

definition validatePrivacyScanCursor :: "scan_cursor option \<Rightarrow> unit res" where
  "validatePrivacyScanCursor co =
     (case co of
        None \<Rightarrow> Inr ()
      | Some cursor \<Rightarrow>
          bindE (guardE (\<not> cu_height cursor < 0) (Errorf ''privacy scan cursor height must not be negative'')) (\<lambda>_.
          guardE (\<not> (cu_sequence cursor = 0 \<and> cu_output cursor \<noteq> 0)) (Errorf ''privacy scan cursor output_index requires a global_sequence'')))"

definition comparePrivacyScanCursor :: "scan_cursor \<Rightarrow> scan_cursor \<Rightarrow> int" where
  "comparePrivacyScanCursor left right =
     (if cu_height left \<noteq> cu_height right then (if cu_height left < cu_height right then -1 else 1)
      else if cu_sequence left \<noteq> cu_sequence right then (if cu_sequence left < cu_sequence right then -1 else 1)
      else if cu_output left < cu_output right then -1
      else if cu_output left > cu_output right then 1
      else 0)"

definition scanOutputCursor :: "scan_output \<Rightarrow> scan_cursor" where
  "scanOutputCursor out = \<lparr>cu_height = so_height out, cu_sequence = so_sequence out, cu_output = so_index out\<rparr>"

definition GetPrivacyScanSummaryPrefix :: bytes where "GetPrivacyScanSummaryPrefix = [KeyPrefixScanSummary]"
definition GetPrivacyScanOutputPrefix :: bytes where "GetPrivacyScanOutputPrefix = [KeyPrefixScanOutput]"

definition decodePrivacyScanOutputKey :: "bytes \<Rightarrow> scan_cursor res" where
  "decodePrivacyScanOutputKey key =
     bindE (guardE (\<not> (length key \<noteq> 21 \<or> key ! 0 \<noteq> KeyPrefixScanOutput)) (Errorf ''privacy scan output key is malformed'')) (\<lambda>_.
     let height = un_be64 (drop 1 key) in
     bindE (guardE (\<not> height > MaxInt64) (Errorf ''privacy scan output height overflows int64'')) (\<lambda>_.
     Inr \<lparr>cu_height = int (unat height), cu_sequence = un_be64 (drop 9 key), cu_output = un_be32 (drop 17 key)\<rparr>))"

definition decodePrivacyScanSummaryKey :: "bytes \<Rightarrow> (int \<times> u64) res" where
  "decodePrivacyScanSummaryKey key =
     bindE (guardE (\<not> (length key \<noteq> 17 \<or> key ! 0 \<noteq> KeyPrefixScanSummary)) (Errorf ''privacy scan summary key is malformed'')) (\<lambda>_.
     let height = un_be64 (drop 1 key) in
     bindE (guardE (\<not> height > MaxInt64) (Errorf ''privacy scan summary height overflows int64'')) (\<lambda>_.
     Inr (int (unat height), un_be64 (drop 9 key))))"

definition normalizePrivacyScanLimits :: "u32 \<Rightarrow> u32 \<Rightarrow> u64 \<Rightarrow> (u32 \<times> u32 \<times> u64) res" where
  "normalizePrivacyScanLimits ol el bl =
     (let outputLimit = (if ol = 0 then DefaultPrivacyScanOutputLimit else ol);
          eventLimit = (if el = 0 then DefaultPrivacyScanEventLimit else el);
          byteLimit = (if bl = 0 then DefaultPrivacyScanByteLimit else bl)
      in bindE (guardE (\<not> outputLimit > MaxPrivacyScanOutputLimit) (Errorf ''privacy scan output_limit exceeds 512'')) (\<lambda>_.
         bindE (guardE (\<not> eventLimit > MaxPrivacyScanEventLimit) (Errorf ''privacy scan event_limit exceeds 256'')) (\<lambda>_.
         bindE (guardE (\<not> byteLimit > MaxPrivacyScanByteLimit) (Errorf ''privacy scan max_encoded_bytes exceeds 4194304'')) (\<lambda>_.
         Inr (outputLimit, eventLimit, byteLimit)))))"

section \<open>Event filters\<close>

text \<open>A Go map to empty structs is the set of its keys; the nil map and the empty map are both the empty set.\<close>

definition normalizePrivacyEventTypes :: "string list \<Rightarrow> string set" where
  "normalizePrivacyEventTypes eventTypes = set (filter (\<lambda>t. t \<noteq> []) (map TrimSpace eventTypes))"

definition privacyEventTypeAllowed :: "string \<Rightarrow> string set \<Rightarrow> bool" where
  "privacyEventTypeAllowed eventType allowed = (if allowed = {} then True else eventType \<in> allowed)"

section \<open>Single records\<close>

fun eventOutputsLoop :: "'a crypto_env_scheme \<Rightarrow> scan_summary \<Rightarrow> store \<Rightarrow> u32 \<Rightarrow> (bytes \<times> bytes) list \<Rightarrow> scan_output list res" where
  "eventOutputsLoop env summary s expectedIndex [] = Inr []"
| "eventOutputsLoop env summary s expectedIndex ((k, v) # it) =
     bindE (guardE (\<not> expectedIndex \<ge> ss_output_count summary) (Errorf ''privacy scan event contains output beyond summary output_count'')) (\<lambda>_.
     bindE (decodePrivacyScanOutputKey k) (\<lambda>cursor.
     bindE (guardE (\<not> (cu_height cursor \<noteq> ss_height summary \<or> cu_sequence cursor \<noteq> ss_sequence summary \<or> cu_output cursor \<noteq> expectedIndex))
       (Errorf ''privacy scan event output keys are not an exact contiguous prefix'')) (\<lambda>_.
     bindE (mapErr (\<lambda>_. Errorf ''privacy scan output is corrupt'') (PrivacyScanOutputV2_Unmarshal v)) (\<lambda>out.
     bindE (mapErr (\<lambda>_. Errorf ''privacy scan output does not match summary/state'') (validatePrivacyScanOutputStateV2 env summary (Some out) expectedIndex s)) (\<lambda>_.
     bindE (eventOutputsLoop env summary s (expectedIndex + 1) it) (\<lambda>outs.
     Inr (out # outs)))))))"

definition getPrivacyScanEventOutputsV2 :: "'a crypto_env_scheme \<Rightarrow> scan_summary \<Rightarrow> store \<Rightarrow> scan_output list res" where
  "getPrivacyScanEventOutputsV2 env summary s =
     (let prefix = GetPrivacyScanOutputEventPrefix (ss_height summary) (ss_sequence summary) in
      bindE (eventOutputsLoop env summary s 0 (kv_range prefix (PrefixEndBytes prefix) s)) (\<lambda>outputs.
      bindE (guardE ((word_of_nat (length outputs) :: u32) = ss_output_count summary) (Errorf ''privacy scan summary has incomplete output records'')) (\<lambda>_.
      Inr outputs)))"

definition getPrivacyScanSummaryV2 :: "'a crypto_env_scheme \<Rightarrow> int \<Rightarrow> u64 \<Rightarrow> store \<Rightarrow> scan_summary res" where
  "getPrivacyScanSummaryV2 env height sequence s =
     (let bz = (case kv_get s (GetPrivacyScanSummaryKey height sequence) of None \<Rightarrow> [] | Some bz \<Rightarrow> bz) in
      bindE (guardE (length bz \<noteq> 0) (Errorf ''privacy scan summary is missing'')) (\<lambda>_.
      bindE (mapErr (\<lambda>_. Errorf ''privacy scan summary is corrupt'') (PrivacyScanSummaryV2_Unmarshal bz)) (\<lambda>summary.
      bindE (guardE (\<not> (ss_height summary \<noteq> height \<or> ss_sequence summary \<noteq> sequence)) (Errorf ''privacy scan summary key/body mismatch'')) (\<lambda>_.
      bindE (validatePrivacyScanSummaryV2 env (Some summary)) (\<lambda>_. Inr summary)))))"

definition getPrivacyScanOutputV2 :: "'a crypto_env_scheme \<Rightarrow> scan_summary \<Rightarrow> u32 \<Rightarrow> store \<Rightarrow> scan_output res" where
  "getPrivacyScanOutputV2 env summary outputIndex s =
     (let bz = (case kv_get s (GetPrivacyScanOutputKey (ss_height summary) (ss_sequence summary) outputIndex) of None \<Rightarrow> [] | Some bz \<Rightarrow> bz) in
      bindE (guardE (length bz \<noteq> 0) (Errorf ''privacy scan output is missing'')) (\<lambda>_.
      bindE (mapErr (\<lambda>_. Errorf ''privacy scan output is corrupt'') (PrivacyScanOutputV2_Unmarshal bz)) (\<lambda>out.
      bindE (mapErr (\<lambda>_. Errorf ''privacy scan output does not match summary/state'') (validatePrivacyScanOutputStateV2 env summary (Some out) outputIndex s)) (\<lambda>_.
      Inr out))))"

section \<open>The paged query\<close>

record scan_page =
  sp_summaries :: "scan_summary list"
  sp_outputs :: "scan_output list"
  sp_next :: scan_cursor
  sp_has_more :: bool
  sp_output_limit :: u32
  sp_event_limit :: u32
  sp_max_bytes :: u64
  sp_scanned :: u32
  sp_encoded :: u64
  sp_schema :: string

text \<open>The loop over the outputs of an event; the flag says that the query returns from inside it.\<close>

fun pageOutputs :: "u32 \<Rightarrow> u64 \<Rightarrow> scan_output list \<Rightarrow> scan_page \<Rightarrow> (scan_page \<times> bool) res" where
  "pageOutputs outputLimit byteLimit [] response = Inr (response, False)"
| "pageOutputs outputLimit byteLimit (out # outs) response =
     (if word_of_nat (length (sp_outputs response)) = outputLimit then Inr (response\<lparr>sp_has_more := True\<rparr>, True)
      else
        let outputBytes = word_of_nat (PrivacyScanOutputV2_Size out) in
        if sp_encoded response + outputBytes > byteLimit then
          (if length (sp_outputs response) = 0 then Inl errPrivacyScanRecordExceedsBudget
           else Inr (response\<lparr>sp_has_more := True\<rparr>, True))
        else pageOutputs outputLimit byteLimit outs
          (response\<lparr>sp_outputs := sp_outputs response @ [out], sp_encoded := sp_encoded response + outputBytes, sp_next := scanOutputCursor out\<rparr>))"

fun pageLoop ::
  "'a crypto_env_scheme \<Rightarrow> store \<Rightarrow> scan_cursor \<Rightarrow> string set \<Rightarrow> u32 \<Rightarrow> u32 \<Rightarrow> u64 \<Rightarrow> (bytes \<times> bytes) list \<Rightarrow> scan_page \<Rightarrow> scan_page res" where
  "pageLoop env s after typeFilter outputLimit eventLimit byteLimit [] response = Inr response"
| "pageLoop env s after typeFilter outputLimit eventLimit byteLimit ((k, v) # it) response =
     bindE (decodePrivacyScanSummaryKey k) (\<lambda>(height, sequence).
     if height < cu_height after \<or> (height = cu_height after \<and> sequence < cu_sequence after)
     then pageLoop env s after typeFilter outputLimit eventLimit byteLimit it response
     else
     bindE (mapErr (\<lambda>_. Errorf ''privacy scan summary is corrupt'') (PrivacyScanSummaryV2_Unmarshal v)) (\<lambda>summary.
     bindE (guardE (\<not> (ss_height summary \<noteq> height \<or> ss_sequence summary \<noteq> sequence)) (Errorf ''privacy scan summary key/body mismatch'')) (\<lambda>_.
     bindE (validatePrivacyScanSummaryV2 env (Some summary)) (\<lambda>_.
     bindE (getPrivacyScanEventOutputsV2 env summary s) (\<lambda>eventOutputs.
     let sameEventAsCursor = (height = cu_height after \<and> sequence = cu_sequence after);
         count = ss_output_count summary;
         startOutput = (if sameEventAsCursor then cu_output after + 1 else 0)
     in
     bindE (guardE (\<not> (sameEventAsCursor \<and> count > 0 \<and> cu_output after \<ge> count)) (Errorf ''privacy scan cursor output_index exceeds event output_count'')) (\<lambda>_.
     if sameEventAsCursor \<and> (count = 0 \<or> cu_output after \<ge> count - 1)
     then pageLoop env s after typeFilter outputLimit eventLimit byteLimit it response
     else if sp_scanned response = eventLimit \<or> word_of_nat (length (sp_outputs response)) = outputLimit
     then Inr (response\<lparr>sp_has_more := True\<rparr>)
     else if \<not> privacyEventTypeAllowed (ss_event summary) typeFilter then
       (if length (sp_outputs response) > 0 \<or> length (sp_summaries response) > 0
        then Inr (response\<lparr>sp_has_more := True\<rparr>)
        else pageLoop env s after typeFilter outputLimit eventLimit byteLimit it
          (response\<lparr>sp_scanned := sp_scanned response + 1,
            sp_next := \<lparr>cu_height = height, cu_sequence = sequence, cu_output = (if count > 0 then count - 1 else 0)\<rparr>\<rparr>))
     else
       let summaryBytes = word_of_nat (PrivacyScanSummaryV2_Size summary) in
       if sp_encoded response + summaryBytes > byteLimit then
         (if length (sp_summaries response) = 0 \<and> length (sp_outputs response) = 0 then Inl errPrivacyScanRecordExceedsBudget
          else Inr (response\<lparr>sp_scanned := sp_scanned response + 1, sp_has_more := True\<rparr>))
       else
         let response1 = response\<lparr>sp_scanned := sp_scanned response + 1, sp_summaries := sp_summaries response @ [summary],
           sp_encoded := sp_encoded response + summaryBytes\<rparr> in
         if count = 0
         then pageLoop env s after typeFilter outputLimit eventLimit byteLimit it
           (response1\<lparr>sp_next := \<lparr>cu_height = height, cu_sequence = sequence, cu_output = 0\<rparr>\<rparr>)
         else
           bindE (pageOutputs outputLimit byteLimit (drop (unat startOutput) eventOutputs) response1) (\<lambda>(response2, returned).
           if returned then Inr response2
           else pageLoop env s after typeFilter outputLimit eventLimit byteLimit it response2)))))))"

definition GetPrivacyScanPageV2 ::
  "'a crypto_env_scheme \<Rightarrow> scan_cursor option \<Rightarrow> u32 \<Rightarrow> u32 \<Rightarrow> u64 \<Rightarrow> string list \<Rightarrow> store \<Rightarrow> scan_page res" where
  "GetPrivacyScanPageV2 env co ol el bl eventTypes s =
     (let after = (case co of None \<Rightarrow> \<lparr>cu_height = 0, cu_sequence = 0, cu_output = 0\<rparr> | Some cursor \<Rightarrow> cursor) in
      bindE (validatePrivacyScanCursor (Some after)) (\<lambda>_.
      bindE (normalizePrivacyScanLimits ol el bl) (\<lambda>(outputLimit, eventLimit, byteLimit).
      pageLoop env s after (normalizePrivacyEventTypes eventTypes) outputLimit eventLimit byteLimit
        (kv_range (GetPrivacyScanSummaryKey (cu_height after) (cu_sequence after)) (PrefixEndBytes GetPrivacyScanSummaryPrefix) s)
        \<lparr>sp_summaries = [], sp_outputs = [], sp_next = after, sp_has_more = False, sp_output_limit = outputLimit, sp_event_limit = eventLimit,
         sp_max_bytes = byteLimit, sp_scanned = 0, sp_encoded = 0, sp_schema = PrivacyScanSchemaVersionV2\<rparr>)))"

section \<open>Genesis\<close>

fun exportSummaries :: "'a crypto_env_scheme \<Rightarrow> store \<Rightarrow> (bytes \<times> bytes) list \<Rightarrow> scan_summary list res" where
  "exportSummaries env s [] = Inr []"
| "exportSummaries env s ((k, v) # it) =
     bindE (decodePrivacyScanSummaryKey k) (\<lambda>(height, sequence).
     bindE (PrivacyScanSummaryV2_Unmarshal v) (\<lambda>summary.
     bindE (validatePrivacyScanSummaryV2 env (Some summary)) (\<lambda>_.
     bindE (guardE (\<not> (ss_height summary \<noteq> height \<or> ss_sequence summary \<noteq> sequence)) (Errorf ''privacy scan summary key/body mismatch'')) (\<lambda>_.
     let sequenceHeight = (case kv_get s (GetPrivacyScanSequenceKey sequence) of None \<Rightarrow> [] | Some bz \<Rightarrow> bz) in
     bindE (guardE (\<not> (length sequenceHeight \<noteq> 8 \<or> un_be64 sequenceHeight \<noteq> word_of_int height))
       (Errorf ''privacy scan sequence index is missing or inconsistent'')) (\<lambda>_.
     bindE (exportSummaries env s it) (\<lambda>summaries.
     Inr (summary # summaries)))))))"

text \<open>The two maps keyed by the printed cursor of an event are functions of height and sequence: printing \<^verbatim>\<open>"%d/%d"\<close> is injective.\<close>

type_synonym event_key = "int \<times> u64"

definition summary_key :: "scan_summary \<Rightarrow> event_key" where
  "summary_key m = (ss_height m, ss_sequence m)"

definition output_event :: "scan_output \<Rightarrow> event_key" where
  "output_event m = (so_height m, so_sequence m)"

fun exportOutputs ::
  "'a crypto_env_scheme \<Rightarrow> store \<Rightarrow> (event_key \<rightharpoonup> scan_summary) \<Rightarrow> (event_key \<Rightarrow> u32) \<Rightarrow> (bytes \<times> bytes) list \<Rightarrow> (scan_output list \<times> (event_key \<Rightarrow> u32)) res" where
  "exportOutputs env s summaryByEvent outputCounts [] = Inr ([], outputCounts)"
| "exportOutputs env s summaryByEvent outputCounts ((k, v) # it) =
     bindE (decodePrivacyScanOutputKey k) (\<lambda>keyCursor.
     bindE (PrivacyScanOutputV2_Unmarshal v) (\<lambda>out.
     bindE (guardE (comparePrivacyScanCursor keyCursor (scanOutputCursor out) = 0) (Errorf ''privacy scan output key/body mismatch'')) (\<lambda>_.
     case summaryByEvent (output_event out) of
       None \<Rightarrow> Inl (Errorf ''privacy scan output summary is missing'')
     | Some summary \<Rightarrow>
         bindE (validatePrivacyScanOutputStateV2 env summary (Some out) (outputCounts (output_event out)) s) (\<lambda>_.
         bindE (exportOutputs env s summaryByEvent (outputCounts(output_event out := outputCounts (output_event out) + 1)) it) (\<lambda>(outs, counts).
         Inr (out # outs, counts))))))"

definition ExportGenesisPrivacyScanV2 :: "'a crypto_env_scheme \<Rightarrow> store \<Rightarrow> (scan_summary list \<times> scan_output list) res" where
  "ExportGenesisPrivacyScanV2 env s =
     bindE (exportSummaries env s (kv_range GetPrivacyScanSummaryPrefix (PrefixEndBytes GetPrivacyScanSummaryPrefix) s)) (\<lambda>summaries.
     let summaryByEvent = foldl (\<lambda>m summary. m(summary_key summary \<mapsto> summary)) Map.empty summaries in
     bindE (exportOutputs env s summaryByEvent (\<lambda>_. 0) (kv_range GetPrivacyScanOutputPrefix (PrefixEndBytes GetPrivacyScanOutputPrefix) s)) (\<lambda>(outs, counts).
     bindE (guardE (list_all (\<lambda>key. counts key = ss_output_count (the (summaryByEvent key))) (map summary_key summaries))
       (Errorf ''privacy scan summary has incomplete output records'')) (\<lambda>_.
     Inr (summaries, outs))))"

end
