(* ===== verification/Scan_Index.thy ===== *)
theory Scan_Index
  imports Scan_Query Frames "HOL-Library.Product_Lexorder"
begin

text \<open>
  What the wallet scan index promises. A store represents a list of events, each a summary with its outputs, in the order of height
  and sequence; the writer inserts an event, a page is an exact slice of the events after its cursor, and a scan that follows the
  cursors sees every output once and ends.
\<close>

section \<open>Ranges of keys\<close>

lemma append_less: "length xs = length ys \<Longrightarrow> (xs @ us < ys @ vs) = (xs < ys \<or> xs = ys \<and> us < (vs :: bytes))"
  by (induction xs ys rule: list_induct2) auto

lemma bump_append: "bump (xs @ ys) = (if list_all (\<lambda>b. b = 255) xs then bump ys else bump xs @ ys)"
  by (induction xs) auto

lemma PrefixEnd_Cons: "b \<noteq> 255 \<Longrightarrow> PrefixEndBytes (b # p) = (if list_all (\<lambda>b. b = 255) p then [b + 1] else b # PrefixEndBytes p)"
  by (simp add: PrefixEndBytes_def bump_append)

lemma PrefixEnd_Cons': "\<not> list_all (\<lambda>b. b = 255) p \<Longrightarrow> PrefixEndBytes (b # p) = b # PrefixEndBytes p"
  by (simp add: PrefixEndBytes_def bump_append)

lemma byte_top: "(c :: byte) \<le> 255"
  using unat_u8_less [of c] by (simp add: word_le_nat_alt)

lemma top_prefix: "list_all (\<lambda>b. b = 255) p \<Longrightarrow> p \<le> k \<longleftrightarrow> (\<exists>r. k = p @ (r :: bytes))"
proof (induction p arbitrary: k)
  case (Cons b p)
  have "\<not> (255 :: byte) < c" for c using byte_top [of c] by (simp add: not_less)
  with Cons show ?case by (cases k) auto
qed simp

text \<open>The range of a prefix is the set of keys with that prefix.\<close>

lemma prefix_end_iff:
  assumes "\<not> list_all (\<lambda>b. b = 255) p"
  shows "p \<le> k \<and> k < PrefixEndBytes p \<longleftrightarrow> (\<exists>r. k = p @ (r :: bytes))"
  using assms
proof (induction p arbitrary: k)
  case (Cons b p)
  show ?case
  proof (cases "list_all (\<lambda>b. b = 255) p")
    case True
    with Cons.prems have b: "b \<noteq> 255" by simp
    then have "b < 255" using byte_top [of b] by (simp add: order_less_le)
    then have "b' < b + 1 \<longleftrightarrow> b' \<le> b" for b'
      by (simp add: word_less_nat_alt word_le_nat_alt unat_word_ariths less_Suc_eq_le)
    then show ?thesis using top_prefix [OF True] by (cases k) (auto simp: PrefixEnd_Cons [OF b] True)
  next
    case False
    show ?thesis using Cons.IH [OF False] by (cases k) (auto simp: PrefixEnd_Cons' [OF False])
  qed
qed simp

lemma kv_range_prefix: "\<not> list_all (\<lambda>b. b = 255) p \<Longrightarrow> kv_range p (PrefixEndBytes p) s = filter (\<lambda>(k, _). \<exists>r. k = p @ r) s"
  by (simp add: kv_range_def prefix_end_iff)

section \<open>Events\<close>

type_synonym scan_event = "scan_summary \<times> scan_output list"

definition event_key :: "scan_event \<Rightarrow> event_key" where
  "event_key e = summary_key (fst e)"

definition summary_entry :: "scan_event \<Rightarrow> bytes \<times> bytes" where
  "summary_entry e = (GetPrivacyScanSummaryKey (ss_height (fst e)) (ss_sequence (fst e)), PrivacyScanSummaryV2_Marshal (fst e))"

definition output_entry :: "scan_output \<Rightarrow> bytes \<times> bytes" where
  "output_entry m = (GetPrivacyScanOutputKey (so_height m) (so_sequence m) (so_index m), PrivacyScanOutputV2_Marshal m)"

text \<open>An event whose records pass every check of the reader in the given store.\<close>

definition event_ok :: "'a crypto_env_scheme \<Rightarrow> store \<Rightarrow> scan_event \<Rightarrow> bool" where
  "event_ok env s e =
     (validatePrivacyScanSummaryV2 env (Some (fst e)) = Inr () \<and> ss_height (fst e) < 2 ^ 63 \<and>
      PrivacyScanSummaryV2_Size (fst e) \<le> MaxPrivacyScanStateRecordSize \<and>
      length (snd e) = unat (ss_output_count (fst e)) \<and>
      (\<forall>i < length (snd e). validatePrivacyScanOutputStateV2 env (fst e) (Some (snd e ! i)) (word_of_nat i) s = Inr () \<and>
         PrivacyScanOutputV2_Size (snd e ! i) \<le> MaxPrivacyScanStateRecordSize))"

definition scan_index :: "'a crypto_env_scheme \<Rightarrow> scan_event list \<Rightarrow> store \<Rightarrow> bool" where
  "scan_index env evs s =
     (kv_wf s \<and> list_all (event_ok env s) evs \<and> sorted_wrt (\<lambda>a b. event_key a < event_key b) evs \<and> distinct (map (snd \<circ> event_key) evs) \<and>
      kv_range [KeyPrefixScanSummary] [KeyPrefixScanOutput] s = map summary_entry evs \<and>
      kv_range [KeyPrefixScanOutput] [KeyPrefixRootSnapshot] s = concat (map (map output_entry \<circ> snd) evs) \<and>
      (\<forall>q. kv_get s (GetPrivacyScanSequenceKey q) = map_of (map (\<lambda>e. (snd (event_key e), be64 (word_of_int (fst (event_key e))))) evs) q))"

text \<open>What the checks of an event say about its keys.\<close>

lemma event_okD:
  assumes "event_ok env s e"
  shows "0 \<le> ss_height (fst e)" "ss_height (fst e) < 2 ^ 63" "ss_sequence (fst e) \<noteq> 0" "unat (ss_output_count (fst e)) \<le> 32"
    "length (snd e) = unat (ss_output_count (fst e))"
  using assms unfolding event_ok_def validatePrivacyScanSummaryV2_def by (simp_all add: not_less word_le_nat_alt)

lemma event_ok_output:
  assumes "event_ok env s e" "i < length (snd e)"
  shows "so_height (snd e ! i) = ss_height (fst e)" "so_sequence (snd e ! i) = ss_sequence (fst e)" "so_index (snd e ! i) = word_of_nat i"
  using assms unfolding event_ok_def validatePrivacyScanOutputStateV2_def validatePrivacyScanOutputV2_def by simp_all

lemma event_ok_codec:
  assumes "event_ok env s e"
  shows "PrivacyScanSummaryV2_Unmarshal (PrivacyScanSummaryV2_Marshal (fst e)) = Inr (fst e)"
    "i < length (snd e) \<Longrightarrow> PrivacyScanOutputV2_Unmarshal (PrivacyScanOutputV2_Marshal (snd e ! i)) = Inr (snd e ! i)"
proof -
  note facts = event_okD [OF assms]
  show "PrivacyScanSummaryV2_Unmarshal (PrivacyScanSummaryV2_Marshal (fst e)) = Inr (fst e)"
    using assms facts by (intro summary_roundtrip) (simp_all add: int64_def event_ok_def MaxPrivacyScanStateRecordSize_def)
  show "PrivacyScanOutputV2_Unmarshal (PrivacyScanOutputV2_Marshal (snd e ! i)) = Inr (snd e ! i)" if "i < length (snd e)"
    using assms facts event_ok_output [OF assms that] that
    by (intro output_roundtrip) (auto simp: int64_def event_ok_def MaxPrivacyScanStateRecordSize_def)
qed

section \<open>Decoding keys\<close>

lemma height_word:
  assumes "0 \<le> h" "h < 2 ^ 63"
  shows "int (unat (word_of_int h :: u64)) = h" "\<not> (word_of_int h :: u64) > MaxInt64"
proof -
  show eq: "int (unat (word_of_int h :: u64)) = h" using assms by (simp add: unsigned_of_int take_bit_int_eq_self)
  have "unat (word_of_int h :: u64) < 2 ^ 63" 
    using eq assms(2) of_nat_less_iff [of "unat (word_of_int h :: u64)" "2 ^ 63", where 'a = int] by (metis of_nat_numeral of_nat_power)
  then show "\<not> (word_of_int h :: u64) > MaxInt64" by (simp add: MaxInt64_def word_less_nat_alt)
qed

lemma decode_summary_key: "0 \<le> h \<Longrightarrow> h < 2 ^ 63 \<Longrightarrow> decodePrivacyScanSummaryKey (GetPrivacyScanSummaryKey h q) = Inr (h, q)"
  using height_word [of h] by (simp add: decodePrivacyScanSummaryKey_def GetPrivacyScanSummaryKey_def Let_def)

lemma decode_output_key: "0 \<le> h \<Longrightarrow> h < 2 ^ 63 \<Longrightarrow>
    decodePrivacyScanOutputKey (GetPrivacyScanOutputKey h q i) = Inr \<lparr>cu_height = h, cu_sequence = q, cu_output = i\<rparr>"
  using height_word [of h] by (simp add: decodePrivacyScanOutputKey_def GetPrivacyScanOutputKey_def Let_def)

lemma height_order: "0 \<le> h \<Longrightarrow> h < 2 ^ 63 \<Longrightarrow> 0 \<le> h' \<Longrightarrow> h' < 2 ^ 63 \<Longrightarrow>
    ((word_of_int h :: u64) < word_of_int h') = (h < h') \<and> ((word_of_int h :: u64) = word_of_int h') = (h = h')"
  using height_word(1) [of h] height_word(1) [of h'] by (metis of_nat_less_iff word_less_nat_alt)

lemma summary_key_order:
  assumes "0 \<le> h" "h < 2 ^ 63" "0 \<le> h'" "h' < 2 ^ 63"
  shows "GetPrivacyScanSummaryKey h q < GetPrivacyScanSummaryKey h' q' \<longleftrightarrow> (h, q) < (h', q')"
    "GetPrivacyScanSummaryKey h q = GetPrivacyScanSummaryKey h' q' \<longleftrightarrow> (h, q) = (h', q')"
  using height_order [OF assms] by (auto simp: GetPrivacyScanSummaryKey_def append_less less_prod_def)

lemma unat_lt_u32: "unat (w :: u32) < 4294967296"
  using unsigned_less [where 'a = nat and w = w] by simp

lemma output_key_order:
  assumes "0 \<le> h" "h < 2 ^ 63" "0 \<le> h'" "h' < 2 ^ 63"
  shows "GetPrivacyScanOutputKey h q i < GetPrivacyScanOutputKey h' q' i' \<longleftrightarrow> (h, q, i) < (h', q', i')"
proof -
  have "unat w mod 4294967296 = unat w" for w :: u32 using unat_lt_u32 [of w] by simp
  then have "be32 i < be32 i' \<longleftrightarrow> i < i'"
    using be_order [of "be32 i" "be32 i'"] by (simp add: be32_def be_to_nat_be_of_nat word_less_nat_alt)
  then show ?thesis using height_order [OF assms] by (auto simp: GetPrivacyScanOutputKey_def append_less less_prod_def)
qed

section \<open>Reading an event back\<close>

lemma filter_concat_single:
  "e \<in> set es \<Longrightarrow> distinct es \<Longrightarrow> list_all P (f e) \<Longrightarrow> (\<And>e'. e' \<in> set es \<Longrightarrow> e' \<noteq> e \<Longrightarrow> list_all (\<lambda>x. \<not> P x) (f e')) \<Longrightarrow>
     filter P (concat (map f es)) = f e"
proof (induction es)
  case (Cons a es)
  have none: "filter P (f e') = []" if "e' \<in> set (a # es)" "e' \<noteq> e" for e'
    using Cons.prems(4) [OF that] by (simp add: filter_empty_conv list_all_iff)
  show ?case
  proof (cases "a = e")
    case True
    have "filter P (concat (map f es)) = []"
      using none True Cons.prems(2) by (force simp: filter_empty_conv filter_concat)
    then show ?thesis using True Cons.prems(3) by (simp add: list_all_iff)
  next
    case False
    then show ?thesis using Cons none [of a] by auto
  qed
qed simp

lemma scan_indexD:
  assumes "scan_index env evs s"
  shows "kv_wf s" "\<And>e. e \<in> set evs \<Longrightarrow> event_ok env s e" "sorted_wrt (\<lambda>a b. event_key a < event_key b) evs"
    "distinct (map (snd \<circ> event_key) evs)" "kv_range [KeyPrefixScanSummary] [KeyPrefixScanOutput] s = map summary_entry evs"
    "kv_range [KeyPrefixScanOutput] [KeyPrefixRootSnapshot] s = concat (map (map output_entry \<circ> snd) evs)"
    "kv_get s (GetPrivacyScanSequenceKey q) = map_of (map (\<lambda>e. (snd (event_key e), be64 (word_of_int (fst (event_key e))))) evs) q"
  using assms by (simp_all add: scan_index_def list_all_iff)

lemma index_distinct: "scan_index env evs s \<Longrightarrow> distinct evs"
  using scan_indexD(4) [of env evs s] by (simp add: distinct_map)

lemma key_determines: "scan_index env evs s \<Longrightarrow> e \<in> set evs \<Longrightarrow> e' \<in> set evs \<Longrightarrow> event_key e = event_key e' \<Longrightarrow> e = e'"
  using scan_indexD(4) [of env evs s] by (auto simp: distinct_map inj_on_def)

definition in_event :: "scan_event \<Rightarrow> bytes \<times> bytes \<Rightarrow> bool" where
  "in_event e kv = (\<exists>r. fst kv = GetPrivacyScanOutputEventPrefix (ss_height (fst e)) (ss_sequence (fst e)) @ r)"

lemma two_words: "be64 a @ be64 b @ c = be64 x @ be64 y @ r \<longleftrightarrow> a = x \<and> b = y \<and> c = r"
  by (simp add: append_eq_append_conv)

lemma output_in_event:
  assumes "event_ok env s e" "event_ok env s e'" "out \<in> set (snd e')"
  shows "in_event e (output_entry out) \<longleftrightarrow> event_key e = event_key e'"
proof -
  obtain i where i: "i < length (snd e')" "out = snd e' ! i" using assms(3) by (metis in_set_conv_nth)
  note out = event_ok_output [OF assms(2) i(1), folded i(2)]
  note same = height_order [OF event_okD(1,2) [OF assms(2)] event_okD(1,2) [OF assms(1)], THEN conjunct2]
  show ?thesis by (simp add: out same in_event_def output_entry_def GetPrivacyScanOutputEventPrefix_def GetPrivacyScanOutputKey_def two_words
      event_key_def summary_key_def) auto
qed

lemma output_range_event: "kv_range [KeyPrefixScanOutput] [KeyPrefixRootSnapshot] s = filter (\<lambda>(k, _). \<exists>r. k = KeyPrefixScanOutput # r) s"
  using prefix_range_iff [of KeyPrefixScanOutput] by (simp add: kv_range_def key_prefix_defs)

lemma event_range:
  assumes "scan_index env evs s" "e \<in> set evs"
  shows "kv_range (GetPrivacyScanOutputEventPrefix (ss_height (fst e)) (ss_sequence (fst e)))
      (PrefixEndBytes (GetPrivacyScanOutputEventPrefix (ss_height (fst e)) (ss_sequence (fst e)))) s = map output_entry (snd e)"
    (is "kv_range ?p _ s = _")
proof -
  have p: "\<not> list_all (\<lambda>b. b = 255) ?p" by (simp add: GetPrivacyScanOutputEventPrefix_def key_prefix_defs)
  have "kv_range ?p (PrefixEndBytes ?p) s = filter (in_event e) (kv_range [KeyPrefixScanOutput] [KeyPrefixRootSnapshot] s)"
    unfolding kv_range_prefix [OF p] output_range_event filter_filter
    by (rule filter_cong [OF refl]) (simp add: in_event_def GetPrivacyScanOutputEventPrefix_def split_beta, blast)
  also have "\<dots> = map output_entry (snd e)"
    unfolding scan_indexD(6) [OF assms(1)] comp_def
  proof (rule filter_concat_single [OF assms(2) index_distinct [OF assms(1)]])
    note ok = scan_indexD(2) [OF assms(1)]
    show "list_all (in_event e) (map output_entry (snd e))" using output_in_event [OF ok ok] assms(2) by (auto simp: list_all_iff)
    show "list_all (\<lambda>x. \<not> in_event e x) (map output_entry (snd e'))" if "e' \<in> set evs" "e' \<noteq> e" for e'
      using output_in_event [OF ok ok, OF assms(2) that(1)] key_determines [OF assms(1) assms(2) that(1)] that(2) by (auto simp: list_all_iff)
  qed
  finally show ?thesis .
qed

lemma outputs_loop:
  assumes "event_ok env s e" "i \<le> length (snd e)"
  shows "eventOutputsLoop env (fst e) s (word_of_nat i) (map output_entry (drop i (snd e))) = Inr (drop i (snd e))"
  using assms(2)
proof (induction i rule: inc_induct)
  case (step i)
  note ok = event_okD [OF assms(1)]
  have small: "(word_of_nat i :: u32) < ss_output_count (fst e)"
    using step.hyps ok(4,5) by (simp add: word_less_nat_alt unsigned_of_nat take_bit_nat_eq_self)
  have suc: "(word_of_nat i :: u32) + 1 = word_of_nat (Suc i)" by simp
  have head: "drop i (snd e) = snd e ! i # drop (Suc i) (snd e)" using step.hyps by (simp add: Cons_nth_drop_Suc)
  have valid: "validatePrivacyScanOutputStateV2 env (fst e) (Some (snd e ! i)) (word_of_nat i) s = Inr ()"
    using assms(1) step.hyps by (simp add: event_ok_def)
  have key: "decodePrivacyScanOutputKey (GetPrivacyScanOutputKey (ss_height (fst e)) (ss_sequence (fst e)) (word_of_nat i)) =
      Inr \<lparr>cu_height = ss_height (fst e), cu_sequence = ss_sequence (fst e), cu_output = word_of_nat i\<rparr>"
    by (rule decode_output_key [OF ok(1,2)])
  show ?case using small valid step.IH event_ok_output [OF assms(1) step.hyps(2)] event_ok_codec(2) [OF assms(1) step.hyps(2)]
    by (simp add: head output_entry_def key suc not_le del: of_nat_Suc)
qed simp

lemma event_outputs: "scan_index env evs s \<Longrightarrow> e \<in> set evs \<Longrightarrow> getPrivacyScanEventOutputsV2 env (fst e) s = Inr (snd e)"
  using outputs_loop [of env s e 0] event_range [of env evs s e] scan_indexD(2) [of env evs s e] event_okD(5) [of env s e]
  by (simp add: getPrivacyScanEventOutputsV2_def Let_def)

section \<open>The page over events\<close>

text \<open>The loop of the paged query with the decoding of keys and records left out.\<close>

fun eventPage :: "scan_cursor \<Rightarrow> string set \<Rightarrow> u32 \<Rightarrow> u32 \<Rightarrow> u64 \<Rightarrow> scan_event list \<Rightarrow> scan_page \<Rightarrow> scan_page res" where
  "eventPage after F ol el bl [] r = Inr r"
| "eventPage after F ol el bl ((m, outs) # es) r =
     (if ss_height m < cu_height after \<or> (ss_height m = cu_height after \<and> ss_sequence m < cu_sequence after) then eventPage after F ol el bl es r
      else
      let same = (ss_height m = cu_height after \<and> ss_sequence m = cu_sequence after); count = ss_output_count m;
          start = (if same then cu_output after + 1 else 0) in
      bindE (guardE (\<not> (same \<and> count > 0 \<and> cu_output after \<ge> count)) (Errorf ''privacy scan cursor output_index exceeds event output_count'')) (\<lambda>_.
      if same \<and> (count = 0 \<or> cu_output after \<ge> count - 1) then eventPage after F ol el bl es r
      else if sp_scanned r = el \<or> word_of_nat (length (sp_outputs r)) = ol then Inr (r\<lparr>sp_has_more := True\<rparr>)
      else if \<not> privacyEventTypeAllowed (ss_event m) F then
        (if length (sp_outputs r) > 0 \<or> length (sp_summaries r) > 0 then Inr (r\<lparr>sp_has_more := True\<rparr>)
         else eventPage after F ol el bl es
           (r\<lparr>sp_scanned := sp_scanned r + 1, sp_next := \<lparr>cu_height = ss_height m, cu_sequence = ss_sequence m, cu_output = (if count > 0 then count - 1 else 0)\<rparr>\<rparr>))
      else
        let bytes = word_of_nat (PrivacyScanSummaryV2_Size m) in
        if sp_encoded r + bytes > bl then
          (if length (sp_summaries r) = 0 \<and> length (sp_outputs r) = 0 then Inl errPrivacyScanRecordExceedsBudget
           else Inr (r\<lparr>sp_scanned := sp_scanned r + 1, sp_has_more := True\<rparr>))
        else
          let r1 = r\<lparr>sp_scanned := sp_scanned r + 1, sp_summaries := sp_summaries r @ [m], sp_encoded := sp_encoded r + bytes\<rparr> in
          if count = 0 then eventPage after F ol el bl es (r1\<lparr>sp_next := \<lparr>cu_height = ss_height m, cu_sequence = ss_sequence m, cu_output = 0\<rparr>\<rparr>)
          else bindE (pageOutputs ol bl (drop (unat start) outs) r1) (\<lambda>(r2, returned).
            if returned then Inr r2 else eventPage after F ol el bl es r2)))"

lemma pageLoop_events:
  assumes "scan_index env evs s" "set es \<subseteq> set evs"
  shows "pageLoop env s after F ol el bl (map summary_entry es) r = eventPage after F ol el bl es r"
  using assms(2)
proof (induction es arbitrary: r)
  case (Cons e es)
  obtain m outs where e: "e = (m, outs)" by fastforce
  have mem: "(m, outs) \<in> set evs" using Cons.prems e by simp
  note ok = scan_indexD(2) [OF assms(1) mem]
  have dec: "decodePrivacyScanSummaryKey (GetPrivacyScanSummaryKey (ss_height m) (ss_sequence m)) = Inr (ss_height m, ss_sequence m)"
    using event_okD(1,2) [OF ok] by (simp add: decode_summary_key)
  have rd: "PrivacyScanSummaryV2_Unmarshal (PrivacyScanSummaryV2_Marshal m) = Inr m" "validatePrivacyScanSummaryV2 env (Some m) = Inr ()"
    "getPrivacyScanEventOutputsV2 env m s = Inr outs"
    using event_ok_codec(1) [OF ok] ok event_outputs [OF assms(1) mem] by (simp_all add: event_ok_def)
  have IH: "pageLoop env s after F ol el bl (map summary_entry es) r' = eventPage after F ol el bl es r'" for r'
    using Cons by simp
  show ?case
    unfolding e list.map summary_entry_def fst_conv pageLoop.simps eventPage.simps dec rd mapErr_Inr bindE_Inr prod.case IH [unfolded summary_entry_def]
    by (simp add: rd IH cong: if_cong del: bindE_eq_Inr)
qed simp
section \<open>What remains after a cursor\<close>

definition cursor_key :: "scan_cursor \<Rightarrow> int \<times> u64 \<times> u32" where
  "cursor_key c = (cu_height c, cu_sequence c, cu_output c)"

definition cursor_event :: "scan_cursor \<Rightarrow> event_key" where
  "cursor_event c = (cu_height c, cu_sequence c)"

lemma compare_cursor:
  "comparePrivacyScanCursor a b = (if cursor_key a < cursor_key b then -1 else if cursor_key a = cursor_key b then 0 else 1)"
  by (auto simp: comparePrivacyScanCursor_def cursor_key_def less_prod_def)

text \<open>The outputs and the events without outputs that a filter admits after a cursor, in order.\<close>

definition pending :: "string set \<Rightarrow> scan_cursor \<Rightarrow> scan_event \<Rightarrow> scan_output list" where
  "pending F c e =
     (if privacyEventTypeAllowed (ss_event (fst e)) F then filter (\<lambda>out. cursor_key c < cursor_key (scanOutputCursor out)) (snd e) else [])"

definition silent :: "string set \<Rightarrow> scan_cursor \<Rightarrow> scan_event \<Rightarrow> scan_summary list" where
  "silent F c e =
     (if privacyEventTypeAllowed (ss_event (fst e)) F \<and> snd e = [] \<and> cursor_event c < event_key e then [fst e] else [])"

definition remaining :: "string set \<Rightarrow> scan_cursor \<Rightarrow> scan_event list \<Rightarrow> scan_output list" where
  "remaining F c es = concat (map (pending F c) es)"

definition quiet_events :: "string set \<Rightarrow> scan_cursor \<Rightarrow> scan_event list \<Rightarrow> scan_summary list" where
  "quiet_events F c es = concat (map (silent F c) es)"

lemma remaining_simps [simp]: "remaining F c [] = []" "remaining F c (e # es) = pending F c e @ remaining F c es"
    "quiet_events F c [] = []" "quiet_events F c (e # es) = silent F c e @ quiet_events F c es"
  by (simp_all add: remaining_def quiet_events_def)

lemma cursor_cases:
  "cursor_key a < cursor_key b \<longleftrightarrow> cursor_event a < cursor_event b \<or> cursor_event a = cursor_event b \<and> cu_output a < cu_output b"
  "cursor_key a \<le> cursor_key b \<longleftrightarrow> cursor_event a < cursor_event b \<or> cursor_event a = cursor_event b \<and> cu_output a \<le> cu_output b"
  by (auto simp: cursor_key_def cursor_event_def less_prod_def less_eq_prod_def)

lemma output_cursor:
  assumes "event_ok env s e" "i < length (snd e)"
  shows "cursor_event (scanOutputCursor (snd e ! i)) = event_key e" "cu_output (scanOutputCursor (snd e ! i)) = word_of_nat i"
  using event_ok_output [OF assms] by (simp_all add: cursor_event_def scanOutputCursor_def event_key_def summary_key_def)

lemma filter_drop: "(\<And>i. i < length xs \<Longrightarrow> P (xs ! i) \<longleftrightarrow> n \<le> i) \<Longrightarrow> filter P xs = drop n xs"
proof (induction xs arbitrary: n)
  case (Cons x xs)
  have tl: "P (xs ! i) \<longleftrightarrow> n \<le> Suc i" if "i < length xs" for i using Cons.prems [of "Suc i"] that by simp
  have hd: "P x \<longleftrightarrow> n = 0" using Cons.prems [of 0] by simp
  show ?case
  proof (cases n)
    case 0
    with tl have "filter P xs = xs" by (auto simp: filter_id_conv in_set_conv_nth)
    with 0 hd show ?thesis by simp
  next
    case (Suc n')
    with Cons.IH [of n'] tl hd show ?thesis by simp
  qed
qed simp

lemma pending_before:
  assumes "event_ok env s e" "cursor_event c < event_key e"
  shows "pending F c e = (if privacyEventTypeAllowed (ss_event (fst e)) F then snd e else [])"
  using output_cursor [OF assms(1)] assms(2) by (auto simp: pending_def filter_id_conv in_set_conv_nth cursor_cases)

lemma pending_after:
  assumes "event_ok env s e" "event_key e < cursor_event c"
  shows "pending F c e = []"
  using output_cursor [OF assms(1)] assms(2) by (auto simp: pending_def filter_empty_conv in_set_conv_nth cursor_cases)

lemma pending_within:
  assumes "event_ok env s e" "event_key e = cursor_event c"
  shows "pending F c e = (if privacyEventTypeAllowed (ss_event (fst e)) F then drop (Suc (unat (cu_output c))) (snd e) else [])"
proof -
  have "cu_output c < word_of_nat i \<longleftrightarrow> Suc (unat (cu_output c)) \<le> i" if "i < length (snd e)" for i
    using that event_okD(4,5) [OF assms(1)] by (simp add: word_less_nat_alt unsigned_of_nat take_bit_nat_eq_self Suc_le_eq)
  then have "cursor_key c < cursor_key (scanOutputCursor (snd e ! i)) \<longleftrightarrow> Suc (unat (cu_output c)) \<le> i" if "i < length (snd e)" for i
    using that output_cursor [OF assms(1) that] assms(2) unfolding cursor_cases by simp
  then have "filter (\<lambda>out. cursor_key c < cursor_key (scanOutputCursor out)) (snd e) = drop (Suc (unat (cu_output c))) (snd e)"
    by (rule filter_drop)
  then show ?thesis by (simp add: pending_def)
qed

lemma silent_after: "\<not> cursor_event c < event_key e \<Longrightarrow> silent F c e = []"
  by (simp add: silent_def)

lemma all_later:
  assumes "\<And>e. e \<in> set es \<Longrightarrow> event_ok env s e \<and> cursor_event c < event_key e \<and> cursor_event c' < event_key e"
  shows "remaining F c es = remaining F c' es" "quiet_events F c es = quiet_events F c' es"
proof -
  have "pending F c e = pending F c' e \<and> silent F c e = silent F c' e" if "e \<in> set es" for e
    using assms [OF that] by (auto simp: pending_before [of env s] silent_def)
  then show "remaining F c es = remaining F c' es" "quiet_events F c es = quiet_events F c' es"
    unfolding remaining_def quiet_events_def by (simp_all cong: map_cong)
qed
section \<open>A page is a slice\<close>

definition advances :: "string set \<Rightarrow> scan_event list \<Rightarrow> scan_page \<Rightarrow> scan_page \<Rightarrow> bool" where
  "advances F es r r' =
     (\<exists>outs ms. sp_outputs r' = sp_outputs r @ outs \<and> sp_summaries r' = sp_summaries r @ ms \<and>
        remaining F (sp_next r) es = outs @ remaining F (sp_next r') es \<and>
        quiet_events F (sp_next r) es = filter (\<lambda>m. ss_output_count m = 0) ms @ quiet_events F (sp_next r') es \<and>
        (\<forall>out \<in> set outs. \<exists>m \<in> set ms. summary_key m = output_event out) \<and>
        cursor_key (sp_next r) \<le> cursor_key (sp_next r'))"

lemma advances_same:
  "sp_outputs r' = sp_outputs r \<Longrightarrow> sp_summaries r' = sp_summaries r \<Longrightarrow> sp_next r' = sp_next r \<Longrightarrow> advances F es r r'"
  by (simp add: advances_def)

lemma advancesI:
  assumes "sp_outputs r' = sp_outputs r @ outs" "sp_summaries r' = sp_summaries r @ ms"
    "remaining F (sp_next r) es = outs @ remaining F (sp_next r') es"
    "quiet_events F (sp_next r) es = filter (\<lambda>m. ss_output_count m = 0) ms @ quiet_events F (sp_next r') es"
    "\<forall>out \<in> set outs. \<exists>m \<in> set ms. summary_key m = output_event out" "cursor_key (sp_next r) \<le> cursor_key (sp_next r')"
  shows "advances F es r r'"
  unfolding advances_def using assms by blast

lemma advancesE:
  assumes "advances F es r r'"
  obtains outs ms where "sp_outputs r' = sp_outputs r @ outs" "sp_summaries r' = sp_summaries r @ ms"
    "remaining F (sp_next r) es = outs @ remaining F (sp_next r') es"
    "quiet_events F (sp_next r) es = filter (\<lambda>m. ss_output_count m = 0) ms @ quiet_events F (sp_next r') es"
    "\<forall>out \<in> set outs. \<exists>m \<in> set ms. summary_key m = output_event out" "cursor_key (sp_next r) \<le> cursor_key (sp_next r')"
  using assms unfolding advances_def by blast

lemma advances_trans:
  assumes "advances F es r1 r2" "advances F es r2 r3"
  shows "advances F es r1 r3"
proof (rule advancesE [OF assms(1)], rule advancesE [OF assms(2)])
  fix outs ms outs' ms'
  assume 1: "sp_outputs r2 = sp_outputs r1 @ outs" "sp_summaries r2 = sp_summaries r1 @ ms"
    "remaining F (sp_next r1) es = outs @ remaining F (sp_next r2) es"
    "quiet_events F (sp_next r1) es = filter (\<lambda>m. ss_output_count m = 0) ms @ quiet_events F (sp_next r2) es"
    "\<forall>out \<in> set outs. \<exists>m \<in> set ms. summary_key m = output_event out" "cursor_key (sp_next r1) \<le> cursor_key (sp_next r2)"
  assume 2: "sp_outputs r3 = sp_outputs r2 @ outs'" "sp_summaries r3 = sp_summaries r2 @ ms'"
    "remaining F (sp_next r2) es = outs' @ remaining F (sp_next r3) es"
    "quiet_events F (sp_next r2) es = filter (\<lambda>m. ss_output_count m = 0) ms' @ quiet_events F (sp_next r3) es"
    "\<forall>out \<in> set outs'. \<exists>m \<in> set ms'. summary_key m = output_event out" "cursor_key (sp_next r2) \<le> cursor_key (sp_next r3)"
  show ?thesis
  proof (rule advancesI)
    show "cursor_key (sp_next r1) \<le> cursor_key (sp_next r3)" using 1(6) 2(6) by (rule order_trans)
    show "\<forall>out \<in> set (outs @ outs'). \<exists>m \<in> set (ms @ ms'). summary_key m = output_event out" using 1(5) 2(5) by auto
  qed (simp_all add: 1 2)
qed

lemma pending_mono: "pending F c e = [] \<Longrightarrow> cursor_key c \<le> cursor_key c' \<Longrightarrow> pending F c' e = []"
  by (simp add: pending_def filter_empty_conv split: if_splits) (meson le_less_trans)

lemma silent_mono: "silent F c e = [] \<Longrightarrow> cursor_key c \<le> cursor_key c' \<Longrightarrow> silent F c' e = []"
  by (auto simp: silent_def cursor_cases split: if_splits)

lemma advances_skip:
  "advances F es r r' \<Longrightarrow> pending F (sp_next r) e = [] \<Longrightarrow> silent F (sp_next r) e = [] \<Longrightarrow> advances F (e # es) r r'"
  by (erule advancesE, rule advancesI) (simp_all add: pending_mono [of F "sp_next r"] silent_mono [of F "sp_next r"])

lemma advances_step:
  assumes "sp_outputs r' = sp_outputs r @ outs" "sp_summaries r' = sp_summaries r @ ms"
    and "pending F (sp_next r) e = outs @ pending F (sp_next r') e"
    and "silent F (sp_next r) e = filter (\<lambda>m. ss_output_count m = 0) ms @ silent F (sp_next r') e"
    and "\<And>out. out \<in> set outs \<Longrightarrow> \<exists>m \<in> set ms. summary_key m = output_event out"
    and "cursor_key (sp_next r) \<le> cursor_key (sp_next r')"
    and "\<And>a. a \<in> set es \<Longrightarrow> event_ok env s a \<and> cursor_event (sp_next r) < event_key a \<and> cursor_event (sp_next r') < event_key a"
  shows "advances F (e # es) r r'"
  using assms(1-6) all_later [of es env s "sp_next r" "sp_next r'" F, OF assms(7)] by (intro advancesI) auto

lemma pageOutputs_result:
  assumes "pageOutputs ol bl outs r = Inr (r2, ret)" "ol \<noteq> 0"
  shows "\<exists>xs ys n. outs = xs @ ys \<and> (ret \<longleftrightarrow> ys \<noteq> []) \<and> (ret \<longrightarrow> sp_outputs r2 \<noteq> []) \<and>
     r2 = r\<lparr>sp_outputs := sp_outputs r @ xs, sp_encoded := n, sp_next := (if xs = [] then sp_next r else scanOutputCursor (last xs)),
       sp_has_more := (ret \<or> sp_has_more r)\<rparr>"
  using assms(1)
proof (induction outs arbitrary: r)
  case Nil
  then show ?case by (intro exI [of _ "[]"] exI [of _ "sp_encoded r"]) auto
next
  case (Cons out outs)
  let ?b = "sp_encoded r + word_of_nat (PrivacyScanOutputV2_Size out)"
  let ?r = "r\<lparr>sp_outputs := sp_outputs r @ [out], sp_encoded := ?b, sp_next := scanOutputCursor out\<rparr>"
  consider (stop) "r2 = r\<lparr>sp_has_more := True\<rparr>" "ret" "sp_outputs r \<noteq> []"
    | (go) "pageOutputs ol bl outs ?r = Inr (r2, ret)"
  proof (cases "word_of_nat (length (sp_outputs r)) = ol")
    case True
    with assms(2) have "sp_outputs r \<noteq> []" by auto
    with True Cons.prems show ?thesis by (intro stop) simp_all
  next
    case full: False
    show ?thesis
    proof (cases "?b > bl")
      case True
      with full Cons.prems show ?thesis by (cases "sp_outputs r = []") (auto simp: Let_def intro: stop)
    next
      case False
      with full Cons.prems show ?thesis by (intro go) (simp add: Let_def)
    qed
  qed
  then show ?case
  proof cases
    case stop
    then show ?thesis by (intro exI [of _ "[]"] exI [of _ "out # outs"] exI [of _ "sp_encoded r"]) simp
  next
    case go
    from Cons.IH [OF go] obtain xs ys n where "outs = xs @ ys" "ret \<longleftrightarrow> ys \<noteq> []" "ret \<longrightarrow> sp_outputs r2 \<noteq> []"
      "r2 = ?r\<lparr>sp_outputs := sp_outputs ?r @ xs, sp_encoded := n, sp_next := (if xs = [] then sp_next ?r else scanOutputCursor (last xs)),
       sp_has_more := (ret \<or> sp_has_more ?r)\<rparr>" by blast
    then show ?thesis by (intro exI [of _ "out # xs"] exI [of _ ys] exI [of _ n]) auto
  qed
qed
text \<open>The branches of the loop for one event.\<close>

definition unread :: "scan_cursor \<Rightarrow> scan_summary \<Rightarrow> bool" where
  "unread after m = (summary_key m = cursor_event after \<longrightarrow> ss_output_count m \<noteq> 0 \<and> cu_output after < ss_output_count m - 1)"

definition counted :: "scan_summary \<Rightarrow> scan_page \<Rightarrow> scan_page" where
  "counted m r = r\<lparr>sp_scanned := sp_scanned r + 1, sp_summaries := sp_summaries r @ [m], sp_encoded := sp_encoded r + word_of_nat (PrivacyScanSummaryV2_Size m)\<rparr>"

definition last_cursor :: "scan_summary \<Rightarrow> scan_cursor" where
  "last_cursor m = \<lparr>cu_height = ss_height m, cu_sequence = ss_sequence m, cu_output = (if ss_output_count m > 0 then ss_output_count m - 1 else 0)\<rparr>"

lemma eventPage_cases:
  assumes page: "eventPage after F ol el bl ((m, outs) # es) r = Inr r'" and key: "cursor_event after \<le> summary_key m"
  obtains
    (skip) "summary_key m = cursor_event after" "ss_output_count m = 0 \<or> cu_output after \<ge> ss_output_count m - 1" "eventPage after F ol el bl es r = Inr r'"
  | (full) "sp_scanned r = el \<or> word_of_nat (length (sp_outputs r)) = ol" "r' = r\<lparr>sp_has_more := True\<rparr>"
  | (pinned) "sp_outputs r \<noteq> [] \<or> sp_summaries r \<noteq> []" "r' = r\<lparr>sp_has_more := True\<rparr>"
  | (filtered) "unread after m" "\<not> privacyEventTypeAllowed (ss_event m) F" "sp_scanned r \<noteq> el"
      "eventPage after F ol el bl es (r\<lparr>sp_scanned := sp_scanned r + 1, sp_next := last_cursor m\<rparr>) = Inr r'"
  | (bytes) "sp_outputs r \<noteq> [] \<or> sp_summaries r \<noteq> []" "sp_scanned r \<noteq> el" "r' = r\<lparr>sp_scanned := sp_scanned r + 1, sp_has_more := True\<rparr>"
  | (empty) "unread after m" "privacyEventTypeAllowed (ss_event m) F" "ss_output_count m = 0" "sp_scanned r \<noteq> el"
      "\<not> sp_encoded r + word_of_nat (PrivacyScanSummaryV2_Size m) > bl"
      "eventPage after F ol el bl es ((counted m r)\<lparr>sp_next := last_cursor m\<rparr>) = Inr r'"
  | (outputs) r2 ret where "unread after m" "privacyEventTypeAllowed (ss_event m) F" "ss_output_count m \<noteq> 0" "sp_scanned r \<noteq> el"
      "\<not> sp_encoded r + word_of_nat (PrivacyScanSummaryV2_Size m) > bl"
      "pageOutputs ol bl (drop (unat (if summary_key m = cursor_event after then cu_output after + 1 else 0)) outs) (counted m r) = Inr (r2, ret)"
      "if ret then r' = r2 else eventPage after F ol el bl es r2 = Inr r'"
proof -
  have notless: "\<not> (ss_height m < cu_height after \<or> ss_height m = cu_height after \<and> ss_sequence m < cu_sequence after)"
    using key by (auto simp: cursor_event_def summary_key_def less_eq_prod_def)
  have same: "ss_height m = cu_height after \<and> ss_sequence m = cu_sequence after \<longleftrightarrow> summary_key m = cursor_event after"
    by (auto simp: cursor_event_def summary_key_def)
  note page' = page [unfolded eventPage.simps if_not_P [OF notless] Let_def same]
  show thesis
  proof (cases "summary_key m = cursor_event after \<and> (ss_output_count m = 0 \<or> cu_output after \<ge> ss_output_count m - 1)")
    case True
    with page' show thesis by (intro skip) simp_all
  next
    case False
    then have unread: "unread after m" by (auto simp: unread_def)
    show thesis
    proof (cases "sp_scanned r = el \<or> word_of_nat (length (sp_outputs r)) = ol")
      case True
      with page' False show thesis by (intro full) simp_all
    next
      case room: False
      note page2 = page' [unfolded bindE_eq_Inr if_not_P [OF False] if_not_P [OF room]]
      show thesis
      proof (cases "privacyEventTypeAllowed (ss_event m) F")
        case no: False
        show thesis
        proof (cases "sp_outputs r \<noteq> [] \<or> sp_summaries r \<noteq> []")
          case True
          with page2 no show thesis by (intro pinned) simp_all
        next
          case False
          with page2 no room unread show thesis by (intro filtered) (simp_all add: last_cursor_def)
        qed
      next
        case yes: True
        show thesis
        proof (cases "sp_encoded r + word_of_nat (PrivacyScanSummaryV2_Size m) > bl")
          case True
          then show thesis using page2 yes room bytes by (auto split: if_splits)
        next
          case fits: False
          show thesis
          proof (cases "ss_output_count m = 0")
            case True
            then show thesis using page2 yes room unread fits empty by (simp add: counted_def last_cursor_def)
          next
            case some: False
            from page2 yes room fits some obtain x where
              x: "pageOutputs ol bl (drop (unat (if summary_key m = cursor_event after then cu_output after + 1 else 0)) outs) (counted m r) = Inr x"
              "(case x of (r2, ret) \<Rightarrow> if ret then Inr r2 else eventPage after F ol el bl es r2) = Inr r'"
              by (simp add: counted_def del: split_paired_Ex) blast
            then show thesis using yes room unread fits some by (intro outputs [of "fst x" "snd x"]) (simp_all add: case_prod_beta split: if_splits)
          qed
        qed
      qed
    qed
  qed
qed
text \<open>Where the loop stands: its cursor is before the events to come, or it is the cursor of the query inside the next one.\<close>

definition page_inv :: "'a crypto_env_scheme \<Rightarrow> store \<Rightarrow> scan_cursor \<Rightarrow> scan_event list \<Rightarrow> scan_page \<Rightarrow> bool" where
  "page_inv env s after es r =
     (cursor_key after \<le> cursor_key (sp_next r) \<and> sorted_wrt (\<lambda>a b. event_key a < event_key b) es \<and>
      (\<forall>e \<in> set es. event_ok env s e \<and> (cursor_event (sp_next r) < event_key e \<or> sp_next r = after \<and> event_key e = cursor_event after)))"

lemma page_inv_head:
  assumes "page_inv env s after ((m, outs) # es) r"
  shows "event_ok env s (m, outs)" "cursor_event after \<le> summary_key m" "cursor_event (sp_next r) \<le> summary_key m"
    "summary_key m = cursor_event after \<Longrightarrow> sp_next r = after" "summary_key m \<noteq> cursor_event after \<Longrightarrow> cursor_event (sp_next r) < summary_key m"
    "\<And>a. a \<in> set es \<Longrightarrow> event_ok env s a \<and> summary_key m < event_key a"
  using assms by (auto simp: page_inv_def event_key_def cursor_cases)

lemma page_inv_tail:
  assumes "page_inv env s after ((m, outs) # es) r" "cursor_event (sp_next r1) \<le> summary_key m" "cursor_key after \<le> cursor_key (sp_next r1)"
  shows "page_inv env s after es r1"
proof -
  have "event_ok env s a \<and> cursor_event (sp_next r1) < event_key a" if "a \<in> set es" for a
    using page_inv_head(6) [OF assms(1) that] assms(2) by (auto intro: le_less_trans)
  then show ?thesis using assms(1,3) by (simp add: page_inv_def)
qed

lemma last_cursor_event [simp]: "cursor_event (last_cursor m) = summary_key m"
  by (simp add: cursor_event_def last_cursor_def summary_key_def)

lemma counted_simps [simp]: "sp_outputs (counted m r) = sp_outputs r" "sp_next (counted m r) = sp_next r"
    "sp_summaries (counted m r) = sp_summaries r @ [m]" "sp_scanned (counted m r) = sp_scanned r + 1" "sp_has_more (counted m r) = sp_has_more r"
    "sp_encoded (counted m r) = sp_encoded r + word_of_nat (PrivacyScanSummaryV2_Size m)"
  by (simp_all add: counted_def)

lemma last_pending:
  assumes "event_ok env s (m, outs)"
  shows "pending F (last_cursor m) (m, outs) = []" "silent F (last_cursor m) (m, outs) = []"
proof -
  have "Suc (unat (cu_output (last_cursor m))) \<ge> length outs"
    using event_okD(5) [OF assms] by (cases "unat (ss_output_count m)") (auto simp: last_cursor_def unat_minus_one word_gt_0 unat_eq_0)
  then show "pending F (last_cursor m) (m, outs) = []"
    using pending_within [OF assms, of "last_cursor m" F] by (simp add: event_key_def)
qed (simp add: silent_def event_key_def)

lemma last_cursor_later:
  assumes "page_inv env s after ((m, outs) # es) r" "unread after m"
  shows "cursor_key (sp_next r) < cursor_key (last_cursor m)"
proof (cases "summary_key m = cursor_event after")
  case True
  have "cu_output (last_cursor m) = ss_output_count m - 1" if "ss_output_count m \<noteq> 0" using that by (simp add: last_cursor_def word_gt_0)
  then show ?thesis using assms(2) page_inv_head(4) [OF assms(1) True] True by (simp add: cursor_cases unread_def)
next
  case False
  then show ?thesis using page_inv_head(5) [OF assms(1)] by (simp add: cursor_cases)
qed

text \<open>The outputs of an event that the loop offers to the page, and what is left of them.\<close>

lemma offered:
  assumes "page_inv env s after ((m, outs) # es) r" "unread after m" "privacyEventTypeAllowed (ss_event m) F" "ss_output_count m \<noteq> 0"
  defines "start \<equiv> unat (if summary_key m = cursor_event after then cu_output after + 1 else 0)"
  shows "start < length outs" "pending F (sp_next r) (m, outs) = drop start outs"
proof -
  note ok = page_inv_head(1) [OF assms(1)]
  have len: "length outs = unat (ss_output_count m)" "length outs \<le> 32" using event_okD(4,5) [OF ok] by simp_all
  have "start < length outs \<and> pending F (sp_next r) (m, outs) = drop start outs"
  proof (cases "summary_key m = cursor_event after")
    case True
    with assms(2) have "unat (cu_output after) < unat (ss_output_count m - 1)" by (simp add: unread_def word_less_nat_alt)
    then have "unat (cu_output after) < length outs - 1" using len assms(4) by (simp add: unat_minus_one)
    moreover from this have "start = Suc (unat (cu_output after))" using True len by (simp add: start_def unat_word_ariths)
    ultimately show ?thesis using pending_within [OF ok, of "sp_next r" F] True page_inv_head(4) [OF assms(1)] assms(3) by (simp add: event_key_def)
  next
    case False
    then show ?thesis using pending_before [OF ok, of "sp_next r" F] page_inv_head(5) [OF assms(1)] assms(3,4) len
      by (simp add: start_def event_key_def unat_gt_0 word_gt_0)
  qed
  then show "start < length outs" "pending F (sp_next r) (m, outs) = drop start outs" by simp_all
qed

lemma left_over:
  assumes "event_ok env s (m, outs)" "privacyEventTypeAllowed (ss_event m) F" "drop start outs = xs @ ys" "xs \<noteq> []"
  shows "pending F (scanOutputCursor (last xs)) (m, outs) = ys" "cursor_event (scanOutputCursor (last xs)) = summary_key m"
    "unat (cu_output (scanOutputCursor (last xs))) = start + length xs - 1"
proof -
  let ?i = "start + length xs - 1"
  have len: "length (drop start outs) = length xs + length ys" using assms(3) by simp
  have i: "?i < length outs" "length outs \<le> 32" using len assms(4) event_okD(4,5) [OF assms(1)] by (cases xs; simp)+
  have "last xs = drop start outs ! (length xs - 1)" using assms(3,4) by (simp add: last_conv_nth nth_append)
  also have "\<dots> = outs ! ?i" using len assms(4) by (cases xs) simp_all
  finally have last: "last xs = outs ! ?i" .
  note cur = output_cursor [OF assms(1), unfolded snd_conv, OF i(1), folded last]
  show event: "cursor_event (scanOutputCursor (last xs)) = summary_key m" using cur(1) by (simp add: event_key_def)
  show idx: "unat (cu_output (scanOutputCursor (last xs))) = ?i" using cur(2) i by (simp add: unsigned_of_nat take_bit_nat_eq_self)
  have "drop (Suc ?i) outs = drop (length xs) (drop start outs)" using assms(4) by (cases xs) (simp_all add: add.commute)
  then show "pending F (scanOutputCursor (last xs)) (m, outs) = ys"
    using pending_within [OF assms(1), of "scanOutputCursor (last xs)" F] event idx assms(2,3) by (simp add: event_key_def)
qed
lemma offered_next:
  assumes "page_inv env s after ((m, outs) # es) r" "unread after m" "privacyEventTypeAllowed (ss_event m) F" "ss_output_count m \<noteq> 0"
    and "drop (unat (if summary_key m = cursor_event after then cu_output after + 1 else 0)) outs = xs @ ys"
  defines "c \<equiv> (if xs = [] then sp_next r else scanOutputCursor (last xs))"
  shows "pending F c (m, outs) = ys" "cursor_event c \<le> summary_key m" "cursor_key (sp_next r) \<le> cursor_key c"
    "xs \<noteq> [] \<Longrightarrow> cursor_key (sp_next r) < cursor_key c"
proof -
  note off = offered [OF assms(1-4)]
  note left = left_over [OF page_inv_head(1) [OF assms(1)] assms(3,5)]
  show "pending F c (m, outs) = ys" "cursor_event c \<le> summary_key m"
    using left off(2) assms(5) page_inv_head(3) [OF assms(1)] by (simp_all add: c_def)
  show strict: "cursor_key (sp_next r) < cursor_key c" if "xs \<noteq> []"
  proof (cases "summary_key m = cursor_event after")
    case True
    with assms(2) have "unat (cu_output after) < unat (ss_output_count m - 1)" by (simp add: unread_def word_less_nat_alt)
    then have "Suc (unat (cu_output after)) < 4294967296" using unat_lt_u32 [of "ss_output_count m - 1"] by simp
    then have "cu_output (sp_next r) < cu_output (scanOutputCursor (last xs))"
      using True left(3) [OF that] that page_inv_head(4) [OF assms(1) True] assms(2) by (cases xs) (simp_all add: word_less_nat_alt unread_def unat_word_ariths)
    then show ?thesis using left(2) [OF that] that True page_inv_head(4) [OF assms(1)] by (simp add: c_def cursor_cases)
  next
    case False
    then show ?thesis using page_inv_head(5) [OF assms(1)] left(2) [OF that] that by (simp add: c_def cursor_cases)
  qed
  show "cursor_key (sp_next r) \<le> cursor_key c" using strict by (cases "xs = []") (simp_all add: c_def order_less_imp_le)
qed

lemma outputs_next:
  assumes "page_inv env s after ((m, outs) # es) r" "unread after m" "privacyEventTypeAllowed (ss_event m) F" "ss_output_count m \<noteq> 0"
    "pageOutputs ol bl (drop (unat (if summary_key m = cursor_event after then cu_output after + 1 else 0)) outs) (counted m r) = Inr (r2, ret)" "ol \<noteq> 0"
  shows "ret \<or> pending F (sp_next r2) (m, outs) = []" "cursor_event (sp_next r2) \<le> summary_key m" "cursor_key (sp_next r) \<le> cursor_key (sp_next r2)"
proof -
  from pageOutputs_result [OF assms(5,6)] obtain xs ys n where
    xs: "drop (unat (if summary_key m = cursor_event after then cu_output after + 1 else 0)) outs = xs @ ys" "ret \<longleftrightarrow> ys \<noteq> []" and
    r2: "r2 = (counted m r)\<lparr>sp_outputs := sp_outputs (counted m r) @ xs, sp_encoded := n,
      sp_next := (if xs = [] then sp_next (counted m r) else scanOutputCursor (last xs)), sp_has_more := (ret \<or> sp_has_more (counted m r))\<rparr>" by blast
  have next2: "sp_next r2 = (if xs = [] then sp_next r else scanOutputCursor (last xs))" by (simp add: r2)
  note new = offered_next [OF assms(1-4) xs(1), folded next2]
  show "ret \<or> pending F (sp_next r2) (m, outs) = []" "cursor_event (sp_next r2) \<le> summary_key m" "cursor_key (sp_next r) \<le> cursor_key (sp_next r2)"
    using new xs(2) by auto
qed

lemma event_ok_member: "event_ok env s e \<Longrightarrow> out \<in> set (snd e) \<Longrightarrow> output_event out = event_key e"
  using event_ok_output [of env s e] by (auto simp: in_set_conv_nth output_event_def event_key_def summary_key_def)

lemma page_advances:
  assumes "eventPage after F ol el bl es r = Inr r'" "page_inv env s after es r" "ol \<noteq> 0" "\<not> sp_has_more r"
  shows "advances F es r r' \<and> (\<not> sp_has_more r' \<longrightarrow> remaining F (sp_next r') es = [] \<and> quiet_events F (sp_next r') es = [])"
  using assms(1,2,4)
proof (induction es arbitrary: r)
  case Nil
  then show ?case by (simp add: advances_same)
next
  case (Cons e es)
  obtain m outs where e: "e = (m, outs)" by fastforce
  note inv = Cons.prems(2) [unfolded e]
  note head = page_inv_head [OF inv]
  have le_after: "cursor_key after \<le> cursor_key (sp_next r)" using inv by (simp add: page_inv_def)
  have rec: "advances F (e # es) r r' \<and> (\<not> sp_has_more r' \<longrightarrow> remaining F (sp_next r') (e # es) = [] \<and> quiet_events F (sp_next r') (e # es) = [])"
    if page: "eventPage after F ol el bl es r1 = Inr r'" and next1: "cursor_event (sp_next r1) \<le> summary_key m" "cursor_key after \<le> cursor_key (sp_next r1)"
      and more: "\<not> sp_has_more r1" and adv: "advances F (e # es) r r1" and gone: "pending F (sp_next r1) e = []" "silent F (sp_next r1) e = []" for r1
  proof -
    have IH: "advances F es r1 r'" "\<not> sp_has_more r' \<longrightarrow> remaining F (sp_next r') es = [] \<and> quiet_events F (sp_next r') es = []"
      using Cons.IH [OF page page_inv_tail [OF inv next1] more] by simp_all
    have mono: "cursor_key (sp_next r1) \<le> cursor_key (sp_next r')" using IH(1) by (rule advancesE)
    show ?thesis using advances_trans [OF adv advances_skip [OF IH(1) gone]] IH(2) pending_mono [OF gone(1) mono] silent_mono [OF gone(2) mono] by simp
  qed
  have step: "advances F (e # es) r r1"
    if "sp_outputs r1 = sp_outputs r @ xs" "sp_summaries r1 = sp_summaries r @ ms" "pending F (sp_next r) e = xs @ pending F (sp_next r1) e"
      "silent F (sp_next r) e = filter (\<lambda>m. ss_output_count m = 0) ms @ silent F (sp_next r1) e"
      "\<And>out. out \<in> set xs \<Longrightarrow> \<exists>m \<in> set ms. summary_key m = output_event out"
      "cursor_key (sp_next r) \<le> cursor_key (sp_next r1)" "cursor_event (sp_next r1) \<le> summary_key m" for r1 xs ms
    by (rule advances_step [OF that(1-6)]) (use head(3,6) that(7) in \<open>auto intro: le_less_trans\<close>)
  from Cons.prems(1) [unfolded e] head(2) show ?case
  proof (cases rule: eventPage_cases)
    case skip
    have next_r: "sp_next r = after" using head(4) skip(1) by simp
    have "length outs \<le> Suc (unat (cu_output after))"
      using skip(2) event_okD(5) [OF head(1)] by (cases "ss_output_count m = 0") (auto simp: word_le_nat_alt unat_minus_one)
    then have "pending F (sp_next r) e = []" "silent F (sp_next r) e = []"
      using pending_within [OF head(1), of after F] skip(1) by (simp_all add: next_r e event_key_def silent_def)
    then show ?thesis using rec [OF skip(3) head(3) le_after Cons.prems(3) advances_same] by simp
  next
    case filtered
    note lt = last_cursor_later [OF inv filtered(1)]
    have none: "pending F c e = []" "silent F c e = []" for c using filtered(2) by (simp_all add: e pending_def silent_def)
    show ?thesis
      by (rule rec [OF filtered(4)]) (use lt le_after Cons.prems(3) none in \<open>auto intro!: step [of _ "[]" "[]"]\<close>)
  next
    case empty
    note lt = last_cursor_later [OF inv empty(1)]
    have outs: "outs = []" using event_okD(5) [OF head(1)] empty(3) by simp
    have "summary_key m \<noteq> cursor_event after" using empty(1,3) by (auto simp: unread_def)
    then have "silent F (sp_next r) e = [m]" using head(5) empty(2) by (simp add: e outs silent_def event_key_def)
    moreover have "pending F c e = []" for c by (simp add: e outs pending_def)
    ultimately show ?thesis
      by (intro rec [OF empty(6)])
        (use lt le_after Cons.prems(3) last_pending [OF head(1), folded e] empty(3) in \<open>auto intro!: step [of _ "[]" "[m]"]\<close>)
  next
    case (outputs r2 ret)
    let ?start = "unat (if summary_key m = cursor_event after then cu_output after + 1 else 0)"
    note off = offered [OF inv outputs(1-3)]
    from pageOutputs_result [OF outputs(6) assms(3)] obtain xs ys n where
      xs: "drop ?start outs = xs @ ys" "ret \<longleftrightarrow> ys \<noteq> []" and
      r2: "r2 = (counted m r)\<lparr>sp_outputs := sp_outputs (counted m r) @ xs, sp_encoded := n,
        sp_next := (if xs = [] then sp_next (counted m r) else scanOutputCursor (last xs)), sp_has_more := (ret \<or> sp_has_more (counted m r))\<rparr>" by blast
    have quiet: "silent F c e = []" for c using outputs(3) event_okD(5) [OF head(1)] by (auto simp: e silent_def unat_eq_0)
    have left: "pending F (sp_next r2) e = ys" "cursor_event (sp_next r2) \<le> summary_key m" "cursor_key (sp_next r) \<le> cursor_key (sp_next r2)"
      using offered_next [OF inv outputs(1-3) xs(1)] head(3) by (simp_all add: r2 e split: if_splits)
    have cover: "\<exists>m' \<in> set [m]. summary_key m' = output_event out" if "out \<in> set xs" for out
      using event_ok_member [OF head(1)] that set_drop_subset [of ?start outs] xs(1) by (auto simp: event_key_def)
    have adv: "advances F (e # es) r r2"
      by (rule step [of _ xs "[m]"]) (use left off(2) xs(1) cover outputs(3) quiet in \<open>simp_all add: r2 e\<close>)
    show ?thesis
    proof (cases ret)
      case True
      then show ?thesis using outputs(7) adv r2 by simp
    next
      case False
      have page: "eventPage after F ol el bl es r2 = Inr r'" using outputs(7) False by simp
      have more: "\<not> sp_has_more r2" using False Cons.prems(3) by (simp add: r2)
      have gone: "pending F (sp_next r2) e = []" using left(1) xs(2) False by simp
      show ?thesis by (rule rec [OF page left(2) order_trans [OF le_after left(3)] more adv gone quiet])
    qed
  qed (use Cons.prems(3) in \<open>simp_all add: advances_same\<close>)
qed
text \<open>A page that announces more has moved its cursor.\<close>

definition moved :: "scan_cursor \<Rightarrow> scan_page \<Rightarrow> bool" where
  "moved after r = (sp_scanned r \<noteq> 0 \<or> sp_outputs r \<noteq> [] \<or> sp_summaries r \<noteq> [] \<longrightarrow> cursor_key after < cursor_key (sp_next r))"

lemma page_moves:
  assumes "eventPage after F ol el bl es r = Inr r'" "page_inv env s after es r" "ol \<noteq> 0" "el \<noteq> 0" "\<not> sp_has_more r" "moved after r"
  shows "sp_has_more r' \<longrightarrow> cursor_key after < cursor_key (sp_next r')"
  using assms(1,2,5,6)
proof (induction es arbitrary: r)
  case (Cons e es)
  obtain m outs where e: "e = (m, outs)" by fastforce
  note inv = Cons.prems(2) [unfolded e]
  note head = page_inv_head [OF inv]
  have le_after: "cursor_key after \<le> cursor_key (sp_next r)" using inv by (simp add: page_inv_def)
  from Cons.prems(1) [unfolded e] head(2) show ?case
  proof (cases rule: eventPage_cases)
    case skip
    then show ?thesis using Cons.IH [OF skip(3) page_inv_tail [OF inv head(3) le_after]] Cons.prems(3,4) by simp
  next
    case full
    then show ?thesis using Cons.prems(4) assms(3,4) by (cases "sp_outputs r = []") (auto simp: moved_def)
  next
    case filtered
    have lt: "cursor_key after < cursor_key (last_cursor m)" using le_after last_cursor_later [OF inv filtered(1)] by (rule le_less_trans)
    show ?thesis
      by (rule Cons.IH [OF filtered(4) page_inv_tail [OF inv]]) (use lt Cons.prems(3) in \<open>simp_all add: moved_def order_less_imp_le\<close>)
  next
    case empty
    have lt: "cursor_key after < cursor_key (last_cursor m)" using le_after last_cursor_later [OF inv empty(1)] by (rule le_less_trans)
    show ?thesis
      by (rule Cons.IH [OF empty(6) page_inv_tail [OF inv]]) (use lt Cons.prems(3) in \<open>simp_all add: moved_def order_less_imp_le\<close>)
  next
    case (outputs r2 ret)
    note off = offered [OF inv outputs(1-3)]
    from pageOutputs_result [OF outputs(6) assms(3)] obtain xs ys n where
      xs: "drop (unat (if summary_key m = cursor_event after then cu_output after + 1 else 0)) outs = xs @ ys" "ret \<longleftrightarrow> ys \<noteq> []" "ret \<longrightarrow> sp_outputs r2 \<noteq> []" and
      r2: "r2 = (counted m r)\<lparr>sp_outputs := sp_outputs (counted m r) @ xs, sp_encoded := n,
        sp_next := (if xs = [] then sp_next (counted m r) else scanOutputCursor (last xs)), sp_has_more := (ret \<or> sp_has_more (counted m r))\<rparr>" by blast
    have next2: "sp_next r2 = (if xs = [] then sp_next r else scanOutputCursor (last xs))" by (simp add: r2)
    note new = offered_next [OF inv outputs(1-3) xs(1), folded next2]
    have lt: "cursor_key after < cursor_key (sp_next r2)"
    proof (cases "xs = []")
      case True
      then have "ys \<noteq> []" using xs(1) off(1) by auto
      then have "sp_outputs r \<noteq> []" using xs(2,3) True by (simp add: r2)
      then show ?thesis using Cons.prems(4) True by (simp add: next2 moved_def)
    next
      case False
      then show ?thesis using new(4) le_after by simp
    qed
    show ?thesis
    proof (cases ret)
      case True
      then show ?thesis using outputs(7) lt by simp
    next
      case False
      have page: "eventPage after F ol el bl es r2 = Inr r'" using outputs(7) False by simp
      have more: "\<not> sp_has_more r2" using False Cons.prems(3) by (simp add: r2)
      show ?thesis by (rule Cons.IH [OF page page_inv_tail [OF inv new(2)] more]) (use lt in \<open>simp_all add: moved_def order_less_imp_le\<close>)
    qed
  qed (use Cons.prems(4) in \<open>auto simp: moved_def\<close>)
qed (use assms(5) in simp)

text \<open>The limits of a page.\<close>

definition page_bytes :: "scan_page \<Rightarrow> nat" where
  "page_bytes r = sum_list (map PrivacyScanSummaryV2_Size (sp_summaries r)) + sum_list (map PrivacyScanOutputV2_Size (sp_outputs r))"

definition page_small :: "u32 \<Rightarrow> u32 \<Rightarrow> u64 \<Rightarrow> scan_page \<Rightarrow> bool" where
  "page_small ol el bl r =
     (length (sp_outputs r) \<le> unat ol \<and> unat (sp_scanned r) \<le> unat el \<and> length (sp_summaries r) \<le> unat (sp_scanned r) \<and>
      unat (sp_encoded r) = page_bytes r \<and> sp_encoded r \<le> bl)"

lemma add_bytes:
  assumes "(b :: u64) \<le> bl" "unat bl \<le> 4194304" "n \<le> 1048576"
  shows "unat (b + word_of_nat n) = unat b + n"
  using assms by (subst unat_add_lem [THEN iffD1]) (simp_all add: word_le_nat_alt)

lemma pageOutputs_small:
  assumes "pageOutputs ol bl outs r = Inr (r2, ret)" "page_small ol el bl r" "unat bl \<le> 4194304"
    "list_all (\<lambda>out. PrivacyScanOutputV2_Size out \<le> 1048576) outs"
  shows "page_small ol el bl r2"
  using assms(1,2,4)
proof (induction outs arbitrary: r)
  case (Cons out outs)
  let ?b = "sp_encoded r + word_of_nat (PrivacyScanOutputV2_Size out)"
  show ?case
  proof (cases "word_of_nat (length (sp_outputs r)) = ol")
    case True
    then show ?thesis using Cons.prems by (auto simp: page_small_def page_bytes_def)
  next
    case full: False
    show ?thesis
    proof (cases "?b > bl")
      case True
      then show ?thesis using full Cons.prems by (auto simp: Let_def page_small_def page_bytes_def split: if_splits)
    next
      case False
      have "length (sp_outputs r) \<noteq> unat ol" using full by auto
      moreover have "unat ?b = unat (sp_encoded r) + PrivacyScanOutputV2_Size out"
        using Cons.prems(2,3) assms(3) by (intro add_bytes [of _ bl]) (simp_all add: page_small_def)
      ultimately have "page_small ol el bl (r\<lparr>sp_outputs := sp_outputs r @ [out], sp_encoded := ?b, sp_next := scanOutputCursor out\<rparr>)"
        using Cons.prems(2) False by (simp add: page_small_def page_bytes_def)
      then show ?thesis using Cons.IH Cons.prems(1,3) full False by (simp add: Let_def)
    qed
  qed
qed simp

lemma scanned_step: "(n :: u32) \<noteq> el \<Longrightarrow> unat n \<le> unat el \<Longrightarrow> unat (n + 1) = Suc (unat n) \<and> Suc (unat n) \<le> unat el"
  using unat_lt_u32 [of el] by (simp add: unat_word_ariths word_unat_eq_iff)

lemma counted_small:
  assumes "page_small ol el bl r" "unat bl \<le> 4194304" "PrivacyScanSummaryV2_Size m \<le> 1048576" "sp_scanned r \<noteq> el"
    "\<not> sp_encoded r + word_of_nat (PrivacyScanSummaryV2_Size m) > bl"
  shows "page_small ol el bl (counted m r)"
  using assms scanned_step [OF assms(4)] add_bytes [of "sp_encoded r" bl "PrivacyScanSummaryV2_Size m"]
  by (simp add: page_small_def page_bytes_def)

lemma page_within:
  assumes "eventPage after F ol el bl es r = Inr r'" "page_inv env s after es r" "page_small ol el bl r" "unat bl \<le> 4194304" "ol \<noteq> 0"
  shows "page_small ol el bl r'"
  using assms(1,2,3)
proof (induction es arbitrary: r)
  case (Cons e es)
  obtain m outs where e: "e = (m, outs)" by fastforce
  note inv = Cons.prems(2) [unfolded e]
  note head = page_inv_head [OF inv]
  have le_after: "cursor_key after \<le> cursor_key (sp_next r)" using inv by (simp add: page_inv_def)
  have sizes: "PrivacyScanSummaryV2_Size m \<le> 1048576" "list_all (\<lambda>out. PrivacyScanOutputV2_Size out \<le> 1048576) (drop n outs)" for n
    using head(1) by (auto simp: event_ok_def MaxPrivacyScanStateRecordSize_def list_all_iff in_set_conv_nth dest!: in_set_dropD)
  from Cons.prems(1) [unfolded e] head(2) show ?case
  proof (cases rule: eventPage_cases)
    case skip
    show ?thesis by (rule Cons.IH [OF skip(3) page_inv_tail [OF inv head(3) le_after] Cons.prems(3)])
  next
    case filtered
    note lt = last_cursor_later [OF inv filtered(1)]
    show ?thesis by (rule Cons.IH [OF filtered(4) page_inv_tail [OF inv]])
        (use lt le_after Cons.prems(3) scanned_step [OF filtered(3)] in \<open>auto simp: page_small_def page_bytes_def\<close>)
  next
    case bytes
    then show ?thesis using Cons.prems(3) scanned_step [OF bytes(2)] by (simp add: page_small_def page_bytes_def)
  next
    case empty
    note lt = last_cursor_later [OF inv empty(1)]
    show ?thesis by (rule Cons.IH [OF empty(6) page_inv_tail [OF inv]])
        (use lt le_after counted_small [OF Cons.prems(3) assms(4) sizes(1) empty(4,5)] in \<open>auto simp: page_small_def page_bytes_def\<close>)
  next
    case (outputs r2 ret)
    have small: "page_small ol el bl r2"
      using pageOutputs_small [OF outputs(6) counted_small [OF Cons.prems(3) assms(4) sizes(1) outputs(4,5)] assms(4) sizes(2)] .
    show ?thesis
    proof (cases ret)
      case True
      then show ?thesis using outputs(7) small by simp
    next
      case False
      note off = outputs_next [OF inv outputs(1-3,6) assms(5)]
      show ?thesis by (rule Cons.IH [OF _ page_inv_tail [OF inv off(2)] small]) (use outputs(7) False le_after off(3) in auto)
    qed
  qed (use Cons.prems(3) in \<open>simp_all add: page_small_def page_bytes_def\<close>)
qed (use assms(3) in simp)
section \<open>The page query\<close>

lemma range_after:
  assumes "scan_index env evs s" "0 \<le> cu_height after" "cu_height after < 2 ^ 63"
  shows "kv_range (GetPrivacyScanSummaryKey (cu_height after) (cu_sequence after)) (PrefixEndBytes GetPrivacyScanSummaryPrefix) s =
    map summary_entry (filter (\<lambda>e. cursor_event after \<le> event_key e) evs)" (is "kv_range ?lo _ s = _")
proof -
  have hi: "PrefixEndBytes GetPrivacyScanSummaryPrefix = [KeyPrefixScanOutput]"
    by (simp add: PrefixEndBytes_def GetPrivacyScanSummaryPrefix_def key_prefix_defs)
  have lo: "[KeyPrefixScanSummary] \<le> ?lo" by (simp add: GetPrivacyScanSummaryKey_def)
  have "kv_range ?lo [KeyPrefixScanOutput] s = filter (\<lambda>(k, _). ?lo \<le> k) (kv_range [KeyPrefixScanSummary] [KeyPrefixScanOutput] s)"
    unfolding kv_range_def filter_filter by (rule filter_cong) (use order_trans [OF lo] in auto)
  also have "\<dots> = map summary_entry (filter (\<lambda>e. ?lo \<le> fst (summary_entry e)) evs)"
    by (simp add: scan_indexD(5) [OF assms(1)] filter_map comp_def case_prod_beta)
  also have "filter (\<lambda>e. ?lo \<le> fst (summary_entry e)) evs = filter (\<lambda>e. cursor_event after \<le> event_key e) evs"
  proof (rule filter_cong [OF refl])
    fix e assume "e \<in> set evs"
    note ok = event_okD(1,2) [OF scan_indexD(2) [OF assms(1) this]]
    show "?lo \<le> fst (summary_entry e) \<longleftrightarrow> cursor_event after \<le> event_key e"
      using summary_key_order(1) [OF ok assms(2,3), of "ss_sequence (fst e)" "cu_sequence after"]
      by (simp add: summary_entry_def event_key_def summary_key_def cursor_event_def flip: not_less)
  qed
  finally show ?thesis by (simp add: hi)
qed

definition page_cursor :: "scan_cursor option \<Rightarrow> scan_cursor" where
  "page_cursor co = (case co of None \<Rightarrow> \<lparr>cu_height = 0, cu_sequence = 0, cu_output = 0\<rparr> | Some c \<Rightarrow> c)"

lemma limits_ok:
  "normalizePrivacyScanLimits ol el bl = Inr (ol', el', bl') \<Longrightarrow>
     ol' \<noteq> 0 \<and> el' \<noteq> 0 \<and> unat ol' \<le> 512 \<and> unat el' \<le> 256 \<and> unat bl' \<le> 4194304"
  by (auto simp: normalizePrivacyScanLimits_def Let_def MaxPrivacyScanOutputLimit_def MaxPrivacyScanEventLimit_def MaxPrivacyScanByteLimit_def
      DefaultPrivacyScanOutputLimit_def DefaultPrivacyScanEventLimit_def DefaultPrivacyScanByteLimit_def not_less word_le_nat_alt split: if_splits)

definition empty_page :: "scan_cursor \<Rightarrow> u32 \<Rightarrow> u32 \<Rightarrow> u64 \<Rightarrow> scan_page" where
  "empty_page after ol el bl = \<lparr>sp_summaries = [], sp_outputs = [], sp_next = after, sp_has_more = False, sp_output_limit = ol, sp_event_limit = el,
     sp_max_bytes = bl, sp_scanned = 0, sp_encoded = 0, sp_schema = PrivacyScanSchemaVersionV2\<rparr>"

lemma page_run:
  assumes "scan_index env evs s" "validatePrivacyScanCursor (Some (page_cursor co)) = Inr ()"
    "normalizePrivacyScanLimits ol el bl = Inr (ol', el', bl')" "cu_height (page_cursor co) < 2 ^ 63"
  shows "GetPrivacyScanPageV2 env co ol el bl types s =
    eventPage (page_cursor co) (normalizePrivacyEventTypes types) ol' el' bl' (filter (\<lambda>e. cursor_event (page_cursor co) \<le> event_key e) evs)
      (empty_page (page_cursor co) ol' el' bl')"
proof -
  have height: "0 \<le> cu_height (page_cursor co)" using assms(2) by (simp add: validatePrivacyScanCursor_def)
  show ?thesis
    unfolding GetPrivacyScanPageV2_def Let_def page_cursor_def [symmetric] assms(2,3) bindE_Inr prod.case
      range_after [OF assms(1) height assms(4)] empty_page_def [symmetric]
    by (rule pageLoop_events [OF assms(1)]) auto
qed

lemma concat_map_filter: "(\<And>e. e \<in> set es \<Longrightarrow> \<not> P e \<Longrightarrow> f e = []) \<Longrightarrow> concat (map f es) = concat (map f (filter P es))"
  by (induction es) auto

lemma before_filter:
  assumes "scan_index env evs s" "cursor_key after \<le> cursor_key c"
  shows "remaining F c evs = remaining F c (filter (\<lambda>e. cursor_event after \<le> event_key e) evs)"
    "quiet_events F c evs = quiet_events F c (filter (\<lambda>e. cursor_event after \<le> event_key e) evs)"
proof -
  have "pending F c e = [] \<and> silent F c e = []" if "e \<in> set evs" "\<not> cursor_event after \<le> event_key e" for e
  proof -
    have "event_key e < cursor_event c" using that(2) assms(2) by (auto simp: cursor_cases)
    then show ?thesis using pending_after [OF scan_indexD(2) [OF assms(1) that(1)]] silent_after [of c e F] by (simp add: order_less_imp_not_less)
  qed
  then show "remaining F c evs = remaining F c (filter (\<lambda>e. cursor_event after \<le> event_key e) evs)"
    "quiet_events F c evs = quiet_events F c (filter (\<lambda>e. cursor_event after \<le> event_key e) evs)"
    unfolding remaining_def quiet_events_def by (auto intro: concat_map_filter)
qed

end
