(* ===== verification/Scan_Store.thy ===== *)
theory Scan_Store
  imports Scan_Index
begin

text \<open>
  The writer of the wallet scan index against its representation: what a successful write stored, that the store then represents the
  events with the new one inserted at its place, and that the genesis export of a represented index is its list of events.
\<close>

section \<open>What a write does\<close>

lemma forM_reads: "forM xs (\<lambda>x. bindM (readM (f x)) (\<lambda>_. guardM (b x) err)) s = (Inr (), t) \<longleftrightarrow>
    t = s \<and> (\<forall>x \<in> set xs. (\<exists>u. f x s = Inr u) \<and> b x)"
  by (induction xs) auto

lemma forM_checks: "forM xs (\<lambda>x. readM (f x)) s = (Inr (), t) \<longleftrightarrow> t = s \<and> (\<forall>x \<in> set xs. f x s = Inr ())"
  by (induction xs) auto

lemma forM_writes: "forM xs (\<lambda>x. writeM (f x)) s = (Inr (), fold f xs s)"
  by (induction xs arbitrary: s) (simp_all add: bindM_run)

definition written :: "scan_event \<Rightarrow> store \<Rightarrow> store" where
  "written e s = fold (\<lambda>out. kv_set (fst (output_entry out)) (snd (output_entry out))) (snd e)
     (kv_set (GetPrivacyScanSequenceKey (ss_sequence (fst e))) (be64 (word_of_int (ss_height (fst e))))
       (kv_set (fst (summary_entry e)) (snd (summary_entry e)) s))"

definition fresh_event :: "scan_event \<Rightarrow> store \<Rightarrow> bool" where
  "fresh_event e s =
     (\<not> kv_has s (GetPrivacyScanSequenceKey (ss_sequence (fst e))) \<and> \<not> kv_has s (fst (summary_entry e)) \<and>
      kv_range (GetPrivacyScanOutputEventPrefix (ss_height (fst e)) (ss_sequence (fst e)))
        (PrefixEndBytes (GetPrivacyScanOutputEventPrefix (ss_height (fst e)) (ss_sequence (fst e)))) s = [] \<and>
      (\<forall>out \<in> set (snd e). \<not> kv_has s (fst (output_entry out))))"

lemma count_word: "length outs < 2 ^ 32 \<Longrightarrow> (word_of_nat (length outs) :: u32) = c \<longleftrightarrow> length outs = unat c"
  by (auto simp: unsigned_of_nat take_bit_nat_eq_self)

lemma store_run:
  assumes "length outs < 2 ^ 32" "ss_height m < 2 ^ 63"
  shows "storePrivacyScan env (Some m) (map Some outs) s = (Inr (), t) \<longleftrightarrow>
    event_ok env s (m, outs) \<and> fresh_event (m, outs) s \<and> t = written (m, outs) s"
proof -
  have all: "(\<forall>x \<in> set (enumerate 0 (map Some outs)). P x) \<longleftrightarrow> (\<forall>i < length outs. P (i, Some (outs ! i)))" for P
    by (auto simp: in_set_enumerate_eq)
  show ?thesis
    unfolding storePrivacyScan_def event_ok_def fresh_event_def written_def output_entry_def summary_entry_def Let_def
    using assms by (auto simp: forM_reads forM_checks forM_writes all count_word case_prod_beta' comp_def)
qed

section \<open>Ordered lists of events\<close>

definition insert_event :: "scan_event \<Rightarrow> scan_event list \<Rightarrow> scan_event list" where
  "insert_event e evs = insort_key event_key e evs"

lemma insert_event_set [simp]: "set (insert_event e evs) = insert e (set evs)"
  by (simp add: insert_event_def set_insort_key)

lemma insert_event_distinct: "distinct (map f (insert_event e evs)) \<longleftrightarrow> f e \<notin> f ` set evs \<and> distinct (map f evs)"
  unfolding insert_event_def by (induction evs) (auto simp: set_insort_key)

lemma events_sorted_iff: "sorted_wrt (\<lambda>a b. event_key a < event_key b) evs \<longleftrightarrow> sorted (map event_key evs) \<and> distinct (map event_key evs)"
  using strict_sorted_iff [of "map event_key evs"] by (simp add: sorted_wrt_map)

lemma insert_event_sorted:
  "sorted_wrt (\<lambda>a b. event_key a < event_key b) evs \<Longrightarrow> event_key e \<notin> event_key ` set evs \<Longrightarrow>
     sorted_wrt (\<lambda>a b. event_key a < event_key b) (insert_event e evs)"
  unfolding events_sorted_iff insert_event_distinct by (simp add: insert_event_def sorted_insort_key)

lemma output_keys_sorted:
  assumes "event_ok env s e"
  shows "sorted_wrt (<) (map fst (map output_entry (snd e)))"
  unfolding sorted_wrt_iff_nth_less
proof (intro allI impI)
  fix i j assume ij: "i < j" "j < length (map fst (map output_entry (snd e)))"
  then have len: "i < length (snd e)" "j < length (snd e)" by simp_all
  have "(word_of_nat i :: u32) < word_of_nat j"
    using ij event_okD(4,5) [OF assms] by (simp add: word_less_nat_alt unsigned_of_nat take_bit_nat_eq_self)
  then show "map fst (map output_entry (snd e)) ! i < map fst (map output_entry (snd e)) ! j"
    using len event_ok_output [OF assms len(1)] event_ok_output [OF assms len(2)] event_okD(1,2) [OF assms]
    by (simp add: output_entry_def output_key_order less_prod_def)
qed

lemma output_across:
  assumes "event_ok env s e" "event_ok env s e'" "event_key e < event_key e'" "out \<in> set (snd e)" "out' \<in> set (snd e')"
  shows "fst (output_entry out) < fst (output_entry out')"
proof -
  have heights: "0 \<le> so_height out" "so_height out < 2 ^ 63" "0 \<le> so_height out'" "so_height out' < 2 ^ 63"
    "(so_height out, so_sequence out) < (so_height out', so_sequence out')"
    using event_ok_member [OF assms(1,4)] event_ok_member [OF assms(2,5)] event_okD(1,2) [OF assms(1)] event_okD(1,2) [OF assms(2)] assms(3)
    by (simp_all add: output_event_def event_key_def summary_key_def)
  then show ?thesis using output_key_order [OF heights(1-4)] by (auto simp: output_entry_def less_prod_def)
qed

lemma outputs_sorted:
  "list_all (event_ok env s) evs \<Longrightarrow> sorted_wrt (\<lambda>a b. event_key a < event_key b) evs \<Longrightarrow>
     sorted_wrt (<) (map fst (concat (map (map output_entry \<circ> snd) evs)))"
proof (induction evs)
  case (Cons e evs)
  have "fst (output_entry out) < fst (output_entry out')" if "out \<in> set (snd e)" "e' \<in> set evs" "out' \<in> set (snd e')" for out e' out'
    using output_across [of env s e e' out out'] Cons.prems that by (simp add: list_all_iff)
  then show ?case using Cons output_keys_sorted [of env s e] by (auto simp: sorted_wrt_append)
qed simp

lemma summaries_sorted:
  assumes "list_all (event_ok env s) evs" "sorted_wrt (\<lambda>a b. event_key a < event_key b) evs"
  shows "sorted_wrt (<) (map fst (map summary_entry evs))"
  using assms
proof (induction evs)
  case (Cons e evs)
  have "fst (summary_entry e) < fst (summary_entry e')" if "e' \<in> set evs" for e'
    using Cons.prems that event_okD(1,2) [of env s e] event_okD(1,2) [of env s e']
    by (simp add: summary_entry_def summary_key_order list_all_iff event_key_def summary_key_def)
  then show ?case using Cons by simp
qed simp

section \<open>The store after a write\<close>

lemma fold_kv_get:
  "distinct (map f xs) \<Longrightarrow> kv_get (fold (\<lambda>x. kv_set (f x) (g x)) xs s) k = Some v \<longleftrightarrow>
     (k, v) \<in> (\<lambda>x. (f x, g x)) ` set xs \<or> k \<notin> f ` set xs \<and> kv_get s k = Some v"
  by (induction xs arbitrary: s) auto

lemma fold_kv_wf: "kv_wf s \<Longrightarrow> kv_wf (fold (\<lambda>x. kv_set (f x) (g x)) xs s)"
  by (induction xs arbitrary: s) auto

lemma written_wf: "kv_wf s \<Longrightarrow> kv_wf (written e s)"
  unfolding written_def by (intro fold_kv_wf kv_wf_set)

lemma written_get:
  assumes "event_ok env s e"
  shows "kv_get (written e s) k = Some v \<longleftrightarrow>
    (k, v) \<in> set (map output_entry (snd e)) \<or> (k, v) = summary_entry e \<or> (k, v) = (GetPrivacyScanSequenceKey (ss_sequence (fst e)), be64 (word_of_int (ss_height (fst e)))) \<or>
    k \<notin> fst ` set (map output_entry (snd e)) \<and> k \<noteq> fst (summary_entry e) \<and> k \<noteq> GetPrivacyScanSequenceKey (ss_sequence (fst e)) \<and> kv_get s k = Some v"
proof -
  have dist: "distinct (map (\<lambda>x. fst (output_entry x)) (snd e))" using output_keys_sorted [OF assms] by (simp add: strict_sorted_iff comp_def)
  have apart: "fst (summary_entry e) \<noteq> GetPrivacyScanSequenceKey q" "fst (output_entry out) \<noteq> GetPrivacyScanSequenceKey q"
    "fst (output_entry out) \<noteq> fst (summary_entry e)" for q out
    by (simp_all add: summary_entry_def output_entry_def key_simps)
  show ?thesis unfolding written_def fold_kv_get [OF dist] using apart apart [symmetric] by (auto simp: image_iff prod_eq_iff)
qed
lemma validate_state_cong:
  "(\<And>c. kv_get t (GetCommitmentIndexKey c) = kv_get s (GetCommitmentIndexKey c)) \<Longrightarrow>
     validatePrivacyScanOutputStateV2 env m oo i t = validatePrivacyScanOutputStateV2 env m oo i s"
  by (simp add: validatePrivacyScanOutputStateV2_def GetCommitmentIndex_def)

lemma event_ok_cong: "(\<And>c. kv_get t (GetCommitmentIndexKey c) = kv_get s (GetCommitmentIndexKey c)) \<Longrightarrow> event_ok env t e = event_ok env s e"
  unfolding event_ok_def by (simp add: validate_state_cong [of t s])

lemma option_extI: "(\<And>v. a = Some v \<longleftrightarrow> b = Some v) \<Longrightarrow> a = b"
  by (cases a; cases b) auto

lemma written_other:
  assumes "event_ok env s e" "\<And>out. k \<noteq> fst (output_entry out)" "k \<noteq> fst (summary_entry e)" "k \<noteq> GetPrivacyScanSequenceKey (ss_sequence (fst e))"
  shows "kv_get (written e s) k = kv_get s k"
  by (rule option_extI) (use assms in \<open>auto simp: written_get [OF assms(1)] prod_eq_iff image_iff\<close>)

lemma prefix_member:
  assumes "kv_wf s" "p < 255"
  shows "(k, v) \<in> set (kv_range [p] [p + 1] s) \<longleftrightarrow> (\<exists>r. k = p # r) \<and> kv_get s k = Some v"
  using kv_range_mem [OF assms(1), of k v "[p]" "[p + 1]"] prefix_range_iff [OF assms(2), of k] by blast

lemma scan_members:
  assumes "kv_wf s"
  shows "(k, v) \<in> set (kv_range [KeyPrefixScanSummary] [KeyPrefixScanOutput] s) \<longleftrightarrow> (\<exists>r. k = KeyPrefixScanSummary # r) \<and> kv_get s k = Some v"
    "(k, v) \<in> set (kv_range [KeyPrefixScanOutput] [KeyPrefixRootSnapshot] s) \<longleftrightarrow> (\<exists>r. k = KeyPrefixScanOutput # r) \<and> kv_get s k = Some v"
  using prefix_member [OF assms, of KeyPrefixScanSummary k v] prefix_member [OF assms, of KeyPrefixScanOutput k v] by (simp_all add: key_prefix_defs)

lemma entry_prefix:
  "\<exists>r. fst (summary_entry e) = KeyPrefixScanSummary # r" "\<exists>r. fst (output_entry out) = KeyPrefixScanOutput # r"
  "\<exists>r. GetPrivacyScanSequenceKey q = KeyPrefixScanSequence # r"
  by (simp_all add: summary_entry_def output_entry_def GetPrivacyScanSummaryKey_def GetPrivacyScanOutputKey_def GetPrivacyScanSequenceKey_def)

lemma written_ranges:
  assumes "kv_wf s" "event_ok env s e" "fresh_event e s"
  shows "set (kv_range [KeyPrefixScanSummary] [KeyPrefixScanOutput] (written e s)) = insert (summary_entry e) (set (kv_range [KeyPrefixScanSummary] [KeyPrefixScanOutput] s))"
    "set (kv_range [KeyPrefixScanOutput] [KeyPrefixRootSnapshot] (written e s)) =
       set (map output_entry (snd e)) \<union> set (kv_range [KeyPrefixScanOutput] [KeyPrefixRootSnapshot] s)"
proof -
  note mem = scan_members [OF written_wf [OF assms(1)]] scan_members [OF assms(1)]
  have prefixes: "KeyPrefixScanSummary \<noteq> KeyPrefixScanOutput" "KeyPrefixScanSummary \<noteq> KeyPrefixScanSequence" "KeyPrefixScanOutput \<noteq> KeyPrefixScanSequence"
    by (simp_all add: key_prefix_defs)
  have fresh: "kv_get s (fst (summary_entry e)) = None" "\<And>out. out \<in> set (snd e) \<Longrightarrow> kv_get s (fst (output_entry out)) = None"
    using assms(3) by (simp_all add: fresh_event_def kv_has_def)
  have "(k, v) \<in> set (kv_range [KeyPrefixScanSummary] [KeyPrefixScanOutput] (written e s)) \<longleftrightarrow>
      (k, v) \<in> insert (summary_entry e) (set (kv_range [KeyPrefixScanSummary] [KeyPrefixScanOutput] s))" for k v
    unfolding mem insert_iff written_get [OF assms(2)] using prefixes fresh(1) entry_prefix(1) [of e] entry_prefix(2,3)
    by (auto simp: prod_eq_iff image_iff) (metis list.inject)+
  then show "set (kv_range [KeyPrefixScanSummary] [KeyPrefixScanOutput] (written e s)) = insert (summary_entry e) (set (kv_range [KeyPrefixScanSummary] [KeyPrefixScanOutput] s))"
    by auto
  have "(k, v) \<in> set (kv_range [KeyPrefixScanOutput] [KeyPrefixRootSnapshot] (written e s)) \<longleftrightarrow>
      (k, v) \<in> set (map output_entry (snd e)) \<union> set (kv_range [KeyPrefixScanOutput] [KeyPrefixRootSnapshot] s)" for k v
    unfolding mem Un_iff written_get [OF assms(2)] using prefixes fresh(2) entry_prefix(1) [of e] entry_prefix(2,3)
    by (auto simp: prod_eq_iff image_iff) (metis list.inject)+
  then show "set (kv_range [KeyPrefixScanOutput] [KeyPrefixRootSnapshot] (written e s)) =
       set (map output_entry (snd e)) \<union> set (kv_range [KeyPrefixScanOutput] [KeyPrefixRootSnapshot] s)" by auto
qed

lemma written_sequence:
  assumes "event_ok env s e"
  shows "kv_get (written e s) (GetPrivacyScanSequenceKey q) =
    (if q = ss_sequence (fst e) then Some (be64 (word_of_int (ss_height (fst e)))) else kv_get s (GetPrivacyScanSequenceKey q))"
proof -
  have apart: "GetPrivacyScanSequenceKey q \<noteq> fst (summary_entry e)" "\<And>out. GetPrivacyScanSequenceKey q \<noteq> fst (output_entry out)"
    and inj: "GetPrivacyScanSequenceKey q = GetPrivacyScanSequenceKey q' \<longleftrightarrow> q = q'" for q'
    by (simp_all add: summary_entry_def output_entry_def key_simps)
  show ?thesis by (rule option_extI) (use apart in \<open>auto simp: written_get [OF assms] inj prod_eq_iff image_iff\<close>)
qed

lemma map_of_insert:
  "distinct (map f (insert_event e evs)) \<Longrightarrow>
     map_of (map (\<lambda>e. (f e, g e)) (insert_event e evs)) q = (if q = f e then Some (g e) else map_of (map (\<lambda>e. (f e, g e)) evs) q)"
  unfolding insert_event_def by (induction evs) (auto simp: set_insort_key)

lemma index_insert:
  assumes "scan_index env evs s" "event_ok env s e" "fresh_event e s"
  shows "scan_index env (insert_event e evs) (written e s)"
proof -
  let ?t = "written e s"
  note I = scan_indexD [OF assms(1)]
  have wf: "kv_wf ?t" by (rule written_wf [OF I(1)])
  have idx: "kv_get ?t (GetCommitmentIndexKey c) = kv_get s (GetCommitmentIndexKey c)" for c
    by (rule written_other [OF assms(2)]) (simp_all add: output_entry_def summary_entry_def key_simps)
  have ok: "list_all (event_ok env s) (insert_event e evs)" "list_all (event_ok env ?t) (insert_event e evs)"
    using I(2) assms(2) event_ok_cong [of ?t s env, OF idx] by (auto simp: list_all_iff)
  have new: "snd (event_key e) \<notin> (snd \<circ> event_key) ` set evs"
  proof -
    have "map_of (map (\<lambda>e. (snd (event_key e), be64 (word_of_int (fst (event_key e))))) evs) (snd (event_key e)) = None"
      using assms(3) I(7) [of "snd (event_key e)"] by (simp add: fresh_event_def kv_has_def event_key_def summary_key_def)
    then show ?thesis by (simp add: map_of_eq_None_iff image_image comp_def)
  qed
  have seqs: "distinct (map (snd \<circ> event_key) (insert_event e evs))"
    using I(4) new by (simp add: insert_event_distinct)
  have sorted: "sorted_wrt (\<lambda>a b. event_key a < event_key b) (insert_event e evs)"
    by (rule insert_event_sorted [OF I(3)]) (use new in \<open>auto simp: image_iff\<close>)
  have summaries: "kv_range [KeyPrefixScanSummary] [KeyPrefixScanOutput] ?t = map summary_entry (insert_event e evs)"
  proof (rule sorted_pairs_eq)
    show "sorted_wrt (<) (map fst (kv_range [KeyPrefixScanSummary] [KeyPrefixScanOutput] ?t))" by (rule kv.iter_sorted [OF wf])
    show "sorted_wrt (<) (map fst (map summary_entry (insert_event e evs)))" by (rule summaries_sorted [OF ok(1) sorted])
    have "set (kv_range [KeyPrefixScanSummary] [KeyPrefixScanOutput] ?t) = insert (summary_entry e) (set (kv_range [KeyPrefixScanSummary] [KeyPrefixScanOutput] s))"
      by (rule written_ranges(1) [OF I(1) assms(2,3)])
    then show "set (kv_range [KeyPrefixScanSummary] [KeyPrefixScanOutput] ?t) = set (map summary_entry (insert_event e evs))" by (simp add: I(5))
  qed
  have outputs: "kv_range [KeyPrefixScanOutput] [KeyPrefixRootSnapshot] ?t = concat (map (map output_entry \<circ> snd) (insert_event e evs))"
  proof (rule sorted_pairs_eq)
    show "sorted_wrt (<) (map fst (kv_range [KeyPrefixScanOutput] [KeyPrefixRootSnapshot] ?t))" by (rule kv.iter_sorted [OF wf])
    show "sorted_wrt (<) (map fst (concat (map (map output_entry \<circ> snd) (insert_event e evs))))" by (rule outputs_sorted [OF ok(1) sorted])
    have "set (kv_range [KeyPrefixScanOutput] [KeyPrefixRootSnapshot] ?t) =
        set (map output_entry (snd e)) \<union> set (kv_range [KeyPrefixScanOutput] [KeyPrefixRootSnapshot] s)"
      by (rule written_ranges(2) [OF I(1) assms(2,3)])
    then show "set (kv_range [KeyPrefixScanOutput] [KeyPrefixRootSnapshot] ?t) = set (concat (map (map output_entry \<circ> snd) (insert_event e evs)))"
      by (simp add: I(6))
  qed
  have "kv_get ?t (GetPrivacyScanSequenceKey q) =
      map_of (map (\<lambda>e. (snd (event_key e), be64 (word_of_int (fst (event_key e))))) (insert_event e evs)) q" for q
    using map_of_insert [of "snd \<circ> event_key" e evs "\<lambda>e. be64 (word_of_int (fst (event_key e)))" q, OF seqs]
    by (simp add: written_sequence [OF assms(2)] I(7)) (simp add: event_key_def summary_key_def)
  then show ?thesis using wf ok(2) sorted seqs summaries outputs by (simp add: scan_index_def)
qed
section \<open>Refusals\<close>

text \<open>An action that only reads, one that never fails, and one that leaves the state alone when it fails.\<close>

definition read_only :: "('s, 'a) action \<Rightarrow> bool" where
  "read_only m = (\<forall>s. snd (m s) = s)"

definition never_fails :: "('s, 'a) action \<Rightarrow> bool" where
  "never_fails m = (\<forall>s. \<exists>x t. m s = (Inr x, t))"

definition refuses_cleanly :: "('s, 'a) action \<Rightarrow> bool" where
  "refuses_cleanly m = (\<forall>s err t. m s = (Inl err, t) \<longrightarrow> t = s)"

lemma read_only_intros:
  "read_only (readM r)" "read_only (guardM b err)" "read_only (retM x)"
  "read_only m \<Longrightarrow> (\<And>x. read_only (f x)) \<Longrightarrow> read_only (bindM m f)"
  by (auto simp: read_only_def bindM_def split: prod.splits sum.splits) (metis snd_conv)+

lemma read_only_forM: "(\<And>x. read_only (f x)) \<Longrightarrow> read_only (forM xs f)"
  by (induction xs) (auto intro: read_only_intros)

lemma read_only_case: "(\<And>a b. read_only (f a b)) \<Longrightarrow> read_only (case p of (a, b) \<Rightarrow> f a b)"
  by (cases p) simp

lemma never_fails_intros:
  "never_fails (writeM w)" "never_fails (retM x)" "never_fails m \<Longrightarrow> (\<And>x. never_fails (f x)) \<Longrightarrow> never_fails (bindM m f)"
  by (auto simp: never_fails_def bindM_def split: prod.splits sum.splits) (metis prod.inject sum.distinct(1) sum.inject(2))+

lemma never_fails_forM: "(\<And>x. never_fails (f x)) \<Longrightarrow> never_fails (forM xs f)"
  by (induction xs) (auto intro: never_fails_intros)

lemma clean_never: "never_fails m \<Longrightarrow> refuses_cleanly m"
  by (auto simp: never_fails_def refuses_cleanly_def) (metis Pair_inject sum.distinct(1))

lemma clean_bind: "read_only m \<Longrightarrow> (\<And>x. refuses_cleanly (f x)) \<Longrightarrow> refuses_cleanly (bindM m f)"
  unfolding refuses_cleanly_def read_only_def bindM_def by (auto split: prod.splits sum.splits) (metis snd_conv)+

lemma clean_intros:
  "(\<And>x. refuses_cleanly (f x)) \<Longrightarrow> refuses_cleanly (bindM (readM r) f)"
  "(\<And>u. refuses_cleanly (g u)) \<Longrightarrow> refuses_cleanly (bindM (guardM b err) g)"
  "(\<And>x. read_only (h x)) \<Longrightarrow> (\<And>u. refuses_cleanly (g u)) \<Longrightarrow> refuses_cleanly (bindM (forM xs h) g)"
  "(\<And>u. never_fails (g u)) \<Longrightarrow> refuses_cleanly (bindM (writeM w) g)"
  by ((rule clean_bind, intro read_only_intros read_only_forM, assumption?, simp)+)
    (rule clean_never, intro never_fails_intros, simp)

lemmas reader_intros = read_only_intros read_only_forM read_only_case
lemmas writer_intros = never_fails_intros never_fails_forM

lemma store_refuses: "refuses_cleanly (storePrivacyScan env so outs)"
  unfolding storePrivacyScan_def Let_def by (intro clean_intros reader_intros writer_intros)

section \<open>The index as an abstract list\<close>

lemma fresh_iff:
  assumes "scan_index env evs s" "event_ok env s e"
  shows "fresh_event e s \<longleftrightarrow> ss_sequence (fst e) \<notin> (\<lambda>e. ss_sequence (fst e)) ` set evs"
proof
  assume "ss_sequence (fst e) \<notin> (\<lambda>e. ss_sequence (fst e)) ` set evs"
  then have new: "ss_sequence (fst e') \<noteq> ss_sequence (fst e)" if "e' \<in> set evs" for e' using that by (metis imageI)
  note I = scan_indexD [OF assms(1)]
  have keys: "event_key e' \<noteq> event_key e" if "e' \<in> set evs" for e' using new [OF that] by (simp add: event_key_def summary_key_def)
  have seq: "kv_get s (GetPrivacyScanSequenceKey (ss_sequence (fst e))) = None"
    unfolding I(7) by (auto simp: map_of_eq_None_iff image_image event_key_def summary_key_def dest: new)
  have summary: "kv_get s (fst (summary_entry e)) = None"
  proof (rule ccontr)
    assume "kv_get s (fst (summary_entry e)) \<noteq> None"
    then obtain v where "kv_get s (fst (summary_entry e)) = Some v" by blast
    then have "(fst (summary_entry e), v) \<in> set (map summary_entry evs)"
      unfolding I(5) [symmetric] scan_members(1) [OF I(1)] using entry_prefix(1) [of e] by simp
    then obtain e' where e': "e' \<in> set evs" "fst (summary_entry e) = fst (summary_entry e')" by (metis fst_conv imageE list.set_map)
    then show False using keys [OF e'(1)] summary_key_order(2) [OF event_okD(1,2) [OF assms(2)] event_okD(1,2) [OF I(2) [OF e'(1)]]]
      by (simp add: summary_entry_def event_key_def summary_key_def)
  qed
  have none: "\<not> in_event e kv" if "kv \<in> set (kv_range [KeyPrefixScanOutput] [KeyPrefixRootSnapshot] s)" for kv
    using that unfolding I(6) by (auto simp: output_in_event [OF assms(2) I(2)] dest: keys [THEN not_sym])
  have member: "in_event e (k, v) \<Longrightarrow> (\<exists>r. k = KeyPrefixScanOutput # r)" for k v
    by (auto simp: in_event_def GetPrivacyScanOutputEventPrefix_def)
  have absent: "kv_get s k = None" if "in_event e (k, v)" for k v
  proof (rule ccontr)
    assume "kv_get s k \<noteq> None"
    then obtain w where "kv_get s k = Some w" by blast
    then have "(k, w) \<in> set (kv_range [KeyPrefixScanOutput] [KeyPrefixRootSnapshot] s)" using scan_members(2) [OF I(1)] member [OF that] by simp
    moreover have "in_event e (k, w)" using that by (simp add: in_event_def)
    ultimately show False using none by blast
  qed
  have outs: "kv_get s (fst (output_entry out)) = None" if "out \<in> set (snd e)" for out
    using absent [of "fst (output_entry out)" "snd (output_entry out)"] output_in_event [OF assms(2,2) that] by simp
  have "\<not> list_all (\<lambda>b. b = 255) (GetPrivacyScanOutputEventPrefix (ss_height (fst e)) (ss_sequence (fst e)))"
    by (simp add: GetPrivacyScanOutputEventPrefix_def key_prefix_defs)
  then have "kv_range (GetPrivacyScanOutputEventPrefix (ss_height (fst e)) (ss_sequence (fst e)))
      (PrefixEndBytes (GetPrivacyScanOutputEventPrefix (ss_height (fst e)) (ss_sequence (fst e)))) s = []"
    using absent by (auto simp: kv_range_prefix filter_empty_conv in_event_def kv_mem_iff [OF I(1)]) 
  then show "fresh_event e s" using seq summary outs by (simp add: fresh_event_def kv_has_def)
next
  assume "fresh_event e s"
  then have "map_of (map (\<lambda>e. (snd (event_key e), be64 (word_of_int (fst (event_key e))))) evs) (ss_sequence (fst e)) = None"
    using scan_indexD(7) [OF assms(1), of "ss_sequence (fst e)"] by (simp add: fresh_event_def kv_has_def)
  then show "ss_sequence (fst e) \<notin> (\<lambda>e. ss_sequence (fst e)) ` set evs"
    by (simp add: map_of_eq_None_iff image_image event_key_def summary_key_def)
qed
section \<open>The genesis export\<close>

lemma export_summaries:
  assumes "scan_index env evs s" "set es \<subseteq> set evs"
  shows "exportSummaries env s (map summary_entry es) = Inr (map fst es)"
  using assms(2)
proof (induction es)
  case (Cons e es)
  have mem: "e \<in> set evs" using Cons.prems by simp
  note ok = scan_indexD(2) [OF assms(1) mem]
  have dec: "decodePrivacyScanSummaryKey (GetPrivacyScanSummaryKey (ss_height (fst e)) (ss_sequence (fst e))) = Inr (ss_height (fst e), ss_sequence (fst e))"
    using event_okD(1,2) [OF ok] by (simp add: decode_summary_key)
  have "map_of (map (\<lambda>e. (snd (event_key e), be64 (word_of_int (fst (event_key e))))) evs) (ss_sequence (fst e)) = Some (be64 (word_of_int (ss_height (fst e))))"
    using scan_indexD(4) [OF assms(1)] mem by (intro map_of_is_SomeI) (auto simp: comp_def event_key_def summary_key_def)
  then have seq: "kv_get s (GetPrivacyScanSequenceKey (ss_sequence (fst e))) = Some (be64 (word_of_int (ss_height (fst e))))"
    using scan_indexD(7) [OF assms(1), of "ss_sequence (fst e)"] by simp
  show ?case using Cons event_ok_codec(1) [OF ok] ok by (simp add: summary_entry_def dec seq event_ok_def)
qed simp

lemma export_event:
  assumes "event_ok env s e" "table (event_key e) = Some (fst e)" "i \<le> length (snd e)" "counts (event_key e) = word_of_nat i"
  shows "exportOutputs env s table counts (map output_entry (drop i (snd e)) @ rest) =
    bindE (exportOutputs env s table (counts(event_key e := ss_output_count (fst e))) rest) (\<lambda>(outs, c). Inr (drop i (snd e) @ outs, c))"
  using assms(3,4)
proof (induction i arbitrary: counts rule: inc_induct)
  case base
  have "word_of_nat (length (snd e)) = ss_output_count (fst e)" using event_okD(5) [OF assms(1)] by simp
  then have "counts(event_key e := ss_output_count (fst e)) = counts" using base by (auto simp: fun_eq_iff)
  then show ?case by (auto simp: bindE_def split: sum.splits)
next
  case (step i)
  note ok = event_okD [OF assms(1)] and out = event_ok_output [OF assms(1) step.hyps(2)]
  have head: "drop i (snd e) = snd e ! i # drop (Suc i) (snd e)" using step.hyps by (simp add: Cons_nth_drop_Suc)
  have key: "decodePrivacyScanOutputKey (GetPrivacyScanOutputKey (ss_height (fst e)) (ss_sequence (fst e)) (word_of_nat i)) =
      Inr \<lparr>cu_height = ss_height (fst e), cu_sequence = ss_sequence (fst e), cu_output = word_of_nat i\<rparr>"
    by (rule decode_output_key [OF ok(1,2)])
  have event: "output_event (snd e ! i) = event_key e" using event_ok_member [OF assms(1)] step.hyps by simp
  have cmp: "comparePrivacyScanCursor \<lparr>cu_height = ss_height (fst e), cu_sequence = ss_sequence (fst e), cu_output = word_of_nat i\<rparr> (scanOutputCursor (snd e ! i)) = 0"
    using out by (simp add: compare_cursor cursor_key_def scanOutputCursor_def)
  have valid: "validatePrivacyScanOutputStateV2 env (fst e) (Some (snd e ! i)) (word_of_nat i) s = Inr ()"
    using assms(1) step.hyps by (simp add: event_ok_def)
  have suc: "(word_of_nat i :: u32) + 1 = word_of_nat (Suc i)" by simp
  have IH: "exportOutputs env s table (counts(event_key e := word_of_nat (Suc i))) (map output_entry (drop (Suc i) (snd e)) @ rest) =
      bindE (exportOutputs env s table (counts(event_key e := ss_output_count (fst e))) rest) (\<lambda>(outs, c). Inr (drop (Suc i) (snd e) @ outs, c))"
    using step.IH [of "counts(event_key e := word_of_nat (Suc i))", OF fun_upd_same] unfolding fun_upd_upd .
  show ?case using valid event_ok_codec(2) [OF assms(1) step.hyps(2)] step.prems
    by (simp add: head output_entry_def out key event cmp assms(2) suc IH [unfolded output_entry_def] del: of_nat_Suc)
      (auto simp: bindE_def fun_upd_def split: sum.splits)
qed

lemma export_outputs:
  assumes "\<And>e. e \<in> set es \<Longrightarrow> event_ok env s e \<and> table (event_key e) = Some (fst e) \<and> counts (event_key e) = 0" "distinct (map event_key es)"
  shows "\<exists>c. exportOutputs env s table counts (concat (map (map output_entry \<circ> snd) es)) = Inr (concat (map snd es), c) \<and>
    (\<forall>e \<in> set es. c (event_key e) = ss_output_count (fst e)) \<and> (\<forall>k. k \<notin> event_key ` set es \<longrightarrow> c k = counts k)"
  using assms
proof (induction es arbitrary: counts)
  case (Cons e es)
  let ?counts = "counts(event_key e := ss_output_count (fst e))"
  have "\<exists>c. exportOutputs env s table ?counts (concat (map (map output_entry \<circ> snd) es)) = Inr (concat (map snd es), c) \<and>
    (\<forall>e \<in> set es. c (event_key e) = ss_output_count (fst e)) \<and> (\<forall>k. k \<notin> event_key ` set es \<longrightarrow> c k = ?counts k)"
    by (rule Cons.IH) (use Cons.prems in \<open>auto simp: image_iff\<close>)
  then obtain c where c: "exportOutputs env s table ?counts (concat (map (map output_entry \<circ> snd) es)) = Inr (concat (map snd es), c)"
    "\<forall>e \<in> set es. c (event_key e) = ss_output_count (fst e)" "\<forall>k. k \<notin> event_key ` set es \<longrightarrow> c k = ?counts k" by blast
  have "exportOutputs env s table counts (concat (map (map output_entry \<circ> snd) (e # es))) = Inr (concat (map snd (e # es)), c)"
    using export_event [of env s e table 0 counts "concat (map (map output_entry \<circ> snd) es)"] Cons.prems(1) [of e] by (simp add: c(1))
  moreover have "c (event_key e) = ss_output_count (fst e)" using spec [OF c(3), of "event_key e"] Cons.prems(2) by simp
  moreover have "c k = counts k" if "k \<notin> event_key ` set (e # es)" for k using spec [OF c(3), of k] that by simp
  ultimately show ?case using c(2) by (intro exI [of _ c]) (simp add: comp_def)
qed simp

lemma table_lookup:
  "distinct (map event_key es) \<Longrightarrow> e \<in> set es \<Longrightarrow>
     foldl (\<lambda>m summary. m(summary_key summary \<mapsto> summary)) t (map fst es) (event_key e) = Some (fst e)"
proof (induction es rule: rev_induct)
  case (snoc a es)
  then have "event_key e \<noteq> event_key a" if "e \<noteq> a" using that by (auto simp: image_iff)
  with snoc show ?case by (cases "e = a") (auto simp: event_key_def)
qed simp

lemma export_index:
  assumes "scan_index env evs s"
  shows "ExportGenesisPrivacyScanV2 env s = Inr (map fst evs, concat (map snd evs))"
proof -
  let ?table = "foldl (\<lambda>m summary. m(summary_key summary \<mapsto> summary)) Map.empty (map fst evs)"
  have ends: "PrefixEndBytes GetPrivacyScanSummaryPrefix = [KeyPrefixScanOutput]" "PrefixEndBytes GetPrivacyScanOutputPrefix = [KeyPrefixRootSnapshot]"
    by (simp_all add: PrefixEndBytes_def GetPrivacyScanSummaryPrefix_def GetPrivacyScanOutputPrefix_def key_prefix_defs)
  have keys: "distinct (map event_key evs)" using scan_indexD(4) [OF assms] by (simp add: distinct_map inj_on_def)
  have "\<exists>c. exportOutputs env s ?table (\<lambda>_. 0) (concat (map (map output_entry \<circ> snd) evs)) = Inr (concat (map snd evs), c) \<and>
    (\<forall>e \<in> set evs. c (event_key e) = ss_output_count (fst e)) \<and> (\<forall>k. k \<notin> event_key ` set evs \<longrightarrow> c k = 0)"
    by (rule export_outputs) (use scan_indexD(2) [OF assms] table_lookup [OF keys] keys in auto)
  then obtain c where c: "exportOutputs env s ?table (\<lambda>_. 0) (concat (map (map output_entry \<circ> snd) evs)) = Inr (concat (map snd evs), c)"
    "\<forall>e \<in> set evs. c (event_key e) = ss_output_count (fst e)" by blast
  have "list_all (\<lambda>key. c key = ss_output_count (the (?table key))) (map summary_key (map fst evs))"
    using c(2) table_lookup [OF keys] by (auto simp: list_all_iff event_key_def)
  then show ?thesis
    using export_summaries [OF assms order_refl] c(1) scan_indexD(5,6) [OF assms]
    by (simp add: ExportGenesisPrivacyScanV2_def ends GetPrivacyScanSummaryPrefix_def [symmetric] Let_def)
      (simp add: GetPrivacyScanSummaryPrefix_def GetPrivacyScanOutputPrefix_def)
qed
end
