(* ===== verification/Sample_Scan.thy ===== *)
theory Sample_Scan
  imports Scan_Store
begin

text \<open>A store with the index of a withdrawal and of a deposit, on which the properties of the scan index are applied.\<close>

definition sample_withdrawal :: scan_summary where
  "sample_withdrawal = empty_summary\<lparr>ss_sequence := 1, ss_height := 3, ss_event := EventTypeWithdraw, ss_nullifiers := [sample_c2],
     ss_circuit_set := ActiveCircuitSetID, ss_payload_version := FixedPayloadVersionV1, ss_schema_version := PrivacyScanSchemaVersionV2\<rparr>"

definition sample_deposit_summary :: scan_summary where
  "sample_deposit_summary = empty_summary\<lparr>ss_sequence := 2, ss_height := 5, ss_event := EventTypeDeposit, ss_output_count := 1,
     ss_circuit_set := ActiveCircuitSetID, ss_payload_version := FixedPayloadVersionV1, ss_schema_version := PrivacyScanSchemaVersionV2\<rparr>"

definition sample_note_envelope :: bytes where
  "sample_note_envelope = encryptedEnvelopeV1DomainTag @ be16 fixedBinaryVersionV1 @ [EnvelopeDepositNoteV1, 0] @
     replicate (NotePlaintextV1Size + symmetricEnvelopeOverheadV1) 0"

definition sample_deposit_output :: scan_output where
  "sample_deposit_output = empty_output\<lparr>so_sequence := 2, so_height := 5, so_commitment := sample_c1, so_encrypted_note := sample_note_envelope,
     so_leaf_found := True, so_circuit_set := ActiveCircuitSetID, so_payload_version := FixedPayloadVersionV1,
     so_schema_version := PrivacyScanSchemaVersionV2, so_event := EventTypeDeposit\<rparr>"

definition sample_events :: "scan_event list" where
  "sample_events = [(sample_withdrawal, []), (sample_deposit_summary, [sample_deposit_output])]"

definition sample_leaf :: store where
  "sample_leaf = kv_set (GetCommitmentIndexKey sample_c1) (be64 0) []"

definition sample_index :: store where
  "sample_index = written (sample_deposit_summary, [sample_deposit_output]) (written (sample_withdrawal, []) sample_leaf)"

lemmas sample_scan_defs = sample_withdrawal_def sample_deposit_summary_def sample_deposit_output_def empty_summary_def empty_output_def
  EventTypeWithdraw_def EventTypeDeposit_def ActiveCircuitSetID_def FixedPayloadVersionV1_def PrivacyScanSchemaVersionV2_def AuditCircuitSetID_def

lemma sample_trims: "TrimSpace ''withdraw'' = ''withdraw''" "TrimSpace ''deposit'' = ''deposit''"
  by (rule TrimSpace_plain; simp)+

lemma sample_lengths: "length sample_c1 = 32" "length sample_c2 = 32" "length sample_note_envelope = 20 + (NotePlaintextV1Size + symmetricEnvelopeOverheadV1)"
  using sample_active by (auto simp: active_field_def sample_note_envelope_def encryptedEnvelopeV1DomainTag_def)

lemma sample_scan_sizes:
  "PrivacyScanSummaryV2_Size sample_withdrawal = 100" "PrivacyScanSummaryV2_Size sample_deposit_summary = 67" "PrivacyScanOutputV2_Size sample_deposit_output = 514"
  by (simp_all add: PrivacyScanSummaryV2_Size_def PrivacyScanOutputV2_Size_def sample_scan_defs szNum_def szBytes_def szBytes2_def szMsg_def sov_one sov_two
      sample_lengths NotePlaintextV1Size_def symmetricEnvelopeOverheadV1_def)

lemma sample_note_envelope_ok: "UnwrapEncryptedEnvelopeV1 sample_note_envelope EnvelopeDepositNoteV1 = Inr (replicate (NotePlaintextV1Size + symmetricEnvelopeOverheadV1) 0)"
proof -
  have "WrapEncryptedEnvelopeV1 EnvelopeDepositNoteV1 (replicate (NotePlaintextV1Size + symmetricEnvelopeOverheadV1) 0) = Inr sample_note_envelope"
    by (simp add: WrapEncryptedEnvelopeV1_def encryptedCiphertextSizeV1_def sample_note_envelope_def)
  then show ?thesis using envelope_codec_v1 [of sample_note_envelope EnvelopeDepositNoteV1] by (simp add: UnwrapEncryptedEnvelopeV1_def)
qed

lemma sample_canonical: "canonical_field sample_c1" "canonical_field sample_c2" "sample_c1 \<noteq> replicate 32 0" "sample_c2 \<noteq> replicate 32 0"
  using sample_active by (simp_all add: active_field_def)

lemma sample_summaries_valid: "validatePrivacyScanSummaryV2 env (Some sample_withdrawal) = Inr ()" "validatePrivacyScanSummaryV2 env (Some sample_deposit_summary) = Inr ()"
  using sample_canonical
  by (simp_all add: validatePrivacyScanSummaryV2_def validatePrivacyScanSummaryEventV2_def validatePrivacyScanSummaryNoAuditV2_def sample_scan_defs sample_trims
      fieldElementByteSize_def)

lemma sample_output_valid:
  assumes "kv_get s (GetCommitmentIndexKey sample_c1) = Some (be64 0)"
  shows "validatePrivacyScanOutputStateV2 env sample_deposit_summary (Some sample_deposit_output) 0 s = Inr ()"
proof -
  have shape: "so_height sample_deposit_output = ss_height sample_deposit_summary" "so_sequence sample_deposit_output = ss_sequence sample_deposit_summary"
    "so_index sample_deposit_output = 0" "so_event sample_deposit_output = EventTypeDeposit" "ss_event sample_deposit_summary = EventTypeDeposit"
    "so_commitment sample_deposit_output = sample_c1" "so_encrypted_note sample_deposit_output = sample_note_envelope" "so_leaf_found sample_deposit_output"
    "so_leaf_index sample_deposit_output = 0" "ss_circuit_set sample_deposit_summary \<noteq> AuditCircuitSetID"
    by (simp_all add: sample_scan_defs)
  have rest: "so_tx_hash sample_deposit_output = ss_tx_hash sample_deposit_summary" "so_effect sample_deposit_output = ss_effect sample_deposit_summary"
    "so_circuit_set sample_deposit_output = ss_circuit_set sample_deposit_summary" "so_payload_version sample_deposit_output = ss_payload_version sample_deposit_summary"
    "so_schema_version sample_deposit_output = ss_schema_version sample_deposit_summary" "so_key_id sample_deposit_output = ss_key_id sample_deposit_summary"
    "so_key_epoch sample_deposit_output = ss_key_epoch sample_deposit_summary" "so_target sample_deposit_output = ss_target sample_deposit_summary"
    "so_view_tag sample_deposit_output = []" "so_ciphertext sample_deposit_output = []" "validatePrivacyScanEmptyDisclosureV2 sample_deposit_output = Inr ()"
    by (simp_all add: sample_scan_defs validatePrivacyScanEmptyDisclosureV2_def)
  have "validatePrivacyScanOutputEventV2 env sample_deposit_output = Inr ()"
    using sample_note_envelope_ok by (simp add: validatePrivacyScanOutputEventV2_def shape rest)
  then have "validatePrivacyScanOutputV2 env sample_deposit_summary (Some sample_deposit_output) 0 = Inr ()"
    using sample_canonical by (simp add: validatePrivacyScanOutputV2_def shape rest strict_canonical fieldElementByteSize_def)
  moreover have "GetCommitmentIndex sample_c1 s = Inr (Some 0)" using assms sample_canonical by (simp add: GetCommitmentIndex_def)
  ultimately show ?thesis by (simp add: validatePrivacyScanOutputStateV2_def shape)
qed

lemma sample_events_ok:
  "event_ok env s (sample_withdrawal, [])"
  "kv_get s (GetCommitmentIndexKey sample_c1) = Some (be64 0) \<Longrightarrow> event_ok env s (sample_deposit_summary, [sample_deposit_output])"
proof -
  have "ss_height sample_withdrawal = 3" "ss_height sample_deposit_summary = 5" "ss_output_count sample_withdrawal = 0" "ss_output_count sample_deposit_summary = 1"
    by (simp_all add: sample_scan_defs)
  then show "event_ok env s (sample_withdrawal, [])"
    "kv_get s (GetCommitmentIndexKey sample_c1) = Some (be64 0) \<Longrightarrow> event_ok env s (sample_deposit_summary, [sample_deposit_output])"
    using sample_summaries_valid [of env] sample_output_valid [of s env]
    by (simp_all add: event_ok_def sample_scan_sizes MaxPrivacyScanStateRecordSize_def less_Suc_eq)
qed

lemma empty_index:
  assumes "kv_wf s" "\<And>k. scan_key k \<Longrightarrow> kv_get s k = None"
  shows "scan_index env [] s"
proof -
  have nil: "xs = []" if "\<And>k v. (k, v) \<notin> set xs" for xs :: store using that by (cases xs) auto
  have "kv_range [KeyPrefixScanSummary] [KeyPrefixScanOutput] s = []" "kv_range [KeyPrefixScanOutput] [KeyPrefixRootSnapshot] s = []"
    using assms(2) by (auto intro!: nil simp: scan_members [OF assms(1)] scan_key_def)
  then show ?thesis using assms(1) assms(2) [OF region_keys(6)] by (simp add: scan_index_def)
qed

definition sample_first :: store where
  "sample_first = written (sample_withdrawal, []) sample_leaf"

lemma sample_first_index: "scan_index env [(sample_withdrawal, [])] sample_first"
proof -
  have i0: "scan_index env [] sample_leaf"
    by (rule empty_index) (auto simp: sample_leaf_def scan_key_def GetCommitmentIndexKey_def key_prefix_defs simp del: kv_set.simps)
  have "scan_index env (insert_event (sample_withdrawal, []) []) sample_first"
    unfolding sample_first_def by (rule index_insert [OF i0 sample_events_ok(1)]) (simp add: fresh_iff [OF i0 sample_events_ok(1)])
  then show ?thesis by (simp add: insert_event_def)
qed

lemma sample_second_ok: "event_ok env sample_first (sample_deposit_summary, [sample_deposit_output])"
proof (rule sample_events_ok(2))
  have "kv_get sample_leaf (GetCommitmentIndexKey sample_c1) = Some (be64 0)" by (simp add: sample_leaf_def del: kv_set.simps)
  then show "kv_get sample_first (GetCommitmentIndexKey sample_c1) = Some (be64 0)"
    using written_other [OF sample_events_ok(1), of "GetCommitmentIndexKey sample_c1"] by (simp add: sample_first_def output_entry_def summary_entry_def key_simps)
qed

lemma sample_sequences: "ss_sequence sample_withdrawal = 1" "ss_sequence sample_deposit_summary = 2"
  by (simp_all add: sample_scan_defs)

lemma sample_inserted: "insert_event (sample_deposit_summary, [sample_deposit_output]) [(sample_withdrawal, [])] = sample_events"
  by (simp add: sample_events_def insert_event_def event_key_def summary_key_def sample_scan_defs less_eq_prod_def)

lemma sample_scan_index: "scan_index env sample_events sample_index"
  unfolding sample_inserted [symmetric] sample_index_def sample_first_def [symmetric]
  by (rule index_insert [OF sample_first_index sample_second_ok]) (simp add: fresh_iff [OF sample_first_index sample_second_ok] sample_sequences)

end
