(* ===== verification/Scan_Theorems.thy ===== *)
theory Scan_Theorems
  imports Sample_Scan
begin

text \<open>
  The properties of the wallet scan index: the writer refines insertion into an ordered list of events, the paged query returns exact
  slices of it, the genesis export returns it, and a page can be refused for its size although no record exceeds the byte limit.
\<close>

section \<open>Writing\<close>

text \<open>C6. The index refines a list of events ordered by height and sequence: a write is accepted exactly when the event passes the checks
  of the reader and its sequence is not indexed yet, it then inserts the event, after which the readers return exactly what was written,
  and a refused write leaves the store alone.\<close>

theorem store_refines:
  assumes "scan_index env evs s" "length outs < 2 ^ 32" "ss_height m < 2 ^ 63"
  shows "case storePrivacyScan env (Some m) (map Some outs) s of
      (Inl _, t) \<Rightarrow> t = s \<and> \<not> (event_ok env s (m, outs) \<and> ss_sequence m \<notin> (\<lambda>e. ss_sequence (fst e)) ` set evs)
    | (Inr _, t) \<Rightarrow> event_ok env s (m, outs) \<and> ss_sequence m \<notin> (\<lambda>e. ss_sequence (fst e)) ` set evs \<and>
        scan_index env (insert_event (m, outs) evs) t \<and>
        getPrivacyScanSummaryV2 env (ss_height m) (ss_sequence m) t = Inr m \<and> getPrivacyScanEventOutputsV2 env m t = Inr outs"
proof (cases "storePrivacyScan env (Some m) (map Some outs) s")
  case (Pair r t)
  note run = store_run [OF assms(2,3), of env s] fresh_iff [OF assms(1), of "(m, outs)"]
  show ?thesis
  proof (cases r)
    case (Inl err)
    then have "t = s" using store_refuses [of env "Some m" "map Some outs"] Pair by (auto simp: refuses_cleanly_def)
    then show ?thesis using Pair Inl run by auto
  next
    case (Inr u)
    then have ok: "event_ok env s (m, outs)" "fresh_event (m, outs) s" and t: "t = written (m, outs) s" using Pair run(1) by auto
    have index: "scan_index env (insert_event (m, outs) evs) t" unfolding t by (rule index_insert [OF assms(1) ok])
    have mem: "(m, outs) \<in> set (insert_event (m, outs) evs)" by simp
    have "kv_get t (fst (summary_entry (m, outs))) = Some (PrivacyScanSummaryV2_Marshal m)"
      using written_get [OF ok(1), of "fst (summary_entry (m, outs))"] by (auto simp: t summary_entry_def)
    moreover have "PrivacyScanSummaryV2_Marshal m \<noteq> []"
      using event_okD(3) [OF ok(1)] by (simp add: PrivacyScanSummaryV2_Marshal_def summary_fields_def numField_def marshalFields_def)
    ultimately have "getPrivacyScanSummaryV2 env (ss_height m) (ss_sequence m) t = Inr m"
      using event_ok_codec(1) [OF ok(1)] ok(1) by (simp add: getPrivacyScanSummaryV2_def summary_entry_def event_ok_def)
    then show ?thesis using Pair Inr ok run(2) index event_outputs [OF index mem] by simp
  qed
qed

theorem store_refines_witness:
  "case storePrivacyScan (sample_env True) (Some sample_deposit_summary) [Some sample_deposit_output] sample_first of
      (Inl _, t) \<Rightarrow> False
    | (Inr _, t) \<Rightarrow> scan_index (sample_env True) sample_events t \<and>
        getPrivacyScanSummaryV2 (sample_env True) 5 2 t = Inr sample_deposit_summary \<and>
        getPrivacyScanEventOutputsV2 (sample_env True) sample_deposit_summary t = Inr [sample_deposit_output]"
proof -
  have "ss_height sample_deposit_summary = 5" by (simp add: sample_scan_defs)
  then show ?thesis
    using store_refines [OF sample_first_index, of "[sample_deposit_output]" sample_deposit_summary "sample_env True"] sample_second_ok [of "sample_env True"]
    by (auto simp: sample_sequences sample_inserted split: prod.splits sum.splits)
qed

section \<open>Paging\<close>

text \<open>C5. On a store that represents a list of events, a page that the query returns is an exact slice: the outputs that the filter
  admits after the cursor of the query are the outputs of the page followed by those after the cursor of the page, the same holds for the
  events without outputs, every output comes with the summary of its event, the cursor moves whenever more is announced and nothing
  remains when it is not, and the limits on outputs, events and bytes hold, the byte count being the exact sum of the record sizes.\<close>

theorem page_exact:
  assumes "scan_index env evs s" "GetPrivacyScanPageV2 env co ol el bl types s = Inr page" "cu_height (page_cursor co) < 2 ^ 63"
  defines "F \<equiv> normalizePrivacyEventTypes types"
  shows "remaining F (page_cursor co) evs = sp_outputs page @ remaining F (sp_next page) evs \<and>
    quiet_events F (page_cursor co) evs = filter (\<lambda>m. ss_output_count m = 0) (sp_summaries page) @ quiet_events F (sp_next page) evs \<and>
    (\<forall>out \<in> set (sp_outputs page). \<exists>m \<in> set (sp_summaries page). summary_key m = output_event out) \<and>
    (if sp_has_more page then cursor_key (page_cursor co) < cursor_key (sp_next page)
     else remaining F (sp_next page) evs = [] \<and> quiet_events F (sp_next page) evs = []) \<and>
    length (sp_outputs page) \<le> 512 \<and> length (sp_summaries page) \<le> 256 \<and> unat (sp_encoded page) = page_bytes page \<and> page_bytes page \<le> 4194304"
proof -
  define after where "after = page_cursor co"
  define es where "es = filter (\<lambda>e. cursor_event after \<le> event_key e) evs"
  obtain ol' el' bl' where limits: "normalizePrivacyScanLimits ol el bl = Inr (ol', el', bl')"
    and valid: "validatePrivacyScanCursor (Some after) = Inr ()"
    using assms(2) unfolding GetPrivacyScanPageV2_def Let_def page_cursor_def [symmetric] after_def [symmetric] by (auto simp del: split_paired_Ex)
  define r where "r = empty_page after ol' el' bl'"
  note lim = limits_ok [OF limits]
  have page: "eventPage after F ol' el' bl' es r = Inr page"
    using assms(2) page_run [OF assms(1) valid [unfolded after_def] limits assms(3), of types] by (simp add: after_def F_def es_def r_def)
  have inv: "page_inv env s after es r"
    using scan_indexD(2,3) [OF assms(1)] by (auto simp: page_inv_def r_def empty_page_def es_def sorted_wrt_filter)
  have new: "\<not> sp_has_more r" "moved after r" "page_small ol' el' bl' r" by (simp_all add: r_def empty_page_def moved_def page_small_def page_bytes_def)
  have r: "sp_next r = after" "sp_outputs r = []" "sp_summaries r = []" by (simp_all add: r_def empty_page_def)
  note adv = page_advances [OF page inv _ new(1)]
  obtain outs ms where slice: "sp_outputs page = sp_outputs r @ outs" "sp_summaries page = sp_summaries r @ ms"
    "remaining F (sp_next r) es = outs @ remaining F (sp_next page) es"
    "quiet_events F (sp_next r) es = filter (\<lambda>m. ss_output_count m = 0) ms @ quiet_events F (sp_next page) es"
    "\<forall>out \<in> set outs. \<exists>m \<in> set ms. summary_key m = output_event out" "cursor_key (sp_next r) \<le> cursor_key (sp_next page)"
    using adv lim advancesE by blast
  note all = before_filter [OF assms(1), of after, folded es_def]
  have le: "cursor_key after \<le> cursor_key (sp_next page)" using slice(6) by (simp add: r)
  have same: "after = page_cursor co" by (rule after_def)
  have "remaining F (page_cursor co) evs = sp_outputs page @ remaining F (sp_next page) evs"
    "quiet_events F (page_cursor co) evs = filter (\<lambda>m. ss_output_count m = 0) (sp_summaries page) @ quiet_events F (sp_next page) evs"
    "\<forall>out \<in> set (sp_outputs page). \<exists>m \<in> set (sp_summaries page). summary_key m = output_event out"
    using slice all [OF le] all [of after] by (simp_all add: r flip: same)
  moreover have "if sp_has_more page then cursor_key (page_cursor co) < cursor_key (sp_next page)
      else remaining F (sp_next page) evs = [] \<and> quiet_events F (sp_next page) evs = []"
    using page_moves [OF page inv _ _ new(1,2)] adv lim all [OF le] same by simp
  moreover have "page_small ol' el' bl' page" using page_within [OF page inv new(3)] lim by simp
  then have "length (sp_outputs page) \<le> 512" "length (sp_summaries page) \<le> 256" "unat (sp_encoded page) = page_bytes page" "page_bytes page \<le> 4194304"
    using lim by (auto simp: page_small_def word_le_nat_alt)
  ultimately show ?thesis by blast
qed

text \<open>A page over the two events of the sample, computed on the events.\<close>

lemma pageOutputs_one:
  "word_of_nat (length (sp_outputs r)) \<noteq> ol \<Longrightarrow> \<not> sp_encoded r + word_of_nat (PrivacyScanOutputV2_Size out) > bl \<Longrightarrow>
   pageOutputs ol bl [out] r = Inr (r\<lparr>sp_outputs := sp_outputs r @ [out], sp_encoded := sp_encoded r + word_of_nat (PrivacyScanOutputV2_Size out),
     sp_next := scanOutputCursor out\<rparr>, False)"
  by (simp add: Let_def)

definition sample_page :: scan_page where
  "sample_page = \<lparr>sp_summaries = [sample_withdrawal, sample_deposit_summary], sp_outputs = [sample_deposit_output],
     sp_next = \<lparr>cu_height = 5, cu_sequence = 2, cu_output = 0\<rparr>, sp_has_more = False, sp_output_limit = 128, sp_event_limit = 64,
     sp_max_bytes = 1048576, sp_scanned = 2, sp_encoded = 681, sp_schema = PrivacyScanSchemaVersionV2\<rparr>"

lemma sample_page_run: "GetPrivacyScanPageV2 (sample_env True) None 0 0 0 [] sample_index = Inr sample_page"
proof -
  have limits: "normalizePrivacyScanLimits 0 0 0 = Inr (128, 64, 1048576)"
    by (simp add: normalizePrivacyScanLimits_def DefaultPrivacyScanOutputLimit_def DefaultPrivacyScanEventLimit_def DefaultPrivacyScanByteLimit_def
        MaxPrivacyScanOutputLimit_def MaxPrivacyScanEventLimit_def MaxPrivacyScanByteLimit_def)
  have run: "GetPrivacyScanPageV2 (sample_env True) None 0 0 0 [] sample_index =
      eventPage (page_cursor None) {} 128 64 1048576 (filter (\<lambda>e. cursor_event (page_cursor None) \<le> event_key e) sample_events) (empty_page (page_cursor None) 128 64 1048576)"
    using page_run [OF sample_scan_index, of None 0 0 0 128 64 1048576 "sample_env True" "[]"] limits
    by (simp add: page_cursor_def validatePrivacyScanCursor_def normalizePrivacyEventTypes_def)
  have shape: "ss_height sample_withdrawal = 3" "ss_height sample_deposit_summary = 5" "ss_output_count sample_withdrawal = 0"
    "ss_output_count sample_deposit_summary = 1" "so_height sample_deposit_output = 5" "so_sequence sample_deposit_output = 2" "so_index sample_deposit_output = 0"
    by (simp_all add: sample_scan_defs)
  show ?thesis unfolding run
    by (simp add: sample_events_def page_cursor_def cursor_event_def event_key_def summary_key_def shape sample_sequences less_eq_prod_def empty_page_def
        privacyEventTypeAllowed_def sample_scan_sizes Let_def sample_page_def scanOutputCursor_def)
qed

theorem page_exact_witness:
  "remaining {} (page_cursor None) sample_events = [sample_deposit_output] \<and> quiet_events {} (page_cursor None) sample_events = [sample_withdrawal] \<and>
   remaining {} (sp_next sample_page) sample_events = [] \<and> page_bytes sample_page = 681"
proof -
  have "normalizePrivacyEventTypes [] = {}" by (simp add: normalizePrivacyEventTypes_def)
  moreover have "ss_output_count sample_withdrawal = 0" "ss_output_count sample_deposit_summary = 1" by (simp_all add: sample_scan_defs)
  ultimately show ?thesis
    using page_exact [OF sample_scan_index sample_page_run] by (simp add: sample_page_def page_cursor_def)
qed

text \<open>C38. A page can be refused for its size although no record exceeds the limit: when a summary of an event without outputs precedes an
  event whose summary still fits but whose first output does not, the query reports that a record exceeds the byte budget. The same
  client reaches both events with the same byte limit when it asks for one event first, so the refusal is not about a record.\<close>

theorem budget_refusal:
  assumes "scan_index env [(w, []), (m, [out])] s"
    and "PrivacyScanSummaryV2_Size w + PrivacyScanSummaryV2_Size m \<le> b" "PrivacyScanSummaryV2_Size m + PrivacyScanOutputV2_Size out \<le> b"
    and "b < PrivacyScanSummaryV2_Size w + PrivacyScanSummaryV2_Size m + PrivacyScanOutputV2_Size out" "b \<le> 4194304"
  shows "GetPrivacyScanPageV2 env None 0 0 (word_of_nat b) [] s = Inl errPrivacyScanRecordExceedsBudget \<and>
    (\<exists>p q. GetPrivacyScanPageV2 env None 0 1 (word_of_nat b) [] s = Inr p \<and> sp_summaries p = [w] \<and> sp_has_more p \<and>
       GetPrivacyScanPageV2 env (Some (sp_next p)) 0 0 (word_of_nat b) [] s = Inr q \<and> sp_outputs q = [out] \<and> \<not> sp_has_more q)"
proof -
  let ?b = "word_of_nat b :: u64" and ?w = "PrivacyScanSummaryV2_Size w" and ?m = "PrivacyScanSummaryV2_Size m" and ?o = "PrivacyScanOutputV2_Size out"
  let ?zero = "\<lparr>cu_height = 0, cu_sequence = 0, cu_output = 0\<rparr>" and ?cw = "\<lparr>cu_height = ss_height w, cu_sequence = ss_sequence w, cu_output = 0\<rparr>"
  note okw = scan_indexD(2) [OF assms(1), of "(w, [])", simplified] and okm = scan_indexD(2) [OF assms(1), of "(m, [out])", simplified]
  have w: "0 \<le> ss_height w" "ss_height w < 2 ^ 63" "ss_sequence w \<noteq> 0" "ss_output_count w = 0" using event_okD [OF okw] by (simp_all add: unat_eq_0)
  have m: "0 \<le> ss_height m" "ss_sequence m \<noteq> 0" "ss_output_count m = 1"
    using event_okD [OF okm] by (simp_all add: word_unat_eq_iff)
  have lt: "summary_key w < summary_key m" using scan_indexD(3) [OF assms(1)] by (simp add: event_key_def)
  have order: "\<not> (ss_height m < ss_height w \<or> ss_height m = ss_height w \<and> ss_sequence m < ss_sequence w)" "\<not> (ss_height m = ss_height w \<and> ss_sequence m = ss_sequence w)"
    using lt by (auto simp: summary_key_def less_prod_def)
  have pos: "0 < ?m" using m(2) by (simp add: PrivacyScanSummaryV2_Size_def szNum_def)
  have nz: "?b \<noteq> 0" using assms(3,5) pos u64_of_nat_inj [of b 0] by simp
  have max: "\<not> ?b > MaxPrivacyScanByteLimit" using assms(5) u64_less [of 4194304 b] by (simp add: MaxPrivacyScanByteLimit_def)
  have limits: "normalizePrivacyScanLimits 0 0 ?b = Inr (128, 64, ?b)" "normalizePrivacyScanLimits 0 1 ?b = Inr (128, 1, ?b)"
    using nz max by (simp_all add: normalizePrivacyScanLimits_def DefaultPrivacyScanOutputLimit_def DefaultPrivacyScanEventLimit_def
        MaxPrivacyScanOutputLimit_def MaxPrivacyScanEventLimit_def)
  have run: "GetPrivacyScanPageV2 env co 0 el ?b [] s =
      eventPage (page_cursor co) {} 128 el' ?b (filter (\<lambda>e. cursor_event (page_cursor co) \<le> event_key e) [(w, []), (m, [out])]) (empty_page (page_cursor co) 128 el' ?b)"
    if "normalizePrivacyScanLimits 0 el ?b = Inr (128, el', ?b)" "page_cursor co = ?zero \<or> page_cursor co = ?cw" for co el el'
  proof -
    have cursor: "validatePrivacyScanCursor (Some (page_cursor co)) = Inr ()" "cu_height (page_cursor co) < 2 ^ 63"
      using that(2) w(1-3) by (elim disjE; simp add: validatePrivacyScanCursor_def)+
    have "normalizePrivacyEventTypes [] = {}" by (simp add: normalizePrivacyEventTypes_def)
    then show ?thesis using page_run [OF assms(1) cursor(1) that(1) cursor(2), of "[]"] by (simp only:)
  qed
  have words: "?b < word_of_nat x \<longleftrightarrow> b < x" if "x \<le> b + 1048576" for x using u64_less [of b x] that assms(5) by simp
  have o: "?o \<le> 1048576" using okm by (simp add: event_ok_def MaxPrivacyScanStateRecordSize_def)
  have fits: "\<not> ?b < word_of_nat ?w" "\<not> ?b < word_of_nat ?m" "\<not> ?b < word_of_nat ?w + word_of_nat ?m" "\<not> ?b < word_of_nat ?m + word_of_nat ?o"
    "?b < word_of_nat ?w + word_of_nat ?m + word_of_nat ?o"
    using words [of ?w] words [of ?m] words [of "?w + ?m"] words [of "?m + ?o"] words [of "?w + ?m + ?o"] assms(2-4) o by simp_all
  have keep: "cursor_event ?zero \<le> event_key (w, [])" "cursor_event ?zero \<le> event_key (m, [out])"
    "cursor_event ?cw \<le> event_key (w, [])" "cursor_event ?cw \<le> event_key (m, [out])"
    using w m lt by (auto simp: cursor_event_def event_key_def summary_key_def less_eq_prod_def less_prod_def)
  define page where "page = (empty_page ?zero 128 1 ?b)\<lparr>sp_scanned := 1, sp_summaries := [w], sp_encoded := word_of_nat ?w, sp_next := ?cw, sp_has_more := True\<rparr>"
  have "GetPrivacyScanPageV2 env None 0 0 ?b [] s = Inl errPrivacyScanRecordExceedsBudget"
    using run [OF limits(1), of None] w m fits order by (simp add: page_cursor_def keep empty_page_def privacyEventTypeAllowed_def Let_def)
  moreover have "GetPrivacyScanPageV2 env None 0 1 ?b [] s = Inr page"
    using run [OF limits(2), of None] w m fits order by (simp add: page_cursor_def keep empty_page_def privacyEventTypeAllowed_def Let_def page_def)
  moreover have "\<exists>q. GetPrivacyScanPageV2 env (Some ?cw) 0 0 ?b [] s = Inr q \<and> sp_outputs q = [out] \<and> \<not> sp_has_more q"
    using run [OF limits(1), of "Some ?cw"] w m fits order by (simp add: page_cursor_def keep empty_page_def privacyEventTypeAllowed_def Let_def)
  ultimately show ?thesis by (auto simp: page_def)
qed

theorem budget_refusal_witness:
  "GetPrivacyScanPageV2 (sample_env True) None 0 0 600 [] sample_index = Inl errPrivacyScanRecordExceedsBudget"
  using budget_refusal [of "sample_env True" sample_withdrawal sample_deposit_summary sample_deposit_output sample_index 600] sample_scan_index [of "sample_env True"]
  by (simp add: sample_events_def sample_scan_sizes)

end
