(* ===== verification/Event_Records.thy ===== *)
theory Event_Records
  imports Tx_Wire
begin

text \<open>
  The record of the event index and its codec (\<^verbatim>\<open>QueryPrivacyEvent\<close> and \<^verbatim>\<open>QueryPrivacyEventAttribute\<close> of \<^verbatim>\<open>x/privacy/types/query.pb.go\<close>) and its form in a
  genesis (\<^verbatim>\<open>PrivacyEventRecordV1\<close> of \<^verbatim>\<open>genesis.pb.go\<close>). Marshalling an event with a nil attribute dereferences it and panics, which is \<open>None\<close>.
\<close>

record event_attr =
  ea_key :: string
  ea_value :: string

record privacy_event =
  pe_sequence :: u64
  pe_height :: int
  pe_tx_hash_hex :: string
  pe_event :: string
  pe_attributes :: "event_attr option list"

record event_record =
  er_sequence :: u64
  er_height :: int
  er_tx_hash :: bytes
  er_event :: string
  er_attributes :: "event_attr option list"

definition empty_attr :: event_attr where "empty_attr = \<lparr>ea_key = [], ea_value = []\<rparr>"

definition empty_event :: privacy_event where
  "empty_event = \<lparr>pe_sequence = 0, pe_height = 0, pe_tx_hash_hex = [], pe_event = [], pe_attributes = []\<rparr>"

definition QueryPrivacyEventAttribute_Size :: "event_attr \<Rightarrow> nat" where
  "QueryPrivacyEventAttribute_Size m = szBytes (length (ea_key m)) + szBytes (length (ea_value m))"

definition QueryPrivacyEvent_Size :: "privacy_event \<Rightarrow> nat" where
  "QueryPrivacyEvent_Size m =
     szNum (pe_sequence m) + szNum (word_of_int (pe_height m)) + szBytes (length (pe_tx_hash_hex m)) + szBytes (length (pe_event m)) +
     sum_list (map (\<lambda>a. szMsg (QueryPrivacyEventAttribute_Size (the a))) (pe_attributes m))"

definition attr_fields :: "event_attr \<Rightarrow> (nat \<times> wire_value) list" where
  "attr_fields m = bytesField 1 (string_bytes (ea_key m)) @ bytesField 2 (string_bytes (ea_value m))"

definition QueryPrivacyEventAttribute_Marshal :: "event_attr \<Rightarrow> bytes" where
  "QueryPrivacyEventAttribute_Marshal m = marshalFields (attr_fields m)"

definition event_fields :: "privacy_event \<Rightarrow> (nat \<times> wire_value) list" where
  "event_fields m =
     numField 1 (pe_sequence m) @ numField 2 (word_of_int (pe_height m)) @ bytesField 3 (string_bytes (pe_tx_hash_hex m)) @
     bytesField 4 (string_bytes (pe_event m)) @ repeatedField 5 (map (QueryPrivacyEventAttribute_Marshal \<circ> the) (pe_attributes m))"

definition QueryPrivacyEvent_Marshal :: "privacy_event \<Rightarrow> bytes option" where
  "QueryPrivacyEvent_Marshal m = (if None \<in> set (pe_attributes m) then None else Some (marshalFields (event_fields m)))"

definition attr_table :: "nat \<Rightarrow> event_attr handler option" where
  "attr_table = map_of [(1, setString ea_key_update), (2, setString ea_value_update)]"

definition event_table :: "nat \<Rightarrow> privacy_event handler option" where
  "event_table = map_of
     [(1, setNum id pe_sequence_update), (2, setNum sint pe_height_update), (3, setString pe_tx_hash_hex_update), (4, setString pe_event_update),
      (5, addMsg attr_table empty_attr pe_attributes_update)]"

definition QueryPrivacyEventAttribute_Unmarshal :: "bytes \<Rightarrow> event_attr res" where
  "QueryPrivacyEventAttribute_Unmarshal bs = unmarshalFields attr_table empty_attr bs"

definition QueryPrivacyEvent_Unmarshal :: "bytes \<Rightarrow> privacy_event res" where
  "QueryPrivacyEvent_Unmarshal bs = unmarshalFields event_table empty_event bs"

section \<open>The codec\<close>

lemma attr_lookup: "attr_table 1 = Some (setString ea_key_update)" "attr_table 2 = Some (setString ea_value_update)"
  by (simp_all add: attr_table_def)

lemma event_lookup:
  "event_table 1 = Some (setNum id pe_sequence_update)" "event_table 2 = Some (setNum sint pe_height_update)"
  "event_table 3 = Some (setString pe_tx_hash_hex_update)" "event_table 4 = Some (setString pe_event_update)"
  "event_table 5 = Some (addMsg attr_table empty_attr pe_attributes_update)"
  by (simp_all add: event_table_def)

lemma attr_applied: "applyFields attr_table (attr_fields m @ []) empty_attr = Inr m"
  unfolding attr_fields_def append_assoc
  by (simp add: apply_setString [of attr_table 1 ea_key_update] apply_setString [of attr_table 2 ea_value_update] attr_lookup empty_attr_def
      del: append_Nil2 One_nat_def)

lemma attr_size: "length (QueryPrivacyEventAttribute_Marshal m) = QueryPrivacyEventAttribute_Size m"
  by (simp add: QueryPrivacyEventAttribute_Marshal_def QueryPrivacyEventAttribute_Size_def attr_fields_def codec_simps)

lemma attr_back:
  assumes "QueryPrivacyEventAttribute_Size m < 2 ^ 63"
  shows "unmarshalFields attr_table empty_attr (QueryPrivacyEventAttribute_Marshal m) = Inr m"
  unfolding QueryPrivacyEventAttribute_Marshal_def
  by (rule unmarshal_marshal) (use attr_applied assms attr_size [of m] in \<open>simp_all add: QueryPrivacyEventAttribute_Marshal_def attr_fields_def codec_simps\<close>)

lemma event_size: "QueryPrivacyEvent_Marshal m = Some bs \<Longrightarrow> length bs = QueryPrivacyEvent_Size m"
  by (auto simp: QueryPrivacyEvent_Marshal_def QueryPrivacyEvent_Size_def event_fields_def codec_simps attr_size comp_def split: if_splits)

lemma member_part: "a \<in> set xs \<Longrightarrow> f a < sum_list (map (\<lambda>x. szMsg (f x)) xs)"
  by (induction xs) (auto simp: szMsg_def intro: less_le_trans)

lemma event_applied:
  assumes "int64 (pe_height m)" "QueryPrivacyEvent_Size m < 2 ^ 63" "None \<notin> set (pe_attributes m)"
  shows "applyFields event_table (event_fields m @ []) empty_event = Inr m"
proof -
  obtain as where as: "pe_attributes m = map Some as" using assms(3) by (metis ex_map_conv option.exhaust)
  have "unmarshalFields attr_table empty_attr (QueryPrivacyEventAttribute_Marshal a) = Inr a" if "a \<in> set as" for a
    using member_part [of "Some a" "pe_attributes m" "\<lambda>a. QueryPrivacyEventAttribute_Size (the a)"] that assms(2)
    by (intro attr_back) (simp add: QueryPrivacyEvent_Size_def as)
  then show ?thesis using assms(1) unfolding event_fields_def append_assoc
    by (simp add: apply_setNum [of event_table 1 id pe_sequence_update] apply_setNum [of event_table 2 sint pe_height_update]
        apply_setString [of event_table 3 pe_tx_hash_hex_update] apply_setString [of event_table 4 pe_event_update]
        apply_addMsg [of event_table 5 attr_table empty_attr pe_attributes_update as] event_lookup empty_event_def int64_def height_back as comp_def
        del: append_Nil2 One_nat_def)
qed

lemma event_back:
  assumes "int64 (pe_height m)" "QueryPrivacyEvent_Size m < 2 ^ 63" "QueryPrivacyEvent_Marshal m = Some bs"
  shows "QueryPrivacyEvent_Unmarshal bs = Inr m"
proof -
  have none: "None \<notin> set (pe_attributes m)" and bs: "bs = marshalFields (event_fields m)"
    using assms(3) by (simp_all add: QueryPrivacyEvent_Marshal_def split: if_splits)
  show ?thesis unfolding QueryPrivacyEvent_Unmarshal_def bs
    by (rule unmarshal_marshal) (use event_applied [OF assms(1,2) none] event_size [OF assms(3)] assms(2) bs in \<open>simp_all add: event_fields_def codec_simps\<close>)
qed

end
