(* ===== verification/Event_Index.thy ===== *)
theory Event_Index
  imports Event_Records Scan_Query Path_Snapshot Amount128
begin

text \<open>
  The event index of the module (\<^verbatim>\<open>x/privacy/keeper/event_index.go\<close>) with the parts of \<^verbatim>\<open>privacy_scan.go\<close> that read and write it: the typed scan records
  built from the attributes of an event, the indexing of an event, the two event queries and the genesis export and import. A query that
  meets a corrupt record panics in \<^verbatim>\<open>MustUnmarshal\<close>; its value is then \<open>None\<close>.
\<close>

section \<open>Attributes\<close>

definition AttributeKeyCommitment :: string where "AttributeKeyCommitment = ''commitment''"
definition AttributeKeyNullifier :: string where "AttributeKeyNullifier = ''nullifier''"
definition AttributeKeyEncryptedNote :: string where "AttributeKeyEncryptedNote = ''encrypted_note''"
definition AttributeKeyNullifier1 :: string where "AttributeKeyNullifier1 = ''nullifier_1''"
definition AttributeKeyNullifier2 :: string where "AttributeKeyNullifier2 = ''nullifier_2''"
definition AttributeKeyCommitment1 :: string where "AttributeKeyCommitment1 = ''commitment_1''"
definition AttributeKeyCommitment2 :: string where "AttributeKeyCommitment2 = ''commitment_2''"
definition AttributeKeyCipherText1 :: string where "AttributeKeyCipherText1 = ''cipher_text_1''"
definition AttributeKeyCipherText2 :: string where "AttributeKeyCipherText2 = ''cipher_text_2''"
definition AttributeKeyViewTag1 :: string where "AttributeKeyViewTag1 = ''view_tag_1''"
definition AttributeKeyViewTag2 :: string where "AttributeKeyViewTag2 = ''view_tag_2''"
definition AttributeKeyUserPrivacyPolicy :: string where "AttributeKeyUserPrivacyPolicy = ''user_privacy_policy''"
definition AttributeKeyUserDisclosureDigest :: string where "AttributeKeyUserDisclosureDigest = ''user_disclosure_digest''"
definition AttributeKeyUserDisclosureMode :: string where "AttributeKeyUserDisclosureMode = ''user_disclosure_mode''"
definition AttributeKeyUserDisclosureTargetPubKey :: string where "AttributeKeyUserDisclosureTargetPubKey = ''user_disclosure_target_pubkey''"
definition AttributeKeyUserDisclosurePayload :: string where "AttributeKeyUserDisclosurePayload = ''user_disclosure_payload''"
definition AttributeKeyAuditDisclosureDigest :: string where "AttributeKeyAuditDisclosureDigest = ''audit_disclosure_digest''"
definition AttributeKeyAuditDisclosureTargetPubKey :: string where "AttributeKeyAuditDisclosureTargetPubKey = ''audit_disclosure_target_pubkey''"
definition AttributeKeyAuditDisclosurePayload :: string where "AttributeKeyAuditDisclosurePayload = ''audit_disclosure_payload''"
definition AttributeKeySelfViewDisclosurePayload :: string where "AttributeKeySelfViewDisclosurePayload = ''self_view_disclosure_payload''"

text \<open>\<^verbatim>\<open>strings.Trim(v, "\"")\<close>, and \<^verbatim>\<open>strings.ToUpper\<close> on ASCII text: it is only applied to hexadecimal digits.\<close>

definition trimQuotes :: "string \<Rightarrow> string" where
  "trimQuotes v = rev (dropWhile (\<lambda>c. c = CHR 0x22) (rev (dropWhile (\<lambda>c. c = CHR 0x22) v)))"

definition ToUpper :: "string \<Rightarrow> string" where
  "ToUpper s = map (\<lambda>c. let n = of_char c :: nat in if 97 \<le> n \<and> n \<le> 122 then char_of (n - 32) else c) s"

text \<open>A map of attributes; a missing key reads as the empty string and a later attribute replaces an earlier one.\<close>

definition attributeMap :: "(string \<times> string) list \<Rightarrow> string \<Rightarrow> string" where
  "attributeMap attrs = foldl (\<lambda>m (k, v). m(k := trimQuotes v)) (\<lambda>_. []) attrs"

definition privacyEventAttributesMap :: "event_attr option list \<Rightarrow> string \<Rightarrow> string" where
  "privacyEventAttributesMap attrs = foldl (\<lambda>m a. case a of None \<Rightarrow> m | Some a \<Rightarrow> m(ea_key a := trimQuotes (ea_value a))) (\<lambda>_. []) attrs"

definition decodeOptionalHexAttribute :: "(string \<Rightarrow> string) \<Rightarrow> string \<Rightarrow> bytes res" where
  "decodeOptionalHexAttribute attrs key =
     (let v = TrimSpace (attrs key) in
      if v = [] then Inr []
      else case hexDecode v of None \<Rightarrow> Inl (Errorf ''privacy event attribute must be hex'') | Some decoded \<Rightarrow> Inr decoded)"

definition decodeRequiredHexAttribute :: "(string \<Rightarrow> string) \<Rightarrow> string \<Rightarrow> bytes res" where
  "decodeRequiredHexAttribute attrs key =
     bindE (decodeOptionalHexAttribute attrs key) (\<lambda>decoded.
     bindE (guardE (length decoded \<noteq> 0) (Errorf ''privacy event attribute is required'')) (\<lambda>_. Inr decoded))"

text \<open>\<^verbatim>\<open>strconv.ParseUint(v, 10, 32)\<close>: decimal digits only, at least one, value below \<open>2 ^ 32\<close>.\<close>

definition parseOptionalUint32Attribute :: "(string \<Rightarrow> string) \<Rightarrow> string \<Rightarrow> u32 res" where
  "parseOptionalUint32Attribute attrs key =
     (let v = TrimSpace (attrs key) in
      if v = [] then Inr 0
      else if list_all is_digit v \<and> dec_val v < 2 ^ 32 then Inr (word_of_nat (dec_val v))
      else Inl (Errorf ''privacy event attribute must be uint32''))"

section \<open>Typed records of an event\<close>

definition newScanOutput :: "u64 \<Rightarrow> int \<Rightarrow> bytes \<Rightarrow> string \<Rightarrow> store \<Rightarrow> u32 \<Rightarrow> bytes \<Rightarrow> scan_output res" where
  "newScanOutput sequence height txHash eventType s index commitment =
     bindE (validateFieldElementBytesStrict commitment) (\<lambda>canonicalCommitment.
     bindE (GetCommitmentIndex canonicalCommitment s) (\<lambda>leafIndex.
     case leafIndex of
       None \<Rightarrow> Inl (Errorf ''privacy scan commitment is missing from commitment index'')
     | Some leaf \<Rightarrow> Inr (empty_output\<lparr>so_sequence := sequence, so_height := height, so_index := index, so_commitment := canonicalCommitment,
         so_leaf_index := leaf, so_leaf_found := True, so_circuit_set := ActiveCircuitSetID, so_payload_version := FixedPayloadVersionV1,
         so_schema_version := PrivacyScanSchemaVersionV2, so_tx_hash := txHash, so_event := eventType\<rparr>)))"

definition legacyTransferOutput :: "(string \<Rightarrow> string) \<Rightarrow> (u32 \<Rightarrow> bytes \<Rightarrow> scan_output res) \<Rightarrow> u32 \<times> string \<times> string \<times> string \<Rightarrow> scan_output res" where
  "legacyTransferOutput attrs newOutput = (\<lambda>(i, commitmentKey, ciphertextKey, viewTagKey).
     bindE (decodeRequiredHexAttribute attrs commitmentKey) (\<lambda>commitment.
     bindE (newOutput i commitment) (\<lambda>out.
     bindE (decodeOptionalHexAttribute attrs ciphertextKey) (\<lambda>ciphertext.
     bindE (decodeOptionalHexAttribute attrs viewTagKey) (\<lambda>viewTag.
     Inr (out\<lparr>so_ciphertext := ciphertext, so_view_tag := viewTag\<rparr>))))))"

definition legacyDisclosure :: "(string \<Rightarrow> string) \<Rightarrow> scan_output \<Rightarrow> scan_output res" where
  "legacyDisclosure attrs out =
     bindE (parseOptionalUint32Attribute attrs AttributeKeyUserPrivacyPolicy) (\<lambda>policy.
     bindE (decodeOptionalHexAttribute attrs AttributeKeyUserDisclosureDigest) (\<lambda>userDigest.
     bindE (decodeOptionalHexAttribute attrs AttributeKeyUserDisclosureTargetPubKey) (\<lambda>userTarget.
     bindE (decodeOptionalHexAttribute attrs AttributeKeyUserDisclosurePayload) (\<lambda>userPayload.
     bindE (decodeOptionalHexAttribute attrs AttributeKeyAuditDisclosureDigest) (\<lambda>fullDigest.
     bindE (decodeOptionalHexAttribute attrs AttributeKeyAuditDisclosurePayload) (\<lambda>auditPayload.
     bindE (decodeOptionalHexAttribute attrs AttributeKeySelfViewDisclosurePayload) (\<lambda>selfView.
     Inr (out\<lparr>so_policy := policy, so_mode := attrs AttributeKeyUserDisclosureMode, so_user_digest := userDigest, so_user_target := userTarget,
       so_user_payload := userPayload, so_full_digest := fullDigest, so_audit_payload := auditPayload, so_self_view := selfView\<rparr>))))))))"

definition legacyNullifier :: "(string \<Rightarrow> string) \<Rightarrow> string \<Rightarrow> bytes res" where
  "legacyNullifier attrs key = bindE (decodeRequiredHexAttribute attrs key) validateFieldElementBytesStrict"

definition buildLegacyPrivacyScanV2 ::
  "u64 \<Rightarrow> int \<Rightarrow> string \<Rightarrow> string \<Rightarrow> (string \<times> string) list \<Rightarrow> store \<Rightarrow> (scan_summary \<times> scan_output list) res" where
  "buildLegacyPrivacyScanV2 sequence height txHashHex eventType attrs s =
     (let attrMap = attributeMap attrs in
      bindE (decodeOptionalHexAttribute (\<lambda>_. txHashHex) ''tx_hash'') (\<lambda>txHash.
      let summary = empty_summary\<lparr>ss_sequence := sequence, ss_height := height, ss_tx_hash := txHash, ss_event := eventType,
            ss_circuit_set := ActiveCircuitSetID, ss_payload_version := FixedPayloadVersionV1, ss_schema_version := PrivacyScanSchemaVersionV2\<rparr>;
          newOutput = newScanOutput sequence height txHash eventType s
      in
      if eventType = EventTypeDeposit then
        bindE (decodeRequiredHexAttribute attrMap AttributeKeyCommitment) (\<lambda>commitment.
        bindE (newOutput 0 commitment) (\<lambda>out.
        bindE (decodeOptionalHexAttribute attrMap AttributeKeyEncryptedNote) (\<lambda>encryptedNote.
        Inr (summary\<lparr>ss_output_count := 1\<rparr>, [out\<lparr>so_encrypted_note := encryptedNote\<rparr>]))))
      else if eventType = EventTypeShieldedTransfer then
        bindE (traverseE (legacyTransferOutput attrMap newOutput)
          [(0, AttributeKeyCommitment1, AttributeKeyCipherText1, AttributeKeyViewTag1), (1, AttributeKeyCommitment2, AttributeKeyCipherText2, AttributeKeyViewTag2)]) (\<lambda>outs.
        bindE (traverseE (legacyNullifier attrMap) [AttributeKeyNullifier1, AttributeKeyNullifier2]) (\<lambda>nullifiers.
        bindE (legacyDisclosure attrMap (outs ! 0)) (\<lambda>first.
        bindE (decodeOptionalHexAttribute attrMap AttributeKeyAuditDisclosureTargetPubKey) (\<lambda>target.
        Inr (summary\<lparr>ss_nullifiers := nullifiers, ss_target := target, ss_output_count := 2\<rparr>,
          map (\<lambda>out. out\<lparr>so_target := target\<rparr>) [first, outs ! 1])))))
      else if eventType = EventTypeWithdraw then
        bindE (legacyNullifier attrMap AttributeKeyNullifier) (\<lambda>nullifier. Inr (summary\<lparr>ss_nullifiers := [nullifier]\<rparr>, []))
      else Inl (Errorf ''unsupported privacy scan event type'')))"

section \<open>Indexing an event\<close>

definition GetPrivacyEventPrefix :: bytes where "GetPrivacyEventPrefix = [KeyPrefixPrivacyEvent]"

definition GetPrivacyEventStartKey :: "int \<Rightarrow> bytes" where
  "GetPrivacyEventStartKey height = GetPrivacyEventKey (if height < 0 then 0 else height) 0"

definition txHashHexFromContext :: "exec_ctx \<Rightarrow> string" where
  "txHashHexFromContext ctx = (if length (tx_bytes ctx) = 0 then [] else hex_of_bytes (tx_hash ctx))"

definition eventOf :: "u64 \<Rightarrow> int \<Rightarrow> string \<Rightarrow> string \<Rightarrow> (string \<times> string) list \<Rightarrow> privacy_event" where
  "eventOf sequence height txHashHex eventType attrs =
     \<lparr>pe_sequence = sequence, pe_height = height, pe_tx_hash_hex = ToUpper (TrimSpace txHashHex), pe_event = eventType,
      pe_attributes = map (\<lambda>(k, v). Some \<lparr>ea_key = k, ea_value = v\<rparr>) attrs\<rparr>"

definition indexPrivacyEvent ::
  "'a keeper_env_scheme \<Rightarrow> audit_runtime option \<Rightarrow> exec_ctx \<Rightarrow> string \<Rightarrow> string \<Rightarrow> (string \<times> string) list \<Rightarrow> (store, unit) action" where
  "indexPrivacyEvent env rt ctx eventType txHashHex attrs =
     bindM (AllocatePrivacyGlobalSequence rt ctx) (\<lambda>sequence.
     bindM (readM (\<lambda>s. mapErr (\<lambda>_. Errorf ''build typed privacy scan index'')
       (buildLegacyPrivacyScanV2 sequence (block_height ctx) txHashHex eventType attrs s))) (\<lambda>(scanSummary, scanOutputs).
     bindM (StorePrivacyScanV2 env rt ctx (Some scanSummary) (map Some scanOutputs)) (\<lambda>_.
     bindM (RecordCurrentMerkleRootSnapshotV1 env (block_height ctx)) (\<lambda>_.
     writeM (kv_set (GetPrivacyEventKey (block_height ctx) sequence)
       (the (QueryPrivacyEvent_Marshal (eventOf sequence (block_height ctx) txHashHex eventType attrs))))))))"

definition emitIndexedPrivacyEvent ::
  "'a keeper_env_scheme \<Rightarrow> audit_runtime option \<Rightarrow> exec_ctx \<Rightarrow> string \<Rightarrow> (string \<times> string) list \<Rightarrow> ('b chain, unit) action" where
  "emitIndexedPrivacyEvent env rt ctx eventType attrs =
     bindM (emitEvent (eventType, attrs)) (\<lambda>_. onStore (indexPrivacyEvent env rt ctx eventType (txHashHexFromContext ctx) attrs))"

section \<open>The event queries\<close>

definition defaultScanEventsLimit :: u64 where "defaultScanEventsLimit = 500"
definition maxScanEventsLimit :: u64 where "maxScanEventsLimit = 1000"

fun eventsLoop :: "string set \<Rightarrow> u64 \<Rightarrow> (bytes \<times> bytes) list \<Rightarrow> u64 \<Rightarrow> privacy_event list \<Rightarrow> (privacy_event list \<times> bool) option" where
  "eventsLoop typeFilter limit [] skip events = Some (events, False)"
| "eventsLoop typeFilter limit ((k, v) # it) skip events =
     (case QueryPrivacyEvent_Unmarshal v of
        Inl _ \<Rightarrow> None
      | Inr event \<Rightarrow>
          if \<not> privacyEventTypeAllowed (pe_event event) typeFilter then eventsLoop typeFilter limit it skip events
          else if skip > 0 then eventsLoop typeFilter limit it (skip - 1) events
          else if word_of_nat (length events) = limit then Some (events, True)
          else eventsLoop typeFilter limit it skip (events @ [event]))"

text \<open>The sum \<^verbatim>\<open>afterHeight + 1\<close> is an \<^verbatim>\<open>int64\<close>, the product \<^verbatim>\<open>(page - 1) * limit\<close> an \<^verbatim>\<open>uint64\<close>; both wrap. The source reserves room for \<^verbatim>\<open>limit\<close>
  entries first, which panics for a limit beyond the address space; this is left out, as the query service, the only caller, caps the limit at 200.\<close>

definition GetPrivacyEvents :: "int \<Rightarrow> u64 \<Rightarrow> u64 \<Rightarrow> string list \<Rightarrow> store \<Rightarrow> (privacy_event list \<times> bool) option" where
  "GetPrivacyEvents afterHeight page limit eventTypes s =
     (let sum = sint (word_of_int (afterHeight + 1) :: u64);
          startHeight = (if sum < 0 then 0 else sum)
      in eventsLoop (normalizePrivacyEventTypes eventTypes) limit
           (kv_range (GetPrivacyEventStartKey startHeight) (PrefixEndBytes GetPrivacyEventPrefix) s) ((page - 1) * limit) [])"

record query_scan_output =
  qo_index :: u32
  qo_commitment :: string
  qo_note :: string
  qo_ciphertext :: string
  qo_view_tag :: string
  qo_leaf_found :: bool
  qo_leaf_index :: u64

record query_scan_event =
  qe_sequence :: u64
  qe_height :: int
  qe_tx_hash_hex :: string
  qe_event :: string
  qe_outputs :: "query_scan_output list"
  qe_nullifiers :: "string list"

definition projectScanOutput :: "u32 \<Rightarrow> string \<Rightarrow> string \<Rightarrow> string \<Rightarrow> string \<Rightarrow> store \<Rightarrow> query_scan_output res" where
  "projectScanOutput outputIndex commitmentHex encryptedNoteHex cipherTextHex viewTagHex s =
     (let out = \<lparr>qo_index = outputIndex, qo_commitment = commitmentHex, qo_note = encryptedNoteHex, qo_ciphertext = cipherTextHex, qo_view_tag = viewTagHex,
            qo_leaf_found = False, qo_leaf_index = 0\<rparr> in
      case hexDecode commitmentHex of
        None \<Rightarrow> Inr out
      | Some commitmentBytes \<Rightarrow>
          (case validateFieldElementBytesStrict commitmentBytes of
             Inl _ \<Rightarrow> Inr out
           | Inr canonicalCommitment \<Rightarrow>
               bindE (GetCommitmentIndex canonicalCommitment s) (\<lambda>leafIndex.
               Inr (out\<lparr>qo_leaf_found := (leafIndex \<noteq> None), qo_leaf_index := (case leafIndex of None \<Rightarrow> 0 | Some i \<Rightarrow> i)\<rparr>))))"

definition appendIfNotEmpty :: "string list \<Rightarrow> string \<Rightarrow> string list" where
  "appendIfNotEmpty values v = (if TrimSpace v = [] then values else values @ [v])"

definition projectScanEvent :: "privacy_event option \<Rightarrow> store \<Rightarrow> query_scan_event option res" where
  "projectScanEvent eo s =
     (case eo of
        None \<Rightarrow> Inr None
      | Some event \<Rightarrow>
          let attrs = privacyEventAttributesMap (pe_attributes event);
              scanEvent = \<lparr>qe_sequence = pe_sequence event, qe_height = pe_height event, qe_tx_hash_hex = pe_tx_hash_hex event, qe_event = pe_event event,
                qe_outputs = [], qe_nullifiers = []\<rparr>
          in
          if pe_event event = EventTypeDeposit then
            bindE (projectScanOutput 0 (attrs AttributeKeyCommitment) (attrs AttributeKeyEncryptedNote) [] [] s) (\<lambda>out.
            Inr (Some (scanEvent\<lparr>qe_outputs := [out]\<rparr>)))
          else if pe_event event = EventTypeShieldedTransfer then
            bindE (projectScanOutput 0 (attrs AttributeKeyCommitment1) [] (attrs AttributeKeyCipherText1) (attrs AttributeKeyViewTag1) s) (\<lambda>out1.
            bindE (projectScanOutput 1 (attrs AttributeKeyCommitment2) [] (attrs AttributeKeyCipherText2) (attrs AttributeKeyViewTag2) s) (\<lambda>out2.
            Inr (Some (scanEvent\<lparr>qe_outputs := [out1, out2],
              qe_nullifiers := appendIfNotEmpty (appendIfNotEmpty [] (attrs AttributeKeyNullifier1)) (attrs AttributeKeyNullifier2)\<rparr>))))
          else if pe_event event = EventTypeWithdraw then
            Inr (Some (scanEvent\<lparr>qe_nullifiers := appendIfNotEmpty [] (attrs AttributeKeyNullifier)\<rparr>))
          else Inr None)"

definition normalizeScanEventTypes :: "string list \<Rightarrow> string set" where
  "normalizeScanEventTypes eventTypes =
     (let normalized = normalizePrivacyEventTypes eventTypes in
      if normalized = {} then {EventTypeDeposit, EventTypeShieldedTransfer} else normalized)"

record scan_events_page =
  sv_events :: "query_scan_event list"
  sv_next_height :: int
  sv_next_sequence :: u64
  sv_has_more :: bool

fun scanEventsLoop ::
  "int \<Rightarrow> u64 \<Rightarrow> string set \<Rightarrow> u64 \<Rightarrow> store \<Rightarrow> (bytes \<times> bytes) list \<Rightarrow> u64 \<Rightarrow> scan_events_page \<Rightarrow> scan_events_page res option" where
  "scanEventsLoop afterHeight afterSequence typeFilter limit s [] visited page = Some (Inr page)"
| "scanEventsLoop afterHeight afterSequence typeFilter limit s ((k, v) # it) visited page =
     (case QueryPrivacyEvent_Unmarshal v of
        Inl _ \<Rightarrow> None
      | Inr event \<Rightarrow>
          if pe_height event < afterHeight \<or> (pe_height event = afterHeight \<and> pe_sequence event \<le> afterSequence)
          then scanEventsLoop afterHeight afterSequence typeFilter limit s it visited page
          else
            let visited1 = visited + 1; page1 = page\<lparr>sv_next_height := pe_height event, sv_next_sequence := pe_sequence event\<rparr> in
            (case (if privacyEventTypeAllowed (pe_event event) typeFilter then projectScanEvent (Some event) s else Inr None) of
               Inl err \<Rightarrow> Some (Inl err)
             | Inr scanEvent \<Rightarrow>
                 let page2 = (case scanEvent of None \<Rightarrow> page1 | Some e \<Rightarrow> page1\<lparr>sv_events := sv_events page1 @ [e]\<rparr>) in
                 if visited1 = limit then Some (Inr (page2\<lparr>sv_has_more := (it \<noteq> [])\<rparr>))
                 else scanEventsLoop afterHeight afterSequence typeFilter limit s it visited1 page2))"

definition GetScanEvents :: "int \<Rightarrow> u64 \<Rightarrow> u64 \<Rightarrow> string list \<Rightarrow> store \<Rightarrow> scan_events_page res option" where
  "GetScanEvents afterHeight afterSequence lim eventTypes s =
     (let limit0 = (if lim = 0 then defaultScanEventsLimit else lim);
          limit = (if limit0 > maxScanEventsLimit then maxScanEventsLimit else limit0);
          startHeight = (if afterHeight < 0 then 0 else afterHeight)
      in scanEventsLoop afterHeight afterSequence (normalizeScanEventTypes eventTypes) limit s
           (kv_range (GetPrivacyEventStartKey startHeight) (PrefixEndBytes GetPrivacyEventPrefix) s) 0
           \<lparr>sv_events = [], sv_next_height = afterHeight, sv_next_sequence = afterSequence, sv_has_more = False\<rparr>)"

section \<open>Genesis\<close>

definition exportEventRecord :: "bytes \<times> bytes \<Rightarrow> event_record option res" where
  "exportEventRecord = (\<lambda>(key, v).
     bindE (guardE (\<not> (length key \<noteq> 17 \<or> key ! 0 \<noteq> KeyPrefixPrivacyEvent)) (Errorf ''privacy event index key is malformed'')) (\<lambda>_.
     bindE (mapErr (\<lambda>_. Errorf ''privacy event index is corrupt'') (QueryPrivacyEvent_Unmarshal v)) (\<lambda>event.
     let keyHeight = un_be64 (drop 1 key) in
     bindE (guardE (\<not> (keyHeight > MaxInt64 \<or> pe_height event \<noteq> int (unat keyHeight) \<or> pe_sequence event \<noteq> un_be64 (drop 9 key)))
       (Errorf ''privacy event index key/body mismatch'')) (\<lambda>_.
     case hexDecode (pe_tx_hash_hex event) of
       None \<Rightarrow> Inl (Errorf ''privacy event tx hash is corrupt'')
     | Some txHash \<Rightarrow>
         bindE (guardE (None \<notin> set (pe_attributes event)) (Errorf ''privacy event contains nil attribute'')) (\<lambda>_.
         Inr (Some \<lparr>er_sequence = pe_sequence event, er_height = pe_height event, er_tx_hash = txHash, er_event = pe_event event,
           er_attributes = pe_attributes event\<rparr>))))))"

definition ExportGenesisPrivacyEventsV1 :: "store \<Rightarrow> event_record option list res" where
  "ExportGenesisPrivacyEventsV1 s =
     traverseE exportEventRecord (kv_range GetPrivacyEventPrefix (PrefixEndBytes GetPrivacyEventPrefix) s)"

definition queryEventOf :: "event_record \<Rightarrow> privacy_event" where
  "queryEventOf event = \<lparr>pe_sequence = er_sequence event, pe_height = er_height event, pe_tx_hash_hex = ToUpper (hex_of_bytes (er_tx_hash event)),
     pe_event = er_event event, pe_attributes = er_attributes event\<rparr>"

fun importEvents :: "event_record option list \<Rightarrow> u64 \<Rightarrow> (store, u64) action" where
  "importEvents [] maxSequence = retM maxSequence"
| "importEvents (eo # events) maxSequence =
     bindM (guardM (case eo of None \<Rightarrow> False | Some event \<Rightarrow> \<not> (er_height event < 0 \<or> er_sequence event = 0 \<or> TrimSpace (er_event event) = []))
       (Errorf ''genesis privacy event is invalid'')) (\<lambda>_.
     let event = the eo; key = GetPrivacyEventKey (er_height event) (er_sequence event) in
     bindM (guardM (None \<notin> set (er_attributes event)) (Errorf ''genesis privacy event contains nil attribute'')) (\<lambda>_.
     bindM (readM (\<lambda>s. guardE (\<not> kv_has s key) (Errorf ''genesis privacy event duplicates cursor''))) (\<lambda>_.
     bindM (writeM (kv_set key (the (QueryPrivacyEvent_Marshal (queryEventOf event))))) (\<lambda>_.
     importEvents events (if er_sequence event > maxSequence then er_sequence event else maxSequence)))))"

text \<open>The outputs that are not yet consumed stand for the map from event keys to outputs: its entry at a key is the list of the outputs with that key.\<close>

fun importSummaries ::
  "'a crypto_env_scheme \<Rightarrow> audit_runtime option \<Rightarrow> exec_ctx \<Rightarrow> scan_summary option list \<Rightarrow> scan_output list \<Rightarrow> u64 \<Rightarrow> (store, scan_output list \<times> u64) action" where
  "importSummaries env rt ctx [] outs maxSequence = retM (outs, maxSequence)"
| "importSummaries env rt ctx (so # summaries) outs maxSequence =
     bindM (guardM (so \<noteq> None) (Errorf ''genesis privacy scan summary is nil'')) (\<lambda>_.
     let summary = the so in
     bindM (StorePrivacyScanV2 env rt ctx so (map Some (filter (\<lambda>out. output_event out = summary_key summary) outs))) (\<lambda>_.
     importSummaries env rt ctx summaries (filter (\<lambda>out. output_event out \<noteq> summary_key summary) outs)
       (if ss_sequence summary > maxSequence then ss_sequence summary else maxSequence)))"

definition InitGenesisPrivacyIndexV2 ::
  "'a crypto_env_scheme \<Rightarrow> audit_runtime option \<Rightarrow> exec_ctx \<Rightarrow> u64 \<Rightarrow> event_record option list \<Rightarrow> scan_summary option list \<Rightarrow> scan_output option list \<Rightarrow> (store, unit) action" where
  "InitGenesisPrivacyIndexV2 env rt ctx globalSequence events summaries outs =
     bindM (guardM (allowsGenesisStateImport rt ctx) (Errorf ''legacy state mutation is disabled'')) (\<lambda>_.
     bindM (importEvents events 0) (\<lambda>maxSequence.
     bindM (guardM (None \<notin> set outs) (Errorf ''genesis privacy scan output is nil'')) (\<lambda>_.
     bindM (importSummaries env rt ctx summaries (map the outs) maxSequence) (\<lambda>(rest, maxSequence1).
     bindM (guardM (rest = []) (Errorf ''genesis privacy scan contains output without summary'')) (\<lambda>_.
     bindM (guardM (\<not> globalSequence < maxSequence1) (Errorf ''genesis privacy global sequence is behind indexed records'')) (\<lambda>_.
     setPrivacyGlobalSequence globalSequence))))))"

end
