(* ===== verification/Event_Store.thy ===== *)
theory Event_Store
  imports Event_Index Scan_Store
begin

text \<open>
  What the event index promises. A store represents a list of events in the order of height and sequence (\<open>event_index\<close>); setting the
  record of a new event inserts it. The genesis import of the records, summaries and outputs that were exported from a store rebuilds both the
  event index and the scan index in an empty one.
\<close>

section \<open>Representation\<close>

definition pe_cursor :: "privacy_event \<Rightarrow> event_key" where
  "pe_cursor ev = (pe_height ev, pe_sequence ev)"

definition event_pair :: "privacy_event \<Rightarrow> bytes \<times> bytes" where
  "event_pair ev = (GetPrivacyEventKey (pe_height ev) (pe_sequence ev), the (QueryPrivacyEvent_Marshal ev))"

definition stored_event :: "privacy_event \<Rightarrow> bool" where
  "stored_event ev =
     (0 \<le> pe_height ev \<and> pe_height ev < 2 ^ 63 \<and> pe_sequence ev \<noteq> 0 \<and> TrimSpace (pe_event ev) \<noteq> [] \<and> None \<notin> set (pe_attributes ev) \<and>
      QueryPrivacyEvent_Size ev < 2 ^ 63 \<and> (\<exists>h. pe_tx_hash_hex ev = ToUpper (hex_of_bytes h)))"

definition event_range_of :: "store \<Rightarrow> store" where
  "event_range_of s = kv_range GetPrivacyEventPrefix (PrefixEndBytes GetPrivacyEventPrefix) s"

definition event_index :: "privacy_event list \<Rightarrow> store \<Rightarrow> bool" where
  "event_index evs s =
     (kv_wf s \<and> list_all stored_event evs \<and> sorted_wrt (\<lambda>a b. pe_cursor a < pe_cursor b) evs \<and> event_range_of s = map event_pair evs)"

lemma event_indexD:
  assumes "event_index evs s"
  shows "kv_wf s" "\<And>ev. ev \<in> set evs \<Longrightarrow> stored_event ev" "sorted_wrt (\<lambda>a b. pe_cursor a < pe_cursor b) evs"
    "event_range_of s = map event_pair evs"
  using assms by (simp_all add: event_index_def list_all_iff)

lemma event_members:
  assumes "kv_wf s"
  shows "(k, v) \<in> set (event_range_of s) \<longleftrightarrow> (\<exists>r. k = KeyPrefixPrivacyEvent # r) \<and> kv_get s k = Some v"
proof -
  have "PrefixEndBytes [KeyPrefixPrivacyEvent] = [KeyPrefixPrivacyEvent + 1]" by (simp add: PrefixEndBytes_def key_prefix_defs)
  then show ?thesis using prefix_member [OF assms, of KeyPrefixPrivacyEvent k v]
    by (simp add: event_range_of_def GetPrivacyEventPrefix_def) (simp add: key_prefix_defs)
qed

lemma pe_key_order:
  assumes "stored_event a" "stored_event b"
  shows "fst (event_pair a) < fst (event_pair b) \<longleftrightarrow> pe_cursor a < pe_cursor b" "fst (event_pair a) = fst (event_pair b) \<longleftrightarrow> pe_cursor a = pe_cursor b"
  using height_order [of "pe_height a" "pe_height b"] assms
  by (auto simp: stored_event_def event_pair_def pe_cursor_def GetPrivacyEventKey_def append_less less_prod_def)

lemma pairs_sorted:
  assumes "list_all stored_event evs" "sorted_wrt (\<lambda>a b. pe_cursor a < pe_cursor b) evs"
  shows "sorted_wrt (<) (map fst (map event_pair evs))"
  using assms by (induction evs) (auto simp: list_all_iff pe_key_order(1))

section \<open>Inserting an event\<close>

definition insert_pe :: "privacy_event \<Rightarrow> privacy_event list \<Rightarrow> privacy_event list" where
  "insert_pe ev evs = insort_key pe_cursor ev evs"

lemma insert_pe_set [simp]: "set (insert_pe ev evs) = insert ev (set evs)"
  by (simp add: insert_pe_def set_insort_key)

lemma insert_pe_sorted:
  assumes "sorted_wrt (\<lambda>a b. pe_cursor a < pe_cursor b) evs" "pe_cursor ev \<notin> pe_cursor ` set evs"
  shows "sorted_wrt (\<lambda>a b. pe_cursor a < pe_cursor b) (insert_pe ev evs)"
proof -
  have iff: "sorted_wrt (\<lambda>a b. pe_cursor a < pe_cursor b) xs \<longleftrightarrow> sorted (map pe_cursor xs) \<and> distinct (map pe_cursor xs)" for xs
    using strict_sorted_iff [of "map pe_cursor xs"] by (simp add: sorted_wrt_map)
  have "distinct (map pe_cursor (insort_key pe_cursor ev evs))"
    using assms unfolding iff by (induction evs) (auto simp: set_insort_key)
  then show ?thesis using assms(1) unfolding iff by (simp add: insert_pe_def sorted_insort_key)
qed

lemma pe_fresh_iff:
  assumes "event_index evs s" "stored_event ev"
  shows "kv_get s (fst (event_pair ev)) = None \<longleftrightarrow> pe_cursor ev \<notin> pe_cursor ` set evs"
proof -
  note I = event_indexD [OF assms(1)]
  have pre: "\<exists>r. fst (event_pair ev) = KeyPrefixPrivacyEvent # r" by (simp add: event_pair_def GetPrivacyEventKey_def)
  have "kv_get s (fst (event_pair ev)) \<noteq> None \<longleftrightarrow> (\<exists>v. (fst (event_pair ev), v) \<in> set (map event_pair evs))"
    unfolding I(4) [symmetric] event_members [OF I(1)] using pre by auto
  also have "\<dots> \<longleftrightarrow> (\<exists>e \<in> set evs. fst (event_pair e) = fst (event_pair ev))" by (auto simp: image_iff prod_eq_iff) metis
  also have "\<dots> \<longleftrightarrow> pe_cursor ev \<in> pe_cursor ` set evs" using pe_key_order(2) [OF I(2) assms(2)] by (auto simp: image_iff) metis
  finally show ?thesis by blast
qed

lemma event_insert:
  assumes "event_index evs s" "stored_event ev" "pe_cursor ev \<notin> pe_cursor ` set evs"
  shows "event_index (insert_pe ev evs) (kv_set (fst (event_pair ev)) (snd (event_pair ev)) s)" (is "event_index _ ?t")
proof -
  note I = event_indexD [OF assms(1)]
  have wf: "kv_wf ?t" using I(1) by simp
  have ok: "list_all stored_event (insert_pe ev evs)" using I(2) assms(2) by (auto simp: list_all_iff)
  have sorted: "sorted_wrt (\<lambda>a b. pe_cursor a < pe_cursor b) (insert_pe ev evs)" by (rule insert_pe_sorted [OF I(3) assms(3)])
  have pre: "\<exists>r. fst (event_pair ev) = KeyPrefixPrivacyEvent # r" by (simp add: event_pair_def GetPrivacyEventKey_def)
  have none: "kv_get s (fst (event_pair ev)) = None" using pe_fresh_iff [OF assms(1,2)] assms(3) by simp
  have mem: "(k, v) \<in> set (event_range_of ?t) \<longleftrightarrow> (k, v) \<in> insert (event_pair ev) (set (event_range_of s))" for k v
    unfolding event_members [OF wf] insert_iff event_members [OF I(1)] using pre none I(1) by (auto simp: prod_eq_iff)
  have "event_range_of ?t = map event_pair (insert_pe ev evs)"
  proof (rule sorted_pairs_eq)
    show "sorted_wrt (<) (map fst (event_range_of ?t))" unfolding event_range_of_def by (rule kv.iter_sorted [OF wf])
    show "sorted_wrt (<) (map fst (map event_pair (insert_pe ev evs)))" by (rule pairs_sorted [OF ok sorted])
    show "set (event_range_of ?t) = set (map event_pair (insert_pe ev evs))" using mem I(4) by auto
  qed
  then show ?thesis using wf ok sorted by (simp add: event_index_def)
qed

text \<open>Writes elsewhere leave an index alone.\<close>

lemma event_index_cong:
  assumes "event_index evs s" "kv_wf t" "\<And>r. kv_get t (KeyPrefixPrivacyEvent # r) = kv_get s (KeyPrefixPrivacyEvent # r)"
  shows "event_index evs t"
proof -
  note I = event_indexD [OF assms(1)]
  have "event_range_of t = event_range_of s"
  proof (rule sorted_pairs_eq)
    show "sorted_wrt (<) (map fst (event_range_of t))" "sorted_wrt (<) (map fst (event_range_of s))"
      unfolding event_range_of_def by (rule kv.iter_sorted [OF assms(2)], rule kv.iter_sorted [OF I(1)])
    have "(k, v) \<in> set (event_range_of t) \<longleftrightarrow> (k, v) \<in> set (event_range_of s)" for k v
      unfolding event_members [OF assms(2)] event_members [OF I(1)] using assms(3) by auto
    then show "set (event_range_of t) = set (event_range_of s)" by auto
  qed
  then show ?thesis using assms(1,2) by (simp add: event_index_def)
qed

lemma scan_index_cong:
  assumes "scan_index env evs s" "kv_wf t" "\<And>k. k \<noteq> [] \<Longrightarrow> hd k \<in> {KeyPrefixScanSummary, KeyPrefixScanOutput, KeyPrefixScanSequence, KeyPrefixCommitmentIdx} \<Longrightarrow> kv_get t k = kv_get s k"
  shows "scan_index env evs t"
proof -
  note I = scan_indexD [OF assms(1)]
  have ranges: "kv_range [KeyPrefixScanSummary] [KeyPrefixScanOutput] t = kv_range [KeyPrefixScanSummary] [KeyPrefixScanOutput] s"
    "kv_range [KeyPrefixScanOutput] [KeyPrefixRootSnapshot] t = kv_range [KeyPrefixScanOutput] [KeyPrefixRootSnapshot] s"
    by (rule sorted_pairs_eq [OF kv.iter_sorted [OF assms(2)] kv.iter_sorted [OF I(1)]],
        use assms(3) in \<open>auto simp: scan_members [OF assms(2)] scan_members [OF I(1)]\<close>)+
  have "kv_get t (GetCommitmentIndexKey c) = kv_get s (GetCommitmentIndexKey c)" for c by (rule assms(3)) (simp_all add: GetCommitmentIndexKey_def)
  then have ok: "event_ok env t e = event_ok env s e" for e by (rule event_ok_cong)
  have "kv_get t (GetPrivacyScanSequenceKey q) = kv_get s (GetPrivacyScanSequenceKey q)" for q
    by (rule assms(3)) (simp_all add: GetPrivacyScanSequenceKey_def)
  then show ?thesis using assms(1,2) ranges ok by (simp add: scan_index_def list_all_iff)
qed

section \<open>The genesis export\<close>

definition recordOf :: "privacy_event \<Rightarrow> event_record" where
  "recordOf ev = \<lparr>er_sequence = pe_sequence ev, er_height = pe_height ev, er_tx_hash = the (hexDecode (pe_tx_hash_hex ev)), er_event = pe_event ev,
     er_attributes = pe_attributes ev\<rparr>"

lemma upper_digits: "i < 16 \<Longrightarrow> hexDigit (hd (ToUpper [hex_digit i])) = Some i"
proof -
  assume "i < 16"
  then have "i \<in> set [0..<16]" by simp
  moreover have "list_all (\<lambda>i. hexDigit (hd (ToUpper [hex_digit i])) = Some i) [0..<16]"
    by (simp add: upt_conv_Cons hex_digit_def ToUpper_def hexDigit_def Let_def char_of_def bit_0)
  ultimately show ?thesis by (simp only: list_all_iff)
qed

lemma hexDecode_upper: "hexDecode (ToUpper (hex_of_bytes h)) = Some h"
proof (induction h)
  case Nil
  show ?case by (simp add: ToUpper_def hex_of_bytes_def)
next
  case (Cons b h)
  have up: "ToUpper (hex_of_bytes (b # h)) = hd (ToUpper [hex_digit (unat b div 16)]) # hd (ToUpper [hex_digit (unat b mod 16)]) # ToUpper (hex_of_bytes h)"
    by (simp add: ToUpper_def hex_of_bytes_def)
  have "unat b div 16 < 16" "unat b mod 16 < 16" using unat_u8_less [of b] by simp_all
  then show ?case using Cons unfolding up hexDecode.simps by (simp add: upper_digits)
qed

lemma record_back: "stored_event ev \<Longrightarrow> queryEventOf (recordOf ev) = ev"
  by (auto simp: queryEventOf_def recordOf_def stored_event_def hexDecode_upper)

lemma export_record:
  assumes "stored_event ev"
  shows "exportEventRecord (event_pair ev) = Inr (Some (recordOf ev))"
proof -
  obtain h where h: "pe_tx_hash_hex ev = ToUpper (hex_of_bytes h)" using assms by (auto simp: stored_event_def)
  have some: "QueryPrivacyEvent_Marshal ev = Some (the (QueryPrivacyEvent_Marshal ev))"
    using assms by (simp add: QueryPrivacyEvent_Marshal_def stored_event_def)
  have read: "QueryPrivacyEvent_Unmarshal (the (QueryPrivacyEvent_Marshal ev)) = Inr ev"
    by (rule event_back [OF _ _ some]) (use assms in \<open>simp_all add: stored_event_def int64_def\<close>)
  show ?thesis using read assms height_word [of "pe_height ev"]
    by (simp add: exportEventRecord_def event_pair_def GetPrivacyEventKey_def recordOf_def h hexDecode_upper stored_event_def Let_def)
qed

lemma traverse_map: "(\<And>x. x \<in> set xs \<Longrightarrow> f (g x) = Inr (h x)) \<Longrightarrow> traverseE f (map g xs) = Inr (map h xs)"
  by (induction xs) simp_all

lemma export_events: "event_index evs s \<Longrightarrow> ExportGenesisPrivacyEventsV1 s = Inr (map (Some \<circ> recordOf) evs)"
  unfolding ExportGenesisPrivacyEventsV1_def using event_indexD(2,4) [of evs s]
  by (simp add: event_range_of_def traverse_map export_record)

section \<open>The genesis import\<close>

lemma event_sorted_unique:
  "event_index xs s \<Longrightarrow> event_index ys t \<Longrightarrow> set xs = set ys \<Longrightarrow> xs = ys"
proof -
  assume I: "event_index xs s" "event_index ys t" "set xs = set ys"
  have sorted: "sorted (map pe_cursor zs) \<and> distinct (map pe_cursor zs)" if "event_index zs u" for zs u
    using event_indexD(3) [OF that] strict_sorted_iff [of "map pe_cursor zs"] by (simp add: sorted_wrt_map)
  have "map pe_cursor xs = map pe_cursor ys"
    using sorted [OF I(1)] sorted [OF I(2)] I(3) by (intro sorted_distinct_set_unique) simp_all
  moreover have "inj_on pe_cursor (set xs \<union> set ys)" using sorted [OF I(1)] I(3) by (simp add: distinct_map)
  ultimately show "xs = ys" by (rule map_inj_on)
qed

lemma import_events:
  assumes "event_index old s" "list_all stored_event evs" "distinct (map pe_cursor evs)" "pe_cursor ` set evs \<inter> pe_cursor ` set old = {}"
    and "m \<le> g" "\<And>ev. ev \<in> set evs \<Longrightarrow> pe_sequence ev \<le> g"
  shows "\<exists>m' t new. importEvents (map (Some \<circ> recordOf) evs) m s = (Inr m', t) \<and> m' \<le> g \<and> event_index new t \<and> set new = set evs \<union> set old \<and>
    (\<forall>k. \<not> (\<exists>r. k = KeyPrefixPrivacyEvent # r) \<longrightarrow> kv_get t k = kv_get s k)"
  using assms
proof (induction evs arbitrary: old s m)
  case (Cons ev evs)
  let ?s = "kv_set (fst (event_pair ev)) (snd (event_pair ev)) s" and ?m = "if pe_sequence ev > m then pe_sequence ev else m"
  have ok: "stored_event ev" and new: "pe_cursor ev \<notin> pe_cursor ` set old" using Cons.prems(2,4) by auto
  have index: "event_index (insert_pe ev old) ?s" by (rule event_insert [OF Cons.prems(1) ok new])
  have "\<exists>m' t new. importEvents (map (Some \<circ> recordOf) evs) ?m ?s = (Inr m', t) \<and> m' \<le> g \<and> event_index new t \<and> set new = set evs \<union> set (insert_pe ev old) \<and>
    (\<forall>k. \<not> (\<exists>r. k = KeyPrefixPrivacyEvent # r) \<longrightarrow> kv_get t k = kv_get ?s k)"
    by (rule Cons.IH [OF index]) (use Cons.prems in auto)
  then obtain m' t new' where t: "importEvents (map (Some \<circ> recordOf) evs) ?m ?s = (Inr m', t)" "m' \<le> g" "event_index new' t"
    "set new' = insert ev (set evs \<union> set old)" "\<And>k. \<not> (\<exists>r. k = KeyPrefixPrivacyEvent # r) \<Longrightarrow> kv_get t k = kv_get ?s k" by auto
  have "kv_get s (fst (event_pair ev)) = None" using pe_fresh_iff [OF Cons.prems(1) ok] new by simp
  then have step: "importEvents (map (Some \<circ> recordOf) (ev # evs)) m s = importEvents (map (Some \<circ> recordOf) evs) ?m ?s"
    using ok record_back [OF ok]
    by (simp add: stored_event_def recordOf_def event_pair_def kv_has_def Let_def bindM_run del: kv_set.simps)
  have "kv_get t k = kv_get s k" if "\<not> (\<exists>r. k = KeyPrefixPrivacyEvent # r)" for k
    using t(5) [OF that] that by (auto simp: event_pair_def GetPrivacyEventKey_def simp del: kv_set.simps)
  then show ?case unfolding step by (intro exI [of _ m'] exI [of _ t] exI [of _ new']) (simp add: t(1-4))
qed auto

lemma scan_sorted_unique:
  assumes "scan_index env xs s" "scan_index env' ys t" "set xs = set ys"
  shows "xs = ys"
proof -
  have sorted: "sorted (map event_key xs) \<and> distinct (map event_key xs)" "sorted (map event_key ys) \<and> distinct (map event_key ys)"
    using scan_indexD(3) [OF assms(1)] scan_indexD(3) [OF assms(2)] by (simp_all add: events_sorted_iff)
  then have "map event_key xs = map event_key ys" using assms(3) by (intro sorted_distinct_set_unique) simp_all
  moreover have "inj_on event_key (set xs \<union> set ys)" using sorted assms(3) by (simp add: distinct_map)
  ultimately show "xs = ys" by (rule map_inj_on)
qed

lemma outputs_of_event:
  assumes "list_all (event_ok env s) (e # es)" "event_key e \<notin> event_key ` set es"
  shows "filter (\<lambda>out. output_event out = summary_key (fst e)) (concat (map snd (e # es))) = snd e"
    "filter (\<lambda>out. output_event out \<noteq> summary_key (fst e)) (concat (map snd (e # es))) = concat (map snd es)"
proof -
  have same: "output_event out = event_key e'" if "e' \<in> set (e # es)" "out \<in> set (snd e')" for e' out
    using event_ok_member [of env s e' out] assms(1) that by (auto simp: list_all_iff)
  then have own: "output_event out = summary_key (fst e)" if "out \<in> set (snd e)" for out using that by (simp add: event_key_def)
  have others: "output_event out \<noteq> summary_key (fst e)" if out: "out \<in> set (concat (map snd es))" for out
  proof -
    obtain e' where e': "e' \<in> set es" "out \<in> set (snd e')" using out by auto
    then have "event_key e' \<noteq> event_key e" using assms(2) by (metis imageI)
    then show ?thesis using same [of e' out] e' by (simp add: event_key_def)
  qed
  show "filter (\<lambda>out. output_event out = summary_key (fst e)) (concat (map snd (e # es))) = snd e"
    "filter (\<lambda>out. output_event out \<noteq> summary_key (fst e)) (concat (map snd (e # es))) = concat (map snd es)"
    using own others by (simp_all add: filter_empty_conv filter_id_conv)
qed

lemma import_summaries:
  assumes "scan_index env old s" "list_all (event_ok env s) evs" "distinct (map (ss_sequence \<circ> fst) evs)"
    and "(ss_sequence \<circ> fst) ` set evs \<inter> (ss_sequence \<circ> fst) ` set old = {}" "allowsGenesisStateImport rt ctx"
    and "m \<le> g" "\<And>e. e \<in> set evs \<Longrightarrow> ss_sequence (fst e) \<le> g"
  shows "\<exists>m' t new. importSummaries env rt ctx (map (Some \<circ> fst) evs) (concat (map snd evs)) m s = (Inr ([], m'), t) \<and> m' \<le> g \<and>
    scan_index env new t \<and> set new = set evs \<union> set old \<and> (\<forall>k. \<not> scan_key k \<longrightarrow> kv_get t k = kv_get s k) \<and>
    kv_get t GetPrivacyGlobalSequenceKey = kv_get s GetPrivacyGlobalSequenceKey"
  using assms
proof (induction evs arbitrary: old s m)
  case (Cons e evs)
  let ?m = "if ss_sequence (fst e) > m then ss_sequence (fst e) else m"
  have ok: "event_ok env s e" and len: "length (snd e) < 2 ^ 32" "ss_height (fst e) < 2 ^ 63"
    using Cons.prems(2) event_okD [of env s e] by auto
  have fresh: "fresh_event e s" using fresh_iff [OF Cons.prems(1) ok] Cons.prems(4) by auto
  have index: "scan_index env (insert_event e old) (written e s)" by (rule index_insert [OF Cons.prems(1) ok fresh])
  have run: "storePrivacyScan env (Some (fst e)) (map Some (snd e)) s = (Inr (), written e s)"
    using store_run [OF len, of env s "written e s"] ok fresh by simp
  have other: "kv_get (written e s) k = kv_get s k" if "\<not> scan_key k \<or> k = GetPrivacyGlobalSequenceKey" for k
    using that by (intro written_other [OF ok])
      (auto simp: output_entry_def summary_entry_def GetPrivacyGlobalSequenceKey_def GetPrivacyScanSummaryKey_def GetPrivacyScanOutputKey_def
        GetPrivacyScanSequenceKey_def scan_key_def key_prefix_defs)
  have "event_ok env (written e s) e' = event_ok env s e'" for e'
    by (rule event_ok_cong, rule other) (simp add: scan_key_def GetCommitmentIndexKey_def key_prefix_defs)
  then have oks: "list_all (event_ok env (written e s)) evs" using Cons.prems(2) by (simp add: list_all_iff)
  have "\<exists>m' t new. importSummaries env rt ctx (map (Some \<circ> fst) evs) (concat (map snd evs)) ?m (written e s) = (Inr ([], m'), t) \<and> m' \<le> g \<and>
    scan_index env new t \<and> set new = set evs \<union> set (insert_event e old) \<and> (\<forall>k. \<not> scan_key k \<longrightarrow> kv_get t k = kv_get (written e s) k) \<and>
    kv_get t GetPrivacyGlobalSequenceKey = kv_get (written e s) GetPrivacyGlobalSequenceKey"
    by (rule Cons.IH [OF index oks]) (use Cons.prems in auto)
  then obtain m' t new where t: "importSummaries env rt ctx (map (Some \<circ> fst) evs) (concat (map snd evs)) ?m (written e s) = (Inr ([], m'), t)" "m' \<le> g"
    "scan_index env new t" "set new = insert e (set evs \<union> set old)" "\<And>k. \<not> scan_key k \<Longrightarrow> kv_get t k = kv_get s k"
    "kv_get t GetPrivacyGlobalSequenceKey = kv_get s GetPrivacyGlobalSequenceKey" using other by auto
  have "event_key e \<notin> event_key ` set evs" using Cons.prems(3) by (force simp: event_key_def summary_key_def)
  note outs = outputs_of_event [OF Cons.prems(2) this]
  have step: "importSummaries env rt ctx (map (Some \<circ> fst) (e # evs)) (concat (map snd (e # evs))) m s =
      importSummaries env rt ctx (map (Some \<circ> fst) evs) (concat (map snd evs)) ?m (written e s)"
  proof -
    define all where "all = concat (map snd (e # evs))"
    show ?thesis using run Cons.prems(5) outs unfolding all_def [symmetric] by (simp add: StorePrivacyScanV2_def bindM_run Let_def)
  qed
  show ?case unfolding step by (intro exI [of _ m'] exI [of _ t] exI [of _ new]) (simp add: t)
qed auto

end
