(* ===== verification/Event_Theorems.thy ===== *)
theory Event_Theorems
  imports Event_Store Sample_Scan
begin

text \<open>
  The properties of the event index: indexing an event keeps both indexes and inserts exactly that event, the event query returns the page it was
  asked for, and the genesis of the indexes imports back to the indexes it was exported from.
\<close>

section \<open>Invariant of the two indexes\<close>

definition index_inv :: "'a crypto_env_scheme \<Rightarrow> privacy_event list \<Rightarrow> scan_event list \<Rightarrow> u64 \<Rightarrow> store \<Rightarrow> bool" where
  "index_inv env evs scans g s =
     (event_index evs s \<and> scan_index env scans s \<and> GetPrivacyGlobalSequence s = Inr g \<and>
      list_all (\<lambda>ev. pe_sequence ev \<le> g) evs \<and> list_all (\<lambda>e. ss_sequence (fst e) \<le> g) scans)"

lemma index_invD:
  assumes "index_inv env evs scans g s"
  shows "event_index evs s" "scan_index env scans s" "GetPrivacyGlobalSequence s = Inr g"
    "\<And>ev. ev \<in> set evs \<Longrightarrow> pe_sequence ev \<le> g" "\<And>e. e \<in> set scans \<Longrightarrow> ss_sequence (fst e) \<le> g"
  using assms by (auto simp: index_inv_def list_all_iff)

text \<open>Keys of the two indexes and of the commitment index, on which the records of the scan index depend.\<close>

definition index_key :: "bytes \<Rightarrow> bool" where
  "index_key k = (k \<noteq> [] \<and> hd k \<in> {KeyPrefixPrivacyEvent, KeyPrefixScanSummary, KeyPrefixScanOutput, KeyPrefixScanSequence, KeyPrefixCommitmentIdx})"

lemma indexes_cong:
  assumes "event_index evs s" "scan_index env scans s" "kv_wf t" "\<And>k. index_key k \<Longrightarrow> kv_get t k = kv_get s k"
  shows "event_index evs t" "scan_index env scans t"
  by (rule event_index_cong [OF assms(1,3)], rule assms(4), simp add: index_key_def)
    (rule scan_index_cong [OF assms(2,3)], rule assms(4), auto simp: index_key_def)

section \<open>Genesis\<close>

lemma genesis_rebuilds:
  assumes "index_inv env evs scans g s"
    and "kv_wf t0" "\<And>k. index_key k \<Longrightarrow> kv_get t0 k = (if hd k = KeyPrefixCommitmentIdx then kv_get s k else None)"
    and "allowsGenesisStateImport rt ctx"
  shows "\<exists>t. InitGenesisPrivacyIndexV2 env rt ctx g (map (Some \<circ> recordOf) evs) (map Some (map fst scans)) (map Some (concat (map snd scans))) t0 = (Inr (), t) \<and>
    index_inv env evs scans g t \<and> (\<forall>k. \<not> scan_key k \<and> \<not> (\<exists>r. k = KeyPrefixPrivacyEvent # r) \<longrightarrow> kv_get t k = kv_get t0 k)"
proof -
  note I = index_invD [OF assms(1)]
  have none: "kv_get t0 k = None" if "k \<noteq> []" "hd k \<in> {KeyPrefixPrivacyEvent, KeyPrefixScanSummary, KeyPrefixScanOutput, KeyPrefixScanSequence}" for k
    using assms(3) [of k] that by (auto simp: index_key_def key_prefix_defs)
  have nil: "xs = []" if "\<And>k v. (k, v) \<notin> set xs" for xs :: store using that by (cases xs) auto
  have e0: "event_index [] t0" using none assms(2) by (auto simp: event_index_def event_members [OF assms(2)] intro!: nil)
  have distinct: "distinct (map pe_cursor evs)"
    using event_indexD(3) [OF I(1)] strict_sorted_iff [of "map pe_cursor evs"] by (simp add: sorted_wrt_map)
  obtain m1 t1 evs1 where t1: "importEvents (map (Some \<circ> recordOf) evs) 0 t0 = (Inr m1, t1)" "m1 \<le> g" "event_index evs1 t1" "set evs1 = set evs"
    "\<And>k. \<not> (\<exists>r. k = KeyPrefixPrivacyEvent # r) \<Longrightarrow> kv_get t1 k = kv_get t0 k"
    using import_events [OF e0, of evs 0 g] I(4) event_indexD(2) [OF I(1)] distinct by (auto simp: list_all_iff)
  have evs1: "evs1 = evs" by (rule event_sorted_unique [OF t1(3) I(1) t1(4)])
  have s1: "scan_index env [] t1"
  proof -
    have "kv_get t1 k = None" if "k \<noteq> []" "hd k \<in> {KeyPrefixScanSummary, KeyPrefixScanOutput, KeyPrefixScanSequence}" for k
      using t1(5) [of k] none [of k] that by (cases k) (auto simp: key_prefix_defs)
    then show ?thesis using event_indexD(1) [OF t1(3)]
      by (auto simp: scan_index_def GetPrivacyScanSequenceKey_def scan_members intro!: nil)
  qed
  have "kv_get t1 (GetCommitmentIndexKey c) = kv_get s (GetCommitmentIndexKey c)" for c
    using t1(5) [of "GetCommitmentIndexKey c"] assms(3) [of "GetCommitmentIndexKey c"] by (simp add: GetCommitmentIndexKey_def index_key_def) (simp add: key_prefix_defs)
  then have "event_ok env t1 e = event_ok env s e" for e by (rule event_ok_cong)
  then have oks: "list_all (event_ok env t1) scans" using scan_indexD(2) [OF I(2)] by (simp add: list_all_iff)
  have seqs: "distinct (map (ss_sequence \<circ> fst) scans)" using scan_indexD(4) [OF I(2)] by (simp add: comp_def event_key_def summary_key_def)
  obtain m2 t2 scans2 where t2: "importSummaries env rt ctx (map (Some \<circ> fst) scans) (concat (map snd scans)) m1 t1 = (Inr ([], m2), t2)" "m2 \<le> g"
    "scan_index env scans2 t2" "set scans2 = set scans" "\<And>k. \<not> scan_key k \<Longrightarrow> kv_get t2 k = kv_get t1 k"
    using import_summaries [OF s1 oks seqs _ assms(4) t1(2)] I(5) by auto
  have scans2: "scans2 = scans" by (rule scan_sorted_unique [OF t2(3) I(2) t2(4)])
  define t where "t = kv_set GetPrivacyGlobalSequenceKey (be64 g) t2"
  have run: "InitGenesisPrivacyIndexV2 env rt ctx g (map (Some \<circ> recordOf) evs) (map Some (map fst scans)) (map Some (concat (map snd scans))) t0 = (Inr (), t)"
  proof -
    define outs where "outs = concat (map snd scans)"
    have "None \<notin> set (map Some outs)" "map the (map Some outs) = outs" by (auto simp: comp_def)
    moreover have "map Some (map fst scans) = map (Some \<circ> fst) scans" by simp
    ultimately show ?thesis unfolding InitGenesisPrivacyIndexV2_def outs_def [symmetric] using t1(1) t2(1,2) assms(4)
      by (simp add: bindM_run outs_def [symmetric] not_less setPrivacyGlobalSequence_def t_def del: map_map kv_set.simps)
  qed
  have wf2: "kv_wf t2" by (rule scan_indexD(1) [OF t2(3)])
  have e2: "event_index evs t2"
    by (rule event_index_cong [OF t1(3) [unfolded evs1] wf2 t2(5)]) (simp add: scan_key_def key_prefix_defs)
  have global: "\<not> index_key GetPrivacyGlobalSequenceKey" "scan_key GetPrivacyGlobalSequenceKey"
    by (simp_all add: index_key_def scan_key_def GetPrivacyGlobalSequenceKey_def key_prefix_defs)
  have "event_index evs t" "scan_index env scans t"
    by (rule indexes_cong [OF e2 t2(3) [unfolded scans2]]; use wf2 global(1) in \<open>auto simp: t_def simp del: kv_set.simps\<close>)+
  moreover have "GetPrivacyGlobalSequence t = Inr g" by (simp add: GetPrivacyGlobalSequence_def t_def del: kv_set.simps)
  moreover have "kv_get t k = kv_get t0 k" if "\<not> scan_key k \<and> \<not> (\<exists>r. k = KeyPrefixPrivacyEvent # r)" for k
    using t1(5) [of k] t2(5) [of k] that global(2) by (auto simp: t_def simp del: kv_set.simps)
  ultimately show ?thesis using run assms(1) by (intro exI [of _ t]) (simp add: index_inv_def)
qed

section \<open>Indexing an event\<close>

definition snapshot_key :: "bytes \<Rightarrow> bool" where
  "snapshot_key k = (k \<noteq> [] \<and> hd k \<in> {KeyPrefixHistoricalRoot, KeyPrefixRootSnapshot})"

lemma snapshot_only:
  "within snapshot_key (RecordCurrentMerkleRootSnapshotV1 env h)"
proof -
  have "snapshot_key (GetHistoricalRootKey r)" "snapshot_key (GetMerkleRootSnapshotKey r)" for r
    by (simp_all add: snapshot_key_def GetHistoricalRootKey_def GetMerkleRootSnapshotKey_def)
  then show ?thesis
    unfolding RecordCurrentMerkleRootSnapshotV1_def SetMerkleRootSnapshotV1_def rawMutation_def setMerkleRootSnapshot_def setHistoricalRootHeightMetadata_def
    by (intro within_intros) simp_all
qed

text \<open>Actions that keep the store ascending.\<close>

definition keeps_wf :: "(store, 'a) action \<Rightarrow> bool" where
  "keeps_wf m = (\<forall>s. kv_wf s \<longrightarrow> kv_wf (snd (m s)))"

lemma keeps_bind: "keeps_wf m \<Longrightarrow> (\<And>x. keeps_wf (f x)) \<Longrightarrow> keeps_wf (bindM m f)"
  unfolding keeps_wf_def bindM_def by (simp split: prod.split sum.split) (metis snd_conv)

lemma keeps_bases:
  "keeps_wf (retM x)" "keeps_wf (failM e)" "keeps_wf (readM f)" "keeps_wf (guardM b e)" "keeps_wf (writeM (kv_set k v))"
  "keeps_wf m \<Longrightarrow> keeps_wf n \<Longrightarrow> keeps_wf (if c then m else n)"
  "(\<And>e. keeps_wf (g e)) \<Longrightarrow> (\<And>x. keeps_wf (h x)) \<Longrightarrow> keeps_wf (case r of Inl e \<Rightarrow> g e | Inr x \<Rightarrow> h x)"
  by (auto simp: keeps_wf_def simp del: kv_set.simps split: sum.splits)

lemma snapshot_wf: "keeps_wf (RecordCurrentMerkleRootSnapshotV1 env h)"
  unfolding RecordCurrentMerkleRootSnapshotV1_def SetMerkleRootSnapshotV1_def rawMutation_def setMerkleRootSnapshot_def setHistoricalRootHeightMetadata_def
  by (intro keeps_bind keeps_bases)

text \<open>What the typed records of an event have in common.\<close>

lemma legacy_shape:
  assumes "buildLegacyPrivacyScanV2 q h txh ty attrs s = Inr (m, outs)"
  shows "ss_sequence m = q" "ss_height m = h" "length outs \<le> 2" "ss_event m = ty" "ty \<in> {EventTypeDeposit, EventTypeShieldedTransfer, EventTypeWithdraw}"
  using assms unfolding buildLegacyPrivacyScanV2_def Let_def
  by (auto split: if_splits simp: empty_summary_def)

lemma hex_chars: "c \<in> set (hex_of_bytes h) \<Longrightarrow> 47 < (of_char c :: nat) \<and> (of_char c :: nat) < 128"
proof -
  have "list_all (\<lambda>i. 47 < (of_char (hex_digit i) :: nat) \<and> (of_char (hex_digit i) :: nat) < 128) [0..<16]"
    by (simp add: upt_conv_Cons hex_digit_def)
  then have digit: "47 < (of_char (hex_digit i) :: nat) \<and> (of_char (hex_digit i) :: nat) < 128" if "i < 16" for i
    using that by (simp add: list_all_iff)
  assume "c \<in> set (hex_of_bytes h)"
  then obtain b where "c = hex_digit (unat b div 16) \<or> c = hex_digit (unat (b :: byte) mod 16)" by (auto simp: hex_of_bytes_def)
  moreover have "unat b div 16 < 16" "unat b mod 16 < 16" using unat_u8_less [of b] by simp_all
  ultimately show "47 < (of_char c :: nat) \<and> (of_char c :: nat) < 128" using digit by blast
qed

lemma hex_trim: "TrimSpace (hex_of_bytes h) = hex_of_bytes h"
proof (cases "hex_of_bytes h = []")
  case True
  have "List.find (\<lambda>r. r \<noteq> [] \<and> take (length r) [] = r) rs = None" for rs :: "string list" by (auto simp: find_None_iff)
  then have "trimBy rs [] = []" for rs by (subst trimBy.simps) simp
  then show ?thesis unfolding True by (simp add: TrimSpace_def)
next
  case False
  then show ?thesis
    using TrimSpace_plain [OF False] hex_chars [OF hd_in_set [OF False]] hex_chars [OF last_in_set [OF False]] by linarith
qed

lemma hex_quotes: "trimQuotes (hex_of_bytes h) = hex_of_bytes h"
proof -
  have "c \<noteq> CHR 0x22" if "c \<in> set (hex_of_bytes h)" for c using hex_chars [OF that] by auto
  then have "dropWhile (\<lambda>c. c = CHR 0x22) (hex_of_bytes h) = hex_of_bytes h" "dropWhile (\<lambda>c. c = CHR 0x22) (rev (hex_of_bytes h)) = rev (hex_of_bytes h)"
    by (auto simp: dropWhile_eq_self_iff hd_rev)
  then show ?thesis by (simp add: trimQuotes_def)
qed

lemma emitted_hash: "\<exists>h. ToUpper (TrimSpace (txHashHexFromContext ctx)) = ToUpper (hex_of_bytes h)"
  using hex_trim [of "[]"] hex_trim [of "tx_hash ctx"] by (cases "tx_bytes ctx = []") (auto simp: txHashHexFromContext_def intro: exI [of _ "[]"])

lemma event_type_trims: "ty \<in> {EventTypeDeposit, EventTypeShieldedTransfer, EventTypeWithdraw} \<Longrightarrow> TrimSpace ty \<noteq> []"
proof -
  have "TrimSpace ''deposit'' = ''deposit''" "TrimSpace ''shielded_transfer'' = ''shielded_transfer''" "TrimSpace ''withdraw'' = ''withdraw''"
    by (rule TrimSpace_plain; simp)+
  then show "ty \<in> {EventTypeDeposit, EventTypeShieldedTransfer, EventTypeWithdraw} \<Longrightarrow> TrimSpace ty \<noteq> []"
    by (auto simp: EventTypeDeposit_def EventTypeShieldedTransfer_def EventTypeWithdraw_def)
qed

lemma insert_last: "(\<And>x. x \<in> set xs \<Longrightarrow> f x < f y) \<Longrightarrow> insort_key f y xs = xs @ [y]"
  by (induction xs) (auto simp: less_le_not_le)

lemma index_step:
  assumes inv: "index_inv env evs scans g s" and run: "indexPrivacyEvent env rt ctx ty txh attrs s = (Inr (), t)"
    and ctx: "0 \<le> block_height ctx" "block_height ctx < 2 ^ 63" "\<exists>h. ToUpper (TrimSpace txh) = ToUpper (hex_of_bytes h)"
    and len: "QueryPrivacyEvent_Size (eventOf (g + 1) (block_height ctx) txh ty attrs) < 2 ^ 63"
  shows "\<exists>m outs. buildLegacyPrivacyScanV2 (g + 1) (block_height ctx) txh ty attrs s = Inr (m, outs) \<and> g < g + 1 \<and>
    index_inv env (insert_pe (eventOf (g + 1) (block_height ctx) txh ty attrs) evs) (insert_event (m, outs) scans) (g + 1) t"
proof -
  note I = index_invD [OF inv]
  let ?q = "g + 1" and ?ev = "eventOf (g + 1) (block_height ctx) txh ty attrs"
  let ?s1 = "kv_set GetPrivacyGlobalSequenceKey (be64 ?q) s"
  obtain m outs s2 s3 where g: "g \<noteq> MaxUint64" and build1: "buildLegacyPrivacyScanV2 ?q (block_height ctx) txh ty attrs ?s1 = Inr (m, outs)"
    and store: "storePrivacyScan env (Some m) (map Some outs) ?s1 = (Inr (), s2)"
    and snap: "RecordCurrentMerkleRootSnapshotV1 env (block_height ctx) s2 = (Inr (), s3)"
    and t: "t = kv_set (fst (event_pair ?ev)) (snd (event_pair ?ev)) s3"
    using run I(3) unfolding indexPrivacyEvent_def AllocatePrivacyGlobalSequence_def allocatePrivacyGlobalSequence_def StorePrivacyScanV2_def setPrivacyGlobalSequence_def
    by (auto simp: event_pair_def eventOf_def simp del: kv_set.simps split: sum.splits)
  have less: "g < ?q" using g by (simp add: MaxUint64_def word_less_nat_alt unat_word_ariths word_unat_eq_iff) (use unat_u64_less [of g] in simp)
  have other: "kv_get ?s1 k = kv_get s k" if "k \<noteq> GetPrivacyGlobalSequenceKey" for k using that by (simp del: kv_set.simps)
  have "newScanOutput q h th e ?s1 = newScanOutput q h th e s" for q h th e
    by (intro ext) (simp add: newScanOutput_def GetCommitmentIndex_def other key_simps del: kv_set.simps)
  then have "buildLegacyPrivacyScanV2 ?q (block_height ctx) txh ty attrs s = buildLegacyPrivacyScanV2 ?q (block_height ctx) txh ty attrs ?s1"
    unfolding buildLegacyPrivacyScanV2_def by (simp only:)
  then have build: "buildLegacyPrivacyScanV2 ?q (block_height ctx) txh ty attrs s = Inr (m, outs)" using build1 by simp
  note shape = legacy_shape [OF build]
  have keys: "\<not> index_key GetPrivacyGlobalSequenceKey" by (simp add: index_key_def GetPrivacyGlobalSequenceKey_def key_prefix_defs)
  have s1: "event_index evs ?s1" "scan_index env scans ?s1"
    by (rule indexes_cong [OF I(1,2)]; use scan_indexD(1) [OF I(2)] other keys in \<open>auto simp del: kv_set.simps\<close>)+
  have ok: "event_ok env ?s1 (m, outs)" "fresh_event (m, outs) ?s1" and s2: "s2 = written (m, outs) ?s1"
    using store_run [of outs m env ?s1 s2] store shape(2,3) ctx(2) by auto
  have scan2: "scan_index env (insert_event (m, outs) scans) s2" unfolding s2 by (rule index_insert [OF s1(2) ok])
  have kept: "kv_get s2 k = kv_get ?s1 k" if "\<not> scan_key k \<or> k = GetPrivacyGlobalSequenceKey" for k
    unfolding s2 using that by (intro written_other [OF ok(1)])
      (auto simp: output_entry_def summary_entry_def GetPrivacyGlobalSequenceKey_def GetPrivacyScanSummaryKey_def GetPrivacyScanOutputKey_def
        GetPrivacyScanSequenceKey_def scan_key_def key_prefix_defs)
  have wf3: "kv_wf s3" using snapshot_wf [of env "block_height ctx"] scan_indexD(1) [OF scan2] snap unfolding keeps_wf_def by (metis snd_conv)
  have kept3: "kv_get s3 k = kv_get s2 k" if "\<not> snapshot_key k" for k by (rule withinD [OF snapshot_only snap that])
  have e3: "event_index evs s3"
    by (rule event_index_cong [OF s1(1) wf3])
      (simp add: kept3 kept snapshot_key_def scan_key_def key_prefix_defs GetPrivacyGlobalSequenceKey_def del: kv_set.simps)
  have s3: "scan_index env (insert_event (m, outs) scans) s3"
    by (rule scan_index_cong [OF scan2 wf3], rule kept3) (auto simp: snapshot_key_def key_prefix_defs)
  have stored: "stored_event ?ev"
    using ctx len less event_type_trims [OF shape(5)] by (auto simp: stored_event_def eventOf_def)
  have "pe_cursor ?ev \<notin> pe_cursor ` set evs" using I(4) less by (fastforce simp: pe_cursor_def eventOf_def)
  then have et: "event_index (insert_pe ?ev evs) t" unfolding t by (rule event_insert [OF e3 stored])
  have st: "scan_index env (insert_event (m, outs) scans) t" unfolding t
    by (rule scan_index_cong [OF s3]) (use wf3 in \<open>auto simp: event_pair_def GetPrivacyEventKey_def key_prefix_defs simp del: kv_set.simps\<close>)
  have "kv_get t GetPrivacyGlobalSequenceKey = Some (be64 ?q)"
    using kept3 [of GetPrivacyGlobalSequenceKey] kept [of GetPrivacyGlobalSequenceKey]
    by (simp add: t event_pair_def key_simps snapshot_key_def GetPrivacyGlobalSequenceKey_def GetPrivacyEventKey_def del: kv_set.simps)
  then have gt: "GetPrivacyGlobalSequence t = Inr ?q" by (simp add: GetPrivacyGlobalSequence_def)
  have "list_all (\<lambda>ev. pe_sequence ev \<le> ?q) (insert_pe ?ev evs)" "list_all (\<lambda>e. ss_sequence (fst e) \<le> ?q) (insert_event (m, outs) scans)"
    using I(4,5) less shape(1) by (auto simp: list_all_iff eventOf_def) (metis less_imp_le order.trans)+
  then show ?thesis using build less et st gt by (auto simp: index_inv_def)
qed

section \<open>The event query\<close>

definition selected :: "int \<Rightarrow> string set \<Rightarrow> privacy_event list \<Rightarrow> privacy_event list" where
  "selected h F evs = filter (\<lambda>ev. h < pe_height ev \<and> privacyEventTypeAllowed (pe_event ev) F) evs"

lemma event_read: "stored_event ev \<Longrightarrow> QueryPrivacyEvent_Unmarshal (snd (event_pair ev)) = Inr ev"
  by (simp add: event_pair_def) (rule event_back, auto simp: stored_event_def int64_def QueryPrivacyEvent_Marshal_def)

lemma eventsLoop_pair:
  assumes "stored_event ev"
  shows "eventsLoop F limit (event_pair ev # it) k acc =
    (if \<not> privacyEventTypeAllowed (pe_event ev) F then eventsLoop F limit it k acc
     else if k > 0 then eventsLoop F limit it (k - 1) acc
     else if word_of_nat (length acc) = limit then Some (acc, True)
     else eventsLoop F limit it k (acc @ [ev]))"
  using event_read [OF assms] by (cases "event_pair ev") simp

lemma events_loop:
  assumes "list_all stored_event es" "length acc \<le> unat limit"
  shows "eventsLoop F limit (map event_pair es) k acc =
    (let xs = drop (unat k) (filter (\<lambda>ev. privacyEventTypeAllowed (pe_event ev) F) es) in
     Some (acc @ take (unat limit - length acc) xs, unat limit < length acc + length xs))"
  using assms
proof (induction es arbitrary: k acc)
  case (Cons ev es)
  have ev: "stored_event ev" using Cons.prems by simp
  have full: "(word_of_nat (length acc) :: u64) = limit \<longleftrightarrow> length acc = unat limit"
    using Cons.prems(2) unat_u64_less [of limit] by (auto simp: word_unat_eq_iff unsigned_of_nat take_bit_nat_eq_self)
  have dec: "unat (k - 1) = unat k - 1" if "0 < k" using that by (simp add: unat_minus_one word_gt_0)
  have pos: "0 < unat k \<longleftrightarrow> 0 < k" by (simp add: word_less_nat_alt)
  show ?case
  proof (cases "privacyEventTypeAllowed (pe_event ev) F \<and> \<not> 0 < k \<and> length acc \<noteq> unat limit")
    case True
    then have "eventsLoop F limit (map event_pair (ev # es)) k acc = eventsLoop F limit (map event_pair es) k (acc @ [ev])"
      by (simp add: eventsLoop_pair [OF ev] full)
    moreover have "length (acc @ [ev]) \<le> unat limit" "unat k = 0" using True Cons.prems(2) pos by auto
    ultimately show ?thesis using Cons.IH [of "acc @ [ev]" k] Cons.prems True by (simp add: Let_def take_Cons' Suc_diff_Suc)
  next
    case False
    then show ?thesis using Cons.IH [of acc k] Cons.IH [of acc "k - 1"] Cons.prems pos dec
      by (auto simp: eventsLoop_pair [OF ev] full Let_def drop_Cons' split: if_splits)
  qed
qed simp

lemma event_range_from:
  assumes "event_index evs s" "0 \<le> h" "h < 2 ^ 63"
  shows "kv_range (GetPrivacyEventStartKey h) (PrefixEndBytes GetPrivacyEventPrefix) s = map event_pair (filter (\<lambda>ev. h \<le> pe_height ev) evs)"
proof -
  let ?start = "GetPrivacyEventStartKey h"
  note I = event_indexD [OF assms(1)]
  have start: "?start = GetPrivacyEventKey h 0" using assms(2) by (simp add: GetPrivacyEventStartKey_def)
  have first: "GetPrivacyEventPrefix \<le> ?start" by (simp add: start GetPrivacyEventPrefix_def GetPrivacyEventKey_def)
  have from_height: "?start \<le> fst (event_pair ev) \<longleftrightarrow> h \<le> pe_height ev" if "ev \<in> set evs" for ev
  proof -
    have ev: "0 \<le> pe_height ev" "pe_height ev < 2 ^ 63" using I(2) [OF that] by (simp_all add: stored_event_def)
    have "fst (event_pair ev) < ?start \<longleftrightarrow> pe_height ev < h"
      using height_order [OF ev assms(2,3)] by (auto simp: start event_pair_def GetPrivacyEventKey_def append_less)
    then show ?thesis by (metis not_less)
  qed
  have "kv_range ?start (PrefixEndBytes GetPrivacyEventPrefix) s = filter (\<lambda>(k, _). ?start \<le> k) (event_range_of s)"
    unfolding event_range_of_def kv_range_def filter_filter by (rule filter_cong [OF refl]) (use order_trans [OF first] in auto)
  also have "\<dots> = map event_pair (filter (\<lambda>ev. h \<le> pe_height ev) evs)"
    unfolding I(4) filter_map comp_def by (rule arg_cong [of _ _ "map event_pair"], rule filter_cong) (simp_all add: case_prod_beta from_height)
  finally show ?thesis .
qed

lemma next_height:
  assumes "- (2 ^ 63) \<le> a" "a < 2 ^ 63"
  shows "sint (word_of_int (a + 1) :: u64) = (if a = 2 ^ 63 - 1 then - (2 ^ 63) else a + 1)"
proof (cases "a = 2 ^ 63 - 1")
  case True
  have "sint (word_of_int (2 ^ 63) :: u64) = - (2 ^ 63)" by simp
  then show ?thesis using True by simp
next
  case False
  have "sint (word_of_int b :: u64) = b" if "- (2 ^ 63) \<le> b" "b < 2 ^ 63" for b using that by (simp add: signed_of_int signed_take_bit_int_eq_self)
  from this [of "a + 1"] False assms show ?thesis by (simp only: if_False)
qed

section \<open>A withdrawal on an empty store\<close>

definition sample_block :: exec_ctx where
  "sample_block = \<lparr>block_height = 3, block_unix = 0, chain_id = [], tx_bytes = [], tx_hash = [], header_hash = [], is_check_tx = False, is_recheck_tx = False,
     init_active = False, apply_marker = False, msg_index = 0, gas_limit = 0\<rparr>"

definition sample_attrs :: "(string \<times> string) list" where
  "sample_attrs = [(AttributeKeyNullifier, hex_of_bytes sample_c2)]"

definition sample_pe :: privacy_event where
  "sample_pe = eventOf 1 3 [] EventTypeWithdraw sample_attrs"

definition sample_chain :: "unit chain" where
  "sample_chain = \<lparr>ch_store = [], ch_bank = (), ch_gas = 0, ch_events = []\<rparr>"

lemma sample_empty_inv: "index_inv env [] [] 0 []"
proof -
  have "event_index [] []" by (simp add: event_index_def event_range_of_def kv_range_def)
  moreover have "scan_index env [] []" by (simp add: scan_index_def kv_range_def)
  ultimately show ?thesis by (simp add: index_inv_def GetPrivacyGlobalSequence_def)
qed

lemma hexDecode_hex: "hexDecode (hex_of_bytes h) = Some h"
proof (induction h)
  case (Cons b h)
  have digit: "hexDigit (hex_digit i) = Some i" if "i < 16" for i
  proof -
    have "list_all (\<lambda>i. hexDigit (hex_digit i) = Some i) [0..<16]" by (simp add: upt_conv_Cons hex_digit_def hexDigit_def Let_def)
    then show ?thesis using that by (simp add: list_all_iff)
  qed
  have "unat b div 16 < 16" "unat b mod 16 < 16" using unat_u8_less [of b] by simp_all
  then show ?case using Cons by (simp add: digit)
qed simp

lemma sample_built: "buildLegacyPrivacyScanV2 1 3 [] EventTypeWithdraw sample_attrs s = Inr (sample_withdrawal, [])"
proof -
  have "sample_c2 \<noteq> []" using sample_lengths(2) by (metis list.size(3) zero_neq_numeral)
  then have len: "sample_c2 \<noteq> []" "hex_of_bytes sample_c2 \<noteq> []" using hex_of_bytes_inj [of sample_c2 "[]"] by auto
  then have "decodeRequiredHexAttribute (attributeMap sample_attrs) AttributeKeyNullifier = Inr sample_c2"
    by (simp add: decodeRequiredHexAttribute_def decodeOptionalHexAttribute_def attributeMap_def sample_attrs_def hex_quotes hex_trim hexDecode_hex)
  then have n: "legacyNullifier (attributeMap sample_attrs) AttributeKeyNullifier = Inr sample_c2"
    using sample_canonical by (simp add: legacyNullifier_def strict_canonical)
  have "decodeOptionalHexAttribute (\<lambda>_. []) ''tx_hash'' = Inr []"
    using hex_trim [of "[]"] by (simp add: decodeOptionalHexAttribute_def)
  then show ?thesis
    using n by (simp add: buildLegacyPrivacyScanV2_def sample_withdrawal_def empty_summary_def EventTypeWithdraw_def EventTypeDeposit_def EventTypeShieldedTransfer_def)
qed

definition sample_stored :: store where
  "sample_stored = kv_set (fst (event_pair sample_pe)) (snd (event_pair sample_pe)) (written (sample_withdrawal, []) (kv_set GetPrivacyGlobalSequenceKey (be64 1) []))"

lemma sample_indexed: "indexPrivacyEvent (sample_env False) None sample_block EventTypeWithdraw [] sample_attrs [] = (Inr (), sample_stored)"
proof -
  let ?s1 = "kv_set GetPrivacyGlobalSequenceKey (be64 1) []"
  have ok: "event_ok (sample_env False) ?s1 (sample_withdrawal, [])" by (rule sample_events_ok(1))
  have empty: "scan_index (sample_env False) [] ?s1"
    by (rule scan_index_cong [OF index_invD(2) [OF sample_empty_inv]]) (auto simp: GetPrivacyGlobalSequenceKey_def key_prefix_defs simp del: kv_set.simps)
  have store: "storePrivacyScan (sample_env False) (Some sample_withdrawal) [] ?s1 = (Inr (), written (sample_withdrawal, []) ?s1)"
    using store_run [of "[]" sample_withdrawal "sample_env False" ?s1] ok fresh_iff [OF empty ok] event_okD(2) [OF ok] by simp
  have leaf: "GetLeafCount (written (sample_withdrawal, []) ?s1) = Inr 0"
    using written_other [OF ok, of LeafCountKey]
    by (simp add: GetLeafCount_def output_entry_def summary_entry_def key_simps GetPrivacyScanOutputKey_def GetPrivacyScanSummaryKey_def
        GetPrivacyScanSequenceKey_def GetPrivacyGlobalSequenceKey_def LeafCountKey_def key_prefix_defs del: kv_set.simps)
  show ?thesis
    using store sample_built [of ?s1] leaf
    by (simp add: indexPrivacyEvent_def AllocatePrivacyGlobalSequence_def allocatePrivacyGlobalSequence_def GetPrivacyGlobalSequence_def MaxUint64_def
        setPrivacyGlobalSequence_def StorePrivacyScanV2_def allowsGenesisStateImport_def RecordCurrentMerkleRootSnapshotV1_def bindM_run sample_block_def
        sample_stored_def sample_pe_def event_pair_def eventOf_def del: kv_set.simps)
qed

lemma sample_pe_small: "QueryPrivacyEvent_Size sample_pe < 2 ^ 63"
proof -
  have "length (hex_of_bytes bs) = 2 * length bs" for bs by (induction bs) simp_all
  then show ?thesis using hex_trim [of "[]"] sample_lengths(2)
    by (simp add: sample_pe_def eventOf_def QueryPrivacyEvent_Size_def QueryPrivacyEventAttribute_Size_def sample_attrs_def szNum_def szBytes_def szMsg_def
        sov_one sov_two ToUpper_def EventTypeWithdraw_def AttributeKeyNullifier_def)
qed

lemma sample_stored_inv: "index_inv (sample_env False) [sample_pe] [(sample_withdrawal, [])] 1 sample_stored"
proof -
  have "\<exists>h. ToUpper (TrimSpace []) = ToUpper (hex_of_bytes h)" using hex_trim [of "[]"] by (intro exI [of _ "[]"]) simp
  from index_step [OF sample_empty_inv sample_indexed _ _ this] sample_pe_small sample_built [of "[]"] show ?thesis
    by (auto simp: sample_block_def sample_pe_def insert_pe_def insert_event_def)
qed

section \<open>The properties\<close>

text \<open>C9. The event query on a store that represents a list of events: it returns the requested page of the events above the given height
  whose type is admitted, and announces more exactly when an event follows the page. The number of skipped events is the product of the
  page and the limit modulo \<open>2 ^ 64\<close>, and a query above the largest height wraps around and starts at the first event.\<close>

theorem events_page:
  assumes "event_index evs s" "- (2 ^ 63) \<le> afterHeight" "afterHeight < 2 ^ 63"
  shows "GetPrivacyEvents afterHeight page limit types s =
    (let above = (if afterHeight = 2 ^ 63 - 1 then - 1 else afterHeight);
         xs = drop (unat ((page - 1) * limit)) (selected above (normalizePrivacyEventTypes types) evs)
     in Some (take (unat limit) xs, unat limit < length xs))"
proof -
  let ?F = "normalizePrivacyEventTypes types" and ?above = "if afterHeight = 2 ^ 63 - 1 then - 1 else afterHeight"
  define h where "h = (if sint (word_of_int (afterHeight + 1) :: u64) < 0 then 0 else sint (word_of_int (afterHeight + 1) :: u64))"
  have h: "h = max 0 (?above + 1)" using next_height [OF assms(2,3)] by (simp add: h_def)
  have range: "0 \<le> h" "h < 2 ^ 63" using assms(3) by (auto simp: h)
  have "h \<le> pe_height ev \<longleftrightarrow> ?above < pe_height ev" if "ev \<in> set evs" for ev
    using event_indexD(2) [OF assms(1) that] by (auto simp: h stored_event_def)
  then have sel: "filter (\<lambda>ev. privacyEventTypeAllowed (pe_event ev) ?F) (filter (\<lambda>ev. h \<le> pe_height ev) evs) = selected ?above ?F evs"
    unfolding selected_def filter_filter by (intro filter_cong) auto
  have "list_all stored_event (filter (\<lambda>ev. h \<le> pe_height ev) evs)" using event_indexD(2) [OF assms(1)] by (auto simp: list_all_iff)
  note loop = events_loop [OF this, of "[]" limit ?F "(page - 1) * limit", unfolded sel Let_def]
  have "GetPrivacyEvents afterHeight page limit types s =
      eventsLoop ?F limit (map event_pair (filter (\<lambda>ev. h \<le> pe_height ev) evs)) ((page - 1) * limit) []"
    unfolding GetPrivacyEvents_def Let_def h_def [symmetric] event_range_from [OF assms(1) range] by (rule refl)
  then show ?thesis unfolding Let_def by (simp only: loop list.size append_Nil) simp
qed

theorem events_page_witness:
  "GetPrivacyEvents 0 1 10 [] sample_stored = Some ([sample_pe], False) \<and> GetPrivacyEvents 3 1 10 [] sample_stored = Some ([], False) \<and>
   GetPrivacyEvents 9223372036854775807 1 10 [] sample_stored = Some ([sample_pe], False)"
proof -
  have "pe_height sample_pe = 3" by (simp add: sample_pe_def eventOf_def)
  then have "selected (- 1) {} [sample_pe] = [sample_pe]" "selected 0 {} [sample_pe] = [sample_pe]" "selected 3 {} [sample_pe] = []"
    by (simp_all add: selected_def privacyEventTypeAllowed_def)
  moreover have "normalizePrivacyEventTypes [] = {}" by (simp add: normalizePrivacyEventTypes_def)
  ultimately show ?thesis
    using events_page [OF index_invD(1) [OF sample_stored_inv], of 0 1 10 "[]"] events_page [OF index_invD(1) [OF sample_stored_inv], of 3 1 10 "[]"]
      events_page [OF index_invD(1) [OF sample_stored_inv], of 9223372036854775807 1 10 "[]"] by simp
qed

text \<open>C8. Indexing an event. When the handler of a legacy message emits an event, the typed records built from its attributes are valid, both
  indexes then represent their lists with exactly this event inserted under the next global sequence number, which has not wrapped around, and
  the event itself is emitted once.\<close>

theorem event_indexed:
  assumes "index_inv env evs scans g (ch_store c)" "emitIndexedPrivacyEvent env rt ctx ty attrs c = (Inr (), c')"
    and "0 \<le> block_height ctx" "block_height ctx < 2 ^ 63"
    and "QueryPrivacyEvent_Size (eventOf (g + 1) (block_height ctx) (txHashHexFromContext ctx) ty attrs) < 2 ^ 63"
  shows "\<exists>m outs. buildLegacyPrivacyScanV2 (g + 1) (block_height ctx) (txHashHexFromContext ctx) ty attrs (ch_store c) = Inr (m, outs) \<and> g < g + 1 \<and>
    index_inv env (insert_pe (eventOf (g + 1) (block_height ctx) (txHashHexFromContext ctx) ty attrs) evs) (insert_event (m, outs) scans) (g + 1) (ch_store c') \<and>
    ch_events c' = ch_events c @ [(ty, attrs)] \<and> ch_bank c' = ch_bank c"
proof -
  obtain t where t: "indexPrivacyEvent env rt ctx ty (txHashHexFromContext ctx) attrs (ch_store c) = (Inr (), t)"
    "c' = c\<lparr>ch_events := ch_events c @ [(ty, attrs)], ch_store := t\<rparr>"
    using assms(2) unfolding emitIndexedPrivacyEvent_def emitEvent_def onStore_def by (auto simp: bindM_run split: prod.splits)
  show ?thesis using index_step [OF assms(1) t(1) assms(3,4) emitted_hash assms(5)] t(2) by auto
qed

theorem event_indexed_witness:
  "\<exists>c'. emitIndexedPrivacyEvent (sample_env False) None sample_block EventTypeWithdraw sample_attrs sample_chain = (Inr (), c') \<and>
     index_inv (sample_env False) [sample_pe] [(sample_withdrawal, [])] 1 (ch_store c') \<and> ch_events c' = [(EventTypeWithdraw, sample_attrs)]"
proof -
  have ctx: "txHashHexFromContext sample_block = []" "block_height sample_block = 3" by (simp_all add: txHashHexFromContext_def sample_block_def)
  have start: "ch_store sample_chain = []" "ch_events sample_chain = []" by (simp_all add: sample_chain_def)
  have run: "emitIndexedPrivacyEvent (sample_env False) None sample_block EventTypeWithdraw sample_attrs sample_chain =
      (Inr (), sample_chain\<lparr>ch_events := [(EventTypeWithdraw, sample_attrs)], ch_store := sample_stored\<rparr>)"
    using sample_indexed by (simp add: emitIndexedPrivacyEvent_def emitEvent_def onStore_def bindM_run ctx start)
  show ?thesis
    using event_indexed [OF _ run, of "[]" "[]" 0] sample_empty_inv [of "sample_env False"] sample_pe_small sample_built [of "[]"] run
    by (auto simp: ctx start insert_pe_def insert_event_def sample_pe_def)
qed

text \<open>C7. The genesis of the indexes round-trips: from a store whose indexes represent some events, the exported records, summaries and outputs are
  accepted by the importer in a store that has the same commitments and empty indexes, and the indexes then represent the same events with
  the same global sequence number; no other key is written.\<close>

theorem index_genesis_roundtrip:
  assumes "index_inv env evs scans g s"
    and "kv_wf t0" "\<And>k. index_key k \<Longrightarrow> kv_get t0 k = (if hd k = KeyPrefixCommitmentIdx then kv_get s k else None)"
    and "allowsGenesisStateImport rt ctx"
  shows "\<exists>records summaries outs t. ExportGenesisPrivacyEventsV1 s = Inr records \<and> ExportGenesisPrivacyScanV2 env s = Inr (summaries, outs) \<and>
    InitGenesisPrivacyIndexV2 env rt ctx g records (map Some summaries) (map Some outs) t0 = (Inr (), t) \<and> index_inv env evs scans g t \<and>
    (\<forall>k. \<not> scan_key k \<and> \<not> (\<exists>r. k = KeyPrefixPrivacyEvent # r) \<longrightarrow> kv_get t k = kv_get t0 k)"
proof -
  note I = index_invD [OF assms(1)]
  show ?thesis using genesis_rebuilds [OF assms] export_events [OF I(1)] export_index [OF I(2)] by blast
qed

theorem index_genesis_roundtrip_witness:
  "\<exists>records summaries outs t. ExportGenesisPrivacyEventsV1 sample_stored = Inr records \<and> ExportGenesisPrivacyScanV2 (sample_env False) sample_stored = Inr (summaries, outs) \<and>
    InitGenesisPrivacyIndexV2 (sample_env False) None sample_block 1 records (map Some summaries) (map Some outs) [] = (Inr (), t) \<and>
    index_inv (sample_env False) [sample_pe] [(sample_withdrawal, [])] 1 t"
proof -
  have "kv_get [] k = (if hd k = KeyPrefixCommitmentIdx then kv_get sample_stored k else None)" if "index_key k" for k
  proof (cases "hd k = KeyPrefixCommitmentIdx")
    case True
    then have apart: "k \<noteq> fst (event_pair sample_pe)" "k \<noteq> fst (output_entry out)" "k \<noteq> fst (summary_entry e)" "k \<noteq> GetPrivacyScanSequenceKey q"
      "k \<noteq> GetPrivacyGlobalSequenceKey" for out e q
      by (auto simp: event_pair_def output_entry_def summary_entry_def GetPrivacyEventKey_def GetPrivacyScanOutputKey_def GetPrivacyScanSummaryKey_def
          GetPrivacyScanSequenceKey_def GetPrivacyGlobalSequenceKey_def key_prefix_defs)
    have "kv_get sample_stored k = None"
      using apart written_other [OF sample_events_ok(1) apart(2,3,4)] by (simp add: sample_stored_def del: kv_set.simps)
    then show ?thesis by simp
  qed simp
  then show ?thesis using index_genesis_roundtrip [OF sample_stored_inv, of "[]" None sample_block] by (auto simp: allowsGenesisStateImport_def)
qed

end
