(* ===== verification/Intent.thy ===== *)
theory Intent
  imports Batch_Contract Audit_Aux
begin

text \<open>
  The digests that a proof of the first service binds (\<^verbatim>\<open>x/privacy/types/intent.go\<close>): the chain domain, the recipient of a withdrawal, the canonical bytes of
  the effects of a transfer, and the intents over field elements. The canonical bytes are a prefix code, so equal payload digests mean equal
  effects or an exhibited collision of SHA-256.
\<close>

section \<open>Length-prefixed bytes\<close>

definition writeLengthPrefixedBytes :: "bytes \<Rightarrow> bytes res" where
  "writeLengthPrefixedBytes v =
     bindE (guardE (\<not> length v > 0xffffffff) (Errorf ''byte value is too large'')) (\<lambda>_. Inr (be32 (word_of_nat (length v)) @ v))"

definition writeByteSlice :: "bytes list \<Rightarrow> bytes res" where
  "writeByteSlice vs =
     bindE (guardE (\<not> length vs > 0xffffffff) (Errorf ''byte slice contains too many values'')) (\<lambda>_.
     bindE (traverseE writeLengthPrefixedBytes vs) (\<lambda>parts. Inr (be32 (word_of_nat (length vs)) @ concat parts)))"

section \<open>Digests\<close>

record digest_limbs =
  dl_hi :: nat
  dl_lo :: nat

definition SplitDigestToLimbs :: "bytes \<Rightarrow> digest_limbs" where
  "SplitDigestToLimbs digest = \<lparr>dl_hi = be_to_nat (take 16 digest), dl_lo = be_to_nat (drop 16 digest)\<rparr>"

definition ChainDomainV1ByteDomain :: string where "ChainDomainV1ByteDomain = ''clairveil.chain-domain.v1''"
definition TransferPayloadV1ByteDomain :: string where "TransferPayloadV1ByteDomain = ''clairveil.transfer-payload.v1''"
definition WithdrawRecipientV1ByteDomain :: string where "WithdrawRecipientV1ByteDomain = ''clairveil.withdraw-recipient.v1''"
definition TransferIntentV2FieldDomain :: string where "TransferIntentV2FieldDomain = ''CLAIRVEIL_TRANSFER_INTENT_V2''"
definition SpendIntentV2FieldDomain :: string where "SpendIntentV2FieldDomain = ''CLAIRVEIL_SPEND_INTENT_V2''"
definition NullifierSetV1FieldDomain :: string where "NullifierSetV1FieldDomain = ''CLAIRVEIL_NULLIFIER_SET_V1''"
definition CommitmentSetV1FieldDomain :: string where "CommitmentSetV1FieldDomain = ''CLAIRVEIL_COMMITMENT_SET_V1''"
definition JoinSplit2x2V2CircuitKindFieldDomain :: string where "JoinSplit2x2V2CircuitKindFieldDomain = ''CLAIRVEIL_JOINSPLIT_2X2_V2''"
definition SpendV2CircuitKindFieldDomain :: string where "SpendV2CircuitKindFieldDomain = ''CLAIRVEIL_SPEND_V2''"
definition CanonicalTransferPayloadFormatVersion :: u32 where "CanonicalTransferPayloadFormatVersion = 1"

definition ComputeChainDomainV1 :: "string \<Rightarrow> string \<Rightarrow> digest_limbs res" where
  "ComputeChainDomainV1 chainID circuitSetID =
     bindE (guardE (chainID \<noteq> []) (Errorf ''chain id is required'')) (\<lambda>_.
     bindE (guardE (circuitSetID \<noteq> []) (Errorf ''circuit set id is required'')) (\<lambda>_.
     bindE (writeLengthPrefixedBytes (string_bytes chainID)) (\<lambda>a.
     bindE (writeLengthPrefixedBytes (string_bytes circuitSetID)) (\<lambda>b.
     Inr (SplitDigestToLimbs (sha256 (string_bytes ChainDomainV1ByteDomain @ a @ b)))))))"

definition ComputeWithdrawRecipientDigestV1 :: "bytes \<Rightarrow> digest_limbs res" where
  "ComputeWithdrawRecipientDigestV1 recipientBytes =
     bindE (guardE (length recipientBytes \<noteq> 0) (Errorf ''withdraw recipient bytes are required'')) (\<lambda>_.
     bindE (writeLengthPrefixedBytes recipientBytes) (\<lambda>a.
     Inr (SplitDigestToLimbs (sha256 (string_bytes WithdrawRecipientV1ByteDomain @ a)))))"

text \<open>The transfer message of the first service (\<^verbatim>\<open>MsgTransfer\<close> of \<^verbatim>\<open>tx.pb.go\<close>).\<close>

record legacy_transfer =
  lt_creator :: string
  lt_proof :: bytes
  lt_root :: bytes
  lt_nullifiers :: "bytes list"
  lt_commitments :: "bytes list"
  lt_ciphertexts :: "bytes list"
  lt_view_tags :: "bytes list"
  lt_policy :: u32
  lt_user_digest :: bytes
  lt_mode :: u32
  lt_user_target :: bytes
  lt_user_payload :: bytes
  lt_audit_digest :: bytes
  lt_audit_target :: bytes
  lt_audit_payload :: bytes
  lt_self_digest :: bytes
  lt_self_payload :: bytes
  lt_expires :: int

definition CanonicalTransferPayloadBytesV1 :: "legacy_transfer option \<Rightarrow> bytes res" where
  "CanonicalTransferPayloadBytesV1 mo =
     (case mo of
        None \<Rightarrow> Inl (Errorf ''transfer message is required'')
      | Some m \<Rightarrow>
          bindE (guardE (\<not> lt_expires m \<le> 0) (Errorf ''expires_at_unix must be positive for transfer'')) (\<lambda>_.
          bindE (guardE (\<not> sint (lt_mode m) < 0) (Errorf ''user disclosure mode must not be negative'')) (\<lambda>_.
          bindE (writeLengthPrefixedBytes (lt_root m)) (\<lambda>root.
          bindE (writeByteSlice (lt_nullifiers m)) (\<lambda>nullifiers.
          bindE (writeByteSlice (lt_commitments m)) (\<lambda>commitments.
          bindE (writeByteSlice (lt_ciphertexts m)) (\<lambda>ciphertexts.
          bindE (writeByteSlice (lt_view_tags m)) (\<lambda>viewTags.
          bindE (traverseE writeLengthPrefixedBytes [lt_user_digest m, lt_user_target m, lt_user_payload m, lt_audit_digest m, lt_audit_target m,
            lt_audit_payload m, lt_self_digest m, lt_self_payload m]) (\<lambda>values.
          Inr (be32 CanonicalTransferPayloadFormatVersion @ root @ nullifiers @ commitments @ ciphertexts @ viewTags @
            be32 (lt_policy m) @ be32 (lt_mode m) @ concat values @ be64 (word_of_int (lt_expires m))))))))))))"

definition ComputeTransferPayloadDigestV1 :: "legacy_transfer option \<Rightarrow> digest_limbs res" where
  "ComputeTransferPayloadDigestV1 mo =
     bindE (CanonicalTransferPayloadBytesV1 mo) (\<lambda>payload.
     Inr (SplitDigestToLimbs (sha256 (string_bytes TransferPayloadV1ByteDomain @ payload))))"

section \<open>Intents\<close>

definition ComputeOrderedSetDigestV1 :: "'a crypto_env_scheme \<Rightarrow> string \<Rightarrow> bigint list \<Rightarrow> nat res" where
  "ComputeOrderedSetDigestV1 env domain vs =
     bindE (guardE (\<not> (domain \<noteq> NullifierSetV1FieldDomain \<and> domain \<noteq> CommitmentSetV1FieldDomain)) (Errorf ''unsupported ordered set domain'')) (\<lambda>_.
     bindE (guardE (\<not> length vs > 0xffffffff) (Errorf ''ordered set contains too many values'')) (\<lambda>_.
     bindE (traverseE (validateIntentFieldElement ''ordered set value'') vs) (\<lambda>_.
     Inr (MimcBig env ([num (HashString domain), num (length vs)] @ vs)))))"

record transfer_intent_input =
  ti_chain_hi :: bigint
  ti_chain_lo :: bigint
  ti_root :: bigint
  ti_asset :: bigint
  ti_nullifiers :: "bigint \<times> bigint"
  ti_commitments :: "bigint \<times> bigint"
  ti_user_digest :: bigint
  ti_full_digest :: bigint
  ti_payload_hi :: bigint
  ti_payload_lo :: bigint
  ti_expires :: int

definition ComputeTransferIntentV2 :: "'a crypto_env_scheme \<Rightarrow> transfer_intent_input \<Rightarrow> nat res" where
  "ComputeTransferIntentV2 env i =
     bindE (traverseE (validateIntentFieldElement ''transfer intent field'') [ti_chain_hi i, ti_chain_lo i, ti_root i, ti_asset i, fst (ti_nullifiers i),
       snd (ti_nullifiers i), fst (ti_commitments i), snd (ti_commitments i), ti_user_digest i, ti_full_digest i, ti_payload_hi i, ti_payload_lo i]) (\<lambda>_.
     bindE (guardE (fitsUnsignedBits (ti_chain_hi i) 128 \<and> fitsUnsignedBits (ti_chain_lo i) 128 \<and> fitsUnsignedBits (ti_payload_hi i) 128 \<and>
       fitsUnsignedBits (ti_payload_lo i) 128) (Errorf ''chain and payload digest limbs must be unsigned 128-bit integers'')) (\<lambda>_.
     bindE (guardE (\<not> ti_expires i \<le> 0) (Errorf ''expires_at_unix must be positive'')) (\<lambda>_.
     bindE (ComputeOrderedSetDigestV1 env NullifierSetV1FieldDomain [fst (ti_nullifiers i), snd (ti_nullifiers i)]) (\<lambda>nullifierDigest.
     bindE (ComputeOrderedSetDigestV1 env CommitmentSetV1FieldDomain [fst (ti_commitments i), snd (ti_commitments i)]) (\<lambda>commitmentDigest.
     Inr (MimcBig env [num (HashString TransferIntentV2FieldDomain), ti_chain_hi i, ti_chain_lo i, num (HashString JoinSplit2x2V2CircuitKindFieldDomain),
       ti_root i, Some 2, Some 2, ti_asset i, num nullifierDigest, num commitmentDigest, ti_user_digest i, ti_full_digest i, ti_payload_hi i,
       ti_payload_lo i, Some (ti_expires i)]))))))"

record spend_intent_input =
  si_chain_hi :: bigint
  si_chain_lo :: bigint
  si_root :: bigint
  si_nullifier :: bigint
  si_amount :: bigint
  si_asset :: bigint
  si_recipient_hi :: bigint
  si_recipient_lo :: bigint
  si_expires :: int

definition ComputeSpendIntentV2 :: "'a crypto_env_scheme \<Rightarrow> spend_intent_input \<Rightarrow> nat res" where
  "ComputeSpendIntentV2 env i =
     bindE (traverseE (validateIntentFieldElement ''spend intent field'') [si_chain_hi i, si_chain_lo i, si_root i, si_nullifier i, si_amount i, si_asset i,
       si_recipient_hi i, si_recipient_lo i]) (\<lambda>_.
     bindE (guardE (fitsUnsignedBits (si_chain_hi i) 128 \<and> fitsUnsignedBits (si_chain_lo i) 128 \<and> fitsUnsignedBits (si_recipient_hi i) 128 \<and>
       fitsUnsignedBits (si_recipient_lo i) 128) (Errorf ''chain and recipient digest limbs must be unsigned 128-bit integers'')) (\<lambda>_.
     bindE (guardE (\<not> si_expires i \<le> 0) (Errorf ''expires_at_unix must be positive'')) (\<lambda>_.
     Inr (MimcBig env [num (HashString SpendIntentV2FieldDomain), si_chain_hi i, si_chain_lo i, num (HashString SpendV2CircuitKindFieldDomain), si_root i,
       si_nullifier i, si_amount i, si_asset i, si_recipient_hi i, si_recipient_lo i, Some (si_expires i)]))))"

section \<open>Prefix codes\<close>

text \<open>An encoder whose output can be split off the front of a longer byte string in one way only.\<close>

locale prefix_code =
  fixes enc :: "'a \<Rightarrow> bytes res"
  assumes code_split: "enc v = Inr p \<Longrightarrow> enc w = Inr q \<Longrightarrow> p @ r = q @ s \<Longrightarrow> v = w \<and> r = s"
begin

lemma code_inj: "enc v = Inr p \<Longrightarrow> enc w = Inr p \<Longrightarrow> v = w"
  using code_split [of v p w p "[]" "[]"] by simp

lemma codes_split:
  "traverseE enc vs = Inr ps \<Longrightarrow> traverseE enc ws = Inr qs \<Longrightarrow> length vs = length ws \<Longrightarrow> concat ps @ r = concat qs @ s \<Longrightarrow> vs = ws \<and> r = s"
proof (induction vs arbitrary: ws ps qs)
  case (Cons v vs)
  obtain w ws' where ws: "ws = w # ws'" "length vs = length ws'" using Cons.prems(3) by (cases ws) auto
  obtain p ps' where ps: "enc v = Inr p" "traverseE enc vs = Inr ps'" "ps = p # ps'" using Cons.prems(1) by auto
  obtain q qs' where qs: "enc w = Inr q" "traverseE enc ws' = Inr qs'" "qs = q # qs'" using Cons.prems(2) ws(1) by auto
  have "v = w \<and> concat ps' @ r = concat qs' @ s" using Cons.prems(4) ps(3) qs(3) by (intro code_split [OF ps(1) qs(1)]) simp
  then show ?case using Cons.IH [OF ps(2) qs(2) ws(2)] ws(1) by simp
qed auto

end

lemma u32_count: "n \<le> 0xffffffff \<Longrightarrow> m \<le> 0xffffffff \<Longrightarrow> (word_of_nat n :: u32) = word_of_nat m \<longleftrightarrow> n = m"
  by (auto simp: word_unat_eq_iff unsigned_of_nat take_bit_nat_eq_self)

interpretation lp: prefix_code writeLengthPrefixedBytes
proof
  fix v p w q r s
  assume "writeLengthPrefixedBytes v = Inr p" "writeLengthPrefixedBytes w = Inr q" "p @ r = q @ s"
  moreover have "writeLengthPrefixedBytes x = Inr y \<longleftrightarrow> appendLP x = Inr y" for x y by (auto simp: writeLengthPrefixedBytes_def appendLP_def)
  ultimately show "v = w \<and> r = s" using appendLP_split by blast
qed

interpretation slice: prefix_code writeByteSlice
proof
  fix v p w q r s
  assume v: "writeByteSlice v = Inr p" and w: "writeByteSlice w = Inr q" and eq: "p @ r = q @ s"
  obtain ps where ps: "length v \<le> 0xffffffff" "traverseE writeLengthPrefixedBytes v = Inr ps" "p = be32 (word_of_nat (length v)) @ concat ps"
    using v by (auto simp: writeByteSlice_def)
  obtain qs where qs: "length w \<le> 0xffffffff" "traverseE writeLengthPrefixedBytes w = Inr qs" "q = be32 (word_of_nat (length w)) @ concat qs"
    using w by (auto simp: writeByteSlice_def)
  have "be32 (word_of_nat (length v)) @ (concat ps @ r) = be32 (word_of_nat (length w)) @ (concat qs @ s)" using eq ps(3) qs(3) by simp
  then have "(word_of_nat (length v) :: u32) = word_of_nat (length w)" "concat ps @ r = concat qs @ s" by (simp_all add: append_eq_append_conv)
  then show "v = w \<and> r = s" using lp.codes_split [OF ps(2) qs(2)] u32_count [OF ps(1) qs(1)] by simp
qed

section \<open>The payload binds the effects\<close>

lemma positive_height_word: "0 \<le> h \<Longrightarrow> h < 2 ^ 63 \<Longrightarrow> int (unat (word_of_int h :: u64)) = h"
  by (simp add: unsigned_of_int take_bit_int_eq_self)

definition transfer_effects :: "legacy_transfer \<Rightarrow> legacy_transfer" where
  "transfer_effects m = m\<lparr>lt_creator := [], lt_proof := []\<rparr>"

definition payload_tail :: "legacy_transfer \<Rightarrow> bytes list" where
  "payload_tail m = [lt_user_digest m, lt_user_target m, lt_user_payload m, lt_audit_digest m, lt_audit_target m, lt_audit_payload m, lt_self_digest m,
     lt_self_payload m]"

lemma payload_parts:
  assumes "CanonicalTransferPayloadBytesV1 (Some m) = Inr bs"
  obtains root ns cs xs vs ws where "writeLengthPrefixedBytes (lt_root m) = Inr root" "writeByteSlice (lt_nullifiers m) = Inr ns"
    "writeByteSlice (lt_commitments m) = Inr cs" "writeByteSlice (lt_ciphertexts m) = Inr xs" "writeByteSlice (lt_view_tags m) = Inr vs"
    "traverseE writeLengthPrefixedBytes (payload_tail m) = Inr ws" "0 < lt_expires m"
    "bs = be32 1 @ root @ ns @ cs @ xs @ vs @ be32 (lt_policy m) @ be32 (lt_mode m) @ concat ws @ be64 (word_of_int (lt_expires m))"
  using assms unfolding CanonicalTransferPayloadBytesV1_def payload_tail_def [symmetric] CanonicalTransferPayloadFormatVersion_def by auto

lemma payload_inj:
  assumes "CanonicalTransferPayloadBytesV1 (Some m) = Inr bs" "CanonicalTransferPayloadBytesV1 (Some n) = Inr bs" "lt_expires m < 2 ^ 63" "lt_expires n < 2 ^ 63"
  shows "transfer_effects m = transfer_effects n"
proof -
  obtain root ns cs xs vs ws where m: "writeLengthPrefixedBytes (lt_root m) = Inr root" "writeByteSlice (lt_nullifiers m) = Inr ns"
    "writeByteSlice (lt_commitments m) = Inr cs" "writeByteSlice (lt_ciphertexts m) = Inr xs" "writeByteSlice (lt_view_tags m) = Inr vs"
    "traverseE writeLengthPrefixedBytes (payload_tail m) = Inr ws" "0 < lt_expires m"
    "bs = be32 1 @ root @ ns @ cs @ xs @ vs @ be32 (lt_policy m) @ be32 (lt_mode m) @ concat ws @ be64 (word_of_int (lt_expires m))"
    by (rule payload_parts [OF assms(1)])
  obtain root' ns' cs' xs' vs' ws' where n: "writeLengthPrefixedBytes (lt_root n) = Inr root'" "writeByteSlice (lt_nullifiers n) = Inr ns'"
    "writeByteSlice (lt_commitments n) = Inr cs'" "writeByteSlice (lt_ciphertexts n) = Inr xs'" "writeByteSlice (lt_view_tags n) = Inr vs'"
    "traverseE writeLengthPrefixedBytes (payload_tail n) = Inr ws'" "0 < lt_expires n"
    "bs = be32 1 @ root' @ ns' @ cs' @ xs' @ vs' @ be32 (lt_policy n) @ be32 (lt_mode n) @ concat ws' @ be64 (word_of_int (lt_expires n))"
    by (rule payload_parts [OF assms(2)])
  have "root @ ns @ cs @ xs @ vs @ be32 (lt_policy m) @ be32 (lt_mode m) @ concat ws @ be64 (word_of_int (lt_expires m)) =
      root' @ ns' @ cs' @ xs' @ vs' @ be32 (lt_policy n) @ be32 (lt_mode n) @ concat ws' @ be64 (word_of_int (lt_expires n))"
    using m(8) n(8) by simp
  note s1 = lp.code_split [OF m(1) n(1) this]
  note s2 = slice.code_split [OF m(2) n(2) conjunct2 [OF s1]]
  note s3 = slice.code_split [OF m(3) n(3) conjunct2 [OF s2]]
  note s4 = slice.code_split [OF m(4) n(4) conjunct2 [OF s3]]
  note s5 = slice.code_split [OF m(5) n(5) conjunct2 [OF s4]]
  have s6: "lt_policy m = lt_policy n" "lt_mode m = lt_mode n" "concat ws @ be64 (word_of_int (lt_expires m)) = concat ws' @ be64 (word_of_int (lt_expires n))"
    using s5 by (simp_all add: append_eq_append_conv)
  have s7: "payload_tail m = payload_tail n \<and> be64 (word_of_int (lt_expires m)) = be64 (word_of_int (lt_expires n))"
    by (rule lp.codes_split [OF m(6) n(6) _ s6(3)]) (simp add: payload_tail_def)
  then have "(word_of_int (lt_expires m) :: u64) = word_of_int (lt_expires n)" by simp
  then have "lt_expires m = lt_expires n" using m(7) n(7) assms(3,4)
    by (metis positive_height_word less_imp_le)
  then show ?thesis using s1 s2 s3 s4 s5 s6 s7 by (cases m; cases n) (simp add: transfer_effects_def payload_tail_def)
qed

lemma limbs_inj: "length a = 32 \<Longrightarrow> length b = 32 \<Longrightarrow> SplitDigestToLimbs a = SplitDigestToLimbs b \<Longrightarrow> a = b"
  by (simp add: SplitDigestToLimbs_def be_to_nat_inj) (metis append_take_drop_id)

text \<open>C10. The payload digest that a transfer proof binds determines the effects of the message: when two messages have the same digest, they have
  the same root, nullifiers, commitments, ciphertexts, view tags, disclosures and expiry, or their canonical payloads are two different
  preimages of one SHA-256 digest. The creator and the proof are not bound.\<close>

theorem transfer_payload_binding:
  assumes "ComputeTransferPayloadDigestV1 (Some m) = Inr d" "ComputeTransferPayloadDigestV1 (Some n) = Inr d" "lt_expires m < 2 ^ 63" "lt_expires n < 2 ^ 63"
  shows "transfer_effects m = transfer_effects n \<or>
    (\<exists>p q. CanonicalTransferPayloadBytesV1 (Some m) = Inr p \<and> CanonicalTransferPayloadBytesV1 (Some n) = Inr q \<and> p \<noteq> q \<and>
       sha256 (string_bytes TransferPayloadV1ByteDomain @ p) = sha256 (string_bytes TransferPayloadV1ByteDomain @ q))"
proof -
  obtain p q where p: "CanonicalTransferPayloadBytesV1 (Some m) = Inr p" and q: "CanonicalTransferPayloadBytesV1 (Some n) = Inr q"
    and "SplitDigestToLimbs (sha256 (string_bytes TransferPayloadV1ByteDomain @ p)) = SplitDigestToLimbs (sha256 (string_bytes TransferPayloadV1ByteDomain @ q))"
    using assms(1,2) by (auto simp: ComputeTransferPayloadDigestV1_def)
  then have "sha256 (string_bytes TransferPayloadV1ByteDomain @ p) = sha256 (string_bytes TransferPayloadV1ByteDomain @ q)" by (simp add: limbs_inj)
  then show ?thesis using p q payload_inj [of m p n] assms(3,4) by blast
qed

definition sample_legacy_transfer :: legacy_transfer where
  "sample_legacy_transfer = \<lparr>lt_creator = ''a'', lt_proof = [1], lt_root = [2], lt_nullifiers = [[3], [4]], lt_commitments = [[5], [6]], lt_ciphertexts = [[], []],
     lt_view_tags = [[7, 8], [9, 10]], lt_policy = 0, lt_user_digest = [], lt_mode = 0, lt_user_target = [], lt_user_payload = [], lt_audit_digest = [11],
     lt_audit_target = [12], lt_audit_payload = [13], lt_self_digest = [], lt_self_payload = [], lt_expires = 100\<rparr>"

theorem transfer_payload_binding_witness:
  "transfer_effects sample_legacy_transfer = transfer_effects (sample_legacy_transfer\<lparr>lt_creator := ''b'', lt_proof := []\<rparr>)"
proof -
  let ?n = "sample_legacy_transfer\<lparr>lt_creator := ''b'', lt_proof := []\<rparr>"
  have same: "CanonicalTransferPayloadBytesV1 (Some ?n) = CanonicalTransferPayloadBytesV1 (Some sample_legacy_transfer)"
    by (simp add: CanonicalTransferPayloadBytesV1_def)
  have "\<exists>bs. CanonicalTransferPayloadBytesV1 (Some sample_legacy_transfer) = Inr bs"
    by (simp add: CanonicalTransferPayloadBytesV1_def sample_legacy_transfer_def writeLengthPrefixedBytes_def writeByteSlice_def)
  then obtain d where "ComputeTransferPayloadDigestV1 (Some sample_legacy_transfer) = Inr d" "ComputeTransferPayloadDigestV1 (Some ?n) = Inr d"
    using same by (auto simp: ComputeTransferPayloadDigestV1_def)
  from transfer_payload_binding [OF this] same show ?thesis by (auto simp: sample_legacy_transfer_def)
qed

end
