(* ===== verification/Legacy_Messages.thy ===== *)
theory Legacy_Messages
  imports Intent Event_Index Audit_Message
begin

text \<open>
  The messages of the first service and what the handlers check of them before the state is read: the stateless validation of
  \<^verbatim>\<open>x/privacy/types/msg.go\<close>, the canonical framing of proofs (\<^verbatim>\<open>x/privacy/zk/proof.go\<close>, \<^verbatim>\<open>keeper/proof_helpers.go\<close>) and the audit configuration of the chain
  (\<^verbatim>\<open>keeper/audit_config.go\<close>). The decoder of gnark proofs, the pairing check with the loaded key and the two bank calls are fields of the environment.
\<close>

record 'b legacy_env = "'b msg_env" +
  proof_decode :: "bytes \<Rightarrow> (nat \<times> bytes) res"
  groth16_verify :: "string \<Rightarrow> bytes \<Rightarrow> nat list \<Rightarrow> unit res"
  send_to_module :: "bytes \<Rightarrow> string \<Rightarrow> coin list \<Rightarrow> 'b \<Rightarrow> unit res \<times> 'b"
  send_from_module :: "string \<Rightarrow> bytes \<Rightarrow> coin list \<Rightarrow> 'b \<Rightarrow> unit res \<times> 'b"

section \<open>Stateless validation\<close>

definition expectedJoinSplitElements :: nat where "expectedJoinSplitElements = 2"

definition validateCreatorAddress :: "('b, 'm) sdk_env_scheme \<Rightarrow> string \<Rightarrow> unit res" where
  "validateCreatorAddress env creator = guardE (acc_from_bech32 env creator \<noteq> None) (SdkErr ErrInvalidAddress ''invalid creator address'')"

definition invalidRequest :: "error \<Rightarrow> error" where
  "invalidRequest e = SdkErr ErrInvalidRequest (case e of Errorf t \<Rightarrow> t | SdkErr _ t \<Rightarrow> t | _ \<Rightarrow> [])"

definition validateTransferPayload :: "bytes \<Rightarrow> bytes list \<Rightarrow> bytes list \<Rightarrow> bytes list \<Rightarrow> bytes list \<Rightarrow> unit res" where
  "validateTransferPayload root nullifiers newCommitments cipherTexts viewTags =
     bindE (guardE (length nullifiers = expectedJoinSplitElements) (SdkErr ErrInvalidRequest ''transfer requires exactly 2 nullifiers'')) (\<lambda>_.
     bindE (guardE (length newCommitments = expectedJoinSplitElements) (SdkErr ErrInvalidRequest ''transfer requires exactly 2 commitments'')) (\<lambda>_.
     bindE (guardE (length cipherTexts = expectedJoinSplitElements) (SdkErr ErrInvalidRequest ''transfer requires exactly 2 ciphertexts'')) (\<lambda>_.
     bindE (guardE (length viewTags = expectedJoinSplitElements) (SdkErr ErrInvalidRequest ''transfer requires exactly 2 view tags'')) (\<lambda>_.
     bindE (types_validateFieldElementBytesStrict ''root'' root) (\<lambda>_.
     bindE (traverseE (validateActiveFieldElementBytesStrict ''nullifier'') nullifiers) (\<lambda>_.
     bindE (mapErr invalidRequest (ValidateDistinctCanonicalFieldElements ''nullifier'' nullifiers)) (\<lambda>_.
     bindE (traverseE (validateActiveFieldElementBytesStrict ''commitment'') newCommitments) (\<lambda>_.
     bindE (mapErr invalidRequest (ValidateDistinctCanonicalFieldElements ''commitment'' newCommitments)) (\<lambda>_.
     bindE (traverseE (\<lambda>viewTag. guardE (length viewTag = ViewTagLength) (SdkErr ErrInvalidRequest ''view tag must be exactly 2 bytes'')) viewTags) (\<lambda>_.
     bindE (traverseE (\<lambda>cipherText. mapErr (\<lambda>_. SdkErr ErrInvalidRequest ''ciphertext is not a canonical transfer-note envelope'')
       (UnwrapEncryptedEnvelopeV1 cipherText EnvelopeTransferNoteV1)) cipherTexts) (\<lambda>_.
     Inr ())))))))))))"

definition validateAuditDisclosure :: "'a crypto_env_scheme \<Rightarrow> bytes \<Rightarrow> bytes \<Rightarrow> bytes \<Rightarrow> unit res" where
  "validateAuditDisclosure env digest targetPubKey payload =
     bindE (types_validateFieldElementBytesStrict ''audit disclosure digest'' digest) (\<lambda>_.
     bindE (validateDisclosureTargetPubKey env ''audit disclosure target pubkey'' targetPubKey) (\<lambda>_.
     bindE (guardE (length payload \<noteq> 0) (SdkErr ErrInvalidRequest ''audit disclosure payload is required for transfer validation'')) (\<lambda>_.
     bindE (mapErr (\<lambda>_. SdkErr ErrInvalidRequest ''audit disclosure payload is not a canonical encrypted envelope'')
       (UnwrapEncryptedEnvelopeV1 payload EnvelopeAuditDisclosureV1)) (\<lambda>_. Inr ()))))"

definition validateSelfViewDisclosure :: "bytes \<Rightarrow> bytes \<Rightarrow> bytes \<Rightarrow> unit res" where
  "validateSelfViewDisclosure fullDigest digest payload =
     (if length digest = 0 \<and> length payload = 0 then Inr ()
      else
        bindE (guardE (\<not> (length digest = 0 \<or> length payload = 0))
          (SdkErr ErrInvalidRequest ''self-view disclosure digest and payload must be provided together'')) (\<lambda>_.
        bindE (types_validateFieldElementBytesStrict ''self-view disclosure digest'' digest) (\<lambda>_.
        bindE (guardE (fullDigest = digest)
          (SdkErr ErrInvalidRequest ''audit and self-view disclosures must use the same full disclosure digest'')) (\<lambda>_.
        bindE (mapErr (\<lambda>_. SdkErr ErrInvalidRequest ''self-view disclosure payload is not a canonical encrypted envelope'')
          (UnwrapEncryptedEnvelopeV1 payload EnvelopeSelfViewDisclosureV1)) (\<lambda>_. Inr ())))))"

record legacy_deposit =
  ld_creator :: string
  ld_amount :: string
  ld_commitment :: bytes
  ld_note :: bytes
  ld_proof :: bytes

record legacy_withdraw =
  lw_creator :: string
  lw_proof :: bytes
  lw_root :: bytes
  lw_nullifier :: bytes
  lw_amount :: string
  lw_recipient :: string
  lw_chain_id :: string
  lw_expires :: int

definition MsgDeposit_ValidateBasic :: "('b, 'm) msg_env_scheme \<Rightarrow> legacy_deposit \<Rightarrow> unit res" where
  "MsgDeposit_ValidateBasic env msg =
     bindE (validateCreatorAddress env (ld_creator msg)) (\<lambda>_.
     case parse_coin env (ld_amount msg) of
       None \<Rightarrow> Inl (SdkErr ErrInvalidRequest ''deposit amount string is invalid'')
     | Some c \<Rightarrow>
         bindE (mapErr invalidRequest (ValidateShieldedAmount ''deposit amount'' (Some (coin_amount c)))) (\<lambda>_.
         bindE (validateActiveFieldElementBytesStrict ''note commitment'' (ld_commitment msg)) (\<lambda>_.
         bindE (guardE (length (ld_proof msg) \<noteq> 0) (SdkErr ErrInvalidRequest ''deposit proof is required'')) (\<lambda>_.
         bindE (mapErr (\<lambda>_. SdkErr ErrInvalidRequest ''encrypted note is not a canonical deposit-note envelope'')
           (UnwrapEncryptedEnvelopeV1 (ld_note msg) EnvelopeDepositNoteV1)) (\<lambda>_. Inr ())))))"

definition MsgWithdraw_ValidateBasic :: "('b, 'm) msg_env_scheme \<Rightarrow> legacy_withdraw \<Rightarrow> unit res" where
  "MsgWithdraw_ValidateBasic env msg =
     bindE (validateCreatorAddress env (lw_creator msg)) (\<lambda>_.
     case parse_coin env (lw_amount msg) of
       None \<Rightarrow> Inl (SdkErr ErrInvalidRequest ''withdraw amount string is invalid'')
     | Some c \<Rightarrow>
         bindE (guardE (0 < coin_amount c) (SdkErr ErrInvalidRequest ''withdraw amount must be positive'')) (\<lambda>_.
         bindE (mapErr invalidRequest (ValidateShieldedAmount ''withdraw amount'' (Some (coin_amount c)))) (\<lambda>_.
         bindE (types_validateFieldElementBytesStrict ''root'' (lw_root msg)) (\<lambda>_.
         bindE (validateActiveFieldElementBytesStrict ''nullifier'' (lw_nullifier msg)) (\<lambda>_.
         bindE (guardE (lw_chain_id msg \<noteq> []) (SdkErr ErrInvalidRequest ''chain id is required for withdraw'')) (\<lambda>_.
         guardE (\<not> lw_expires msg \<le> 0) (SdkErr ErrInvalidRequest ''expires_at_unix must be positive for withdraw'')))))))"

definition MsgTransfer_ValidateBasic :: "('b, 'm) msg_env_scheme \<Rightarrow> legacy_transfer \<Rightarrow> unit res" where
  "MsgTransfer_ValidateBasic env msg =
     bindE (validateCreatorAddress env (lt_creator msg)) (\<lambda>_.
     bindE (validateTransferPayload (lt_root msg) (lt_nullifiers msg) (lt_commitments msg) (lt_ciphertexts msg) (lt_view_tags msg)) (\<lambda>_.
     bindE (validateUserDisclosure env (lt_policy msg) (lt_user_digest msg) (lt_mode msg) (lt_user_target msg) (lt_user_payload msg)) (\<lambda>_.
     bindE (validateAuditDisclosure env (lt_audit_digest msg) (lt_audit_target msg) (lt_audit_payload msg)) (\<lambda>_.
     bindE (validateSelfViewDisclosure (lt_audit_digest msg) (lt_self_digest msg) (lt_self_payload msg)) (\<lambda>_.
     guardE (\<not> lt_expires msg \<le> 0) (SdkErr ErrInvalidRequest ''expires_at_unix must be positive for transfer''))))))"

section \<open>Proofs\<close>

definition CanonicalBN254Groth16ProofSize :: nat where "CanonicalBN254Groth16ProofSize = 164"
definition MaxBN254Groth16ProofSize :: nat where "MaxBN254Groth16ProofSize = 4096"
definition compressedProofPointOffsets :: "nat list" where "compressedProofPointOffsets = [0, 32, 96, 132]"

definition ValidateCanonicalProofFramingBN254 :: "bytes \<Rightarrow> unit res" where
  "ValidateCanonicalProofFramingBN254 proofBytes =
     bindE (guardE (\<not> length proofBytes > MaxBN254Groth16ProofSize) (Errorf ''proof exceeds 4 KiB hard cap'')) (\<lambda>_.
     bindE (guardE (length proofBytes = CanonicalBN254Groth16ProofSize) (Errorf ''proof must be exactly 164 bytes'')) (\<lambda>_.
     bindE (traverseE (\<lambda>offset. guardE (\<not> proofBytes ! offset AND 0xc0 = 0) (Errorf ''proof point is not compressed'')) compressedProofPointOffsets) (\<lambda>_.
     guardE (un_be32 (drop 128 proofBytes) = 0) (Errorf ''proof commitments are not supported''))))"

text \<open>\<open>proof_decode\<close> reads a gnark proof from the front of the bytes: the number of bytes read and the encoding that writing the proof gives back.\<close>

definition ReadCanonicalProofBN254 :: "('b, 'm) legacy_env_scheme \<Rightarrow> bytes \<Rightarrow> unit res" where
  "ReadCanonicalProofBN254 env proofBytes =
     bindE (ValidateCanonicalProofFramingBN254 proofBytes) (\<lambda>_.
     bindE (proof_decode env proofBytes) (\<lambda>(read, canonical).
     bindE (guardE (read = length proofBytes) (Errorf ''proof decoder did not consume the full canonical frame'')) (\<lambda>_.
     guardE (canonical = proofBytes) (Errorf ''proof is not canonically encoded''))))"

definition ValidateCanonicalProofBN254 :: "('b, 'm) legacy_env_scheme \<Rightarrow> bytes \<Rightarrow> unit res" where
  "ValidateCanonicalProofBN254 env proofBytes = ReadCanonicalProofBN254 env proofBytes"

definition ProofVerificationGas :: nat where "ProofVerificationGas = 1000000"

text \<open>The public part of an assignment: the public fields of the circuit struct in their order.\<close>

datatype legacy_assignment =
    DepositCircuit (da_commitment: nat) (da_amount: nat) (da_asset: nat)
  | SpendCircuit (sa_root: nat) (sa_chain: digest_limbs) (sa_expires: nat) (sa_nullifier: nat) (sa_amount: nat) (sa_recipient: digest_limbs) (sa_asset: nat)
  | JoinSplitCircuit (ja_root: nat) (ja_chain: digest_limbs) (ja_expires: nat) (ja_nullifiers: "nat list") (ja_commitments: "nat list") (ja_policy: nat)
      (ja_user: nat) (ja_full: nat) (ja_payload: digest_limbs)

fun circuitName :: "legacy_assignment \<Rightarrow> string" where
  "circuitName (DepositCircuit _ _ _) = ''deposit''"
| "circuitName (SpendCircuit _ _ _ _ _ _ _) = ''spend''"
| "circuitName (JoinSplitCircuit _ _ _ _ _ _ _ _ _) = ''joinsplit''"

fun publicWitness :: "legacy_assignment \<Rightarrow> nat list" where
  "publicWitness (DepositCircuit c a t) = [c, a, t]"
| "publicWitness (SpendCircuit r d e n a p t) = [r, dl_hi d, dl_lo d, e, n, a, dl_hi p, dl_lo p, t]"
| "publicWitness (JoinSplitCircuit r d e ns cs p u f l) = [r, dl_hi d, dl_lo d, e] @ ns @ cs @ [p, u, f, dl_hi l, dl_lo l]"

definition verifyProofBN254 :: "('b, 'm) legacy_env_scheme \<Rightarrow> exec_ctx \<Rightarrow> bytes \<Rightarrow> legacy_assignment \<Rightarrow> ('b chain, unit) action" where
  "verifyProofBN254 env ctx proofBytes assignment =
     bindM (readM (\<lambda>_. ValidateCanonicalProofFramingBN254 proofBytes)) (\<lambda>_.
     bindM (consumeGas ctx ProofVerificationGas ''privacy proof verification'') (\<lambda>_.
     bindM (readM (\<lambda>_. ReadCanonicalProofBN254 env proofBytes)) (\<lambda>_.
     readM (\<lambda>_. groth16_verify env (circuitName assignment) proofBytes (publicWitness assignment)))))"

definition verifyPrechargedProofBN254 :: "('b, 'm) legacy_env_scheme \<Rightarrow> bytes \<Rightarrow> legacy_assignment \<Rightarrow> unit res" where
  "verifyPrechargedProofBN254 env proofBytes assignment =
     bindE (ReadCanonicalProofBN254 env proofBytes) (\<lambda>_. groth16_verify env (circuitName assignment) proofBytes (publicWitness assignment))"

text \<open>The two verifiers accept the same proofs; the first one also charges for them.\<close>

lemma precharged_same:
  "verifyProofBN254 env ctx p a c = (Inr (), c') \<longleftrightarrow>
     verifyPrechargedProofBN254 env p a = Inr () \<and> ch_gas c + ProofVerificationGas \<le> gas_limit ctx \<and> c' = c\<lparr>ch_gas := ch_gas c + ProofVerificationGas\<rparr>"
  by (auto simp: verifyProofBN254_def verifyPrechargedProofBN254_def ReadCanonicalProofBN254_def consumeGas_run)

section \<open>The audit configuration\<close>

definition DefaultAuditKeyIDV1 :: string where "DefaultAuditKeyIDV1 = ''master''"
definition DefaultAuditKeyEpochV1 :: u64 where "DefaultAuditKeyEpochV1 = 1"

record audit_config =
  ac_key_id :: string
  ac_epoch :: u64
  ac_target :: bytes

definition ValidateAuditConfigV1 :: "'a crypto_env_scheme \<Rightarrow> audit_config \<Rightarrow> unit res" where
  "ValidateAuditConfigV1 env config =
     (let hasID = (ac_key_id config \<noteq> []); hasEpoch = (ac_epoch config \<noteq> 0); hasTarget = (length (ac_target config) \<noteq> 0) in
      if \<not> hasID \<and> \<not> hasEpoch \<and> \<not> hasTarget then Inr ()
      else
        bindE (guardE (\<not> (\<not> hasID \<or> \<not> hasEpoch \<or> \<not> hasTarget))
          (Errorf ''audit config must be all-zero or include audit_key_id, positive audit_key_epoch, and audit_master_pubkey'')) (\<lambda>_.
        bindE (ValidateAuditKeyIDV1 (ac_key_id config)) (\<lambda>_.
        bindE (decodePublicKey env (ac_target config)) (\<lambda>_. Inr ()))))"

definition SetAuditConfigV1 :: "'a crypto_env_scheme \<Rightarrow> audit_runtime option \<Rightarrow> exec_ctx \<Rightarrow> audit_config \<Rightarrow> (store, unit) action" where
  "SetAuditConfigV1 env rt ctx config =
     bindM (guardM (allowsGenesisStateImport rt ctx) (Errorf ''legacy state mutation is disabled'')) (\<lambda>_.
     bindM (readM (\<lambda>_. ValidateAuditConfigV1 env config)) (\<lambda>_.
     if ac_key_id config = [] then
       bindM (writeM (kv_delete GetAuditConfigKey)) (\<lambda>_.
       bindM (writeM (kv_delete GetAuditKeyIDKey)) (\<lambda>_. writeM (kv_delete GetAuditKeyEpochKey)))
     else
       bindM (writeM (kv_set GetAuditConfigKey (ac_target config))) (\<lambda>_.
       bindM (writeM (kv_set GetAuditKeyIDKey (string_bytes (ac_key_id config)))) (\<lambda>_.
       writeM (kv_set GetAuditKeyEpochKey (be64 (ac_epoch config)))))))"

definition GetAuditConfigV1 :: "'a crypto_env_scheme \<Rightarrow> store \<Rightarrow> audit_config option res" where
  "GetAuditConfigV1 env s =
     (let get = (\<lambda>k. case kv_get s k of None \<Rightarrow> [] | Some v \<Rightarrow> v);
          target = get GetAuditConfigKey; idBytes = get GetAuditKeyIDKey; epochBytes = get GetAuditKeyEpochKey;
          hasTarget = (length target \<noteq> 0); hasID = (length idBytes \<noteq> 0); hasEpoch = (length epochBytes \<noteq> 0)
      in
      if \<not> hasTarget \<and> \<not> hasID \<and> \<not> hasEpoch then Inr None
      else
        bindE (guardE (\<not> (\<not> hasTarget \<or> \<not> hasID \<or> \<not> hasEpoch)) (Errorf ''audit config state is partial'')) (\<lambda>_.
        bindE (guardE (length epochBytes = 8) (Errorf ''audit key epoch state must be exactly 8 bytes'')) (\<lambda>_.
        let config = \<lparr>ac_key_id = bytes_string idBytes, ac_epoch = un_be64 epochBytes, ac_target = target\<rparr> in
        bindE (mapErr (\<lambda>_. Errorf ''invalid audit config state'') (ValidateAuditConfigV1 env config)) (\<lambda>_. Inr (Some config)))))"

definition GetAuditMasterPubkey :: "'a crypto_env_scheme \<Rightarrow> store \<Rightarrow> bytes" where
  "GetAuditMasterPubkey env s = (case GetAuditConfigV1 env s of Inr (Some config) \<Rightarrow> ac_target config | _ \<Rightarrow> [])"

text \<open>The setter drops the error of the one it calls.\<close>

definition SetAuditMasterPubkey :: "'a crypto_env_scheme \<Rightarrow> audit_runtime option \<Rightarrow> exec_ctx \<Rightarrow> bytes \<Rightarrow> (store, unit) action" where
  "SetAuditMasterPubkey env rt ctx pubKey s =
     (Inr (), snd (SetAuditConfigV1 env rt ctx
       (if length pubKey = 0 then \<lparr>ac_key_id = [], ac_epoch = 0, ac_target = []\<rparr>
        else \<lparr>ac_key_id = DefaultAuditKeyIDV1, ac_epoch = DefaultAuditKeyEpochV1, ac_target = pubKey\<rparr>) s))"

lemma audit_config_back:
  assumes "SetAuditConfigV1 env rt ctx config s = (Inr (), t)"
  shows "GetAuditConfigV1 env t = Inr (if ac_key_id config = [] then None else Some config)"
proof -
  have ok: "ValidateAuditConfigV1 env config = Inr ()" using assms by (auto simp: SetAuditConfigV1_def split: if_splits)
  have keys: "GetAuditConfigKey \<noteq> GetAuditKeyIDKey" "GetAuditConfigKey \<noteq> GetAuditKeyEpochKey" "GetAuditKeyIDKey \<noteq> GetAuditKeyEpochKey"
    by (simp_all add: key_simps key_prefix_defs GetAuditConfigKey_def GetAuditKeyIDKey_def GetAuditKeyEpochKey_def)
  show ?thesis
  proof (cases "ac_key_id config = []")
    case True
    then have "t = kv_delete GetAuditKeyEpochKey (kv_delete GetAuditKeyIDKey (kv_delete GetAuditConfigKey s))"
      using assms by (auto simp: SetAuditConfigV1_def)
    then show ?thesis using True keys by (simp add: GetAuditConfigV1_def)
  next
    case False
    then have t: "t = kv_set GetAuditKeyEpochKey (be64 (ac_epoch config)) (kv_set GetAuditKeyIDKey (string_bytes (ac_key_id config)) (kv_set GetAuditConfigKey (ac_target config) s))"
      using assms by (auto simp: SetAuditConfigV1_def simp del: kv_set.simps)
    have full: "ac_target config \<noteq> []" "string_bytes (ac_key_id config) \<noteq> []" "be64 (ac_epoch config) \<noteq> []"
      using ok False be64_length [of "ac_epoch config"] by (auto simp: ValidateAuditConfigV1_def string_bytes_def simp del: be64_length)
    show ?thesis using False keys full ok by (cases config) (simp add: GetAuditConfigV1_def t Let_def del: kv_set.simps)
  qed
qed

end
