(* ===== verification/Legacy_Server.thy ===== *)
theory Legacy_Server
  imports Legacy_Messages Reserve Asset_Registry
begin

text \<open>
  The handlers of the first service: \<^verbatim>\<open>x/privacy/keeper/deposit.go\<close> and \<^verbatim>\<open>msg_server.go\<close>. They are refused when the audit runtime is configured. The runtime is an
  argument; \<open>audit_on\<close> of the environment tells the guards of the tree, the nullifiers and the reserve whether it is set.
\<close>

definition AttributeKeyCreator :: string where "AttributeKeyCreator = ''creator''"
definition AttributeKeyRelayer :: string where "AttributeKeyRelayer = ''relayer''"
definition AttributeKeySelfViewDisclosureDigest :: string where "AttributeKeySelfViewDisclosureDigest = ''self_view_disclosure_digest''"

definition wrapMerkleAppendPreconditionErr :: "string \<Rightarrow> error \<Rightarrow> error" where
  "wrapMerkleAppendPreconditionErr capacityMessage err =
     (if err = ErrMerkleTreeOverflow \<or> err = ErrMerkleTreeRebuildTooLarge then SdkErr ErrLogic []
      else if err = ErrMerkleTreeCapacity then SdkErr ErrInvalidRequest capacityMessage
      else invalidRequest err)"

text \<open>\<^verbatim>\<open>sdk.NewCoins\<close> of one valid coin drops it when its amount is zero.\<close>

definition newCoins :: "coin \<Rightarrow> coin list" where
  "newCoins c = (if coin_amount c = 0 then [] else [c])"

definition onBank :: "('b \<Rightarrow> unit res \<times> 'b) \<Rightarrow> ('b chain, unit) action" where
  "onBank f = (\<lambda>s. case f (ch_bank s) of (r, b) \<Rightarrow> (r, s\<lparr>ch_bank := b\<rparr>))"

definition appendAs :: "('b, 'm) legacy_env_scheme \<Rightarrow> exec_ctx \<Rightarrow> string \<Rightarrow> bytes \<Rightarrow> ('b chain, unit) action" where
  "appendAs env ctx what c = (\<lambda>s. case onStore (AppendCommitment env (block_height ctx) c) s of
     (r, t) \<Rightarrow> (mapErr (\<lambda>_. SdkErr ErrInvalidRequest what) r, t))"

definition absent_commitment :: "string \<Rightarrow> bytes \<Rightarrow> store \<Rightarrow> bytes res" where
  "absent_commitment name c s =
     bindE (mapErr (\<lambda>_. SdkErr ErrInvalidRequest (name @ '' must be canonical 32-byte field bytes'')) (validateFieldElementBytesStrict c)) (\<lambda>canonicalCommitment.
     bindE (mapErr (\<lambda>_. Errorf ''check commitment index'') (HasCommitment canonicalCommitment s)) (\<lambda>exists.
     bindE (guardE (\<not> exists) (SdkErr ErrInvalidRequest (name @ '' already exists''))) (\<lambda>_. Inr canonicalCommitment)))"

section \<open>Deposits\<close>

definition depositAttributes :: "legacy_deposit \<Rightarrow> bytes \<Rightarrow> (string \<times> string) list" where
  "depositAttributes msg c = [(AttributeKeyCreator, ld_creator msg), (AttributeKeyCommitment, hex_of_bytes c), (AttributeKeyEncryptedNote, hex_of_bytes (ld_note msg))]"

text \<open>The stage of a deposit inside the cached context.\<close>

definition depositStage ::
  "('b, 'm) legacy_env_scheme \<Rightarrow> audit_runtime option \<Rightarrow> exec_ctx \<Rightarrow> legacy_deposit \<Rightarrow> bytes \<Rightarrow> bool \<Rightarrow> coin \<Rightarrow> bytes \<Rightarrow> ('b chain, unit) action" where
  "depositStage env rt ctx msg funder verifyModuleBalanceDelta c canonicalCommitment =
     bindM (readM (\<lambda>s. Inr (bank_balance env (ch_bank s) (module_address env ModuleName) (coin_denom c)))) (\<lambda>before.
     bindM (onBank (\<lambda>b. case send_to_module env funder ModuleName (newCoins c) b of (r, b') \<Rightarrow> (mapErr (\<lambda>_. Errorf ''failed to lock tokens'') r, b'))) (\<lambda>_.
     bindM (readM (\<lambda>s. if \<not> verifyModuleBalanceDelta then Inr ()
        else case (before, bank_balance env (ch_bank s) (module_address env ModuleName) (coin_denom c)) of
            (Some b, Some a) \<Rightarrow>
              bindE (guardE (bitLen256 (b + coin_amount c)) (Errorf ''panic: integer overflow'')) (\<lambda>_.
              guardE (a = b + coin_amount c) (SdkErr ErrLogic ''privacy module balance mismatch after deposit bank transfer''))
          | _ \<Rightarrow> Inl (Errorf ''panic: nil balance''))) (\<lambda>_.
     bindM (onStore (RecordReserveDeposit env c)) (\<lambda>_.
     bindM (appendAs env ctx ''failed to append the note commitment'' canonicalCommitment) (\<lambda>_.
     emitIndexedPrivacyEvent env rt ctx EventTypeDeposit (depositAttributes msg canonicalCommitment))))))"

definition depositWithValidatedFunder ::
  "('b, 'm) legacy_env_scheme \<Rightarrow> audit_runtime option \<Rightarrow> exec_ctx \<Rightarrow> legacy_deposit \<Rightarrow> bytes \<Rightarrow> bool \<Rightarrow> ('b chain, unit) action" where
  "depositWithValidatedFunder env rt ctx msg funder verifyModuleBalanceDelta =
     bindM (guardM (rt = None) (Errorf ''legacy deposit capability is disabled'')) (\<lambda>_.
     case parse_coin env (ld_amount msg) of
       None \<Rightarrow> failM (Errorf ''invalid coin'')
     | Some c \<Rightarrow>
         bindM (readM (\<lambda>_. mapErr invalidRequest (ValidateShieldedAmount ''deposit amount'' (Some (coin_amount c))))) (\<lambda>_.
         bindM (readStore (absent_commitment ''note commitment'' (ld_commitment msg))) (\<lambda>canonicalCommitment.
         bindM (readStore (\<lambda>s. mapErr (wrapMerkleAppendPreconditionErr ''not enough merkle tree capacity for deposit output'')
           (EnsureCanAppendCommitments env 1 s))) (\<lambda>_.
         bindM (readStore (\<lambda>s. mapErr (\<lambda>_. SdkErr ErrInvalidRequest ''deposit asset registry validation failed'')
           (RequireRegisteredAssetV1 env (coin_denom c) s))) (\<lambda>assetID.
         bindM (verifyProofBN254 env ctx (ld_proof msg) (DepositCircuit (be_to_nat canonicalCommitment) (nat (coin_amount c)) (be_to_nat assetID))) (\<lambda>_.
         cacheCtx (depositStage env rt ctx msg funder verifyModuleBalanceDelta c canonicalCommitment)))))))"

definition legacy_Deposit :: "('b, 'm) legacy_env_scheme \<Rightarrow> audit_runtime option \<Rightarrow> exec_ctx \<Rightarrow> legacy_deposit \<Rightarrow> ('b chain, unit) action" where
  "legacy_Deposit env rt ctx msg =
     bindM (guardM (rt = None) (Errorf ''legacy privacy service is disabled'')) (\<lambda>_.
     bindM (readM (\<lambda>_. MsgDeposit_ValidateBasic env msg)) (\<lambda>_.
     case acc_from_bech32 env (ld_creator msg) of
       None \<Rightarrow> failM (SdkErr ErrInvalidAddress ''invalid creator address'')
     | Some depositor \<Rightarrow> depositWithValidatedFunder env rt ctx msg depositor False))"

definition DepositWithFunder :: "('b, 'm) legacy_env_scheme \<Rightarrow> audit_runtime option \<Rightarrow> exec_ctx \<Rightarrow> legacy_deposit \<Rightarrow> bytes \<Rightarrow> ('b chain, unit) action" where
  "DepositWithFunder env rt ctx msg funder =
     bindM (guardM (rt = None) (Errorf ''legacy deposit capability is disabled'')) (\<lambda>_.
     bindM (readM (\<lambda>_. MsgDeposit_ValidateBasic env msg)) (\<lambda>_.
     bindM (guardM (acc_from_bech32 env (ld_creator msg) \<noteq> None) (SdkErr ErrInvalidAddress ''invalid creator address'')) (\<lambda>_.
     bindM (guardM (verify_address env funder) (SdkErr ErrInvalidAddress ''invalid deposit funder'')) (\<lambda>_.
     bindM (guardM (funder \<noteq> module_address env ModuleName) (SdkErr ErrInvalidAddress ''deposit funder must not be the privacy module account'')) (\<lambda>_.
     depositWithValidatedFunder env rt ctx msg funder True)))))"

section \<open>Withdrawals\<close>

definition withdrawAttributes :: "legacy_withdraw \<Rightarrow> bytes \<Rightarrow> (string \<times> string) list" where
  "withdrawAttributes msg n = [(AttributeKeyNullifier, hex_of_bytes n), (AttributeKeyRelayer, lw_creator msg), (''recipient'', lw_recipient msg)]"

text \<open>What a withdrawal does once its proof is verified.\<close>

text \<open>A call whose error the source drops; \<^verbatim>\<open>SetNullifier\<close> is called in this way.\<close>

definition ignoreErr :: "('s, unit) action \<Rightarrow> ('s, unit) action" where
  "ignoreErr m s = (Inr (), snd (m s))"

definition withdrawStage ::
  "('b, 'm) legacy_env_scheme \<Rightarrow> audit_runtime option \<Rightarrow> exec_ctx \<Rightarrow> legacy_withdraw \<Rightarrow> bytes \<Rightarrow> coin \<Rightarrow> bytes \<Rightarrow> ('b chain, unit) action" where
  "withdrawStage env rt ctx msg recipientAddr c canonicalNullifier =
     bindM (ignoreErr (onStore (SetNullifier env canonicalNullifier))) (\<lambda>_.
     bindM (onBank (send_from_module env ModuleName recipientAddr (newCoins c))) (\<lambda>_.
     bindM (onStore (RecordReserveWithdraw env c)) (\<lambda>_.
     emitIndexedPrivacyEvent env rt ctx EventTypeWithdraw (withdrawAttributes msg canonicalNullifier))))"

definition legacy_Withdraw :: "('b, 'm) legacy_env_scheme \<Rightarrow> audit_runtime option \<Rightarrow> exec_ctx \<Rightarrow> legacy_withdraw \<Rightarrow> ('b chain, unit) action" where
  "legacy_Withdraw env rt ctx msg =
     bindM (guardM (rt = None) (Errorf ''legacy privacy service is disabled'')) (\<lambda>_.
     bindM (readM (\<lambda>_. MsgWithdraw_ValidateBasic env msg)) (\<lambda>_.
     bindM (readM (\<lambda>_. mapErr (\<lambda>_. SdkErr ErrInvalidRequest ''withdraw root must be canonical 32-byte field bytes'') (validateFieldElementBytesStrict (lw_root msg)))) (\<lambda>canonicalRoot.
     bindM (readM (\<lambda>_. mapErr (\<lambda>_. SdkErr ErrInvalidRequest ''withdraw nullifier must be canonical 32-byte field bytes'') (validateFieldElementBytesStrict (lw_nullifier msg)))) (\<lambda>canonicalNullifier.
     bindM (guardM (lw_chain_id msg = chain_id ctx) (SdkErr ErrInvalidRequest ''withdraw chain id mismatch'')) (\<lambda>_.
     bindM (guardM (\<not> block_unix ctx \<ge> lw_expires msg) (SdkErr ErrInvalidRequest ''withdraw payload has expired'')) (\<lambda>_.
     bindM (readStore (\<lambda>s. guardE (CheckHistoricalRoot canonicalRoot s)
       (SdkErr ErrInvalidRequest ''withdraw root was not found in the historical merkle roots''))) (\<lambda>_.
     bindM (readStore (\<lambda>s. guardE (\<not> HasNullifier canonicalNullifier s)
       (SdkErr ErrInvalidRequest ''withdraw nullifier was already used (double spend)''))) (\<lambda>_.
     case acc_from_bech32 env (lw_recipient msg) of
       None \<Rightarrow> failM (SdkErr ErrInvalidAddress ''recipient address is invalid'')
     | Some recipientAddr \<Rightarrow>
         bindM (readM (\<lambda>_. mapErr (\<lambda>_. SdkErr ErrInvalidRequest ''failed to compute withdraw chain domain'') (ComputeChainDomainV1 (chain_id ctx) ActiveCircuitSetID))) (\<lambda>chainDomain.
         bindM (readM (\<lambda>_. mapErr (\<lambda>_. SdkErr ErrInvalidRequest ''failed to compute withdraw recipient digest'') (ComputeWithdrawRecipientDigestV1 recipientAddr))) (\<lambda>recipientDigest.
         case parse_coin env (lw_amount msg) of
           None \<Rightarrow> failM (SdkErr ErrInvalidRequest ''withdraw amount string is invalid'')
         | Some c \<Rightarrow>
             bindM (guardM (0 < coin_amount c) (SdkErr ErrInvalidRequest ''withdraw amount must be positive'')) (\<lambda>_.
             bindM (readM (\<lambda>_. mapErr invalidRequest (ValidateShieldedAmount ''withdraw amount'' (Some (coin_amount c))))) (\<lambda>_.
             bindM (readStore (\<lambda>s. mapErr (\<lambda>_. SdkErr ErrInvalidRequest ''withdraw asset registry validation failed'') (RequireRegisteredAssetV1 env (coin_denom c) s))) (\<lambda>assetID.
             bindM (verifyProofBN254 env ctx (lw_proof msg) (SpendCircuit (be_to_nat canonicalRoot) chainDomain (nat (lw_expires msg)) (be_to_nat canonicalNullifier)
               (nat (coin_amount c)) recipientDigest (be_to_nat assetID))) (\<lambda>_.
             withdrawStage env rt ctx msg recipientAddr c canonicalNullifier))))))))))))))"

section \<open>Transfers\<close>

definition unspent_nullifier :: "bytes \<Rightarrow> store \<Rightarrow> bytes res" where
  "unspent_nullifier n s =
     bindE (mapErr (\<lambda>_. SdkErr ErrInvalidRequest ''nullifier must be canonical 32-byte field bytes'') (validateFieldElementBytesStrict n)) (\<lambda>canonicalNullifier.
     bindE (guardE (\<not> HasNullifier canonicalNullifier s) (SdkErr ErrInvalidRequest ''nullifier was already used'')) (\<lambda>_. Inr canonicalNullifier))"

definition optional_attribute :: "string \<Rightarrow> bytes \<Rightarrow> (string \<times> string) list" where
  "optional_attribute key v = (if length v > 0 then [(key, hex_of_bytes v)] else [])"

definition transferAttributes :: "legacy_transfer \<Rightarrow> (string \<times> string) list" where
  "transferAttributes req =
     [(AttributeKeyRelayer, lt_creator req), (AttributeKeyNullifier1, hex_of_bytes (lt_nullifiers req ! 0)), (AttributeKeyNullifier2, hex_of_bytes (lt_nullifiers req ! 1)),
      (AttributeKeyCommitment1, hex_of_bytes (lt_commitments req ! 0)), (AttributeKeyCommitment2, hex_of_bytes (lt_commitments req ! 1)),
      (AttributeKeyCipherText1, hex_of_bytes (lt_ciphertexts req ! 0)), (AttributeKeyCipherText2, hex_of_bytes (lt_ciphertexts req ! 1)),
      (AttributeKeyViewTag1, hex_of_bytes (lt_view_tags req ! 0)), (AttributeKeyViewTag2, hex_of_bytes (lt_view_tags req ! 1)),
      (AttributeKeyUserPrivacyPolicy, dec_string (unat (lt_policy req))), (AttributeKeyUserDisclosureMode, mode_string (lt_mode req))] @
     optional_attribute AttributeKeyUserDisclosureDigest (lt_user_digest req) @
     optional_attribute AttributeKeyUserDisclosureTargetPubKey (lt_user_target req) @
     optional_attribute AttributeKeyUserDisclosurePayload (lt_user_payload req) @
     optional_attribute AttributeKeyAuditDisclosureDigest (lt_audit_digest req) @
     optional_attribute AttributeKeyAuditDisclosureTargetPubKey (lt_audit_target req) @
     optional_attribute AttributeKeyAuditDisclosurePayload (lt_audit_payload req) @
     optional_attribute AttributeKeySelfViewDisclosureDigest (lt_self_digest req) @
     optional_attribute AttributeKeySelfViewDisclosurePayload (lt_self_payload req)"

definition transferAssignment :: "legacy_transfer \<Rightarrow> digest_limbs \<Rightarrow> digest_limbs \<Rightarrow> legacy_assignment" where
  "transferAssignment req chainDomain payloadDigest =
     JoinSplitCircuit (be_to_nat (lt_root req)) chainDomain (nat (lt_expires req)) (map be_to_nat (lt_nullifiers req)) (map be_to_nat (lt_commitments req))
       (unat (lt_policy req)) (if length (lt_user_digest req) > 0 then be_to_nat (lt_user_digest req) else 0) (be_to_nat (lt_audit_digest req)) payloadDigest"

text \<open>What a transfer does once its proof is verified.\<close>

definition transferStage :: "('b, 'm) legacy_env_scheme \<Rightarrow> audit_runtime option \<Rightarrow> exec_ctx \<Rightarrow> legacy_transfer \<Rightarrow> ('b chain, unit) action" where
  "transferStage env rt ctx effect =
     bindM (forM (lt_nullifiers effect) (\<lambda>n. ignoreErr (onStore (SetNullifier env n)))) (\<lambda>_.
     bindM (forM (lt_commitments effect) (appendAs env ctx ''failed to append a new commitment'')) (\<lambda>_.
     emitIndexedPrivacyEvent env rt ctx EventTypeShieldedTransfer (transferAttributes effect)))"

definition executeShieldedTransfer :: "('b, 'm) legacy_env_scheme \<Rightarrow> audit_runtime option \<Rightarrow> exec_ctx \<Rightarrow> legacy_transfer \<Rightarrow> ('b chain, unit) action" where
  "executeShieldedTransfer env rt ctx req =
     bindM (guardM (\<not> lt_expires req \<le> 0) (SdkErr ErrInvalidRequest ''expires_at_unix must be positive for transfer'')) (\<lambda>_.
     bindM (guardM (\<not> block_unix ctx \<ge> lt_expires req) (SdkErr ErrInvalidRequest ''transfer payload has expired'')) (\<lambda>_.
     bindM (readM (\<lambda>_. mapErr (\<lambda>_. SdkErr ErrInvalidRequest ''transfer root must be canonical 32-byte field bytes'') (validateFieldElementBytesStrict (lt_root req)))) (\<lambda>canonicalRoot.
     bindM (readStore (\<lambda>s. guardE (CheckHistoricalRoot canonicalRoot s) (SdkErr ErrInvalidRequest ''transfer root was not found in the historical merkle roots''))) (\<lambda>_.
     bindM (guardM (length (lt_nullifiers req) = 2) (SdkErr ErrInvalidRequest ''transfer requires exactly 2 nullifiers'')) (\<lambda>_.
     bindM (guardM (length (lt_commitments req) = 2) (SdkErr ErrInvalidRequest ''transfer requires exactly 2 commitments'')) (\<lambda>_.
     bindM (guardM (length (lt_ciphertexts req) = 2) (SdkErr ErrInvalidRequest ''transfer requires exactly 2 ciphertexts'')) (\<lambda>_.
     bindM (guardM (length (lt_view_tags req) = 2) (SdkErr ErrInvalidRequest ''transfer requires exactly 2 view tags'')) (\<lambda>_.
     bindM (readM (\<lambda>_. mapErr invalidRequest (ValidateDistinctCanonicalFieldElements ''nullifier'' (lt_nullifiers req)))) (\<lambda>_.
     bindM (readM (\<lambda>_. mapErr invalidRequest (ValidateDistinctCanonicalFieldElements ''commitment'' (lt_commitments req)))) (\<lambda>_.
     bindM (guardM (list_all (\<lambda>v. length v = ViewTagLength) (lt_view_tags req)) (SdkErr ErrInvalidRequest ''view tag must be exactly 2 bytes'')) (\<lambda>_.
     bindM (readStore (\<lambda>s. Inr (GetAuditMasterPubkey env s))) (\<lambda>expectedAuditTargetPubKey.
     bindM (guardM (length expectedAuditTargetPubKey \<noteq> 0) (SdkErr ErrInvalidRequest ''chain audit master pubkey is not configured'')) (\<lambda>_.
     bindM (guardM (length (lt_audit_target req) \<noteq> 0) (SdkErr ErrInvalidRequest ''audit disclosure target pubkey is required for transfer validation'')) (\<lambda>_.
     bindM (guardM (expectedAuditTargetPubKey = lt_audit_target req)
       (SdkErr ErrInvalidRequest ''audit disclosure target pubkey does not match the chain audit configuration'')) (\<lambda>_.
     bindM (readStore (\<lambda>s. traverseE (\<lambda>n. unspent_nullifier n s) (lt_nullifiers req))) (\<lambda>canonicalNullifiers.
     bindM (readStore (\<lambda>s. traverseE (\<lambda>c. absent_commitment ''commitment'' c s) (lt_commitments req))) (\<lambda>canonicalCommitments.
     bindM (readStore (\<lambda>s. mapErr (wrapMerkleAppendPreconditionErr ''not enough merkle tree capacity for transfer outputs'')
       (EnsureCanAppendCommitments env (word_of_nat (length canonicalCommitments)) s))) (\<lambda>_.
     let effect = req\<lparr>lt_root := canonicalRoot, lt_nullifiers := canonicalNullifiers, lt_commitments := canonicalCommitments\<rparr> in
     bindM (readM (\<lambda>_. mapErr (\<lambda>_. SdkErr ErrInvalidRequest ''failed to compute transfer chain domain'') (ComputeChainDomainV1 (chain_id ctx) ActiveCircuitSetID))) (\<lambda>chainDomain.
     bindM (readM (\<lambda>_. mapErr (\<lambda>_. SdkErr ErrInvalidRequest ''failed to compute canonical transfer payload digest'')
       (ComputeTransferPayloadDigestV1 (Some (effect\<lparr>lt_creator := [], lt_proof := []\<rparr>))))) (\<lambda>payloadDigest.
     bindM (verifyProofBN254 env ctx (lt_proof req) (transferAssignment effect chainDomain payloadDigest)) (\<lambda>_.
     transferStage env rt ctx effect)))))))))))))))))))))"

definition legacy_Transfer :: "('b, 'm) legacy_env_scheme \<Rightarrow> audit_runtime option \<Rightarrow> exec_ctx \<Rightarrow> legacy_transfer \<Rightarrow> ('b chain, unit) action" where
  "legacy_Transfer env rt ctx msg =
     bindM (guardM (rt = None) (Errorf ''legacy privacy service is disabled'')) (\<lambda>_.
     bindM (readM (\<lambda>_. MsgTransfer_ValidateBasic env msg)) (\<lambda>_.
     executeShieldedTransfer env rt ctx msg))"

end
