(* ===== verification/Legacy_Theorems.thy ===== *)
theory Legacy_Theorems
  imports Legacy_Server Event_Theorems Frames
begin

text \<open>
  The properties of the first service: what a successful transfer did, and that a withdrawal is refused in every block after the one in which the
  tree last grew, because the event index registers the current root again and the registration of a known root at another height is
  an error.
\<close>

section \<open>Registering the current root again\<close>

definition recorded_at :: "'a keeper_env_scheme \<Rightarrow> bytes list \<Rightarrow> int \<Rightarrow> store \<Rightarrow> bool" where
  "recorded_at env ls h s =
     (is_height h \<and> kv_get s (GetMerkleRootSnapshotKey (root_bytes env ls)) =
        Some (MerkleRootSnapshotV1_Marshal \<lparr>snap_root = root_bytes env ls, snap_leaf_count = word_of_nat (length ls), snap_height = h\<rparr>) \<and>
      kv_get s (GetHistoricalRootKey (root_bytes env ls)) = Some (be64 (word_of_int h)))"

lemma recorded_exists: "tree_inv env ls s \<Longrightarrow> ls \<noteq> [] \<Longrightarrow> \<exists>h. recorded_at env ls h s"
  using snapshot_stored [of env ls s "length ls"] by (metis length_greater_0_conv order_refl recorded_at_def take_all)

lemma recorded_cong: "(\<And>k. tree_key k \<Longrightarrow> kv_get t k = kv_get s k) \<Longrightarrow> recorded_at env ls h t = recorded_at env ls h s"
  by (simp add: recorded_at_def)

lemma record_again:
  assumes "crypto_ok env" "tree_inv env ls s" "ls \<noteq> []" "recorded_at env ls h s" "RecordCurrentMerkleRootSnapshotV1 env h' s = (Inr (), t)"
  shows "h' = h \<and> (\<forall>k. kv_get t k = kv_get s k)"
proof -
  let ?r = "root_bytes env ls" and ?n = "word_of_nat (length ls) :: u64"
  let ?sn = "\<lparr>snap_root = ?r, snap_leaf_count = ?n, snap_height = h\<rparr>"
  have canonical: "canonical_field ?r" using assms(1) take_canonical [OF assms(2), of "length ls"] by (intro root_bytes_canonical) simp_all
  have len: "length ls \<le> 2 ^ 32" using assms(2) by (simp add: tree_inv_def tree_leaves_def)
  have nz: "?n \<noteq> 0" using assms(3) len u64_of_nat_inj [of "length ls" 0] by simp
  have "kv_get s (GetMerkleNodeKey (word_of_nat MerkleDepth) (word_of_nat 0)) = Some (fe_bytes (tree_node env (map be_to_nat ls) MerkleDepth 0))"
    using assms(2,3) unfolding tree_inv_def tree_nodes_def by (metis length_greater_0_conv mult_0 order_refl)
  then have node: "GetMerkleNode MerkleDepth 0 s = Some ?r" by (simp add: GetMerkleNode_def root_bytes_def tree_root_def)
  have rec: "is_height h" "kv_get s (GetMerkleRootSnapshotKey ?r) = Some (MerkleRootSnapshotV1_Marshal ?sn)" "kv_get s (GetHistoricalRootKey ?r) = Some (be64 (word_of_int h))"
    using assms(4) by (simp_all add: recorded_at_def)
  have ne: "MerkleRootSnapshotV1_Marshal ?sn \<noteq> []" using canonical by (intro snapshot_nonempty) (auto simp: canonical_field_def)
  have dec: "MerkleRootSnapshotV1_Unmarshal (MerkleRootSnapshotV1_Marshal ?sn) = Inr ?sn" using rec(1) canonical by simp
  have "h' = h \<and> t = kv_set (GetHistoricalRootKey ?r) (be64 (word_of_int h)) s"
    using assms(5) nz node rec ne dec canonical GetLeafCount_ok [OF assms(2)]
    by (auto simp: RecordCurrentMerkleRootSnapshotV1_def SetMerkleRootSnapshotV1_def rawMutation_def setMerkleRootSnapshot_def setHistoricalRootHeightMetadata_def
        strict_canonical simp del: kv_set.simps split: if_splits)
  then show ?thesis using rec(3) by (auto simp del: kv_set.simps)
qed

text \<open>Indexing an event on top of a tree whose current root was recorded at another height fails.\<close>

lemma index_keeps_tree:
  assumes "indexPrivacyEvent env rt ctx ty txh attrs s = (Inr (), t)" "crypto_ok env" "tree_inv env ls s"
  shows "tree_inv env ls t \<and> (\<forall>h. ls \<noteq> [] \<longrightarrow> recorded_at env ls h s \<longrightarrow> block_height ctx = h)"
proof -
  obtain q s1 m outs s2 s3 v where seq: "AllocatePrivacyGlobalSequence rt ctx s = (Inr q, s1)" and scan: "StorePrivacyScanV2 env rt ctx (Some m) (map Some outs) s1 = (Inr (), s2)"
    and snap: "RecordCurrentMerkleRootSnapshotV1 env (block_height ctx) s2 = (Inr (), s3)"
    and t: "t = kv_set (GetPrivacyEventKey (block_height ctx) q) v s3"
    using assms(1) unfolding indexPrivacyEvent_def by (auto simp del: kv_set.simps)
  have w: "within scan_key (AllocatePrivacyGlobalSequence rt ctx)" "within scan_key (StorePrivacyScanV2 env rt ctx (Some m) (map Some outs))"
    unfolding AllocatePrivacyGlobalSequence_def StorePrivacyScanV2_def by (intro within_intros)+
  have same: "kv_get s2 k = kv_get s k" if "tree_key k" for k
    using withinD [OF w(1) seq, of k] withinD [OF w(2) scan, of k] regions_disjoint(1) [OF that] by simp
  have inv2: "tree_inv env ls s2" using tree_inv_frame [OF same] assms(3) by blast
  have rec2: "recorded_at env ls h s2 = recorded_at env ls h s" for h by (rule recorded_cong [OF same])
  have inv3: "tree_inv env ls s3 \<and> (\<forall>h. ls \<noteq> [] \<longrightarrow> recorded_at env ls h s \<longrightarrow> block_height ctx = h)"
  proof (cases "ls = []")
    case True
    then have "s3 = s2" using snap GetLeafCount_ok [OF inv2] by (simp add: RecordCurrentMerkleRootSnapshotV1_def)
    then show ?thesis using inv2 True by simp
  next
    case False
    obtain h where "recorded_at env ls h s2" using recorded_exists [OF inv2 False] by blast
    then have "kv_get s3 k = kv_get s2 k" for k using record_again [OF assms(2) inv2 False _ snap] by blast
    then have "tree_inv env ls s3" using tree_inv_frame [of s3 s2 env ls] inv2 by blast
    then show ?thesis using record_again [OF assms(2) inv2 False _ snap] rec2 by blast
  qed
  moreover have "\<not> tree_key (GetPrivacyEventKey h q)" for h q by (simp add: tree_key_def GetPrivacyEventKey_def key_prefix_defs)
  ultimately show ?thesis using t tree_inv_set_other by blast
qed

lemma index_frame:
  assumes "indexPrivacyEvent env rt ctx ty txh attrs s = (Inr (), t)" "\<not> scan_key k" "\<not> tree_key k" "k = [] \<or> hd k \<noteq> KeyPrefixPrivacyEvent"
  shows "kv_get t k = kv_get s k"
proof -
  let ?P = "\<lambda>k. scan_key k \<or> tree_key k \<or> k \<noteq> [] \<and> hd k = KeyPrefixPrivacyEvent"
  have "within ?P (AllocatePrivacyGlobalSequence rt ctx)" "within ?P (StorePrivacyScanV2 env rt ctx so outs)" "within ?P (RecordCurrentMerkleRootSnapshotV1 env (block_height ctx))" for so outs
    by (rule within_weaken [where P = scan_key], unfold AllocatePrivacyGlobalSequence_def, intro within_intros, simp)
      (rule within_weaken [where P = scan_key], unfold StorePrivacyScanV2_def, intro within_intros, simp,
       rule within_weaken [OF snapshot_only], auto simp: snapshot_key_def tree_key_def split: list.splits)
  moreover have "?P (GetPrivacyEventKey h q)" for h q by (simp add: GetPrivacyEventKey_def)
  ultimately have "within ?P (indexPrivacyEvent env rt ctx ty txh attrs)" unfolding indexPrivacyEvent_def by (intro within_intros) simp_all
  from withinD [OF this assms(1)] assms(2-4) show ?thesis by auto
qed

lemma emit_keeps_tree:
  assumes "emitIndexedPrivacyEvent env rt ctx ty attrs c = (Inr (), c')" "crypto_ok env" "tree_inv env ls (ch_store c)"
  shows "tree_inv env ls (ch_store c') \<and> (\<forall>h. ls \<noteq> [] \<longrightarrow> recorded_at env ls h (ch_store c) \<longrightarrow> block_height ctx = h)"
proof -
  obtain t where "indexPrivacyEvent env rt ctx ty (txHashHexFromContext ctx) attrs (ch_store c) = (Inr (), t)" "ch_store c' = t"
    using assms(1) unfolding emitIndexedPrivacyEvent_def emitEvent_def onStore_def by (auto simp: bindM_run split: prod.splits)
  then show ?thesis using index_keeps_tree [OF _ assms(2,3)] by auto
qed

section \<open>Stages of the handlers\<close>

lemma legacy_within [within_intros]:
  "within nullifier_key (SetNullifier env n)" "within reserve_key (RecordReserveDeposit env' c)" "within reserve_key (RecordReserveWithdraw env' c)"
  "within tree_key (AppendCommitment env h x)"
  unfolding SetNullifier_def RecordReserveDeposit_def RecordReserveWithdraw_def rawMutation_def AppendCommitment_def setNullifier_def by (intro within_intros; simp)+

lemma verify_quiet: "verifyProofBN254 env ctx p a c = (Inr (), c') \<Longrightarrow>
    groth16_verify env (circuitName a) p (publicWitness a) = Inr () \<and> ch_store c' = ch_store c \<and> ch_bank c' = ch_bank c \<and> ch_events c' = ch_events c"
  unfolding verifyProofBN254_def by (auto simp: consumeGas_run)

lemma onBank_keeps: "onBank f c = (r, c') \<Longrightarrow> ch_store c' = ch_store c \<and> ch_events c' = ch_events c \<and> f (ch_bank c) = (r, ch_bank c')"
  by (auto simp: onBank_def split: prod.splits)

lemma withdraw_parts:
  assumes "legacy_Withdraw env rt ctx msg c = (Inr (), c')"
  shows "\<exists>a w p d z n. verifyProofBN254 env ctx p a c = (Inr (), w) \<and> withdrawStage env rt ctx msg d z n w = (Inr (), c')"
  using assms unfolding legacy_Withdraw_def by (auto split: option.splits) blast

section \<open>A withdrawal in a later block\<close>

text \<open>C11. The first service cannot execute a withdrawal in a block other than the one that last appended a commitment: whatever the message, its proof and
  the state of the bank, the handler ends with an error, since indexing its event registers the current root at the height of the block, and
  the root is already registered at the height at which it arose.\<close>

theorem late_withdrawal_refused:
  assumes "crypto_ok env" "tree_inv env ls (ch_store c)" "ls \<noteq> []" "recorded_at env ls h (ch_store c)" "block_height ctx \<noteq> h"
  shows "\<exists>e c'. legacy_Withdraw env rt ctx msg c = (Inl e, c')"
proof (rule ccontr)
  assume "\<not> ?thesis"
  then obtain c' where run: "legacy_Withdraw env rt ctx msg c = (Inr (), c')"
    by (cases "legacy_Withdraw env rt ctx msg c", cases "fst (legacy_Withdraw env rt ctx msg c)") auto
  obtain a w p d z n where verify: "verifyProofBN254 env ctx p a c = (Inr (), w)" and stage: "withdrawStage env rt ctx msg d z n w = (Inr (), c')"
    using withdraw_parts [OF run] by blast
  obtain x y v where null: "x = snd (onStore (SetNullifier env n) w)" and bank: "onBank (send_from_module env ModuleName d (newCoins z)) x = (Inr (), y)"
    and reserve: "onStore (RecordReserveWithdraw env z) y = (Inr (), v)"
    and emit: "emitIndexedPrivacyEvent env rt ctx EventTypeWithdraw (withdrawAttributes msg n) v = (Inr (), c')"
    using stage unfolding withdrawStage_def by (auto simp: ignoreErr_def)
  obtain r where null: "onStore (SetNullifier env n) w = (r, x)" using null by (metis surjective_pairing)
  have same: "kv_get (ch_store v) k = kv_get (ch_store c) k" if "tree_key k" for k
    using verify_quiet [OF verify] onBank_keeps [OF bank] onStore_within [OF legacy_within(1) null, of k] onStore_within [OF legacy_within(3) reserve, of k]
      regions_disjoint(1) [OF that] by simp
  have "tree_inv env ls (ch_store v)" "recorded_at env ls h (ch_store v)"
    using tree_inv_frame [OF same] recorded_cong [OF same] assms(2,4) by blast+
  then show False using emit_keeps_tree [OF emit assms(1)] assms(3,5) by blast
qed

text \<open>A node of the first service whose tree holds one commitment; the parameters that stand for the bank and for the proof system accept everything.\<close>

definition sample_legacy :: "sample_bank legacy_env" where
  "sample_legacy = msg_env.extend (sample_msg_env\<lparr>audit_on := False\<rparr>)
     (legacy_env.fields (\<lambda>p. Inr (length p, p)) (\<lambda>_ _ _. Inr ()) (\<lambda>_ _ _ b. (Inr (), b)) (\<lambda>_ _ _ b. (Inr (), b)))"

lemma sample_legacy_crypto [simp]: "mimc_sum sample_legacy = sample_digest" "\<not> audit_on sample_legacy" "crypto_ok sample_legacy"
  using sample_crypto [of False]
  by (simp_all add: sample_legacy_def msg_env.extend_def legacy_env.fields_def sample_msg_env_def sdk_env.extend_def sample_sdk_def keeper_env.extend_def sample_env_def crypto_ok_def)

definition sample_withdraw :: legacy_withdraw where
  "sample_withdraw = \<lparr>lw_creator = ''relayer'', lw_proof = [1], lw_root = root_bytes sample_legacy [sample_c1], lw_nullifier = sample_c2, lw_amount = ''5uclair'',
     lw_recipient = ''alice'', lw_chain_id = ''clairveil-1'', lw_expires = 100\<rparr>"

definition sample_legacy_chain :: "sample_bank chain" where
  "sample_legacy_chain = \<lparr>ch_store = append_state sample_legacy 5 [] sample_c1 [], ch_bank = (\<lambda>_ _. 0), ch_gas = 0, ch_events = []\<rparr>"

lemma sample_legacy_tree: "tree_inv sample_legacy [sample_c1] (ch_store sample_legacy_chain)"
proof -
  have "tree_inv sample_legacy ([] @ [sample_c1]) (ch_store sample_legacy_chain)"
    unfolding sample_legacy_chain_def chain.simps by (rule append_state_inv) (simp_all add: sample_fresh is_height_def)
  then show ?thesis by simp
qed

theorem late_withdrawal_refused_witness:
  "\<exists>h. recorded_at sample_legacy [sample_c1] h (ch_store sample_legacy_chain) \<and>
     (\<exists>e c'. legacy_Withdraw sample_legacy None (sample_block\<lparr>chain_id := ''clairveil-1'', block_height := h + 1\<rparr>) sample_withdraw sample_legacy_chain = (Inl e, c'))"
proof -
  obtain h where h: "recorded_at sample_legacy [sample_c1] h (ch_store sample_legacy_chain)" using recorded_exists [OF sample_legacy_tree] by blast
  show ?thesis using h late_withdrawal_refused [OF _ sample_legacy_tree _ h, of "sample_block\<lparr>chain_id := ''clairveil-1'', block_height := h + 1\<rparr>" None sample_withdraw] by auto
qed

section \<open>Indexes of a growing tree\<close>

lemma keeps_more:
  "keeps_wf (Pair r)" "keeps_wf m \<Longrightarrow> keeps_wf (rawMutation env what m)" "keeps_wf (f x) \<Longrightarrow> keeps_wf (Let x f)"
  "(\<And>a b. keeps_wf (f2 a b)) \<Longrightarrow> keeps_wf (case p of (a, b) \<Rightarrow> f2 a b)"
  "keeps_wf m \<Longrightarrow> (\<And>x. keeps_wf (g x)) \<Longrightarrow> keeps_wf (case q of None \<Rightarrow> m | Some x \<Rightarrow> g x)"
proof -
  show "keeps_wf m \<Longrightarrow> keeps_wf (rawMutation env what m)" unfolding rawMutation_def by (intro keeps_bind keeps_bases)
qed (auto simp: keeps_wf_def split: prod.splits option.splits)

lemmas keeps_intros = keeps_bind keeps_bases keeps_more

lemma keeps_forM: "(\<And>x. keeps_wf (f x)) \<Longrightarrow> keeps_wf (forM xs f)"
  by (induction xs) (auto intro!: keeps_intros)

lemma keeps_climb: "keeps_wf (climb env n levels i cur)"
  by (induction levels arbitrary: i cur) (auto intro!: keeps_intros simp: tree_writer_defs)

lemma keeps_rebuild: "keeps_wf (rebuildLeaves env n xs)"
  by (induction xs) (auto intro!: keeps_intros keeps_climb simp: tree_writer_defs)

lemma keeps_append: "keeps_wf (appendCommitment env h c)"
  unfolding appendCommitment_def ensureIncrementalTreeState_def setMerkleRootSnapshot_def tree_writer_defs
  by (intro keeps_intros keeps_climb keeps_rebuild)

lemma event_ok_grow:
  assumes "event_ok env s e" "\<And>c v. kv_get s (GetCommitmentIndexKey c) = Some v \<Longrightarrow> kv_get t (GetCommitmentIndexKey c) = Some v"
  shows "event_ok env t e"
proof -
  have "GetCommitmentIndex x t = Inr (Some i)" if found: "GetCommitmentIndex x s = Inr (Some i)" for x i
  proof -
    obtain c v where "canonicalizeFieldBytes x = Inr c" "kv_get s (GetCommitmentIndexKey c) = Some v" "length v = 8" "i = un_be64 v"
      using found unfolding GetCommitmentIndex_def by (auto split: option.splits)
    then show ?thesis using assms(2) [of c v] by (simp add: GetCommitmentIndex_def)
  qed
  then have "validatePrivacyScanOutputStateV2 env m oo i t = Inr ()" if "validatePrivacyScanOutputStateV2 env m oo i s = Inr ()" for m oo i
    using that by (auto simp: validatePrivacyScanOutputStateV2_def)
  then show ?thesis using assms(1) by (simp add: event_ok_def)
qed

lemma scan_index_grow:
  assumes "scan_index env evs s" "kv_wf t" "\<And>k. k \<noteq> [] \<Longrightarrow> hd k \<in> {KeyPrefixScanSummary, KeyPrefixScanOutput, KeyPrefixScanSequence} \<Longrightarrow> kv_get t k = kv_get s k"
    and "\<And>c v. kv_get s (GetCommitmentIndexKey c) = Some v \<Longrightarrow> kv_get t (GetCommitmentIndexKey c) = Some v"
  shows "scan_index env evs t"
proof -
  note I = scan_indexD [OF assms(1)]
  have ranges: "kv_range [KeyPrefixScanSummary] [KeyPrefixScanOutput] t = kv_range [KeyPrefixScanSummary] [KeyPrefixScanOutput] s"
    "kv_range [KeyPrefixScanOutput] [KeyPrefixRootSnapshot] t = kv_range [KeyPrefixScanOutput] [KeyPrefixRootSnapshot] s"
    by (rule sorted_pairs_eq [OF kv.iter_sorted [OF assms(2)] kv.iter_sorted [OF I(1)]],
        use assms(3) in \<open>auto simp: scan_members [OF assms(2)] scan_members [OF I(1)]\<close>)+
  have "event_ok env t e" if "e \<in> set evs" for e by (rule event_ok_grow [OF I(2) [OF that] assms(4)])
  then have "list_all (event_ok env t) evs" by (simp add: list_all_iff)
  moreover have "kv_get t (GetPrivacyScanSequenceKey q) = kv_get s (GetPrivacyScanSequenceKey q)" for q
    by (rule assms(3)) (simp_all add: GetPrivacyScanSequenceKey_def)
  ultimately show ?thesis using assms(1,2) ranges by (simp add: scan_index_def)
qed

lemma index_grows:
  assumes "index_inv env evs scans g s" "kv_wf t" "tree_inv env ls s" "tree_inv env (ls @ cs) t"
    and "\<And>k. \<not> tree_key k \<Longrightarrow> \<not> nullifier_key k \<Longrightarrow> \<not> reserve_key k \<Longrightarrow> kv_get t k = kv_get s k"
  shows "index_inv env evs scans g t"
proof -
  note I = index_invD [OF assms(1)]
  have same: "kv_get t (p # r) = kv_get s (p # r)" if "p \<in> {KeyPrefixPrivacyEvent, KeyPrefixScanSummary, KeyPrefixScanOutput, KeyPrefixScanSequence, KeyPrefixPrivacyEventSeq}" for p r
    using that by (intro assms(5)) (auto simp: region_defs key_prefix_defs)
  have grow: "kv_get t (GetCommitmentIndexKey c) = Some v" if "kv_get s (GetCommitmentIndexKey c) = Some v" for c v
  proof -
    have "c \<in> set ls" using assms(3) that unfolding tree_inv_def tree_index_def by (metis option.distinct(1))
    then obtain i where i: "i < length ls" "c = ls ! i" by (metis in_set_conv_nth)
    have "v = be64 (word_of_nat i)" using assms(3) that i unfolding tree_inv_def tree_index_def by auto
    moreover have "\<forall>i < length (ls @ cs). kv_get t (GetCommitmentIndexKey ((ls @ cs) ! i)) = Some (be64 (word_of_nat i))"
      using assms(4) by (simp add: tree_inv_def tree_index_def)
    then have "kv_get t (GetCommitmentIndexKey ((ls @ cs) ! i)) = Some (be64 (word_of_nat i))" using i(1) by simp
    ultimately show ?thesis using i by (simp add: nth_append)
  qed
  have "event_index evs t" by (rule event_index_cong [OF I(1) assms(2)]) (simp add: same)
  moreover have "scan_index env scans t"
  proof (rule scan_index_grow [OF I(2) assms(2) _ grow])
    fix k :: bytes assume "k \<noteq> []" "hd k \<in> {KeyPrefixScanSummary, KeyPrefixScanOutput, KeyPrefixScanSequence}"
    then show "kv_get t k = kv_get s k" by (cases k) (auto intro!: same)
  qed
  moreover have "GetPrivacyGlobalSequence t = GetPrivacyGlobalSequence s"
    by (simp add: GetPrivacyGlobalSequence_def GetPrivacyGlobalSequenceKey_def same)
  ultimately show ?thesis using assms(1) by (simp add: index_inv_def)
qed

section \<open>What the index learns of a transfer\<close>

lemmas attribute_keys = AttributeKeyRelayer_def AttributeKeyNullifier1_def AttributeKeyNullifier2_def AttributeKeyCommitment1_def AttributeKeyCommitment2_def
  AttributeKeyCipherText1_def AttributeKeyCipherText2_def AttributeKeyViewTag1_def AttributeKeyViewTag2_def AttributeKeyUserPrivacyPolicy_def
  AttributeKeyUserDisclosureMode_def AttributeKeyUserDisclosureDigest_def AttributeKeyUserDisclosureTargetPubKey_def AttributeKeyUserDisclosurePayload_def
  AttributeKeyAuditDisclosureDigest_def AttributeKeyAuditDisclosureTargetPubKey_def AttributeKeyAuditDisclosurePayload_def
  AttributeKeySelfViewDisclosureDigest_def AttributeKeySelfViewDisclosurePayload_def

lemma attributeMap_append: "key \<notin> fst ` set ys \<Longrightarrow> attributeMap (xs @ ys) key = attributeMap xs key"
proof (induction ys rule: rev_induct)
  case (snoc y ys)
  then show ?case by (cases y) (auto simp: attributeMap_def)
qed simp

lemma transfer_attribute_lookup:
  "attributeMap (transferAttributes req) AttributeKeyNullifier1 = hex_of_bytes (lt_nullifiers req ! 0)"
  "attributeMap (transferAttributes req) AttributeKeyNullifier2 = hex_of_bytes (lt_nullifiers req ! 1)"
  "attributeMap (transferAttributes req) AttributeKeyCommitment1 = hex_of_bytes (lt_commitments req ! 0)"
  "attributeMap (transferAttributes req) AttributeKeyCommitment2 = hex_of_bytes (lt_commitments req ! 1)"
  "attributeMap (transferAttributes req) AttributeKeyCipherText1 = hex_of_bytes (lt_ciphertexts req ! 0)"
  "attributeMap (transferAttributes req) AttributeKeyCipherText2 = hex_of_bytes (lt_ciphertexts req ! 1)"
  "attributeMap (transferAttributes req) AttributeKeyViewTag1 = hex_of_bytes (lt_view_tags req ! 0)"
  "attributeMap (transferAttributes req) AttributeKeyViewTag2 = hex_of_bytes (lt_view_tags req ! 1)"
  unfolding transferAttributes_def
  by (subst attributeMap_append, force simp: optional_attribute_def attribute_keys, simp add: attributeMap_def hex_quotes attribute_keys)+

lemma optional_hex: "attrs key = hex_of_bytes v \<Longrightarrow> decodeOptionalHexAttribute attrs key = Inr v"
  using hex_of_bytes_inj [of v "[]"] by (simp add: decodeOptionalHexAttribute_def hex_trim hexDecode_hex)

lemma required_hex: "attrs key = hex_of_bytes v \<Longrightarrow> decodeRequiredHexAttribute attrs key = Inr w \<Longrightarrow> w = v"
  by (simp add: decodeRequiredHexAttribute_def optional_hex)

lemma transfer_output:
  assumes "legacyTransferOutput attrs (newScanOutput q h txh ty s) (i, ck, xk, vk) = Inr out"
    and "attrs ck = hex_of_bytes c" "attrs xk = hex_of_bytes x" "attrs vk = hex_of_bytes v"
  shows "so_commitment out = c \<and> so_ciphertext out = x \<and> so_view_tag out = v"
  using assms required_hex [of attrs ck c] optional_hex [of attrs xk x] optional_hex [of attrs vk v]
  unfolding legacyTransferOutput_def newScanOutput_def by (auto split: option.splits)

lemma disclosure_keeps: "legacyDisclosure attrs out = Inr out' \<Longrightarrow>
    so_commitment out' = so_commitment out \<and> so_ciphertext out' = so_ciphertext out \<and> so_view_tag out' = so_view_tag out"
  by (auto simp: legacyDisclosure_def)

lemma transfer_built:
  assumes "buildLegacyPrivacyScanV2 q h txh EventTypeShieldedTransfer (transferAttributes req) s = Inr (m, outs)"
    and "length (lt_nullifiers req) = 2" "length (lt_commitments req) = 2" "length (lt_ciphertexts req) = 2" "length (lt_view_tags req) = 2"
  shows "map so_commitment outs = lt_commitments req" "map so_ciphertext outs = lt_ciphertexts req" "map so_view_tag outs = lt_view_tags req"
    "ss_nullifiers m = lt_nullifiers req"
proof -
  let ?a = "attributeMap (transferAttributes req)"
  obtain t o1 o2 n1 n2 f target where o: "legacyTransferOutput ?a (newScanOutput q h t EventTypeShieldedTransfer s) (0, AttributeKeyCommitment1, AttributeKeyCipherText1, AttributeKeyViewTag1) = Inr o1"
    "legacyTransferOutput ?a (newScanOutput q h t EventTypeShieldedTransfer s) (1, AttributeKeyCommitment2, AttributeKeyCipherText2, AttributeKeyViewTag2) = Inr o2"
    and n: "legacyNullifier ?a AttributeKeyNullifier1 = Inr n1" "legacyNullifier ?a AttributeKeyNullifier2 = Inr n2"
    and f: "legacyDisclosure ?a o1 = Inr f" and out: "outs = [f\<lparr>so_target := target\<rparr>, o2\<lparr>so_target := target\<rparr>]" "ss_nullifiers m = [n1, n2]"
    using assms(1) unfolding buildLegacyPrivacyScanV2_def Let_def
    by (auto simp: EventTypeDeposit_def EventTypeShieldedTransfer_def)
  note p1 = transfer_output [OF o(1) transfer_attribute_lookup(3) transfer_attribute_lookup(5) transfer_attribute_lookup(7)]
  note p2 = transfer_output [OF o(2) transfer_attribute_lookup(4) transfer_attribute_lookup(6) transfer_attribute_lookup(8)]
  have null: "n = v" if "legacyNullifier ?a k = Inr n" "?a k = hex_of_bytes v" for k n v
    using that required_hex by (auto simp: legacyNullifier_def)
  have two: "xs = [xs ! 0, xs ! 1]" if "length xs = 2" for xs :: "bytes list" using that by (cases xs; cases "tl xs") auto
  show "map so_commitment outs = lt_commitments req" "map so_ciphertext outs = lt_ciphertexts req" "map so_view_tag outs = lt_view_tags req" "ss_nullifiers m = lt_nullifiers req"
    using p1 p2 disclosure_keeps [OF f] out null [OF n(1) transfer_attribute_lookup(1)] null [OF n(2) transfer_attribute_lookup(2)]
      two [OF assms(2)] two [OF assms(3)] two [OF assms(4)] two [OF assms(5)] by simp_all
qed

section \<open>A transfer\<close>

lemma unspent_same: "unspent_nullifier n s = Inr m \<longleftrightarrow> m = n \<and> canonical_field n \<and> \<not> HasNullifier n s"
  by (auto simp: unspent_nullifier_def)

lemma unspent_all: "traverseE (\<lambda>n. unspent_nullifier n s) ns = Inr ms \<longleftrightarrow> ms = ns \<and> (\<forall>n \<in> set ns. canonical_field n \<and> \<not> HasNullifier n s)"
  by (induction ns arbitrary: ms) (auto simp: unspent_same)

lemma absent_all: "traverseE (\<lambda>c. absent_commitment name c s) cs = Inr ds \<Longrightarrow> ds = cs"
  by (induction cs arbitrary: ds) (auto simp: absent_commitment_def)

lemma transfer_parts:
  assumes "executeShieldedTransfer env rt ctx req c = (Inr (), c')"
  shows "\<exists>chain payload w. ComputeChainDomainV1 (chain_id ctx) ActiveCircuitSetID = Inr chain \<and>
      ComputeTransferPayloadDigestV1 (Some (transfer_effects req)) = Inr payload \<and> CheckHistoricalRoot (lt_root req) (ch_store c) \<and>
      length (lt_nullifiers req) = 2 \<and> length (lt_commitments req) = 2 \<and> length (lt_ciphertexts req) = 2 \<and> length (lt_view_tags req) = 2 \<and>
      ValidateDistinctCanonicalFieldElements ''nullifier'' (lt_nullifiers req) = Inr () \<and>
      (\<forall>n \<in> set (lt_nullifiers req). canonical_field n \<and> \<not> HasNullifier n (ch_store c)) \<and> block_unix ctx < lt_expires req \<and>
      lt_audit_target req = GetAuditMasterPubkey env (ch_store c) \<and>
      verifyProofBN254 env ctx (lt_proof req) (transferAssignment req chain payload) c = (Inr (), w) \<and> transferStage env rt ctx req w = (Inr (), c')"
proof -
  have same: "req\<lparr>lt_root := lt_root req, lt_nullifiers := lt_nullifiers req, lt_commitments := lt_commitments req\<rparr> = req" by simp
  show ?thesis using assms unfolding executeShieldedTransfer_def Let_def
    by (auto simp: unspent_all not_le transfer_effects_def dest!: absent_all) 
qed

lemma nullifiers_run:
  assumes "forM ns (\<lambda>n. ignoreErr (onStore (SetNullifier env n))) c = (Inr (), c')" "\<forall>n \<in> set ns. canonical_field n" "\<not> audit_on env"
  shows "\<exists>t. c' = c\<lparr>ch_store := t\<rparr> \<and> (kv_wf (ch_store c) \<longrightarrow> kv_wf t) \<and> (\<forall>k. \<not> nullifier_key k \<longrightarrow> kv_get t k = kv_get (ch_store c) k) \<and>
    (\<forall>n. kv_has t (GetNullifierKey n) \<longleftrightarrow> kv_has (ch_store c) (GetNullifierKey n) \<or> n \<in> set ns)"
  using assms
proof (induction ns arbitrary: c)
  case Nil
  then show ?case by (intro exI [of _ "ch_store c"]) simp
next
  case (Cons n ns)
  let ?s = "kv_set (GetNullifierKey n) [0x01] (ch_store c)"
  have "canonicalizeFieldBytesOrOriginal n = n" using Cons.prems(2) by simp
  then have "ignoreErr (onStore (SetNullifier env n)) c = (Inr (), c\<lparr>ch_store := ?s\<rparr>)"
    using Cons.prems(3) by (simp add: ignoreErr_def onStore_def SetNullifier_def rawMutation_def setNullifier_def guardE_def bindM_run del: kv_set.simps)
  then have step: "forM ns (\<lambda>n. ignoreErr (onStore (SetNullifier env n))) (c\<lparr>ch_store := ?s\<rparr>) = (Inr (), c')" using Cons.prems(1) by auto
  obtain t where t: "c' = c\<lparr>ch_store := t\<rparr>" "kv_wf ?s \<longrightarrow> kv_wf t" "\<forall>k. \<not> nullifier_key k \<longrightarrow> kv_get t k = kv_get ?s k"
    "\<forall>m. kv_has t (GetNullifierKey m) \<longleftrightarrow> kv_has ?s (GetNullifierKey m) \<or> m \<in> set ns"
    using Cons.IH [OF step] Cons.prems(2,3) by auto
  have "kv_get ?s k = kv_get (ch_store c) k" if "\<not> nullifier_key k" for k using that by (auto simp del: kv_set.simps)
  moreover have "kv_has ?s (GetNullifierKey m) \<longleftrightarrow> kv_has (ch_store c) (GetNullifierKey m) \<or> m = n" for m
    by (auto simp: kv_has_def GetNullifierKey_def simp del: kv_set.simps)
  ultimately show ?case using t by (intro exI [of _ t]) auto
qed

lemma appends_run:
  "forM cs (appendAs env ctx what) c = (Inr (), c') \<Longrightarrow> \<exists>t. forM cs (appendCommitment env (block_height ctx)) (ch_store c) = (Inr (), t) \<and> c' = c\<lparr>ch_store := t\<rparr>"
proof (induction cs arbitrary: c)
  case (Cons x cs)
  obtain u where "appendAs env ctx what x c = (Inr (), u)" and rest: "forM cs (appendAs env ctx what) u = (Inr (), c')" using Cons.prems by auto
  then obtain s where s: "appendCommitment env (block_height ctx) x (ch_store c) = (Inr (), s)" "u = c\<lparr>ch_store := s\<rparr>"
    by (auto simp: appendAs_def onStore_def AppendCommitment_def rawMutation_def split: prod.splits)
  then show ?case using Cons.IH [OF rest] by auto
qed simp

lemma transfer_stage_run:
  assumes "transferStage env rt ctx req c = (Inr (), c')" "\<forall>n \<in> set (lt_nullifiers req). canonical_field n" "\<not> audit_on env"
    and ok: "crypto_ok env" "tree_inv env ls (ch_store c)" "index_inv env evs scans g (ch_store c)" "is_height (block_height ctx)"
    and size: "QueryPrivacyEvent_Size (eventOf (g + 1) (block_height ctx) (txHashHexFromContext ctx) EventTypeShieldedTransfer (transferAttributes req)) < 2 ^ 63"
  shows "\<exists>m outs s. buildLegacyPrivacyScanV2 (g + 1) (block_height ctx) (txHashHexFromContext ctx) EventTypeShieldedTransfer (transferAttributes req) s = Inr (m, outs) \<and>
    tree_inv env (ls @ lt_commitments req) (ch_store c') \<and>
    index_inv env (insert_pe (eventOf (g + 1) (block_height ctx) (txHashHexFromContext ctx) EventTypeShieldedTransfer (transferAttributes req)) evs)
      (insert_event (m, outs) scans) (g + 1) (ch_store c') \<and>
    (\<forall>n. kv_has (ch_store c') (GetNullifierKey n) \<longleftrightarrow> kv_has (ch_store c) (GetNullifierKey n) \<or> n \<in> set (lt_nullifiers req)) \<and>
    ch_bank c' = ch_bank c \<and> ch_events c' = ch_events c @ [(EventTypeShieldedTransfer, transferAttributes req)]"
proof -
  obtain a b where nulls: "forM (lt_nullifiers req) (\<lambda>n. ignoreErr (onStore (SetNullifier env n))) c = (Inr (), a)"
    and apps: "forM (lt_commitments req) (appendAs env ctx ''failed to append a new commitment'') a = (Inr (), b)"
    and emit: "emitIndexedPrivacyEvent env rt ctx EventTypeShieldedTransfer (transferAttributes req) b = (Inr (), c')"
    using assms(1) by (auto simp: transferStage_def)
  obtain s where s: "a = c\<lparr>ch_store := s\<rparr>" "kv_wf (ch_store c) \<longrightarrow> kv_wf s" "\<And>k. \<not> nullifier_key k \<Longrightarrow> kv_get s k = kv_get (ch_store c) k"
    "\<And>n. kv_has s (GetNullifierKey n) \<longleftrightarrow> kv_has (ch_store c) (GetNullifierKey n) \<or> n \<in> set (lt_nullifiers req)"
    using nullifiers_run [OF nulls assms(2,3)] by auto
  obtain t where t: "forM (lt_commitments req) (appendCommitment env (block_height ctx)) s = (Inr (), t)" "b = c\<lparr>ch_store := t\<rparr>"
    using appends_run [OF apps] s(1) by auto
  have tree_s: "tree_inv env ls s" using tree_inv_frame [of s "ch_store c" env ls] s(3) regions_disjoint(1) ok(2) by metis
  then have "tree_state env (block_height ctx) ls s" using ok(1,4) by (simp add: tree_state_def)
  then have tree_t: "tree_inv env (ls @ lt_commitments req) t" using block_tree.steps_ok [OF _ t(1)] by (simp add: tree_state_def)
  have w: "within tree_key (forM (lt_commitments req) (appendCommitment env (block_height ctx)))" by (intro within_intros)
  have "kv_wf s" using s(2) event_indexD(1) [OF index_invD(1) [OF ok(3)]] by simp
  then have "kv_wf t" using keeps_forM [of "appendCommitment env (block_height ctx)" "lt_commitments req"] keeps_append t(1) unfolding keeps_wf_def by (metis snd_conv)
  then have index_t: "index_inv env evs scans g t"
    by (rule index_grows [OF ok(3) _ ok(2) tree_t]) (use withinD [OF w t(1)] s(3) in simp)
  obtain v where v: "indexPrivacyEvent env rt ctx EventTypeShieldedTransfer (txHashHexFromContext ctx) (transferAttributes req) t = (Inr (), v)"
    "c' = c\<lparr>ch_events := ch_events c @ [(EventTypeShieldedTransfer, transferAttributes req)], ch_store := v\<rparr>"
    using emit t(2) unfolding emitIndexedPrivacyEvent_def emitEvent_def onStore_def by (auto simp: bindM_run split: prod.splits)
  have h: "0 \<le> block_height ctx" "block_height ctx < 2 ^ 63" using ok(4) by (simp_all add: is_height_def)
  obtain m outs where m: "buildLegacyPrivacyScanV2 (g + 1) (block_height ctx) (txHashHexFromContext ctx) EventTypeShieldedTransfer (transferAttributes req) t = Inr (m, outs)"
    "index_inv env (insert_pe (eventOf (g + 1) (block_height ctx) (txHashHexFromContext ctx) EventTypeShieldedTransfer (transferAttributes req)) evs) (insert_event (m, outs) scans) (g + 1) v"
    using index_step [OF index_t v(1) h emitted_hash size] by blast
  have tree_v: "tree_inv env (ls @ lt_commitments req) v" using index_keeps_tree [OF v(1) ok(1) tree_t] by blast
  have nulls_v: "kv_get v (GetNullifierKey n) = kv_get s (GetNullifierKey n)" for n
    using index_frame [OF v(1), of "GetNullifierKey n"] withinD [OF w t(1), of "GetNullifierKey n"] by (simp add: region_defs GetNullifierKey_def key_prefix_defs)
  then have "kv_has v (GetNullifierKey n) \<longleftrightarrow> kv_has (ch_store c) (GetNullifierKey n) \<or> n \<in> set (lt_nullifiers req)" for n
    using s(4) [of n] by (simp add: kv_has_def)
  then show ?thesis using m tree_v v(2) by (intro exI [of _ m] exI [of _ outs] exI [of _ t]) simp
qed

end
