(* ===== verification/Reservation_Types.thy ===== *)
theory Reservation_Types
  imports Sdk_Env
begin

text \<open>
  \<^verbatim>\<open>x/privacy/client/sdk/reservation\<close>: the records and the statuses of note reservations and payroll operations (\<^verbatim>\<open>types.go\<close>, \<^verbatim>\<open>status.go\<close>,
  \<^verbatim>\<open>audit_v2.go\<close>). A status is a string, as in the code; a \<^verbatim>\<open>time.Time\<close> is the number of nanoseconds since the zero time, and its location does not
  matter because every caller normalises to UTC.
\<close>

section \<open>Times\<close>

type_synonym time = int

definition TimeIsZero :: "time \<Rightarrow> bool" where "TimeIsZero t = (t = 0)"

definition zeroTime :: time where "zeroTime = 0"

definition After :: "time \<Rightarrow> time \<Rightarrow> bool" where "After t u = (u < t)"

definition unixTime :: "time \<Rightarrow> int" where "unixTime t = t div 1000000000 - 62135596800"

section \<open>Statuses\<close>

type_synonym reservation_status = string
type_synonym operation_status = string

named_theorems status_defs \<open>the constants of the two status types\<close>

definition StatusDiscovered :: reservation_status where [status_defs]: "StatusDiscovered = ''Discovered''"
definition StatusAvailable :: reservation_status where [status_defs]: "StatusAvailable = ''Available''"
definition StatusReserved :: reservation_status where [status_defs]: "StatusReserved = ''Reserved''"
definition StatusProving :: reservation_status where [status_defs]: "StatusProving = ''Proving''"
definition StatusProofReady :: reservation_status where [status_defs]: "StatusProofReady = ''ProofReady''"
definition StatusSubmitted :: reservation_status where [status_defs]: "StatusSubmitted = ''Submitted''"
definition StatusConfirmedSpent :: reservation_status where [status_defs]: "StatusConfirmedSpent = ''ConfirmedSpent''"
definition StatusFailed :: reservation_status where [status_defs]: "StatusFailed = ''Failed''"
definition StatusReplanRequired :: reservation_status where [status_defs]: "StatusReplanRequired = ''ReplanRequired''"
definition StatusReleased :: reservation_status where [status_defs]: "StatusReleased = ''Released''"
definition StatusUnknown :: reservation_status where [status_defs]: "StatusUnknown = ''Unknown''"
definition StatusManualReview :: reservation_status where [status_defs]: "StatusManualReview = ''ManualReview''"

definition OperationStatusPlanned :: operation_status where [status_defs]: "OperationStatusPlanned = ''Planned''"
definition OperationStatusProving :: operation_status where [status_defs]: "OperationStatusProving = ''Proving''"
definition OperationStatusProofReady :: operation_status where [status_defs]: "OperationStatusProofReady = ''ProofReady''"
definition OperationStatusSubmitted :: operation_status where [status_defs]: "OperationStatusSubmitted = ''Submitted''"
definition OperationStatusSucceeded :: operation_status where [status_defs]: "OperationStatusSucceeded = ''Succeeded''"
definition OperationStatusFailed :: operation_status where [status_defs]: "OperationStatusFailed = ''Failed''"
definition OperationStatusReplanRequired :: operation_status where [status_defs]: "OperationStatusReplanRequired = ''ReplanRequired''"
definition OperationStatusUnknown :: operation_status where [status_defs]: "OperationStatusUnknown = ''Unknown''"
definition OperationStatusManualReview :: operation_status where [status_defs]: "OperationStatusManualReview = ''ManualReview''"
definition OperationStatusConflictSpent :: operation_status where [status_defs]: "OperationStatusConflictSpent = ''ConflictSpent''"

definition IsActiveReservationStatus :: "reservation_status \<Rightarrow> bool" where
  "IsActiveReservationStatus status =
     (status \<in> set [StatusReserved, StatusProving, StatusProofReady, StatusSubmitted, StatusUnknown, StatusManualReview])"

definition CanTransitionReservation :: "reservation_status \<Rightarrow> reservation_status \<Rightarrow> bool" where
  "CanTransitionReservation from to =
     (if from = StatusDiscovered then to \<in> set [StatusAvailable, StatusFailed]
      else if from = StatusAvailable then to = StatusReserved
      else if from = StatusReserved then to \<in> set [StatusProving, StatusReleased, StatusReplanRequired, StatusManualReview]
      else if from = StatusProving then to \<in> set [StatusProofReady, StatusReserved, StatusReplanRequired, StatusManualReview]
      else if from = StatusProofReady then to \<in> set [StatusSubmitted, StatusUnknown, StatusConfirmedSpent, StatusReplanRequired, StatusManualReview]
      else if from = StatusSubmitted then to \<in> set [StatusConfirmedSpent, StatusFailed, StatusUnknown, StatusReplanRequired, StatusManualReview]
      else if from = StatusUnknown then to \<in> set [StatusConfirmedSpent, StatusFailed, StatusReplanRequired, StatusManualReview]
      else if from = StatusManualReview then to \<in> set [StatusConfirmedSpent, StatusFailed, StatusReleased, StatusReplanRequired]
      else if from = StatusFailed then to = StatusReplanRequired
      else if from = StatusReleased then to = StatusAvailable
      else if from = StatusReplanRequired then to \<in> set [StatusReserved, StatusFailed, StatusManualReview]
      else False)"

definition RequiresLeaseToken :: "reservation_status \<Rightarrow> reservation_status \<Rightarrow> bool" where
  "RequiresLeaseToken from to =
     (from = StatusReserved \<and> to = StatusProving \<or> from = StatusProving \<and> to = StatusProofReady \<or>
      from = StatusProofReady \<and> to = StatusSubmitted \<or> from = StatusProofReady \<and> to = StatusUnknown)"

definition IsTerminalReservationStatus :: "reservation_status \<Rightarrow> bool" where
  "IsTerminalReservationStatus status = (status \<in> set [StatusConfirmedSpent, StatusFailed])"

definition IsTerminalOperationStatus :: "operation_status \<Rightarrow> bool" where
  "IsTerminalOperationStatus status = (status \<in> set [OperationStatusSucceeded, OperationStatusFailed, OperationStatusConflictSpent])"

section \<open>Records\<close>

record audit_binding =
  ab_network_id :: string
  ab_key_id :: string
  ab_epoch :: u64
  ab_artifact_hash :: string
  ab_expires :: int

record note_reservation =
  nr_id :: string
  nr_company :: string
  nr_payroll :: string
  nr_batch :: string
  nr_chunk :: string
  nr_item :: string
  nr_note :: string
  nr_owner_key :: string
  nr_encrypted_nullifier :: bytes
  nr_lookup_key :: string
  nr_lookup_key_id :: string
  nr_status :: reservation_status
  nr_expires :: time
  nr_lease_owner :: string
  nr_lease_token :: string
  nr_lease_until :: time
  nr_heartbeat :: time
  nr_operation :: string
  nr_sign_doc_hash :: string
  nr_tx_bytes_hash :: string
  nr_tx_hash :: string
  nr_sequence :: u64
  nr_attempts :: int
  nr_last_broadcast :: time
  nr_last_error :: string
  nr_audit :: "audit_binding option"
  nr_created :: time
  nr_updated :: time

record payroll_operation =
  po_id :: string
  po_company :: string
  po_payroll :: string
  po_batch :: string
  po_chunk :: string
  po_item :: string
  po_reservation :: string
  po_commitment :: string
  po_digest :: string
  po_user_digest :: string
  po_audit_digest :: string
  po_self_digest :: string
  po_recipient_hash :: string
  po_encrypted_recipient :: bytes
  po_encrypted_amount :: bytes
  po_amount_hash :: string
  po_denom :: string
  po_item_index :: int
  po_item_index_known :: bool
  po_sign_doc_hash :: string
  po_tx_bytes_hash :: string
  po_tx_hash :: string
  po_status :: operation_status
  po_created :: time
  po_updated :: time

record lease =
  le_owner :: string
  le_token :: string
  le_until :: time

record submitted_update =
  su_tx_hash :: string
  su_tx_bytes_hash :: string
  su_sign_doc_hash :: string
  su_sequence :: u64

record broadcast_update = submitted_update +
  bu_last_error :: string

record submitted_ref =
  sr_id :: string
  sr_token :: string

record proof_ready_update =
  pr_operation :: string
  pr_commitment :: string
  pr_digest :: string
  pr_user_digest :: string
  pr_audit_digest :: string
  pr_self_digest :: string

record reservation_filter =
  rf_statuses :: "reservation_status list"
  rf_limit :: int

definition ActiveKey :: "note_reservation \<Rightarrow> string" where
  "ActiveKey r = nr_owner_key r @ [CHR 0x00] @ nr_lookup_key r"

section \<open>Facts about statuses\<close>

lemma spent_final: "\<not> CanTransitionReservation StatusConfirmedSpent to"
  by (simp add: CanTransitionReservation_def status_defs)

lemma spent_inactive: "\<not> IsActiveReservationStatus StatusConfirmedSpent"
  by (simp add: IsActiveReservationStatus_def status_defs)

text \<open>The steps that need a lease are transitions, and they lead from a status that holds a note to another one.\<close>

lemma leased_steps: "RequiresLeaseToken from to \<Longrightarrow> CanTransitionReservation from to \<and> IsActiveReservationStatus from \<and> IsActiveReservationStatus to"
  by (auto simp: RequiresLeaseToken_def CanTransitionReservation_def IsActiveReservationStatus_def status_defs)

text \<open>A note that was handed to the network returns to the pool only through a review or a new plan.\<close>

lemma submitted_leaves:
  "CanTransitionReservation from to \<Longrightarrow> from \<in> {StatusSubmitted, StatusUnknown} \<Longrightarrow>
     to \<in> {StatusConfirmedSpent, StatusFailed, StatusUnknown, StatusReplanRequired, StatusManualReview}"
  by (auto simp: CanTransitionReservation_def status_defs)

end
