(* ===== verification/Reservation_Store.thy ===== *)
theory Reservation_Store
  imports Reservation_Types "HOL-Library.AList"
begin

text \<open>
  \<^verbatim>\<open>reservation/memory_store.go\<close>: the store of reservations and operations. Every method runs under one mutex, so a method is one action on the
  state. A Go map is an association list with one entry per key; the order in which the code visits a map only shows in the order of a listing,
  where it is an argument. The maps are made by \<^verbatim>\<open>NewMemoryStore\<close>, so that \<^verbatim>\<open>ensureMapsLocked\<close> finds nothing to do, and the copies that
  \<^verbatim>\<open>cloneReservation\<close> and \<^verbatim>\<open>cloneOperation\<close> take are the values themselves.
\<close>

section \<open>State\<close>

record mem_store =
  ms_reservations :: "(string \<times> note_reservation) list"
  ms_operations :: "(string \<times> payroll_operation) list"
  ms_active :: "(string \<times> string) list"

abbreviation reservation_of :: "'m mem_store_scheme \<Rightarrow> string \<Rightarrow> note_reservation option" where
  "reservation_of s \<equiv> map_of (ms_reservations s)"

abbreviation operation_of :: "'m mem_store_scheme \<Rightarrow> string \<Rightarrow> payroll_operation option" where
  "operation_of s \<equiv> map_of (ms_operations s)"

definition NewMemoryStore :: mem_store where
  "NewMemoryStore = \<lparr>ms_reservations = [], ms_operations = [], ms_active = []\<rparr>"

definition storeReservationLocked :: "note_reservation \<Rightarrow> 'm mem_store_scheme \<Rightarrow> 'm mem_store_scheme" where
  "storeReservationLocked r s =
     (let active = (case reservation_of s (nr_id r) of
            Some existing \<Rightarrow> if IsActiveReservationStatus (nr_status existing) then AList.delete (ActiveKey existing) (ms_active s) else ms_active s
          | None \<Rightarrow> ms_active s)
      in s\<lparr>ms_reservations := AList.update (nr_id r) r (ms_reservations s),
           ms_active := (if IsActiveReservationStatus (nr_status r) then AList.update (ActiveKey r) (nr_id r) active else active)\<rparr>)"

definition storeOperation :: "payroll_operation \<Rightarrow> 'm mem_store_scheme \<Rightarrow> 'm mem_store_scheme" where
  "storeOperation p s = s\<lparr>ms_operations := AList.update (po_id p) p (ms_operations s)\<rparr>"

definition activeReservationConflictLocked :: "note_reservation \<Rightarrow> string \<Rightarrow> 'm mem_store_scheme \<Rightarrow> bool" where
  "activeReservationConflictLocked candidate excludeReservationID s =
     (case map_of (ms_active s) (ActiveKey candidate) of None \<Rightarrow> False | Some existingID \<Rightarrow> existingID \<noteq> excludeReservationID)"

section \<open>Creation\<close>

text \<open>The two maps of what earlier elements of the batch claim are the sets of their keys.\<close>

definition validateReservationCreateLocked ::
  "note_reservation \<Rightarrow> string list \<Rightarrow> string list \<Rightarrow> 'm mem_store_scheme \<Rightarrow> (string list \<times> string list) res" where
  "validateReservationCreateLocked r pending pendingActiveKeys s =
     bindE (guardE (nr_id r \<noteq> []) (ReservationErr ErrInvalidReservation ''reservation_id is required'')) (\<lambda>_.
     bindE (guardE (reservation_of s (nr_id r) = None) (ReservationErr ErrActiveReservationExists ''reservation_id already exists'')) (\<lambda>_.
     bindE (guardE (nr_id r \<notin> set pending) (ReservationErr ErrActiveReservationExists ''reservation_id already exists in batch'')) (\<lambda>_.
     if IsActiveReservationStatus (nr_status r) then
       bindE (guardE (map_of (ms_active s) (ActiveKey r) = None) (ReservationErr ErrActiveReservationExists [])) (\<lambda>_.
       bindE (guardE (ActiveKey r \<notin> set pendingActiveKeys) (ReservationErr ErrActiveReservationExists [])) (\<lambda>_.
       Inr (nr_id r # pending, ActiveKey r # pendingActiveKeys)))
     else Inr (nr_id r # pending, pendingActiveKeys))))"

fun validateReservations :: "note_reservation list \<Rightarrow> string list \<Rightarrow> string list \<Rightarrow> 'm mem_store_scheme \<Rightarrow> unit res" where
  "validateReservations [] pending keys s = Inr ()"
| "validateReservations (r # rs) pending keys s =
     bindE (validateReservationCreateLocked r pending keys s) (\<lambda>(pending', keys'). validateReservations rs pending' keys' s)"

definition validateOperationCreateLocked :: "payroll_operation \<Rightarrow> string list \<Rightarrow> 'm mem_store_scheme \<Rightarrow> string list res" where
  "validateOperationCreateLocked p pending s =
     bindE (guardE (po_id p \<noteq> []) (Errorf ''operation_id is required'')) (\<lambda>_.
     bindE (guardE (operation_of s (po_id p) = None) (Errorf ''operation already exists'')) (\<lambda>_.
     bindE (guardE (po_id p \<notin> set pending) (Errorf ''operation already exists in batch'')) (\<lambda>_. Inr (po_id p # pending))))"

fun validateOperations :: "payroll_operation list \<Rightarrow> string list \<Rightarrow> 'm mem_store_scheme \<Rightarrow> unit res" where
  "validateOperations [] pending s = Inr ()"
| "validateOperations (p # ps) pending s = bindE (validateOperationCreateLocked p pending s) (\<lambda>pending'. validateOperations ps pending' s)"

definition CreateReservationBatch ::
  "note_reservation list \<Rightarrow> payroll_operation list \<Rightarrow> ('m mem_store_scheme, note_reservation list) action" where
  "CreateReservationBatch reservations operations =
     (if reservations = [] then retM []
      else
        bindM (readM (validateReservations reservations [] [])) (\<lambda>_.
        bindM (readM (validateOperations operations [])) (\<lambda>_.
        bindM (writeM (fold storeReservationLocked reservations)) (\<lambda>_.
        bindM (writeM (fold storeOperation operations)) (\<lambda>_. retM reservations)))))"

definition CreateReservation :: "note_reservation \<Rightarrow> ('m mem_store_scheme, note_reservation) action" where
  "CreateReservation r = bindM (CreateReservationBatch [r] []) (\<lambda>created. retM (created ! 0))"

section \<open>Reading\<close>

definition findReservation :: "string \<Rightarrow> 'm mem_store_scheme \<Rightarrow> note_reservation res" where
  "findReservation i s = (case reservation_of s i of None \<Rightarrow> Inl (ReservationErr ErrReservationNotFound []) | Some r \<Rightarrow> Inr r)"

definition GetReservation :: "string \<Rightarrow> ('m mem_store_scheme, note_reservation) action" where
  "GetReservation i = readM (findReservation i)"

text \<open>\<open>visit\<close> is the order in which the map is visited; a sort that is not stable only adds orders that a visit can have.\<close>

definition ListReservations ::
  "(note_reservation list \<Rightarrow> note_reservation list) \<Rightarrow> reservation_filter \<Rightarrow> ('m mem_store_scheme, note_reservation list) action" where
  "ListReservations visit f =
     readM (\<lambda>s.
       let out = filter (\<lambda>r. rf_statuses f = [] \<or> nr_status r \<in> set (rf_statuses f)) (visit (map snd (ms_reservations s)));
           sorted_out = sort_key nr_created out
       in Inr (if rf_limit f > 0 \<and> int (length sorted_out) > rf_limit f then take (nat (rf_limit f)) sorted_out else sorted_out))"

section \<open>Leases\<close>

definition requireLeaseToken :: "note_reservation \<Rightarrow> string \<Rightarrow> time \<Rightarrow> unit res" where
  "requireLeaseToken r token now =
     bindE (guardE (\<not> (token = [] \<or> token \<noteq> nr_lease_token r)) (ReservationErr ErrLeaseMismatch [])) (\<lambda>_.
     guardE (\<not> (TimeIsZero (nr_lease_until r) \<or> \<not> After (nr_lease_until r) now)) (ReservationErr ErrLeaseUnavailable []))"

definition clearReservationLeaseFields :: "note_reservation \<Rightarrow> note_reservation" where
  "clearReservationLeaseFields r = r\<lparr>nr_lease_owner := [], nr_lease_token := [], nr_lease_until := zeroTime, nr_heartbeat := zeroTime\<rparr>"

definition clearLeaseForStatusTransition :: "reservation_status \<Rightarrow> note_reservation \<Rightarrow> note_reservation" where
  "clearLeaseForStatusTransition to r = (if to = StatusProving \<or> to = StatusProofReady then r else clearReservationLeaseFields r)"

definition acquireReservationLeaseLocked ::
  "string \<Rightarrow> string \<Rightarrow> string \<Rightarrow> reservation_status \<Rightarrow> time \<Rightarrow> time \<Rightarrow> ('m mem_store_scheme, note_reservation) action" where
  "acquireReservationLeaseLocked i owner leaseToken requiredStatus leaseUntil now =
     bindM (readM (findReservation i)) (\<lambda>r.
     bindM (guardM (\<not> (requiredStatus \<noteq> [] \<and> nr_status r \<noteq> requiredStatus)) (ReservationErr ErrCompareAndSetFailed ''unexpected status'')) (\<lambda>_.
     bindM (guardM (IsActiveReservationStatus (nr_status r)) (ReservationErr ErrLeaseUnavailable ''status is not active'')) (\<lambda>_.
     bindM (guardM (\<not> (nr_lease_token r \<noteq> [] \<and> After (nr_lease_until r) now)) (ReservationErr ErrLeaseUnavailable [])) (\<lambda>_.
     bindM (guardM (\<not> (owner = [] \<or> leaseToken = [] \<or> \<not> After leaseUntil now)) (ReservationErr ErrLeaseUnavailable [])) (\<lambda>_.
     let u = r\<lparr>nr_lease_owner := owner, nr_lease_token := leaseToken, nr_lease_until := leaseUntil, nr_heartbeat := now, nr_updated := now\<rparr>
     in bindM (writeM (storeReservationLocked u)) (\<lambda>_. retM u))))))"

definition AcquireReservationLease :: "string \<Rightarrow> string \<Rightarrow> string \<Rightarrow> time \<Rightarrow> time \<Rightarrow> ('m mem_store_scheme, note_reservation) action" where
  "AcquireReservationLease i owner leaseToken leaseUntil now = acquireReservationLeaseLocked i owner leaseToken [] leaseUntil now"

definition AcquireReservationLeaseForStatus ::
  "string \<Rightarrow> string \<Rightarrow> string \<Rightarrow> reservation_status \<Rightarrow> time \<Rightarrow> time \<Rightarrow> ('m mem_store_scheme, note_reservation) action" where
  "AcquireReservationLeaseForStatus i owner leaseToken requiredStatus leaseUntil now =
     acquireReservationLeaseLocked i owner leaseToken requiredStatus leaseUntil now"

definition beat :: "time \<Rightarrow> time \<Rightarrow> note_reservation \<Rightarrow> note_reservation" where
  "beat leaseUntil now r = r\<lparr>nr_lease_until := leaseUntil, nr_heartbeat := now, nr_updated := now\<rparr>"

definition HeartbeatReservationLease :: "string \<Rightarrow> string \<Rightarrow> time \<Rightarrow> time \<Rightarrow> ('m mem_store_scheme, note_reservation) action" where
  "HeartbeatReservationLease i leaseToken leaseUntil now =
     bindM (readM (findReservation i)) (\<lambda>r.
     bindM (readM (\<lambda>_. requireLeaseToken r leaseToken now)) (\<lambda>_.
     bindM (guardM (After leaseUntil now) (ReservationErr ErrLeaseUnavailable [])) (\<lambda>_.
     bindM (writeM (storeReservationLocked (beat leaseUntil now r))) (\<lambda>_. retM (beat leaseUntil now r)))))"

definition HeartbeatReservationLeaseForStatus ::
  "string \<Rightarrow> string \<Rightarrow> reservation_status \<Rightarrow> time \<Rightarrow> time \<Rightarrow> ('m mem_store_scheme, note_reservation) action" where
  "HeartbeatReservationLeaseForStatus i leaseToken requiredStatus leaseUntil now =
     bindM (readM (findReservation i)) (\<lambda>r.
     bindM (guardM (nr_status r = requiredStatus) (ReservationErr ErrCompareAndSetFailed ''unexpected status'')) (\<lambda>_.
     bindM (readM (\<lambda>_. requireLeaseToken r leaseToken now)) (\<lambda>_.
     bindM (guardM (After leaseUntil now) (ReservationErr ErrLeaseUnavailable [])) (\<lambda>_.
     bindM (writeM (storeReservationLocked (beat leaseUntil now r))) (\<lambda>_. retM (beat leaseUntil now r))))))"

definition ClearReservationLease :: "string \<Rightarrow> string \<Rightarrow> time \<Rightarrow> ('m mem_store_scheme, note_reservation) action" where
  "ClearReservationLease i leaseToken now =
     bindM (readM (findReservation i)) (\<lambda>r.
     bindM (readM (\<lambda>_. requireLeaseToken r leaseToken now)) (\<lambda>_.
     let u = r\<lparr>nr_lease_owner := [], nr_lease_token := [], nr_lease_until := zeroTime, nr_updated := now\<rparr>
     in bindM (writeM (storeReservationLocked u)) (\<lambda>_. retM u)))"

section \<open>Changes of status\<close>

definition casCandidate :: "note_reservation \<Rightarrow> string \<Rightarrow> reservation_status \<Rightarrow> reservation_status \<Rightarrow> time \<Rightarrow> 'm mem_store_scheme \<Rightarrow> note_reservation res" where
  "casCandidate r i from to now s =
     bindE (guardE (nr_status r = from) (ReservationErr ErrCompareAndSetFailed [])) (\<lambda>_.
     bindE (guardE (CanTransitionReservation from to) (ReservationErr ErrInvalidTransition [])) (\<lambda>_.
     let candidate = r\<lparr>nr_status := to\<rparr> in
     bindE (guardE (\<not> (IsActiveReservationStatus to \<and> activeReservationConflictLocked candidate i s)) (ReservationErr ErrActiveReservationExists [])) (\<lambda>_.
     Inr ((clearLeaseForStatusTransition to candidate)\<lparr>nr_updated := now\<rparr>))))"

definition compareAndSetReservationStatusLocked ::
  "string \<Rightarrow> reservation_status \<Rightarrow> reservation_status \<Rightarrow> time \<Rightarrow> ('m mem_store_scheme, note_reservation) action" where
  "compareAndSetReservationStatusLocked i from to now =
     bindM (readM (findReservation i)) (\<lambda>r.
     bindM (readM (casCandidate r i from to now)) (\<lambda>candidate.
     bindM (writeM (storeReservationLocked candidate)) (\<lambda>_. retM candidate)))"

definition CompareAndSetReservationStatus ::
  "string \<Rightarrow> reservation_status \<Rightarrow> reservation_status \<Rightarrow> time \<Rightarrow> ('m mem_store_scheme, note_reservation) action" where
  "CompareAndSetReservationStatus i from to now =
     bindM (guardM (\<not> RequiresLeaseToken from to) (ReservationErr ErrLeaseMismatch ''requires lease token'')) (\<lambda>_.
     compareAndSetReservationStatusLocked i from to now)"

definition CompareAndSetReservationStatusWithLease ::
  "string \<Rightarrow> string \<Rightarrow> reservation_status \<Rightarrow> reservation_status \<Rightarrow> time \<Rightarrow> ('m mem_store_scheme, note_reservation) action" where
  "CompareAndSetReservationStatusWithLease i leaseToken from to now =
     bindM (readM (findReservation i)) (\<lambda>r.
     bindM (readM (\<lambda>_. requireLeaseToken r leaseToken now)) (\<lambda>_.
     compareAndSetReservationStatusLocked i from to now))"

definition linkedUpdate :: "note_reservation \<Rightarrow> string \<Rightarrow> payroll_operation option \<Rightarrow> 'm mem_store_scheme \<Rightarrow> payroll_operation option res" where
  "linkedUpdate r i operation s =
     (case operation of
        None \<Rightarrow> Inr None
      | Some p \<Rightarrow>
          bindE (guardE (po_id p \<noteq> []) (ReservationErr ErrInvalidReservation ''operation_id is required'')) (\<lambda>_.
          case operation_of s (po_id p) of
            None \<Rightarrow> Inl (ReservationErr ErrOperationNotFound [])
          | Some existing \<Rightarrow>
              bindE (guardE (\<not> (nr_operation r \<noteq> [] \<and> nr_operation r \<noteq> po_id p)) (ReservationErr ErrInvalidReservation ''reservation belongs to another operation'')) (\<lambda>_.
              Inr (Some (p\<lparr>po_reservation := (if po_reservation existing = [] then i else po_reservation existing)\<rparr>)))))"

definition storeOptional :: "payroll_operation option \<Rightarrow> 'm mem_store_scheme \<Rightarrow> 'm mem_store_scheme" where
  "storeOptional u = (case u of None \<Rightarrow> (\<lambda>s. s) | Some p \<Rightarrow> storeOperation p)"

definition CompareAndSetReservationStatusWithOperation ::
  "string \<Rightarrow> reservation_status \<Rightarrow> reservation_status \<Rightarrow> payroll_operation option \<Rightarrow> time \<Rightarrow>
     ('m mem_store_scheme, note_reservation \<times> payroll_operation option) action" where
  "CompareAndSetReservationStatusWithOperation i from to operation now =
     bindM (guardM (\<not> RequiresLeaseToken from to) (ReservationErr ErrLeaseMismatch ''requires lease token'')) (\<lambda>_.
     bindM (readM (findReservation i)) (\<lambda>r.
     bindM (readM (casCandidate r i from to now)) (\<lambda>candidate.
     bindM (readM (linkedUpdate r i operation)) (\<lambda>operationUpdate.
     bindM (writeM (storeReservationLocked candidate)) (\<lambda>_.
     bindM (writeM (storeOptional operationUpdate)) (\<lambda>_. retM (candidate, operationUpdate)))))))"

section \<open>Changes of several reservations\<close>

fun leasedReservations :: "submitted_ref list \<Rightarrow> string list \<Rightarrow> reservation_status \<Rightarrow> time \<Rightarrow> 'm mem_store_scheme \<Rightarrow> note_reservation list res" where
  "leasedReservations [] seen status now s = Inr []"
| "leasedReservations (ref # refs) seen status now s =
     bindE (guardE (sr_id ref \<noteq> []) (ReservationErr ErrInvalidReservation ''reservation_id is required'')) (\<lambda>_.
     bindE (guardE (sr_id ref \<notin> set seen) (ReservationErr ErrInvalidReservation ''duplicate reservation_id'')) (\<lambda>_.
     bindE (findReservation (sr_id ref) s) (\<lambda>r.
     bindE (guardE (nr_status r = status) (ReservationErr ErrCompareAndSetFailed ''unexpected status'')) (\<lambda>_.
     bindE (requireLeaseToken r (sr_token ref) now) (\<lambda>_.
     bindE (leasedReservations refs (sr_id ref # seen) status now s) (\<lambda>rs. Inr (r # rs)))))))"

definition validateLeasedReservationsForStatusLocked ::
  "submitted_ref list \<Rightarrow> reservation_status \<Rightarrow> time \<Rightarrow> 'm mem_store_scheme \<Rightarrow> note_reservation list res" where
  "validateLeasedReservationsForStatusLocked refs status now s = leasedReservations refs [] status now s"

definition hasOperationID :: "string list \<Rightarrow> bool" where
  "hasOperationID operationIDs = list_ex (\<lambda>i. i \<noteq> []) operationIDs"

definition operationIDsForReservationUpdate :: "note_reservation list \<Rightarrow> string list \<Rightarrow> string list" where
  "operationIDsForReservationUpdate reservations operationIDs =
     (if hasOperationID operationIDs then operationIDs else filter (\<lambda>i. i \<noteq> []) (map nr_operation reservations))"

fun loadLinkedOperations :: "string list \<Rightarrow> string list \<Rightarrow> 'm mem_store_scheme \<Rightarrow> payroll_operation list res" where
  "loadLinkedOperations [] seen s = Inr []"
| "loadLinkedOperations (i # ids) seen s =
     (if i = [] \<or> i \<in> set seen then loadLinkedOperations ids seen s
      else
        case operation_of s i of
          None \<Rightarrow> Inl (ReservationErr ErrOperationNotFound [])
        | Some p \<Rightarrow> bindE (loadLinkedOperations ids (i # seen) s) (\<lambda>ps. Inr (p # ps)))"

text \<open>The operations, each once, and the set of their identifiers.\<close>

definition loadLinkedOperationsLocked :: "string list \<Rightarrow> 'm mem_store_scheme \<Rightarrow> (payroll_operation list \<times> string set) res" where
  "loadLinkedOperationsLocked operationIDs s =
     bindE (loadLinkedOperations operationIDs [] s) (\<lambda>ps. Inr (ps, set (filter (\<lambda>i. i \<noteq> []) operationIDs)))"

definition validateReservationOperationLinksLocked :: "note_reservation list \<Rightarrow> string set \<Rightarrow> 'm mem_store_scheme \<Rightarrow> unit res" where
  "validateReservationOperationLinksLocked reservations operationIDs s =
     (if operationIDs = {} then Inr ()
      else
        let linked = set (map (\<lambda>r. (nr_operation r, nr_id r)) reservations) in
        bindE (traverseE (\<lambda>r.
          bindE (guardE (nr_operation r \<noteq> []) (ReservationErr ErrInvalidReservation ''reservation has no operation_id'')) (\<lambda>_.
          guardE (nr_operation r \<in> operationIDs) (ReservationErr ErrInvalidReservation ''reservation belongs to another operation''))) reservations) (\<lambda>_.
        bindE (guardE (operationIDs \<subseteq> fst ` linked) (ReservationErr ErrInvalidReservation ''operation has no linked reservation'')) (\<lambda>_.
        guardE (list_all (\<lambda>(_, r). nr_operation r = [] \<or> \<not> IsActiveReservationStatus (nr_status r) \<or> nr_operation r \<notin> operationIDs \<or>
            (nr_operation r, nr_id r) \<in> linked) (ms_reservations s))
          (ReservationErr ErrInvalidReservation ''operation is missing a reservation''))))"

definition mergeExpectedProofReadyValue :: "string \<Rightarrow> string \<Rightarrow> string res" where
  "mergeExpectedProofReadyValue existing incoming =
     (if incoming = [] then Inr existing
      else if existing = [] then Inr incoming
      else bindE (guardE (existing = incoming) (ReservationErr ErrInvalidReservation ''expected value mismatch'')) (\<lambda>_. Inr existing))"

definition proofReadyOperation :: "note_reservation list \<Rightarrow> proof_ready_update \<Rightarrow> time \<Rightarrow> 'm mem_store_scheme \<Rightarrow> payroll_operation option res" where
  "proofReadyOperation reservations u now s =
     (if pr_operation u = [] then
        bindE (guardE (list_all (\<lambda>r. nr_operation r = []) reservations) (ReservationErr ErrInvalidReservation ''operation_id is required for linked reservation'')) (\<lambda>_.
        Inr None)
      else
        case operation_of s (pr_operation u) of
          None \<Rightarrow> Inl (ReservationErr ErrOperationNotFound [])
        | Some existing \<Rightarrow>
            bindE (validateReservationOperationLinksLocked reservations {pr_operation u} s) (\<lambda>_.
            bindE (mergeExpectedProofReadyValue (po_commitment existing) (pr_commitment u)) (\<lambda>commitment.
            bindE (mergeExpectedProofReadyValue (po_digest existing) (pr_digest u)) (\<lambda>digest.
            bindE (mergeExpectedProofReadyValue (po_user_digest existing) (pr_user_digest u)) (\<lambda>userDigest.
            bindE (mergeExpectedProofReadyValue (po_audit_digest existing) (pr_audit_digest u)) (\<lambda>auditDigest.
            bindE (mergeExpectedProofReadyValue (po_self_digest existing) (pr_self_digest u)) (\<lambda>selfDigest.
            Inr (Some (existing\<lparr>po_commitment := commitment, po_digest := digest, po_user_digest := userDigest, po_audit_digest := auditDigest,
              po_self_digest := selfDigest, po_status := OperationStatusProofReady, po_updated := now\<rparr>)))))))))"

definition MarkReservationsProofReady ::
  "submitted_ref list \<Rightarrow> proof_ready_update \<Rightarrow> time \<Rightarrow> ('m mem_store_scheme, note_reservation list \<times> payroll_operation option) action" where
  "MarkReservationsProofReady refs u now =
     bindM (guardM (\<not> (refs = [] \<and> pr_operation u \<noteq> [])) (ReservationErr ErrInvalidReservation ''reservation refs are required'')) (\<lambda>_.
     bindM (readM (validateLeasedReservationsForStatusLocked refs StatusProving now)) (\<lambda>reservations.
     bindM (readM (proofReadyOperation reservations u now)) (\<lambda>operation.
     let updated = map (\<lambda>r. r\<lparr>nr_status := StatusProofReady, nr_updated := now\<rparr>) reservations in
     bindM (writeM (fold storeReservationLocked updated)) (\<lambda>_.
     bindM (writeM (storeOptional operation)) (\<lambda>_. retM (updated, operation))))))"

definition hasTxIdentity :: "'u submitted_update_scheme \<Rightarrow> bool" where
  "hasTxIdentity u = (TrimSpace (su_tx_hash u) \<noteq> [] \<or> TrimSpace (su_tx_bytes_hash u) \<noteq> [] \<or> TrimSpace (su_sign_doc_hash u) \<noteq> [])"

text \<open>What the two broadcasts of \<^verbatim>\<open>MarkReservationsSubmitted\<close> and \<^verbatim>\<open>MarkReservationsBroadcastUnknown\<close> write: the identity of the transaction and a fresh attempt.\<close>

definition broadcastReservation :: "reservation_status \<Rightarrow> 'u submitted_update_scheme \<Rightarrow> time \<Rightarrow> note_reservation \<Rightarrow> note_reservation" where
  "broadcastReservation status u now r =
     (clearReservationLeaseFields (r\<lparr>nr_status := status, nr_tx_hash := su_tx_hash u, nr_tx_bytes_hash := su_tx_bytes_hash u, nr_sign_doc_hash := su_sign_doc_hash u,
        nr_sequence := su_sequence u, nr_attempts := nr_attempts r + 1, nr_last_broadcast := now\<rparr>))\<lparr>nr_updated := now\<rparr>"

definition broadcastOperation :: "operation_status \<Rightarrow> 'u submitted_update_scheme \<Rightarrow> time \<Rightarrow> payroll_operation \<Rightarrow> payroll_operation" where
  "broadcastOperation status u now p =
     p\<lparr>po_status := status, po_tx_hash := su_tx_hash u, po_tx_bytes_hash := su_tx_bytes_hash u, po_sign_doc_hash := su_sign_doc_hash u, po_updated := now\<rparr>"

definition markBroadcast ::
  "submitted_ref list \<Rightarrow> string list \<Rightarrow> 'u submitted_update_scheme \<Rightarrow> time \<Rightarrow> (note_reservation \<Rightarrow> note_reservation) \<Rightarrow> (payroll_operation \<Rightarrow> payroll_operation) \<Rightarrow>
     ('m mem_store_scheme, note_reservation list \<times> payroll_operation list) action" where
  "markBroadcast refs operationIDs u now fr fp =
     (if refs = [] then
        bindM (guardM (\<not> hasOperationID operationIDs) (ReservationErr ErrInvalidReservation ''reservation refs are required'')) (\<lambda>_. retM ([], []))
      else
        bindM (guardM (hasTxIdentity u) (ReservationErr ErrInvalidReservation ''update requires tx_hash, tx_bytes_hash, or sign_doc_hash'')) (\<lambda>_.
        bindM (readM (validateLeasedReservationsForStatusLocked refs StatusProofReady now)) (\<lambda>reservations.
        bindM (readM (loadLinkedOperationsLocked (operationIDsForReservationUpdate reservations operationIDs))) (\<lambda>(operations, ids).
        bindM (readM (validateReservationOperationLinksLocked reservations ids)) (\<lambda>_.
        bindM (writeM (fold storeReservationLocked (map fr reservations))) (\<lambda>_.
        bindM (writeM (fold storeOperation (map fp operations))) (\<lambda>_. retM (map fr reservations, map fp operations))))))))"

definition MarkReservationsSubmitted ::
  "submitted_ref list \<Rightarrow> string list \<Rightarrow> submitted_update \<Rightarrow> time \<Rightarrow> ('m mem_store_scheme, note_reservation list \<times> payroll_operation list) action" where
  "MarkReservationsSubmitted refs operationIDs u now =
     markBroadcast refs operationIDs u now (broadcastReservation StatusSubmitted u now) (broadcastOperation OperationStatusSubmitted u now)"

definition MarkReservationSubmitted :: "string \<Rightarrow> string \<Rightarrow> submitted_update \<Rightarrow> time \<Rightarrow> ('m mem_store_scheme, note_reservation) action" where
  "MarkReservationSubmitted i leaseToken u now =
     bindM (MarkReservationsSubmitted [\<lparr>sr_id = i, sr_token = leaseToken\<rparr>] [] u now) (\<lambda>(updated, _). retM (updated ! 0))"

definition MarkReservationsBroadcastUnknown ::
  "submitted_ref list \<Rightarrow> string list \<Rightarrow> broadcast_update \<Rightarrow> time \<Rightarrow> ('m mem_store_scheme, note_reservation list \<times> payroll_operation list) action" where
  "MarkReservationsBroadcastUnknown refs operationIDs u now =
     markBroadcast refs operationIDs u now (\<lambda>r. (broadcastReservation StatusUnknown u now r)\<lparr>nr_last_error := bu_last_error u\<rparr>)
       (broadcastOperation OperationStatusUnknown u now)"

section \<open>Plain updates\<close>

definition UpdateReservation :: "note_reservation \<Rightarrow> ('m mem_store_scheme, note_reservation) action" where
  "UpdateReservation r =
     bindM (readM (findReservation (nr_id r))) (\<lambda>_.
     bindM (readM (\<lambda>s. guardE (\<not> (IsActiveReservationStatus (nr_status r) \<and> activeReservationConflictLocked r (nr_id r) s)) (ReservationErr ErrActiveReservationExists []))) (\<lambda>_.
     bindM (writeM (storeReservationLocked r)) (\<lambda>_. retM r)))"

definition findOperation :: "string \<Rightarrow> 'm mem_store_scheme \<Rightarrow> payroll_operation res" where
  "findOperation i s = (case operation_of s i of None \<Rightarrow> Inl (ReservationErr ErrOperationNotFound []) | Some p \<Rightarrow> Inr p)"

definition CreateOperation :: "payroll_operation \<Rightarrow> ('m mem_store_scheme, payroll_operation) action" where
  "CreateOperation p =
     bindM (readM (validateOperationCreateLocked p [])) (\<lambda>_.
     bindM (writeM (storeOperation p)) (\<lambda>_. retM p))"

definition GetOperation :: "string \<Rightarrow> ('m mem_store_scheme, payroll_operation) action" where
  "GetOperation i = readM (findOperation i)"

definition UpdateOperation :: "payroll_operation \<Rightarrow> ('m mem_store_scheme, payroll_operation) action" where
  "UpdateOperation p =
     bindM (readM (findOperation (po_id p))) (\<lambda>_.
     bindM (writeM (storeOperation p)) (\<lambda>_. retM p))"

end
