(* ===== verification/Reservation_Runs.thy ===== *)
theory Reservation_Runs
  imports Reservation_Store
begin

text \<open>
  Runs of the reservation store. Every method of the \<open>Store\<close> interface that writes is a command (\<open>CreateReservation\<close> and \<open>MarkReservationSubmitted\<close> call \<open>CreateReservationBatch\<close> and
  \<open>MarkReservationsSubmitted\<close> with one element and are covered by these), a run is a list of commands with the times at which they execute, in the order in which
  their callers obtain the mutex. The invariant of the store ties the index of active keys to the reservations, and one lemma
  says what a successful command writes; the properties of runs follow from it.
\<close>

section \<open>Commands\<close>

text \<open>An empty status in \<open>Acquire\<close> stands for \<open>AcquireReservationLease\<close>, which requires none.\<close>

datatype store_cmd =
    Create "note_reservation list" "payroll_operation list"
  | Cas string reservation_status reservation_status
  | CasOperation string reservation_status reservation_status "payroll_operation option"
  | CasLease string string reservation_status reservation_status
  | Acquire string string string reservation_status time
  | Heartbeat string string time
  | HeartbeatFor string string reservation_status time
  | ClearLease string string
  | MarkProofReady "submitted_ref list" proof_ready_update
  | MarkSubmitted "submitted_ref list" "string list" submitted_update
  | MarkUnknown "submitted_ref list" "string list" broadcast_update
  | Update note_reservation
  | NewOperation payroll_operation
  | SetOperation payroll_operation

definition dropM :: "('s, 'a) action \<Rightarrow> ('s, unit) action" where
  "dropM m = bindM m (\<lambda>_. retM ())"

fun run_cmd :: "time \<Rightarrow> store_cmd \<Rightarrow> ('m mem_store_scheme, unit) action" where
  "run_cmd now (Create rs ps) = dropM (CreateReservationBatch rs ps)"
| "run_cmd now (Cas i f t) = dropM (CompareAndSetReservationStatus i f t now)"
| "run_cmd now (CasOperation i f t p) = dropM (CompareAndSetReservationStatusWithOperation i f t p now)"
| "run_cmd now (CasLease i token f t) = dropM (CompareAndSetReservationStatusWithLease i token f t now)"
| "run_cmd now (Acquire i owner token status until) =
     dropM (if status = [] then AcquireReservationLease i owner token until now else AcquireReservationLeaseForStatus i owner token status until now)"
| "run_cmd now (Heartbeat i token until) = dropM (HeartbeatReservationLease i token until now)"
| "run_cmd now (HeartbeatFor i token status until) = dropM (HeartbeatReservationLeaseForStatus i token status until now)"
| "run_cmd now (ClearLease i token) = dropM (ClearReservationLease i token now)"
| "run_cmd now (MarkProofReady refs u) = dropM (MarkReservationsProofReady refs u now)"
| "run_cmd now (MarkSubmitted refs ids u) = dropM (MarkReservationsSubmitted refs ids u now)"
| "run_cmd now (MarkUnknown refs ids u) = dropM (MarkReservationsBroadcastUnknown refs ids u now)"
| "run_cmd now (Update r) = dropM (UpdateReservation r)"
| "run_cmd now (NewOperation p) = dropM (CreateOperation p)"
| "run_cmd now (SetOperation p) = dropM (UpdateOperation p)"

definition run_cmds :: "(time \<times> store_cmd) list \<Rightarrow> 'm mem_store_scheme \<Rightarrow> 'm mem_store_scheme" where
  "run_cmds cs s = fold (\<lambda>(now, c) s. snd (run_cmd now c s)) cs s"

text \<open>The commands that present a lease token for a reservation, and those that may change it without one: the two compare-and-set methods without a lease, and
  \<open>UpdateReservation\<close>, which replaces the whole reservation.\<close>

fun presents :: "store_cmd \<Rightarrow> string \<Rightarrow> string \<Rightarrow> bool" where
  "presents (CasLease j t _ _) i token = (j = i \<and> t = token)"
| "presents (Heartbeat j t _) i token = (j = i \<and> t = token)"
| "presents (HeartbeatFor j t _ _) i token = (j = i \<and> t = token)"
| "presents (ClearLease j t) i token = (j = i \<and> t = token)"
| "presents (MarkProofReady refs _) i token = (\<lparr>sr_id = i, sr_token = token\<rparr> \<in> set refs)"
| "presents (MarkSubmitted refs _ _) i token = (\<lparr>sr_id = i, sr_token = token\<rparr> \<in> set refs)"
| "presents (MarkUnknown refs _ _) i token = (\<lparr>sr_id = i, sr_token = token\<rparr> \<in> set refs)"
| "presents _ i token = False"

fun plain_change :: "store_cmd \<Rightarrow> string \<Rightarrow> bool" where
  "plain_change (Cas j _ _) i = (j = i)"
| "plain_change (CasOperation j _ _ _) i = (j = i)"
| "plain_change (Update u) i = (nr_id u = i)"
| "plain_change _ i = False"

fun overwrites :: "store_cmd \<Rightarrow> string set" where
  "overwrites (Update u) = {nr_id u}"
| "overwrites _ = {}"

section \<open>Invariant\<close>

definition mem_inv :: "'m mem_store_scheme \<Rightarrow> bool" where
  "mem_inv s =
     (distinct (map fst (ms_reservations s)) \<and> (\<forall>i r. reservation_of s i = Some r \<longrightarrow> nr_id r = i) \<and>
      (\<forall>k i. map_of (ms_active s) k = Some i \<longleftrightarrow> (\<exists>r. reservation_of s i = Some r \<and> IsActiveReservationStatus (nr_status r) \<and> ActiveKey r = k)) \<and>
      (\<forall>i p. operation_of s i = Some p \<longrightarrow> po_id p = i))"

lemma new_inv: "mem_inv NewMemoryStore"
  by (simp add: mem_inv_def NewMemoryStore_def)

lemma inv_id: "mem_inv s \<Longrightarrow> reservation_of s i = Some r \<Longrightarrow> nr_id r = i"
  by (simp add: mem_inv_def)

lemma inv_active: "mem_inv s \<Longrightarrow> map_of (ms_active s) k = Some i \<longleftrightarrow> (\<exists>r. reservation_of s i = Some r \<and> IsActiveReservationStatus (nr_status r) \<and> ActiveKey r = k)"
  by (simp add: mem_inv_def)

lemma inv_unique:
  assumes "mem_inv s" "reservation_of s i = Some r" "reservation_of s j = Some q" "IsActiveReservationStatus (nr_status r)" "IsActiveReservationStatus (nr_status q)" "ActiveKey r = ActiveKey q"
  shows "i = j"
  using inv_active [OF assms(1), of "ActiveKey r"] assms(2-6) by (metis option.inject)

section \<open>Writes\<close>

lemma store_lookup [simp]:
  "reservation_of (storeReservationLocked r s) = (reservation_of s)(nr_id r \<mapsto> r)" "operation_of (storeReservationLocked r s) = operation_of s"
  by (simp_all add: storeReservationLocked_def Let_def update_conv')

lemma store_active:
  "map_of (ms_active (storeReservationLocked r s)) k =
     (if IsActiveReservationStatus (nr_status r) \<and> k = ActiveKey r then Some (nr_id r)
      else if (\<exists>q. reservation_of s (nr_id r) = Some q \<and> IsActiveReservationStatus (nr_status q) \<and> k = ActiveKey q) then None else map_of (ms_active s) k)"
  by (auto simp: storeReservationLocked_def Let_def update_conv' delete_conv' split: option.splits)

lemma operation_lookup [simp]:
  "reservation_of (storeOperation p s) = reservation_of s" "ms_active (storeOperation p s) = ms_active s" "ms_reservations (storeOperation p s) = ms_reservations s"
  "operation_of (storeOperation p s) = (operation_of s)(po_id p \<mapsto> p)"
  by (simp_all add: storeOperation_def update_conv')

lemma operations_lookup [simp]:
  "reservation_of (fold storeOperation ps s) = reservation_of s" "ms_active (fold storeOperation ps s) = ms_active s"
  by (induction ps arbitrary: s) simp_all

lemma operation_inv: "mem_inv s \<Longrightarrow> mem_inv (storeOperation p s)"
  by (simp add: mem_inv_def)

lemma operations_inv: "mem_inv s \<Longrightarrow> mem_inv (fold storeOperation ps s)"
  by (induction ps arbitrary: s) (simp_all add: operation_inv)

definition key_free :: "'m mem_store_scheme \<Rightarrow> note_reservation \<Rightarrow> bool" where
  "key_free s r = (IsActiveReservationStatus (nr_status r) \<longrightarrow> (\<forall>i. map_of (ms_active s) (ActiveKey r) = Some i \<longrightarrow> i = nr_id r))"

lemma store_inv:
  assumes "mem_inv s" "key_free s r"
  shows "mem_inv (storeReservationLocked r s)"
proof -
  have distinct: "distinct (map fst (ms_reservations (storeReservationLocked r s)))"
    using assms(1) by (simp add: mem_inv_def storeReservationLocked_def Let_def distinct_update)
  have "map_of (ms_active (storeReservationLocked r s)) k = Some i \<longleftrightarrow>
      (\<exists>q. reservation_of (storeReservationLocked r s) i = Some q \<and> IsActiveReservationStatus (nr_status q) \<and> ActiveKey q = k)" for k i
  proof (cases "i = nr_id r")
    case True
    have "map_of (ms_active s) k = Some (nr_id r) \<Longrightarrow> \<exists>q. reservation_of s (nr_id r) = Some q \<and> IsActiveReservationStatus (nr_status q) \<and> k = ActiveKey q"
      using inv_active [OF assms(1)] by auto
    then show ?thesis using True by (auto simp: store_active)
  next
    case False
    have taken: "\<not> (IsActiveReservationStatus (nr_status r) \<and> k = ActiveKey r)" if "map_of (ms_active s) k = Some i"
      using assms(2) that False by (auto simp: key_free_def)
    have other: "\<not> (\<exists>q. reservation_of s (nr_id r) = Some q \<and> IsActiveReservationStatus (nr_status q) \<and> k = ActiveKey q)" if "map_of (ms_active s) k = Some i"
      using inv_active [OF assms(1)] that False by (metis option.inject)
    show ?thesis using False taken other inv_active [OF assms(1), of k i] by (auto simp: store_active)
  qed
  then show ?thesis using assms(1) distinct by (auto simp: mem_inv_def)
qed

lemma stores_lookup:
  "distinct (map nr_id us) \<Longrightarrow> reservation_of (fold storeReservationLocked us s) = reservation_of s ++ map_of (map (\<lambda>u. (nr_id u, u)) us)"
proof (induction us arbitrary: s)
  case (Cons u us)
  then have "map_of (map (\<lambda>u. (nr_id u, u)) us) (nr_id u) = None" by (auto simp: map_of_eq_None_iff)
  then show ?case using Cons by (auto simp: fun_eq_iff map_add_def split: option.splits)
qed simp

lemma stores_lookup_operations [simp]: "operation_of (fold storeReservationLocked us s) = operation_of s"
  by (induction us arbitrary: s) simp_all

lemma stores_inv:
  assumes "mem_inv s" "\<forall>u \<in> set us. key_free s u" "distinct (map ActiveKey (filter (\<lambda>u. IsActiveReservationStatus (nr_status u)) us))"
  shows "mem_inv (fold storeReservationLocked us s)"
  using assms
proof (induction us arbitrary: s)
  case (Cons u us)
  have "key_free (storeReservationLocked u s) v" if v: "v \<in> set us" for v
    unfolding key_free_def
  proof (intro impI allI)
    fix i assume act: "IsActiveReservationStatus (nr_status v)" and at: "map_of (ms_active (storeReservationLocked u s)) (ActiveKey v) = Some i"
    have "\<not> (IsActiveReservationStatus (nr_status u) \<and> ActiveKey v = ActiveKey u)" using Cons.prems(3) v act by (auto split: if_splits) (metis (mono_tags, lifting) image_eqI mem_Collect_eq)
    then have "map_of (ms_active s) (ActiveKey v) = Some i" using at by (auto simp: store_active split: if_splits)
    then show "i = nr_id v" using Cons.prems(2) v act by (simp add: key_free_def)
  qed
  then show ?case using Cons store_inv [of s u] by (auto split: if_splits)
qed simp


section \<open>What a command writes\<close>

definition lease_free :: "time \<Rightarrow> note_reservation \<Rightarrow> bool" where
  "lease_free now r = (\<not> (nr_lease_token r \<noteq> [] \<and> nr_lease_until r > now))"

text \<open>A reservation that a command other than \<open>Update\<close> replaces keeps its identity, its key and its operation, and its status follows the table of transitions; the command presented the
  current token, or the lease has run out, or it is one of the changes that need no token.\<close>

definition change_ok :: "time \<Rightarrow> store_cmd \<Rightarrow> 'm mem_store_scheme \<Rightarrow> note_reservation \<Rightarrow> bool" where
  "change_ok now c s u =
     (\<exists>r. reservation_of s (nr_id u) = Some r \<and> ActiveKey u = ActiveKey r \<and> nr_operation u = nr_operation r \<and>
        (nr_status u = nr_status r \<or> CanTransitionReservation (nr_status r) (nr_status u)) \<and>
        (plain_change c (nr_id u) \<or> lease_free now r \<or> presents c (nr_id u) (nr_lease_token r)))"

definition fresh_ok :: "'m mem_store_scheme \<Rightarrow> note_reservation \<Rightarrow> bool" where
  "fresh_ok s u = (reservation_of s (nr_id u) = None)"

definition writes :: "time \<Rightarrow> store_cmd \<Rightarrow> 'm mem_store_scheme \<Rightarrow> 'm mem_store_scheme \<Rightarrow> bool" where
  "writes now c s t =
     (\<exists>us ps. t = fold storeOperation ps (fold storeReservationLocked us s) \<and> distinct (map nr_id us) \<and> (\<forall>u \<in> set us. key_free s u) \<and>
        distinct (map ActiveKey (filter (\<lambda>u. IsActiveReservationStatus (nr_status u)) us)) \<and>
        (\<forall>u \<in> set us. fresh_ok s u \<or> change_ok now c s u \<or> c = Update u))"

lemma writesI:
  assumes "t = fold storeOperation ps (fold storeReservationLocked us s)" "distinct (map nr_id us)" "\<And>u. u \<in> set us \<Longrightarrow> key_free s u"
    "distinct (map ActiveKey (filter (\<lambda>u. IsActiveReservationStatus (nr_status u)) us))" "\<And>u. u \<in> set us \<Longrightarrow> fresh_ok s u \<or> change_ok now c s u \<or> c = Update u"
  shows "writes now c s t"
  using assms unfolding writes_def by blast

text \<open>One reservation is replaced.\<close>

lemma writes_one:
  assumes "t = fold storeOperation ps (storeReservationLocked u s)" "key_free s u" "change_ok now c s u"
  shows "writes now c s t"
  using assms by (intro writesI [of t ps "[u]"]) auto

lemma writes_operations: "writes now c s (fold storeOperation ps s)"
  by (rule writesI [of _ ps "[]"]) simp_all

lemma dropM_ok: "dropM m s = (Inr (), t) \<longleftrightarrow> (\<exists>x. m s = (Inr x, t))"
  by (simp add: dropM_def)

lemma find_ok: "findReservation i s = Inr r \<longleftrightarrow> reservation_of s i = Some r"
  by (simp add: findReservation_def split: option.splits)

lemma lease_ok: "requireLeaseToken r token now = Inr () \<longleftrightarrow> token \<noteq> [] \<and> token = nr_lease_token r \<and> nr_lease_until r \<noteq> 0 \<and> nr_lease_until r > now"
  by (auto simp: requireLeaseToken_def guardE_def TimeIsZero_def After_def)

text \<open>A reservation whose status does not change keeps its claim on the key.\<close>

lemma key_free_same:
  assumes "mem_inv s" "reservation_of s (nr_id u) = Some r" "ActiveKey u = ActiveKey r" "IsActiveReservationStatus (nr_status r)"
  shows "key_free s u"
proof -
  have "map_of (ms_active s) (ActiveKey r) = Some (nr_id u)" using inv_active [OF assms(1)] assms(2,4) by blast
  then show ?thesis using assms(3) by (simp add: key_free_def)
qed

lemma key_free_inactive: "\<not> IsActiveReservationStatus (nr_status u) \<Longrightarrow> key_free s u"
  by (simp add: key_free_def)

lemma key_free_status:
  "mem_inv s \<Longrightarrow> reservation_of s (nr_id u) = Some r \<Longrightarrow> ActiveKey u = ActiveKey r \<Longrightarrow> nr_status u = nr_status r \<Longrightarrow> key_free s u"
  using key_free_same [of s u r] key_free_inactive [of u s] by auto

lemma conflict_free: "\<not> (IsActiveReservationStatus (nr_status u) \<and> activeReservationConflictLocked u (nr_id u) s) \<Longrightarrow> key_free s u"
  by (auto simp: key_free_def activeReservationConflictLocked_def)


lemma cas_ok:
  assumes "casCandidate r i f t now s = Inr u" "nr_id r = i"
  shows "nr_id u = i" "ActiveKey u = ActiveKey r" "nr_operation u = nr_operation r" "nr_status r = f" "nr_status u = t" "CanTransitionReservation f t" "key_free s u"
proof -
  have u: "u = (clearLeaseForStatusTransition t (r\<lparr>nr_status := t\<rparr>))\<lparr>nr_updated := now\<rparr>"
    and free: "\<not> (IsActiveReservationStatus t \<and> activeReservationConflictLocked (r\<lparr>nr_status := t\<rparr>) i s)"
    and st: "nr_status r = f" "CanTransitionReservation f t"
    using assms(1) by (auto simp: casCandidate_def Let_def)
  show "nr_id u = i" "ActiveKey u = ActiveKey r" "nr_operation u = nr_operation r" "nr_status u = t" "nr_status r = f" "CanTransitionReservation f t"
    using u st assms(2) by (simp_all add: clearLeaseForStatusTransition_def clearReservationLeaseFields_def ActiveKey_def)
  then show "key_free s u" using free assms(2) u
    by (intro conflict_free) (auto simp: activeReservationConflictLocked_def clearLeaseForStatusTransition_def clearReservationLeaseFields_def ActiveKey_def split: option.splits if_splits)
qed

lemma leased_ok:
  assumes "leasedReservations refs seen status now s = Inr rs" "mem_inv s"
  shows "distinct (map nr_id rs) \<and> set (map nr_id rs) \<inter> set seen = {} \<and>
    (\<forall>r \<in> set rs. reservation_of s (nr_id r) = Some r \<and> nr_status r = status \<and> \<lparr>sr_id = nr_id r, sr_token = nr_lease_token r\<rparr> \<in> set refs \<and>
       nr_lease_token r \<noteq> [] \<and> nr_lease_until r > now)"
  using assms
proof (induction refs seen status now s arbitrary: rs rule: leasedReservations.induct)
  case (2 ref refs seen status now s)
  obtain r rest where parts: "rs = r # rest" "sr_id ref \<notin> set seen" "reservation_of s (sr_id ref) = Some r" "nr_status r = status"
      "sr_token ref = nr_lease_token r" "nr_lease_token r \<noteq> []" "nr_lease_until r > now" and rest: "leasedReservations refs (sr_id ref # seen) status now s = Inr rest"
    and found: "findReservation (sr_id ref) s = Inr r" "requireLeaseToken r (sr_token ref) now = Inr ()" "guardE (sr_id ref \<noteq> []) (ReservationErr ErrInvalidReservation ''reservation_id is required'') = Inr ()"
    using 2(2) by (auto simp: find_ok lease_ok)
  have r: "nr_id r = sr_id ref" using inv_id [OF 2(3) parts(3)] .
  moreover have "ref = \<lparr>sr_id = nr_id r, sr_token = nr_lease_token r\<rparr>" using r parts(5) by simp
  ultimately show ?case using 2(1) [OF found(3) _ found(1) _ found(2) rest 2(3)] parts by (auto simp: guardE_def)
qed simp

text \<open>Several reservations of one active status move to another active status under their leases.\<close>

lemma writes_leased:
  assumes "leasedReservations refs [] status now s = Inr rs" "mem_inv s" "IsActiveReservationStatus status" "CanTransitionReservation status next_status"
    "\<And>r. nr_id (f r) = nr_id r \<and> ActiveKey (f r) = ActiveKey r \<and> nr_operation (f r) = nr_operation r \<and> nr_status (f r) = next_status"
    "\<And>i token. presents c i token = (\<lparr>sr_id = i, sr_token = token\<rparr> \<in> set refs)"
  shows "writes now c s (fold storeOperation ps (fold storeReservationLocked (map f rs) s))"
proof (rule writesI [OF refl])
  note leased = leased_ok [OF assms(1,2)]
  have ids: "nr_id \<circ> f = nr_id" "ActiveKey \<circ> f = ActiveKey" using assms(5) by (simp_all add: fun_eq_iff)
  show "distinct (map nr_id (map f rs))" using leased ids by simp
  show "key_free s u" if u: "u \<in> set (map f rs)" for u
  proof -
    obtain r where "u = f r" "r \<in> set rs" using u by auto
    then have "reservation_of s (nr_id u) = Some r" "ActiveKey u = ActiveKey r" "IsActiveReservationStatus (nr_status r)" using leased assms(3,5) by auto
    then show ?thesis by (rule key_free_same [OF assms(2)])
  qed
  have "inj_on ActiveKey (set rs)"
  proof (rule inj_onI)
    fix r q assume r: "r \<in> set rs" and q: "q \<in> set rs" and key: "ActiveKey r = ActiveKey q"
    have "reservation_of s (nr_id r) = Some r" "reservation_of s (nr_id q) = Some q" "nr_status r = status" "nr_status q = status" using leased r q by blast+
    then show "r = q" using inv_unique [OF assms(2) _ _ _ _ key] assms(3) by (metis option.inject)
  qed
  moreover have "distinct rs" using leased by (simp add: distinct_map)
  ultimately have "distinct (map ActiveKey rs)" by (simp add: distinct_map)
  then have "distinct (map ActiveKey (map f rs))" using ids by simp
  then show "distinct (map ActiveKey (filter (\<lambda>u. IsActiveReservationStatus (nr_status u)) (map f rs)))" by (rule distinct_map_filter)
  show "fresh_ok s u \<or> change_ok now c s u \<or> c = Update u" if u: "u \<in> set (map f rs)" for u
  proof -
    obtain r where r: "u = f r" "r \<in> set rs" using u by auto
    then have "reservation_of s (nr_id u) = Some r" "nr_status r = status" "presents c (nr_id u) (nr_lease_token r)" using leased assms(5,6) by auto
    then show ?thesis using r assms(4,5) unfolding change_ok_def by auto
  qed
qed

lemma create_ok:
  assumes "validateReservations rs pending keys s = Inr ()"
  shows "distinct (map nr_id rs) \<and> set (map nr_id rs) \<inter> set pending = {} \<and> (\<forall>r \<in> set rs. fresh_ok s r \<and> key_free s r) \<and>
    distinct (map ActiveKey (filter (\<lambda>u. IsActiveReservationStatus (nr_status u)) rs)) \<and>
    ActiveKey ` {r \<in> set rs. IsActiveReservationStatus (nr_status r)} \<inter> set keys = {}"
  using assms
proof (induction rs pending keys s rule: validateReservations.induct)
  case (2 r rs pending keys s)
  obtain p k where step: "validateReservationCreateLocked r pending keys s = Inr (p, k)" and rest: "validateReservations rs p k s = Inr ()" using 2(2) by auto
  have own: "reservation_of s (nr_id r) = None" "nr_id r \<notin> set pending" "p = nr_id r # pending"
    "if IsActiveReservationStatus (nr_status r) then map_of (ms_active s) (ActiveKey r) = None \<and> ActiveKey r \<notin> set keys \<and> k = ActiveKey r # keys else k = keys"
    using step by (auto simp: validateReservationCreateLocked_def split: if_splits)
  then have "fresh_ok s r" "key_free s r" by (auto simp: fresh_ok_def key_free_def split: if_splits)
  with 2(1) [OF step refl rest] own show ?case by (auto split: if_splits)
qed simp

lemmas single_op_defs = compareAndSetReservationStatusLocked_def CompareAndSetReservationStatus_def CompareAndSetReservationStatusWithLease_def
  CompareAndSetReservationStatusWithOperation_def acquireReservationLeaseLocked_def AcquireReservationLease_def AcquireReservationLeaseForStatus_def
  HeartbeatReservationLease_def HeartbeatReservationLeaseForStatus_def ClearReservationLease_def

lemmas store_op_defs = single_op_defs CreateReservationBatch_def MarkReservationsProofReady_def MarkReservationsSubmitted_def MarkReservationsBroadcastUnknown_def
  markBroadcast_def UpdateReservation_def CreateOperation_def UpdateOperation_def

lemma cmd_atomic: "run_cmd now c s = (Inl e, t) \<Longrightarrow> t = s"
  by (cases c) (auto simp: store_op_defs dropM_def bindM_fail Let_def split: if_splits)

lemma operation_writes: "writes now c s (storeOperation p s)" "writes now c s s"
  using writes_operations [of now c s "[p]"] writes_operations [of now c s "[]"] by simp_all

lemma optional_writes:
  "storeOptional p (fold storeReservationLocked us s) = fold storeOperation (case p of None \<Rightarrow> [] | Some q \<Rightarrow> [q]) (fold storeReservationLocked us s)"
  by (simp add: storeOptional_def split: option.splits)

lemma cas_writes:
  assumes "mem_inv s" "reservation_of s i = Some r" "casCandidate r i f g now s = Inr u"
    "plain_change c i \<or> lease_free now r \<or> presents c i (nr_lease_token r)"
  shows "writes now c s (fold storeOperation ps (storeReservationLocked u s))"
proof -
  note ok = cas_ok [OF assms(3) inv_id [OF assms(1,2)]]
  have "change_ok now c s u" unfolding change_ok_def using ok assms(2,4) by auto
  then show ?thesis using writes_one [OF refl ok(7)] by blast
qed

text \<open>A change of the lease keeps the status.\<close>

lemma lease_writes:
  assumes "mem_inv s" "reservation_of s i = Some r" "nr_id u = nr_id r" "ActiveKey u = ActiveKey r" "nr_operation u = nr_operation r" "nr_status u = nr_status r"
    "lease_free now r \<or> presents c i (nr_lease_token r)"
  shows "writes now c s (storeReservationLocked u s)"
proof -
  have "reservation_of s (nr_id u) = Some r" using assms(2,3) inv_id [OF assms(1,2)] by simp
  then have "change_ok now c s u" "key_free s u"
    unfolding change_ok_def using assms key_free_status [OF assms(1)] inv_id [OF assms(1,2)] by auto
  then show ?thesis using writes_one [of "storeReservationLocked u s" "[]" u s now c] by simp
qed

lemma create_writes:
  assumes "CreateReservationBatch rs ps s = (Inr x, t)"
  shows "writes now c s t"
proof (cases "rs = []")
  case True
  then show ?thesis using assms by (simp add: CreateReservationBatch_def operation_writes)
next
  case False
  then have v: "validateReservations rs [] [] s = Inr ()" and t: "t = fold storeOperation ps (fold storeReservationLocked rs s)"
    using assms by (auto simp: CreateReservationBatch_def)
  show ?thesis using create_ok [OF v] by (intro writesI [OF t]) auto
qed

lemma proof_ready_writes:
  assumes "MarkReservationsProofReady refs u now s = (Inr x, t)" "mem_inv s" "\<And>i token. presents c i token = (\<lparr>sr_id = i, sr_token = token\<rparr> \<in> set refs)"
  shows "writes now c s t"
proof -
  obtain rs q where parts: "leasedReservations refs [] StatusProving now s = Inr rs"
      "t = storeOptional q (fold storeReservationLocked (map (\<lambda>r. r\<lparr>nr_status := StatusProofReady, nr_updated := now\<rparr>) rs) s)"
    using assms(1) by (auto simp: MarkReservationsProofReady_def validateLeasedReservationsForStatusLocked_def Let_def)
  show ?thesis unfolding parts(2) optional_writes
    by (rule writes_leased [OF parts(1) assms(2)]) (auto simp: assms(3) ActiveKey_def IsActiveReservationStatus_def CanTransitionReservation_def status_defs)
qed

lemma broadcast_writes:
  assumes "markBroadcast refs ids u now fr fp s = (Inr x, t)" "mem_inv s" "\<And>i token. presents c i token = (\<lparr>sr_id = i, sr_token = token\<rparr> \<in> set refs)"
    "\<And>r. nr_id (fr r) = nr_id r \<and> ActiveKey (fr r) = ActiveKey r \<and> nr_operation (fr r) = nr_operation r \<and> nr_status (fr r) = to" "to \<in> {StatusSubmitted, StatusUnknown}"
  shows "writes now c s t"
proof -
  have "t = s \<or> (\<exists>rs ps. leasedReservations refs [] StatusProofReady now s = Inr rs \<and> t = fold storeOperation ps (fold storeReservationLocked (map fr rs) s))"
    using assms(1) by (auto simp: markBroadcast_def validateLeasedReservationsForStatusLocked_def split: if_splits)
  moreover have "IsActiveReservationStatus StatusProofReady" "CanTransitionReservation StatusProofReady to"
    using assms(5) by (auto simp: IsActiveReservationStatus_def CanTransitionReservation_def status_defs)
  ultimately show ?thesis using writes_leased [OF _ assms(2) _ _ assms(4,3)] operation_writes(2) [of now c s] by auto
qed

lemma update_writes:
  assumes "UpdateReservation u s = (Inr x, t)"
  shows "writes now (Update u) s t"
proof -
  have "key_free s u" "t = storeReservationLocked u s" using assms conflict_free [of u s] by (auto simp: UpdateReservation_def guardE_def split: if_splits)
  then show ?thesis by (intro writesI [of t "[]" "[u]"]) auto
qed

lemmas update_simps = ActiveKey_def beat_def broadcastReservation_def clearReservationLeaseFields_def

lemma cmd_writes:
  assumes "run_cmd now c s = (Inr (), t)" "mem_inv s"
  shows "writes now c s t"
proof (cases c)
  case (Create rs ps)
  then show ?thesis using assms(1) create_writes by (auto simp: dropM_ok)
next
  case (Cas i f g)
  then show ?thesis using assms cas_writes [OF assms(2), of i _ f g now _ c "[]"] by (auto simp: dropM_ok single_op_defs find_ok)
next
  case (CasOperation i f g p)
  then obtain r u q where parts: "reservation_of s i = Some r" "casCandidate r i f g now s = Inr u" "t = storeOptional q (fold storeReservationLocked [u] s)"
    using assms(1) by (auto simp: dropM_ok single_op_defs find_ok)
  show ?thesis unfolding parts(3) optional_writes using cas_writes [OF assms(2) parts(1,2)] CasOperation by simp
next
  case (CasLease i token f g)
  then show ?thesis using assms cas_writes [OF assms(2), of i _ f g now _ c "[]"] by (auto simp: dropM_ok single_op_defs find_ok lease_ok)
next
  case (Acquire i owner token status until)
  then show ?thesis using assms lease_writes [OF assms(2), of i]
    by (auto simp: dropM_ok single_op_defs find_ok Let_def lease_free_def After_def update_simps split: if_splits)
next
  case (Heartbeat i token until)
  then show ?thesis using assms lease_writes [OF assms(2), of i] by (auto simp: dropM_ok single_op_defs find_ok lease_ok update_simps)
next
  case (HeartbeatFor i token status until)
  then show ?thesis using assms lease_writes [OF assms(2), of i] by (auto simp: dropM_ok single_op_defs find_ok lease_ok update_simps)
next
  case (ClearLease i token)
  then show ?thesis using assms lease_writes [OF assms(2), of i] by (auto simp: dropM_ok single_op_defs find_ok lease_ok Let_def update_simps)
next
  case (MarkProofReady refs u)
  then show ?thesis using assms proof_ready_writes [of refs u now s _ t c] by (auto simp: dropM_ok)
next
  case (MarkSubmitted refs ids u)
  then show ?thesis using assms broadcast_writes [of refs ids u now _ _ s _ t c StatusSubmitted] by (auto simp: dropM_ok MarkReservationsSubmitted_def update_simps)
next
  case (MarkUnknown refs ids u)
  then show ?thesis using assms broadcast_writes [of refs ids u now _ _ s _ t c StatusUnknown] by (auto simp: dropM_ok MarkReservationsBroadcastUnknown_def update_simps)
next
  case (Update u)
  then show ?thesis using assms(1) update_writes by (auto simp: dropM_ok)
qed (use assms(1) operation_writes(1) in \<open>auto simp: dropM_ok CreateOperation_def UpdateOperation_def\<close>)


section \<open>Runs\<close>

text \<open>A keyed machine: the commands of a class keep an invariant, and what a key holds is never lost and moves along a relation of the key.\<close>

locale keyed_machine =
  fixes holds :: "'s \<Rightarrow> 'k \<Rightarrow> 'q option"
    and exec :: "'c \<Rightarrow> 's \<Rightarrow> 's"
    and good :: "'s \<Rightarrow> bool"
    and allowed :: "'c \<Rightarrow> bool"
    and may :: "'k \<Rightarrow> 'q \<Rightarrow> 'q \<Rightarrow> bool"
  assumes good_step: "good s \<Longrightarrow> allowed c \<Longrightarrow> good (exec c s)"
    and may_step: "good s \<Longrightarrow> allowed c \<Longrightarrow> holds s k = Some q \<Longrightarrow> \<exists>q'. holds (exec c s) k = Some q' \<and> may k q q'"
begin

lemma good_run: "good s \<Longrightarrow> \<forall>c \<in> set cs. allowed c \<Longrightarrow> good (fold exec cs s)"
  by (induction cs arbitrary: s) (simp_all add: good_step)

lemma may_run: "good s \<Longrightarrow> \<forall>c \<in> set cs. allowed c \<Longrightarrow> holds s k = Some q \<Longrightarrow> \<exists>q'. holds (fold exec cs s) k = Some q' \<and> (may k)\<^sup>*\<^sup>* q q'"
proof (induction cs arbitrary: s q)
  case (Cons c cs)
  have c: "allowed c" using Cons.prems(2) by simp
  obtain p where p: "holds (exec c s) k = Some p" "may k q p" using may_step [OF Cons.prems(1) c Cons.prems(3)] by blast
  then show ?case using Cons.IH [OF good_step [OF Cons.prems(1) c] _ p(1)] Cons.prems(2) by (auto intro: converse_rtranclp_into_rtranclp)
qed auto

end

definition reservation_change :: "note_reservation \<Rightarrow> note_reservation \<Rightarrow> bool" where
  "reservation_change r q =
     (nr_id q = nr_id r \<and> ActiveKey q = ActiveKey r \<and> nr_operation q = nr_operation r \<and> (nr_status q = nr_status r \<or> CanTransitionReservation (nr_status r) (nr_status q)))"

lemma cmd_cases:
  assumes "mem_inv s"
  shows "snd (run_cmd now c s) = s \<or> writes now c s (snd (run_cmd now c s))"
proof (cases "run_cmd now c s")
  case (Pair x t)
  then show ?thesis using cmd_atomic [of now c s _ t] cmd_writes [OF _ assms, of now c t] by (cases x) auto
qed

lemma writes_inv: "writes now c s t \<Longrightarrow> mem_inv s \<Longrightarrow> mem_inv t"
  unfolding writes_def using stores_inv operations_inv by blast

lemma writes_lookup:
  assumes "writes now c s t" "reservation_of s i = Some r"
  shows "reservation_of t i = Some r \<or> (\<exists>u. reservation_of t i = Some u \<and> nr_id u = i \<and> (change_ok now c s u \<or> c = Update u))"
proof -
  obtain us ps where t: "t = fold storeOperation ps (fold storeReservationLocked us s)" "distinct (map nr_id us)" "\<forall>u \<in> set us. fresh_ok s u \<or> change_ok now c s u \<or> c = Update u"
    using assms(1) unfolding writes_def by blast
  then have look: "reservation_of t i = (reservation_of s ++ map_of (map (\<lambda>u. (nr_id u, u)) us)) i" by (simp add: stores_lookup)
  show ?thesis
  proof (cases "map_of (map (\<lambda>u. (nr_id u, u)) us) i")
    case None
    then show ?thesis using look assms(2) by (simp add: map_add_def)
  next
    case (Some u)
    then have u: "u \<in> set us" "nr_id u = i" by (auto dest: map_of_SomeD)
    then have "change_ok now c s u \<or> c = Update u" using t(3) assms(2) by (auto simp: fresh_ok_def)
    then show ?thesis using look Some u by (simp add: map_add_def)
  qed
qed

lemma change_step: "change_ok now c s u \<Longrightarrow> reservation_of s (nr_id u) = Some r \<Longrightarrow> nr_id r = nr_id u \<Longrightarrow> reservation_change r u"
  by (auto simp: change_ok_def reservation_change_def)

lemma change_refl: "reservation_change r r"
  by (simp add: reservation_change_def)

lemma cmd_moves:
  assumes "mem_inv s" "reservation_of s i = Some r"
  shows "\<exists>q. reservation_of (snd (run_cmd now c s)) i = Some q \<and> (i \<in> overwrites c \<or> reservation_change r q)"
proof -
  have "reservation_change r u" if "nr_id u = i" "change_ok now c s u" for u
    using that assms(2) inv_id [OF assms] by (intro change_step) simp_all
  then show ?thesis
    using cmd_cases [OF assms(1), of now c] writes_lookup [of now c s "snd (run_cmd now c s)" i r] assms(2) change_refl [of r] by fastforce
qed

lemma cmd_inv: "mem_inv s \<Longrightarrow> mem_inv (snd (run_cmd now c s))"
  using cmd_cases [of s now c] writes_inv by auto

text \<open>Only the reservations of a set may be overwritten; the others move along \<open>reservation_change\<close>.\<close>

interpretation reservations: keyed_machine reservation_of "\<lambda>(now, c) s. snd (run_cmd now c s)" mem_inv "\<lambda>(now, c). overwrites c \<subseteq> U" "\<lambda>i r q. i \<in> U \<or> reservation_change r q"
  for U :: "string set"
proof
  fix s :: "'a mem_store_scheme" and c :: "time \<times> store_cmd"
  assume inv: "mem_inv s" and within: "case c of (now, c) \<Rightarrow> overwrites c \<subseteq> U"
  obtain now d where c: "c = (now, d)" by (cases c)
  show "mem_inv ((case c of (now, c) \<Rightarrow> \<lambda>s. snd (run_cmd now c s)) s)" using cmd_inv [OF inv] c by simp
  fix i r assume look: "reservation_of s i = Some r"
  show "\<exists>q. reservation_of ((case c of (now, c) \<Rightarrow> \<lambda>s. snd (run_cmd now c s)) s) i = Some q \<and> (i \<in> U \<or> reservation_change r q)"
    using cmd_moves [OF inv look, of now d] within c by auto
qed

lemma run_inv: "mem_inv s \<Longrightarrow> mem_inv (run_cmds cs s)"
  unfolding run_cmds_def by (rule reservations.good_run [of _ _ UNIV]) auto



section \<open>A sample reservation\<close>

definition sample_reservation :: note_reservation where
  "sample_reservation = \<lparr>nr_id = ''r1'', nr_company = [], nr_payroll = [], nr_batch = [], nr_chunk = [], nr_item = [], nr_note = ''n1'', nr_owner_key = ''k'',
     nr_encrypted_nullifier = [], nr_lookup_key = ''x'', nr_lookup_key_id = [], nr_status = StatusReserved, nr_expires = 0, nr_lease_owner = [], nr_lease_token = [],
     nr_lease_until = 0, nr_heartbeat = 0, nr_operation = [], nr_sign_doc_hash = [], nr_tx_bytes_hash = [], nr_tx_hash = [], nr_sequence = 0, nr_attempts = 0,
     nr_last_broadcast = 0, nr_last_error = [], nr_audit = None, nr_created = 1, nr_updated = 1\<rparr>"

definition sample_leased :: note_reservation where
  "sample_leased = sample_reservation\<lparr>nr_lease_owner := ''w'', nr_lease_token := ''t'', nr_lease_until := 9, nr_heartbeat := 2, nr_updated := 2\<rparr>"

definition sample_second :: note_reservation where "sample_second = sample_reservation\<lparr>nr_id := ''r2'', nr_note := ''n2'', nr_lookup_key := ''y''\<rparr>"

lemma sample_runs:
  "run_cmds [(1, Create [sample_reservation, sample_second] [])] NewMemoryStore =
     \<lparr>ms_reservations = [(''r1'', sample_reservation), (''r2'', sample_second)], ms_operations = [],
      ms_active = [(ActiveKey sample_reservation, ''r1''), (ActiveKey sample_second, ''r2'')]\<rparr>"
  "run_cmds [(1, Create [sample_reservation] [])] NewMemoryStore =
     \<lparr>ms_reservations = [(''r1'', sample_reservation)], ms_operations = [], ms_active = [(ActiveKey sample_reservation, ''r1'')]\<rparr>"
  "run_cmds [(1, Create [sample_reservation] []), (2, Acquire ''r1'' ''w'' ''t'' [] 9)] NewMemoryStore =
     \<lparr>ms_reservations = [(''r1'', sample_leased)], ms_operations = [], ms_active = [(ActiveKey sample_reservation, ''r1'')]\<rparr>"
  by (simp_all add: run_cmds_def dropM_def CreateReservationBatch_def validateReservationCreateLocked_def NewMemoryStore_def storeReservationLocked_def single_op_defs findReservation_def
      bindM_run Let_def guardE_def After_def IsActiveReservationStatus_def sample_reservation_def sample_leased_def sample_second_def ActiveKey_def status_defs)

section \<open>Properties\<close>

text \<open>C12. Whatever writing methods of the store run on a new store, in whatever order and \<open>UpdateReservation\<close> among them, the index of active keys lists exactly the active reservations under their note keys, so
  that no note is held by two active reservations; a method that fails changes nothing.\<close>

theorem note_held_once:
  fixes cs now c
  defines "s \<equiv> run_cmds cs NewMemoryStore"
  shows "(\<forall>k i. map_of (ms_active s) k = Some i \<longleftrightarrow> (\<exists>r. reservation_of s i = Some r \<and> IsActiveReservationStatus (nr_status r) \<and> ActiveKey r = k)) \<and>
    (\<forall>i j r q. reservation_of s i = Some r \<and> reservation_of s j = Some q \<and> IsActiveReservationStatus (nr_status r) \<and> IsActiveReservationStatus (nr_status q) \<and>
       ActiveKey r = ActiveKey q \<longrightarrow> i = j) \<and>
    (\<forall>e t. run_cmd now c s = (Inl e, t) \<longrightarrow> t = s)"
proof -
  have inv: "mem_inv s" unfolding s_def by (rule run_inv [OF new_inv])
  then show ?thesis using inv_active [OF inv] inv_unique [OF inv] cmd_atomic [of now c s] by blast
qed

theorem note_held_once_witness:
  "map_of (ms_active (run_cmds [(1, Create [sample_reservation, sample_second] [])] NewMemoryStore)) (ActiveKey sample_reservation) = Some ''r1'' \<and>
   (\<exists>e. run_cmd 2 (Update (sample_reservation\<lparr>nr_id := ''r2''\<rparr>)) (run_cmds [(1, Create [sample_reservation, sample_second] [])] NewMemoryStore) =
      (Inl e, run_cmds [(1, Create [sample_reservation, sample_second] [])] NewMemoryStore))"
proof -
  let ?s = "run_cmds [(1, Create [sample_reservation, sample_second] [])] NewMemoryStore"
  let ?c = "Update (sample_reservation\<lparr>nr_id := ''r2''\<rparr>)"
  note held = note_held_once [of "[(1, Create [sample_reservation, sample_second] [])]" 2 ?c]
  have "reservation_of ?s ''r1'' = Some sample_reservation" "IsActiveReservationStatus (nr_status sample_reservation)"
    unfolding sample_runs by (simp_all add: sample_reservation_def IsActiveReservationStatus_def)
  then have "map_of (ms_active ?s) (ActiveKey sample_reservation) = Some ''r1''" using held by blast
  moreover have "\<exists>e t. run_cmd 2 ?c ?s = (Inl e, t)"
    unfolding sample_runs by (simp add: dropM_def UpdateReservation_def findReservation_def activeReservationConflictLocked_def bindM_run guardE_def ActiveKey_def sample_second_def)
      (simp add: sample_reservation_def IsActiveReservationStatus_def)
  ultimately show ?thesis using held by metis
qed




text \<open>C17. A lease excludes others who work with tokens: while it has not run out, a sequence of commands none of which presents its token, none of which is a compare-and-set without
  a lease on the reservation, and none of which is an \<open>UpdateReservation\<close> of it leaves the reservation untouched, and nobody else obtains a lease on it. The methods left
  out need no token in the code.\<close>

theorem lease_excludes:
  assumes "mem_inv s" "reservation_of s i = Some r" "nr_lease_token r \<noteq> []"
    "\<forall>(now, c) \<in> set cs. now < nr_lease_until r \<and> \<not> presents c i (nr_lease_token r) \<and> \<not> plain_change c i"
  shows "reservation_of (run_cmds cs s) i = Some r \<and>
    (\<forall>owner token status until now. now < nr_lease_until r \<longrightarrow> (\<exists>e. run_cmd now (Acquire i owner token status until) (run_cmds cs s) = (Inl e, run_cmds cs s)))"
proof -
  have "reservation_of (run_cmds cs s) i = Some r \<and> mem_inv (run_cmds cs s)" using assms(1,2,4)
  proof (induction cs arbitrary: s)
    case (Cons nc cs)
    obtain now c where c: "nc = (now, c)" by (cases nc)
    let ?t = "snd (run_cmd now c s)"
    have "\<not> (change_ok now c s u \<or> c = Update u)" if "nr_id u = i" for u using Cons.prems c that assms(3) by (auto simp: change_ok_def lease_free_def)
    then have "reservation_of ?t i = Some r" using cmd_cases [OF Cons.prems(1), of now c] writes_lookup [of now c s ?t i r] Cons.prems(2) by auto
    moreover have "mem_inv ?t" by (rule cmd_inv [OF Cons.prems(1)])
    ultimately show ?case using Cons.IH [of ?t] Cons.prems(3) c by (simp add: run_cmds_def)
  qed (simp add: run_cmds_def)
  moreover have "\<exists>e. run_cmd now (Acquire i owner token status until) t = (Inl e, t)" if "reservation_of t i = Some r" "now < nr_lease_until r" for t :: "'a mem_store_scheme" and owner token status until now
    using that assms(3) by (auto simp: single_op_defs dropM_def bindM_run findReservation_def guardE_def After_def split: sum.splits)
  ultimately show ?thesis by blast
qed


theorem lease_excludes_witness:
  "reservation_of (run_cmds [(5, Acquire ''r1'' ''v'' ''u'' [] 20), (6, Heartbeat ''r1'' ''u'' 30)]
      (run_cmds [(1, Create [sample_reservation] []), (2, Acquire ''r1'' ''w'' ''t'' [] 9)] NewMemoryStore)) ''r1'' = Some sample_leased"
proof -
  let ?s = "run_cmds [(1, Create [sample_reservation] []), (2, Acquire ''r1'' ''w'' ''t'' [] 9)] NewMemoryStore"
  have inv: "mem_inv ?s" by (rule run_inv [OF new_inv])
  have look: "reservation_of ?s ''r1'' = Some sample_leased" unfolding sample_runs by simp
  show ?thesis using lease_excludes [OF inv look, of "[(5, Acquire ''r1'' ''v'' ''u'' [] 20), (6, Heartbeat ''r1'' ''u'' 30)]"] by (simp add: sample_leased_def)
qed

end
