(* ===== verification/Reservation_Service.thy ===== *)
theory Reservation_Service
  imports Reservation_Runs Event_Theorems
begin

text \<open>
  \<^verbatim>\<open>reservation/service.go\<close>, \<^verbatim>\<open>lease.go\<close>, \<^verbatim>\<open>reconcile.go\<close>, \<^verbatim>\<open>lookup_key.go\<close> and \<^verbatim>\<open>audit_v2.go\<close>: the service over the reservation store. The clock is the argument
  \<open>now\<close> and a drawn token is an argument; the store of the service is present, and its methods are those of \<open>Reservation_Store\<close>.
\<close>

section \<open>Lookup keys\<close>

text \<open>\<^verbatim>\<open>crypto/hmac\<close> over SHA-256, with blocks of 64 bytes.\<close>

definition hmac_sha256 :: "bytes \<Rightarrow> bytes \<Rightarrow> bytes" where
  "hmac_sha256 key msg =
     (let k = (if length key > 64 then sha256 key else key); block = k @ replicate (64 - length k) 0;
          pad = (\<lambda>b. map (\<lambda>x. x XOR b) block)
      in sha256 (pad 0x5c @ sha256 (pad 0x36 @ msg)))"

definition NullifierLookupKey :: "bytes \<Rightarrow> bytes \<Rightarrow> string res" where
  "NullifierLookupKey indexKey nullifier =
     bindE (guardE (length indexKey \<noteq> 0) (Errorf ''index key is required'')) (\<lambda>_.
     bindE (guardE (length nullifier \<noteq> 0) (Errorf ''nullifier is required'')) (\<lambda>_.
     Inr (hex_of_bytes (hmac_sha256 indexKey nullifier))))"

definition NullifierLookupKeyFromHex :: "bytes \<Rightarrow> string \<Rightarrow> string res" where
  "NullifierLookupKeyFromHex indexKey nullifierHex =
     (case hexDecode nullifierHex of None \<Rightarrow> Inl (Errorf ''nullifier must be hex'') | Some nullifier \<Rightarrow> NullifierLookupKey indexKey nullifier)"

section \<open>Audit bindings\<close>

record audit_snapshot =
  sp_network :: bytes
  sp_epoch :: u64
  sp_key :: audit_key
  sp_height :: int
  sp_artifact_hash :: bytes

definition Snapshot_Validate :: "audit_snapshot \<Rightarrow> unit res" where
  "Snapshot_Validate sp =
     bindE (guardE (\<not> (sp_epoch sp = 0 \<or> sp_height sp < 0)) (Errorf ''invalid audit key snapshot'')) (\<lambda>_.
     bindE (guardE (\<not> (sp_network sp = replicate 32 0 \<or> sp_artifact_hash sp = replicate 32 0)) (Errorf ''audit key snapshot requires network and artifact identities'')) (\<lambda>_.
     case ParseAuditKey (p64_encoded (ak_point (sp_key sp))) (ak_id (sp_key sp)) of
       Inl _ \<Rightarrow> Inl (Errorf ''invalid audit key snapshot'')
     | Inr key \<Rightarrow> guardE (ak_id key = ak_id (sp_key sp)) (Errorf ''invalid audit key snapshot'')))"

definition validateBindingHex :: "string \<Rightarrow> unit res" where
  "validateBindingHex v =
     (case hexDecode v of
        None \<Rightarrow> Inl (Errorf ''invalid audit binding'')
      | Some decoded \<Rightarrow>
          bindE (guardE (\<not> (length decoded \<noteq> 32 \<or> hex_of_bytes decoded \<noteq> v)) (Errorf ''invalid audit binding'')) (\<lambda>_.
          guardE (\<not> list_all (\<lambda>b. b = 0) decoded) (Errorf ''zero audit binding'')))"

definition AuditBinding_Validate :: "audit_binding \<Rightarrow> unit res" where
  "AuditBinding_Validate b =
     bindE (guardE (\<not> (ab_epoch b = 0 \<or> ab_expires b \<le> 0)) (Errorf ''epoch and expiry are required'')) (\<lambda>_.
     bindE (traverseE validateBindingHex [ab_network_id b, ab_key_id b, ab_artifact_hash b]) (\<lambda>_. Inr ()))"

definition NewAuditBinding :: "audit_snapshot \<Rightarrow> time \<Rightarrow> audit_binding res" where
  "NewAuditBinding sp expiresAt =
     bindE (Snapshot_Validate sp) (\<lambda>_.
     bindE (guardE (\<not> (TimeIsZero expiresAt \<or> unixTime expiresAt \<le> 0)) (Errorf ''audit reservation expiry is required'')) (\<lambda>_.
     let binding = \<lparr>ab_network_id = hex_of_bytes (sp_network sp), ab_key_id = hex_of_bytes (ak_id (sp_key sp)), ab_epoch = sp_epoch sp,
       ab_artifact_hash = hex_of_bytes (sp_artifact_hash sp), ab_expires = unixTime expiresAt\<rparr>
     in bindE (AuditBinding_Validate binding) (\<lambda>_. Inr binding)))"

definition ValidFor :: "audit_binding \<Rightarrow> audit_snapshot \<Rightarrow> time \<Rightarrow> bool" where
  "ValidFor b sp now =
     (if AuditBinding_Validate b \<noteq> Inr () \<or> Snapshot_Validate sp \<noteq> Inr () \<or> (\<not> TimeIsZero now \<and> unixTime now \<ge> ab_expires b) then False
      else ab_network_id b = hex_of_bytes (sp_network sp) \<and> ab_key_id b = hex_of_bytes (ak_id (sp_key sp)) \<and> ab_epoch b = sp_epoch sp \<and>
           ab_artifact_hash b = hex_of_bytes (sp_artifact_hash sp))"

text \<open>A binding made from a snapshot is valid for it until it expires, and for no snapshot with another network, epoch, key or artifact.\<close>

lemma new_binding_valid:
  assumes "NewAuditBinding sp expires = Inr b" "unixTime now < unixTime expires"
  shows "ValidFor b sp now"
  using assms by (auto simp: NewAuditBinding_def ValidFor_def Let_def)

lemma binding_namespace:
  assumes "ValidFor b sp now" "ValidFor b sq now'"
  shows "sp_network sp = sp_network sq \<and> sp_epoch sp = sp_epoch sq \<and> ak_id (sp_key sp) = ak_id (sp_key sq) \<and> sp_artifact_hash sp = sp_artifact_hash sq"
  using assms by (auto simp: ValidFor_def hex_of_bytes_inj split: if_splits)

section \<open>Reserving\<close>

record reserve_input =
  ri_reservation :: note_reservation
  ri_operation :: "payroll_operation option"

definition normalizeReserveInput :: "reserve_input \<Rightarrow> time \<Rightarrow> (note_reservation \<times> payroll_operation option) res" where
  "normalizeReserveInput input now =
     (let r = ri_reservation input in
      bindE (guardE (nr_id r \<noteq> []) (ReservationErr ErrInvalidReservation ''reservation_id is required'')) (\<lambda>_.
      bindE (guardE (nr_owner_key r \<noteq> []) (ReservationErr ErrInvalidReservation ''owner_key_id is required'')) (\<lambda>_.
      bindE (guardE (nr_lookup_key r \<noteq> []) (ReservationErr ErrInvalidReservation ''nullifier_lookup_key is required'')) (\<lambda>_.
      let r = (if nr_status r = [] then r\<lparr>nr_status := StatusReserved\<rparr> else r) in
      bindE (guardE (nr_status r = StatusReserved) (ReservationErr ErrInvalidReservation ''reservation must start as Reserved'')) (\<lambda>_.
      bindE (case nr_audit r of
               None \<Rightarrow> Inr ()
             | Some b \<Rightarrow>
                 bindE (mapErr (\<lambda>_. ReservationErr ErrInvalidReservation ''audit binding'') (AuditBinding_Validate b)) (\<lambda>_.
                 guardE (\<not> unixTime now \<ge> ab_expires b) (ReservationErr ErrInvalidReservation ''audit binding is expired''))) (\<lambda>_.
      let r = r\<lparr>nr_created := (if TimeIsZero (nr_created r) then now else nr_created r), nr_updated := now\<rparr> in
      case ri_operation input of
        None \<Rightarrow> Inr (r, None)
      | Some p \<Rightarrow>
          bindE (guardE (po_id p \<noteq> []) (ReservationErr ErrInvalidReservation ''operation_id is required'')) (\<lambda>_.
          let r = (if nr_operation r = [] then r\<lparr>nr_operation := po_id p\<rparr> else r) in
          bindE (guardE (nr_operation r = po_id p) (ReservationErr ErrInvalidReservation ''reservation operation_id does not match operation'')) (\<lambda>_.
          let p = (if po_reservation p = [] then p\<lparr>po_reservation := nr_id r\<rparr> else p) in
          bindE (guardE (po_reservation p = nr_id r) (ReservationErr ErrInvalidReservation ''operation reservation_id does not match reservation'')) (\<lambda>_.
          let p = (if po_status p = [] then p\<lparr>po_status := OperationStatusPlanned\<rparr> else p) in
          Inr (r, Some (p\<lparr>po_created := (if TimeIsZero (po_created p) then now else po_created p), po_updated := now\<rparr>)))))))))))"

definition linksPresent :: "note_reservation list \<Rightarrow> payroll_operation list \<Rightarrow> 'm mem_store_scheme \<Rightarrow> unit res" where
  "linksPresent reservations operations s =
     guardE (list_all (\<lambda>r. nr_operation r = [] \<or> nr_operation r \<in> set (map po_id operations) \<or> operation_of s (nr_operation r) \<noteq> None) reservations)
       (ReservationErr ErrOperationNotFound ''reservation references missing operation'')"

definition ReserveBatch :: "reserve_input list \<Rightarrow> time \<Rightarrow> ('m mem_store_scheme, note_reservation list) action" where
  "ReserveBatch inputs now =
     (if inputs = [] then retM []
      else
        bindM (readM (\<lambda>_. traverseE (\<lambda>input. normalizeReserveInput input now) inputs)) (\<lambda>normalized.
        let reservations = map fst normalized; operations = List.map_filter snd normalized in
        bindM (readM (linksPresent reservations operations)) (\<lambda>_. CreateReservationBatch reservations operations)))"

definition service_Reserve :: "reserve_input \<Rightarrow> time \<Rightarrow> ('m mem_store_scheme, note_reservation) action" where
  "service_Reserve input now = bindM (ReserveBatch [input] now) (\<lambda>created. retM (created ! 0))"

section \<open>Transitions and leases\<close>

definition Transition :: "string \<Rightarrow> reservation_status \<Rightarrow> reservation_status \<Rightarrow> time \<Rightarrow> ('m mem_store_scheme, note_reservation) action" where
  "Transition i from to now =
     bindM (guardM (CanTransitionReservation from to) (ReservationErr ErrInvalidTransition ''transition'')) (\<lambda>_.
     bindM (guardM (\<not> RequiresLeaseToken from to) (ReservationErr ErrLeaseMismatch ''requires lease token'')) (\<lambda>_.
     CompareAndSetReservationStatus i from to now))"

definition TransitionWithLease :: "string \<Rightarrow> string \<Rightarrow> reservation_status \<Rightarrow> reservation_status \<Rightarrow> time \<Rightarrow> ('m mem_store_scheme, note_reservation) action" where
  "TransitionWithLease i leaseToken from to now =
     bindM (guardM (CanTransitionReservation from to) (ReservationErr ErrInvalidTransition ''transition'')) (\<lambda>_.
     CompareAndSetReservationStatusWithLease i leaseToken from to now)"

definition leaseOf :: "note_reservation \<Rightarrow> lease" where
  "leaseOf r = \<lparr>le_owner = nr_lease_owner r, le_token = nr_lease_token r, le_until = nr_lease_until r\<rparr>"

definition acquireLease :: "string \<Rightarrow> string \<Rightarrow> reservation_status \<Rightarrow> int \<Rightarrow> string \<Rightarrow> time \<Rightarrow> ('m mem_store_scheme, lease) action" where
  "acquireLease i owner status ttl token now =
     bindM (guardM (owner \<noteq> []) (Errorf ''lease owner is required'')) (\<lambda>_.
     bindM (guardM (\<not> ttl \<le> 0) (Errorf ''lease ttl must be positive'')) (\<lambda>_.
     bindM (if status = [] then AcquireReservationLease i owner token (now + ttl) now else AcquireReservationLeaseForStatus i owner token status (now + ttl) now) (\<lambda>updated.
     retM (leaseOf updated))))"

definition AcquireLease :: "string \<Rightarrow> string \<Rightarrow> int \<Rightarrow> string \<Rightarrow> time \<Rightarrow> ('m mem_store_scheme, lease) action" where
  "AcquireLease i owner ttl token now = acquireLease i owner [] ttl token now"

definition AcquireLeaseForStatus :: "string \<Rightarrow> string \<Rightarrow> reservation_status \<Rightarrow> int \<Rightarrow> string \<Rightarrow> time \<Rightarrow> ('m mem_store_scheme, lease) action" where
  "AcquireLeaseForStatus i owner status ttl token now = acquireLease i owner status ttl token now"

definition HeartbeatLease :: "string \<Rightarrow> string \<Rightarrow> int \<Rightarrow> time \<Rightarrow> ('m mem_store_scheme, lease) action" where
  "HeartbeatLease i token ttl now =
     bindM (guardM (\<not> ttl \<le> 0) (Errorf ''lease ttl must be positive'')) (\<lambda>_.
     bindM (HeartbeatReservationLease i token (now + ttl) now) (\<lambda>updated. retM (leaseOf updated)))"

definition HeartbeatLeaseForStatus :: "string \<Rightarrow> string \<Rightarrow> reservation_status \<Rightarrow> int \<Rightarrow> time \<Rightarrow> ('m mem_store_scheme, lease) action" where
  "HeartbeatLeaseForStatus i token status ttl now =
     bindM (guardM (\<not> ttl \<le> 0) (Errorf ''lease ttl must be positive'')) (\<lambda>_.
     bindM (HeartbeatReservationLeaseForStatus i token status (now + ttl) now) (\<lambda>updated. retM (leaseOf updated)))"

definition service_MarkSubmitted :: "string \<Rightarrow> string \<Rightarrow> submitted_update \<Rightarrow> time \<Rightarrow> ('m mem_store_scheme, note_reservation) action" where
  "service_MarkSubmitted i leaseToken u now =
     bindM (GetReservation i) (\<lambda>r.
     bindM (MarkReservationsSubmitted [\<lparr>sr_id = i, sr_token = leaseToken\<rparr>] (if nr_operation r = [] then [] else [nr_operation r]) u now) (\<lambda>(updated, _).
     retM (updated ! 0)))"

definition Release :: "string \<Rightarrow> reservation_status \<Rightarrow> time \<Rightarrow> ('m mem_store_scheme, note_reservation) action" where
  "Release i from now =
     bindM (guardM (from = StatusReserved) (ReservationErr ErrInvalidTransition ''automatic release is only allowed from Reserved'')) (\<lambda>_.
     Transition i from StatusReleased now)"

fun releaseStale :: "note_reservation list \<Rightarrow> audit_snapshot \<Rightarrow> time \<Rightarrow> ('m mem_store_scheme, note_reservation list) action" where
  "releaseStale [] sp now = retM []"
| "releaseStale (r # rs) sp now =
     (if (case nr_audit r of None \<Rightarrow> True | Some b \<Rightarrow> ValidFor b sp now) then releaseStale rs sp now
      else
        bindM (Release (nr_id r) StatusReserved now) (\<lambda>updated.
        bindM (releaseStale rs sp now) (\<lambda>released. retM (updated # released))))"

text \<open>The clock is read once for the bindings and again by every release; a later reading only shows in the time of the update, so one reading stands for all.\<close>

definition ReleaseStaleAuditReservations ::
  "(note_reservation list \<Rightarrow> note_reservation list) \<Rightarrow> audit_snapshot \<Rightarrow> time \<Rightarrow> ('m mem_store_scheme, note_reservation list) action" where
  "ReleaseStaleAuditReservations visit sp now =
     bindM (readM (\<lambda>_. Snapshot_Validate sp)) (\<lambda>_.
     bindM (ListReservations visit \<lparr>rf_statuses = [StatusReserved], rf_limit = 0\<rparr>) (\<lambda>reserved. releaseStale reserved sp now))"

end
