(* ===== verification/Reservation_Reconcile.thy ===== *)
theory Reservation_Reconcile
  imports Reservation_Service
begin

text \<open>
  \<^verbatim>\<open>reservation/reconcile.go\<close>: what the service concludes from evidence found on the chain about a reservation and its operation. A
  method of the service is one action here, with no other writer between its calls of the store. In the source each of these calls takes the mutex by itself: another writer may come in between
  the reading of the operation and the compare-and-set, which then still compares the status of the reservation but writes the operation as it was read.
\<close>

section \<open>Evidence\<close>

record operation_evidence =
  oe_tx_hash :: string
  oe_sign_doc_hash :: string
  oe_tx_bytes_hash :: string
  oe_output_commitment :: string
  oe_disclosure_digest :: string
  oe_user_digest_seen :: string
  oe_audit_digest_seen :: string
  oe_self_digest_seen :: string
  oe_recipient_hash :: string
  oe_amount_hash :: string
  oe_denom :: string
  oe_item_index :: int
  oe_item_index_known :: bool
  oe_nullifier_spent :: bool
  oe_tx_succeeded :: bool
  oe_tx_failed :: bool
  oe_tx_known :: bool

record reconcile_result =
  rr_reservation_status :: reservation_status
  rr_operation_status :: operation_status
  rr_requires_review :: bool
  rr_reason :: string

text \<open>\<^verbatim>\<open>strings.ToLower\<close> on ASCII text: it is applied to hashes in hexadecimal.\<close>

definition ToLower :: "string \<Rightarrow> string" where
  "ToLower s = map (\<lambda>c. let n = of_char c :: nat in if 65 \<le> n \<and> n \<le> 90 then char_of (n + 32) else c) s"

definition normalizedTxIdentity :: "string \<Rightarrow> string" where
  "normalizedTxIdentity v = ToLower (TrimSpace v)"

definition firstNonEmpty :: "string list \<Rightarrow> string" where
  "firstNonEmpty values = (case filter (\<lambda>v. v \<noteq> []) (map TrimSpace values) of [] \<Rightarrow> [] | v # _ \<Rightarrow> v)"

definition matchRequired :: "string \<Rightarrow> string \<Rightarrow> bool" where
  "matchRequired expected actual = (TrimSpace expected \<noteq> [] \<and> TrimSpace actual \<noteq> [] \<and> TrimSpace expected = TrimSpace actual)"

text \<open>The two results: whether an identity matched, and whether none contradicted.\<close>

fun txIdentityLoop :: "string list \<Rightarrow> string list \<Rightarrow> bool \<Rightarrow> bool \<times> bool" where
  "txIdentityLoop expected [] matched = (matched, True)"
| "txIdentityLoop expected (v # vs) matched =
     (let normalized = normalizedTxIdentity v in
      if normalized = [] then txIdentityLoop expected vs matched
      else if normalized \<notin> set expected then (False, False)
      else txIdentityLoop expected vs True)"

definition txIdentityMatches :: "string list \<Rightarrow> string list \<Rightarrow> bool \<times> bool" where
  "txIdentityMatches expectedValues actualValues =
     (let expected = filter (\<lambda>v. v \<noteq> []) (map normalizedTxIdentity expectedValues)
      in if expected = [] then (False, True) else txIdentityLoop expected actualValues False)"

definition txEvidenceMatchesOperation :: "payroll_operation option \<Rightarrow> operation_evidence \<Rightarrow> bool" where
  "txEvidenceMatchesOperation operation evidence =
     (case operation of
        None \<Rightarrow> False
      | Some p \<Rightarrow>
          let (txMatched, ok) = txIdentityMatches [po_tx_hash p, po_tx_bytes_hash p] [oe_tx_hash evidence, oe_tx_bytes_hash evidence] in
          if \<not> ok then False
          else
            let expected = normalizedTxIdentity (po_sign_doc_hash p); actual = normalizedTxIdentity (oe_sign_doc_hash evidence) in
            if expected \<noteq> [] then (if actual = expected then True else if actual \<noteq> [] then False else txMatched)
            else txMatched)"

definition operationMatchesEvidence :: "payroll_operation option \<Rightarrow> operation_evidence \<Rightarrow> bool" where
  "operationMatchesEvidence operation evidence =
     (case operation of
        None \<Rightarrow> False
      | Some p \<Rightarrow>
          txEvidenceMatchesOperation operation evidence \<and>
          matchRequired (po_commitment p) (oe_output_commitment evidence) \<and>
          matchRequired (firstNonEmpty [po_audit_digest p, po_digest p]) (firstNonEmpty [oe_audit_digest_seen evidence, oe_disclosure_digest evidence]) \<and>
          (po_user_digest p \<noteq> [] \<longrightarrow> matchRequired (po_user_digest p) (oe_user_digest_seen evidence)) \<and>
          (po_self_digest p \<noteq> [] \<longrightarrow> matchRequired (po_self_digest p) (oe_self_digest_seen evidence)) \<and>
          matchRequired (po_recipient_hash p) (oe_recipient_hash evidence) \<and>
          matchRequired (po_amount_hash p) (oe_amount_hash evidence) \<and>
          matchRequired (po_denom p) (oe_denom evidence) \<and>
          (po_item_index_known p \<longrightarrow> oe_item_index_known evidence \<and> po_item_index p = oe_item_index evidence))"

section \<open>Conclusions\<close>

definition currentOperationStatus :: "payroll_operation option \<Rightarrow> operation_status" where
  "currentOperationStatus operation = (case operation of None \<Rightarrow> OperationStatusUnknown | Some p \<Rightarrow> po_status p)"

definition reconciledResult :: "reservation_status \<Rightarrow> operation_status \<Rightarrow> operation_status \<Rightarrow> string \<Rightarrow> reconcile_result" where
  "reconciledResult reservationStatus operationStatus requested reason =
     (if operationStatus \<noteq> requested \<and> IsTerminalOperationStatus operationStatus then
        \<lparr>rr_reservation_status = reservationStatus, rr_operation_status = operationStatus, rr_requires_review = True,
          rr_reason = ''operation already terminal; preserved existing status''\<rparr>
      else \<lparr>rr_reservation_status = reservationStatus, rr_operation_status = operationStatus, rr_requires_review = False, rr_reason = reason\<rparr>)"

definition operationStatusRequiresReview :: "operation_status \<Rightarrow> bool" where
  "operationStatusRequiresReview status = (status \<in> set [OperationStatusConflictSpent, OperationStatusManualReview])"

definition failedTxReconcileTarget :: "payroll_operation option \<Rightarrow> reservation_status \<times> operation_status" where
  "failedTxReconcileTarget operation =
     (case operation of
        Some p \<Rightarrow> if IsTerminalOperationStatus (po_status p) \<and> po_status p \<noteq> OperationStatusFailed then (StatusManualReview, OperationStatusManualReview)
          else (StatusFailed, OperationStatusFailed)
      | None \<Rightarrow> (StatusFailed, OperationStatusFailed))"

definition terminalReservationReview :: "reservation_status \<Rightarrow> operation_status \<Rightarrow> bool \<times> string" where
  "terminalReservationReview reservationStatus operationStatus =
     (if operationStatusRequiresReview operationStatus then (True, ''terminal operation requires review'')
      else if reservationStatus = StatusConfirmedSpent \<and> operationStatus \<noteq> OperationStatusSucceeded then
        (True, ''terminal spent reservation has no successful operation evidence'')
      else if reservationStatus = StatusFailed \<and> operationStatus = OperationStatusSucceeded then
        (True, ''terminal failed reservation has successful operation evidence'')
      else (False, ''reservation is already terminal''))"

definition reconcileReservationOperation ::
  "note_reservation \<Rightarrow> payroll_operation option \<Rightarrow> reservation_status \<Rightarrow> operation_status \<Rightarrow> time \<Rightarrow> ('m mem_store_scheme, note_reservation \<times> operation_status) action" where
  "reconcileReservationOperation r operation reservationStatus operationStatus now =
     bindM (guardM (\<not> RequiresLeaseToken (nr_status r) reservationStatus) (ReservationErr ErrLeaseMismatch ''requires lease token'')) (\<lambda>_.
     let (operationUpdate, nextOperationStatus) =
           (case operation of
              None \<Rightarrow> (None, operationStatus)
            | Some p \<Rightarrow>
                if IsTerminalOperationStatus (po_status p) \<and> po_status p \<noteq> operationStatus then (None, po_status p)
                else (Some (p\<lparr>po_status := operationStatus, po_updated := now\<rparr>), operationStatus)) in
     bindM (CompareAndSetReservationStatusWithOperation (nr_id r) (nr_status r) reservationStatus operationUpdate now) (\<lambda>(updatedReservation, updatedOperation).
     retM (updatedReservation, (case updatedOperation of Some q \<Rightarrow> po_status q | None \<Rightarrow> nextOperationStatus))))"

definition reviewed :: "note_reservation \<Rightarrow> operation_status \<Rightarrow> string \<Rightarrow> reconcile_result" where
  "reviewed updated operationStatus reason =
     \<lparr>rr_reservation_status = nr_status updated, rr_operation_status = operationStatus, rr_requires_review = True, rr_reason = reason\<rparr>"

definition reconcileUnknown :: "note_reservation \<Rightarrow> payroll_operation option \<Rightarrow> time \<Rightarrow> ('m mem_store_scheme, reconcile_result) action" where
  "reconcileUnknown r operation now =
     (if nr_status r = StatusManualReview then retM (reviewed r (currentOperationStatus operation) ''reservation requires manual review'')
      else if nr_status r = StatusUnknown then
        retM (reconciledResult StatusUnknown (currentOperationStatus operation) OperationStatusUnknown ''tx and nullifier state are unknown'')
      else
        bindM (reconcileReservationOperation r operation StatusUnknown OperationStatusUnknown now) (\<lambda>(updated, operationStatus).
        retM (reconciledResult (nr_status updated) operationStatus OperationStatusUnknown ''tx and nullifier state are unknown'')))"

definition reconcileFailed :: "note_reservation \<Rightarrow> payroll_operation option \<Rightarrow> operation_evidence \<Rightarrow> time \<Rightarrow> ('m mem_store_scheme, reconcile_result) action" where
  "reconcileFailed r operation evidence now =
     (if \<not> txEvidenceMatchesOperation operation evidence then
        bindM (reconcileReservationOperation r operation StatusManualReview OperationStatusManualReview now) (\<lambda>(updated, operationStatus).
        retM (reviewed updated operationStatus ''failed tx evidence does not match operation''))
      else
        let (reservationStatus, operationStatusTarget) = failedTxReconcileTarget operation in
        if nr_status r = reservationStatus then
          retM (reconciledResult (nr_status r) (currentOperationStatus operation) operationStatusTarget ''tx failed and nullifier is unspent'')
        else
          bindM (reconcileReservationOperation r operation reservationStatus operationStatusTarget now) (\<lambda>(updated, operationStatus).
          retM (reconciledResult (nr_status updated) operationStatus operationStatusTarget ''tx failed and nullifier is unspent'')))"

definition reconcileSpent :: "note_reservation \<Rightarrow> payroll_operation option \<Rightarrow> operation_evidence \<Rightarrow> time \<Rightarrow> ('m mem_store_scheme, reconcile_result) action" where
  "reconcileSpent r operation evidence now =
     (if \<not> operationMatchesEvidence operation evidence then
        bindM (reconcileReservationOperation r operation StatusConfirmedSpent OperationStatusConflictSpent now) (\<lambda>(updated, operationStatus).
        retM (reviewed updated operationStatus ''nullifier spent but evidence does not match operation''))
      else
        bindM (reconcileReservationOperation r operation StatusConfirmedSpent OperationStatusSucceeded now) (\<lambda>(updated, operationStatus).
        retM (reconciledResult (nr_status updated) operationStatus OperationStatusSucceeded ''operation evidence matched'')))"

definition reconcileLoaded :: "note_reservation \<Rightarrow> payroll_operation option \<Rightarrow> operation_evidence \<Rightarrow> time \<Rightarrow> ('m mem_store_scheme, reconcile_result) action" where
  "reconcileLoaded r operation evidence now =
     (if IsTerminalReservationStatus (nr_status r) then
        (let operationStatus = currentOperationStatus operation; (requiresReview, reason) = terminalReservationReview (nr_status r) operationStatus
         in retM \<lparr>rr_reservation_status = nr_status r, rr_operation_status = operationStatus, rr_requires_review = requiresReview, rr_reason = reason\<rparr>)
      else if \<not> (oe_tx_known evidence \<or> oe_tx_succeeded evidence \<or> oe_tx_failed evidence) \<and> \<not> oe_nullifier_spent evidence then reconcileUnknown r operation now
      else if oe_tx_failed evidence \<and> \<not> oe_nullifier_spent evidence then reconcileFailed r operation evidence now
      else if oe_tx_succeeded evidence \<or> oe_nullifier_spent evidence then reconcileSpent r operation evidence now
      else failM (ReservationErr ErrManualReviewRequired []))"

definition Reconcile :: "string \<Rightarrow> operation_evidence \<Rightarrow> time \<Rightarrow> ('m mem_store_scheme, reconcile_result) action" where
  "Reconcile i evidence now =
     bindM (GetReservation i) (\<lambda>r.
     bindM (if nr_operation r = [] then retM None else bindM (GetOperation (nr_operation r)) (\<lambda>p. retM (Some p))) (\<lambda>operation.
     reconcileLoaded r operation evidence now))"

section \<open>What a reconciliation does\<close>



text \<open>The operation of a reservation, as the service reads it.\<close>

definition linked_operation :: "note_reservation \<Rightarrow> 'm mem_store_scheme \<Rightarrow> payroll_operation option" where
  "linked_operation r s = (if nr_operation r = [] then None else operation_of s (nr_operation r))"





lemma reconciledResult_status [simp]: "rr_reservation_status (reconciledResult a b c d) = a" "rr_reservation_status (reviewed u b d) = nr_status u"
  by (simp_all add: reconciledResult_def reviewed_def)






lemma reconcile_runs:
  "Reconcile i ev now s =
     (case reservation_of s i of
        None \<Rightarrow> (Inl (ReservationErr ErrReservationNotFound []), s)
      | Some r \<Rightarrow> if nr_operation r \<noteq> [] \<and> operation_of s (nr_operation r) = None then (Inl (ReservationErr ErrOperationNotFound []), s)
                  else reconcileLoaded r (linked_operation r s) ev now s)"
  by (auto simp: Reconcile_def GetReservation_def GetOperation_def findReservation_def findOperation_def linked_operation_def bindM_run split: option.splits)




lemma optional_lookup [simp]:
  "reservation_of (storeOptional w s) = reservation_of s"
  "operation_of (storeOptional w s) = (case w of None \<Rightarrow> operation_of s | Some q \<Rightarrow> (operation_of s)(po_id q \<mapsto> q))"
  by (simp_all add: storeOptional_def split: option.splits)









text \<open>A reservation under review cannot be reconciled again with evidence of a failed transaction that does not match its operation: the code asks for the transition from
  the status to itself, which the table does not have, although the other branches accept a status that is already reached.\<close>

lemma review_not_repeatable:
  assumes "reservation_of s i = Some r" "nr_id r = i" "nr_status r = StatusManualReview" "linked_operation r s = Some p" "nr_operation r \<noteq> []"
    "oe_tx_failed ev" "\<not> oe_nullifier_spent ev" "\<not> txEvidenceMatchesOperation (Some p) ev"
  shows "Reconcile i ev now s = (Inl (ReservationErr ErrInvalidTransition []), s)"
proof -
  have "\<not> CanTransitionReservation StatusManualReview StatusManualReview" "\<not> RequiresLeaseToken StatusManualReview StatusManualReview"
    "\<not> IsTerminalReservationStatus StatusManualReview"
    by (simp_all add: CanTransitionReservation_def RequiresLeaseToken_def IsTerminalReservationStatus_def status_defs)
  moreover have "operation_of s (nr_operation r) \<noteq> None" using assms(4,5) by (auto simp: linked_operation_def)
  ultimately show ?thesis using assms
    by (auto simp: reconcile_runs reconcileLoaded_def reconcileFailed_def reconcileReservationOperation_def CompareAndSetReservationStatusWithOperation_def bindM_run
        findReservation_def casCandidate_def guardE_def Let_def)
qed

end
