(* ===== verification/Reservation_Batch.thy ===== *)
theory Reservation_Batch
  imports Reservation_Reconcile
begin

text \<open>
  \<^verbatim>\<open>reservation/batch_types.go\<close> and \<^verbatim>\<open>batch_memory_store.go\<close>: operations with several inputs and outputs under one proof. The state extends the reservation store by
  four maps; a missing entry of the three relations reads as no rows. The copies that the clone functions take are sorted by index.
\<close>

section \<open>Records\<close>

definition BatchOperationSchemaVersionV1 :: string where "BatchOperationSchemaVersionV1 = ''privacy-payroll-batch-v1''"

type_synonym output_role = string
type_synonym evidence_status = string

definition BatchOutputRolePayment :: output_role where [status_defs]: "BatchOutputRolePayment = ''payment''"
definition BatchOutputRoleChange :: output_role where [status_defs]: "BatchOutputRoleChange = ''change''"
definition BatchOutputRolePadding :: output_role where [status_defs]: "BatchOutputRolePadding = ''padding''"

definition BatchItemEvidencePending :: evidence_status where [status_defs]: "BatchItemEvidencePending = ''Pending''"
definition BatchItemEvidenceSucceeded :: evidence_status where [status_defs]: "BatchItemEvidenceSucceeded = ''Succeeded''"
definition BatchItemEvidenceManualReview :: evidence_status where [status_defs]: "BatchItemEvidenceManualReview = ''ManualReview''"
definition BatchItemEvidenceFailed :: evidence_status where [status_defs]: "BatchItemEvidenceFailed = ''Failed''"

record batch_attempt =
  at_signed :: bytes
  at_tx_bytes_hash :: string
  at_sign_doc_hash :: string
  at_tx_hash :: string
  at_sequence :: u64
  at_time :: time
  at_error :: string
  at_unknown :: bool

record batch_operation =
  bo_schema :: string
  bo_id :: string
  bo_company :: string
  bo_payroll :: string
  bo_batch :: string
  bo_owner_key :: string
  bo_asset :: string
  bo_denom :: string
  bo_input_count :: int
  bo_output_count :: int
  bo_status :: operation_status
  bo_lease_owner :: string
  bo_lease_token :: string
  bo_lease_until :: time
  bo_heartbeat :: time
  bo_payload :: bytes
  bo_payload_hash :: string
  bo_proof :: bytes
  bo_proof_hash :: string
  bo_signed :: bytes
  bo_tx_bytes_hash :: string
  bo_sign_doc_hash :: string
  bo_tx_hash :: string
  bo_sequence :: u64
  bo_attempts :: int
  bo_last_broadcast :: time
  bo_last_error :: string
  bo_history :: "batch_attempt list"
  bo_created :: time
  bo_updated :: time

record batch_input =
  in_schema :: string
  in_operation :: string
  in_reservation :: string
  in_index :: int
  in_commitment :: string
  in_amount :: bytes
  in_created :: time

record batch_item =
  it_schema :: string
  it_operation :: string
  it_item :: string
  it_employee :: string
  it_index :: int
  it_role :: output_role
  it_status :: evidence_status
  it_reason :: string
  it_created :: time
  it_updated :: time

record batch_evidence =
  ev_schema :: string
  ev_operation :: string
  ev_index :: int
  ev_commitment :: string
  ev_policy :: u32
  ev_mode :: u32
  ev_user_digest :: string
  ev_full_digest :: string
  ev_recipient_hash :: string
  ev_encrypted_recipient :: bytes
  ev_encrypted_amount :: bytes
  ev_amount_hash :: string
  ev_denom :: string
  ev_asset :: string
  ev_role :: output_role
  ev_key_id :: string
  ev_key_epoch :: u64
  ev_seen_commitment :: string
  ev_seen_user :: string
  ev_seen_full :: string
  ev_seen_recipient :: string
  ev_audit_failed :: bool
  ev_self_failed :: bool
  ev_created :: time
  ev_updated :: time

record batch_graph =
  bg_operation :: batch_operation
  bg_inputs :: "batch_input list"
  bg_items :: "batch_item list"
  bg_evidence :: "batch_evidence list"

record proof_artifact =
  pa_payload :: bytes
  pa_payload_hash :: string
  pa_proof :: bytes
  pa_proof_hash :: string

record signed_tx =
  st_signed :: bytes
  st_tx_bytes_hash :: string
  st_sign_doc_hash :: string
  st_tx_hash :: string
  st_sequence :: u64

record batch_broadcast = signed_tx +
  bb_error :: string
  bb_unknown :: bool

record observed_output =
  ob_index :: int
  ob_commitment :: string
  ob_user_digest :: string
  ob_full_digest :: string
  ob_recipient_hash :: string
  ob_audit_failed :: bool
  ob_self_failed :: bool

record batch_reconcile =
  br_tx_hash :: string
  br_succeeded :: bool
  br_failed :: bool
  br_spent :: "string list"
  br_observed :: "observed_output list"
  br_reason :: string

record batch_store = mem_store +
  bt_operations :: "(string \<times> batch_operation) list"
  bt_inputs :: "(string \<times> batch_input list) list"
  bt_items :: "(string \<times> batch_item list) list"
  bt_evidence :: "(string \<times> batch_evidence list) list"

definition rows :: "(string \<times> 'r list) list \<Rightarrow> string \<Rightarrow> 'r list" where
  "rows m k = (case map_of m k of None \<Rightarrow> [] | Some rs \<Rightarrow> rs)"

abbreviation inputs_of :: "batch_store \<Rightarrow> string \<Rightarrow> batch_input list" where "inputs_of s \<equiv> rows (bt_inputs s)"

definition storeBatchOperation :: "batch_operation \<Rightarrow> string \<Rightarrow> batch_store \<Rightarrow> batch_store" where
  "storeBatchOperation op k s = s\<lparr>bt_operations := AList.update k op (bt_operations s)\<rparr>"

definition findBatch :: "string \<Rightarrow> batch_store \<Rightarrow> batch_operation res" where
  "findBatch k s = (case map_of (bt_operations s) k of None \<Rightarrow> Inl (ReservationErr ErrOperationNotFound []) | Some op \<Rightarrow> Inr op)"

definition cloneBatchInputs :: "batch_input list \<Rightarrow> batch_input list" where "cloneBatchInputs = sort_key in_index"
definition cloneBatchItems :: "batch_item list \<Rightarrow> batch_item list" where "cloneBatchItems = sort_key it_index"
definition cloneBatchEvidence :: "batch_evidence list \<Rightarrow> batch_evidence list" where "cloneBatchEvidence = sort_key ev_index"

definition zeroOperation :: batch_operation where
  "zeroOperation = \<lparr>bo_schema = [], bo_id = [], bo_company = [], bo_payroll = [], bo_batch = [], bo_owner_key = [], bo_asset = [], bo_denom = [], bo_input_count = 0,
     bo_output_count = 0, bo_status = [], bo_lease_owner = [], bo_lease_token = [], bo_lease_until = 0, bo_heartbeat = 0, bo_payload = [], bo_payload_hash = [],
     bo_proof = [], bo_proof_hash = [], bo_signed = [], bo_tx_bytes_hash = [], bo_sign_doc_hash = [], bo_tx_hash = [], bo_sequence = 0, bo_attempts = 0,
     bo_last_broadcast = 0, bo_last_error = [], bo_history = [], bo_created = 0, bo_updated = 0\<rparr>"

definition zeroReservation :: note_reservation where
  "zeroReservation = \<lparr>nr_id = [], nr_company = [], nr_payroll = [], nr_batch = [], nr_chunk = [], nr_item = [], nr_note = [], nr_owner_key = [], nr_encrypted_nullifier = [],
     nr_lookup_key = [], nr_lookup_key_id = [], nr_status = [], nr_expires = 0, nr_lease_owner = [], nr_lease_token = [], nr_lease_until = 0, nr_heartbeat = 0,
     nr_operation = [], nr_sign_doc_hash = [], nr_tx_bytes_hash = [], nr_tx_hash = [], nr_sequence = 0, nr_attempts = 0, nr_last_broadcast = 0, nr_last_error = [],
     nr_audit = None, nr_created = 0, nr_updated = 0\<rparr>"

text \<open>Reading a map of reservations at a key that may be missing.\<close>

definition reservationAt :: "string \<Rightarrow> 'm mem_store_scheme \<Rightarrow> note_reservation" where
  "reservationAt i s = (case reservation_of s i of None \<Rightarrow> zeroReservation | Some r \<Rightarrow> r)"

definition batchGraphLocked :: "string \<Rightarrow> batch_store \<Rightarrow> batch_graph" where
  "batchGraphLocked k s =
     \<lparr>bg_operation = (case map_of (bt_operations s) k of None \<Rightarrow> zeroOperation | Some op \<Rightarrow> op), bg_inputs = cloneBatchInputs (inputs_of s k),
      bg_items = cloneBatchItems (rows (bt_items s) k), bg_evidence = cloneBatchEvidence (rows (bt_evidence s) k)\<rparr>"

section \<open>Creation\<close>

definition invalidBatch :: "string \<Rightarrow> error" where "invalidBatch t = ReservationErr ErrInvalidReservation t"

definition trimPrefix0x :: "string \<Rightarrow> string" where
  "trimPrefix0x v = (if take 2 v = ''0x'' then drop 2 v else v)"

text \<open>The source compares with \<^verbatim>\<open>strings.EqualFold\<close>. On ASCII text this is equality after lower-casing; the values are hashes, digests and commitments in
  hexadecimal. Letters outside ASCII that fold to an ASCII letter (the Kelvin sign, the long s) are not identified in the model.\<close>

definition equalNormalized :: "string \<Rightarrow> string \<Rightarrow> bool" where
  "equalNormalized left right = (ToLower (TrimSpace (trimPrefix0x left)) = ToLower (TrimSpace (trimPrefix0x right)))"

definition isCanonicalBatchFieldHex :: "string \<Rightarrow> bool" where
  "isCanonicalBatchFieldHex v =
     (if length v \<noteq> 64 \<or> v \<noteq> ToLower v then False else (case hexDecode v of None \<Rightarrow> False | Some decoded \<Rightarrow> canonical_field decoded))"

definition validBatchOutputRole :: "output_role \<Rightarrow> bool" where
  "validBatchOutputRole role = (role = BatchOutputRolePayment \<or> role = BatchOutputRoleChange \<or> role = BatchOutputRolePadding)"

definition validateBatchUserEvidence :: "batch_evidence \<Rightarrow> unit res" where
  "validateBatchUserEvidence e =
     bindE (guardE (\<not> ev_policy e > TransferPrivacyPolicyDiscloseAmountToFrom) (invalidBatch ''unsupported expected user privacy policy'')) (\<lambda>_.
     if ev_policy e = 0 then
       guardE (\<not> (ev_mode e \<noteq> 0 \<or> TrimSpace (ev_user_digest e) \<noteq> [])) (invalidBatch ''all-private output evidence must use NONE and an empty user digest'')
     else
       guardE (\<not> (ev_mode e \<noteq> 1 \<and> ev_mode e \<noteq> 2 \<or> TrimSpace (ev_user_digest e) = [])) (invalidBatch ''disclosed output evidence requires a mode and user digest''))"

fun validateBatchReservations :: "note_reservation list \<Rightarrow> string \<Rightarrow> string list \<Rightarrow> string list \<Rightarrow> 'm mem_store_scheme \<Rightarrow> unit res" where
  "validateBatchReservations [] k claimed keys s = Inr ()"
| "validateBatchReservations (r # rs) k claimed keys s =
     bindE (guardE (\<not> (nr_status r \<noteq> StatusReserved \<or> nr_operation r \<noteq> k)) (invalidBatch ''batch input reservation must be Reserved and linked to operation'')) (\<lambda>_.
     bindE (validateReservationCreateLocked r claimed keys s) (\<lambda>(claimed', keys'). validateBatchReservations rs k claimed' keys' s))"

fun validateBatchInputs :: "batch_input list \<Rightarrow> batch_operation \<Rightarrow> string list \<Rightarrow> int list \<Rightarrow> string list \<Rightarrow> unit res" where
  "validateBatchInputs [] op ids seenIndex seenReservation = Inr ()"
| "validateBatchInputs (x # xs) op ids seenIndex seenReservation =
     bindE (guardE (\<not> (in_schema x \<noteq> BatchOperationSchemaVersionV1 \<or> in_operation x \<noteq> bo_id op \<or> in_index x < 0 \<or> in_index x \<ge> bo_input_count op \<or>
       \<not> isCanonicalBatchFieldHex (in_commitment x))) (invalidBatch ''invalid batch operation input relation'')) (\<lambda>_.
     bindE (guardE (in_reservation x \<in> set ids) (invalidBatch ''batch operation input references an unknown reservation'')) (\<lambda>_.
     bindE (guardE (in_index x \<notin> set seenIndex) (invalidBatch ''duplicate batch input index'')) (\<lambda>_.
     bindE (guardE (in_reservation x \<notin> set seenReservation) (invalidBatch ''duplicate batch input reservation'')) (\<lambda>_.
     validateBatchInputs xs op ids (in_index x # seenIndex) (in_reservation x # seenReservation)))))"

fun validateBatchEvidence :: "batch_evidence list \<Rightarrow> batch_operation \<Rightarrow> int list \<Rightarrow> unit res" where
  "validateBatchEvidence [] op seen = Inr ()"
| "validateBatchEvidence (e # es) op seen =
     bindE (guardE (\<not> (ev_schema e \<noteq> BatchOperationSchemaVersionV1 \<or> ev_operation e \<noteq> bo_id op \<or> ev_index e < 0 \<or> ev_index e \<ge> bo_output_count op))
       (invalidBatch ''invalid expected output evidence relation'')) (\<lambda>_.
     bindE (guardE (\<not> (TrimSpace (ev_commitment e) = [] \<or> TrimSpace (ev_full_digest e) = [] \<or> TrimSpace (ev_asset e) = [] \<or> TrimSpace (ev_denom e) = []))
       (invalidBatch ''expected output evidence is incomplete'')) (\<lambda>_.
     bindE (validateBatchUserEvidence e) (\<lambda>_.
     bindE (guardE (ev_index e \<notin> set seen) (invalidBatch ''duplicate expected output evidence index'')) (\<lambda>_.
     validateBatchEvidence es op (ev_index e # seen)))))"

fun validateBatchItems :: "batch_item list \<Rightarrow> batch_operation \<Rightarrow> batch_evidence list \<Rightarrow> int list \<Rightarrow> unit res" where
  "validateBatchItems [] op es seen = Inr ()"
| "validateBatchItems (x # xs) op es seen =
     bindE (guardE (\<not> (it_schema x \<noteq> BatchOperationSchemaVersionV1 \<or> it_operation x \<noteq> bo_id op \<or> it_index x < 0 \<or> it_index x \<ge> bo_output_count op))
       (invalidBatch ''invalid payroll item output relation'')) (\<lambda>_.
     bindE (guardE (it_status x = BatchItemEvidencePending) (invalidBatch ''new payroll item evidence status must be Pending'')) (\<lambda>_.
     bindE (guardE (validBatchOutputRole (it_role x)) (invalidBatch ''unsupported batch output role'')) (\<lambda>_.
     bindE (guardE (\<not> (it_role x = BatchOutputRolePayment \<and> TrimSpace (it_item x) = [])) (invalidBatch ''payment output item_id is required'')) (\<lambda>_.
     bindE (guardE (\<not> (it_role x \<noteq> BatchOutputRolePayment \<and> TrimSpace (it_item x) \<noteq> [])) (invalidBatch ''change/padding output must not claim a payroll item'')) (\<lambda>_.
     bindE (guardE (it_index x \<notin> set seen) (invalidBatch ''duplicate payroll output index'')) (\<lambda>_.
     bindE (guardE (case map_of (map (\<lambda>e. (ev_index e, e)) es) (it_index x) of None \<Rightarrow> False | Some e \<Rightarrow> ev_role e = it_role x)
       (invalidBatch ''payroll output and expected evidence role mismatch'')) (\<lambda>_.
     validateBatchItems xs op es (it_index x # seen))))))))"

definition validateBatchGraphCreateLocked :: "note_reservation list \<Rightarrow> batch_graph \<Rightarrow> batch_store \<Rightarrow> unit res" where
  "validateBatchGraphCreateLocked reservations graph s =
     (let op = bg_operation graph in
      bindE (guardE (bo_schema op = BatchOperationSchemaVersionV1) (invalidBatch ''batch operation schema version'')) (\<lambda>_.
      bindE (guardE (TrimSpace (bo_id op) \<noteq> []) (invalidBatch ''batch operation_id is required'')) (\<lambda>_.
      bindE (guardE (map_of (bt_operations s) (bo_id op) = None) (invalidBatch ''batch operation already exists'')) (\<lambda>_.
      bindE (guardE (operation_of s (bo_id op) = None) (invalidBatch ''operation_id already exists in ordinary payroll operations'')) (\<lambda>_.
      bindE (guardE (bo_status op = OperationStatusPlanned) (invalidBatch ''new batch operation status must be Planned'')) (\<lambda>_.
      bindE (guardE (\<not> (length (bo_payload op) = 0 \<or> TrimSpace (bo_payload_hash op) = [])) (invalidBatch ''prepared batch payload must be durably attached before reservation'')) (\<lambda>_.
      bindE (guardE (\<not> (length reservations < 1 \<or> length reservations > 16 \<or> bo_input_count op \<noteq> int (length reservations)))
        (invalidBatch ''batch input reservations must be 1..16 and equal input_count'')) (\<lambda>_.
      bindE (guardE (\<not> (length (bg_items graph) < 1 \<or> length (bg_items graph) > 32 \<or> bo_output_count op \<noteq> int (length (bg_items graph))))
        (invalidBatch ''batch item outputs must be 1..32 and equal output_count'')) (\<lambda>_.
      bindE (guardE (\<not> (length (bg_inputs graph) \<noteq> length reservations \<or> length (bg_evidence graph) \<noteq> length (bg_items graph)))
        (invalidBatch ''batch graph relations must be complete'')) (\<lambda>_.
      bindE (validateBatchReservations reservations (bo_id op) [] [] s) (\<lambda>_.
      bindE (validateBatchInputs (bg_inputs graph) op (map nr_id reservations) [] []) (\<lambda>_.
      bindE (validateBatchEvidence (bg_evidence graph) op []) (\<lambda>_.
      validateBatchItems (bg_items graph) op (bg_evidence graph) [])))))))))))))"

definition CreateBatchOperation :: "note_reservation list \<Rightarrow> batch_graph \<Rightarrow> (batch_store, batch_graph) action" where
  "CreateBatchOperation reservations graph =
     (let k = bo_id (bg_operation graph) in
      bindM (readM (validateBatchGraphCreateLocked reservations graph)) (\<lambda>_.
      bindM (writeM (fold storeReservationLocked reservations)) (\<lambda>_.
      bindM (writeM (storeBatchOperation (bg_operation graph) k)) (\<lambda>_.
      bindM (writeM (\<lambda>s. s\<lparr>bt_inputs := AList.update k (cloneBatchInputs (bg_inputs graph)) (bt_inputs s),
        bt_items := AList.update k (cloneBatchItems (bg_items graph)) (bt_items s), bt_evidence := AList.update k (cloneBatchEvidence (bg_evidence graph)) (bt_evidence s)\<rparr>)) (\<lambda>_.
      readM (\<lambda>s. Inr (batchGraphLocked k s)))))))"

definition GetBatchOperation :: "string \<Rightarrow> (batch_store, batch_graph) action" where
  "GetBatchOperation k = bindM (readM (findBatch k)) (\<lambda>_. readM (\<lambda>s. Inr (batchGraphLocked k s)))"

section \<open>Leases\<close>

definition requireBatchLeaseLocked :: "string \<Rightarrow> string \<Rightarrow> time \<Rightarrow> batch_store \<Rightarrow> batch_operation res" where
  "requireBatchLeaseLocked k token now s =
     bindE (findBatch k s) (\<lambda>op.
     bindE (guardE (\<not> (TrimSpace token = [] \<or> bo_lease_token op \<noteq> token \<or> \<not> After (bo_lease_until op) now)) (ReservationErr ErrLeaseMismatch [])) (\<lambda>_.
     bindE (traverseE (\<lambda>x. bindE (findReservation (in_reservation x) s) (\<lambda>r. requireLeaseToken r token now)) (inputs_of s k)) (\<lambda>_. Inr op)))"

definition batchInputReservationsLocked :: "string \<Rightarrow> batch_store \<Rightarrow> note_reservation list res" where
  "batchInputReservationsLocked k s = traverseE (\<lambda>x. findReservation (in_reservation x) s) (inputs_of s k)"

definition leaseBatchInput :: "string \<Rightarrow> string \<Rightarrow> time \<Rightarrow> time \<Rightarrow> note_reservation \<Rightarrow> note_reservation" where
  "leaseBatchInput owner token leaseUntil now r =
     r\<lparr>nr_lease_owner := owner, nr_lease_token := token, nr_lease_until := leaseUntil, nr_heartbeat := now, nr_updated := now\<rparr>"

definition AcquireBatchOperationLease :: "string \<Rightarrow> string \<Rightarrow> string \<Rightarrow> time \<Rightarrow> time \<Rightarrow> (batch_store, batch_operation) action" where
  "AcquireBatchOperationLease k owner token leaseUntil now =
     bindM (readM (findBatch k)) (\<lambda>op.
     bindM (guardM (\<not> (TrimSpace owner = [] \<or> TrimSpace token = [] \<or> \<not> After leaseUntil now)) (ReservationErr ErrLeaseUnavailable [])) (\<lambda>_.
     bindM (guardM (\<not> (bo_lease_token op \<noteq> [] \<and> After (bo_lease_until op) now)) (ReservationErr ErrLeaseUnavailable [])) (\<lambda>_.
     bindM (guardM (\<not> IsTerminalOperationStatus (bo_status op)) (ReservationErr ErrLeaseUnavailable [])) (\<lambda>_.
     bindM (readM (batchInputReservationsLocked k)) (\<lambda>rs.
     bindM (guardM (list_all (\<lambda>r. IsActiveReservationStatus (nr_status r) \<and> \<not> (nr_lease_token r \<noteq> [] \<and> After (nr_lease_until r) now)) rs) (ReservationErr ErrLeaseUnavailable [])) (\<lambda>_.
     let op' = op\<lparr>bo_lease_owner := owner, bo_lease_token := token, bo_lease_until := leaseUntil, bo_heartbeat := now, bo_updated := now\<rparr> in
     bindM (writeM (storeBatchOperation op' k)) (\<lambda>_.
     bindM (writeM (fold storeReservationLocked (map (leaseBatchInput owner token leaseUntil now) rs))) (\<lambda>_. retM op'))))))))"

definition HeartbeatBatchOperationLease :: "string \<Rightarrow> string \<Rightarrow> time \<Rightarrow> time \<Rightarrow> (batch_store, batch_operation) action" where
  "HeartbeatBatchOperationLease k token leaseUntil now =
     bindM (readM (requireBatchLeaseLocked k token now)) (\<lambda>op.
     bindM (guardM (After leaseUntil now) (ReservationErr ErrLeaseUnavailable [])) (\<lambda>_.
     bindM (readM (\<lambda>s. traverseE (\<lambda>x. let r = reservationAt (in_reservation x) s in bindE (requireLeaseToken r token now) (\<lambda>_. Inr r)) (inputs_of s k))) (\<lambda>rs.
     let latestHeartbeatAt = fold max (map nr_heartbeat rs) (bo_heartbeat op); effective = fold max (map nr_lease_until rs) (bo_lease_until op) in
     if now < latestHeartbeatAt then retM op
     else
       let effectiveLeaseUntil = max leaseUntil effective;
           op' = op\<lparr>bo_lease_until := effectiveLeaseUntil, bo_heartbeat := now, bo_updated := now\<rparr> in
       bindM (writeM (storeBatchOperation op' k)) (\<lambda>_.
       bindM (writeM (fold storeReservationLocked (map (beat effectiveLeaseUntil now) rs))) (\<lambda>_. retM op')))))"

definition clearBatchOperationLease :: "batch_operation \<Rightarrow> batch_operation" where
  "clearBatchOperationLease op = op\<lparr>bo_lease_owner := [], bo_lease_token := [], bo_lease_until := zeroTime\<rparr>"

definition clearInputLease :: "time \<Rightarrow> batch_input \<Rightarrow> batch_store \<Rightarrow> batch_store" where
  "clearInputLease now x s =
     (case reservation_of s (in_reservation x) of None \<Rightarrow> s | Some r \<Rightarrow> storeReservationLocked ((clearReservationLeaseFields r)\<lparr>nr_updated := now\<rparr>) s)"

definition clearBatchInputLeasesLocked :: "string \<Rightarrow> time \<Rightarrow> batch_store \<Rightarrow> batch_store" where
  "clearBatchInputLeasesLocked k now s = fold (clearInputLease now) (inputs_of s k) s"

definition ReleaseBatchOperationLease :: "string \<Rightarrow> string \<Rightarrow> time \<Rightarrow> (batch_store, batch_operation) action" where
  "ReleaseBatchOperationLease k token now =
     bindM (readM (requireBatchLeaseLocked k token now)) (\<lambda>op.
     let op' = (clearBatchOperationLease op)\<lparr>bo_updated := now\<rparr> in
     bindM (writeM (clearBatchInputLeasesLocked k now)) (\<lambda>_.
     bindM (writeM (storeBatchOperation op' k)) (\<lambda>_. retM op')))"

section \<open>Progress of an operation\<close>

definition transitionInput :: "reservation_status \<Rightarrow> time \<Rightarrow> note_reservation \<Rightarrow> note_reservation" where
  "transitionInput to now r =
     (let r = r\<lparr>nr_status := to\<rparr>; r = (if IsTerminalReservationStatus to then clearReservationLeaseFields r else r) in r\<lparr>nr_updated := now\<rparr>)"

definition transitionBatchInputReservationsExactLocked ::
  "string \<Rightarrow> reservation_status \<Rightarrow> reservation_status \<Rightarrow> string \<Rightarrow> time \<Rightarrow> (batch_store, unit) action" where
  "transitionBatchInputReservationsExactLocked k from to leaseToken now =
     bindM (readM (batchInputReservationsLocked k)) (\<lambda>rs.
     bindM (readM (\<lambda>_. traverseE (\<lambda>r.
       bindE (guardE (nr_status r = from) (ReservationErr ErrCompareAndSetFailed [])) (\<lambda>_.
       bindE (requireLeaseToken r leaseToken now) (\<lambda>_.
       guardE (CanTransitionReservation from to) (ReservationErr ErrInvalidTransition [])))) rs)) (\<lambda>_.
     writeM (fold storeReservationLocked (map (transitionInput to now) rs))))"

definition canCompareAndSetBatchOperation :: "operation_status \<Rightarrow> operation_status \<Rightarrow> bool" where
  "canCompareAndSetBatchOperation from to =
     (from = OperationStatusPlanned \<and> to = OperationStatusProving \<or> from = OperationStatusProving \<and> to = OperationStatusPlanned)"

definition transitionBatchInputReservationsLocked ::
  "string \<Rightarrow> operation_status \<Rightarrow> operation_status \<Rightarrow> string \<Rightarrow> time \<Rightarrow> (batch_store, unit) action" where
  "transitionBatchInputReservationsLocked k from to leaseToken now =
     (if from = OperationStatusPlanned \<and> to = OperationStatusProving then transitionBatchInputReservationsExactLocked k StatusReserved StatusProving leaseToken now
      else if from = OperationStatusProving \<and> to = OperationStatusPlanned then transitionBatchInputReservationsExactLocked k StatusProving StatusReserved leaseToken now
      else failM (ReservationErr ErrInvalidTransition []))"

definition CompareAndSetBatchOperationStatus :: "string \<Rightarrow> string \<Rightarrow> operation_status \<Rightarrow> operation_status \<Rightarrow> time \<Rightarrow> (batch_store, batch_operation) action" where
  "CompareAndSetBatchOperationStatus k leaseToken from to now =
     bindM (readM (requireBatchLeaseLocked k leaseToken now)) (\<lambda>op.
     bindM (guardM (bo_status op = from) (ReservationErr ErrCompareAndSetFailed [])) (\<lambda>_.
     bindM (guardM (to \<notin> set [OperationStatusProofReady, OperationStatusSubmitted, OperationStatusUnknown])
       (ReservationErr ErrInvalidTransition ''use the durable proof/broadcast transition'')) (\<lambda>_.
     bindM (guardM (canCompareAndSetBatchOperation from to) (ReservationErr ErrInvalidTransition [])) (\<lambda>_.
     bindM (transitionBatchInputReservationsLocked k from to leaseToken now) (\<lambda>_.
     let op' = op\<lparr>bo_status := to, bo_updated := now\<rparr>;
         clear = (IsTerminalOperationStatus to \<or> to = OperationStatusPlanned \<or> to = OperationStatusReplanRequired \<or> to = OperationStatusManualReview);
         op' = (if clear then clearBatchOperationLease op' else op') in
     bindM (writeM (\<lambda>s. if clear then clearBatchInputLeasesLocked k now s else s)) (\<lambda>_.
     bindM (writeM (storeBatchOperation op' k)) (\<lambda>_. retM op')))))))"

definition PrepareBatchOperationResign :: "string \<Rightarrow> string \<Rightarrow> string \<Rightarrow> u32 \<Rightarrow> time \<Rightarrow> (batch_store, batch_operation) action" where
  "PrepareBatchOperationResign k leaseToken failedTxHash failureCode now =
     bindM (readM (requireBatchLeaseLocked k leaseToken now)) (\<lambda>op.
     bindM (guardM (\<not> (failureCode = 0 \<or> TrimSpace failedTxHash = [] \<or> \<not> equalNormalized (bo_tx_hash op) failedTxHash))
       (invalidBatch ''confirmed failed transaction evidence does not match the current batch transaction'')) (\<lambda>_.
     bindM (guardM (\<not> (bo_status op \<noteq> OperationStatusSubmitted \<and> bo_status op \<noteq> OperationStatusUnknown)) (ReservationErr ErrCompareAndSetFailed [])) (\<lambda>_.
     bindM (if bo_status op = OperationStatusSubmitted then transitionBatchInputReservationsExactLocked k StatusSubmitted StatusUnknown leaseToken now else retM ()) (\<lambda>_.
     let op' = op\<lparr>bo_status := OperationStatusUnknown,
       bo_last_error := ''confirmed batch transaction failed with code '' @ dec_string (unat failureCode) @ ''; explicit re-sign authorized'', bo_updated := now\<rparr> in
     bindM (writeM (storeBatchOperation op' k)) (\<lambda>_. retM op')))))"

definition SaveBatchProofArtifacts :: "string \<Rightarrow> string \<Rightarrow> proof_artifact \<Rightarrow> time \<Rightarrow> (batch_store, batch_operation) action" where
  "SaveBatchProofArtifacts k leaseToken u now =
     bindM (readM (requireBatchLeaseLocked k leaseToken now)) (\<lambda>op.
     bindM (guardM (bo_status op = OperationStatusProving) (ReservationErr ErrCompareAndSetFailed [])) (\<lambda>_.
     bindM (guardM (\<not> (length (pa_proof u) = 0 \<or> TrimSpace (pa_proof_hash u) = [])) (invalidBatch ''proof artifact is required'')) (\<lambda>_.
     let replaces = (length (pa_payload u) \<noteq> 0 \<or> TrimSpace (pa_payload_hash u) \<noteq> []) in
     bindM (guardM (\<not> (replaces \<and> (length (pa_payload u) = 0 \<or> \<not> equalNormalized (bo_payload_hash op) (pa_payload_hash u))))
       (invalidBatch ''prepared payload artifact does not match the reserved operation'')) (\<lambda>_.
     let op = (if replaces then op\<lparr>bo_payload := pa_payload u\<rparr> else op);
         op = op\<lparr>bo_proof := pa_proof u, bo_proof_hash := pa_proof_hash u, bo_status := OperationStatusProofReady, bo_updated := now\<rparr> in
     bindM (transitionBatchInputReservationsExactLocked k StatusProving StatusProofReady leaseToken now) (\<lambda>_.
     bindM (writeM (clearBatchInputLeasesLocked k now)) (\<lambda>_.
     bindM (writeM (storeBatchOperation (clearBatchOperationLease op) k)) (\<lambda>_. retM (clearBatchOperationLease op))))))))"

definition SaveBatchSignedTx :: "string \<Rightarrow> string \<Rightarrow> signed_tx \<Rightarrow> time \<Rightarrow> (batch_store, batch_operation) action" where
  "SaveBatchSignedTx k leaseToken u now =
     bindM (readM (requireBatchLeaseLocked k leaseToken now)) (\<lambda>op.
     bindM (guardM (\<not> (bo_status op \<noteq> OperationStatusProofReady \<and> bo_status op \<noteq> OperationStatusSubmitted \<and> bo_status op \<noteq> OperationStatusUnknown))
       (ReservationErr ErrCompareAndSetFailed [])) (\<lambda>_.
     bindM (guardM (\<not> (length (st_signed u) = 0 \<or> TrimSpace (st_tx_bytes_hash u) = [] \<or> TrimSpace (st_tx_hash u) = []))
       (invalidBatch ''signed tx bytes, bytes hash, and tx hash are required'')) (\<lambda>_.
     bindM (guardM (\<not> (bo_tx_bytes_hash op \<noteq> [] \<and> \<not> equalNormalized (bo_tx_bytes_hash op) (st_tx_bytes_hash u) \<and> bo_status op \<noteq> OperationStatusUnknown))
       (invalidBatch ''new signed bytes require an Unknown operation after explicit chain reconciliation'')) (\<lambda>_.
     let op' = op\<lparr>bo_signed := st_signed u, bo_tx_bytes_hash := st_tx_bytes_hash u, bo_sign_doc_hash := st_sign_doc_hash u, bo_tx_hash := st_tx_hash u,
       bo_sequence := st_sequence u, bo_updated := now\<rparr> in
     bindM (writeM (storeBatchOperation op' k)) (\<lambda>_. retM op')))))"

definition staged :: "'u signed_tx_scheme \<Rightarrow> batch_operation \<Rightarrow> batch_operation" where
  "staged u op =
     op\<lparr>bo_signed := st_signed u, bo_tx_bytes_hash := st_tx_bytes_hash u, bo_sign_doc_hash := st_sign_doc_hash u, bo_tx_hash := st_tx_hash u, bo_sequence := st_sequence u\<rparr>"

definition broadcastTarget :: "string \<Rightarrow> string \<Rightarrow> batch_broadcast \<Rightarrow> batch_operation \<Rightarrow> time \<Rightarrow> (batch_store, batch_operation) action" where
  "broadcastTarget k leaseToken u op now =
     (if bo_tx_bytes_hash op \<noteq> [] then
        let sameSignedBytes = equalNormalized (bo_tx_bytes_hash op) (st_tx_bytes_hash u) in
        bindM (guardM (\<not> (\<not> sameSignedBytes \<and> bo_status op \<noteq> OperationStatusUnknown)) (invalidBatch ''new signed bytes require an Unknown operation'')) (\<lambda>_.
        let op' = (if \<not> sameSignedBytes then staged u op else if bo_tx_hash op = [] then op\<lparr>bo_tx_hash := st_tx_hash u\<rparr> else op) in
        retM (op'\<lparr>bo_status := (if bb_unknown u \<or> bo_status op = OperationStatusUnknown then OperationStatusUnknown else OperationStatusSubmitted)\<rparr>))
      else
        bindM (guardM (bo_status op = OperationStatusProofReady) (ReservationErr ErrCompareAndSetFailed [])) (\<lambda>_.
        bindM (transitionBatchInputReservationsExactLocked k StatusProofReady (if bb_unknown u then StatusUnknown else StatusSubmitted) leaseToken now) (\<lambda>_.
        retM ((staged u op)\<lparr>bo_status := (if bb_unknown u then OperationStatusUnknown else OperationStatusSubmitted)\<rparr>))))"

definition RecordBatchBroadcast :: "string \<Rightarrow> string \<Rightarrow> batch_broadcast \<Rightarrow> time \<Rightarrow> (batch_store, batch_operation) action" where
  "RecordBatchBroadcast k leaseToken u now =
     bindM (readM (requireBatchLeaseLocked k leaseToken now)) (\<lambda>op.
     bindM (guardM (\<not> (TrimSpace (st_tx_bytes_hash u) = [] \<or> length (bo_signed op) = 0 \<or> \<not> equalNormalized (bo_tx_bytes_hash op) (st_tx_bytes_hash u) \<or>
         \<not> equalNormalized (bo_tx_hash op) (st_tx_hash u))) (invalidBatch ''broadcast must reference the durably staged signed tx'')) (\<lambda>_.
     bindM (broadcastTarget k leaseToken u op now) (\<lambda>op1.
     let previous = bo_status op;
         op2 = op1\<lparr>bo_attempts := bo_attempts op1 + 1, bo_last_broadcast := now, bo_last_error := bb_error u,
           bo_history := bo_history op1 @ [\<lparr>at_signed = bo_signed op1, at_tx_bytes_hash = st_tx_bytes_hash u, at_sign_doc_hash = st_sign_doc_hash u, at_tx_hash = st_tx_hash u,
             at_sequence = st_sequence u, at_time = now, at_error = bb_error u, at_unknown = bb_unknown u\<rparr>]\<rparr> in
     bindM (if previous = OperationStatusProofReady \<and> bo_status op2 = OperationStatusSubmitted then
              transitionBatchInputReservationsExactLocked k StatusProofReady StatusSubmitted leaseToken now
            else if previous = OperationStatusProofReady \<and> bo_status op2 = OperationStatusUnknown then
              transitionBatchInputReservationsExactLocked k StatusProofReady StatusUnknown leaseToken now
            else if previous = OperationStatusSubmitted \<and> bo_status op2 = OperationStatusUnknown then
              transitionBatchInputReservationsExactLocked k StatusSubmitted StatusUnknown leaseToken now
            else retM ()) (\<lambda>_.
     let op3 = (clearBatchOperationLease op2)\<lparr>bo_updated := now\<rparr> in
     bindM (writeM (clearBatchInputLeasesLocked k now)) (\<lambda>_.
     bindM (writeM (storeBatchOperation op3 k)) (\<lambda>_. retM op3))))))"

section \<open>Reconciliation\<close>

definition batchTerminalReconcileConflictReason :: string where
  "batchTerminalReconcileConflictReason = ''terminal batch reconciliation contradicts the prior terminal outcome''"

definition historicalAttempt :: "batch_operation \<Rightarrow> batch_reconcile \<Rightarrow> batch_attempt option res" where
  "historicalAttempt op u =
     (if bo_tx_hash op \<noteq> [] \<and> br_tx_hash u \<noteq> [] \<and> \<not> equalNormalized (bo_tx_hash op) (br_tx_hash u) then
        (case List.find (\<lambda>a. equalNormalized (at_tx_hash a) (br_tx_hash u)) (bo_history op) of
           None \<Rightarrow> Inl (invalidBatch ''reconcile tx hash does not match a stored broadcast candidate'')
         | Some a \<Rightarrow>
             bindE (guardE (\<not> (length (at_signed a) = 0 \<or> TrimSpace (at_tx_bytes_hash a) = []))
               (invalidBatch ''historical broadcast candidate is missing its signed transaction artifact'')) (\<lambda>_. Inr (Some a)))
      else Inr None)"

fun checkSpent :: "string list \<Rightarrow> string list \<Rightarrow> string list \<Rightarrow> unit res" where
  "checkSpent [] inputIDs seen = Inr ()"
| "checkSpent (i # ids) inputIDs seen =
     bindE (guardE (i \<in> set inputIDs) (invalidBatch ''reconcile references a reservation outside the batch'')) (\<lambda>_.
     bindE (guardE (i \<notin> set seen) (invalidBatch ''duplicate spent reservation evidence'')) (\<lambda>_. checkSpent ids inputIDs (i # seen)))"

fun checkObserved :: "observed_output list \<Rightarrow> int \<Rightarrow> int list \<Rightarrow> unit res" where
  "checkObserved [] count seen = Inr ()"
| "checkObserved (x # xs) count seen =
     bindE (guardE (\<not> (ob_index x < 0 \<or> ob_index x \<ge> count)) (invalidBatch ''observed output index is outside the batch'')) (\<lambda>_.
     bindE (guardE (ob_index x \<notin> set seen) (invalidBatch ''duplicate observed output evidence'')) (\<lambda>_. checkObserved xs count (ob_index x # seen)))"

text \<open>The status that the evidence asks for, whether it contradicts a terminal status, and the status that is stored then.\<close>

definition requestedStatus :: "batch_reconcile \<Rightarrow> nat \<Rightarrow> operation_status" where
  "requestedStatus u inputs =
     (if br_succeeded u \<and> length (br_spent u) = inputs then OperationStatusSucceeded
      else if br_failed u \<and> length (br_spent u) = 0 then OperationStatusFailed else OperationStatusManualReview)"

definition terminalConflict :: "batch_operation \<Rightarrow> batch_reconcile \<Rightarrow> nat \<Rightarrow> bool" where
  "terminalConflict op u inputs = (IsTerminalOperationStatus (bo_status op) \<and> requestedStatus u inputs \<noteq> bo_status op)"

definition reconciledStatus :: "batch_operation \<Rightarrow> batch_reconcile \<Rightarrow> nat \<Rightarrow> operation_status" where
  "reconciledStatus op u inputs =
     (if terminalConflict op u inputs then
        (if bo_status op = OperationStatusConflictSpent \<or> bo_status op = OperationStatusFailed \<and> length (br_spent u) > 0 then OperationStatusConflictSpent
         else OperationStatusManualReview)
      else requestedStatus u inputs)"

definition reconcileInput :: "batch_reconcile \<Rightarrow> bool \<Rightarrow> time \<Rightarrow> batch_input \<Rightarrow> batch_store \<Rightarrow> batch_store" where
  "reconcileInput u conflict now x s =
     (let r = reservationAt (in_reservation x) s in
      if in_reservation x \<in> set (br_spent u) then
        storeReservationLocked ((clearLeaseForStatusTransition StatusConfirmedSpent (r\<lparr>nr_status := StatusConfirmedSpent\<rparr>))\<lparr>nr_updated := now\<rparr>) s
      else if \<not> conflict \<and> br_failed u \<and> IsActiveReservationStatus (nr_status r) then
        storeReservationLocked ((clearLeaseForStatusTransition StatusReplanRequired (r\<lparr>nr_status := StatusReplanRequired\<rparr>))\<lparr>nr_updated := now\<rparr>) s
      else s)"

definition observedOutputMatches :: "batch_evidence \<Rightarrow> observed_output \<Rightarrow> bool" where
  "observedOutputMatches e x =
     (equalNormalized (ev_commitment e) (ob_commitment x) \<and> equalNormalized (ev_full_digest e) (ob_full_digest x) \<and>
      equalNormalized (ev_user_digest e) (ob_user_digest x) \<and> (ev_recipient_hash e = [] \<or> equalNormalized (ev_recipient_hash e) (ob_recipient_hash x)))"

definition judgeItem :: "batch_reconcile \<Rightarrow> batch_evidence \<Rightarrow> observed_output option \<Rightarrow> batch_item \<Rightarrow> batch_item" where
  "judgeItem u expected seen x =
     (if \<not> br_succeeded u then
        (if br_failed u then x\<lparr>it_status := BatchItemEvidenceFailed, it_reason := []\<rparr>
         else if length (br_spent u) > 0 then
           x\<lparr>it_status := BatchItemEvidenceManualReview, it_reason := ''input nullifier spent without confirmed batch tx evidence''\<rparr>
         else x\<lparr>it_reason := []\<rparr>)
      else
        case seen of
          None \<Rightarrow>
            if it_status x = BatchItemEvidenceSucceeded \<or> it_status x = BatchItemEvidenceManualReview then x
            else x\<lparr>it_status := BatchItemEvidenceManualReview, it_reason := ''expected output evidence is missing''\<rparr>
        | Some y \<Rightarrow>
            if \<not> observedOutputMatches expected y then
              x\<lparr>it_status := BatchItemEvidenceManualReview, it_reason := ''observed output evidence does not match the expected commitment/disclosure''\<rparr>
            else if ob_audit_failed y \<or> ob_self_failed y then
              x\<lparr>it_status := BatchItemEvidenceManualReview, it_reason := ''disclosure delivery requires manual review''\<rparr>
            else x\<lparr>it_status := BatchItemEvidenceSucceeded, it_reason := []\<rparr>)"

definition recordSeen :: "observed_output \<Rightarrow> time \<Rightarrow> batch_evidence \<Rightarrow> batch_evidence" where
  "recordSeen y now e =
     e\<lparr>ev_seen_commitment := ob_commitment y, ev_seen_user := ob_user_digest y, ev_seen_full := ob_full_digest y, ev_seen_recipient := ob_recipient_hash y,
       ev_audit_failed := ob_audit_failed y, ev_self_failed := ob_self_failed y, ev_updated := now\<rparr>"

text \<open>The position of the evidence of an output; a missing entry of the Go map is the position 0.\<close>

definition evidencePosition :: "batch_evidence list \<Rightarrow> int \<Rightarrow> nat" where
  "evidencePosition es i = (case filter (\<lambda>p. ev_index (es ! p) = i) [0..<length es] of [] \<Rightarrow> 0 | ps \<Rightarrow> last ps)"

fun reconcileItems :: "batch_reconcile \<Rightarrow> bool \<Rightarrow> time \<Rightarrow> batch_item list \<Rightarrow> batch_evidence list \<Rightarrow> batch_item list \<times> batch_evidence list" where
  "reconcileItems u conflict now [] es = ([], es)"
| "reconcileItems u conflict now (x # xs) es =
     (if conflict then
        (let (ys, fs) = reconcileItems u conflict now xs es
         in (x\<lparr>it_status := BatchItemEvidenceManualReview, it_reason := batchTerminalReconcileConflictReason, it_updated := now\<rparr> # ys, fs))
      else
        let p = evidencePosition es (it_index x); seen = List.find (\<lambda>y. ob_index y = it_index x) (br_observed u);
            x' = (judgeItem u (es ! p) seen x)\<lparr>it_updated := now\<rparr>;
            es' = (case seen of None \<Rightarrow> es | Some y \<Rightarrow> es[p := recordSeen y now (es ! p)]);
            (ys, fs) = reconcileItems u conflict now xs es'
        in (x' # ys, fs))"

definition reconciledOperation :: "batch_operation \<Rightarrow> batch_reconcile \<Rightarrow> batch_attempt option \<Rightarrow> nat \<Rightarrow> time \<Rightarrow> batch_operation" where
  "reconciledOperation op u attempt inputs now =
     (let op = (if br_tx_hash u = [] then op
                else (case attempt of None \<Rightarrow> op
                      | Some a \<Rightarrow> op\<lparr>bo_signed := at_signed a, bo_tx_bytes_hash := at_tx_bytes_hash a, bo_sign_doc_hash := at_sign_doc_hash a, bo_sequence := at_sequence a\<rparr>)
                  \<lparr>bo_tx_hash := br_tx_hash u\<rparr>);
          reason = TrimSpace (br_reason u);
          text = (if terminalConflict op u inputs then
              (if reason = [] then batchTerminalReconcileConflictReason else batchTerminalReconcileConflictReason @ '': '' @ reason) else reason)
      in clearBatchOperationLease (op\<lparr>bo_status := reconciledStatus op u inputs, bo_last_error := text, bo_updated := now\<rparr>))"

definition ReconcileBatchOperation :: "string \<Rightarrow> batch_reconcile \<Rightarrow> time \<Rightarrow> (batch_store, batch_graph) action" where
  "ReconcileBatchOperation k u now =
     bindM (readM (findBatch k)) (\<lambda>op.
     bindM (readM (\<lambda>_. historicalAttempt op u)) (\<lambda>attempt.
     bindM (guardM (\<not> (br_succeeded u \<and> br_failed u)) (invalidBatch ''tx cannot be both succeeded and failed'')) (\<lambda>_.
     bindM (readM (\<lambda>s. checkSpent (br_spent u) (map in_reservation (inputs_of s k)) [])) (\<lambda>_.
     bindM (readM (\<lambda>_. checkObserved (br_observed u) (bo_output_count op) [])) (\<lambda>_.
     bindM (writeM (\<lambda>s.
       let inputs = inputs_of s k; conflict = terminalConflict op u (length inputs);
           (items, evidence) = reconcileItems u conflict now (cloneBatchItems (rows (bt_items s) k)) (cloneBatchEvidence (rows (bt_evidence s) k));
           s = fold (reconcileInput u conflict now) inputs s;
           s = clearBatchInputLeasesLocked k now s;
           s = storeBatchOperation (reconciledOperation op u attempt (length inputs) now) k s
       in s\<lparr>bt_items := AList.update k (cloneBatchItems items) (bt_items s), bt_evidence := AList.update k (cloneBatchEvidence evidence) (bt_evidence s)\<rparr>)) (\<lambda>_.
     readM (\<lambda>s. Inr (batchGraphLocked k s))))))))"

end
