(* ===== verification/Reservation_Batch_Runs.thy ===== *)
theory Reservation_Batch_Runs
  imports Reservation_Batch
begin

text \<open>
  Runs that mix the methods on single reservations with those on batch operations.
\<close>

section \<open>Invariant\<close>

text \<open>The first argument is the set of reservations that \<open>UpdateReservation\<close> may have overwritten, whose link to the operation is the caller's business.\<close>

definition batch_inv :: "string set \<Rightarrow> batch_store \<Rightarrow> bool" where
  "batch_inv U s =
     (mem_inv s \<and> (\<forall>k. distinct (map in_reservation (inputs_of s k)) \<and>
        (\<forall>x \<in> set (inputs_of s k). \<exists>r. reservation_of s (in_reservation x) = Some r \<and> (in_reservation x \<in> U \<or> nr_operation r = k))))"

definition newBatchStore :: batch_store where
  "newBatchStore = mem_store.extend NewMemoryStore (batch_store.fields [] [] [] [])"

lemma new_batch_inv: "batch_inv U newBatchStore"
  by (simp add: batch_inv_def mem_inv_def newBatchStore_def NewMemoryStore_def mem_store.extend_def batch_store.fields_def rows_def)

text \<open>Writing reservations and operations leaves the relations of batches alone.\<close>

lemma store_batches [simp]:
  "bt_operations (storeReservationLocked r s) = bt_operations s" "bt_inputs (storeReservationLocked r s) = bt_inputs s"
  "bt_items (storeReservationLocked r s) = bt_items s" "bt_evidence (storeReservationLocked r s) = bt_evidence s"
  "bt_items (storeOperation p s) = bt_items s" "bt_evidence (storeOperation p s) = bt_evidence s"
  "bt_operations (storeOperation p s) = bt_operations s" "bt_inputs (storeOperation p s) = bt_inputs s"
  by (simp_all add: storeReservationLocked_def storeOperation_def Let_def)

lemma stores_batches [simp]:
  "bt_items (fold storeReservationLocked us s) = bt_items s" "bt_evidence (fold storeReservationLocked us s) = bt_evidence s"
  "bt_items (fold storeOperation ps s) = bt_items s" "bt_evidence (fold storeOperation ps s) = bt_evidence s"
  "bt_operations (fold storeReservationLocked us s) = bt_operations s" "bt_inputs (fold storeReservationLocked us s) = bt_inputs s"
  "bt_operations (fold storeOperation ps s) = bt_operations s" "bt_inputs (fold storeOperation ps s) = bt_inputs s"
  by (induction us arbitrary: s; induction ps arbitrary: s; simp)+

lemma batch_lookup [simp]:
  "reservation_of (storeBatchOperation op k s) = reservation_of s" "bt_inputs (storeBatchOperation op k s) = bt_inputs s" "ms_active (storeBatchOperation op k s) = ms_active s"
  "mem_inv (storeBatchOperation op k s) = mem_inv s"
  by (simp_all add: storeBatchOperation_def mem_inv_def)

text \<open>What a batch command may do to a reservation: a step of the table, or a confirmed spend.\<close>

definition batch_change :: "note_reservation \<Rightarrow> note_reservation \<Rightarrow> bool" where
  "batch_change r q =
     (nr_id q = nr_id r \<and> ActiveKey q = ActiveKey r \<and> nr_operation q = nr_operation r \<and>
      (nr_status q = nr_status r \<or> CanTransitionReservation (nr_status r) (nr_status q) \<or> nr_status q = StatusConfirmedSpent))"

text \<open>A state change that keeps the invariant of the reservations and moves each of them along \<open>batch_change\<close>.\<close>

definition evolves :: "batch_store \<Rightarrow> batch_store \<Rightarrow> bool" where
  "evolves s t = (mem_inv t \<and> (\<forall>i r. reservation_of s i = Some r \<longrightarrow> (\<exists>q. reservation_of t i = Some q \<and> batch_change\<^sup>*\<^sup>* r q)))"

lemma evolves_refl: "mem_inv s \<Longrightarrow> evolves s s"
  by (auto simp: evolves_def)

lemma evolves_trans: "evolves s t \<Longrightarrow> evolves t u \<Longrightarrow> evolves s u"
  unfolding evolves_def by (meson rtranclp_trans)

lemma evolves_same: "evolves s t \<Longrightarrow> mem_inv u \<Longrightarrow> reservation_of u = reservation_of t \<Longrightarrow> evolves s u"
  by (simp add: evolves_def)

lemma changes_operation: "batch_change\<^sup>*\<^sup>* r q \<Longrightarrow> nr_operation q = nr_operation r \<and> nr_id q = nr_id r \<and> ActiveKey q = ActiveKey r"
  by (induction rule: rtranclp_induct) (auto simp: batch_change_def)

lemma evolves_inv:
  assumes "batch_inv U s" "evolves s t" "\<And>k. inputs_of t k = inputs_of s k"
  shows "batch_inv U t"
  using assms changes_operation unfolding batch_inv_def evolves_def by metis

lemma store_evolves:
  assumes "mem_inv s" "reservation_of s (nr_id u) = Some r" "batch_change r u" "IsActiveReservationStatus (nr_status u) \<Longrightarrow> IsActiveReservationStatus (nr_status r)"
  shows "evolves s (storeReservationLocked u s)"
proof -
  have "key_free s u" using assms key_free_same [OF assms(1,2)] key_free_inactive [of u s] by (auto simp: batch_change_def)
  then show ?thesis using store_inv [OF assms(1)] assms(2,3) by (auto simp: evolves_def)
qed

text \<open>The inputs of a batch change together.\<close>

lemma stores_evolve:
  assumes "mem_inv s" "\<forall>r \<in> set rs. reservation_of s (nr_id r) = Some r" "distinct (map nr_id rs)"
    "\<And>r. r \<in> set rs \<Longrightarrow> nr_id (f r) = nr_id r \<and> batch_change r (f r) \<and> (IsActiveReservationStatus (nr_status (f r)) \<longrightarrow> IsActiveReservationStatus (nr_status r))"
  shows "evolves s (fold storeReservationLocked (map f rs) s)"
  using assms
proof (induction rs arbitrary: s)
  case (Cons r rs)
  let ?s = "storeReservationLocked (f r) s"
  have fr: "nr_id (f r) = nr_id r" "batch_change r (f r)" "IsActiveReservationStatus (nr_status (f r)) \<Longrightarrow> IsActiveReservationStatus (nr_status r)"
    using Cons.prems(4) [of r] by simp_all
  have "reservation_of s (nr_id (f r)) = Some r" using Cons.prems(2) fr(1) by simp
  then have one: "evolves s ?s" by (rule store_evolves [OF Cons.prems(1) _ fr(2,3)])
  have "reservation_of ?s (nr_id q) = Some q" if "q \<in> set rs" for q
  proof -
    have "nr_id q \<noteq> nr_id r" using Cons.prems(3) that by (metis distinct.simps(2) image_eqI list.set_map list.simps(9))
    then show ?thesis using Cons.prems(2) that fr(1) by simp
  qed
  then have "evolves ?s (fold storeReservationLocked (map f rs) ?s)" using Cons.IH [of ?s] Cons.prems one by (simp add: evolves_def)
  then show ?case using evolves_trans [OF one] by simp
qed (simp add: evolves_refl)

lemma inputs_found:
  assumes "batchInputReservationsLocked k s = Inr rs" "batch_inv U s"
  shows "\<forall>r \<in> set rs. reservation_of s (nr_id r) = Some r" "map nr_id rs = map in_reservation (inputs_of s k)" "distinct (map nr_id rs)"
proof -
  have all: "list_all2 (\<lambda>x r. reservation_of s (in_reservation x) = Some r) (inputs_of s k) rs"
    using assms(1) by (simp add: batchInputReservationsLocked_def traverseE_Inr_iff find_ok)
  have inv: "mem_inv s" "distinct (map in_reservation (inputs_of s k))" using assms(2) by (auto simp: batch_inv_def)
  have "nr_id (rs ! n) = in_reservation (inputs_of s k ! n) \<and> reservation_of s (nr_id (rs ! n)) = Some (rs ! n)" if "n < length rs" for n
    using list_all2_nthD2 [OF all that] inv_id [OF inv(1)] by auto
  then show "\<forall>r \<in> set rs. reservation_of s (nr_id r) = Some r" "map nr_id rs = map in_reservation (inputs_of s k)"
    using list_all2_lengthD [OF all] by (auto simp: in_set_conv_nth list_eq_iff_nth_eq)
  then show "distinct (map nr_id rs)" using inv(2) by simp
qed

lemma fold_evolves:
  assumes "\<And>x s. mem_inv s \<Longrightarrow> ok s x \<Longrightarrow> evolves s (g x s) \<and> bt_inputs (g x s) = bt_inputs s" "\<And>s t x. evolves s t \<Longrightarrow> ok s x \<Longrightarrow> ok t x"
    "mem_inv s" "\<forall>x \<in> set xs. ok s x"
  shows "evolves s (fold g xs s) \<and> bt_inputs (fold g xs s) = bt_inputs s"
  using assms(3,4)
proof (induction xs arbitrary: s)
  case (Cons x xs)
  have one: "evolves s (g x s)" "bt_inputs (g x s) = bt_inputs s" using assms(1) Cons.prems by auto
  then have "evolves (g x s) (fold g xs (g x s)) \<and> bt_inputs (fold g xs (g x s)) = bt_inputs (g x s)"
    using Cons.IH [of "g x s"] Cons.prems(2) assms(2) [OF one(1)] by (simp add: evolves_def)
  then show ?case using evolves_trans [OF one(1)] one(2) by simp
qed (simp add: evolves_refl)

lemma clear_input_evolves:
  assumes "mem_inv s"
  shows "evolves s (clearInputLease now x s) \<and> bt_inputs (clearInputLease now x s) = bt_inputs s"
proof (cases "reservation_of s (in_reservation x)")
  case None
  then show ?thesis using assms by (simp add: clearInputLease_def evolves_refl)
next
  case (Some r)
  have "evolves s (storeReservationLocked ((clearReservationLeaseFields r)\<lparr>nr_updated := now\<rparr>) s)"
    using Some inv_id [OF assms Some] by (intro store_evolves [OF assms, of _ r]) (auto simp: clearReservationLeaseFields_def batch_change_def ActiveKey_def)
  then show ?thesis using Some by (simp add: clearInputLease_def)
qed

lemma clear_evolves:
  assumes "mem_inv s"
  shows "evolves s (clearBatchInputLeasesLocked k now s) \<and> bt_inputs (clearBatchInputLeasesLocked k now s) = bt_inputs s"
  unfolding clearBatchInputLeasesLocked_def
  by (rule fold_evolves [of "\<lambda>_ _. True"]) (simp_all add: clear_input_evolves assms)


section \<open>Actions that keep the invariant\<close>

definition keeps_at :: "string set \<Rightarrow> batch_store \<Rightarrow> (batch_store, 'a) action \<Rightarrow> bool" where
  "keeps_at U s m = (batch_inv U s \<longrightarrow> evolves s (snd (m s)) \<and> batch_inv U (snd (m s)))"

named_theorems keeps_at_intros

lemma inv_mem: "batch_inv U s \<Longrightarrow> mem_inv s"
  by (simp add: batch_inv_def)

lemma keeps_base [keeps_at_intros]: "keeps_at U s (retM x)" "keeps_at U s (failM e)" "keeps_at U s (readM r)" "keeps_at U s (guardM b e)"
  by (simp_all add: keeps_at_def evolves_refl inv_mem)

lemma keeps_read [keeps_at_intros]: "(\<And>x. batch_inv U s \<Longrightarrow> r s = Inr x \<Longrightarrow> keeps_at U s (f x)) \<Longrightarrow> keeps_at U s (bindM (readM r) f)"
  by (auto simp: keeps_at_def bindM_run evolves_refl inv_mem split: sum.splits)

lemma keeps_guard [keeps_at_intros]: "(b \<Longrightarrow> keeps_at U s (f ())) \<Longrightarrow> keeps_at U s (bindM (guardM b e) f)"
  by (auto simp: keeps_at_def bindM_run guardE_def evolves_refl inv_mem)

lemma keeps_bindM:
  assumes "keeps_at U s m" "\<And>x t. batch_inv U t \<Longrightarrow> m s = (Inr x, t) \<Longrightarrow> keeps_at U t (f x)"
  shows "keeps_at U s (bindM m f)"
  unfolding keeps_at_def
proof
  assume inv: "batch_inv U s"
  obtain y t where run: "m s = (y, t)" by (cases "m s")
  then have t: "evolves s t" "batch_inv U t" using assms(1) inv by (auto simp: keeps_at_def)
  show "evolves s (snd (bindM m f s)) \<and> batch_inv U (snd (bindM m f s))"
  proof (cases y)
    case (Inl e)
    then show ?thesis using run t by (simp add: bindM_run)
  next
    case (Inr x)
    then have "evolves t (snd (f x t)) \<and> batch_inv U (snd (f x t))" using assms(2) [OF t(2), of x] run t(2) by (simp add: keeps_at_def)
    then show ?thesis using run Inr evolves_trans [OF t(1)] by (simp add: bindM_run)
  qed
qed

lemma keeps_if [keeps_at_intros]: "(b \<Longrightarrow> keeps_at U s m) \<Longrightarrow> (\<not> b \<Longrightarrow> keeps_at U s n) \<Longrightarrow> keeps_at U s (if b then m else n)"
  by simp

lemma keeps_let [keeps_at_intros]: "keeps_at U s (f x) \<Longrightarrow> keeps_at U s (Let x f)"
  by simp

lemma keeps_write: "(batch_inv U s \<Longrightarrow> evolves s (w s) \<and> bt_inputs (w s) = bt_inputs s) \<Longrightarrow> keeps_at U s (writeM w)"
  using evolves_inv [of U s "w s"] by (auto simp: keeps_at_def)

lemma keeps_store [keeps_at_intros]: "keeps_at U s (writeM (storeBatchOperation op k))"
  by (rule keeps_write) (auto simp: evolves_def inv_mem)

lemma keeps_clear [keeps_at_intros]: "keeps_at U s (writeM (clearBatchInputLeasesLocked k now))"
  by (rule keeps_write) (rule clear_evolves [OF inv_mem])

lemma keeps_store_ret [keeps_at_intros]: "keeps_at U s (bindM (writeM (storeBatchOperation op k)) (\<lambda>_. retM x))"
  by (intro keeps_bindM keeps_at_intros)

lemma keeps_clear_store [keeps_at_intros]: "keeps_at U s (bindM (writeM (clearBatchInputLeasesLocked k now)) (\<lambda>_. bindM (writeM (storeBatchOperation op k')) (\<lambda>_. retM x)))"
  by (intro keeps_bindM keeps_at_intros)

text \<open>The inputs that were read are replaced.\<close>

lemma keeps_inputs:
  assumes "batchInputReservationsLocked k s = Inr rs" "\<And>r. r \<in> set rs \<Longrightarrow> nr_id (f r) = nr_id r \<and> batch_change r (f r) \<and>
      (IsActiveReservationStatus (nr_status (f r)) \<longrightarrow> IsActiveReservationStatus (nr_status r))"
  shows "keeps_at U s (writeM (fold storeReservationLocked (map f rs)))"
proof (rule keeps_write)
  assume inv: "batch_inv U s"
  show "evolves s (fold storeReservationLocked (map f rs) s) \<and> bt_inputs (fold storeReservationLocked (map f rs) s) = bt_inputs s"
    using stores_evolve [OF inv_mem [OF inv] inputs_found(1,3) [OF assms(1) inv]] assms(2) by simp
qed

lemma keeps_transition [keeps_at_intros]:
  assumes "IsActiveReservationStatus f"
  shows "keeps_at U s (transitionBatchInputReservationsExactLocked k f g token now)"
  unfolding transitionBatchInputReservationsExactLocked_def
proof (rule keeps_read, rule keeps_read)
  fix rs ys assume read: "batchInputReservationsLocked k s = Inr rs"
    and ok: "traverseE (\<lambda>r. bindE (guardE (nr_status r = f) (ReservationErr ErrCompareAndSetFailed [])) (\<lambda>_. bindE (requireLeaseToken r token now) (\<lambda>_.
       guardE (CanTransitionReservation f g) (ReservationErr ErrInvalidTransition [])))) rs = Inr ys"
  have "nr_status r = f \<and> CanTransitionReservation f g" if "r \<in> set rs" for r
    using ok that by (auto simp: traverseE_Inr_iff list_all2_conv_all_nth in_set_conv_nth)
  then show "keeps_at U s (writeM (fold storeReservationLocked (map (transitionInput g now) rs)))"
    using assms by (intro keeps_inputs [OF read]) (auto simp: transitionInput_def batch_change_def clearReservationLeaseFields_def ActiveKey_def Let_def)
qed


section \<open>Commands\<close>

datatype batch_cmd =
    Single store_cmd
  | CreateBatch "note_reservation list" batch_graph
  | AcquireBatch string string string time
  | HeartbeatBatch string string time
  | ReleaseBatch string string
  | CasBatch string string operation_status operation_status
  | Resign string string string u32
  | SaveProof string string proof_artifact
  | SaveSigned string string signed_tx
  | Broadcast string string batch_broadcast
  | ReconcileBatch string batch_reconcile

fun run_batch :: "time \<Rightarrow> batch_cmd \<Rightarrow> (batch_store, unit) action" where
  "run_batch now (Single c) = run_cmd now c"
| "run_batch now (CreateBatch rs g) = dropM (CreateBatchOperation rs g)"
| "run_batch now (AcquireBatch k owner token until) = dropM (AcquireBatchOperationLease k owner token until now)"
| "run_batch now (HeartbeatBatch k token until) = dropM (HeartbeatBatchOperationLease k token until now)"
| "run_batch now (ReleaseBatch k token) = dropM (ReleaseBatchOperationLease k token now)"
| "run_batch now (CasBatch k token f t) = dropM (CompareAndSetBatchOperationStatus k token f t now)"
| "run_batch now (Resign k token h code) = dropM (PrepareBatchOperationResign k token h code now)"
| "run_batch now (SaveProof k token u) = dropM (SaveBatchProofArtifacts k token u now)"
| "run_batch now (SaveSigned k token u) = dropM (SaveBatchSignedTx k token u now)"
| "run_batch now (Broadcast k token u) = dropM (RecordBatchBroadcast k token u now)"
| "run_batch now (ReconcileBatch k u) = dropM (ReconcileBatchOperation k u now)"

definition run_batches :: "(time \<times> batch_cmd) list \<Rightarrow> batch_store \<Rightarrow> batch_store" where
  "run_batches cs s = fold (\<lambda>(now, c) s. snd (run_batch now c s)) cs s"

lemma keeps_drop: "keeps_at U s m \<Longrightarrow> keeps_at U s (dropM m)"
  unfolding dropM_def by (intro keeps_bindM keeps_at_intros)

lemma active_statuses:
  "IsActiveReservationStatus StatusReserved" "IsActiveReservationStatus StatusProving" "IsActiveReservationStatus StatusProofReady" "IsActiveReservationStatus StatusSubmitted"
  by (simp_all add: IsActiveReservationStatus_def)

lemma batch_step: "reservation_change r q \<Longrightarrow> batch_change r q"
  by (auto simp: batch_change_def reservation_change_def)

lemma inputs_read_store [simp]: "batchInputReservationsLocked k (storeBatchOperation op k' s) = batchInputReservationsLocked k s"
  by (simp add: batchInputReservationsLocked_def findReservation_def)

text \<open>The operation is stored first and the inputs that were read before follow.\<close>

lemma keeps_store_inputs:
  assumes "batchInputReservationsLocked k s = Inr rs" "\<And>r. r \<in> set rs \<Longrightarrow> nr_id (f r) = nr_id r \<and> batch_change r (f r) \<and>
      (IsActiveReservationStatus (nr_status (f r)) \<longrightarrow> IsActiveReservationStatus (nr_status r))"
  shows "keeps_at U s (bindM (writeM (storeBatchOperation op k)) (\<lambda>_. bindM (writeM (fold storeReservationLocked (map f rs))) (\<lambda>_. retM x)))"
proof (rule keeps_bindM [OF keeps_store], rule keeps_bindM [OF _ keeps_base(1)])
  fix u t assume "writeM (storeBatchOperation op k) s = (Inr u, t)"
  then have "batchInputReservationsLocked k t = Inr rs" using assms(1) by auto
  then show "keeps_at U t (writeM (fold storeReservationLocked (map f rs)))" using assms(2) by (rule keeps_inputs)
qed

lemma keeps_acquire: "keeps_at U s (AcquireBatchOperationLease k owner token until now)"
  unfolding AcquireBatchOperationLease_def Let_def
  by (intro keeps_at_intros keeps_store_inputs) (simp_all add: leaseBatchInput_def batch_change_def ActiveKey_def)

lemma leased_inputs:
  assumes "traverseE (\<lambda>x. let r = reservationAt (in_reservation x) s in bindE (requireLeaseToken r token now) (\<lambda>_. Inr r)) (inputs_of s k) = Inr rs" "batch_inv U s"
  shows "batchInputReservationsLocked k s = Inr rs"
proof -
  have found: "\<exists>r. reservation_of s (in_reservation x) = Some r" if "x \<in> set (inputs_of s k)" for x using assms(2) that by (auto simp: batch_inv_def)
  have "findReservation (in_reservation x) s = Inr r"
    if "x \<in> set (inputs_of s k)" "(let r = reservationAt (in_reservation x) s in bindE (requireLeaseToken r token now) (\<lambda>_. Inr r)) = Inr r" for x r
    using that(2) found [OF that(1)] by (auto simp: findReservation_def reservationAt_def Let_def)
  then show ?thesis using assms(1) unfolding batchInputReservationsLocked_def traverseE_Inr_iff by (auto simp: list_all2_conv_all_nth)
qed

lemma keeps_heartbeat: "keeps_at U s (HeartbeatBatchOperationLease k token until now)"
  unfolding HeartbeatBatchOperationLease_def Let_def
  by (intro keeps_at_intros keeps_store_inputs leased_inputs) (simp_all add: Let_def beat_def batch_change_def ActiveKey_def)

lemma keeps_cas: "keeps_at U s (CompareAndSetBatchOperationStatus k token f g now)"
  unfolding CompareAndSetBatchOperationStatus_def transitionBatchInputReservationsLocked_def Let_def
  by (intro keeps_at_intros keeps_bindM active_statuses keeps_write) (auto simp: clear_evolves evolves_refl inv_mem)

lemma keeps_progress:
  "keeps_at U s (ReleaseBatchOperationLease k token now)" "keeps_at U s (PrepareBatchOperationResign k token h code now)" "keeps_at U s (SaveBatchProofArtifacts k token p now)"
  "keeps_at U s (SaveBatchSignedTx k token u now)"
  unfolding ReleaseBatchOperationLease_def PrepareBatchOperationResign_def SaveBatchProofArtifacts_def SaveBatchSignedTx_def Let_def
  by (intro keeps_at_intros keeps_bindM [OF keeps_if] keeps_bindM [OF keeps_transition] active_statuses)+

lemma keeps_broadcast: "keeps_at U s (RecordBatchBroadcast k token u now)"
  unfolding RecordBatchBroadcast_def broadcastTarget_def Let_def
  by (intro keeps_read keeps_guard keeps_bindM [OF keeps_if] keeps_bindM [OF keeps_transition] keeps_at_intros active_statuses)


lemma batch_reservations_ok:
  "validateBatchReservations rs k claimed keys s = Inr () \<Longrightarrow> validateReservations rs claimed keys s = Inr () \<and> (\<forall>r \<in> set rs. nr_operation r = k)"
  by (induction rs k claimed keys s rule: validateBatchReservations.induct) auto

lemma batch_inputs_ok:
  "validateBatchInputs xs op ids si sr = Inr () \<Longrightarrow>
     distinct (map in_reservation xs) \<and> set (map in_reservation xs) \<inter> set sr = {} \<and> set (map in_reservation xs) \<subseteq> set ids"
  by (induction xs op ids si sr rule: validateBatchInputs.induct) auto

lemma fresh_evolves:
  assumes "mem_inv s" "validateReservations rs [] [] s = Inr ()"
  shows "evolves s (fold storeReservationLocked rs s)" "\<forall>r \<in> set rs. reservation_of (fold storeReservationLocked rs s) (nr_id r) = Some r"
proof -
  note ok = create_ok [OF assms(2)]
  have look: "reservation_of (fold storeReservationLocked rs s) = reservation_of s ++ map_of (map (\<lambda>u. (nr_id u, u)) rs)" using ok by (simp add: stores_lookup)
  have "distinct (map fst (map (\<lambda>u. (nr_id u, u)) rs))" using ok by (simp add: comp_def)
  then show "\<forall>r \<in> set rs. reservation_of (fold storeReservationLocked rs s) (nr_id r) = Some r" unfolding look by (auto simp: map_add_Some_iff)
  have "reservation_of (fold storeReservationLocked rs s) i = Some r" if "reservation_of s i = Some r" for i r
  proof -
    have "i \<notin> nr_id ` set rs" using ok that by (auto simp: fresh_ok_def)
    then have "map_of (map (\<lambda>u. (nr_id u, u)) rs) i = None" by (auto simp: map_of_eq_None_iff)
    then show ?thesis using that look by (simp add: map_add_def)
  qed
  then show "evolves s (fold storeReservationLocked rs s)" using stores_inv [OF assms(1), of rs] ok by (auto simp: evolves_def)
qed

lemma keeps_create: "keeps_at U s (CreateBatchOperation rs g)"
  unfolding keeps_at_def
proof
  assume inv: "batch_inv U s"
  let ?k = "bo_id (bg_operation g)" and ?t = "snd (CreateBatchOperation rs g s)"
  show "evolves s ?t \<and> batch_inv U ?t"
  proof (cases "validateBatchGraphCreateLocked rs g s")
    case (Inl e)
    then show ?thesis using inv by (simp add: CreateBatchOperation_def bindM_run Let_def evolves_refl inv_mem)
  next
    case (Inr x)
    then have res: "validateBatchReservations rs ?k [] [] s = Inr ()" and ins: "validateBatchInputs (bg_inputs g) (bg_operation g) (map nr_id rs) [] [] = Inr ()"
      by (auto simp: validateBatchGraphCreateLocked_def Let_def)
    let ?u = "fold storeReservationLocked rs s"
    note fresh = fresh_evolves [OF inv_mem [OF inv] conjunct1 [OF batch_reservations_ok [OF res]]]
    have t: "reservation_of ?t = reservation_of ?u" "mem_inv ?t" "bt_inputs ?t = AList.update ?k (cloneBatchInputs (bg_inputs g)) (bt_inputs s)"
      using Inr fresh(1) by (simp_all add: CreateBatchOperation_def bindM_run Let_def evolves_def mem_inv_def storeBatchOperation_def)
    have ev: "evolves s ?t" using evolves_same [OF fresh(1) t(2,1)] .
    have rows: "inputs_of ?t k = (if k = ?k then cloneBatchInputs (bg_inputs g) else inputs_of s k)" for k using t(3) by (simp add: rows_def update_conv')
    have new: "distinct (map in_reservation (cloneBatchInputs (bg_inputs g)))" "set (map in_reservation (cloneBatchInputs (bg_inputs g))) \<subseteq> set (map nr_id rs)"
      using batch_inputs_ok [OF ins] by (simp_all add: cloneBatchInputs_def distinct_map)
    have found: "\<exists>r. reservation_of ?t (in_reservation x) = Some r \<and> (in_reservation x \<in> U \<or> nr_operation r = ?k)" if "x \<in> set (cloneBatchInputs (bg_inputs g))" for x
      using new(2) that fresh(2) batch_reservations_ok [OF res] t(1) by (auto simp: subset_iff image_iff)
    have old: "\<exists>r. reservation_of ?t (in_reservation x) = Some r \<and> (in_reservation x \<in> U \<or> nr_operation r = k)" if "x \<in> set (inputs_of s k)" for x k
      using inv ev that changes_operation unfolding batch_inv_def evolves_def by metis
    show ?thesis using ev t(2) rows new(1) found old inv by (auto simp: batch_inv_def)
  qed
qed


lemma clear_fields [simp]:
  "nr_id (clearLeaseForStatusTransition st r) = nr_id r" "ActiveKey ((clearLeaseForStatusTransition st r)\<lparr>nr_updated := now\<rparr>) = ActiveKey r"
  "nr_operation (clearLeaseForStatusTransition st r) = nr_operation r" "nr_status (clearLeaseForStatusTransition st r) = nr_status r" "ActiveKey (r\<lparr>nr_status := st'\<rparr>) = ActiveKey r"
  by (simp_all add: clearLeaseForStatusTransition_def clearReservationLeaseFields_def ActiveKey_def)

lemma reconcile_input_evolves:
  assumes "mem_inv s" "\<exists>r. reservation_of s (in_reservation x) = Some r"
  shows "evolves s (reconcileInput u conflict now x s) \<and> bt_inputs (reconcileInput u conflict now x s) = bt_inputs s"
proof -
  obtain r where r: "reservation_of s (in_reservation x) = Some r" using assms(2) by blast
  have replan: "CanTransitionReservation (nr_status r) StatusReplanRequired" if "IsActiveReservationStatus (nr_status r)"
    using that by (auto simp: IsActiveReservationStatus_def CanTransitionReservation_def status_defs)
  have inactive: "\<not> IsActiveReservationStatus StatusReplanRequired" by (simp add: IsActiveReservationStatus_def status_defs)
  have "evolves s (storeReservationLocked ((clearLeaseForStatusTransition st (r\<lparr>nr_status := st\<rparr>))\<lparr>nr_updated := now\<rparr>) s)"
    if "st = StatusConfirmedSpent \<or> st = StatusReplanRequired \<and> IsActiveReservationStatus (nr_status r)" for st
    using that r inv_id [OF assms(1) r] replan inactive spent_inactive
    by (intro store_evolves [OF assms(1), of _ r]) (auto simp: batch_change_def)
  then show ?thesis using r assms(1) by (simp add: reconcileInput_def reservationAt_def Let_def evolves_refl)
qed

lemma evolves_keeps: "evolves s t \<Longrightarrow> \<exists>r. reservation_of s i = Some r \<Longrightarrow> \<exists>r. reservation_of t i = Some r"
  by (auto simp: evolves_def)

lemma reconcile_inputs_evolve:
  assumes "batch_inv U s"
  shows "evolves s (clearBatchInputLeasesLocked k now (fold (reconcileInput u conflict now) (inputs_of s k) s)) \<and>
    bt_inputs (clearBatchInputLeasesLocked k now (fold (reconcileInput u conflict now) (inputs_of s k) s)) = bt_inputs s"
proof -
  let ?t = "fold (reconcileInput u conflict now) (inputs_of s k) s"
  have "\<forall>x \<in> set (inputs_of s k). \<exists>r. reservation_of s (in_reservation x) = Some r" using assms by (auto simp: batch_inv_def)
  then have one: "evolves s ?t \<and> bt_inputs ?t = bt_inputs s"
    by (intro fold_evolves [of "\<lambda>s x. \<exists>r. reservation_of s (in_reservation x) = Some r"])
      (erule (1) reconcile_input_evolves, erule (1) evolves_keeps, rule inv_mem [OF assms], assumption)
  then have "mem_inv ?t" by (simp add: evolves_def)
  then show ?thesis using clear_evolves [of ?t k now] one evolves_trans by auto
qed

lemma keeps_reconcile: "keeps_at U s (ReconcileBatchOperation k u now)"
  unfolding ReconcileBatchOperation_def
proof (intro keeps_read keeps_guard, rule keeps_bindM [OF _ keeps_base(3)], rule keeps_write)
  fix op attempt x y assume "batch_inv U s"
  from reconcile_inputs_evolve [OF this, of k now u "terminalConflict op u (length (inputs_of s k))"]
  show "evolves s (let inputs = inputs_of s k; conflict = terminalConflict op u (length inputs);
           (items, evidence) = reconcileItems u conflict now (cloneBatchItems (rows (bt_items s) k)) (cloneBatchEvidence (rows (bt_evidence s) k));
           s = fold (reconcileInput u conflict now) inputs s; s = clearBatchInputLeasesLocked k now s;
           s = storeBatchOperation (reconciledOperation op u attempt (length inputs) now) k s
       in s\<lparr>bt_items := AList.update k (cloneBatchItems items) (bt_items s), bt_evidence := AList.update k (cloneBatchEvidence evidence) (bt_evidence s)\<rparr>) \<and>
     bt_inputs (let inputs = inputs_of s k; conflict = terminalConflict op u (length inputs);
           (items, evidence) = reconcileItems u conflict now (cloneBatchItems (rows (bt_items s) k)) (cloneBatchEvidence (rows (bt_evidence s) k));
           s = fold (reconcileInput u conflict now) inputs s; s = clearBatchInputLeasesLocked k now s;
           s = storeBatchOperation (reconciledOperation op u attempt (length inputs) now) k s
       in s\<lparr>bt_items := AList.update k (cloneBatchItems items) (bt_items s), bt_evidence := AList.update k (cloneBatchEvidence evidence) (bt_evidence s)\<rparr>) = bt_inputs s"
    by (auto simp: Let_def storeBatchOperation_def evolves_def mem_inv_def split: prod.splits)
qed

text \<open>What a command overwrites; every other reservation evolves.\<close>

fun batch_overwrites :: "batch_cmd \<Rightarrow> string set" where
  "batch_overwrites (Single c) = overwrites c"
| "batch_overwrites _ = {}"

definition overwritten :: "(time \<times> batch_cmd) list \<Rightarrow> string set" where
  "overwritten cs = (\<Union>(now, c) \<in> set cs. batch_overwrites c)"

definition moves :: "string set \<Rightarrow> batch_store \<Rightarrow> batch_store \<Rightarrow> bool" where
  "moves U s t = (\<forall>i r. reservation_of s i = Some r \<longrightarrow> (\<exists>q. reservation_of t i = Some q \<and> (i \<in> U \<or> batch_change\<^sup>*\<^sup>* r q)))"

lemma moves_inv:
  assumes "batch_inv U s" "moves W s t" "W \<subseteq> U" "mem_inv t" "bt_inputs t = bt_inputs s"
  shows "batch_inv U t"
  unfolding batch_inv_def
proof (intro conjI allI ballI)
  fix k show "mem_inv t" "distinct (map in_reservation (inputs_of t k))" using assms by (simp_all add: batch_inv_def)
  fix x assume "x \<in> set (inputs_of t k)"
  then obtain r where r: "reservation_of s (in_reservation x) = Some r" "in_reservation x \<in> U \<or> nr_operation r = k" using assms(1,5) by (auto simp: batch_inv_def)
  then obtain q where "reservation_of t (in_reservation x) = Some q" "in_reservation x \<in> W \<or> batch_change\<^sup>*\<^sup>* r q" using assms(2) unfolding moves_def by blast
  then show "\<exists>r. reservation_of t (in_reservation x) = Some r \<and> (in_reservation x \<in> U \<or> nr_operation r = k)" using r(2) assms(3) changes_operation by auto
qed

lemma single_step:
  assumes "batch_inv U s" "overwrites c \<subseteq> U"
  shows "moves (overwrites c) s (snd (run_cmd now c s)) \<and> batch_inv U (snd (run_cmd now c s))"
proof -
  let ?t = "snd (run_cmd now c s)"
  have "moves (overwrites c) s ?t" unfolding moves_def using cmd_moves [OF inv_mem [OF assms(1)]] batch_step by blast
  moreover have "bt_inputs ?t = bt_inputs s" using cmd_cases [OF inv_mem [OF assms(1)], of now c] by (auto simp: writes_def)
  ultimately show ?thesis using moves_inv [OF assms(1) _ assms(2)] cmd_inv [OF inv_mem [OF assms(1)]] by blast
qed

lemma batch_keeps: "\<forall>d. c \<noteq> Single d \<Longrightarrow> keeps_at U s (run_batch now c)"
  by (cases c) (simp_all add: keeps_drop keeps_create keeps_acquire keeps_heartbeat keeps_cas keeps_progress keeps_broadcast keeps_reconcile)

lemma batch_step_ok:
  assumes "batch_inv U s" "batch_overwrites c \<subseteq> U"
  shows "moves (batch_overwrites c) s (snd (run_batch now c s)) \<and> batch_inv U (snd (run_batch now c s))"
proof (cases "\<exists>d. c = Single d")
  case True
  then show ?thesis using single_step assms by auto
next
  case False
  then show ?thesis using batch_keeps [of c U s now] assms(1) unfolding keeps_at_def moves_def evolves_def by blast
qed

section \<open>Runs\<close>

text \<open>\<open>U\<close> are the reservations that may ever have been overwritten, \<open>W\<close> those that the commands of the run may overwrite.\<close>

interpretation batches: keyed_machine reservation_of "\<lambda>(now, c) s. snd (run_batch now c s)" "batch_inv U" "\<lambda>(now, c). batch_overwrites c \<subseteq> U \<inter> W"
    "\<lambda>i r q. i \<in> W \<or> batch_change\<^sup>*\<^sup>* r q"
  for U W :: "string set"
proof
  fix s :: batch_store and c :: "time \<times> batch_cmd"
  assume inv: "batch_inv U s" and within: "case c of (now, c) \<Rightarrow> batch_overwrites c \<subseteq> U \<inter> W"
  obtain now d where c: "c = (now, d)" by (cases c)
  have "moves (batch_overwrites d) s (snd (run_batch now d s)) \<and> batch_inv U (snd (run_batch now d s))" using batch_step_ok [OF inv] within c by simp
  then show "batch_inv U ((case c of (now, c) \<Rightarrow> \<lambda>s. snd (run_batch now c s)) s)"
    and "reservation_of s i = Some r \<Longrightarrow> \<exists>q. reservation_of ((case c of (now, c) \<Rightarrow> \<lambda>s. snd (run_batch now c s)) s) i = Some q \<and> (i \<in> W \<or> batch_change\<^sup>*\<^sup>* r q)" for i r
    using c within by (simp, simp add: moves_def, blast)
qed

lemma reached_inv: "batch_inv (overwritten cs) (run_batches cs newBatchStore)"
  unfolding run_batches_def by (rule batches.good_run [OF new_batch_inv, of _ _ UNIV]) (auto simp: overwritten_def)

lemma any_inv: "batch_inv U s \<Longrightarrow> batch_inv UNIV s"
  by (auto simp: batch_inv_def)

lemma run_moves:
  assumes "batch_inv U s" "reservation_of s i = Some r"
  shows "\<exists>q. reservation_of (run_batches cs s) i = Some q \<and> (i \<notin> overwritten cs \<longrightarrow> batch_change\<^sup>*\<^sup>* r q)"
proof -
  have "\<forall>nc \<in> set cs. case nc of (now, c) \<Rightarrow> batch_overwrites c \<subseteq> UNIV \<inter> overwritten cs" by (auto simp: overwritten_def)
  from batches.may_run [OF any_inv [OF assms(1)] this assms(2)] show ?thesis unfolding run_batches_def by (cases "i \<in> overwritten cs") auto
qed

lemma batch_spent_stays: "batch_change\<^sup>*\<^sup>* r q \<Longrightarrow> nr_status r = StatusConfirmedSpent \<Longrightarrow> nr_status q = StatusConfirmedSpent"
  by (induction rule: rtranclp_induct) (auto simp: batch_change_def spent_final)

section \<open>A sample batch\<close>

definition sample_graph :: batch_graph where
  "sample_graph =
     \<lparr>bg_operation = zeroOperation\<lparr>bo_schema := BatchOperationSchemaVersionV1, bo_id := ''o'', bo_status := OperationStatusPlanned, bo_payload := [1], bo_payload_hash := ''p'',
        bo_input_count := 1, bo_output_count := 1\<rparr>,
      bg_inputs = [\<lparr>in_schema = BatchOperationSchemaVersionV1, in_operation = ''o'', in_reservation = ''r1'', in_index = 0, in_commitment = replicate 64 (CHR ''0''),
        in_amount = [], in_created = 1\<rparr>],
      bg_items = [\<lparr>it_schema = BatchOperationSchemaVersionV1, it_operation = ''o'', it_item = ''i'', it_employee = [], it_index = 0, it_role = BatchOutputRolePayment,
        it_status = BatchItemEvidencePending, it_reason = [], it_created = 1, it_updated = 1\<rparr>],
      bg_evidence = [\<lparr>ev_schema = BatchOperationSchemaVersionV1, ev_operation = ''o'', ev_index = 0, ev_commitment = ''c'', ev_policy = 0, ev_mode = 0, ev_user_digest = [],
        ev_full_digest = ''f'', ev_recipient_hash = [], ev_encrypted_recipient = [], ev_encrypted_amount = [], ev_amount_hash = [], ev_denom = ''d'', ev_asset = ''a'',
        ev_role = BatchOutputRolePayment, ev_key_id = [], ev_key_epoch = 0, ev_seen_commitment = [], ev_seen_user = [], ev_seen_full = [], ev_seen_recipient = [],
        ev_audit_failed = False, ev_self_failed = False, ev_created = 1, ev_updated = 1\<rparr>]\<rparr>"

definition sample_member :: note_reservation where "sample_member = sample_reservation\<lparr>nr_operation := ''o''\<rparr>"

lemma hexDecode_zeros: "hexDecode (replicate (2 * n) (CHR ''0'')) = Some (replicate n 0)"
  by (induction n) (simp_all add: hexDigit_def)

lemma be_zeros: "be_to_nat (replicate n 0) = 0"
  by (induction n) (simp_all add: be_to_nat_def)

lemma sample_batch_commitment: "isCanonicalBatchFieldHex (replicate 64 (CHR ''0''))"
  using hexDecode_zeros [of 32] be_zeros [of 32] by (simp add: isCanonicalBatchFieldHex_def ToLower_def canonical_field_def fr_modulus_def)

lemma sample_batch_trims: "TrimSpace ''o'' = ''o''" "TrimSpace ''p'' = ''p''" "TrimSpace ''i'' = ''i''" "TrimSpace ''c'' = ''c''" "TrimSpace ''f'' = ''f''" "TrimSpace ''d'' = ''d''"
  "TrimSpace ''a'' = ''a''" "TrimSpace [] = []"
  by (simp_all add: TrimSpace_plain) (simp add: TrimSpace_def trimBy.simps space_runes_def)

lemma sample_batch:
  "run_batches [(1, CreateBatch [sample_member] sample_graph)] newBatchStore =
     \<lparr>ms_reservations = [(''r1'', sample_member)], ms_operations = [], ms_active = [(ActiveKey sample_member, ''r1'')], bt_operations = [(''o'', bg_operation sample_graph)],
      bt_inputs = [(''o'', bg_inputs sample_graph)], bt_items = [(''o'', bg_items sample_graph)], bt_evidence = [(''o'', bg_evidence sample_graph)]\<rparr>"
proof -
  have "validateBatchGraphCreateLocked [sample_member] sample_graph newBatchStore = Inr ()"
    by (simp add: validateBatchGraphCreateLocked_def sample_graph_def sample_member_def sample_reservation_def newBatchStore_def NewMemoryStore_def mem_store.extend_def
        batch_store.fields_def zeroOperation_def sample_batch_trims sample_batch_commitment validateReservationCreateLocked_def IsActiveReservationStatus_def validateBatchUserEvidence_def
        TransferPrivacyPolicyDiscloseAmountToFrom_def validBatchOutputRole_def guardE_def Let_def)
  then show ?thesis
    by (simp add: run_batches_def dropM_def CreateBatchOperation_def bindM_run Let_def) (simp add: sample_graph_def sample_member_def sample_reservation_def newBatchStore_def
        NewMemoryStore_def mem_store.extend_def batch_store.fields_def zeroOperation_def storeReservationLocked_def storeBatchOperation_def IsActiveReservationStatus_def
        cloneBatchInputs_def cloneBatchItems_def cloneBatchEvidence_def Let_def)
qed

section \<open>Properties\<close>

text \<open>C14. Runs that mix the methods on reservations and on batch operations, in any order and with any failures, \<open>UpdateReservation\<close> included: no note is held by two active
  reservations, the inputs of a batch operation are distinct reservations of the store, and no later run loses a reservation. A reservation that no \<open>UpdateReservation\<close> of the run
  overwrote belongs to the operation whose input it is, and one that no \<open>UpdateReservation\<close> of the later run overwrites keeps its note, its operation and a confirmed spend.\<close>

theorem batch_runs_safe:
  fixes cs ds
  defines "s \<equiv> run_batches cs newBatchStore"
  shows "(\<forall>i j r q. reservation_of s i = Some r \<and> reservation_of s j = Some q \<and> IsActiveReservationStatus (nr_status r) \<and> IsActiveReservationStatus (nr_status q) \<and>
       ActiveKey r = ActiveKey q \<longrightarrow> i = j) \<and>
    (\<forall>k. distinct (map in_reservation (inputs_of s k)) \<and>
       (\<forall>x \<in> set (inputs_of s k). \<exists>r. reservation_of s (in_reservation x) = Some r \<and> (in_reservation x \<notin> overwritten cs \<longrightarrow> nr_operation r = k))) \<and>
    (\<forall>i r. reservation_of s i = Some r \<longrightarrow> (\<exists>q. reservation_of (run_batches ds s) i = Some q \<and>
       (i \<notin> overwritten ds \<longrightarrow> ActiveKey q = ActiveKey r \<and> nr_operation q = nr_operation r \<and>
          (nr_status r = StatusConfirmedSpent \<longrightarrow> nr_status q = StatusConfirmedSpent))))"
proof -
  have inv: "batch_inv (overwritten cs) s" unfolding s_def by (rule reached_inv)
  have "\<exists>q. reservation_of (run_batches ds s) i = Some q \<and> (i \<notin> overwritten ds \<longrightarrow> ActiveKey q = ActiveKey r \<and> nr_operation q = nr_operation r \<and>
      (nr_status r = StatusConfirmedSpent \<longrightarrow> nr_status q = StatusConfirmedSpent))" if "reservation_of s i = Some r" for i r
    using run_moves [OF inv that, of ds] changes_operation [of r] batch_spent_stays [of r] by blast
  moreover have "distinct (map in_reservation (inputs_of s k)) \<and>
      (\<forall>x \<in> set (inputs_of s k). \<exists>r. reservation_of s (in_reservation x) = Some r \<and> (in_reservation x \<notin> overwritten cs \<longrightarrow> nr_operation r = k))" for k
    using inv unfolding batch_inv_def by meson
  ultimately show ?thesis using inv_unique [OF inv_mem [OF inv]] by blast
qed

theorem batch_runs_safe_witness:
  "\<exists>q. reservation_of (run_batches [(2, AcquireBatch ''o'' ''w'' ''t'' 9)] (run_batches [(1, CreateBatch [sample_member] sample_graph)] newBatchStore)) ''r1'' = Some q \<and>
     nr_operation q = ''o''"
proof -
  have "reservation_of (run_batches [(1, CreateBatch [sample_member] sample_graph)] newBatchStore) ''r1'' = Some sample_member" unfolding sample_batch by simp
  then show ?thesis
    using batch_runs_safe [of "[(1, CreateBatch [sample_member] sample_graph)]" "[(2, AcquireBatch ''o'' ''w'' ''t'' 9)]"] by (fastforce simp: sample_member_def overwritten_def)
qed

end
