(* ===== verification/Reservation_Batch_Reconcile.thy ===== *)
theory Reservation_Batch_Reconcile
  imports Reservation_Batch_Runs
begin

text \<open>
  What a batch reconciliation concludes: the reservations of the inputs, the items judged by the evidence of their outputs, the status of the operation. Every item of a stored
  batch has evidence, on every run.
\<close>

section \<open>Batch reconciliation\<close>

definition inputAfter :: "batch_reconcile \<Rightarrow> bool \<Rightarrow> time \<Rightarrow> string \<Rightarrow> note_reservation \<Rightarrow> note_reservation" where
  "inputAfter u conflict now i r =
     (if i \<in> set (br_spent u) then (clearLeaseForStatusTransition StatusConfirmedSpent (r\<lparr>nr_status := StatusConfirmedSpent\<rparr>))\<lparr>nr_updated := now\<rparr>
      else if \<not> conflict \<and> br_failed u \<and> IsActiveReservationStatus (nr_status r) then
        (clearLeaseForStatusTransition StatusReplanRequired (r\<lparr>nr_status := StatusReplanRequired\<rparr>))\<lparr>nr_updated := now\<rparr>
      else r)"

lemma reconcile_input_lookup:
  assumes "mem_inv s" "reservation_of s (in_reservation x) = Some r"
  shows "reservation_of (reconcileInput u conflict now x s) = (reservation_of s)(in_reservation x \<mapsto> inputAfter u conflict now (in_reservation x) r)"
  using assms inv_id [OF assms] by (auto simp: reconcileInput_def reservationAt_def inputAfter_def Let_def)

lemma reconcile_inputs_lookup:
  assumes "mem_inv s" "distinct (map in_reservation xs)" "\<forall>x \<in> set xs. \<exists>r. reservation_of s (in_reservation x) = Some r"
  shows "reservation_of (fold (reconcileInput u conflict now) xs s) i =
    (if i \<in> in_reservation ` set xs then map_option (inputAfter u conflict now i) (reservation_of s i) else reservation_of s i)"
  using assms
proof (induction xs arbitrary: s)
  case (Cons x xs)
  obtain r where r: "reservation_of s (in_reservation x) = Some r" using Cons.prems(3) by auto
  let ?t = "reconcileInput u conflict now x s"
  have look: "reservation_of ?t = (reservation_of s)(in_reservation x \<mapsto> inputAfter u conflict now (in_reservation x) r)" by (rule reconcile_input_lookup [OF Cons.prems(1) r])
  have inv: "mem_inv ?t" using reconcile_input_evolves [OF Cons.prems(1)] r by (auto simp: evolves_def)
  have "\<forall>x \<in> set xs. \<exists>r. reservation_of ?t (in_reservation x) = Some r" using Cons.prems(3) by (auto simp: look)
  then show ?case using Cons.IH [OF inv] Cons.prems(2) r by (auto simp: look)
qed simp

lemma clear_leases_lookup:
  assumes "mem_inv s"
  shows "reservation_of (fold (clearInputLease now) xs s) i =
    (if i \<in> in_reservation ` set xs then map_option (\<lambda>r. (clearReservationLeaseFields r)\<lparr>nr_updated := now\<rparr>) (reservation_of s i) else reservation_of s i)"
  using assms
proof (induction xs arbitrary: s)
  case (Cons x xs)
  let ?t = "clearInputLease now x s" and ?f = "\<lambda>r. (clearReservationLeaseFields r)\<lparr>nr_updated := now\<rparr>"
  have look: "reservation_of ?t = (reservation_of s)(in_reservation x := map_option ?f (reservation_of s (in_reservation x)))"
    using inv_id [OF Cons.prems] by (auto simp: clearInputLease_def clearReservationLeaseFields_def split: option.splits)
  have "mem_inv ?t" using clear_input_evolves [OF Cons.prems] by (simp add: evolves_def)
  moreover have "map_option ?f (map_option ?f q) = map_option ?f q" for q by (cases q) (simp_all add: clearReservationLeaseFields_def)
  ultimately show ?case using Cons.IH [of ?t] by (auto simp: look)
qed simp

text \<open>The expectations of an output are never rewritten; only what was observed is recorded.\<close>

definition expectation :: "batch_evidence \<Rightarrow> int \<times> string \<times> string \<times> string \<times> string" where
  "expectation e = (ev_index e, ev_commitment e, ev_full_digest e, ev_user_digest e, ev_recipient_hash e)"

lemma expectation_seen [simp]: "expectation (recordSeen y now e) = expectation e"
  by (simp add: expectation_def recordSeen_def)

lemma matches_expectation: "expectation e = expectation f \<Longrightarrow> observedOutputMatches e y = observedOutputMatches f y \<and> ev_index e = ev_index f"
  by (simp add: expectation_def observedOutputMatches_def)

lemma expectations_seen [simp]: "map expectation (es[p := recordSeen y now (es ! p)]) = map expectation es"
  by (metis expectation_seen list_update_beyond list_update_id map_update not_le_imp_less nth_map)

lemma evidence_position:
  assumes "\<exists>e \<in> set es. ev_index e = i"
  shows "evidencePosition es i < length es \<and> ev_index (es ! evidencePosition es i) = i"
proof -
  let ?ps = "filter (\<lambda>p. ev_index (es ! p) = i) [0..<length es]"
  obtain p where "p < length es" "ev_index (es ! p) = i" using assms by (auto simp: in_set_conv_nth)
  then have "p \<in> set ?ps" by simp
  then have ne: "?ps \<noteq> []" by (metis empty_iff list.set(1))
  then have "last ?ps \<in> set ?ps" by (rule last_in_set)
  then show ?thesis using ne by (auto simp: evidencePosition_def split: list.splits)
qed

definition proven_item :: "batch_reconcile \<Rightarrow> batch_evidence list \<Rightarrow> batch_item \<Rightarrow> bool" where
  "proven_item u es x =
     (\<exists>y \<in> set (br_observed u). \<exists>e \<in> set es. ob_index y = it_index x \<and> ev_index e = it_index x \<and> observedOutputMatches e y \<and> \<not> ob_audit_failed y \<and> \<not> ob_self_failed y)"

lemma judge_index [simp]: "it_index (judgeItem u e seen x) = it_index x"
  by (simp add: judgeItem_def split: option.splits)

lemma judged_succeeded:
  assumes "it_status (judgeItem u e seen x) = BatchItemEvidenceSucceeded" "it_status x \<noteq> BatchItemEvidenceSucceeded"
  shows "br_succeeded u \<and> (\<exists>y. seen = Some y \<and> observedOutputMatches e y \<and> \<not> ob_audit_failed y \<and> \<not> ob_self_failed y)"
  using assms by (auto simp: judgeItem_def status_defs split: if_splits option.splits)

lemma proven_expectation:
  assumes "map expectation es = map expectation fs" "proven_item u es x"
  shows "proven_item u fs x"
proof -
  obtain y e where y: "y \<in> set (br_observed u)" "e \<in> set es" "ob_index y = it_index x" "ev_index e = it_index x" "observedOutputMatches e y" "\<not> ob_audit_failed y" "\<not> ob_self_failed y"
    using assms(2) by (auto simp: proven_item_def)
  have "expectation e \<in> set (map expectation fs)" using y(2) by (simp flip: assms(1))
  then obtain f where "f \<in> set fs" "expectation f = expectation e" by auto
  then show ?thesis using y matches_expectation [of f e y] by (auto simp: proven_item_def)
qed

lemma covered_expectation:
  assumes "map expectation fs = map expectation es" "\<exists>e \<in> set es. ev_index e = i"
  shows "\<exists>f \<in> set fs. ev_index f = i"
proof -
  obtain e where e: "e \<in> set es" "ev_index e = i" using assms(2) by blast
  then have "expectation e \<in> set (map expectation fs)" unfolding assms(1) by simp
  then obtain f where "f \<in> set fs" "expectation e = expectation f" by auto
  then show ?thesis using e(2) matches_expectation [of e f] by auto
qed

lemma reconcile_items_sound:
  assumes "reconcileItems u conflict now xs es = (ys, fs)" "\<forall>x \<in> set xs. \<exists>e \<in> set es. ev_index e = it_index x"
  shows "map expectation fs = map expectation es \<and> map it_index ys = map it_index xs \<and>
    list_all2 (\<lambda>x y. it_status y = BatchItemEvidenceSucceeded \<longrightarrow>
      \<not> conflict \<and> (it_status x = BatchItemEvidenceSucceeded \<or> br_succeeded u \<and> proven_item u es x)) xs ys"
  using assms
proof (induction xs arbitrary: es ys)
  case (Cons x xs)
  show ?case
  proof (cases conflict)
    case True
    obtain zs where zs: "reconcileItems u conflict now xs es = (zs, fs)"
        "ys = x\<lparr>it_status := BatchItemEvidenceManualReview, it_reason := batchTerminalReconcileConflictReason, it_updated := now\<rparr> # zs"
      using Cons.prems(1) True by (auto split: prod.splits)
    show ?thesis using Cons.IH [OF zs(1)] Cons.prems(2) zs(2) by (simp add: status_defs)
  next
    case False
    let ?p = "evidencePosition es (it_index x)" and ?seen = "List.find (\<lambda>y. ob_index y = it_index x) (br_observed u)"
    let ?es = "case ?seen of None \<Rightarrow> es | Some y \<Rightarrow> es[?p := recordSeen y now (es ! ?p)]"
    obtain zs where zs: "reconcileItems u conflict now xs ?es = (zs, fs)" "ys = (judgeItem u (es ! ?p) ?seen x)\<lparr>it_updated := now\<rparr> # zs"
      using Cons.prems(1) False by (auto simp: Let_def split: prod.splits)
    have same: "map expectation ?es = map expectation es" by (simp split: option.splits)
    have "\<exists>e \<in> set ?es. ev_index e = it_index z" if "z \<in> set xs" for z
      using covered_expectation [OF same] bspec [OF Cons.prems(2), of z] that by simp
    then have rest: "map expectation fs = map expectation ?es \<and> map it_index zs = map it_index xs \<and>
        list_all2 (\<lambda>x y. it_status y = BatchItemEvidenceSucceeded \<longrightarrow>
          \<not> conflict \<and> (it_status x = BatchItemEvidenceSucceeded \<or> br_succeeded u \<and> proven_item u ?es x)) xs zs"
      using Cons.IH [OF zs(1)] by blast
    have pos: "?p < length es \<and> ev_index (es ! ?p) = it_index x" using Cons.prems(2) by (intro evidence_position) simp
    have head: "br_succeeded u \<and> proven_item u es x"
      if judged: "it_status (judgeItem u (es ! ?p) ?seen x) = BatchItemEvidenceSucceeded" "it_status x \<noteq> BatchItemEvidenceSucceeded"
    proof -
      obtain y where y: "?seen = Some y" "observedOutputMatches (es ! ?p) y" "\<not> ob_audit_failed y" "\<not> ob_self_failed y" "br_succeeded u"
        using judged_succeeded [OF judged] by blast
      have "y \<in> set (br_observed u) \<and> ob_index y = it_index x" using y(1) by (auto simp: find_Some_iff in_set_conv_nth)
      then show ?thesis using y pos nth_mem [of ?p es] unfolding proven_item_def by blast
    qed
    have "list_all2 (\<lambda>x y. it_status y = BatchItemEvidenceSucceeded \<longrightarrow>
          \<not> conflict \<and> (it_status x = BatchItemEvidenceSucceeded \<or> br_succeeded u \<and> proven_item u es x)) xs zs"
      using rest proven_expectation [OF same] by (auto elim: list_all2_mono)
    then show ?thesis using rest same head False zs(2) by auto
  qed
qed simp

section \<open>Every item has evidence\<close>

definition covered :: "batch_store \<Rightarrow> bool" where
  "covered s = (\<forall>k. \<forall>x \<in> set (rows (bt_items s) k). \<exists>e \<in> set (rows (bt_evidence s) k). ev_index e = it_index x)"

text \<open>Actions that leave the items and their evidence alone.\<close>

definition leaves :: "(batch_store, 'a) action \<Rightarrow> bool" where
  "leaves m = (\<forall>s. bt_items (snd (m s)) = bt_items s \<and> bt_evidence (snd (m s)) = bt_evidence s)"

named_theorems leaves_intros

lemma leaves_base [leaves_intros]: "leaves (retM x)" "leaves (failM e)" "leaves (readM r)" "leaves (guardM b e)"
  by (simp_all add: leaves_def)

lemma leaves_bindM [leaves_intros]: "leaves m \<Longrightarrow> (\<And>x. leaves (f x)) \<Longrightarrow> leaves (bindM m f)"
  by (auto simp: leaves_def bindM_run split: sum.splits prod.splits) (metis snd_conv)+

lemma leaves_if [leaves_intros]: "leaves m \<Longrightarrow> leaves n \<Longrightarrow> leaves (if b then m else n)"
  by simp

lemma clear_rows [simp]:
  "bt_items (fold (clearInputLease now) xs s) = bt_items s" "bt_evidence (fold (clearInputLease now) xs s) = bt_evidence s"
  by (induction xs arbitrary: s) (simp_all add: clearInputLease_def split: option.splits)

lemma leaves_write [leaves_intros]:
  "leaves (writeM (storeBatchOperation op k))" "leaves (writeM (fold storeReservationLocked rs))" "leaves (writeM (clearBatchInputLeasesLocked k now))"
  "leaves (writeM (\<lambda>s. if b then clearBatchInputLeasesLocked k now s else s))"
  by (simp_all add: leaves_def storeBatchOperation_def clearBatchInputLeasesLocked_def)

lemma leaves_transition [leaves_intros]: "leaves (transitionBatchInputReservationsExactLocked k f g token now)"
  unfolding transitionBatchInputReservationsExactLocked_def by (intro leaves_intros)

lemma leaves_commands:
  "leaves (AcquireBatchOperationLease k owner token until now)" "leaves (HeartbeatBatchOperationLease k token until now)" "leaves (ReleaseBatchOperationLease k token now)"
  "leaves (CompareAndSetBatchOperationStatus k token f g now)" "leaves (PrepareBatchOperationResign k token h code now)" "leaves (SaveBatchProofArtifacts k token a now)"
  "leaves (SaveBatchSignedTx k token u now)" "leaves (RecordBatchBroadcast k token v now)"
  unfolding AcquireBatchOperationLease_def HeartbeatBatchOperationLease_def ReleaseBatchOperationLease_def CompareAndSetBatchOperationStatus_def
    PrepareBatchOperationResign_def SaveBatchProofArtifacts_def SaveBatchSignedTx_def RecordBatchBroadcast_def broadcastTarget_def transitionBatchInputReservationsLocked_def Let_def
  by (intro leaves_intros)+

lemma leaves_covered: "leaves m \<Longrightarrow> covered s \<Longrightarrow> covered (snd (m s))"
  by (simp add: leaves_def covered_def)

lemma items_covered: "validateBatchItems xs op es seen = Inr () \<Longrightarrow> \<forall>x \<in> set xs. \<exists>e \<in> set es. ev_index e = it_index x"
  by (induction xs op es seen rule: validateBatchItems.induct) (auto 0 4 simp: guardE_def dest!: map_of_SomeD split: option.splits if_splits)

lemma create_covered:
  assumes "covered s"
  shows "covered (snd (CreateBatchOperation rs g s))"
proof (cases "validateBatchGraphCreateLocked rs g s")
  case (Inl e)
  then show ?thesis using assms by (simp add: CreateBatchOperation_def bindM_run Let_def)
next
  case (Inr x)
  then have "\<forall>x \<in> set (bg_items g). \<exists>e \<in> set (bg_evidence g). ev_index e = it_index x"
    by (intro items_covered) (auto simp: validateBatchGraphCreateLocked_def Let_def)
  then show ?thesis using Inr assms
    by (simp add: CreateBatchOperation_def bindM_run Let_def storeBatchOperation_def covered_def rows_def update_conv' cloneBatchItems_def cloneBatchEvidence_def) blast
qed

section \<open>A reconciliation\<close>

lemma check_spent_iff: "checkSpent ids inputIDs seen = Inr () \<longleftrightarrow> set ids \<subseteq> set inputIDs \<and> distinct ids \<and> set ids \<inter> set seen = {}"
  by (induction ids arbitrary: seen) (auto simp: guardE_def)

lemma reconcile_rows [simp]:
  "bt_items (fold (reconcileInput u conflict now) xs s) = bt_items s" "bt_evidence (fold (reconcileInput u conflict now) xs s) = bt_evidence s"
  by (induction xs arbitrary: s) (simp_all add: reconcileInput_def Let_def)

lemma rows_update [simp]: "rows (AList.update k xs m) = (rows m)(k := xs)"
  by (rule ext) (simp add: rows_def update_conv')

lemma reconcile_run:
  assumes "ReconcileBatchOperation k u now s = (Inr g, t)"
  obtains op attempt ys fs conflict n where "map_of (bt_operations s) k = Some op"
    "n = length (inputs_of s k)" "conflict = terminalConflict op u n" "set (br_spent u) \<subseteq> in_reservation ` set (inputs_of s k)" "distinct (br_spent u)"
    "reconcileItems u conflict now (cloneBatchItems (rows (bt_items s) k)) (cloneBatchEvidence (rows (bt_evidence s) k)) = (ys, fs)"
    "map_of (bt_operations t) k = Some (reconciledOperation op u attempt n now)"
    "rows (bt_items t) = (rows (bt_items s))(k := cloneBatchItems ys)" "rows (bt_evidence t) = (rows (bt_evidence s))(k := cloneBatchEvidence fs)"
    "reservation_of t = reservation_of (clearBatchInputLeasesLocked k now (fold (reconcileInput u conflict now) (inputs_of s k) s))"
  using assms
  by (auto simp: ReconcileBatchOperation_def findBatch_def Let_def guardE_def check_spent_iff storeBatchOperation_def clearBatchInputLeasesLocked_def update_conv'
      bindM_run split: sum.splits if_splits prod.splits option.splits)

lemma reconcile_fails: "ReconcileBatchOperation k u now s = (Inl e, t) \<Longrightarrow> t = s"
  by (auto simp: ReconcileBatchOperation_def bindM_run guardE_def split: sum.splits if_splits prod.splits)

lemma reconcile_covered:
  assumes "covered s"
  shows "covered (snd (ReconcileBatchOperation k u now s))"
proof (cases "ReconcileBatchOperation k u now s")
  case (Pair y t)
  show ?thesis
  proof (cases y)
    case (Inl e)
    then show ?thesis using Pair reconcile_fails [of k u now s e t] assms by simp
  next
    case (Inr g)
    obtain ys fs conflict where run: "reconcileItems u conflict now (cloneBatchItems (rows (bt_items s) k)) (cloneBatchEvidence (rows (bt_evidence s) k)) = (ys, fs)"
      "rows (bt_items t) = (rows (bt_items s))(k := cloneBatchItems ys)" "rows (bt_evidence t) = (rows (bt_evidence s))(k := cloneBatchEvidence fs)"
      using reconcile_run [of k u now s g t] Pair Inr by metis
    have cover: "\<forall>x \<in> set (cloneBatchItems (rows (bt_items s) k)). \<exists>e \<in> set (cloneBatchEvidence (rows (bt_evidence s) k)). ev_index e = it_index x"
      using assms by (simp add: covered_def cloneBatchItems_def cloneBatchEvidence_def)
    note sound = reconcile_items_sound [OF run(1) cover]
    have "\<exists>f \<in> set fs. ev_index f = it_index y" if y: "y \<in> set ys" for y
    proof (rule covered_expectation)
      have "it_index y \<in> set (map it_index (cloneBatchItems (rows (bt_items s) k)))" using sound y by (metis image_eqI set_map)
      then show "\<exists>e \<in> set (cloneBatchEvidence (rows (bt_evidence s) k)). ev_index e = it_index y" using cover by auto
    qed (use sound in blast)
    then show ?thesis using Pair assms by (simp add: covered_def run(2,3)) (simp add: cloneBatchItems_def cloneBatchEvidence_def)
  qed
qed

lemma single_leaves:
  assumes "mem_inv s"
  shows "bt_items (snd (run_cmd now c s)) = bt_items s \<and> bt_evidence (snd (run_cmd now c s)) = bt_evidence s"
  using cmd_cases [OF assms, of now c] by (auto simp: writes_def)

lemma snd_drop: "snd (dropM m s) = snd (m s)"
  by (simp add: dropM_def bindM_run split: sum.splits prod.splits)

lemma batch_covered:
  assumes "batch_inv U s" "covered s"
  shows "covered (snd (run_batch now c s))"
proof (cases c)
  case (Single d)
  then show ?thesis using single_leaves [OF inv_mem [OF assms(1)], of now d] assms(2) by (simp add: covered_def)
qed (simp_all add: snd_drop leaves_covered leaves_commands create_covered reconcile_covered assms(2))

lemma runs_covered: "batch_inv UNIV s \<Longrightarrow> covered s \<Longrightarrow> covered (run_batches cs s)"
proof (induction cs arbitrary: s)
  case (Cons c cs)
  obtain now d where c: "c = (now, d)" by (cases c)
  have "batch_inv UNIV (snd (run_batch now d s))" using batch_step_ok [OF Cons.prems(1)] by simp
  then show ?case using Cons.IH batch_covered [OF Cons.prems] by (simp add: run_batches_def c)
qed (simp add: run_batches_def)

lemma new_covered: "covered newBatchStore"
  by (simp add: covered_def newBatchStore_def mem_store.extend_def batch_store.fields_def rows_def)

lemmas reached_covered = runs_covered [OF new_batch_inv new_covered]

lemma conflict_status: "bo_status p = bo_status op \<Longrightarrow> terminalConflict p u n = terminalConflict op u n \<and> reconciledStatus p u n = reconciledStatus op u n"
  by (simp add: terminalConflict_def reconciledStatus_def)

lemma reconciled_status [simp]: "bo_status (reconciledOperation op u attempt n now) = reconciledStatus op u n" "bo_lease_token (reconciledOperation op u attempt n now) = []"
proof -
  let ?p = "if br_tx_hash u = [] then op
    else (case attempt of None \<Rightarrow> op
          | Some a \<Rightarrow> op\<lparr>bo_signed := at_signed a, bo_tx_bytes_hash := at_tx_bytes_hash a, bo_sign_doc_hash := at_sign_doc_hash a, bo_sequence := at_sequence a\<rparr>)\<lparr>bo_tx_hash := br_tx_hash u\<rparr>"
  have "bo_status ?p = bo_status op" by (simp split: option.splits)
  from conflict_status [OF this, of u n]
  show "bo_status (reconciledOperation op u attempt n now) = reconciledStatus op u n" "bo_lease_token (reconciledOperation op u attempt n now) = []"
    unfolding reconciledOperation_def Let_def clearBatchOperationLease_def by simp_all
qed

lemma outcome_names [simp]:
  "OperationStatusSucceeded \<noteq> OperationStatusFailed" "OperationStatusSucceeded \<noteq> OperationStatusManualReview" "OperationStatusSucceeded \<noteq> OperationStatusConflictSpent"
  "OperationStatusFailed \<noteq> OperationStatusManualReview" "OperationStatusFailed \<noteq> OperationStatusConflictSpent" "OperationStatusManualReview \<noteq> OperationStatusConflictSpent"
  by (simp_all add: status_defs)

lemmas outcome_cases = reconciledStatus_def requestedStatus_def outcome_names outcome_names [symmetric]

lemma reconciled_status_cases:
  "reconciledStatus op u n = OperationStatusSucceeded \<Longrightarrow> br_succeeded u \<and> length (br_spent u) = n"
  "reconciledStatus op u n = OperationStatusFailed \<Longrightarrow> br_failed u \<and> br_spent u = []"
  "IsTerminalOperationStatus (bo_status op) \<Longrightarrow> reconciledStatus op u n \<in> {bo_status op, OperationStatusManualReview, OperationStatusConflictSpent}"
  subgoal by (simp add: outcome_cases split: if_splits)
  subgoal by (simp add: outcome_cases split: if_splits)
  subgoal by (simp add: reconciledStatus_def terminalConflict_def)
  done

lemma reconciled_reservations:
  assumes "batch_inv U s"
  shows "reservation_of (clearBatchInputLeasesLocked k now (fold (reconcileInput u conflict now) (inputs_of s k) s)) i =
    (if i \<in> in_reservation ` set (inputs_of s k) then map_option (\<lambda>r. (clearReservationLeaseFields (inputAfter u conflict now i r))\<lparr>nr_updated := now\<rparr>) (reservation_of s i)
     else reservation_of s i)"
proof -
  let ?t = "fold (reconcileInput u conflict now) (inputs_of s k) s"
  have rows: "distinct (map in_reservation (inputs_of s k))" "\<forall>x \<in> set (inputs_of s k). \<exists>r. reservation_of s (in_reservation x) = Some r" using assms by (auto simp: batch_inv_def)
  have ev: "evolves s ?t \<and> bt_inputs ?t = bt_inputs s"
    by (intro fold_evolves [of "\<lambda>s x. \<exists>r. reservation_of s (in_reservation x) = Some r"])
      (erule (1) reconcile_input_evolves, erule (1) evolves_keeps, rule inv_mem [OF assms], rule rows(2))
  then have "mem_inv ?t" by (simp add: evolves_def)
  from clear_leases_lookup [OF this, of now "inputs_of s k" i] show ?thesis
    using ev reconcile_inputs_lookup [OF inv_mem [OF assms] rows, of u conflict now i] by (simp add: clearBatchInputLeasesLocked_def option.map_comp comp_def)
qed

text \<open>C13. What a reconciliation of a batch concludes: the operation succeeds only on a successful transaction with every input confirmed as spent, and fails only on a failed
  transaction with no spent input; a terminal status, a failure included, is never replaced by another outcome but only by a conflict or a manual review; every reported spend is recorded,
  whatever the outcome; reservations outside the batch stay; an item succeeds only if an output was observed that matches the expected evidence and whose disclosures were delivered.\<close>

theorem batch_reconcile_sound:
  fixes cs
  defines "s \<equiv> run_batches cs newBatchStore"
  assumes "ReconcileBatchOperation k u now s = (Inr g, t)"
  shows "(\<exists>op op'. map_of (bt_operations s) k = Some op \<and> map_of (bt_operations t) k = Some op' \<and> bo_lease_token op' = [] \<and>
      (bo_status op' = OperationStatusSucceeded \<longrightarrow>
         br_succeeded u \<and> (\<forall>x \<in> set (inputs_of s k). \<exists>r. reservation_of t (in_reservation x) = Some r \<and> nr_status r = StatusConfirmedSpent)) \<and>
      (bo_status op' = OperationStatusFailed \<longrightarrow> br_failed u \<and> br_spent u = []) \<and>
      (IsTerminalOperationStatus (bo_status op) \<longrightarrow> bo_status op' \<in> {bo_status op, OperationStatusManualReview, OperationStatusConflictSpent})) \<and>
    (\<forall>i \<in> set (br_spent u). \<exists>r. reservation_of t i = Some r \<and> nr_status r = StatusConfirmedSpent \<and> nr_lease_token r = []) \<and>
    (\<forall>i. i \<notin> in_reservation ` set (inputs_of s k) \<longrightarrow> reservation_of t i = reservation_of s i) \<and>
    (\<forall>y \<in> set (rows (bt_items t) k). it_status y = BatchItemEvidenceSucceeded \<longrightarrow>
      (\<exists>x \<in> set (rows (bt_items s) k). it_index x = it_index y \<and>
         (it_status x = BatchItemEvidenceSucceeded \<or> br_succeeded u \<and> proven_item u (rows (bt_evidence s) k) x)))"
proof -
  let ?in = "in_reservation ` set (inputs_of s k)"
  obtain op attempt ys fs conflict n where found: "map_of (bt_operations s) k = Some op" and run: "n = length (inputs_of s k)" "conflict = terminalConflict op u n" "set (br_spent u) \<subseteq> ?in" "distinct (br_spent u)"
    "reconcileItems u conflict now (cloneBatchItems (rows (bt_items s) k)) (cloneBatchEvidence (rows (bt_evidence s) k)) = (ys, fs)"
    "map_of (bt_operations t) k = Some (reconciledOperation op u attempt n now)"
    "rows (bt_items t) = (rows (bt_items s))(k := cloneBatchItems ys)" "rows (bt_evidence t) = (rows (bt_evidence s))(k := cloneBatchEvidence fs)"
    "reservation_of t = reservation_of (clearBatchInputLeasesLocked k now (fold (reconcileInput u conflict now) (inputs_of s k) s))"
    using reconcile_run [OF assms(2)] by metis
  have inv: "batch_inv (overwritten cs) s" "covered s" unfolding s_def using reached_inv reached_covered by blast+
  note after = reconciled_reservations [OF inv(1), of k now u conflict, folded run(9)]
  have known: "\<exists>r. reservation_of s i = Some r" if "i \<in> ?in" for i using inv(1) that by (auto simp: batch_inv_def)
  have spent: "\<exists>r. reservation_of t i = Some r \<and> nr_status r = StatusConfirmedSpent \<and> nr_lease_token r = []" if "i \<in> set (br_spent u)" for i
    using known [of i] that run(3) by (auto simp: after inputAfter_def clearReservationLeaseFields_def)
  have all: "set (br_spent u) = ?in" if "length (br_spent u) = n"
  proof (rule card_subset_eq [OF _ run(3)])
    show "card (set (br_spent u)) = card ?in" using inv(1) run(1,4) that by (simp add: distinct_card batch_inv_def flip: set_map)
  qed simp
  have items: "\<exists>x \<in> set (rows (bt_items s) k). it_index x = it_index y \<and> (it_status x = BatchItemEvidenceSucceeded \<or> br_succeeded u \<and> proven_item u (rows (bt_evidence s) k) x)"
    if y: "y \<in> set (rows (bt_items t) k)" "it_status y = BatchItemEvidenceSucceeded" for y
  proof -
    have sound: "map it_index ys = map it_index (cloneBatchItems (rows (bt_items s) k)) \<and>
      list_all2 (\<lambda>x y. it_status y = BatchItemEvidenceSucceeded \<longrightarrow> \<not> conflict \<and> (it_status x = BatchItemEvidenceSucceeded \<or>
        br_succeeded u \<and> proven_item u (cloneBatchEvidence (rows (bt_evidence s) k)) x)) (cloneBatchItems (rows (bt_items s) k)) ys"
      using reconcile_items_sound [OF run(5)] inv(2) by (simp add: covered_def cloneBatchItems_def cloneBatchEvidence_def)
    obtain m where m: "m < length ys" "y = ys ! m" using y(1) run(7) by (auto simp: cloneBatchItems_def in_set_conv_nth)
    let ?x = "cloneBatchItems (rows (bt_items s) k) ! m"
    have len: "m < length (cloneBatchItems (rows (bt_items s) k))" using list_all2_lengthD [OF conjunct2 [OF sound]] m(1) by simp
    have "it_index ?x = it_index y" using arg_cong [OF conjunct1 [OF sound], of "\<lambda>l. l ! m"] m len by simp
    moreover have "?x \<in> set (rows (bt_items s) k)" using nth_mem [OF len] by (simp add: cloneBatchItems_def)
    moreover have "it_status ?x = BatchItemEvidenceSucceeded \<or> br_succeeded u \<and> proven_item u (rows (bt_evidence s) k) ?x"
      using conjunct2 [OF sound, THEN list_all2_nthD2, OF m(1)] m(2) y(2) by (simp add: proven_item_def cloneBatchEvidence_def)
    ultimately show ?thesis by blast
  qed
  let ?op = "reconciledOperation op u attempt n now"
  have success: "br_succeeded u \<and> (\<forall>x \<in> set (inputs_of s k). \<exists>r. reservation_of t (in_reservation x) = Some r \<and> nr_status r = StatusConfirmedSpent)"
    if "bo_status ?op = OperationStatusSucceeded"
    using reconciled_status_cases(1) [of op u n] that all spent by simp blast
  have outside: "reservation_of t i = reservation_of s i" if "i \<notin> ?in" for i using after [of i] that by simp
  show ?thesis
  proof (intro conjI)
    show "\<exists>op op'. map_of (bt_operations s) k = Some op \<and> map_of (bt_operations t) k = Some op' \<and> bo_lease_token op' = [] \<and>
      (bo_status op' = OperationStatusSucceeded \<longrightarrow>
         br_succeeded u \<and> (\<forall>x \<in> set (inputs_of s k). \<exists>r. reservation_of t (in_reservation x) = Some r \<and> nr_status r = StatusConfirmedSpent)) \<and>
      (bo_status op' = OperationStatusFailed \<longrightarrow> br_failed u \<and> br_spent u = []) \<and>
      (IsTerminalOperationStatus (bo_status op) \<longrightarrow> bo_status op' \<in> {bo_status op, OperationStatusManualReview, OperationStatusConflictSpent})"
      by (rule exI [of _ op], rule exI [of _ ?op], intro conjI impI, rule found, rule run(6), rule reconciled_status(2), use success in blast, use success in blast)
        (simp_all only: reconciled_status reconciled_status_cases)
  qed (use spent outside items in blast)+
qed

definition sample_chain :: batch_reconcile where
  "sample_chain = \<lparr>br_tx_hash = ''h'', br_succeeded = True, br_failed = False, br_spent = [''r1''],
     br_observed = [\<lparr>ob_index = 0, ob_commitment = ''c'', ob_user_digest = [], ob_full_digest = ''f'', ob_recipient_hash = [], ob_audit_failed = False, ob_self_failed = False\<rparr>],
     br_reason = []\<rparr>"

lemma sample_reconciled:
  "\<exists>g. fst (ReconcileBatchOperation ''o'' sample_chain 3 (run_batches [(1, CreateBatch [sample_member] sample_graph)] newBatchStore)) = Inr g"
  unfolding sample_batch
  by (simp add: ReconcileBatchOperation_def bindM_run findBatch_def historicalAttempt_def guardE_def rows_def sample_chain_def sample_graph_def zeroOperation_def)

theorem batch_reconcile_sound_witness:
  "\<exists>r. reservation_of (snd (ReconcileBatchOperation ''o'' sample_chain 3 (run_batches [(1, CreateBatch [sample_member] sample_graph)] newBatchStore))) ''r1'' = Some r \<and>
     nr_status r = StatusConfirmedSpent"
proof -
  let ?run = "ReconcileBatchOperation ''o'' sample_chain 3 (run_batches [(1, CreateBatch [sample_member] sample_graph)] newBatchStore)"
  obtain g where "fst ?run = Inr g" using sample_reconciled by blast
  then have run: "?run = (Inr g, snd ?run)" by (metis prod.collapse)
  have "''r1'' \<in> set (br_spent sample_chain)" by (simp add: sample_chain_def)
  then show ?thesis using batch_reconcile_sound [OF run] by blast
qed

end
