(* ===== verification/Spec2Isabelle.thy ===== *)
theory Spec2Isabelle
  imports Merkle_Theorems Amount128 Audit_Cipher Key_Lifecycle Reserve Asset_Registry Principal Batch_Contract Gas_Model Ed_Compressed Audit_Charge Scan_Theorems Event_Theorems Intent Legacy_Theorems Reservation_Batch_Reconcile
begin

text \<open>
  \<^bold>\<open>Verification of the clairveil privacy module.\<close>

  \<^bold>\<open>The program.\<close> clairveil is a Cosmos chain with a shielded pool. The module \<^verbatim>\<open>x/privacy\<close> keeps a Merkle tree of note commitments, the set of
  spent nullifiers, a reserve of public coins and an index from which wallets find their notes. A deposit turns public coins into a note,
  a transfer spends notes and creates new ones, a withdrawal spends a note for public coins. Every message carries a zero-knowledge proof
  and, in the audit mode, an encryption of its plaintext to the auditor's current key. The keeper (\<^verbatim>\<open>x/privacy/keeper\<close>) validates a message with
  the adapter of \<^verbatim>\<open>x/privacy/types\<close>, charges gas for its shape, rebuilds the public inputs from the message and the state, verifies the proof
  and applies the transition: principal, nullifiers, commitments, scan index, events.

  \<^bold>\<open>How the model is built.\<close> A store is the ascending list of its pairs (\<open>KV_Store\<close>), an operation of the keeper is an action on it that returns a
  value or an error, and operations that also touch bank, gas and events act on the record \<open>chain\<close> (\<open>Chain_State\<close>). Integers of a fixed width are
  words, \<^verbatim>\<open>int64\<close> and \<^verbatim>\<open>big.Int\<close> are integers with the wrap-around written where the code relies on it. A pointer is an option. An iterator is
  the list of pairs it visits. Errors keep the sentinels that the code compares (\<open>error\<close> in \<open>Prelude\<close>); a formatted error keeps its fixed text.
  What is not under \<^verbatim>\<open>src/\<close> is a field of an environment record that the definitions take: the MiMC sponge, the twisted Edwards package and the
  address codec (\<open>crypto_env\<close>, \<open>keeper_env\<close>), the bank and the address and coin rules of the SDK (\<open>sdk_env\<close>), the proof verifier, the circuit identities
  and the transition hook (\<open>app_env\<close>). SHA-256 is executable (\<open>Sha256\<close>). The only law assumed of a parameter is \<open>crypto_ok\<close>: the digest of the
  sponge is a canonical field element; it is a hypothesis, and the samples show that it can hold.

  \<^bold>\<open>Theories and sources\<close> (paths below \<^verbatim>\<open>src/\<close>).

  \<^item> \<open>Prelude\<close>, \<open>KV_Store\<close>: bytes, words, results and actions; the store, its interface locale \<open>kv_interface\<close> and \<^verbatim>\<open>x/privacy/types/keys.go\<close>.
  \<^item> \<open>Field_Bytes\<close>, \<open>Merkle_Tree\<close>, \<open>Merkle_Spec\<close>, \<open>Path_Snapshot\<close>, \<open>Merkle_Theorems\<close>: \<^verbatim>\<open>keeper/field_bytes.go\<close>, \<^verbatim>\<open>types/note_v1.go\<close>, \<^verbatim>\<open>keeper/tree.go\<close>,
    \<^verbatim>\<open>keeper/path_snapshot.go\<close>. The store represents a list of leaves (\<open>tree_inv\<close>); appending refines snoc, paths fold to the root, the ways to
    compute a root agree, stores with equal roots hold equal leaves or exhibit a collision of MiMC inputs.
  \<^item> \<open>Amount128\<close>: \<^verbatim>\<open>amount/amount.go\<close>, \<^verbatim>\<open>types/amount.go\<close>: two-limb arithmetic against natural numbers, text and byte forms.
  \<^item> \<open>Ed_Curve\<close>, \<open>Ed_Compressed\<close>: \<^verbatim>\<open>crypto/internal/ctbn254\<close>: ladders, inverses, point codecs, the public square root and its termination.
  \<^item> \<open>Secret_Profile\<close>, \<open>Audit_Schema\<close>, \<open>Audit_Params\<close>, \<open>Audit_Cipher\<close>, \<open>Audit_Aux\<close>: \<^verbatim>\<open>secretprofile/profile.go\<close> and \<^verbatim>\<open>crypto/auditfield\<close>: the gate for secrets, fields, kinds, envelopes, contexts, the Poseidon2 sponge in the
    SAFE mode, sealing and opening, the auxiliary frame; decryption accepts exactly what sealing produced under the same context.
  \<^item> \<open>Audit_Keys\<close>, \<open>Key_Lifecycle\<close>: \<^verbatim>\<open>keeper/audit_records.go\<close>, \<^verbatim>\<open>audit_runtime.go\<close>, \<^verbatim>\<open>audit_keys.go\<close>. Each operation makes exactly the step that its message asks for on a small machine
    of scheduled, active and cancelled keys (\<open>op_step\<close>), whose runs keep epochs consecutive and key identifiers unique.
  \<^item> \<open>Reserve\<close>, \<open>Asset_Registry\<close>, \<open>Principal\<close>: \<^verbatim>\<open>keeper/reserve.go\<close>, \<^verbatim>\<open>asset_registry.go\<close>, \<^verbatim>\<open>internal/auditbank\<close>: exact accounting, the bijection of the
    registry with its genesis round trip, the one-shot capability over the module account and the facade of the bank.
  \<^item> \<open>Note_V1\<close>, \<open>Fixed_Payload\<close>, \<open>Disclosure\<close>, \<open>Batch_Contract\<close>, \<open>Gas_Model\<close>: \<^verbatim>\<open>types/note.go\<close>, \<^verbatim>\<open>fixed_payload.go\<close>, \<^verbatim>\<open>disclosure_blinding.go\<close>,
    \<^verbatim>\<open>transfer_disclosure.go\<close>, \<^verbatim>\<open>batch_contract.go\<close>, \<^verbatim>\<open>zk/resource_model.go\<close>, \<^verbatim>\<open>audit_resource_model.go\<close>: payload codecs, disclosure digests, vector
    roots that bind their values, gas without wrap-around.
  \<^item> \<open>Proto_Size\<close>, \<open>Proto_Wire\<close>, \<open>Tx_Wire\<close>, \<open>Scan_Records\<close>, \<open>Event_Records\<close>: the generated marshalling of \<^verbatim>\<open>genesis.pb.go\<close>, \<^verbatim>\<open>query.pb.go\<close> and \<^verbatim>\<open>v2/tx.pb.go\<close> as
    one reader and one writer over tables of fields, with a round trip per message.
  \<^item> \<open>Audit_Message\<close>, \<open>Audit_Public\<close>, \<open>Audit_Apply\<close>, \<open>Frames\<close>, \<open>Audit_Execute\<close>, \<open>Audit_Charge\<close>: \<^verbatim>\<open>types/audit_adapter.go\<close>, \<^verbatim>\<open>keeper/audit_public.go\<close>,
    \<^verbatim>\<open>audit_msg_server.go\<close>, \<^verbatim>\<open>audit_apply.go\<close>, \<^verbatim>\<open>msg_server_batch_transfer.go\<close>. \<open>Frames\<close> says which keys an action may write. The end-to-end theorem composes
    all components: an executed message was valid and proved, spent fresh nullifiers, appended its commitments, moved exactly its coins.
  \<^item> \<open>Privacy_Scan\<close>, \<open>Scan_Query\<close>, \<open>Scan_Index\<close>, \<open>Scan_Store\<close>, \<open>Sample_Scan\<close>, \<open>Scan_Theorems\<close>: \<^verbatim>\<open>keeper/privacy_scan.go\<close>. The index represents a list of events
    ordered by height and sequence (\<open>scan_index\<close>); writing refines insertion, a page is an exact slice after its cursor.
  \<^item> \<open>Event_Records\<close>, \<open>Event_Index\<close>, \<open>Event_Store\<close>, \<open>Event_Theorems\<close>: \<^verbatim>\<open>keeper/event_index.go\<close> and the builders of typed records of \<^verbatim>\<open>privacy_scan.go\<close>.
    Emitting an event inserts it into both indexes under the next global sequence (\<open>index_inv\<close>), a page of the event query is exact, and the
    exported indexes import to the same indexes.
  \<^item> \<open>Intent\<close>: \<^verbatim>\<open>types/intent.go\<close>: prefix codes, chain domains, payload digests and intents; equal payload digests mean equal effects or a collision.
  \<^item> \<open>Legacy_Messages\<close>, \<open>Legacy_Server\<close>, \<open>Legacy_Theorems\<close>: the service that the audit runtime replaces: \<^verbatim>\<open>types/msg.go\<close>, \<^verbatim>\<open>zk/proof.go\<close>,
    \<^verbatim>\<open>keeper/proof_helpers.go\<close>, \<^verbatim>\<open>audit_config.go\<close>, \<^verbatim>\<open>deposit.go\<close>, \<^verbatim>\<open>msg_server.go\<close>; what a successful transfer did, and when a withdrawal is refused.
  \<^item> \<open>Reservation_Types\<close>, \<open>Reservation_Store\<close>, \<open>Reservation_Runs\<close>, \<open>Reservation_Service\<close>, \<open>Reservation_Reconcile\<close>: \<^verbatim>\<open>x/privacy/client/sdk/reservation\<close>
    (\<^verbatim>\<open>types.go\<close>, \<^verbatim>\<open>status.go\<close>, \<^verbatim>\<open>memory_store.go\<close>, \<^verbatim>\<open>lease.go\<close>, \<^verbatim>\<open>service.go\<close>, \<^verbatim>\<open>reconcile.go\<close>, \<^verbatim>\<open>audit_v2.go\<close>, \<^verbatim>\<open>lookup_key.go\<close>). A run is a list of timed
    commands, one per call of a writing method of the store, in the order of the mutex; a note is held once, statuses follow the table of transitions except where
    \<open>UpdateReservation\<close> overwrites a reservation, a lease excludes others who need a token, and a reconciliation goes only as far as the evidence. A method of the
    service is one action, although in the source its calls of the store take the mutex one by one.
  \<^item> \<open>Reservation_Batch\<close>, \<open>Reservation_Batch_Runs\<close>, \<open>Reservation_Batch_Reconcile\<close>: \<^verbatim>\<open>batch_types.go\<close> and \<^verbatim>\<open>batch_memory_store.go\<close> of the same package: batch operations over
    several reservations. Runs mix single and batch methods; the inputs of a batch stay distinct existing reservations, and a reconciliation of a batch concludes
    only what the chain reported.

  \<^bold>\<open>Interfaces.\<close> \<open>kv_interface\<close> states what the keeper relies on of the store and \<open>kv\<close> interprets it; \<open>accumulator\<close> states what a set of spent values
  promises and \<open>spent\<close> interprets it on the nullifier keys; \<open>prefix_code\<close> in \<open>Intent\<close> states that a writer can be read
  back from the front of a stream and is interpreted on the two writers of payloads; \<open>keyed_machine\<close> in \<open>Reservation_Runs\<close>
  states what commands promise about the entries of a store and is interpreted on the runs of single and of batch methods, with the set of overwritten reservations as a parameter; further locales stand in the theories of the components that use them.

  \<^bold>\<open>Bounds and fuel.\<close> Every loop of the source is a structural recursion or a function with a termination proof; no definition runs out of fuel.
  The depth of the tree is 32 and its capacity \<open>2 ^ 32\<close> leaves; heights are the non-negative \<^verbatim>\<open>int64\<close>; a page holds at most 512 outputs, 256 events and
  4 MiB. Witnesses evaluate by the simplifier; those of the message handlers stop before a successful curve computation, which the kernel
  cannot evaluate in reasonable time.

  \<^bold>\<open>Findings.\<close> \<open>snapshot_import_refused\<close>: the snapshot importer refuses the genesis that the audit initialisation exports. \<open>budget_refusal\<close>: the scan query
  reports an oversized record although every record fits the byte limit. \<open>events_page\<close>: the bounds of the event query wrap around. \<open>late_withdrawal_refused\<close>:
  the first service refuses every withdrawal in a block after the last append. \<open>review_not_repeatable\<close>: a reservation under review cannot be reconciled again with
  the same evidence.

  \<^bold>\<open>Not modelled.\<close> The gnark circuits of \<^verbatim>\<open>x/privacy/circuit\<close> and the artifact files of \<^verbatim>\<open>x/privacy/zk\<close> (their verifier is a parameter): they are
  programs of a third-party constraint system. The limb code of \<^verbatim>\<open>fiat_p64.go\<close> and \<^verbatim>\<open>fiat_q64.go\<close>, which is generated and verified by its own
  project. The command line, the parts of the client SDK other than the reservations, the provers and benchmarks under \<^verbatim>\<open>x/privacy/client\<close> and \<^verbatim>\<open>cmd\<close>, and the
  wiring under \<^verbatim>\<open>app\<close>: input and output, network and key files. The constant-time wrappers of secrets, whose values are those of the plain arithmetic and whose gate is
  \<open>Secret_Profile\<close>. The gRPC gateway and the generated code of queries without a stored record. The validation of the whole genesis
  document and the query server, which forward to the operations modelled here.
\<close>

end
